(* ===== verification/Rust_Prelude.thy ===== *)
theory Rust_Prelude
  imports Complex_Main "HOL-Library.List_Lexorder"
begin

text \<open>
  Shared vocabulary of the development: the string operations of Rust's standard library
  that the sources use, JSON values as \<^verbatim>\<open>serde_json::Value\<close> has them, association-list
  counters for \<^verbatim>\<open>HashMap<String, u32>\<close>, and the generic lemmas the component theories share.

  A Rust \<^verbatim>\<open>String\<close> is a list of Unicode scalar values (\<^typ>\<open>nat list\<close>), so that
  \<^verbatim>\<open>chars()\<close>, \<^verbatim>\<open>trim()\<close> and the ASCII case mappings are list functions; \<open>utf8\<close> gives the
  bytes behind \<^verbatim>\<open>as_bytes()\<close>. An ASCII literal of the source is written \<open>lit ''abc''\<close>.
\<close>

named_theorems str_simps \<open>rewrite rules for the string helpers\<close>
named_theorems wf_intros \<open>introduction rules for the well-formedness invariants\<close>

section \<open>Strings\<close>

type_synonym rstr = "nat list"

definition lit :: "string \<Rightarrow> rstr" where
  "lit s = map of_char s"

lemma lit_inject [simp]: "lit a = lit b \<longleftrightarrow> a = b"
  by (simp add: lit_def inj_map_eq_map inj_of_char)

lemma lit_Nil [simp]: "lit [] = []"
  by (simp add: lit_def)

lemma lit_eq_Nil [simp]: "lit s = [] \<longleftrightarrow> s = []" "[] = lit s \<longleftrightarrow> s = []"
  by (simp_all add: lit_def)

lemma lit_append: "lit (a @ b) = lit a @ lit b"
  by (simp add: lit_def)

lemma length_lit [simp]: "length (lit s) = length s"
  by (simp add: lit_def)

subsection \<open>Characters\<close>

definition is_digit :: "nat \<Rightarrow> bool" where
  "is_digit c \<longleftrightarrow> 48 \<le> c \<and> c \<le> 57"

definition is_ascii_upper :: "nat \<Rightarrow> bool" where
  "is_ascii_upper c \<longleftrightarrow> 65 \<le> c \<and> c \<le> 90"

definition is_ascii_lower :: "nat \<Rightarrow> bool" where
  "is_ascii_lower c \<longleftrightarrow> 97 \<le> c \<and> c \<le> 122"

definition is_ascii_alnum :: "nat \<Rightarrow> bool" where
  "is_ascii_alnum c \<longleftrightarrow> is_digit c \<or> is_ascii_upper c \<or> is_ascii_lower c"

text \<open>The code points of Unicode's \<^verbatim>\<open>White_Space\<close> property, which \<^verbatim>\<open>char::is_whitespace\<close> tests.\<close>

definition is_whitespace :: "nat \<Rightarrow> bool" where
  "is_whitespace c \<longleftrightarrow> (9 \<le> c \<and> c \<le> 13) \<or> c = 32 \<or> c = 133 \<or> c = 160 \<or> c = 5760
     \<or> (8192 \<le> c \<and> c \<le> 8202) \<or> c = 8232 \<or> c = 8233 \<or> c = 8239 \<or> c = 8287 \<or> c = 12288"

definition ascii_lower :: "nat \<Rightarrow> nat" where
  "ascii_lower c = (if is_ascii_upper c then c + 32 else c)"

definition ascii_upper :: "nat \<Rightarrow> nat" where
  "ascii_upper c = (if is_ascii_lower c then c - 32 else c)"

lemma ascii_lower_idem [simp]: "ascii_lower (ascii_lower c) = ascii_lower c"
  by (auto simp: ascii_lower_def is_ascii_upper_def)

lemma ascii_upper_idem [simp]: "ascii_upper (ascii_upper c) = ascii_upper c"
  by (auto simp: ascii_upper_def is_ascii_lower_def)

definition to_ascii_lowercase :: "rstr \<Rightarrow> rstr" where
  "to_ascii_lowercase s = map ascii_lower s"

definition to_ascii_uppercase :: "rstr \<Rightarrow> rstr" where
  "to_ascii_uppercase s = map ascii_upper s"

definition eq_ignore_ascii_case :: "rstr \<Rightarrow> rstr \<Rightarrow> bool" where
  "eq_ignore_ascii_case a b \<longleftrightarrow> to_ascii_lowercase a = to_ascii_lowercase b"

lemma to_ascii_lowercase_idem [simp]:
  "to_ascii_lowercase (to_ascii_lowercase s) = to_ascii_lowercase s"
  by (simp add: to_ascii_lowercase_def)

lemma to_ascii_uppercase_idem [simp]:
  "to_ascii_uppercase (to_ascii_uppercase s) = to_ascii_uppercase s"
  by (simp add: to_ascii_uppercase_def)

lemma to_ascii_lowercase_Nil [simp]: "to_ascii_lowercase [] = []"
  by (simp add: to_ascii_lowercase_def)

lemma to_ascii_lowercase_eq_Nil [simp]: "to_ascii_lowercase s = [] \<longleftrightarrow> s = []"
  by (simp add: to_ascii_lowercase_def)

lemma to_ascii_uppercase_eq_Nil [simp]: "to_ascii_uppercase s = [] \<longleftrightarrow> s = []"
  by (simp add: to_ascii_uppercase_def)

lemma eq_ignore_ascii_case_refl [simp]: "eq_ignore_ascii_case s s"
  by (simp add: eq_ignore_ascii_case_def)

lemma eq_ignore_ascii_case_lower [simp]:
  "eq_ignore_ascii_case (to_ascii_lowercase s) t = eq_ignore_ascii_case s t"
  by (simp add: eq_ignore_ascii_case_def)

subsection \<open>Trimming and splitting\<close>

definition trim_start :: "rstr \<Rightarrow> rstr" where
  "trim_start s = dropWhile is_whitespace s"

definition trim :: "rstr \<Rightarrow> rstr" where
  "trim s = rev (dropWhile is_whitespace (rev (dropWhile is_whitespace s)))"

definition trim_end :: "rstr \<Rightarrow> rstr" where
  "trim_end s = rev (dropWhile is_whitespace (rev s))"

lemma trim_Nil [simp]: "trim [] = []"
  by (simp add: trim_def)

lemma set_trim: "set (trim s) \<subseteq> set s"
proof -
  have "set (dropWhile is_whitespace r) \<subseteq> set r" for r
    by (rule subsetI) (blast dest: set_dropWhileD)
  then show ?thesis unfolding trim_def by (metis order_trans set_rev)
qed

lemma trim_id:
  assumes "s = [] \<or> (\<not> is_whitespace (hd s) \<and> \<not> is_whitespace (last s))"
  shows "trim s = s"
proof (cases "s = []")
  case True
  then show ?thesis by simp
next
  case False
  then have h: "\<not> is_whitespace (hd s)" "\<not> is_whitespace (hd (rev s))"
    using assms by (auto simp: hd_rev)
  then have "dropWhile is_whitespace s = s" using False by (cases s) auto
  moreover have "dropWhile is_whitespace (rev s) = rev s" using h False by (cases "rev s") auto
  ultimately show ?thesis by (simp add: trim_def)
qed

lemma dropWhile_not_head: "dropWhile P s \<noteq> [] \<Longrightarrow> \<not> P (hd (dropWhile P s))"
  by (rule hd_dropWhile) auto

lemma trim_ends:
  assumes "trim s \<noteq> []"
  shows "\<not> is_whitespace (hd (trim s))" "\<not> is_whitespace (last (trim s))"
proof -
  let ?d = "dropWhile is_whitespace s"
  let ?r = "dropWhile is_whitespace (rev ?d)"
  have r: "?r \<noteq> []" using assms by (simp add: trim_def)
  have "last (trim s) = hd ?r" using r by (simp add: trim_def last_rev)
  moreover have "\<not> is_whitespace (hd ?r)" by (rule dropWhile_not_head [OF r])
  ultimately show "\<not> is_whitespace (last (trim s))" by simp
  have "\<exists>p. rev ?d = p @ ?r" by (metis takeWhile_dropWhile_id)
  then obtain p where p: "rev ?d = p @ ?r" by blast
  then have d: "?d = rev ?r @ rev p" by (metis rev_append rev_rev_ident)
  have "?d \<noteq> []" using r by (metis dropWhile.simps(1) rev.simps(1))
  then have nd: "\<not> is_whitespace (hd ?d)" by (rule dropWhile_not_head)
  have "hd ?d = hd (rev ?r)" using d r by (metis Nil_is_rev_conv hd_append2)
  then show "\<not> is_whitespace (hd (trim s))" using nd by (simp add: trim_def)
qed

lemma trim_eq_Nil: "trim s = [] \<longleftrightarrow> (\<forall>c \<in> set s. is_whitespace c)"
proof -
  have "(\<forall>c \<in> set (dropWhile is_whitespace s). is_whitespace c) \<longleftrightarrow> (\<forall>c \<in> set s. is_whitespace c)"
    by (induction s) auto
  then show ?thesis by (simp add: trim_def dropWhile_eq_Nil_conv)
qed

lemma trim_idem [simp]: "trim (trim s) = trim s"
  by (rule trim_id) (use trim_ends in blast)

lemma trim_to_ascii_lowercase:
  "trim (to_ascii_lowercase s) = to_ascii_lowercase (trim s)"
proof -
  have ws: "is_whitespace (ascii_lower c) = is_whitespace c" for c
    by (auto simp: ascii_lower_def is_whitespace_def is_ascii_upper_def)
  have dw: "dropWhile is_whitespace (map ascii_lower t) = map ascii_lower (dropWhile is_whitespace t)" for t
    by (induction t) (simp_all add: ws)
  show ?thesis unfolding trim_def to_ascii_lowercase_def dw rev_map dw by simp
qed

fun starts_with :: "rstr \<Rightarrow> rstr \<Rightarrow> bool" where
  "starts_with s [] = True"
| "starts_with [] (p # ps) = False"
| "starts_with (c # cs) (p # ps) = (c = p \<and> starts_with cs ps)"

lemma starts_with_iff: "starts_with s p \<longleftrightarrow> (\<exists>r. s = p @ r)"
  by (induction s p rule: starts_with.induct) auto

lemma starts_with_append [simp]: "starts_with (p @ r) p"
  by (simp add: starts_with_iff)

fun contains_str :: "rstr \<Rightarrow> rstr \<Rightarrow> bool" where
  "contains_str [] p = (p = [])"
| "contains_str (c # cs) p = (starts_with (c # cs) p \<or> contains_str cs p)"

lemma contains_str_iff: "contains_str s p \<longleftrightarrow> (\<exists>a b. s = a @ p @ b)"
proof (induction s p rule: contains_str.induct)
  case (1 p)
  then show ?case by auto
next
  case (2 c cs p)
  show ?case
  proof
    assume "contains_str (c # cs) p"
    then consider "starts_with (c # cs) p" | "contains_str cs p" by auto
    then show "\<exists>a b. c # cs = a @ p @ b"
    proof cases
      case 1
      then show ?thesis by (metis append_Nil starts_with_iff)
    next
      case 2
      then show ?thesis using "2.IH" by (metis append_Cons)
    qed
  next
    assume "\<exists>a b. c # cs = a @ p @ b"
    then obtain a b where ab: "c # cs = a @ p @ b" by blast
    show "contains_str (c # cs) p"
    proof (cases a)
      case Nil
      then show ?thesis using ab by (metis append_Nil contains_str.simps(2) starts_with_append)
    next
      case (Cons x xs)
      then show ?thesis using ab "2.IH" by auto
    qed
  qed
qed

lemma contains_str_Nil [simp]: "contains_str s []"
  by (cases s) auto

lemma starts_with_contains: "starts_with s p \<Longrightarrow> contains_str s p"
  by (cases s; cases p) auto

definition strip_prefix :: "rstr \<Rightarrow> rstr \<Rightarrow> rstr option" where
  "strip_prefix p s = (if starts_with s p then Some (drop (length p) s) else None)"

lemma strip_prefix_append [simp]: "strip_prefix p (p @ s) = Some s"
  by (simp add: strip_prefix_def)

lemma strip_prefix_Some: "strip_prefix p s = Some r \<longleftrightarrow> s = p @ r"
  by (auto simp: strip_prefix_def starts_with_iff)

definition strip_suffix :: "rstr \<Rightarrow> rstr \<Rightarrow> rstr option" where
  "strip_suffix p s = map_option rev (strip_prefix (rev p) (rev s))"

lemma strip_suffix_Some: "strip_suffix p s = Some r \<longleftrightarrow> s = r @ p"
proof -
  have "strip_suffix p s = Some r \<longleftrightarrow> strip_prefix (rev p) (rev s) = Some (rev r)"
    by (cases "strip_prefix (rev p) (rev s)") (auto simp: strip_suffix_def)
  also have "\<dots> \<longleftrightarrow> rev s = rev p @ rev r" by (rule strip_prefix_Some)
  also have "\<dots> \<longleftrightarrow> s = r @ p" by (metis rev_append rev_rev_ident)
  finally show ?thesis .
qed

definition ends_with :: "rstr \<Rightarrow> rstr \<Rightarrow> bool" where
  "ends_with s p \<longleftrightarrow> strip_suffix p s \<noteq> None"

lemma ends_with_iff: "ends_with s p \<longleftrightarrow> (\<exists>r. s = r @ p)"
  by (simp add: ends_with_def strip_suffix_Some)

text \<open>\<^verbatim>\<open>trim_start_matches(pat)\<close> removes the prefix as often as it occurs.\<close>

function trim_start_matches :: "rstr \<Rightarrow> rstr \<Rightarrow> rstr" where
  "trim_start_matches p s =
     (if p \<noteq> [] \<and> starts_with s p then trim_start_matches p (drop (length p) s) else s)"
  by pat_completeness auto
termination
  by (relation "measure (\<lambda>(p, s). length s)") (auto simp: starts_with_iff)

declare trim_start_matches.simps [simp del]

text \<open>\<^verbatim>\<open>split_once(pat)\<close>: the text before and after the first occurrence of a non-empty pattern.\<close>

fun split_once :: "rstr \<Rightarrow> rstr \<Rightarrow> (rstr \<times> rstr) option" where
  "split_once p [] = None"
| "split_once p (c # cs) =
     (if starts_with (c # cs) p then Some ([], drop (length p) (c # cs))
      else map_option (\<lambda>(a, b). (c # a, b)) (split_once p cs))"

lemma split_once_Some:
  assumes "split_once p s = Some (a, b)"
  shows "s = a @ p @ b" "i < length a \<Longrightarrow> \<not> starts_with (drop i s) p"
proof -
  have "s = a @ p @ b \<and> (\<forall>i < length a. \<not> starts_with (drop i s) p)"
    using assms
  proof (induction s arbitrary: a)
    case Nil
    then show ?case by simp
  next
    case (Cons c s)
    show ?case
    proof (cases "starts_with (c # s) p")
      case True
      then show ?thesis using Cons.prems by (auto simp: starts_with_iff)
    next
      case False
      then obtain a' where a: "a = c # a'" "split_once p s = Some (a', b)" using Cons.prems by auto
      have "\<not> starts_with (drop i (c # s)) p" if "i < length a" for i
        using that False Cons.IH [OF a(2)] a(1) by (cases i) auto
      then show ?thesis using Cons.IH [OF a(2)] a(1) by simp
    qed
  qed
  then show "s = a @ p @ b" "i < length a \<Longrightarrow> \<not> starts_with (drop i s) p" by auto
qed

lemma split_once_None: "p \<noteq> [] \<Longrightarrow> split_once p s = None \<longleftrightarrow> \<not> contains_str s p"
  by (induction s) (auto split: if_splits)

lemma split_onceI:
  assumes "p \<noteq> []" "s = a @ p @ b" "\<And>i. i < length a \<Longrightarrow> \<not> starts_with (drop i s) p"
  shows "split_once p s = Some (a, b)"
  using assms(2,3)
proof (induction a arbitrary: s)
  case Nil
  obtain c p' where "p = c # p'" using assms(1) by (cases p) auto
  then show ?case using Nil.prems(1) starts_with_append [of p b] by simp
next
  case (Cons c a)
  then have "\<not> starts_with s p" "s = c # a @ p @ b" by (metis drop0 length_greater_0_conv list.distinct(1), simp)
  moreover have "split_once p (a @ p @ b) = Some (a, b)"
    by (rule Cons.IH) (use Cons.prems in force)+
  ultimately show ?case by simp
qed

text \<open>\<^verbatim>\<open>find(pat)\<close>: where a non-empty pattern occurs first.\<close>

definition str_find :: "rstr \<Rightarrow> rstr \<Rightarrow> nat option" where
  "str_find p s = map_option (\<lambda>(a, b). length a) (split_once p s)"

lemma str_find_Some:
  assumes "p \<noteq> []"
  shows "str_find p s = Some i \<longleftrightarrow> starts_with (drop i s) p \<and> (\<forall>j < i. \<not> starts_with (drop j s) p)"
proof
  assume "str_find p s = Some i"
  then obtain a b where ab: "split_once p s = Some (a, b)" "i = length a" by (auto simp: str_find_def)
  then show "starts_with (drop i s) p \<and> (\<forall>j < i. \<not> starts_with (drop j s) p)"
    using split_once_Some [OF ab(1)] by auto
next
  assume r: "starts_with (drop i s) p \<and> (\<forall>j < i. \<not> starts_with (drop j s) p)"
  then obtain b where b: "drop i s = p @ b" by (auto simp: starts_with_iff)
  then have i: "i < length s" using assms by (metis append_is_Nil_conv drop_all not_le)
  have "s = take i s @ p @ b" by (metis append_take_drop_id b)
  then have "split_once p s = Some (take i s, b)" using r i by (intro split_onceI [OF assms]) auto
  then show "str_find p s = Some i" using i by (simp add: str_find_def)
qed

lemma str_find_None:
  assumes "p \<noteq> []"
  shows "str_find p s = None \<longleftrightarrow> (\<forall>i. \<not> starts_with (drop i s) p)"
proof -
  have "str_find p s = None \<longleftrightarrow> \<not> contains_str s p"
    using split_once_None [OF assms] by (simp add: str_find_def)
  also have "contains_str s p \<longleftrightarrow> (\<exists>i. starts_with (drop i s) p)"
  proof
    assume "contains_str s p"
    then obtain a b where "s = a @ p @ b" by (auto simp: contains_str_iff)
    then have "starts_with (drop (length a) s) p" by simp
    then show "\<exists>i. starts_with (drop i s) p" by blast
  next
    assume "\<exists>i. starts_with (drop i s) p"
    then obtain i r where "drop i s = p @ r" by (auto simp: starts_with_iff)
    then show "contains_str s p" by (metis append_take_drop_id contains_str_iff)
  qed
  finally show ?thesis by blast
qed

text \<open>\<^verbatim>\<open>splitn(n, pat)\<close>: at most \<open>n\<close> pieces, the last one holding the rest.\<close>

fun splitn :: "nat \<Rightarrow> rstr \<Rightarrow> rstr \<Rightarrow> rstr list" where
  "splitn 0 p s = []"
| "splitn (Suc 0) p s = [s]"
| "splitn (Suc (Suc n)) p s =
     (case split_once p s of None \<Rightarrow> [s] | Some (a, b) \<Rightarrow> a # splitn (Suc n) p b)"

text \<open>\<^verbatim>\<open>split(|c| P c)\<close>: the (possibly empty) pieces between the characters satisfying \<open>P\<close>.\<close>

fun split_by :: "(nat \<Rightarrow> bool) \<Rightarrow> rstr \<Rightarrow> rstr list" where
  "split_by P [] = [[]]"
| "split_by P (c # cs) =
     (if P c then [] # split_by P cs
      else (case split_by P cs of [] \<Rightarrow> [[c]] | w # ws \<Rightarrow> (c # w) # ws))"

definition split_whitespace :: "rstr \<Rightarrow> rstr list" where
  "split_whitespace s = filter (\<lambda>w. w \<noteq> []) (split_by is_whitespace s)"

lemma split_by_nonempty [simp]: "split_by P s \<noteq> []"
  by (induction s) (auto split: list.splits)

lemma split_by_pieces: "w \<in> set (split_by P s) \<Longrightarrow> c \<in> set w \<Longrightarrow> c \<in> set s \<and> \<not> P c"
proof (induction s arbitrary: w)
  case Nil
  then show ?case by simp
next
  case (Cons a s)
  then show ?case by (auto split: if_splits list.splits) (use Cons.IH in force)+
qed

text \<open>\<^verbatim>\<open>str::lines()\<close>: split at line feeds, drop one trailing carriage return of each line and an
  empty last line.\<close>

definition str_lines :: "rstr \<Rightarrow> rstr list" where
  "str_lines s =
     (let ps = split_by (\<lambda>c. c = 10) s;
          qs = (if last ps = [] then butlast ps else ps)
      in map (\<lambda>l. if l \<noteq> [] \<and> last l = 13 then butlast l else l) qs)"

fun intercalate :: "rstr \<Rightarrow> rstr list \<Rightarrow> rstr" where
  "intercalate sep [] = []"
| "intercalate sep [w] = w"
| "intercalate sep (w # v # ws) = w @ sep @ intercalate sep (v # ws)"

subsection \<open>Numbers as text\<close>

fun nat_digits :: "nat \<Rightarrow> rstr" where
  "nat_digits n = (if n < 10 then [48 + n] else nat_digits (n div 10) @ [48 + n mod 10])"

declare nat_digits.simps [simp del]

text \<open>\<^verbatim>\<open>{:02}\<close>\<close>

definition fmt02 :: "nat \<Rightarrow> rstr" where
  "fmt02 n = (if n < 10 then 48 # nat_digits n else nat_digits n)"

definition int_str :: "int \<Rightarrow> rstr" where
  "int_str i = (if i < 0 then 45 # nat_digits (nat (- i)) else nat_digits (nat i))"

definition digits_value :: "rstr \<Rightarrow> nat" where
  "digits_value s = foldl (\<lambda>acc c. 10 * acc + (c - 48)) 0 s"

text \<open>\<^verbatim>\<open>str::parse::<i64>()\<close>: an optional sign, at least one digit, no overflow.\<close>

definition parse_i64 :: "rstr \<Rightarrow> int option" where
  "parse_i64 s =
     (let (neg, ds) = (case s of [] \<Rightarrow> (False, [])
                       | c # cs \<Rightarrow> if c = 45 then (True, cs) else if c = 43 then (False, cs)
                                   else (False, s));
          v = (if neg then - int (digits_value ds) else int (digits_value ds))
      in if ds \<noteq> [] \<and> list_all is_digit ds \<and> - (2 ^ 63) \<le> v \<and> v < 2 ^ 63 then Some v else None)"

lemma nat_digits_small: "n < 10 \<Longrightarrow> nat_digits n = [48 + n]"
  by (subst nat_digits.simps) simp

lemma nat_digits_step: "\<not> n < 10 \<Longrightarrow> nat_digits n = nat_digits (n div 10) @ [48 + n mod 10]"
  by (subst nat_digits.simps) simp

lemma nat_digits_nonempty [simp]: "nat_digits n \<noteq> []"
  by (subst nat_digits.simps) simp

lemma nat_digits_digit: "list_all is_digit (nat_digits n)"
proof (induction n rule: nat_digits.induct)
  case (1 n)
  have m: "is_digit (48 + k)" if "k < 10" for k using that by (simp add: is_digit_def)
  show ?case
  proof (cases "n < 10")
    case True
    then show ?thesis by (simp add: nat_digits_small m)
  next
    case False
    then show ?thesis using "1.IH" m [of "n mod 10"] by (simp add: nat_digits_step)
  qed
qed

lemma digits_value_snoc: "digits_value (ds @ [48 + k]) = 10 * digits_value ds + k"
  by (simp add: digits_value_def)

lemma digits_value_nat_digits [simp]: "digits_value (nat_digits n) = n"
proof (induction n rule: nat_digits.induct)
  case (1 n)
  show ?case
  proof (cases "n < 10")
    case True
    then show ?thesis by (simp add: nat_digits_small digits_value_def)
  next
    case False
    then show ?thesis using "1.IH" by (simp add: nat_digits_step digits_value_snoc)
  qed
qed

lemma nat_digits_inject [simp]: "nat_digits m = nat_digits n \<longleftrightarrow> m = n"
  by (metis digits_value_nat_digits)

lemma digit_char: "is_digit c \<Longrightarrow> c \<noteq> 45 \<and> c \<noteq> 43 \<and> c \<noteq> 58 \<and> c \<noteq> 64"
  by (simp add: is_digit_def)

lemma nat_digits_Cons: "\<exists>c cs. nat_digits n = c # cs \<and> is_digit c"
  using nat_digits_digit [of n] by (cases "nat_digits n") auto

lemma parse_i64_int_str:
  assumes "- (2 ^ 63) \<le> i" "i < 2 ^ 63"
  shows "parse_i64 (int_str i) = Some i"
proof (cases "i < 0")
  case True
  then show ?thesis using assms nat_digits_digit
    by (simp add: parse_i64_def int_str_def)
next
  case False
  obtain c cs where c: "nat_digits (nat i) = c # cs" "is_digit c" using nat_digits_Cons by blast
  then have v: "digits_value (c # cs) = nat i" "list_all is_digit (c # cs)"
    using nat_digits_digit [of "nat i"] by (metis digits_value_nat_digits, simp)
  then show ?thesis using False assms c digit_char [OF c(2)]
    by (simp add: parse_i64_def int_str_def)
qed

subsection \<open>UTF-8\<close>

definition utf8_char :: "nat \<Rightarrow> nat list" where
  "utf8_char c =
     (if c < 128 then [c]
      else if c < 2048 then [192 + c div 64, 128 + c mod 64]
      else if c < 65536 then [224 + c div 4096, 128 + (c div 64) mod 64, 128 + c mod 64]
      else [240 + c div 262144, 128 + (c div 4096) mod 64, 128 + (c div 64) mod 64, 128 + c mod 64])"

definition utf8 :: "rstr \<Rightarrow> nat list" where
  "utf8 s = concat (map utf8_char s)"

definition is_ascii :: "rstr \<Rightarrow> bool" where
  "is_ascii s \<longleftrightarrow> list_all (\<lambda>c. c < 128) s"

lemma utf8_ascii: "is_ascii s \<Longrightarrow> utf8 s = s"
  by (induction s) (auto simp: utf8_def utf8_char_def is_ascii_def)

section \<open>JSON values\<close>

text \<open>
  \<^verbatim>\<open>f64\<close> values are modelled by rationals: every finite double is one, and the comparisons of the
  sources are exact on them. The few arithmetic operations on them (a product with 100, an
  absolute value) are exact here where the machine rounds; \<^verbatim>\<open>NaN\<close> and the infinities, which JSON
  cannot express, are left out.
\<close>

type_synonym f64 = rat

datatype json = JNull | JBool bool | JInt int | JFloat f64 | JStr rstr
  | JArr "json list" | JObj "(rstr \<times> json) list"

definition json_get :: "json \<Rightarrow> rstr \<Rightarrow> json option" where
  "json_get v k = (case v of JObj kvs \<Rightarrow> map_of kvs k | _ \<Rightarrow> None)"

definition json_as_str :: "json \<Rightarrow> rstr option" where
  "json_as_str v = (case v of JStr s \<Rightarrow> Some s | _ \<Rightarrow> None)"

definition json_as_bool :: "json \<Rightarrow> bool option" where
  "json_as_bool v = (case v of JBool b \<Rightarrow> Some b | _ \<Rightarrow> None)"

definition json_as_f64 :: "json \<Rightarrow> f64 option" where
  "json_as_f64 v = (case v of JInt i \<Rightarrow> Some (of_int i) | JFloat x \<Rightarrow> Some x | _ \<Rightarrow> None)"

definition json_as_i64 :: "json \<Rightarrow> int option" where
  "json_as_i64 v = (case v of JInt i \<Rightarrow> if - (2 ^ 63) \<le> i \<and> i < 2 ^ 63 then Some i else None | _ \<Rightarrow> None)"

definition get_str :: "json \<Rightarrow> rstr \<Rightarrow> rstr option" where
  "get_str v k = Option.bind (json_get v k) json_as_str"

definition get_bool :: "json \<Rightarrow> rstr \<Rightarrow> bool option" where
  "get_bool v k = Option.bind (json_get v k) json_as_bool"

definition get_f64 :: "json \<Rightarrow> rstr \<Rightarrow> f64 option" where
  "get_f64 v k = Option.bind (json_get v k) json_as_f64"

definition get_i64 :: "json \<Rightarrow> rstr \<Rightarrow> int option" where
  "get_i64 v k = Option.bind (json_get v k) json_as_i64"

section \<open>Options, lists, counters\<close>

fun or_else :: "'a option \<Rightarrow> 'a option \<Rightarrow> 'a option" where
  "or_else (Some x) y = Some x"
| "or_else None y = y"

definition unwrap_or :: "'a \<Rightarrow> 'a option \<Rightarrow> 'a" where
  "unwrap_or d x = (case x of None \<Rightarrow> d | Some v \<Rightarrow> v)"

lemma unwrap_or_simps [simp]: "unwrap_or d None = d" "unwrap_or d (Some v) = v"
  by (simp_all add: unwrap_or_def)

definition opt_filter :: "('a \<Rightarrow> bool) \<Rightarrow> 'a option \<Rightarrow> 'a option" where
  "opt_filter P x = (case x of Some v \<Rightarrow> if P v then Some v else None | None \<Rightarrow> None)"

lemma opt_filter_Some: "opt_filter P x = Some v \<longleftrightarrow> x = Some v \<and> P v"
  by (auto simp: opt_filter_def split: option.splits)

text \<open>Unfolding rules that evaluate the string helpers on literals.\<close>

lemmas str_eval = lit_def trim_def is_whitespace_def to_ascii_lowercase_def to_ascii_uppercase_def
  ascii_lower_def ascii_upper_def is_ascii_upper_def is_ascii_lower_def is_digit_def is_ascii_alnum_def
  strip_prefix_def eq_ignore_ascii_case_def is_ascii_def utf8_def utf8_char_def

text \<open>A \<^verbatim>\<open>HashMap<String, usize>\<close> used as a counter: \<^verbatim>\<open>*map.entry(k).or_insert(0) += 1\<close>.\<close>

type_synonym counter = "rstr \<rightharpoonup> nat"

definition count_of :: "counter \<Rightarrow> rstr \<Rightarrow> nat" where
  "count_of m k = unwrap_or 0 (m k)"

definition bump :: "rstr \<Rightarrow> counter \<Rightarrow> counter" where
  "bump k m = m(k \<mapsto> Suc (count_of m k))"

lemma count_of_bump [simp]: "count_of (bump k m) j = (if j = k then Suc (count_of m k) else count_of m j)"
  by (simp add: bump_def count_of_def)

lemma count_of_empty [simp]: "count_of Map.empty k = 0"
  by (simp add: count_of_def)

text \<open>\<^verbatim>\<open>iter().position(p)\<close>.\<close>

fun position :: "('a \<Rightarrow> bool) \<Rightarrow> 'a list \<Rightarrow> nat option" where
  "position P [] = None"
| "position P (x # xs) = (if P x then Some 0 else map_option Suc (position P xs))"

lemma position_Some:
  "position P xs = Some i \<Longrightarrow> i < length xs \<and> P (xs ! i) \<and> (\<forall>j < i. \<not> P (xs ! j))"
proof (induction xs arbitrary: i)
  case Nil
  then show ?case by simp
next
  case (Cons x xs)
  show ?case
  proof (cases "P x")
    case True
    then show ?thesis using Cons.prems by auto
  next
    case False
    then obtain k where k: "i = Suc k" "position P xs = Some k" using Cons.prems by auto
    have ih: "k < length xs \<and> P (xs ! k) \<and> (\<forall>j < k. \<not> P (xs ! j))" by (rule Cons.IH [OF k(2)])
    have "\<not> P ((x # xs) ! j)" if "j < i" for j
      using that False ih k(1) by (cases j) auto
    then show ?thesis using ih k(1) by auto
  qed
qed

lemma position_None: "position P xs = None \<longleftrightarrow> (\<forall>x \<in> set xs. \<not> P x)"
  by (induction xs) auto

text \<open>The last \<open>n\<close> elements of a list, and the last position where a predicate holds.\<close>

definition last_n :: "nat \<Rightarrow> 'a list \<Rightarrow> 'a list" where
  "last_n n xs = rev (take n (rev xs))"

definition rposition :: "('a \<Rightarrow> bool) \<Rightarrow> 'a list \<Rightarrow> nat option" where
  "rposition P xs = map_option (\<lambda>i. length xs - 1 - i) (position P (rev xs))"

lemma last_n_suffix: "\<exists>p. xs = p @ last_n n xs"
  by (metis append_take_drop_id last_n_def rev_append rev_rev_ident)

lemma length_last_n [simp]: "length (last_n n xs) = min n (length xs)"
  by (simp add: last_n_def min.commute)

lemma rposition_Some:
  assumes "rposition P xs = Some i"
  shows "i < length xs" "P (xs ! i)" "\<And>j. i < j \<Longrightarrow> j < length xs \<Longrightarrow> \<not> P (xs ! j)"
proof -
  obtain k where k: "position P (rev xs) = Some k" "i = length xs - 1 - k"
    using assms by (auto simp: rposition_def)
  then have p: "k < length xs" "P (rev xs ! k)" "\<forall>j < k. \<not> P (rev xs ! j)"
    using position_Some [OF k(1)] by auto
  show "i < length xs" using p(1) k(2) by simp
  show "P (xs ! i)" using p(1,2) k(2) by (simp add: rev_nth)
  show "\<not> P (xs ! j)" if "i < j" "j < length xs" for j
  proof -
    have "length xs - 1 - j < k" using that k(2) p(1) by linarith
    then have "\<not> P (rev xs ! (length xs - 1 - j))" using p(3) by blast
    moreover have "rev xs ! (length xs - 1 - j) = xs ! j" using that by (simp add: rev_nth)
    ultimately show ?thesis by simp
  qed
qed

lemma rposition_None: "rposition P xs = None \<longleftrightarrow> (\<forall>x \<in> set xs. \<not> P x)"
  by (simp add: rposition_def position_None)

lemma last_n_drop: "last_n n xs = drop (length xs - n) xs"
  by (simp add: last_n_def rev_take)

lemma set_last_n: "set (last_n n xs) \<subseteq> set xs"
  by (simp add: last_n_drop set_drop_subset)

lemma last_n_append: "last_n n (xs @ ys) = last_n (n - length ys) xs @ last_n n ys"
  by (cases "length ys \<le> n") (simp_all add: last_n_drop Nat.diff_diff_right)

lemma last_n_last_n: "m \<le> n \<Longrightarrow> last_n m (last_n n xs) = last_n m xs"
  by (cases "n \<le> length xs") (simp_all add: last_n_drop)

lemma last_n_again: "last_n n (last_n n xs @ ys) = last_n n (xs @ ys)"
  by (simp add: last_n_append last_n_last_n)

lemma map_sum_Inr: "map_sum f g x = Inr y \<longleftrightarrow> (\<exists>z. x = Inr z \<and> y = g z)"
  by (cases x) auto

lemma find_SomeD: "find P xs = Some x \<Longrightarrow> x \<in> set xs \<and> P x"
  by (auto simp: find_Some_iff)

lemma set_map_filter: "set (List.map_filter f xs) = {y. \<exists>x \<in> set xs. f x = Some y}"
  by (induction xs) (auto simp: List.map_filter_simps split: option.splits)

lemma map_filter_append: "List.map_filter f (xs @ ys) = List.map_filter f xs @ List.map_filter f ys"
  by (simp add: List.map_filter_def)

lemma length_filter_update:
  assumes "i < length xs"
  shows "length (filter P (xs[i := y])) + (if P (xs ! i) then 1 else 0)
       = length (filter P xs) + (if P y then 1 else 0)"
  using assms
proof (induction xs arbitrary: i)
  case Nil
  then show ?case by simp
next
  case (Cons x xs)
  then show ?case by (cases i) (auto simp: nth_Cons')
qed

end
