(* ===== verification/Actor.thy ===== *)
theory Actor
  imports Rust_Prelude
begin

text \<open>
  \<^verbatim>\<open>crates/hone-core/src/actor.rs\<close>: who sends a request (\<open>actor\<close>, the source's
  \<^verbatim>\<open>ActorIdentity\<close>), which history it is written to (\<open>session\<close>, the source's
  \<^verbatim>\<open>SessionIdentity\<close>), and the escaping that turns both into file names and session ids and
  back. The lemmas give the round trips and the injectivity of the storage keys.
\<close>

section \<open>Errors (error.rs)\<close>

datatype hone_error = Config rstr | Llm rstr | Tool rstr | Storage rstr | Integration rstr
  | Channel rstr | Io rstr | Serialization rstr | Http rstr | Timeout rstr | Other rstr

type_synonym 'a hone_result = "hone_error + 'a"

definition result_ok :: "'e + 'a \<Rightarrow> 'a option" where
  "result_ok r = (case r of Inl _ \<Rightarrow> None | Inr x \<Rightarrow> Some x)"

lemma result_ok_simps [simp]: "result_ok (Inl e) = None" "result_ok (Inr x) = Some x"
  by (simp_all add: result_ok_def)

definition msg_not_empty :: rstr where
  "msg_not_empty = [32, 19981, 33021, 20026, 31354]"

section \<open>Component escaping\<close>

definition is_key_byte :: "nat \<Rightarrow> bool" where
  "is_key_byte b \<longleftrightarrow> is_ascii_alnum b \<or> b = 45"

definition hex_char :: "nat \<Rightarrow> nat" where
  "hex_char d = (if d < 10 then 48 + d else 87 + d)"

definition encode_byte :: "nat \<Rightarrow> rstr" where
  "encode_byte b = (if is_key_byte b then [b] else [95, hex_char (b div 16), hex_char (b mod 16)])"

definition encode_component :: "rstr \<Rightarrow> rstr" where
  "encode_component raw = concat (map encode_byte (utf8 raw))"

definition hex_digit :: "nat \<Rightarrow> nat option" where
  "hex_digit b =
     (if 48 \<le> b \<and> b \<le> 57 then Some (b - 48)
      else if 97 \<le> b \<and> b \<le> 102 then Some (b - 97 + 10)
      else if 65 \<le> b \<and> b \<le> 70 then Some (b - 65 + 10)
      else None)"

text \<open>The index loop of \<^verbatim>\<open>decode_component\<close>, on the bytes from the index \<open>i\<close> on; each byte is
  turned into the character of that number (\<^verbatim>\<open>char::from(u8)\<close>).\<close>

fun decode_bytes :: "nat list \<Rightarrow> rstr" where
  "decode_bytes [] = []"
| "decode_bytes (b # bs) =
     (if b = 95
      then (case bs of
              hi # lo # rest \<Rightarrow>
                (case (hex_digit hi, hex_digit lo) of
                   (Some h, Some l) \<Rightarrow> (h * 16 + l) # decode_bytes rest
                 | _ \<Rightarrow> b # decode_bytes bs)
            | _ \<Rightarrow> b # decode_bytes bs)
      else b # decode_bytes bs)"

definition decode_component :: "rstr \<Rightarrow> rstr" where
  "decode_component encoded = decode_bytes (utf8 encoded)"

definition valid_str :: "rstr \<Rightarrow> bool" where
  "valid_str s \<longleftrightarrow> list_all (\<lambda>c. c < 1114112) s"

lemma hex_digit_hex_char: "d < 16 \<Longrightarrow> hex_digit (hex_char d) = Some d"
  by (auto simp: hex_digit_def hex_char_def)

lemma hex_char_range:
  assumes "d < 16"
  shows "hex_char d < 128" "hex_char d \<noteq> 95"
  using assms by (auto simp: hex_char_def)

lemma utf8_byte_bound: "valid_str s \<Longrightarrow> b \<in> set (utf8 s) \<Longrightarrow> b < 256"
proof (induction s)
  case Nil
  then show ?case by (simp add: utf8_def)
next
  case (Cons c s)
  have "b \<in> set (utf8_char c) \<or> b \<in> set (utf8 s)" using Cons.prems(2) by (simp add: utf8_def)
  moreover have "b < 256" if "b \<in> set (utf8_char c)"
  proof -
    have "c < 1114112" using Cons.prems(1) by (simp add: valid_str_def)
    then have "c div 262144 < 16" "c div 64 < 32 \<or> \<not> c < 2048" "c div 4096 < 32 \<or> \<not> c < 65536"
      by auto
    then show ?thesis using that by (auto simp: utf8_char_def split: if_splits)
  qed
  ultimately show ?case using Cons by (auto simp: valid_str_def)
qed

lemma encode_byte_ascii: "b < 256 \<Longrightarrow> c \<in> set (encode_byte b) \<Longrightarrow> c < 128"
  by (auto simp: encode_byte_def is_key_byte_def is_ascii_alnum_def is_digit_def
      is_ascii_upper_def is_ascii_lower_def hex_char_def split: if_splits)

lemma encode_component_ascii: "valid_str s \<Longrightarrow> is_ascii (encode_component s)"
  by (auto simp: encode_component_def is_ascii_def list_all_iff
      dest: utf8_byte_bound encode_byte_ascii)

lemma decode_encode_bytes:
  "(\<forall>b \<in> set bs. b < 256) \<Longrightarrow> decode_bytes (concat (map encode_byte bs)) = bs"
proof (induction bs)
  case Nil
  then show ?case by simp
next
  case (Cons b bs)
  have ih: "decode_bytes (concat (map encode_byte bs)) = bs" using Cons by simp
  have "b < 256" using Cons.prems by simp
  then have d: "b div 16 < 16" "b mod 16 < 16" by auto
  show ?case
  proof (cases "is_key_byte b")
    case True
    then have "b \<noteq> 95"
      by (auto simp: is_key_byte_def is_ascii_alnum_def is_digit_def is_ascii_upper_def is_ascii_lower_def)
    then have "encode_byte b = [b]" "b \<noteq> 95" using True by (simp_all add: encode_byte_def)
    then show ?thesis using ih by simp
  next
    case False
    then have "encode_byte b = [95, hex_char (b div 16), hex_char (b mod 16)]"
      by (simp add: encode_byte_def)
    then show ?thesis using ih by (simp add: hex_digit_hex_char [OF d(1)] hex_digit_hex_char [OF d(2)])
  qed
qed

lemma decode_encode_component:
  "valid_str s \<Longrightarrow> decode_component (encode_component s) = utf8 s"
  unfolding decode_component_def
  by (simp add: utf8_ascii encode_component_ascii)
     (simp add: encode_component_def decode_encode_bytes utf8_byte_bound)

lemma decode_encode_ascii: "is_ascii s \<Longrightarrow> decode_component (encode_component s) = s"
proof -
  assume a: "is_ascii s"
  then have "valid_str s" by (auto simp: is_ascii_def valid_str_def list_all_iff)
  then show ?thesis using a by (simp add: decode_encode_component utf8_ascii)
qed


subsection \<open>The escaping is injective\<close>

lemma utf8_char_cases:
  obtains (one) "c < 128" "utf8_char c = [c]"
  | (two) "128 \<le> c" "c < 2048" "utf8_char c = [192 + c div 64, 128 + c mod 64]"
  | (three) "2048 \<le> c" "c < 65536"
      "utf8_char c = [224 + c div 4096, 128 + (c div 64) mod 64, 128 + c mod 64]"
  | (four) "65536 \<le> c"
      "utf8_char c = [240 + c div 262144, 128 + (c div 4096) mod 64, 128 + (c div 64) mod 64, 128 + c mod 64]"
proof -
  consider "c < 128" | "128 \<le> c \<and> c < 2048" | "2048 \<le> c \<and> c < 65536" | "65536 \<le> c" by linarith
  then show ?thesis by cases (use that in \<open>auto simp: utf8_char_def\<close>)
qed

lemma join64: "(a :: nat) div 64 = b div 64 \<Longrightarrow> a mod 64 = b mod 64 \<Longrightarrow> a = b"
  by (metis div_mult_mod_eq)

lemma join4096:
  assumes "(a :: nat) div 4096 = b div 4096" "a div 64 mod 64 = b div 64 mod 64" "a mod 64 = b mod 64"
  shows "a = b"
proof (rule join64 [OF join64 assms(3)])
  show "a div 64 div 64 = b div 64 div 64" using assms(1) by (simp add: div_mult2_eq [symmetric])
qed (rule assms(2))

lemma join262144:
  assumes "(a :: nat) div 262144 = b div 262144" "a div 4096 mod 64 = b div 4096 mod 64"
    "a div 64 mod 64 = b div 64 mod 64" "a mod 64 = b mod 64"
  shows "a = b"
proof (rule join4096 [OF join64 assms(3,4)])
  show "a div 4096 div 64 = b div 4096 div 64" using assms(1) by (simp add: div_mult2_eq [symmetric])
qed (rule assms(2))

lemma utf8_lead:
  "hd (utf8_char c) < 128 \<longleftrightarrow> c < 128"
  "c < 65536 \<Longrightarrow> hd (utf8_char c) < 224 \<longleftrightarrow> c < 2048"
  "hd (utf8_char c) < 240 \<longleftrightarrow> c < 65536"
  by (cases c rule: utf8_char_cases; force)+

lemma utf8_char_prefix:
  assumes "utf8_char c @ r = utf8_char d @ r'"
  shows "c = d \<and> r = r'"
proof -
  have ne: "utf8_char e \<noteq> []" for e by (cases e rule: utf8_char_cases) auto
  have h: "hd (utf8_char c) = hd (utf8_char d)" using assms ne by (metis hd_append2)
  have r1: "c < 128 \<longleftrightarrow> d < 128" using utf8_lead(1) h by metis
  have r3: "c < 65536 \<longleftrightarrow> d < 65536" using utf8_lead(3) h by metis
  have r2: "c < 2048 \<longleftrightarrow> d < 2048"
    using utf8_lead(2) [of c] utf8_lead(2) [of d] h r3 by (cases "c < 65536") auto
  show ?thesis
  proof (cases c rule: utf8_char_cases)
    case one
    then show ?thesis using assms r1 by (simp add: utf8_char_def)
  next
    case two
    then have "utf8_char d = [192 + d div 64, 128 + d mod 64]" using r1 r2 by (simp add: utf8_char_def)
    then show ?thesis using assms two join64 [of c d] by simp
  next
    case three
    then have "utf8_char d = [224 + d div 4096, 128 + (d div 64) mod 64, 128 + d mod 64]"
      using r1 r2 r3 by (simp add: utf8_char_def)
    then show ?thesis using assms three join4096 [of c d] by simp
  next
    case four
    then have "utf8_char d = [240 + d div 262144, 128 + (d div 4096) mod 64, 128 + (d div 64) mod 64, 128 + d mod 64]"
      using r1 r2 r3 by (simp add: utf8_char_def)
    then show ?thesis using assms four join262144 [of c d] by simp
  qed
qed

lemma utf8_inject [simp]: "utf8 s = utf8 t \<longleftrightarrow> s = t"
proof (induction s arbitrary: t)
  case Nil
  show ?case by (cases t) (auto simp: utf8_def utf8_char_def split: if_splits)
next
  case (Cons c s)
  show ?case
  proof (cases t)
    case Nil
    then show ?thesis by (auto simp: utf8_def utf8_char_def split: if_splits)
  next
    case (Cons d t')
    then show ?thesis using Cons.IH [of t'] utf8_char_prefix [of c "utf8 s" d "utf8 t'"]
      by (auto simp: utf8_def)
  qed
qed

lemma encode_component_inject:
  assumes "valid_str s" "valid_str t" "encode_component s = encode_component t"
  shows "s = t"
proof -
  have "utf8 s = utf8 t"
    unfolding decode_encode_component [OF assms(1), symmetric]
      decode_encode_component [OF assms(2), symmetric] assms(3) by (rule refl)
  then show ?thesis by (simp only: utf8_inject)
qed

lemma encode_byte_nonempty [simp]: "encode_byte b \<noteq> []"
  by (simp add: encode_byte_def)

lemma utf8_eq_Nil [simp]: "utf8 s = [] \<longleftrightarrow> s = []"
  using utf8_inject [of s "[]"] by (simp add: utf8_def)

lemma encode_component_eq_Nil [simp]: "encode_component s = [] \<longleftrightarrow> s = []"
proof -
  have "encode_component s = [] \<longleftrightarrow> utf8 s = []"
    by (cases "utf8 s") (simp_all add: encode_component_def)
  then show ?thesis by simp
qed

subsection \<open>No separator inside an escaped component\<close>

text \<open>Every underscore of an escaped component is followed by two hexadecimal digits, so a pattern
  that begins with two underscores is found exactly where the code put it.\<close>

lemma split_once_encoded_bytes:
  assumes "\<forall>b \<in> set bs. b < 256"
  shows "split_once (95 # 95 # q) (concat (map encode_byte bs) @ (95 # 95 # q) @ r)
       = Some (concat (map encode_byte bs), r)"
  using assms
proof (induction bs)
  case Nil
  then show ?case by simp
next
  case (Cons b bs)
  have "b < 256" using Cons.prems by simp
  then have d: "b div 16 < 16" "b mod 16 < 16" by auto
  have ih: "split_once (95 # 95 # q) (concat (map encode_byte bs) @ 95 # 95 # q @ r)
      = Some (concat (map encode_byte bs), r)" using Cons by simp
  show ?case
  proof (cases "is_key_byte b")
    case True
    then have "encode_byte b = [b]" "b \<noteq> 95"
      by (auto simp: encode_byte_def is_key_byte_def is_ascii_alnum_def is_digit_def
          is_ascii_upper_def is_ascii_lower_def)
    then show ?thesis using ih by simp
  next
    case False
    then have "encode_byte b = [95, hex_char (b div 16), hex_char (b mod 16)]"
      by (simp add: encode_byte_def)
    then show ?thesis using ih hex_char_range(2) [OF d(1)] hex_char_range(2) [OF d(2)] by simp
  qed
qed

lemma split_once_encoded:
  assumes "valid_str s" "p = 95 # 95 # q"
  shows "split_once p (encode_component s @ p @ r) = Some (encode_component s, r)"
  using split_once_encoded_bytes [of "utf8 s" q r] utf8_byte_bound [OF assms(1)] assms(2)
  by (simp add: encode_component_def)

section \<open>ActorIdentity\<close>

record actor =
  a_channel :: rstr
  a_user_id :: rstr
  a_channel_scope :: "rstr option"

definition actor_new :: "rstr \<Rightarrow> rstr \<Rightarrow> rstr option \<Rightarrow> actor hone_result" where
  "actor_new ch user scope =
     (let ch = trim ch in
      if ch = [] then Inl (Config (lit ''channel'' @ msg_not_empty))
      else
        let user = trim user in
        if user = [] then Inl (Config (lit ''user_id'' @ msg_not_empty))
        else Inr \<lparr>a_channel = ch, a_user_id = user,
                  a_channel_scope = opt_filter (\<lambda>s. s \<noteq> []) (map_option trim scope)\<rparr>)"

definition sep :: rstr where
  "sep = lit ''__''"

lemma sep_eq: "sep = [95, 95]"
  by (simp add: sep_def lit_def)

definition scope_or_direct :: "actor \<Rightarrow> rstr" where
  "scope_or_direct a = unwrap_or (lit ''direct'') (a_channel_scope a)"

definition storage_key :: "actor \<Rightarrow> rstr" where
  "storage_key a =
     encode_component (a_channel a) @ sep @ encode_component (scope_or_direct a) @ sep
       @ encode_component (a_user_id a)"

definition actor_session_id :: "actor \<Rightarrow> rstr" where
  "actor_session_id a = lit ''Actor_'' @ storage_key a"

definition actor_from_session_id :: "rstr \<Rightarrow> actor option" where
  "actor_from_session_id sid =
     (case strip_prefix (lit ''Actor_'') sid of
        None \<Rightarrow> None
      | Some encoded \<Rightarrow>
          (case splitn 3 sep encoded of
             [p0, p1, p2] \<Rightarrow>
               (let ch = decode_component p0; scope = decode_component p1; user = decode_component p2 in
                if ch = [] \<or> user = [] then None
                else result_ok (actor_new ch user (if scope = lit ''direct'' then None else Some scope)))
           | _ \<Rightarrow> None))"

definition is_direct :: "actor \<Rightarrow> bool" where
  "is_direct a \<longleftrightarrow> a_channel_scope a = None"

definition channel_fs_component :: "actor \<Rightarrow> rstr" where
  "channel_fs_component a = encode_component (a_channel a)"

definition scoped_user_fs_key :: "actor \<Rightarrow> rstr" where
  "scoped_user_fs_key a = encode_component (scope_or_direct a) @ sep @ encode_component (a_user_id a)"

text \<open>What \<^verbatim>\<open>ActorIdentity::new\<close> establishes: trimmed, non-empty components.\<close>

definition trimmed :: "rstr \<Rightarrow> bool" where
  "trimmed s \<longleftrightarrow> s \<noteq> [] \<and> trim s = s"

definition wf_actor :: "actor \<Rightarrow> bool" where
  "wf_actor a \<longleftrightarrow> trimmed (a_channel a) \<and> trimmed (a_user_id a)
     \<and> (case a_channel_scope a of None \<Rightarrow> True | Some s \<Rightarrow> trimmed s)"

definition actor_ascii :: "actor \<Rightarrow> bool" where
  "actor_ascii a \<longleftrightarrow> is_ascii (a_channel a) \<and> is_ascii (a_user_id a)
     \<and> (case a_channel_scope a of None \<Rightarrow> True | Some s \<Rightarrow> is_ascii s)"

definition actor_valid :: "actor \<Rightarrow> bool" where
  "actor_valid a \<longleftrightarrow> valid_str (a_channel a) \<and> valid_str (a_user_id a)
     \<and> (case a_channel_scope a of None \<Rightarrow> True | Some s \<Rightarrow> valid_str s)"

lemma actor_new_wf_lemma [wf_intros]: "actor_new ch user scope = Inr a \<Longrightarrow> wf_actor a"
  by (auto simp: actor_new_def Let_def wf_actor_def trimmed_def opt_filter_Some
      split: if_splits option.splits)

lemma actor_new_of_wf:
  "wf_actor a \<Longrightarrow> actor_new (a_channel a) (a_user_id a) (a_channel_scope a) = Inr a"
  by (cases a) (auto simp: actor_new_def wf_actor_def trimmed_def opt_filter_def split: option.splits)

lemma ascii_valid: "is_ascii s \<Longrightarrow> valid_str s"
  by (auto simp: is_ascii_def valid_str_def list_all_iff)

lemma actor_ascii_valid: "actor_ascii a \<Longrightarrow> actor_valid a"
  by (auto simp: actor_ascii_def actor_valid_def ascii_valid split: option.splits)

lemma valid_direct [simp]: "valid_str (lit ''direct'')" "is_ascii (lit ''direct'')"
  by (simp_all add: valid_str_def is_ascii_def lit_def)

lemma valid_scope: "actor_valid a \<Longrightarrow> valid_str (scope_or_direct a)"
  by (auto simp: actor_valid_def scope_or_direct_def split: option.splits)

lemma splitn3_encoded:
  assumes "valid_str a" "valid_str b"
  shows "splitn 3 sep (encode_component a @ sep @ encode_component b @ sep @ c)
       = [encode_component a, encode_component b, c]"
  using split_once_encoded [OF assms(1), of sep "[]" "encode_component b @ sep @ c"]
    split_once_encoded [OF assms(2), of sep "[]" c]
  by (simp add: numeral_3_eq_3 sep_eq)

lemma storage_key_parts:
  assumes "actor_valid a"
  shows "splitn 3 sep (storage_key a)
       = [encode_component (a_channel a), encode_component (scope_or_direct a), encode_component (a_user_id a)]"
  unfolding storage_key_def
  by (rule splitn3_encoded) (use assms valid_scope in \<open>auto simp: actor_valid_def\<close>)


section \<open>SessionIdentity\<close>

datatype session_kind = Direct | Group

record session =
  s_channel :: rstr
  s_kind :: session_kind
  s_user_id :: "rstr option"
  s_channel_scope :: "rstr option"

definition session_direct :: "rstr \<Rightarrow> rstr \<Rightarrow> session hone_result" where
  "session_direct ch user =
     (let ch = trim ch in
      if ch = [] then Inl (Config (lit ''channel'' @ msg_not_empty))
      else
        let user = trim user in
        if user = [] then Inl (Config (lit ''user_id'' @ msg_not_empty))
        else Inr \<lparr>s_channel = ch, s_kind = Direct, s_user_id = Some user, s_channel_scope = None\<rparr>)"

definition session_group :: "rstr \<Rightarrow> rstr \<Rightarrow> session hone_result" where
  "session_group ch scope =
     (let ch = trim ch in
      if ch = [] then Inl (Config (lit ''channel'' @ msg_not_empty))
      else
        let scope = trim scope in
        if scope = [] then Inl (Config (lit ''channel_scope'' @ msg_not_empty))
        else Inr \<lparr>s_channel = ch, s_kind = Group, s_user_id = None, s_channel_scope = Some scope\<rparr>)"

definition session_from_actor :: "actor \<Rightarrow> session hone_result" where
  "session_from_actor a =
     (case a_channel_scope a of
        Some scope \<Rightarrow> session_group (a_channel a) scope
      | None \<Rightarrow> session_direct (a_channel a) (a_user_id a))"

definition group_sep :: rstr where
  "group_sep = lit ''__group__''"

definition session_from_session_id :: "rstr \<Rightarrow> session option" where
  "session_from_session_id sid =
     (case strip_prefix (lit ''Actor_'') sid of
        Some encoded \<Rightarrow>
          (case splitn 3 sep encoded of
             [p0, p1, p2] \<Rightarrow>
               (let ch = decode_component p0; scope = decode_component p1; user = decode_component p2 in
                if ch = [] \<or> user = [] then None
                else if scope = lit ''direct'' then result_ok (session_direct ch user)
                else result_ok (session_group ch scope))
           | _ \<Rightarrow> None)
      | None \<Rightarrow>
          (case strip_prefix (lit ''Session_'') sid of
             Some encoded \<Rightarrow>
               (case splitn 2 group_sep encoded of
                  [p0, p1] \<Rightarrow>
                    (let ch = decode_component p0; scope = decode_component p1 in
                     if ch = [] \<or> scope = [] then None else result_ok (session_group ch scope))
                | _ \<Rightarrow> None)
           | None \<Rightarrow> None))"

definition session_id :: "session \<Rightarrow> rstr" where
  "session_id s =
     (case s_kind s of
        Direct \<Rightarrow> lit ''Actor_'' @ encode_component (s_channel s) @ lit ''__direct__''
                   @ encode_component (unwrap_or [] (s_user_id s))
      | Group \<Rightarrow> lit ''Session_'' @ encode_component (s_channel s) @ lit ''__group__''
                   @ encode_component (unwrap_or [] (s_channel_scope s)))"

definition is_group :: "session \<Rightarrow> bool" where
  "is_group s \<longleftrightarrow> s_kind s = Group"

text \<open>The two shapes that \<^verbatim>\<open>SessionIdentity\<close>'s constructors build.\<close>

definition wf_session :: "session \<Rightarrow> bool" where
  "wf_session s \<longleftrightarrow> trimmed (s_channel s) \<and>
     (case s_kind s of
        Direct \<Rightarrow> s_channel_scope s = None \<and> (\<exists>u. s_user_id s = Some u \<and> trimmed u)
      | Group \<Rightarrow> s_user_id s = None \<and> (\<exists>g. s_channel_scope s = Some g \<and> trimmed g))"

definition session_ascii :: "session \<Rightarrow> bool" where
  "session_ascii s \<longleftrightarrow> is_ascii (s_channel s) \<and> is_ascii (unwrap_or [] (s_user_id s))
     \<and> is_ascii (unwrap_or [] (s_channel_scope s))"

lemma session_direct_wf [wf_intros]: "session_direct ch u = Inr s \<Longrightarrow> wf_session s"
  by (auto simp: session_direct_def Let_def wf_session_def trimmed_def split: if_splits)

lemma session_group_wf [wf_intros]: "session_group ch g = Inr s \<Longrightarrow> wf_session s"
  by (auto simp: session_group_def Let_def wf_session_def trimmed_def split: if_splits)

lemma session_direct_of_trimmed:
  "trimmed ch \<Longrightarrow> trimmed u \<Longrightarrow>
   session_direct ch u = Inr \<lparr>s_channel = ch, s_kind = Direct, s_user_id = Some u, s_channel_scope = None\<rparr>"
  by (simp add: session_direct_def trimmed_def)

lemma session_group_of_trimmed:
  "trimmed ch \<Longrightarrow> trimmed g \<Longrightarrow>
   session_group ch g = Inr \<lparr>s_channel = ch, s_kind = Group, s_user_id = None, s_channel_scope = Some g\<rparr>"
  by (simp add: session_group_def trimmed_def)

lemma encode_direct: "encode_component (lit ''direct'') = lit ''direct''"
  by (simp add: encode_component_def encode_byte_def is_key_byte_def str_eval)

lemma lit_seps:
  "lit ''__direct__'' = sep @ lit ''direct'' @ sep" "group_sep = 95 # 95 # lit ''group__''"
  by (simp_all add: sep_def group_sep_def lit_def)

lemma session_id_actor_prefix: "strip_prefix (lit ''Actor_'') (lit ''Session_'' @ r) = None"
  by (simp add: strip_prefix_def lit_def)

lemma session_id_direct_shape:
  assumes "valid_str ch"
  shows "splitn 3 sep (encode_component ch @ lit ''__direct__'' @ u) = [encode_component ch, lit ''direct'', u]"
  using splitn3_encoded [OF assms, of "lit ''direct''" u] by (simp add: lit_seps encode_direct)

lemma session_id_group_shape:
  assumes "valid_str ch"
  shows "splitn 2 group_sep (encode_component ch @ lit ''__group__'' @ g) = [encode_component ch, g]"
  using split_once_encoded [OF assms, of group_sep "lit ''group__''" g]
  by (simp add: numeral_2_eq_2 lit_seps(2)) (simp add: lit_def)

section \<open>Properties\<close>

text \<open>An identity that \<^verbatim>\<open>ActorIdentity::new\<close> accepts has trimmed, non-empty channel and user
  and a scope that is absent or trimmed and non-empty; the constructor is idempotent on it.\<close>

theorem actor_new_wf:
  assumes "actor_new ch user scope = Inr a"
  shows "wf_actor a \<and> a_channel a = trim ch \<and> a_user_id a = trim user
       \<and> actor_new (a_channel a) (a_user_id a) (a_channel_scope a) = Inr a"
proof -
  have "wf_actor a" by (rule actor_new_wf_lemma [OF assms])
  moreover have "a_channel a = trim ch \<and> a_user_id a = trim user"
    using assms by (auto simp: actor_new_def Let_def split: if_splits)
  ultimately show ?thesis using actor_new_of_wf by metis
qed

theorem actor_new_wf_witness:
  "wf_actor \<lparr>a_channel = lit ''web'', a_user_id = lit ''u1'', a_channel_scope = None\<rparr>"
proof -
  have "actor_new (lit '' web '') (lit ''u1'') (Some (lit ''  ''))
      = Inr \<lparr>a_channel = lit ''web'', a_user_id = lit ''u1'', a_channel_scope = None\<rparr>"
    by (simp add: actor_new_def Let_def opt_filter_def str_eval)
  from actor_new_wf [OF this] show ?thesis by (rule conjunct1)
qed

text \<open>An ASCII identity whose scope is not the reserved word ``direct'' is recovered from its
  own session id.\<close>

theorem actor_session_id_roundtrip:
  assumes "wf_actor a" "actor_ascii a" "a_channel_scope a \<noteq> Some (lit ''direct'')"
  shows "actor_from_session_id (actor_session_id a) = Some a"
proof -
  have v: "actor_valid a" by (rule actor_ascii_valid [OF assms(2)])
  have asc: "is_ascii (a_channel a)" "is_ascii (a_user_id a)" "is_ascii (scope_or_direct a)"
    using assms(2) by (auto simp: actor_ascii_def scope_or_direct_def split: option.splits)
  have ne: "a_channel a \<noteq> []" "a_user_id a \<noteq> []"
    using assms(1) by (auto simp: wf_actor_def trimmed_def)
  have sc: "(scope_or_direct a = lit ''direct'' \<longrightarrow> a_channel_scope a = None) \<and>
      (scope_or_direct a \<noteq> lit ''direct'' \<longrightarrow> a_channel_scope a = Some (scope_or_direct a))"
    using assms(3) by (cases "a_channel_scope a") (auto simp: scope_or_direct_def)
  note new = actor_new_of_wf [OF assms(1)]
  show ?thesis
    unfolding actor_from_session_id_def actor_session_id_def
    using sc new by (auto simp: storage_key_parts [OF v] decode_encode_ascii asc ne Let_def)
qed

theorem actor_session_id_roundtrip_witness:
  "actor_from_session_id (actor_session_id
      \<lparr>a_channel = lit ''feishu'', a_user_id = lit ''ou_1'', a_channel_scope = Some (lit ''chat:9'')\<rparr>)
   = Some \<lparr>a_channel = lit ''feishu'', a_user_id = lit ''ou_1'', a_channel_scope = Some (lit ''chat:9'')\<rparr>"
  by (rule actor_session_id_roundtrip)
    (simp_all add: wf_actor_def trimmed_def actor_ascii_def str_eval)

text \<open>Two identities share a storage key (and so a file, a quota, a job list) exactly when channel,
  user and scope agree, an absent scope counting as ``direct''.\<close>

theorem storage_key_injective:
  assumes "actor_valid a" "actor_valid b"
  shows "storage_key a = storage_key b \<longleftrightarrow>
     a_channel a = a_channel b \<and> a_user_id a = a_user_id b \<and> scope_or_direct a = scope_or_direct b"
proof
  assume k: "storage_key a = storage_key b"
  have "[encode_component (a_channel a), encode_component (scope_or_direct a), encode_component (a_user_id a)]
      = [encode_component (a_channel b), encode_component (scope_or_direct b), encode_component (a_user_id b)]"
    using k storage_key_parts [OF assms(1)] storage_key_parts [OF assms(2)] by simp
  then show "a_channel a = a_channel b \<and> a_user_id a = a_user_id b \<and> scope_or_direct a = scope_or_direct b"
    using assms valid_scope encode_component_inject by (simp add: actor_valid_def)
next
  assume "a_channel a = a_channel b \<and> a_user_id a = a_user_id b \<and> scope_or_direct a = scope_or_direct b"
  then show "storage_key a = storage_key b" by (simp add: storage_key_def)
qed

theorem storage_key_injective_witness:
  "storage_key \<lparr>a_channel = lit ''a_'', a_user_id = lit ''b'', a_channel_scope = None\<rparr>
   \<noteq> storage_key \<lparr>a_channel = lit ''a'', a_user_id = lit ''_b'', a_channel_scope = None\<rparr>"
proof -
  let ?a = "\<lparr>a_channel = lit ''a_'', a_user_id = lit ''b'', a_channel_scope = None\<rparr>"
  let ?b = "\<lparr>a_channel = lit ''a'', a_user_id = lit ''_b'', a_channel_scope = None\<rparr>"
  have "actor_valid ?a" "actor_valid ?b" by (simp_all add: actor_valid_def valid_str_def lit_def)
  from storage_key_injective [OF this] show ?thesis by simp
qed

text \<open>The session of either kind is recovered from its session id (ASCII components).\<close>

theorem session_id_roundtrip:
  assumes "wf_session s" "session_ascii s"
  shows "session_from_session_id (session_id s) = Some s"
proof (cases "s_kind s")
  case Direct
  obtain u where u: "s_user_id s = Some u" "trimmed u" "s_channel_scope s = None"
    using assms(1) Direct by (auto simp: wf_session_def)
  have t: "trimmed (s_channel s)" using assms(1) by (simp add: wf_session_def)
  have a: "is_ascii (s_channel s)" "is_ascii u" using assms(2) u by (auto simp: session_ascii_def)
  have "s = \<lparr>s_channel = s_channel s, s_kind = Direct, s_user_id = Some u, s_channel_scope = None\<rparr>"
    using u Direct by (cases s) simp
  then show ?thesis
    using Direct u t a session_direct_of_trimmed [OF t u(2)]
      decode_encode_ascii [of "lit ''direct''"]
    by (simp add: session_from_session_id_def session_id_def session_id_direct_shape [OF ascii_valid [OF a(1)]]
        decode_encode_ascii encode_direct Let_def trimmed_def)
next
  case Group
  obtain g where g: "s_channel_scope s = Some g" "trimmed g" "s_user_id s = None"
    using assms(1) Group by (auto simp: wf_session_def)
  have t: "trimmed (s_channel s)" using assms(1) by (simp add: wf_session_def)
  have a: "is_ascii (s_channel s)" "is_ascii g" using assms(2) g by (auto simp: session_ascii_def)
  have "s = \<lparr>s_channel = s_channel s, s_kind = Group, s_user_id = None, s_channel_scope = Some g\<rparr>"
    using g Group by (cases s) simp
  then show ?thesis
    using Group g t a session_group_of_trimmed [OF t g(2)]
    by (simp add: session_from_session_id_def session_id_def session_id_group_shape [OF ascii_valid [OF a(1)]]
        session_id_actor_prefix decode_encode_ascii Let_def trimmed_def)
qed

theorem session_id_roundtrip_witness:
  "session_from_session_id (session_id \<lparr>s_channel = lit ''telegram'', s_kind = Group, s_user_id = None,
      s_channel_scope = Some (lit ''-100__group__7'')\<rparr>)
   = Some \<lparr>s_channel = lit ''telegram'', s_kind = Group, s_user_id = None,
      s_channel_scope = Some (lit ''-100__group__7'')\<rparr>"
  by (rule session_id_roundtrip)
    (simp_all add: wf_session_def trimmed_def session_ascii_def str_eval)

end
