(* ===== verification/Calendar.thy ===== *)
theory Calendar
  imports Rust_Prelude
begin

text \<open>
  Time. The sources take their calendar from the crates \<^verbatim>\<open>chrono\<close> and \<^verbatim>\<open>chrono-tz\<close>, which are
  not part of the repository: the record \<open>chrono\<close> holds the operations the sources call, every
  definition that needs one takes the record as an argument, and the locales \<open>clock_text\<close> and
  \<open>calendar\<close> state the documented behaviour that the proofs rely on. The record \<open>gregorian\<close> is an
  executable calendar that satisfies the laws; it instantiates the parameter in the witnesses.

  An instant is a number of nanoseconds since 1970-01-01T00:00:00Z, a date (\<^verbatim>\<open>NaiveDate\<close>) the number
  of its day, a duration a number of nanoseconds. The limits of \<^verbatim>\<open>chrono\<close>'s range (some 262000
  years) are not modelled.
\<close>

section \<open>Instants and local time\<close>

type_synonym instant = int
type_synonym date = int

definition secs :: "int \<Rightarrow> int" where
  "secs n = n * 1000000000"

definition minutes :: "int \<Rightarrow> int" where
  "minutes n = secs (60 * n)"

definition hours :: "int \<Rightarrow> int" where
  "hours n = secs (3600 * n)"

definition days :: "int \<Rightarrow> int" where
  "days n = secs (86400 * n)"

text \<open>\<^verbatim>\<open>DateTime::timestamp()\<close>: whole seconds, rounded down.\<close>

definition timestamp :: "instant \<Rightarrow> int" where
  "timestamp i = i div 1000000000"

lemma timestamp_mono: "i \<le> j \<Longrightarrow> timestamp i \<le> timestamp j"
  by (simp add: timestamp_def zdiv_mono1)

lemma timestamp_secs [simp]: "timestamp (secs n) = n"
  by (simp add: timestamp_def secs_def)

text \<open>Local wall-clock readings at a UTC offset given in seconds.\<close>

definition local_secs :: "int \<Rightarrow> instant \<Rightarrow> int" where
  "local_secs off i = timestamp i + off"

definition local_date :: "int \<Rightarrow> instant \<Rightarrow> date" where
  "local_date off i = local_secs off i div 86400"

definition local_hour :: "int \<Rightarrow> instant \<Rightarrow> nat" where
  "local_hour off i = nat (local_secs off i mod 86400 div 3600)"

definition local_minute :: "int \<Rightarrow> instant \<Rightarrow> nat" where
  "local_minute off i = nat (local_secs off i mod 3600 div 60)"

lemma local_hour_less: "local_hour off i < 24"
proof -
  have "local_secs off i mod 86400 < 86400" by simp
  then have "local_secs off i mod 86400 div 3600 < 24" by simp
  then show ?thesis by (simp add: local_hour_def)
qed

lemma local_minute_less: "local_minute off i < 60"
proof -
  have "local_secs off i mod 3600 < 3600" by simp
  then have "local_secs off i mod 3600 div 60 < 60" by simp
  then show ?thesis by (simp add: local_minute_def)
qed

text \<open>\<^verbatim>\<open>FixedOffset::east_opt\<close> accepts offsets of less than a day.\<close>

definition east_opt :: "int \<Rightarrow> int option" where
  "east_opt s = (if - 86400 < s \<and> s < 86400 then Some s else None)"

definition fixed_offset_hours :: "int \<Rightarrow> int" where
  "fixed_offset_hours h = unwrap_or 0 (east_opt (h * 3600))"

section \<open>The calendar operations the sources call\<close>

record chrono =
  ch_parse_hm :: "rstr \<Rightarrow> (nat \<times> nat) option"
  ch_parse_date :: "rstr \<Rightarrow> date option"
  ch_fmt_date :: "date \<Rightarrow> rstr"
  ch_parse_rfc3339 :: "rstr \<Rightarrow> (instant \<times> int) option"
  ch_to_rfc3339 :: "instant \<Rightarrow> int \<Rightarrow> rstr"
  ch_from_ymd :: "int \<Rightarrow> nat \<Rightarrow> nat \<Rightarrow> date option"
  ch_year :: "date \<Rightarrow> int"
  ch_weekday :: "date \<Rightarrow> nat"
  ch_iso_week :: "date \<Rightarrow> int \<times> nat"
  ch_tz :: "rstr \<Rightarrow> (instant \<Rightarrow> int) option"

text \<open>
  The fields are, in order: \<^verbatim>\<open>NaiveTime::parse_from_str(_, "%H:%M")\<close> (hour and minute),
  \<^verbatim>\<open>NaiveDate::parse_from_str(_, "%Y-%m-%d")\<close> and the inverse formatting,
  \<^verbatim>\<open>DateTime::parse_from_rfc3339\<close> (the instant and the offset it was written with) and
  \<^verbatim>\<open>to_rfc3339\<close>, \<^verbatim>\<open>NaiveDate::from_ymd_opt\<close>, \<^verbatim>\<open>year()\<close>,
  \<^verbatim>\<open>weekday().num_days_from_monday()\<close>, \<^verbatim>\<open>iso_week()\<close>, and the parsing of an IANA zone name
  into its offset (seconds east) at each instant.
\<close>

text \<open>\<^verbatim>\<open>hone-core/src/time.rs\<close>: Beijing time, and an instant written in it.\<close>

definition beijing_offset :: int where
  "beijing_offset = 28800"

definition beijing_rfc3339 :: "chrono \<Rightarrow> instant \<Rightarrow> rstr" where
  "beijing_rfc3339 C now = ch_to_rfc3339 C now beijing_offset"

locale clock_text =
  fixes C :: chrono
  assumes parse_hm_range: "ch_parse_hm C s = Some (h, m) \<Longrightarrow> h < 24 \<and> m < 60"
    and parse_hm_fmt: "h < 24 \<Longrightarrow> m < 60 \<Longrightarrow> ch_parse_hm C (fmt02 h @ 58 # fmt02 m) = Some (h, m)"
    and parse_to_rfc3339: "ch_parse_rfc3339 C (ch_to_rfc3339 C i off) = Some (i, off)"

locale calendar =
  fixes C :: chrono
  assumes weekday_less: "ch_weekday C x < 7"
    and weekday_next: "ch_weekday C (x + 1) = (ch_weekday C x + 1) mod 7"
    and first_of_month: "1 \<le> m \<Longrightarrow> m \<le> 12 \<Longrightarrow> \<exists>a. ch_from_ymd C y m 1 = Some a"
    and day_of_month: "ch_from_ymd C y m 1 = Some a \<Longrightarrow> 1 \<le> d \<Longrightarrow> d \<le> 28 \<Longrightarrow>
          ch_from_ymd C y m d = Some (a + int d - 1)"
    and long_months: "m \<in> {1, 3, 5, 7, 8, 10, 12} \<Longrightarrow> ch_from_ymd C y m 1 = Some a \<Longrightarrow> 1 \<le> d \<Longrightarrow> d \<le> 31 \<Longrightarrow>
          ch_from_ymd C y m d = Some (a + int d - 1)"
    and thirty_days: "1 \<le> m \<Longrightarrow> m \<le> 12 \<Longrightarrow> m \<noteq> 2 \<Longrightarrow> ch_from_ymd C y m 1 = Some a \<Longrightarrow> 1 \<le> d \<Longrightarrow> d \<le> 30 \<Longrightarrow>
          ch_from_ymd C y m d = Some (a + int d - 1)"
    and year_of_ymd: "ch_from_ymd C y m d = Some n \<Longrightarrow> ch_year C n = y"
begin

lemma weekday_plus: "ch_weekday C (d + int k) = (ch_weekday C d + k) mod 7"
proof (induction k)
  case 0
  then show ?case using weekday_less [of d] by simp
next
  case (Suc k)
  have "d + int (Suc k) = (d + int k) + 1" by simp
  then have "ch_weekday C (d + int (Suc k)) = ((ch_weekday C d + k) mod 7 + 1) mod 7"
    by (simp only: weekday_next Suc.IH)
  then show ?case by (simp add: mod_Suc_eq)
qed

lemma weekday_reaches:
  assumes "w < 7"
  obtains k where "k < 7" "ch_weekday C (d + int k) = w" "\<forall>j < k. ch_weekday C (d + int j) \<noteq> w"
proof -
  let ?P = "\<lambda>k. ch_weekday C (d + int k) = w"
  let ?k = "(w + 7 - ch_weekday C d) mod 7"
  have wd: "ch_weekday C d < 7" by (rule weekday_less)
  have "(ch_weekday C d + ?k) mod 7 = (ch_weekday C d + (w + 7 - ch_weekday C d)) mod 7"
    by (rule mod_add_right_eq)
  also have "ch_weekday C d + (w + 7 - ch_weekday C d) = w + 7" using wd assms by linarith
  also have "(w + 7) mod 7 = w" using assms by simp
  finally have ex: "?P ?k" by (simp only: weekday_plus)
  let ?l = "LEAST k. ?P k"
  have "?P ?l" by (rule LeastI [of ?P, OF ex])
  moreover have "?l < 7" using Least_le [of ?P, OF ex] by (rule le_less_trans) simp
  moreover have "\<forall>j < ?l. \<not> ?P j" using not_less_Least by blast
  ultimately show ?thesis using that by blast
qed

end

section \<open>An executable Gregorian calendar\<close>

definition is_leap :: "int \<Rightarrow> bool" where
  "is_leap y \<longleftrightarrow> y mod 4 = 0 \<and> (y mod 100 \<noteq> 0 \<or> y mod 400 = 0)"

definition month_lengths :: "int \<Rightarrow> nat list" where
  "month_lengths y = [31, if is_leap y then 29 else 28, 31, 30, 31, 30, 31, 31, 30, 31, 30, 31]"

text \<open>The day number of 1 January of the year \<open>y\<close> (1970-01-01 is day 0).\<close>

definition jan1 :: "int \<Rightarrow> date" where
  "jan1 y = 365 * (y - 1) + (y - 1) div 4 - (y - 1) div 100 + (y - 1) div 400 - 719162"

definition greg_from_ymd :: "int \<Rightarrow> nat \<Rightarrow> nat \<Rightarrow> date option" where
  "greg_from_ymd y m d =
     (if 1 \<le> m \<and> m \<le> 12 \<and> 1 \<le> d \<and> d \<le> month_lengths y ! (m - 1)
      then Some (jan1 y + int (sum_list (take (m - 1) (month_lengths y))) + int d - 1) else None)"

lemma jan1_next: "jan1 (y + 1) = jan1 y + (if is_leap y then 366 else 365)"
proof -
  have q: "(y - 1) div k = y div k - (if y mod k = 0 then 1 else 0)" if "1 < k" for k :: int
  proof (cases "y mod k = 0")
    case True
    have "y - 1 = k * (y div k - 1) + (k - 1)"
      using div_mult_mod_eq [of y k] True by (simp add: algebra_simps)
    then have "(y - 1) div k = y div k - 1"
      by (rule int_div_pos_eq) (use that in simp_all)
    with True show ?thesis by simp
  next
    case False
    have "y - 1 = k * (y div k) + (y mod k - 1)"
      using div_mult_mod_eq [of y k] by (simp add: algebra_simps)
    moreover have "0 \<le> y mod k - 1"
      using False pos_mod_sign [of k y] that by linarith
    ultimately have "(y - 1) div k = y div k"
      by (rule int_div_pos_eq) (use that pos_mod_bound [of k y] in linarith)
    with False show ?thesis by simp
  qed
  have dv: "y mod 100 = 0" if "y mod 400 = 0" using that by presburger
  have dv4: "y mod 4 = 0" if "y mod 100 = 0" using that by presburger
  have q4: "(y - 1) div 4 = y div 4 - (if y mod 4 = 0 then 1 else 0)" by (rule q) simp
  have q100: "(y - 1) div 100 = y div 100 - (if y mod 100 = 0 then 1 else 0)" by (rule q) simp
  have q400: "(y - 1) div 400 = y div 400 - (if y mod 400 = 0 then 1 else 0)" by (rule q) simp
  have "jan1 (y + 1) - jan1 y = 365 + (if y mod 4 = 0 then 1 else 0)
      - (if y mod 100 = 0 then 1 else 0) + (if y mod 400 = 0 then 1 else 0)"
    unfolding jan1_def q4 q100 q400 by simp
  then show ?thesis using dv dv4 unfolding is_leap_def by (simp split: if_splits)
qed

lemma jan1_step: "jan1 y + 365 \<le> jan1 (y + 1)"
  by (simp add: jan1_next)

lemma jan1_plus: "jan1 y + 365 * int k \<le> jan1 (y + int k)"
proof (induction k)
  case 0
  then show ?case by simp
next
  case (Suc k)
  have "jan1 (y + int k) + 365 \<le> jan1 (y + int k + 1)" by (rule jan1_step)
  then show ?case using Suc.IH by (simp add: algebra_simps)
qed

lemma jan1_mono: "y \<le> z \<Longrightarrow> jan1 y \<le> jan1 z"
  using jan1_plus [of y "nat (z - y)"] by simp

function year_down :: "date \<Rightarrow> int \<Rightarrow> int" where
  "year_down n y = (if jan1 y \<le> n then y else year_down n (y - 1))"
  by pat_completeness auto
termination
proof (relation "measure (\<lambda>(n, y). nat (jan1 y - n))")
  fix n y :: int
  assume "\<not> jan1 y \<le> n"
  moreover have "jan1 (y - 1) < jan1 y" using jan1_step [of "y - 1"] by simp
  ultimately show "((n, y - 1), (n, y)) \<in> measure (\<lambda>(n, y). nat (jan1 y - n))" by simp
qed simp

declare year_down.simps [simp del]

definition greg_year :: "date \<Rightarrow> int" where
  "greg_year n = year_down n (1971 + max (n div 365) (n div 366))"

lemma year_down_eq:
  assumes "jan1 y \<le> n" "n < jan1 (y + 1)" "y \<le> z"
  shows "year_down n z = y"
  using assms
proof (induction n z rule: year_down.induct)
  case (1 n z)
  show ?case
  proof (cases "jan1 z \<le> n")
    case True
    have "\<not> y < z"
    proof
      assume "y < z"
      then have "jan1 (y + 1) \<le> jan1 z" by (intro jan1_mono) simp
      then show False using True "1.prems" by simp
    qed
    then show ?thesis using True "1.prems" by (subst year_down.simps) simp
  next
    case False
    then have "y \<noteq> z" using "1.prems" by auto
    then show ?thesis using False "1.IH" "1.prems" by (subst year_down.simps) simp
  qed
qed

lemma jan1_back: "365 - 366 * int k \<le> jan1 (1971 - int k)"
proof (induction k)
  case 0
  show ?case by (simp add: jan1_def)
next
  case (Suc k)
  have e: "1971 - int k = (1971 - int (Suc k)) + 1" by simp
  have "jan1 (1971 - int k) \<le> jan1 (1971 - int (Suc k)) + 366"
    unfolding e jan1_next by simp
  then show ?case using Suc.IH by simp
qed

lemma greg_year_start:
  assumes "jan1 y \<le> n"
  shows "y \<le> 1971 + max (n div 365) (n div 366)"
proof (cases "y \<le> 1971")
  case True
  have "365 - 366 * (1971 - y) \<le> jan1 y"
    using jan1_back [of "nat (1971 - y)"] True by simp
  then have "366 * (y - 1971) \<le> n" using assms by simp
  then have "366 * (y - 1971) div 366 \<le> n div 366" by (intro zdiv_mono1) simp_all
  then show ?thesis by simp
next
  case False
  have "jan1 1971 = 365" by (simp add: jan1_def)
  moreover have "jan1 1971 + 365 * (y - 1971) \<le> jan1 y"
    using jan1_plus [of 1971 "nat (y - 1971)"] False by simp
  ultimately have "365 * (y - 1971) \<le> n" using assms by simp
  then have "365 * (y - 1971) div 365 \<le> n div 365" by (intro zdiv_mono1) simp_all
  then show ?thesis by simp
qed

lemma greg_year_eq: "jan1 y \<le> n \<Longrightarrow> n < jan1 (y + 1) \<Longrightarrow> greg_year n = y"
  unfolding greg_year_def by (rule year_down_eq [OF _ _ greg_year_start])


lemma month_index:
  assumes "1 \<le> m" "m \<le> 12"
  shows "m - 1 \<in> {0, 1, 2, 3, 4, 5, 6, 7, 8, 9, 10, 11 :: nat}"
proof -
  have "m - 1 < 12" using assms by linarith
  then have "m - 1 \<in> set [0..<12]" by simp
  also have "set [0..<12] = {0, 1, 2, 3, 4, 5, 6, 7, 8, 9, 10, 11 :: nat}" by code_simp
  finally show ?thesis .
qed

lemma greg_first: "1 \<le> m \<Longrightarrow> m \<le> 12 \<Longrightarrow>
    greg_from_ymd y m 1 = Some (jan1 y + int (sum_list (take (m - 1) (month_lengths y))))"
proof -
  assume "1 \<le> m" "m \<le> 12"
  then have "m - 1 \<in> {0, 1, 2, 3, 4, 5, 6, 7, 8, 9, 10, 11}" by (rule month_index)
  then have "1 \<le> month_lengths y ! (m - 1)" by (auto simp: month_lengths_def nth_Cons')
  then show ?thesis using \<open>1 \<le> m\<close> \<open>m \<le> 12\<close> by (simp add: greg_from_ymd_def)
qed

lemma greg_day:
  assumes "greg_from_ymd y m 1 = Some a" "1 \<le> d" "d \<le> month_lengths y ! (m - 1)"
  shows "greg_from_ymd y m d = Some (a + int d - 1)"
  using assms by (auto simp: greg_from_ymd_def split: if_splits)

lemma greg_valid: "greg_from_ymd y m d = Some n \<Longrightarrow> 1 \<le> m \<and> m \<le> 12"
  by (simp add: greg_from_ymd_def split: if_splits)

lemma month_lengths_28: "1 \<le> m \<Longrightarrow> m \<le> 12 \<Longrightarrow> 28 \<le> month_lengths y ! (m - 1)"
  using month_index [of m] by (auto simp: month_lengths_def nth_Cons')

lemma month_lengths_30: "1 \<le> m \<Longrightarrow> m \<le> 12 \<Longrightarrow> m \<noteq> 2 \<Longrightarrow> 30 \<le> month_lengths y ! (m - 1)"
  using month_index [of m] by (auto simp: month_lengths_def nth_Cons')

lemma month_lengths_31: "m \<in> {1, 3, 5, 7, 8, 10, 12} \<Longrightarrow> month_lengths y ! (m - 1) = 31"
  by (auto simp: month_lengths_def)

lemma days_before_month:
  assumes "1 \<le> m" "m \<le> 12"
  shows "sum_list (take (m - 1) (month_lengths y)) + month_lengths y ! (m - 1)
       \<le> (if is_leap y then 366 else 365)"
  using month_index [OF assms] by (auto simp: month_lengths_def nth_Cons' take_Cons')

lemma greg_year_ymd:
  assumes "greg_from_ymd y m d = Some n"
  shows "greg_year n = y"
proof (rule greg_year_eq)
  have m: "1 \<le> m" "m \<le> 12" and d: "1 \<le> d" "d \<le> month_lengths y ! (m - 1)"
    and n: "n = jan1 y + int (sum_list (take (m - 1) (month_lengths y))) + int d - 1"
    using assms by (auto simp: greg_from_ymd_def split: if_splits)
  show "jan1 y \<le> n" using n d by simp
  have "int (sum_list (take (m - 1) (month_lengths y))) + int d \<le> (if is_leap y then 366 else 365)"
    using days_before_month [OF m, of y] d by (auto split: if_splits)
  then show "n < jan1 (y + 1)" using n by (simp add: jan1_next split: if_splits)
qed

definition greg_weekday :: "date \<Rightarrow> nat" where
  "greg_weekday n = nat ((n + 3) mod 7)"

definition greg_iso_week :: "date \<Rightarrow> int \<times> nat" where
  "greg_iso_week n =
     (let th = n - int (greg_weekday n) + 3; y = greg_year th
      in (y, nat ((th - jan1 y) div 7) + 1))"

fun find_month :: "nat list \<Rightarrow> nat \<Rightarrow> nat \<Rightarrow> nat \<times> nat" where
  "find_month [] m k = (m, k + 1)"
| "find_month (l # ls) m k = (if k < l then (m, k + 1) else find_month ls (m + 1) (k - l))"

definition greg_fmt_date :: "date \<Rightarrow> rstr" where
  "greg_fmt_date n =
     (let y = greg_year n; (m, d) = find_month (month_lengths y) 1 (nat (n - jan1 y))
      in int_str y @ 45 # fmt02 m @ 45 # fmt02 d)"

definition small_number :: "rstr \<Rightarrow> nat option" where
  "small_number s = (if s \<noteq> [] \<and> list_all is_digit s then Some (digits_value s) else None)"

definition greg_parse_date :: "rstr \<Rightarrow> date option" where
  "greg_parse_date s =
     (case splitn 3 [45] s of
        [a, b, c] \<Rightarrow>
          (case (small_number a, small_number b, small_number c) of
             (Some y, Some m, Some d) \<Rightarrow> greg_from_ymd (int y) m d | _ \<Rightarrow> None)
      | _ \<Rightarrow> None)"

definition greg_parse_hm :: "rstr \<Rightarrow> (nat \<times> nat) option" where
  "greg_parse_hm s =
     (case split_once [58] s of
        Some (a, b) \<Rightarrow>
          (case (small_number a, small_number b) of
             (Some h, Some m) \<Rightarrow> if length a \<le> 2 \<and> length b \<le> 2 \<and> h < 24 \<and> m < 60 then Some (h, m) else None
           | _ \<Rightarrow> None)
      | None \<Rightarrow> None)"

text \<open>Time stamps are written in decimal, nanoseconds and offset, by this instance.\<close>

definition plain_parse_int :: "rstr \<Rightarrow> int option" where
  "plain_parse_int s =
     (case s of
        [] \<Rightarrow> None
      | c # cs \<Rightarrow> if c = 45 then map_option (\<lambda>n. - int n) (small_number cs) else map_option int (small_number s))"

definition greg_to_rfc3339 :: "instant \<Rightarrow> int \<Rightarrow> rstr" where
  "greg_to_rfc3339 i off = int_str i @ 64 # int_str off"

definition greg_parse_rfc3339 :: "rstr \<Rightarrow> (instant \<times> int) option" where
  "greg_parse_rfc3339 s =
     (case split_once [64] s of
        Some (a, b) \<Rightarrow>
          (case (plain_parse_int a, plain_parse_int b) of (Some i, Some off) \<Rightarrow> Some (i, off) | _ \<Rightarrow> None)
      | None \<Rightarrow> None)"

definition greg_tz :: "rstr \<Rightarrow> (instant \<Rightarrow> int) option" where
  "greg_tz name =
     (if name = lit ''UTC'' then Some (\<lambda>_. 0)
      else if name = lit ''Asia/Shanghai'' then Some (\<lambda>_. 28800) else None)"

definition gregorian :: chrono where
  "gregorian = \<lparr>ch_parse_hm = greg_parse_hm, ch_parse_date = greg_parse_date, ch_fmt_date = greg_fmt_date,
     ch_parse_rfc3339 = greg_parse_rfc3339, ch_to_rfc3339 = greg_to_rfc3339, ch_from_ymd = greg_from_ymd,
     ch_year = greg_year, ch_weekday = greg_weekday, ch_iso_week = greg_iso_week, ch_tz = greg_tz\<rparr>"

lemma gregorian_simps [simp]:
  "ch_parse_hm gregorian = greg_parse_hm" "ch_parse_date gregorian = greg_parse_date"
  "ch_fmt_date gregorian = greg_fmt_date" "ch_parse_rfc3339 gregorian = greg_parse_rfc3339"
  "ch_to_rfc3339 gregorian = greg_to_rfc3339" "ch_from_ymd gregorian = greg_from_ymd"
  "ch_year gregorian = greg_year" "ch_weekday gregorian = greg_weekday"
  "ch_iso_week gregorian = greg_iso_week" "ch_tz gregorian = greg_tz"
  by (simp_all add: gregorian_def)

lemma split_once_char:
  "\<forall>c \<in> set a. c \<noteq> k \<Longrightarrow> split_once [k] (a @ k # b) = Some (a, b)"
  by (induction a) auto

lemma nat_digits_no: "is_digit k = False \<Longrightarrow> \<forall>c \<in> set (nat_digits n). c \<noteq> k"
  using nat_digits_digit [of n] by (auto simp: list_all_iff)

lemma fmt02_number:
  assumes "n < 100"
  shows "small_number (fmt02 n) = Some n" "length (fmt02 n) = 2" "\<forall>c \<in> set (fmt02 n). is_digit c"
proof -
  have all: "list_all is_digit (nat_digits n)" by (rule nat_digits_digit)
  have d48: "is_digit 48" by (simp add: is_digit_def)
  have z: "digits_value (48 # ds) = digits_value ds" for ds by (simp add: digits_value_def)
  have "length (nat_digits n) = 2" if "\<not> n < 10"
    using that assms nat_digits_step [OF that] nat_digits_small [of "n div 10"] by simp
  then show "length (fmt02 n) = 2" by (simp add: fmt02_def nat_digits_small)
  show "small_number (fmt02 n) = Some n" using all d48 by (simp add: small_number_def fmt02_def z)
  show "\<forall>c \<in> set (fmt02 n). is_digit c" using all d48 by (auto simp: fmt02_def list_all_iff)
qed

lemma plain_parse_int_str: "plain_parse_int (int_str i) = Some i"
proof (cases "i < 0")
  case True
  then show ?thesis by (simp add: plain_parse_int_def int_str_def small_number_def nat_digits_digit)
next
  case False
  obtain c cs where c: "nat_digits (nat i) = c # cs" "is_digit c" using nat_digits_Cons by blast
  have "small_number (nat_digits (nat i)) = Some (nat i)" by (simp add: small_number_def nat_digits_digit)
  then show ?thesis using False c digit_char [OF c(2)] by (simp add: plain_parse_int_def int_str_def)
qed

lemma int_str_no_at: "\<forall>c \<in> set (int_str i). c \<noteq> 64"
  using nat_digits_no [of 64] by (auto simp: int_str_def is_digit_def)

interpretation greg_text: clock_text gregorian
proof unfold_locales
  show "h < 24 \<and> m < 60" if "ch_parse_hm gregorian s = Some (h, m)" for s h m
    using that by (simp add: greg_parse_hm_def split: option.splits prod.splits if_splits)
  show "ch_parse_hm gregorian (fmt02 h @ 58 # fmt02 m) = Some (h, m)" if "h < 24" "m < 60" for h m
  proof -
    have "\<forall>c \<in> set (fmt02 h). c \<noteq> 58"
      using fmt02_number(3) [of h] that by (auto simp: is_digit_def)
    then show ?thesis using that fmt02_number [of h] fmt02_number [of m]
      by (simp add: greg_parse_hm_def split_once_char)
  qed
  show "ch_parse_rfc3339 gregorian (ch_to_rfc3339 gregorian i off) = Some (i, off)" for i off
    by (simp add: greg_parse_rfc3339_def greg_to_rfc3339_def split_once_char [OF int_str_no_at] plain_parse_int_str)
qed

lemma greg_weekday_next: "greg_weekday (x + 1) = (greg_weekday x + 1) mod 7"
proof -
  have "((x + 3) mod 7 + 1) mod 7 = (x + 3 + 1) mod 7" by (rule mod_add_left_eq)
  then have "(x + 1 + 3) mod 7 = ((x + 3) mod 7 + 1) mod 7" by (simp add: algebra_simps)
  then have "nat ((x + 1 + 3) mod 7) = nat (((x + 3) mod 7 + 1) mod 7)" by simp
  also have "\<dots> = (nat ((x + 3) mod 7) + 1) mod 7" by (simp add: nat_mod_distrib nat_add_distrib)
  finally show ?thesis by (simp add: greg_weekday_def)
qed

interpretation greg: calendar gregorian
proof unfold_locales
  show "ch_weekday gregorian x < 7" for x
    by (simp add: greg_weekday_def nat_less_iff)
  show "ch_weekday gregorian (x + 1) = (ch_weekday gregorian x + 1) mod 7" for x
    by (simp add: greg_weekday_next)
  show "\<exists>a. ch_from_ymd gregorian y m 1 = Some a" if "1 \<le> m" "m \<le> 12" for y m
    using greg_first [OF that] by simp
  show "ch_from_ymd gregorian y m d = Some (a + int d - 1)"
    if "ch_from_ymd gregorian y m 1 = Some a" "1 \<le> d" "d \<le> 28" for y m a d
    using that greg_valid [of y m 1 a] month_lengths_28 [of m y] greg_day [of y m a d] by simp
  show "ch_from_ymd gregorian y m d = Some (a + int d - 1)"
    if "m \<in> {1, 3, 5, 7, 8, 10, 12}" "ch_from_ymd gregorian y m 1 = Some a" "1 \<le> d" "d \<le> 31" for y m a d
    using that month_lengths_31 [of m y] greg_day [of y m a d] by simp
  show "ch_from_ymd gregorian y m d = Some (a + int d - 1)"
    if "1 \<le> m" "m \<le> 12" "m \<noteq> 2" "ch_from_ymd gregorian y m 1 = Some a" "1 \<le> d" "d \<le> 30" for y m a d
    using that month_lengths_30 [of m y] greg_day [of y m a d] by simp
  show "ch_year gregorian n = y" if "ch_from_ymd gregorian y m d = Some n" for y m d n
    using that greg_year_ymd by simp
qed

end
