(* ===== verification/Time_Windows.thy ===== *)
theory Time_Windows
  imports Calendar
begin

text \<open>
  \<^verbatim>\<open>crates/hone-core/src/quiet.rs\<close> and \<^verbatim>\<open>crates/hone-event-engine/src/digest/time_window.rs\<close>: the
  quiet-hours test in its two implementations, the digest trigger minute, and the arithmetic on
  \<^verbatim>\<open>HH:MM\<close> texts. The lemmas show that the two quiet tests agree and that both decide membership in
  the circular interval from \<open>from\<close> to \<open>to\<close> on the 24-hour clock.
\<close>

section \<open>quiet.rs\<close>

record quiet_hours =
  qh_from :: rstr
  qh_to :: rstr
  qh_exempt_kinds :: "rstr list"

definition hm_at :: "int \<Rightarrow> instant \<Rightarrow> nat \<times> nat" where
  "hm_at off now = (local_hour off now, local_minute off now)"

definition local_hm :: "chrono \<Rightarrow> rstr option \<Rightarrow> int \<Rightarrow> instant \<Rightarrow> nat \<times> nat" where
  "local_hm C tz_name fallback_offset_hours now =
     (case Option.bind tz_name (ch_tz C) of
        Some tz \<Rightarrow> hm_at (tz now) now
      | None \<Rightarrow> hm_at (fixed_offset_hours fallback_offset_hours) now)"

definition quiet_window_active :: "chrono \<Rightarrow> rstr option \<Rightarrow> int \<Rightarrow> rstr \<Rightarrow> rstr \<Rightarrow> instant \<Rightarrow> bool" where
  "quiet_window_active C tz_name fallback_offset_hours from_s to_s now =
     (let (h, m) = local_hm C tz_name fallback_offset_hours now; now_min = h * 60 + m in
      case ch_parse_hm C from_s of
        None \<Rightarrow> False
      | Some (fh, fm) \<Rightarrow>
          (case ch_parse_hm C to_s of
             None \<Rightarrow> False
           | Some (th, tm) \<Rightarrow>
               (let from_min = fh * 60 + fm; to_min = th * 60 + tm in
                if from_min = to_min then False
                else if from_min < to_min then now_min \<ge> from_min \<and> now_min < to_min
                else now_min \<ge> from_min \<or> now_min < to_min)))"

definition is_kind_exempt :: "rstr list \<Rightarrow> rstr \<Rightarrow> bool" where
  "is_kind_exempt exempt_kinds tag \<longleftrightarrow> (\<exists>t \<in> set exempt_kinds. t = tag)"

section \<open>time_window.rs\<close>

definition in_window :: "chrono \<Rightarrow> instant \<Rightarrow> rstr \<Rightarrow> int \<Rightarrow> bool" where
  "in_window C now hhmm offset_hours =
     (let off = fixed_offset_hours offset_hours in
      case ch_parse_hm C hhmm of
        None \<Rightarrow> False
      | Some target \<Rightarrow> hm_at off now = target)"

definition shift_hhmm_earlier :: "chrono \<Rightarrow> rstr \<Rightarrow> nat \<Rightarrow> rstr" where
  "shift_hhmm_earlier C hhmm offset_mins =
     (case ch_parse_hm C hhmm of
        None \<Rightarrow> hhmm
      | Some (h, m) \<Rightarrow>
          (let total = int h * 60 + int m; shifted = (total - int offset_mins) mod (24 * 60)
           in fmt02 (nat (shifted div 60)) @ 58 # fmt02 (nat (shifted mod 60))))"

datatype effective_tz = Iana "instant \<Rightarrow> int" | Fixed int

definition from_actor_prefs :: "chrono \<Rightarrow> rstr option \<Rightarrow> int \<Rightarrow> effective_tz" where
  "from_actor_prefs C prefs_tz fallback_offset_hours =
     (case prefs_tz of
        Some name \<Rightarrow>
          (case ch_tz C name of
             Some tz \<Rightarrow> Iana tz
           | None \<Rightarrow> Fixed (fixed_offset_hours fallback_offset_hours))
      | None \<Rightarrow> Fixed (fixed_offset_hours fallback_offset_hours))"

fun tz_local_hm :: "effective_tz \<Rightarrow> instant \<Rightarrow> nat \<times> nat" where
  "tz_local_hm (Iana tz) now = hm_at (tz now) now"
| "tz_local_hm (Fixed off) now = hm_at off now"

definition tz_in_window :: "chrono \<Rightarrow> effective_tz \<Rightarrow> instant \<Rightarrow> rstr \<Rightarrow> bool" where
  "tz_in_window C tz now hhmm =
     (case ch_parse_hm C hhmm of
        None \<Rightarrow> False
      | Some (th, tm) \<Rightarrow> (let (h, m) = tz_local_hm tz now in h = th \<and> m = tm))"

definition in_quiet_window :: "chrono \<Rightarrow> effective_tz \<Rightarrow> instant \<Rightarrow> rstr \<Rightarrow> rstr \<Rightarrow> bool" where
  "in_quiet_window C tz now from_s to_s =
     (case ch_parse_hm C from_s of
        None \<Rightarrow> False
      | Some (fh, fm) \<Rightarrow>
          (case ch_parse_hm C to_s of
             None \<Rightarrow> False
           | Some (th, tm) \<Rightarrow>
               (let (h, m) = tz_local_hm tz now; now_min = h * 60 + m;
                    from_min = fh * 60 + fm; to_min = th * 60 + tm in
                if from_min = to_min then False
                else if from_min < to_min then now_min \<ge> from_min \<and> now_min < to_min
                else now_min \<ge> from_min \<or> now_min < to_min)))"

definition at_quiet_to_minute :: "chrono \<Rightarrow> effective_tz \<Rightarrow> instant \<Rightarrow> rstr \<Rightarrow> bool" where
  "at_quiet_to_minute C tz now to_s = tz_in_window C tz now to_s"

section \<open>Lemmas\<close>

definition minute_of_day :: "nat \<times> nat \<Rightarrow> nat" where
  "minute_of_day hm = fst hm * 60 + snd hm"

lemma minute_of_day_less: "h < 24 \<Longrightarrow> m < 60 \<Longrightarrow> minute_of_day (h, m) < 1440"
  by (simp add: minute_of_day_def)

lemma hm_at_minute: "minute_of_day (hm_at off now) < 1440"
  unfolding hm_at_def by (rule minute_of_day_less) (rule local_hour_less, rule local_minute_less)

lemma tz_local_hm_minute: "minute_of_day (tz_local_hm tz now) < 1440"
  by (cases tz) (simp_all add: hm_at_minute)

text \<open>The two-case test of the sources is membership in a circular interval.\<close>

lemma mod_sub_less:
  assumes "(a :: nat) < 1440" "b < 1440"
  shows "(int a - int b) mod 1440 = (if b \<le> a then int a - int b else int a - int b + 1440)"
proof (cases "b \<le> a")
  case True
  then show ?thesis using assms by simp
next
  case False
  have "(int a - int b) mod 1440 = (int a - int b + 1440) mod 1440" by simp
  also have "\<dots> = int a - int b + 1440" using assms False by (intro mod_pos_pos_trivial) simp_all
  finally show ?thesis using False by simp
qed

lemma circular_interval:
  assumes "(n :: nat) < 1440" "f < 1440" "t < 1440"
  shows "(if f = t then False else if f < t then n \<ge> f \<and> n < t else n \<ge> f \<or> n < t)
     \<longleftrightarrow> (int n - int f) mod 1440 < (int t - int f) mod 1440"
  unfolding mod_sub_less [OF assms(1,2)] mod_sub_less [OF assms(3,2)]
  using assms by auto

context clock_text
begin

lemma parsed_minute: "ch_parse_hm C s = Some hm \<Longrightarrow> minute_of_day hm < 1440"
  using parse_hm_range [of s "fst hm" "snd hm"] minute_of_day_less [of "fst hm" "snd hm"] by simp

lemma in_quiet_window_circular:
  assumes "ch_parse_hm C from_s = Some f" "ch_parse_hm C to_s = Some t"
  shows "in_quiet_window C tz now from_s to_s \<longleftrightarrow>
     (int (minute_of_day (tz_local_hm tz now)) - int (minute_of_day f)) mod 1440
       < (int (minute_of_day t) - int (minute_of_day f)) mod 1440"
proof -
  obtain h m where hm: "tz_local_hm tz now = (h, m)" by (cases "tz_local_hm tz now")
  have n: "h * 60 + m < 1440" using tz_local_hm_minute [of tz now] by (simp add: hm minute_of_day_def)
  have ft: "fst f * 60 + snd f < 1440" "fst t * 60 + snd t < 1440"
    using parsed_minute assms by (simp_all add: minute_of_day_def)
  show ?thesis
    unfolding in_quiet_window_def assms option.case case_prod_beta hm Let_def minute_of_day_def fst_conv snd_conv
    by (rule circular_interval [OF n ft])
qed

lemma shift_parse:
  assumes "ch_parse_hm C s = Some hm"
  shows "\<exists>hm'. ch_parse_hm C (shift_hhmm_earlier C s n) = Some hm' \<and>
     int (minute_of_day hm') = (int (minute_of_day hm) - int n) mod 1440"
proof -
  obtain h m where hm: "hm = (h, m)" by (cases hm)
  let ?s = "(int h * 60 + int m - int n) mod 1440"
  have s: "0 \<le> ?s" "?s < 1440" by simp_all
  have "?s div 60 < 24" "?s mod 60 < 60" "0 \<le> ?s div 60" using s by simp_all
  then have p: "ch_parse_hm C (fmt02 (nat (?s div 60)) @ 58 # fmt02 (nat (?s mod 60)))
      = Some (nat (?s div 60), nat (?s mod 60))"
    by (intro parse_hm_fmt) simp_all
  have "int (minute_of_day (nat (?s div 60), nat (?s mod 60))) = ?s div 60 * 60 + ?s mod 60"
    using s by (simp add: minute_of_day_def)
  then have "int (minute_of_day (nat (?s div 60), nat (?s mod 60))) = ?s" by simp
  then show ?thesis using p assms by (simp add: shift_hhmm_earlier_def hm minute_of_day_def Let_def)
qed

end

section \<open>Properties\<close>

text \<open>The cron path's quiet test (\<^verbatim>\<open>quiet_window_active\<close>) and the digest scheduler's
  (\<^verbatim>\<open>EffectiveTz::in_quiet_window\<close>) decide alike, for every zone name, offset and window text.\<close>

theorem quiet_tests_agree:
  "quiet_window_active C tz off from_s to_s now
     = in_quiet_window C (from_actor_prefs C tz off) now from_s to_s"
proof -
  have "local_hm C tz off now = tz_local_hm (from_actor_prefs C tz off) now"
    by (auto simp: local_hm_def from_actor_prefs_def split: option.splits)
  then show ?thesis
    unfolding quiet_window_active_def in_quiet_window_def
    by (auto simp: Let_def split: option.splits prod.splits)
qed

text \<open>With valid window texts, quiet hours hold exactly at the minutes of the circular interval
  \<open>[from, to)\<close> on the 24-hour clock; equal ends give the empty interval.\<close>

theorem quiet_window_circular:
  assumes "clock_text C" "ch_parse_hm C from_s = Some f" "ch_parse_hm C to_s = Some t"
  shows "quiet_window_active C tz off from_s to_s now \<longleftrightarrow>
     (int (minute_of_day (local_hm C tz off now)) - int (minute_of_day f)) mod 1440
       < (int (minute_of_day t) - int (minute_of_day f)) mod 1440"
proof -
  have "local_hm C tz off now = tz_local_hm (from_actor_prefs C tz off) now"
    by (auto simp: local_hm_def from_actor_prefs_def split: option.splits)
  moreover have "quiet_window_active C tz off from_s to_s now
      = in_quiet_window C (from_actor_prefs C tz off) now from_s to_s"
    unfolding quiet_window_active_def in_quiet_window_def calculation
    by (auto simp: Let_def split: option.splits prod.splits)
  ultimately show ?thesis using clock_text.in_quiet_window_circular [OF assms] by simp
qed

theorem quiet_window_circular_witness:
  "quiet_window_active gregorian None 8 (lit ''23:00'') (lit ''07:00'') (hours 15)
   \<and> \<not> quiet_window_active gregorian None 8 (lit ''23:00'') (lit ''07:00'') (hours 23)"
proof -
  have p: "ch_parse_hm gregorian (lit ''23:00'') = Some (23, 0)" "ch_parse_hm gregorian (lit ''07:00'') = Some (7, 0)"
    using greg_text.parse_hm_fmt [of 23 0] greg_text.parse_hm_fmt [of 7 0]
    by (simp_all add: fmt02_def nat_digits_small nat_digits_step lit_def)
  have n: "local_hm gregorian None 8 (hours 15) = (23, 0)" "local_hm gregorian None 8 (hours 23) = (7, 0)"
    by (simp_all add: local_hm_def hm_at_def local_hour_def local_minute_def local_secs_def hours_def
        fixed_offset_hours_def east_opt_def)
  show ?thesis
    using quiet_window_circular [OF greg_text.clock_text_axioms p, of None 8 "hours 15"]
      quiet_window_circular [OF greg_text.clock_text_axioms p, of None 8 "hours 23"]
    by (simp add: n minute_of_day_def)
qed

text \<open>\<^verbatim>\<open>shift_hhmm_earlier\<close> of a valid time is a valid time, exactly \<open>n\<close> minutes earlier on the
  24-hour clock.\<close>

theorem shift_hhmm_earlier_correct:
  assumes "clock_text C" "ch_parse_hm C s = Some hm"
  shows "\<exists>hm'. ch_parse_hm C (shift_hhmm_earlier C s n) = Some hm' \<and>
     int (minute_of_day hm') = (int (minute_of_day hm) - int n) mod 1440"
  by (rule clock_text.shift_parse [OF assms])

theorem shift_hhmm_earlier_correct_witness:
  "\<exists>hm'. ch_parse_hm gregorian (shift_hhmm_earlier gregorian (fmt02 0 @ 58 # fmt02 10) 30) = Some hm'
     \<and> int (minute_of_day hm') = 23 * 60 + 40"
proof -
  have "ch_parse_hm gregorian (fmt02 0 @ 58 # fmt02 10) = Some (0, 10)"
    by (rule greg_text.parse_hm_fmt) simp_all
  from shift_hhmm_earlier_correct [OF greg_text.clock_text_axioms this, of 30]
  show ?thesis by (simp add: minute_of_day_def)
qed

end
