(* ===== verification/Event.thy ===== *)
theory Event
  imports Calendar Time_Windows
begin

text \<open>
  \<^verbatim>\<open>crates/hone-event-engine/src/event.rs\<close>, the delivery preferences of \<^verbatim>\<open>prefs.rs\<close> and the floor
  classifier of \<^verbatim>\<open>unified_digest/floor.rs\<close>: the market event that every other part of the engine
  passes around, its severity order, its freshness, the per-actor filter \<^verbatim>\<open>should_deliver\<close>, and the
  tags that route it.
\<close>

section \<open>Severity and kind\<close>

datatype severity = Low | Medium | High

fun rank :: "severity \<Rightarrow> nat" where
  "rank Low = 0"
| "rank Medium = 1"
| "rank High = 2"

lemma rank_inject [simp]: "rank a = rank b \<longleftrightarrow> a = b"
  by (cases a; cases b) auto

instantiation severity :: linorder
begin

definition less_eq_severity :: "severity \<Rightarrow> severity \<Rightarrow> bool" where
  "less_eq_severity a b \<longleftrightarrow> rank a \<le> rank b"

definition less_severity :: "severity \<Rightarrow> severity \<Rightarrow> bool" where
  "less_severity a b \<longleftrightarrow> rank a < rank b"

instance
  by standard (auto simp: less_eq_severity_def less_severity_def)

end

lemma severity_le_simps [simp]:
  "Low \<le> s" "s \<le> High" "High \<le> s \<longleftrightarrow> s = High" "s \<le> Low \<longleftrightarrow> s = Low"
  by (cases s; simp add: less_eq_severity_def)+

datatype event_kind =
    EarningsUpcoming | EarningsReleased | EarningsCallTranscript | NewsCritical
  | PriceAlert (pct_change_bps: int) (price_window: rstr)
  | Weekly52High | Weekly52Low | Dividend | Split
  | SecFiling (form: rstr)
  | AnalystGrade | MacroEvent | SocialPost

fun is_price_alert :: "event_kind \<Rightarrow> bool" where
  "is_price_alert (PriceAlert b w) = True"
| "is_price_alert _ = False"

fun shelf_life :: "event_kind \<Rightarrow> int option" where
  "shelf_life (PriceAlert b w) = Some (hours 2)"
| "shelf_life Weekly52High = Some (hours 8)"
| "shelf_life Weekly52Low = Some (hours 8)"
| "shelf_life SocialPost = Some (hours 12)"
| "shelf_life _ = None"

definition is_fresh :: "event_kind \<Rightarrow> instant \<Rightarrow> instant \<Rightarrow> bool" where
  "is_fresh k occurred_at now =
     (case shelf_life k of None \<Rightarrow> True | Some ttl \<Rightarrow> now - occurred_at < ttl)"

fun kind_tag :: "event_kind \<Rightarrow> rstr" where
  "kind_tag EarningsUpcoming = lit ''earnings_upcoming''"
| "kind_tag EarningsReleased = lit ''earnings_released''"
| "kind_tag EarningsCallTranscript = lit ''earnings_call_transcript''"
| "kind_tag NewsCritical = lit ''news_critical''"
| "kind_tag (PriceAlert b w) = lit ''price_alert''"
| "kind_tag Weekly52High = lit ''weekly52_high''"
| "kind_tag Weekly52Low = lit ''weekly52_low''"
| "kind_tag Dividend = lit ''dividend''"
| "kind_tag Split = lit ''split''"
| "kind_tag (SecFiling f) = lit ''sec_filing''"
| "kind_tag AnalystGrade = lit ''analyst_grade''"
| "kind_tag MacroEvent = lit ''macro_event''"
| "kind_tag SocialPost = lit ''social_post''"

definition all_kind_tags :: "rstr list" where
  "all_kind_tags = [lit ''earnings_upcoming'', lit ''earnings_released'', lit ''earnings_call_transcript'',
     lit ''news_critical'', lit ''price_alert'', lit ''weekly52_high'', lit ''weekly52_low'',
     lit ''dividend'', lit ''split'', lit ''sec_filing'', lit ''analyst_grade'', lit ''macro_event'',
     lit ''social_post'']"

definition first_invalid_kind_tag :: "rstr list \<Rightarrow> rstr option" where
  "first_invalid_kind_tag tags = find (\<lambda>t. t \<notin> set all_kind_tags) tags"

section \<open>MarketEvent\<close>

record market_event =
  ev_id :: rstr
  ev_kind :: event_kind
  ev_severity :: severity
  ev_symbols :: "rstr list"
  ev_occurred_at :: instant
  ev_title :: rstr
  ev_summary :: rstr
  ev_url :: "rstr option"
  ev_source :: rstr
  ev_payload :: json

definition touches :: "market_event \<Rightarrow> rstr \<Rightarrow> bool" where
  "touches e symbol \<longleftrightarrow> (\<exists>s \<in> set (ev_symbols e). eq_ignore_ascii_case s symbol)"

text \<open>\<^verbatim>\<open>s.split(c).next()\<close>: the text before the first \<open>c\<close>.\<close>

definition before_char :: "nat \<Rightarrow> rstr \<Rightarrow> rstr" where
  "before_char k s = takeWhile (\<lambda>c. c \<noteq> k) s"

definition is_known_unstable_user_url :: "rstr \<Rightarrow> bool" where
  "is_known_unstable_user_url url =
     (let normalized = to_ascii_lowercase (trim url);
          without_scheme = unwrap_or normalized
            (or_else (strip_prefix (lit ''https://'') normalized) (strip_prefix (lit ''http://'') normalized));
          without_www = unwrap_or without_scheme (strip_prefix (lit ''www.'') without_scheme);
          host = before_char 47 without_www;
          path_with_query = unwrap_or [] (opt_filter (\<lambda>p. starts_with p [47]) (strip_prefix host without_www));
          path = before_char 63 path_with_query;
          is_thefly = host = lit ''thefly.com'' \<or> ends_with host (lit ''.thefly.com'')
      in is_thefly \<and> (path = lit ''/ajax/news_get.php'' \<or> path = lit ''/news.php''))"

definition is_user_visible_url :: "rstr \<Rightarrow> bool" where
  "is_user_visible_url url \<longleftrightarrow> \<not> is_known_unstable_user_url url"

definition user_visible_url :: "market_event \<Rightarrow> rstr option" where
  "user_visible_url e =
     opt_filter is_user_visible_url (opt_filter (\<lambda>u. u \<noteq> []) (map_option trim (ev_url e)))"

section \<open>Analyst grades without news\<close>

definition normalized_grade :: "rstr option \<Rightarrow> rstr" where
  "normalized_grade raw =
     intercalate [32] (split_whitespace (to_ascii_lowercase (trim (unwrap_or [] raw))))"

definition first_payload_f64 :: "json \<Rightarrow> rstr list \<Rightarrow> f64 option" where
  "first_payload_f64 payload keys =
     foldr (\<lambda>k rest. or_else (get_f64 payload k) rest) keys None"

definition f64_epsilon :: f64 where
  "f64_epsilon = 1 / 2 ^ 52"

definition target_field_changed :: "market_event \<Rightarrow> bool" where
  "target_field_changed e =
     (let old = first_payload_f64 (ev_payload e)
            [lit ''previousPriceTarget'', lit ''oldPriceTarget'', lit ''previousTargetPrice'', lit ''oldTargetPrice''];
          new = first_payload_f64 (ev_payload e)
            [lit ''newPriceTarget'', lit ''priceTarget'', lit ''targetPrice'', lit ''newTargetPrice'']
      in case (old, new) of
           (Some o', Some n) \<Rightarrow> \<bar>o' - n\<bar> > f64_epsilon
         | _ \<Rightarrow> False)"

definition analyst_grade_has_target_change :: "market_event \<Rightarrow> bool" where
  "analyst_grade_has_target_change e =
     (let news_title = to_ascii_lowercase (unwrap_or [] (get_str (ev_payload e) (lit ''newsTitle'')))
      in contains_str news_title (lit ''price target raised'')
         \<or> contains_str news_title (lit ''price target lowered'')
         \<or> contains_str news_title (lit ''target raised'')
         \<or> contains_str news_title (lit ''target lowered'')
         \<or> target_field_changed e)"

definition is_noop_analyst_grade :: "market_event \<Rightarrow> bool" where
  "is_noop_analyst_grade e =
     (if ev_kind e \<noteq> AnalystGrade then False
      else if analyst_grade_has_target_change e then False
      else
        let previous = normalized_grade (get_str (ev_payload e) (lit ''previousGrade''));
            new = normalized_grade (get_str (ev_payload e) (lit ''newGrade''))
        in if new = [] \<or> previous \<noteq> new then False
           else
             let action = to_ascii_lowercase (trim (unwrap_or [] (get_str (ev_payload e) (lit ''action''))))
             in action \<in> {lit ''hold'', lit ''maintained'', lit ''reiterated'', lit ''downgrade'',
                          lit ''upgrade'', lit ''initiated'', lit ''initialise''})"

lemma noop_is_analyst: "is_noop_analyst_grade e \<Longrightarrow> ev_kind e = AnalystGrade"
  by (simp add: is_noop_analyst_grade_def split: if_splits)

section \<open>Preferences (prefs.rs)\<close>

record digest_slot =
  sl_id :: rstr
  sl_time :: rstr
  sl_label :: "rstr option"
  sl_floor_macro :: "nat option"

definition from_legacy_window :: "rstr \<Rightarrow> digest_slot" where
  "from_legacy_window time =
     \<lparr>sl_id = lit ''default'', sl_time = time, sl_label = None, sl_floor_macro = None\<rparr>"

record notification_prefs =
  np_enabled :: bool
  np_portfolio_only :: bool
  np_min_severity :: severity
  np_allow_kinds :: "rstr list option"
  np_blocked_kinds :: "rstr list"
  np_news_importance_prompt :: "rstr option"
  np_timezone :: "rstr option"
  np_digest_slots :: "digest_slot list option"
  np_price_high_pct_override :: "f64 option"
  np_immediate_kinds :: "rstr list option"
  np_quiet_mode :: bool
  np_allow_sources :: "rstr list option"
  np_blocked_sources :: "rstr list"
  np_price_high_pct_up_override :: "f64 option"
  np_price_high_pct_down_override :: "f64 option"
  np_large_position_weight_pct :: "f64 option"
  np_mainline_style :: "rstr option"
  np_mainline_by_ticker :: "(rstr \<rightharpoonup> rstr) option"
  np_last_mainline_distilled_at :: "rstr option"
  np_mainline_distill_skipped :: "rstr list"
  np_quiet_hours :: "quiet_hours option"

definition default_prefs :: notification_prefs where
  "default_prefs =
     \<lparr>np_enabled = True, np_portfolio_only = False, np_min_severity = Low, np_allow_kinds = None,
      np_blocked_kinds = [], np_news_importance_prompt = None, np_timezone = None, np_digest_slots = None,
      np_price_high_pct_override = None, np_immediate_kinds = None, np_quiet_mode = False,
      np_allow_sources = None, np_blocked_sources = [], np_price_high_pct_up_override = None,
      np_price_high_pct_down_override = None, np_large_position_weight_pct = None, np_mainline_style = None,
      np_mainline_by_ticker = None, np_last_mainline_distilled_at = None, np_mainline_distill_skipped = [],
      np_quiet_hours = None\<rparr>"

definition source_matches :: "rstr \<Rightarrow> rstr \<Rightarrow> bool" where
  "source_matches source pattern =
     (let source = to_ascii_lowercase (trim source); pattern = to_ascii_lowercase (trim pattern)
      in pattern \<noteq> [] \<and> (source = pattern \<or> starts_with source pattern \<or> contains_str source pattern))"

definition source_blocked :: "notification_prefs \<Rightarrow> rstr \<Rightarrow> bool" where
  "source_blocked p source \<longleftrightarrow> (\<exists>pat \<in> set (np_blocked_sources p). source_matches source pat)"

definition should_deliver :: "notification_prefs \<Rightarrow> market_event \<Rightarrow> bool" where
  "should_deliver p e =
     (if \<not> np_enabled p then False
      else if rank (ev_severity e) < rank (np_min_severity p) then False
      else if np_portfolio_only p \<and> ev_symbols e = [] then False
      else if source_blocked p (ev_source e) then False
      else if (case np_allow_sources p of
                 Some allow \<Rightarrow> \<not> (\<exists>pat \<in> set allow. source_matches (ev_source e) pat)
               | None \<Rightarrow> False) then False
      else
        let tag = kind_tag (ev_kind e) in
        if \<exists>k \<in> set (np_blocked_kinds p). k = tag then False
        else if (case np_allow_kinds p of Some allow \<Rightarrow> \<not> (\<exists>k \<in> set allow. k = tag) | None \<Rightarrow> False)
        then False
        else True)"

definition effective_digest_slots :: "notification_prefs \<Rightarrow> digest_slot list option" where
  "effective_digest_slots p = np_digest_slots p"

section \<open>Floor tags (floor.rs)\<close>

datatype floor_tag = HighSeverity | Countdown | UserImmediate | MacroFloor

definition classify_floor :: "market_event \<Rightarrow> notification_prefs \<Rightarrow> floor_tag option" where
  "classify_floor e p =
     (if rank (ev_severity e) \<ge> rank High then Some HighSeverity
      else if starts_with (ev_id e) (lit ''synth:earnings:'') \<and> contains_str (ev_id e) (lit '':countdown:'')
      then Some Countdown
      else
        case np_immediate_kinds p of
          Some immediates \<Rightarrow>
            (let tag = kind_tag (ev_kind e) in
             if is_noop_analyst_grade e then None
             else if \<exists>t \<in> set immediates. t = tag then Some UserImmediate
             else None)
        | None \<Rightarrow> None)"

section \<open>Lemmas\<close>

lemma source_matches_iff:
  "source_matches s p \<longleftrightarrow> trim p \<noteq> [] \<and> contains_str (to_ascii_lowercase (trim s)) (to_ascii_lowercase (trim p))"
proof -
  have "contains_str x x" for x by (metis append_Nil append_Nil2 contains_str_iff)
  then show ?thesis
    by (auto simp: source_matches_def Let_def intro: starts_with_contains)
qed

lemma should_deliver_iff:
  "should_deliver p e \<longleftrightarrow>
     np_enabled p \<and> np_min_severity p \<le> ev_severity e \<and> (np_portfolio_only p \<longrightarrow> ev_symbols e \<noteq> [])
     \<and> (\<forall>pat \<in> set (np_blocked_sources p). \<not> source_matches (ev_source e) pat)
     \<and> (case np_allow_sources p of None \<Rightarrow> True | Some a \<Rightarrow> \<exists>pat \<in> set a. source_matches (ev_source e) pat)
     \<and> kind_tag (ev_kind e) \<notin> set (np_blocked_kinds p)
     \<and> (case np_allow_kinds p of None \<Rightarrow> True | Some a \<Rightarrow> kind_tag (ev_kind e) \<in> set a)"
  by (auto simp: should_deliver_def source_blocked_def Let_def less_eq_severity_def split: option.splits)

lemma kind_tag_in_all: "kind_tag k \<in> set all_kind_tags"
  by (cases k) (simp_all add: all_kind_tags_def)

text \<open>\<open>stricter q p\<close>: the preferences \<open>q\<close> restrict at least as much as \<open>p\<close>.\<close>

definition stricter :: "notification_prefs \<Rightarrow> notification_prefs \<Rightarrow> bool" where
  "stricter q p \<longleftrightarrow>
     (np_enabled q \<longrightarrow> np_enabled p) \<and> np_min_severity p \<le> np_min_severity q
     \<and> (np_portfolio_only p \<longrightarrow> np_portfolio_only q)
     \<and> set (np_blocked_sources p) \<subseteq> set (np_blocked_sources q)
     \<and> set (np_blocked_kinds p) \<subseteq> set (np_blocked_kinds q)
     \<and> (\<forall>a. np_allow_sources p = Some a \<longrightarrow> (\<exists>b. np_allow_sources q = Some b \<and> set b \<subseteq> set a))
     \<and> (\<forall>a. np_allow_kinds p = Some a \<longrightarrow> (\<exists>b. np_allow_kinds q = Some b \<and> set b \<subseteq> set a))"

section \<open>Properties\<close>

text \<open>The authoritative list of kind tags is exactly the set of tags that events can carry, without
  repetition, and the validator accepts a list of tags exactly when it stays inside it.\<close>

theorem kind_tags_complete:
  "set all_kind_tags = range kind_tag \<and> distinct all_kind_tags
   \<and> (first_invalid_kind_tag tags = None \<longleftrightarrow> set tags \<subseteq> range kind_tag)"
proof -
  have "lit ''price_alert'' \<in> range kind_tag" by (rule range_eqI [of _ _ "PriceAlert 0 []"]) simp
  moreover have "lit ''sec_filing'' \<in> range kind_tag" by (rule range_eqI [of _ _ "SecFiling []"]) simp
  ultimately have sub: "set all_kind_tags \<subseteq> range kind_tag"
    unfolding all_kind_tags_def by (auto simp flip: kind_tag.simps)
  have eq: "set all_kind_tags = range kind_tag" using sub kind_tag_in_all by blast
  have "first_invalid_kind_tag tags = None \<longleftrightarrow> set tags \<subseteq> set all_kind_tags"
    by (auto simp: first_invalid_kind_tag_def find_None_iff)
  moreover have "distinct all_kind_tags" by (simp add: all_kind_tags_def)
  ultimately show ?thesis using eq by simp
qed

text \<open>Tightening any delivery preference (minimum severity, portfolio-only, block lists, allow
  lists, the main switch) or lowering an event's severity never lets more events through.\<close>

theorem should_deliver_antitone:
  assumes "stricter q p" "should_deliver q e" "ev_severity e \<le> s"
  shows "should_deliver p (e\<lparr>ev_severity := s\<rparr>)"
proof -
  note d = assms(2) [unfolded should_deliver_iff]
  note st = assms(1) [unfolded stricter_def]
  have "case np_allow_sources p of None \<Rightarrow> True | Some a \<Rightarrow> \<exists>pat \<in> set a. source_matches (ev_source e) pat"
    using d st by (cases "np_allow_sources p") (simp, force)
  moreover have "case np_allow_kinds p of None \<Rightarrow> True | Some a \<Rightarrow> kind_tag (ev_kind e) \<in> set a"
    using d st by (cases "np_allow_kinds p") (simp, force)
  moreover have "np_min_severity p \<le> s"
    using d st assms(3) by (meson order_trans)
  moreover have "np_enabled p" "np_portfolio_only p \<longrightarrow> ev_symbols e \<noteq> []"
    "\<forall>pat \<in> set (np_blocked_sources p). \<not> source_matches (ev_source e) pat"
    "kind_tag (ev_kind e) \<notin> set (np_blocked_kinds p)"
    using d st by blast+
  ultimately show ?thesis by (auto simp: should_deliver_iff split: option.splits)
qed

theorem should_deliver_antitone_witness:
  "should_deliver default_prefs (\<lparr>ev_id = [], ev_kind = Split, ev_severity = Medium, ev_symbols = [],
     ev_occurred_at = 0, ev_title = [], ev_summary = [], ev_url = None, ev_source = lit ''fmp'',
     ev_payload = JNull\<rparr>\<lparr>ev_severity := High\<rparr>)"
proof (rule should_deliver_antitone)
  show "stricter (default_prefs\<lparr>np_min_severity := Medium, np_blocked_kinds := [lit ''dividend'']\<rparr>) default_prefs"
    by (simp add: stricter_def default_prefs_def)
  show "should_deliver (default_prefs\<lparr>np_min_severity := Medium, np_blocked_kinds := [lit ''dividend'']\<rparr>)
      \<lparr>ev_id = [], ev_kind = Split, ev_severity = Medium, ev_symbols = [],
       ev_occurred_at = 0, ev_title = [], ev_summary = [], ev_url = None, ev_source = lit ''fmp'',
       ev_payload = JNull\<rparr>"
    by (simp add: should_deliver_iff default_prefs_def less_eq_severity_def)
qed simp

text \<open>An event gets a floor tag below High severity only as an earnings countdown or by the user's
  own immediate kinds, and then never as an analyst note that changed nothing.\<close>

theorem classify_floor_sound:
  assumes "classify_floor e p = Some t"
  shows "(t = HighSeverity \<and> ev_severity e = High)
    \<or> (t = Countdown \<and> ev_severity e \<noteq> High \<and> starts_with (ev_id e) (lit ''synth:earnings:''))
    \<or> (t = UserImmediate \<and> ev_severity e \<noteq> High \<and> \<not> is_noop_analyst_grade e
        \<and> (\<exists>ks. np_immediate_kinds p = Some ks \<and> kind_tag (ev_kind e) \<in> set ks))"
proof -
  have h: "rank High \<le> rank (ev_severity e) \<longleftrightarrow> ev_severity e = High"
    by (cases "ev_severity e") auto
  show ?thesis
    using assms unfolding classify_floor_def h
    by (auto simp: Let_def split: if_splits option.splits)
qed

theorem classify_floor_sound_witness:
  "classify_floor \<lparr>ev_id = lit ''x'', ev_kind = SecFiling (lit ''8-K''), ev_severity = Medium, ev_symbols = [],
     ev_occurred_at = 0, ev_title = [], ev_summary = [], ev_url = None, ev_source = [], ev_payload = JNull\<rparr>
     (default_prefs\<lparr>np_immediate_kinds := Some [lit ''sec_filing'']\<rparr>) = Some UserImmediate
   \<and> (\<exists>ks. np_immediate_kinds (default_prefs\<lparr>np_immediate_kinds := Some [lit ''sec_filing'']\<rparr>) = Some ks
        \<and> lit ''sec_filing'' \<in> set ks)"
proof -
  let ?e = "\<lparr>ev_id = lit ''x'', ev_kind = SecFiling (lit ''8-K''), ev_severity = Medium, ev_symbols = [],
     ev_occurred_at = 0, ev_title = [], ev_summary = [], ev_url = None, ev_source = [], ev_payload = JNull\<rparr>"
  have c: "classify_floor ?e (default_prefs\<lparr>np_immediate_kinds := Some [lit ''sec_filing'']\<rparr>) = Some UserImmediate"
    by (simp add: classify_floor_def is_noop_analyst_grade_def lit_def)
  from classify_floor_sound [OF c] c show ?thesis by simp
qed

text \<open>Freshness is lost once and for all: an event that is stale at some time is stale later.\<close>

theorem is_fresh_antitone:
  assumes "is_fresh k occurred_at later" "now \<le> later"
  shows "is_fresh k occurred_at now"
  using assms by (simp add: is_fresh_def split: option.splits)

theorem is_fresh_antitone_witness:
  "is_fresh SocialPost 0 (hours 3)"
  by (rule is_fresh_antitone [of _ _ "hours 11"]) (simp_all add: is_fresh_def hours_def secs_def)

end
