(* ===== verification/Disk.thy ===== *)
theory Disk
  imports Actor "HOL-Library.AList"
begin

text \<open>
  The per-actor JSON files that the storage classes of \<^verbatim>\<open>memory/src\<close> read and rewrite. A directory
  is the list of its files in the order \<^verbatim>\<open>read_dir\<close> yields them; a file holds a value that parses,
  text that does not, or cannot be read. A disk that rejects writes carries the error text.
  The locale \<open>file_store\<close> is the contract the storage clients rely on.
\<close>

datatype 'a jfile = Parsed 'a | Malformed rstr | Unreadable rstr

record 'a disk =
  d_files :: "(rstr \<times> 'a jfile) list"
  d_write_error :: "rstr option"

definition disk_get :: "'a disk \<Rightarrow> rstr \<Rightarrow> 'a jfile option" where
  "disk_get d k = map_of (d_files d) k"

definition disk_put :: "'a disk \<Rightarrow> rstr \<Rightarrow> 'a \<Rightarrow> 'a disk" where
  "disk_put d k v = d\<lparr>d_files := AList.update k (Parsed v) (d_files d)\<rparr>"

text \<open>\<^verbatim>\<open>std::fs::write\<close>\<close>

definition disk_write :: "'a disk \<Rightarrow> rstr \<Rightarrow> 'a \<Rightarrow> rstr + 'a disk" where
  "disk_write d k v = (case d_write_error d of Some e \<Rightarrow> Inl e | None \<Rightarrow> Inr (disk_put d k v))"

definition parsed :: "'a jfile option \<Rightarrow> 'a option" where
  "parsed f = (case f of Some (Parsed v) \<Rightarrow> Some v | _ \<Rightarrow> None)"

lemma parsed_simps [simp]:
  "parsed None = None" "parsed (Some (Parsed v)) = Some v"
  "parsed (Some (Malformed e)) = None" "parsed (Some (Unreadable e)) = None"
  by (simp_all add: parsed_def)

lemma disk_get_put: "disk_get (disk_put d k v) j = (if j = k then Some (Parsed v) else disk_get d j)"
  by (simp add: disk_get_def disk_put_def update_conv)

lemma disk_write_Inr:
  "disk_write d k v = Inr d' \<longleftrightarrow> d_write_error d = None \<and> d' = disk_put d k v"
  by (auto simp: disk_write_def split: option.splits)

lemma disk_put_write_error [simp]: "d_write_error (disk_put d k v) = d_write_error d"
  by (simp add: disk_put_def)

locale file_store =
  fixes look :: "'s \<Rightarrow> rstr \<Rightarrow> 'v option"
    and put :: "'s \<Rightarrow> rstr \<Rightarrow> 'v \<Rightarrow> 's"
  assumes look_put_same: "look (put s k v) k = Some v"
    and look_put_other: "j \<noteq> k \<Longrightarrow> look (put s k v) j = look s j"
begin

lemma look_put: "look (put s k v) j = (if j = k then Some v else look s j)"
  by (simp add: look_put_same look_put_other)

text \<open>A property of every stored value survives a write of a value that has it.\<close>

lemma all_put:
  assumes "\<forall>j w. look s j = Some w \<longrightarrow> P w" "P v"
  shows "\<forall>j w. look (put s k v) j = Some w \<longrightarrow> P w"
  using assms by (auto simp: look_put split: if_splits)

text \<open>A read-modify-write of one key leaves every other key alone.\<close>

lemma frame:
  assumes "s' = s \<or> (\<exists>v. s' = put s k v)" "j \<noteq> k"
  shows "look s' j = look s j"
  using assms by (auto simp: look_put)

end

interpretation disk: file_store "\<lambda>d k. parsed (disk_get d k)" disk_put
  by unfold_locales (simp_all add: disk_get_put)

end
