(* ===== verification/Portfolio.thy ===== *)
theory Portfolio
  imports Disk
begin

text \<open>
  \<^verbatim>\<open>memory/src/portfolio.rs\<close>, local mode: the holdings of an actor, kept in one JSON file per
  actor. Reloading a file sees what serialisation kept: \<^verbatim>\<open>tracking_only\<close> is written only when it is
  \<^verbatim>\<open>Some(true)\<close>. The cloud mode (PostgreSQL) is not modelled.
\<close>

section \<open>Data\<close>

record holding =
  h_symbol :: rstr
  h_asset_type :: rstr
  h_shares :: f64
  h_avg_cost :: f64
  h_underlying :: "rstr option"
  h_option_type :: "rstr option"
  h_strike_price :: "f64 option"
  h_expiration_date :: "rstr option"
  h_contract_multiplier :: "f64 option"
  h_holding_horizon :: "rstr option"
  h_strategy_notes :: "rstr option"
  h_notes :: "rstr option"
  h_tracking_only :: "bool option"

record portfolio =
  pf_actor :: "actor option"
  pf_user_id :: rstr
  pf_holdings :: "holding list"
  pf_updated_at :: rstr

definition is_false_or_none :: "bool option \<Rightarrow> bool" where
  "is_false_or_none v \<longleftrightarrow> v \<noteq> Some True"

definition persisted_holding :: "holding \<Rightarrow> holding" where
  "persisted_holding h =
     h\<lparr>h_tracking_only := (if is_false_or_none (h_tracking_only h) then None else h_tracking_only h)\<rparr>"

definition persisted :: "portfolio \<Rightarrow> portfolio" where
  "persisted p = p\<lparr>pf_holdings := map persisted_holding (pf_holdings p)\<rparr>"

definition normalize_holding_horizon :: "rstr \<Rightarrow> rstr option" where
  "normalize_holding_horizon raw =
     (let normalized = to_ascii_lowercase (trim raw) in
      if normalized = [] then None
      else if normalized \<in> {lit ''long'', lit ''long_term'', lit ''long-term'', lit ''longterm'',
                            [38271, 26399], [38271, 25345], [38271, 32447]}
      then Some (lit ''long_term'')
      else if normalized \<in> {lit ''short'', lit ''short_term'', lit ''short-term'', lit ''shortterm'',
                            [30701, 26399], [30701, 25345], [30701, 32447]}
      then Some (lit ''short_term'')
      else None)"

section \<open>Storage\<close>

type_synonym portfolio_disk = "portfolio disk"

definition portfolio_path :: "actor \<Rightarrow> rstr" where
  "portfolio_path a = lit ''portfolio_'' @ storage_key a @ lit ''.json''"

definition pf_load :: "portfolio_disk \<Rightarrow> actor \<Rightarrow> portfolio option hone_result" where
  "pf_load d a =
     (case disk_get d (portfolio_path a) of
        None \<Rightarrow> Inr None
      | Some (Unreadable e) \<Rightarrow> Inl (Io e)
      | Some (Malformed e) \<Rightarrow> Inl (Serialization e)
      | Some (Parsed p) \<Rightarrow> Inr (Some (p\<lparr>pf_actor := Some a, pf_user_id := a_user_id a\<rparr>)))"

definition pf_save :: "portfolio_disk \<Rightarrow> actor \<Rightarrow> portfolio \<Rightarrow> portfolio_disk hone_result" where
  "pf_save d a p =
     (let payload = p\<lparr>pf_actor := Some a, pf_user_id := a_user_id a\<rparr> in
      case disk_write d (portfolio_path a) (persisted payload) of
        Inl e \<Rightarrow> Inl (Io e)
      | Inr d' \<Rightarrow> Inr d')"

definition fresh_portfolio :: "actor \<Rightarrow> rstr \<Rightarrow> portfolio" where
  "fresh_portfolio a now =
     \<lparr>pf_actor = Some a, pf_user_id = a_user_id a, pf_holdings = [], pf_updated_at = now\<rparr>"

definition same_item :: "rstr \<Rightarrow> rstr \<Rightarrow> holding \<Rightarrow> bool" where
  "same_item symbol asset_type h \<longleftrightarrow> h_symbol h = symbol \<and> h_asset_type h = asset_type"

definition put_holding :: "holding \<Rightarrow> holding list \<Rightarrow> holding list" where
  "put_holding h hs =
     (case position (same_item (h_symbol h) (h_asset_type h)) hs of
        Some i \<Rightarrow> hs[i := h]
      | None \<Rightarrow> hs @ [h])"

definition upsert_holding ::
    "portfolio_disk \<Rightarrow> actor \<Rightarrow> holding \<Rightarrow> rstr \<Rightarrow> (portfolio_disk \<times> portfolio) hone_result" where
  "upsert_holding d a h now =
     (case pf_load d a of
        Inl e \<Rightarrow> Inl e
      | Inr loaded \<Rightarrow>
          (let p = unwrap_or (fresh_portfolio a now) loaded;
               p = p\<lparr>pf_holdings := put_holding h (pf_holdings p), pf_updated_at := now\<rparr>
           in case pf_save d a p of Inl e \<Rightarrow> Inl e | Inr d' \<Rightarrow> Inr (d', p)))"

definition watch_item :: "rstr \<Rightarrow> rstr \<Rightarrow> holding" where
  "watch_item symbol asset_type =
     \<lparr>h_symbol = symbol, h_asset_type = asset_type, h_shares = 0, h_avg_cost = 0, h_underlying = None,
      h_option_type = None, h_strike_price = None, h_expiration_date = None, h_contract_multiplier = None,
      h_holding_horizon = None, h_strategy_notes = None, h_notes = None, h_tracking_only = Some True\<rparr>"

definition upsert_watch ::
    "portfolio_disk \<Rightarrow> actor \<Rightarrow> rstr \<Rightarrow> rstr \<Rightarrow> rstr \<Rightarrow> (portfolio_disk \<times> portfolio) hone_result" where
  "upsert_watch d a symbol asset_type now =
     (case pf_load d a of
        Inl e \<Rightarrow> Inl e
      | Inr loaded \<Rightarrow>
          (let p = unwrap_or (fresh_portfolio a now) loaded in
           if \<not> (\<exists>h \<in> set (pf_holdings p). same_item symbol asset_type h)
           then
             (let p = p\<lparr>pf_holdings := pf_holdings p @ [watch_item symbol asset_type], pf_updated_at := now\<rparr>
              in case pf_save d a p of Inl e \<Rightarrow> Inl e | Inr d' \<Rightarrow> Inr (d', p))
           else Inr (d, p)))"

definition promote_to_holding ::
    "portfolio_disk \<Rightarrow> actor \<Rightarrow> rstr \<Rightarrow> rstr \<Rightarrow> f64 \<Rightarrow> f64 \<Rightarrow> rstr
      \<Rightarrow> (portfolio_disk \<times> (portfolio \<times> bool) option) hone_result" where
  "promote_to_holding d a symbol asset_type shares avg_cost now =
     (case pf_load d a of
        Inl e \<Rightarrow> Inl e
      | Inr None \<Rightarrow> Inr (d, None)
      | Inr (Some p) \<Rightarrow>
          (case position (same_item symbol asset_type) (pf_holdings p) of
             None \<Rightarrow> Inr (d, None)
           | Some i \<Rightarrow>
               (let existing = pf_holdings p ! i;
                    was_watchlist = unwrap_or False (h_tracking_only existing);
                    existing = existing\<lparr>h_shares := shares, h_avg_cost := avg_cost, h_tracking_only := None\<rparr>;
                    p = p\<lparr>pf_holdings := (pf_holdings p)[i := existing], pf_updated_at := now\<rparr>
                in case pf_save d a p of Inl e \<Rightarrow> Inl e | Inr d' \<Rightarrow> Inr (d', Some (p, was_watchlist)))))"

definition remove_holding ::
    "portfolio_disk \<Rightarrow> actor \<Rightarrow> rstr \<Rightarrow> rstr \<Rightarrow> (portfolio_disk \<times> portfolio option) hone_result" where
  "remove_holding d a symbol now =
     (case pf_load d a of
        Inl e \<Rightarrow> Inl e
      | Inr None \<Rightarrow> Inr (d, None)
      | Inr (Some p) \<Rightarrow>
          (let kept = filter (\<lambda>h. h_symbol h \<noteq> symbol) (pf_holdings p) in
           if length kept = length (pf_holdings p) then Inr (d, None)
           else
             (let p = p\<lparr>pf_holdings := kept, pf_updated_at := now\<rparr>
              in case pf_save d a p of Inl e \<Rightarrow> Inl e | Inr d' \<Rightarrow> Inr (d', Some p))))"

subsection \<open>Listing every actor's portfolio\<close>

definition actor_from_storage_key :: "rstr \<Rightarrow> actor option" where
  "actor_from_storage_key key =
     (case splitn 3 sep key of
        [p0, p1, p2] \<Rightarrow>
          (let ch = decode_component p0; scope_raw = decode_component p1; user = decode_component p2 in
           if ch = [] \<or> user = [] then None
           else
             let scope = (if scope_raw = lit ''direct'' then None else Some scope_raw)
             in result_ok (actor_new ch user scope))
      | _ \<Rightarrow> None)"

definition list_entry :: "rstr \<times> portfolio jfile \<Rightarrow> (actor \<times> portfolio) option" where
  "list_entry entry =
     (case strip_suffix (lit ''.json'') (fst entry) of
        None \<Rightarrow> None
      | Some name \<Rightarrow>
          if \<not> starts_with name (lit ''portfolio_'') then None
          else
            (case snd entry of
               Parsed p \<Rightarrow>
                 (let actor = or_else (pf_actor p)
                        (actor_from_storage_key (trim_start_matches (lit ''portfolio_'') name)) in
                  case actor of
                    None \<Rightarrow> None
                  | Some a \<Rightarrow>
                      Some (a, p\<lparr>pf_actor := Some a,
                        pf_user_id := (if pf_user_id p = [] then a_user_id a else pf_user_id p)\<rparr>))
             | _ \<Rightarrow> None))"

text \<open>A stable sort, the most recently updated first; \<^verbatim>\<open>sort_by\<close> on the reversed comparison.\<close>

definition pf_list_all :: "portfolio_disk \<Rightarrow> (actor \<times> portfolio) list" where
  "pf_list_all d =
     rev (sort_key (\<lambda>(a, p). pf_updated_at p) (rev (List.map_filter list_entry (d_files d))))"

section \<open>Lemmas\<close>

text \<open>The abstract view: at most one entry per symbol and asset type, looked up by that key.\<close>

definition item_key :: "holding \<Rightarrow> rstr \<times> rstr" where
  "item_key h = (h_symbol h, h_asset_type h)"

definition wf_holdings :: "holding list \<Rightarrow> bool" where
  "wf_holdings hs \<longleftrightarrow> distinct (map item_key hs)"

definition holdings_map :: "holding list \<Rightarrow> rstr \<times> rstr \<Rightarrow> holding option" where
  "holdings_map hs k = map_of (map (\<lambda>h. (item_key h, h)) hs) k"

lemma same_item_key: "same_item s t h \<longleftrightarrow> item_key h = (s, t)"
  by (simp add: same_item_def item_key_def)

lemma map_item_update:
  "i < length hs \<Longrightarrow> item_key h = item_key (hs ! i) \<Longrightarrow> map item_key (hs[i := h]) = map item_key hs"
  by (metis list_update_id map_update)

lemma holdings_map_None: "holdings_map hs k = None \<longleftrightarrow> k \<notin> item_key ` set hs"
  by (simp add: holdings_map_def map_of_eq_None_iff image_image)

lemma holdings_map_update:
  assumes "i < length hs" "item_key h = item_key (hs ! i)" "wf_holdings hs"
  shows "holdings_map (hs[i := h]) = (holdings_map hs)(item_key h \<mapsto> h)"
  using assms
proof (induction hs arbitrary: i)
  case Nil
  then show ?case by simp
next
  case (Cons x hs)
  show ?case
  proof (cases i)
    case 0
    then show ?thesis using Cons.prems by (auto simp: holdings_map_def)
  next
    case (Suc j)
    have "holdings_map (hs[j := h]) = (holdings_map hs)(item_key h \<mapsto> h)"
      using Cons.IH [of j] Cons.prems Suc by (simp add: wf_holdings_def del: fun_upd_apply)
    moreover have "item_key x \<noteq> item_key h"
      using Cons.prems Suc by (auto simp: wf_holdings_def)
    moreover have "holdings_map (x # ys) = (holdings_map ys)(item_key x \<mapsto> x)" for ys
      by (rule ext) (simp add: holdings_map_def)
    ultimately have "holdings_map ((x # hs)[i := h]) k = ((holdings_map (x # hs))(item_key h \<mapsto> h)) k" for k
      using Suc by simp
    then show ?thesis by (rule ext)
  qed
qed

lemma holdings_map_snoc:
  assumes "item_key h \<notin> item_key ` set hs"
  shows "holdings_map (hs @ [h]) = (holdings_map hs)(item_key h \<mapsto> h)"
proof
  fix k
  show "holdings_map (hs @ [h]) k = ((holdings_map hs)(item_key h \<mapsto> h)) k"
    using assms by (induction hs) (auto simp: holdings_map_def)
qed

lemma put_holding_spec:
  assumes "wf_holdings hs"
  shows "wf_holdings (put_holding h hs)" "holdings_map (put_holding h hs) = (holdings_map hs)(item_key h \<mapsto> h)"
proof -
  let ?P = "same_item (h_symbol h) (h_asset_type h)"
  have key: "item_key h = (h_symbol h, h_asset_type h)" by (simp add: item_key_def)
  consider (found) i where "position ?P hs = Some i" | (new) "position ?P hs = None"
    by (cases "position ?P hs") auto
  then have "wf_holdings (put_holding h hs) \<and> holdings_map (put_holding h hs) = (holdings_map hs)(item_key h \<mapsto> h)"
  proof cases
    case found
    then have i: "i < length hs" "item_key h = item_key (hs ! i)"
      using position_Some [OF found] by (auto simp: same_item_key key)
    then show ?thesis using found assms map_item_update [OF i] holdings_map_update [OF i assms]
      by (simp add: put_holding_def wf_holdings_def)
  next
    case new
    then have n: "item_key h \<notin> item_key ` set hs" by (auto simp: position_None same_item_key key)
    then show ?thesis using new assms holdings_map_snoc [OF n]
      by (auto simp: put_holding_def wf_holdings_def)
  qed
  then show "wf_holdings (put_holding h hs)"
    "holdings_map (put_holding h hs) = (holdings_map hs)(item_key h \<mapsto> h)" by auto
qed

lemma item_key_persisted [simp]: "item_key (persisted_holding h) = item_key h"
  by (simp add: item_key_def persisted_holding_def)

lemma persisted_keys [simp]: "map item_key (pf_holdings (persisted p)) = map item_key (pf_holdings p)"
  by (simp add: persisted_def comp_def)

lemma holdings_map_persisted:
  "holdings_map (map persisted_holding hs) = map_option persisted_holding \<circ> holdings_map hs"
  by (induction hs) (auto simp: holdings_map_def fun_eq_iff)

definition disk_wf :: "portfolio_disk \<Rightarrow> bool" where
  "disk_wf d \<longleftrightarrow> (\<forall>k p. parsed (disk_get d k) = Some p \<longrightarrow> wf_holdings (pf_holdings p))"

lemma pf_load_Some:
  "pf_load d a = Inr (Some p) \<Longrightarrow>
     \<exists>q. parsed (disk_get d (portfolio_path a)) = Some q \<and> p = q\<lparr>pf_actor := Some a, pf_user_id := a_user_id a\<rparr>"
  by (auto simp: pf_load_def split: option.splits jfile.splits)

lemma pf_load_wf: "disk_wf d \<Longrightarrow> pf_load d a = Inr (Some p) \<Longrightarrow> wf_holdings (pf_holdings p)"
  using pf_load_Some [of d a p] by (auto simp: disk_wf_def)

lemma pf_save_Inr:
  "pf_save d a p = Inr d' \<Longrightarrow>
     d' = disk_put d (portfolio_path a) (persisted (p\<lparr>pf_actor := Some a, pf_user_id := a_user_id a\<rparr>))"
  by (auto simp: pf_save_def Let_def disk_write_Inr split: sum.splits)

lemma pf_save_wf: "disk_wf d \<Longrightarrow> wf_holdings (pf_holdings p) \<Longrightarrow> pf_save d a p = Inr d' \<Longrightarrow> disk_wf d'"
  unfolding disk_wf_def
  using disk.all_put [of d "\<lambda>p. wf_holdings (pf_holdings p)"
      "persisted (p\<lparr>pf_actor := Some a, pf_user_id := a_user_id a\<rparr>)" "portfolio_path a"]
  by (auto dest!: pf_save_Inr simp: wf_holdings_def)

lemma pf_load_after_save:
  "pf_save d a p = Inr d' \<Longrightarrow>
     pf_load d' a = Inr (Some (persisted (p\<lparr>pf_actor := Some a, pf_user_id := a_user_id a\<rparr>)))"
  by (auto dest!: pf_save_Inr simp: pf_load_def disk_get_put persisted_def)

lemma portfolio_path_inject: "portfolio_path a = portfolio_path b \<longleftrightarrow> storage_key a = storage_key b"
  by (simp add: portfolio_path_def)

lemma fresh_wf [simp]: "wf_holdings (pf_holdings (fresh_portfolio a now))"
  by (simp add: fresh_portfolio_def wf_holdings_def)

text \<open>The four write operations as one relation between disks.\<close>

inductive pf_op :: "actor \<Rightarrow> portfolio_disk \<Rightarrow> portfolio_disk \<Rightarrow> bool" for a where
  upsert: "upsert_holding d a h now = Inr (d', p) \<Longrightarrow> pf_op a d d'"
| watch: "upsert_watch d a s t now = Inr (d', p) \<Longrightarrow> pf_op a d d'"
| promote: "promote_to_holding d a s t sh c now = Inr (d', r) \<Longrightarrow> pf_op a d d'"
| remove: "remove_holding d a s now = Inr (d', r') \<Longrightarrow> pf_op a d d'"

lemmas pf_op_defs = upsert_holding_def upsert_watch_def promote_to_holding_def remove_holding_def

lemma pf_op_cases_save:
  assumes "pf_op a d d'" "disk_wf d"
  shows "d' = d \<or> (\<exists>p. wf_holdings (pf_holdings p) \<and> pf_save d a p = Inr d')"
  using assms(1)
proof cases
  case (upsert h now p)
  obtain l where l: "pf_load d a = Inr l" using upsert by (auto simp: upsert_holding_def split: sum.splits)
  have "wf_holdings (pf_holdings (unwrap_or (fresh_portfolio a now) l))"
    using l pf_load_wf [OF assms(2)] by (cases l) auto
  then have "wf_holdings (pf_holdings p)" "pf_save d a p = Inr d'"
    using upsert l put_holding_spec(1) by (auto simp: upsert_holding_def Let_def split: sum.splits)
  then show ?thesis by blast
next
  case (watch s t now p)
  obtain l where l: "pf_load d a = Inr l" using watch by (auto simp: upsert_watch_def split: sum.splits)
  have w: "wf_holdings (pf_holdings (unwrap_or (fresh_portfolio a now) l))"
    using l pf_load_wf [OF assms(2)] by (cases l) auto
  have "item_key (watch_item s t) = (s, t)" by (simp add: watch_item_def item_key_def)
  then have "d' = d \<or> wf_holdings (pf_holdings p) \<and> pf_save d a p = Inr d'"
    using watch l w
    by (auto simp: upsert_watch_def Let_def wf_holdings_def same_item_key split: sum.splits if_splits) metis+
  then show ?thesis by blast
next
  case (promote s t sh c now r)
  show ?thesis
  proof (cases "d' = d")
    case False
    obtain p i where l: "pf_load d a = Inr (Some p)" "position (same_item s t) (pf_holdings p) = Some i"
      using promote False by (auto simp: promote_to_holding_def split: sum.splits option.splits)
    let ?h = "(pf_holdings p ! i)\<lparr>h_shares := sh, h_avg_cost := c, h_tracking_only := None\<rparr>"
    let ?p = "p\<lparr>pf_holdings := (pf_holdings p)[i := ?h], pf_updated_at := now\<rparr>"
    have "i < length (pf_holdings p)" using position_Some [OF l(2)] by simp
    moreover have "item_key ?h = item_key (pf_holdings p ! i)" by (simp add: item_key_def)
    ultimately have "wf_holdings (pf_holdings ?p)"
      using pf_load_wf [OF assms(2) l(1)] by (simp add: wf_holdings_def map_item_update)
    moreover have "pf_save d a ?p = Inr d'"
      using promote l by (auto simp: promote_to_holding_def Let_def split: sum.splits)
    ultimately show ?thesis by blast
  qed simp
next
  case (remove s now r')
  show ?thesis
  proof (cases "d' = d")
    case False
    obtain p where l: "pf_load d a = Inr (Some p)"
      using remove False by (auto simp: remove_holding_def split: sum.splits option.splits)
    let ?p = "p\<lparr>pf_holdings := filter (\<lambda>h. h_symbol h \<noteq> s) (pf_holdings p), pf_updated_at := now\<rparr>"
    have "wf_holdings (pf_holdings ?p)"
      using pf_load_wf [OF assms(2) l(1)] by (simp add: wf_holdings_def distinct_map_filter)
    moreover have "pf_save d a ?p = Inr d'"
      using remove l False by (auto simp: remove_holding_def Let_def split: sum.splits if_splits)
    ultimately show ?thesis by blast
  qed simp
qed

lemma pf_op_write:
  assumes "pf_op a d d'"
  shows "d' = d \<or> (\<exists>p. d' = disk_put d (portfolio_path a) (persisted p))"
  using assms
proof cases
  case (upsert h now p)
  then show ?thesis by (auto simp: upsert_holding_def Let_def dest: pf_save_Inr split: sum.splits)
next
  case (watch s t now p)
  then show ?thesis by (auto simp: upsert_watch_def Let_def dest: pf_save_Inr split: sum.splits if_splits)
next
  case (promote s t sh c now r)
  then show ?thesis
    by (auto simp: promote_to_holding_def Let_def dest: pf_save_Inr split: sum.splits option.splits)
next
  case (remove s now r')
  then show ?thesis
    by (auto simp: remove_holding_def Let_def dest: pf_save_Inr split: sum.splits option.splits if_splits)
qed

lemma pf_op_frame:
  assumes "pf_op a d d'" "storage_key b \<noteq> storage_key a"
  shows "pf_load d' b = pf_load d b"
proof -
  have "portfolio_path b \<noteq> portfolio_path a" using assms(2) by (simp add: portfolio_path_inject)
  then show ?thesis using pf_op_write [OF assms(1)] by (auto simp: pf_load_def disk_get_put)
qed

text \<open>The items an actor sees: the empty map when the file does not exist.\<close>

definition items_of :: "portfolio_disk \<Rightarrow> actor \<Rightarrow> rstr \<times> rstr \<Rightarrow> holding option" where
  "items_of d a k =
     (case pf_load d a of Inr (Some p) \<Rightarrow> holdings_map (pf_holdings p) k | _ \<Rightarrow> None)"

lemma items_of_save:
  assumes "pf_save d a p = Inr d'"
  shows "items_of d' a = map_option persisted_holding \<circ> holdings_map (pf_holdings p)"
  by (simp add: items_of_def pf_load_after_save [OF assms] persisted_def fun_eq_iff
      flip: holdings_map_persisted)

lemma items_of_loaded:
  assumes "pf_load d a = Inr l"
  shows "items_of d a = holdings_map (pf_holdings (unwrap_or (fresh_portfolio a now) l))"
  using assms by (cases l) (auto simp: items_of_def fresh_portfolio_def holdings_map_def fun_eq_iff)

text \<open>What a disk holds is what serialisation kept.\<close>

definition disk_persisted :: "portfolio_disk \<Rightarrow> bool" where
  "disk_persisted d \<longleftrightarrow> (\<forall>k p. parsed (disk_get d k) = Some p \<longrightarrow> map persisted_holding (pf_holdings p) = pf_holdings p)"

lemma persisted_holding_idem [simp]: "persisted_holding (persisted_holding h) = persisted_holding h"
  by (simp add: persisted_holding_def)

lemma pf_op_persisted:
  assumes "pf_op a d d'" "disk_persisted d"
  shows "disk_persisted d'"
proof -
  let ?P = "\<lambda>q. map persisted_holding (pf_holdings q) = pf_holdings q"
  have "?P (persisted p)" for p by (simp add: persisted_def)
  then show ?thesis
    using pf_op_write [OF assms(1)] assms(2) disk.all_put [of d ?P] unfolding disk_persisted_def by metis
qed

lemma items_of_persisted:
  assumes "disk_persisted d" "items_of d a k = Some h"
  shows "persisted_holding h = h"
proof -
  obtain p where p: "pf_load d a = Inr (Some p)" "holdings_map (pf_holdings p) k = Some h"
    using assms(2) by (auto simp: items_of_def split: sum.splits option.splits)
  have "map persisted_holding (pf_holdings p) = pf_holdings p"
    using pf_load_Some [OF p(1)] assms(1) by (auto simp: disk_persisted_def)
  then show ?thesis
    using fun_cong [OF holdings_map_persisted [of "pf_holdings p"], of k] p(2) by simp
qed

lemma items_of_map_persisted:
  "disk_persisted d \<Longrightarrow> map_option persisted_holding \<circ> items_of d a = items_of d a"
  by (rule ext) (auto simp: items_of_persisted map_option_case split: option.splits)

section \<open>Properties\<close>

text \<open>A concrete disk for the witnesses: one actor watching one stock.\<close>

definition demo_actor :: actor where
  "demo_actor = \<lparr>a_channel = lit ''feishu'', a_user_id = lit ''u1'', a_channel_scope = None\<rparr>"

definition demo_other :: actor where
  "demo_other = \<lparr>a_channel = lit ''feishu'', a_user_id = lit ''u2'', a_channel_scope = None\<rparr>"

definition empty_disk :: portfolio_disk where
  "empty_disk = \<lparr>d_files = [], d_write_error = None\<rparr>"

definition demo_holding :: holding where
  "demo_holding = (watch_item (lit ''AAPL'') (lit ''stock''))\<lparr>h_shares := 3, h_tracking_only := Some False\<rparr>"

definition demo_portfolio :: portfolio where
  "demo_portfolio = \<lparr>pf_actor = Some demo_actor, pf_user_id = lit ''u1'',
     pf_holdings = [watch_item (lit ''AAPL'') (lit ''stock'')], pf_updated_at = []\<rparr>"

definition demo_disk :: portfolio_disk where
  "demo_disk = disk_put empty_disk (portfolio_path demo_actor) demo_portfolio"

lemma demo_disk_ok: "disk_wf empty_disk" "disk_persisted empty_disk" "disk_wf demo_disk" "disk_persisted demo_disk"
  by (auto simp: disk_wf_def disk_persisted_def empty_disk_def disk_get_def demo_disk_def disk_put_def
      demo_portfolio_def wf_holdings_def persisted_holding_def watch_item_def is_false_or_none_def
      split: if_splits)

lemma demo_load: "pf_load demo_disk demo_actor = Inr (Some demo_portfolio)"
  "pf_load empty_disk demo_actor = Inr None"
proof -
  have "disk_get demo_disk (portfolio_path demo_actor) = Some (Parsed demo_portfolio)"
    by (simp add: demo_disk_def disk_get_put)
  then show "pf_load demo_disk demo_actor = Inr (Some demo_portfolio)"
    by (simp add: pf_load_def demo_portfolio_def demo_actor_def)
  show "pf_load empty_disk demo_actor = Inr None" by (simp add: pf_load_def empty_disk_def disk_get_def)
qed

lemma demo_keys_differ: "storage_key demo_other \<noteq> storage_key demo_actor"
  by (simp add: storage_key_def demo_actor_def demo_other_def scope_or_direct_def str_eval encode_component_def encode_byte_def is_key_byte_def is_ascii_alnum_def is_digit_def)

lemma demo_save_ok: "\<exists>d'. pf_save demo_disk a p = Inr d'" "\<exists>d'. pf_save empty_disk a p = Inr d'"
  by (simp_all add: pf_save_def disk_write_def demo_disk_def empty_disk_def)

lemma demo_upsert: "\<exists>d' p. upsert_holding demo_disk demo_actor demo_holding [] = Inr (d', p)"
  using demo_save_ok by (auto simp: upsert_holding_def demo_load Let_def split: sum.splits) (metis old.sum.distinct(1))

lemma demo_watch: "\<exists>d' p. upsert_watch empty_disk demo_actor (lit ''AAPL'') (lit ''stock'') [] = Inr (d', p)"
  using demo_save_ok
  by (auto simp: upsert_watch_def demo_load Let_def fresh_portfolio_def split: sum.splits) (metis old.sum.distinct(1))

lemma demo_promote:
  "\<exists>d' r. promote_to_holding demo_disk demo_actor (lit ''AAPL'') (lit ''stock'') 3 10 [] = Inr (d', r)"
proof -
  have "position (same_item (lit ''AAPL'') (lit ''stock'')) (pf_holdings demo_portfolio) = Some 0"
    by (simp add: demo_portfolio_def same_item_def watch_item_def)
  then show ?thesis using demo_save_ok
    by (auto simp: promote_to_holding_def demo_load Let_def split: sum.splits) (metis old.sum.distinct(1))
qed

lemma demo_items: "items_of demo_disk demo_actor (lit ''AAPL'', lit ''stock'') = Some (watch_item (lit ''AAPL'') (lit ''stock''))"
  by (simp add: items_of_def demo_load holdings_map_def demo_portfolio_def item_key_def watch_item_def)

text \<open>Whatever sequence of upserts, watches, promotions and removals the actors perform, no
  portfolio ever holds two entries for one symbol and asset type, and every file stays in the form
  serialisation gives it.\<close>

theorem portfolio_keys_unique:
  assumes "(\<lambda>d d'. \<exists>a. pf_op a d d')\<^sup>*\<^sup>* d d'" "disk_wf d" "disk_persisted d"
  shows "disk_wf d' \<and> disk_persisted d'"
  using assms
proof (induction rule: rtranclp_induct)
  case (step d1 d2)
  then obtain a where "pf_op a d1 d2" by blast
  then show ?case using pf_op_cases_save pf_save_wf pf_op_persisted step.IH step.prems by metis
qed simp

theorem portfolio_keys_unique_witness:
  "\<exists>d' p. upsert_holding demo_disk demo_actor demo_holding [] = Inr (d', p) \<and> disk_wf d' \<and> disk_persisted d'"
proof -
  obtain d' p where u: "upsert_holding demo_disk demo_actor demo_holding [] = Inr (d', p)"
    using demo_upsert by blast
  then have "(\<lambda>d d'. \<exists>a. pf_op a d d')\<^sup>*\<^sup>* demo_disk d'" by (blast intro: pf_op.upsert)
  from portfolio_keys_unique [OF this demo_disk_ok(3,4)] u show ?thesis by blast
qed

text \<open>An operation of one actor leaves the portfolio of every actor with another storage key
  as it was, whatever the operation.\<close>

theorem portfolio_isolated:
  assumes "(pf_op a)\<^sup>*\<^sup>* d d'" "storage_key b \<noteq> storage_key a"
  shows "pf_load d' b = pf_load d b"
  using assms(1) by (induction rule: rtranclp_induct) (simp_all add: pf_op_frame [OF _ assms(2)])

theorem portfolio_isolated_witness:
  "\<exists>d' p. upsert_holding demo_disk demo_actor demo_holding [] = Inr (d', p) \<and>
     pf_load d' demo_other = pf_load demo_disk demo_other"
proof -
  obtain d' p where u: "upsert_holding demo_disk demo_actor demo_holding [] = Inr (d', p)"
    using demo_upsert by blast
  then have "(pf_op demo_actor)\<^sup>*\<^sup>* demo_disk d'" by (blast intro: pf_op.upsert)
  from portfolio_isolated [OF this demo_keys_differ] u show ?thesis by blast
qed

text \<open>A successful upsert is a map update at the symbol and asset type of the holding, both in the
  returned portfolio and in what a later load sees (where an explicit \<^verbatim>\<open>Some(false)\<close> tracking flag
  reads back as absent).\<close>

theorem upsert_holding_refines:
  assumes "disk_wf d" "disk_persisted d" "upsert_holding d a h now = Inr (d', p)"
  shows "holdings_map (pf_holdings p) = (items_of d a)(item_key h \<mapsto> h) \<and>
    items_of d' a = (items_of d a)(item_key h \<mapsto> persisted_holding h)"
proof -
  obtain l where l: "pf_load d a = Inr l" using assms(3) by (auto simp: upsert_holding_def split: sum.splits)
  have w: "wf_holdings (pf_holdings (unwrap_or (fresh_portfolio a now) l))"
    using l pf_load_wf [OF assms(1)] by (cases l) auto
  have s: "pf_save d a p = Inr d'"
    and p: "pf_holdings p = put_holding h (pf_holdings (unwrap_or (fresh_portfolio a now) l))"
    using assms(3) l by (auto simp: upsert_holding_def Let_def split: sum.splits)
  have m: "holdings_map (pf_holdings p) = (items_of d a)(item_key h \<mapsto> h)"
    using put_holding_spec(2) [OF w] by (simp add: p items_of_loaded [OF l, of now])
  then show ?thesis using items_of_map_persisted [OF assms(2), of a]
    by (simp add: items_of_save [OF s] map_option_o_map_upd)
qed

theorem upsert_holding_refines_witness:
  "\<exists>d' p. upsert_holding demo_disk demo_actor demo_holding [] = Inr (d', p) \<and>
     items_of d' demo_actor (lit ''AAPL'', lit ''stock'') = Some (persisted_holding demo_holding)"
proof -
  obtain d' p where u: "upsert_holding demo_disk demo_actor demo_holding [] = Inr (d', p)"
    using demo_upsert by blast
  have "item_key demo_holding = (lit ''AAPL'', lit ''stock'')"
    by (simp add: demo_holding_def watch_item_def item_key_def)
  with upsert_holding_refines [OF demo_disk_ok(3,4) u] u show ?thesis by auto
qed

text \<open>Watching keeps an entry that exists (a held position is never turned into a watch item) and
  adds the zero-share tracking entry otherwise.\<close>

theorem upsert_watch_refines:
  assumes "disk_wf d" "disk_persisted d" "upsert_watch d a ticker kind now = Inr (d', p)"
  shows "items_of d' a =
     (if items_of d a (ticker, kind) = None then (items_of d a)((ticker, kind) \<mapsto> watch_item ticker kind)
      else items_of d a)"
proof -
  obtain l where l: "pf_load d a = Inr l" using assms(3) by (auto simp: upsert_watch_def split: sum.splits)
  let ?hs = "pf_holdings (unwrap_or (fresh_portfolio a now) l)"
  have i: "items_of d a = holdings_map ?hs" by (rule items_of_loaded [OF l])
  have k: "item_key (watch_item ticker kind) = (ticker, kind)" by (simp add: watch_item_def item_key_def)
  have ex: "(\<exists>h \<in> set ?hs. same_item ticker kind h) \<longleftrightarrow> items_of d a (ticker, kind) \<noteq> None"
    unfolding i holdings_map_None by (force simp: same_item_key)
  show ?thesis
  proof (cases "items_of d a (ticker, kind) = None")
    case True
    then have s: "pf_save d a p = Inr d'" and p: "pf_holdings p = ?hs @ [watch_item ticker kind]"
      using assms(3) l ex by (auto simp: upsert_watch_def Let_def split: sum.splits)
    have "item_key (watch_item ticker kind) \<notin> item_key ` set ?hs"
      using True by (simp add: i k holdings_map_None)
    then have "holdings_map (pf_holdings p) = (items_of d a)((ticker, kind) \<mapsto> watch_item ticker kind)"
      using holdings_map_snoc by (simp add: p i k)
    moreover have "persisted_holding (watch_item ticker kind) = watch_item ticker kind"
      by (simp add: persisted_holding_def watch_item_def is_false_or_none_def)
    ultimately show ?thesis
      using True items_of_map_persisted [OF assms(2), of a] by (simp add: items_of_save [OF s] map_option_o_map_upd)
  next
    case False
    then show ?thesis using assms(3) l ex
      by (auto simp: upsert_watch_def Let_def split: if_splits sum.splits)
  qed
qed

theorem upsert_watch_refines_witness:
  "\<exists>d' p. upsert_watch empty_disk demo_actor (lit ''AAPL'') (lit ''stock'') [] = Inr (d', p) \<and>
     items_of d' demo_actor (lit ''AAPL'', lit ''stock'') = Some (watch_item (lit ''AAPL'') (lit ''stock''))"
proof -
  obtain d' p where u: "upsert_watch empty_disk demo_actor (lit ''AAPL'') (lit ''stock'') [] = Inr (d', p)"
    using demo_watch by blast
  have "items_of empty_disk demo_actor (lit ''AAPL'', lit ''stock'') = None"
    by (simp add: items_of_def demo_load)
  with upsert_watch_refines [OF demo_disk_ok(1,2) u] u show ?thesis by auto
qed

text \<open>A promotion answers whether the entry was a watch item, sets shares and cost, clears the tracking
  flag and touches nothing else; it answers nothing exactly when there is no such entry.\<close>

theorem promote_to_holding_refines:
  assumes "disk_wf d" "disk_persisted d" "promote_to_holding d a ticker kind shares cost now = Inr (d', r)"
  shows "(case items_of d a (ticker, kind) of
       None \<Rightarrow> r = None \<and> d' = d
     | Some h \<Rightarrow> map_option snd r = Some (h_tracking_only h = Some True) \<and>
         items_of d' a = (items_of d a)((ticker, kind) \<mapsto>
           h\<lparr>h_shares := shares, h_avg_cost := cost, h_tracking_only := None\<rparr>))"
proof (cases "items_of d a (ticker, kind)")
  case None
  have "position (same_item ticker kind) (pf_holdings q) = None" if "pf_load d a = Inr (Some q)" for q
    using that None items_of_loaded [OF that, of now]
    by (force simp: position_None same_item_key holdings_map_None)
  then show ?thesis using None assms(3)
    by (auto simp: promote_to_holding_def split: sum.splits option.splits)
next
  case (Some h)
  then obtain q where q: "pf_load d a = Inr (Some q)" "holdings_map (pf_holdings q) (ticker, kind) = Some h"
    by (auto simp: items_of_def split: sum.splits option.splits)
  have w: "wf_holdings (pf_holdings q)" using pf_load_wf [OF assms(1) q(1)] .
  have m: "items_of d a = holdings_map (pf_holdings q)" using items_of_loaded [OF q(1), of now] by simp
  have "\<exists>i. position (same_item ticker kind) (pf_holdings q) = Some i"
    using q(2) holdings_map_None [of "pf_holdings q" "(ticker, kind)"]
    by (cases "position (same_item ticker kind) (pf_holdings q)") (auto simp: position_None same_item_key)
  then obtain i where i: "position (same_item ticker kind) (pf_holdings q) = Some i" by blast
  have il: "i < length (pf_holdings q)" "item_key (pf_holdings q ! i) = (ticker, kind)"
    using position_Some [OF i] by (auto simp: same_item_key)
  have hi: "pf_holdings q ! i = h"
    using holdings_map_update [OF il(1) refl w] q(2) il(2) by (metis list_update_id map_upd_eqD1 option.inject fun_upd_same)
  let ?h = "h\<lparr>h_shares := shares, h_avg_cost := cost, h_tracking_only := None\<rparr>"
  have s: "pf_save d a (q\<lparr>pf_holdings := (pf_holdings q)[i := ?h], pf_updated_at := now\<rparr>) = Inr d'"
    and r: "map_option snd r = Some (h_tracking_only h = Some True)"
    using assms(3) q(1) i hi by (auto simp: promote_to_holding_def Let_def unwrap_or_def split: sum.splits option.splits)
  have k: "item_key ?h = (ticker, kind)" using il(2) hi by (simp add: item_key_def)
  have "persisted_holding ?h = ?h" by (simp add: persisted_holding_def is_false_or_none_def)
  moreover have "holdings_map ((pf_holdings q)[i := ?h]) = (items_of d a)((ticker, kind) \<mapsto> ?h)"
    using holdings_map_update [OF il(1) _ w, of ?h] k il(2) by (simp add: m)
  ultimately have "items_of d' a = (items_of d a)((ticker, kind) \<mapsto> ?h)"
    using items_of_map_persisted [OF assms(2), of a] by (simp add: items_of_save [OF s] map_option_o_map_upd)
  then show ?thesis using Some r by simp
qed

theorem promote_to_holding_refines_witness:
  "\<exists>d' p. promote_to_holding demo_disk demo_actor (lit ''AAPL'') (lit ''stock'') 3 10 [] = Inr (d', Some (p, True)) \<and>
     map_option h_shares (items_of d' demo_actor (lit ''AAPL'', lit ''stock'')) = Some 3"
proof -
  obtain d' r where u: "promote_to_holding demo_disk demo_actor (lit ''AAPL'') (lit ''stock'') 3 10 [] = Inr (d', r)"
    using demo_promote by blast
  have t: "h_tracking_only (watch_item x y) = Some True" for x y by (simp add: watch_item_def)
  show ?thesis using promote_to_holding_refines [OF demo_disk_ok(3,4) u] u
    by (cases r) (auto simp: demo_items t)
qed

end
