(* ===== verification/Quota.thy ===== *)
theory Quota
  imports Disk "HOL-Library.Word"
begin

text \<open>
  \<^verbatim>\<open>memory/src/quota.rs\<close>, local mode: the daily conversation quota of an actor, one JSON file per
  actor and date with the number of finished conversations and of reservations in flight. Every
  operation runs under the mutex of its actor and date, so it is one step of the model. The counters
  are \<^verbatim>\<open>u32\<close>: the additions are the wrapping ones of a release build. The properties follow
  the reservations through any interleaving of reserve, commit and release.
\<close>

section \<open>Data\<close>

record quota_reservation =
  qr_actor :: actor
  qr_date :: rstr

record quota_snapshot =
  qs_date :: rstr
  qs_success_count :: "32 word"
  qs_in_flight :: "32 word"
  qs_limit :: "32 word"

datatype reserve_result = Reserved quota_reservation | Bypassed | Rejected quota_snapshot

record quota_file =
  qf_date :: rstr
  qf_success_count :: "32 word"
  qf_in_flight :: "32 word"
  qf_updated_at :: rstr

type_synonym quota_disk = "quota_file disk"

section \<open>Operations\<close>

definition quota_file_path :: "actor \<Rightarrow> rstr \<Rightarrow> rstr" where
  "quota_file_path a quota_date = storage_key a @ lit ''/'' @ quota_date @ lit ''.json''"

definition read_quota_file :: "quota_disk \<Rightarrow> actor \<Rightarrow> rstr \<Rightarrow> quota_file option hone_result" where
  "read_quota_file d a quota_date =
     (case disk_get d (quota_file_path a quota_date) of
        None \<Rightarrow> Inr None
      | Some (Unreadable e) \<Rightarrow> Inl (Storage e)
      | Some (Malformed e) \<Rightarrow> Inl (Serialization ([35299, 26512, 32, 113, 117, 111, 116, 97, 32, 25991, 20214, 22833, 36133, 58, 32] @ e))
      | Some (Parsed f) \<Rightarrow> Inr (Some f))"

text \<open>The file is written under the date it carries.\<close>

definition write_quota_file :: "quota_disk \<Rightarrow> actor \<Rightarrow> quota_file \<Rightarrow> quota_disk hone_result" where
  "write_quota_file d a f =
     (case disk_write d (quota_file_path a (qf_date f)) f of
        Inl e \<Rightarrow> Inl (Storage e)
      | Inr d' \<Rightarrow> Inr d')"

definition default_quota_file :: quota_file where
  "default_quota_file = \<lparr>qf_date = [], qf_success_count = 0, qf_in_flight = 0, qf_updated_at = []\<rparr>"

definition try_reserve_for_date ::
    "quota_disk \<Rightarrow> actor \<Rightarrow> rstr \<Rightarrow> 32 word \<Rightarrow> bool \<Rightarrow> rstr \<Rightarrow> (quota_disk \<times> reserve_result) hone_result" where
  "try_reserve_for_date d a quota_date daily_limit bypass now =
     (if bypass then Inr (d, Bypassed)
      else
        (case read_quota_file d a quota_date of
           Inl e \<Rightarrow> Inl e
         | Inr file \<Rightarrow>
             (let current = unwrap_or default_quota_file file;
                  current = (if qf_date current = [] then current\<lparr>qf_date := quota_date\<rparr> else current)
              in
              if qf_success_count current + qf_in_flight current \<ge> daily_limit then
                Inr (d, Rejected \<lparr>qs_date = quota_date, qs_success_count = qf_success_count current,
                                  qs_in_flight = qf_in_flight current, qs_limit = daily_limit\<rparr>)
              else
                (let current = current\<lparr>qf_in_flight := qf_in_flight current + 1, qf_updated_at := now\<rparr>
                 in case write_quota_file d a current of
                      Inl e \<Rightarrow> Inl e
                    | Inr d' \<Rightarrow> Inr (d', Reserved \<lparr>qr_actor = a, qr_date = quota_date\<rparr>)))))"

definition saturating_sub_u32 :: "32 word \<Rightarrow> 32 word \<Rightarrow> 32 word" where
  "saturating_sub_u32 x y = (if x \<le> y then 0 else x - y)"

definition saturating_add_u32 :: "32 word \<Rightarrow> 32 word \<Rightarrow> 32 word" where
  "saturating_add_u32 x y = (if x > - 1 - y then - 1 else x + y)"

definition finish_reservation ::
    "quota_disk \<Rightarrow> quota_reservation \<Rightarrow> bool \<Rightarrow> rstr \<Rightarrow> quota_disk hone_result" where
  "finish_reservation d r committed now =
     (case read_quota_file d (qr_actor r) (qr_date r) of
        Inl e \<Rightarrow> Inl e
      | Inr None \<Rightarrow> Inr d
      | Inr (Some current) \<Rightarrow>
          (let current = current\<lparr>qf_in_flight := saturating_sub_u32 (qf_in_flight current) 1\<rparr>;
               current = (if committed
                 then current\<lparr>qf_success_count := saturating_add_u32 (qf_success_count current) 1\<rparr>
                 else current);
               current = current\<lparr>qf_updated_at := now\<rparr>
           in write_quota_file d (qr_actor r) current))"

definition commit_daily_conversation ::
    "quota_disk \<Rightarrow> quota_reservation \<Rightarrow> rstr \<Rightarrow> quota_disk hone_result" where
  "commit_daily_conversation d r now = finish_reservation d r True now"

definition release_daily_conversation ::
    "quota_disk \<Rightarrow> quota_reservation \<Rightarrow> rstr \<Rightarrow> quota_disk hone_result" where
  "release_daily_conversation d r now = finish_reservation d r False now"

definition snapshot_for_date :: "quota_disk \<Rightarrow> actor \<Rightarrow> rstr \<Rightarrow> quota_snapshot option hone_result" where
  "snapshot_for_date d a quota_date =
     (case read_quota_file d a quota_date of
        Inl e \<Rightarrow> Inl e
      | Inr f \<Rightarrow> Inr (map_option (\<lambda>f. \<lparr>qs_date = qf_date f, qs_success_count = qf_success_count f,
                                        qs_in_flight = qf_in_flight f, qs_limit = 0\<rparr>) f))"

section \<open>Reservations over time\<close>

text \<open>
  The ledger: the disk, and for every file the reservations handed out and not yet finished, and the
  commits so far. Reservations are handed out with limits of at most \<open>L\<close>; each is finished once.
\<close>

record ledger =
  lg_disk :: quota_disk
  lg_open :: "rstr \<Rightarrow> nat"
  lg_done :: "rstr \<Rightarrow> nat"

definition res_path :: "quota_reservation \<Rightarrow> rstr" where
  "res_path r = quota_file_path (qr_actor r) (qr_date r)"

inductive quota_step :: "32 word \<Rightarrow> ledger \<Rightarrow> ledger \<Rightarrow> bool" for L where
  reserve: "try_reserve_for_date (lg_disk s) a date n False now = Inr (d', Reserved r) \<Longrightarrow> n \<le> L \<Longrightarrow>
     quota_step L s (s\<lparr>lg_disk := d', lg_open := (lg_open s)(res_path r := lg_open s (res_path r) + 1)\<rparr>)"
| refuse: "try_reserve_for_date (lg_disk s) a date n bypass now = Inr (d', res) \<Longrightarrow> (\<forall>r. res \<noteq> Reserved r) \<Longrightarrow>
     quota_step L s (s\<lparr>lg_disk := d'\<rparr>)"
| commit: "lg_open s (res_path r) > 0 \<Longrightarrow> commit_daily_conversation (lg_disk s) r now = Inr d' \<Longrightarrow>
     quota_step L s (s\<lparr>lg_disk := d', lg_open := (lg_open s)(res_path r := lg_open s (res_path r) - 1),
       lg_done := (lg_done s)(res_path r := lg_done s (res_path r) + 1)\<rparr>)"
| release: "lg_open s (res_path r) > 0 \<Longrightarrow> release_daily_conversation (lg_disk s) r now = Inr d' \<Longrightarrow>
     quota_step L s (s\<lparr>lg_disk := d', lg_open := (lg_open s)(res_path r := lg_open s (res_path r) - 1)\<rparr>)"

definition ledger_empty :: ledger where
  "ledger_empty = \<lparr>lg_disk = \<lparr>d_files = [], d_write_error = None\<rparr>, lg_open = (\<lambda>_. 0), lg_done = (\<lambda>_. 0)\<rparr>"

text \<open>What a file must say: its own date, and exactly the ledger's counts, inside the limit.\<close>

definition file_agrees :: "32 word \<Rightarrow> ledger \<Rightarrow> actor \<Rightarrow> rstr \<Rightarrow> bool" where
  "file_agrees L s a date =
     (let k = quota_file_path a date in
      case disk_get (lg_disk s) k of
        None \<Rightarrow> lg_open s k = 0 \<and> lg_done s k = 0
      | Some (Parsed f) \<Rightarrow> qf_date f = date \<and> unat (qf_in_flight f) = lg_open s k \<and>
          unat (qf_success_count f) = lg_done s k \<and> lg_open s k + lg_done s k \<le> unat L
      | Some _ \<Rightarrow> False)"

definition ledger_ok :: "32 word \<Rightarrow> ledger \<Rightarrow> bool" where
  "ledger_ok L s \<longleftrightarrow> (\<forall>a date. file_agrees L s a date)"

section \<open>Lemmas\<close>

lemma encode_byte_no_slash: "47 \<notin> set (encode_byte b)"
  by (auto simp: encode_byte_def is_key_byte_def is_ascii_alnum_def is_ascii_upper_def is_ascii_lower_def is_digit_def hex_char_def)

lemma storage_key_no_slash: "47 \<notin> set (storage_key a)"
  using encode_byte_no_slash by (auto simp: storage_key_def encode_component_def sep_eq)

lemma quota_file_path_inject:
  "quota_file_path a date = quota_file_path b date' \<longleftrightarrow> storage_key a = storage_key b \<and> date = date'"
proof -
  have "takeWhile (\<lambda>c. c \<noteq> 47) (quota_file_path x e) = storage_key x" for x e
  proof -
    have "\<forall>c \<in> set (storage_key x). c \<noteq> 47" using storage_key_no_slash [of x] by auto
    then show ?thesis by (simp add: quota_file_path_def lit_def)
  qed
  then have "quota_file_path a date = quota_file_path b date' \<Longrightarrow> storage_key a = storage_key b" by metis
  then show ?thesis by (auto simp: quota_file_path_def)
qed

lemma unat32_less: "unat (x :: 32 word) < 2 ^ 32"
proof -
  have "unat x < 2 ^ LENGTH(32)" by (rule unsigned_less)
  then show ?thesis by simp
qed

lemma saturating_sub_unat: "unat (saturating_sub_u32 x 1) = unat x - 1"
  by (auto simp: saturating_sub_u32_def word_le_nat_alt unat_sub not_le word_less_nat_alt)

lemma saturating_add_unat: "unat x < 2 ^ 32 - 1 \<Longrightarrow> unat (saturating_add_u32 x 1) = unat x + 1"
proof -
  assume x: "unat x < 2 ^ 32 - 1"
  have "unat (x + 1) = unat x + 1" using x by (simp add: unat_word_ariths)
  moreover have "unat (- 1 - 1 :: 32 word) = 2 ^ 32 - 2" by simp
  then have "\<not> x > - 1 - 1" using x unfolding word_less_nat_alt by simp
  ultimately show ?thesis by (simp add: saturating_add_u32_def)
qed

lemma write_quota_file_Inr:
  "write_quota_file d a f = Inr d' \<longleftrightarrow>
     d_write_error d = None \<and> d' = disk_put d (quota_file_path a (qf_date f)) f"
  by (auto simp: write_quota_file_def disk_write_def split: sum.splits option.splits)

lemma file_agrees_cong:
  assumes "storage_key a = storage_key b"
  shows "file_agrees L s a date = file_agrees L s b date"
  by (simp add: file_agrees_def quota_file_path_def assms)

text \<open>A step that rewrites one file keeps the others in agreement.\<close>

lemma ledger_ok_update:
  assumes "ledger_ok L s" and k: "k = quota_file_path a date"
    and other: "\<And>j. j \<noteq> k \<Longrightarrow> disk_get (lg_disk s') j = disk_get (lg_disk s) j \<and>
                   lg_open s' j = lg_open s j \<and> lg_done s' j = lg_done s j"
    and here: "file_agrees L s' a date"
  shows "ledger_ok L s'"
  unfolding ledger_ok_def
proof (intro allI)
  fix b date'
  show "file_agrees L s' b date'"
  proof (cases "quota_file_path b date' = k")
    case True
    then show ?thesis using here k quota_file_path_inject file_agrees_cong by metis
  next
    case False
    have "file_agrees L s b date'" using assms(1) by (simp add: ledger_ok_def)
    moreover have "file_agrees L s' b date' = file_agrees L s b date'"
      unfolding file_agrees_def Let_def by (simp only: other [OF False])
    ultimately show ?thesis by simp
  qed
qed

lemma ledger_read:
  assumes "ledger_ok L s"
  shows "(read_quota_file (lg_disk s) a date = Inr None \<and> disk_get (lg_disk s) (quota_file_path a date) = None \<and>
            lg_open s (quota_file_path a date) = 0 \<and> lg_done s (quota_file_path a date) = 0)
       \<or> (\<exists>f. read_quota_file (lg_disk s) a date = Inr (Some f) \<and> qf_date f = date \<and>
            unat (qf_in_flight f) = lg_open s (quota_file_path a date) \<and>
            unat (qf_success_count f) = lg_done s (quota_file_path a date) \<and>
            unat (qf_in_flight f) + unat (qf_success_count f) \<le> unat L)"
proof -
  have "file_agrees L s a date" using assms by (simp add: ledger_ok_def)
  then show ?thesis
    by (cases "disk_get (lg_disk s) (quota_file_path a date)")
      (auto simp: file_agrees_def read_quota_file_def Let_def split: jfile.splits)
qed

lemma quota_step_ok:
  assumes "quota_step L s s'" "ledger_ok L s"
  shows "ledger_ok L s'"
  using assms(1)
proof cases
  case (reserve a date n now d' r)
  let ?k = "quota_file_path a date"
  note r = ledger_read [OF assms(2), of a date]
  then obtain f where f: "read_quota_file (lg_disk s) a date = Inr f" by blast
  define c where "c = (let c = unwrap_or default_quota_file f in if qf_date c = [] then c\<lparr>qf_date := date\<rparr> else c)"
  have c: "qf_date c = date" "unat (qf_in_flight c) = lg_open s ?k" "unat (qf_success_count c) = lg_done s ?k"
    "unat (qf_in_flight c) + unat (qf_success_count c) \<le> unat L"
    using r f by (auto simp: c_def default_quota_file_def Let_def)
  have lt: "\<not> qf_success_count c + qf_in_flight c \<ge> n"
    and w: "write_quota_file (lg_disk s) a (c\<lparr>qf_in_flight := qf_in_flight c + 1, qf_updated_at := now\<rparr>) = Inr d'"
    and rr: "r = \<lparr>qr_actor = a, qr_date = date\<rparr>"
    using reserve f by (auto simp: try_reserve_for_date_def Let_def c_def split: if_splits sum.splits)
  have b: "unat (qf_success_count c) + unat (qf_in_flight c) < unat n"
    using lt c(4) unat32_less [of L] by (simp add: word_le_nat_alt unat_word_ariths)
  then have i: "unat (qf_in_flight c + 1) = lg_open s ?k + 1"
    using c(2) unat32_less [of n] by (simp add: unat_word_ariths)
  show ?thesis
    by (rule ledger_ok_update [OF assms(2) refl, of a date])
      (use w c i b rr reserve in \<open>auto simp: write_quota_file_Inr disk_get_put res_path_def file_agrees_def Let_def word_le_nat_alt\<close>)
next
  case (refuse a date n bypass now d' res)
  have "d' = lg_disk s"
    using refuse by (auto simp: try_reserve_for_date_def Let_def split: if_splits sum.splits)
  then show ?thesis using refuse assms(2) by simp
next
  case (commit r now d')
  let ?k = "quota_file_path (qr_actor r) (qr_date r)"
  obtain f where f: "read_quota_file (lg_disk s) (qr_actor r) (qr_date r) = Inr (Some f)"
      "qf_date f = qr_date r" "unat (qf_in_flight f) = lg_open s ?k" "unat (qf_success_count f) = lg_done s ?k"
      "unat (qf_in_flight f) + unat (qf_success_count f) \<le> unat L"
    using ledger_read [OF assms(2), of "qr_actor r" "qr_date r"] commit by (auto simp: res_path_def)
  have "unat (qf_success_count f) < 2 ^ 32 - 1"
    using f commit unat32_less [of L] by (simp add: res_path_def)
  then show ?thesis
    by (intro ledger_ok_update [OF assms(2) refl, of "qr_actor r" "qr_date r"])
      (use f commit in \<open>auto simp: commit_daily_conversation_def finish_reservation_def write_quota_file_Inr
        disk_get_put res_path_def file_agrees_def Let_def saturating_sub_unat saturating_add_unat\<close>)
next
  case (release r now d')
  let ?k = "quota_file_path (qr_actor r) (qr_date r)"
  obtain f where f: "read_quota_file (lg_disk s) (qr_actor r) (qr_date r) = Inr (Some f)"
      "qf_date f = qr_date r" "unat (qf_in_flight f) = lg_open s ?k" "unat (qf_success_count f) = lg_done s ?k"
      "unat (qf_in_flight f) + unat (qf_success_count f) \<le> unat L"
    using ledger_read [OF assms(2), of "qr_actor r" "qr_date r"] release by (auto simp: res_path_def)
  show ?thesis
    by (rule ledger_ok_update [OF assms(2) refl, of "qr_actor r" "qr_date r"])
      (use f release in \<open>auto simp: release_daily_conversation_def finish_reservation_def write_quota_file_Inr
        disk_get_put res_path_def file_agrees_def Let_def saturating_sub_unat\<close>)
qed

lemma ledger_empty_ok: "ledger_ok L ledger_empty"
  by (simp add: ledger_ok_def file_agrees_def ledger_empty_def disk_get_def)

lemma quota_reachable_ok: "(quota_step L)\<^sup>*\<^sup>* ledger_empty s \<Longrightarrow> ledger_ok L s"
  by (induction rule: rtranclp_induct) (auto simp: ledger_empty_ok intro: quota_step_ok)

section \<open>Properties\<close>

definition q_actor :: actor where
  "q_actor = \<lparr>a_channel = lit ''feishu'', a_user_id = lit ''u1'', a_channel_scope = None\<rparr>"

text \<open>C22: however reserve, commit and release interleave, as long as every reservation is finished at most
  once and every limit passed is at most \<open>L\<close>, the finished conversations and the open reservations of an
  actor on a date never exceed \<open>L\<close>, and the file's counters are exactly these numbers.\<close>

theorem quota_never_exceeded:
  assumes "(quota_step L)\<^sup>*\<^sup>* ledger_empty s" "snapshot_for_date (lg_disk s) a date = Inr (Some v)"
  shows "unat (qs_in_flight v) = lg_open s (quota_file_path a date) \<and>
    unat (qs_success_count v) = lg_done s (quota_file_path a date) \<and>
    lg_done s (quota_file_path a date) + lg_open s (quota_file_path a date) \<le> unat L"
  using ledger_read [OF quota_reachable_ok [OF assms(1)], of a date] assms(2)
  by (auto simp: snapshot_for_date_def)

theorem quota_never_exceeded_witness:
  "\<exists>s. (quota_step 5)\<^sup>*\<^sup>* ledger_empty s \<and> lg_open s (quota_file_path q_actor (lit ''2026-01-01'')) = 1 \<and>
     lg_done s (quota_file_path q_actor (lit ''2026-01-01'')) + 1 \<le> 5"
proof -
  obtain d' where r: "try_reserve_for_date (lg_disk ledger_empty) q_actor (lit ''2026-01-01'') 5 False [] =
      Inr (d', Reserved \<lparr>qr_actor = q_actor, qr_date = lit ''2026-01-01''\<rparr>)"
    and d': "disk_get d' (quota_file_path q_actor (lit ''2026-01-01'')) =
       Some (Parsed \<lparr>qf_date = lit ''2026-01-01'', qf_success_count = 0, qf_in_flight = 1, qf_updated_at = []\<rparr>)"
    by (simp add: try_reserve_for_date_def ledger_empty_def read_quota_file_def disk_get_def disk_put_def
        write_quota_file_def disk_write_def default_quota_file_def lit_def)
  let ?s = "ledger_empty\<lparr>lg_disk := d', lg_open := (lg_open ledger_empty)
      (res_path \<lparr>qr_actor = q_actor, qr_date = lit ''2026-01-01''\<rparr> :=
       lg_open ledger_empty (res_path \<lparr>qr_actor = q_actor, qr_date = lit ''2026-01-01''\<rparr>) + 1)\<rparr>"
  have reach: "(quota_step 5)\<^sup>*\<^sup>* ledger_empty ?s"
    using quota_step.reserve [of ledger_empty, OF r] by (intro r_into_rtranclp) simp
  have "\<exists>v. snapshot_for_date (lg_disk ?s) q_actor (lit ''2026-01-01'') = Inr (Some v)"
    by (simp add: snapshot_for_date_def read_quota_file_def d')
  then obtain v where "snapshot_for_date (lg_disk ?s) q_actor (lit ''2026-01-01'') = Inr (Some v)" by blast
  from quota_never_exceeded [OF reach this] reach show ?thesis
    by (intro exI [of _ ?s]) (simp add: res_path_def ledger_empty_def)
qed

text \<open>On a writable disk a reservation is granted exactly when the finished and open ones of that actor
  and date leave room under the limit; otherwise it is rejected with a snapshot of these numbers, and
  the disk is untouched. Nothing ever fails with an error.\<close>

theorem quota_reserve_exact:
  assumes "(quota_step L)\<^sup>*\<^sup>* ledger_empty s" "d_write_error (lg_disk s) = None"
  shows "(let k = quota_file_path a date; used = lg_done s k + lg_open s k in
     if used < unat n
     then \<exists>d'. try_reserve_for_date (lg_disk s) a date n False now = Inr (d', Reserved \<lparr>qr_actor = a, qr_date = date\<rparr>)
     else \<exists>v. try_reserve_for_date (lg_disk s) a date n False now = Inr (lg_disk s, Rejected v) \<and>
          unat (qs_success_count v) = lg_done s k \<and> unat (qs_in_flight v) = lg_open s k \<and> qs_limit v = n)"
proof -
  let ?k = "quota_file_path a date"
  note r = ledger_read [OF quota_reachable_ok [OF assms(1)], of a date]
  then obtain f where f: "read_quota_file (lg_disk s) a date = Inr f" by blast
  define c where "c = (let c = unwrap_or default_quota_file f in if qf_date c = [] then c\<lparr>qf_date := date\<rparr> else c)"
  have c: "unat (qf_in_flight c) = lg_open s ?k" "unat (qf_success_count c) = lg_done s ?k"
    "unat (qf_in_flight c) + unat (qf_success_count c) \<le> unat L"
    using r f by (auto simp: c_def default_quota_file_def Let_def)
  have full: "qf_success_count c + qf_in_flight c \<ge> n \<longleftrightarrow> \<not> lg_done s ?k + lg_open s ?k < unat n"
    using c unat32_less [of L] by (simp add: word_le_nat_alt unat_word_ariths not_less)
  have "\<exists>d'. write_quota_file (lg_disk s) a x = Inr d'" for x
    using assms(2) by (simp add: write_quota_file_Inr)
  then obtain d' where w: "write_quota_file (lg_disk s) a
      (c\<lparr>qf_in_flight := qf_in_flight c + 1, qf_updated_at := now\<rparr>) = Inr d'" by blast
  have "try_reserve_for_date (lg_disk s) a date n False now =
    (if qf_success_count c + qf_in_flight c \<ge> n
     then Inr (lg_disk s, Rejected \<lparr>qs_date = date, qs_success_count = qf_success_count c,
                                  qs_in_flight = qf_in_flight c, qs_limit = n\<rparr>)
     else Inr (d', Reserved \<lparr>qr_actor = a, qr_date = date\<rparr>))"
    using f w by (simp add: try_reserve_for_date_def c_def Let_def)
  then show ?thesis using c full by (simp add: Let_def)
qed

theorem quota_reserve_exact_witness:
  "\<exists>d'. try_reserve_for_date (lg_disk ledger_empty) q_actor (lit ''2026-01-01'') 1 False [] =
     Inr (d', Reserved \<lparr>qr_actor = q_actor, qr_date = lit ''2026-01-01''\<rparr>)"
proof -
  have "d_write_error (lg_disk ledger_empty) = None" by (simp add: ledger_empty_def)
  from quota_reserve_exact [OF rtranclp.rtrancl_refl this, of q_actor "lit ''2026-01-01''" 1 "[]"]
  show ?thesis by (simp add: ledger_empty_def)
qed

end
