(* ===== verification/Cron_Schedule.thy ===== *)
theory Cron_Schedule
  imports Actor Calendar "HOL-Library.Signed_Division"
begin

text \<open>
  \<^verbatim>\<open>memory/src/cron_job/types.rs\<close> and \<^verbatim>\<open>schedule.rs\<close>: the scheduled job, the validation of its
  schedule, the trigger time a prompt declares, and the trading calendar (workdays, the ten US market
  holidays of a year, Easter). A \<^verbatim>\<open>panic\<close> of the source (an \<^verbatim>\<open>unwrap\<close> of an invalid date) is the
  value \<open>None\<close>; the two search loops are partial functions, so a loop that does not end is
  \<open>None\<close> too. The properties show that neither happens, and that Easter is a Sunday between
  22 March and 25 April. Hours, minutes and weekdays (\<^verbatim>\<open>u32\<close>) are natural numbers, years (\<^verbatim>\<open>i32\<close>,
  bounded by chrono's 262142) integers with Rust's truncating division.
\<close>

section \<open>types.rs\<close>

definition MAX_ENABLED_JOBS_PER_ACTOR :: nat where
  "MAX_ENABLED_JOBS_PER_ACTOR = 12"

definition cron_enabled_limit_error :: rstr where
  "cron_enabled_limit_error =
     [24050, 36798, 21040, 26368, 22823, 21551, 29992, 23450, 26102, 20219, 21153, 25968, 37327, 65288] @ nat_digits MAX_ENABLED_JOBS_PER_ACTOR
       @ [20010, 65289, 65292, 35831, 20808, 20572, 29992, 25110, 21024, 38500, 19981, 38656, 35201, 30340, 20219, 21153]"

definition is_cron_enabled_limit_error :: "rstr \<Rightarrow> bool" where
  "is_cron_enabled_limit_error message = contains_str message cron_enabled_limit_error"

record cron_schedule =
  cs_hour :: nat
  cs_minute :: nat
  cs_repeat :: rstr
  cs_weekday :: "nat option"
  cs_date :: "rstr option"

record cron_job =
  cj_id :: rstr
  cj_name :: rstr
  cj_schedule :: cron_schedule
  cj_task_prompt :: rstr
  cj_push :: json
  cj_enabled :: bool
  cj_channel :: rstr
  cj_channel_scope :: "rstr option"
  cj_channel_target :: rstr
  cj_tags :: "rstr list"
  cj_created_at :: "rstr option"
  cj_last_run_at :: "rstr option"
  cj_bypass_quiet_hours :: bool

record pending_update =
  pu_token :: rstr
  pu_job_id :: rstr
  pu_updates :: json
  pu_created_at :: rstr

record cron_job_data =
  cd_actor :: "actor option"
  cd_user_id :: rstr
  cd_jobs :: "cron_job list"
  cd_pending_updates :: "pending_update list"

record cron_job_update =
  cu_name :: "rstr option"
  cu_schedule :: "cron_schedule option"
  cu_task_prompt :: "rstr option"
  cu_push :: "json option"
  cu_enabled :: "bool option"
  cu_channel_target :: "rstr option"
  cu_tags :: "rstr list option"
  cu_bypass_quiet_hours :: "bool option"

section \<open>Repeat kinds and tags\<close>

definition DUE_WINDOW_MINUTES :: int where
  "DUE_WINDOW_MINUTES = 5"

definition is_heartbeat_repeat_or_tags :: "rstr \<Rightarrow> rstr list \<Rightarrow> bool" where
  "is_heartbeat_repeat_or_tags repeat tags \<longleftrightarrow>
     eq_ignore_ascii_case (trim repeat) (lit ''heartbeat'') \<or>
     list_ex (\<lambda>tag. eq_ignore_ascii_case tag (lit ''heartbeat'')) tags"

definition is_heartbeat :: "cron_job \<Rightarrow> bool" where
  "is_heartbeat j = is_heartbeat_repeat_or_tags (cs_repeat (cj_schedule j)) (cj_tags j)"

definition normalized_repeat :: "rstr \<Rightarrow> rstr list \<Rightarrow> rstr" where
  "normalized_repeat repeat tags =
     (if is_heartbeat_repeat_or_tags repeat tags then lit ''heartbeat'' else repeat)"

fun push_tags :: "rstr list \<Rightarrow> rstr list \<Rightarrow> rstr list" where
  "push_tags out [] = out"
| "push_tags out (tag # tags) =
     (let tag = to_ascii_lowercase (trim tag)
      in push_tags (if tag \<noteq> [] \<and> tag \<notin> set out then out @ [tag] else out) tags)"

definition normalized_tags :: "rstr list \<Rightarrow> rstr \<Rightarrow> rstr list" where
  "normalized_tags tags repeat =
     (let out = push_tags [] tags in
      if eq_ignore_ascii_case (trim repeat) (lit ''heartbeat'') \<and> lit ''heartbeat'' \<notin> set out
      then out @ [lit ''heartbeat''] else out)"

definition valid_repeats :: "rstr list" where
  "valid_repeats = [lit ''daily'', lit ''weekly'', lit ''once'', lit ''workday'', lit ''trading_day'',
     lit ''holiday'', lit ''heartbeat'']"

definition validate_schedule :: "nat option \<Rightarrow> nat option \<Rightarrow> rstr \<Rightarrow> nat option \<Rightarrow> rstr + unit" where
  "validate_schedule hour minute repeat weekday =
     (let normalized = normalized_repeat repeat [];
          time_error =
            (if normalized \<noteq> lit ''heartbeat'' then
               (case hour of None \<Rightarrow> Some [32570, 23569, 32, 104, 111, 117, 114]
                | Some h \<Rightarrow>
                    (case minute of None \<Rightarrow> Some [32570, 23569, 32, 109, 105, 110, 117, 116, 101]
                     | Some m \<Rightarrow>
                         if h > 23 then Some ([23567, 26102, 39035, 22312, 32, 48, 45, 50, 51, 32, 20043, 38388, 65292, 25910, 21040, 32] @ nat_digits h)
                         else if m > 59 then Some ([20998, 38047, 39035, 22312, 32, 48, 45, 53, 57, 32, 20043, 38388, 65292, 25910, 21040, 32] @ nat_digits m)
                         else None))
             else None)
      in case time_error of
           Some e \<Rightarrow> Inl e
         | None \<Rightarrow>
             if normalized \<notin> set valid_repeats then
               Inl ([114, 101, 112, 101, 97, 116, 32, 39035, 20026, 32, 100, 97, 105, 108, 121, 47, 119, 101, 101, 107, 108, 121, 47, 111, 110, 99, 101, 47, 119, 111, 114, 107, 100, 97, 121, 47, 116, 114, 97, 100, 105, 110, 103, 95, 100, 97, 121, 47, 104, 111, 108, 105, 100, 97, 121, 47, 104, 101, 97, 114, 116, 98, 101, 97, 116, 65292, 25910, 21040, 32] @ repeat)
             else if normalized = lit ''weekly'' \<and> (weekday = None \<or> unwrap_or 7 weekday > 6) then
               Inl [119, 101, 101, 107, 108, 121, 32, 31867, 22411, 39035, 25351, 23450, 32, 119, 101, 101, 107, 100, 97, 121, 32, 40, 48, 45, 54, 41]
             else Inr ())"

definition normalize_schedule_date :: "rstr option \<Rightarrow> rstr option" where
  "normalize_schedule_date date =
     Option.bind date (\<lambda>value. let trimmed = trim value in if trimmed \<noteq> [] then Some trimmed else None)"

definition validate_schedule_date :: "chrono \<Rightarrow> rstr \<Rightarrow> rstr option \<Rightarrow> rstr + unit" where
  "validate_schedule_date C repeat date =
     (case opt_filter (\<lambda>value. value \<noteq> []) (map_option trim date) of
        None \<Rightarrow> Inr ()
      | Some date \<Rightarrow>
          if \<not> eq_ignore_ascii_case repeat (lit ''once'')
          then Inl [100, 97, 116, 101, 32, 20165, 25903, 25345, 32, 114, 101, 112, 101, 97, 116, 61, 111, 110, 99, 101, 32, 30340, 19968, 27425, 24615, 20219, 21153]
          else (case ch_parse_date C date of
                  Some _ \<Rightarrow> Inr ()
                | None \<Rightarrow> Inl ([100, 97, 116, 101, 32, 39035, 20026, 32, 89, 89, 89, 89, 45, 77, 77, 45, 68, 68, 65292, 25910, 21040, 32] @ date)))"

section \<open>The time a prompt declares\<close>

definition digit_val :: "nat \<Rightarrow> nat" where
  "digit_val c = c - 48"

text \<open>The window of five characters slides over the line; 65306 is the full-width colon.\<close>

fun extract_hh_mm :: "rstr \<Rightarrow> (nat \<times> nat) option" where
  "extract_hh_mm (c0 # c1 # c2 # c3 # c4 # rest) =
     (if \<not> is_digit c0 \<or> \<not> is_digit c1 \<or> c2 \<notin> {58, 65306} \<or> \<not> is_digit c3 \<or> \<not> is_digit c4
      then extract_hh_mm (c1 # c2 # c3 # c4 # rest)
      else
        (let hour = digit_val c0 * 10 + digit_val c1; minute = digit_val c3 * 10 + digit_val c4 in
         if hour \<le> 23 \<and> minute \<le> 59 then Some (hour, minute)
         else extract_hh_mm (c1 # c2 # c3 # c4 # rest)))"
| "extract_hh_mm _ = None"

fun find_map :: "('a \<Rightarrow> 'b option) \<Rightarrow> 'a list \<Rightarrow> 'b option" where
  "find_map f [] = None"
| "find_map f (x # xs) = (case f x of Some y \<Rightarrow> Some y | None \<Rightarrow> find_map f xs)"

definition prompt_declared_schedule_time :: "rstr \<Rightarrow> (nat \<times> nat) option" where
  "prompt_declared_schedule_time prompt =
     find_map extract_hh_mm (filter (\<lambda>line. contains_str line [35302, 21457, 26102, 38388]) (str_lines prompt))"

definition prompt_schedule_conflict :: "cron_job \<Rightarrow> (nat \<times> nat) option" where
  "prompt_schedule_conflict j =
     (if is_heartbeat j then None
      else (case prompt_declared_schedule_time (cj_task_prompt j) of
              None \<Rightarrow> None
            | Some (hour, minute) \<Rightarrow>
                if (hour, minute) \<noteq> (cs_hour (cj_schedule j), cs_minute (cj_schedule j))
                then Some (hour, minute) else None))"

section \<open>The trading calendar\<close>

definition is_workday :: "chrono \<Rightarrow> date \<Rightarrow> bool" where
  "is_workday C day \<longleftrightarrow> ch_weekday C day < 5"

definition observed_holiday :: "chrono \<Rightarrow> date \<Rightarrow> date" where
  "observed_holiday C base =
     (if ch_weekday C base = 5 then base - 1
      else if ch_weekday C base = 6 then base + 1 else base)"

text \<open>The loop \<^verbatim>\<open>while current.weekday() != weekday { current += step }\<close>.\<close>

partial_function (option) seek_weekday :: "chrono \<Rightarrow> int \<Rightarrow> nat \<Rightarrow> date \<Rightarrow> date option" where
  "seek_weekday C step weekday current =
     (if ch_weekday C current \<noteq> weekday then seek_weekday C step weekday (current + step) else Some current)"

declare seek_weekday.simps [code]

definition nth_weekday :: "chrono \<Rightarrow> int \<Rightarrow> nat \<Rightarrow> nat \<Rightarrow> nat \<Rightarrow> date option" where
  "nth_weekday C year month weekday n =
     Option.bind (ch_from_ymd C year month 1) (\<lambda>first.
     Option.bind (seek_weekday C 1 weekday first) (\<lambda>current.
       Some (current + int ((n - 1) * 7))))"

definition last_weekday :: "chrono \<Rightarrow> int \<Rightarrow> nat \<Rightarrow> nat \<Rightarrow> date option" where
  "last_weekday C year month weekday =
     Option.bind (if month = 12 then ch_from_ymd C (year + 1) 1 1 else ch_from_ymd C year (month + 1) 1) (\<lambda>next.
       seek_weekday C (- 1) weekday (next - 1))"

definition as_u32 :: "int \<Rightarrow> nat" where
  "as_u32 i = nat (i mod 2 ^ 32)"

definition easter_date :: "chrono \<Rightarrow> int \<Rightarrow> date option" where
  "easter_date C year =
     (let a = year smod 19;
          b = year sdiv 100;
          c = year smod 100;
          d = b sdiv 4;
          e = b smod 4;
          f = (b + 8) sdiv 25;
          g = (b - f + 1) sdiv 3;
          h = (19 * a + b - d - g + 15) smod 30;
          i = c sdiv 4;
          k = c smod 4;
          l = (32 + 2 * e + 2 * i - h - k) smod 7;
          m = (a + 11 * h + 22 * l) sdiv 451;
          month = (h + l - 7 * m + 114) sdiv 31;
          day = ((h + l - 7 * m + 114) smod 31) + 1
      in ch_from_ymd C year (as_u32 month) (as_u32 day))"

definition us_market_holidays :: "chrono \<Rightarrow> int \<Rightarrow> date list option" where
  "us_market_holidays C year =
     those [map_option (observed_holiday C) (ch_from_ymd C year 1 1),
            nth_weekday C year 1 0 3,
            nth_weekday C year 2 0 3,
            map_option (\<lambda>d. d - 2) (easter_date C year),
            last_weekday C year 5 0,
            map_option (observed_holiday C) (ch_from_ymd C year 6 19),
            map_option (observed_holiday C) (ch_from_ymd C year 7 4),
            nth_weekday C year 9 0 1,
            nth_weekday C year 11 3 4,
            map_option (observed_holiday C) (ch_from_ymd C year 12 25)]"

definition is_market_holiday :: "chrono \<Rightarrow> date \<Rightarrow> bool option" where
  "is_market_holiday C day = map_option (\<lambda>hs. day \<in> set hs) (us_market_holidays C (ch_year C day))"

text \<open>\<^verbatim>\<open>&&\<close> and \<^verbatim>\<open>||\<close> do not evaluate the holiday list when the workday test decides.\<close>

definition is_trading_day :: "chrono \<Rightarrow> date \<Rightarrow> bool option" where
  "is_trading_day C day = (if is_workday C day then map_option Not (is_market_holiday C day) else Some False)"

definition is_holiday :: "chrono \<Rightarrow> date \<Rightarrow> bool option" where
  "is_holiday C day = (if \<not> is_workday C day then Some True else is_market_holiday C day)"

text \<open>\<^verbatim>\<open>and_hms_opt\<close> rejects an hour above 23 or a minute above 59, and \<^verbatim>\<open>expect\<close> panics.\<close>

definition beijing_slot_time :: "date \<Rightarrow> nat \<Rightarrow> nat \<Rightarrow> instant option" where
  "beijing_slot_time day hour minute =
     (if hour \<le> 23 \<and> minute \<le> 59
      then Some (days day + hours (int hour) + minutes (int minute) - secs beijing_offset) else None)"

definition job_existed_before_slot :: "chrono \<Rightarrow> cron_job \<Rightarrow> date \<Rightarrow> bool option" where
  "job_existed_before_slot C j day =
     (case cj_created_at j of
        None \<Rightarrow> Some True
      | Some created_at \<Rightarrow>
          (case ch_parse_rfc3339 C created_at of
             None \<Rightarrow> Some True
           | Some (created, _) \<Rightarrow>
               map_option (\<lambda>slot. created \<le> slot)
                 (beijing_slot_time day (cs_hour (cj_schedule j)) (cs_minute (cj_schedule j)))))"

section \<open>Lemmas\<close>

lemma seek_weekday_reached:
  assumes "ch_weekday C (d + step * int k) = w" "\<forall>j < k. ch_weekday C (d + step * int j) \<noteq> w"
  shows "seek_weekday C step w d = Some (d + step * int k)"
  using assms
proof (induction k arbitrary: d)
  case 0
  then show ?case by (simp add: seek_weekday.simps)
next
  case (Suc k)
  have shift: "d + step + step * int j = d + step * int (Suc j)" for j by (simp add: algebra_simps)
  have "ch_weekday C d \<noteq> w" using Suc.prems(2) by force
  moreover have "seek_weekday C step w (d + step) = Some (d + step + step * int k)"
    by (rule Suc.IH) (use Suc.prems in \<open>auto simp: shift simp del: of_nat_Suc\<close>)
  ultimately show ?case by (simp add: seek_weekday.simps [of C step w d] shift del: of_nat_Suc)
qed

context calendar
begin

lemma seek_forward:
  assumes "w < 7"
  shows "\<exists>k < 7. seek_weekday C 1 w d = Some (d + int k) \<and> ch_weekday C (d + int k) = w"
  using weekday_reaches [OF assms, of d] seek_weekday_reached [of C d 1] by (metis mult_1)

lemma weekday_pred: "ch_weekday C (d - 1) = (ch_weekday C d + 6) mod 7"
proof -
  have "ch_weekday C (d - 1 + int 7) = (ch_weekday C (d - 1) + 7) mod 7" by (rule weekday_plus)
  moreover have "d - 1 + int 7 = d + int 6" by simp
  ultimately have "ch_weekday C (d + int 6) = ch_weekday C (d - 1)"
    using weekday_less [of "d - 1"] by (simp add: add.commute)
  then show ?thesis using weekday_plus [of d 6] by simp
qed

lemma seek_backward:
  assumes "w < 7"
  shows "\<exists>k < 7. seek_weekday C (- 1) w d = Some (d - int k) \<and> ch_weekday C (d - int k) = w"
proof -
  let ?P = "\<lambda>k. ch_weekday C (d - int k) = w"
  obtain j where j: "j < 7" "ch_weekday C (d - 6 + int j) = w"
    using weekday_reaches [OF assms, of "d - 6"] by blast
  have "d - 6 + int j = d - int (6 - j)" using j(1) by simp
  then have k: "?P (6 - j)" by (metis j(2))
  let ?l = "LEAST k. ?P k"
  have l: "?P ?l" by (rule LeastI [of ?P, OF k])
  have "?l \<le> 6 - j" by (rule Least_le [of ?P, OF k])
  then have less: "?l < 7" by simp
  have "\<forall>j < ?l. \<not> ?P j" using not_less_Least by blast
  then have "seek_weekday C (- 1) w d = Some (d + - 1 * int ?l)"
    by (intro seek_weekday_reached) (use l in simp_all)
  then show ?thesis using l less by (intro exI [of _ ?l]) simp
qed

lemma nth_weekday_some:
  assumes "1 \<le> m" "m \<le> 12" "w < 7"
  shows "\<exists>a d. ch_from_ymd C y m 1 = Some a \<and> nth_weekday C y m w n = Some d \<and> ch_weekday C d = w \<and>
     a + int ((n - 1) * 7) \<le> d \<and> d < a + int ((n - 1) * 7) + 7"
proof -
  obtain a where a: "ch_from_ymd C y m 1 = Some a" using first_of_month [OF assms(1,2)] by blast
  obtain k where k: "k < 7" "seek_weekday C 1 w a = Some (a + int k)" "ch_weekday C (a + int k) = w"
    using seek_forward [OF assms(3)] by blast
  have "ch_weekday C (a + int k + int ((n - 1) * 7)) = w"
    using k(3) assms(3) by (simp only: weekday_plus) (simp add: mod_simps)
  then show ?thesis using a k by (auto simp: nth_weekday_def)
qed

lemma last_weekday_some:
  assumes "1 \<le> m" "m \<le> 12" "w < 7"
  shows "\<exists>next d. (if m = 12 then ch_from_ymd C (y + 1) 1 1 else ch_from_ymd C y (m + 1) 1) = Some next \<and>
     last_weekday C y m w = Some d \<and> ch_weekday C d = w \<and> next - 7 \<le> d \<and> d < next"
proof -
  obtain b where b: "(if m = 12 then ch_from_ymd C (y + 1) 1 1 else ch_from_ymd C y (m + 1) 1) = Some b"
    using first_of_month [of 1 "y + 1"] first_of_month [of "m + 1" y] assms by force
  obtain k where "k < 7" "seek_weekday C (- 1) w (b - 1) = Some (b - 1 - int k)"
      "ch_weekday C (b - 1 - int k) = w"
    using seek_backward [OF assms(3)] by blast
  then show ?thesis using b by (auto simp: last_weekday_def)
qed

lemma observed_holiday_workday: "is_workday C (observed_holiday C d)"
  using weekday_next [of d] weekday_pred [of d] weekday_less [of d]
  by (auto simp: is_workday_def observed_holiday_def)

end

section \<open>Easter\<close>

text \<open>The computation for a year from 0 on, with the quantities of the source as variables.\<close>

lemma easter_bounds:
  fixes a h l m :: int
  assumes "0 \<le> a" "a < 19" "0 \<le> h" "h < 30" "0 \<le> l" "l < 7" "m = (a + 11 * h + 22 * l) div 451"
  shows "114 \<le> h + l - 7 * m + 114" "h + l - 7 * m + 114 \<le> 148"
proof -
  have x: "0 \<le> a + 11 * h + 22 * l" "a + 11 * h + 22 * l < 902" using assms by linarith+
  consider "m = 0" "a + 11 * h + 22 * l < 451" | "m = 1" "451 \<le> a + 11 * h + 22 * l"
  proof (cases "a + 11 * h + 22 * l < 451")
    case True
    then have "m = 0" unfolding assms(7) using x by (intro div_pos_pos_trivial) simp_all
    then show ?thesis using True that by simp
  next
    case False
    have "m = 1" unfolding assms(7)
      by (rule int_div_pos_eq [of _ _ _ "a + 11 * h + 22 * l - 451"]) (use x False in simp_all)
    then show ?thesis using False that by simp
  qed
  then show "114 \<le> h + l - 7 * m + 114" "h + l - 7 * m + 114 \<le> 148"
    by (cases; use assms in linarith)+
qed

definition easter_offset :: "int \<Rightarrow> int" where
  "easter_offset year =
     (let a = year mod 19; b = year div 100; c = year mod 100; d = b div 4; e = b mod 4;
          g = (b - (b + 8) div 25 + 1) div 3;
          h = (19 * a + b - d - g + 15) mod 30;
          i = c div 4; k = c mod 4;
          l = (32 + 2 * e + 2 * i - h - k) mod 7;
          m = (a + 11 * h + 22 * l) div 451
      in h + l - 7 * m + 114)"

lemma jan1_century:
  assumes "0 \<le> y"
  shows "jan1 (y + 1) = 365 * y + 25 * (y div 100) + (y mod 100) div 4 - y div 100 + y div 100 div 4 - 719162"
proof -
  have q: "(c + 4 * n) div 4 = c div 4 + n" for n c :: int by simp
  have "y = y mod 100 + 4 * (25 * (y div 100))" using div_mult_mod_eq [of y 100] by linarith
  then have "y div 4 = y mod 100 div 4 + 25 * (y div 100)" using q by metis
  moreover have "y div 400 = y div 100 div 4" using zdiv_zmult2_eq [of 4 y 100] by simp
  moreover have "jan1 (y + 1) = 365 * y + y div 4 - y div 100 + y div 400 - 719162" by (simp add: jan1_def)
  ultimately show ?thesis by linarith
qed

lemma easter_offset_bounds:
  assumes "0 \<le> y"
  shows "114 \<le> easter_offset y" "easter_offset y \<le> 148"
proof -
  have mods: "0 \<le> y mod 19" "y mod 19 < 19" "0 \<le> x mod 30" "x mod 30 < 30" "0 \<le> x mod 7" "x mod 7 < 7"
    for x :: int by simp_all
  show "114 \<le> easter_offset y" "easter_offset y \<le> 148"
    unfolding easter_offset_def Let_def by (rule easter_bounds [OF mods refl])+
qed

lemma sdiv_nonneg: "0 \<le> x \<Longrightarrow> 0 < k \<Longrightarrow> x sdiv k = x div k" for x k :: int
  by (cases "x = 0") (simp_all add: signed_divide_int_def)

lemma smod_nonneg: "0 \<le> x \<Longrightarrow> 0 < k \<Longrightarrow> x smod k = x mod k" for x k :: int
  by (cases "x = 0") (simp_all add: signed_modulo_int_def sdiv_nonneg minus_mult_div_eq_mod)

lemma easter_nonneg:
  fixes b :: int
  assumes "0 \<le> b"
  shows "0 \<le> b - (b + 8) div 25 + 1" "b div 4 + (b - (b + 8) div 25 + 1) div 3 \<le> b + 1"
proof -
  have q: "0 \<le> (b + 8) div 25" using assms by (simp add: pos_imp_zdiv_nonneg_iff)
  have "25 * ((b + 8) div 25) \<le> b + 8" by (simp add: minus_mod_eq_mult_div [symmetric])
  then show "0 \<le> b - (b + 8) div 25 + 1" using assms by linarith
  have "3 * ((b - (b + 8) div 25 + 1) div 3) \<le> b - (b + 8) div 25 + 1"
    by (simp add: minus_mod_eq_mult_div [symmetric])
  moreover have "4 * (b div 4) \<le> b" by (simp add: minus_mod_eq_mult_div [symmetric])
  ultimately show "b div 4 + (b - (b + 8) div 25 + 1) div 3 \<le> b + 1" using assms q by linarith
qed

lemma easter_date_offset:
  assumes "0 \<le> y"
  shows "easter_date C y = ch_from_ymd C y (nat (easter_offset y div 31)) (nat (easter_offset y mod 31 + 1))"
proof -
  define a b c where "a = y mod 19" and "b = y div 100" and "c = y mod 100"
  have n: "0 \<le> a" "0 \<le> b" "0 \<le> c" using assms by (simp_all add: a_def b_def c_def pos_imp_zdiv_nonneg_iff)
  define g where "g = (b - (b + 8) div 25 + 1) div 3"
  have g: "0 \<le> b - (b + 8) div 25 + 1" "0 \<le> 19 * a + b - b div 4 - g + 15"
    using easter_nonneg [OF n(2)] n(1) unfolding g_def by linarith+
  define h where "h = (19 * a + b - b div 4 - g + 15) mod 30"
  define i k e where "i = c div 4" and "k = c mod 4" and "e = b mod 4"
  have h: "0 \<le> h" "h < 30" and ik: "0 \<le> i" "0 \<le> e" "0 \<le> k" "k < 4"
    using n by (simp_all add: h_def i_def k_def e_def pos_imp_zdiv_nonneg_iff)
  have l0: "0 \<le> 32 + 2 * e + 2 * i - h - k" using h ik by linarith
  define l where "l = (32 + 2 * e + 2 * i - h - k) mod 7"
  have l: "0 \<le> l" by (simp add: l_def)
  define m where "m = (a + 11 * h + 22 * l) div 451"
  have off: "easter_offset y = h + l - 7 * m + 114"
    by (simp only: easter_offset_def Let_def a_def b_def c_def g_def h_def i_def k_def e_def l_def m_def)
  have p: "114 \<le> h + l - 7 * m + 114" "h + l - 7 * m + 114 \<le> 148"
    using easter_offset_bounds [OF assms] by (simp_all only: off)
  have u: "as_u32 x = nat x" if "0 \<le> x" "x < 2 ^ 32" for x using that by (simp add: as_u32_def)
  have yq: "y smod 19 = a" "y sdiv 100 = b" "y smod 100 = c"
    unfolding a_def b_def c_def by (rule smod_nonneg sdiv_nonneg; use assms in simp)+
  have bq: "b sdiv 4 = b div 4" "b smod 4 = e" "(b + 8) sdiv 25 = (b + 8) div 25"
    unfolding e_def by (rule smod_nonneg sdiv_nonneg; use n in simp)+
  have gq: "(b - (b + 8) div 25 + 1) sdiv 3 = g" unfolding g_def by (rule sdiv_nonneg [OF g(1)]) simp
  have hq: "(19 * a + b - b div 4 - g + 15) smod 30 = h" unfolding h_def by (rule smod_nonneg [OF g(2)]) simp
  have cq: "c sdiv 4 = i" "c smod 4 = k"
    unfolding i_def k_def by (rule smod_nonneg sdiv_nonneg; use n in simp)+
  have lq: "(32 + 2 * e + 2 * i - h - k) smod 7 = l" unfolding l_def by (rule smod_nonneg [OF l0]) simp
  have mq: "(a + 11 * h + 22 * l) sdiv 451 = m"
    unfolding m_def by (rule sdiv_nonneg) (use n(1) h(1) l in simp_all)
  have "easter_date C y = ch_from_ymd C y (as_u32 ((h + l - 7 * m + 114) sdiv 31)) (as_u32 ((h + l - 7 * m + 114) smod 31 + 1))"
    unfolding easter_date_def Let_def by (simp only: yq bq gq hq cq lq mq)
  also have "\<dots> = ch_from_ymd C y (nat (easter_offset y div 31)) (nat (easter_offset y mod 31 + 1))"
    using p unfolding off by (simp add: sdiv_nonneg smod_nonneg u pos_imp_zdiv_nonneg_iff)
  finally show ?thesis .
qed

section \<open>Properties\<close>

lemma greg_march:
  "greg_from_ymd y 3 1 = Some (jan1 (y + 1) - 306)" "greg_from_ymd y 4 1 = Some (jan1 (y + 1) - 275)"
  by (auto simp: greg_from_ymd_def jan1_next month_lengths_def eval_nat_numeral)

lemma easter_day:
  assumes "0 \<le> y"
  shows "easter_date gregorian y = Some (jan1 (y + 1) - 399 + easter_offset y)"
proof -
  let ?p = "easter_offset y"
  note b = easter_offset_bounds [OF assms]
  show ?thesis
  proof (cases "?p < 124")
    case True
    then have "?p div 31 = 3" "?p mod 31 = ?p - 93" using b by presburger+
    then show ?thesis using greg.long_months [of 3 y "jan1 (y + 1) - 306" "nat (?p - 92)"] b True
      by (simp add: easter_date_offset [OF assms] greg_march [simplified])
  next
    case False
    then have "?p div 31 = 4" "?p mod 31 = ?p - 124" using b by presburger+
    then show ?thesis using greg.day_of_month [of y 4 "jan1 (y + 1) - 275" "nat (?p - 123)"] b False
      by (simp add: easter_date_offset [OF assms] greg_march [simplified])
  qed
qed

lemma easter_weekday:
  assumes "0 \<le> y"
  shows "(jan1 (y + 1) - 399 + easter_offset y + 3) mod 7 = 6"
proof -
  define b c where "b = y div 100" and "c = y mod 100"
  define d e i k where "d = b div 4" and "e = b mod 4" and "i = c div 4" and "k = c mod 4"
  define h where "h = (19 * (y mod 19) + b - d - (b - (b + 8) div 25 + 1) div 3 + 15) mod 30"
  define q where "q = (32 + 2 * e + 2 * i - h - k) div 7"
  define l where "l = (32 + 2 * e + 2 * i - h - k) mod 7"
  define m where "m = (y mod 19 + 11 * h + 22 * l) div 451"
  have y: "y = 100 * b + c" and b: "b = 4 * d + e" and c: "c = 4 * i + k"
    by (simp_all add: b_def c_def d_def e_def i_def k_def)
  have l: "l = 32 + 2 * e + 2 * i - h - k - 7 * q"
    by (simp add: l_def q_def minus_mult_div_eq_mod)
  have j: "jan1 (y + 1) = 365 * y + 25 * b + i - b + d - 719162"
    using jan1_century [OF assms] by (simp add: b_def c_def d_def i_def)
  have p: "easter_offset y = h + l - 7 * m + 114"
    by (simp only: easter_offset_def Let_def b_def c_def d_def e_def i_def k_def h_def l_def m_def)
  have eq: "jan1 (y + 1) - 399 + easter_offset y + 3 = 6 + 7 * (20871 * d + 5218 * e + 209 * i + 52 * k - q - m - 102774)"
    unfolding j p l using y b c by (simp add: algebra_simps)
  have "(6 + 7 * n) mod 7 = 6" for n :: int by simp
  then show ?thesis by (simp only: eq)
qed

text \<open>For every year from 0 on, the computed Easter is a Sunday of that year, not before 22 March and
  not after 25 April, and nothing panics on the way.\<close>

theorem easter_is_sunday:
  assumes "0 \<le> y"
  shows "\<exists>d m22 a25. easter_date gregorian y = Some d \<and> ch_weekday gregorian d = 6 \<and>
    ch_from_ymd gregorian y 3 22 = Some m22 \<and> ch_from_ymd gregorian y 4 25 = Some a25 \<and> m22 \<le> d \<and> d \<le> a25"
proof -
  have "greg_from_ymd y 3 22 = Some (jan1 (y + 1) - 285)" "greg_from_ymd y 4 25 = Some (jan1 (y + 1) - 251)"
    using greg.day_of_month [of y 3 "jan1 (y + 1) - 306" 22] greg.day_of_month [of y 4 "jan1 (y + 1) - 275" 25]
    by (simp_all add: greg_march [simplified])
  moreover have "greg_weekday (jan1 (y + 1) - 399 + easter_offset y) = 6"
    using easter_weekday [OF assms] by (simp add: greg_weekday_def)
  ultimately show ?thesis using easter_day [OF assms] easter_offset_bounds [OF assms] by simp
qed

theorem easter_is_sunday_witness:
  "\<exists>d. easter_date gregorian 2026 = Some d \<and> ch_weekday gregorian d = 6 \<and> d = 20548"
proof -
  have "easter_date gregorian 2026 = Some 20548"
    by (simp add: easter_day easter_offset_def jan1_def)
  then show ?thesis using easter_is_sunday [of 2026] by simp
qed

lemma greg_nth:
  assumes "1 \<le> m" "m \<le> 12" "w < 5"
  shows "\<exists>d. nth_weekday gregorian y m w n = Some d \<and> is_workday gregorian d"
  using greg.nth_weekday_some [of m w y n] assms by (auto simp: is_workday_def)

lemma greg_last:
  assumes "1 \<le> m" "m \<le> 12" "w < 5"
  shows "\<exists>d. last_weekday gregorian y m w = Some d \<and> is_workday gregorian d"
  using greg.last_weekday_some [of m w y] assms by (auto simp: is_workday_def)

lemma greg_observed:
  assumes "1 \<le> m" "m \<le> 12" "1 \<le> k" "k \<le> 28"
  shows "\<exists>d. map_option (observed_holiday gregorian) (ch_from_ymd gregorian y m k) = Some d \<and> is_workday gregorian d"
  using greg.first_of_month [OF assms(1,2), of y] greg.day_of_month [of y m _ k] assms(3,4)
    greg.observed_holiday_workday by fastforce

lemma greg_good_friday:
  assumes "0 \<le> y"
  shows "\<exists>d. map_option (\<lambda>d. d - 2) (easter_date gregorian y) = Some d \<and> is_workday gregorian d"
proof -
  let ?e = "jan1 (y + 1) - 399 + easter_offset y"
  have "?e + 3 = 7 * ((?e + 3) div 7) + 6"
    using easter_weekday [OF assms] mult_div_mod_eq [of 7 "?e + 3"] by linarith
  then have e: "?e - 2 + 3 = 4 + 7 * ((?e + 3) div 7)" by linarith
  have "(4 + 7 * n) mod 7 = 4" for n :: int by simp
  then have "(?e - 2 + 3) mod 7 = 4" by (simp only: e)
  then have "is_workday gregorian (?e - 2)" by (simp add: is_workday_def greg_weekday_def)
  then show ?thesis using easter_day [OF assms] by simp
qed

lemma us_market_holidays_ok:
  assumes "0 \<le> y"
  shows "\<exists>hs. us_market_holidays gregorian y = Some hs \<and> length hs = 10 \<and> (\<forall>d \<in> set hs. is_workday gregorian d)"
proof -
  obtain d1 d2 d3 d4 d5 d6 d7 d8 d9 d10 where d:
    "map_option (observed_holiday gregorian) (ch_from_ymd gregorian y 1 1) = Some d1" "is_workday gregorian d1"
    "nth_weekday gregorian y 1 0 3 = Some d2" "is_workday gregorian d2"
    "nth_weekday gregorian y 2 0 3 = Some d3" "is_workday gregorian d3"
    "map_option (\<lambda>d. d - 2) (easter_date gregorian y) = Some d4" "is_workday gregorian d4"
    "last_weekday gregorian y 5 0 = Some d5" "is_workday gregorian d5"
    "map_option (observed_holiday gregorian) (ch_from_ymd gregorian y 6 19) = Some d6" "is_workday gregorian d6"
    "map_option (observed_holiday gregorian) (ch_from_ymd gregorian y 7 4) = Some d7" "is_workday gregorian d7"
    "nth_weekday gregorian y 9 0 1 = Some d8" "is_workday gregorian d8"
    "nth_weekday gregorian y 11 3 4 = Some d9" "is_workday gregorian d9"
    "map_option (observed_holiday gregorian) (ch_from_ymd gregorian y 12 25) = Some d10" "is_workday gregorian d10"
    using greg_observed [of 1 1 y] greg_nth [of 1 0 y 3] greg_nth [of 2 0 y 3] greg_good_friday [OF assms]
      greg_last [of 5 0 y] greg_observed [of 6 19 y] greg_observed [of 7 4 y] greg_nth [of 9 0 y 1]
      greg_nth [of 11 3 y 4] greg_observed [of 12 25 y] by auto
  then have "us_market_holidays gregorian y = Some [d1, d2, d3, d4, d5, d6, d7, d8, d9, d10]"
    unfolding us_market_holidays_def by (simp only: those.simps option.case option.map)
  then show ?thesis using d
    by (intro exI [of _ "[d1, d2, d3, d4, d5, d6, d7, d8, d9, d10]"])
      auto
qed

lemma trading_day_answers:
  assumes "0 \<le> ch_year gregorian day"
  shows "is_trading_day gregorian day \<noteq> None" "is_holiday gregorian day \<noteq> None"
  using us_market_holidays_ok [OF assms] by (auto simp: is_trading_day_def is_holiday_def is_market_holiday_def)

text \<open>For every year from 0 on the list of market holidays is computed without a panic and its loops
  end; it has ten entries, each on a Monday to Friday. So on every day of such a year the trading-day
  and the holiday tests answer, they are complements, and no weekend is a trading day.\<close>

theorem market_calendar_total:
  assumes "0 \<le> y"
  shows "\<exists>hs. us_market_holidays gregorian y = Some hs \<and> length hs = 10 \<and> (\<forall>d \<in> set hs. is_workday gregorian d) \<and>
    (\<forall>day. ch_year gregorian day = y \<longrightarrow>
       is_trading_day gregorian day = Some (is_workday gregorian day \<and> day \<notin> set hs) \<and>
       is_holiday gregorian day = Some (\<not> (is_workday gregorian day \<and> day \<notin> set hs)))"
  using us_market_holidays_ok [OF assms] by (auto simp: is_trading_day_def is_holiday_def is_market_holiday_def)

theorem market_calendar_total_witness:
  "\<exists>hs. us_market_holidays gregorian 2026 = Some hs \<and> length hs = 10 \<and> (\<forall>d \<in> set hs. is_workday gregorian d)"
  using market_calendar_total [of 2026] by auto

end
