(* ===== verification/Cron_Storage.thy ===== *)
theory Cron_Storage
  imports Cron_Schedule Disk "HOL-Library.Sublist"
begin

text \<open>
  \<^verbatim>\<open>memory/src/cron_job/storage.rs\<close>, local mode: the scheduled jobs of an actor in one JSON file per
  actor, the operations that create, change and delete them, and the scan that finds the jobs due now.
  A panic of the date arithmetic is the value \<open>None\<close> of the scan. Fresh ids and the current time are
  arguments. The invariant (\<open>store_wf\<close>) is that every stored schedule is valid and that no actor but an admin
  has more than twelve enabled jobs.
\<close>

type_synonym cron_disk = "cron_job_data disk"

section \<open>Files\<close>

definition cron_path :: "actor \<Rightarrow> rstr" where
  "cron_path a = lit ''cron_jobs_'' @ storage_key a @ lit ''.json''"

definition empty_cron_data :: "actor \<Rightarrow> cron_job_data" where
  "empty_cron_data a = \<lparr>cd_actor = Some a, cd_user_id = a_user_id a, cd_jobs = [], cd_pending_updates = []\<rparr>"

text \<open>A file that cannot be read or parsed counts as an empty one.\<close>

definition load_jobs :: "cron_disk \<Rightarrow> actor \<Rightarrow> cron_job_data" where
  "load_jobs d a = unwrap_or (empty_cron_data a) (parsed (disk_get d (cron_path a)))"

definition save_jobs :: "cron_disk \<Rightarrow> actor \<Rightarrow> cron_job_data \<Rightarrow> cron_disk hone_result" where
  "save_jobs d a data =
     (case disk_write d (cron_path a) data of Inl e \<Rightarrow> Inl (Storage e) | Inr d' \<Rightarrow> Inr d')"

text \<open>\<^verbatim>\<open>let _ = self.save_jobs(..)\<close>: a failed write is dropped.\<close>

definition save_jobs_quietly :: "cron_disk \<Rightarrow> actor \<Rightarrow> cron_job_data \<Rightarrow> cron_disk" where
  "save_jobs_quietly d a data = (case save_jobs d a data of Inl _ \<Rightarrow> d | Inr d' \<Rightarrow> d')"

definition actor_from_cron_data :: "cron_job_data \<Rightarrow> actor option" where
  "actor_from_cron_data data =
     (case cd_actor data of
        Some a \<Rightarrow> Some a
      | None \<Rightarrow>
          if cd_user_id data = [] then None
          else
            (let first = (case cd_jobs data of [] \<Rightarrow> None | j # _ \<Rightarrow> Some j);
                 channel = unwrap_or (lit ''imessage'')
                   (opt_filter (\<lambda>c. c \<noteq> []) (map_option cj_channel first));
                 scope = Option.bind first cj_channel_scope
             in result_ok (actor_new channel (cd_user_id data) scope)))"

definition cron_filename_storage_key :: "rstr \<Rightarrow> rstr option" where
  "cron_filename_storage_key file_name =
     Option.bind (strip_prefix (lit ''cron_jobs_'') file_name) (strip_suffix (lit ''.json''))"

definition cron_file_matches_actor :: "rstr \<Rightarrow> actor \<Rightarrow> bool" where
  "cron_file_matches_actor file_name a =
     (case cron_filename_storage_key file_name of None \<Rightarrow> True | Some key \<Rightarrow> key = storage_key a)"

text \<open>A directory entry the scans accept: a readable cron file whose name belongs to its actor.\<close>

definition cron_entry :: "rstr \<times> cron_job_data jfile \<Rightarrow> (actor \<times> cron_job_data) option" where
  "cron_entry entry =
     (let fname = fst entry in
      if \<not> starts_with fname (lit ''cron_jobs_'') \<or> strip_suffix (lit ''.json'') fname = None then None
      else
        (case parsed (Some (snd entry)) of
           None \<Rightarrow> None
         | Some data \<Rightarrow>
             (case actor_from_cron_data data of
                None \<Rightarrow> None
              | Some a \<Rightarrow> if cron_file_matches_actor fname a then Some (a, data) else None)))"

definition list_all_jobs :: "cron_disk \<Rightarrow> (actor \<times> cron_job) list" where
  "list_all_jobs d =
     concat (map (\<lambda>(a, data). map (\<lambda>j. (a, j)) (cd_jobs data)) (List.map_filter cron_entry (d_files d)))"

definition get_job :: "cron_disk \<Rightarrow> rstr \<Rightarrow> actor option \<Rightarrow> (actor \<times> cron_job) option" where
  "get_job d job_id a =
     (case a of
        Some a \<Rightarrow> map_option (\<lambda>j. (a, j)) (find (\<lambda>j. cj_id j = job_id) (cd_jobs (load_jobs d a)))
      | None \<Rightarrow> find (\<lambda>(_, j). cj_id j = job_id) (list_all_jobs d))"

definition list_jobs :: "cron_disk \<Rightarrow> actor \<Rightarrow> cron_job list" where
  "list_jobs d a = cd_jobs (load_jobs d a)"

section \<open>Creating and deleting\<close>

record add_job_args =
  aj_name :: rstr
  aj_hour :: "nat option"
  aj_minute :: "nat option"
  aj_repeat :: rstr
  aj_task_prompt :: rstr
  aj_channel_target :: rstr
  aj_weekday :: "nat option"
  aj_date :: "rstr option"
  aj_push :: "json option"
  aj_enabled :: bool
  aj_tags :: "rstr list option"

definition enabled_count :: "cron_job list \<Rightarrow> nat" where
  "enabled_count jobs = length (filter cj_enabled jobs)"

definition schedule_conflict_message :: "nat \<times> nat \<Rightarrow> cron_schedule \<Rightarrow> rstr" where
  "schedule_conflict_message declared s =
     [116, 97, 115, 107, 95, 112, 114, 111, 109, 112, 116, 32, 22768, 26126, 30340, 35302, 21457, 26102, 38388, 32] @ fmt02 (fst declared) @ lit '':'' @ fmt02 (snd declared)
       @ [32, 19982, 32467, 26500, 21270, 32, 115, 99, 104, 101, 100, 117, 108, 101, 32] @ fmt02 (cs_hour s) @ lit '':'' @ fmt02 (cs_minute s) @ [32, 19981, 19968, 33268]"

definition new_job :: "actor \<Rightarrow> add_job_args \<Rightarrow> rstr list \<Rightarrow> rstr option \<Rightarrow> rstr \<Rightarrow> rstr \<Rightarrow> cron_job" where
  "new_job a args tags date uuid8 now =
     \<lparr>cj_id = lit ''j_'' @ uuid8, cj_name = aj_name args,
      cj_schedule = \<lparr>cs_hour = unwrap_or 0 (aj_hour args), cs_minute = unwrap_or 0 (aj_minute args),
        cs_repeat = aj_repeat args, cs_weekday = aj_weekday args, cs_date = date\<rparr>,
      cj_task_prompt = aj_task_prompt args,
      cj_push = unwrap_or (JObj [(lit ''type'', JStr (lit ''analysis''))]) (aj_push args),
      cj_enabled = aj_enabled args, cj_channel = a_channel a, cj_channel_scope = a_channel_scope a,
      cj_channel_target = trim (aj_channel_target args), cj_tags = tags, cj_created_at = Some now,
      cj_last_run_at = None, cj_bypass_quiet_hours = False\<rparr>"

text \<open>The JSON answer \<^verbatim>\<open>{"success": false, "error": e}\<close> is \<open>Inl e\<close>; success carries the job.\<close>

definition add_job ::
    "chrono \<Rightarrow> cron_disk \<Rightarrow> actor \<Rightarrow> add_job_args \<Rightarrow> bool \<Rightarrow> rstr \<Rightarrow> rstr \<Rightarrow> cron_disk \<times> (rstr + cron_job)" where
  "add_job C d a args bypass_limits uuid8 now =
     (let data = load_jobs d a in
      if trim (aj_channel_target args) = [] then
        (d, Inl [99, 104, 97, 110, 110, 101, 108, 95, 116, 97, 114, 103, 101, 116, 32, 19981, 33021, 20026, 31354, 65307, 23450, 26102, 20219, 21153, 24517, 39035, 20445, 23384, 21019, 24314, 23427, 30340, 26469, 28304, 28192, 36947, 30446, 26631])
      else if aj_enabled args \<and> \<not> bypass_limits \<and> enabled_count (cd_jobs data) \<ge> MAX_ENABLED_JOBS_PER_ACTOR then
        (d, Inl cron_enabled_limit_error)
      else
        (let tags = normalized_tags (unwrap_or [] (aj_tags args)) (aj_repeat args);
             heartbeat = is_heartbeat_repeat_or_tags (aj_repeat args) tags;
             hour = unwrap_or 0 (aj_hour args);
             minute = unwrap_or 0 (aj_minute args)
         in
         case validate_schedule (if heartbeat then None else Some hour) (if heartbeat then None else Some minute)
                (aj_repeat args) (aj_weekday args) of
           Inl e \<Rightarrow> (d, Inl e)
         | Inr _ \<Rightarrow>
             (let date = normalize_schedule_date (aj_date args) in
              case validate_schedule_date C (aj_repeat args) date of
                Inl e \<Rightarrow> (d, Inl e)
              | Inr _ \<Rightarrow>
                  (let j = new_job a args tags date uuid8 now in
                   case prompt_schedule_conflict j of
                     Some declared \<Rightarrow> (d, Inl (schedule_conflict_message declared (cj_schedule j)))
                   | None \<Rightarrow>
                       (save_jobs_quietly d a (data\<lparr>cd_jobs := cd_jobs data @ [j]\<rparr>), Inr j)))))"

definition remove_job :: "cron_disk \<Rightarrow> actor \<Rightarrow> rstr \<Rightarrow> cron_disk \<times> (rstr + rstr)" where
  "remove_job d a job_id =
     (let data = load_jobs d a; kept = filter (\<lambda>j. cj_id j \<noteq> job_id) (cd_jobs data) in
      if length kept = length (cd_jobs data) then (d, Inl ([26410, 25214, 21040, 20219, 21153, 32] @ job_id))
      else (save_jobs_quietly d a (data\<lparr>cd_jobs := kept\<rparr>), Inr job_id))"

section \<open>Changing\<close>

fun dedup_by_key :: "('a \<Rightarrow> 'b) \<Rightarrow> 'a list \<Rightarrow> 'a list" where
  "dedup_by_key f (x # y # xs) = (if f x = f y then dedup_by_key f (x # xs) else x # dedup_by_key f (y # xs))"
| "dedup_by_key f xs = xs"

definition list_unique_cron_actors :: "cron_disk \<Rightarrow> actor list" where
  "list_unique_cron_actors d = dedup_by_key storage_key (sort_key storage_key (map fst (list_all_jobs d)))"

type_synonym job_result = "(cron_disk \<times> (actor \<times> cron_job) option) hone_result"

definition mutate_job_for_actor ::
    "cron_disk \<Rightarrow> rstr \<Rightarrow> actor \<Rightarrow> bool \<Rightarrow> (cron_job \<Rightarrow> cron_job hone_result) \<Rightarrow> job_result" where
  "mutate_job_for_actor d job_id a bypass_limits mutator =
     (let data = load_jobs d a in
      case position (\<lambda>j. cj_id j = job_id) (cd_jobs data) of
        None \<Rightarrow> Inr (d, None)
      | Some index \<Rightarrow>
          (case mutator (cd_jobs data ! index) of
             Inl e \<Rightarrow> Inl e
           | Inr updated \<Rightarrow>
               (let is_enabling = \<not> cj_enabled (cd_jobs data ! index) \<and> cj_enabled updated;
                    data = data\<lparr>cd_jobs := (cd_jobs data)[index := updated]\<rparr>
                in
                if is_enabling \<and> \<not> bypass_limits \<and> enabled_count (cd_jobs data) > MAX_ENABLED_JOBS_PER_ACTOR
                then Inl (Tool cron_enabled_limit_error)
                else (case save_jobs d a data of
                        Inl e \<Rightarrow> Inl e
                      | Inr d' \<Rightarrow> Inr (d', Some (a, updated))))))"

text \<open>The search over all actors: the first that answers with a job ends it.\<close>

fun first_actor :: "(cron_disk \<Rightarrow> actor \<Rightarrow> job_result) \<Rightarrow> cron_disk \<Rightarrow> actor list \<Rightarrow> job_result" where
  "first_actor f d [] = Inr (d, None)"
| "first_actor f d (a # as) =
     (case f d a of
        Inl e \<Rightarrow> Inl e
      | Inr (d', Some r) \<Rightarrow> Inr (d', Some r)
      | Inr (d', None) \<Rightarrow> first_actor f d' as)"

definition mutate_job ::
    "cron_disk \<Rightarrow> rstr \<Rightarrow> actor option \<Rightarrow> bool \<Rightarrow> (cron_job \<Rightarrow> cron_job hone_result) \<Rightarrow> job_result" where
  "mutate_job d job_id a bypass_limits mutator =
     (case a of
        Some a \<Rightarrow> mutate_job_for_actor d job_id a bypass_limits mutator
      | None \<Rightarrow> first_actor (\<lambda>d a. mutate_job_for_actor d job_id a bypass_limits mutator) d
                  (list_unique_cron_actors d))"

definition update_schedule :: "chrono \<Rightarrow> cron_schedule \<Rightarrow> cron_job \<Rightarrow> cron_job hone_result" where
  "update_schedule C s j =
     (let s = s\<lparr>cs_date := normalize_schedule_date (cs_date s)\<rparr> in
      case validate_schedule (Some (cs_hour s)) (Some (cs_minute s)) (cs_repeat s) (cs_weekday s) of
        Inl e \<Rightarrow> Inl (Tool e)
      | Inr _ \<Rightarrow>
          (case validate_schedule_date C (cs_repeat s) (cs_date s) of
             Inl e \<Rightarrow> Inl (Tool e)
           | Inr _ \<Rightarrow> Inr (j\<lparr>cj_schedule := s, cj_tags := normalized_tags (cj_tags j) (cs_repeat s)\<rparr>)))"

definition apply_update :: "chrono \<Rightarrow> cron_job_update \<Rightarrow> cron_job \<Rightarrow> cron_job hone_result" where
  "apply_update C u j =
     (let j = (case cu_name u of Some name \<Rightarrow> j\<lparr>cj_name := name\<rparr> | None \<Rightarrow> j) in
      case (case cu_schedule u of Some s \<Rightarrow> update_schedule C s j | None \<Rightarrow> Inr j) of
        Inl e \<Rightarrow> Inl e
      | Inr j \<Rightarrow>
          (let j = (case cu_task_prompt u of Some p \<Rightarrow> j\<lparr>cj_task_prompt := p\<rparr> | None \<Rightarrow> j) in
           case prompt_schedule_conflict j of
             Some declared \<Rightarrow> Inl (Tool (schedule_conflict_message declared (cj_schedule j)))
           | None \<Rightarrow>
               (let j = (case cu_push u of Some p \<Rightarrow> j\<lparr>cj_push := p\<rparr> | None \<Rightarrow> j);
                    j = (case cu_enabled u of Some e \<Rightarrow> j\<lparr>cj_enabled := e\<rparr> | None \<Rightarrow> j);
                    j = (case cu_channel_target u of Some t \<Rightarrow> j\<lparr>cj_channel_target := t\<rparr> | None \<Rightarrow> j);
                    j = (case cu_tags u of
                           Some ts \<Rightarrow> j\<lparr>cj_tags := normalized_tags ts (cs_repeat (cj_schedule j))\<rparr> | None \<Rightarrow> j);
                    j = (case cu_bypass_quiet_hours u of Some b \<Rightarrow> j\<lparr>cj_bypass_quiet_hours := b\<rparr> | None \<Rightarrow> j)
                in Inr j)))"

definition update_job ::
    "chrono \<Rightarrow> cron_disk \<Rightarrow> rstr \<Rightarrow> actor option \<Rightarrow> cron_job_update \<Rightarrow> bool \<Rightarrow> job_result" where
  "update_job C d job_id a u bypass_limits = mutate_job d job_id a bypass_limits (apply_update C u)"

definition toggle_job :: "cron_disk \<Rightarrow> rstr \<Rightarrow> actor option \<Rightarrow> bool \<Rightarrow> job_result" where
  "toggle_job d job_id a bypass_limits =
     mutate_job d job_id a bypass_limits (\<lambda>j. Inr (j\<lparr>cj_enabled := \<not> cj_enabled j\<rparr>))"

definition remove_nth :: "nat \<Rightarrow> 'a list \<Rightarrow> 'a list" where
  "remove_nth i xs = take i xs @ drop (Suc i) xs"

definition delete_job_for_actor :: "cron_disk \<Rightarrow> rstr \<Rightarrow> actor \<Rightarrow> job_result" where
  "delete_job_for_actor d job_id a =
     (let data = load_jobs d a in
      case position (\<lambda>j. cj_id j = job_id) (cd_jobs data) of
        None \<Rightarrow> Inr (d, None)
      | Some index \<Rightarrow>
          (case save_jobs d a (data\<lparr>cd_jobs := remove_nth index (cd_jobs data)\<rparr>) of
             Inl e \<Rightarrow> Inl e
           | Inr d' \<Rightarrow> Inr (d', Some (a, cd_jobs data ! index))))"

definition delete_job :: "cron_disk \<Rightarrow> rstr \<Rightarrow> actor option \<Rightarrow> job_result" where
  "delete_job d job_id a =
     (case a of
        Some a \<Rightarrow> delete_job_for_actor d job_id a
      | None \<Rightarrow> first_actor (\<lambda>d a. delete_job_for_actor d job_id a) d (list_unique_cron_actors d))"

definition ran :: "rstr \<Rightarrow> cron_job \<Rightarrow> cron_job" where
  "ran now j =
     (let j = j\<lparr>cj_last_run_at := Some now\<rparr> in
      if cs_repeat (cj_schedule j) = lit ''once'' then j\<lparr>cj_enabled := False\<rparr> else j)"

definition mark_job_run :: "cron_disk \<Rightarrow> actor \<Rightarrow> rstr \<Rightarrow> rstr \<Rightarrow> cron_disk" where
  "mark_job_run d a job_id now =
     (let data = load_jobs d a;
          jobs = (case position (\<lambda>j. cj_id j = job_id) (cd_jobs data) of
                    Some i \<Rightarrow> (cd_jobs data)[i := ran now (cd_jobs data ! i)]
                  | None \<Rightarrow> cd_jobs data)
      in save_jobs_quietly d a (data\<lparr>cd_jobs := jobs\<rparr>))"

section \<open>Which jobs are due\<close>

definition job_channel_allowed :: "cron_job \<Rightarrow> rstr list \<Rightarrow> bool" where
  "job_channel_allowed j channels \<longleftrightarrow> channels = [] \<or> cj_channel j \<in> set channels"

definition heartbeat_due_in_current_window :: "int \<Rightarrow> bool" where
  "heartbeat_due_in_current_window current_total =
     (let slot_minute = (current_total sdiv 30) * 30 in
      slot_minute \<le> current_total \<and> current_total \<le> slot_minute + DUE_WINDOW_MINUTES)"

definition scheduled_job_due_in_current_window :: "chrono \<Rightarrow> cron_job \<Rightarrow> int \<Rightarrow> date \<Rightarrow> bool option" where
  "scheduled_job_due_in_current_window C j current_total current_day =
     (let job_total = int (cs_hour (cj_schedule j)) * 60 + int (cs_minute (cj_schedule j));
          due_in_window = (current_total - DUE_WINDOW_MINUTES \<le> job_total \<and> job_total \<le> current_total);
          due_by_catch_up =
            (if current_total > job_total then job_existed_before_slot C j current_day else Some False)
      in map_option (\<lambda>c. due_in_window \<or> c) due_by_catch_up)"

definition job_due_in_current_window :: "chrono \<Rightarrow> cron_job \<Rightarrow> int \<Rightarrow> date \<Rightarrow> bool option" where
  "job_due_in_current_window C j current_total current_day =
     (if is_heartbeat j then Some (heartbeat_due_in_current_window current_total)
      else scheduled_job_due_in_current_window C j current_total current_day)"

definition once_job_matches_current_day :: "chrono \<Rightarrow> cron_job \<Rightarrow> date \<Rightarrow> bool" where
  "once_job_matches_current_day C j current_day =
     (case cs_date (cj_schedule j) of
        None \<Rightarrow> True
      | Some date \<Rightarrow>
          (case ch_parse_date C date of
             Some scheduled_day \<Rightarrow> scheduled_day = current_day
           | None \<Rightarrow> False))"

definition repeat_matches_current_day :: "chrono \<Rightarrow> cron_job \<Rightarrow> rstr \<Rightarrow> date \<Rightarrow> nat \<Rightarrow> bool option" where
  "repeat_matches_current_day C j repeat_kind current_day current_weekday =
     (if repeat_kind = lit ''once'' \<and> \<not> once_job_matches_current_day C j current_day then Some False
      else if repeat_kind = lit ''weekly'' then Some (cs_weekday (cj_schedule j) = Some current_weekday)
      else if repeat_kind = lit ''workday'' then Some (is_workday C current_day)
      else if repeat_kind = lit ''trading_day'' then is_trading_day C current_day
      else if repeat_kind = lit ''holiday'' then is_holiday C current_day
      else Some True)"

text \<open>\<open>now\<close> is read on the Beijing clock, the last run on the clock of the offset it was written with.\<close>

definition already_ran_in_current_period :: "chrono \<Rightarrow> cron_job \<Rightarrow> rstr \<Rightarrow> instant \<Rightarrow> int \<Rightarrow> bool" where
  "already_ran_in_current_period C j repeat_kind now current_total =
     (case Option.bind (cj_last_run_at j) (ch_parse_rfc3339 C) of
        None \<Rightarrow> False
      | Some (prev, off) \<Rightarrow>
          (let last_day = local_date off prev; today = local_date beijing_offset now in
           if repeat_kind = lit ''heartbeat'' then
             (let slot_start = (current_total sdiv 30) * 30;
                  slot_hour = slot_start sdiv 60;
                  slot_minute = slot_start smod 60
              in last_day = today \<and> int (local_hour off prev) = slot_hour \<and>
                 int (local_minute off prev) sdiv 30 = slot_minute sdiv 30)
           else if repeat_kind = lit ''weekly'' then
             ch_iso_week C last_day = ch_iso_week C today \<and> ch_year C last_day = ch_year C today
           else if repeat_kind = lit ''once'' then True
           else last_day = today))"

definition due_job_dedup_key :: "cron_job \<Rightarrow> rstr" where
  "due_job_dedup_key j = cj_channel j @ lit '':'' @ cj_id j @ lit '':'' @ cj_channel_target j"

definition repair_job :: "cron_job \<Rightarrow> cron_job" where
  "repair_job j =
     (case prompt_schedule_conflict j of
        None \<Rightarrow> j
      | Some (hour, minute) \<Rightarrow> j\<lparr>cj_schedule := (cj_schedule j)\<lparr>cs_hour := hour, cs_minute := minute\<rparr>\<rparr>)"

definition repair_legacy_prompt_schedule_mismatches :: "cron_job_data \<Rightarrow> cron_job_data \<times> nat" where
  "repair_legacy_prompt_schedule_mismatches data =
     (data\<lparr>cd_jobs := map repair_job (cd_jobs data)\<rparr>,
      length (filter (\<lambda>j. prompt_schedule_conflict j \<noteq> None) (cd_jobs data)))"

text \<open>The clock a scan runs at: the instant, and the hour, minute and weekday its caller passes.\<close>

record scan_clock =
  sk_now :: instant
  sk_hour :: int
  sk_minute :: int
  sk_weekday :: nat

definition sk_total :: "scan_clock \<Rightarrow> int" where
  "sk_total k = sk_hour k * 60 + sk_minute k"

definition job_due :: "chrono \<Rightarrow> scan_clock \<Rightarrow> rstr list \<Rightarrow> cron_job \<Rightarrow> bool option" where
  "job_due C k channels j =
     (let current_day = local_date beijing_offset (sk_now k); repeat_kind = normalized_repeat (cs_repeat (cj_schedule j)) (cj_tags j) in
      if \<not> cj_enabled j then Some False
      else if \<not> job_channel_allowed j channels then Some False
      else Option.bind (job_due_in_current_window C j (sk_total k) current_day) (\<lambda>in_window.
        if \<not> in_window then Some False
        else Option.bind (repeat_matches_current_day C j repeat_kind current_day (sk_weekday k)) (\<lambda>matches.
          if \<not> matches then Some False
          else Some (\<not> already_ran_in_current_period C j repeat_kind (sk_now k) (sk_total k)))))"

type_synonym scan_state = "rstr list \<times> (actor \<times> cron_job) list"

fun scan_jobs :: "chrono \<Rightarrow> scan_clock \<Rightarrow> rstr list \<Rightarrow> actor \<Rightarrow> cron_job list \<Rightarrow> scan_state \<Rightarrow> scan_state option" where
  "scan_jobs C k channels a [] st = Some st"
| "scan_jobs C k channels a (j # js) (seen, due) =
     Option.bind (job_due C k channels j) (\<lambda>is_due.
       if \<not> is_due \<or> due_job_dedup_key j \<in> set seen then scan_jobs C k channels a js (seen, due)
       else scan_jobs C k channels a js (due_job_dedup_key j # seen, due @ [(a, j)]))"

fun scan_files ::
    "chrono \<Rightarrow> scan_clock \<Rightarrow> rstr list \<Rightarrow> (rstr \<times> cron_job_data jfile) list \<Rightarrow> cron_disk \<times> scan_state
      \<Rightarrow> (cron_disk \<times> scan_state) option" where
  "scan_files C k channels [] (d, st) = Some (d, st)"
| "scan_files C k channels (e # es) (d, st) =
     (case cron_entry e of
        None \<Rightarrow> scan_files C k channels es (d, st)
      | Some (a, data) \<Rightarrow>
          (let (data, repaired) = repair_legacy_prompt_schedule_mismatches data;
               d = (if repaired > 0 then save_jobs_quietly d a data else d)
           in Option.bind (scan_jobs C k channels a (cd_jobs data) st) (\<lambda>st.
                scan_files C k channels es (d, st))))"

definition get_due_jobs ::
    "chrono \<Rightarrow> cron_disk \<Rightarrow> scan_clock \<Rightarrow> rstr list \<Rightarrow> (cron_disk \<times> (actor \<times> cron_job) list) option" where
  "get_due_jobs C d k channels =
     map_option (\<lambda>(d, _, due). (d, due)) (scan_files C k channels (d_files d) (d, [], []))"

text \<open>The keys under which the cloud mode claims a due job.\<close>

definition cron_claim_job_key :: "actor \<Rightarrow> cron_job \<Rightarrow> rstr" where
  "cron_claim_job_key a j = storage_key a @ lit ''::'' @ cj_channel j @ lit ''::'' @ cj_id j"

definition cron_claim_due_key :: "chrono \<Rightarrow> cron_job \<Rightarrow> rstr \<Rightarrow> int \<Rightarrow> date \<Rightarrow> rstr" where
  "cron_claim_due_key C j repeat_kind current_total current_day =
     (if repeat_kind = lit ''heartbeat'' then
        lit ''heartbeat:'' @ ch_fmt_date C current_day @ lit '':'' @ int_str ((current_total sdiv 30) * 30)
      else repeat_kind @ lit '':'' @ ch_fmt_date C current_day @ lit '':'' @ fmt02 (cs_hour (cj_schedule j))
        @ lit '':'' @ fmt02 (cs_minute (cj_schedule j)))"

section \<open>The invariant\<close>

definition heartbeat_repeat :: "rstr \<Rightarrow> bool" where
  "heartbeat_repeat r = eq_ignore_ascii_case (trim r) (lit ''heartbeat'')"

definition schedule_wf :: "chrono \<Rightarrow> cron_schedule \<Rightarrow> bool" where
  "schedule_wf C s \<longleftrightarrow>
     (heartbeat_repeat (cs_repeat s) \<or>
        (cs_hour s \<le> 23 \<and> cs_minute s \<le> 59 \<and> cs_repeat s \<in> set valid_repeats \<and>
         (cs_repeat s = lit ''weekly'' \<longrightarrow> (\<exists>w \<le> 6. cs_weekday s = Some w)))) \<and>
     validate_schedule_date C (cs_repeat s) (cs_date s) = Inr ()"

text \<open>\<open>L\<close> says whether the limit holds for the jobs, and \<open>F\<close> is the set of files that are free of it.\<close>

definition jobs_wf :: "chrono \<Rightarrow> bool \<Rightarrow> cron_job list \<Rightarrow> bool" where
  "jobs_wf C L js \<longleftrightarrow>
     (\<forall>j \<in> set js. schedule_wf C (cj_schedule j)) \<and> (L \<longrightarrow> enabled_count js \<le> MAX_ENABLED_JOBS_PER_ACTOR)"

definition store_wf :: "chrono \<Rightarrow> rstr set \<Rightarrow> cron_disk \<Rightarrow> bool" where
  "store_wf C F d \<longleftrightarrow>
     (\<forall>e \<in> set (d_files d). \<forall>data. parsed (Some (snd e)) = Some data \<longrightarrow> jobs_wf C (fst e \<notin> F) (cd_jobs data))"

lemma validate_schedule_ok:
  "validate_schedule h m r w = Inr () \<longleftrightarrow>
     heartbeat_repeat r \<or>
     ((\<exists>x y. h = Some x \<and> m = Some y \<and> x \<le> 23 \<and> y \<le> 59) \<and> r \<in> set valid_repeats \<and>
      (r = lit ''weekly'' \<longrightarrow> (\<exists>v \<le> 6. w = Some v)))"
proof -
  have hv: "lit ''heartbeat'' \<in> set valid_repeats" "lit ''heartbeat'' \<noteq> lit ''weekly''"
    by (simp_all add: valid_repeats_def lit_def)
  have "heartbeat_repeat (lit ''heartbeat'')" by (simp add: heartbeat_repeat_def str_eval)
  then have "normalized_repeat r [] = (if heartbeat_repeat r then lit ''heartbeat'' else r)"
    "r = lit ''heartbeat'' \<Longrightarrow> heartbeat_repeat r"
    by (auto simp: normalized_repeat_def is_heartbeat_repeat_or_tags_def heartbeat_repeat_def)
  then show ?thesis using hv
    by (auto simp: validate_schedule_def Let_def unwrap_or_def split: option.splits if_splits)
qed

lemma jobs_wf_empty [simp]: "jobs_wf C L []"
  by (simp add: jobs_wf_def enabled_count_def)

lemma parsed_Some_iff: "parsed f = Some v \<longleftrightarrow> f = Some (Parsed v)"
  by (auto simp: parsed_def split: option.splits jfile.splits)

lemma load_wf:
  assumes "store_wf C F d"
  shows "jobs_wf C (cron_path a \<notin> F) (cd_jobs (load_jobs d a))"
proof (cases "parsed (disk_get d (cron_path a))")
  case None
  then show ?thesis by (simp add: load_jobs_def empty_cron_data_def)
next
  case (Some data)
  then have "(cron_path a, Parsed data) \<in> set (d_files d)"
    by (auto simp: parsed_Some_iff disk_get_def dest: map_of_SomeD)
  then show ?thesis using assms Some by (auto simp: load_jobs_def store_wf_def)
qed

lemma set_update_subset: "set (AList.update k v al) \<subseteq> insert (k, v) (set al)"
  by (induction al) auto

lemma save_wf:
  assumes "store_wf C F d" "jobs_wf C (cron_path a \<notin> F) (cd_jobs data)" "save_jobs d a data = Inr d'"
  shows "store_wf C F d'"
  using assms set_update_subset [of "cron_path a" "Parsed data" "d_files d"]
  by (fastforce simp: save_jobs_def disk_write_Inr store_wf_def disk_put_def split: sum.splits)

lemma save_quietly_wf:
  "store_wf C F d \<Longrightarrow> jobs_wf C (cron_path a \<notin> F) (cd_jobs data) \<Longrightarrow> store_wf C F (save_jobs_quietly d a data)"
  by (auto simp: save_jobs_quietly_def save_wf split: sum.splits)

lemma jobs_wf_filter: "jobs_wf C L js \<Longrightarrow> jobs_wf C L (filter P js)"
proof -
  have "length (filter Q (filter P js)) \<le> length (filter Q js)" for Q by (induction js) auto
  then show "jobs_wf C L js \<Longrightarrow> jobs_wf C L (filter P js)"
    unfolding jobs_wf_def enabled_count_def by (auto intro: le_trans)
qed

lemma remove_nth_enabled: "enabled_count (remove_nth i js) \<le> enabled_count js"
proof (cases "i < length js")
  case True
  then have "js = take i js @ js ! i # drop (Suc i) js" by (rule id_take_nth_drop)
  then have "enabled_count js = enabled_count (take i js @ js ! i # drop (Suc i) js)" by (rule arg_cong)
  then show ?thesis by (simp add: enabled_count_def remove_nth_def)
qed (simp add: remove_nth_def)

lemma jobs_wf_remove_nth: "jobs_wf C L js \<Longrightarrow> jobs_wf C L (remove_nth i js)"
  using remove_nth_enabled [of i js]
  by (auto simp: jobs_wf_def remove_nth_def dest: in_set_takeD in_set_dropD)

lemma jobs_wf_update:
  assumes "jobs_wf C L js" "i < length js" "schedule_wf C (cj_schedule j)"
    "L \<longrightarrow> cj_enabled j \<longrightarrow> cj_enabled (js ! i) \<or> enabled_count (js[i := j]) \<le> MAX_ENABLED_JOBS_PER_ACTOR"
  shows "jobs_wf C L (js[i := j])"
proof -
  have "L \<longrightarrow> enabled_count (js[i := j]) \<le> MAX_ENABLED_JOBS_PER_ACTOR"
    using assms length_filter_update [of i js cj_enabled j]
    by (auto simp: jobs_wf_def enabled_count_def split: if_splits)
  then show ?thesis using assms(1,3) by (auto simp: jobs_wf_def dest: set_update_subset_insert [THEN subsetD])
qed

subsection \<open>Every operation keeps it\<close>

lemma heartbeat_cases: "is_heartbeat_repeat_or_tags r ts \<longleftrightarrow>
    heartbeat_repeat r \<or> list_ex (\<lambda>t. eq_ignore_ascii_case t (lit ''heartbeat'')) ts"
  by (simp add: is_heartbeat_repeat_or_tags_def heartbeat_repeat_def)

lemma add_job_cases:
  assumes "add_job C d a args bypass u now = (d', res)"
  shows "d' = d \<or> (\<exists>j. d' = save_jobs_quietly d a ((load_jobs d a)\<lparr>cd_jobs := cd_jobs (load_jobs d a) @ [j]\<rparr>) \<and>
     schedule_wf C (cj_schedule j) \<and>
     (cj_enabled j \<longrightarrow> bypass \<or> enabled_count (cd_jobs (load_jobs d a)) < MAX_ENABLED_JOBS_PER_ACTOR))"
  using assms
  by (auto simp: add_job_def Let_def new_job_def schedule_wf_def validate_schedule_ok not_le
      split: if_splits sum.splits option.splits)

lemma add_job_wf:
  assumes "store_wf C F d" "add_job C d a args bypass u now = (d', res)" "bypass \<longrightarrow> cron_path a \<in> F"
  shows "store_wf C F d'"
  using add_job_cases [OF assms(2)] assms(1,3) load_wf [OF assms(1), of a]
  by (auto simp: jobs_wf_def enabled_count_def intro!: save_quietly_wf)

lemma remove_job_wf: "store_wf C F d \<Longrightarrow> remove_job d a i = (d', res) \<Longrightarrow> store_wf C F d'"
  by (auto simp: remove_job_def Let_def load_wf intro!: save_quietly_wf jobs_wf_filter split: if_splits)

lemma update_schedule_wf:
  "update_schedule C s j = Inr j' \<Longrightarrow> schedule_wf C (cj_schedule j')"
  by (auto simp: update_schedule_def Let_def schedule_wf_def validate_schedule_ok split: sum.splits)

lemma apply_update_wf:
  assumes "apply_update C u j = Inr j'" "schedule_wf C (cj_schedule j)"
  shows "schedule_wf C (cj_schedule j')"
proof -
  let ?n = "case cu_name u of Some name \<Rightarrow> j\<lparr>cj_name := name\<rparr> | None \<Rightarrow> j"
  obtain j1 where j1: "(case cu_schedule u of Some s \<Rightarrow> update_schedule C s ?n | None \<Rightarrow> Inr ?n) = Inr j1"
    using assms(1) by (auto simp: apply_update_def Let_def split: sum.splits)
  then have "schedule_wf C (cj_schedule j1)"
    using assms(2) update_schedule_wf by (auto split: option.splits)
  moreover have "cj_schedule j' = cj_schedule j1"
    using assms(1) j1 by (auto simp: apply_update_def Let_def split: option.splits)
  ultimately show ?thesis by simp
qed

lemma mutate_for_actor_wf:
  assumes "store_wf C F d" "mutate_job_for_actor d i a bypass f = Inr (d', r)" "bypass \<longrightarrow> cron_path a \<in> F"
    "\<And>j j'. schedule_wf C (cj_schedule j) \<Longrightarrow> f j = Inr j' \<Longrightarrow> schedule_wf C (cj_schedule j')"
  shows "store_wf C F d'"
proof (cases "position (\<lambda>j. cj_id j = i) (cd_jobs (load_jobs d a))")
  case None
  then show ?thesis using assms(1,2) by (simp add: mutate_job_for_actor_def)
next
  case (Some n)
  let ?js = "cd_jobs (load_jobs d a)"
  have n: "n < length ?js" using position_Some [OF Some] by simp
  obtain u where u: "f (?js ! n) = Inr u"
    and lim: "\<not> (\<not> cj_enabled (?js ! n) \<and> cj_enabled u \<and> \<not> bypass \<and> enabled_count (?js[n := u]) > MAX_ENABLED_JOBS_PER_ACTOR)"
    and s: "save_jobs d a ((load_jobs d a)\<lparr>cd_jobs := ?js[n := u]\<rparr>) = Inr d'"
    using assms(2) Some by (auto simp: mutate_job_for_actor_def Let_def split: sum.splits if_splits)
  have wf: "jobs_wf C (cron_path a \<notin> F) ?js" by (rule load_wf [OF assms(1)])
  have "schedule_wf C (cj_schedule u)" using assms(4) [OF _ u] wf n by (auto simp: jobs_wf_def)
  then have "jobs_wf C (cron_path a \<notin> F) (?js[n := u])" by (rule jobs_wf_update [OF wf n]) (use lim assms(3) in auto)
  then show ?thesis using save_wf [OF assms(1) _ s] by simp
qed

lemma first_actor_inv:
  assumes "first_actor f d as = Inr (d', r)" "P d" "\<And>d a d' r. P d \<Longrightarrow> f d a = Inr (d', r) \<Longrightarrow> P d'"
  shows "P d'"
  using assms(1,2)
proof (induction as arbitrary: d)
  case (Cons a as)
  then show ?case using assms(3) by (auto split: sum.splits option.splits)
qed simp

lemma mutate_job_wf:
  assumes "store_wf C F d" "mutate_job d i a bypass f = Inr (d', r)" "bypass \<longrightarrow> (\<exists>b. a = Some b \<and> cron_path b \<in> F)"
    "\<And>j j'. schedule_wf C (cj_schedule j) \<Longrightarrow> f j = Inr j' \<Longrightarrow> schedule_wf C (cj_schedule j')"
  shows "store_wf C F d'"
proof (cases a)
  case None
  then have none: "\<not> bypass" "first_actor (\<lambda>d a. mutate_job_for_actor d i a bypass f) d (list_unique_cron_actors d) = Inr (d', r)"
    using assms(2,3) by (simp_all add: mutate_job_def)
  show ?thesis
    by (rule first_actor_inv [where P = "store_wf C F", OF none(2) assms(1)], erule (1) mutate_for_actor_wf)
      (use none(1) assms(4) in auto)
next
  case (Some b)
  then show ?thesis using mutate_for_actor_wf [OF assms(1) _ _ assms(4), of i b bypass f d' r] assms(2,3) by (simp add: mutate_job_def)
qed

lemma delete_for_actor_wf:
  "store_wf C F d \<Longrightarrow> delete_job_for_actor d i a = Inr (d', r) \<Longrightarrow> store_wf C F d'"
  using save_wf [of C F d a "(load_jobs d a)\<lparr>cd_jobs := remove_nth n (cd_jobs (load_jobs d a))\<rparr>" d' for n]
  by (auto simp: delete_job_for_actor_def Let_def load_wf jobs_wf_remove_nth split: option.splits sum.splits)

lemma delete_job_wf:
  assumes "store_wf C F d" "delete_job d i a = Inr (d', r)"
  shows "store_wf C F d'"
proof (cases a)
  case None
  then have "first_actor (\<lambda>d a. delete_job_for_actor d i a) d (list_unique_cron_actors d) = Inr (d', r)"
    using assms(2) by (simp add: delete_job_def)
  then show ?thesis
    by (rule first_actor_inv [where P = "store_wf C F", OF _ assms(1)]) (erule (1) delete_for_actor_wf)
next
  case (Some b)
  then show ?thesis using delete_for_actor_wf [OF assms(1)] assms(2) by (simp add: delete_job_def)
qed

lemma ran_schedule [simp]: "cj_schedule (ran now j) = cj_schedule j"
  by (simp add: ran_def Let_def)

lemma ran_enabled: "cj_enabled (ran now j) \<Longrightarrow> cj_enabled j"
  by (simp add: ran_def Let_def split: if_splits)

lemma mark_job_run_wf: "store_wf C F d \<Longrightarrow> store_wf C F (mark_job_run d a i now)"
proof -
  assume d: "store_wf C F d"
  let ?js = "cd_jobs (load_jobs d a)"
  have wf: "jobs_wf C (cron_path a \<notin> F) ?js" by (rule load_wf [OF d])
  have "jobs_wf C (cron_path a \<notin> F) (?js[n := ran now (?js ! n)])" if "position (\<lambda>j. cj_id j = i) ?js = Some n" for n
  proof -
    have n: "n < length ?js" using position_Some [OF that] by simp
    show ?thesis by (rule jobs_wf_update [OF wf n]) (use wf n ran_enabled in \<open>auto simp: jobs_wf_def\<close>)
  qed
  then show ?thesis using wf
    by (auto simp: mark_job_run_def Let_def intro!: save_quietly_wf [OF d] split: option.splits)
qed

subsection \<open>The scan\<close>

lemma extract_hh_mm_range: "extract_hh_mm s = Some (h, m) \<Longrightarrow> h \<le> 23 \<and> m \<le> 59"
  by (induction s rule: extract_hh_mm.induct) (auto simp: Let_def split: if_splits)

lemma find_map_Some: "find_map f xs = Some y \<Longrightarrow> \<exists>x \<in> set xs. f x = Some y"
  by (induction xs) (auto split: option.splits)

lemma prompt_conflict_range:
  assumes "prompt_schedule_conflict j = Some (h, m)"
  shows "h \<le> 23 \<and> m \<le> 59 \<and> \<not> heartbeat_repeat (cs_repeat (cj_schedule j))"
  using assms
  by (auto simp: prompt_schedule_conflict_def is_heartbeat_def heartbeat_cases prompt_declared_schedule_time_def
      dest!: find_map_Some extract_hh_mm_range split: if_splits option.splits)

lemma repair_schedule_wf:
  assumes "schedule_wf C (cj_schedule j)"
  shows "schedule_wf C (cj_schedule (repair_job j))"
  using assms prompt_conflict_range [of j]
  by (auto simp: repair_job_def schedule_wf_def split: option.splits)

lemma repair_enabled [simp]: "cj_enabled (repair_job j) = cj_enabled j"
  by (simp add: repair_job_def split: option.splits)

lemma repair_jobs_wf: "jobs_wf C L js \<Longrightarrow> jobs_wf C L (map repair_job js)"
  by (auto simp: jobs_wf_def enabled_count_def filter_map comp_def repair_schedule_wf)

lemma cron_entry_parsed: "cron_entry e = Some (a, data) \<Longrightarrow> parsed (Some (snd e)) = Some data"
  by (auto simp: cron_entry_def Let_def split: if_splits option.splits)

lemma no_overlap:
  assumes "p @ t = y @ q" "q \<noteq> []" "hd q \<notin> set p"
  shows "\<exists>k. t = k @ q"
proof -
  obtain u where u: "p = y @ u \<and> u @ t = q \<or> p @ u = y \<and> t = u @ q"
    using assms(1) append_eq_append_conv2 [of p t y q] by blast
  have "u = []" if "p = y @ u" "u @ t = q" using that assms(3) by (cases u) auto
  then show ?thesis using u by auto
qed

lemma cron_name_parts:
  assumes "starts_with f (lit ''cron_jobs_'')" "strip_suffix (lit ''.json'') f = Some y"
  shows "\<exists>k. f = lit ''cron_jobs_'' @ k @ lit ''.json''"
proof -
  obtain t where t: "f = lit ''cron_jobs_'' @ t" using assms(1) by (auto simp: starts_with_iff)
  have "lit ''cron_jobs_'' @ t = y @ lit ''.json''" using assms(2) t by (simp only: strip_suffix_Some)
  moreover have "lit ''.json'' \<noteq> []" "hd (lit ''.json'') \<notin> set (lit ''cron_jobs_'')" by (simp_all add: str_eval)
  ultimately show ?thesis using no_overlap t by blast
qed

lemma cron_entry_own: "cron_entry e = Some (a, data) \<Longrightarrow> fst e = cron_path a"
proof -
  assume e: "cron_entry e = Some (a, data)"
  then obtain y where "starts_with (fst e) (lit ''cron_jobs_'')" "strip_suffix (lit ''.json'') (fst e) = Some y"
    and m: "cron_file_matches_actor (fst e) a"
    by (auto simp: cron_entry_def Let_def split: if_splits option.splits)
  then obtain k where k: "fst e = lit ''cron_jobs_'' @ k @ lit ''.json''" using cron_name_parts by blast
  moreover have "strip_suffix (lit ''.json'') (k @ lit ''.json'') = Some k" by (simp add: strip_suffix_Some)
  ultimately show "fst e = cron_path a"
    using m by (simp add: cron_file_matches_actor_def cron_filename_storage_key_def cron_path_def)
qed

lemma scan_files_wf:
  assumes "scan_files C k ch es (d, st) = Some (d', st')" "store_wf C F d"
    "\<forall>e \<in> set es. \<forall>data. parsed (Some (snd e)) = Some data \<longrightarrow> jobs_wf C (fst e \<notin> F) (cd_jobs data)"
  shows "store_wf C F d'"
  using assms
proof (induction es arbitrary: d st)
  case (Cons e es)
  show ?case
  proof (cases "cron_entry e")
    case None
    then show ?thesis using Cons by simp
  next
    case (Some x)
    then obtain a data where x: "cron_entry e = Some (a, data)" by (cases x) auto
    have "jobs_wf C (cron_path a \<notin> F) (map repair_job (cd_jobs data))"
      using cron_entry_parsed [OF x] cron_entry_own [OF x] Cons.prems(3) by (intro repair_jobs_wf) simp
    then have s: "store_wf C F (save_jobs_quietly d a (data\<lparr>cd_jobs := map repair_job (cd_jobs data)\<rparr>))"
      using save_quietly_wf [OF Cons.prems(2)] by simp
    show ?thesis using Cons.prems Cons.IH [OF _ s] Cons.IH [OF _ Cons.prems(2)] x
      by (auto simp: repair_legacy_prompt_schedule_mismatches_def Let_def split: bind_splits if_splits)
  qed
qed simp

lemma get_due_jobs_wf:
  assumes "store_wf C F d" "get_due_jobs C d k ch = Some (d', due)"
  shows "store_wf C F d'"
proof -
  obtain st' where "scan_files C k ch (d_files d) (d, [], []) = Some (d', st')" using assms(2) by (auto simp: get_due_jobs_def)
  then show ?thesis by (rule scan_files_wf [OF _ assms(1)]) (use assms(1) in \<open>simp add: store_wf_def\<close>)
qed

text \<open>The guards of a job with a valid schedule never panic.\<close>

lemma job_due_answers:
  assumes "schedule_wf gregorian (cj_schedule j)" "0 \<le> ch_year gregorian (local_date beijing_offset (sk_now k))"
  shows "\<exists>b. job_due gregorian k ch j = Some b"
proof -
  let ?day = "local_date beijing_offset (sk_now k)"
  have "\<exists>b. job_due_in_current_window gregorian j (sk_total k) ?day = Some b"
    using assms(1)
    by (auto simp: job_due_in_current_window_def scheduled_job_due_in_current_window_def is_heartbeat_def
        heartbeat_cases schedule_wf_def job_existed_before_slot_def beijing_slot_time_def Let_def split: option.splits)
  then obtain b where b: "job_due_in_current_window gregorian j (sk_total k) ?day = Some b" by blast
  let ?r = "normalized_repeat (cs_repeat (cj_schedule j)) (cj_tags j)"
  have "repeat_matches_current_day gregorian j ?r ?day (sk_weekday k) \<noteq> None"
    using trading_day_answers [OF assms(2)]
    by (auto simp only: repeat_matches_current_day_def option.distinct split: if_splits)
  then obtain m where "repeat_matches_current_day gregorian j ?r ?day (sk_weekday k) = Some m" by blast
  then show ?thesis using b by (simp add: job_due_def Let_def ex_bool_eq)
qed

lemma scan_jobs_answers:
  assumes "\<forall>j \<in> set js. \<exists>b. job_due C k ch j = Some b"
  shows "\<exists>st'. scan_jobs C k ch a js st = Some st'"
  using assms
proof (induction js arbitrary: st)
  case (Cons j js)
  obtain seen due where st: "st = (seen, due)" by (cases st)
  show ?case using Cons by (auto simp: st)
qed simp

text \<open>The jobs a scan looks at, and what it makes of them.\<close>

definition scanned_jobs :: "(rstr \<times> cron_job_data jfile) list \<Rightarrow> (actor \<times> cron_job) list" where
  "scanned_jobs es =
     concat (map (\<lambda>(a, data). map (\<lambda>j. (a, repair_job j)) (cd_jobs data)) (List.map_filter cron_entry es))"

lemma scanned_jobs_simps [simp]:
  "scanned_jobs [] = []"
  "scanned_jobs (e # es) = (case cron_entry e of None \<Rightarrow> [] | Some (a, data) \<Rightarrow> map (\<lambda>j. (a, repair_job j)) (cd_jobs data))
     @ scanned_jobs es"
  by (auto simp: scanned_jobs_def List.map_filter_simps split: option.splits)

text \<open>One pass: the accepted jobs are due, keep their order, have new and distinct keys, and every due job's
  key is taken in the end.\<close>

definition scan_ok :: "chrono \<Rightarrow> scan_clock \<Rightarrow> rstr list \<Rightarrow> (actor \<times> cron_job) list \<Rightarrow> scan_state \<Rightarrow> scan_state \<Rightarrow> bool" where
  "scan_ok C k ch jobs st st' \<longleftrightarrow>
     (\<exists>new. snd st' = snd st @ new \<and> subseq new jobs \<and>
        (\<forall>x \<in> set new. job_due C k ch (snd x) = Some True) \<and>
        distinct (map (due_job_dedup_key \<circ> snd) new) \<and>
        (\<forall>x \<in> set new. due_job_dedup_key (snd x) \<notin> set (fst st)) \<and>
        set (fst st') = set (fst st) \<union> (due_job_dedup_key \<circ> snd) ` set new \<and>
        (\<forall>x \<in> set jobs. job_due C k ch (snd x) = Some True \<longrightarrow> due_job_dedup_key (snd x) \<in> set (fst st')))"

lemma scan_ok_nil: "scan_ok C k ch [] st st"
  by (simp add: scan_ok_def)

lemma scan_ok_append:
  assumes "scan_ok C k ch xs st st1" "scan_ok C k ch ys st1 st2"
  shows "scan_ok C k ch (xs @ ys) st st2"
proof -
  obtain n1 where n1: "snd st1 = snd st @ n1" "subseq n1 xs"
    "\<forall>x \<in> set n1. job_due C k ch (snd x) = Some True" "distinct (map (due_job_dedup_key \<circ> snd) n1)"
    "\<forall>x \<in> set n1. due_job_dedup_key (snd x) \<notin> set (fst st)"
    "set (fst st1) = set (fst st) \<union> (due_job_dedup_key \<circ> snd) ` set n1"
    "\<forall>x \<in> set xs. job_due C k ch (snd x) = Some True \<longrightarrow> due_job_dedup_key (snd x) \<in> set (fst st1)"
    using assms(1) by (auto simp: scan_ok_def)
  obtain n2 where n2: "snd st2 = snd st1 @ n2" "subseq n2 ys"
    "\<forall>x \<in> set n2. job_due C k ch (snd x) = Some True" "distinct (map (due_job_dedup_key \<circ> snd) n2)"
    "\<forall>x \<in> set n2. due_job_dedup_key (snd x) \<notin> set (fst st1)"
    "set (fst st2) = set (fst st1) \<union> (due_job_dedup_key \<circ> snd) ` set n2"
    "\<forall>x \<in> set ys. job_due C k ch (snd x) = Some True \<longrightarrow> due_job_dedup_key (snd x) \<in> set (fst st2)"
    using assms(2) by (auto simp: scan_ok_def)
  let ?key = "due_job_dedup_key \<circ> snd"
  have "?key x \<noteq> ?key y" if "x \<in> set n1" "y \<in> set n2" for x y
  proof -
    have "?key x \<in> set (fst st1)" unfolding n1(6) by (intro UnI2 imageI) (rule that(1))
    moreover have "?key y \<notin> set (fst st1)" using n2(5) that(2) by simp
    ultimately show ?thesis by metis
  qed
  then have "?key ` set n1 \<inter> ?key ` set n2 = {}" by blast
  then have d: "distinct (map ?key (n1 @ n2))" using n1(4) n2(4) by (simp del: o_apply)
  have e: "snd st2 = snd st @ n1 @ n2" "subseq (n1 @ n2) (xs @ ys)"
    using n1(1,2) n2(1,2) by (simp_all add: list_emb_append_mono)
  have f: "set (fst st2) = set (fst st) \<union> ?key ` set (n1 @ n2)" using n1(6) n2(6) by auto
  have g: "\<forall>x \<in> set (n1 @ n2). due_job_dedup_key (snd x) \<notin> set (fst st)" using n1(5,6) n2(5) by auto
  have h: "\<forall>x \<in> set (xs @ ys). job_due C k ch (snd x) = Some True \<longrightarrow> due_job_dedup_key (snd x) \<in> set (fst st2)"
    using n1(7) n2(6,7) by auto
  have "\<forall>x \<in> set (n1 @ n2). job_due C k ch (snd x) = Some True" using n1(3) n2(3) by auto
  with d e f g h show ?thesis unfolding scan_ok_def by blast
qed

lemma scan_jobs_ok:
  "scan_jobs C k ch a js st = Some st' \<Longrightarrow> scan_ok C k ch (map (\<lambda>j. (a, j)) js) st st'"
proof (induction js arbitrary: st)
  case Nil
  then show ?case by (simp add: scan_ok_nil)
next
  case (Cons j js)
  obtain seen due where st: "st = (seen, due)" by (cases st)
  obtain b where b: "job_due C k ch j = Some b" using Cons.prems by (auto simp: st split: bind_splits)
  let ?st1 = "if \<not> b \<or> due_job_dedup_key j \<in> set seen then (seen, due)
    else (due_job_dedup_key j # seen, due @ [(a, j)])"
  have one: "scan_ok C k ch [(a, j)] st ?st1"
    unfolding scan_ok_def st
    by (rule exI [of _ "if \<not> b \<or> due_job_dedup_key j \<in> set seen then [] else [(a, j)]"]) (use b in auto)
  have "scan_ok C k ch (map (\<lambda>j. (a, j)) js) ?st1 st'"
    by (rule Cons.IH) (use Cons.prems b in \<open>auto simp: st split: if_splits\<close>)
  from scan_ok_append [OF one this] show ?case by simp
qed

lemma scan_files_ok:
  "scan_files C k ch es (d, st) = Some (d', st') \<Longrightarrow> scan_ok C k ch (scanned_jobs es) st st'"
proof (induction es arbitrary: d st)
  case Nil
  then show ?case by (simp add: scan_ok_nil)
next
  case (Cons e es)
  show ?case
  proof (cases "cron_entry e")
    case None
    then show ?thesis using Cons by simp
  next
    case (Some x)
    then obtain a data where x: "cron_entry e = Some (a, data)" by (cases x) auto
    obtain st1 d1 where 1: "scan_jobs C k ch a (map repair_job (cd_jobs data)) st = Some st1"
      and 2: "scan_files C k ch es (d1, st1) = Some (d', st')"
      using Cons.prems x
      by (auto simp: repair_legacy_prompt_schedule_mismatches_def Let_def split: bind_splits if_splits)
    from scan_ok_append [OF scan_jobs_ok [OF 1] Cons.IH [OF 2]] x show ?thesis by (simp add: comp_def)
  qed
qed

section \<open>Properties\<close>

text \<open>A store for the witnesses: one daily job at 9:00, scanned on Monday 2026-01-05 at 9:10 in Beijing.\<close>

definition cron_actor :: actor where
  "cron_actor = \<lparr>a_channel = lit ''feishu'', a_user_id = lit ''u1'', a_channel_scope = None\<rparr>"

definition nine_daily :: cron_job where
  "nine_daily = \<lparr>cj_id = lit ''j_1'', cj_name = [],
     cj_schedule = \<lparr>cs_hour = 9, cs_minute = 0, cs_repeat = lit ''daily'', cs_weekday = None, cs_date = None\<rparr>,
     cj_task_prompt = [], cj_push = JNull, cj_enabled = True, cj_channel = lit ''feishu'', cj_channel_scope = None,
     cj_channel_target = lit ''t'', cj_tags = [], cj_created_at = None, cj_last_run_at = None,
     cj_bypass_quiet_hours = False\<rparr>"

definition cron_store :: cron_disk where
  "cron_store = \<lparr>d_files = [(cron_path cron_actor, Parsed ((empty_cron_data cron_actor)\<lparr>cd_jobs := [nine_daily]\<rparr>))],
     d_write_error = None\<rparr>"

definition ten_past_nine :: scan_clock where
  "ten_past_nine = \<lparr>sk_now = secs 1767575400, sk_hour = 9, sk_minute = 10, sk_weekday = 0\<rparr>"

lemma demo_day: "local_date beijing_offset (sk_now ten_past_nine) = 20458"
  by (simp add: ten_past_nine_def local_date_def local_secs_def beijing_offset_def)

lemma demo_year: "0 \<le> ch_year gregorian (local_date beijing_offset (sk_now ten_past_nine))"
  by (simp add: demo_day greg_year_def year_down.simps jan1_def)

lemma demo_not_heartbeat: "\<not> is_heartbeat nine_daily"
  by (simp add: is_heartbeat_def is_heartbeat_repeat_or_tags_def nine_daily_def str_eval)

lemma demo_store_wf: "store_wf gregorian F cron_store"
  by (simp add: store_wf_def cron_store_def jobs_wf_def enabled_count_def schedule_wf_def nine_daily_def
      valid_repeats_def validate_schedule_date_def opt_filter_def MAX_ENABLED_JOBS_PER_ACTOR_def lit_def)

lemma strip_suffix_append [simp]: "strip_suffix p (s @ p) = Some s"
  by (simp add: strip_suffix_Some)

lemma cron_entry_path:
  assumes "cd_actor data = Some a"
  shows "cron_entry (cron_path a, Parsed data) = Some (a, data)"
proof -
  have "starts_with (cron_path a) (lit ''cron_jobs_'')" by (simp add: cron_path_def)
  moreover have "strip_suffix (lit ''.json'') (cron_path a) = Some (lit ''cron_jobs_'' @ storage_key a)"
    unfolding cron_path_def append_assoc [symmetric] by (rule strip_suffix_append)
  moreover have "cron_file_matches_actor (cron_path a) a"
    by (simp add: cron_file_matches_actor_def cron_filename_storage_key_def cron_path_def)
  ultimately show ?thesis using assms by (simp add: cron_entry_def actor_from_cron_data_def Let_def)
qed

lemma demo_repair: "repair_job nine_daily = nine_daily"
proof -
  have "prompt_declared_schedule_time [] = None" by (simp add: prompt_declared_schedule_time_def str_lines_def)
  then have "prompt_schedule_conflict nine_daily = None"
    using demo_not_heartbeat by (simp add: prompt_schedule_conflict_def) (simp add: nine_daily_def)
  then show ?thesis by (simp add: repair_job_def)
qed

lemma demo_scanned: "scanned_jobs (d_files cron_store) = [(cron_actor, nine_daily)]"
  by (simp add: cron_store_def cron_entry_path empty_cron_data_def demo_repair)

lemma demo_cron_load: "cd_jobs (load_jobs cron_store cron_actor) = [nine_daily]"
  by (simp add: load_jobs_def cron_store_def disk_get_def)

text \<open>The operations a client may perform: the routes and the tool switch the limit off for the actors that are admins, and
  name the actor when they do.\<close>

inductive cron_op :: "chrono \<Rightarrow> (actor \<Rightarrow> bool) \<Rightarrow> cron_disk \<Rightarrow> cron_disk \<Rightarrow> bool" for C admin where
  add: "add_job C d a args (admin a) u now = (d', res) \<Longrightarrow> cron_op C admin d d'"
| remove: "remove_job d a i = (d', res') \<Longrightarrow> cron_op C admin d d'"
| update: "update_job C d i (Some a) upd (admin a) = Inr (d', r) \<Longrightarrow> cron_op C admin d d'"
| toggle: "toggle_job d i (Some a) (admin a) = Inr (d', r) \<Longrightarrow> cron_op C admin d d'"
| update_any: "update_job C d i None upd False = Inr (d', r) \<Longrightarrow> cron_op C admin d d'"
| toggle_any: "toggle_job d i None False = Inr (d', r) \<Longrightarrow> cron_op C admin d d'"
| delete: "delete_job d i ao = Inr (d', r) \<Longrightarrow> cron_op C admin d d'"
| mark: "cron_op C admin d (mark_job_run d a i now)"
| scan: "get_due_jobs C d k channels = Some (d', due) \<Longrightarrow> cron_op C admin d d'"

definition admin_paths :: "(actor \<Rightarrow> bool) \<Rightarrow> rstr set" where
  "admin_paths admin = cron_path ` {a. admin a}"

lemma cron_op_wf: "cron_op C admin d d' \<Longrightarrow> store_wf C (admin_paths admin) d \<Longrightarrow> store_wf C (admin_paths admin) d'"
proof (induction rule: cron_op.induct)
  case (update d i a upd d' r)
  then show ?case unfolding update_job_def
    by (rule_tac mutate_job_wf [where a = "Some a" and bypass = "admin a"]) (auto simp: admin_paths_def intro: apply_update_wf)
next
  case (toggle d i a d' r)
  then show ?case unfolding toggle_job_def
    by (rule_tac mutate_job_wf [where a = "Some a" and bypass = "admin a"]) (auto simp: admin_paths_def)
next
  case (update_any d i upd d' r)
  then show ?case unfolding update_job_def
    by (rule_tac mutate_job_wf [where a = None and bypass = False]) (auto intro: apply_update_wf)
next
  case (toggle_any d i d' r)
  then show ?case unfolding toggle_job_def by (rule_tac mutate_job_wf [where a = None and bypass = False]) auto
next
  case (add d a args u now d' res)
  then show ?case by (rule_tac add_job_wf [where a = a and bypass = "admin a"]) (auto simp: admin_paths_def)
qed (auto intro: remove_job_wf delete_job_wf mark_job_run_wf get_due_jobs_wf)

text \<open>C32: whatever the clients add, remove, update, toggle, delete, mark and scan, every stored schedule
  stays valid (hour, minute, repeat kind, weekday, date), and no file other than those of admins, for whom the limit is
  switched off, ever has more than twelve enabled jobs.\<close>

theorem cron_store_invariant:
  assumes "(cron_op C admin)\<^sup>*\<^sup>* d d'" "store_wf C (admin_paths admin) d"
  shows "store_wf C (admin_paths admin) d'"
  using assms by (induction rule: rtranclp_induct) (auto intro: cron_op_wf)

theorem cron_store_invariant_witness:
  "store_wf gregorian (admin_paths (\<lambda>_. False)) (mark_job_run cron_store cron_actor (lit ''j_1'') (ch_to_rfc3339 gregorian 0 beijing_offset))"
proof -
  have "(cron_op gregorian (\<lambda>_. False))\<^sup>*\<^sup>* cron_store
      (mark_job_run cron_store cron_actor (lit ''j_1'') (ch_to_rfc3339 gregorian 0 beijing_offset))"
    by (intro r_into_rtranclp cron_op.mark)
  from cron_store_invariant [OF this demo_store_wf] show ?thesis .
qed

lemma due_scan_answers:
  assumes "store_wf gregorian F d" "0 \<le> ch_year gregorian (local_date beijing_offset (sk_now k))"
  shows "\<exists>r. get_due_jobs gregorian d k channels = Some r"
proof -
  have "\<exists>r. scan_files gregorian k channels es (d', st) = Some r"
    if "\<forall>e \<in> set es. \<forall>data. parsed (Some (snd e)) = Some data \<longrightarrow> jobs_wf gregorian (fst e \<notin> F) (cd_jobs data)" for es d' st
    using that
  proof (induction es arbitrary: d' st)
    case (Cons e es)
    show ?case
    proof (cases "cron_entry e")
      case None
      then show ?thesis using Cons by simp
    next
      case (Some x)
      then obtain a data where x: "cron_entry e = Some (a, data)" by (cases x) auto
      have "jobs_wf gregorian (fst e \<notin> F) (map repair_job (cd_jobs data))"
        using cron_entry_parsed [OF x] Cons.prems by (intro repair_jobs_wf) simp
      then have "\<forall>j \<in> set (map repair_job (cd_jobs data)). \<exists>b. job_due gregorian k channels j = Some b"
        using job_due_answers [OF _ assms(2)] by (auto simp: jobs_wf_def)
      from scan_jobs_answers [OF this, of a st]
      obtain st1 where "scan_jobs gregorian k channels a (map repair_job (cd_jobs data)) st = Some st1" by blast
      then show ?thesis using x Cons by (simp add: repair_legacy_prompt_schedule_mismatches_def)
    qed
  qed simp
  from this [of "d_files d" d "([], [])"] show ?thesis
    using assms(1) by (auto simp: get_due_jobs_def store_wf_def)
qed

text \<open>On a well-formed store the scan for due jobs never panics: no stored hour, minute or date makes
  the calendar arithmetic fail, whatever the clock says (years from 0 on).\<close>

theorem due_scan_total:
  assumes "store_wf gregorian F d" "0 \<le> ch_year gregorian (local_date beijing_offset (sk_now k))"
  shows "\<exists>r. get_due_jobs gregorian d k channels = Some r"
  by (rule due_scan_answers [OF assms])

theorem due_scan_total_witness: "\<exists>r. get_due_jobs gregorian cron_store ten_past_nine [] = Some r"
  by (rule due_scan_total [OF demo_store_wf demo_year])

lemma due_scan_lemma:
  assumes "get_due_jobs C d k channels = Some (d', due)"
  shows "subseq due (scanned_jobs (d_files d)) \<and>
    (\<forall>x \<in> set due. job_due C k channels (snd x) = Some True) \<and>
    distinct (map (due_job_dedup_key \<circ> snd) due) \<and>
    (\<forall>x \<in> set (scanned_jobs (d_files d)). job_due C k channels (snd x) = Some True \<longrightarrow>
       (\<exists>y \<in> set due. due_job_dedup_key (snd y) = due_job_dedup_key (snd x)))"
proof -
  obtain seen where "scan_files C k channels (d_files d) (d, [], []) = Some (d', seen, due)"
    using assms by (auto simp: get_due_jobs_def)
  from scan_files_ok [OF this] have new: "subseq due (scanned_jobs (d_files d))"
    "\<forall>x \<in> set due. job_due C k channels (snd x) = Some True" "distinct (map (due_job_dedup_key \<circ> snd) due)"
    "set seen = (due_job_dedup_key \<circ> snd) ` set due"
    "\<forall>x \<in> set (scanned_jobs (d_files d)). job_due C k channels (snd x) = Some True \<longrightarrow> due_job_dedup_key (snd x) \<in> set seen"
    by (auto simp: scan_ok_def)
  have "\<exists>y \<in> set due. due_job_dedup_key (snd y) = due_job_dedup_key (snd x)"
    if "x \<in> set (scanned_jobs (d_files d))" "job_due C k channels (snd x) = Some True" for x
  proof -
    have "due_job_dedup_key (snd x) \<in> (due_job_dedup_key \<circ> snd) ` set due" using new(4,5) that by simp
    then show ?thesis by (metis comp_apply imageE)
  qed
  with new(1-3) show ?thesis by blast
qed

text \<open>C36: a scan returns, in directory order, exactly one job for every delivery key that some stored job due
  now has: each job returned passes every guard, no two share a key, and no due job's key is missing.\<close>

theorem due_scan_exact:
  assumes "get_due_jobs C d k channels = Some (d', due)"
  shows "subseq due (scanned_jobs (d_files d)) \<and>
    (\<forall>x \<in> set due. job_due C k channels (snd x) = Some True) \<and>
    distinct (map (due_job_dedup_key \<circ> snd) due) \<and>
    (\<forall>x \<in> set (scanned_jobs (d_files d)). job_due C k channels (snd x) = Some True \<longrightarrow>
       (\<exists>y \<in> set due. due_job_dedup_key (snd y) = due_job_dedup_key (snd x)))"
  by (rule due_scan_lemma [OF assms])

theorem due_scan_exact_witness:
  "\<exists>d' due. get_due_jobs gregorian cron_store ten_past_nine [] = Some (d', due) \<and> subseq due [(cron_actor, nine_daily)]"
proof -
  obtain d' due where r: "get_due_jobs gregorian cron_store ten_past_nine [] = Some (d', due)"
    using due_scan_answers [OF demo_store_wf demo_year, of "[]"] by auto
  from due_scan_exact [OF r] r show ?thesis by (auto simp: demo_scanned)
qed

text \<open>The period a run at \<open>t\<close> covers, as seen from the clock of a later scan.\<close>

definition same_period :: "chrono \<Rightarrow> rstr \<Rightarrow> instant \<Rightarrow> scan_clock \<Rightarrow> bool" where
  "same_period C repeat_kind t k =
     (let ran_day = local_date beijing_offset t; today = local_date beijing_offset (sk_now k) in
      if repeat_kind = lit ''heartbeat'' then
        ran_day = today \<and> 0 \<le> sk_total k \<and>
        (int (local_hour beijing_offset t) * 60 + int (local_minute beijing_offset t)) div 30 = sk_total k div 30
      else if repeat_kind = lit ''weekly'' then
        ch_iso_week C ran_day = ch_iso_week C today \<and> ch_year C ran_day = ch_year C today
      else if repeat_kind = lit ''once'' then True
      else ran_day = today)"

lemma half_hour_slot:
  fixes h m T :: int
  assumes "0 \<le> h" "0 \<le> m" "m < 60" "0 \<le> T" "(h * 60 + m) div 30 = T div 30"
  shows "h = (T div 30 * 30) div 60" "m div 30 = (T div 30 * 30) mod 60 div 30"
proof -
  define q where "q = T div 30"
  have "q = (h * 60 + m) div 30" using assms(5) by (simp add: q_def)
  then have q: "q = 2 * h + m div 30" by (simp add: algebra_simps)
  have m: "m div 30 = 0 \<or> m div 30 = 1" using assms(2,3) by presburger
  then show "h = (T div 30 * 30) div 60" "m div 30 = (T div 30 * 30) mod 60 div 30"
    unfolding q_def [symmetric] q by (auto simp: algebra_simps)
qed

lemma already_ran_same_period:
  assumes "cj_last_run_at j = Some (ch_to_rfc3339 gregorian t beijing_offset)"
    "same_period gregorian r t k"
  shows "already_ran_in_current_period gregorian j r (sk_now k) (sk_total k)"
proof -
  have t: "ch_parse_rfc3339 gregorian (ch_to_rfc3339 gregorian t beijing_offset) = Some (t, beijing_offset)"
    by (rule greg_text.parse_to_rfc3339)
  show ?thesis
  proof (cases "r = lit ''heartbeat''")
    case True
    let ?T = "sk_total k"
    have p: "0 \<le> ?T" "(int (local_hour beijing_offset t) * 60 + int (local_minute beijing_offset t)) div 30 = ?T div 30"
      "local_date beijing_offset t = local_date beijing_offset (sk_now k)"
      using assms(2) True by (simp_all add: same_period_def Let_def)
    have q: "0 \<le> ?T div 30 * 30" "0 \<le> ?T div 30 * 30 mod 60"
      using p(1) by (simp_all add: pos_imp_zdiv_nonneg_iff)
    have "local_minute beijing_offset t < 60" by (rule local_minute_less)
    then have hm: "int (local_hour beijing_offset t) = (?T div 30 * 30) div 60"
      "int (local_minute beijing_offset t) div 30 = (?T div 30 * 30) mod 60 div 30"
      using half_hour_slot [OF _ _ _ p(1,2)] by simp_all
    have sd: "?T sdiv 30 = ?T div 30" "(?T div 30 * 30) sdiv 60 = (?T div 30 * 30) div 60"
      "(?T div 30 * 30) smod 60 = (?T div 30 * 30) mod 60"
      "(?T div 30 * 30) mod 60 sdiv 30 = (?T div 30 * 30) mod 60 div 30"
      "int (local_minute beijing_offset t) sdiv 30 = int (local_minute beijing_offset t) div 30"
      by (rule sdiv_nonneg smod_nonneg; use p(1) q in simp)+
    have hb: "lit ''heartbeat'' \<noteq> lit ''weekly''" by (simp add: lit_def)
    show ?thesis
      unfolding already_ran_in_current_period_def assms(1) bind.simps t option.case prod.case Let_def True
      by (simp only: sd hm p(3) if_True simp_thms)
  next
    case False
    then show ?thesis using assms t
      by (simp add: already_ran_in_current_period_def same_period_def Let_def split: if_splits)
  qed
qed

lemma job_due_not_ran:
  "job_due C k ch j = Some True \<Longrightarrow>
     \<not> already_ran_in_current_period C j (normalized_repeat (cs_repeat (cj_schedule j)) (cj_tags j)) (sk_now k) (sk_total k)"
  by (auto simp: job_due_def Let_def split: bind_splits if_splits)

text \<open>A job marked as run at \<open>t\<close> is not due again at any scan in the same period (half-hour slot, day,
  ISO week of the year, or ever for a one-shot job).\<close>

theorem mark_run_blocks:
  assumes "d_write_error d = None" "position (\<lambda>j. cj_id j = i) (cd_jobs (load_jobs d a)) = Some n"
    "same_period gregorian (normalized_repeat (cs_repeat (cj_schedule (cd_jobs (load_jobs d a) ! n)))
       (cj_tags (cd_jobs (load_jobs d a) ! n))) t k"
  shows "let j = cd_jobs (load_jobs (mark_job_run d a i (ch_to_rfc3339 gregorian t beijing_offset)) a) ! n
    in cj_id j = i \<and> job_due gregorian k channels j \<noteq> Some True"
proof -
  let ?j = "cd_jobs (load_jobs d a) ! n"
  let ?now = "ch_to_rfc3339 gregorian t beijing_offset"
  have n: "n < length (cd_jobs (load_jobs d a))" "cj_id ?j = i" using position_Some [OF assms(2)] by auto
  have "cd_jobs (load_jobs (mark_job_run d a i ?now) a) ! n = ran ?now ?j"
    using assms(1,2) n(1)
    by (simp add: mark_job_run_def Let_def save_jobs_quietly_def save_jobs_def disk_write_def load_jobs_def disk_get_put)
  moreover have "cj_id (ran ?now ?j) = i" "cj_tags (ran ?now ?j) = cj_tags ?j" "cj_last_run_at (ran ?now ?j) = Some ?now"
    using n(2) by (simp_all add: ran_def Let_def)
  moreover have "job_due gregorian k channels (ran ?now ?j) \<noteq> Some True"
    using job_due_not_ran [of gregorian k channels "ran ?now ?j"] already_ran_same_period [OF calculation(4) assms(3)]
    by (metis calculation(3) ran_schedule)
  ultimately show ?thesis by (simp add: Let_def)
qed

theorem mark_run_blocks_witness:
  "let j = cd_jobs (load_jobs (mark_job_run cron_store cron_actor (lit ''j_1'')
        (ch_to_rfc3339 gregorian (sk_now ten_past_nine) beijing_offset)) cron_actor) ! 0
   in cj_id j = lit ''j_1'' \<and> job_due gregorian ten_past_nine [] j \<noteq> Some True"
proof (rule mark_run_blocks)
  show "d_write_error cron_store = None" by (simp add: cron_store_def)
  show "position (\<lambda>j. cj_id j = lit ''j_1'') (cd_jobs (load_jobs cron_store cron_actor)) = Some 0"
    by (simp add: demo_cron_load nine_daily_def)
  have "normalized_repeat (cs_repeat (cj_schedule nine_daily)) (cj_tags nine_daily) = lit ''daily''"
    using demo_not_heartbeat by (simp add: normalized_repeat_def is_heartbeat_def) (simp add: nine_daily_def)
  then show "same_period gregorian (normalized_repeat (cs_repeat (cj_schedule (cd_jobs (load_jobs cron_store cron_actor) ! 0)))
      (cj_tags (cd_jobs (load_jobs cron_store cron_actor) ! 0))) (sk_now ten_past_nine) ten_past_nine"
    by (simp add: demo_cron_load same_period_def lit_def)
qed

text \<open>No scheduled job is lost: a scan at any time from its slot to the end of a matching day finds a job
  with its delivery key, if the job is enabled, on an allowed channel, existed before the slot and has not
  run in the period, however late the scan is.\<close>

theorem scheduled_job_caught_up:
  assumes "get_due_jobs C d k channels = Some (d', due)" "(a, j) \<in> set (scanned_jobs (d_files d))"
    "\<not> is_heartbeat j" "cj_enabled j" "job_channel_allowed j channels"
    "int (cs_hour (cj_schedule j)) * 60 + int (cs_minute (cj_schedule j)) \<le> sk_total k"
    "job_existed_before_slot C j (local_date beijing_offset (sk_now k)) = Some True"
    "repeat_matches_current_day C j (cs_repeat (cj_schedule j)) (local_date beijing_offset (sk_now k)) (sk_weekday k) = Some True"
    "\<not> already_ran_in_current_period C j (cs_repeat (cj_schedule j)) (sk_now k) (sk_total k)"
  shows "\<exists>y \<in> set due. due_job_dedup_key (snd y) = due_job_dedup_key j"
proof -
  have r: "normalized_repeat (cs_repeat (cj_schedule j)) (cj_tags j) = cs_repeat (cj_schedule j)"
    using assms(3) by (simp add: normalized_repeat_def is_heartbeat_def)
  have "job_due_in_current_window C j (sk_total k) (local_date beijing_offset (sk_now k)) = Some True"
    using assms(3,6,7)
    by (simp add: job_due_in_current_window_def scheduled_job_due_in_current_window_def DUE_WINDOW_MINUTES_def Let_def
        ex_bool_eq)
  then have "job_due C k channels j = Some True" using assms by (simp add: job_due_def Let_def r)
  then show ?thesis using due_scan_lemma [OF assms(1)] assms(2) by force
qed

theorem scheduled_job_caught_up_witness:
  "\<exists>d' due y. get_due_jobs gregorian cron_store ten_past_nine [] = Some (d', due) \<and>
     y \<in> set due \<and> due_job_dedup_key (snd y) = due_job_dedup_key nine_daily"
proof -
  obtain d' due where r: "get_due_jobs gregorian cron_store ten_past_nine [] = Some (d', due)"
    using due_scan_answers [OF demo_store_wf demo_year, of "[]"] by auto
  have "\<exists>y \<in> set due. due_job_dedup_key (snd y) = due_job_dedup_key nine_daily"
    by (rule scheduled_job_caught_up [OF r, of cron_actor])
      (simp_all add: demo_scanned demo_not_heartbeat,
       simp_all add: nine_daily_def job_channel_allowed_def ten_past_nine_def sk_total_def
         job_existed_before_slot_def repeat_matches_current_day_def already_ran_in_current_period_def lit_def)
  then show ?thesis using r by blast
qed

end
