(* ===== verification/Cron_History.thy ===== *)
theory Cron_History
  imports Actor Calendar "HOL-Library.AList"
begin

text \<open>
  \<^verbatim>\<open>memory/src/cron_job/history.rs\<close>, the SQLite mode: the table \<^verbatim>\<open>cron_job_runs\<close> of executions.
  A run is recorded when it starts (\<^verbatim>\<open>running\<close>/\<^verbatim>\<open>pending\<close>) and again when it ends; the second record
  replaces the row of the first when its delivery key, or else its recent start, identifies it. Also here:
  \<^verbatim>\<open>hone-core/src/text.rs\<close>. SQL text comparison is the order of the code points; the table is the list of
  its rows in insertion order; \<^verbatim>\<open>datetime\<close> is read to the second. SQLite errors are not modelled. A
  store without a SQLite path is \<open>None\<close>.
\<close>

section \<open>text.rs\<close>

definition truncate_chars :: "rstr \<Rightarrow> nat \<Rightarrow> rstr" where
  "truncate_chars s max_chars = (if max_chars = 0 \<or> length s \<le> max_chars then s else take max_chars s)"

definition truncate_chars_append :: "rstr \<Rightarrow> nat \<Rightarrow> rstr \<Rightarrow> rstr" where
  "truncate_chars_append s max_chars suffix = (if length s \<le> max_chars then s else take max_chars s @ suffix)"

lemma truncate_chars_append_length:
  "length (truncate_chars_append s n suffix) \<le> n + length suffix"
  by (simp add: truncate_chars_append_def)

definition clip :: "rstr \<Rightarrow> rstr" where
  "clip text = truncate_chars_append text 500 (lit ''...'')"

section \<open>The table\<close>

record cron_run =
  er_run_id :: nat
  er_job_id :: rstr
  er_job_name :: rstr
  er_channel :: rstr
  er_user_id :: rstr
  er_channel_scope :: "rstr option"
  er_channel_target :: rstr
  er_heartbeat :: bool
  er_executed_at :: rstr
  er_execution_status :: rstr
  er_message_send_status :: rstr
  er_should_deliver :: bool
  er_delivered :: bool
  er_response_preview :: "rstr option"
  er_error_message :: "rstr option"
  er_detail :: json

record execution_input =
  ei_execution_status :: rstr
  ei_message_send_status :: rstr
  ei_should_deliver :: bool
  ei_delivered :: bool
  ei_response_preview :: "rstr option"
  ei_error_message :: "rstr option"
  ei_detail :: json

record history =
  hs_rows :: "cron_run list"
  hs_next_id :: nat

text \<open>\<^verbatim>\<open>json_object\<close> of a value taken out with \<^verbatim>\<open>json_extract\<close>: a missing value is null, a boolean
  an integer.\<close>

definition extracted :: "json \<Rightarrow> rstr \<Rightarrow> json" where
  "extracted v k =
     (case json_get v k of
        None \<Rightarrow> JNull
      | Some (JBool b) \<Rightarrow> JInt (if b then 1 else 0)
      | Some x \<Rightarrow> x)"

definition is_pending :: "cron_run \<Rightarrow> bool" where
  "is_pending r \<longleftrightarrow> er_execution_status r = lit ''running'' \<and> er_message_send_status r = lit ''pending''"

definition is_started :: "cron_run \<Rightarrow> bool" where
  "is_started r \<longleftrightarrow> is_pending r \<and> get_str (er_detail r) (lit ''phase'') = Some (lit ''started'')"

definition same_run :: "actor \<Rightarrow> rstr \<Rightarrow> rstr \<Rightarrow> bool \<Rightarrow> cron_run \<Rightarrow> bool" where
  "same_run a job_id channel_target heartbeat r \<longleftrightarrow>
     er_job_id r = job_id \<and> er_channel r = a_channel a \<and> er_user_id r = a_user_id a \<and>
     unwrap_or [] (er_channel_scope r) = unwrap_or [] (a_channel_scope a) \<and>
     er_channel_target r = channel_target \<and> er_heartbeat r = heartbeat"

definition has_key :: "rstr \<Rightarrow> cron_run \<Rightarrow> bool" where
  "has_key k r \<longleftrightarrow> get_str (er_detail r) (lit ''delivery_key'') = Some k"

section \<open>Watchdog and recovery\<close>

definition mark_started_failed_by_key ::
    "history option \<Rightarrow> actor \<Rightarrow> rstr \<Rightarrow> rstr \<Rightarrow> bool \<Rightarrow> rstr \<Rightarrow> rstr \<Rightarrow> rstr \<Rightarrow> rstr \<Rightarrow> history option \<times> nat" where
  "mark_started_failed_by_key h a job_id channel_target heartbeat delivery_key recovered_by reason now =
     (let delivery_key = trim delivery_key in
      case h of
        None \<Rightarrow> (h, 0)
      | Some t \<Rightarrow>
          if delivery_key = [] then (h, 0)
          else
            (let hit = (\<lambda>r. same_run a job_id channel_target heartbeat r \<and> is_started r \<and> has_key delivery_key r);
                 fail = (\<lambda>r. r\<lparr>er_executed_at := now, er_execution_status := lit ''execution_failed'',
                   er_message_send_status := lit ''skipped_error'', er_should_deliver := False, er_delivered := False,
                   er_response_preview := None, er_error_message := Some (clip reason),
                   er_detail := JObj [(lit ''phase'', JStr (lit ''scheduler_handler_watchdog_timeout'')),
                     (lit ''recovered_at'', JStr now), (lit ''recovered_by'', JStr recovered_by),
                     (lit ''delivery_key'', extracted (er_detail r) (lit ''delivery_key'')),
                     (lit ''previous_phase'', extracted (er_detail r) (lit ''phase''))]\<rparr>)
             in (Some (t\<lparr>hs_rows := map (\<lambda>r. if hit r then fail r else r) (hs_rows t)\<rparr>),
                 length (filter hit (hs_rows t)))))"

definition recover_stale_started_executions ::
    "history option \<Rightarrow> rstr \<Rightarrow> rstr \<Rightarrow> rstr \<Rightarrow> rstr \<Rightarrow> rstr \<Rightarrow> history option \<times> nat" where
  "recover_stale_started_executions h channel stale_before recovered_by reason now =
     (case h of
        None \<Rightarrow> (h, 0)
      | Some t \<Rightarrow>
          (let hit = (\<lambda>r. er_channel r = channel \<and> is_started r \<and> er_executed_at r < stale_before);
               fail = (\<lambda>r. r\<lparr>er_executed_at := now, er_execution_status := lit ''execution_failed'',
                 er_message_send_status := lit ''send_failed'', er_should_deliver := False, er_delivered := False,
                 er_response_preview := None, er_error_message := Some (clip reason),
                 er_detail := JObj [(lit ''phase'', JStr (lit ''recovered_stale_pending'')),
                   (lit ''recovered_at'', JStr now), (lit ''recovered_by'', JStr recovered_by),
                   (lit ''delivery_key'', extracted (er_detail r) (lit ''delivery_key'')),
                   (lit ''previous_phase'', extracted (er_detail r) (lit ''phase''))]\<rparr>)
           in (Some (t\<lparr>hs_rows := map (\<lambda>r. if hit r then fail r else r) (hs_rows t)\<rparr>),
               length (filter hit (hs_rows t)))))"

section \<open>Recording\<close>

definition get_u64 :: "json \<Rightarrow> rstr \<Rightarrow> nat option" where
  "get_u64 v k = (case json_get v k of Some (JInt i) \<Rightarrow> if 0 \<le> i then Some (nat i) else None | _ \<Rightarrow> None)"

definition json_insert :: "json \<Rightarrow> rstr \<Rightarrow> json \<Rightarrow> json" where
  "json_insert v k x = (case v of JObj kvs \<Rightarrow> JObj (AList.update k x kvs) | _ \<Rightarrow> v)"

definition channel_failure_kind :: "rstr \<Rightarrow> rstr" where
  "channel_failure_kind ch =
     (if ch = lit ''discord'' then lit ''discord_send_failed''
      else if ch = lit ''feishu'' then lit ''feishu_send_failed''
      else if ch = lit ''telegram'' then lit ''telegram_send_failed''
      else if ch = lit ''web'' then lit ''web_send_failed''
      else lit ''channel_send_failed'')"

definition is_json_obj :: "json \<Rightarrow> bool" where
  "is_json_obj v = (case v of JObj _ \<Rightarrow> True | _ \<Rightarrow> False)"

definition normalize_execution_input :: "actor \<Rightarrow> execution_input \<Rightarrow> execution_input" where
  "normalize_execution_input a i =
     (if ei_message_send_status i \<noteq> lit ''send_failed'' \<or> ei_delivered i then i
      else
        (let sent_segments = unwrap_or 0 (get_u64 (ei_detail i) (lit ''sent_segments''));
             total_segments = unwrap_or 0 (get_u64 (ei_detail i) (lit ''total_segments''))
         in
         if sent_segments \<noteq> 0 \<or> total_segments = 0 then i
         else
           (let fallback_error = (if a_channel a = lit ''discord'' then [68, 105, 115, 99, 111, 114, 100, 32, 23450, 26102, 20219, 21153, 21457, 36865, 22833, 36133]
                                  else [23450, 26102, 20219, 21153, 21457, 36865, 22833, 36133]);
                i = (if unwrap_or [] (map_option trim (ei_error_message i)) = []
                     then i\<lparr>ei_error_message := Some fallback_error\<rparr> else i)
            in if is_json_obj (ei_detail i) \<and>
                  unwrap_or [] (map_option trim (get_str (ei_detail i) (lit ''failure_kind''))) = []
               then i\<lparr>ei_detail := json_insert (ei_detail i) (lit ''failure_kind'') (JStr (channel_failure_kind (a_channel a)))\<rparr>
               else i)))"

definition finished :: "execution_input \<Rightarrow> rstr \<Rightarrow> cron_run \<Rightarrow> cron_run" where
  "finished i now r =
     r\<lparr>er_executed_at := now, er_execution_status := ei_execution_status i,
       er_message_send_status := ei_message_send_status i, er_should_deliver := ei_should_deliver i,
       er_delivered := ei_delivered i, er_response_preview := map_option clip (ei_response_preview i),
       er_error_message := map_option clip (ei_error_message i), er_detail := ei_detail i\<rparr>"

text \<open>\<^verbatim>\<open>ORDER BY executed_at DESC, run_id DESC LIMIT 1\<close>\<close>

definition not_older :: "cron_run \<Rightarrow> cron_run \<Rightarrow> bool" where
  "not_older r q \<longleftrightarrow> er_executed_at q < er_executed_at r \<or> er_executed_at q = er_executed_at r \<and> er_run_id q \<le> er_run_id r"

fun newest :: "cron_run list \<Rightarrow> cron_run option" where
  "newest [] = None"
| "newest (r # rs) = (case newest rs of None \<Rightarrow> Some r | Some q \<Rightarrow> Some (if not_older r q then r else q))"

definition update_newest :: "(cron_run \<Rightarrow> bool) \<Rightarrow> (cron_run \<Rightarrow> cron_run) \<Rightarrow> history \<Rightarrow> history option" where
  "update_newest hit f t =
     map_option (\<lambda>q. t\<lparr>hs_rows := map (\<lambda>r. if er_run_id r = er_run_id q then f r else r) (hs_rows t)\<rparr>)
       (newest (filter hit (hs_rows t)))"

text \<open>\<^verbatim>\<open>datetime(executed_at) >= datetime(now, '-2 hours')\<close>; a time that does not parse is NULL.\<close>

definition within_two_hours :: "chrono \<Rightarrow> rstr \<Rightarrow> cron_run \<Rightarrow> bool" where
  "within_two_hours C now r =
     (case (ch_parse_rfc3339 C (er_executed_at r), ch_parse_rfc3339 C now) of
        (Some (x, _), Some (y, _)) \<Rightarrow> timestamp y - 7200 \<le> timestamp x
      | _ \<Rightarrow> False)"

definition inserted :: "actor \<Rightarrow> rstr \<Rightarrow> rstr \<Rightarrow> rstr \<Rightarrow> bool \<Rightarrow> execution_input \<Rightarrow> rstr \<Rightarrow> history \<Rightarrow> history" where
  "inserted a job_id job_name channel_target heartbeat i now t =
     t\<lparr>hs_rows := hs_rows t @
          [\<lparr>er_run_id = hs_next_id t, er_job_id = job_id, er_job_name = job_name, er_channel = a_channel a,
            er_user_id = a_user_id a, er_channel_scope = a_channel_scope a, er_channel_target = channel_target,
            er_heartbeat = heartbeat, er_executed_at = now, er_execution_status = ei_execution_status i,
            er_message_send_status = ei_message_send_status i, er_should_deliver = ei_should_deliver i,
            er_delivered = ei_delivered i, er_response_preview = map_option clip (ei_response_preview i),
            er_error_message = map_option clip (ei_error_message i), er_detail = ei_detail i\<rparr>],
       hs_next_id := hs_next_id t + 1\<rparr>"

definition record_execution_event ::
    "chrono \<Rightarrow> history option \<Rightarrow> actor \<Rightarrow> rstr \<Rightarrow> rstr \<Rightarrow> rstr \<Rightarrow> bool \<Rightarrow> execution_input \<Rightarrow> rstr \<Rightarrow> history option" where
  "record_execution_event C h a job_id job_name channel_target heartbeat input now =
     (let i = normalize_execution_input a input in
      case h of
        None \<Rightarrow> None
      | Some t \<Rightarrow>
          (let terminal = (ei_execution_status i \<noteq> lit ''running'' \<and> ei_message_send_status i \<noteq> lit ''pending'');
               pending = (\<lambda>r. same_run a job_id channel_target heartbeat r \<and> is_pending r);
               by_key =
                 (case get_str (ei_detail i) (lit ''delivery_key'') of
                    Some k \<Rightarrow> if trim k \<noteq> [] then update_newest (\<lambda>r. pending r \<and> has_key (trim k) r) (finished i now) t
                             else None
                  | None \<Rightarrow> None);
               by_start = update_newest (\<lambda>r. pending r \<and> is_started r \<and> within_two_hours C now r) (finished i now) t
           in Some (unwrap_or (inserted a job_id job_name channel_target heartbeat i now t)
                (if terminal then or_else by_key by_start else None))))"

section \<open>Queries\<close>

record execution_filter =
  ef_since :: "rstr option"
  ef_until :: "rstr option"
  ef_channel :: "rstr option"
  ef_user_id :: "rstr option"
  ef_job_id :: "rstr option"
  ef_execution_status :: "rstr option"
  ef_message_send_status :: "rstr option"
  ef_heartbeat_only :: "bool option"
  ef_limit :: nat

definition newest_first :: "cron_run list \<Rightarrow> cron_run list" where
  "newest_first rs = rev (sort_key (\<lambda>r. er_executed_at r) (sort_key er_run_id rs))"

definition list_execution_records :: "history option \<Rightarrow> rstr \<Rightarrow> nat \<Rightarrow> cron_run list" where
  "list_execution_records h job_id limit =
     (case h of None \<Rightarrow> []
      | Some t \<Rightarrow> take limit (newest_first (filter (\<lambda>r. er_job_id r = job_id) (hs_rows t))))"

definition where_opt :: "rstr option \<Rightarrow> (rstr \<Rightarrow> bool) \<Rightarrow> bool" where
  "where_opt x P = (case opt_filter (\<lambda>s. s \<noteq> []) x of None \<Rightarrow> True | Some s \<Rightarrow> P s)"

definition execution_matches :: "execution_filter \<Rightarrow> cron_run \<Rightarrow> bool" where
  "execution_matches f r \<longleftrightarrow>
     where_opt (ef_since f) (\<lambda>s. s \<le> er_executed_at r) \<and>
     where_opt (ef_until f) (\<lambda>s. er_executed_at r \<le> s) \<and>
     where_opt (ef_channel f) (\<lambda>s. er_channel r = s) \<and>
     where_opt (ef_user_id f) (\<lambda>s. er_user_id r = s) \<and>
     where_opt (ef_job_id f) (\<lambda>s. er_job_id r = s) \<and>
     where_opt (ef_execution_status f) (\<lambda>s. er_execution_status r = s) \<and>
     where_opt (ef_message_send_status f) (\<lambda>s. er_message_send_status r = s) \<and>
     (ef_heartbeat_only f = Some True \<longrightarrow> er_heartbeat r)"

definition list_recent_executions :: "history option \<Rightarrow> execution_filter \<Rightarrow> cron_run list" where
  "list_recent_executions h f =
     (case h of None \<Rightarrow> []
      | Some t \<Rightarrow> take (max (ef_limit f) 1) (newest_first (filter (execution_matches f) (hs_rows t))))"

section \<open>Lemmas\<close>

definition history_wf :: "history \<Rightarrow> bool" where
  "history_wf t \<longleftrightarrow> distinct (map er_run_id (hs_rows t)) \<and> (\<forall>r \<in> set (hs_rows t). er_run_id r < hs_next_id t)"

lemma newest_None [simp]: "newest rs = None \<longleftrightarrow> rs = []"
  by (cases rs) (auto split: option.splits)

lemma newest_Some: "newest rs = Some q \<Longrightarrow> q \<in> set rs \<and> (\<forall>r \<in> set rs. not_older q r)"
proof (induction rs arbitrary: q)
  case (Cons r rs)
  show ?case
  proof (cases "newest rs")
    case None
    then show ?thesis using Cons.prems by (simp add: not_older_def)
  next
    case (Some p)
    then have p: "p \<in> set rs" "\<forall>r \<in> set rs. not_older p r" using Cons.IH by auto
    show ?thesis
    proof (cases "not_older r p")
      case True
      then have "\<forall>x \<in> set rs. not_older r x" using p(2) by (force simp: not_older_def)
      then show ?thesis using Cons.prems Some True by (auto simp: not_older_def)
    next
      case False
      then have "not_older p r" by (auto simp: not_older_def)
      then show ?thesis using Cons.prems Some False p by auto
    qed
  qed
qed simp

lemma row_by_id:
  assumes "history_wf t" "q \<in> set (hs_rows t)" "r \<in> set (hs_rows t)"
  shows "er_run_id r = er_run_id q \<longleftrightarrow> r = q"
  using assms by (auto simp: history_wf_def distinct_map dest: inj_onD)

lemma update_newest_Some:
  assumes "update_newest hit f t = Some t'" "history_wf t"
  shows "\<exists>q \<in> set (hs_rows t). hit q \<and> (\<forall>r \<in> set (hs_rows t). hit r \<longrightarrow> not_older q r) \<and>
     t' = t\<lparr>hs_rows := map (\<lambda>r. if r = q then f r else r) (hs_rows t)\<rparr>"
proof -
  obtain q where q: "newest (filter hit (hs_rows t)) = Some q"
    "t' = t\<lparr>hs_rows := map (\<lambda>r. if er_run_id r = er_run_id q then f r else r) (hs_rows t)\<rparr>"
    using assms(1) by (auto simp: update_newest_def)
  have m: "q \<in> set (hs_rows t)" "hit q" "\<forall>r \<in> set (hs_rows t). hit r \<longrightarrow> not_older q r"
    using newest_Some [OF q(1)] by auto
  have "map (\<lambda>r. if er_run_id r = er_run_id q then f r else r) (hs_rows t) = map (\<lambda>r. if r = q then f r else r) (hs_rows t)"
    using row_by_id [OF assms(2) m(1)] by simp
  then show ?thesis using m q(2) by auto
qed

lemma update_newest_None: "update_newest hit f t = None \<longleftrightarrow> (\<forall>r \<in> set (hs_rows t). \<not> hit r)"
  by (auto simp: update_newest_def filter_empty_conv)

text \<open>The shape of every change: rows that hit are pending and keep their id; one row may be added.\<close>

definition rows_step :: "history \<Rightarrow> history \<Rightarrow> bool" where
  "rows_step t t' \<longleftrightarrow>
     (\<exists>f new. hs_rows t' = map f (hs_rows t) @ new \<and> (\<forall>r \<in> set (hs_rows t). er_run_id (f r) = er_run_id r) \<and>
       (\<forall>r \<in> set (hs_rows t). \<not> is_pending r \<longrightarrow> f r = r) \<and>
       (new = [] \<and> hs_next_id t' = hs_next_id t \<or>
        (\<exists>r. new = [r] \<and> er_run_id r = hs_next_id t \<and> hs_next_id t' = hs_next_id t + 1)))"

lemma rows_step_wf:
  assumes "rows_step t t'" "history_wf t"
  shows "history_wf t'"
proof -
  obtain f new where f: "hs_rows t' = map f (hs_rows t) @ new" "\<forall>r \<in> set (hs_rows t). er_run_id (f r) = er_run_id r"
    "new = [] \<and> hs_next_id t' = hs_next_id t \<or>
        (\<exists>r. new = [r] \<and> er_run_id r = hs_next_id t \<and> hs_next_id t' = hs_next_id t + 1)"
    using assms(1) by (auto simp: rows_step_def)
  have ids: "map er_run_id (map f (hs_rows t)) = map er_run_id (hs_rows t)" using f(2) by simp
  have "map er_run_id (hs_rows t') = map er_run_id (hs_rows t) @ map er_run_id new"
    unfolding f(1) map_append ids ..
  then have "distinct (map er_run_id (hs_rows t'))" using f(3) assms(2) by (auto simp: history_wf_def)
  moreover have "\<forall>r \<in> set (hs_rows t'). er_run_id r < hs_next_id t'"
    using f assms(2) by (fastforce simp: history_wf_def)
  ultimately show ?thesis by (simp add: history_wf_def)
qed

lemma rows_step_keeps: "rows_step t t' \<Longrightarrow> r \<in> set (hs_rows t) \<Longrightarrow> \<not> is_pending r \<Longrightarrow> r \<in> set (hs_rows t')"
  by (force simp: rows_step_def)

lemma update_newest_step:
  assumes "update_newest hit (finished i now) t = Some t'" "history_wf t" "\<And>r. hit r \<Longrightarrow> is_pending r"
  shows "rows_step t t'"
proof -
  obtain q where "hit q" "t' = t\<lparr>hs_rows := map (\<lambda>r. if r = q then finished i now r else r) (hs_rows t)\<rparr>"
    using update_newest_Some [OF assms(1,2)] by blast
  then show ?thesis unfolding rows_step_def
    by (intro exI [of _ "\<lambda>r. if r = q then finished i now r else r"] exI [of _ "[]"])
      (use assms(3) in \<open>auto simp: finished_def\<close>)
qed

lemma record_step:
  assumes "record_execution_event C (Some t) a job_id name target hb input now = Some t'" "history_wf t"
  shows "rows_step t t'"
proof -
  let ?i = "normalize_execution_input a input"
  have ins: "rows_step t (inserted a job_id name target hb ?i now t)"
    unfolding rows_step_def inserted_def by (intro exI [of _ "\<lambda>r. r"]) simp
  have upd: "rows_step t t1" if "update_newest (\<lambda>r. (same_run a job_id target hb r \<and> is_pending r) \<and> P r) (finished ?i now) t = Some t1"
    for P t1 using update_newest_step [OF that assms(2)] by simp
  have o: "x = Some v \<or> y = Some v" if "or_else x y = Some v" for x y :: "history option" and v
    using that by (cases x) auto
  define by_key where "by_key = (case get_str (ei_detail ?i) (lit ''delivery_key'') of
      Some k \<Rightarrow> if trim k \<noteq> [] then update_newest (\<lambda>r. (same_run a job_id target hb r \<and> is_pending r) \<and> has_key (trim k) r) (finished ?i now) t
        else None
    | None \<Rightarrow> None)"
  define by_start where "by_start = update_newest (\<lambda>r. (same_run a job_id target hb r \<and> is_pending r) \<and> is_started r \<and> within_two_hours C now r) (finished ?i now) t"
  have k: "rows_step t t1" if "by_key = Some t1" for t1
    using that upd by (auto simp: by_key_def split: option.splits if_splits)
  have st: "rows_step t t1" if "by_start = Some t1" for t1
    using that unfolding by_start_def by (rule upd)
  have "t' = unwrap_or (inserted a job_id name target hb ?i now t)
      (if ei_execution_status ?i \<noteq> lit ''running'' \<and> ei_message_send_status ?i \<noteq> lit ''pending'' then or_else by_key by_start else None)"
    using assms(1) unfolding record_execution_event_def Let_def by_key_def by_start_def
    by (simp only: option.case option.inject)
  then show ?thesis using ins k st o [of by_key by_start]
    by (cases "or_else by_key by_start") (auto split: if_splits)
qed

lemma map_hit_step:
  assumes "\<And>r. hit r \<Longrightarrow> is_pending r" "\<And>r. er_run_id (f r) = er_run_id r"
  shows "rows_step t (t\<lparr>hs_rows := map (\<lambda>r. if hit r then f r else r) (hs_rows t)\<rparr>)"
  unfolding rows_step_def
  by (intro exI [of _ "\<lambda>r. if hit r then f r else r"] exI [of _ "[]"]) (use assms in auto)

lemma rows_step_refl: "rows_step t t"
  unfolding rows_step_def by (intro exI [of _ "\<lambda>r. r"] exI [of _ "[]"]) simp

text \<open>The writes to the table.\<close>

inductive history_op :: "chrono \<Rightarrow> history \<Rightarrow> history \<Rightarrow> bool" for C where
  entry: "record_execution_event C (Some t) a job_id name target hb input now = Some t' \<Longrightarrow> history_op C t t'"
| watchdog: "mark_started_failed_by_key (Some t) a job_id target hb k who why now = (Some t', n) \<Longrightarrow> history_op C t t'"
| recover: "recover_stale_started_executions (Some t) channel before who why now = (Some t', n) \<Longrightarrow> history_op C t t'"

lemma history_op_step: "history_op C t t' \<Longrightarrow> history_wf t \<Longrightarrow> rows_step t t'"
proof (induction rule: history_op.induct)
  case (entry t a job_id name target hb input now t')
  then show ?case by (rule record_step)
next
  case (watchdog t a job_id target hb k who why now t' n)
  then show ?case
    by (auto simp: mark_started_failed_by_key_def Let_def rows_step_refl is_started_def intro!: map_hit_step split: if_splits)
next
  case (recover t channel before who why now t' n)
  then show ?case
    by (auto simp: recover_stale_started_executions_def Let_def is_started_def intro!: map_hit_step)
qed

section \<open>Properties\<close>

text \<open>A table for the witnesses: one started run and one that has ended.\<close>

definition h_actor :: actor where
  "h_actor = \<lparr>a_channel = lit ''feishu'', a_user_id = lit ''u1'', a_channel_scope = None\<rparr>"

definition started_run :: cron_run where
  "started_run = \<lparr>er_run_id = 1, er_job_id = lit ''j_1'', er_job_name = [], er_channel = lit ''feishu'',
     er_user_id = lit ''u1'', er_channel_scope = None, er_channel_target = lit ''t'', er_heartbeat = False,
     er_executed_at = [], er_execution_status = lit ''running'', er_message_send_status = lit ''pending'',
     er_should_deliver = True, er_delivered = False, er_response_preview = None, er_error_message = None,
     er_detail = JObj [(lit ''phase'', JStr (lit ''started'')), (lit ''delivery_key'', JStr (lit ''k1''))]\<rparr>"

definition ended_run :: cron_run where
  "ended_run = started_run\<lparr>er_run_id := 0, er_execution_status := lit ''completed''\<rparr>"

definition demo_table :: history where
  "demo_table = \<lparr>hs_rows = [ended_run, started_run], hs_next_id = 2\<rparr>"

definition end_input :: execution_input where
  "end_input = \<lparr>ei_execution_status = lit ''completed'', ei_message_send_status = lit ''sent'',
     ei_should_deliver = True, ei_delivered = True, ei_response_preview = None, ei_error_message = None,
     ei_detail = JObj [(lit ''delivery_key'', JStr (lit ''k1''))]\<rparr>"

lemma demo_table_facts:
  "history_wf demo_table" "started_run \<in> set (hs_rows demo_table)" "ended_run \<in> set (hs_rows demo_table)"
  "is_pending started_run" "\<not> is_pending ended_run"
  by (simp_all add: history_wf_def demo_table_def ended_run_def started_run_def is_pending_def lit_def)

text \<open>The history of finished executions is append-only: whatever is recorded, timed out by the watchdog
  or recovered, a row that has ended is never changed or lost, and run ids stay unique.\<close>

theorem finished_runs_immutable:
  assumes "(history_op C)\<^sup>*\<^sup>* t t'" "history_wf t" "r \<in> set (hs_rows t)" "\<not> is_pending r"
  shows "r \<in> set (hs_rows t') \<and> history_wf t'"
  using assms(1)
proof (induction rule: rtranclp_induct)
  case base
  then show ?case using assms by simp
next
  case (step t1 t2)
  then have "rows_step t1 t2" using history_op_step by blast
  then show ?case using step.IH rows_step_keeps rows_step_wf assms(4) by blast
qed

theorem finished_runs_immutable_witness:
  "\<exists>t'. record_execution_event gregorian (Some demo_table) h_actor (lit ''j_1'') [] (lit ''t'') False end_input [] = Some t' \<and>
     ended_run \<in> set (hs_rows t')"
proof -
  obtain t' where r: "record_execution_event gregorian (Some demo_table) h_actor (lit ''j_1'') [] (lit ''t'') False end_input [] = Some t'"
    by (simp add: record_execution_event_def Let_def)
  then have "(history_op gregorian)\<^sup>*\<^sup>* demo_table t'" by (blast intro: history_op.entry)
  from finished_runs_immutable [OF this demo_table_facts(1,3,5)] r show ?thesis by blast
qed

lemma normalize_keeps:
  "ei_execution_status (normalize_execution_input a i) = ei_execution_status i"
  "ei_message_send_status (normalize_execution_input a i) = ei_message_send_status i"
  "ei_delivered (normalize_execution_input a i) = ei_delivered i"
  "get_str (ei_detail (normalize_execution_input a i)) (lit ''delivery_key'') = get_str (ei_detail i) (lit ''delivery_key'')"
  by (auto simp: normalize_execution_input_def Let_def json_insert_def get_str_def json_get_def update_conv lit_def
      split: json.splits)

text \<open>The terminal record of an execution whose delivery key a pending row of the same job, actor and
  target carries replaces exactly that row: nothing is added and no other row changes.\<close>

theorem execution_finalised:
  assumes "history_wf t" "q \<in> set (hs_rows t)" "same_run a job_id target hb q" "is_pending q" "has_key (trim k) q"
    "\<forall>r \<in> set (hs_rows t). same_run a job_id target hb r \<and> is_pending r \<and> has_key (trim k) r \<longrightarrow> r = q"
    "ei_execution_status i \<noteq> lit ''running''" "ei_message_send_status i \<noteq> lit ''pending''"
    "get_str (ei_detail i) (lit ''delivery_key'') = Some k" "trim k \<noteq> []"
  shows "record_execution_event C (Some t) a job_id name target hb i now =
    Some (t\<lparr>hs_rows := map (\<lambda>r. if r = q then finished (normalize_execution_input a i) now r else r) (hs_rows t)\<rparr>)"
proof -
  let ?hit = "\<lambda>r. (same_run a job_id target hb r \<and> is_pending r) \<and> has_key (trim k) r"
  let ?f = "finished (normalize_execution_input a i) now"
  obtain t' where t': "update_newest ?hit ?f t = Some t'"
    using update_newest_None [of ?hit ?f t] assms(2-5) by blast
  then obtain p where "p \<in> set (hs_rows t)" "?hit p" "t' = t\<lparr>hs_rows := map (\<lambda>r. if r = p then ?f r else r) (hs_rows t)\<rparr>"
    using update_newest_Some [OF t' assms(1)] by blast
  then have "t' = t\<lparr>hs_rows := map (\<lambda>r. if r = q then ?f r else r) (hs_rows t)\<rparr>" using assms(6) by blast
  then show ?thesis using t' assms(7-10)
    by (simp add: record_execution_event_def Let_def normalize_keeps)
qed

theorem execution_finalised_witness:
  "\<exists>t'. record_execution_event gregorian (Some demo_table) h_actor (lit ''j_1'') [] (lit ''t'') False end_input [] = Some t' \<and>
     length (hs_rows t') = 2"
proof -
  have k: "trim (lit ''k1'') = lit ''k1''" by (simp add: str_eval)
  have run: "same_run h_actor (lit ''j_1'') (lit ''t'') False started_run" "has_key (trim (lit ''k1'')) started_run"
    unfolding k by (simp_all add: same_run_def h_actor_def started_run_def has_key_def get_str_def json_get_def json_as_str_def lit_def)
  have one: "\<forall>r \<in> set (hs_rows demo_table). same_run h_actor (lit ''j_1'') (lit ''t'') False r \<and> is_pending r \<and>
      has_key (trim (lit ''k1'')) r \<longrightarrow> r = started_run"
    using demo_table_facts(5) by (simp add: demo_table_def)
  have i: "ei_execution_status end_input \<noteq> lit ''running''" "ei_message_send_status end_input \<noteq> lit ''pending''"
    "get_str (ei_detail end_input) (lit ''delivery_key'') = Some (lit ''k1'')" "trim (lit ''k1'') \<noteq> []"
    unfolding k by (simp_all add: end_input_def get_str_def json_get_def json_as_str_def lit_def)
  show ?thesis
    using execution_finalised [OF demo_table_facts(1,2) run(1) demo_table_facts(4) run(2) one i, of gregorian "[]" "[]"]
    by (simp add: demo_table_def)
qed

end
