(* ===== verification/Scheduler.thy ===== *)
theory Scheduler
  imports Cron_Storage Cron_History
begin

text \<open>
  \<^verbatim>\<open>crates/hone-scheduler/src/lib.rs\<close>: the minute check that hands the due jobs to the channel handlers.
  The mpsc channel is the list of the events it accepted and the number of further events it accepts
  before its receiver is gone (\<open>None\<close>: the receiver stays); waiting for room in the channel is not
  modelled. The clock of each write inside a check is an argument.
\<close>

section \<open>Events and keys\<close>

record scheduler_event =
  se_actor :: actor
  se_job_id :: rstr
  se_job_name :: rstr
  se_task_prompt :: rstr
  se_channel :: rstr
  se_channel_scope :: "rstr option"
  se_channel_target :: rstr
  se_delivery_key :: rstr
  se_push :: json
  se_tags :: "rstr list"
  se_heartbeat :: bool
  se_schedule_hour :: nat
  se_schedule_minute :: nat
  se_schedule_repeat :: rstr
  se_schedule_date :: "rstr option"
  se_last_delivered_previews :: "(rstr \<times> rstr) list"
  se_bypass_quiet_hours :: bool

definition execution_detail_with_delivery_key :: "json \<Rightarrow> rstr \<Rightarrow> json" where
  "execution_detail_with_delivery_key detail delivery_key =
     (let object = (case detail of
                      JObj kvs \<Rightarrow> kvs
                    | JNull \<Rightarrow> []
                    | other \<Rightarrow> [(lit ''scheduler'', other)]);
          existing_key = trim (unwrap_or [] (Option.bind (map_of object (lit ''delivery_key'')) json_as_str))
      in JObj (if existing_key = [] then AList.update (lit ''delivery_key'') (JStr delivery_key) object else object))"

definition scheduled_delivery_key :: "chrono \<Rightarrow> cron_job \<Rightarrow> instant \<Rightarrow> rstr" where
  "scheduled_delivery_key C j now =
     (let day = ch_fmt_date C (local_date beijing_offset now) in
      if is_heartbeat j then
        (let total_minutes = int (local_hour beijing_offset now) * 60 + int (local_minute beijing_offset now);
             slot_total = (total_minutes sdiv 30) * 30;
             slot_hour = slot_total sdiv 60;
             slot_minute = slot_total smod 60
         in cj_id j @ lit '':'' @ day @ lit '':'' @ fmt02 (nat slot_hour) @ lit '':'' @ fmt02 (nat slot_minute)
              @ lit '':heartbeat'')
      else cj_id j @ lit '':'' @ day @ lit '':'' @ fmt02 (cs_hour (cj_schedule j)) @ lit '':''
             @ fmt02 (cs_minute (cj_schedule j)))"

definition load_heartbeat_delivery_history :: "history option \<Rightarrow> actor \<Rightarrow> (rstr \<times> rstr) list" where
  "load_heartbeat_delivery_history h a =
     (let f = \<lparr>ef_since = None, ef_until = None, ef_channel = Some (a_channel a), ef_user_id = Some (a_user_id a),
                ef_job_id = None, ef_execution_status = None, ef_message_send_status = None,
                ef_heartbeat_only = Some True, ef_limit = 20\<rparr>
      in map (\<lambda>r. (er_executed_at r, unwrap_or [] (er_response_preview r)))
           (take 8 (filter (\<lambda>r. er_delivered r \<and> er_response_preview r \<noteq> None) (list_recent_executions h f))))"

section \<open>The check\<close>

record scheduler_state =
  sd_disk :: cron_disk
  sd_history :: "history option"
  sd_sent :: "scheduler_event list"
  sd_room :: "nat option"

definition target_missing_input :: "rstr \<Rightarrow> execution_input" where
  "target_missing_input delivery_key =
     \<lparr>ei_execution_status = lit ''execution_failed'', ei_message_send_status = lit ''target_missing'',
      ei_should_deliver = True, ei_delivered = False, ei_response_preview = None,
      ei_error_message = Some [23450, 26102, 20219, 21153, 32570, 23569, 32, 99, 104, 97, 110, 110, 101, 108, 95, 116, 97, 114, 103, 101, 116, 65292, 26080, 27861, 30830, 35748, 26469, 28304, 28192, 36947, 25237, 36882, 30446, 26631],
      ei_detail = JObj [(lit ''phase'', JStr (lit ''target_missing'')), (lit ''delivery_key'', JStr delivery_key)]\<rparr>"

definition scheduler_event_of :: "chrono \<Rightarrow> history option \<Rightarrow> instant \<Rightarrow> actor \<Rightarrow> cron_job \<Rightarrow> scheduler_event" where
  "scheduler_event_of C h now a j =
     \<lparr>se_actor = a, se_job_id = cj_id j, se_job_name = cj_name j, se_task_prompt = cj_task_prompt j,
      se_channel = cj_channel j, se_channel_scope = cj_channel_scope j, se_channel_target = cj_channel_target j,
      se_delivery_key = scheduled_delivery_key C j now, se_push = cj_push j, se_tags = cj_tags j,
      se_heartbeat = is_heartbeat j, se_schedule_hour = cs_hour (cj_schedule j),
      se_schedule_minute = cs_minute (cj_schedule j), se_schedule_repeat = cs_repeat (cj_schedule j),
      se_schedule_date = cs_date (cj_schedule j),
      se_last_delivered_previews = (if is_heartbeat j then load_heartbeat_delivery_history h a else []),
      se_bypass_quiet_hours = cj_bypass_quiet_hours j\<rparr>"

text \<open>\<^verbatim>\<open>event_tx.send(event)\<close>\<close>

definition send_event :: "scheduler_event \<Rightarrow> scheduler_state \<Rightarrow> scheduler_state option" where
  "send_event ev s =
     (case sd_room s of
        None \<Rightarrow> Some (s\<lparr>sd_sent := sd_sent s @ [ev]\<rparr>)
      | Some 0 \<Rightarrow> None
      | Some (Suc n) \<Rightarrow> Some (s\<lparr>sd_sent := sd_sent s @ [ev], sd_room := Some n\<rparr>))"

definition target_missing :: "cron_job \<Rightarrow> bool" where
  "target_missing j \<longleftrightarrow> trim (cj_channel_target j) = []"

definition process_due_job :: "chrono \<Rightarrow> instant \<Rightarrow> rstr \<Rightarrow> actor \<times> cron_job \<Rightarrow> scheduler_state \<Rightarrow> scheduler_state" where
  "process_due_job C now stamp x s =
     (let (a, j) = x in
      if target_missing j then
        s\<lparr>sd_history := record_execution_event C (sd_history s) a (cj_id j) (cj_name j) [] (is_heartbeat j)
             (target_missing_input (scheduled_delivery_key C j now)) stamp,
          sd_disk := mark_job_run (sd_disk s) a (cj_id j) stamp\<rparr>
      else
        (case send_event (scheduler_event_of C (sd_history s) now a j) s of
           Some s' \<Rightarrow> s'\<lparr>sd_disk := mark_job_run (sd_disk s') a (cj_id j) stamp\<rparr>
         | None \<Rightarrow> s))"

fun process_due_jobs ::
    "chrono \<Rightarrow> instant \<Rightarrow> (nat \<Rightarrow> rstr) \<Rightarrow> nat \<Rightarrow> (actor \<times> cron_job) list \<Rightarrow> scheduler_state \<Rightarrow> scheduler_state" where
  "process_due_jobs C now stamps i [] s = s"
| "process_due_jobs C now stamps i (x # xs) s =
     process_due_jobs C now stamps (Suc i) xs (process_due_job C now (stamps i) x s)"

text \<open>\<open>now\<close> is the reading of the check, \<open>scan_now\<close> the one of the scan right after it.\<close>

definition check_due_jobs ::
    "chrono \<Rightarrow> rstr list \<Rightarrow> instant \<Rightarrow> instant \<Rightarrow> (nat \<Rightarrow> rstr) \<Rightarrow> scheduler_state \<Rightarrow> scheduler_state option" where
  "check_due_jobs C channels now scan_now stamps s =
     (let k = \<lparr>sk_now = scan_now, sk_hour = int (local_hour beijing_offset now),
               sk_minute = int (local_minute beijing_offset now),
               sk_weekday = ch_weekday C (local_date beijing_offset now)\<rparr>
      in map_option (\<lambda>(d, due). process_due_jobs C now stamps 0 due (s\<lparr>sd_disk := d\<rparr>))
           (get_due_jobs C (sd_disk s) k channels))"

section \<open>Lemmas\<close>

text \<open>What a check is to do, told from the due list: with room for \<open>room\<close> events, the jobs with a target are handed over in
  order while there is room. A job is to be marked when it has no target, or fewer jobs with a target than there is room for
  come before it.\<close>

abbreviation targeted :: "actor \<times> cron_job \<Rightarrow> bool" where
  "targeted x \<equiv> \<not> target_missing (snd x)"

definition sent_of :: "nat option \<Rightarrow> (actor \<times> cron_job) list \<Rightarrow> (actor \<times> cron_job) list" where
  "sent_of room due = (case room of None \<Rightarrow> filter targeted due | Some n \<Rightarrow> take n (filter targeted due))"

definition to_mark :: "nat option \<Rightarrow> (actor \<times> cron_job) list \<Rightarrow> nat \<Rightarrow> bool" where
  "to_mark room due i \<longleftrightarrow>
     i < length due \<and>
     (target_missing (snd (due ! i)) \<or>
      (case room of None \<Rightarrow> True | Some n \<Rightarrow> length (filter targeted (take i due)) < n))"

definition event_key :: "scheduler_event \<Rightarrow> rstr \<times> rstr \<times> actor" where
  "event_key ev = (se_delivery_key ev, se_job_id ev, se_actor ev)"

definition job_key :: "chrono \<Rightarrow> instant \<Rightarrow> actor \<times> cron_job \<Rightarrow> rstr \<times> rstr \<times> actor" where
  "job_key C now x = (scheduled_delivery_key C (snd x) now, cj_id (snd x), fst x)"

lemma event_key_of: "event_key (scheduler_event_of C h now a j) = job_key C now (a, j)"
  by (simp add: event_key_def job_key_def scheduler_event_of_def)

lemma sent_of_simps [simp]:
  "sent_of room [] = []" "target_missing (snd x) \<Longrightarrow> sent_of room (x # xs) = sent_of room xs"
  "targeted x \<Longrightarrow> sent_of None (x # xs) = x # sent_of None xs" "sent_of (Some 0) xs = []"
  "targeted x \<Longrightarrow> sent_of (Some (Suc n)) (x # xs) = x # sent_of (Some n) xs"
  by (simp_all add: sent_of_def split: option.split)

lemma to_mark_simps [simp]:
  "\<not> to_mark room [] i" "to_mark None xs i \<longleftrightarrow> i < length xs"
  "to_mark room (x # xs) 0 \<longleftrightarrow> target_missing (snd x) \<or> room \<noteq> Some 0"
  "target_missing (snd x) \<Longrightarrow> to_mark room (x # xs) (Suc i) \<longleftrightarrow> to_mark room xs i"
  "targeted x \<Longrightarrow> to_mark (Some 0) (x # xs) (Suc i) \<longleftrightarrow> to_mark (Some 0) xs i"
  "targeted x \<Longrightarrow> to_mark (Some (Suc n)) (x # xs) (Suc i) \<longleftrightarrow> to_mark (Some n) xs i"
  by (auto simp: to_mark_def split: option.splits)

text \<open>The marks a check makes, with their stamps.\<close>

fun marks_of :: "(nat \<Rightarrow> rstr) \<Rightarrow> nat option \<Rightarrow> nat \<Rightarrow> (actor \<times> cron_job) list \<Rightarrow> ((actor \<times> cron_job) \<times> rstr) list" where
  "marks_of stamps room i [] = []"
| "marks_of stamps room i (x # xs) =
     (if target_missing (snd x) then (x, stamps i) # marks_of stamps room (Suc i) xs
      else (case room of
              None \<Rightarrow> (x, stamps i) # marks_of stamps None (Suc i) xs
            | Some 0 \<Rightarrow> marks_of stamps room (Suc i) xs
            | Some (Suc n) \<Rightarrow> (x, stamps i) # marks_of stamps (Some n) (Suc i) xs))"

abbreviation apply_mark :: "(actor \<times> cron_job) \<times> rstr \<Rightarrow> cron_disk \<Rightarrow> cron_disk" where
  "apply_mark m d \<equiv> mark_job_run d (fst (fst m)) (cj_id (snd (fst m))) (snd m)"

lemma ex_index: "(\<exists>k. P k) \<longleftrightarrow> P 0 \<or> (\<exists>k. P (Suc k))"
  by (metis not0_implies_Suc)

lemma marks_of_set:
  "m \<in> set (marks_of stamps room i xs) \<longleftrightarrow> (\<exists>k. to_mark room xs k \<and> fst m = xs ! k \<and> snd m = stamps (i + k))"
proof (induction xs arbitrary: room i)
  case (Cons x xs)
  have split: "(\<exists>k. to_mark room (x # xs) k \<and> fst m = (x # xs) ! k \<and> snd m = stamps (i + k)) \<longleftrightarrow>
      (target_missing (snd x) \<or> room \<noteq> Some 0) \<and> m = (x, stamps i) \<or>
      (\<exists>k. to_mark room (x # xs) (Suc k) \<and> fst m = xs ! k \<and> snd m = stamps (Suc i + k))"
    by (subst ex_index) (auto simp: prod_eq_iff)
  show ?case
  proof (cases "target_missing (snd x)")
    case True
    then show ?thesis unfolding split by (simp add: Cons)
  next
    case False
    show ?thesis
    proof (cases room)
      case None
      then show ?thesis using False unfolding split by (simp add: Cons)
    next
      case (Some n)
      then show ?thesis using False unfolding split by (cases n) (simp_all add: Cons)
    qed
  qed
qed simp

lemma process_due_jobs_spec:
  "map event_key (sd_sent (process_due_jobs C now stamps i xs s)) =
     map event_key (sd_sent s) @ map (job_key C now) (sent_of (sd_room s) xs)"
  "sd_disk (process_due_jobs C now stamps i xs s) = fold apply_mark (marks_of stamps (sd_room s) i xs) (sd_disk s)"
proof (induction xs arbitrary: i s)
  case (Cons x xs)
  obtain a j where x: "x = (a, j)" by (cases x)
  {
    case 1
    show ?case
      by (cases "target_missing j"; cases "sd_room s"; cases "the (sd_room s)")
        (auto simp: Cons process_due_job_def send_event_def x event_key_of)
  next
    case 2
    show ?case
      by (cases "target_missing j"; cases "sd_room s"; cases "the (sd_room s)")
        (auto simp: Cons process_due_job_def send_event_def x)
  }
qed simp_all

text \<open>What is handed over is what is marked and has a target.\<close>

lemma sent_of_marked:
  "sent_of room xs = map ((!) xs) (filter (\<lambda>i. to_mark room xs i \<and> targeted (xs ! i)) [0..<length xs])"
proof (induction xs arbitrary: room)
  case (Cons x xs)
  have up: "[0..<length (x # xs)] = 0 # map Suc [0..<length xs]" by (simp add: map_Suc_upt upt_conv_Cons del: upt_Suc)
  show ?case unfolding up
  proof (cases "target_missing (snd x)")
    case True
    then show "sent_of room (x # xs) =
        map ((!) (x # xs)) (filter (\<lambda>i. to_mark room (x # xs) i \<and> targeted ((x # xs) ! i)) (0 # map Suc [0..<length xs]))"
      by (simp add: Cons filter_map comp_def)
  next
    case False
    have none: "sent_of (Some 0) xs = []" by simp
    show "sent_of room (x # xs) =
        map ((!) (x # xs)) (filter (\<lambda>i. to_mark room (x # xs) i \<and> targeted ((x # xs) ! i)) (0 # map Suc [0..<length xs]))"
    proof (cases room)
      case None
      then show ?thesis using False by (simp add: Cons filter_map comp_def)
    next
      case (Some n)
      then show ?thesis using False none Cons [of "Some 0"] by (cases n) (simp_all add: Cons filter_map comp_def)
    qed
  qed
qed simp

text \<open>A mark changes the first job with its id in the file of its actor, if the file can be written.\<close>

abbreviation jobs_of :: "cron_disk \<Rightarrow> actor \<Rightarrow> cron_job list" where
  "jobs_of d b \<equiv> cd_jobs (load_jobs d b)"

lemma jobs_of_path: "cron_path a = cron_path b \<Longrightarrow> jobs_of d a = jobs_of d b"
  by (cases "parsed (disk_get d (cron_path b))") (simp_all add: load_jobs_def empty_cron_data_def)

lemma mark_write_error [simp]: "d_write_error (mark_job_run d a i now) = d_write_error d"
  by (simp add: mark_job_run_def Let_def save_jobs_quietly_def save_jobs_def disk_write_def split: option.splits)

lemma mark_jobs:
  "jobs_of (mark_job_run d a i now) b =
     (if d_write_error d = None \<and> cron_path a = cron_path b then
        (case position (\<lambda>j. cj_id j = i) (jobs_of d b) of
           Some n \<Rightarrow> (jobs_of d b)[n := ran now (jobs_of d b ! n)] | None \<Rightarrow> jobs_of d b)
      else jobs_of d b)"
proof (cases "d_write_error d = None \<and> cron_path a = cron_path b")
  case True
  define js where "js = (case position (\<lambda>j. cj_id j = i) (jobs_of d a) of
    Some n \<Rightarrow> (jobs_of d a)[n := ran now (jobs_of d a ! n)] | None \<Rightarrow> jobs_of d a)"
  have "mark_job_run d a i now = disk_put d (cron_path b) ((load_jobs d a)\<lparr>cd_jobs := js\<rparr>)"
    using True by (simp add: mark_job_run_def Let_def js_def save_jobs_quietly_def save_jobs_def disk_write_def)
  then have "jobs_of (mark_job_run d a i now) b = js" by (simp add: load_jobs_def disk_get_put)
  then show ?thesis using True jobs_of_path [of a b d] by (simp add: js_def split: option.split)
next
  case False
  then have "disk_get (mark_job_run d a i now) (cron_path b) = disk_get d (cron_path b)"
    by (auto simp: mark_job_run_def Let_def save_jobs_quietly_def save_jobs_def disk_write_def disk_get_put split: option.splits)
  then show ?thesis using False by (simp only: if_not_P load_jobs_def if_False simp_thms)
qed

lemma ran_simps [simp]: "cj_id (ran now j) = cj_id j" "cj_last_run_at (ran now j) = Some now"
  by (simp_all add: ran_def Let_def)

lemma mark_ids [simp]: "map cj_id (jobs_of (mark_job_run d a i now) b) = map cj_id (jobs_of d b)"
proof -
  have "map cj_id (js[n := ran now (js ! n)]) = map cj_id js" for js n
    by (cases "n < length js") (simp_all add: map_update list_update_same_conv not_less list_update_beyond)
  then show ?thesis by (simp add: mark_jobs split: option.split)
qed

lemma mark_length [simp]: "length (jobs_of (mark_job_run d a i now) b) = length (jobs_of d b)"
  by (metis mark_ids length_map)

lemma position_map: "position (\<lambda>j. f j = i) xs = position (\<lambda>y. y = i) (map f xs)"
  by (induction xs) auto

lemma mark_position [simp]:
  "position (\<lambda>j. cj_id j = k) (jobs_of (mark_job_run d a i now) b) = position (\<lambda>j. cj_id j = k) (jobs_of d b)"
  unfolding position_map [of cj_id] by simp

lemma mark_id_nth: "n < length (jobs_of d b) \<Longrightarrow> cj_id (jobs_of (mark_job_run d a i now) b ! n) = cj_id (jobs_of d b ! n)"
  by (metis mark_ids mark_length nth_map)

abbreviation hits :: "(actor \<times> cron_job) \<Rightarrow> actor \<Rightarrow> cron_job \<Rightarrow> bool" where
  "hits x b j \<equiv> cron_path (fst x) = cron_path b \<and> cj_id (snd x) = cj_id j"

lemma marks_frame:
  assumes "n < length (jobs_of d b)" "\<forall>m \<in> set ms. \<not> hits (fst m) b (jobs_of d b ! n)"
  shows "jobs_of (fold apply_mark ms d) b ! n = jobs_of d b ! n"
  using assms
proof (induction ms arbitrary: d)
  case (Cons m ms)
  have same: "jobs_of (apply_mark m d) b ! n = jobs_of d b ! n"
  proof (cases "cron_path (fst (fst m)) = cron_path b")
    case True
    then have "cj_id (snd (fst m)) \<noteq> cj_id (jobs_of d b ! n)" using Cons.prems(2) by simp
    then have "position (\<lambda>j. cj_id j = cj_id (snd (fst m))) (jobs_of d b) \<noteq> Some n"
      by (auto dest: position_Some)
    then have "k \<noteq> n" if "position (\<lambda>j. cj_id j = cj_id (snd (fst m))) (jobs_of d b) = Some k" for k using that by auto
    then show ?thesis by (simp add: mark_jobs split: option.split)
  qed (simp add: mark_jobs)
  have "jobs_of (fold apply_mark ms (apply_mark m d)) b ! n = jobs_of (apply_mark m d) b ! n"
    by (rule Cons.IH) (use Cons.prems same in simp_all)
  then show ?case using same by simp
qed simp

lemma marks_ids: "map cj_id (jobs_of (fold apply_mark ms d) b) = map cj_id (jobs_of d b)"
  by (induction ms arbitrary: d) simp_all

lemma marks_made:
  assumes "d_write_error d = None" "position (\<lambda>k. cj_id k = cj_id (jobs_of d b ! n)) (jobs_of d b) = Some n"
    "\<exists>m \<in> set ms. hits (fst m) b (jobs_of d b ! n)"
  shows "\<exists>m \<in> set ms. hits (fst m) b (jobs_of d b ! n) \<and> cj_last_run_at (jobs_of (fold apply_mark ms d) b ! n) = Some (snd m)"
  using assms
proof (induction ms arbitrary: d)
  case (Cons m ms)
  let ?d = "apply_mark m d"
  have n: "n < length (jobs_of d b)" using position_Some [OF Cons.prems(2)] by simp
  have id: "cj_id (jobs_of ?d b ! n) = cj_id (jobs_of d b ! n)" by (rule mark_id_nth [OF n])
  show ?case
  proof (cases "\<exists>m \<in> set ms. hits (fst m) b (jobs_of d b ! n)")
    case True
    then show ?thesis using Cons.IH [of ?d] Cons.prems(1,2) id by (auto simp del: mark_job_run_def)
  next
    case False
    then have hit: "hits (fst m) b (jobs_of d b ! n)" using Cons.prems(3) unfolding list.set by blast
    have "jobs_of ?d b ! n = ran (snd m) (jobs_of d b ! n)"
      using Cons.prems(1,2) hit n by (simp add: mark_jobs)
    moreover have "jobs_of (fold apply_mark ms ?d) b ! n = jobs_of ?d b ! n"
      by (rule marks_frame) (use n id False in auto)
    ultimately show ?thesis using hit by simp
  qed
qed simp

section \<open>Properties\<close>

text \<open>C38: a check hands the due jobs that have a target to the channel in the order of the scan, as many as the channel
  accepts, and marks the jobs it handed over and the jobs without a target. A stored job that is none of these is as
  the scan left it (so that a job not handed over, the channel being closed, is due again at the next check), and on a
  writable disk each of these (the first with its id in its file) has the time of a mark as its last run.\<close>

theorem check_marks_what_it_sends:
  assumes "check_due_jobs C channels now scan_now stamps s = Some s'"
    "get_due_jobs C (sd_disk s) \<lparr>sk_now = scan_now, sk_hour = int (local_hour beijing_offset now),
       sk_minute = int (local_minute beijing_offset now), sk_weekday = ch_weekday C (local_date beijing_offset now)\<rparr> channels
     = Some (d, due)"
  shows "let sent = (case sd_room s of None \<Rightarrow> filter targeted due | Some n \<Rightarrow> take n (filter targeted due));
             marked = to_mark (sd_room s) due; jobs = jobs_of d b; jobs' = jobs_of (sd_disk s') b
    in map event_key (sd_sent s') = map event_key (sd_sent s) @ map (job_key C now) sent \<and>
       sent = map ((!) due) (filter (\<lambda>i. marked i \<and> targeted (due ! i)) [0..<length due]) \<and>
       map cj_id jobs' = map cj_id jobs \<and>
       (\<forall>n < length jobs.
          ((\<forall>i. marked i \<longrightarrow> \<not> hits (due ! i) b (jobs ! n)) \<longrightarrow> jobs' ! n = jobs ! n) \<and>
          (d_write_error d = None \<longrightarrow> position (\<lambda>k. cj_id k = cj_id (jobs ! n)) jobs = Some n \<longrightarrow>
             (\<exists>i. marked i \<and> hits (due ! i) b (jobs ! n)) \<longrightarrow>
             (\<exists>i. marked i \<and> hits (due ! i) b (jobs ! n) \<and> cj_last_run_at (jobs' ! n) = Some (stamps i))))"
proof -
  let ?ms = "marks_of stamps (sd_room s) 0 due"
  have s': "s' = process_due_jobs C now stamps 0 due (s\<lparr>sd_disk := d\<rparr>)"
    using assms by (simp add: check_due_jobs_def Let_def)
  note spec = process_due_jobs_spec [of C now stamps 0 due "s\<lparr>sd_disk := d\<rparr>"]
  have disk: "sd_disk s' = fold apply_mark ?ms d" using spec(2) by (simp add: s')
  have frame: "jobs_of (sd_disk s') b ! n = jobs_of d b ! n"
    if "n < length (jobs_of d b)" "\<forall>i. to_mark (sd_room s) due i \<longrightarrow> \<not> hits (due ! i) b (jobs_of d b ! n)" for n
    unfolding disk
  proof (rule marks_frame [OF that(1)], rule ballI)
    fix m assume "m \<in> set ?ms"
    then obtain k where "to_mark (sd_room s) due k" "fst m = due ! k" by (auto simp: marks_of_set)
    then show "\<not> hits (fst m) b (jobs_of d b ! n)" using that(2) by simp
  qed
  have made: "\<exists>i. to_mark (sd_room s) due i \<and> hits (due ! i) b (jobs_of d b ! n) \<and>
      cj_last_run_at (jobs_of (sd_disk s') b ! n) = Some (stamps i)"
    if "d_write_error d = None" "position (\<lambda>k. cj_id k = cj_id (jobs_of d b ! n)) (jobs_of d b) = Some n"
      "\<exists>i. to_mark (sd_room s) due i \<and> hits (due ! i) b (jobs_of d b ! n)" for n
  proof -
    note hyps = that
    obtain i where i: "to_mark (sd_room s) due i" "hits (due ! i) b (jobs_of d b ! n)" using hyps(3) by blast
    then have "(due ! i, stamps i) \<in> set ?ms" by (auto simp: marks_of_set)
    then have "\<exists>m \<in> set ?ms. hits (fst m) b (jobs_of d b ! n)" using i(2) by force
    from marks_made [OF hyps(1,2) this] obtain m where m: "m \<in> set ?ms" "hits (fst m) b (jobs_of d b ! n)"
      "cj_last_run_at (jobs_of (sd_disk s') b ! n) = Some (snd m)" unfolding disk by blast
    then obtain k where "to_mark (sd_room s) due k" "fst m = due ! k" "snd m = stamps k" by (auto simp: marks_of_set)
    then show ?thesis using m(2,3) by (intro exI [of _ k]) simp
  qed
  have sent: "map event_key (sd_sent s') = map event_key (sd_sent s) @ map (job_key C now) (sent_of (sd_room s) due)"
    using spec(1) by (simp add: s')
  have ids: "map cj_id (jobs_of (sd_disk s') b) = map cj_id (jobs_of d b)" unfolding disk by (rule marks_ids)
  show ?thesis
    unfolding Let_def sent_of_def [symmetric]
  proof (intro conjI allI impI)
    show "map event_key (sd_sent s') = map event_key (sd_sent s) @ map (job_key C now) (sent_of (sd_room s) due)" by (rule sent)
  qed (use sent_of_marked ids frame made in \<open>blast+\<close>)
qed

theorem check_marks_what_it_sends_witness:
  "\<exists>s' d due. get_due_jobs gregorian cron_store ten_past_nine [] = Some (d, due) \<and>
     check_due_jobs gregorian [] (sk_now ten_past_nine) (sk_now ten_past_nine) (\<lambda>_. [])
       \<lparr>sd_disk = cron_store, sd_history = None, sd_sent = [], sd_room = Some 0\<rparr> = Some s' \<and> sd_sent s' = []"
proof -
  let ?t = "sk_now ten_past_nine"
  let ?s = "\<lparr>sd_disk = cron_store, sd_history = None, sd_sent = [], sd_room = Some 0\<rparr>"
  have k: "\<lparr>sk_now = ?t, sk_hour = int (local_hour beijing_offset ?t), sk_minute = int (local_minute beijing_offset ?t),
      sk_weekday = ch_weekday gregorian (local_date beijing_offset ?t)\<rparr> = ten_past_nine"
    by (simp add: ten_past_nine_def local_hour_def local_minute_def local_date_def local_secs_def beijing_offset_def
        greg_weekday_def)
  obtain d due where r: "get_due_jobs gregorian cron_store ten_past_nine [] = Some (d, due)"
    using due_scan_answers [OF demo_store_wf demo_year, of "[]"] by auto
  then obtain s' where c: "check_due_jobs gregorian [] ?t ?t (\<lambda>_. []) ?s = Some s'"
    by (simp add: check_due_jobs_def Let_def k [simplified])
  have "map event_key (sd_sent s') = []"
    using check_marks_what_it_sends [OF c] r by (simp add: k [simplified] Let_def)
  then show ?thesis using r c by blast
qed

text \<open>C40: every terminal detail wrapped for the history is an object with a delivery key that is not blank (the
  one it already had, or the one given), so that the record finds the started row.\<close>

theorem wrapped_detail_has_key:
  assumes "trim delivery_key \<noteq> []"
  shows "\<exists>k. get_str (execution_detail_with_delivery_key detail delivery_key) (lit ''delivery_key'') = Some k \<and>
    trim k \<noteq> [] \<and> (k = delivery_key \<or> get_str detail (lit ''delivery_key'') = Some k)"
proof -
  have ne: "lit ''scheduler'' \<noteq> lit ''delivery_key''" by (simp add: lit_def)
  have as: "json_as_str v = Some k \<longleftrightarrow> v = JStr k" for v k
    by (auto simp: json_as_str_def split: json.splits)
  show ?thesis
  proof (cases detail)
    case (JObj kvs)
    show ?thesis
    proof (cases "trim (unwrap_or [] (Option.bind (map_of kvs (lit ''delivery_key'')) json_as_str)) = []")
      case True
      then show ?thesis using assms JObj
        by (simp add: execution_detail_with_delivery_key_def get_str_def json_get_def json_as_str_def update_conv)
    next
      case False
      then obtain k where "Option.bind (map_of kvs (lit ''delivery_key'')) json_as_str = Some k" "trim k \<noteq> []"
        by (cases "Option.bind (map_of kvs (lit ''delivery_key'')) json_as_str") auto
      then show ?thesis using False JObj
        by (simp add: execution_detail_with_delivery_key_def get_str_def json_get_def)
    qed
  qed (use assms ne in \<open>simp_all add: execution_detail_with_delivery_key_def get_str_def json_get_def json_as_str_def update_conv\<close>)
qed

theorem wrapped_detail_has_key_witness:
  "\<exists>k. get_str (execution_detail_with_delivery_key (JInt 7) (lit ''j:1'')) (lit ''delivery_key'') = Some k \<and> trim k \<noteq> []"
proof -
  have "trim (lit ''j:1'') \<noteq> []" by (simp add: str_eval)
  from wrapped_detail_has_key [OF this, of "JInt 7"] show ?thesis by blast
qed

end
