(* ===== verification/Subscription.thy ===== *)
theory Subscription
  imports Event Portfolio
begin

text \<open>
  \<^verbatim>\<open>crates/hone-event-engine/src/subscription.rs\<close>: who gets an event. A registry is a list of
  subscriptions, each of a portfolio (an actor and the tickers it holds) or global (a list of actors,
  possibly restricted to some kinds of event), and is rebuilt from the portfolio directory. Neither
  implementation of the trait overrides \<^verbatim>\<open>severity_override\<close>, so the effective severity is the event's;
  the model keeps the maximum the code takes. The order in which a \<^verbatim>\<open>HashMap\<close> is enumerated is not
  specified: where the source returns it unsorted the model lists the entries in insertion order and
  the properties speak of the set.
\<close>

section \<open>Subscriptions\<close>

record portfolio_subscription =
  ps_id :: rstr
  ps_actor :: actor
  ps_symbols :: "rstr set"

record global_subscription =
  gs_id :: rstr
  gs_actors :: "actor list"
  gs_only_kinds :: "rstr set option"

datatype subscription = Holds portfolio_subscription | Broadcast global_subscription

definition portfolio_subscription_new :: "actor \<Rightarrow> rstr list \<Rightarrow> portfolio_subscription" where
  "portfolio_subscription_new a symbols =
     \<lparr>ps_id = lit ''portfolio:'' @ a_channel a @ lit '':'' @ unwrap_or [] (a_channel_scope a) @ lit '':'' @ a_user_id a,
      ps_actor = a,
      ps_symbols = set (filter (\<lambda>s. s \<noteq> []) (map to_ascii_uppercase symbols))\<rparr>"

definition global_subscription_new :: "rstr \<Rightarrow> actor list \<Rightarrow> global_subscription" where
  "global_subscription_new i actors = \<lparr>gs_id = i, gs_actors = actors, gs_only_kinds = None\<rparr>"

definition with_kinds :: "rstr list \<Rightarrow> global_subscription \<Rightarrow> global_subscription" where
  "with_kinds kinds g = g\<lparr>gs_only_kinds := Some (set kinds)\<rparr>"

fun sub_matches :: "subscription \<Rightarrow> market_event \<Rightarrow> bool" where
  "sub_matches (Holds p) e = (\<exists>s \<in> set (ev_symbols e). to_ascii_uppercase s \<in> ps_symbols p)"
| "sub_matches (Broadcast g) e =
     (case gs_only_kinds g of None \<Rightarrow> True | Some allow \<Rightarrow> kind_tag (ev_kind e) \<in> allow)"

fun sub_actors :: "subscription \<Rightarrow> actor list" where
  "sub_actors (Holds p) = [ps_actor p]"
| "sub_actors (Broadcast g) = gs_actors g"

definition severity_override :: "subscription \<Rightarrow> market_event \<Rightarrow> severity option" where
  "severity_override s e = None"

fun watch_symbols :: "subscription \<Rightarrow> rstr set" where
  "watch_symbols (Holds p) = ps_symbols p"
| "watch_symbols (Broadcast g) = {}"

section \<open>The registry\<close>

type_synonym registry = "subscription list"

definition actor_storage_key :: "actor \<Rightarrow> rstr" where
  "actor_storage_key a =
     a_channel a @ lit ''::'' @ unwrap_or [] (a_channel_scope a) @ lit ''::'' @ a_user_id a"

definition registry_actors :: "registry \<Rightarrow> actor list" where
  "registry_actors subs =
     (let by_key = fold (\<lambda>s m. fold (\<lambda>a m. if \<not> is_direct a then m else AList.update (actor_storage_key a) a m)
                          (sub_actors s) m) subs []
      in sort_key actor_storage_key (map snd by_key))"

definition watch_pool :: "registry \<Rightarrow> rstr list" where
  "watch_pool subs = sorted_list_of_set (to_ascii_uppercase ` (\<Union>s \<in> set subs. watch_symbols s))"

type_synonym hits = "(rstr \<times> (actor \<times> severity)) list"

text \<open>\<^verbatim>\<open>best.entry(key).and_modify(..).or_insert((actor, sev))\<close>\<close>

definition note_hit :: "severity \<Rightarrow> actor \<Rightarrow> hits \<Rightarrow> hits" where
  "note_hit sev a best =
     (case map_of best (actor_storage_key a) of
        None \<Rightarrow> best @ [(actor_storage_key a, (a, sev))]
      | Some (b, cur) \<Rightarrow>
          if rank sev > rank cur then AList.update (actor_storage_key a) (b, sev) best else best)"

definition resolve_sub :: "market_event \<Rightarrow> subscription \<Rightarrow> hits \<Rightarrow> hits" where
  "resolve_sub e s best =
     (if \<not> sub_matches s e then best
      else
        let sev = unwrap_or (ev_severity e) (severity_override s e) in
        fold (\<lambda>a best. if \<not> is_direct a then best else note_hit sev a best) (sub_actors s) best)"

definition resolve :: "registry \<Rightarrow> market_event \<Rightarrow> (actor \<times> severity) list" where
  "resolve subs e = map snd (fold (resolve_sub e) subs [])"

definition registry_from_portfolios :: "portfolio_disk \<Rightarrow> registry" where
  "registry_from_portfolios d =
     (let (reg, direct_actors) = fold (\<lambda>(a, p) (reg, ds).
            if \<not> is_direct a then (reg, ds)
            else
              let symbols = map h_symbol (pf_holdings p);
                  reg = (if symbols \<noteq> [] then reg @ [Holds (portfolio_subscription_new a symbols)] else reg)
              in (reg, ds @ [a])) (pf_list_all d) ([], [])
      in if direct_actors \<noteq> []
         then reg @ [Broadcast (with_kinds [lit ''social_post'', lit ''macro_event'']
                (global_subscription_new (lit ''social_global'') direct_actors))]
         else reg)"

record shared_registry =
  sr_inner :: registry
  sr_portfolio_dir :: "portfolio_disk option"

definition from_portfolio_dir :: "portfolio_disk \<Rightarrow> shared_registry" where
  "from_portfolio_dir d = \<lparr>sr_inner = registry_from_portfolios d, sr_portfolio_dir = Some d\<rparr>"

text \<open>\<^verbatim>\<open>refresh\<close>, with the directory as it is on disk at that moment.\<close>

definition registry_refresh :: "shared_registry \<Rightarrow> shared_registry \<times> nat option" where
  "registry_refresh sr =
     (case sr_portfolio_dir sr of
        None \<Rightarrow> (sr, None)
      | Some d \<Rightarrow>
          let new_reg = registry_from_portfolios d
          in (sr\<lparr>sr_inner := new_reg\<rparr>, Some (length new_reg)))"

section \<open>Lemmas\<close>

definition direct_entries :: "portfolio_disk \<Rightarrow> (actor \<times> portfolio) list" where
  "direct_entries d = filter (\<lambda>x. is_direct (fst x)) (pf_list_all d)"

definition holds_subscription :: "actor \<times> portfolio \<Rightarrow> subscription" where
  "holds_subscription x = Holds (portfolio_subscription_new (fst x) (map h_symbol (pf_holdings (snd x))))"

definition collect_entry :: "actor \<times> portfolio \<Rightarrow> registry \<times> actor list \<Rightarrow> registry \<times> actor list" where
  "collect_entry = (\<lambda>(a, p) (reg, ds).
     if \<not> is_direct a then (reg, ds)
     else
       let symbols = map h_symbol (pf_holdings p);
           reg = (if symbols \<noteq> [] then reg @ [Holds (portfolio_subscription_new a symbols)] else reg)
       in (reg, ds @ [a]))"

lemma collect_entry_cases:
  "collect_entry x (reg, ds) =
     (if \<not> is_direct (fst x) then (reg, ds)
      else (if pf_holdings (snd x) \<noteq> [] then reg @ [holds_subscription x] else reg, ds @ [fst x]))"
  by (cases x) (simp add: collect_entry_def Let_def holds_subscription_def)

lemma collect_entries:
  "fold collect_entry xs (reg, ds) =
   (reg @ map holds_subscription (filter (\<lambda>x. is_direct (fst x) \<and> pf_holdings (snd x) \<noteq> []) xs),
    ds @ map fst (filter (\<lambda>x. is_direct (fst x)) xs))"
  by (induction xs arbitrary: reg ds) (simp_all add: collect_entry_cases)

text \<open>The registry of a directory, in closed form.\<close>

lemma registry_from_portfolios_eq:
  "registry_from_portfolios d =
     map holds_subscription (filter (\<lambda>x. pf_holdings (snd x) \<noteq> []) (direct_entries d)) @
     (if direct_entries d \<noteq> []
      then [Broadcast \<lparr>gs_id = lit ''social_global'', gs_actors = map fst (direct_entries d),
              gs_only_kinds = Some {lit ''social_post'', lit ''macro_event''}\<rparr>] else [])"
proof -
  have "registry_from_portfolios d =
    (let (reg, direct_actors) = fold collect_entry (pf_list_all d) ([], [])
      in if direct_actors \<noteq> []
         then reg @ [Broadcast (with_kinds [lit ''social_post'', lit ''macro_event'']
                (global_subscription_new (lit ''social_global'') direct_actors))]
         else reg)"
    by (simp only: registry_from_portfolios_def collect_entry_def)
  moreover have "filter (\<lambda>x. pf_holdings (snd x) \<noteq> []) (direct_entries d) =
      filter (\<lambda>x. is_direct (fst x) \<and> pf_holdings (snd x) \<noteq> []) (pf_list_all d)"
    by (simp add: direct_entries_def)
  ultimately show ?thesis
    by (simp only: collect_entries append_Nil direct_entries_def [symmetric] map_is_Nil_conv prod.case
        with_kinds_def global_subscription_new_def Let_def list.set)
       simp
qed

text \<open>The hits: one entry per key, under the key of its actor, with the severity of the event.\<close>

definition wf_hits :: "severity \<Rightarrow> hits \<Rightarrow> bool" where
  "wf_hits sev best \<longleftrightarrow> distinct (map fst best) \<and>
     (\<forall>(k, a, s) \<in> set best. k = actor_storage_key a \<and> is_direct a \<and> s = sev)"

definition hit_actors :: "hits \<Rightarrow> actor set" where
  "hit_actors best = (fst \<circ> snd) ` set best"

lemma note_hit_wf:
  assumes "wf_hits sev best" "is_direct a"
  shows "wf_hits sev (note_hit sev a best)"
    "fst ` set (note_hit sev a best) = insert (actor_storage_key a) (fst ` set best)"
    "hit_actors (note_hit sev a best) \<subseteq> insert a (hit_actors best)"
proof -
  have s: "s = sev" if "map_of best k = Some (b, s)" for k b s
    using assms(1) map_of_SomeD [OF that] by (auto simp: wf_hits_def)
  have n: "actor_storage_key a \<notin> fst ` set best" if "map_of best (actor_storage_key a) = None"
    using that by (simp add: map_of_eq_None_iff)
  have i: "actor_storage_key a \<in> fst ` set best" if "map_of best (actor_storage_key a) = Some y" for y
    using map_of_SomeD [OF that] by force
  show "wf_hits sev (note_hit sev a best)"
    using assms s n by (auto simp: note_hit_def wf_hits_def split: option.splits)
  show "fst ` set (note_hit sev a best) = insert (actor_storage_key a) (fst ` set best)"
    using s i by (auto simp: note_hit_def insert_absorb split: option.splits)
  show "hit_actors (note_hit sev a best) \<subseteq> insert a (hit_actors best)"
    using s by (auto simp: note_hit_def hit_actors_def split: option.splits)
qed

abbreviation note_hits :: "severity \<Rightarrow> actor list \<Rightarrow> hits \<Rightarrow> hits" where
  "note_hits sev \<equiv> fold (\<lambda>a best. if \<not> is_direct a then best else note_hit sev a best)"

lemma note_hits_wf:
  assumes "wf_hits sev best"
  shows "wf_hits sev (note_hits sev as best) \<and>
    fst ` set (note_hits sev as best) = fst ` set best \<union> actor_storage_key ` {a \<in> set as. is_direct a} \<and>
    hit_actors (note_hits sev as best) \<subseteq> hit_actors best \<union> {a \<in> set as. is_direct a}"
  using assms
proof (induction as arbitrary: best)
  case (Cons a as)
  show ?case
  proof (cases "is_direct a")
    case True
    note n = note_hit_wf [OF Cons.prems True]
    show ?thesis using Cons.IH [OF n(1)] n(2,3) True by auto
  next
    case False
    then show ?thesis using Cons.IH [OF Cons.prems] by auto
  qed
qed simp

definition audience :: "registry \<Rightarrow> market_event \<Rightarrow> actor set" where
  "audience subs e = {a. is_direct a \<and> (\<exists>s \<in> set subs. sub_matches s e \<and> a \<in> set (sub_actors s))}"

lemma resolve_wf:
  assumes "wf_hits (ev_severity e) best"
  shows "wf_hits (ev_severity e) (fold (resolve_sub e) subs best) \<and>
    fst ` set (fold (resolve_sub e) subs best) = fst ` set best \<union> actor_storage_key ` audience subs e \<and>
    hit_actors (fold (resolve_sub e) subs best) \<subseteq> hit_actors best \<union> audience subs e"
  using assms
proof (induction subs arbitrary: best)
  case Nil
  then show ?case by (simp add: audience_def)
next
  case (Cons s subs)
  have aud: "audience (s # subs) e =
      (if sub_matches s e then {a \<in> set (sub_actors s). is_direct a} else {}) \<union> audience subs e"
    by (auto simp: audience_def)
  show ?case
  proof (cases "sub_matches s e")
    case False
    then show ?thesis using Cons.IH [OF Cons.prems] by (simp add: resolve_sub_def aud)
  next
    case True
    let ?b = "resolve_sub e s best"
    have b: "?b = note_hits (ev_severity e) (sub_actors s) best"
      using True by (simp add: resolve_sub_def severity_override_def)
    note w = note_hits_wf [OF Cons.prems, of "sub_actors s", folded b]
    show ?thesis using Cons.IH [of ?b] w True by (auto simp: aud)
  qed
qed

text \<open>The actors of a portfolio directory that an event concerns.\<close>

definition concerned :: "portfolio_disk \<Rightarrow> market_event \<Rightarrow> actor set" where
  "concerned d e = {a. is_direct a \<and> (\<exists>p. (a, p) \<in> set (pf_list_all d) \<and>
     (kind_tag (ev_kind e) \<in> {lit ''social_post'', lit ''macro_event''} \<or>
      (\<exists>h s. h \<in> set (pf_holdings p) \<and> s \<in> set (ev_symbols e) \<and> h_symbol h \<noteq> [] \<and>
         to_ascii_uppercase s = to_ascii_uppercase (h_symbol h))))}"

definition holds_one_of :: "market_event \<Rightarrow> portfolio \<Rightarrow> bool" where
  "holds_one_of e p \<longleftrightarrow> (\<exists>h s. h \<in> set (pf_holdings p) \<and> s \<in> set (ev_symbols e) \<and> h_symbol h \<noteq> [] \<and>
     to_ascii_uppercase s = to_ascii_uppercase (h_symbol h))"

lemma holds_subscription_simps:
  "sub_matches (holds_subscription x) e \<longleftrightarrow> holds_one_of e (snd x)"
  "sub_actors (holds_subscription x) = [fst x]"
  "watch_symbols (holds_subscription x) =
     to_ascii_uppercase ` {h_symbol h | h. h \<in> set (pf_holdings (snd x)) \<and> h_symbol h \<noteq> []}"
proof -
  have sy: "ps_symbols (portfolio_subscription_new a (map h_symbol hs)) =
      {to_ascii_uppercase (h_symbol h) | h. h \<in> set hs \<and> h_symbol h \<noteq> []}" for a hs
    by (auto simp: portfolio_subscription_new_def)
  show "sub_matches (holds_subscription x) e \<longleftrightarrow> holds_one_of e (snd x)"
    unfolding holds_subscription_def sub_matches.simps sy holds_one_of_def mem_Collect_eq by blast
  show "sub_actors (holds_subscription x) = [fst x]"
    by (simp add: holds_subscription_def portfolio_subscription_new_def)
  show "watch_symbols (holds_subscription x) =
     to_ascii_uppercase ` {h_symbol h | h. h \<in> set (pf_holdings (snd x)) \<and> h_symbol h \<noteq> []}"
    unfolding holds_subscription_def watch_symbols.simps sy by blast
qed

lemma concerned_eq:
  "concerned d e = {a. is_direct a \<and> (\<exists>p. (a, p) \<in> set (pf_list_all d) \<and>
     (kind_tag (ev_kind e) \<in> {lit ''social_post'', lit ''macro_event''} \<or> holds_one_of e p))}"
  by (simp add: concerned_def holds_one_of_def)

lemma audience_append: "audience (xs @ ys) e = audience xs e \<union> audience ys e"
  by (auto simp: audience_def)

lemma audience_concerned: "audience (registry_from_portfolios d) e = concerned d e"
proof -
  have holding: "holds_one_of e p \<Longrightarrow> pf_holdings p \<noteq> []" for p
    by (auto simp: holds_one_of_def)
  have a: "audience (map holds_subscription (filter (\<lambda>x. pf_holdings (snd x) \<noteq> []) (direct_entries d))) e =
      {a. is_direct a \<and> (\<exists>p. (a, p) \<in> set (pf_list_all d) \<and> holds_one_of e p)}"
    using holding by (force simp: audience_def direct_entries_def holds_subscription_simps)
  have b: "audience (if direct_entries d \<noteq> []
      then [Broadcast \<lparr>gs_id = lit ''social_global'', gs_actors = map fst (direct_entries d),
              gs_only_kinds = Some {lit ''social_post'', lit ''macro_event''}\<rparr>] else []) e =
      {a. is_direct a \<and> (\<exists>p. (a, p) \<in> set (pf_list_all d)) \<and>
        kind_tag (ev_kind e) \<in> {lit ''social_post'', lit ''macro_event''}}"
    by (cases "direct_entries d = []") (force simp: audience_def direct_entries_def filter_empty_conv)+
  show ?thesis
    unfolding registry_from_portfolios_eq audience_append a b concerned_eq by blast
qed

section \<open>Properties\<close>

text \<open>An event resolved against the registry of a portfolio directory reaches exactly the direct actors that
  hold one of its symbols, or all of them when it is a social post or a macro event; every actor key appears
  once, with the severity of the event; no group ever appears. The watch pool is the sorted set of the
  symbols those actors hold.\<close>

theorem resolve_reaches_holders:
  "(let hits = resolve (registry_from_portfolios d) e in
      fst ` set hits \<subseteq> concerned d e \<and>
      actor_storage_key ` fst ` set hits = actor_storage_key ` concerned d e \<and>
      distinct (map (actor_storage_key \<circ> fst) hits) \<and>
      snd ` set hits \<subseteq> {ev_severity e}) \<and>
   (let pool = watch_pool (registry_from_portfolios d) in
      sorted pool \<and> distinct pool \<and>
      set pool = {to_ascii_uppercase (h_symbol h) | a p h. (a, p) \<in> set (pf_list_all d) \<and> is_direct a \<and>
                     h \<in> set (pf_holdings p) \<and> h_symbol h \<noteq> []})"
proof -
  let ?r = "registry_from_portfolios d"
  let ?b = "fold (resolve_sub e) ?r []"
  have w: "wf_hits (ev_severity e) ?b" "fst ` set ?b = actor_storage_key ` concerned d e" "hit_actors ?b \<subseteq> concerned d e"
    using resolve_wf [of e "[]" ?r] by (simp_all add: audience_concerned wf_hits_def hit_actors_def)
  have k: "map (actor_storage_key \<circ> fst \<circ> snd) ?b = map fst ?b"
    using w(1) by (auto simp: wf_hits_def)
  have 1: "fst ` set (resolve ?r e) \<subseteq> concerned d e"
    using w(3) by (simp add: resolve_def hit_actors_def image_image)
  have 2: "actor_storage_key ` fst ` set (resolve ?r e) = actor_storage_key ` concerned d e"
    using arg_cong [OF k, of set] w(2) by (simp add: resolve_def image_image o_def)
  have 3: "distinct (map (actor_storage_key \<circ> fst) (resolve ?r e))"
    using k w(1) unfolding resolve_def wf_hits_def map_map o_assoc by metis
  have 4: "snd ` set (resolve ?r e) \<subseteq> {ev_severity e}"
    using w(1) by (auto simp: resolve_def wf_hits_def)
  have u: "(\<Union>s \<in> set ?r. watch_symbols s) =
      {to_ascii_uppercase (h_symbol h) | a p h. (a, p) \<in> set (pf_list_all d) \<and> is_direct a \<and>
                     h \<in> set (pf_holdings p) \<and> h_symbol h \<noteq> []}"
    unfolding registry_from_portfolios_eq direct_entries_def
    by (force simp: holds_subscription_simps)
  have fin: "finite (watch_symbols s)" if "s \<in> set ?r" for s
    using that by (auto simp: registry_from_portfolios_eq holds_subscription_def portfolio_subscription_new_def
        split: if_splits)
  have "to_ascii_uppercase x = x" if "x \<in> (\<Union>s \<in> set ?r. watch_symbols s)" for x
    using that unfolding u by auto
  then have up: "to_ascii_uppercase ` (\<Union>s \<in> set ?r. watch_symbols s) = (\<Union>s \<in> set ?r. watch_symbols s)"
    by force
  show ?thesis
    using 1 2 3 4 fin by (simp add: Let_def watch_pool_def up del: image_UN) (simp add: u)
qed

end
