(* ===== verification/Event_Store.thy ===== *)
theory Event_Store
  imports Event "HOL-Library.AList"
begin

text \<open>
  \<^verbatim>\<open>crates/hone-event-engine/src/store.rs\<close>: the event table (one row per event id, the first write
  wins), the append-only delivery log, and the queries by which the router and the digest decide. A SQL
  statement is the list function it denotes: a table is the list of its rows in insertion order, a join of
  the log with the events pairs every log row with the event of its id, \<open>LIKE\<close> is defined below. Where a
  statement has no \<^verbatim>\<open>ORDER BY\<close>, and between rows that tie in one, the model keeps the table order.

  Not under \<^verbatim>\<open>src\<close>, hence in the record \<open>serde\<close>: the JSON texts of kind, symbols and payload
  (\<^verbatim>\<open>serde_json\<close>), SQLite's \<^verbatim>\<open>json_extract\<close> of a text member, and the Unicode tables behind
  \<^verbatim>\<open>str::to_uppercase\<close>. \<open>es_fault\<close> is the error SQLite answers with while the database is unavailable.
\<close>

section \<open>Tables\<close>

record serde =
  sd_kind_json :: "event_kind \<Rightarrow> rstr"
  sd_kind_of :: "rstr \<Rightarrow> event_kind option"
  sd_kind_type :: "rstr \<Rightarrow> rstr option"
  sd_symbols_json :: "rstr list \<Rightarrow> rstr"
  sd_symbols_of :: "rstr \<Rightarrow> rstr list option"
  sd_payload_json :: "json \<Rightarrow> rstr"
  sd_payload_of :: "rstr \<Rightarrow> json option"
  sd_json_extract :: "rstr \<Rightarrow> rstr \<Rightarrow> rstr option"
  sd_to_uppercase :: "rstr \<Rightarrow> rstr"

record event_row =
  er_id :: rstr
  er_kind_json :: rstr
  er_severity :: rstr
  er_symbols_json :: rstr
  er_occurred_at_ts :: int
  er_title :: rstr
  er_summary :: rstr
  er_url :: "rstr option"
  er_source :: rstr
  er_payload_json :: rstr
  er_created_at_ts :: int

record log_row =
  dl_id :: int
  dl_event_id :: rstr
  dl_actor :: rstr
  dl_channel :: rstr
  dl_severity :: rstr
  dl_sent_at_ts :: int
  dl_status :: rstr
  dl_body :: "rstr option"

record event_store =
  es_events :: "event_row list"
  es_baseline_at_ts :: "int option"
  es_log :: "log_row list"
  es_next_id :: int
  es_mirror :: "market_event list option"
  es_mirror_fault :: bool
  es_fault :: "rstr option"

record delivery_log_filter =
  lf_since_ts :: "int option"
  lf_until_ts :: "int option"
  lf_actor :: "rstr option"
  lf_actor_channel :: "rstr option"
  lf_actor_user_id :: "rstr option"
  lf_event_id :: "rstr option"
  lf_status :: "rstr option"
  lf_delivery_channel :: "rstr option"
  lf_top_level_only :: bool
  lf_limit :: nat

record delivery_log_record =
  lr_row :: log_row
  lr_event_title :: "rstr option"
  lr_event_summary :: "rstr option"
  lr_event_kind :: "rstr option"
  lr_event_source :: "rstr option"
  lr_event_url :: "rstr option"
  lr_event_symbols :: "rstr list"

text \<open>The answer of a query while the database is available, its error otherwise.\<close>

definition answer :: "event_store \<Rightarrow> 'a \<Rightarrow> rstr + 'a" where
  "answer s v = (case es_fault s of Some e \<Rightarrow> Inl e | None \<Rightarrow> Inr v)"

text \<open>SQLite's \<open>LIKE\<close>: \<^verbatim>\<open>%\<close> stands for any text, \<^verbatim>\<open>_\<close> for any character, ASCII letters match in either case.\<close>

fun like :: "rstr \<Rightarrow> rstr \<Rightarrow> bool" where
  "like [] s = (s = [])"
| "like (p # ps) [] = (p = 37 \<and> like ps [])"
| "like (p # ps) (c # cs) =
     (if p = 37 then like ps (c # cs) \<or> like (p # ps) cs
      else (p = 95 \<or> ascii_lower p = ascii_lower c) \<and> like ps cs)"

definition any_quoted :: "rstr \<Rightarrow> rstr" where
  "any_quoted w = [37, 34] @ w @ [34, 37]"

definition max_of :: "int list \<Rightarrow> int option" where
  "max_of xs = (if xs = [] then None else Some (Max (set xs)))"

section \<open>Tags\<close>

fun severity_tag :: "severity \<Rightarrow> rstr" where
  "severity_tag Low = lit ''low''"
| "severity_tag Medium = lit ''medium''"
| "severity_tag High = lit ''high''"

definition severity_of_label :: "rstr \<Rightarrow> severity" where
  "severity_of_label l = (if l = lit ''high'' then High else if l = lit ''medium'' then Medium else Low)"

definition category_kind_tags :: "rstr \<Rightarrow> rstr list option" where
  "category_kind_tags category =
     (if category = lit ''price'' then Some [lit ''price_alert'', lit ''weekly52_high'', lit ''weekly52_low'']
      else if category = lit ''news'' then Some [lit ''news_critical'', lit ''social_post'']
      else if category = lit ''filing'' then Some [lit ''sec_filing'']
      else if category = lit ''earnings''
        then Some [lit ''earnings_upcoming'', lit ''earnings_released'', lit ''earnings_call_transcript'']
      else if category = lit ''macro'' then Some [lit ''macro_event'']
      else if category = lit ''corp_action'' then Some [lit ''dividend'', lit ''split'']
      else if category = lit ''analyst'' then Some [lit ''analyst_grade'']
      else None)"

definition parse_bps_from_band_id :: "rstr \<Rightarrow> int option" where
  "parse_bps_from_band_id i =
     (if \<not> starts_with i (lit ''price_band:'') then None
      else parse_i64 (List.last (split_by (\<lambda>c. c = 58) i)))"

definition price_band_id_pattern :: "serde \<Rightarrow> rstr \<Rightarrow> rstr \<Rightarrow> rstr option" where
  "price_band_id_pattern S symbol direction =
     (if direction = lit ''up'' \<or> direction = lit ''down''
      then Some (lit ''price_band:'' @ sd_to_uppercase S symbol @ lit '':%:'' @ direction @ lit '':%'')
      else None)"

section \<open>Events\<close>

definition ensure_baseline :: "instant \<Rightarrow> event_store \<Rightarrow> event_store" where
  "ensure_baseline now s =
     s\<lparr>es_baseline_at_ts := Some (unwrap_or (timestamp now) (es_baseline_at_ts s))\<rparr>"

definition store_open :: "instant \<Rightarrow> event_store \<Rightarrow> rstr + event_store" where
  "store_open now s = answer s (ensure_baseline now s)"

definition baseline_at :: "event_store \<Rightarrow> rstr + instant" where
  "baseline_at s =
     (case answer s (es_baseline_at_ts s) of
        Inl e \<Rightarrow> Inl e
      | Inr None \<Rightarrow> Inl (lit ''baseline '' @ [26410, 21021, 22987, 21270])
      | Inr (Some ts) \<Rightarrow> Inr (secs ts))"

definition row_of_event :: "serde \<Rightarrow> instant \<Rightarrow> market_event \<Rightarrow> event_row" where
  "row_of_event S now e =
     \<lparr>er_id = ev_id e, er_kind_json = sd_kind_json S (ev_kind e), er_severity = severity_tag (ev_severity e),
      er_symbols_json = sd_symbols_json S (ev_symbols e), er_occurred_at_ts = timestamp (ev_occurred_at e),
      er_title = ev_title e, er_summary = ev_summary e, er_url = ev_url e, er_source = ev_source e,
      er_payload_json = sd_payload_json S (ev_payload e), er_created_at_ts = timestamp now\<rparr>"

definition append_jsonl_mirror :: "market_event \<Rightarrow> event_store \<Rightarrow> event_store" where
  "append_jsonl_mirror e s =
     (case es_mirror s of
        None \<Rightarrow> s
      | Some es \<Rightarrow> if es_mirror_fault s then s else s\<lparr>es_mirror := Some (es @ [e])\<rparr>)"

definition insert_event :: "serde \<Rightarrow> instant \<Rightarrow> market_event \<Rightarrow> event_store \<Rightarrow> rstr + (event_store \<times> bool)" where
  "insert_event S now e s =
     answer s (if \<exists>r \<in> set (es_events s). er_id r = ev_id e then (s, False)
               else (append_jsonl_mirror e (s\<lparr>es_events := es_events s @ [row_of_event S now e]\<rparr>), True))"

definition purge_events_older_than :: "instant \<Rightarrow> int \<Rightarrow> event_store \<Rightarrow> rstr + (event_store \<times> nat)" where
  "purge_events_older_than now cutoff_days s =
     (let cutoff = timestamp now - cutoff_days * 86400;
          kept = filter (\<lambda>r. \<not> er_created_at_ts r < cutoff) (es_events s)
      in answer s (s\<lparr>es_events := kept\<rparr>, length (es_events s) - length kept))"

definition purge_delivery_log_older_than :: "instant \<Rightarrow> int \<Rightarrow> event_store \<Rightarrow> rstr + (event_store \<times> nat)" where
  "purge_delivery_log_older_than now cutoff_days s =
     (let cutoff = timestamp now - cutoff_days * 86400;
          kept = filter (\<lambda>r. \<not> dl_sent_at_ts r < cutoff) (es_log s)
      in answer s (s\<lparr>es_log := kept\<rparr>, length (es_log s) - length kept))"

definition count_events :: "event_store \<Rightarrow> rstr + nat" where
  "count_events s = answer s (length (es_events s))"

text \<open>A row read back as an event; a row whose kind does not parse is skipped.\<close>

definition event_of_row :: "serde \<Rightarrow> event_row \<Rightarrow> market_event option" where
  "event_of_row S r =
     (case sd_kind_of S (er_kind_json r) of
        None \<Rightarrow> None
      | Some k \<Rightarrow>
          Some \<lparr>ev_id = er_id r, ev_kind = k, ev_severity = severity_of_label (er_severity r),
                ev_symbols = unwrap_or [] (sd_symbols_of S (er_symbols_json r)),
                ev_occurred_at = secs (er_occurred_at_ts r), ev_title = er_title r, ev_summary = er_summary r,
                ev_url = er_url r, ev_source = er_source r,
                ev_payload = unwrap_or JNull (sd_payload_of S (er_payload_json r))\<rparr>)"

definition symbol_signal_kinds_in_window ::
    "serde \<Rightarrow> event_store \<Rightarrow> rstr \<Rightarrow> instant \<Rightarrow> instant \<Rightarrow> rstr + rstr list" where
  "symbol_signal_kinds_in_window S s symbol start stop =
     (let needle = any_quoted (sd_to_uppercase S symbol);
          rows = filter (\<lambda>r. er_occurred_at_ts r \<ge> timestamp start \<and> er_occurred_at_ts r \<le> timestamp stop
                              \<and> like needle (er_symbols_json r)) (es_events s)
      in answer s (List.map_filter (\<lambda>r. sd_kind_type S (er_kind_json r)) rows))"

definition today_signal_kinds :: "serde \<Rightarrow> instant \<Rightarrow> event_store \<Rightarrow> rstr \<Rightarrow> instant \<Rightarrow> rstr + rstr list" where
  "today_signal_kinds S now s symbol since = symbol_signal_kinds_in_window S s symbol since now"

definition list_upcoming_earnings :: "serde \<Rightarrow> event_store \<Rightarrow> instant \<Rightarrow> int \<Rightarrow> rstr + market_event list" where
  "list_upcoming_earnings S s now within_days =
     (let start = timestamp now; stop = timestamp (now + days within_days);
          rows = filter (\<lambda>r. er_occurred_at_ts r \<ge> start \<and> er_occurred_at_ts r \<le> stop
                              \<and> like (any_quoted (lit ''earnings_upcoming'')) (er_kind_json r)) (es_events s)
      in answer s (List.map_filter (event_of_row S) rows))"

definition list_global_digest_news_candidates ::
    "serde \<Rightarrow> event_store \<Rightarrow> instant \<Rightarrow> instant \<Rightarrow> rstr + market_event list" where
  "list_global_digest_news_candidates S s since until =
     (let rows = filter (\<lambda>r. er_occurred_at_ts r \<ge> timestamp since \<and> er_occurred_at_ts r < timestamp until
              \<and> like (lit ''%news_critical%'') (er_kind_json r)
              \<and> (like (lit ''rss:%'') (er_source r)
                 \<or> like (lit ''fmp.stock_news:%'') (er_source r) \<and> er_severity r \<in> {lit ''high'', lit ''medium''}
                 \<or> like (lit ''fmp.stock_news:%'') (er_source r)
                   \<and> sd_json_extract S (er_payload_json r) (lit ''source_class'') = Some (lit ''trusted'')))
              (es_events s)
      in answer s (List.map_filter (event_of_row S) (sort_key (\<lambda>r. - er_occurred_at_ts r) rows)))"

section \<open>The delivery log\<close>

definition log_delivery ::
    "instant \<Rightarrow> rstr \<Rightarrow> rstr \<Rightarrow> rstr \<Rightarrow> severity \<Rightarrow> rstr \<Rightarrow> rstr option \<Rightarrow> event_store \<Rightarrow> rstr + event_store" where
  "log_delivery now event_id actor channel sev status body s =
     answer s (s\<lparr>es_log := es_log s @ [\<lparr>dl_id = es_next_id s, dl_event_id = event_id, dl_actor = actor,
                   dl_channel = channel, dl_severity = severity_tag sev, dl_sent_at_ts = timestamp now,
                   dl_status = status, dl_body = body\<rparr>],
                 es_next_id := es_next_id s + 1\<rparr>)"

text \<open>\<^verbatim>\<open>delivery_log d JOIN events e ON d.event_id = e.id\<close>\<close>

definition joined :: "event_store \<Rightarrow> (log_row \<times> event_row) list" where
  "joined s = List.map_filter (\<lambda>d. map_option (Pair d) (find (\<lambda>r. er_id r = dl_event_id d) (es_events s))) (es_log s)"

definition high_sent :: "rstr \<Rightarrow> log_row \<Rightarrow> bool" where
  "high_sent actor d \<longleftrightarrow> dl_actor d = actor \<and> dl_severity d = lit ''high'' \<and> dl_status d = lit ''sent''
     \<and> dl_channel d = lit ''sink''"

definition count_high_sent_since_all :: "event_store \<Rightarrow> rstr \<Rightarrow> instant \<Rightarrow> rstr + nat" where
  "count_high_sent_since_all s actor since =
     answer s (length (filter (\<lambda>d. high_sent actor d \<and> dl_sent_at_ts d \<ge> timestamp since) (es_log s)))"

definition kind_in_tags :: "rstr list \<Rightarrow> event_row \<Rightarrow> bool" where
  "kind_in_tags tags r \<longleftrightarrow> (\<exists>t \<in> set tags. like (any_quoted t) (er_kind_json r))"

definition count_high_sent_since_for_category :: "event_store \<Rightarrow> rstr \<Rightarrow> instant \<Rightarrow> rstr \<Rightarrow> rstr + nat" where
  "count_high_sent_since_for_category s actor since category =
     (if category = lit ''all'' then count_high_sent_since_all s actor since
      else case category_kind_tags category of
             None \<Rightarrow> count_high_sent_since_all s actor since
           | Some tags \<Rightarrow>
               answer s (length (filter (\<lambda>(d, r). high_sent actor d \<and> dl_sent_at_ts d \<ge> timestamp since
                                                  \<and> kind_in_tags tags r) (joined s))))"

definition count_high_sent_since :: "event_store \<Rightarrow> rstr \<Rightarrow> instant \<Rightarrow> rstr + nat" where
  "count_high_sent_since s actor since = count_high_sent_since_for_category s actor since (lit ''all'')"

definition last_high_sink_send_for_symbol_all :: "serde \<Rightarrow> event_store \<Rightarrow> rstr \<Rightarrow> rstr \<Rightarrow> rstr + instant option" where
  "last_high_sink_send_for_symbol_all S s actor symbol =
     (let needle = any_quoted (sd_to_uppercase S symbol) in
      answer s (map_option secs (max_of (map (\<lambda>(d, r). dl_sent_at_ts d)
        (filter (\<lambda>(d, r). high_sent actor d \<and> like needle (er_symbols_json r)) (joined s))))))"

definition last_high_sink_send_for_symbol_category ::
    "serde \<Rightarrow> event_store \<Rightarrow> rstr \<Rightarrow> rstr \<Rightarrow> rstr \<Rightarrow> rstr option \<Rightarrow> rstr + instant option" where
  "last_high_sink_send_for_symbol_category S s actor symbol category firm =
     (if category = lit ''all'' then last_high_sink_send_for_symbol_all S s actor symbol
      else case category_kind_tags category of
             None \<Rightarrow> last_high_sink_send_for_symbol_all S s actor symbol
           | Some tags \<Rightarrow>
               (let needle = any_quoted (sd_to_uppercase S symbol) in
                answer s (map_option secs (max_of (map (\<lambda>(d, r). dl_sent_at_ts d)
                  (filter (\<lambda>(d, r). high_sent actor d \<and> like needle (er_symbols_json r) \<and> kind_in_tags tags r
                     \<and> (case firm of None \<Rightarrow> True
                        | Some f \<Rightarrow> sd_json_extract S (er_payload_json r) (lit ''gradingCompany'') = Some f))
                     (joined s)))))))"

definition last_high_sink_send_for_symbol :: "serde \<Rightarrow> event_store \<Rightarrow> rstr \<Rightarrow> rstr \<Rightarrow> rstr + instant option" where
  "last_high_sink_send_for_symbol S s actor symbol =
     last_high_sink_send_for_symbol_category S s actor symbol (lit ''all'') None"

definition last_high_sink_send_for_analyst_news_url ::
    "serde \<Rightarrow> event_store \<Rightarrow> rstr \<Rightarrow> rstr \<Rightarrow> rstr \<Rightarrow> instant \<Rightarrow> rstr + instant option" where
  "last_high_sink_send_for_analyst_news_url S s actor symbol news_url since =
     (let news_url = trim news_url in
      if news_url = [] then Inr None
      else
        let needle = any_quoted (sd_to_uppercase S symbol) in
        answer s (map_option secs (max_of (map (\<lambda>(d, r). dl_sent_at_ts d)
          (filter (\<lambda>(d, r). high_sent actor d \<and> dl_sent_at_ts d \<ge> timestamp since \<and> like needle (er_symbols_json r)
             \<and> like (any_quoted (lit ''analyst_grade'')) (er_kind_json r)
             \<and> (sd_json_extract S (er_payload_json r) (lit ''newsURL'') = Some news_url \<or> er_url r = Some news_url))
             (joined s))))))"

definition last_price_band_max_bps_for_symbol_direction ::
    "serde \<Rightarrow> event_store \<Rightarrow> rstr \<Rightarrow> rstr \<Rightarrow> rstr \<Rightarrow> instant \<Rightarrow> rstr + int option" where
  "last_price_band_max_bps_for_symbol_direction S s actor symbol direction since =
     (case price_band_id_pattern S symbol direction of
        None \<Rightarrow> Inr None
      | Some pattern \<Rightarrow>
          (let needle = any_quoted (sd_to_uppercase S symbol);
               ids = map (\<lambda>(d, r). er_id r)
                 (filter (\<lambda>(d, r). high_sent actor d \<and> dl_sent_at_ts d \<ge> timestamp since
                    \<and> like needle (er_symbols_json r) \<and> like pattern (er_id r)) (joined s))
           in answer s (max_of (List.map_filter parse_bps_from_band_id ids))))"

definition is_success :: "log_row \<Rightarrow> bool" where
  "is_success d \<longleftrightarrow> dl_status d \<in> {lit ''sent'', lit ''dryrun''}"

definition last_digest_success_at :: "event_store \<Rightarrow> rstr \<Rightarrow> rstr + instant option" where
  "last_digest_success_at s actor =
     answer s (map_option secs (max_of (map dl_sent_at_ts
       (filter (\<lambda>d. dl_actor d = actor \<and> dl_channel d = lit ''digest'' \<and> is_success d) (es_log s)))))"

definition list_missed_digest_items_since ::
    "serde \<Rightarrow> event_store \<Rightarrow> rstr \<Rightarrow> instant \<Rightarrow> rstr + (market_event \<times> rstr) list" where
  "list_missed_digest_items_since S s actor since =
     (let rows = filter (\<lambda>(d, r). dl_actor d = actor \<and> dl_channel d \<in> {lit ''digest_item'', lit ''prefs''}
              \<and> dl_status d \<notin> {lit ''sent'', lit ''dryrun'', lit ''queued''}
              \<and> dl_sent_at_ts d \<ge> timestamp since) (joined s)
      in answer s (List.map_filter (\<lambda>(d, r). map_option (\<lambda>e. (e, dl_status d)) (event_of_row S r))
           (sort_key (\<lambda>(d, r). - dl_sent_at_ts d) rows)))"

definition delivered_event_ids_since :: "event_store \<Rightarrow> rstr \<Rightarrow> instant \<Rightarrow> rstr + rstr set" where
  "delivered_event_ids_since s actor since =
     answer s (set (map dl_event_id (filter (\<lambda>d. dl_actor d = actor \<and> is_success d
                                                  \<and> dl_sent_at_ts d \<ge> timestamp since) (es_log s))))"

definition is_quiet_held :: "log_row \<Rightarrow> bool" where
  "is_quiet_held d \<longleftrightarrow> dl_channel d = lit ''sink'' \<and> dl_status d = lit ''quiet_held''"

definition list_actors_with_quiet_held_since :: "event_store \<Rightarrow> instant \<Rightarrow> rstr + rstr list" where
  "list_actors_with_quiet_held_since s since =
     answer s (remdups (map dl_actor (filter (\<lambda>d. is_quiet_held d \<and> dl_sent_at_ts d \<ge> timestamp since) (es_log s))))"

definition list_quiet_held_since :: "serde \<Rightarrow> event_store \<Rightarrow> rstr \<Rightarrow> instant \<Rightarrow> rstr + (market_event \<times> int) list" where
  "list_quiet_held_since S s actor since =
     (let rows = filter (\<lambda>(d, r). dl_actor d = actor \<and> is_quiet_held d \<and> dl_sent_at_ts d \<ge> timestamp since) (joined s)
      in answer s (List.map_filter (\<lambda>(d, r). map_option (\<lambda>e. (e, dl_sent_at_ts d)) (event_of_row S r))
           (sort_key (\<lambda>(d, r). dl_sent_at_ts d) rows)))"

definition list_recent_digest_item_events :: "serde \<Rightarrow> event_store \<Rightarrow> rstr \<Rightarrow> instant \<Rightarrow> rstr + market_event list" where
  "list_recent_digest_item_events S s actor since =
     answer s (List.map_filter (\<lambda>(d, r). event_of_row S r)
       (filter (\<lambda>(d, r). dl_actor d = actor \<and> dl_channel d = lit ''digest_item'' \<and> is_success d
                         \<and> dl_sent_at_ts d \<ge> timestamp since) (joined s)))"

definition broadcasted_event_ids_since :: "event_store \<Rightarrow> rstr \<Rightarrow> instant \<Rightarrow> rstr + rstr set" where
  "broadcasted_event_ids_since s channel since =
     answer s (set (map dl_event_id (filter (\<lambda>d. dl_channel d = channel \<and> is_success d
                                                  \<and> dl_sent_at_ts d \<ge> timestamp since) (es_log s))))"

section \<open>Reports\<close>

definition given :: "rstr option \<Rightarrow> rstr option" where
  "given v = opt_filter (\<lambda>x. x \<noteq> []) v"

definition filter_admits :: "delivery_log_filter \<Rightarrow> log_row \<Rightarrow> bool" where
  "filter_admits f d \<longleftrightarrow>
     (case lf_since_ts f of None \<Rightarrow> True | Some t \<Rightarrow> dl_sent_at_ts d \<ge> t)
     \<and> (case lf_until_ts f of None \<Rightarrow> True | Some t \<Rightarrow> dl_sent_at_ts d \<le> t)
     \<and> (case given (lf_actor f) of
          Some a \<Rightarrow> dl_actor d = a
        | None \<Rightarrow>
            (case given (lf_actor_channel f) of None \<Rightarrow> True | Some c \<Rightarrow> like (c @ lit ''::%'') (dl_actor d))
            \<and> (case given (lf_actor_user_id f) of None \<Rightarrow> True | Some u \<Rightarrow> like (lit ''%::'' @ u) (dl_actor d)))
     \<and> (case given (lf_event_id f) of None \<Rightarrow> True | Some i \<Rightarrow> dl_event_id d = i)
     \<and> (case given (lf_status f) of None \<Rightarrow> True | Some x \<Rightarrow> dl_status d = x)
     \<and> (case given (lf_delivery_channel f) of None \<Rightarrow> True | Some c \<Rightarrow> dl_channel d = c)
     \<and> (lf_top_level_only f \<longrightarrow> dl_channel d \<notin> {lit ''router'', lit ''digest_item'', lit ''global_digest_item''})"

definition list_recent_delivery_logs :: "serde \<Rightarrow> event_store \<Rightarrow> delivery_log_filter \<Rightarrow> rstr + delivery_log_record list" where
  "list_recent_delivery_logs S s f =
     (let rows = sort_key (\<lambda>d. - dl_sent_at_ts d) (sort_key (\<lambda>d. - dl_id d) (filter (filter_admits f) (es_log s)))
      in answer s (map (\<lambda>d.
           let e = find (\<lambda>r. er_id r = dl_event_id d) (es_events s) in
           \<lparr>lr_row = d, lr_event_title = map_option er_title e, lr_event_summary = map_option er_summary e,
            lr_event_kind = Option.bind (map_option er_kind_json e) (sd_kind_type S),
            lr_event_source = map_option er_source e, lr_event_url = Option.bind e er_url,
            lr_event_symbols = unwrap_or [] (Option.bind (map_option er_symbols_json e) (sd_symbols_of S))\<rparr>)
           (take (max (lf_limit f) 1) rows)))"

definition event_breakdown_by_source :: "event_store \<Rightarrow> instant \<Rightarrow> instant \<Rightarrow> rstr + (rstr \<times> nat) list" where
  "event_breakdown_by_source s since until =
     (let srcs = map er_source (filter (\<lambda>r. er_created_at_ts r \<ge> timestamp since \<and> er_created_at_ts r < timestamp until)
                                  (es_events s))
      in answer s (sort_key (\<lambda>(x, n). - int n) (map (\<lambda>x. (x, count_list srcs x)) (remdups srcs))))"

definition delivery_breakdown_per_actor :: "event_store \<Rightarrow> instant \<Rightarrow> instant \<Rightarrow> rstr + (rstr \<times> rstr \<times> nat) list" where
  "delivery_breakdown_per_actor s since until =
     (let groups = map (\<lambda>d. (dl_actor d, dl_status d))
            (filter (\<lambda>d. dl_sent_at_ts d \<ge> timestamp since \<and> dl_sent_at_ts d < timestamp until) (es_log s))
      in answer s (map (\<lambda>(a, x). (a, x, count_list groups (a, x)))
           (sort_key fst (sort_key snd (remdups groups)))))"

section \<open>Sequences of writes\<close>

datatype store_op =
    InsertEvent instant market_event
  | LogDelivery instant rstr rstr rstr severity rstr "rstr option"
  | PurgeEvents instant int
  | PurgeLog instant int

definition settle :: "event_store \<Rightarrow> rstr + event_store \<Rightarrow> event_store" where
  "settle s r = (case r of Inl e \<Rightarrow> s | Inr s' \<Rightarrow> s')"

definition settle_fst :: "event_store \<Rightarrow> rstr + (event_store \<times> 'a) \<Rightarrow> event_store" where
  "settle_fst s r = (case r of Inl e \<Rightarrow> s | Inr (s', x) \<Rightarrow> s')"

fun store_step :: "serde \<Rightarrow> store_op \<Rightarrow> event_store \<Rightarrow> event_store" where
  "store_step S (InsertEvent now e) s = settle_fst s (insert_event S now e s)"
| "store_step S (LogDelivery now i a c sev st b) s = settle s (log_delivery now i a c sev st b s)"
| "store_step S (PurgeEvents now n) s = settle_fst s (purge_events_older_than now n s)"
| "store_step S (PurgeLog now n) s = settle_fst s (purge_delivery_log_older_than now n s)"

definition store_run :: "serde \<Rightarrow> store_op list \<Rightarrow> event_store \<Rightarrow> event_store" where
  "store_run S ops s = fold (store_step S) ops s"

definition wf_store :: "event_store \<Rightarrow> bool" where
  "wf_store s \<longleftrightarrow> distinct (map er_id (es_events s)) \<and> sorted_wrt (<) (map dl_id (es_log s))
     \<and> (\<forall>d \<in> set (es_log s). dl_id d < es_next_id s)"

text \<open>Whether an operation deletes an event row created at \<open>ts\<close>, or a log row sent at \<open>ts\<close>.\<close>

fun purges_event :: "int \<Rightarrow> store_op \<Rightarrow> bool" where
  "purges_event ts (PurgeEvents now n) = (ts < timestamp now - n * 86400)"
| "purges_event ts _ = False"

fun purges_log :: "int \<Rightarrow> store_op \<Rightarrow> bool" where
  "purges_log ts (PurgeLog now n) = (ts < timestamp now - n * 86400)"
| "purges_log ts _ = False"

lemma answer_simps [simp]:
  "es_fault s = None \<Longrightarrow> answer s v = Inr v" "es_fault s = Some e \<Longrightarrow> answer s v = Inl e"
  "answer s v = Inr w \<longleftrightarrow> es_fault s = None \<and> v = w"
  by (auto simp: answer_def split: option.splits)

lemma append_jsonl_mirror_simps [simp]:
  "es_events (append_jsonl_mirror e s) = es_events s" "es_log (append_jsonl_mirror e s) = es_log s"
  "es_next_id (append_jsonl_mirror e s) = es_next_id s" "es_fault (append_jsonl_mirror e s) = es_fault s"
  by (simp_all add: append_jsonl_mirror_def split: option.splits)

text \<open>One step, told from the tables.\<close>

lemma store_step_tables:
  assumes "es_fault s = None"
  shows "es_fault (store_step S op s) = None"
    "es_events (store_step S op s) =
       (case op of
          InsertEvent now e \<Rightarrow> if ev_id e \<in> er_id ` set (es_events s) then es_events s
                               else es_events s @ [row_of_event S now e]
        | PurgeEvents now n \<Rightarrow> filter (\<lambda>r. \<not> purges_event (er_created_at_ts r) op) (es_events s)
        | _ \<Rightarrow> es_events s)"
    "es_log (store_step S op s) =
       (case op of
          LogDelivery now i a c sev st b \<Rightarrow>
            es_log s @ [\<lparr>dl_id = es_next_id s, dl_event_id = i, dl_actor = a, dl_channel = c,
                          dl_severity = severity_tag sev, dl_sent_at_ts = timestamp now, dl_status = st, dl_body = b\<rparr>]
        | PurgeLog now n \<Rightarrow> filter (\<lambda>d. \<not> purges_log (dl_sent_at_ts d) op) (es_log s)
        | _ \<Rightarrow> es_log s)"
    "es_next_id (store_step S op s) =
       (case op of LogDelivery now i a c sev st b \<Rightarrow> es_next_id s + 1 | _ \<Rightarrow> es_next_id s)"
  using assms
  by (cases op; simp add: settle_def settle_fst_def insert_event_def log_delivery_def purge_events_older_than_def
      purge_delivery_log_older_than_def image_iff Let_def eq_commute)+

lemma store_step_fault: "es_fault s = Some e \<Longrightarrow> store_step S op s = s"
  by (cases op; simp add: settle_def settle_fst_def insert_event_def log_delivery_def purge_events_older_than_def
      purge_delivery_log_older_than_def Let_def)

declare store_step.simps [simp del]

lemma store_step_wf:
  assumes "wf_store s"
  shows "wf_store (store_step S op s)"
proof (cases "es_fault s")
  case None
  have f: "distinct (map er_id (filter P (es_events s)))" "sorted_wrt (<) (map dl_id (filter Q (es_log s)))" for P Q
    using assms by (auto simp: wf_store_def distinct_map_filter sorted_wrt_map intro: sorted_wrt_filter)
  show ?thesis
    using assms f
    by (cases op) (auto simp: wf_store_def store_step_tables [OF None] row_of_event_def sorted_wrt_append)
qed (use assms store_step_fault in simp)

lemma store_step_keeps:
  "r \<in> set (es_events s) \<Longrightarrow> \<not> purges_event (er_created_at_ts r) op \<Longrightarrow> r \<in> set (es_events (store_step S op s))"
  "d \<in> set (es_log s) \<Longrightarrow> \<not> purges_log (dl_sent_at_ts d) op \<Longrightarrow> d \<in> set (es_log (store_step S op s))"
proof -
  show "r \<in> set (es_events s) \<Longrightarrow> \<not> purges_event (er_created_at_ts r) op \<Longrightarrow> r \<in> set (es_events (store_step S op s))"
    by (cases "es_fault s"; cases op) (simp_all add: store_step_tables store_step_fault)
  show "d \<in> set (es_log s) \<Longrightarrow> \<not> purges_log (dl_sent_at_ts d) op \<Longrightarrow> d \<in> set (es_log (store_step S op s))"
    by (cases "es_fault s"; cases op) (simp_all add: store_step_tables store_step_fault)
qed

lemma store_run_wf: "wf_store s \<Longrightarrow> wf_store (store_run S ops s)"
  unfolding store_run_def by (induction ops arbitrary: s) (auto intro: store_step_wf)

lemma store_run_fault: "es_fault s = None \<Longrightarrow> es_fault (store_run S ops s) = None"
  unfolding store_run_def by (induction ops arbitrary: s) (auto simp: store_step_tables(1))

lemma store_run_keeps:
  "r \<in> set (es_events s) \<Longrightarrow> \<forall>op \<in> set ops. \<not> purges_event (er_created_at_ts r) op \<Longrightarrow>
     r \<in> set (es_events (store_run S ops s))"
  "d \<in> set (es_log s) \<Longrightarrow> \<forall>op \<in> set ops. \<not> purges_log (dl_sent_at_ts d) op \<Longrightarrow>
     d \<in> set (es_log (store_run S ops s))"
  unfolding store_run_def by (induction ops arbitrary: s) (auto intro: store_step_keeps)

lemma find_distinct:
  assumes "distinct (map f xs)" "x \<in> set xs"
  shows "find (\<lambda>y. f y = f x) xs = Some x"
  using assms by (induction xs) (auto simp: image_iff)

lemma joined_mem:
  assumes "wf_store s" "d \<in> set (es_log s)" "r \<in> set (es_events s)" "er_id r = dl_event_id d"
  shows "(d, r) \<in> set (joined s)"
  using assms find_distinct [of er_id "es_events s" r]
  by (force simp: joined_def wf_store_def set_map_filter)

section \<open>Properties\<close>

text \<open>The store only ever grows, except for a purge: after any sequence of inserts, log entries and purges
  the event ids are distinct and the log ids ascend, a row of either table that was there is still there,
  unchanged, unless one of the purges was asked to delete rows of its age; inserting an id that is there
  changes nothing.\<close>

theorem store_append_only:
  assumes "wf_store s"
  shows "wf_store (store_run S ops s) \<and>
    (\<forall>r \<in> set (es_events s). r \<in> set (es_events (store_run S ops s))
        \<or> (\<exists>op \<in> set ops. purges_event (er_created_at_ts r) op)) \<and>
    (\<forall>d \<in> set (es_log s). d \<in> set (es_log (store_run S ops s))
        \<or> (\<exists>op \<in> set ops. purges_log (dl_sent_at_ts d) op)) \<and>
    (ev_id e \<in> er_id ` set (es_events s) \<longrightarrow> store_step S (InsertEvent now e) s = s)"
proof -
  have "store_step S (InsertEvent now e) s = s" if "ev_id e \<in> er_id ` set (es_events s)"
    using that by (force simp: store_step.simps insert_event_def settle_fst_def answer_def split: option.splits)
  then show ?thesis using store_run_wf [OF assms] store_run_keeps by metis
qed

definition demo_event :: market_event where
  "demo_event = \<lparr>ev_id = lit ''split:AAPL'', ev_kind = Split, ev_severity = High, ev_symbols = [lit ''AAPL''],
     ev_occurred_at = 0, ev_title = lit ''t'', ev_summary = [], ev_url = None, ev_source = lit ''fmp'', ev_payload = JNull\<rparr>"

text \<open>The serialisation of the demonstration event, as \<^verbatim>\<open>serde_json\<close> writes it.\<close>

definition demo_serde :: serde where
  "demo_serde = \<lparr>sd_kind_json = (\<lambda>k. lit ''{'' @ [34] @ lit ''type'' @ [34, 58, 34] @ kind_tag k @ [34, 125]),
     sd_kind_of = (\<lambda>t. if contains_str t (lit ''split'') then Some Split else None),
     sd_kind_type = (\<lambda>t. None),
     sd_symbols_json = (\<lambda>xs. [91] @ intercalate [44] (map (\<lambda>x. [34] @ x @ [34]) xs) @ [93]),
     sd_symbols_of = (\<lambda>t. if length t < 4 then None else Some [take (length t - 4) (drop 2 t)]),
     sd_payload_json = (\<lambda>j. lit ''null''), sd_payload_of = (\<lambda>t. Some JNull),
     sd_json_extract = (\<lambda>t k. None), sd_to_uppercase = to_ascii_uppercase\<rparr>"

definition demo_row :: log_row where
  "demo_row = \<lparr>dl_id = 1, dl_event_id = [], dl_actor = [], dl_channel = [], dl_severity = [], dl_sent_at_ts = 100000,
     dl_status = [], dl_body = None\<rparr>"

definition demo_store :: event_store where
  "demo_store = \<lparr>es_events = [], es_baseline_at_ts = None, es_log = [demo_row], es_next_id = 2, es_mirror = None,
     es_mirror_fault = False, es_fault = None\<rparr>"

theorem store_append_only_witness:
  "demo_row \<in> set (es_log (store_run demo_serde [PurgeLog (secs 150000) 1] demo_store))"
proof -
  have "wf_store demo_store" by (simp add: wf_store_def demo_store_def demo_row_def)
  from store_append_only [OF this, of demo_serde "[PurgeLog (secs 150000) 1]"]
  have "\<forall>d \<in> set (es_log demo_store). d \<in> set (es_log (store_run demo_serde [PurgeLog (secs 150000) 1] demo_store))
        \<or> purges_log (dl_sent_at_ts d) (PurgeLog (secs 150000) 1)" by simp
  moreover have "\<not> purges_log (dl_sent_at_ts demo_row) (PurgeLog (secs 150000) 1)" by (simp add: demo_row_def)
  ultimately show ?thesis by (simp add: demo_store_def del: purges_log.simps)
qed

text \<open>An event held back in quiet hours is not lost: whatever is written afterwards, unless a purge reaches back
  to it, the flush at the end of the quiet hours reads it back from the log with its original content (its time
  to the second) and the time it was held.\<close>

theorem quiet_held_roundtrip:
  assumes "wf_store s" "es_fault s = None" "ev_id e \<notin> er_id ` set (es_events s)"
    and "sd_kind_of S (sd_kind_json S (ev_kind e)) = Some (ev_kind e)"
      "sd_symbols_of S (sd_symbols_json S (ev_symbols e)) = Some (ev_symbols e)"
      "sd_payload_of S (sd_payload_json S (ev_payload e)) = Some (ev_payload e)"
    and "\<forall>op \<in> set ops. \<not> purges_event (timestamp stored_at) op \<and> \<not> purges_log (timestamp held_at) op"
    and "since \<le> held_at"
  shows "\<exists>held. list_quiet_held_since S
      (store_run S (InsertEvent stored_at e # LogDelivery held_at (ev_id e) a (lit ''sink'') High (lit ''quiet_held'') None # ops) s)
      a since = Inr held \<and>
    (e\<lparr>ev_occurred_at := secs (timestamp (ev_occurred_at e))\<rparr>, timestamp held_at) \<in> set held"
proof -
  let ?r = "row_of_event S stored_at e"
  let ?d = "\<lparr>dl_id = es_next_id s, dl_event_id = ev_id e, dl_actor = a, dl_channel = lit ''sink'', dl_severity = lit ''high'',
     dl_sent_at_ts = timestamp held_at, dl_status = lit ''quiet_held'', dl_body = None\<rparr>"
  let ?hold = "LogDelivery held_at (ev_id e) a (lit ''sink'') High (lit ''quiet_held'') None"
  let ?s2 = "store_step S ?hold (store_step S (InsertEvent stored_at e) s)"
  let ?t = "store_run S (InsertEvent stored_at e # ?hold # ops) s"
  have t: "?t = store_run S ops ?s2" by (simp add: store_run_def)
  note f = store_step_tables(1)
  have s2: "?r \<in> set (es_events ?s2)" "?d \<in> set (es_log ?s2)"
    using assms(2,3) by (simp_all add: store_step_tables f)
  have "?r \<in> set (es_events ?t)" "?d \<in> set (es_log ?t)"
    using s2 assms(7) unfolding t by (auto intro!: store_run_keeps simp: row_of_event_def)
  then have j: "(?d, ?r) \<in> set (joined ?t)"
    by (intro joined_mem store_run_wf assms(1)) (simp_all add: row_of_event_def)
  have sev: "severity_of_label (severity_tag x) = x" for x
    by (cases x) (simp_all add: severity_of_label_def)
  have read: "event_of_row S ?r = Some (e\<lparr>ev_occurred_at := secs (timestamp (ev_occurred_at e))\<rparr>)"
    using assms(4-6) by (simp add: event_of_row_def row_of_event_def sev)
  have "es_fault ?t = None" by (rule store_run_fault [OF assms(2)])
  then show ?thesis
    using j read timestamp_mono [OF assms(8)]
    by (force simp: list_quiet_held_since_def Let_def set_map_filter is_quiet_held_def)
qed

theorem quiet_held_roundtrip_witness:
  "\<exists>held. list_quiet_held_since demo_serde
      (store_run demo_serde [InsertEvent 0 demo_event,
         LogDelivery 0 (ev_id demo_event) (lit ''a'') (lit ''sink'') High (lit ''quiet_held'') None,
         PurgeLog (days 7) 30] demo_store) (lit ''a'') 0 = Inr held \<and>
    (demo_event\<lparr>ev_occurred_at := secs (timestamp 0)\<rparr>, 0) \<in> set held"
proof -
  have "\<exists>held. list_quiet_held_since demo_serde
      (store_run demo_serde (InsertEvent 0 demo_event #
         LogDelivery 0 (ev_id demo_event) (lit ''a'') (lit ''sink'') High (lit ''quiet_held'') None #
         [PurgeLog (days 7) 30]) demo_store) (lit ''a'') 0 = Inr held \<and>
    (demo_event\<lparr>ev_occurred_at := secs (timestamp (ev_occurred_at demo_event))\<rparr>, timestamp 0) \<in> set held"
    by (rule quiet_held_roundtrip)
      (simp_all add: wf_store_def demo_store_def demo_row_def demo_event_def demo_serde_def lit_def timestamp_def days_def
        secs_def)
  then show ?thesis by (simp add: demo_event_def timestamp_def)
qed

end
