(* ===== verification/Digest_Buffer.thy ===== *)
theory Digest_Buffer
  imports Event Actor "HOL-Library.AList"
begin

text \<open>
  \<^verbatim>\<open>crates/hone-event-engine/src/digest/buffer.rs\<close>: the per-actor files in which the events of the next
  digest wait, one JSON record per line. A line is a record, blank, text that does not parse, or not UTF-8
  (reading stops there). A price alert replaces the alerts of the same symbol and day. Draining renames the
  file and reads it. The lemmas show that, on clean files, the directory is a family of queues.

  \<open>alnum\<close> stands for the Unicode table behind \<^verbatim>\<open>char::is_alphanumeric\<close>, \<open>upper\<close> for the one behind
  \<^verbatim>\<open>str::to_uppercase\<close>; \<open>bd_fault\<close> is the error the file system answers with while it rejects writes.
\<close>

record buffer_record =
  br_actor :: actor
  br_event :: market_event
  br_enqueued_at :: instant

datatype buffer_line = Rec buffer_record | BlankLine | Junk rstr | BadUtf8

record digest_dir =
  bd_files :: "(rstr \<times> buffer_line list) list"
  bd_flushed :: "((rstr \<times> int) \<times> buffer_line list) list"
  bd_fault :: "rstr option"

record buffer_env =
  be_chrono :: chrono
  be_alnum :: "nat \<Rightarrow> bool"
  be_upper :: "rstr \<Rightarrow> rstr"

definition sanitize :: "buffer_env \<Rightarrow> rstr \<Rightarrow> rstr" where
  "sanitize B s = map (\<lambda>c. if be_alnum B c \<or> c = 45 then c else 95) s"

definition actor_slug :: "buffer_env \<Rightarrow> actor \<Rightarrow> rstr" where
  "actor_slug B a =
     sanitize B (a_channel a) @ lit ''__'' @ sanitize B (unwrap_or (lit ''direct'') (a_channel_scope a))
       @ lit ''__'' @ sanitize B (a_user_id a)"

definition price_digest_key :: "buffer_env \<Rightarrow> market_event \<Rightarrow> rstr option" where
  "price_digest_key B e =
     (if \<not> is_price_alert (ev_kind e) then None
      else case ev_symbols e of
             [] \<Rightarrow> None
           | s # _ \<Rightarrow>
               (let symbol = be_upper B s;
                    date = unwrap_or (ch_fmt_date (be_chrono B) (local_date 0 (ev_occurred_at e)))
                             (get_str (ev_payload e) (lit ''hone_price_trade_date''))
                in Some (symbol @ lit '':'' @ date)))"

text \<open>\<^verbatim>\<open>lines().map_while(Result::ok)\<close>\<close>

definition readable :: "buffer_line list \<Rightarrow> buffer_line list" where
  "readable ls = takeWhile (\<lambda>l. l \<noteq> BadUtf8) ls"

fun line_event :: "buffer_line \<Rightarrow> market_event option" where
  "line_event (Rec r) = Some (br_event r)"
| "line_event _ = None"

definition file_lines :: "digest_dir \<Rightarrow> rstr \<Rightarrow> buffer_line list" where
  "file_lines d slug = unwrap_or [] (map_of (bd_files d) slug)"

definition enqueue_latest ::
    "buffer_env \<Rightarrow> actor \<Rightarrow> buffer_line \<Rightarrow> rstr \<Rightarrow> digest_dir \<Rightarrow> rstr + digest_dir" where
  "enqueue_latest B a line key d =
     (let slug = actor_slug B a;
          kept = filter (\<lambda>l. l \<noteq> BlankLine \<and> Option.bind (line_event l) (price_digest_key B) \<noteq> Some key)
                   (readable (file_lines d slug))
      in case bd_fault d of
           Some e \<Rightarrow> Inl e
         | None \<Rightarrow> Inr (d\<lparr>bd_files := AList.update slug (kept @ [line]) (bd_files d)\<rparr>))"

definition enqueue :: "buffer_env \<Rightarrow> instant \<Rightarrow> actor \<Rightarrow> market_event \<Rightarrow> digest_dir \<Rightarrow> rstr + digest_dir" where
  "enqueue B now a e d =
     (let line = Rec \<lparr>br_actor = a, br_event = e, br_enqueued_at = now\<rparr> in
      case price_digest_key B e of
        Some key \<Rightarrow> enqueue_latest B a line key d
      | None \<Rightarrow>
          (case bd_fault d of
             Some err \<Rightarrow> Inl err
           | None \<Rightarrow>
               let slug = actor_slug B a
               in Inr (d\<lparr>bd_files := AList.update slug (file_lines d slug @ [line]) (bd_files d)\<rparr>)))"

definition drain_actor :: "buffer_env \<Rightarrow> instant \<Rightarrow> actor \<Rightarrow> digest_dir \<Rightarrow> rstr + (digest_dir \<times> market_event list)" where
  "drain_actor B now a d =
     (let slug = actor_slug B a in
      case map_of (bd_files d) slug of
        None \<Rightarrow> Inr (d, [])
      | Some ls \<Rightarrow>
          (case bd_fault d of
             Some e \<Rightarrow> Inl e
           | None \<Rightarrow>
               Inr (d\<lparr>bd_files := AList.delete slug (bd_files d),
                      bd_flushed := AList.update (slug, timestamp now) ls (bd_flushed d)\<rparr>,
                    List.map_filter line_event (readable ls))))"

definition first_buffer_actor :: "buffer_line list \<Rightarrow> actor option" where
  "first_buffer_actor ls = (case ls of Rec r # _ \<Rightarrow> Some (br_actor r) | _ \<Rightarrow> None)"

text \<open>The order of a \<^verbatim>\<open>HashMap\<close>'s values is not specified; the model lists them by first insertion.\<close>

definition list_pending_actors :: "buffer_env \<Rightarrow> digest_dir \<Rightarrow> actor list" where
  "list_pending_actors B d =
     map snd (fold (\<lambda>(slug, ls) m.
        case first_buffer_actor ls of None \<Rightarrow> m | Some a \<Rightarrow> AList.update (actor_slug B a) a m) (bd_files d) [])"

section \<open>The directory as a family of queues\<close>

text \<open>The contract of the buffer: a queue of events per slug, in which a price alert takes the place of the
  earlier alert of its key.\<close>

definition pushed :: "buffer_env \<Rightarrow> market_event \<Rightarrow> market_event list \<Rightarrow> market_event list" where
  "pushed B e q = filter (\<lambda>x. price_digest_key B e = None \<or> price_digest_key B x \<noteq> price_digest_key B e) q @ [e]"

definition queued :: "digest_dir \<Rightarrow> rstr \<Rightarrow> market_event list" where
  "queued d slug = List.map_filter line_event (readable (file_lines d slug))"

datatype digest_op = Enqueue instant actor market_event | Drain instant actor

text \<open>What a step hands to the caller: the drained events, nothing on an enqueue.\<close>

fun buffer_step :: "buffer_env \<Rightarrow> digest_op \<Rightarrow> digest_dir \<Rightarrow> rstr + (digest_dir \<times> market_event list)" where
  "buffer_step B (Enqueue now a e) d = (case enqueue B now a e d of Inl x \<Rightarrow> Inl x | Inr d' \<Rightarrow> Inr (d', []))"
| "buffer_step B (Drain now a) d = drain_actor B now a d"

fun queue_step ::
    "buffer_env \<Rightarrow> digest_op \<Rightarrow> (rstr \<Rightarrow> market_event list) \<Rightarrow> (rstr \<Rightarrow> market_event list) \<times> market_event list" where
  "queue_step B (Enqueue now a e) q = (q(actor_slug B a := pushed B e (q (actor_slug B a))), [])"
| "queue_step B (Drain now a) q = (q(actor_slug B a := []), q (actor_slug B a))"

fun buffer_run :: "buffer_env \<Rightarrow> digest_op list \<Rightarrow> digest_dir \<Rightarrow> rstr + (digest_dir \<times> market_event list list)" where
  "buffer_run B [] d = Inr (d, [])"
| "buffer_run B (op # ops) d =
     (case buffer_step B op d of
        Inl x \<Rightarrow> Inl x
      | Inr (d', out) \<Rightarrow>
          (case buffer_run B ops d' of Inl x \<Rightarrow> Inl x | Inr (d'', outs) \<Rightarrow> Inr (d'', out # outs)))"

fun queue_run ::
    "buffer_env \<Rightarrow> digest_op list \<Rightarrow> (rstr \<Rightarrow> market_event list) \<Rightarrow> (rstr \<Rightarrow> market_event list) \<times> market_event list list" where
  "queue_run B [] q = (q, [])"
| "queue_run B (op # ops) q =
     (let (q', out) = queue_step B op q; (q'', outs) = queue_run B ops q' in (q'', out # outs))"

definition clean :: "digest_dir \<Rightarrow> bool" where
  "clean d \<longleftrightarrow> bd_fault d = None \<and> (\<forall>slug. BadUtf8 \<notin> set (file_lines d slug))"

text \<open>At most one price alert per key waits in a queue.\<close>

definition one_per_key :: "buffer_env \<Rightarrow> market_event list \<Rightarrow> bool" where
  "one_per_key B q \<longleftrightarrow> distinct (List.map_filter (price_digest_key B) q)"

section \<open>Lemmas\<close>

lemma readable_clean: "BadUtf8 \<notin> set ls \<Longrightarrow> readable ls = ls"
  by (simp add: readable_def takeWhile_eq_all_conv) metis

lemma file_lines_update:
  "file_lines (d\<lparr>bd_files := AList.update k ls (bd_files d)\<rparr>) j = (if j = k then ls else file_lines d j)"
  by (simp add: file_lines_def update_conv)

lemma file_lines_delete:
  "file_lines (d\<lparr>bd_files := AList.delete k (bd_files d), bd_flushed := fl\<rparr>) j = (if j = k then [] else file_lines d j)"
  by (simp add: file_lines_def delete_conv)

lemma kept_events:
  "List.map_filter line_event
     (filter (\<lambda>l. l \<noteq> BlankLine \<and> Option.bind (line_event l) (price_digest_key B) \<noteq> Some key) ls) =
   filter (\<lambda>x. price_digest_key B x \<noteq> Some key) (List.map_filter line_event ls)"
proof (induction ls)
  case (Cons l ls)
  then show ?case by (cases l) (simp_all add: List.map_filter_simps)
qed (simp add: List.map_filter_simps)

lemma enqueue_refines:
  assumes "clean d"
  shows "\<exists>d'. enqueue B now a e d = Inr d' \<and> clean d' \<and>
    queued d' = (queued d)(actor_slug B a := pushed B e (queued d (actor_slug B a)))"
proof (cases "price_digest_key B e")
  case None
  let ?d' = "d\<lparr>bd_files := AList.update (actor_slug B a) (file_lines d (actor_slug B a) @
     [Rec \<lparr>br_actor = a, br_event = e, br_enqueued_at = now\<rparr>]) (bd_files d)\<rparr>"
  have c: "bd_fault d = None" "BadUtf8 \<notin> set (file_lines d s)" for s using assms by (auto simp: clean_def)
  have "enqueue B now a e d = Inr ?d'"
    using c None by (simp add: enqueue_def Let_def)
  moreover have "clean ?d'" using c by (simp add: clean_def file_lines_update)
  moreover have "queued ?d' s = ((queued d)(actor_slug B a := pushed B e (queued d (actor_slug B a)))) s" for s
    using c(2) None
    by (simp add: queued_def file_lines_update readable_clean map_filter_append pushed_def List.map_filter_simps)
  ultimately show ?thesis by (intro exI [of _ ?d'] conjI ext)
next
  case (Some key)
  let ?ls = "file_lines d (actor_slug B a)"
  let ?kept = "filter (\<lambda>l. l \<noteq> BlankLine \<and> Option.bind (line_event l) (price_digest_key B) \<noteq> Some key) ?ls"
  let ?d' = "d\<lparr>bd_files := AList.update (actor_slug B a)
     (?kept @ [Rec \<lparr>br_actor = a, br_event = e, br_enqueued_at = now\<rparr>]) (bd_files d)\<rparr>"
  have c: "bd_fault d = None" "BadUtf8 \<notin> set (file_lines d s)" for s using assms by (auto simp: clean_def)
  have "enqueue B now a e d = Inr ?d'"
    using c Some by (simp add: enqueue_def enqueue_latest_def Let_def readable_clean)
  moreover have "clean ?d'" using c by (auto simp: clean_def file_lines_update)
  moreover have "queued ?d' s = ((queued d)(actor_slug B a := pushed B e (queued d (actor_slug B a)))) s" for s
    using c(2) Some
    by (simp add: queued_def file_lines_update readable_clean map_filter_append kept_events pushed_def
        List.map_filter_simps)
  ultimately show ?thesis by (intro exI [of _ ?d'] conjI ext)
qed

lemma drain_refines:
  assumes "clean d"
  shows "\<exists>d'. drain_actor B now a d = Inr (d', queued d (actor_slug B a)) \<and> clean d' \<and>
    queued d' = (queued d)(actor_slug B a := [])"
proof (cases "map_of (bd_files d) (actor_slug B a)")
  case None
  then have "queued d (actor_slug B a) = []"
    by (simp add: queued_def file_lines_def readable_def List.map_filter_simps)
  then show ?thesis using None assms by (auto simp: drain_actor_def Let_def)
next
  case (Some ls)
  then have "file_lines d (actor_slug B a) = ls" by (simp add: file_lines_def)
  then show ?thesis using Some assms
    by (auto simp: drain_actor_def Let_def clean_def file_lines_delete queued_def readable_def List.map_filter_simps
        fun_eq_iff)
qed

lemma buffer_step_refines:
  assumes "clean d"
  shows "\<exists>d'. buffer_step B op d = Inr (d', snd (queue_step B op (queued d))) \<and> clean d' \<and>
    queued d' = fst (queue_step B op (queued d))"
proof (cases op)
  case (Enqueue now a e)
  obtain d' where "enqueue B now a e d = Inr d'" "clean d'"
    "queued d' = (queued d)(actor_slug B a := pushed B e (queued d (actor_slug B a)))"
    using enqueue_refines [OF assms] by blast
  then show ?thesis by (simp add: Enqueue)
next
  case (Drain now a)
  then show ?thesis using drain_refines [OF assms] by simp
qed

lemma pushed_one_per_key:
  assumes "one_per_key B q"
  shows "one_per_key B (pushed B e q)"
proof -
  have 1: "distinct (List.map_filter f (filter P q))" if "distinct (List.map_filter f q)" for f and P
    using that by (induction q) (auto simp: List.map_filter_simps set_map_filter split: option.splits)
  have 2: "k \<notin> set (List.map_filter f (filter (\<lambda>x. f x \<noteq> Some k) q))" for f and k
    by (simp add: set_map_filter)
  show ?thesis
    using assms by (cases "price_digest_key B e")
      (simp_all add: one_per_key_def pushed_def map_filter_append List.map_filter_simps 1 2)
qed

lemma queue_run_one_per_key:
  assumes "\<forall>s. one_per_key B (q s)"
  shows "one_per_key B (fst (queue_run B ops q) s)"
  using assms
proof (induction ops arbitrary: q)
  case (Cons op ops)
  have "\<forall>s. one_per_key B (fst (queue_step B op q) s)"
    using Cons.prems pushed_one_per_key by (cases op) (auto simp: one_per_key_def List.map_filter_simps)
  from Cons.IH [OF this] show ?case by (simp add: Let_def split_beta)
qed simp

lemma buffer_run_refines:
  assumes "clean d"
  shows "\<exists>d'. buffer_run B ops d = Inr (d', snd (queue_run B ops (queued d))) \<and> clean d' \<and>
    queued d' = fst (queue_run B ops (queued d))"
  using assms
proof (induction ops arbitrary: d)
  case (Cons op ops)
  obtain d1 where d1: "buffer_step B op d = Inr (d1, snd (queue_step B op (queued d)))" "clean d1"
    "queued d1 = fst (queue_step B op (queued d))"
    using buffer_step_refines [OF Cons.prems] by blast
  obtain d2 where "buffer_run B ops d1 = Inr (d2, snd (queue_run B ops (queued d1)))" "clean d2"
    "queued d2 = fst (queue_run B ops (queued d1))"
    using Cons.IH [OF d1(2)] by blast
  then show ?case using d1 by (simp add: Let_def split_beta)
qed simp

section \<open>Properties\<close>

text \<open>C39: while the files are clean and writable, the buffer directory is a family of queues, one per actor
  file: no sequence of enqueues and drains fails, every drain returns the events enqueued since the last
  drain in their order, less the price alerts that a later alert of the same symbol and day replaced, whatever the
  windows of the two, and from queues with at most one alert per symbol and day it never comes to two.\<close>

theorem digest_buffer_is_queue:
  assumes "clean d"
  shows "\<exists>d'. buffer_run B ops d = Inr (d', snd (queue_run B ops (queued d))) \<and> clean d' \<and>
    queued d' = fst (queue_run B ops (queued d)) \<and>
    ((\<forall>slug. one_per_key B (queued d slug)) \<longrightarrow> (\<forall>slug. one_per_key B (queued d' slug)))"
  using buffer_run_refines [OF assms, of B ops] queue_run_one_per_key by metis

definition demo_buffer_env :: buffer_env where
  "demo_buffer_env = \<lparr>be_chrono = gregorian, be_alnum = is_ascii_alnum, be_upper = to_ascii_uppercase\<rparr>"

definition demo_alert :: "rstr \<Rightarrow> market_event" where
  "demo_alert i = \<lparr>ev_id = i, ev_kind = PriceAlert 200 (lit ''day''), ev_severity = Medium, ev_symbols = [lit ''AAPL''],
     ev_occurred_at = 0, ev_title = [], ev_summary = [], ev_url = None, ev_source = [],
     ev_payload = JObj [(lit ''hone_price_trade_date'', JStr (lit ''2026-01-05''))]\<rparr>"

definition demo_reader :: actor where
  "demo_reader = \<lparr>a_channel = lit ''telegram'', a_user_id = lit ''u1'', a_channel_scope = None\<rparr>"

theorem digest_buffer_is_queue_witness:
  "\<exists>d'. buffer_run demo_buffer_env
      [Enqueue 0 demo_reader (demo_alert (lit ''x'')), Enqueue 1 demo_reader (demo_alert (lit ''y'')), Drain 2 demo_reader]
      \<lparr>bd_files = [], bd_flushed = [], bd_fault = None\<rparr> = Inr (d', [[], [], [demo_alert (lit ''y'')]])"
proof -
  let ?d = "\<lparr>bd_files = [], bd_flushed = [], bd_fault = None\<rparr>"
  have c: "clean ?d" and q: "queued ?d = (\<lambda>s. [])"
    by (simp_all add: clean_def file_lines_def queued_def readable_def List.map_filter_simps fun_eq_iff)
  have k: "price_digest_key demo_buffer_env (demo_alert i) = Some (lit ''AAPL:2026-01-05'')" for i
    by (simp add: price_digest_key_def demo_alert_def demo_buffer_env_def get_str_def json_get_def json_as_str_def str_eval)
  from digest_buffer_is_queue [OF c, of demo_buffer_env
      "[Enqueue 0 demo_reader (demo_alert (lit ''x'')), Enqueue 1 demo_reader (demo_alert (lit ''y'')), Drain 2 demo_reader]"]
  show ?thesis by (auto simp: q k pushed_def)
qed

end
