(* ===== verification/Web_Auth.thy ===== *)
theory Web_Auth
  imports Calendar Actor
begin

text \<open>
  \<^verbatim>\<open>memory/src/web_auth.rs\<close>, the SQLite mode: the users of the web front end (created by an
  administrator, each with an invite code, a phone number and an API key), their sessions, passwords and
  accepted terms. The two tables are lists of rows in insertion order. The table of sessions holds the hash of a
  session token, never the token itself. SQL compares texts by code point, as \<open>\<le>\<close> on code-point lists does; a
  statement with several matching rows answers with the first. A database that cannot be used carries its
  error text; a transaction that fails leaves both tables as they were. SHA-256 and Unicode upper case are
  parameters, and so are the UUIDs a call draws.
\<close>

section \<open>Data\<close>

record invite_user =
  iu_user_id :: rstr
  iu_invite_code :: rstr
  iu_phone_number :: rstr
  iu_created_at :: rstr
  iu_last_login_at :: "rstr option"
  iu_revoked_at :: "rstr option"
  iu_password_hash :: "rstr option"
  iu_password_set_at :: "rstr option"
  iu_tos_accepted_at :: "rstr option"
  iu_tos_version :: "rstr option"
  iu_api_key_prefix :: "rstr option"
  iu_api_key_created_at :: "rstr option"
  iu_api_key_last_used_at :: "rstr option"
  iu_api_key_plaintext :: "rstr option"

text \<open>A row is a user together with the hash of its API key; the plain key is not a column.\<close>

record invite_row =
  ir_user :: invite_user
  ir_api_key_hash :: "rstr option"

record invite_session =
  se_session_token :: rstr
  se_user_id :: rstr
  se_created_at :: rstr
  se_expires_at :: rstr
  se_last_seen_at :: rstr

record invite_mutation =
  im_invite :: invite_user
  im_cleared_session_count :: nat

datatype auth_result = Authenticated invite_user | Missing | Expired rstr | UserRevoked rstr | UserMissing rstr

record auth_db =
  ad_users :: "invite_row list"
  ad_sessions :: "invite_session list"
  ad_fault :: "rstr option"

record auth_env =
  ae_chrono :: chrono
  ae_sha256 :: "rstr \<Rightarrow> rstr"
  ae_uppercase :: "rstr \<Rightarrow> rstr"

type_synonym 'a auth_answer = "auth_db \<times> 'a hone_result"

definition SESSION_TTL_DAYS_LONG :: int where
  "SESSION_TTL_DAYS_LONG = 30"

definition SESSION_TTL_DAYS_SHORT :: int where
  "SESSION_TTL_DAYS_SHORT = 1"

definition sql_err :: "rstr \<Rightarrow> hone_error" where
  "sql_err err = Storage (lit ''web auth sqlite error: '' @ err)"

text \<open>A call on a database that cannot be used fails at its first statement.\<close>

definition on_db :: "auth_db \<Rightarrow> 'a auth_answer \<Rightarrow> 'a auth_answer" where
  "on_db db answer = (case ad_fault db of Some err \<Rightarrow> (db, Inl (sql_err err)) | None \<Rightarrow> answer)"

section \<open>Codes, keys and texts\<close>

definition hash_session_token :: "auth_env \<Rightarrow> rstr \<Rightarrow> rstr" where
  "hash_session_token E session_token = ae_sha256 E session_token"

definition hash_api_key :: "auth_env \<Rightarrow> rstr \<Rightarrow> rstr" where
  "hash_api_key E api_key = hash_session_token E (trim api_key)"

definition api_key_prefix :: "rstr \<Rightarrow> rstr" where
  "api_key_prefix api_key = take 12 api_key"

definition normalize_invite_code :: "auth_env \<Rightarrow> rstr \<Rightarrow> rstr" where
  "normalize_invite_code E invite_code = ae_uppercase E (trim (filter (\<lambda>c. \<not> is_whitespace c) invite_code))"

definition normalize_phone_number :: "rstr \<Rightarrow> rstr" where
  "normalize_phone_number phone_number =
     foldl (\<lambda>normalized c. if is_digit c \<or> (c = 43 \<and> normalized = []) then normalized @ [c] else normalized)
       [] (trim phone_number)"

definition validate_phone_number :: "rstr \<Rightarrow> rstr hone_result" where
  "validate_phone_number phone_number =
     (let normalized = normalize_phone_number phone_number;
          digit_count = length (filter is_digit normalized)
      in if 6 \<le> digit_count \<and> digit_count \<le> 20 then Inr normalized
         else Inl (Config [25163, 26426, 21495, 26684, 24335, 19981, 21512, 27861]))"

text \<open>The generators, from the 32 hexadecimal digits of fresh UUIDs.\<close>

definition generate_user_id :: "rstr \<Rightarrow> rstr" where
  "generate_user_id uuid = lit ''web-user-'' @ take 12 uuid"

definition generate_invite_code :: "auth_env \<Rightarrow> rstr \<Rightarrow> rstr" where
  "generate_invite_code E uuid =
     (let token = ae_uppercase E uuid in
      lit ''HONE-'' @ take 5 token @ lit ''-'' @ take 5 (drop 5 token) @ lit ''-'' @ take 5 (drop 10 token)
        @ lit ''-'' @ take 5 (drop 15 token))"

definition generate_session_token :: "rstr \<Rightarrow> rstr \<Rightarrow> rstr" where
  "generate_session_token uuid1 uuid2 = uuid1 @ uuid2"

definition generate_api_key :: "rstr \<Rightarrow> rstr \<Rightarrow> rstr" where
  "generate_api_key uuid1 uuid2 = lit ''hck_'' @ uuid1 @ uuid2"

text \<open>Eight attempts at a code, or a key, that no row has; \<open>uuids\<close> are the draws of the call.\<close>

definition generate_unique_invite_code :: "auth_env \<Rightarrow> (nat \<Rightarrow> rstr) \<Rightarrow> auth_db \<Rightarrow> rstr hone_result" where
  "generate_unique_invite_code E uuids db =
     (case find (\<lambda>code. \<forall>r \<in> set (ad_users db). iu_invite_code (ir_user r) \<noteq> code)
             (map (\<lambda>i. generate_invite_code E (uuids i)) [0..<8]) of
        Some code \<Rightarrow> Inr code
      | None \<Rightarrow> Inl (Storage (lit ''failed to generate unique web invite code'')))"

definition generate_unique_api_key :: "auth_env \<Rightarrow> (nat \<Rightarrow> rstr) \<Rightarrow> auth_db \<Rightarrow> rstr hone_result" where
  "generate_unique_api_key E uuids db =
     (case find (\<lambda>key. \<forall>r \<in> set (ad_users db). ir_api_key_hash r \<noteq> Some (hash_api_key E key))
             (map (\<lambda>i. generate_api_key (uuids (2 * i)) (uuids (2 * i + 1))) [0..<8]) of
        Some key \<Rightarrow> Inr key
      | None \<Rightarrow> Inl (Storage (lit ''failed to generate unique web api key'')))"

section \<open>Statements\<close>

definition map_invite_user :: "invite_row \<Rightarrow> invite_user" where
  "map_invite_user r = (ir_user r)\<lparr>iu_api_key_plaintext := None\<rparr>"

text \<open>\<^verbatim>\<open>query_row ... .optional()\<close> on the users.\<close>

definition select_user :: "(invite_row \<Rightarrow> bool) \<Rightarrow> auth_db \<Rightarrow> invite_user option" where
  "select_user P db = map_option map_invite_user (find P (ad_users db))"

definition has_user_id :: "rstr \<Rightarrow> invite_row \<Rightarrow> bool" where
  "has_user_id user_id r \<longleftrightarrow> iu_user_id (ir_user r) = user_id"

definition active :: "invite_row \<Rightarrow> bool" where
  "active r \<longleftrightarrow> iu_revoked_at (ir_user r) = None"

definition find_invite_user_tx :: "auth_db \<Rightarrow> rstr \<Rightarrow> invite_user option" where
  "find_invite_user_tx db user_id = select_user (has_user_id user_id) db"

definition update_users :: "(invite_row \<Rightarrow> bool) \<Rightarrow> (invite_row \<Rightarrow> invite_row) \<Rightarrow> auth_db \<Rightarrow> auth_db" where
  "update_users P f db = db\<lparr>ad_users := map (\<lambda>r. if P r then f r else r) (ad_users db)\<rparr>"

definition set_user :: "(invite_user \<Rightarrow> invite_user) \<Rightarrow> invite_row \<Rightarrow> invite_row" where
  "set_user f r = r\<lparr>ir_user := f (ir_user r)\<rparr>"

text \<open>The inserts fail on a primary key or unique index.\<close>

definition insert_user :: "invite_row \<Rightarrow> auth_db \<Rightarrow> auth_db option" where
  "insert_user r db =
     (if \<exists>q \<in> set (ad_users db). iu_user_id (ir_user q) = iu_user_id (ir_user r)
           \<or> iu_invite_code (ir_user q) = iu_invite_code (ir_user r)
           \<or> (ir_api_key_hash q = ir_api_key_hash r \<and> ir_api_key_hash r \<noteq> None)
      then None else Some (db\<lparr>ad_users := ad_users db @ [r]\<rparr>))"

definition insert_session :: "invite_session \<Rightarrow> auth_db \<Rightarrow> auth_db option" where
  "insert_session s db =
     (if \<exists>q \<in> set (ad_sessions db). se_session_token q = se_session_token s
      then None else Some (db\<lparr>ad_sessions := ad_sessions db @ [s]\<rparr>))"

definition unique_failed :: hone_error where
  "unique_failed = sql_err (lit ''UNIQUE constraint failed'')"

definition purge_expired_sessions_inner :: "rstr \<Rightarrow> auth_db \<Rightarrow> auth_db" where
  "purge_expired_sessions_inner now db = db\<lparr>ad_sessions := filter (\<lambda>s. \<not> se_expires_at s \<le> now) (ad_sessions db)\<rparr>"

definition delete_sessions_for_user_tx :: "rstr \<Rightarrow> auth_db \<Rightarrow> auth_db \<times> nat" where
  "delete_sessions_for_user_tx user_id db =
     (db\<lparr>ad_sessions := filter (\<lambda>s. se_user_id s \<noteq> user_id) (ad_sessions db)\<rparr>,
      length (filter (\<lambda>s. se_user_id s = user_id) (ad_sessions db)))"

section \<open>Operations\<close>

definition create_invite_user ::
    "auth_env \<Rightarrow> instant \<Rightarrow> rstr \<Rightarrow> (nat \<Rightarrow> rstr) \<Rightarrow> (nat \<Rightarrow> rstr) \<Rightarrow> rstr \<Rightarrow> auth_db \<Rightarrow> invite_user auth_answer" where
  "create_invite_user E now uuid code_uuids key_uuids phone_number db =
     (let created_at = beijing_rfc3339 (ae_chrono E) now; user_id = generate_user_id uuid in
      case validate_phone_number phone_number of
        Inl e \<Rightarrow> (db, Inl e)
      | Inr phone_number \<Rightarrow> on_db db
          (case generate_unique_invite_code E code_uuids db of
             Inl e \<Rightarrow> (db, Inl e)
           | Inr invite_code \<Rightarrow>
               (case generate_unique_api_key E key_uuids db of
                  Inl e \<Rightarrow> (db, Inl e)
                | Inr api_key \<Rightarrow>
                    (let user = \<lparr>iu_user_id = user_id, iu_invite_code = invite_code, iu_phone_number = phone_number,
                           iu_created_at = created_at, iu_last_login_at = None, iu_revoked_at = None,
                           iu_password_hash = None, iu_password_set_at = None, iu_tos_accepted_at = None,
                           iu_tos_version = None, iu_api_key_prefix = Some (api_key_prefix api_key),
                           iu_api_key_created_at = Some created_at, iu_api_key_last_used_at = None,
                           iu_api_key_plaintext = None\<rparr>;
                         row = \<lparr>ir_user = user, ir_api_key_hash = Some (hash_api_key E api_key)\<rparr>
                     in case insert_user row db of
                          None \<Rightarrow> (db, Inl unique_failed)
                        | Some db' \<Rightarrow> (db', Inr (user\<lparr>iu_api_key_plaintext := Some api_key\<rparr>))))))"

definition list_invite_users :: "auth_db \<Rightarrow> invite_user list auth_answer" where
  "list_invite_users db =
     on_db db (db, Inr (rev (sort_key iu_created_at (rev (map map_invite_user (ad_users db))))))"

definition find_invite_user_by_code :: "auth_env \<Rightarrow> rstr \<Rightarrow> auth_db \<Rightarrow> invite_user option auth_answer" where
  "find_invite_user_by_code E invite_code db =
     on_db db (db, Inr (select_user (\<lambda>r. iu_invite_code (ir_user r) = normalize_invite_code E invite_code) db))"

definition find_active_invite_user_by_phone :: "rstr \<Rightarrow> auth_db \<Rightarrow> invite_user option auth_answer" where
  "find_active_invite_user_by_phone phone_number db =
     (let phone = normalize_phone_number phone_number in
      if phone = [] then (db, Inr None)
      else on_db db (db, Inr (select_user (\<lambda>r. iu_phone_number (ir_user r) = phone \<and> active r) db)))"

definition find_invite_user :: "rstr \<Rightarrow> auth_db \<Rightarrow> invite_user option auth_answer" where
  "find_invite_user user_id db = on_db db (db, Inr (find_invite_user_tx db user_id))"

definition find_invite_user_by_api_key :: "auth_env \<Rightarrow> instant \<Rightarrow> rstr \<Rightarrow> auth_db \<Rightarrow> invite_user option auth_answer" where
  "find_invite_user_by_api_key E now api_key db =
     (let api_key = trim api_key in
      if api_key = [] then (db, Inr None)
      else on_db db
        (case select_user (\<lambda>r. ir_api_key_hash r = Some (hash_api_key E api_key) \<and> active r) db of
           None \<Rightarrow> (db, Inr None)
         | Some user \<Rightarrow>
             (let db' = update_users (has_user_id (iu_user_id user))
                    (set_user (\<lambda>u. u\<lparr>iu_api_key_last_used_at := Some (beijing_rfc3339 (ae_chrono E) now)\<rparr>)) db
              in case find_invite_user_tx db' (iu_user_id user) of
                   None \<Rightarrow> (db, Inl (Storage (lit ''web invite disappeared during api key lookup'')))
                 | Some refreshed \<Rightarrow> (db', Inr (Some refreshed)))))"

text \<open>Both ways to a new key write it the same way.\<close>

definition rekeyed :: "auth_env \<Rightarrow> instant \<Rightarrow> rstr \<Rightarrow> invite_row \<Rightarrow> invite_row" where
  "rekeyed E now api_key r =
     \<lparr>ir_user = (ir_user r)\<lparr>iu_api_key_prefix := Some (api_key_prefix api_key),
        iu_api_key_created_at := Some (beijing_rfc3339 (ae_chrono E) now), iu_api_key_last_used_at := None\<rparr>,
      ir_api_key_hash = Some (hash_api_key E api_key)\<rparr>"

definition write_api_key :: "auth_env \<Rightarrow> instant \<Rightarrow> rstr \<Rightarrow> rstr \<Rightarrow> auth_db \<Rightarrow> auth_db" where
  "write_api_key E now user_id api_key db =
     update_users (has_user_id user_id) (rekeyed E now api_key) db"

definition with_new_api_key ::
    "auth_env \<Rightarrow> instant \<Rightarrow> (nat \<Rightarrow> rstr) \<Rightarrow> rstr \<Rightarrow> rstr \<Rightarrow> auth_db \<Rightarrow> invite_user option auth_answer" where
  "with_new_api_key E now uuids disappeared user_id db =
     (case generate_unique_api_key E uuids db of
        Inl e \<Rightarrow> (db, Inl e)
      | Inr api_key \<Rightarrow>
          (let db' = write_api_key E now user_id api_key db in
           case find_invite_user_tx db' user_id of
             None \<Rightarrow> (db, Inl (Storage disappeared))
           | Some invite \<Rightarrow> (db', Inr (Some (invite\<lparr>iu_api_key_plaintext := Some api_key\<rparr>)))))"

definition ensure_api_key_for_user ::
    "auth_env \<Rightarrow> instant \<Rightarrow> (nat \<Rightarrow> rstr) \<Rightarrow> rstr \<Rightarrow> auth_db \<Rightarrow> invite_user option auth_answer" where
  "ensure_api_key_for_user E now uuids user_id db = on_db db
     (case find_invite_user_tx db user_id of
        None \<Rightarrow> (db, Inr None)
      | Some existing \<Rightarrow>
          if iu_api_key_prefix existing \<noteq> None then (db, Inr (Some (existing\<lparr>iu_api_key_plaintext := None\<rparr>)))
          else with_new_api_key E now uuids (lit ''web invite disappeared during api key generate'') user_id db)"

definition reset_api_key_for_user ::
    "auth_env \<Rightarrow> instant \<Rightarrow> (nat \<Rightarrow> rstr) \<Rightarrow> rstr \<Rightarrow> auth_db \<Rightarrow> invite_user option auth_answer" where
  "reset_api_key_for_user E now uuids user_id db = on_db db
     (case find_invite_user_tx db user_id of
        None \<Rightarrow> (db, Inr None)
      | Some _ \<Rightarrow> with_new_api_key E now uuids (lit ''web invite disappeared during api key reset'') user_id db)"

text \<open>A login: the purge is a statement of its own, the rest one transaction.\<close>

definition start_session ::
    "auth_env \<Rightarrow> instant \<Rightarrow> int \<Rightarrow> rstr \<Rightarrow> rstr \<Rightarrow> auth_db \<Rightarrow> invite_session option auth_answer" where
  "start_session E now ttl_days token user_id db =
     (let created_at = beijing_rfc3339 (ae_chrono E) now;
          expires_at = beijing_rfc3339 (ae_chrono E) (now + days ttl_days);
          s = \<lparr>se_session_token = hash_session_token E token, se_user_id = user_id, se_created_at = created_at,
               se_expires_at = expires_at, se_last_seen_at = created_at\<rparr>
      in case insert_session s
               (update_users (has_user_id user_id) (set_user (\<lambda>u. u\<lparr>iu_last_login_at := Some created_at\<rparr>)) db) of
           None \<Rightarrow> (db, Inl unique_failed)
         | Some db' \<Rightarrow> (db', Inr (Some (s\<lparr>se_session_token := token\<rparr>))))"

definition create_session_for_invite ::
    "auth_env \<Rightarrow> instant \<Rightarrow> rstr \<Rightarrow> rstr \<Rightarrow> rstr \<Rightarrow> auth_db \<Rightarrow> invite_session option auth_answer" where
  "create_session_for_invite E now token invite_code phone_number db =
     (let invite_code = normalize_invite_code E invite_code; phone_number = normalize_phone_number phone_number in
      on_db db
        (let db = purge_expired_sessions_inner (beijing_rfc3339 (ae_chrono E) now) db in
         case select_user (\<lambda>r. iu_invite_code (ir_user r) = invite_code \<and> iu_phone_number (ir_user r) = phone_number
                               \<and> active r) db of
           None \<Rightarrow> (db, Inr None)
         | Some user \<Rightarrow> start_session E now SESSION_TTL_DAYS_LONG token (iu_user_id user) db))"

definition create_session_for_user ::
    "auth_env \<Rightarrow> instant \<Rightarrow> rstr \<Rightarrow> rstr \<Rightarrow> int \<Rightarrow> auth_db \<Rightarrow> invite_session option auth_answer" where
  "create_session_for_user E now token user_id ttl_days db = on_db db
     (let db = purge_expired_sessions_inner (beijing_rfc3339 (ae_chrono E) now) db in
      case find_invite_user_tx db user_id of
        None \<Rightarrow> (db, Inr None)
      | Some user \<Rightarrow>
          if iu_revoked_at user \<noteq> None then (db, Inr None)
          else start_session E now ttl_days token (iu_user_id user) db)"

text \<open>A token is looked up by its hash, or as it is (rows from before tokens were hashed).\<close>

definition token_matches :: "auth_env \<Rightarrow> rstr \<Rightarrow> invite_session \<Rightarrow> bool" where
  "token_matches E session_token s \<longleftrightarrow>
     se_session_token s = hash_session_token E session_token \<or> se_session_token s = session_token"

definition touched :: "rstr \<Rightarrow> rstr \<Rightarrow> invite_session \<Rightarrow> invite_session" where
  "touched token now q = (if se_session_token q = token then q\<lparr>se_last_seen_at := now\<rparr> else q)"

definition authenticate_session_detailed :: "auth_env \<Rightarrow> instant \<Rightarrow> rstr \<Rightarrow> auth_db \<Rightarrow> auth_result auth_answer" where
  "authenticate_session_detailed E now session_token db = on_db db
     (let now = beijing_rfc3339 (ae_chrono E) now in
      case find (token_matches E session_token) (ad_sessions db) of
        None \<Rightarrow> (db, Inr Missing)
      | Some s \<Rightarrow>
          if se_expires_at s \<le> now then
            (db\<lparr>ad_sessions := filter (\<lambda>q. se_session_token q \<noteq> se_session_token s) (ad_sessions db)\<rparr>,
             Inr (Expired (se_user_id s)))
          else
            (case find_invite_user_tx db (se_user_id s) of
               None \<Rightarrow> (db, Inr (UserMissing (se_user_id s)))
             | Some user \<Rightarrow>
                 if iu_revoked_at user \<noteq> None then (db, Inr (UserRevoked (se_user_id s)))
                 else
                   (db\<lparr>ad_sessions := map (touched (se_session_token s) now) (ad_sessions db)\<rparr>,
                    Inr (Authenticated user))))"

definition authenticate_session :: "auth_env \<Rightarrow> instant \<Rightarrow> rstr \<Rightarrow> auth_db \<Rightarrow> invite_user option auth_answer" where
  "authenticate_session E now session_token db =
     (case authenticate_session_detailed E now session_token db of
        (db', Inl e) \<Rightarrow> (db', Inl e)
      | (db', Inr (Authenticated user)) \<Rightarrow> (db', Inr (Some user))
      | (db', Inr _) \<Rightarrow> (db', Inr None))"

definition delete_session :: "auth_env \<Rightarrow> rstr \<Rightarrow> auth_db \<Rightarrow> unit auth_answer" where
  "delete_session E session_token db = on_db db
     (db\<lparr>ad_sessions := filter (\<lambda>s. \<not> token_matches E session_token s) (ad_sessions db)\<rparr>, Inr ())"

definition count_active_sessions_for_user :: "auth_env \<Rightarrow> instant \<Rightarrow> rstr \<Rightarrow> auth_db \<Rightarrow> nat auth_answer" where
  "count_active_sessions_for_user E now user_id db = on_db db
     (let now = beijing_rfc3339 (ae_chrono E) now; db = purge_expired_sessions_inner now db
      in (db, Inr (length (filter (\<lambda>s. se_user_id s = user_id \<and> now < se_expires_at s) (ad_sessions db)))))"

definition set_invite_revoked :: "auth_env \<Rightarrow> instant \<Rightarrow> rstr \<Rightarrow> bool \<Rightarrow> auth_db \<Rightarrow> invite_mutation option auth_answer" where
  "set_invite_revoked E now user_id revoked db = on_db db
     (let now = beijing_rfc3339 (ae_chrono E) now; db = purge_expired_sessions_inner now db in
      case find_invite_user_tx db user_id of
        None \<Rightarrow> (db, Inr None)
      | Some _ \<Rightarrow>
          (let (db1, cleared) = (if revoked then delete_sessions_for_user_tx user_id db else (db, 0));
               db2 = update_users (has_user_id user_id)
                       (set_user (\<lambda>u. u\<lparr>iu_revoked_at := (if revoked then Some now else None)\<rparr>)) db1
           in case find_invite_user_tx db2 user_id of
                None \<Rightarrow> (db, Inl (Storage (lit ''web invite disappeared during update'')))
              | Some invite \<Rightarrow> (db2, Inr (Some \<lparr>im_invite = invite, im_cleared_session_count = cleared\<rparr>))))"

definition reset_invite_code ::
    "auth_env \<Rightarrow> instant \<Rightarrow> (nat \<Rightarrow> rstr) \<Rightarrow> rstr \<Rightarrow> auth_db \<Rightarrow> invite_mutation option auth_answer" where
  "reset_invite_code E now uuids user_id db = on_db db
     (let db = purge_expired_sessions_inner (beijing_rfc3339 (ae_chrono E) now) db in
      case find_invite_user_tx db user_id of
        None \<Rightarrow> (db, Inr None)
      | Some _ \<Rightarrow>
          (case generate_unique_invite_code E uuids db of
             Inl e \<Rightarrow> (db, Inl e)
           | Inr invite_code \<Rightarrow>
               (let (db1, cleared) = delete_sessions_for_user_tx user_id db;
                    db2 = update_users (has_user_id user_id)
                            (set_user (\<lambda>u. u\<lparr>iu_invite_code := invite_code, iu_revoked_at := None\<rparr>)) db1
                in case find_invite_user_tx db2 user_id of
                     None \<Rightarrow> (db, Inl (Storage (lit ''web invite disappeared during reset'')))
                   | Some invite \<Rightarrow> (db2, Inr (Some \<lparr>im_invite = invite, im_cleared_session_count = cleared\<rparr>)))))"

definition find_by_phone_password_ready :: "rstr \<Rightarrow> auth_db \<Rightarrow> invite_user option auth_answer" where
  "find_by_phone_password_ready phone_number db =
     (let phone = normalize_phone_number phone_number in
      if phone = [] then (db, Inr None)
      else on_db db (db, Inr (select_user (\<lambda>r. iu_phone_number (ir_user r) = phone \<and> active r
                                                \<and> iu_password_hash (ir_user r) \<noteq> None) db)))"

text \<open>An update answers whether it changed a row.\<close>

definition update_one :: "(invite_row \<Rightarrow> bool) \<Rightarrow> (invite_user \<Rightarrow> invite_user) \<Rightarrow> auth_db \<Rightarrow> bool auth_answer" where
  "update_one P f db = on_db db (update_users P (set_user f) db, Inr (filter P (ad_users db) \<noteq> []))"

definition set_password :: "auth_env \<Rightarrow> instant \<Rightarrow> rstr \<Rightarrow> rstr \<Rightarrow> rstr \<Rightarrow> auth_db \<Rightarrow> bool auth_answer" where
  "set_password E now user_id password_hash tos_version db =
     (let now = Some (beijing_rfc3339 (ae_chrono E) now) in
      update_one (\<lambda>r. has_user_id user_id r \<and> iu_password_hash (ir_user r) = None)
        (\<lambda>u. u\<lparr>iu_password_hash := Some password_hash, iu_password_set_at := now, iu_tos_accepted_at := now,
               iu_tos_version := Some tos_version\<rparr>) db)"

definition change_password :: "auth_env \<Rightarrow> instant \<Rightarrow> rstr \<Rightarrow> rstr \<Rightarrow> auth_db \<Rightarrow> bool auth_answer" where
  "change_password E now user_id password_hash db =
     update_one (\<lambda>r. has_user_id user_id r \<and> iu_password_hash (ir_user r) \<noteq> None)
       (\<lambda>u. u\<lparr>iu_password_hash := Some password_hash,
              iu_password_set_at := Some (beijing_rfc3339 (ae_chrono E) now)\<rparr>) db"

definition record_tos_acceptance :: "auth_env \<Rightarrow> instant \<Rightarrow> rstr \<Rightarrow> rstr \<Rightarrow> auth_db \<Rightarrow> bool auth_answer" where
  "record_tos_acceptance E now user_id tos_version db =
     update_one (\<lambda>r. has_user_id user_id r \<and> active r)
       (\<lambda>u. u\<lparr>iu_tos_accepted_at := Some (beijing_rfc3339 (ae_chrono E) now), iu_tos_version := Some tos_version\<rparr>) db"

section \<open>Calls and the invariant\<close>

text \<open>The calls that write, each with the random draws it makes. A password login keeps the session long or
  short.\<close>

datatype auth_call =
    CreateInvite rstr "nat \<Rightarrow> rstr" "nat \<Rightarrow> rstr" rstr
  | UseApiKey rstr
  | EnsureApiKey "nat \<Rightarrow> rstr" rstr
  | ResetApiKey "nat \<Rightarrow> rstr" rstr
  | LoginInvite rstr rstr rstr
  | LoginUser rstr rstr bool
  | Authenticate rstr
  | Logout rstr
  | CountSessions rstr
  | SetRevoked rstr bool
  | ResetCode "nat \<Rightarrow> rstr" rstr
  | SetPassword rstr rstr rstr
  | ChangePassword rstr rstr
  | AcceptTerms rstr rstr

fun perform :: "auth_env \<Rightarrow> instant \<Rightarrow> auth_call \<Rightarrow> auth_db \<Rightarrow> auth_db" where
  "perform E now (CreateInvite uuid codes keys phone) db = fst (create_invite_user E now uuid codes keys phone db)"
| "perform E now (UseApiKey key) db = fst (find_invite_user_by_api_key E now key db)"
| "perform E now (EnsureApiKey keys u) db = fst (ensure_api_key_for_user E now keys u db)"
| "perform E now (ResetApiKey keys u) db = fst (reset_api_key_for_user E now keys u db)"
| "perform E now (LoginInvite token code phone) db = fst (create_session_for_invite E now token code phone db)"
| "perform E now (LoginUser token u keep) db =
     fst (create_session_for_user E now token u (if keep then SESSION_TTL_DAYS_LONG else SESSION_TTL_DAYS_SHORT) db)"
| "perform E now (Authenticate token) db = fst (authenticate_session_detailed E now token db)"
| "perform E now (Logout token) db = fst (delete_session E token db)"
| "perform E now (CountSessions u) db = fst (count_active_sessions_for_user E now u db)"
| "perform E now (SetRevoked u revoked) db = fst (set_invite_revoked E now u revoked db)"
| "perform E now (ResetCode codes u) db = fst (reset_invite_code E now codes u db)"
| "perform E now (SetPassword u hash tos) db = fst (set_password E now u hash tos db)"
| "perform E now (ChangePassword u hash) db = fst (change_password E now u hash db)"
| "perform E now (AcceptTerms u tos) db = fst (record_tos_acceptance E now u tos db)"

fun perform_all :: "auth_env \<Rightarrow> (instant \<times> auth_call) list \<Rightarrow> auth_db \<Rightarrow> auth_db" where
  "perform_all E [] db = db"
| "perform_all E ((now, c) # cs) db = perform_all E cs (perform E now c db)"

text \<open>Two rows differ in every unique column.\<close>

definition row_distinct :: "invite_row \<Rightarrow> invite_row \<Rightarrow> bool" where
  "row_distinct q r \<longleftrightarrow> iu_user_id (ir_user q) \<noteq> iu_user_id (ir_user r)
     \<and> iu_invite_code (ir_user q) \<noteq> iu_invite_code (ir_user r)
     \<and> (ir_api_key_hash q = None \<or> ir_api_key_hash q \<noteq> ir_api_key_hash r)"

definition users_wf :: "invite_row list \<Rightarrow> bool" where
  "users_wf us \<longleftrightarrow> sorted_wrt row_distinct us \<and> (\<forall>r \<in> set us. iu_api_key_plaintext (ir_user r) = None)"

text \<open>A session belongs to a user who is not revoked, and expires a login period after it was created.\<close>

definition session_wf :: "auth_env \<Rightarrow> invite_row list \<Rightarrow> invite_session \<Rightarrow> bool" where
  "session_wf E us s \<longleftrightarrow> (\<exists>r \<in> set us. has_user_id (se_user_id s) r \<and> active r) \<and>
     (\<exists>t ttl. 0 \<le> t \<and> ttl \<in> {SESSION_TTL_DAYS_LONG, SESSION_TTL_DAYS_SHORT} \<and>
        se_created_at s = beijing_rfc3339 (ae_chrono E) t \<and> se_expires_at s = beijing_rfc3339 (ae_chrono E) (t + days ttl))"

definition auth_wf :: "auth_env \<Rightarrow> auth_db \<Rightarrow> bool" where
  "auth_wf E db \<longleftrightarrow> users_wf (ad_users db) \<and> distinct (map se_session_token (ad_sessions db)) \<and>
     (\<forall>s \<in> set (ad_sessions db). session_wf E (ad_users db) s)"

section \<open>Lemmas on the statements\<close>

lemma update_users_simps [simp]:
  "ad_users (update_users P f db) = map (\<lambda>r. if P r then f r else r) (ad_users db)"
  "ad_sessions (update_users P f db) = ad_sessions db" "ad_fault (update_users P f db) = ad_fault db"
  by (simp_all add: update_users_def)

lemma purge_simps [simp]:
  "ad_users (purge_expired_sessions_inner now db) = ad_users db"
  "ad_sessions (purge_expired_sessions_inner now db) = filter (\<lambda>s. \<not> se_expires_at s \<le> now) (ad_sessions db)"
  "ad_fault (purge_expired_sessions_inner now db) = ad_fault db"
  by (simp_all add: purge_expired_sessions_inner_def)

lemma set_user_simps [simp]: "ir_user (set_user f r) = f (ir_user r)" "ir_api_key_hash (set_user f r) = ir_api_key_hash r"
  by (simp_all add: set_user_def)

lemma users_wf_update:
  assumes "users_wf us" "\<And>x. x \<in> set us \<Longrightarrow> iu_api_key_plaintext (ir_user (h x)) = iu_api_key_plaintext (ir_user x)"
    "\<And>x y. x \<in> set us \<Longrightarrow> y \<in> set us \<Longrightarrow> row_distinct x y \<Longrightarrow> row_distinct (h x) (h y)"
  shows "users_wf (map h us)"
  using assms sorted_wrt_mono_rel [of us row_distinct "\<lambda>x y. row_distinct (h x) (h y)"]
  by (simp add: users_wf_def sorted_wrt_map)

text \<open>An update of columns that are not unique.\<close>

definition keeps_keys :: "(invite_row \<Rightarrow> invite_row) \<Rightarrow> bool" where
  "keeps_keys f \<longleftrightarrow> (\<forall>r. iu_user_id (ir_user (f r)) = iu_user_id (ir_user r)
     \<and> iu_invite_code (ir_user (f r)) = iu_invite_code (ir_user r) \<and> ir_api_key_hash (f r) = ir_api_key_hash r
     \<and> iu_api_key_plaintext (ir_user (f r)) = iu_api_key_plaintext (ir_user r))"

lemma users_wf_keeps:
  assumes "users_wf us" "keeps_keys f"
  shows "users_wf (map (\<lambda>r. if P r then f r else r) us)"
  using assms by (intro users_wf_update) (auto simp: keeps_keys_def row_distinct_def)

lemma users_wf_unique:
  assumes "users_wf us" "q \<in> set us" "r \<in> set us" "iu_user_id (ir_user q) = iu_user_id (ir_user r)"
  shows "q = r"
proof -
  have "distinct (map (\<lambda>r. iu_user_id (ir_user r)) us)" if "sorted_wrt row_distinct us" for us
    using that by (induction us) (auto simp: row_distinct_def)
  then show ?thesis using assms by (auto simp: users_wf_def distinct_map inj_on_def)
qed

lemma users_wf_key_unique:
  assumes "users_wf us" "q \<in> set us" "r \<in> set us" "ir_api_key_hash q = ir_api_key_hash r" "ir_api_key_hash r \<noteq> None"
  shows "q = r"
proof -
  have "sorted_wrt row_distinct us" using assms(1) by (simp add: users_wf_def)
  then show ?thesis using assms(2-5) by (induction us) (auto simp: row_distinct_def)
qed

lemma select_user_Some:
  "select_user P db = Some u \<Longrightarrow> \<exists>r \<in> set (ad_users db). P r \<and> u = map_invite_user r"
  by (auto simp: select_user_def find_Some_iff)

lemma find_invite_user_tx_None:
  "find_invite_user_tx db u = None \<longleftrightarrow> (\<forall>r \<in> set (ad_users db). \<not> has_user_id u r)"
  by (auto simp: find_invite_user_tx_def select_user_def find_None_iff)

lemma find_invite_user_tx_row:
  assumes "users_wf (ad_users db)" "r \<in> set (ad_users db)" "has_user_id u r"
  shows "find_invite_user_tx db u = Some (map_invite_user r)"
proof -
  have "find (has_user_id u) (ad_users db) \<noteq> None" using assms(2,3) by (auto simp: find_None_iff)
  then obtain q where q: "find (has_user_id u) (ad_users db) = Some q" by auto
  then have "q \<in> set (ad_users db)" "has_user_id u q" by (auto simp: find_Some_iff)
  then have "q = r" using users_wf_unique [OF assms(1)] assms(2,3) by (auto simp: has_user_id_def)
  then show ?thesis using q by (simp add: find_invite_user_tx_def select_user_def)
qed

lemma find_invite_user_tx_Some:
  "find_invite_user_tx db u = Some v \<Longrightarrow> \<exists>r \<in> set (ad_users db). has_user_id u r \<and> v = map_invite_user r"
  by (auto simp: find_invite_user_tx_def dest: select_user_Some)

lemma map_invite_user_simps [simp]:
  "iu_user_id (map_invite_user r) = iu_user_id (ir_user r)"
  "iu_invite_code (map_invite_user r) = iu_invite_code (ir_user r)"
  "iu_phone_number (map_invite_user r) = iu_phone_number (ir_user r)"
  "iu_revoked_at (map_invite_user r) = iu_revoked_at (ir_user r)"
  "iu_password_hash (map_invite_user r) = iu_password_hash (ir_user r)"
  by (simp_all add: map_invite_user_def)

lemma generate_unique_invite_code_fresh:
  "generate_unique_invite_code E uuids db = Inr code \<Longrightarrow> \<forall>r \<in> set (ad_users db). iu_invite_code (ir_user r) \<noteq> code"
  by (auto simp: generate_unique_invite_code_def find_Some_iff split: option.splits)

lemma generate_unique_api_key_fresh:
  "generate_unique_api_key E uuids db = Inr key \<Longrightarrow> \<forall>r \<in> set (ad_users db). ir_api_key_hash r \<noteq> Some (hash_api_key E key)"
  by (auto simp: generate_unique_api_key_def find_Some_iff split: option.splits)

section \<open>Every call keeps the invariant\<close>

lemma auth_wf_filter: "auth_wf E db \<Longrightarrow> auth_wf E (db\<lparr>ad_sessions := filter Q (ad_sessions db)\<rparr>)"
  by (auto simp: auth_wf_def distinct_map_filter)

lemma auth_wf_purge: "auth_wf E db \<Longrightarrow> auth_wf E (purge_expired_sessions_inner now db)"
  by (simp add: purge_expired_sessions_inner_def auth_wf_filter)

text \<open>New rows for the users: the sessions stay those of active users.\<close>

lemma auth_wf_users:
  assumes "auth_wf E db" "users_wf us"
    "\<And>r s. r \<in> set (ad_users db) \<Longrightarrow> s \<in> set (ad_sessions db) \<Longrightarrow> has_user_id (se_user_id s) r \<Longrightarrow> active r \<Longrightarrow>
       \<exists>q \<in> set us. has_user_id (se_user_id s) q \<and> active q"
  shows "auth_wf E (db\<lparr>ad_users := us\<rparr>)"
  using assms by (fastforce simp: auth_wf_def session_wf_def)

definition keeps_active :: "(invite_row \<Rightarrow> invite_row) \<Rightarrow> bool" where
  "keeps_active f \<longleftrightarrow> (\<forall>r. iu_user_id (ir_user (f r)) = iu_user_id (ir_user r)
     \<and> iu_revoked_at (ir_user (f r)) = iu_revoked_at (ir_user r))"

lemma auth_wf_update:
  assumes "auth_wf E db" "users_wf (ad_users (update_users P f db))" "keeps_active f"
  shows "auth_wf E (update_users P f db)"
  unfolding update_users_def
proof (rule auth_wf_users [OF assms(1)])
  show "users_wf (map (\<lambda>r. if P r then f r else r) (ad_users db))" using assms(2) by simp
next
  fix r s
  assume "r \<in> set (ad_users db)" "has_user_id (se_user_id s) r" "active r"
  then show "\<exists>q \<in> set (map (\<lambda>r. if P r then f r else r) (ad_users db)). has_user_id (se_user_id s) q \<and> active q"
    using assms(3) by (intro bexI [of _ "if P r then f r else r"]) (auto simp: keeps_active_def has_user_id_def active_def)
qed

lemma auth_wf_keeps:
  assumes "auth_wf E db" "keeps_keys f" "keeps_active f"
  shows "auth_wf E (update_users P f db)"
  using assms by (intro auth_wf_update) (auto simp: auth_wf_def intro: users_wf_keeps)

lemma keeps_set_user:
  "(\<And>u. iu_user_id (f u) = iu_user_id u \<and> iu_invite_code (f u) = iu_invite_code u
     \<and> iu_api_key_plaintext (f u) = iu_api_key_plaintext u) \<Longrightarrow> keeps_keys (set_user f)"
  "(\<And>u. iu_user_id (f u) = iu_user_id u \<and> iu_revoked_at (f u) = iu_revoked_at u) \<Longrightarrow> keeps_active (set_user f)"
  by (simp_all add: keeps_keys_def keeps_active_def)

text \<open>A call that cannot use the database changes nothing.\<close>

lemma on_db_wf: "auth_wf E db \<Longrightarrow> (ad_fault db = None \<Longrightarrow> auth_wf E (fst x)) \<Longrightarrow> auth_wf E (fst (on_db db x))"
  by (simp add: on_db_def split: option.split)

lemma create_invite_user_wf:
  assumes "auth_wf E db"
  shows "auth_wf E (fst (create_invite_user E now uuid codes keys phone db))"
proof -
  have insert: "auth_wf E db'" if "insert_user r db = Some db'" "iu_api_key_plaintext (ir_user r) = None" for r db'
  proof -
    have fresh: "\<forall>q \<in> set (ad_users db). row_distinct q r" and db': "db' = db\<lparr>ad_users := ad_users db @ [r]\<rparr>"
      using that(1) by (auto simp: insert_user_def row_distinct_def split: if_splits)
    have "users_wf (ad_users db @ [r])"
      using assms fresh that(2) by (auto simp: users_wf_def auth_wf_def sorted_wrt_append)
    then show ?thesis unfolding db' by (rule auth_wf_users [OF assms]) auto
  qed
  then show ?thesis
    using assms by (simp add: create_invite_user_def Let_def on_db_def split: sum.splits option.splits)
qed

lemma with_new_api_key_wf:
  assumes "auth_wf E db"
  shows "auth_wf E (fst (with_new_api_key E now uuids msg u db))"
proof -
  have "auth_wf E (write_api_key E now u key db)" if "generate_unique_api_key E uuids db = Inr key" for key
    unfolding write_api_key_def
  proof (rule auth_wf_update [OF assms])
    have wf: "users_wf (ad_users db)" using assms by (simp add: auth_wf_def)
    show "users_wf (ad_users (update_users (has_user_id u) (rekeyed E now key) db))"
      unfolding update_users_simps
      using generate_unique_api_key_fresh [OF that]
      by (intro users_wf_update [OF wf]) (auto simp: row_distinct_def has_user_id_def rekeyed_def)
  qed (simp add: keeps_active_def rekeyed_def)
  then show ?thesis using assms by (simp add: with_new_api_key_def Let_def split: sum.splits option.splits)
qed

lemma start_session_wf:
  assumes "auth_wf E db" "r \<in> set (ad_users db)" "has_user_id u r" "active r"
    "ttl \<in> {SESSION_TTL_DAYS_LONG, SESSION_TTL_DAYS_SHORT}" "0 \<le> now"
  shows "auth_wf E (fst (start_session E now ttl token u db))"
proof -
  define f where "f = set_user (\<lambda>v. v\<lparr>iu_last_login_at := Some (beijing_rfc3339 (ae_chrono E) now)\<rparr>)"
  have wf: "auth_wf E (update_users P f db)" for P
    unfolding f_def using assms(1) by (intro auth_wf_keeps keeps_set_user) simp_all
  have insert: "auth_wf E db'"
    if "insert_session s d = Some db'" "auth_wf E d" "session_wf E (ad_users d) s" for s d db'
  proof -
    have "se_session_token s \<notin> se_session_token ` set (ad_sessions d)" and "db' = d\<lparr>ad_sessions := ad_sessions d @ [s]\<rparr>"
      using that(1) by (force simp: insert_session_def split: if_splits)+
    then show ?thesis using that(2,3) by (simp add: auth_wf_def)
  qed
  define d where "d = update_users (has_user_id u) f db"
  define s where "s = \<lparr>se_session_token = hash_session_token E token, se_user_id = u,
    se_created_at = beijing_rfc3339 (ae_chrono E) now, se_expires_at = beijing_rfc3339 (ae_chrono E) (now + days ttl),
    se_last_seen_at = beijing_rfc3339 (ae_chrono E) now\<rparr>"
  have "\<exists>q \<in> set (ad_users d). has_user_id u q \<and> active q"
    using assms(2-4) by (intro bexI [of _ "f r"]) (auto simp: d_def f_def has_user_id_def active_def)
  then have "session_wf E (ad_users d) s" using assms(5,6) by (auto simp: session_wf_def s_def)
  then have "auth_wf E db'" if "insert_session s d = Some db'" for db' using insert [OF that] wf by (simp add: d_def)
  moreover have "fst (start_session E now ttl token u db) = (case insert_session s d of None \<Rightarrow> db | Some db' \<Rightarrow> db')"
    by (simp add: start_session_def Let_def s_def d_def f_def split: option.split)
  ultimately show ?thesis using assms(1) by (simp split: option.split)
qed

lemma login_user_wf:
  assumes "auth_wf E db" "ttl \<in> {SESSION_TTL_DAYS_LONG, SESSION_TTL_DAYS_SHORT}" "0 \<le> now"
  shows "auth_wf E (fst (create_session_for_user E now token u ttl db))"
proof -
  let ?db = "purge_expired_sessions_inner (beijing_rfc3339 (ae_chrono E) now) db"
  have wf: "auth_wf E ?db" using assms(1) by (rule auth_wf_purge)
  have "auth_wf E (fst (start_session E now ttl token (iu_user_id v) ?db))"
    if found: "find_invite_user_tx ?db u = Some v" and free: "iu_revoked_at v = None" for v
  proof -
    obtain r where "r \<in> set (ad_users ?db)" "has_user_id u r" "v = map_invite_user r"
      using find_invite_user_tx_Some [OF found] by blast
    then show ?thesis using wf assms(2,3) free by (intro start_session_wf) (auto simp: has_user_id_def active_def)
  qed
  then show ?thesis
    using wf assms(1) by (auto simp: create_session_for_user_def Let_def on_db_def split: option.splits)
qed

lemma login_invite_wf:
  assumes "auth_wf E db" "0 \<le> now"
  shows "auth_wf E (fst (create_session_for_invite E now token code phone db))"
proof -
  let ?db = "purge_expired_sessions_inner (beijing_rfc3339 (ae_chrono E) now) db"
  have wf: "auth_wf E ?db" using assms(1) by (rule auth_wf_purge)
  have "auth_wf E (fst (start_session E now SESSION_TTL_DAYS_LONG token (iu_user_id v) ?db))"
    if "select_user (\<lambda>r. iu_invite_code (ir_user r) = c \<and> iu_phone_number (ir_user r) = p \<and> active r) ?db = Some v" for v c p
    using select_user_Some [OF that] wf assms(2) by (auto intro!: start_session_wf simp: has_user_id_def)
  then show ?thesis
    using wf assms(1) by (auto simp: create_session_for_invite_def Let_def on_db_def split: option.splits)
qed

lemma authenticate_wf:
  assumes "auth_wf E db"
  shows "auth_wf E (fst (authenticate_session_detailed E now token db))"
proof -
  have "auth_wf E (db\<lparr>ad_sessions := map (touched token t) (ad_sessions db)\<rparr>)" for token t
  proof -
    have m: "map se_session_token (map (touched token t) ss) = map se_session_token ss" for ss
      by (induction ss) (auto simp: touched_def)
    have "session_wf E us (touched token t q) = session_wf E us q" for q us
      by (simp add: session_wf_def touched_def)
    then show ?thesis using assms by (auto simp: auth_wf_def m simp del: map_map)
  qed
  then show ?thesis
    using assms auth_wf_filter [OF assms]
    by (auto simp: authenticate_session_detailed_def Let_def on_db_def split: option.splits)
qed

lemma update_one_wf:
  assumes "auth_wf E db" "keeps_keys (set_user f)" "keeps_active (set_user f)"
  shows "auth_wf E (fst (update_one P f db))"
  using assms by (auto simp: update_one_def on_db_def split: option.splits intro: auth_wf_keeps)

text \<open>Revoking: the sessions of the user go first, then the row changes.\<close>

lemma auth_wf_without:
  assumes "auth_wf E db" "users_wf (ad_users (update_users (has_user_id u) f db))"
    "\<forall>s \<in> set (ad_sessions db). se_user_id s \<noteq> u"
  shows "auth_wf E (update_users (has_user_id u) f db)"
  unfolding update_users_def
proof (rule auth_wf_users [OF assms(1)])
  show "users_wf (map (\<lambda>r. if has_user_id u r then f r else r) (ad_users db))" using assms(2) by simp
next
  fix r s
  assume rs: "r \<in> set (ad_users db)" "s \<in> set (ad_sessions db)" "has_user_id (se_user_id s) r" "active r"
  then have "\<not> has_user_id u r" using assms(3) by (auto simp: has_user_id_def)
  then show "\<exists>q \<in> set (map (\<lambda>r. if has_user_id u r then f r else r) (ad_users db)). has_user_id (se_user_id s) q \<and> active q"
    using rs by (intro bexI [of _ r]) (auto intro: rev_image_eqI)
qed

lemma delete_sessions_wf:
  "auth_wf E db \<Longrightarrow> auth_wf E (fst (delete_sessions_for_user_tx u db))"
  by (simp add: delete_sessions_for_user_tx_def auth_wf_filter)

lemma set_invite_revoked_wf:
  assumes "auth_wf E db"
  shows "auth_wf E (fst (set_invite_revoked E now u revoked db))"
proof -
  define d where "d = purge_expired_sessions_inner (beijing_rfc3339 (ae_chrono E) now) db"
  have wf: "auth_wf E d" using assms by (simp add: d_def auth_wf_purge)
  have keys: "keeps_keys (set_user (\<lambda>v. v\<lparr>iu_revoked_at := t\<rparr>))" for t by (rule keeps_set_user) simp
  have users: "users_wf (ad_users (update_users (has_user_id u) (set_user (\<lambda>v. v\<lparr>iu_revoked_at := t\<rparr>)) d'))"
    if "auth_wf E d'" for t d' using that users_wf_keeps [OF _ keys] by (simp add: auth_wf_def)
  have on: "auth_wf E (update_users (has_user_id u) (set_user (\<lambda>v. v\<lparr>iu_revoked_at := t\<rparr>)) (fst (delete_sessions_for_user_tx u d)))"
    for t using users [OF delete_sessions_wf [OF wf]] delete_sessions_wf [OF wf]
    by (intro auth_wf_without) (auto simp: delete_sessions_for_user_tx_def)
  have off: "auth_wf E (update_users (has_user_id u) (set_user (\<lambda>v. v\<lparr>iu_revoked_at := None\<rparr>)) d)"
    unfolding update_users_def
  proof (rule auth_wf_users [OF wf])
    show "users_wf (map (\<lambda>r. if has_user_id u r then set_user (\<lambda>v. v\<lparr>iu_revoked_at := None\<rparr>) r else r) (ad_users d))"
      using users [OF wf, of None] by simp
    fix r s assume "r \<in> set (ad_users d)" "has_user_id (se_user_id s) r" "active r"
    then show "\<exists>q \<in> set (map (\<lambda>r. if has_user_id u r then set_user (\<lambda>v. v\<lparr>iu_revoked_at := None\<rparr>) r else r) (ad_users d)).
        has_user_id (se_user_id s) q \<and> active q"
      by (intro bexI [of _ "if has_user_id u r then set_user (\<lambda>v. v\<lparr>iu_revoked_at := None\<rparr>) r else r"])
         (auto simp: has_user_id_def active_def)
  qed
  show ?thesis
    using wf on off assms
    by (auto simp: set_invite_revoked_def Let_def d_def [symmetric] on_db_def case_prod_beta split: option.splits)
qed

lemma reset_invite_code_wf:
  assumes "auth_wf E db"
  shows "auth_wf E (fst (reset_invite_code E now codes u db))"
proof -
  define d where "d = purge_expired_sessions_inner (beijing_rfc3339 (ae_chrono E) now) db"
  have wf: "auth_wf E d" using assms by (simp add: d_def auth_wf_purge)
  have "auth_wf E (update_users (has_user_id u) (set_user (\<lambda>v. v\<lparr>iu_invite_code := code, iu_revoked_at := None\<rparr>))
      (fst (delete_sessions_for_user_tx u d)))" if "generate_unique_invite_code E codes d = Inr code" for code
  proof (rule auth_wf_without [OF delete_sessions_wf [OF wf]])
    have us: "users_wf (ad_users d)" using wf by (simp add: auth_wf_def)
    show "users_wf (ad_users (update_users (has_user_id u)
        (set_user (\<lambda>v. v\<lparr>iu_invite_code := code, iu_revoked_at := None\<rparr>)) (fst (delete_sessions_for_user_tx u d))))"
      using generate_unique_invite_code_fresh [OF that] unfolding update_users_simps
      by (simp add: delete_sessions_for_user_tx_def)
         (rule users_wf_update [OF us], auto simp: row_distinct_def has_user_id_def)
  qed (simp add: delete_sessions_for_user_tx_def)
  then show ?thesis
    using wf assms
    by (auto simp: reset_invite_code_def Let_def d_def [symmetric] on_db_def case_prod_beta
        split: option.splits sum.splits)
qed

lemma perform_wf:
  assumes "auth_wf E db" "0 \<le> now"
  shows "auth_wf E (perform E now c db)"
proof (cases c)
  case (UseApiKey key)
  have "auth_wf E (update_users P (set_user (\<lambda>u. u\<lparr>iu_api_key_last_used_at := t\<rparr>)) db)" for P t
    using assms(1) by (intro auth_wf_keeps keeps_set_user) simp_all
  then show ?thesis
    using assms(1) UseApiKey by (auto simp: find_invite_user_by_api_key_def Let_def on_db_def split: option.splits)
next
  case (EnsureApiKey keys u)
  then show ?thesis
    using assms(1) with_new_api_key_wf by (auto simp: ensure_api_key_for_user_def on_db_def split: option.splits)
next
  case (ResetApiKey keys u)
  then show ?thesis
    using assms(1) with_new_api_key_wf by (auto simp: reset_api_key_for_user_def on_db_def split: option.splits)
next
  case (Logout token)
  then show ?thesis using assms(1) auth_wf_filter by (auto simp: delete_session_def on_db_def split: option.splits)
next
  case (CountSessions u)
  then show ?thesis
    using assms(1) auth_wf_purge by (auto simp: count_active_sessions_for_user_def Let_def on_db_def split: option.splits)
next
  case (SetPassword u hash tos)
  then show ?thesis by (simp add: set_password_def Let_def update_one_wf [OF assms(1)] keeps_set_user)
next
  case (ChangePassword u hash)
  then show ?thesis by (simp add: change_password_def Let_def update_one_wf [OF assms(1)] keeps_set_user)
next
  case (AcceptTerms u tos)
  then show ?thesis by (simp add: record_tos_acceptance_def Let_def update_one_wf [OF assms(1)] keeps_set_user)
qed (simp_all add: assms create_invite_user_wf login_invite_wf login_user_wf authenticate_wf set_invite_revoked_wf
      reset_invite_code_wf)

lemma perform_all_wf:
  "auth_wf E db \<Longrightarrow> \<forall>(now, c) \<in> set cs. 0 \<le> now \<Longrightarrow> auth_wf E (perform_all E cs db)"
  by (induction E cs db rule: perform_all.induct) (auto intro: perform_wf)

section \<open>What a call does to a session and to a user\<close>

definition same_session :: "invite_session \<Rightarrow> invite_session \<Rightarrow> bool" where
  "same_session s q \<longleftrightarrow> se_session_token q = se_session_token s \<and> se_user_id q = se_user_id s
     \<and> se_created_at q = se_created_at s \<and> se_expires_at q = se_expires_at s"

lemma same_session_refl [simp]: "same_session s s" by (simp add: same_session_def)

fun ends_session :: "auth_env \<Rightarrow> auth_call \<Rightarrow> invite_session \<Rightarrow> bool" where
  "ends_session E (Logout token) s = token_matches E token s"
| "ends_session E (SetRevoked u revoked) s = (revoked \<and> se_user_id s = u)"
| "ends_session E (ResetCode codes u) s = (se_user_id s = u)"
| "ends_session E _ s = False"

fun unlocks :: "rstr \<Rightarrow> auth_call \<Rightarrow> bool" where
  "unlocks u (SetRevoked v revoked) = (v = u \<and> \<not> revoked)"
| "unlocks u (ResetCode codes v) = (v = u)"
| "unlocks u _ = False"

lemmas call_defs = create_invite_user_def find_invite_user_by_api_key_def ensure_api_key_for_user_def
  reset_api_key_for_user_def with_new_api_key_def write_api_key_def rekeyed_def create_session_for_invite_def
  create_session_for_user_def start_session_def authenticate_session_detailed_def delete_session_def
  count_active_sessions_for_user_def set_invite_revoked_def reset_invite_code_def set_password_def
  change_password_def record_tos_acceptance_def update_one_def delete_sessions_for_user_tx_def insert_user_def
  insert_session_def Let_def on_db_def

text \<open>The session a login starts: it carries the hash of the token drawn, and expires the period chosen at the login after
  the moment of the login.\<close>

definition begun :: "auth_env \<Rightarrow> rstr \<Rightarrow> instant \<Rightarrow> int \<Rightarrow> invite_session \<Rightarrow> bool" where
  "begun E token now ttl s \<longleftrightarrow> se_session_token s = hash_session_token E token \<and>
     se_created_at s = beijing_rfc3339 (ae_chrono E) now \<and> se_expires_at s = beijing_rfc3339 (ae_chrono E) (now + days ttl)"

fun started_by :: "auth_env \<Rightarrow> instant \<Rightarrow> auth_call \<Rightarrow> int \<Rightarrow> invite_session \<Rightarrow> bool" where
  "started_by E now (LoginInvite token code phone) ttl s = (ttl = 30 \<and> begun E token now ttl s)"
| "started_by E now (LoginUser token u keep) ttl s =
     (ttl = (if keep then 30 else 1) \<and> se_user_id s = u \<and> begun E token now ttl s)"
| "started_by E now _ ttl s = False"

lemma login_begins:
  assumes "s' \<in> set (ad_sessions (fst (start_session E now ttl token u db)))"
  shows "s' \<in> set (ad_sessions db) \<or> se_user_id s' = u \<and> begun E token now ttl s'"
  using assms by (auto simp: start_session_def insert_session_def Let_def begun_def split: if_splits)

lemma login_sessions:
  assumes "s' \<in> set (ad_sessions (fst (start_session E now ttl token u db)))"
  shows "s' \<in> set (ad_sessions db) \<or> se_user_id s' = u"
  using assms by (auto simp: start_session_def insert_session_def Let_def split: if_splits)

lemma same_session_touched [simp]: "same_session s (touched token now s)"
  by (simp add: same_session_def touched_def)

lemma authenticate_sessions:
  "ad_sessions (fst (authenticate_session_detailed E now token db)) = ad_sessions db \<or>
   (\<exists>q \<in> set (ad_sessions db). se_expires_at q \<le> beijing_rfc3339 (ae_chrono E) now \<and>
      ad_sessions (fst (authenticate_session_detailed E now token db)) =
        filter (\<lambda>s. se_session_token s \<noteq> se_session_token q) (ad_sessions db)) \<or>
   (\<exists>stored t. ad_sessions (fst (authenticate_session_detailed E now token db)) = map (touched stored t) (ad_sessions db))"
  by (cases "find (token_matches E token) (ad_sessions db)"; cases "ad_fault db")
     (auto simp: authenticate_session_detailed_def Let_def on_db_def find_Some_iff split: option.split)

lemma authenticate_sessions_cases [consumes 0, case_names same expired touched]:
  obtains "ad_sessions (fst (authenticate_session_detailed E now token db)) = ad_sessions db"
  | q where "q \<in> set (ad_sessions db)" "se_expires_at q \<le> beijing_rfc3339 (ae_chrono E) now"
      "ad_sessions (fst (authenticate_session_detailed E now token db)) =
        filter (\<lambda>s. se_session_token s \<noteq> se_session_token q) (ad_sessions db)"
  | stored t where "ad_sessions (fst (authenticate_session_detailed E now token db)) =
        map (touched stored t) (ad_sessions db)"
  using authenticate_sessions [of E now token db] by blast

text \<open>A session is an old one, or belongs to a user who was active.\<close>

lemma perform_sessions_from:
  assumes "s' \<in> set (ad_sessions (perform E now c db))"
  shows "(\<exists>s \<in> set (ad_sessions db). same_session s s') \<or>
    (\<exists>r \<in> set (ad_users db). has_user_id (se_user_id s') r \<and> active r)"
proof (cases "s' \<in> set (ad_sessions db)")
  case True
  then show ?thesis by (intro disjI1 bexI [of _ s']) simp_all
next
  case new: False
  show ?thesis
  proof (cases c)
    case (LoginInvite token code phone)
    then show ?thesis using assms new
      by (auto simp: create_session_for_invite_def Let_def on_db_def has_user_id_def split: option.splits
          dest!: login_sessions select_user_Some)
  next
    case (LoginUser token u keep)
    then show ?thesis using assms new
      by (auto simp: create_session_for_user_def Let_def on_db_def has_user_id_def active_def
          split: option.splits if_splits dest!: login_sessions find_invite_user_tx_Some)
  next
    case (Authenticate token)
    then show ?thesis using assms new
      by (cases rule: authenticate_sessions_cases [of E now token db]) (auto intro: same_session_touched)
  qed (use assms new in \<open>auto simp: call_defs split: option.splits sum.splits if_splits\<close>)
qed

text \<open>A session after a call is as it was before, but for when it was last seen, or the call is the login that started it.\<close>

lemma perform_session_origin:
  assumes "s' \<in> set (ad_sessions (perform E now c db))"
  shows "(\<exists>s \<in> set (ad_sessions db). same_session s s') \<or> (\<exists>ttl. started_by E now c ttl s')"
proof (cases "s' \<in> set (ad_sessions db)")
  case True
  then show ?thesis by (intro disjI1 bexI [of _ s']) simp_all
next
  case new: False
  show ?thesis
  proof (cases c)
    case (LoginInvite token code phone)
    then show ?thesis using assms new
      by (auto simp: create_session_for_invite_def Let_def on_db_def SESSION_TTL_DAYS_LONG_def split: option.splits
          dest!: login_begins)
  next
    case (LoginUser token u keep)
    then show ?thesis using assms new
      by (auto simp: create_session_for_user_def Let_def on_db_def has_user_id_def SESSION_TTL_DAYS_LONG_def
          SESSION_TTL_DAYS_SHORT_def split: option.splits if_splits dest!: login_begins find_invite_user_tx_Some)
  next
    case (Authenticate token)
    then show ?thesis using assms new
      by (cases rule: authenticate_sessions_cases [of E now token db]) (auto intro: same_session_touched)
  qed (use assms new in \<open>auto simp: call_defs split: option.splits sum.splits if_splits\<close>)
qed

lemma begun_same: "same_session s s' \<Longrightarrow> begun E token now ttl s' = begun E token now ttl s"
  by (simp add: same_session_def begun_def)

lemma started_same: "same_session s s' \<Longrightarrow> started_by E now c ttl s' = started_by E now c ttl s"
  by (cases c) (auto simp: begun_same, (simp add: same_session_def)+)

lemma same_session_trans: "same_session s t \<Longrightarrow> same_session t u \<Longrightarrow> same_session s u"
  by (simp add: same_session_def)

lemma perform_all_origin:
  "s' \<in> set (ad_sessions (perform_all E calls db)) \<Longrightarrow>
     (\<exists>s \<in> set (ad_sessions db). same_session s s') \<or> (\<exists>t c ttl. (t, c) \<in> set calls \<and> started_by E t c ttl s')"
proof (induction E calls db rule: perform_all.induct)
  case (1 E db)
  then show ?case by (intro disjI1 bexI [of _ s']) simp_all
next
  case (2 E now c cs db)
  then consider s where "s \<in> set (ad_sessions (perform E now c db))" "same_session s s'"
    | t c' ttl where "(t, c') \<in> set cs" "started_by E t c' ttl s'" by auto
  then show ?case
  proof cases
    case 1
    from perform_session_origin [OF 1(1)] show ?thesis
      using same_session_trans [OF _ 1(2)] started_same [OF 1(2)] by (metis list.set_intros(1))
  next
    case 2
    then show ?thesis by (intro disjI2 exI [of _ t] exI [of _ c'] exI [of _ ttl]) simp
  qed
qed

lemma login_keeps:
  "s \<in> set (ad_sessions db) \<Longrightarrow> s \<in> set (ad_sessions (fst (start_session E now ttl token u db)))"
  by (auto simp: start_session_def insert_session_def Let_def split: option.splits)

text \<open>A session stays until it expires or a call ends it.\<close>

lemma perform_sessions_kept:
  assumes "auth_wf E db" "s \<in> set (ad_sessions db)" "\<not> se_expires_at s \<le> beijing_rfc3339 (ae_chrono E) now"
    "\<not> ends_session E c s"
  shows "\<exists>s' \<in> set (ad_sessions (perform E now c db)). same_session s s'"
proof (cases "\<exists>token. c = Authenticate token")
  case True
  then obtain token where c: "c = Authenticate token" by blast
  have one: "q = s" if "q \<in> set (ad_sessions db)" "se_session_token q = se_session_token s" for q
    using assms(1,2) that by (auto simp: auth_wf_def distinct_map inj_on_def)
  show ?thesis
  proof (cases rule: authenticate_sessions_cases [of E now token db])
    case (expired q)
    then have "se_session_token s \<noteq> se_session_token q" using one [of q] assms(3) by metis
    then show ?thesis using assms(2) c expired(3) by (intro bexI [of _ s]) simp_all
  qed (use assms(2) c in \<open>auto intro: bexI [of _ s] bexI [of _ "touched _ _ s"]\<close>)
next
  case other: False
  have "s \<in> set (ad_sessions (perform E now c db))"
  proof (cases c)
    case (LoginInvite token code phone)
    then show ?thesis using assms
      by (auto simp: create_session_for_invite_def Let_def on_db_def intro!: login_keeps split: option.splits)
  next
    case (LoginUser token u keep)
    then show ?thesis using assms
      by (auto simp: create_session_for_user_def Let_def on_db_def intro!: login_keeps split: option.splits)
  qed (use assms other in \<open>auto simp: call_defs split: option.splits sum.splits if_splits\<close>)
  then show ?thesis by (intro bexI [of _ s]) simp_all
qed

text \<open>A row after a call: the identity stays, it is active only if it was or the call unlocks it, a password
  is never taken away.\<close>

definition row_follows :: "auth_call \<Rightarrow> invite_row \<Rightarrow> invite_row \<Rightarrow> bool" where
  "row_follows c r r' \<longleftrightarrow> iu_user_id (ir_user r') = iu_user_id (ir_user r)
     \<and> (active r' \<longrightarrow> active r \<or> unlocks (iu_user_id (ir_user r)) c)
     \<and> (iu_password_hash (ir_user r) \<noteq> None \<longrightarrow> iu_password_hash (ir_user r') \<noteq> None)"

lemma row_follows_refl [simp]: "row_follows c r r" by (simp add: row_follows_def)

text \<open>Every call maps the rows one by one, except that a new user comes last.\<close>

definition rows_follow :: "auth_call \<Rightarrow> invite_row list \<Rightarrow> invite_row list \<Rightarrow> bool" where
  "rows_follow c us us' \<longleftrightarrow> list_all2 (row_follows c) us us'"

lemma rows_follow_refl [simp]: "rows_follow c us us"
  by (simp add: rows_follow_def list_all2_same)

lemma rows_follow_update:
  assumes "\<And>r. P r \<Longrightarrow> row_follows c r (f r)" "ad_users d = us"
  shows "rows_follow c us (ad_users (update_users P f d))"
  using assms by (auto simp: rows_follow_def list_all2_map2 list_all2_same)

lemma start_session_users:
  "rows_follow c (ad_users db) (ad_users (fst (start_session E now ttl token u db)))"
proof -
  have "rows_follow c (ad_users db) (ad_users (update_users (has_user_id u)
      (set_user (\<lambda>v. v\<lparr>iu_last_login_at := t\<rparr>)) db))" for t
    by (rule rows_follow_update) (simp_all add: row_follows_def active_def)
  then show ?thesis
    by (auto simp: start_session_def Let_def insert_session_def simp del: update_users_simps(1))
qed

lemma update_one_users:
  assumes "\<And>r. P r \<Longrightarrow> row_follows c r (set_user f r)"
  shows "rows_follow c (ad_users db) (ad_users (fst (update_one P f db)))"
  using rows_follow_update [OF assms, of P, OF _ refl]
  by (auto simp: update_one_def on_db_def simp del: update_users_simps(1) split: option.split)

lemma with_new_api_key_users:
  "rows_follow c (ad_users db) (ad_users (fst (with_new_api_key E now uuids msg u db)))"
proof -
  have "rows_follow c (ad_users db) (ad_users (write_api_key E now u key db))" for key
    unfolding write_api_key_def by (rule rows_follow_update) (simp_all add: row_follows_def active_def rekeyed_def)
  then show ?thesis by (auto simp: with_new_api_key_def Let_def split: sum.split option.split)
qed

lemma mutation_users:
  "rows_follow (SetRevoked u revoked) (ad_users db) (ad_users (fst (set_invite_revoked E now u revoked db)))"
  "rows_follow (ResetCode codes u) (ad_users db) (ad_users (fst (reset_invite_code E now codes u db)))"
proof -
  have "rows_follow (SetRevoked u revoked) (ad_users db) (ad_users (update_users (has_user_id u)
      (set_user (\<lambda>v. v\<lparr>iu_revoked_at := (if revoked then Some t else None)\<rparr>)) d))" if "ad_users d = ad_users db" for t d
    using that by (intro rows_follow_update) (auto simp: row_follows_def active_def has_user_id_def)
  then show "rows_follow (SetRevoked u revoked) (ad_users db) (ad_users (fst (set_invite_revoked E now u revoked db)))"
    by (auto simp: set_invite_revoked_def Let_def on_db_def delete_sessions_for_user_tx_def case_prod_beta
        simp del: update_users_simps(1) split: option.split)
  have "rows_follow (ResetCode codes u) (ad_users db) (ad_users (update_users (has_user_id u)
      (set_user (\<lambda>v. v\<lparr>iu_invite_code := code, iu_revoked_at := None\<rparr>)) d))" if "ad_users d = ad_users db" for code d
    using that by (intro rows_follow_update) (auto simp: row_follows_def active_def has_user_id_def)
  then show "rows_follow (ResetCode codes u) (ad_users db) (ad_users (fst (reset_invite_code E now codes u db)))"
    by (auto simp: reset_invite_code_def Let_def on_db_def delete_sessions_for_user_tx_def case_prod_beta
        simp del: update_users_simps(1) split: option.split sum.split)
qed

lemma login_users:
  "rows_follow c (ad_users db) (ad_users (fst (create_session_for_invite E now token code phone db)))"
  "rows_follow c (ad_users db) (ad_users (fst (create_session_for_user E now token u ttl db)))"
  using start_session_users [of c "purge_expired_sessions_inner (beijing_rfc3339 (ae_chrono E) now) db" E now]
  by (auto simp: create_session_for_invite_def create_session_for_user_def Let_def on_db_def split: option.split)

lemma use_api_key_users:
  "rows_follow c (ad_users db) (ad_users (fst (find_invite_user_by_api_key E now key db)))"
proof -
  have "rows_follow c (ad_users db) (ad_users (update_users P (set_user (\<lambda>u. u\<lparr>iu_api_key_last_used_at := t\<rparr>)) db))" for P t
    by (rule rows_follow_update) (simp_all add: row_follows_def active_def)
  then show ?thesis
    by (auto simp: find_invite_user_by_api_key_def Let_def on_db_def simp del: update_users_simps(1) split: option.split)
qed

lemma create_invite_users:
  obtains "ad_users (fst (create_invite_user E now uuid codes keys phone db)) = ad_users db"
  | r' where "ad_users (fst (create_invite_user E now uuid codes keys phone db)) = ad_users db @ [r']"
      "\<forall>r \<in> set (ad_users db). iu_user_id (ir_user r) \<noteq> iu_user_id (ir_user r')"
proof -
  have "ad_users (fst (create_invite_user E now uuid codes keys phone db)) = ad_users db \<or>
    (\<exists>r'. ad_users (fst (create_invite_user E now uuid codes keys phone db)) = ad_users db @ [r'] \<and>
      (\<forall>r \<in> set (ad_users db). iu_user_id (ir_user r) \<noteq> iu_user_id (ir_user r')))"
    by (auto simp: create_invite_user_def insert_user_def Let_def on_db_def split: option.split sum.split)
  then show ?thesis using that by blast
qed

lemma perform_users:
  obtains us where "rows_follow c (ad_users db) us" "ad_users (perform E now c db) = us"
  | us r' where "rows_follow c (ad_users db) us" "ad_users (perform E now c db) = us @ [r']"
      "\<forall>r \<in> set (ad_users db). iu_user_id (ir_user r) \<noteq> iu_user_id (ir_user r')"
proof (cases "\<exists>uuid codes keys phone. c = CreateInvite uuid codes keys phone")
  case True
  then obtain uuid codes keys phone where c: "c = CreateInvite uuid codes keys phone" by blast
  show thesis
    by (rule create_invite_users [of E now uuid codes keys phone db]) (use that c in simp_all)
next
  case False
  have "rows_follow c (ad_users db) (ad_users (perform E now c db))"
  proof (cases c)
    case (SetPassword u hash tos)
    show ?thesis unfolding SetPassword perform.simps set_password_def Let_def
      by (rule update_one_users) (auto simp: row_follows_def active_def)
  next
    case (ChangePassword u hash)
    show ?thesis unfolding ChangePassword perform.simps change_password_def Let_def
      by (rule update_one_users) (auto simp: row_follows_def active_def)
  next
    case (AcceptTerms u tos)
    show ?thesis unfolding AcceptTerms perform.simps record_tos_acceptance_def Let_def
      by (rule update_one_users) (auto simp: row_follows_def active_def)
  next
    case (Authenticate token)
    then show ?thesis
      by (auto simp: authenticate_session_detailed_def Let_def on_db_def split: option.split)
  qed (use False with_new_api_key_users in \<open>auto simp: mutation_users login_users use_api_key_users
        ensure_api_key_for_user_def reset_api_key_for_user_def delete_session_def count_active_sessions_for_user_def
        Let_def on_db_def split: option.split\<close>)
  then show thesis using that(1) by blast
qed

section \<open>Locked users, living sessions\<close>

definition locked :: "rstr \<Rightarrow> auth_db \<Rightarrow> bool" where
  "locked u db \<longleftrightarrow> (\<exists>r \<in> set (ad_users db). has_user_id u r) \<and> (\<forall>r \<in> set (ad_users db). has_user_id u r \<longrightarrow> \<not> active r)
     \<and> (\<forall>s \<in> set (ad_sessions db). se_user_id s \<noteq> u)"

lemma rows_follow_row:
  assumes "rows_follow c us us'" "r' \<in> set us'"
  shows "\<exists>r \<in> set us. row_follows c r r'"
  using assms unfolding rows_follow_def by (induction us us' rule: list_all2_induct) auto

lemma rows_follow_kept:
  assumes "rows_follow c us us'" "r \<in> set us"
  shows "\<exists>r' \<in> set us'. row_follows c r r'"
  using assms unfolding rows_follow_def by (induction us us' rule: list_all2_induct) auto

text \<open>A row is kept; a row with a known user id is an old one.\<close>

lemma perform_row_kept:
  assumes "r \<in> set (ad_users db)"
  shows "\<exists>r' \<in> set (ad_users (perform E now c db)). row_follows c r r'"
proof (cases rule: perform_users [of c db E now])
  case (1 us)
  then show ?thesis using rows_follow_kept assms by blast
next
  case (2 us r')
  then show ?thesis using rows_follow_kept [OF 2(1) assms] by auto
qed

lemma perform_row_from:
  assumes "r' \<in> set (ad_users (perform E now c db))" "has_user_id u r'" "\<exists>r \<in> set (ad_users db). has_user_id u r"
  shows "\<exists>r \<in> set (ad_users db). row_follows c r r'"
proof (cases rule: perform_users [of c db E now])
  case (1 us)
  then show ?thesis using rows_follow_row assms(1) by blast
next
  case (2 us q)
  then have "r' \<noteq> q" using assms(2,3) by (auto simp: has_user_id_def)
  then show ?thesis using rows_follow_row [OF 2(1)] assms(1) 2(2) by auto
qed

lemma perform_locked:
  assumes "locked u db" "\<not> unlocks u c"
  shows "locked u (perform E now c db)"
proof -
  have known: "\<exists>r \<in> set (ad_users db). has_user_id u r" using assms(1) by (simp add: locked_def)
  have "\<exists>r \<in> set (ad_users (perform E now c db)). has_user_id u r"
    using known perform_row_kept [of _ db E now c] by (fastforce simp: row_follows_def has_user_id_def)
  moreover have "\<not> active r'" if r': "r' \<in> set (ad_users (perform E now c db))" "has_user_id u r'" for r'
    using perform_row_from [OF r' known] r'(2) assms by (auto simp: row_follows_def locked_def has_user_id_def)
  moreover have "se_user_id s' \<noteq> u" if "s' \<in> set (ad_sessions (perform E now c db))" for s'
    using perform_sessions_from [OF that] assms(1) by (auto simp: locked_def same_session_def)
  ultimately show ?thesis by (simp add: locked_def)
qed

lemma perform_all_locked:
  "locked u db \<Longrightarrow> \<forall>(now, c) \<in> set cs. \<not> unlocks u c \<Longrightarrow> locked u (perform_all E cs db)"
  by (induction E cs db rule: perform_all.induct) (auto intro: perform_locked)

lemma set_invite_revoked_locks:
  assumes "set_invite_revoked E now u True db = (db', Inr (Some m))"
  shows "locked u db'"
proof -
  define t where "t = beijing_rfc3339 (ae_chrono E) now"
  define d where "d = purge_expired_sessions_inner t db"
  define f where "f = set_user (\<lambda>v. v\<lparr>iu_revoked_at := Some t\<rparr>)"
  define d2 where "d2 = update_users (has_user_id u) f (fst (delete_sessions_for_user_tx u d))"
  have free: "ad_fault db = None" using assms by (cases "ad_fault db") (simp_all add: set_invite_revoked_def on_db_def)
  obtain v where v: "find_invite_user_tx d u = Some v"
    using assms free
    by (cases "find_invite_user_tx d u") (simp_all add: set_invite_revoked_def on_db_def d_def t_def Let_def)
  have "set_invite_revoked E now u True db = (case find_invite_user_tx d2 u of
      None \<Rightarrow> (d, Inl (Storage (lit ''web invite disappeared during update'')))
    | Some invite \<Rightarrow> (d2, Inr (Some \<lparr>im_invite = invite,
          im_cleared_session_count = snd (delete_sessions_for_user_tx u d)\<rparr>)))"
    using free v by (simp add: set_invite_revoked_def on_db_def Let_def case_prod_beta d_def t_def d2_def f_def
        split: option.split)
  then have db': "db' = d2" "find_invite_user_tx d2 u \<noteq> None"
    using assms by (auto split: option.splits)
  have "ad_users d2 = map (\<lambda>r. if has_user_id u r then f r else r) (ad_users d)"
    "\<forall>s \<in> set (ad_sessions d2). se_user_id s \<noteq> u"
    by (auto simp: d2_def delete_sessions_for_user_tx_def)
  moreover have "has_user_id u (f r) = has_user_id u r" "\<not> active (f r)" for r
    by (simp_all add: f_def has_user_id_def active_def)
  ultimately show ?thesis using db' find_invite_user_tx_Some [of d2 u] by (force simp: locked_def)
qed

text \<open>A session with its fields.\<close>

definition holds_session :: "rstr \<Rightarrow> rstr \<Rightarrow> rstr \<Rightarrow> auth_db \<Rightarrow> bool" where
  "holds_session token u expires_at db \<longleftrightarrow>
     (\<exists>s \<in> set (ad_sessions db). se_session_token s = token \<and> se_user_id s = u \<and> se_expires_at s = expires_at)"

text \<open>A call that does not end the session with this stored token of this user.\<close>

fun spares :: "auth_env \<Rightarrow> rstr \<Rightarrow> rstr \<Rightarrow> auth_call \<Rightarrow> bool" where
  "spares E stored u (Logout token) = (stored \<noteq> hash_session_token E token \<and> stored \<noteq> token)"
| "spares E stored u (SetRevoked v revoked) = (\<not> (revoked \<and> v = u))"
| "spares E stored u (ResetCode codes v) = (v \<noteq> u)"
| "spares E stored u _ = True"

lemma spares_session:
  "spares E (se_session_token s) (se_user_id s) c \<Longrightarrow> \<not> ends_session E c s"
  by (cases c) (auto simp: token_matches_def)

lemma perform_holds:
  assumes "auth_wf E db" "holds_session token u e db" "\<not> e \<le> beijing_rfc3339 (ae_chrono E) now" "spares E token u c"
  shows "holds_session token u e (perform E now c db)"
proof -
  obtain s where s: "s \<in> set (ad_sessions db)" "se_session_token s = token" "se_user_id s = u" "se_expires_at s = e"
    using assms(2) by (auto simp: holds_session_def)
  then have "\<not> ends_session E c s" using spares_session assms(4) by blast
  from perform_sessions_kept [OF assms(1) s(1) _ this, of now] show ?thesis
    using s assms(3) by (auto simp: holds_session_def same_session_def)
qed

lemma perform_all_holds:
  assumes "auth_wf E db" "holds_session token u e db"
    "\<forall>(now, c) \<in> set cs. 0 \<le> now \<and> \<not> e \<le> beijing_rfc3339 (ae_chrono E) now \<and> spares E token u c"
  shows "holds_session token u e (perform_all E cs db)"
  using assms
  by (induction E cs db rule: perform_all.induct) (auto intro: perform_holds perform_wf)

lemma perform_fault: "ad_fault (perform E now c db) = ad_fault db"
proof (cases c)
  case (Authenticate token)
  then show ?thesis by (auto simp: authenticate_session_detailed_def Let_def on_db_def split: option.split)
qed (auto simp: call_defs split: option.split sum.split)

lemma perform_all_fault [simp]: "ad_fault (perform_all E cs db) = ad_fault db"
  by (induction E cs db rule: perform_all.induct) (auto simp: perform_fault)

lemma authenticate_found:
  assumes "auth_wf E db" "ad_fault db = None" "s \<in> set (ad_sessions db)" "token_matches E token s"
    "\<forall>q \<in> set (ad_sessions db). token_matches E token q \<longrightarrow> q = s"
    "\<not> se_expires_at s \<le> beijing_rfc3339 (ae_chrono E) now"
  obtains db' v where "authenticate_session_detailed E now token db = (db', Inr (Authenticated v))"
    "iu_user_id v = se_user_id s"
proof -
  have "find (token_matches E token) (ad_sessions db) \<noteq> None" using assms(3,4) by (auto simp: find_None_iff)
  then obtain q where q: "find (token_matches E token) (ad_sessions db) = Some q" by blast
  then have qs: "q = s" using assms(5) by (auto simp: find_Some_iff)
  obtain r where r: "r \<in> set (ad_users db)" "has_user_id (se_user_id s) r" "active r"
    using assms(1,3) by (auto simp: auth_wf_def session_wf_def)
  have "find_invite_user_tx db (se_user_id s) = Some (map_invite_user r)"
    using assms(1) r by (intro find_invite_user_tx_row) (simp_all add: auth_wf_def)
  then show ?thesis
    using that q r assms(2,6) by (simp add: authenticate_session_detailed_def on_db_def Let_def qs active_def has_user_id_def)
qed

lemma login_starts_session:
  assumes "create_session_for_user E now token u ttl db = (db', Inr (Some s))"
  shows "holds_session (hash_session_token E token) u (beijing_rfc3339 (ae_chrono E) (now + days ttl)) db'"
    "se_session_token s = token" "se_user_id s = u" "se_expires_at s = beijing_rfc3339 (ae_chrono E) (now + days ttl)"
    "ad_fault db' = None"
proof -
  let ?d = "purge_expired_sessions_inner (beijing_rfc3339 (ae_chrono E) now) db"
  have free: "ad_fault db = None" using assms by (cases "ad_fault db") (simp_all add: create_session_for_user_def on_db_def)
  obtain v where v: "find_invite_user_tx ?d u = Some v" and start: "start_session E now ttl token (iu_user_id v) ?d = (db', Inr (Some s))"
    using assms free by (auto simp: create_session_for_user_def on_db_def Let_def split: option.splits if_splits)
  have id: "iu_user_id v = u" using find_invite_user_tx_Some [OF v] by (auto simp: has_user_id_def)
  show "holds_session (hash_session_token E token) u (beijing_rfc3339 (ae_chrono E) (now + days ttl)) db'"
    "se_session_token s = token" "se_user_id s = u" "se_expires_at s = beijing_rfc3339 (ae_chrono E) (now + days ttl)"
    "ad_fault db' = None"
    using start free
    by (auto simp: start_session_def Let_def insert_session_def holds_session_def id split: option.splits if_splits)
qed

text \<open>RFC 3339 texts of one offset sort as the instants they stand for, from 1970 to the year 9999.\<close>

definition year_10000 :: instant where
  "year_10000 = secs (253402300800 - beijing_offset)"

definition rfc3339_ordered :: "chrono \<Rightarrow> bool" where
  "rfc3339_ordered C \<longleftrightarrow>
     (\<forall>i j. 0 \<le> i \<and> i \<le> j \<and> j < year_10000 \<longrightarrow> beijing_rfc3339 C i \<le> beijing_rfc3339 C j)"

section \<open>Properties\<close>

text \<open>C35: whatever calls are made, in any order and with any random draws: no two users share an id, an invite code
  or an API key, no plain key is stored, no two sessions share a token, and every session belongs to an existing
  user who is not revoked. A session was there before, with the same user, token, start and expiry (no use extends it), or a
  login among the calls started it, and then it expires the period chosen at that login after it.\<close>

theorem auth_store_invariant:
  assumes "auth_wf E db" "\<forall>(now, c) \<in> set calls. 0 \<le> now"
  shows "auth_wf E (perform_all E calls db) \<and>
    (\<forall>s \<in> set (ad_sessions (perform_all E calls db)).
       (\<exists>q \<in> set (ad_sessions db). same_session q s) \<or> (\<exists>t c ttl. (t, c) \<in> set calls \<and> started_by E t c ttl s))"
  using perform_all_wf [OF assms] perform_all_origin by blast

lemma expires_after:
  assumes "rfc3339_ordered (ae_chrono E)" "now < year_10000" "0 \<le> t" "0 \<le> ttl"
    "\<not> beijing_rfc3339 (ae_chrono E) (t + days ttl) \<le> beijing_rfc3339 (ae_chrono E) now"
  shows "now < t + days ttl"
proof -
  have "0 \<le> t + days ttl" using assms(3,4) by (simp add: days_def secs_def)
  then show ?thesis using assms(1,2,5) by (force simp: rfc3339_ordered_def not_less [symmetric])
qed

lemma started_period: "started_by E t c ttl s \<Longrightarrow> se_expires_at s = beijing_rfc3339 (ae_chrono E) (t + days ttl) \<and> 0 \<le> ttl"
  by (cases c) (auto simp: begun_def)

text \<open>C33: who authenticates. Up to the year 9999, where RFC 3339 texts sort as their instants: after any calls on a well-formed store a token only ever authenticates the owner of a stored
  session that it matches, a user who exists and is not revoked. When a login among the calls started the session, the
  period chosen at that login is not over; a session that was in the store before has the expiry it had then, one of the two
  periods after its start, and has not reached it.\<close>

theorem authenticated_sessions_valid:
  assumes "auth_wf E db" "\<forall>(t, c) \<in> set calls. 0 \<le> t"
    "authenticate_session_detailed E now token (perform_all E calls db) = (db', Inr (Authenticated v))"
    "rfc3339_ordered (ae_chrono E)" "now < year_10000"
  shows "\<exists>s \<in> set (ad_sessions (perform_all E calls db)). \<exists>r \<in> set (ad_users (perform_all E calls db)).
    token_matches E token s \<and> has_user_id (se_user_id s) r \<and> active r \<and> v = map_invite_user r \<and>
    ((\<exists>t c ttl. (t, c) \<in> set calls \<and> started_by E t c ttl s \<and> now < t + days ttl) \<or>
     (\<exists>q \<in> set (ad_sessions db). same_session q s \<and>
        (\<exists>t ttl. ttl \<in> {30, 1} \<and> se_created_at q = beijing_rfc3339 (ae_chrono E) t \<and>
           se_expires_at q = beijing_rfc3339 (ae_chrono E) (t + days ttl) \<and> now < t + days ttl)))"
proof -
  let ?db = "perform_all E calls db"
  have wf: "auth_wf E ?db" by (rule perform_all_wf [OF assms(1,2)])
  obtain s where s: "find (token_matches E token) (ad_sessions ?db) = Some s"
    and live: "\<not> se_expires_at s \<le> beijing_rfc3339 (ae_chrono E) now"
    and v: "find_invite_user_tx ?db (se_user_id s) = Some v" and free: "iu_revoked_at v = None"
    using assms(3)
    by (auto simp: authenticate_session_detailed_def on_db_def Let_def split: option.splits if_splits)
  have m: "s \<in> set (ad_sessions ?db)" "token_matches E token s" using s by (auto simp: find_Some_iff)
  obtain r where r: "r \<in> set (ad_users ?db)" "has_user_id (se_user_id s) r" "v = map_invite_user r"
    using find_invite_user_tx_Some [OF v] by blast
  have "(\<exists>t c ttl. (t, c) \<in> set calls \<and> started_by E t c ttl s \<and> now < t + days ttl) \<or>
     (\<exists>q \<in> set (ad_sessions db). same_session q s \<and>
        (\<exists>t ttl. ttl \<in> {30, 1} \<and> se_created_at q = beijing_rfc3339 (ae_chrono E) t \<and>
           se_expires_at q = beijing_rfc3339 (ae_chrono E) (t + days ttl) \<and> now < t + days ttl))"
    (is "?login \<or> ?old")
  proof -
    consider q where "q \<in> set (ad_sessions db)" "same_session q s"
      | t c ttl where "(t, c) \<in> set calls" "started_by E t c ttl s"
      using perform_all_origin [OF m(1)] by blast
    then show ?thesis
    proof cases
      case 1
      obtain t ttl where t: "0 \<le> t" "ttl \<in> {30, 1}" "se_created_at q = beijing_rfc3339 (ae_chrono E) t"
        "se_expires_at q = beijing_rfc3339 (ae_chrono E) (t + days ttl)"
      proof -
        have "session_wf E (ad_users db) q" using assms(1) 1(1) by (simp add: auth_wf_def)
        then show ?thesis
          using that unfolding session_wf_def SESSION_TTL_DAYS_LONG_def SESSION_TTL_DAYS_SHORT_def by blast
      qed
      have "se_expires_at s = se_expires_at q" using 1(2) by (simp add: same_session_def)
      then have "now < t + days ttl" using expires_after [OF assms(4,5) t(1)] t(2,4) live by fastforce
      then show ?thesis using 1 t(2-4) by blast
    next
      case 2
      have "0 \<le> t" using assms(2) 2(1) by auto
      then have "now < t + days ttl" using expires_after [OF assms(4,5)] started_period [OF 2(2)] live by metis
      then show ?thesis using 2 by blast
    qed
  qed
  then show ?thesis using m r free by (intro bexI [of _ s] bexI [of _ r]) (auto simp: active_def)
qed

text \<open>A login lasts. Whatever calls follow a login before its period is over, other than those meant to end it
  (a logout with its token, revoking the user, a new invite code), the token authenticates that user.\<close>

theorem login_lasts_until_expiry:
  assumes "auth_wf E db" "0 \<le> now" "ttl \<in> {SESSION_TTL_DAYS_LONG, SESSION_TTL_DAYS_SHORT}"
    "create_session_for_user E now token u ttl db = (db1, Inr (Some s))"
    "\<forall>(t, c) \<in> set calls. 0 \<le> t \<and> beijing_rfc3339 (ae_chrono E) t < beijing_rfc3339 (ae_chrono E) (now + days ttl)
       \<and> spares E (hash_session_token E token) u c"
    "beijing_rfc3339 (ae_chrono E) later < beijing_rfc3339 (ae_chrono E) (now + days ttl)"
    "\<forall>q \<in> set (ad_sessions (perform_all E calls db1)). se_session_token q \<noteq> token"
  shows "\<exists>db2 v. authenticate_session_detailed E later (se_session_token s) (perform_all E calls db1)
    = (db2, Inr (Authenticated v)) \<and> iu_user_id v = u"
proof -
  let ?e = "beijing_rfc3339 (ae_chrono E) (now + days ttl)" and ?db = "perform_all E calls db1"
  note start = login_starts_session [OF assms(4)]
  have wf1: "auth_wf E db1" using login_user_wf [OF assms(1,3,2), of token u] assms(4) by simp
  have calls: "\<forall>(t, c) \<in> set calls. 0 \<le> t \<and> \<not> ?e \<le> beijing_rfc3339 (ae_chrono E) t
      \<and> spares E (hash_session_token E token) u c" using assms(5) by (auto simp: not_le)
  have "holds_session (hash_session_token E token) u ?e ?db" by (rule perform_all_holds [OF wf1 start(1) calls])
  then obtain q where q: "q \<in> set (ad_sessions ?db)" "se_session_token q = hash_session_token E token"
    "se_user_id q = u" "se_expires_at q = ?e" by (auto simp: holds_session_def)
  have wf: "auth_wf E ?db" using calls by (intro perform_all_wf [OF wf1]) auto
  then have "p = q" if "p \<in> set (ad_sessions ?db)" "token_matches E token p" for p
    using that assms(7) q by (auto simp: token_matches_def auth_wf_def distinct_map inj_on_def)
  then have one: "\<forall>p \<in> set (ad_sessions ?db). token_matches E token p \<longrightarrow> p = q" by blast
  have live: "\<not> se_expires_at q \<le> beijing_rfc3339 (ae_chrono E) later" using assms(6) q(4) by (simp add: not_le)
  have free: "ad_fault ?db = None" using start(5) by simp
  have m: "token_matches E token q" using q(2) by (simp add: token_matches_def)
  show ?thesis
    by (rule authenticate_found [OF wf free q(1) m one live]) (use q(3) start(2) in blast)
qed

text \<open>C34: revoking locks a user out. After a successful revocation no sequence of calls other than lifting it or
  issuing a new code lets anybody in as that user: not with any session token, not by logging in with a
  password or an invite code, not with an API key, and a login code is not sent to the user's phone.\<close>

theorem revoked_users_locked_out:
  assumes "set_invite_revoked E now u True db = (db1, Inr (Some m))" "\<forall>(t, c) \<in> set calls. \<not> unlocks u c"
  shows "let d = perform_all E calls db1 in
    (\<forall>t token v. snd (authenticate_session_detailed E t token d) = Inr (Authenticated v) \<longrightarrow> iu_user_id v \<noteq> u) \<and>
    (\<forall>t token ttl s. snd (create_session_for_user E t token u ttl d) \<noteq> Inr (Some s)) \<and>
    (\<forall>t token code phone s. snd (create_session_for_invite E t token code phone d) = Inr (Some s) \<longrightarrow> se_user_id s \<noteq> u) \<and>
    (\<forall>t key v. snd (find_invite_user_by_api_key E t key d) = Inr (Some v) \<longrightarrow> iu_user_id v \<noteq> u) \<and>
    (\<forall>phone v. snd (find_active_invite_user_by_phone phone d) = Inr (Some v) \<longrightarrow> iu_user_id v \<noteq> u)"
proof -
  define d where "d = perform_all E calls db1"
  have l: "locked u d" unfolding d_def by (rule perform_all_locked [OF set_invite_revoked_locks [OF assms(1)] assms(2)])
  have other: "iu_user_id v \<noteq> u" if "select_user P d' = Some v" "\<And>r. P r \<Longrightarrow> active r" "ad_users d' = ad_users d" for P v d'
    using select_user_Some [OF that(1)] that(2,3) l by (auto simp: locked_def has_user_id_def)
  have "iu_user_id v \<noteq> u" if auth: "snd (authenticate_session_detailed E t token d) = Inr (Authenticated v)" for t token v
  proof -
    obtain s where "s \<in> set (ad_sessions d)" "find_invite_user_tx d (se_user_id s) = Some v"
      using auth by (auto simp: authenticate_session_detailed_def on_db_def Let_def split: option.splits if_splits dest: find_SomeD)
    then show ?thesis using l find_invite_user_tx_Some [of d] by (fastforce simp: locked_def has_user_id_def)
  qed
  moreover have "snd (create_session_for_user E t token u ttl d) \<noteq> Inr (Some s)" for t token ttl s
  proof
    assume login: "snd (create_session_for_user E t token u ttl d) = Inr (Some s)"
    obtain v where "find_invite_user_tx (purge_expired_sessions_inner (beijing_rfc3339 (ae_chrono E) t) d) u = Some v"
      "iu_revoked_at v = None"
      using login by (auto simp: create_session_for_user_def on_db_def Let_def split: option.splits if_splits)
    then show False using find_invite_user_tx_Some [of _ u v] l by (fastforce simp: locked_def active_def)
  qed
  moreover have "se_user_id s \<noteq> u" if login: "snd (create_session_for_invite E t token code phone d) = Inr (Some s)"
    for t token code phone s
  proof -
    obtain v where v: "select_user (\<lambda>r. iu_invite_code (ir_user r) = normalize_invite_code E code \<and>
        iu_phone_number (ir_user r) = normalize_phone_number phone \<and> active r)
        (purge_expired_sessions_inner (beijing_rfc3339 (ae_chrono E) t) d) = Some v" and "se_user_id s = iu_user_id v"
      using login
      by (auto simp: create_session_for_invite_def start_session_def insert_session_def on_db_def Let_def
          split: option.splits if_splits)
    then show ?thesis using other [OF v] by simp
  qed
  moreover have "iu_user_id v \<noteq> u" if found: "snd (find_invite_user_by_api_key E t key d) = Inr (Some v)" for t key v
  proof -
    obtain w d' where w: "select_user (\<lambda>r. ir_api_key_hash r = Some (hash_api_key E (trim key)) \<and> active r) d = Some w"
      and "find_invite_user_tx d' (iu_user_id w) = Some v"
      using found by (auto simp: find_invite_user_by_api_key_def on_db_def Let_def split: option.splits if_splits)
    then have "iu_user_id v = iu_user_id w" using find_invite_user_tx_Some by (fastforce simp: has_user_id_def)
    then show ?thesis using other [OF w] by simp
  qed
  moreover have "iu_user_id v \<noteq> u" if found: "snd (find_active_invite_user_by_phone phone d) = Inr (Some v)" for phone v
  proof -
    have "select_user (\<lambda>r. iu_phone_number (ir_user r) = normalize_phone_number phone \<and> active r) d = Some v"
      using found by (auto simp: find_active_invite_user_by_phone_def on_db_def Let_def split: option.splits if_splits)
    then show ?thesis by (rule other) simp_all
  qed
  ultimately show ?thesis unfolding Let_def d_def [symmetric] by blast
qed

text \<open>Hashing does not protect the sessions. The stored hash of a session token is itself accepted as a
  token: whoever can read the table of sessions can log in as every user with a live session.\<close>

theorem stored_hash_authenticates:
  assumes "auth_wf E db" "ad_fault db = None" "s \<in> set (ad_sessions db)"
    "beijing_rfc3339 (ae_chrono E) now < se_expires_at s"
    "\<forall>q \<in> set (ad_sessions db). se_session_token q \<noteq> hash_session_token E (se_session_token s)"
  shows "\<exists>db' v. authenticate_session_detailed E now (se_session_token s) db = (db', Inr (Authenticated v))
    \<and> iu_user_id v = se_user_id s"
proof -
  have "q = s" if "q \<in> set (ad_sessions db)" "token_matches E (se_session_token s) q" for q
    using that assms(1,3,5) by (auto simp: token_matches_def auth_wf_def distinct_map inj_on_def)
  then have one: "\<forall>q \<in> set (ad_sessions db). token_matches E (se_session_token s) q \<longrightarrow> q = s" by blast
  have live: "\<not> se_expires_at s \<le> beijing_rfc3339 (ae_chrono E) now" using assms(4) by (simp add: not_le)
  show ?thesis
    by (rule authenticate_found [OF assms(1-3) _ one live]) (auto simp: token_matches_def)
qed

text \<open>Issuing a new API key.\<close>

lemma generated_key_text: "generate_unique_api_key E uuids db = Inr key \<Longrightarrow> trim key \<noteq> []"
proof -
  have "trim (lit ''hck_'' @ t) \<noteq> []" for t
  proof -
    have "104 \<in> set (lit ''hck_'' @ t)" by (simp add: lit_def)
    then have "\<exists>c \<in> set (lit ''hck_'' @ t). \<not> is_whitespace c" by (intro bexI [of _ 104]) (simp add: is_whitespace_def)
    then show ?thesis by (auto simp: trim_eq_Nil)
  qed
  then show "generate_unique_api_key E uuids db = Inr key \<Longrightarrow> trim key \<noteq> []"
    by (auto simp: generate_unique_api_key_def generate_api_key_def find_Some_iff split: option.splits)
qed

lemma reset_api_key_cases:
  assumes "reset_api_key_for_user E now uuids u db = (db1, Inr (Some invite))"
  obtains key r where "generate_unique_api_key E uuids db = Inr key" "ad_fault db = None"
    "db1 = write_api_key E now u key db" "iu_api_key_plaintext invite = Some key"
    "r \<in> set (ad_users db1)" "has_user_id u r" "iu_revoked_at invite = iu_revoked_at (ir_user r)"
proof -
  have free: "ad_fault db = None" using assms by (cases "ad_fault db") (simp_all add: reset_api_key_for_user_def on_db_def)
  obtain key v where k: "generate_unique_api_key E uuids db = Inr key" and db1: "db1 = write_api_key E now u key db"
    and v: "find_invite_user_tx db1 u = Some v" and invite: "invite = v\<lparr>iu_api_key_plaintext := Some key\<rparr>"
    using assms free
    by (auto simp: reset_api_key_for_user_def on_db_def with_new_api_key_def Let_def split: option.splits sum.splits)
  from find_invite_user_tx_Some [OF v] show ?thesis using that [OF k free db1] invite by auto
qed

lemma find_by_api_key_found:
  assumes "users_wf (ad_users db)" "ad_fault db = None" "trim key \<noteq> []" "r \<in> set (ad_users db)"
    "ir_api_key_hash r = Some (hash_api_key E key)" "active r"
  shows "\<exists>db2 v. find_invite_user_by_api_key E now key db = (db2, Inr (Some v)) \<and> iu_user_id v = iu_user_id (ir_user r)"
proof -
  let ?P = "\<lambda>q. ir_api_key_hash q = Some (hash_api_key E key) \<and> active q"
  have "find ?P (ad_users db) \<noteq> None" using assms(4-6) by (auto simp: find_None_iff)
  then obtain q where q: "find ?P (ad_users db) = Some q" by blast
  have qr: "q = r" using find_SomeD [OF q] assms(5) by (intro users_wf_key_unique [OF assms(1) _ assms(4)]) simp_all
  define f where "f = set_user (\<lambda>u. u\<lparr>iu_api_key_last_used_at := Some (beijing_rfc3339 (ae_chrono E) now)\<rparr>)"
  define d where "d = update_users (has_user_id (iu_user_id (ir_user r))) f db"
  have "f r \<in> set (ad_users d)" using assms(4) by (force simp: d_def has_user_id_def)
  then have "\<exists>q \<in> set (ad_users d). has_user_id (iu_user_id (ir_user r)) q"
    by (rule bexI [rotated]) (simp add: f_def has_user_id_def)
  then have "find_invite_user_tx d (iu_user_id (ir_user r)) \<noteq> None" by (simp add: find_invite_user_tx_None)
  then obtain v where v: "find_invite_user_tx d (iu_user_id (ir_user r)) = Some v" by blast
  then have "iu_user_id v = iu_user_id (ir_user r)" using find_invite_user_tx_Some [OF v] by (auto simp: has_user_id_def)
  then show ?thesis
    using assms(2,3) q qr v
    by (simp add: find_invite_user_by_api_key_def on_db_def Let_def select_user_def d_def f_def hash_api_key_def)
qed

text \<open>A key that found the user before the row got another hash finds nobody.\<close>

lemma old_key_lost:
  assumes "users_wf (ad_users db)" "ad_fault db = None" "hash_api_key E (trim old) \<noteq> hash_api_key E key"
    "find_invite_user_by_api_key E before old db = (d, Inr (Some v))" "iu_user_id v = u"
  shows "snd (find_invite_user_by_api_key E later old (write_api_key E now u key db)) = Inr None"
proof -
  obtain w d' where w: "select_user (\<lambda>r. ir_api_key_hash r = Some (hash_api_key E (trim old)) \<and> active r) db = Some w"
    and v: "find_invite_user_tx d' (iu_user_id w) = Some v"
    using assms(4) by (auto simp: find_invite_user_by_api_key_def on_db_def Let_def split: option.splits if_splits)
  obtain q where q: "q \<in> set (ad_users db)" "ir_api_key_hash q = Some (hash_api_key E (trim old))" "w = map_invite_user q"
    using select_user_Some [OF w] by blast
  have qu: "has_user_id u q" using find_invite_user_tx_Some [OF v] assms(5) q(3) by (auto simp: has_user_id_def)
  have "p = q" if "p \<in> set (ad_users db)" "ir_api_key_hash p = Some (hash_api_key E (trim old))" for p
    using that(2) q(2) by (intro users_wf_key_unique [OF assms(1) that(1) q(1)]) simp_all
  then have "ir_api_key_hash p \<noteq> Some (hash_api_key E (trim old))" if "p \<in> set (ad_users (write_api_key E now u key db))" for p
    using that qu assms(3) by (auto simp: write_api_key_def rekeyed_def)
  then have "find (\<lambda>r. ir_api_key_hash r = Some (hash_api_key E (trim old)) \<and> active r)
      (ad_users (write_api_key E now u key db)) = None"
    by (auto simp: find_None_iff)
  moreover have "ad_fault (write_api_key E now u key db) = None" using assms(2) by (simp add: write_api_key_def)
  ultimately show ?thesis by (simp add: find_invite_user_by_api_key_def on_db_def Let_def select_user_def)
qed

text \<open>After an API key is reset, the key handed out finds its user (unless revoked) at any time, and every key
  that found this user before finds nobody.\<close>

theorem api_key_roundtrip:
  assumes "auth_wf E db" "reset_api_key_for_user E now uuids u db = (db1, Inr (Some invite))" "iu_revoked_at invite = None"
  shows "\<exists>key. iu_api_key_plaintext invite = Some key \<and>
    (\<forall>later. \<exists>db2 v. find_invite_user_by_api_key E later key db1 = (db2, Inr (Some v)) \<and> iu_user_id v = u) \<and>
    (\<forall>before later old d v. find_invite_user_by_api_key E before old db = (d, Inr (Some v)) \<longrightarrow> iu_user_id v = u \<longrightarrow>
       hash_api_key E (trim old) \<noteq> hash_api_key E key \<longrightarrow> snd (find_invite_user_by_api_key E later old db1) = Inr None)"
proof -
  obtain key r where k: "generate_unique_api_key E uuids db = Inr key" "ad_fault db = None"
    and db1: "db1 = write_api_key E now u key db" and invite: "iu_api_key_plaintext invite = Some key"
    and r: "r \<in> set (ad_users db1)" "has_user_id u r" "iu_revoked_at invite = iu_revoked_at (ir_user r)"
    using reset_api_key_cases [OF assms(2)] by blast
  have "auth_wf E (fst (reset_api_key_for_user E now uuids u db))"
    using assms(1) by (simp add: reset_api_key_for_user_def on_db_def with_new_api_key_wf split: option.split)
  then have wf1: "users_wf (ad_users db1)" and wf: "users_wf (ad_users db)" using assms(1,2) by (simp_all add: auth_wf_def)
  obtain q where "q \<in> set (ad_users db)" "r = (if has_user_id u q then rekeyed E now key q else q)"
    using r(1) by (auto simp: db1 write_api_key_def)
  then have "ir_api_key_hash r = Some (hash_api_key E key)" using r(2) by (auto simp: rekeyed_def split: if_splits)
  moreover have "active r" using assms(3) r(3) by (simp add: active_def)
  moreover have "ad_fault db1 = None" using k(2) by (simp add: db1 write_api_key_def)
  ultimately have found: "\<exists>db2 v. find_invite_user_by_api_key E later key db1 = (db2, Inr (Some v)) \<and> iu_user_id v = u" for later
    using find_by_api_key_found [OF wf1 _ generated_key_text [OF k(1)] r(1)] r(2) unfolding has_user_id_def by blast
  have lost: "snd (find_invite_user_by_api_key E later old db1) = Inr None"
    if "find_invite_user_by_api_key E before old db = (d, Inr (Some v))" "iu_user_id v = u"
      "hash_api_key E (trim old) \<noteq> hash_api_key E key" for before later old d v
    unfolding db1 by (rule old_key_lost [OF wf k(2) that(3) that(1,2)])
  show ?thesis by (intro exI [of _ key] conjI allI impI) (rule invite found lost; assumption?)+
qed

section \<open>A concrete store\<close>

text \<open>Fixed-width decimals sort as the numbers they stand for.\<close>

fun fixed_digits :: "nat \<Rightarrow> nat \<Rightarrow> rstr" where
  "fixed_digits 0 n = []"
| "fixed_digits (Suc w) n = (48 + n div 10 ^ w) # fixed_digits w (n mod 10 ^ w)"

lemma fixed_digits_mono: "m \<le> n \<Longrightarrow> fixed_digits w m \<le> fixed_digits w n"
proof (induction w arbitrary: m n)
  case (Suc w)
  have d: "m div 10 ^ w \<le> n div 10 ^ w" using Suc.prems by (rule div_le_mono)
  have "m mod 10 ^ w \<le> n mod 10 ^ w" if "m div 10 ^ w = n div 10 ^ w"
    using that Suc.prems div_mult_mod_eq [of m "10 ^ w"] div_mult_mod_eq [of n "10 ^ w"] by simp
  then show ?case using d Suc.IH by auto
qed simp

lemma fixed_digits_less: "m < n \<Longrightarrow> n < 10 ^ w \<Longrightarrow> fixed_digits w m < fixed_digits w n"
proof (induction w arbitrary: m n)
  case (Suc w)
  have d: "m div 10 ^ w \<le> n div 10 ^ w" using Suc.prems by (intro div_le_mono) simp
  have "m mod 10 ^ w < n mod 10 ^ w" if "m div 10 ^ w = n div 10 ^ w"
    using that Suc.prems div_mult_mod_eq [of m "10 ^ w"] div_mult_mod_eq [of n "10 ^ w"] by simp
  moreover have "n mod 10 ^ w < 10 ^ w" by simp
  ultimately show ?case using d Suc.IH by auto
qed simp

definition padded :: chrono where
  "padded = gregorian\<lparr>ch_to_rfc3339 := (\<lambda>i off. fixed_digits 21 (nat i))\<rparr>"

lemma padded_ordered: "rfc3339_ordered padded"
  by (auto simp: rfc3339_ordered_def beijing_rfc3339_def padded_def intro: fixed_digits_mono nat_mono)

definition demo_auth :: auth_env where
  "demo_auth = \<lparr>ae_chrono = padded, ae_sha256 = (\<lambda>s. 35 # s), ae_uppercase = to_ascii_uppercase\<rparr>"

definition demo_user :: invite_row where
  "demo_user = \<lparr>ir_user = \<lparr>iu_user_id = lit ''u1'', iu_invite_code = lit ''HONE-1'', iu_phone_number = lit ''13800000000'',
     iu_created_at = [], iu_last_login_at = None, iu_revoked_at = None, iu_password_hash = None,
     iu_password_set_at = None, iu_tos_accepted_at = None, iu_tos_version = None, iu_api_key_prefix = None,
     iu_api_key_created_at = None, iu_api_key_last_used_at = None, iu_api_key_plaintext = None\<rparr>, ir_api_key_hash = None\<rparr>"

definition demo_session :: invite_session where
  "demo_session = \<lparr>se_session_token = 35 # lit ''t'', se_user_id = lit ''u1'', se_created_at = beijing_rfc3339 padded 0,
     se_expires_at = beijing_rfc3339 padded (days 30), se_last_seen_at = []\<rparr>"

definition demo_auth_db :: auth_db where
  "demo_auth_db = \<lparr>ad_users = [demo_user], ad_sessions = [demo_session], ad_fault = None\<rparr>"

lemma demo_auth_wf: "auth_wf demo_auth demo_auth_db"
proof -
  have "\<exists>t ttl. 0 \<le> t \<and> ttl \<in> {SESSION_TTL_DAYS_LONG, SESSION_TTL_DAYS_SHORT} \<and>
      beijing_rfc3339 padded 0 = beijing_rfc3339 padded t \<and>
      beijing_rfc3339 padded (days 30) = beijing_rfc3339 padded (t + days ttl)"
    by (intro exI [of _ 0] exI [of _ 30]) (simp add: SESSION_TTL_DAYS_LONG_def)
  then show ?thesis
    by (auto simp: auth_wf_def users_wf_def session_wf_def demo_auth_db_def demo_user_def demo_session_def demo_auth_def
        has_user_id_def active_def)
qed

lemma padded_less:
  assumes "0 \<le> i" "i < j" "j < 10 ^ 21"
  shows "beijing_rfc3339 padded i < beijing_rfc3339 padded j"
proof -
  have "int (nat j) < int (10 ^ 21)" using assms by simp
  then have "nat j < 10 ^ 21" by (simp only: of_nat_less_iff)
  then show ?thesis using assms by (simp add: beijing_rfc3339_def padded_def fixed_digits_less)
qed

lemma demo_texts:
  "beijing_rfc3339 padded 1 < beijing_rfc3339 padded (days 30)"
  "beijing_rfc3339 padded 2 < beijing_rfc3339 padded (1 + days 1)"
  "beijing_rfc3339 padded 3 < beijing_rfc3339 padded (1 + days 1)"
  by (rule padded_less, simp_all add: days_def secs_def)+

lemma demo_auth_simps [simp]: "ae_chrono demo_auth = padded" "hash_session_token demo_auth t = 35 # t"
  by (simp_all add: demo_auth_def hash_session_token_def)

lemma demo_db_simps [simp]:
  "ad_users demo_auth_db = [demo_user]" "ad_sessions demo_auth_db = [demo_session]" "ad_fault demo_auth_db = None"
  "has_user_id u demo_user \<longleftrightarrow> u = lit ''u1''" "active demo_user" "se_user_id demo_session = lit ''u1''"
  "iu_revoked_at (ir_user demo_user) = None" "iu_user_id (ir_user demo_user) = lit ''u1''"
  "se_session_token demo_session = 35 # lit ''t''" "se_expires_at demo_session = beijing_rfc3339 padded (days 30)"
  by (auto simp: demo_auth_db_def demo_user_def demo_session_def has_user_id_def active_def)

theorem auth_store_invariant_witness:
  "auth_wf demo_auth (perform_all demo_auth [(1, LoginUser (lit ''t2'') (lit ''u1'') False)] demo_auth_db)"
  using auth_store_invariant [OF demo_auth_wf, of "[(1, LoginUser (lit ''t2'') (lit ''u1'') False)]"] by simp

lemma demo_live: "\<not> beijing_rfc3339 padded (days 30) \<le> beijing_rfc3339 padded 1"
  using demo_texts(1) by (simp add: not_le)

lemma demo_authenticates:
  "\<exists>d v. authenticate_session_detailed demo_auth 1 (lit ''t'') demo_auth_db = (d, Inr (Authenticated v))"
  using demo_live
  by (simp add: authenticate_session_detailed_def on_db_def Let_def token_matches_def find_invite_user_tx_def select_user_def)

theorem authenticated_sessions_valid_witness:
  "\<exists>s \<in> set (ad_sessions demo_auth_db). token_matches demo_auth (lit ''t'') s \<and>
     (\<exists>t ttl. se_expires_at s = beijing_rfc3339 padded (t + days ttl) \<and> 1 < t + days ttl)"
proof -
  obtain d v where "authenticate_session_detailed demo_auth 1 (lit ''t'') demo_auth_db = (d, Inr (Authenticated v))"
    using demo_authenticates by blast
  then have a: "authenticate_session_detailed demo_auth 1 (lit ''t'') (perform_all demo_auth [] demo_auth_db) = (d, Inr (Authenticated v))"
    by simp
  have none: "\<forall>(t, c) \<in> set []. (0 :: instant) \<le> t" by simp
  have order: "rfc3339_ordered (ae_chrono demo_auth)" using padded_ordered by simp
  have year: "1 < year_10000" by (simp add: year_10000_def secs_def beijing_offset_def)
  from authenticated_sessions_valid [OF demo_auth_wf none a order year] obtain s q t ttl
    where s: "s \<in> set (ad_sessions demo_auth_db)" "token_matches demo_auth (lit ''t'') s" "same_session q s"
      and "se_expires_at q = beijing_rfc3339 padded (t + days ttl)" "1 < t + days ttl"
    unfolding perform_all.simps(1) demo_auth_simps(1) list.set(1) empty_iff simp_thms by blast
  then show ?thesis by (intro bexI [of _ s]) (auto simp: same_session_def)
qed

lemma demo_login:
  "\<exists>d s. create_session_for_user demo_auth 1 (lit ''t2'') (lit ''u1'') 1 demo_auth_db = (d, Inr (Some s)) \<and>
     (\<forall>q \<in> set (ad_sessions d). se_session_token q \<noteq> lit ''t2'')"
  using demo_live
  by (simp add: create_session_for_user_def start_session_def insert_session_def on_db_def Let_def find_invite_user_tx_def
      select_user_def lit_def)

theorem login_lasts_until_expiry_witness:
  "\<exists>d s d2 v. create_session_for_user demo_auth 1 (lit ''t2'') (lit ''u1'') 1 demo_auth_db = (d, Inr (Some s)) \<and>
     authenticate_session_detailed demo_auth 3 (se_session_token s)
       (perform_all demo_auth [(2, CountSessions (lit ''u1''))] d) = (d2, Inr (Authenticated v)) \<and>
     iu_user_id v = lit ''u1''"
proof -
  obtain d s where l: "create_session_for_user demo_auth 1 (lit ''t2'') (lit ''u1'') 1 demo_auth_db = (d, Inr (Some s))"
    and t: "\<forall>q \<in> set (ad_sessions d). se_session_token q \<noteq> lit ''t2''" using demo_login by blast
  have free: "ad_fault d = None" by (rule login_starts_session(5) [OF l])
  have calls: "\<forall>(t, c) \<in> set [(2, CountSessions (lit ''u1''))]. 0 \<le> t \<and>
      beijing_rfc3339 (ae_chrono demo_auth) t < beijing_rfc3339 (ae_chrono demo_auth) (1 + days 1) \<and>
      spares demo_auth (hash_session_token demo_auth (lit ''t2'')) (lit ''u1'') c"
    using demo_texts(2) by simp
  have "\<forall>q \<in> set (ad_sessions (perform_all demo_auth [(2, CountSessions (lit ''u1''))] d)). se_session_token q \<noteq> lit ''t2''"
    using t by (simp add: count_active_sessions_for_user_def on_db_def free Let_def)
  from login_lasts_until_expiry [OF demo_auth_wf _ _ l calls _ this, of 3] show ?thesis
    using l demo_texts(3) by (simp add: SESSION_TTL_DAYS_SHORT_def)
qed

theorem revoked_users_locked_out_witness:
  "\<exists>d m. set_invite_revoked demo_auth 1 (lit ''u1'') True demo_auth_db = (d, Inr (Some m)) \<and>
     (\<forall>t token v. snd (authenticate_session_detailed demo_auth t token d) = Inr (Authenticated v) \<longrightarrow>
        iu_user_id v \<noteq> lit ''u1'')"
proof -
  obtain d m where r: "set_invite_revoked demo_auth 1 (lit ''u1'') True demo_auth_db = (d, Inr (Some m))"
    by (simp add: set_invite_revoked_def on_db_def Let_def find_invite_user_tx_def select_user_def
        delete_sessions_for_user_tx_def has_user_id_def)
  show ?thesis using revoked_users_locked_out [OF r, of "[]"] r by (simp add: Let_def)
qed

theorem stored_hash_authenticates_witness:
  "\<exists>d v. authenticate_session_detailed demo_auth 1 (35 # lit ''t'') demo_auth_db = (d, Inr (Authenticated v)) \<and>
     iu_user_id v = lit ''u1''"
  using stored_hash_authenticates [OF demo_auth_wf, of demo_session 1] demo_texts(1) by simp

theorem api_key_roundtrip_witness:
  "\<exists>d invite key. reset_api_key_for_user demo_auth 1 (\<lambda>i. [97]) (lit ''u1'') demo_auth_db = (d, Inr (Some invite)) \<and>
     iu_api_key_plaintext invite = Some key \<and>
     (\<exists>d2 v. find_invite_user_by_api_key demo_auth 2 key d = (d2, Inr (Some v)) \<and> iu_user_id v = lit ''u1'')"
proof -
  have none: "ir_api_key_hash demo_user = None" by (simp add: demo_user_def)
  obtain d invite where r: "reset_api_key_for_user demo_auth 1 (\<lambda>i. [97]) (lit ''u1'') demo_auth_db = (d, Inr (Some invite))"
    and a: "iu_revoked_at invite = None"
    by (simp add: reset_api_key_for_user_def on_db_def Let_def find_invite_user_tx_def select_user_def none upt_rec
        with_new_api_key_def generate_unique_api_key_def write_api_key_def rekeyed_def has_user_id_def)
  show ?thesis using api_key_roundtrip [OF demo_auth_wf r a] r by blast
qed

end
