(* ===== verification/Renderer.thy ===== *)
theory Renderer
  imports Event
begin

text \<open>
  \<^verbatim>\<open>crates/hone-event-engine/src/renderer.rs\<close>: the text of an immediate message in the formats of the
  channels, with the escaping each needs. The serialisation of a JSON value (\<^verbatim>\<open>serde_json\<close>, not under
  \<^verbatim>\<open>src\<close>) is the argument \<open>J\<close>.
\<close>

datatype render_format = Plain | TelegramHtml | DiscordMarkdown | FeishuPost

section \<open>Labels\<close>

fun render_severity_tag :: "severity \<Rightarrow> rstr" where
  "render_severity_tag High = [12304, 35201, 38395, 12305]"
| "render_severity_tag Medium = [12304, 31616, 35759, 12305]"
| "render_severity_tag Low = []"

definition mid_dot :: rstr where
  "mid_dot = [32, 183, 32]"

definition compact_symbols :: "rstr list \<Rightarrow> rstr option" where
  "compact_symbols symbols =
     (let clean = filter (\<lambda>s. s \<noteq> []) symbols in
      if clean = [] then None
      else
        let head = intercalate [32] (map (\<lambda>s. 36 # s) (take 3 clean));
            extra = length clean - 3
        in Some (if extra > 0 then head @ [32, 43] @ nat_digits extra else head))"

fun kind_label :: "event_kind \<Rightarrow> rstr" where
  "kind_label EarningsUpcoming = [128197, 32, 36130, 25253, 39044, 21578]"
| "kind_label EarningsReleased = [128202, 32, 36130, 25253, 21457, 24067]"
| "kind_label EarningsCallTranscript = [128221, 32, 36130, 25253, 32426, 35201]"
| "kind_label NewsCritical = [128276, 32, 20851, 38190, 26032, 38395]"
| "kind_label (PriceAlert b w) =
     (if w = lit ''close'' then [128276, 32, 25910, 30424]
      else if w = lit ''pre'' then [9728, 65039, 32, 30424, 21069]
      else if w = lit ''post'' then [127747, 32, 30424, 21518]
      else [9889, 32, 20215, 26684, 24322, 21160])"
| "kind_label Weekly52High = [128200, 32, 53, 50, 32, 21608, 26032, 39640]"
| "kind_label Weekly52Low = [128201, 32, 53, 50, 32, 21608, 26032, 20302]"
| "kind_label Dividend = [128181, 32, 20998, 32418]"
| "kind_label Split = [9986, 65039, 32, 25286, 32929]"
| "kind_label (SecFiling f) = [128196, 32, 83, 69, 67, 32] @ f"
| "kind_label AnalystGrade = [11088, 32, 35780, 32423, 21464, 21160]"
| "kind_label MacroEvent = [127760, 32, 23439, 35266]"
| "kind_label SocialPost = [128483, 32, 31038, 20132]"

fun kind_short :: "event_kind \<Rightarrow> rstr option" where
  "kind_short EarningsUpcoming = Some [91, 36130, 25253, 39044, 21578, 93]"
| "kind_short EarningsReleased = Some [91, 36130, 25253, 93]"
| "kind_short EarningsCallTranscript = Some [91, 36130, 25253, 32426, 35201, 93]"
| "kind_short NewsCritical = Some [91, 26032, 38395, 93]"
| "kind_short (PriceAlert b w) =
     Some (if w = lit ''close'' then [91, 25910, 30424, 93]
      else if w = lit ''pre'' then [91, 30424, 21069, 93]
      else if w = lit ''post'' then [91, 30424, 21518, 93]
      else [91, 20215, 26684, 93])"
| "kind_short Weekly52High = Some [91, 53, 50, 87, 8593, 93]"
| "kind_short Weekly52Low = Some [91, 53, 50, 87, 8595, 93]"
| "kind_short Dividend = Some [91, 20998, 32418, 93]"
| "kind_short Split = Some [91, 25286, 32929, 93]"
| "kind_short (SecFiling f) = Some ([91] @ f @ [93])"
| "kind_short AnalystGrade = Some [91, 35780, 32423, 93]"
| "kind_short MacroEvent = Some [91, 23439, 35266, 93]"
| "kind_short SocialPost = Some [91, 31038, 20132, 93]"

definition header_line :: "market_event \<Rightarrow> rstr" where
  "header_line e =
     (let label = kind_label (ev_kind e) in
      case compact_symbols (ev_symbols e) of
        Some sym' \<Rightarrow> sym' @ mid_dot @ label
      | None \<Rightarrow> label)"

definition header_line_compact :: "market_event \<Rightarrow> rstr" where
  "header_line_compact e =
     (case (compact_symbols (ev_symbols e), kind_short (ev_kind e)) of
        (Some sym', Some lab) \<Rightarrow> sym' @ [32] @ lab
      | (Some sym', None) \<Rightarrow> sym'
      | (None, Some lab) \<Rightarrow> lab
      | (None, None) \<Rightarrow> [])"

section \<open>Escaping\<close>

definition escape_html :: "rstr \<Rightarrow> rstr" where
  "escape_html s = concat (map (\<lambda>c.
     if c = 38 then lit ''&amp;'' else if c = 60 then lit ''&lt;'' else if c = 62 then lit ''&gt;'' else [c]) s)"

definition escape_html_attr :: "rstr \<Rightarrow> rstr" where
  "escape_html_attr s = concat (map (\<lambda>c.
     if c = 38 then lit ''&amp;'' else if c = 60 then lit ''&lt;'' else if c = 62 then lit ''&gt;''
     else if c = 34 then lit ''&quot;'' else [c]) s)"

definition md_special :: "nat set" where
  "md_special = {92, 42, 95, 126, 96, 124, 62, 91, 93, 40, 41}"

definition escape_md :: "rstr \<Rightarrow> rstr" where
  "escape_md s = concat (map (\<lambda>c. if c \<in> md_special then [92, c] else [c]) s)"

fun render_inline :: "rstr \<Rightarrow> render_format \<Rightarrow> rstr" where
  "render_inline t Plain = t"
| "render_inline t TelegramHtml = escape_html t"
| "render_inline t DiscordMarkdown = escape_md t"
| "render_inline t FeishuPost = t"

definition link_label :: "rstr \<Rightarrow> rstr" where
  "link_label url =
     (let without_scheme = trim_start_matches (lit ''http://'') (trim_start_matches (lit ''https://'') url);
          host = before_char 47 without_scheme;
          host = unwrap_or host (strip_prefix (lit ''www.'') host)
      in if host \<noteq> [] then host else url)"

definition html_link :: "rstr \<Rightarrow> rstr" where
  "html_link url =
     lit ''<a href='' @ [34] @ escape_html_attr url @ [34, 62] @ escape_html (link_label url) @ lit ''</a>''"

definition md_link :: "rstr \<Rightarrow> rstr" where
  "md_link url = [91] @ escape_md (link_label url) @ [93, 40] @ url @ [41]"

fun render_link :: "rstr \<Rightarrow> render_format \<Rightarrow> rstr" where
  "render_link url Plain = url"
| "render_link url TelegramHtml = html_link url"
| "render_link url DiscordMarkdown = md_link url"
| "render_link url FeishuPost = [128279, 32] @ link_label url"

fun render_link_icon :: "rstr \<Rightarrow> render_format \<Rightarrow> rstr" where
  "render_link_icon url Plain = [128279, 32] @ link_label url"
| "render_link_icon url TelegramHtml = html_link url"
| "render_link_icon url DiscordMarkdown = md_link url"
| "render_link_icon url FeishuPost = [128279]"

definition feishu_text :: "rstr \<Rightarrow> json" where
  "feishu_text t = JObj [(lit ''tag'', JStr (lit ''text'')), (lit ''text'', JStr t)]"

definition feishu_link_icon :: "rstr \<Rightarrow> json" where
  "feishu_link_icon url =
     JObj [(lit ''tag'', JStr (lit ''a'')), (lit ''text'', JStr [128279]), (lit ''href'', JStr url)]"

section \<open>The immediate message\<close>

definition non_empty_payload_str :: "market_event \<Rightarrow> rstr \<Rightarrow> rstr option" where
  "non_empty_payload_str e key = opt_filter (\<lambda>t. t \<noteq> []) (map_option trim (get_str (ev_payload e) key))"

fun is_sec_filing :: "event_kind \<Rightarrow> bool" where
  "is_sec_filing (SecFiling f) = True"
| "is_sec_filing _ = False"

definition effective_body :: "market_event \<Rightarrow> rstr" where
  "effective_body e =
     (if is_sec_filing (ev_kind e)
      then (case non_empty_payload_str e (lit ''llm_summary'') of Some summary \<Rightarrow> summary | None \<Rightarrow> ev_summary e)
      else ev_summary e)"

definition head_plain :: "market_event \<Rightarrow> rstr" where
  "head_plain e =
     (let tag = render_severity_tag (ev_severity e) in
      if tag = [] then header_line e else tag @ [32] @ header_line e)"

definition feishu_post :: "rstr \<Rightarrow> json list list \<Rightarrow> json" where
  "feishu_post title content =
     JObj [(lit ''zh_cn'', JObj [(lit ''title'', JStr title), (lit ''content'', JArr (map JArr content))])]"

definition render_immediate_feishu_post :: "(json \<Rightarrow> rstr) \<Rightarrow> market_event \<Rightarrow> rstr" where
  "render_immediate_feishu_post J e =
     (let title_row = feishu_text (ev_title e) #
            (case user_visible_url e of Some url \<Rightarrow> [feishu_text mid_dot, feishu_link_icon url] | None \<Rightarrow> []);
          body_trim = trim (effective_body e)
      in J (feishu_post (head_plain e)
           (title_row # (if body_trim \<noteq> [] then [feishu_text body_trim] # [] else []))))"

definition render_immediate :: "(json \<Rightarrow> rstr) \<Rightarrow> market_event \<Rightarrow> render_format \<Rightarrow> rstr" where
  "render_immediate J e fmt =
     (if fmt = FeishuPost then render_immediate_feishu_post J e
      else
        let head_out = (case fmt of
                          TelegramHtml \<Rightarrow> lit ''<b>'' @ escape_html (head_plain e) @ lit ''</b>''
                        | DiscordMarkdown \<Rightarrow> lit ''**'' @ escape_md (head_plain e) @ lit ''**''
                        | _ \<Rightarrow> head_plain e);
            body_trim = trim (effective_body e)
        in head_out @ [10] @ render_inline (ev_title e) fmt
           @ (if body_trim \<noteq> [] then [10, 10] @ render_inline body_trim fmt else [])
           @ (case user_visible_url e of Some u \<Rightarrow> [10, 10] @ render_link u fmt | None \<Rightarrow> []))"

section \<open>Lemmas\<close>

text \<open>What a reader of HTML sees of an escaped text.\<close>

fun unescape_html :: "rstr \<Rightarrow> rstr" where
  "unescape_html [] = []"
| "unescape_html (c # cs) =
     (if c \<noteq> 38 then c # unescape_html cs
      else if starts_with cs (lit ''amp;'') then 38 # unescape_html (drop 4 cs)
      else if starts_with cs (lit ''lt;'') then 60 # unescape_html (drop 3 cs)
      else if starts_with cs (lit ''gt;'') then 62 # unescape_html (drop 3 cs)
      else if starts_with cs (lit ''quot;'') then 34 # unescape_html (drop 5 cs)
      else c # unescape_html cs)"

text \<open>A piece of HTML text that opens no tag and shows as \<open>s\<close>.\<close>

definition html_text :: "rstr \<Rightarrow> rstr \<Rightarrow> bool" where
  "html_text t s \<longleftrightarrow> 60 \<notin> set t \<and> 62 \<notin> set t \<and> unescape_html t = s"

lemma escape_html_Cons:
  "escape_html (c # s) = (if c = 38 then lit ''&amp;'' else if c = 60 then lit ''&lt;'' else if c = 62 then lit ''&gt;''
     else [c]) @ escape_html s"
  by (simp add: escape_html_def)

lemma escape_html_attr_Cons:
  "escape_html_attr (c # s) = (if c = 38 then lit ''&amp;'' else if c = 60 then lit ''&lt;'' else if c = 62 then lit ''&gt;''
     else if c = 34 then lit ''&quot;'' else [c]) @ escape_html_attr s"
  by (simp add: escape_html_attr_def)

lemma escape_html_text: "html_text (escape_html s) s"
proof (induction s)
  case Nil
  then show ?case by (simp add: html_text_def escape_html_def)
next
  case (Cons c s)
  then show ?case by (auto simp: html_text_def escape_html_Cons lit_def)
qed

lemma escape_html_attr_text: "html_text (escape_html_attr s) s \<and> 34 \<notin> set (escape_html_attr s)"
proof (induction s)
  case Nil
  then show ?case by (simp add: html_text_def escape_html_attr_def)
next
  case (Cons c s)
  then show ?case by (auto simp: html_text_def escape_html_attr_Cons lit_def)
qed

section \<open>Properties\<close>

text \<open>Whatever an event contains, its Telegram message is the template and nothing else: one bold header, the
  title, the body if there is one, one link if a URL may be shown; the inserted texts open no tag, the
  address cannot leave its quotes, and what the reader sees is exactly the header, title, body and address.\<close>

theorem telegram_message_shape:
  "\<exists>head title body link.
     render_immediate J e TelegramHtml = lit ''<b>'' @ head @ lit ''</b>'' @ [10] @ title @ body @ link \<and>
     html_text head (head_plain e) \<and> html_text title (ev_title e) \<and>
     (if trim (effective_body e) = [] then body = []
      else \<exists>t. body = [10, 10] @ t \<and> html_text t (trim (effective_body e))) \<and>
     (case user_visible_url e of
        None \<Rightarrow> link = []
      | Some u \<Rightarrow> \<exists>href shown. link = [10, 10] @ lit ''<a href='' @ [34] @ href @ [34, 62] @ shown @ lit ''</a>'' \<and>
          html_text href u \<and> 34 \<notin> set href \<and> html_text shown (link_label u))"
proof -
  let ?body = "if trim (effective_body e) \<noteq> [] then [10, 10] @ escape_html (trim (effective_body e)) else []"
  let ?link = "case user_visible_url e of Some u \<Rightarrow> [10, 10] @ html_link u | None \<Rightarrow> []"
  have "render_immediate J e TelegramHtml =
      lit ''<b>'' @ escape_html (head_plain e) @ lit ''</b>'' @ [10] @ escape_html (ev_title e) @ ?body @ ?link"
    by (simp add: render_immediate_def Let_def split: option.splits)
  moreover have "case user_visible_url e of
        None \<Rightarrow> ?link = []
      | Some u \<Rightarrow> \<exists>href shown. ?link = [10, 10] @ lit ''<a href='' @ [34] @ href @ [34, 62] @ shown @ lit ''</a>'' \<and>
          html_text href u \<and> 34 \<notin> set href \<and> html_text shown (link_label u)"
    using escape_html_attr_text escape_html_text by (fastforce simp: html_link_def split: option.splits)
  moreover have "if trim (effective_body e) = [] then ?body = []
      else \<exists>t. ?body = [10, 10] @ t \<and> html_text t (trim (effective_body e))"
    using escape_html_text by simp
  ultimately show ?thesis using escape_html_text by blast
qed

end
