(* ===== verification/Digest_Curation.thy ===== *)
theory Digest_Curation
  imports Event_Store Renderer Cron_History "HOL-Library.Multiset" "HOL-Library.Sublist"
begin

text \<open>
  \<^verbatim>\<open>crates/hone-event-engine/src/digest/\<close>: \<^verbatim>\<open>render.rs\<close> and \<^verbatim>\<open>payload.rs\<close> (the titles of digest lines,
  the folding of repeated entries, the structured payload and its text) and \<^verbatim>\<open>curation.rs\<close> (which of the
  waiting events a digest keeps: caps per symbol, source, domain and for social posts, repeated titles and
  topics, the memory of recent digests). \<open>now\<close> is the clock reading that the sources take several times
  during one call. Ratios of token counts are exact here; the sources divide doubles.
\<close>

section \<open>Titles (render.rs)\<close>

definition ellipsis :: rstr where
  "ellipsis = [8230]"

definition digest_truncate_chars :: "rstr \<Rightarrow> nat \<Rightarrow> rstr" where
  "digest_truncate_chars t max_chars = truncate_chars_append t (max_chars - 1) ellipsis"

definition first_non_empty_line :: "rstr \<Rightarrow> rstr option" where
  "first_non_empty_line t = find (\<lambda>l. l \<noteq> []) (map trim (str_lines t))"

definition digest_event_detail :: "chrono \<Rightarrow> instant \<Rightarrow> market_event \<Rightarrow> rstr option" where
  "digest_event_detail C now e =
     (case ev_kind e of
        MacroEvent \<Rightarrow>
          (let summary = trim (ev_summary e) in
           if summary \<noteq> [] then Some summary
           else
             let label = (if ev_occurred_at e > now then [24453, 20844, 24067] else [26102, 38388]);
                 day = ch_fmt_date C (local_date 28800 (ev_occurred_at e))
             in Some (label @ [32] @ drop (length day - 5) day @ [32]
                  @ fmt02 (local_hour 28800 (ev_occurred_at e)) @ [58] @ fmt02 (local_minute 28800 (ev_occurred_at e))
                  @ lit '' UTC+8''))
      | EarningsReleased \<Rightarrow> (let summary = trim (ev_summary e) in if summary \<noteq> [] then Some summary else None)
      | SecFiling f \<Rightarrow>
          map_option (\<lambda>s. digest_truncate_chars s 120)
            (opt_filter (\<lambda>s. s \<noteq> []) (map_option trim (get_str (ev_payload e) (lit ''llm_summary''))))
      | _ \<Rightarrow> None)"

definition digest_event_title :: "chrono \<Rightarrow> instant \<Rightarrow> market_event \<Rightarrow> rstr" where
  "digest_event_title C now e =
     (let title = (if ev_kind e = SocialPost
                   then (case Option.bind (get_str (ev_payload e) (lit ''raw_text'')) first_non_empty_line of
                           Some l \<Rightarrow> digest_truncate_chars l 240
                         | None \<Rightarrow> ev_title e)
                   else ev_title e)
      in case digest_event_detail C now e of
           Some detail \<Rightarrow> if detail \<noteq> [] \<and> \<not> contains_str title detail then title @ mid_dot @ detail else title
         | None \<Rightarrow> title)"

fun render_kind_tag :: "event_kind \<Rightarrow> rstr" where
  "render_kind_tag EarningsUpcoming = lit ''earnings_upcoming''"
| "render_kind_tag EarningsReleased = lit ''earnings_released''"
| "render_kind_tag EarningsCallTranscript = lit ''earnings_transcript''"
| "render_kind_tag NewsCritical = lit ''news''"
| "render_kind_tag (PriceAlert b w) = lit ''price''"
| "render_kind_tag Weekly52High = lit ''week_high''"
| "render_kind_tag Weekly52Low = lit ''week_low''"
| "render_kind_tag Dividend = lit ''dividend''"
| "render_kind_tag Split = lit ''split''"
| "render_kind_tag (SecFiling f) = lit ''sec''"
| "render_kind_tag AnalystGrade = lit ''grade''"
| "render_kind_tag MacroEvent = lit ''macro''"
| "render_kind_tag SocialPost = lit ''social''"

definition trim_end_char :: "nat \<Rightarrow> rstr \<Rightarrow> rstr" where
  "trim_end_char k s = rev (dropWhile (\<lambda>c. c = k) (rev s))"

definition canonicalize_url :: "rstr \<Rightarrow> rstr" where
  "canonicalize_url url =
     (let no_scheme = trim_start_matches (lit ''http://'') (trim_start_matches (lit ''https://'') url);
          no_fragment = before_char 35 no_scheme;
          no_query = before_char 63 no_fragment
      in to_ascii_lowercase (trim_end_char 47 no_query))"

definition first_symbol_upper :: "serde \<Rightarrow> market_event \<Rightarrow> rstr option" where
  "first_symbol_upper S e = map_option (sd_to_uppercase S) (find (\<lambda>s. s \<noteq> []) (ev_symbols e))"

definition dedup_key :: "serde \<Rightarrow> market_event \<Rightarrow> rstr" where
  "dedup_key S e =
     (let symbol = unwrap_or [] (first_symbol_upper S e);
          normalized = (case ev_kind e of
              EarningsUpcoming \<Rightarrow> unwrap_or (ev_id e) (get_str (ev_payload e) (lit ''report_date''))
            | NewsCritical \<Rightarrow>
                unwrap_or (ev_id e) (map_option canonicalize_url (opt_filter (\<lambda>u. u \<noteq> []) (ev_url e)))
            | _ \<Rightarrow> ev_id e)
      in render_kind_tag (ev_kind e) @ [124] @ symbol @ [124] @ normalized)"

fun dedup_from :: "serde \<Rightarrow> rstr set \<Rightarrow> market_event list \<Rightarrow> market_event list" where
  "dedup_from S seen [] = []"
| "dedup_from S seen (e # es) =
     (if dedup_key S e \<in> seen then dedup_from S seen es
      else e # dedup_from S (insert (dedup_key S e) seen) es)"

definition dedup_for_digest :: "serde \<Rightarrow> market_event list \<Rightarrow> market_event list" where
  "dedup_for_digest S es = dedup_from S {} es"

section \<open>Payload (payload.rs)\<close>

datatype item_origin = Buffered | Synth | Global
datatype mainline_relation = Aligned | Counter | Neutral

record digest_item =
  di_id :: rstr
  di_kind :: event_kind
  di_severity :: severity
  di_primary_symbol :: "rstr option"
  di_headline :: rstr
  di_url :: "rstr option"
  di_occurred_at :: instant
  di_origin :: item_origin
  di_floor :: "floor_tag option"
  di_comment :: "rstr option"
  di_mainline_relation :: "mainline_relation option"

record digest_payload =
  dp_label :: rstr
  dp_items :: "digest_item list"
  dp_cap_overflow :: nat
  dp_max_severity :: severity
  dp_generated_at :: instant

definition payload_total :: "digest_payload \<Rightarrow> nat" where
  "payload_total p = length (dp_items p) + dp_cap_overflow p"

datatype kind_bucket = PriceBucket | EarningsBucket | NewsFilingBucket | CorpActionBucket | MacroBucket | SocialBucket

fun bucket_from_kind :: "event_kind \<Rightarrow> kind_bucket" where
  "bucket_from_kind (PriceAlert b w) = PriceBucket"
| "bucket_from_kind Weekly52High = PriceBucket"
| "bucket_from_kind Weekly52Low = PriceBucket"
| "bucket_from_kind EarningsUpcoming = EarningsBucket"
| "bucket_from_kind EarningsReleased = EarningsBucket"
| "bucket_from_kind EarningsCallTranscript = EarningsBucket"
| "bucket_from_kind NewsCritical = NewsFilingBucket"
| "bucket_from_kind (SecFiling f) = NewsFilingBucket"
| "bucket_from_kind Dividend = CorpActionBucket"
| "bucket_from_kind Split = CorpActionBucket"
| "bucket_from_kind AnalystGrade = CorpActionBucket"
| "bucket_from_kind MacroEvent = MacroBucket"
| "bucket_from_kind SocialPost = SocialBucket"

fun header_label :: "kind_bucket \<Rightarrow> rstr" where
  "header_label PriceBucket = [128185, 32, 20215, 26684, 24322, 21160]"
| "header_label EarningsBucket = [128197, 32, 36130, 25253]"
| "header_label NewsFilingBucket = [128240, 32, 26032, 38395, 20844, 21578]"
| "header_label CorpActionBucket = [127970, 32, 20844, 21496, 34892, 21160]"
| "header_label MacroBucket = [127760, 32, 23439, 35266]"
| "header_label SocialBucket = [128483, 32, 31038, 20132]"

definition bucket_order :: "kind_bucket list" where
  "bucket_order = [PriceBucket, EarningsBucket, NewsFilingBucket, CorpActionBucket, MacroBucket, SocialBucket]"

text \<open>The \<^verbatim>\<open>BTreeMap\<close> is the list of its entries in the order of the buckets.\<close>

definition group_by_kind_bucket :: "digest_item list \<Rightarrow> (kind_bucket \<times> digest_item list) list" where
  "group_by_kind_bucket items =
     filter (\<lambda>(b, xs). xs \<noteq> []) (map (\<lambda>b. (b, filter (\<lambda>i. bucket_from_kind (di_kind i) = b) items)) bucket_order)"

definition item_from_event :: "serde \<Rightarrow> market_event \<Rightarrow> rstr \<Rightarrow> digest_item" where
  "item_from_event S e headline =
     \<lparr>di_id = ev_id e, di_kind = ev_kind e, di_severity = ev_severity e,
      di_primary_symbol = first_symbol_upper S e, di_headline = headline, di_url = user_visible_url e,
      di_occurred_at = ev_occurred_at e, di_origin = Buffered, di_floor = None, di_comment = None,
      di_mainline_relation = None\<rparr>"

definition build_digest_payload ::
    "serde \<Rightarrow> chrono \<Rightarrow> instant \<Rightarrow> rstr \<Rightarrow> market_event list \<Rightarrow> nat \<Rightarrow> digest_payload" where
  "build_digest_payload S C now label es cap_overflow =
     (let kept = dedup_for_digest S es in
      \<lparr>dp_label = label, dp_items = map (\<lambda>e. item_from_event S e (digest_event_title C now e)) kept,
       dp_cap_overflow = cap_overflow, dp_max_severity = foldl (\<lambda>m e. max m (ev_severity e)) Low kept,
       dp_generated_at = now\<rparr>)"

definition digest_raw_title :: "rstr \<Rightarrow> nat \<Rightarrow> rstr" where
  "digest_raw_title label n =
     (if n > 1 then [128236, 32] @ label @ mid_dot @ nat_digits n @ [32, 26465] else [128236, 32] @ label)"

definition overflow_note :: "nat \<Rightarrow> rstr" where
  "overflow_note n = [8230, 8230, 32, 21478, 32] @ nat_digits n @ [32, 26465, 22240, 25968, 37327, 19978, 38480, 26410, 23637, 31034, 44, 21457, 36865, 32, 47, 109, 105, 115, 115, 101, 100, 32, 26597, 30475, 23436, 25972, 28165, 21333]"

definition digest_line :: "chrono \<Rightarrow> instant \<Rightarrow> render_format \<Rightarrow> market_event \<Rightarrow> rstr" where
  "digest_line C now fmt e =
     (let title_inline = render_inline (digest_event_title C now e) fmt;
          head_inline = render_inline (header_line_compact e) fmt
      in [10] @ (if head_inline = [] then [8226, 32] @ title_inline else [8226, 32] @ head_inline @ mid_dot @ title_inline)
         @ (case user_visible_url e of Some u \<Rightarrow> mid_dot @ render_link_icon u fmt | None \<Rightarrow> []))"

definition render_digest_text ::
    "serde \<Rightarrow> chrono \<Rightarrow> instant \<Rightarrow> rstr \<Rightarrow> digest_payload \<Rightarrow> market_event list \<Rightarrow> render_format \<Rightarrow> rstr" where
  "render_digest_text S C now label p es fmt =
     (let raw_title = digest_raw_title label (payload_total p);
          title = (case fmt of
                     TelegramHtml \<Rightarrow> lit ''<b>'' @ render_inline raw_title TelegramHtml @ lit ''</b>''
                   | DiscordMarkdown \<Rightarrow> lit ''**'' @ render_inline raw_title DiscordMarkdown @ lit ''**''
                   | _ \<Rightarrow> raw_title)
      in title @ concat (map (digest_line C now fmt) (dedup_for_digest S es))
         @ (if dp_cap_overflow p > 0 then [10] @ overflow_note (dp_cap_overflow p) else []))"

definition render_digest_feishu_post ::
    "(json \<Rightarrow> rstr) \<Rightarrow> serde \<Rightarrow> chrono \<Rightarrow> instant \<Rightarrow> rstr \<Rightarrow> digest_payload \<Rightarrow> market_event list \<Rightarrow> rstr" where
  "render_digest_feishu_post J S C now label p es =
     (let row = (\<lambda>e.
            let head = header_line_compact e in
            [feishu_text [8226, 32]] @ (if head \<noteq> [] then [feishu_text head, feishu_text mid_dot] else [])
            @ [feishu_text (digest_event_title C now e)]
            @ (case user_visible_url e of Some url \<Rightarrow> [feishu_text mid_dot, feishu_link_icon url] | None \<Rightarrow> []));
          content = map row (dedup_for_digest S es)
            @ (if dp_cap_overflow p > 0 then [feishu_text (overflow_note (dp_cap_overflow p))] # [] else [])
      in J (feishu_post (digest_raw_title label (payload_total p)) content))"

definition render_digest ::
    "(json \<Rightarrow> rstr) \<Rightarrow> serde \<Rightarrow> chrono \<Rightarrow> instant \<Rightarrow> rstr \<Rightarrow> market_event list \<Rightarrow> nat \<Rightarrow> render_format \<Rightarrow> rstr" where
  "render_digest J S C now label es cap_overflow fmt =
     (let p = build_digest_payload S C now label es cap_overflow in
      if fmt = FeishuPost then render_digest_feishu_post J S C now label p es
      else render_digest_text S C now label p es fmt)"

section \<open>Curation (curation.rs)\<close>

definition DIGEST_MAX_SOCIAL_ITEMS :: nat where "DIGEST_MAX_SOCIAL_ITEMS = 3"
definition DIGEST_MAX_ITEMS_PER_SYMBOL :: nat where "DIGEST_MAX_ITEMS_PER_SYMBOL = 4"
definition DIGEST_MAX_ITEMS_PER_SOURCE :: nat where "DIGEST_MAX_ITEMS_PER_SOURCE = 3"
definition DIGEST_MAX_ITEMS_PER_DOMAIN :: nat where "DIGEST_MAX_ITEMS_PER_DOMAIN = 2"
definition DIGEST_MACRO_LOOKAHEAD_HOURS :: int where "DIGEST_MACRO_LOOKAHEAD_HOURS = 48"

definition DIGEST_STOPWORDS :: "rstr list" where
  "DIGEST_STOPWORDS = map lit [''the'', ''and'', ''are'', ''but'', ''for'', ''with'', ''from'', ''that'', ''this'',
     ''after'', ''before'', ''into'', ''over'', ''under'', ''will'', ''his'', ''her'', ''its'', ''their'', ''just'',
     ''today'', ''officially'', ''end'', ''era'', ''says'', ''said'', ''stock'', ''stocks'', ''shares'', ''share'',
     ''inc'', ''corp'', ''ltd'', ''company'', ''announces'', ''announced'', ''update'', ''market'']"

definition normalize_digest_token :: "rstr \<Rightarrow> rstr option" where
  "normalize_digest_token token =
     (let token = to_ascii_lowercase (trim token) in
      if length (utf8 token) \<le> 2 then None
      else Some
        (if token \<in> {lit ''delivers'', lit ''delivered'', lit ''delivering''} then lit ''deliver''
         else if token \<in> {lit ''raises'', lit ''raised'', lit ''raising''} then lit ''raise''
         else if token \<in> {lit ''lowers'', lit ''lowered'', lit ''lowering''} then lit ''lower''
         else if token \<in> {lit ''boosts'', lit ''boosted'', lit ''boosting''} then lit ''boost''
         else if token \<in> {lit ''jumps'', lit ''jumped'', lit ''rallies'', lit ''rallied''} then lit ''rally''
         else if token = lit ''final'' then lit ''last''
         else token))"

definition digest_title_tokens :: "rstr \<Rightarrow> rstr list" where
  "digest_title_tokens title =
     List.map_filter (\<lambda>w. Option.bind (normalize_digest_token w)
         (\<lambda>t. if t \<in> set DIGEST_STOPWORDS then None else Some t))
       (split_by (\<lambda>c. \<not> is_ascii_alnum c) title)"

definition token_jaccard :: "rstr set \<Rightarrow> rstr set \<Rightarrow> f64" where
  "token_jaccard a b =
     (let intersection = card (a \<inter> b); union = card (a \<union> b) in
      if union = 0 then 0 else of_nat intersection / of_nat union)"

fun kind_topic_tag :: "event_kind \<Rightarrow> rstr" where
  "kind_topic_tag SocialPost = lit ''social''"
| "kind_topic_tag MacroEvent = lit ''macro''"
| "kind_topic_tag _ = lit ''news''"

definition is_low_quality_social_source :: "market_event \<Rightarrow> bool" where
  "is_low_quality_social_source e \<longleftrightarrow>
     ev_kind e = SocialPost \<and> contains_str (to_ascii_lowercase (ev_source e)) (lit ''watcherguru'')"

definition source_class :: "market_event \<Rightarrow> rstr option" where
  "source_class e = get_str (ev_payload e) (lit ''source_class'')"

definition should_omit_from_digest :: "market_event \<Rightarrow> instant \<Rightarrow> bool" where
  "should_omit_from_digest e now =
     (if ev_severity e = High then False
      else if is_noop_analyst_grade e then True
      else case ev_kind e of
             MacroEvent \<Rightarrow> ev_severity e = Low \<or> ev_occurred_at e > now + hours DIGEST_MACRO_LOOKAHEAD_HOURS
           | NewsCritical \<Rightarrow>
               ev_severity e = Low \<or> source_class e \<in> {Some (lit ''opinion_blog''), Some (lit ''pr_wire'')}
           | SocialPost \<Rightarrow> ev_severity e = Low \<and> is_low_quality_social_source e
           | _ \<Rightarrow> False)"

definition primary_symbol_key :: "market_event \<Rightarrow> rstr option" where
  "primary_symbol_key e =
     map_option (\<lambda>s. to_ascii_uppercase (trim s)) (find (\<lambda>s. trim s \<noteq> []) (ev_symbols e))"

definition event_domain_key :: "market_event \<Rightarrow> rstr option" where
  "event_domain_key e =
     (let from_url = Option.bind (ev_url e) (\<lambda>url.
            let without_scheme = unwrap_or url
                  (or_else (strip_prefix (lit ''https://'') url) (strip_prefix (lit ''http://'') url));
                host = before_char 47 without_scheme;
                host = trim (unwrap_or host (strip_prefix (lit ''www.'') host))
            in if host \<noteq> [] then Some (to_ascii_lowercase host) else None)
      in or_else from_url
           (opt_filter (\<lambda>d. d \<noteq> []) (map_option (\<lambda>(_, d). to_ascii_lowercase (trim d)) (split_once [58] (ev_source e)))))"

definition digest_title_dedupe_key :: "chrono \<Rightarrow> instant \<Rightarrow> market_event \<Rightarrow> rstr option" where
  "digest_title_dedupe_key C now e =
     (if ev_kind e \<notin> {NewsCritical, SocialPost} then None
      else
        let normalized = take 10 (digest_title_tokens (digest_event_title C now e)) in
        if normalized = [] then None
        else Some (unwrap_or [45] (primary_symbol_key e) @ [58] @ intercalate [32] normalized))"

type_synonym topic = "rstr \<times> rstr set"

definition digest_topic_tokens :: "chrono \<Rightarrow> instant \<Rightarrow> market_event \<Rightarrow> topic option" where
  "digest_topic_tokens C now e =
     (if ev_kind e \<notin> {NewsCritical, SocialPost, MacroEvent} then None
      else
        let tokens = set (digest_title_tokens (digest_event_title C now e)) in
        if card tokens < 3 then None
        else Some (unwrap_or [45] (primary_symbol_key e) @ [58] @ kind_topic_tag (ev_kind e), tokens))"

definition same_topic :: "topic \<Rightarrow> topic \<Rightarrow> bool" where
  "same_topic old new \<longleftrightarrow> fst old = fst new \<and> token_jaccard (snd old) (snd new) \<ge> 55 / 100"

record curation_state =
  cu_social_count :: nat
  cu_by_symbol :: counter
  cu_by_source :: counter
  cu_by_domain :: counter
  cu_title_keys :: "rstr set"
  cu_topic_tokens :: "topic list"

definition curation_start :: curation_state where
  "curation_start = \<lparr>cu_social_count = 0, cu_by_symbol = Map.empty, cu_by_source = Map.empty, cu_by_domain = Map.empty,
     cu_title_keys = {}, cu_topic_tokens = []\<rparr>"

definition full :: "counter \<Rightarrow> rstr option \<Rightarrow> nat \<Rightarrow> bool" where
  "full m key cap = (case key of Some k \<Rightarrow> count_of m k \<ge> cap | None \<Rightarrow> False)"

definition source_key :: "market_event \<Rightarrow> rstr option" where
  "source_key e = (if ev_source e \<noteq> [] then Some (ev_source e) else None)"

definition should_omit_non_high_event ::
    "chrono \<Rightarrow> instant \<Rightarrow> market_event \<Rightarrow> curation_state \<Rightarrow> bool \<times> curation_state" where
  "should_omit_non_high_event C now e st =
     (if should_omit_from_digest e now then (True, st)
      else if ev_kind e = SocialPost \<and> cu_social_count st \<ge> DIGEST_MAX_SOCIAL_ITEMS then (True, st)
      else if full (cu_by_symbol st) (primary_symbol_key e) DIGEST_MAX_ITEMS_PER_SYMBOL then (True, st)
      else if full (cu_by_source st) (source_key e) DIGEST_MAX_ITEMS_PER_SOURCE then (True, st)
      else if full (cu_by_domain st) (event_domain_key e) DIGEST_MAX_ITEMS_PER_DOMAIN then (True, st)
      else
        let title_seen = (case digest_title_dedupe_key C now e of Some k \<Rightarrow> k \<in> cu_title_keys st | None \<Rightarrow> False);
            st = (case digest_title_dedupe_key C now e of
                    Some k \<Rightarrow> st\<lparr>cu_title_keys := insert k (cu_title_keys st)\<rparr>
                  | None \<Rightarrow> st)
        in if title_seen then (True, st)
           else case digest_topic_tokens C now e of
                  None \<Rightarrow> (False, st)
                | Some t \<Rightarrow>
                    if \<exists>old \<in> set (cu_topic_tokens st). same_topic old t then (True, st)
                    else (False, st\<lparr>cu_topic_tokens := cu_topic_tokens st @ [t]\<rparr>))"

definition bump_opt :: "rstr option \<Rightarrow> counter \<Rightarrow> counter" where
  "bump_opt key m = (case key of Some k \<Rightarrow> bump k m | None \<Rightarrow> m)"

definition record_kept_event :: "market_event \<Rightarrow> curation_state \<Rightarrow> curation_state" where
  "record_kept_event e st =
     st\<lparr>cu_social_count := (if ev_kind e = SocialPost then Suc (cu_social_count st) else cu_social_count st),
        cu_by_symbol := bump_opt (primary_symbol_key e) (cu_by_symbol st),
        cu_by_source := bump_opt (source_key e) (cu_by_source st),
        cu_by_domain := bump_opt (event_domain_key e) (cu_by_domain st)\<rparr>"

record digest_curation =
  dc_kept :: "market_event list"
  dc_omitted :: "market_event list"

definition curate_event ::
    "chrono \<Rightarrow> instant \<Rightarrow> market_event \<Rightarrow> digest_curation \<times> curation_state \<Rightarrow> digest_curation \<times> curation_state" where
  "curate_event C now e x =
     (let (dc, st) = x;
          is_high = rank (ev_severity e) \<ge> rank High;
          (omit, st) = (if \<not> is_high then should_omit_non_high_event C now e st else (False, st))
      in if omit then (dc\<lparr>dc_omitted := dc_omitted dc @ [e]\<rparr>, st)
         else (dc\<lparr>dc_kept := dc_kept dc @ [e]\<rparr>, record_kept_event e st))"

definition curate_digest_events_with_omitted_at :: "chrono \<Rightarrow> market_event list \<Rightarrow> instant \<Rightarrow> digest_curation" where
  "curate_digest_events_with_omitted_at C es now =
     fst (fold (curate_event C now) es (\<lparr>dc_kept = [], dc_omitted = []\<rparr>, curation_start))"

definition suppress_recent_digest_topics_with_omitted ::
    "serde \<Rightarrow> chrono \<Rightarrow> rstr \<Rightarrow> market_event list \<Rightarrow> event_store \<Rightarrow> instant \<Rightarrow> digest_curation" where
  "suppress_recent_digest_topics_with_omitted S C actor_key es store now =
     (case list_recent_digest_item_events S store actor_key (now - hours 24) of
        Inl err \<Rightarrow> \<lparr>dc_kept = es, dc_omitted = []\<rparr>
      | Inr recent \<Rightarrow>
          (let recent_topics = List.map_filter (digest_topic_tokens C now) recent in
           if recent_topics = [] then \<lparr>dc_kept = es, dc_omitted = []\<rparr>
           else
             let duplicate = (\<lambda>e. ev_severity e \<noteq> High \<and>
                   (case digest_topic_tokens C now e of
                      None \<Rightarrow> False
                    | Some t \<Rightarrow> \<exists>old \<in> set recent_topics. same_topic old t))
             in \<lparr>dc_kept = filter (\<lambda>e. \<not> duplicate e) es, dc_omitted = filter duplicate es\<rparr>))"

definition digest_score :: "instant \<Rightarrow> market_event \<Rightarrow> int" where
  "digest_score now e =
     (let score = (case ev_severity e of High \<Rightarrow> 300 | Medium \<Rightarrow> 200 | Low \<Rightarrow> 100);
          score = score + (case ev_kind e of
              EarningsReleased \<Rightarrow> 50 | SecFiling f \<Rightarrow> 50
            | EarningsCallTranscript \<Rightarrow> 15
            | PriceAlert b w \<Rightarrow> if w \<noteq> lit ''close'' then 35 else 0
            | Dividend \<Rightarrow> 30 | Split \<Rightarrow> 30
            | MacroEvent \<Rightarrow> 20 | NewsCritical \<Rightarrow> 10 | SocialPost \<Rightarrow> - 35
            | _ \<Rightarrow> 0);
          score = (if source_class e = Some (lit ''trusted'') then score + 20 else score);
          score = (if source_class e \<in> {Some (lit ''pr_wire''), Some (lit ''opinion_blog'')} then score - 35 else score);
          score = (if is_low_quality_social_source e then score - 30 else score)
      in if ev_kind e = EarningsUpcoming then
           (let days_until = local_date 0 (ev_occurred_at e) - local_date 0 now in
            if days_until > 7 then score - 40 else if days_until \<le> 3 then score + 25 else score)
         else score)"

section \<open>Lemmas\<close>

definition at_most :: "nat \<Rightarrow> (market_event \<Rightarrow> rstr option) \<Rightarrow> market_event list \<Rightarrow> bool" where
  "at_most cap f es \<longleftrightarrow> (\<forall>k. length (filter (\<lambda>e. f e = Some k) es) \<le> cap)"

definition counts :: "counter \<Rightarrow> (market_event \<Rightarrow> rstr option) \<Rightarrow> market_event list \<Rightarrow> bool" where
  "counts m f es \<longleftrightarrow> (\<forall>k. count_of m k = length (filter (\<lambda>e. f e = Some k) es))"

definition not_high :: "market_event list \<Rightarrow> market_event list" where
  "not_high es = filter (\<lambda>e. ev_severity e \<noteq> High) es"

lemma not_high_snoc: "not_high (es @ [e]) = not_high es @ (if ev_severity e \<noteq> High then [e] else [])"
  by (simp add: not_high_def)

lemma counts_record:
  assumes "counts m f es"
  shows "counts (bump_opt (f e) m) f (es @ [e])"
  using assms by (auto simp: counts_def bump_opt_def split: option.splits)

lemma at_most_not_high:
  assumes "counts m f es" "\<not> full m (f e) cap" "at_most cap f (not_high es)"
  shows "at_most cap f (not_high (es @ [e]))"
proof -
  have "length (filter (\<lambda>e. f e = Some k) (not_high es)) \<le> length (filter (\<lambda>e. f e = Some k) es)" for k
    unfolding not_high_def filter_filter by (induction es) auto
  then have "length (filter (\<lambda>e. f e = Some k) (not_high es)) < cap" if "f e = Some k" for k
    using assms(1,2) that by (auto simp: counts_def full_def not_le intro: le_less_trans)
  then show ?thesis
    using assms(3) by (auto simp: at_most_def not_high_snoc Suc_le_eq)
qed

lemma at_most_high:
  assumes "ev_severity e = High" "at_most cap f (not_high es)"
  shows "at_most cap f (not_high (es @ [e]))"
  using assms by (simp add: not_high_snoc)

definition social_key :: "market_event \<Rightarrow> rstr option" where
  "social_key e = (if ev_kind e = SocialPost then Some [] else None)"

text \<open>The state after some events counts what was kept and remembers its titles and topics.\<close>

definition curation_inv :: "chrono \<Rightarrow> instant \<Rightarrow> market_event list \<Rightarrow> digest_curation \<times> curation_state \<Rightarrow> bool" where
  "curation_inv C now es x \<longleftrightarrow> (case x of (dc, st) \<Rightarrow>
     subseq (dc_kept dc) es \<and> mset (dc_kept dc) + mset (dc_omitted dc) = mset es
     \<and> filter (\<lambda>e. ev_severity e = High) (dc_kept dc) = filter (\<lambda>e. ev_severity e = High) es)"

definition caps_inv :: "market_event list \<Rightarrow> curation_state \<Rightarrow> bool" where
  "caps_inv kept st \<longleftrightarrow>
     cu_social_count st = length (filter (\<lambda>e. ev_kind e = SocialPost) kept)
     \<and> counts (cu_by_symbol st) primary_symbol_key kept \<and> counts (cu_by_source st) source_key kept
     \<and> counts (cu_by_domain st) event_domain_key kept
     \<and> length (filter (\<lambda>e. ev_kind e = SocialPost) (not_high kept)) \<le> DIGEST_MAX_SOCIAL_ITEMS
     \<and> at_most DIGEST_MAX_ITEMS_PER_SYMBOL primary_symbol_key (not_high kept)
     \<and> at_most DIGEST_MAX_ITEMS_PER_SOURCE source_key (not_high kept)
     \<and> at_most DIGEST_MAX_ITEMS_PER_DOMAIN event_domain_key (not_high kept)"

definition memory_inv :: "chrono \<Rightarrow> instant \<Rightarrow> market_event list \<Rightarrow> curation_state \<Rightarrow> bool" where
  "memory_inv C now kept st \<longleftrightarrow>
     distinct (List.map_filter (digest_title_dedupe_key C now) (not_high kept))
     \<and> set (List.map_filter (digest_title_dedupe_key C now) (not_high kept)) \<subseteq> cu_title_keys st
     \<and> sorted_wrt (\<lambda>a b. \<not> same_topic a b) (List.map_filter (digest_topic_tokens C now) (not_high kept))
     \<and> set (List.map_filter (digest_topic_tokens C now) (not_high kept)) \<subseteq> set (cu_topic_tokens st)"

lemma omit_keeps_counters:
  assumes "should_omit_non_high_event C now e st = (om, st')"
  shows "cu_social_count st' = cu_social_count st" "cu_by_symbol st' = cu_by_symbol st"
    "cu_by_source st' = cu_by_source st" "cu_by_domain st' = cu_by_domain st"
    "cu_title_keys st \<subseteq> cu_title_keys st'" "set (cu_topic_tokens st) \<subseteq> set (cu_topic_tokens st')"
  using assms by (auto simp: should_omit_non_high_event_def Let_def split: if_splits option.splits)

lemma kept_not_full:
  assumes "should_omit_non_high_event C now e st = (False, st')"
  shows "ev_kind e = SocialPost \<Longrightarrow> cu_social_count st < DIGEST_MAX_SOCIAL_ITEMS"
    "\<not> full (cu_by_symbol st) (primary_symbol_key e) DIGEST_MAX_ITEMS_PER_SYMBOL"
    "\<not> full (cu_by_source st) (source_key e) DIGEST_MAX_ITEMS_PER_SOURCE"
    "\<not> full (cu_by_domain st) (event_domain_key e) DIGEST_MAX_ITEMS_PER_DOMAIN"
  using assms by (auto simp: should_omit_non_high_event_def split: if_splits)

lemma kept_is_new:
  assumes "should_omit_non_high_event C now e st = (False, st')"
  shows "digest_title_dedupe_key C now e = Some k \<Longrightarrow> k \<notin> cu_title_keys st \<and> k \<in> cu_title_keys st'"
    "digest_topic_tokens C now e = Some t \<Longrightarrow>
       (\<forall>old \<in> set (cu_topic_tokens st). \<not> same_topic old t) \<and> t \<in> set (cu_topic_tokens st')"
  using assms by (auto simp: should_omit_non_high_event_def Let_def split: if_splits option.splits)

lemma caps_step:
  assumes "caps_inv kept st" "ev_severity e \<noteq> High" "should_omit_non_high_event C now e st = (False, st')"
  shows "caps_inv (kept @ [e]) (record_kept_event e st')"
proof -
  note k = kept_not_full [OF assms(3)] and c = omit_keeps_counters [OF assms(3)]
  have l: "length (filter (\<lambda>e. ev_kind e = SocialPost) (not_high kept)) \<le> length (filter (\<lambda>e. ev_kind e = SocialPost) kept)"
    unfolding not_high_def filter_filter by (induction kept) auto
  have s: "length (filter (\<lambda>e. ev_kind e = SocialPost) (not_high (kept @ [e]))) \<le> DIGEST_MAX_SOCIAL_ITEMS"
    using assms(1,2) k(1) l by (auto simp: caps_inv_def not_high_snoc)
  show ?thesis
    using assms(1) s counts_record
      at_most_not_high [where f = primary_symbol_key, OF _ k(2)] at_most_not_high [where f = source_key, OF _ k(3)]
      at_most_not_high [where f = event_domain_key, OF _ k(4)]
    by (simp add: caps_inv_def record_kept_event_def c)
qed

lemma caps_high:
  assumes "caps_inv kept st" "ev_severity e = High"
  shows "caps_inv (kept @ [e]) (record_kept_event e st)"
  using assms counts_record by (simp add: caps_inv_def record_kept_event_def not_high_snoc)

lemma caps_omit:
  assumes "caps_inv kept st" "should_omit_non_high_event C now e st = (om, st')"
  shows "caps_inv kept st'"
  using assms(1) by (simp add: caps_inv_def omit_keeps_counters [OF assms(2)])

lemma memory_step:
  assumes "memory_inv C now kept st" "ev_severity e \<noteq> High" "should_omit_non_high_event C now e st = (False, st')"
  shows "memory_inv C now (kept @ [e]) (record_kept_event e st')"
  using assms(1,2) kept_is_new [OF assms(3)] omit_keeps_counters(5,6) [OF assms(3)]
  by (cases "digest_title_dedupe_key C now e"; cases "digest_topic_tokens C now e";
      simp add: memory_inv_def record_kept_event_def not_high_snoc map_filter_append List.map_filter_simps
        sorted_wrt_append; blast)

lemma memory_high:
  assumes "memory_inv C now kept st" "ev_severity e = High"
  shows "memory_inv C now (kept @ [e]) (record_kept_event e st)"
  using assms by (simp add: memory_inv_def record_kept_event_def not_high_snoc)

lemma memory_omit:
  assumes "memory_inv C now kept st" "should_omit_non_high_event C now e st = (om, st')"
  shows "memory_inv C now kept st'"
  using assms(1) omit_keeps_counters(5,6) [OF assms(2)] by (auto simp: memory_inv_def)

lemma curate_event_cases:
  "curate_event C now e (dc, st) =
     (if ev_severity e = High then (dc\<lparr>dc_kept := dc_kept dc @ [e]\<rparr>, record_kept_event e st)
      else case should_omit_non_high_event C now e st of
             (True, st') \<Rightarrow> (dc\<lparr>dc_omitted := dc_omitted dc @ [e]\<rparr>, st')
           | (False, st') \<Rightarrow> (dc\<lparr>dc_kept := dc_kept dc @ [e]\<rparr>, record_kept_event e st'))"
proof -
  have "rank High \<le> rank (ev_severity e) \<longleftrightarrow> ev_severity e = High" by (cases "ev_severity e") auto
  then show ?thesis by (simp add: curate_event_def Let_def split: prod.splits bool.splits)
qed

lemma curate_event_inv:
  assumes "curation_inv C now es (dc, st)" "caps_inv (dc_kept dc) st" "memory_inv C now (dc_kept dc) st"
    "curate_event C now e (dc, st) = (dc', st')"
  shows "curation_inv C now (es @ [e]) (dc', st') \<and> caps_inv (dc_kept dc') st' \<and> memory_inv C now (dc_kept dc') st'"
proof -
  have sub: "subseq (dc_kept dc) (es @ [e])" "subseq (dc_kept dc @ [e]) (es @ [e])"
    using assms(1) by (auto simp: curation_inv_def intro: subseq_order.trans list_emb_append_mono)
  show ?thesis
  proof (cases "ev_severity e = High")
    case True
    then have "dc' = dc\<lparr>dc_kept := dc_kept dc @ [e]\<rparr>" "st' = record_kept_event e st"
      using assms(4) by (simp_all add: curate_event_cases)
    then show ?thesis
      using assms(1-3) True sub caps_high memory_high by (simp add: curation_inv_def)
  next
    case False
    obtain om st1 where o: "should_omit_non_high_event C now e st = (om, st1)" by force
    show ?thesis
    proof (cases om)
      case True
      then have "dc' = dc\<lparr>dc_omitted := dc_omitted dc @ [e]\<rparr>" "st' = st1"
        using assms(4) False o by (simp_all add: curate_event_cases)
      then show ?thesis
        using assms(1-3) False sub caps_omit [OF _ o] memory_omit [OF _ o] by (simp add: curation_inv_def)
    next
      case om: False
      then have "dc' = dc\<lparr>dc_kept := dc_kept dc @ [e]\<rparr>" "st' = record_kept_event e st1"
        using assms(4) False o by (simp_all add: curate_event_cases)
      then show ?thesis
        using assms(1-3) False sub om o caps_step memory_step by (simp add: curation_inv_def)
    qed
  qed
qed

lemma curate_fold_inv:
  assumes "curation_inv C now es x" "caps_inv (dc_kept (fst x)) (snd x)" "memory_inv C now (dc_kept (fst x)) (snd x)"
  shows "let y = fold (curate_event C now) fs x in
    curation_inv C now (es @ fs) y \<and> caps_inv (dc_kept (fst y)) (snd y) \<and> memory_inv C now (dc_kept (fst y)) (snd y)"
  using assms
proof (induction fs arbitrary: es x)
  case (Cons f fs)
  obtain dc st where x: "x = (dc, st)" by force
  obtain dc' st' where y: "curate_event C now f (dc, st) = (dc', st')" by force
  have "curation_inv C now (es @ [f]) (dc', st')" "caps_inv (dc_kept dc') st'" "memory_inv C now (dc_kept dc') st'"
    using curate_event_inv [OF _ _ _ y, of es] Cons.prems by (simp_all add: x)
  from Cons.IH [of "es @ [f]" "(dc', st')"] this show ?case by (simp add: x y)
qed (simp add: Let_def)

lemma curate_all_inv:
  "let y = fold (curate_event C now) es (\<lparr>dc_kept = [], dc_omitted = []\<rparr>, curation_start) in
    curation_inv C now es y \<and> caps_inv (dc_kept (fst y)) (snd y) \<and> memory_inv C now (dc_kept (fst y)) (snd y)"
proof -
  let ?x = "(\<lparr>dc_kept = [], dc_omitted = []\<rparr>, curation_start)"
  have "curation_inv C now [] ?x" "caps_inv [] curation_start" "memory_inv C now [] curation_start"
    by (simp_all add: curation_inv_def caps_inv_def memory_inv_def curation_start_def counts_def at_most_def not_high_def
        List.map_filter_simps)
  then show ?thesis using curate_fold_inv [of C now "[]" ?x es] by simp
qed

text \<open>Curation and topic memory split a batch.\<close>

lemma curate_partition:
  "mset (dc_kept (curate_digest_events_with_omitted_at C es now)) + mset (dc_omitted (curate_digest_events_with_omitted_at C es now))
     = mset es"
  using curate_all_inv [of C now es]
  by (simp add: curate_digest_events_with_omitted_at_def Let_def curation_inv_def split_beta)

lemma memory_partition:
  "mset (dc_kept (suppress_recent_digest_topics_with_omitted S C key es store now))
     + mset (dc_omitted (suppress_recent_digest_topics_with_omitted S C key es store now)) = mset es"
  by (auto simp: suppress_recent_digest_topics_with_omitted_def Let_def add.commute split: sum.split
      intro: multiset_partition [symmetric] trans [OF add.commute])

section \<open>Properties\<close>

text \<open>Curation splits a batch without losing or inventing an event and without reordering what it keeps;
  every High event is kept; among the others that are kept there are at most three social posts, four of a
  symbol, three of a source and two of a domain, no two have the same title key, and none repeats the topic
  of an earlier one (same symbol and kind, at least 55 percent of the title words in common).\<close>

theorem curation_bounds:
  "let r = curate_digest_events_with_omitted_at C es now; others = not_high (dc_kept r) in
     subseq (dc_kept r) es \<and> mset (dc_kept r) + mset (dc_omitted r) = mset es \<and>
     filter (\<lambda>e. ev_severity e = High) (dc_kept r) = filter (\<lambda>e. ev_severity e = High) es \<and>
     length (filter (\<lambda>e. ev_kind e = SocialPost) others) \<le> 3 \<and>
     at_most 4 primary_symbol_key others \<and> at_most 3 source_key others \<and> at_most 2 event_domain_key others \<and>
     distinct (List.map_filter (digest_title_dedupe_key C now) others) \<and>
     sorted_wrt (\<lambda>a b. \<not> same_topic a b) (List.map_filter (digest_topic_tokens C now) others)"
proof -
  show ?thesis
    using curate_all_inv [of C now es]
    by (simp add: curate_digest_events_with_omitted_at_def Let_def curation_inv_def caps_inv_def memory_inv_def split_beta
        DIGEST_MAX_SOCIAL_ITEMS_def DIGEST_MAX_ITEMS_PER_SYMBOL_def DIGEST_MAX_ITEMS_PER_SOURCE_def
        DIGEST_MAX_ITEMS_PER_DOMAIN_def)
qed

end
