(* ===== verification/Router.thy ===== *)
theory Router
  imports Subscription Digest_Buffer Digest_Curation
begin

text \<open>
  \<^verbatim>\<open>crates/hone-event-engine/src/router/\<close>: what becomes of an event. \<^verbatim>\<open>config.rs\<close> (the settings),
  \<^verbatim>\<open>policy.rs\<close> (the severity rules), \<^verbatim>\<open>classify.rs\<close> (when a Low news item is raised),
  \<^verbatim>\<open>stats.rs\<close> and \<^verbatim>\<open>dispatch.rs\<close> (the pipeline that sends, holds, demotes or queues the event for every
  actor it concerns and logs what it did). One dispatch reads one clock value \<open>now\<close> where the source reads
  the clock at each step, and the dispatches of a run happen one after the other. The traits the router is
  built from (sink, polisher, preference source, news classifier) are the fields of \<open>router_env\<close>.
\<close>

section \<open>Settings and state\<close>

record router_config =
  rc_high_daily_cap :: nat
  rc_tz_offset_hours :: int
  rc_same_symbol_cooldown_minutes :: nat
  rc_price_min_direct_pct :: f64
  rc_price_band_min_advance_pct :: f64
  rc_price_close_direct_enabled :: bool
  rc_large_position_weight_pct :: f64
  rc_macro_immediate_lookahead_hours :: int
  rc_macro_immediate_grace_hours :: int
  rc_disabled_kinds :: "rstr set"
  rc_news_upgrade_per_symbol_per_tick_cap :: nat
  rc_news_upgrade_per_tick_cap :: nat
  rc_default_importance_prompt :: rstr

definition DEFAULT_IMPORTANCE_PROMPT :: rstr where
  "DEFAULT_IMPORTANCE_PROMPT = [20844, 21496, 25110, 28508, 22312, 24433, 21709, 20844, 21496, 38271, 26399, 36923, 36753, 21644, 23439, 35266, 21465, 20107, 30340, 37325, 22823, 20107, 20214]"

definition router_new :: router_config where
  "router_new =
     \<lparr>rc_high_daily_cap = 0, rc_tz_offset_hours = 8, rc_same_symbol_cooldown_minutes = 0,
      rc_price_min_direct_pct = 6, rc_price_band_min_advance_pct = 0, rc_price_close_direct_enabled = False,
      rc_large_position_weight_pct = 20, rc_macro_immediate_lookahead_hours = 6, rc_macro_immediate_grace_hours = 2,
      rc_disabled_kinds = {}, rc_news_upgrade_per_symbol_per_tick_cap = 0, rc_news_upgrade_per_tick_cap = 0,
      rc_default_importance_prompt = DEFAULT_IMPORTANCE_PROMPT\<rparr>"

definition with_price_min_direct_pct :: "f64 \<Rightarrow> router_config \<Rightarrow> router_config" where
  "with_price_min_direct_pct pct c = c\<lparr>rc_price_min_direct_pct := max pct 0\<rparr>"

definition with_price_band_min_advance_pct :: "f64 \<Rightarrow> router_config \<Rightarrow> router_config" where
  "with_price_band_min_advance_pct pct c = c\<lparr>rc_price_band_min_advance_pct := max pct 0\<rparr>"

definition with_large_position_weight_pct :: "f64 \<Rightarrow> router_config \<Rightarrow> router_config" where
  "with_large_position_weight_pct pct c = c\<lparr>rc_large_position_weight_pct := max pct 0\<rparr>"

definition with_macro_immediate_window :: "int \<Rightarrow> int \<Rightarrow> router_config \<Rightarrow> router_config" where
  "with_macro_immediate_window lookahead_hours grace_hours c =
     c\<lparr>rc_macro_immediate_lookahead_hours := max lookahead_hours 0, rc_macro_immediate_grace_hours := max grace_hours 0\<rparr>"

definition with_disabled_kinds :: "rstr list \<Rightarrow> router_config \<Rightarrow> router_config" where
  "with_disabled_kinds tags c = c\<lparr>rc_disabled_kinds := set tags\<rparr>"

definition bump_entry :: "rstr \<Rightarrow> (rstr \<times> nat) list \<Rightarrow> (rstr \<times> nat) list" where
  "bump_entry k m = AList.update k (Suc (unwrap_or 0 (map_of m k))) m"

record tick_stats =
  ts_upgraded :: nat
  ts_skipped_per_tick_cap :: nat
  ts_skipped_per_symbol_cap :: nat
  ts_trigger_counts :: "(rstr \<times> nat) list"
  ts_symbol_counts :: "(rstr \<times> nat) list"

definition empty_stats :: tick_stats where
  "empty_stats = \<lparr>ts_upgraded = 0, ts_skipped_per_tick_cap = 0, ts_skipped_per_symbol_cap = 0,
     ts_trigger_counts = [], ts_symbol_counts = []\<rparr>"

definition has_activity :: "tick_stats \<Rightarrow> bool" where
  "has_activity t \<longleftrightarrow> ts_upgraded t > 0 \<or> ts_skipped_per_tick_cap t > 0 \<or> ts_skipped_per_symbol_cap t > 0"

definition top_symbols :: "tick_stats \<Rightarrow> nat \<Rightarrow> (rstr \<times> nat) list" where
  "top_symbols t n = take n (sort_key (\<lambda>x. - int (snd x)) (sort_key fst (ts_symbol_counts t)))"

datatype importance = Important | NotImportant

record router_env =
  en_serde :: serde
  en_buffer :: buffer_env
  en_json :: "json \<Rightarrow> rstr"
  en_registry :: registry
  en_prefs :: "actor \<Rightarrow> notification_prefs"
  en_classifier :: "(market_event \<Rightarrow> rstr \<Rightarrow> importance option) option"
  en_polish :: "market_event \<Rightarrow> rstr \<Rightarrow> rstr option"
  en_send_error :: "actor \<Rightarrow> rstr \<Rightarrow> rstr option"
  en_success_status :: rstr
  en_format_for :: "actor \<Rightarrow> render_format"

abbreviation en_chrono :: "router_env \<Rightarrow> chrono" where
  "en_chrono env \<equiv> be_chrono (en_buffer env)"

record router_state =
  rt_store :: event_store
  rt_digest :: digest_dir
  rt_upgrade_counter :: counter
  rt_upgrade_total :: nat
  rt_stats :: tick_stats
  rt_sent :: "(actor \<times> market_event \<times> rstr) list"

definition reset_tick_counters :: "router_state \<Rightarrow> router_state" where
  "reset_tick_counters st = st\<lparr>rt_upgrade_counter := Map.empty, rt_upgrade_total := 0, rt_stats := empty_stats\<rparr>"

definition actor_key :: "actor \<Rightarrow> rstr" where
  "actor_key a = a_channel a @ lit ''::'' @ unwrap_or [] (a_channel_scope a) @ lit ''::'' @ a_user_id a"

section \<open>Severity rules (policy.rs)\<close>

fun price_window_of :: "event_kind \<Rightarrow> rstr option" where
  "price_window_of (PriceAlert b w) = Some w"
| "price_window_of _ = None"

definition is_price_close_alert :: "market_event \<Rightarrow> bool" where
  "is_price_close_alert e \<longleftrightarrow> price_window_of (ev_kind e) = Some (lit ''close'')"

definition is_intraday_price_band_alert :: "market_event \<Rightarrow> bool" where
  "is_intraday_price_band_alert e \<longleftrightarrow>
     (case price_window_of (ev_kind e) of Some w \<Rightarrow> w \<noteq> lit ''close'' | None \<Rightarrow> False)
     \<and> starts_with (ev_id e) (lit ''price_band:'')"

definition price_alert_change_pct :: "market_event \<Rightarrow> f64 option" where
  "price_alert_change_pct e = get_f64 (ev_payload e) (lit ''changesPercentage'')"

definition price_override_threshold :: "market_event \<Rightarrow> notification_prefs \<Rightarrow> f64 option" where
  "price_override_threshold e p =
     (case get_f64 (ev_payload e) (lit ''changesPercentage'') of
        Some pct \<Rightarrow>
          if pct \<ge> 0 then or_else (np_price_high_pct_up_override p) (np_price_high_pct_override p)
          else or_else (np_price_high_pct_down_override p) (np_price_high_pct_override p)
      | None \<Rightarrow> np_price_high_pct_override p)"

definition event_position_weight_pct :: "market_event \<Rightarrow> f64 option" where
  "event_position_weight_pct e =
     map_option (\<lambda>raw. if raw \<le> 1 then raw * 100 else raw)
       (Option.bind (or_else (json_get (ev_payload e) (lit ''portfolio_weight_pct''))
                             (json_get (ev_payload e) (lit ''portfolio_weight''))) json_as_f64)"

definition price_alert_symbol_direction :: "market_event \<Rightarrow> (rstr \<times> rstr) option" where
  "price_alert_symbol_direction e =
     (if \<not> is_intraday_price_band_alert e then None
      else case ev_symbols e of
             [] \<Rightarrow> None
           | symbol # _ \<Rightarrow>
               (case or_else (get_str (ev_payload e) (lit ''hone_price_direction''))
                       (map_option (\<lambda>pct. if pct \<ge> 0 then lit ''up'' else lit ''down'')
                          (get_f64 (ev_payload e) (lit ''changesPercentage''))) of
                  None \<Rightarrow> None
                | Some direction \<Rightarrow>
                    if direction = lit ''up'' \<or> direction = lit ''down'' then Some (symbol, direction) else None))"

definition quiet_mode_allows_immediate :: "market_event \<Rightarrow> bool" where
  "quiet_mode_allows_immediate e =
     (case ev_kind e of
        EarningsReleased \<Rightarrow> True
      | EarningsCallTranscript \<Rightarrow> True
      | SecFiling f \<Rightarrow> True
      | PriceAlert b w \<Rightarrow> w \<noteq> lit ''close''
      | _ \<Rightarrow> False)"

definition is_legal_ad_event :: "market_event \<Rightarrow> bool" where
  "is_legal_ad_event e \<longleftrightarrow>
     unwrap_or False (get_bool (ev_payload e) (lit ''legal_ad_template''))
     \<or> (let t = to_ascii_lowercase (ev_title e @ [32] @ ev_summary e) in
        \<exists>pat \<in> set (map lit [''shareholder alert'', ''investor alert'', ''class action lawsuit'',
                       ''securities fraud class action'', ''law offices'', ''law firm'']). contains_str t pat)"

fun kind_category :: "event_kind \<Rightarrow> rstr" where
  "kind_category (PriceAlert b w) = lit ''price''"
| "kind_category Weekly52High = lit ''price''"
| "kind_category Weekly52Low = lit ''price''"
| "kind_category NewsCritical = lit ''news''"
| "kind_category SocialPost = lit ''news''"
| "kind_category (SecFiling f) = lit ''filing''"
| "kind_category EarningsUpcoming = lit ''earnings''"
| "kind_category EarningsReleased = lit ''earnings''"
| "kind_category EarningsCallTranscript = lit ''earnings''"
| "kind_category MacroEvent = lit ''macro''"
| "kind_category Dividend = lit ''corp_action''"
| "kind_category Split = lit ''corp_action''"
| "kind_category AnalystGrade = lit ''analyst''"

definition event_category :: "market_event \<Rightarrow> rstr" where
  "event_category e = kind_category (ev_kind e)"

definition local_day_start :: "instant \<Rightarrow> int \<Rightarrow> instant" where
  "local_day_start now offset_hours =
     (let off = fixed_offset_hours offset_hours in secs (local_date off now * 86400 - off))"

definition apply_system_event_policy :: "router_config \<Rightarrow> instant \<Rightarrow> market_event \<Rightarrow> market_event" where
  "apply_system_event_policy cfg now e =
     (let routed = (if is_legal_ad_event e \<and> ev_severity e \<noteq> Low then e\<lparr>ev_severity := Low\<rparr> else e);
          routed = (if ev_kind routed = MacroEvent \<and> ev_severity routed = High then
             (let earliest = now - hours (rc_macro_immediate_grace_hours cfg);
                  latest = now + hours (rc_macro_immediate_lookahead_hours cfg)
              in if ev_occurred_at routed < earliest \<or> ev_occurred_at routed > latest
                 then routed\<lparr>ev_severity := Medium\<rparr> else routed)
             else routed)
      in if ev_kind routed = EarningsUpcoming then
           (let days_until = local_date 0 (ev_occurred_at routed) - local_date 0 now in
            if days_until > 7 \<and> rank (ev_severity routed) > rank Low then routed\<lparr>ev_severity := Low\<rparr> else routed)
         else routed)"

definition price_override_hits :: "router_config \<Rightarrow> market_event \<Rightarrow> notification_prefs \<Rightarrow> bool" where
  "price_override_hits cfg e p =
     (case price_override_threshold e p of
        None \<Rightarrow> False
      | Some threshold_pct \<Rightarrow>
          is_price_alert (ev_kind e) \<and>
          (case price_alert_change_pct e of
             None \<Rightarrow> False
           | Some change_pct \<Rightarrow>
               (let min_direct = max (rc_price_min_direct_pct cfg) 0;
                    large_weight_threshold = unwrap_or (rc_large_position_weight_pct cfg) (np_large_position_weight_pct p);
                    is_large_position = unwrap_or False
                      (map_option (\<lambda>w. w \<ge> large_weight_threshold) (event_position_weight_pct e));
                    required = (if is_large_position then threshold_pct else max threshold_pct min_direct)
                in \<bar>change_pct\<bar> \<ge> required)))"

definition apply_per_actor_severity_override ::
    "router_config \<Rightarrow> market_event \<Rightarrow> severity \<Rightarrow> notification_prefs \<Rightarrow> severity" where
  "apply_per_actor_severity_override cfg e sev p =
     (if sev = High then sev
      else if price_override_hits cfg e p then High
      else case np_immediate_kinds p of
             None \<Rightarrow> sev
           | Some kinds \<Rightarrow>
               if \<exists>k \<in> set kinds. k = kind_tag (ev_kind e) then
                 (if ev_kind e = NewsCritical \<and> sev = Low then sev
                  else if is_noop_analyst_grade e then sev
                  else High)
               else sev)"

definition apply_quiet_mode :: "market_event \<Rightarrow> severity \<Rightarrow> notification_prefs \<Rightarrow> severity" where
  "apply_quiet_mode e sev p =
     (if \<not> np_quiet_mode p \<or> sev \<noteq> High then sev
      else if quiet_mode_allows_immediate e then sev
      else Medium)"

section \<open>Raising news (classify.rs)\<close>

definition NEWS_CONVERGENCE_HARD_SIGNALS :: "rstr list" where
  "NEWS_CONVERGENCE_HARD_SIGNALS =
     map lit [''price_alert'', ''earnings_released'', ''earnings_upcoming'', ''sec_filing'', ''analyst_grade'']"

definition news_source_class_is_low_signal :: "market_event \<Rightarrow> bool" where
  "news_source_class_is_low_signal e \<longleftrightarrow> source_class e \<in> {Some (lit ''opinion_blog''), Some (lit ''pr_wire'')}"

definition hard_signal_correlates :: "market_event \<Rightarrow> rstr \<Rightarrow> bool" where
  "hard_signal_correlates e tag =
     (let t = to_ascii_lowercase (ev_title e @ [32] @ ev_summary e);
          any = (\<lambda>needles. \<exists>n \<in> set needles. contains_str t (lit n))
      in if tag = lit ''price_alert'' then
           any [''price'', ''stock'', ''share'', ''shares'', ''surge'', ''jump'', ''rally'', ''fall'', ''drop'', ''slump'',
                ''plunge'']
         else if tag \<in> {lit ''earnings_released'', lit ''earnings_upcoming'', lit ''earnings_call_transcript''} then
           any [''earnings'', ''results'', ''revenue'', ''profit'', ''eps'', ''guidance'', ''quarter'', ''transcript'']
         else if tag = lit ''sec_filing'' then any [''sec'', ''filing'', ''8-k'', ''10-k'', ''10-q'', ''investigation'']
         else if tag = lit ''analyst_grade'' then any [''analyst'', ''upgrade'', ''downgrade'', ''price target'', ''rating'']
         else True)"

text \<open>The first symbol with a signal that explains the news, and the tag of that signal.\<close>

fun find_trigger :: "serde \<Rightarrow> event_store \<Rightarrow> market_event \<Rightarrow> rstr list \<Rightarrow> rstr option" where
  "find_trigger S store e [] = None"
| "find_trigger S store e (sym' # syms) =
     (let news_ts = ev_occurred_at e;
          recent = (case symbol_signal_kinds_in_window S store sym' (news_ts - hours 6) (news_ts + hours 1) of
             Inl err \<Rightarrow> None
           | Inr tags \<Rightarrow>
               opt_filter (hard_signal_correlates e) (find (\<lambda>t. t \<in> set NEWS_CONVERGENCE_HARD_SIGNALS) tags))
      in case recent of
           Some hit \<Rightarrow> Some hit
         | None \<Rightarrow>
             (case symbol_signal_kinds_in_window S store sym' (news_ts - hours 12) (news_ts + days 2) of
                Inl err \<Rightarrow> find_trigger S store e syms
              | Inr tags \<Rightarrow>
                  if lit ''earnings_upcoming'' \<in> set tags \<and> hard_signal_correlates e (lit ''earnings_upcoming'')
                  then Some (lit ''earnings_upcoming'')
                  else find_trigger S store e syms))"

definition news_upgrade_per_tick_cap_reached :: "router_config \<Rightarrow> router_state \<Rightarrow> bool" where
  "news_upgrade_per_tick_cap_reached cfg st \<longleftrightarrow>
     rc_news_upgrade_per_tick_cap cfg > 0 \<and> rt_upgrade_total st \<ge> rc_news_upgrade_per_tick_cap cfg"

definition news_upgrade_per_symbol_cap_reached :: "router_config \<Rightarrow> router_state \<Rightarrow> market_event \<Rightarrow> bool" where
  "news_upgrade_per_symbol_cap_reached cfg st e =
     (if rc_news_upgrade_per_symbol_per_tick_cap cfg = 0 then False
      else \<exists>s \<in> set (ev_symbols e).
             (case rt_upgrade_counter st s of
                Some n \<Rightarrow> n \<ge> rc_news_upgrade_per_symbol_per_tick_cap cfg
              | None \<Rightarrow> False))"

definition note_upgrade :: "market_event \<Rightarrow> rstr \<Rightarrow> router_state \<Rightarrow> router_state" where
  "note_upgrade e tag st =
     (let t = rt_stats st in
      st\<lparr>rt_upgrade_counter := fold bump (ev_symbols e) (rt_upgrade_counter st),
         rt_upgrade_total := rt_upgrade_total st + 1,
         rt_stats := t\<lparr>ts_upgraded := ts_upgraded t + 1, ts_trigger_counts := bump_entry tag (ts_trigger_counts t),
                       ts_symbol_counts := fold bump_entry (ev_symbols e) (ts_symbol_counts t)\<rparr>\<rparr>)"

definition maybe_upgrade_news ::
    "router_config \<Rightarrow> serde \<Rightarrow> market_event \<Rightarrow> router_state \<Rightarrow> router_state \<times> market_event" where
  "maybe_upgrade_news cfg S e st =
     (if ev_kind e \<noteq> NewsCritical \<or> ev_severity e \<noteq> Low then (st, e)
      else if news_source_class_is_low_signal e then (st, e)
      else case find_trigger S (rt_store st) e (ev_symbols e) of
             None \<Rightarrow> (st, e)
           | Some tag \<Rightarrow>
               (let t = rt_stats st in
                if news_upgrade_per_tick_cap_reached cfg st then
                  (st\<lparr>rt_stats := t\<lparr>ts_skipped_per_tick_cap := ts_skipped_per_tick_cap t + 1\<rparr>\<rparr>, e)
                else if news_upgrade_per_symbol_cap_reached cfg st e then
                  (st\<lparr>rt_stats := t\<lparr>ts_skipped_per_symbol_cap := ts_skipped_per_symbol_cap t + 1\<rparr>\<rparr>, e)
                else (note_upgrade e tag st, e\<lparr>ev_severity := Medium\<rparr>)))"

definition maybe_llm_upgrade_for_actor ::
    "router_config \<Rightarrow> router_env \<Rightarrow> market_event \<Rightarrow> notification_prefs \<Rightarrow> market_event option" where
  "maybe_llm_upgrade_for_actor cfg env e p =
     (if ev_kind e \<notin> {NewsCritical, SocialPost} \<or> ev_severity e \<noteq> Low then None
      else if unwrap_or (lit ''uncertain'') (source_class e) \<noteq> lit ''uncertain'' then None
      else if unwrap_or False (get_bool (ev_payload e) (lit ''legal_ad_template'')) then None
      else case en_classifier env of
             None \<Rightarrow> None
           | Some classify \<Rightarrow>
               (case classify e (unwrap_or (rc_default_importance_prompt cfg) (np_news_importance_prompt p)) of
                  Some Important \<Rightarrow> Some (e\<lparr>ev_severity := Medium\<rparr>)
                | _ \<Rightarrow> None))"

section \<open>Lemmas\<close>

lemma actor_key_eq: "actor_key a = actor_storage_key a"
  by (simp add: actor_key_def actor_storage_key_def)

lemma maybe_upgrade_news_frame:
  "rt_store (fst (maybe_upgrade_news cfg S e st)) = rt_store st"
  "rt_digest (fst (maybe_upgrade_news cfg S e st)) = rt_digest st"
  "rt_sent (fst (maybe_upgrade_news cfg S e st)) = rt_sent st"
  by (simp_all add: maybe_upgrade_news_def note_upgrade_def Let_def split: option.splits)

text \<open>\<open>same_but_severity e e'\<close>: the routing changed nothing but the severity.\<close>

definition same_but_severity :: "market_event \<Rightarrow> market_event \<Rightarrow> bool" where
  "same_but_severity e e' \<longleftrightarrow> (\<exists>s. e' = e\<lparr>ev_severity := s\<rparr>)"

lemma same_but_severity_refl [simp]: "same_but_severity e e"
  unfolding same_but_severity_def by (rule exI [of _ "ev_severity e"]) simp

lemma same_but_severity_update [simp]: "same_but_severity e (e\<lparr>ev_severity := s\<rparr>)"
  by (auto simp: same_but_severity_def)

lemma same_but_severity_trans: "same_but_severity a b \<Longrightarrow> same_but_severity b c \<Longrightarrow> same_but_severity a c"
  by (auto simp: same_but_severity_def)

lemma same_but_severity_fields:
  assumes "same_but_severity e e'"
  shows "ev_id e' = ev_id e" "ev_kind e' = ev_kind e" "ev_symbols e' = ev_symbols e" "ev_payload e' = ev_payload e"
  using assms by (auto simp: same_but_severity_def)

lemma maybe_upgrade_news_same: "same_but_severity e (snd (maybe_upgrade_news cfg S e st))"
  by (simp add: maybe_upgrade_news_def Let_def split: option.splits)

lemma apply_system_event_policy_same: "same_but_severity e (apply_system_event_policy cfg now e)"
  unfolding apply_system_event_policy_def Let_def
  by (auto intro: same_but_severity_trans)

lemma maybe_llm_upgrade_same: "maybe_llm_upgrade_for_actor cfg env e p = Some e' \<Longrightarrow> same_but_severity e e'"
  by (auto simp: maybe_llm_upgrade_for_actor_def split: if_splits option.splits importance.splits)

subsection \<open>The caps of a tick\<close>

text \<open>The news of one tick, each with the store as it is when the item is looked at.\<close>

fun upgrade_run ::
    "router_config \<Rightarrow> serde \<Rightarrow> (event_store \<times> market_event) list \<Rightarrow> router_state \<Rightarrow> router_state \<times> market_event list" where
  "upgrade_run cfg S [] st = (st, [])"
| "upgrade_run cfg S ((store, e) # xs) st =
     (let (st1, e') = maybe_upgrade_news cfg S e (st\<lparr>rt_store := store\<rparr>);
          (st2, es) = upgrade_run cfg S xs st1
      in (st2, e' # es))"

definition raised :: "market_event list \<Rightarrow> market_event list \<Rightarrow> market_event list" where
  "raised es es' = map fst (filter (\<lambda>(e, e'). e \<noteq> e') (zip es es'))"

definition mentions :: "rstr \<Rightarrow> market_event list \<Rightarrow> nat" where
  "mentions s es = length (filter (\<lambda>e. s \<in> set (ev_symbols e)) es)"

text \<open>The counters after the raises \<open>R\<close> of the tick.\<close>

definition tick_inv :: "router_config \<Rightarrow> market_event list \<Rightarrow> router_state \<Rightarrow> bool" where
  "tick_inv cfg R st \<longleftrightarrow>
     rt_upgrade_total st = length R \<and> ts_upgraded (rt_stats st) = length R
     \<and> (\<forall>s. mentions s R \<le> count_of (rt_upgrade_counter st) s)
     \<and> (rc_news_upgrade_per_tick_cap cfg > 0 \<longrightarrow> length R \<le> rc_news_upgrade_per_tick_cap cfg)
     \<and> (rc_news_upgrade_per_symbol_per_tick_cap cfg > 0 \<longrightarrow>
          (\<forall>s. mentions s R \<le> rc_news_upgrade_per_symbol_per_tick_cap cfg))"

lemma count_fold_bump: "count_of (fold bump ks m) s = count_of m s + count_list ks s"
  by (induction ks arbitrary: m) auto

lemma maybe_upgrade_news_tick:
  assumes "tick_inv cfg R st" "maybe_upgrade_news cfg S e st = (st', e')"
  shows "(e' = e \<and> tick_inv cfg R st') \<or>
    (e' = e\<lparr>ev_severity := Medium\<rparr> \<and> ev_severity e = Low \<and> ev_kind e = NewsCritical \<and>
     \<not> news_source_class_is_low_signal e \<and> tick_inv cfg (R @ [e]) st')"
proof (cases "e' = e")
  case True
  then have "tick_inv cfg R st'"
    using assms
    by (auto simp: maybe_upgrade_news_def tick_inv_def Let_def split: if_splits option.splits)
       (metis severity.distinct(1) market_event.select_convs(3) market_event.surjective market_event.update_convs(3))+
  then show ?thesis using True by simp
next
  case False
  then obtain tag where t: "ev_kind e = NewsCritical" "ev_severity e = Low" "\<not> news_source_class_is_low_signal e"
    "\<not> news_upgrade_per_tick_cap_reached cfg st" "\<not> news_upgrade_per_symbol_cap_reached cfg st e"
    "st' = note_upgrade e tag st" "e' = e\<lparr>ev_severity := Medium\<rparr>"
    using assms(2) by (auto simp: maybe_upgrade_news_def Let_def split: if_splits option.splits)
  have total: "rc_news_upgrade_per_tick_cap cfg > 0 \<longrightarrow> length (R @ [e]) \<le> rc_news_upgrade_per_tick_cap cfg"
    using assms(1) t(4) by (auto simp: tick_inv_def news_upgrade_per_tick_cap_reached_def)
  have room: "count_of (rt_upgrade_counter st) s < rc_news_upgrade_per_symbol_per_tick_cap cfg"
    if "rc_news_upgrade_per_symbol_per_tick_cap cfg > 0" "s \<in> set (ev_symbols e)" for s
    using t(5) that
    by (cases "rt_upgrade_counter st s") (fastforce simp: news_upgrade_per_symbol_cap_reached_def count_of_def)+
  have syms: "mentions s (R @ [e]) \<le> rc_news_upgrade_per_symbol_per_tick_cap cfg"
    if "rc_news_upgrade_per_symbol_per_tick_cap cfg > 0" for s
  proof -
    have "mentions s R \<le> count_of (rt_upgrade_counter st) s" "mentions s R \<le> rc_news_upgrade_per_symbol_per_tick_cap cfg"
      using assms(1) that by (auto simp: tick_inv_def)
    then show ?thesis using room [OF that, of s] by (auto simp: mentions_def)
  qed
  have cnt: "mentions s (R @ [e]) \<le> count_of (fold bump (ev_symbols e) (rt_upgrade_counter st)) s" for s
  proof -
    have "mentions s R \<le> count_of (rt_upgrade_counter st) s" using assms(1) by (simp add: tick_inv_def)
    moreover have "s \<in> set (ev_symbols e) \<Longrightarrow> count_list (ev_symbols e) s \<ge> 1"
      by (metis One_nat_def Suc_leI count_list_0_iff gr0I)
    ultimately show ?thesis by (auto simp: mentions_def count_fold_bump)
  qed
  have "tick_inv cfg (R @ [e]) st'"
    using assms(1) total syms cnt by (simp add: tick_inv_def t(6) note_upgrade_def Let_def)
  then show ?thesis using t by simp
qed

lemma upgrade_run_tick:
  assumes "tick_inv cfg R st" "upgrade_run cfg S xs st = (st', es')"
  shows "tick_inv cfg (R @ raised (map snd xs) es') st' \<and>
    list_all2 (\<lambda>e e'. e' = e \<or> (e' = e\<lparr>ev_severity := Medium\<rparr> \<and> ev_severity e = Low \<and> ev_kind e = NewsCritical \<and>
       \<not> news_source_class_is_low_signal e)) (map snd xs) es'"
  using assms
proof (induction xs arbitrary: R st es')
  case Nil
  then show ?case by (simp add: raised_def)
next
  case (Cons x xs)
  obtain store e where x: "x = (store, e)" by force
  obtain st1 e1 where u: "maybe_upgrade_news cfg S e (st\<lparr>rt_store := store\<rparr>) = (st1, e1)" by force
  obtain st2 es where r: "upgrade_run cfg S xs st1 = (st2, es)" by force
  have es': "es' = e1 # es" "st' = st2" using Cons.prems(2) by (simp_all add: x u r)
  have i: "tick_inv cfg R (st\<lparr>rt_store := store\<rparr>)" using Cons.prems(1) by (simp add: tick_inv_def)
  from maybe_upgrade_news_tick [OF i u] show ?case
  proof
    assume "e1 = e \<and> tick_inv cfg R st1"
    then show ?case using Cons.IH [of R st1 es] r by (simp add: x es' raised_def)
  next
    assume a: "e1 = e\<lparr>ev_severity := Medium\<rparr> \<and> ev_severity e = Low \<and> ev_kind e = NewsCritical \<and>
      \<not> news_source_class_is_low_signal e \<and> tick_inv cfg (R @ [e]) st1"
    then have "e \<noteq> e1" by (metis market_event.select_convs(3) market_event.surjective market_event.update_convs(3) severity.distinct(1))
    then show ?case using Cons.IH [of "R @ [e]" st1 es] r a by (simp add: x es' raised_def)
  qed
qed

section \<open>Properties\<close>

text \<open>Within a tick, whatever the news and the store, a news item leaves the convergence check unchanged or
  raised from Low to Medium (never one from a low-signal source); at most the per-tick cap are raised in all
  and at most the per-symbol cap for any symbol, and the statistics count exactly the raises.\<close>

theorem news_upgrade_caps:
  assumes "upgrade_run cfg S xs (reset_tick_counters st) = (st', es')"
  shows "list_all2 (\<lambda>e e'. e' = e \<or> (e' = e\<lparr>ev_severity := Medium\<rparr> \<and> ev_severity e = Low \<and> ev_kind e = NewsCritical \<and>
       \<not> news_source_class_is_low_signal e)) (map snd xs) es' \<and>
    (rc_news_upgrade_per_tick_cap cfg > 0 \<longrightarrow> length (raised (map snd xs) es') \<le> rc_news_upgrade_per_tick_cap cfg) \<and>
    (rc_news_upgrade_per_symbol_per_tick_cap cfg > 0 \<longrightarrow>
       (\<forall>s. mentions s (raised (map snd xs) es') \<le> rc_news_upgrade_per_symbol_per_tick_cap cfg)) \<and>
    ts_upgraded (rt_stats st') = length (raised (map snd xs) es')"
proof -
  have "tick_inv cfg [] (reset_tick_counters st)"
    by (simp add: tick_inv_def reset_tick_counters_def empty_stats_def mentions_def)
  from upgrade_run_tick [OF this assms] show ?thesis by (simp add: tick_inv_def)
qed

definition demo_router_state :: router_state where
  "demo_router_state = \<lparr>rt_store = demo_store, rt_digest = \<lparr>bd_files = [], bd_flushed = [], bd_fault = None\<rparr>,
     rt_upgrade_counter = Map.empty, rt_upgrade_total = 9, rt_stats = empty_stats, rt_sent = []\<rparr>"

definition demo_actor :: actor where
  "demo_actor = \<lparr>a_channel = lit ''telegram'', a_user_id = lit ''u1'', a_channel_scope = None\<rparr>"

definition demo_env :: router_env where
  "demo_env = \<lparr>en_serde = demo_serde, en_buffer = demo_buffer_env, en_json = (\<lambda>j. []),
     en_registry = [Broadcast (global_subscription_new (lit ''all'') [demo_actor])], en_prefs = (\<lambda>a. default_prefs),
     en_classifier = None, en_polish = (\<lambda>e b. None), en_send_error = (\<lambda>a b. None), en_success_status = lit ''sent'',
     en_format_for = (\<lambda>a. Plain)\<rparr>"

theorem news_upgrade_caps_witness:
  "ts_upgraded (rt_stats (fst (upgrade_run (router_new\<lparr>rc_news_upgrade_per_tick_cap := 1\<rparr>) demo_serde
      [(demo_store, demo_event)] (reset_tick_counters demo_router_state)))) \<le> 1"
proof -
  let ?cfg = "router_new\<lparr>rc_news_upgrade_per_tick_cap := 1\<rparr>"
  obtain st' es' where r: "upgrade_run ?cfg demo_serde [(demo_store, demo_event)] (reset_tick_counters demo_router_state) = (st', es')"
    by force
  from news_upgrade_caps [OF r] r show ?thesis by (simp add: router_new_def)
qed

end
