(* ===== verification/Dispatch.thy ===== *)
theory Dispatch
  imports Router
begin

text \<open>
  \<^verbatim>\<open>crates/hone-event-engine/src/router/dispatch.rs\<close>: \<^verbatim>\<open>NotificationRouter::dispatch\<close>, stage by
  stage. A stage that demotes returns True; the stages run in the order of the source, each only while the
  severity is still High. A failing log write is ignored, a failing query lets the event pass.
\<close>

section \<open>Stages\<close>

definition log_row_quietly ::
    "instant \<Rightarrow> rstr \<Rightarrow> rstr \<Rightarrow> rstr \<Rightarrow> severity \<Rightarrow> rstr \<Rightarrow> rstr option \<Rightarrow> router_state \<Rightarrow> router_state" where
  "log_row_quietly now event_id key channel sev status body st =
     st\<lparr>rt_store := settle (rt_store st) (log_delivery now event_id key channel sev status body (rt_store st))\<rparr>"

definition close_demoted :: "router_config \<Rightarrow> market_event \<Rightarrow> severity \<Rightarrow> severity" where
  "close_demoted cfg e sev =
     (if is_price_close_alert e \<and> \<not> rc_price_close_direct_enabled cfg \<and> sev = High then Medium else sev)"

text \<open>The daily cap of High messages per category.\<close>

definition demoted_by_cap :: "router_config \<Rightarrow> instant \<Rightarrow> event_store \<Rightarrow> rstr \<Rightarrow> market_event \<Rightarrow> severity \<Rightarrow> bool" where
  "demoted_by_cap cfg now store key e sev =
     (if sev = High \<and> rc_high_daily_cap cfg > 0 then
        (case count_high_sent_since_for_category store key (local_day_start now (rc_tz_offset_hours cfg)) (event_category e) of
           Inr n \<Rightarrow> n \<ge> rc_high_daily_cap cfg
         | Inl err \<Rightarrow> False)
      else False)"

text \<open>\<^verbatim>\<open>(pct * 100.0).round() as i64\<close> for a percentage that is not negative.\<close>

definition min_advance_bps :: "f64 \<Rightarrow> int" where
  "min_advance_bps pct = min \<lfloor>pct * 100 + 1 / 2\<rfloor> (2 ^ 63 - 1)"

text \<open>A price band has to lie far enough above the highest band of the day and direction already sent. The sum is an \<^verbatim>\<open>i64\<close> in
  the source and exact here: the two differ only for a configured advance or a stored band near \<open>2 ^ 63\<close> hundredths of a
  per cent.\<close>

definition demoted_by_price_advance ::
    "router_config \<Rightarrow> serde \<Rightarrow> instant \<Rightarrow> event_store \<Rightarrow> rstr \<Rightarrow> market_event \<Rightarrow> severity \<Rightarrow> bool" where
  "demoted_by_price_advance cfg S now store key e sev =
     (if sev = High \<and> is_intraday_price_band_alert e \<and> rc_price_band_min_advance_pct cfg > 0 then
        (case price_alert_symbol_direction e of
           None \<Rightarrow> False
         | Some (symbol, direction) \<Rightarrow>
             (case (get_i64 (ev_payload e) (lit ''hone_price_band_bps''),
                    last_price_band_max_bps_for_symbol_direction S store key symbol direction
                      (local_day_start now (rc_tz_offset_hours cfg))) of
                (Some cur, Inr (Some prev_max)) \<Rightarrow> cur < prev_max + min_advance_bps (rc_price_band_min_advance_pct cfg)
              | _ \<Rightarrow> False))
      else False)"

definition analyst_grade_source_article_key :: "market_event \<Rightarrow> (rstr \<times> rstr) option" where
  "analyst_grade_source_article_key e =
     (if ev_kind e \<noteq> AnalystGrade then None
      else case ev_symbols e of
             [] \<Rightarrow> None
           | s # _ \<Rightarrow>
               if trim s = [] then None
               else (case map_option trim (or_else (get_str (ev_payload e) (lit ''newsURL'')) (ev_url e)) of
                       None \<Rightarrow> None
                     | Some news_url \<Rightarrow> if news_url = [] then None else Some (trim s, news_url)))"

definition cooldown_cutoff :: "router_config \<Rightarrow> instant \<Rightarrow> instant" where
  "cooldown_cutoff cfg now = now - minutes (int (rc_same_symbol_cooldown_minutes cfg))"

text \<open>Several grades from one article: only the first is sent.\<close>

definition demoted_by_article ::
    "router_config \<Rightarrow> serde \<Rightarrow> instant \<Rightarrow> event_store \<Rightarrow> rstr \<Rightarrow> market_event \<Rightarrow> severity \<Rightarrow> bool" where
  "demoted_by_article cfg S now store key e sev =
     (if sev = High \<and> rc_same_symbol_cooldown_minutes cfg > 0 \<and> ev_kind e = AnalystGrade then
        (case analyst_grade_source_article_key e of
           None \<Rightarrow> False
         | Some (symbol, news_url) \<Rightarrow>
             (case last_high_sink_send_for_analyst_news_url S store key symbol news_url (cooldown_cutoff cfg now) of
                Inr (Some ts) \<Rightarrow> True
              | _ \<Rightarrow> False))
      else False)"

text \<open>The cooldown of a symbol, per category and, for grades, per grading firm.\<close>

definition demoted_by_cooldown ::
    "router_config \<Rightarrow> serde \<Rightarrow> instant \<Rightarrow> event_store \<Rightarrow> rstr \<Rightarrow> market_event \<Rightarrow> severity \<Rightarrow> bool" where
  "demoted_by_cooldown cfg S now store key e sev =
     (if sev = High \<and> rc_same_symbol_cooldown_minutes cfg > 0 \<and> ev_symbols e \<noteq> []
         \<and> \<not> is_intraday_price_band_alert e then
        (let firm = (if ev_kind e = AnalystGrade then get_str (ev_payload e) (lit ''gradingCompany'') else None) in
         \<exists>s \<in> set (ev_symbols e).
           (case last_high_sink_send_for_symbol_category S store key s (event_category e) firm of
              Inr (Some ts) \<Rightarrow> ts \<ge> cooldown_cutoff cfg now
            | _ \<Rightarrow> False))
      else False)"

definition quiet_hours_hold :: "router_config \<Rightarrow> chrono \<Rightarrow> instant \<Rightarrow> notification_prefs \<Rightarrow> market_event \<Rightarrow> bool" where
  "quiet_hours_hold cfg C now p e =
     (case np_quiet_hours p of
        None \<Rightarrow> False
      | Some qh \<Rightarrow>
          (let tz = from_actor_prefs C (np_timezone p) (rc_tz_offset_hours cfg);
               exempt = (\<exists>t \<in> set (qh_exempt_kinds qh). t = kind_tag (ev_kind e))
           in \<not> exempt \<and> in_quiet_window C tz now (qh_from qh) (qh_to qh)))"

datatype demotion = ByCap | ByPriceAdvance | ByCooldown

definition demotion_of ::
    "router_config \<Rightarrow> serde \<Rightarrow> instant \<Rightarrow> event_store \<Rightarrow> rstr \<Rightarrow> market_event \<Rightarrow> severity \<Rightarrow> demotion option" where
  "demotion_of cfg S now store key e sev =
     (if demoted_by_cap cfg now store key e sev then Some ByCap
      else if demoted_by_price_advance cfg S now store key e sev then Some ByPriceAdvance
      else if demoted_by_article cfg S now store key e sev \<or> demoted_by_cooldown cfg S now store key e sev
      then Some ByCooldown
      else None)"

fun queue_status :: "demotion option \<Rightarrow> rstr" where
  "queue_status (Some ByCap) = lit ''capped''"
| "queue_status (Some ByPriceAdvance) = lit ''price_low_advance''"
| "queue_status (Some ByCooldown) = lit ''cooled_down''"
| "queue_status None = lit ''queued''"

section \<open>Delivery\<close>

definition message_body :: "router_env \<Rightarrow> actor \<Rightarrow> market_event \<Rightarrow> rstr" where
  "message_body env a e =
     (let fmt = en_format_for env a; default_body = render_immediate (en_json env) e fmt
      in if fmt = Plain then unwrap_or default_body (en_polish env e default_body) else default_body)"

definition send_now ::
    "router_env \<Rightarrow> instant \<Rightarrow> actor \<Rightarrow> market_event \<Rightarrow> severity \<Rightarrow> router_state \<Rightarrow> router_state \<times> nat \<times> nat" where
  "send_now env now a e sev st =
     (let body = message_body env a e in
      case en_send_error env a body of
        Some err \<Rightarrow> (log_row_quietly now (ev_id e) (actor_key a) (lit ''sink'') sev (lit ''failed'') (Some body) st, 0, 0)
      | None \<Rightarrow>
          (log_row_quietly now (ev_id e) (actor_key a) (lit ''sink'') sev (en_success_status env) (Some body)
             (st\<lparr>rt_sent := rt_sent st @ [(a, e, body)]\<rparr>), 1, 0))"

definition queue_for_digest ::
    "router_env \<Rightarrow> instant \<Rightarrow> actor \<Rightarrow> market_event \<Rightarrow> severity \<Rightarrow> demotion option \<Rightarrow> router_state \<Rightarrow> router_state \<times> nat \<times> nat" where
  "queue_for_digest env now a e sev demotion st =
     (case enqueue (en_buffer env) now a e (rt_digest st) of
        Inr d \<Rightarrow> (log_row_quietly now (ev_id e) (actor_key a) (lit ''digest'') sev (queue_status demotion) None
                    (st\<lparr>rt_digest := d\<rparr>), 0, 1)
      | Inl err \<Rightarrow> (log_row_quietly now (ev_id e) (actor_key a) (lit ''digest'') sev (lit ''failed'') None st, 0, 0))"

text \<open>The event and severity an actor is served with, before the filter.\<close>

definition actor_view ::
    "router_config \<Rightarrow> router_env \<Rightarrow> market_event \<Rightarrow> actor \<Rightarrow> severity \<Rightarrow> market_event \<times> severity" where
  "actor_view cfg env e a sev =
     (let p = en_prefs env a;
          (e, sev) = (case maybe_llm_upgrade_for_actor cfg env e p of
                        Some upgraded \<Rightarrow> (upgraded, Medium)
                      | None \<Rightarrow> (e, sev));
          sev = apply_per_actor_severity_override cfg e sev p;
          sev = apply_quiet_mode e sev p
      in (e, close_demoted cfg e sev))"

definition dispatch_actor ::
    "router_config \<Rightarrow> router_env \<Rightarrow> instant \<Rightarrow> market_event \<Rightarrow> actor \<times> severity \<Rightarrow> router_state \<Rightarrow> router_state \<times> nat \<times> nat" where
  "dispatch_actor cfg env now e0 hit st =
     (let (a, sev0) = hit;
          p = en_prefs env a;
          (e, sev) = actor_view cfg env e0 a sev0
      in if \<not> should_deliver p e then
           (log_row_quietly now (ev_id e) (actor_key a) (lit ''prefs'') sev (lit ''filtered'') None st, 0, 0)
         else
           let demotion = demotion_of cfg (en_serde env) now (rt_store st) (actor_key a) e sev in
           if sev = High \<and> demotion = None then
             (if quiet_hours_hold cfg (en_chrono env) now p e then
                (log_row_quietly now (ev_id e) (actor_key a) (lit ''sink'') sev (lit ''quiet_held'') None st, 0, 0)
              else send_now env now a e sev st)
           else queue_for_digest env now a e sev demotion st)"

fun dispatch_actors ::
    "router_config \<Rightarrow> router_env \<Rightarrow> instant \<Rightarrow> market_event \<Rightarrow> (actor \<times> severity) list \<Rightarrow> router_state \<Rightarrow> router_state \<times> nat \<times> nat" where
  "dispatch_actors cfg env now e [] st = (st, 0, 0)"
| "dispatch_actors cfg env now e (hit # hits) st =
     (let (st1, s1, p1) = dispatch_actor cfg env now e hit st;
          (st2, s2, p2) = dispatch_actors cfg env now e hits st1
      in (st2, s1 + s2, p1 + p2))"

definition dispatch ::
    "router_config \<Rightarrow> router_env \<Rightarrow> instant \<Rightarrow> market_event \<Rightarrow> router_state \<Rightarrow> router_state \<times> nat \<times> nat" where
  "dispatch cfg env now e st =
     (if kind_tag (ev_kind e) \<in> rc_disabled_kinds cfg then (st, 0, 0)
      else
        let (st, upgraded) = maybe_upgrade_news cfg (en_serde env) e st;
            routed = apply_system_event_policy cfg now upgraded;
            hits = resolve (en_registry env) routed
        in if hits = [] then
             (log_row_quietly now (ev_id routed) (lit ''event_engine::::no_actor'') (lit ''router'') (ev_severity routed)
                (lit ''no_actor'') None st, 0, 0)
           else dispatch_actors cfg env now routed hits st)"

section \<open>Lemmas\<close>

lemma actor_view_same: "same_but_severity e (fst (actor_view cfg env e a sev))"
  using maybe_llm_upgrade_same by (auto simp: actor_view_def Let_def split: option.splits)

text \<open>The log row of a step.\<close>

definition new_row :: "router_state \<Rightarrow> instant \<Rightarrow> market_event \<Rightarrow> rstr \<Rightarrow> rstr \<Rightarrow> severity \<Rightarrow> rstr \<Rightarrow> rstr option \<Rightarrow> log_row" where
  "new_row st now e key channel sev status body =
     \<lparr>dl_id = es_next_id (rt_store st), dl_event_id = ev_id e, dl_actor = key, dl_channel = channel,
      dl_severity = severity_tag sev, dl_sent_at_ts = timestamp now, dl_status = status, dl_body = body\<rparr>"

definition logged :: "log_row \<Rightarrow> event_store \<Rightarrow> event_store" where
  "logged d s = s\<lparr>es_log := es_log s @ [d], es_next_id := es_next_id s + 1\<rparr>"

lemma logged_simps [simp]:
  "es_events (logged d s) = es_events s" "es_log (logged d s) = es_log s @ [d]" "es_fault (logged d s) = es_fault s"
  by (simp_all add: logged_def)

lemma log_row_quietly_ok:
  assumes "es_fault (rt_store st) = None"
  shows "log_row_quietly now (ev_id e) key channel sev status body st =
    st\<lparr>rt_store := logged (new_row st now e key channel sev status body) (rt_store st)\<rparr>"
  using assms by (simp add: log_row_quietly_def log_delivery_def settle_def logged_def new_row_def)

text \<open>What one actor's step can be: the row it logs, whether it sent or queued.\<close>

definition sent_step :: "router_env \<Rightarrow> log_row \<Rightarrow> bool" where
  "sent_step env d \<longleftrightarrow> dl_channel d = lit ''sink'' \<and> dl_status d = en_success_status env"

definition queued_step :: "log_row \<Rightarrow> bool" where
  "queued_step d \<longleftrightarrow> dl_channel d = lit ''digest'' \<and> dl_status d \<noteq> lit ''failed''"

definition pushable ::
    "router_config \<Rightarrow> router_env \<Rightarrow> instant \<Rightarrow> event_store \<Rightarrow> actor \<Rightarrow> market_event \<Rightarrow> severity \<Rightarrow> bool" where
  "pushable cfg env now store a e sev \<longleftrightarrow>
     sev = High \<and> should_deliver (en_prefs env a) e \<and> demotion_of cfg (en_serde env) now store (actor_key a) e sev = None
     \<and> \<not> quiet_hours_hold cfg (en_chrono env) now (en_prefs env a) e"

lemma queue_status_cases:
  "queue_status d \<in> {lit ''capped'', lit ''price_low_advance'', lit ''cooled_down'', lit ''queued''}"
  by (cases d rule: queue_status.cases) simp_all

text \<open>\<open>step_result\<close>: the step logs one row with this channel and status, and reports and sends accordingly.\<close>

definition step_result ::
    "router_env \<Rightarrow> instant \<Rightarrow> actor \<Rightarrow> market_event \<Rightarrow> severity \<Rightarrow> router_state \<Rightarrow> rstr \<Rightarrow> rstr \<Rightarrow>
     router_state \<times> nat \<times> nat \<Rightarrow> bool" where
  "step_result env now a e sev st channel status x \<longleftrightarrow>
     (\<exists>b. rt_store (fst x) = logged (new_row st now e (actor_key a) channel sev status b) (rt_store st))
     \<and> fst (snd x) = (if channel = lit ''sink'' \<and> status = en_success_status env then 1 else 0)
     \<and> snd (snd x) = (if channel = lit ''digest'' \<and> status \<noteq> lit ''failed'' then 1 else 0)
     \<and> rt_sent (fst x) = rt_sent st @
          (if channel = lit ''sink'' \<and> status = en_success_status env then [(a, e, message_body env a e)] else [])"

lemma log_only_step:
  assumes "es_fault (rt_store st) = None" "\<not> (channel = lit ''sink'' \<and> status = en_success_status env)"
    "\<not> (channel = lit ''digest'' \<and> status \<noteq> lit ''failed'')"
  shows "step_result env now a e sev st channel status
    (log_row_quietly now (ev_id e) (actor_key a) channel sev status body st, 0, 0)"
  using assms(2,3) by (auto simp: step_result_def log_row_quietly_ok [OF assms(1)])

lemma send_now_step:
  assumes "es_fault (rt_store st) = None" "en_success_status env \<noteq> lit ''failed''"
  shows "step_result env now a e sev st (lit ''sink'') (en_success_status env) (send_now env now a e sev st)
    \<or> step_result env now a e sev st (lit ''sink'') (lit ''failed'') (send_now env now a e sev st)"
proof (cases "en_send_error env a (message_body env a e)")
  case None
  have "es_fault (rt_store (st\<lparr>rt_sent := x\<rparr>)) = None" for x using assms(1) by simp
  then show ?thesis
    using None by (auto simp: send_now_def Let_def step_result_def log_row_quietly_ok new_row_def)
next
  case (Some err)
  have ne: "\<not> (lit ''sink'' = lit ''sink'' \<and> lit ''failed'' = en_success_status env)" using assms(2) by auto
  show ?thesis
    using log_only_step [OF assms(1) ne, of now a e sev "Some (message_body env a e)"] Some
    by (simp add: send_now_def Let_def)
qed

lemma queue_for_digest_step:
  assumes "es_fault (rt_store st) = None"
  shows "\<exists>status. step_result env now a e sev st (lit ''digest'') status (queue_for_digest env now a e sev dem st)"
proof (cases "enqueue (en_buffer env) now a e (rt_digest st)")
  case (Inl err)
  then show ?thesis using log_only_step [OF assms, of "lit ''digest''" "lit ''failed''" env now a e sev None]
    by (auto simp: queue_for_digest_def)
next
  case (Inr d)
  have f: "es_fault (rt_store (st\<lparr>rt_digest := d\<rparr>)) = None" using assms by simp
  have "queue_status dem \<noteq> lit ''failed''" using queue_status_cases [of dem] by auto
  then show ?thesis
    using Inr f
    by (intro exI [of _ "queue_status dem"])
       (auto simp: queue_for_digest_def step_result_def log_row_quietly_ok new_row_def)
qed

lemma dispatch_actor_eq:
  assumes "e = fst (actor_view cfg env e0 a sev0)" "sev = snd (actor_view cfg env e0 a sev0)"
    "dem = demotion_of cfg (en_serde env) now (rt_store st) (actor_key a) e sev"
  shows "dispatch_actor cfg env now e0 (a, sev0) st =
    (if \<not> should_deliver (en_prefs env a) e then
       (log_row_quietly now (ev_id e) (actor_key a) (lit ''prefs'') sev (lit ''filtered'') None st, 0, 0)
     else if sev = High \<and> dem = None then
       (if quiet_hours_hold cfg (en_chrono env) now (en_prefs env a) e then
          (log_row_quietly now (ev_id e) (actor_key a) (lit ''sink'') sev (lit ''quiet_held'') None st, 0, 0)
        else send_now env now a e sev st)
     else queue_for_digest env now a e sev dem st)"
proof -
  have v: "actor_view cfg env e0 a sev0 = (e, sev)" by (simp add: assms(1,2))
  show ?thesis
    unfolding dispatch_actor_def Let_def v prod.case assms(3) by (rule refl)
qed

lemma dispatch_actor_step:
  assumes "es_fault (rt_store st) = None" "en_success_status env \<notin> {lit ''failed'', lit ''quiet_held''}"
    "e = fst (actor_view cfg env e0 a sev0)" "sev = snd (actor_view cfg env e0 a sev0)"
  shows "\<exists>channel status. step_result env now a e sev st channel status (dispatch_actor cfg env now e0 (a, sev0) st) \<and>
    (channel = lit ''sink'' \<and> status = en_success_status env \<longrightarrow> pushable cfg env now (rt_store st) a e sev) \<and>
    (channel = lit ''sink'' \<longrightarrow> status \<in> {en_success_status env, lit ''failed'', lit ''quiet_held''})"
proof -
  define dem where "dem = demotion_of cfg (en_serde env) now (rt_store st) (actor_key a) e sev"
  note eq = dispatch_actor_eq [OF assms(3,4) dem_def]
  show ?thesis
  proof (cases "should_deliver (en_prefs env a) e")
    case False
    then show ?thesis
      unfolding eq using log_only_step [OF assms(1), of "lit ''prefs''" "lit ''filtered''" env now a e sev None]
      by (intro exI [of _ "lit ''prefs''"] exI [of _ "lit ''filtered''"]) simp
  next
    case del: True
    show ?thesis
    proof (cases "sev = High \<and> dem = None")
      case False
      then have "dispatch_actor cfg env now e0 (a, sev0) st = queue_for_digest env now a e sev dem st"
        unfolding eq using del by (simp only: if_True if_False not_True_eq_False)
      moreover obtain status where
        "step_result env now a e sev st (lit ''digest'') status (queue_for_digest env now a e sev dem st)"
        using queue_for_digest_step [OF assms(1)] by blast
      moreover have "lit ''digest'' \<noteq> lit ''sink''" by simp
      ultimately show ?thesis
        by (intro exI [of _ "lit ''digest''"] exI [of _ status]) (simp only: simp_thms)
    next
      case High: True
      show ?thesis
      proof (cases "quiet_hours_hold cfg (en_chrono env) now (en_prefs env a) e")
        case True
        then have "dispatch_actor cfg env now e0 (a, sev0) st =
            (log_row_quietly now (ev_id e) (actor_key a) (lit ''sink'') sev (lit ''quiet_held'') None st, 0, 0)"
          unfolding eq using del High by (simp only: if_True if_False not_True_eq_False simp_thms)
        moreover have "lit ''quiet_held'' \<noteq> en_success_status env" using assms(2) by auto
        ultimately show ?thesis
          using log_only_step [OF assms(1), of "lit ''sink''" "lit ''quiet_held''" env now a e sev None]
          by (intro exI [of _ "lit ''sink''"] exI [of _ "lit ''quiet_held''"]) simp
      next
        case False
        then have d: "dispatch_actor cfg env now e0 (a, sev0) st = send_now env now a e sev st"
          unfolding eq using del High by (simp only: if_True if_False not_True_eq_False not_False_eq_True simp_thms)
        have p: "pushable cfg env now (rt_store st) a e sev"
          using False del High unfolding pushable_def dem_def by blast
        have "en_success_status env \<noteq> lit ''failed''" using assms(2) by simp
        from send_now_step [OF assms(1) this, of now a e sev] show ?thesis
        proof
          assume "step_result env now a e sev st (lit ''sink'') (en_success_status env) (send_now env now a e sev st)"
          then show ?thesis unfolding d using p
            by (intro exI [of _ "lit ''sink''"] exI [of _ "en_success_status env"] conjI impI) simp_all
        next
          assume "step_result env now a e sev st (lit ''sink'') (lit ''failed'') (send_now env now a e sev st)"
          then show ?thesis unfolding d using p
            by (intro exI [of _ "lit ''sink''"] exI [of _ "lit ''failed''"] conjI impI) simp_all
        qed
      qed
    qed
  qed
qed

text \<open>A later state of the store: the same events, the log longer.\<close>

definition extends :: "event_store \<Rightarrow> event_store \<Rightarrow> log_row list \<Rightarrow> bool" where
  "extends s s' rows \<longleftrightarrow> es_events s' = es_events s \<and> es_fault s' = None \<and> es_log s' = es_log s @ rows"

text \<open>A message that was sent: to whom, which view of the event, and that nothing stood against it.\<close>

definition pushed_ok ::
    "router_config \<Rightarrow> router_env \<Rightarrow> instant \<Rightarrow> event_store \<Rightarrow> market_event \<Rightarrow> (actor \<times> severity) list \<Rightarrow>
     actor \<times> market_event \<times> rstr \<Rightarrow> bool" where
  "pushed_ok cfg env now s e0 hits x \<longleftrightarrow> (case x of (a, e, body) \<Rightarrow>
     (\<exists>sev0 rows s'. (a, sev0) \<in> set hits \<and> e = fst (actor_view cfg env e0 a sev0) \<and>
        snd (actor_view cfg env e0 a sev0) = High \<and> body = message_body env a e \<and> extends s s' rows \<and>
        pushable cfg env now s' a e High))"

lemma extends_refl: "es_fault s = None \<Longrightarrow> extends s s []"
  by (simp add: extends_def)

lemma extends_trans: "extends s s' rows \<Longrightarrow> extends s' s'' rows' \<Longrightarrow> extends s s'' (rows @ rows')"
  by (simp add: extends_def)

lemma pushed_ok_mono:
  assumes "pushed_ok cfg env now s' e0 hits x" "extends s s' rows"
  shows "pushed_ok cfg env now s e0 (h # hits) x"
  using assms extends_trans by (fastforce simp: pushed_ok_def)

lemma pushed_ok_weaken:
  assumes "pushed_ok cfg env now s e0 [h] x"
  shows "pushed_ok cfg env now s e0 (h # hits) x"
  using assms by (fastforce simp: pushed_ok_def)

text \<open>The rows of a dispatch: one per hit, in the order of the hits.\<close>

definition accounted ::
    "router_env \<Rightarrow> instant \<Rightarrow> market_event \<Rightarrow> (actor \<times> severity) list \<Rightarrow> log_row list \<Rightarrow> nat \<Rightarrow> nat \<Rightarrow> bool" where
  "accounted env now e hits rows n m \<longleftrightarrow>
     map dl_actor rows = map (actor_key \<circ> fst) hits
     \<and> list_all (\<lambda>d. dl_event_id d = ev_id e \<and> dl_sent_at_ts d = timestamp now) rows
     \<and> n = length (filter (sent_step env) rows) \<and> m = length (filter queued_step rows)"

lemma actor_step_accounted:
  assumes "es_fault (rt_store st) = None" "en_success_status env \<notin> {lit ''failed'', lit ''quiet_held''}"
    "dispatch_actor cfg env now e0 hit st = (st', n, m)"
  shows "\<exists>d new. extends (rt_store st) (rt_store st') [d] \<and> accounted env now e0 [hit] [d] n m \<and>
    rt_sent st' = rt_sent st @ new \<and> length new = n \<and>
    list_all (pushed_ok cfg env now (rt_store st) e0 [hit]) new"
proof -
  obtain a sev0 where h: "hit = (a, sev0)" by (cases hit)
  define e where "e = fst (actor_view cfg env e0 a sev0)"
  define sev where "sev = snd (actor_view cfg env e0 a sev0)"
  have i: "ev_id e = ev_id e0" using actor_view_same same_but_severity_fields(1) unfolding e_def by blast
  obtain channel status where r: "step_result env now a e sev st channel status (st', n, m)"
    "channel = lit ''sink'' \<and> status = en_success_status env \<longrightarrow> pushable cfg env now (rt_store st) a e sev"
    using dispatch_actor_step [OF assms(1,2) e_def sev_def, of now] assms(3) unfolding h by auto
  then obtain b where b: "rt_store st' = logged (new_row st now e (actor_key a) channel sev status b) (rt_store st)"
    "n = (if channel = lit ''sink'' \<and> status = en_success_status env then 1 else 0)"
    "m = (if channel = lit ''digest'' \<and> status \<noteq> lit ''failed'' then 1 else 0)"
    "rt_sent st' = rt_sent st @
       (if channel = lit ''sink'' \<and> status = en_success_status env then [(a, e, message_body env a e)] else [])"
    by (auto simp: step_result_def)
  let ?d = "new_row st now e (actor_key a) channel sev status b"
  let ?new = "if channel = lit ''sink'' \<and> status = en_success_status env then [(a, e, message_body env a e)] else []"
  have "extends (rt_store st) (rt_store st') [?d]"
    using assms(1) by (simp add: extends_def b(1))
  moreover have "accounted env now e0 [hit] [?d] n m"
    by (simp add: accounted_def h new_row_def i sent_step_def queued_step_def b(2,3))
  moreover have "list_all (pushed_ok cfg env now (rt_store st) e0 [hit]) ?new"
  proof (cases "channel = lit ''sink'' \<and> status = en_success_status env")
    case True
    then have p: "pushable cfg env now (rt_store st) a e sev" using r(2) by blast
    then have s: "sev = High" by (simp add: pushable_def)
    have "pushed_ok cfg env now (rt_store st) e0 [hit] (a, e, message_body env a e)"
      unfolding pushed_ok_def prod.case
      by (intro exI [of _ sev0] exI [of _ "[]"] exI [of _ "rt_store st"] conjI)
        (use p s extends_refl [OF assms(1)] in \<open>simp_all add: h e_def sev_def\<close>)
    then show ?thesis using True by simp
  qed auto
  ultimately show ?thesis using b(2,4) by (intro exI [of _ ?d] exI [of _ ?new]) simp
qed

lemma actors_accounted:
  assumes "es_fault (rt_store st) = None" "en_success_status env \<notin> {lit ''failed'', lit ''quiet_held''}"
    "dispatch_actors cfg env now e0 hits st = (st', n, m)"
  shows "\<exists>rows new. extends (rt_store st) (rt_store st') rows \<and> accounted env now e0 hits rows n m \<and>
    rt_sent st' = rt_sent st @ new \<and> length new = n \<and>
    list_all (pushed_ok cfg env now (rt_store st) e0 hits) new"
  using assms(1,3)
proof (induction hits arbitrary: st st' n m)
  case Nil
  then show ?case by (auto simp: accounted_def extends_refl intro!: exI [of _ "[]"])
next
  case (Cons hit hits)
  obtain st1 s1 p1 where 1: "dispatch_actor cfg env now e0 hit st = (st1, s1, p1)" by (metis prod_cases3)
  obtain st2 s2 p2 where 2: "dispatch_actors cfg env now e0 hits st1 = (st2, s2, p2)" by (metis prod_cases3)
  have r: "st' = st2" "n = s1 + s2" "m = p1 + p2" using Cons.prems(2) by (simp_all add: 1 2)
  obtain d new1 where d: "extends (rt_store st) (rt_store st1) [d]" "accounted env now e0 [hit] [d] s1 p1"
    "rt_sent st1 = rt_sent st @ new1" "length new1 = s1" "list_all (pushed_ok cfg env now (rt_store st) e0 [hit]) new1"
    using actor_step_accounted [OF Cons.prems(1) assms(2) 1] by blast
  have "es_fault (rt_store st1) = None" using d(1) by (simp add: extends_def)
  then obtain rows new2 where s: "extends (rt_store st1) (rt_store st2) rows" "accounted env now e0 hits rows s2 p2"
    "rt_sent st2 = rt_sent st1 @ new2" "length new2 = s2" "list_all (pushed_ok cfg env now (rt_store st1) e0 hits) new2"
    using Cons.IH [OF _ 2] by blast
  have "list_all (pushed_ok cfg env now (rt_store st) e0 (hit # hits)) (new1 @ new2)"
    using d(5) s(5) pushed_ok_mono [OF _ d(1)] pushed_ok_weaken unfolding list_all_iff set_append by blast
  moreover have "accounted env now e0 (hit # hits) (d # rows) n m"
    using d(2) s(2) by (simp add: accounted_def r)
  moreover have "extends (rt_store st) (rt_store st') (d # rows)"
    using extends_trans [OF d(1) s(1)] by (simp add: r)
  ultimately show ?case using d(3,4) s(3,4)
    by (intro exI [of _ "d # rows"] exI [of _ "new1 @ new2"]) (simp add: r)
qed

text \<open>The event as it is resolved against the subscriptions.\<close>

definition routed_event :: "router_config \<Rightarrow> router_env \<Rightarrow> instant \<Rightarrow> market_event \<Rightarrow> router_state \<Rightarrow> market_event" where
  "routed_event cfg env now e st = apply_system_event_policy cfg now (snd (maybe_upgrade_news cfg (en_serde env) e st))"

lemma routed_event_same: "same_but_severity e (routed_event cfg env now e st)"
  unfolding routed_event_def
  using same_but_severity_trans maybe_upgrade_news_same apply_system_event_policy_same by blast

lemma dispatch_eq:
  assumes "kind_tag (ev_kind e) \<notin> rc_disabled_kinds cfg"
  shows "dispatch cfg env now e st =
    (let st1 = fst (maybe_upgrade_news cfg (en_serde env) e st); routed = routed_event cfg env now e st;
         hits = resolve (en_registry env) routed
     in if hits = [] then
          (log_row_quietly now (ev_id routed) (lit ''event_engine::::no_actor'') (lit ''router'') (ev_severity routed)
             (lit ''no_actor'') None st1, 0, 0)
        else dispatch_actors cfg env now routed hits st1)"
  using assms by (simp add: dispatch_def routed_event_def split_beta Let_def)

lemma dispatch_accounted:
  assumes "es_fault (rt_store st) = None" "en_success_status env \<notin> {lit ''failed'', lit ''quiet_held''}"
    "kind_tag (ev_kind e) \<notin> rc_disabled_kinds cfg" "dispatch cfg env now e st = (st', n, m)"
  defines "hits \<equiv> resolve (en_registry env) (routed_event cfg env now e st)"
  shows "\<exists>rows new. extends (rt_store st) (rt_store st') rows \<and>
    (if hits = [] then map dl_status rows = [lit ''no_actor''] \<and> n = 0 \<and> m = 0 else accounted env now e hits rows n m) \<and>
    rt_sent st' = rt_sent st @ new \<and> length new = n \<and>
    list_all (pushed_ok cfg env now (rt_store st) (routed_event cfg env now e st) hits) new"
proof -
  let ?r = "routed_event cfg env now e st"
  let ?st1 = "fst (maybe_upgrade_news cfg (en_serde env) e st)"
  note fr = maybe_upgrade_news_frame [of cfg "en_serde env" e st]
  have f: "es_fault (rt_store ?st1) = None" using assms(1) by (simp add: fr)
  have i: "ev_id ?r = ev_id e" by (rule same_but_severity_fields(1) [OF routed_event_same])
  show ?thesis
  proof (cases "hits = []")
    case True
    then have "st' = log_row_quietly now (ev_id ?r) (lit ''event_engine::::no_actor'') (lit ''router'') (ev_severity ?r)
        (lit ''no_actor'') None ?st1" "n = 0" "m = 0"
      using assms(4) by (simp_all add: dispatch_eq [OF assms(3)] hits_def Let_def)
    then show ?thesis using True f
      by (auto simp: log_row_quietly_ok extends_def fr new_row_def)
  next
    case False
    then have "dispatch_actors cfg env now ?r hits ?st1 = (st', n, m)"
      using assms(4) by (simp add: dispatch_eq [OF assms(3)] hits_def Let_def)
    from actors_accounted [OF f assms(2) this] show ?thesis
      using False by (simp add: fr accounted_def i)
  qed
qed

subsection \<open>The joined log\<close>

lemma joined_extends:
  assumes "extends s s' rows"
  shows "joined s' = joined s @ List.map_filter (\<lambda>d. map_option (Pair d) (find (\<lambda>r. er_id r = dl_event_id d) (es_events s))) rows"
  using assms by (simp add: joined_def extends_def map_filter_append)

lemma max_of_ge: "x \<in> set xs \<Longrightarrow> \<exists>m. max_of xs = Some m \<and> x \<le> m"
  by (auto simp: max_of_def)

lemma resolve_direct:
  assumes "(a, sev) \<in> set (resolve subs e)"
  shows "is_direct a"
proof -
  have "wf_hits (ev_severity e) (fold (resolve_sub e) subs [])"
    using resolve_wf [of e "[]" subs] by (simp add: wf_hits_def)
  then show ?thesis using assms by (auto simp: resolve_def wf_hits_def)
qed

text \<open>An earlier message of the day about the same symbol and direction, for a band of \<open>b\<close> basis points.\<close>

definition earlier_band ::
    "serde \<Rightarrow> event_store \<Rightarrow> rstr \<Rightarrow> rstr \<Rightarrow> rstr \<Rightarrow> instant \<Rightarrow> int \<Rightarrow> bool" where
  "earlier_band S s key symbol direction since b \<longleftrightarrow>
     (\<exists>d r pattern. (d, r) \<in> set (joined s) \<and> price_band_id_pattern S symbol direction = Some pattern \<and> high_sent key d \<and>
        dl_sent_at_ts d \<ge> timestamp since \<and> like (any_quoted (sd_to_uppercase S symbol)) (er_symbols_json r) \<and>
        like pattern (er_id r) \<and> parse_bps_from_band_id (er_id r) = Some b)"

text \<open>An earlier message about the symbol in the category (and, for a grade, of the firm), sent at \<open>ts\<close>.\<close>

definition earlier_message :: "serde \<Rightarrow> event_store \<Rightarrow> rstr \<Rightarrow> rstr \<Rightarrow> rstr \<Rightarrow> rstr option \<Rightarrow> instant \<Rightarrow> bool" where
  "earlier_message S s key symbol category firm at_time \<longleftrightarrow>
     (\<exists>d r tags. (d, r) \<in> set (joined s) \<and> high_sent key d \<and> at_time = secs (dl_sent_at_ts d) \<and>
        like (any_quoted (sd_to_uppercase S symbol)) (er_symbols_json r) \<and>
        category_kind_tags category = Some tags \<and> kind_in_tags tags r \<and>
        (case firm of None \<Rightarrow> True | Some f \<Rightarrow> sd_json_extract S (er_payload_json r) (lit ''gradingCompany'') = Some f))"

lemma earlier_band_seen:
  assumes "earlier_band S s key symbol direction since b" "extends s s' rows"
  shows "\<exists>m. last_price_band_max_bps_for_symbol_direction S s' key symbol direction since = Inr (Some m) \<and> b \<le> m"
proof -
  obtain d r pattern where d: "(d, r) \<in> set (joined s')" "price_band_id_pattern S symbol direction = Some pattern"
    "high_sent key d" "dl_sent_at_ts d \<ge> timestamp since" "like (any_quoted (sd_to_uppercase S symbol)) (er_symbols_json r)"
    "like pattern (er_id r)" "parse_bps_from_band_id (er_id r) = Some b"
    using assms(1) unfolding earlier_band_def joined_extends [OF assms(2)] by auto
  let ?ids = "map (\<lambda>(d, r). er_id r) (filter (\<lambda>(d, r). high_sent key d \<and> dl_sent_at_ts d \<ge> timestamp since
                    \<and> like (any_quoted (sd_to_uppercase S symbol)) (er_symbols_json r) \<and> like pattern (er_id r)) (joined s'))"
  have "er_id r \<in> set ?ids" using d by force
  then have "b \<in> set (List.map_filter parse_bps_from_band_id ?ids)" using d(7) unfolding set_map_filter by blast
  from max_of_ge [OF this] obtain m where "max_of (List.map_filter parse_bps_from_band_id ?ids) = Some m" "b \<le> m" by blast
  moreover have "es_fault s' = None" using assms(2) by (simp add: extends_def)
  ultimately show ?thesis using d(2)
    by (simp add: last_price_band_max_bps_for_symbol_direction_def Let_def)
qed

lemma category_not_all: "kind_category k \<noteq> lit ''all''"
  by (cases k) simp_all

lemma earlier_message_seen:
  assumes "earlier_message S s key symbol (kind_category k) firm t" "extends s s' rows"
  shows "\<exists>m. last_high_sink_send_for_symbol_category S s' key symbol (kind_category k) firm = Inr (Some m) \<and> t \<le> m"
proof -
  obtain d r tags where d: "(d, r) \<in> set (joined s')" "high_sent key d" "t = secs (dl_sent_at_ts d)"
    "like (any_quoted (sd_to_uppercase S symbol)) (er_symbols_json r)" "category_kind_tags (kind_category k) = Some tags"
    "kind_in_tags tags r"
    "case firm of None \<Rightarrow> True | Some f \<Rightarrow> sd_json_extract S (er_payload_json r) (lit ''gradingCompany'') = Some f"
    using assms(1) unfolding earlier_message_def joined_extends [OF assms(2)] by auto
  let ?ts = "map (\<lambda>(d, r). dl_sent_at_ts d) (filter (\<lambda>(d, r). high_sent key d
      \<and> like (any_quoted (sd_to_uppercase S symbol)) (er_symbols_json r) \<and> kind_in_tags tags r
      \<and> (case firm of None \<Rightarrow> True | Some f \<Rightarrow> sd_json_extract S (er_payload_json r) (lit ''gradingCompany'') = Some f))
      (joined s'))"
  have "dl_sent_at_ts d \<in> set ?ts" using d by force
  from max_of_ge [OF this] obtain m where "max_of ?ts = Some m" "dl_sent_at_ts d \<le> m" by blast
  moreover have "es_fault s' = None" using assms(2) by (simp add: extends_def)
  ultimately show ?thesis using d(3,5) category_not_all [of k]
    by (intro exI [of _ "secs m"])
       (simp add: last_high_sink_send_for_symbol_category_def Let_def secs_def)
qed

lemma demo_ready:
  "es_fault (rt_store demo_router_state) = None" "en_success_status demo_env \<notin> {lit ''failed'', lit ''quiet_held''}"
  by (simp_all add: demo_router_state_def demo_store_def demo_env_def)

section \<open>Properties\<close>

text \<open>C37: with the database available, a dispatch accounts for every actor the event concerns exactly once: it
  appends one log row per hit, in order, for that actor and event (a single row when nobody is concerned,
  none for a disabled kind), the counts it returns are the rows that say sent and queued, and as many
  messages reached the sink as it reports.\<close>

theorem dispatch_accounts:
  assumes "es_fault (rt_store st) = None" "en_success_status env \<notin> {lit ''failed'', lit ''quiet_held''}"
    "dispatch cfg env now e st = (st', n, m)"
  shows "if kind_tag (ev_kind e) \<in> rc_disabled_kinds cfg then st' = st \<and> n = 0 \<and> m = 0
    else \<exists>rows. extends (rt_store st) (rt_store st') rows \<and> length (rt_sent st') = length (rt_sent st) + n \<and>
      (let hits = resolve (en_registry env) (routed_event cfg env now e st) in
       if hits = [] then map dl_status rows = [lit ''no_actor''] \<and> n = 0 \<and> m = 0
       else accounted env now e hits rows n m)"
proof (cases "kind_tag (ev_kind e) \<in> rc_disabled_kinds cfg")
  case True
  then show ?thesis using assms(3) by (simp add: dispatch_def)
next
  case False
  from dispatch_accounted [OF assms(1,2) False assms(3)] show ?thesis
    using False by (auto simp: Let_def)
qed

theorem dispatch_accounts_witness:
  "\<exists>st' n m rows. dispatch router_new demo_env 0 demo_event demo_router_state = (st', n, m) \<and>
     extends demo_store (rt_store st') rows \<and> length (rt_sent st') = n"
proof -
  obtain st' n m where d: "dispatch router_new demo_env 0 demo_event demo_router_state = (st', n, m)" by (metis prod_cases3)
  have "kind_tag (ev_kind demo_event) \<notin> rc_disabled_kinds router_new" by (simp add: router_new_def)
  with dispatch_accounts [OF demo_ready d] d show ?thesis by (auto simp: demo_router_state_def)
qed

text \<open>C16: a message is only ever sent to a direct actor whose preferences let the event through, never for a
  disabled kind, never in the actor's quiet hours unless the kind is exempt, in quiet mode only for the
  hard signals, for a closing price only when that is enabled; it carries the rendered event.\<close>

theorem push_respects_preferences:
  assumes "es_fault (rt_store st) = None" "en_success_status env \<notin> {lit ''failed'', lit ''quiet_held''}"
    "dispatch cfg env now e st = (st', n, m)"
  shows "\<exists>new. rt_sent st' = rt_sent st @ new \<and> list_all (\<lambda>(a, e', body).
    is_direct a \<and> same_but_severity e e' \<and> kind_tag (ev_kind e) \<notin> rc_disabled_kinds cfg \<and>
    should_deliver (en_prefs env a) e' \<and> \<not> quiet_hours_hold cfg (en_chrono env) now (en_prefs env a) e' \<and>
    (np_quiet_mode (en_prefs env a) \<longrightarrow> quiet_mode_allows_immediate e') \<and>
    (is_price_close_alert e' \<longrightarrow> rc_price_close_direct_enabled cfg) \<and> body = message_body env a e') new"
proof (cases "kind_tag (ev_kind e) \<in> rc_disabled_kinds cfg")
  case True
  then show ?thesis using assms(3) by (simp add: dispatch_def)
next
  case False
  let ?r = "routed_event cfg env now e st"
  obtain new where new: "rt_sent st' = rt_sent st @ new"
    "list_all (pushed_ok cfg env now (rt_store st) ?r (resolve (en_registry env) ?r)) new"
    using dispatch_accounted [OF assms(1,2) False assms(3)] by blast
  have quiet: "np_quiet_mode p \<longrightarrow> quiet_mode_allows_immediate v" "is_price_close_alert v \<longrightarrow> rc_price_close_direct_enabled cfg"
    if "close_demoted cfg v (apply_quiet_mode v sev p) = High" for v sev p
    using that by (auto simp: close_demoted_def apply_quiet_mode_def split: if_splits)
  have view: "\<exists>sev. snd (actor_view cfg env ?r a sev0) =
      close_demoted cfg (fst (actor_view cfg env ?r a sev0)) (apply_quiet_mode (fst (actor_view cfg env ?r a sev0)) sev (en_prefs env a))"
    for a sev0 by (auto simp: actor_view_def Let_def split: option.splits)
  have "case x of (a, e', body) \<Rightarrow> is_direct a \<and> same_but_severity e e' \<and> kind_tag (ev_kind e) \<notin> rc_disabled_kinds cfg \<and>
    should_deliver (en_prefs env a) e' \<and> \<not> quiet_hours_hold cfg (en_chrono env) now (en_prefs env a) e' \<and>
    (np_quiet_mode (en_prefs env a) \<longrightarrow> quiet_mode_allows_immediate e') \<and>
    (is_price_close_alert e' \<longrightarrow> rc_price_close_direct_enabled cfg) \<and> body = message_body env a e'"
    if px: "pushed_ok cfg env now (rt_store st) ?r (resolve (en_registry env) ?r) x" for x
  proof -
    obtain a e' body where xx: "x = (a, e', body)" by (cases x)
    obtain sev0 rows s' where x: "x = (a, e', body)" "(a, sev0) \<in> set (resolve (en_registry env) ?r)"
      "e' = fst (actor_view cfg env ?r a sev0)" "snd (actor_view cfg env ?r a sev0) = High" "body = message_body env a e'"
      "pushable cfg env now s' a e' High"
      using px unfolding xx pushed_ok_def prod.case by blast
    obtain sev where v: "close_demoted cfg e' (apply_quiet_mode e' sev (en_prefs env a)) = High"
      using view [of a sev0] x(3,4) by metis
    have "same_but_severity e e'"
      using same_but_severity_trans [OF routed_event_same actor_view_same] unfolding x(3) by blast
    then show ?thesis
      using False x quiet [OF v] resolve_direct [OF x(2)] by (simp add: pushable_def)
  qed
  then show ?thesis using new by (auto simp: list_all_iff)
qed

theorem push_respects_preferences_witness:
  "\<exists>st' n m. dispatch router_new demo_env 0 demo_event demo_router_state = (st', n, m) \<and>
     list_all (\<lambda>(a, e', body). is_direct a \<and> same_but_severity demo_event e') (rt_sent st')"
proof -
  obtain st' n m where d: "dispatch router_new demo_env 0 demo_event demo_router_state = (st', n, m)" by (metis prod_cases3)
  from push_respects_preferences [OF demo_ready d] d show ?thesis
    by (auto simp: demo_router_state_def list_all_iff)
qed

text \<open>C17: what is pushed at once keeps its distance. A price band is sent only if it lies at least the configured advance above
  every band of the same symbol and direction sent to that actor since the start of the day; with a cooldown, an event that is
  no price band is sent only if no High message about one of its symbols in the same category (for a grade: of the same firm)
  was sent to that actor within the cooldown. Messages of different categories about one symbol do not hold each other
  back, although the configuration says so.\<close>

theorem push_keeps_distance:
  assumes "es_fault (rt_store st) = None" "en_success_status env \<notin> {lit ''failed'', lit ''quiet_held''}"
    "dispatch cfg env now e st = (st', n, m)"
  shows "\<exists>new. rt_sent st' = rt_sent st @ new \<and> list_all (\<lambda>(a, e', body).
    (rc_price_band_min_advance_pct cfg > 0 \<longrightarrow>
      (\<forall>symbol direction cur b. price_alert_symbol_direction e = Some (symbol, direction) \<longrightarrow>
         get_i64 (ev_payload e) (lit ''hone_price_band_bps'') = Some cur \<longrightarrow>
         earlier_band (en_serde env) (rt_store st) (actor_key a) symbol direction
            (local_day_start now (rc_tz_offset_hours cfg)) b \<longrightarrow>
         b + min_advance_bps (rc_price_band_min_advance_pct cfg) \<le> cur)) \<and>
    (rc_same_symbol_cooldown_minutes cfg > 0 \<longrightarrow> \<not> is_intraday_price_band_alert e \<longrightarrow>
      (\<forall>s t. s \<in> set (ev_symbols e) \<longrightarrow>
         earlier_message (en_serde env) (rt_store st) (actor_key a) s (event_category e)
            (if ev_kind e = AnalystGrade then get_str (ev_payload e) (lit ''gradingCompany'') else None) t \<longrightarrow>
         t < cooldown_cutoff cfg now))) new"
proof (cases "kind_tag (ev_kind e) \<in> rc_disabled_kinds cfg")
  case True
  then show ?thesis using assms(3) by (simp add: dispatch_def)
next
  case False
  let ?r = "routed_event cfg env now e st"
  let ?S = "en_serde env"
  let ?firm = "if ev_kind e = AnalystGrade then get_str (ev_payload e) (lit ''gradingCompany'') else None"
  obtain new where new: "rt_sent st' = rt_sent st @ new"
    "list_all (pushed_ok cfg env now (rt_store st) ?r (resolve (en_registry env) ?r)) new"
    using dispatch_accounted [OF assms(1,2) False assms(3)] by blast
  have dist: "(rc_price_band_min_advance_pct cfg > 0 \<longrightarrow>
        price_alert_symbol_direction e = Some (symbol, direction) \<longrightarrow>
        get_i64 (ev_payload e) (lit ''hone_price_band_bps'') = Some cur \<longrightarrow>
        earlier_band ?S (rt_store st) (actor_key a) symbol direction (local_day_start now (rc_tz_offset_hours cfg)) b \<longrightarrow>
        b + min_advance_bps (rc_price_band_min_advance_pct cfg) \<le> cur) \<and>
      (rc_same_symbol_cooldown_minutes cfg > 0 \<longrightarrow> \<not> is_intraday_price_band_alert e \<longrightarrow> s \<in> set (ev_symbols e) \<longrightarrow>
        earlier_message ?S (rt_store st) (actor_key a) s (event_category e) ?firm t \<longrightarrow> t < cooldown_cutoff cfg now)"
    if px: "pushed_ok cfg env now (rt_store st) ?r (resolve (en_registry env) ?r) (a, e', body)"
    for a e' body symbol direction cur b s t
  proof -
    obtain sev0 rows s' where x: "e' = fst (actor_view cfg env ?r a sev0)" "extends (rt_store st) s' rows"
      "pushable cfg env now s' a e' High"
      using px unfolding pushed_ok_def prod.case by blast
    have "same_but_severity e e'"
      using same_but_severity_trans [OF routed_event_same actor_view_same] unfolding x(1) by blast
    note f = same_but_severity_fields [OF this]
    have nb: "\<not> demoted_by_price_advance cfg ?S now s' (actor_key a) e' High"
      and nc: "\<not> demoted_by_cooldown cfg ?S now s' (actor_key a) e' High"
      using x(3) by (auto simp: pushable_def demotion_of_def split: if_splits)
    have same: "is_intraday_price_band_alert e' = is_intraday_price_band_alert e"
      "price_alert_symbol_direction e' = price_alert_symbol_direction e" "event_category e' = event_category e"
      unfolding is_intraday_price_band_alert_def price_alert_symbol_direction_def event_category_def f by (rule refl)+
    have band: "b + min_advance_bps (rc_price_band_min_advance_pct cfg) \<le> cur"
      if h: "rc_price_band_min_advance_pct cfg > 0" "price_alert_symbol_direction e = Some (symbol, direction)"
        "get_i64 (ev_payload e) (lit ''hone_price_band_bps'') = Some cur"
        "earlier_band ?S (rt_store st) (actor_key a) symbol direction (local_day_start now (rc_tz_offset_hours cfg)) b"
    proof -
      have "is_intraday_price_band_alert e" using h(2) by (simp add: price_alert_symbol_direction_def split: if_splits)
      moreover obtain mx where "last_price_band_max_bps_for_symbol_direction ?S s' (actor_key a) symbol direction
          (local_day_start now (rc_tz_offset_hours cfg)) = Inr (Some mx)" "b \<le> mx"
        using earlier_band_seen [OF h(4) x(2)] by blast
      ultimately show ?thesis using nb h(1-3) by (simp add: demoted_by_price_advance_def same f)
    qed
    have cool: "t < cooldown_cutoff cfg now"
      if h: "rc_same_symbol_cooldown_minutes cfg > 0" "\<not> is_intraday_price_band_alert e" "s \<in> set (ev_symbols e)"
        "earlier_message ?S (rt_store st) (actor_key a) s (event_category e) ?firm t"
    proof -
      obtain mx where mx: "last_high_sink_send_for_symbol_category ?S s' (actor_key a) s (event_category e) ?firm = Inr (Some mx)"
        "t \<le> mx"
        using earlier_message_seen [OF h(4) [unfolded event_category_def] x(2)] unfolding event_category_def by blast
      have "\<not> mx \<ge> cooldown_cutoff cfg now"
      proof
        assume "mx \<ge> cooldown_cutoff cfg now"
        then have "\<exists>s \<in> set (ev_symbols e). (case last_high_sink_send_for_symbol_category ?S s' (actor_key a) s (event_category e) ?firm of
              Inr (Some ts) \<Rightarrow> ts \<ge> cooldown_cutoff cfg now | _ \<Rightarrow> False)"
          using h(3) mx(1) by (intro bexI [of _ s]) simp_all
        moreover have "ev_symbols e \<noteq> []" using h(3) by auto
        ultimately show False using nc h(1,2) unfolding demoted_by_cooldown_def Let_def same f by argo
      qed
      then show ?thesis using mx(2) by linarith
    qed
    show ?thesis using band cool by blast
  qed
  have "list_all (\<lambda>(a, e', body).
    (rc_price_band_min_advance_pct cfg > 0 \<longrightarrow>
      (\<forall>symbol direction cur b. price_alert_symbol_direction e = Some (symbol, direction) \<longrightarrow>
         get_i64 (ev_payload e) (lit ''hone_price_band_bps'') = Some cur \<longrightarrow>
         earlier_band ?S (rt_store st) (actor_key a) symbol direction (local_day_start now (rc_tz_offset_hours cfg)) b \<longrightarrow>
         b + min_advance_bps (rc_price_band_min_advance_pct cfg) \<le> cur)) \<and>
    (rc_same_symbol_cooldown_minutes cfg > 0 \<longrightarrow> \<not> is_intraday_price_band_alert e \<longrightarrow>
      (\<forall>s t. s \<in> set (ev_symbols e) \<longrightarrow>
         earlier_message ?S (rt_store st) (actor_key a) s (event_category e) ?firm t \<longrightarrow> t < cooldown_cutoff cfg now))) new"
    unfolding list_all_iff
  proof (rule ballI)
    fix x assume "x \<in> set new"
    then have "pushed_ok cfg env now (rt_store st) ?r (resolve (en_registry env) ?r) x" using new(2) by (simp add: list_all_iff)
    then show "case x of (a, e', body) \<Rightarrow>
    (rc_price_band_min_advance_pct cfg > 0 \<longrightarrow>
      (\<forall>symbol direction cur b. price_alert_symbol_direction e = Some (symbol, direction) \<longrightarrow>
         get_i64 (ev_payload e) (lit ''hone_price_band_bps'') = Some cur \<longrightarrow>
         earlier_band ?S (rt_store st) (actor_key a) symbol direction (local_day_start now (rc_tz_offset_hours cfg)) b \<longrightarrow>
         b + min_advance_bps (rc_price_band_min_advance_pct cfg) \<le> cur)) \<and>
    (rc_same_symbol_cooldown_minutes cfg > 0 \<longrightarrow> \<not> is_intraday_price_band_alert e \<longrightarrow>
      (\<forall>s t. s \<in> set (ev_symbols e) \<longrightarrow>
         earlier_message ?S (rt_store st) (actor_key a) s (event_category e) ?firm t \<longrightarrow> t < cooldown_cutoff cfg now))"
      using dist by (cases x) blast
  qed
  then show ?thesis using new(1) by blast
qed

theorem push_keeps_distance_witness:
  "\<exists>st' n m. dispatch (router_new\<lparr>rc_same_symbol_cooldown_minutes := 30\<rparr>) demo_env 0 demo_event demo_router_state = (st', n, m) \<and>
     list_all (\<lambda>(a, e', body). \<forall>t. earlier_message demo_serde demo_store (actor_key a) (lit ''AAPL'') (lit ''corp_action'') None t \<longrightarrow>
        t < - minutes 30) (rt_sent st')"
proof -
  let ?cfg = "router_new\<lparr>rc_same_symbol_cooldown_minutes := 30\<rparr>"
  obtain st' n m where d: "dispatch ?cfg demo_env 0 demo_event demo_router_state = (st', n, m)" by (metis prod_cases3)
  have e: "\<not> is_intraday_price_band_alert demo_event" "event_category demo_event = lit ''corp_action''"
    "ev_symbols demo_event = [lit ''AAPL'']" "ev_kind demo_event = Split" "rc_same_symbol_cooldown_minutes ?cfg = 30"
    "en_serde demo_env = demo_serde" "rt_store demo_router_state = demo_store" "rt_sent demo_router_state = []"
    by (simp_all add: is_intraday_price_band_alert_def event_category_def demo_event_def demo_env_def demo_router_state_def)
  from push_keeps_distance [OF demo_ready d] d show ?thesis
    by (auto simp: e cooldown_cutoff_def list_all_iff)
qed

end
