(* ===== verification/Dispatch_Cap.thy ===== *)
theory Dispatch_Cap
  imports Dispatch
begin





section \<open>Lemmas\<close>















section \<open>Properties\<close>





end
