(* ===== verification/Digest_Scheduler.thy ===== *)
theory Digest_Scheduler
  imports Dispatch
begin

text \<open>
  \<^verbatim>\<open>hone-event-engine/src/unified_digest/scheduler.rs\<close>: the minute tick that sends the digests, and the
  countdowns of \<^verbatim>\<open>pollers/earnings.rs\<close> it adds. A tick visits the actors with anything to deliver; at the
  end of an actor's quiet hours it sends what was held, at a digest slot it sends what is buffered, the countdowns
  and the personalised global news. The choice of global news (language models and fetched articles) is the
  parameter \<open>de_personalize\<close>; the order in which a hash set yields the actors is the parameter \<open>de_visit\<close>; what is
  logged but never read back (metrics, audit files) is left out. \<open>ds_sent\<close> records the digests the sink took, with
  the fire key of each.
\<close>

section \<open>Countdowns\<close>

definition countdown_of :: "chrono \<Rightarrow> date \<Rightarrow> market_event \<Rightarrow> market_event option" where
  "countdown_of C today t =
     (if ev_kind t \<noteq> EarningsUpcoming then None
      else
        (let event_date = local_date 0 (ev_occurred_at t); days_until = event_date - today in
         if \<not> (1 \<le> days_until \<and> days_until \<le> 3) then None
         else case ev_symbols t of
                [] \<Rightarrow> None
              | symbol # _ \<Rightarrow>
                  (let date_str = ch_fmt_date C event_date; today_str = ch_fmt_date C today;
                       phrasing = (if days_until = 1 then lit ''tomorrow'' else lit ''in '' @ int_str days_until @ lit '' days'')
                   in Some \<lparr>ev_id = lit ''synth:earnings:'' @ symbol @ lit '':'' @ date_str @ lit '':countdown:'' @ today_str,
                        ev_kind = EarningsUpcoming, ev_severity = Medium, ev_symbols = [symbol],
                        ev_occurred_at = ev_occurred_at t,
                        ev_title = symbol @ lit '' earnings '' @ phrasing @ lit '' ('' @ date_str @ lit '')'',
                        ev_summary = ev_summary t, ev_url = None, ev_source = lit ''digest.synth.earnings_countdown'',
                        ev_payload = ev_payload t\<rparr>)))"

definition synthesize_countdowns :: "chrono \<Rightarrow> market_event list \<Rightarrow> date \<Rightarrow> market_event list" where
  "synthesize_countdowns C teasers today = List.map_filter (countdown_of C today) teasers"

section \<open>State and helpers\<close>

record digest_config =
  uc_default_slots :: "digest_slot list"
  uc_tz_offset_hours :: int
  uc_max_items_per_batch :: nat
  uc_min_gap_minutes :: nat

text \<open>A personalised item is an event and whether the model filed it under the macro floor.\<close>

record digest_env =
  de_router :: router_env
  de_portfolios :: portfolio_disk
  de_personalize :: "instant \<Rightarrow> actor \<Rightarrow> digest_slot \<Rightarrow> (market_event \<times> bool) list"
  de_send_error :: "actor \<Rightarrow> digest_payload \<Rightarrow> rstr \<Rightarrow> rstr option"
  de_visit :: "actor list \<Rightarrow> actor list"

record digest_state =
  ds_store :: event_store
  ds_buffer :: digest_dir
  ds_fired :: "rstr list"
  ds_sent :: "(rstr \<times> actor \<times> market_event list) list"

abbreviation de_chrono :: "digest_env \<Rightarrow> chrono" where
  "de_chrono env \<equiv> en_chrono (de_router env)"

definition put_row :: "instant \<Rightarrow> rstr \<Rightarrow> rstr \<Rightarrow> rstr \<Rightarrow> severity \<Rightarrow> rstr \<Rightarrow> rstr option \<Rightarrow> digest_state \<Rightarrow> digest_state" where
  "put_row now event_id key channel sev status body st =
     st\<lparr>ds_store := settle (ds_store st) (log_delivery now event_id key channel sev status body (ds_store st))\<rparr>"

definition put_items :: "instant \<Rightarrow> rstr \<Rightarrow> rstr \<Rightarrow> rstr \<Rightarrow> market_event list \<Rightarrow> digest_state \<Rightarrow> digest_state" where
  "put_items now key channel status es st =
     fold (\<lambda>e. put_row now (ev_id e) key channel (ev_severity e) status None) es st"

definition log_omitted_digest_items :: "instant \<Rightarrow> rstr \<Rightarrow> market_event list \<Rightarrow> digest_state \<Rightarrow> digest_state" where
  "log_omitted_digest_items now key omitted = put_items now key (lit ''digest_item'') (lit ''omitted'') omitted"

fun tz_date_key :: "chrono \<Rightarrow> effective_tz \<Rightarrow> instant \<Rightarrow> rstr" where
  "tz_date_key C (Iana tz) now = ch_fmt_date C (local_date (tz now) now)"
| "tz_date_key C (Fixed off) now = ch_fmt_date C (local_date off now)"

definition local_date_key :: "chrono \<Rightarrow> instant \<Rightarrow> int \<Rightarrow> rstr" where
  "local_date_key C now offset_hours = ch_fmt_date C (local_date (fixed_offset_hours offset_hours) now)"

definition actor_from_key :: "rstr \<Rightarrow> actor option" where
  "actor_from_key key =
     (case splitn 3 (lit ''::'') key of
        [channel, scope, user_id] \<Rightarrow>
          (if channel = [] \<or> user_id = [] then None
           else case actor_new channel user_id (if scope = [] then None else Some scope) of
                  Inl e \<Rightarrow> None
                | Inr a \<Rightarrow> Some a)
      | _ \<Rightarrow> None)"

definition local_day_start_utc :: "instant \<Rightarrow> int \<Rightarrow> instant" where
  "local_day_start_utc now tz_offset_hours =
     (let off = fixed_offset_hours tz_offset_hours in secs (local_date off now * 86400 - off))"

definition insert_symbol :: "rstr set \<Rightarrow> rstr \<Rightarrow> rstr set" where
  "insert_symbol symbols symbol =
     (let symbol = to_ascii_uppercase (trim symbol) in if symbol \<noteq> [] then insert symbol symbols else symbols)"

definition actor_focus_symbols :: "portfolio_disk \<Rightarrow> actor \<Rightarrow> notification_prefs \<Rightarrow> rstr set" where
  "actor_focus_symbols d a p =
     (let held = (case pf_load d a of
            Inr (Some pf) \<Rightarrow> fold (\<lambda>h ss. case h_underlying h of
                  None \<Rightarrow> insert_symbol ss (h_symbol h)
                | Some u \<Rightarrow> insert_symbol (insert_symbol ss (h_symbol h)) u) (pf_holdings pf) {}
          | _ \<Rightarrow> {});
          theses = (case np_mainline_by_ticker p of None \<Rightarrow> {} | Some m \<Rightarrow> dom m)
      in held \<union> {s. \<exists>t \<in> theses. s = to_ascii_uppercase (trim t) \<and> s \<noteq> []})"

definition global_pick_matches_actor_focus :: "market_event \<Rightarrow> rstr set \<Rightarrow> bool" where
  "global_pick_matches_actor_focus e focus \<longleftrightarrow>
     focus = {} \<or> ev_symbols e = [] \<or> (\<exists>s \<in> set (ev_symbols e). to_ascii_uppercase (trim s) \<in> focus)"

definition mark_as_overnight_recap :: "market_event \<Rightarrow> market_event" where
  "mark_as_overnight_recap e = e\<lparr>ev_title := [127769, 32, 20940, 26216, 26366, 36807, 32, 183, 32] @ ev_title e\<rparr>"

text \<open>Best score first, then latest first; a stable sort.\<close>

definition by_score :: "instant \<Rightarrow> market_event list \<Rightarrow> market_event list" where
  "by_score now es = sort_key (\<lambda>e. - digest_score now e) (sort_key (\<lambda>e. - ev_occurred_at e) es)"

text \<open>Topic memory, then curation: what is kept and everything left out.\<close>

definition curated :: "digest_env \<Rightarrow> instant \<Rightarrow> rstr \<Rightarrow> market_event list \<Rightarrow> digest_state \<Rightarrow> market_event list \<times> market_event list" where
  "curated env now key es st =
     (let memory = suppress_recent_digest_topics_with_omitted (en_serde (de_router env)) (de_chrono env) key es (ds_store st) now;
          curation = curate_digest_events_with_omitted_at (de_chrono env) (dc_kept memory) now
      in (dc_kept curation, dc_omitted memory @ dc_omitted curation))"

text \<open>\<^verbatim>\<open>split_off\<close> past the maximum: what is shown, and the overflow.\<close>

definition capped :: "digest_config \<Rightarrow> market_event list \<Rightarrow> market_event list \<times> market_event list" where
  "capped cfg es =
     (if uc_max_items_per_batch cfg > 0 \<and> length es > uc_max_items_per_batch cfg
      then (take (uc_max_items_per_batch cfg) es, drop (uc_max_items_per_batch cfg) es) else (es, []))"

definition drained :: "digest_env \<Rightarrow> instant \<Rightarrow> actor \<Rightarrow> digest_state \<Rightarrow> digest_state \<times> market_event list" where
  "drained env now a st =
     (case drain_actor (en_buffer (de_router env)) now a (ds_buffer st) of
        Inr (d, es) \<Rightarrow> (st\<lparr>ds_buffer := d\<rparr>, es)
      | Inl err \<Rightarrow> (st, []))"

text \<open>Rendering, sending and the rows of a batch. The row of the batch itself says whether the sink took it; the rows
  of its items are written only then.\<close>

definition send_batch ::
    "digest_env \<Rightarrow> instant \<Rightarrow> rstr \<Rightarrow> actor \<Rightarrow> rstr \<Rightarrow> rstr \<Rightarrow> market_event list \<Rightarrow> nat \<Rightarrow> digest_state \<Rightarrow> digest_state \<times> bool" where
  "send_batch env now fire_key a label batch_id es cap_overflow st =
     (let R = de_router env; C = de_chrono env; S = en_serde R;
          body = render_digest (en_json R) S C now label es cap_overflow (en_format_for R a);
          payload = build_digest_payload S C now label es cap_overflow;
          ok = (de_send_error env a payload body = None);
          status = (if ok then en_success_status R else lit ''failed'');
          st = (if ok then st\<lparr>ds_sent := ds_sent st @ [(fire_key, a, es)]\<rparr> else st);
          st = put_row now batch_id (actor_key a) (lit ''digest'') (ev_severity (hd es)) status (Some body) st
      in if ok then (put_items now (actor_key a) (lit ''digest_item'') status es st, True) else (st, False))"

section \<open>The end of the quiet hours\<close>

text \<open>What was held: what is still fresh as it is, a stale price alert as a recap; anything else stale is dropped.\<close>

definition held_item :: "instant \<Rightarrow> market_event \<Rightarrow> market_event option" where
  "held_item now e =
     (if is_fresh (ev_kind e) (ev_occurred_at e) now then Some e
      else if is_price_alert (ev_kind e) then Some (mark_as_overnight_recap e)
      else None)"

text \<open>Buffered events are added unless an event with their id is there already.\<close>

fun add_unseen :: "rstr list \<Rightarrow> market_event list \<Rightarrow> market_event list" where
  "add_unseen seen [] = []"
| "add_unseen seen (e # es) =
     (if ev_id e \<in> set seen then add_unseen seen es else e # add_unseen (ev_id e # seen) es)"

definition quiet_held_rows :: "digest_env \<Rightarrow> instant \<Rightarrow> actor \<Rightarrow> event_store \<Rightarrow> market_event list" where
  "quiet_held_rows env now a s =
     (case list_quiet_held_since (en_serde (de_router env)) s (actor_key a) (now - hours 12) of
        Inr rows \<Rightarrow> map fst rows
      | Inl err \<Rightarrow> [])"

text \<open>A batch from its events on: curation, the cap, the message and its rows.\<close>

definition flush_batch ::
    "digest_config \<Rightarrow> digest_env \<Rightarrow> instant \<Rightarrow> rstr \<Rightarrow> actor \<Rightarrow> notification_prefs \<Rightarrow> quiet_hours \<Rightarrow> market_event list
      \<Rightarrow> digest_state \<Rightarrow> digest_state \<times> bool" where
  "flush_batch cfg env now fire_key a p qh filtered st =
     (let key = actor_key a; (kept, omitted) = curated env now key (by_score now filtered) st in
      if kept = [] then (log_omitted_digest_items now key omitted st, False)
      else
        let (shown, truncated) = capped cfg kept;
            label = [26216, 38388, 38745, 38899, 21512, 38598, 32, 183, 32] @ qh_to qh;
            date = tz_date_key (de_chrono env)
                     (from_actor_prefs (de_chrono env) (np_timezone p) (uc_tz_offset_hours cfg)) now;
            batch_id = lit ''quiet-flush:'' @ date @ lit ''@'' @ qh_to qh @ lit '':'' @ nat_digits (length shown);
            (st, ok) = send_batch env now fire_key a label batch_id shown (length truncated) st
        in (if ok then log_omitted_digest_items now key (omitted @ truncated) st else st, ok))"

definition flush_events :: "instant \<Rightarrow> market_event list \<Rightarrow> market_event list \<Rightarrow> market_event list" where
  "flush_events now rows buffered =
     (let held = List.map_filter (held_item now) rows in held @ add_unseen (map ev_id held) buffered)"

definition run_quiet_flush ::
    "digest_config \<Rightarrow> digest_env \<Rightarrow> instant \<Rightarrow> rstr \<Rightarrow> actor \<Rightarrow> notification_prefs \<Rightarrow> quiet_hours \<Rightarrow> digest_state
      \<Rightarrow> digest_state \<times> bool" where
  "run_quiet_flush cfg env now fire_key a p qh st =
     (let rows = quiet_held_rows env now a (ds_store st);
          stale = filter (\<lambda>e. held_item now e = None) rows;
          st = put_items now (actor_key a) (lit ''sink'') (lit ''quiet_dropped'') stale st;
          (st, buffered) = drained env now a st;
          events = flush_events now rows buffered;
          filtered = filter (should_deliver p) events
      in if events = [] \<and> stale = [] then (st, False)
         else if filtered = [] then (st, False)
         else flush_batch cfg env now fire_key a p qh filtered st)"

section \<open>A digest slot\<close>

text \<open>A personalised item that does not touch what the actor follows is logged and left out.\<close>

fun focused_items ::
    "instant \<Rightarrow> rstr \<Rightarrow> notification_prefs \<Rightarrow> rstr set \<Rightarrow> (market_event \<times> bool) list \<Rightarrow> digest_state
      \<Rightarrow> digest_state \<times> (market_event \<times> bool) list" where
  "focused_items now key p focus [] st = (st, [])"
| "focused_items now key p focus (x # xs) st =
     (let e = fst x in
      if \<not> should_deliver p e then focused_items now key p focus xs st
      else if \<not> global_pick_matches_actor_focus e focus then
        focused_items now key p focus xs
          (put_row now (ev_id e) key (lit ''global_digest_item'') (ev_severity e) (lit ''filtered_focus'') None st)
      else (let (st, ys) = focused_items now key p focus xs st in (st, x # ys)))"

definition is_floor :: "notification_prefs \<Rightarrow> market_event \<times> bool \<Rightarrow> bool" where
  "is_floor p x \<longleftrightarrow> snd x \<or> classify_floor (fst x) p \<noteq> None"

text \<open>A batch from its events on: the floor first and whole, then what curation keeps of the others.\<close>

definition slot_batch ::
    "digest_config \<Rightarrow> digest_env \<Rightarrow> instant \<Rightarrow> rstr \<Rightarrow> actor \<Rightarrow> notification_prefs \<Rightarrow> digest_slot \<Rightarrow> market_event list
      \<Rightarrow> market_event list \<Rightarrow> market_event list \<Rightarrow> digest_state \<Rightarrow> digest_state \<times> bool" where
  "slot_batch cfg env now fire_key a p slot floor_events other_events picks st =
     (let key = actor_key a;
          (kept, omitted) = curated env now key (by_score now other_events) st;
          merged = by_score now floor_events @ kept
      in if merged = [] then (log_omitted_digest_items now key omitted st, False)
         else
           let (shown, truncated) = capped cfg merged;
               label = unwrap_or ([23450, 26102, 25688, 35201, 32, 183, 32] @ sl_time slot) (sl_label slot);
               date = tz_date_key (de_chrono env)
                        (from_actor_prefs (de_chrono env) (np_timezone p) (uc_tz_offset_hours cfg)) now;
               batch_id = lit ''unified-digest:'' @ date @ lit ''@slot:'' @ sl_id slot @ lit '':''
                            @ nat_digits (length shown);
               (st, ok) = send_batch env now fire_key a label batch_id shown (length truncated) st
           in (if ok then
                 log_omitted_digest_items now key (omitted @ truncated)
                   (put_items now key (lit ''global_digest_item'') (en_success_status (de_router env))
                      (filter (\<lambda>e. ev_id e \<in> ev_id ` set shown) picks) st)
               else st, ok))"

text \<open>The body of a slot, once it fires.\<close>

definition deliver_slot ::
    "digest_config \<Rightarrow> digest_env \<Rightarrow> instant \<Rightarrow> rstr \<Rightarrow> actor \<Rightarrow> notification_prefs \<Rightarrow> digest_slot \<Rightarrow> market_event list
      \<Rightarrow> digest_state \<Rightarrow> digest_state \<times> bool" where
  "deliver_slot cfg env now fire_key a p slot synths st =
     (let key = actor_key a;
          (st, buffered) = drained env now a st;
          synths = (case delivered_event_ids_since (ds_store st) key (local_day_start_utc now (uc_tz_offset_hours cfg)) of
                      Inr seen \<Rightarrow> filter (\<lambda>e. ev_id e \<notin> seen) synths
                    | Inl err \<Rightarrow> synths);
          personalized = de_personalize env now a slot;
          own = map (\<lambda>e. (e, False)) (filter (should_deliver p) (buffered @ synths));
          (st, picks) = focused_items now key p (actor_focus_symbols (de_portfolios env) a p) personalized st;
          floor_events = map fst (filter (is_floor p) (own @ picks));
          other_events = map fst (filter (\<lambda>x. \<not> is_floor p x) (own @ picks))
      in if floor_events = [] \<and> other_events = [] then (st, False)
         else slot_batch cfg env now fire_key a p slot floor_events other_events (map fst personalized) st)"

text \<open>The slots of an actor in turn; the countdowns go to the first that gets as far as its events.\<close>

definition too_soon :: "digest_config \<Rightarrow> instant \<Rightarrow> rstr \<Rightarrow> digest_state \<Rightarrow> bool" where
  "too_soon cfg now key st \<longleftrightarrow> uc_min_gap_minutes cfg > 0 \<and>
     (case last_digest_success_at (ds_store st) key of
        Inr (Some prev) \<Rightarrow> prev \<ge> now - minutes (int (uc_min_gap_minutes cfg))
      | _ \<Rightarrow> False)"

definition slot_fire_key :: "rstr \<Rightarrow> rstr \<Rightarrow> digest_slot \<Rightarrow> rstr" where
  "slot_fire_key key date slot = key @ lit ''::'' @ date @ lit ''@slot:'' @ sl_id slot @ lit ''@'' @ sl_time slot"

fun run_slots ::
    "digest_config \<Rightarrow> digest_env \<Rightarrow> instant \<Rightarrow> actor \<Rightarrow> notification_prefs \<Rightarrow> effective_tz \<Rightarrow> digest_slot list \<Rightarrow> market_event list
      \<Rightarrow> digest_state \<Rightarrow> digest_state \<times> nat" where
  "run_slots cfg env now a p tz [] synths st = (st, 0)"
| "run_slots cfg env now a p tz (slot # slots) synths st =
     (let key = actor_key a; fire_key = slot_fire_key key (tz_date_key (de_chrono env) tz now) slot in
      if \<not> tz_in_window (de_chrono env) tz now (sl_time slot) then run_slots cfg env now a p tz slots synths st
      else if fire_key \<in> set (ds_fired st) then run_slots cfg env now a p tz slots synths st
      else
        let st = st\<lparr>ds_fired := fire_key # ds_fired st\<rparr> in
        if too_soon cfg now key st then run_slots cfg env now a p tz slots synths st
        else
          let (st, ok) = deliver_slot cfg env now fire_key a p slot synths st;
              (st, n) = run_slots cfg env now a p tz slots [] st
          in (st, n + (if ok then 1 else 0)))"

section \<open>A tick\<close>

definition quiet_fire_key :: "rstr \<Rightarrow> rstr \<Rightarrow> quiet_hours \<Rightarrow> rstr" where
  "quiet_fire_key key date qh = key @ lit ''::'' @ date @ lit ''@quiet_flush@'' @ qh_to qh"

definition actor_slots ::
    "digest_config \<Rightarrow> digest_env \<Rightarrow> instant \<Rightarrow> actor \<Rightarrow> notification_prefs \<Rightarrow> effective_tz \<Rightarrow> market_event list \<Rightarrow> digest_state
      \<Rightarrow> digest_state \<times> nat" where
  "actor_slots cfg env now a p tz synths st =
     run_slots cfg env now a p tz (unwrap_or (uc_default_slots cfg) (effective_digest_slots p)) synths st"

definition tick_actor ::
    "digest_config \<Rightarrow> digest_env \<Rightarrow> instant \<Rightarrow> market_event list \<Rightarrow> actor \<Rightarrow> digest_state \<Rightarrow> digest_state \<times> nat" where
  "tick_actor cfg env now synths a st =
     (if \<not> is_direct a then (fst (drained env now a st), 0)
      else
        let p = en_prefs (de_router env) a; C = de_chrono env;
            tz = from_actor_prefs C (np_timezone p) (uc_tz_offset_hours cfg)
        in case np_quiet_hours p of
             None \<Rightarrow> actor_slots cfg env now a p tz synths st
           | Some qh \<Rightarrow>
               if in_quiet_window C tz now (qh_from qh) (qh_to qh) then (st, 0)
               else if at_quiet_to_minute C tz now (qh_to qh) then
                 (let fire_key = quiet_fire_key (actor_key a) (tz_date_key C tz now) qh in
                  if fire_key \<in> set (ds_fired st) then (st, 0)
                  else
                    let (st, ok) = run_quiet_flush cfg env now fire_key a p qh (st\<lparr>ds_fired := fire_key # ds_fired st\<rparr>)
                    in (st, if ok then 1 else 0))
               else actor_slots cfg env now a p tz synths st)"

fun tick_actors ::
    "digest_config \<Rightarrow> digest_env \<Rightarrow> instant \<Rightarrow> (actor \<Rightarrow> market_event list) \<Rightarrow> actor list \<Rightarrow> digest_state \<Rightarrow> digest_state \<times> nat" where
  "tick_actors cfg env now synths [] st = (st, 0)"
| "tick_actors cfg env now synths (a # as) st =
     (let (st, m) = tick_actor cfg env now (synths a) a st; (st, n) = tick_actors cfg env now synths as st
      in (st, m + n))"

text \<open>The countdowns of the upcoming earnings, for each direct actor they concern.\<close>

definition synth_pool :: "digest_config \<Rightarrow> digest_env \<Rightarrow> instant \<Rightarrow> event_store \<Rightarrow> market_event list" where
  "synth_pool cfg env now s =
     (case list_upcoming_earnings (en_serde (de_router env)) s now 4 of
        Inr teasers \<Rightarrow> synthesize_countdowns (de_chrono env) teasers (local_date (fixed_offset_hours (uc_tz_offset_hours cfg)) now)
      | Inl err \<Rightarrow> [])"

definition synths_for :: "digest_env \<Rightarrow> market_event list \<Rightarrow> actor \<Rightarrow> market_event list" where
  "synths_for env pool a = filter (\<lambda>e. is_direct a \<and> a \<in> set (map fst (resolve (en_registry (de_router env)) e))) pool"

definition due_actors :: "digest_env \<Rightarrow> instant \<Rightarrow> market_event list \<Rightarrow> digest_state \<Rightarrow> actor list" where
  "due_actors env now pool st =
     remdups (list_pending_actors (en_buffer (de_router env)) (ds_buffer st)
       @ filter is_direct (concat (map (\<lambda>e. map fst (resolve (en_registry (de_router env)) e)) pool))
       @ filter is_direct (map fst (pf_list_all (de_portfolios env)))
       @ (case list_actors_with_quiet_held_since (ds_store st) (now - hours 12) of
            Inr keys \<Rightarrow> List.map_filter actor_from_key keys
          | Inl err \<Rightarrow> []))"

definition tick_once :: "digest_config \<Rightarrow> digest_env \<Rightarrow> instant \<Rightarrow> digest_state \<Rightarrow> digest_state \<times> nat" where
  "tick_once cfg env now st =
     (let pool = synth_pool cfg env now (ds_store st)
      in tick_actors cfg env now (synths_for env pool) (de_visit env (due_actors env now pool st)) st)"

text \<open>\<^verbatim>\<open>pipeline.rs\<close>: the minute loop forgets what has fired when the date changes.\<close>

record minute_loop =
  ml_state :: digest_state
  ml_last_date :: rstr

definition cron_minute_tick :: "digest_config \<Rightarrow> digest_env \<Rightarrow> instant \<Rightarrow> minute_loop \<Rightarrow> minute_loop" where
  "cron_minute_tick cfg env now l =
     (let today = local_date_key (de_chrono env) now (uc_tz_offset_hours cfg);
          st = (if today \<noteq> ml_last_date l then (ml_state l)\<lparr>ds_fired := []\<rparr> else ml_state l)
      in \<lparr>ml_state = fst (tick_once cfg env now st), ml_last_date = today\<rparr>)"

section \<open>Lemmas\<close>

lemma put_row_frame [simp]:
  "ds_buffer (put_row now i k c sev status b st) = ds_buffer st" "ds_fired (put_row now i k c sev status b st) = ds_fired st"
  "ds_sent (put_row now i k c sev status b st) = ds_sent st"
  by (simp_all add: put_row_def)

lemma put_items_frame [simp]:
  "ds_buffer (put_items now k c status es st) = ds_buffer st" "ds_fired (put_items now k c status es st) = ds_fired st"
  "ds_sent (put_items now k c status es st) = ds_sent st"
  by (induction es arbitrary: st) (simp_all add: put_items_def)

lemma log_omitted_frame [simp]:
  "ds_buffer (log_omitted_digest_items now k es st) = ds_buffer st"
  "ds_fired (log_omitted_digest_items now k es st) = ds_fired st" "ds_sent (log_omitted_digest_items now k es st) = ds_sent st"
  by (simp_all add: log_omitted_digest_items_def)

lemma drained_frame [simp]:
  "ds_store (fst (drained env now a st)) = ds_store st" "ds_fired (fst (drained env now a st)) = ds_fired st"
  "ds_sent (fst (drained env now a st)) = ds_sent st"
  by (simp_all add: drained_def split: sum.split prod.split)

lemma focused_frame [simp]:
  "ds_buffer (fst (focused_items now k p focus xs st)) = ds_buffer st"
  "ds_fired (fst (focused_items now k p focus xs st)) = ds_fired st"
  "ds_sent (fst (focused_items now k p focus xs st)) = ds_sent st"
  by (induction now k p focus xs st rule: focused_items.induct) (auto simp: Let_def split: prod.splits)

lemma focused_deliverable:
  "x \<in> set (snd (focused_items now k p focus xs st)) \<Longrightarrow> should_deliver p (fst x)"
  by (induction now k p focus xs st rule: focused_items.induct) (auto simp: Let_def split: prod.splits if_splits)

lemma set_by_score [simp]: "set (by_score now es) = set es"
  by (simp add: by_score_def)

lemma mset_by_score [simp]: "mset (by_score now es) = mset es"
  by (simp add: by_score_def)

lemma by_score_eq_Nil [simp]: "by_score now es = [] \<longleftrightarrow> es = []"
  using set_by_score [of now es] by (metis set_empty)

lemma curated_partition:
  "mset (fst (curated env now key es st)) + mset (snd (curated env now key es st)) = mset es"
proof -
  let ?m = "suppress_recent_digest_topics_with_omitted (en_serde (de_router env)) (de_chrono env) key es (ds_store st) now"
  have "mset (dc_kept ?m) + mset (dc_omitted ?m) = mset es" by (rule memory_partition)
  then show ?thesis
    using curate_partition [of "de_chrono env" "dc_kept ?m" now]
    by (simp add: curated_def Let_def add.left_commute add.assoc [symmetric]) (metis add.commute add.left_commute)
qed

lemma curated_set:
  "set (fst (curated env now key es st)) \<union> set (snd (curated env now key es st)) = set es"
  using arg_cong [OF curated_partition, of set_mset env now key es st] by simp

lemma capped_split: "fst (capped cfg es) @ snd (capped cfg es) = es"
  by (simp add: capped_def)

lemma capped_bounds:
  "es \<noteq> [] \<Longrightarrow> fst (capped cfg es) \<noteq> []"
  "uc_max_items_per_batch cfg > 0 \<Longrightarrow> length (fst (capped cfg es)) \<le> uc_max_items_per_batch cfg"
  "set (fst (capped cfg es)) \<subseteq> set es"
  by (auto simp: capped_def dest: in_set_takeD)

lemma send_batch_frame [simp]:
  "ds_buffer (fst (send_batch env now k a label batch_id es n st)) = ds_buffer st"
  "ds_fired (fst (send_batch env now k a label batch_id es n st)) = ds_fired st"
  by (simp_all add: send_batch_def Let_def)

lemma send_batch_sent:
  "ds_sent (fst (send_batch env now k a label batch_id es n st)) =
     ds_sent st @ (if snd (send_batch env now k a label batch_id es n st) then [(k, a, es)] else [])"
  by (simp add: send_batch_def Let_def)

text \<open>What one firing may send: nothing, or one batch that is allowed.\<close>

definition batch_ok :: "digest_config \<Rightarrow> notification_prefs \<Rightarrow> market_event list \<Rightarrow> bool" where
  "batch_ok cfg p es \<longleftrightarrow> es \<noteq> [] \<and> (uc_max_items_per_batch cfg > 0 \<longrightarrow> length es \<le> uc_max_items_per_batch cfg)
     \<and> (\<forall>e \<in> set es. should_deliver p e)"

definition sends :: "rstr \<Rightarrow> actor \<Rightarrow> (market_event list \<Rightarrow> bool) \<Rightarrow> digest_state \<Rightarrow> digest_state \<times> bool \<Rightarrow> bool" where
  "sends k a P st r \<longleftrightarrow> ds_fired (fst r) = ds_fired st \<and>
     (if snd r then \<exists>es. P es \<and> ds_sent (fst r) = ds_sent st @ [(k, a, es)] else ds_sent (fst r) = ds_sent st)"

lemma capped_batch_ok:
  assumes "es \<noteq> []" "\<forall>e \<in> set es. should_deliver p e"
  shows "batch_ok cfg p (fst (capped cfg es))"
  using assms capped_bounds(1) [of es cfg] capped_bounds(2,3) [of cfg es] by (auto simp: batch_ok_def)

lemma curated_deliverable:
  assumes "\<forall>e \<in> set es. should_deliver p e"
  shows "\<forall>e \<in> set (fst (curated env now key es st)). should_deliver p e"
  using assms curated_set [of env now key es st] by blast

lemma sends_nothing: "ds_fired st' = ds_fired st \<Longrightarrow> ds_sent st' = ds_sent st \<Longrightarrow> sends k a P st (st', False)"
  by (simp add: sends_def)

lemma sends_batch:
  assumes "P es" "ds_fired st = ds_fired st0" "ds_sent st = ds_sent st0"
    "r = send_batch env now k a label batch_id es n st" "ds_fired st' = ds_fired (fst r)" "ds_sent st' = ds_sent (fst r)"
  shows "sends k a P st0 (st', snd r)"
  using assms by (auto simp: sends_def send_batch_sent)

lemma flush_batch_sends:
  assumes "\<forall>e \<in> set filtered. should_deliver p e" "ds_fired st = ds_fired st0" "ds_sent st = ds_sent st0"
  shows "sends k a (\<lambda>es. batch_ok cfg p es \<and> set es \<subseteq> set filtered) st0 (flush_batch cfg env now k a p qh filtered st)"
proof (cases "fst (curated env now (actor_key a) (by_score now filtered) st) = []")
  case True
  then show ?thesis using assms(2,3) by (simp add: flush_batch_def Let_def split_beta sends_nothing)
next
  case False
  let ?kept = "fst (curated env now (actor_key a) (by_score now filtered) st)"
  have "batch_ok cfg p (fst (capped cfg ?kept))"
    using False assms(1) by (intro capped_batch_ok curated_deliverable) simp_all
  moreover have "set (fst (capped cfg ?kept)) \<subseteq> set filtered"
    using capped_bounds(3) [of cfg ?kept] curated_set [of env now "actor_key a" "by_score now filtered" st] by auto
  ultimately have "batch_ok cfg p (fst (capped cfg ?kept)) \<and> set (fst (capped cfg ?kept)) \<subseteq> set filtered" by (rule conjI)
  then show ?thesis
    using False assms(2,3)
    by (simp only: flush_batch_def Let_def split_beta if_False) (rule sends_batch, assumption+, rule refl, simp_all)
qed

lemma sends_mono: "sends k a P st r \<Longrightarrow> (\<And>es. P es \<Longrightarrow> Q es) \<Longrightarrow> sends k a Q st r"
  by (auto simp: sends_def split: if_splits)

lemma slot_batch_sends:
  assumes "\<forall>e \<in> set floors \<union> set others. should_deliver p e" "ds_fired st = ds_fired st0" "ds_sent st = ds_sent st0"
  shows "sends k a (batch_ok cfg p) st0 (slot_batch cfg env now k a p slot floors others picks st)"
proof (cases "by_score now floors @ fst (curated env now (actor_key a) (by_score now others) st) = []")
  case True
  then show ?thesis using assms(2,3) by (simp add: slot_batch_def Let_def split_beta sends_nothing)
next
  case False
  have "\<forall>e \<in> set (fst (curated env now (actor_key a) (by_score now others) st)). should_deliver p e"
    using assms(1) by (intro curated_deliverable) simp
  then have "batch_ok cfg p (fst (capped cfg (by_score now floors @ fst (curated env now (actor_key a) (by_score now others) st))))"
    using assms(1) False by (intro capped_batch_ok) auto
  then show ?thesis
    using False assms(2,3)
    by (simp only: slot_batch_def Let_def split_beta if_False) (rule sends_batch, assumption+, rule refl, simp_all)
qed

lemma run_quiet_flush_sends:
  "sends k a (\<lambda>es. batch_ok cfg p es \<and> set es \<subseteq> set (flush_events now (quiet_held_rows env now a (ds_store st))
      (snd (drained env now a st)))) st (run_quiet_flush cfg env now k a p qh st)"
proof -
  have d: "snd (drained env now a (put_items now key c s es st)) = snd (drained env now a st)" for key c s es
    by (simp add: drained_def split: sum.split prod.split)
  define events where "events = flush_events now (quiet_held_rows env now a (ds_store st)) (snd (drained env now a st))"
  define st1 where "st1 = fst (drained env now a (put_items now (actor_key a) (lit ''sink'') (lit ''quiet_dropped'')
      (filter (\<lambda>e. held_item now e = None) (quiet_held_rows env now a (ds_store st))) st))"
  have same: "ds_fired st1 = ds_fired st" "ds_sent st1 = ds_sent st" by (simp_all add: st1_def)
  have "sends k a (\<lambda>es. batch_ok cfg p es \<and> set es \<subseteq> set events) st
      (flush_batch cfg env now k a p qh (filter (should_deliver p) events) st1)"
    by (rule sends_mono, rule flush_batch_sends) (auto simp: same)
  then show ?thesis
    unfolding run_quiet_flush_def Let_def split_beta d events_def [symmetric] st1_def [symmetric]
    by (simp add: sends_nothing same)
qed

lemma deliver_slot_sends: "sends k a (batch_ok cfg p) st (deliver_slot cfg env now k a p slot synths st)"
proof -
  have floors: "\<forall>e \<in> set (map fst (filter Q (map (\<lambda>e. (e, False)) (filter (should_deliver p) es) @ picks))) \<union>
        set (map fst (filter (\<lambda>x. \<not> Q x) (map (\<lambda>e. (e, False)) (filter (should_deliver p) es) @ picks))). should_deliver p e"
    if "\<forall>x \<in> set picks. should_deliver p (fst x)" for Q es picks
    using that by auto
  have picks: "\<forall>x \<in> set (snd (focused_items now key p focus xs st)). should_deliver p (fst x)" for key focus xs st
    using focused_deliverable by blast
  show ?thesis
    unfolding deliver_slot_def Let_def split_beta
    by (split if_split, intro conjI impI slot_batch_sends floors picks sends_nothing)
       (simp_all only: focused_frame drained_frame)
qed

text \<open>What a tick adds: fresh fire keys, and allowed digests, each under a fresh key of its own.\<close>

definition fires :: "(rstr \<times> actor \<times> market_event list \<Rightarrow> bool) \<Rightarrow> digest_state \<Rightarrow> digest_state \<Rightarrow> bool" where
  "fires Q st st' \<longleftrightarrow> (\<exists>new ks. ds_sent st' = ds_sent st @ new \<and> ds_fired st' = ks @ ds_fired st \<and> distinct ks \<and>
     set ks \<inter> set (ds_fired st) = {} \<and> distinct (map fst new) \<and> fst ` set new \<subseteq> set ks \<and> (\<forall>x \<in> set new. Q x))"

lemma fires_refl: "ds_sent st' = ds_sent st \<Longrightarrow> ds_fired st' = ds_fired st \<Longrightarrow> fires Q st st'"
  unfolding fires_def by (intro exI [of _ "[]"]) simp

lemma fires_trans:
  assumes "fires Q st st1" "fires Q st1 st2"
  shows "fires Q st st2"
proof -
  obtain new1 ks1 where 1: "ds_sent st1 = ds_sent st @ new1" "ds_fired st1 = ks1 @ ds_fired st" "distinct ks1"
    "set ks1 \<inter> set (ds_fired st) = {}" "distinct (map fst new1)" "fst ` set new1 \<subseteq> set ks1" "\<forall>x \<in> set new1. Q x"
    using assms(1) by (auto simp: fires_def)
  obtain new2 ks2 where 2: "ds_sent st2 = ds_sent st1 @ new2" "ds_fired st2 = ks2 @ ds_fired st1" "distinct ks2"
    "set ks2 \<inter> set (ds_fired st1) = {}" "distinct (map fst new2)" "fst ` set new2 \<subseteq> set ks2" "\<forall>x \<in> set new2. Q x"
    using assms(2) by (auto simp: fires_def)
  have apart: "set ks1 \<inter> set ks2 = {}" using 2(4) 1(2) by auto
  then have "distinct (map fst (new1 @ new2))" using 1(5,6) 2(5,6) by auto
  then show ?thesis
    unfolding fires_def using 1 2 apart by (intro exI [of _ "new1 @ new2"] exI [of _ "ks2 @ ks1"]) auto
qed

lemma fires_once:
  assumes "k \<notin> set (ds_fired st)" "sends k a P (st\<lparr>ds_fired := k # ds_fired st\<rparr>) r" "\<And>es. P es \<Longrightarrow> Q (k, a, es)"
  shows "fires Q st (fst r)"
proof (cases "snd r")
  case True
  then obtain es where "P es" "ds_sent (fst r) = ds_sent st @ [(k, a, es)]" "ds_fired (fst r) = k # ds_fired st"
    using assms(2) by (auto simp: sends_def)
  then show ?thesis unfolding fires_def using assms(1,3) by (intro exI [of _ "[(k, a, es)]"] exI [of _ "[k]"]) simp
next
  case False
  then show ?thesis
    unfolding fires_def using assms(1,2) by (intro exI [of _ "[]"] exI [of _ "[k]"]) (simp add: sends_def)
qed

text \<open>An allowed digest: to a direct actor, of deliverable events, at most the maximum, outside the quiet hours, in the
  minute of one of the actor's slots or at the end of the quiet hours, under the key of that slot and date.\<close>

definition actor_tz :: "digest_config \<Rightarrow> digest_env \<Rightarrow> actor \<Rightarrow> effective_tz" where
  "actor_tz cfg env a = from_actor_prefs (de_chrono env) (np_timezone (en_prefs (de_router env) a)) (uc_tz_offset_hours cfg)"

definition allowed :: "digest_config \<Rightarrow> digest_env \<Rightarrow> instant \<Rightarrow> rstr \<times> actor \<times> market_event list \<Rightarrow> bool" where
  "allowed cfg env now x \<longleftrightarrow> (case x of (k, a, es) \<Rightarrow>
     let p = en_prefs (de_router env) a; C = de_chrono env; tz = actor_tz cfg env a; date = tz_date_key C tz now in
     is_direct a \<and> batch_ok cfg p es \<and>
     (\<forall>qh. np_quiet_hours p = Some qh \<longrightarrow> \<not> in_quiet_window C tz now (qh_from qh) (qh_to qh)) \<and>
     ((\<exists>slot \<in> set (unwrap_or (uc_default_slots cfg) (effective_digest_slots p)).
         tz_in_window C tz now (sl_time slot) \<and> k = slot_fire_key (actor_key a) date slot) \<or>
      (\<exists>qh. np_quiet_hours p = Some qh \<and> at_quiet_to_minute C tz now (qh_to qh) \<and> k = quiet_fire_key (actor_key a) date qh)))"

lemma run_slots_fires:
  assumes "is_direct a" "p = en_prefs (de_router env) a" "tz = actor_tz cfg env a"
    "\<forall>qh. np_quiet_hours p = Some qh \<longrightarrow> \<not> in_quiet_window (de_chrono env) tz now (qh_from qh) (qh_to qh)"
    "set slots \<subseteq> set (unwrap_or (uc_default_slots cfg) (effective_digest_slots p))"
  shows "fires (allowed cfg env now) st (fst (run_slots cfg env now a p tz slots synths st))"
  using assms(5)
proof (induction slots arbitrary: synths st)
  case (Cons slot slots)
  let ?k = "slot_fire_key (actor_key a) (tz_date_key (de_chrono env) tz now) slot"
  let ?st = "st\<lparr>ds_fired := ?k # ds_fired st\<rparr>"
  have IH: "fires (allowed cfg env now) st' (fst (run_slots cfg env now a p tz slots synths' st'))" for synths' st'
    using Cons by simp
  show ?case
  proof (cases "tz_in_window (de_chrono env) tz now (sl_time slot) \<and> ?k \<notin> set (ds_fired st)")
    case True
    have ok: "allowed cfg env now (?k, a, es)" if "batch_ok cfg p es" for es
      using that True assms(1-4) Cons.prems by (auto simp: allowed_def Let_def)
    have fired: "fires (allowed cfg env now) st ?st"
      using fires_once [of ?k st a "\<lambda>_. False" "(?st, False)"] True by (simp add: sends_def)
    have "fires (allowed cfg env now) st (fst (deliver_slot cfg env now ?k a p slot synths ?st))"
      using True ok by (intro fires_once [OF _ deliver_slot_sends]) auto
    then show ?thesis
      using True fires_trans [OF fired IH] fires_trans [OF _ IH] by (simp add: Let_def split_beta)
  next
    case False
    then show ?thesis using IH by (auto simp: Let_def)
  qed
qed (simp add: fires_refl)

lemma tick_actor_fires: "fires (allowed cfg env now) st (fst (tick_actor cfg env now synths a st))"
proof (cases "is_direct a")
  case False
  then show ?thesis by (simp add: tick_actor_def fires_refl)
next
  case direct: True
  define p where "p = en_prefs (de_router env) a"
  define tz where "tz = actor_tz cfg env a"
  have slots: "fires (allowed cfg env now) st (fst (actor_slots cfg env now a p tz synths st))"
    if "\<forall>qh. np_quiet_hours p = Some qh \<longrightarrow> \<not> in_quiet_window (de_chrono env) tz now (qh_from qh) (qh_to qh)"
    unfolding actor_slots_def by (rule run_slots_fires [OF direct p_def tz_def that]) simp
  have flush: "fires (allowed cfg env now) st (fst (run_quiet_flush cfg env now k a p qh (st\<lparr>ds_fired := k # ds_fired st\<rparr>)))"
    if "k \<notin> set (ds_fired st)" "k = quiet_fire_key (actor_key a) (tz_date_key (de_chrono env) tz now) qh"
      "np_quiet_hours p = Some qh" "at_quiet_to_minute (de_chrono env) tz now (qh_to qh)"
      "\<not> in_quiet_window (de_chrono env) tz now (qh_from qh) (qh_to qh)" for k qh
    using that direct by (intro fires_once [OF _ run_quiet_flush_sends]) (auto simp: allowed_def Let_def p_def tz_def)
  have tz: "from_actor_prefs (de_chrono env) (np_timezone p) (uc_tz_offset_hours cfg) = tz"
    by (simp add: tz_def actor_tz_def p_def)
  show ?thesis
    using direct slots flush fires_refl [of st st]
    by (auto simp: tick_actor_def Let_def p_def [symmetric] tz split_beta split: option.split)
qed

lemma tick_actors_fires: "fires (allowed cfg env now) st (fst (tick_actors cfg env now synths as st))"
proof (induction as arbitrary: st)
  case (Cons a as)
  show ?case using fires_trans [OF tick_actor_fires Cons.IH] by (simp add: Let_def split_beta)
qed (simp add: fires_refl)

lemma tick_once_fires: "fires (allowed cfg env now) st (fst (tick_once cfg env now st))"
  unfolding tick_once_def Let_def by (rule tick_actors_fires)

lemma fires_mono:
  assumes "fires Q st st'" "\<And>x. Q x \<Longrightarrow> R x"
  shows "fires R st st'"
proof -
  obtain new ks where n: "ds_sent st' = ds_sent st @ new \<and> ds_fired st' = ks @ ds_fired st \<and> distinct ks \<and>
     set ks \<inter> set (ds_fired st) = {} \<and> distinct (map fst new) \<and> fst ` set new \<subseteq> set ks" "\<forall>x \<in> set new. Q x"
    using assms(1) unfolding fires_def by auto
  have "\<forall>x \<in> set new. R x" using n(2) assms(2) by simp
  with n(1) show ?thesis unfolding fires_def by (intro exI [of _ new] exI [of _ ks] conjI) simp_all
qed

lemma fires_new:
  assumes "fires Q st st'"
  shows "\<exists>new. ds_sent st' = ds_sent st @ new \<and> distinct (map fst new) \<and> fst ` set new \<inter> set (ds_fired st) = {} \<and>
    (\<forall>x \<in> set new. Q x)"
proof -
  obtain new ks where "ds_sent st' = ds_sent st @ new" "distinct (map fst new)" "fst ` set new \<subseteq> set ks"
    "set ks \<inter> set (ds_fired st) = {}" "\<forall>x \<in> set new. Q x"
    using assms by (auto simp: fires_def)
  then show ?thesis by (intro exI [of _ new]) blast
qed

text \<open>Rows appended to the log, by what they say.\<close>

definition row_tag :: "log_row \<Rightarrow> rstr \<times> rstr \<times> rstr \<times> rstr" where
  "row_tag d = (dl_event_id d, dl_actor d, dl_channel d, dl_status d)"

definition adds :: "digest_state \<Rightarrow> digest_state \<Rightarrow> (rstr \<times> rstr \<times> rstr \<times> rstr) list \<Rightarrow> bool" where
  "adds st st' tags \<longleftrightarrow> (\<exists>rows. extends (ds_store st) (ds_store st') rows \<and> map row_tag rows = tags)"

lemma adds_refl: "es_fault (ds_store st) = None \<Longrightarrow> ds_store st' = ds_store st \<Longrightarrow> adds st st' []"
  by (simp add: adds_def extends_refl)

lemma adds_trans: "adds st st1 ts \<Longrightarrow> adds st1 st2 us \<Longrightarrow> adds st st2 (ts @ us)"
  unfolding adds_def using extends_trans by (metis map_append)

lemma adds_fault: "adds st st' ts \<Longrightarrow> es_fault (ds_store st') = None"
  by (auto simp: adds_def extends_def)

lemma adds_cong: "ds_store st' = ds_store st \<Longrightarrow> adds st' st'' ts = adds st st'' ts"
  by (simp add: adds_def)

lemma adds_put_row:
  assumes "es_fault (ds_store st) = None"
  shows "adds st (put_row now i k c sev status b st) [(i, k, c, status)]"
  using assms by (simp add: adds_def extends_def put_row_def settle_def log_delivery_def answer_def row_tag_def)

lemma adds_put_items:
  assumes "es_fault (ds_store st) = None"
  shows "adds st (put_items now k c status es st) (map (\<lambda>e. (ev_id e, k, c, status)) es)"
  using assms
proof (induction es arbitrary: st)
  case Nil
  then show ?case by (simp add: put_items_def adds_refl)
next
  case (Cons e es)
  have r: "adds st (put_row now (ev_id e) k c (ev_severity e) status None st) [(ev_id e, k, c, status)]"
    by (rule adds_put_row [OF Cons.prems])
  from adds_trans [OF r Cons.IH [OF adds_fault [OF r]]] show ?case by (simp add: put_items_def)
qed

lemma adds_log_omitted:
  assumes "es_fault (ds_store st) = None"
  shows "adds st (log_omitted_digest_items now k es st) (map (\<lambda>e. (ev_id e, k, lit ''digest_item'', lit ''omitted'')) es)"
  unfolding log_omitted_digest_items_def by (rule adds_put_items [OF assms])

lemma adds_send_batch:
  assumes "es_fault (ds_store st) = None" "r = send_batch env now fk a label batch_id es n st"
  shows "adds st (fst r) (if snd r
    then (batch_id, actor_key a, lit ''digest'', en_success_status (de_router env)) #
      map (\<lambda>e. (ev_id e, actor_key a, lit ''digest_item'', en_success_status (de_router env))) es
    else [(batch_id, actor_key a, lit ''digest'', lit ''failed'')])"
proof -
  have s: "es_fault (ds_store (st\<lparr>ds_sent := x\<rparr>)) = None" for x using assms(1) by simp
  have row: "adds st (put_row now i k c sev status b (st\<lparr>ds_sent := x\<rparr>)) [(i, k, c, status)]" for i k c sev status b x
    using adds_put_row [OF s, of x] by (simp add: adds_def)
  have items: "adds st (put_items now k c' status' es (put_row now i k c sev status b (st\<lparr>ds_sent := x\<rparr>)))
      ((i, k, c, status) # map (\<lambda>e. (ev_id e, k, c', status')) es)" for i k c sev status b x c' status'
    using adds_trans [OF row adds_put_items [OF adds_fault [OF row]]] by simp
  show ?thesis
    unfolding assms(2) using items adds_put_row [OF assms(1)] by (simp add: send_batch_def Let_def)
qed

text \<open>The rows of one event's batch: shown or left out.\<close>

definition item_logged :: "digest_env \<Rightarrow> actor \<Rightarrow> (rstr \<times> rstr \<times> rstr \<times> rstr) list \<Rightarrow> market_event \<Rightarrow> bool" where
  "item_logged env a ts e \<longleftrightarrow>
     (ev_id e, actor_key a, lit ''digest_item'', en_success_status (de_router env)) \<in> set ts \<or>
     (ev_id e, actor_key a, lit ''digest_item'', lit ''omitted'') \<in> set ts"

text \<open>The end of a batch the sink took: its rows, those of further items, those of what was left out.\<close>

lemma adds_batch_end:
  assumes "es_fault (ds_store st) = None" "r = send_batch env now fk a label batch_id shown n st" "snd r"
    "adds (fst r) st1 us"
  shows "\<exists>ts. adds st (log_omitted_digest_items now (actor_key a) omitted st1) ts \<and>
    (\<forall>e \<in> set shown \<union> set omitted. item_logged env a ts e)"
proof -
  note b = adds_send_batch [OF assms(1,2)]
  note all = adds_trans [OF adds_trans [OF b assms(4)] adds_log_omitted [OF adds_fault [OF assms(4)]]]
  show ?thesis
    by (intro exI conjI, rule all) (use assms(3) in \<open>auto simp: item_logged_def\<close>)
qed

lemma flush_batch_accounts:
  assumes "es_fault (ds_store st) = None" "flush_batch cfg env now fk a p qh filtered st = (st', True)"
  shows "\<exists>ts. adds st st' ts \<and> (\<forall>e \<in> set filtered. item_logged env a ts e)"
proof -
  obtain kept omitted where c: "curated env now (actor_key a) (by_score now filtered) st = (kept, omitted)" by force
  obtain shown truncated where t: "capped cfg kept = (shown, truncated)" by force
  have nonempty: "kept \<noteq> []" using assms(2) c by (auto simp: flush_batch_def)
  define batch_id where "batch_id = lit ''quiet-flush:'' @ tz_date_key (de_chrono env)
      (from_actor_prefs (de_chrono env) (np_timezone p) (uc_tz_offset_hours cfg)) now @ lit ''@'' @ qh_to qh @ lit '':''
      @ nat_digits (length shown)"
  define label where "label = [26216, 38388, 38745, 38899, 21512, 38598, 32, 183, 32] @ qh_to qh"
  define r where "r = send_batch env now fk a label batch_id shown (length truncated) st"
  have "flush_batch cfg env now fk a p qh filtered st =
      (if snd r then log_omitted_digest_items now (actor_key a) (omitted @ truncated) (fst r) else fst r, snd r)"
    using nonempty by (simp add: flush_batch_def c t Let_def split_beta r_def label_def batch_id_def)
  then have r: "snd r" and st': "st' = log_omitted_digest_items now (actor_key a) (omitted @ truncated) (fst r)"
    using assms(2) by auto
  have "set filtered = set kept \<union> set omitted" using curated_set [of env now "actor_key a" "by_score now filtered" st] c by simp
  moreover have "set kept = set shown \<union> set truncated" using arg_cong [OF capped_split [of cfg kept], of set] t by simp
  ultimately have parts: "set filtered = set shown \<union> set (omitted @ truncated)" by auto
  have "adds (fst r) (fst r) []" using adds_fault [OF adds_send_batch [OF assms(1) r_def]] by (simp add: adds_refl)
  from adds_batch_end [OF assms(1) r_def r this, of "omitted @ truncated"] show ?thesis by (simp add: st' parts)
qed

lemma add_unseen_ids: "set seen \<union> ev_id ` set (add_unseen seen es) = set seen \<union> ev_id ` set es"
  by (induction seen es rule: add_unseen.induct) auto

lemma drained_empties:
  "bd_fault (ds_buffer st) = None \<Longrightarrow>
     map_of (bd_files (ds_buffer (fst (drained env now a st)))) (actor_slug (en_buffer (de_router env)) a) = None"
  by (auto simp: drained_def drain_actor_def Let_def delete_conv' split: option.splits)

section \<open>Properties\<close>

text \<open>C18: digests are only sent when they may be. Every digest a tick sends goes to a direct actor, outside the actor's
  quiet hours, in the minute of one of the actor's slots or at the end of the quiet hours, carries at least one
  and at most the configured number of events, and only events the actor's preferences let through.\<close>

theorem digests_only_when_allowed:
  "\<exists>new. ds_sent (fst (tick_once cfg env now st)) = ds_sent st @ new \<and> (\<forall>x \<in> set new. allowed cfg env now x)"
  using fires_new [OF tick_once_fires] by metis

text \<open>A run of the minute loop; the environment (preferences, portfolios, answers) may differ at each tick. Its date is the
  one of the configured offset, and the keys that fired are forgotten when it changes.\<close>

fun tick_run :: "digest_config \<Rightarrow> (digest_env \<times> instant) list \<Rightarrow> minute_loop \<Rightarrow> minute_loop" where
  "tick_run cfg [] l = l"
| "tick_run cfg ((env, now) # ts) l = tick_run cfg ts (cron_minute_tick cfg env now l)"

definition entered :: "rstr \<Rightarrow> minute_loop \<Rightarrow> digest_state" where
  "entered today l = (if today \<noteq> ml_last_date l then (ml_state l)\<lparr>ds_fired := []\<rparr> else ml_state l)"

lemma entered_frame [simp]: "ds_sent (entered today l) = ds_sent (ml_state l)"
  "ml_last_date l = today \<Longrightarrow> entered today l = ml_state l"
  by (simp_all add: entered_def)

lemma tick_run_fires:
  assumes "\<forall>(env, now) \<in> set ts. local_date_key (de_chrono env) now (uc_tz_offset_hours cfg) = today" "ml_last_date l = today"
  shows "fires (\<lambda>x. \<exists>(env, now) \<in> set ts. allowed cfg env now x) (ml_state l) (ml_state (tick_run cfg ts l))"
  using assms
proof (induction ts arbitrary: l)
  case (Cons t ts)
  obtain env now where t: "t = (env, now)" by force
  define l' where "l' = cron_minute_tick cfg env now l"
  have tick: "ml_state l' = fst (tick_once cfg env now (ml_state l))" "ml_last_date l' = today"
    using Cons.prems by (simp_all add: l'_def cron_minute_tick_def t Let_def)
  have "fires (\<lambda>x. \<exists>(env, now) \<in> set (t # ts). allowed cfg env now x) (ml_state l) (ml_state l')"
    unfolding tick(1) by (rule fires_mono [OF tick_once_fires]) (auto simp: t)
  moreover have "fires (\<lambda>x. \<exists>(env, now) \<in> set (t # ts). allowed cfg env now x) (ml_state l') (ml_state (tick_run cfg ts l'))"
    by (rule fires_mono [OF Cons.IH]) (use Cons.prems tick(2) in auto)
  ultimately show ?case using fires_trans by (simp add: t l'_def)
qed (simp add: fires_refl)

lemma tick_run_entered:
  assumes "\<forall>(env, now) \<in> set ts. local_date_key (de_chrono env) now (uc_tz_offset_hours cfg) = today" "ts \<noteq> []"
  shows "tick_run cfg ts l = tick_run cfg ts \<lparr>ml_state = entered today l, ml_last_date = today\<rparr>"
  using assms by (cases ts) (auto simp: cron_minute_tick_def entered_def Let_def)

text \<open>C19: no slot twice on one date of the minute loop. After any earlier ticks, over any ticks on one date of the loop (the
  date at the configured offset, at whose change it forgets what fired), whatever the actors, preferences and answers of
  the sink, no two digests have the same fire key, which names the actor, the actor's local date and the slot (or the end of
  the quiet hours); and when the loop was on that date before, none is sent under a key that fired before.\<close>

theorem digest_once_per_slot:
  assumes "\<forall>(env, now) \<in> set ts. local_date_key (de_chrono env) now (uc_tz_offset_hours cfg) = today"
  shows "\<exists>new. ds_sent (ml_state (tick_run cfg ts l)) = ds_sent (ml_state l) @ new \<and> distinct (map fst new) \<and>
     (ml_last_date l = today \<longrightarrow> fst ` set new \<inter> set (ds_fired (ml_state l)) = {}) \<and>
     (\<forall>x \<in> set new. \<exists>(env, now) \<in> set ts. allowed cfg env now x)"
proof (cases "ts = []")
  case False
  let ?l = "\<lparr>ml_state = entered today l, ml_last_date = today\<rparr>"
  obtain new where "ds_sent (ml_state (tick_run cfg ts ?l)) = ds_sent (entered today l) @ new" "distinct (map fst new)"
    "fst ` set new \<inter> set (ds_fired (entered today l)) = {}" "\<forall>x \<in> set new. \<exists>(env, now) \<in> set ts. allowed cfg env now x"
    using fires_new [OF tick_run_fires [OF assms, of ?l]] by auto
  then show ?thesis using tick_run_entered [OF assms False, of l] by (intro exI [of _ new]) auto
qed auto

text \<open>C20: the morning after. When the digest at the end of the quiet hours is sent, every event of the actor's buffer and
  every event held in the last twelve hours that the preferences let through is in the log as an item of the digest or
  as left out, except that the stale ones among the held (other than price alerts) are in it as dropped; and the buffer is
  empty. What the preferences do not let through leaves no row.\<close>

theorem quiet_flush_accounts:
  assumes "es_fault (ds_store st) = None" "run_quiet_flush cfg env now fk a p qh st = (st', True)"
  shows "let rows = quiet_held_rows env now a (ds_store st); buffered = snd (drained env now a st);
             events = flush_events now rows buffered
    in ev_id ` set events = ev_id ` (set (List.map_filter (held_item now) rows) \<union> set buffered) \<and>
       (bd_fault (ds_buffer st) = None \<longrightarrow>
          map_of (bd_files (ds_buffer st')) (actor_slug (en_buffer (de_router env)) a) = None) \<and>
       (\<exists>ts. adds st st' ts \<and>
         (\<forall>e \<in> set rows. held_item now e = None \<longrightarrow> (ev_id e, actor_key a, lit ''sink'', lit ''quiet_dropped'') \<in> set ts) \<and>
         (\<forall>e \<in> set events. should_deliver p e \<longrightarrow> item_logged env a ts e))"
proof -
  define rows where "rows = quiet_held_rows env now a (ds_store st)"
  define stale where "stale = filter (\<lambda>e. held_item now e = None) rows"
  define st1 where "st1 = put_items now (actor_key a) (lit ''sink'') (lit ''quiet_dropped'') stale st"
  define st2 where "st2 = fst (drained env now a st1)"
  define buffered where "buffered = snd (drained env now a st)"
  define events where "events = flush_events now rows buffered"
  have same: "snd (drained env now a st1) = buffered" "ds_buffer st2 = ds_buffer (fst (drained env now a st))"
    by (auto simp: drained_def st1_def st2_def buffered_def split: sum.split prod.split)
  have run: "flush_batch cfg env now fk a p qh (filter (should_deliver p) events) st2 = (st', True)"
    using assms(2)
    by (auto simp: run_quiet_flush_def Let_def split_beta rows_def [symmetric] stale_def [symmetric] st1_def [symmetric]
        st2_def [symmetric] same(1) events_def [symmetric] split: if_splits)
  have a1: "adds st st1 (map (\<lambda>e. (ev_id e, actor_key a, lit ''sink'', lit ''quiet_dropped'')) stale)"
    unfolding st1_def by (rule adds_put_items [OF assms(1)])
  then have "es_fault (ds_store st2) = None" using adds_fault by (simp add: st2_def)
  then obtain ts where ts: "adds st2 st' ts" "\<forall>e \<in> set (filter (should_deliver p) events). item_logged env a ts e"
    using flush_batch_accounts [OF _ run] by blast
  have a2: "adds st1 st' ts" using ts(1) adds_cong [of st2 st1] by (simp add: st2_def)
  have "\<exists>ts. adds st st' ts \<and>
       (\<forall>e \<in> set rows. held_item now e = None \<longrightarrow> (ev_id e, actor_key a, lit ''sink'', lit ''quiet_dropped'') \<in> set ts) \<and>
       (\<forall>e \<in> set events. should_deliver p e \<longrightarrow> item_logged env a ts e)"
    by (intro exI conjI, rule adds_trans [OF a1 a2]) (use ts(2) in \<open>auto simp: stale_def item_logged_def\<close>)
  moreover have "ev_id ` set events = ev_id ` (set (List.map_filter (held_item now) rows) \<union> set buffered)"
    using add_unseen_ids [of "map ev_id (List.map_filter (held_item now) rows)" buffered]
    by (auto simp: events_def flush_events_def Let_def)
  moreover have "ds_buffer st' = ds_buffer st2"
    using run by (auto simp: flush_batch_def Let_def split_beta split: if_splits)
  ultimately show ?thesis
    using drained_empties [of st env now a] same(2)
    by (simp add: Let_def rows_def [symmetric] buffered_def [symmetric] events_def [symmetric])
qed

text \<open>The best of a sorted list fill the batch.\<close>

lemma capped_best:
  assumes "e \<in> set floors" "e \<notin> set (fst (capped cfg (by_score now floors @ others)))"
  shows "length (fst (capped cfg (by_score now floors @ others))) = uc_max_items_per_batch cfg \<and>
    (\<forall>x \<in> set (fst (capped cfg (by_score now floors @ others))). digest_score now e \<le> digest_score now x)"
proof -
  let ?F = "by_score now floors" and ?n = "uc_max_items_per_batch cfg"
  have cut: "?n > 0" "length (?F @ others) > ?n" "fst (capped cfg (?F @ others)) = take ?n (?F @ others)"
    using assms by (auto simp: capped_def split: if_splits)
  have less: "?n < length ?F" using assms cut(3) by (cases "length ?F \<le> ?n") auto
  then have shown: "fst (capped cfg (?F @ others)) = take ?n ?F" using cut(3) by simp
  have "e \<in> set (take ?n ?F) \<union> set (drop ?n ?F)"
    using assms(1) by (metis append_take_drop_id set_append set_by_score)
  then have rest: "e \<in> set (drop ?n ?F)" using assms(2) shown by simp
  have "sorted (map (\<lambda>x. - digest_score now x) ?F)" by (simp add: by_score_def)
  then have "sorted (map (\<lambda>x. - digest_score now x) (take ?n ?F @ drop ?n ?F))" by simp
  then have "\<forall>x \<in> set (take ?n ?F). digest_score now e \<le> digest_score now x"
    using rest by (simp only: map_append sorted_append) auto
  then show ?thesis using shown less by simp
qed

lemma send_batch_accepted:
  "\<forall>payload body. de_send_error env a payload body = None \<Longrightarrow> snd (send_batch env now fk a label batch_id es n st)"
  by (simp add: send_batch_def Let_def)

lemma slot_batch_floor:
  assumes "\<forall>payload body. de_send_error env a payload body = None" "e \<in> set floors"
    "slot_batch cfg env now fk a p slot floors others picks st = (st', ok)"
  shows "ok \<and> (\<exists>shown. ds_sent st' = ds_sent st @ [(fk, a, shown)] \<and>
    (e \<in> set shown \<or> length shown = uc_max_items_per_batch cfg \<and> (\<forall>x \<in> set shown. digest_score now e \<le> digest_score now x)))"
proof -
  obtain kept omitted where c: "curated env now (actor_key a) (by_score now others) st = (kept, omitted)" by force
  obtain shown truncated where t: "capped cfg (by_score now floors @ kept) = (shown, truncated)" by force
  have "floors \<noteq> []" using assms(2) by auto
  then have "snd (slot_batch cfg env now fk a p slot floors others picks st) \<and>
    ds_sent (fst (slot_batch cfg env now fk a p slot floors others picks st)) = ds_sent st @ [(fk, a, shown)]"
    using send_batch_accepted [OF assms(1)] by (simp add: slot_batch_def c t Let_def split_beta send_batch_sent)
  then show ?thesis using assms(3) capped_best [OF assms(2), of cfg now kept] t by auto
qed

lemma floor_delivered:
  assumes "\<forall>payload body. de_send_error env a payload body = None"
    "e \<in> set (snd (drained env now a st))" "should_deliver p e" "classify_floor e p \<noteq> None"
    "deliver_slot cfg env now fk a p slot synths st = (st', ok)"
  shows "ok \<and> (\<exists>shown. ds_sent st' = ds_sent st @ [(fk, a, shown)] \<and>
    (e \<in> set shown \<or> length shown = uc_max_items_per_batch cfg \<and> (\<forall>x \<in> set shown. digest_score now e \<le> digest_score now x)))"
proof -
  obtain st1 buffered where d: "drained env now a st = (st1, buffered)" by force
  define own where "own = map (\<lambda>e. (e, False)) (filter (should_deliver p) (buffered @
      (case delivered_event_ids_since (ds_store st1) (actor_key a) (local_day_start_utc now (uc_tz_offset_hours cfg)) of
         Inr seen \<Rightarrow> filter (\<lambda>e. ev_id e \<notin> seen) synths | Inl err \<Rightarrow> synths)))"
  obtain st2 picks where f: "focused_items now (actor_key a) p (actor_focus_symbols (de_portfolios env) a p)
      (de_personalize env now a slot) st1 = (st2, picks)" by force
  define floors where "floors = map fst (filter (is_floor p) (own @ picks))"
  define others where "others = map fst (filter (\<lambda>x. \<not> is_floor p x) (own @ picks))"
  have "e \<in> set buffered" using assms(2) d by simp
  then have "(e, False) \<in> set own" using assms(3) by (simp add: own_def)
  moreover have "is_floor p (e, False)" using assms(4) by (simp add: is_floor_def)
  ultimately have mem: "e \<in> set floors" by (force simp: floors_def)
  have "deliver_slot cfg env now fk a p slot synths st = (if floors = [] \<and> others = [] then (st2, False)
      else slot_batch cfg env now fk a p slot floors others (map fst (de_personalize env now a slot)) st2)"
    unfolding deliver_slot_def Let_def d prod.case own_def [symmetric] f floors_def [symmetric] others_def [symmetric]
    by (rule refl)
  moreover have "floors \<noteq> []" using mem by auto
  ultimately have r: "slot_batch cfg env now fk a p slot floors others (map fst (de_personalize env now a slot)) st2 = (st', ok)"
    using assms(5) by simp
  have "ds_sent st1 = ds_sent st" using drained_frame(3) [of env now a st] d by simp
  moreover have "ds_sent st2 = ds_sent st1"
    using focused_frame(3) [of now "actor_key a" p "actor_focus_symbols (de_portfolios env) a p" "de_personalize env now a slot" st1] f
    by simp
  ultimately show ?thesis using slot_batch_floor [OF assms(1) mem r] by simp
qed

text \<open>What must be seen comes first. When the sink takes digests, a buffered event of the floor (every High event,
  macro and countdown entries, the kinds the user wants at once) that the preferences let through is in the
  digest of the slot, unless the whole batch consists of events that score at least as high.\<close>

theorem floor_events_first:
  assumes "\<forall>payload body. de_send_error env a payload body = None"
    "e \<in> set (snd (drained env now a st))" "should_deliver p e" "classify_floor e p \<noteq> None"
    "deliver_slot cfg env now fk a p slot synths st = (st', ok)"
  shows "ok \<and> (\<exists>shown. ds_sent st' = ds_sent st @ [(fk, a, shown)] \<and>
    (e \<in> set shown \<or> length shown = uc_max_items_per_batch cfg \<and> (\<forall>x \<in> set shown. digest_score now e \<le> digest_score now x)))"
  by (rule floor_delivered [OF assms])

text \<open>Long quiet hours lose messages. What was held more than twelve hours before the end of the quiet hours (and
  is not in the buffer) is in no digest of that flush, nor of any later one: the flush looks back twelve hours,
  however long the quiet hours are.\<close>

theorem long_quiet_hours_lose_messages:
  assumes "\<forall>d \<in> set (es_log (ds_store st)). dl_event_id d = i \<longrightarrow> dl_actor d = actor_key a \<longrightarrow> is_quiet_held d \<longrightarrow>
      dl_sent_at_ts d < timestamp (now - hours 12)"
    "i \<notin> ev_id ` set (snd (drained env now a st))" "run_quiet_flush cfg env now fk a p qh st = (st', ok)"
  shows "\<exists>new. ds_sent st' = ds_sent st @ new \<and> (\<forall>(k, b, es) \<in> set new. i \<notin> ev_id ` set es)"
proof -
  define rows where "rows = quiet_held_rows env now a (ds_store st)"
  have "ev_id e \<noteq> i" if row: "e \<in> set rows" for e
  proof -
    obtain d r where dr: "(d, r) \<in> set (joined (ds_store st))" "event_of_row (en_serde (de_router env)) r = Some e"
      and held: "dl_actor d = actor_key a" "is_quiet_held d" "timestamp (now - hours 12) \<le> dl_sent_at_ts d"
      using row by (auto simp: rows_def quiet_held_rows_def list_quiet_held_since_def answer_def Let_def set_map_filter
          split: option.splits sum.splits)
    have "d \<in> set (es_log (ds_store st))" "er_id r = dl_event_id d"
      using dr(1) by (auto simp: joined_def set_map_filter dest: find_SomeD)
    moreover have "ev_id e = er_id r" using dr(2) by (auto simp: event_of_row_def split: option.splits)
    ultimately show ?thesis using assms(1) held by auto
  qed
  moreover have "held_item now e = Some x \<Longrightarrow> ev_id x = ev_id e" for e x
    by (auto simp: held_item_def mark_as_overnight_recap_def split: if_splits)
  ultimately have "i \<notin> ev_id ` set (List.map_filter (held_item now) rows)" by (force simp: set_map_filter)
  then have out: "i \<notin> ev_id ` set (flush_events now rows (snd (drained env now a st)))"
    using assms(2) add_unseen_ids [of "map ev_id (List.map_filter (held_item now) rows)" "snd (drained env now a st)"]
    by (auto simp: flush_events_def Let_def)
  have sent: "sends fk a (\<lambda>es. batch_ok cfg p es \<and> set es \<subseteq> set (flush_events now rows (snd (drained env now a st)))) st (st', ok)"
    using run_quiet_flush_sends [where k = fk and a = a and cfg = cfg and p = p and env = env and now = now and st = st and qh = qh]
    by (simp add: assms(3) rows_def)
  show ?thesis
  proof (cases ok)
    case True
    then obtain es where "set es \<subseteq> set (flush_events now rows (snd (drained env now a st)))" "ds_sent st' = ds_sent st @ [(fk, a, es)]"
      using sent by (auto simp: sends_def)
    then show ?thesis using out by (intro exI [of _ "[(fk, a, es)]"]) auto
  next
    case False
    then show ?thesis using sent by (intro exI [of _ "[]"]) (simp add: sends_def)
  qed
qed

text \<open>C21: a refused digest is lost. When the sink refuses the digest of a slot, nothing is sent, and what was in the
  actor's buffer is not there any more.\<close>

theorem refused_digest_is_lost:
  assumes "\<forall>payload body. de_send_error env a payload body \<noteq> None" "bd_fault (ds_buffer st) = None"
    "deliver_slot cfg env now fk a p slot synths st = (st', ok)"
  shows "\<not> ok \<and> ds_sent st' = ds_sent st \<and>
    map_of (bd_files (ds_buffer st')) (actor_slug (en_buffer (de_router env)) a) = None"
proof -
  have refused: "\<not> snd (send_batch env now fk a label batch_id es n s)" for label batch_id es n s
    using assms(1) by (simp add: send_batch_def Let_def)
  have batch: "\<not> snd (slot_batch cfg env now fk a p slot floors others picks s) \<and>
      ds_buffer (fst (slot_batch cfg env now fk a p slot floors others picks s)) = ds_buffer s" for floors others picks s
    using refused by (simp add: slot_batch_def Let_def split_beta)
  have "\<not> snd (deliver_slot cfg env now fk a p slot synths st) \<and>
      ds_buffer (fst (deliver_slot cfg env now fk a p slot synths st)) = ds_buffer (fst (drained env now a st))"
    using batch unfolding deliver_slot_def Let_def split_beta by (split if_split) (simp only: fst_conv snd_conv focused_frame simp_thms)
  then show ?thesis
    using assms(3) deliver_slot_sends [where k = fk and a = a and cfg = cfg and p = p and env = env and now = now and st = st
        and slot = slot and synths = synths] drained_empties [OF assms(2), of env now a]
    by (auto simp: sends_def split: if_splits)
qed

section \<open>A concrete evening\<close>

definition demo_digest_cfg :: digest_config where
  "demo_digest_cfg = \<lparr>uc_default_slots = [from_legacy_window (lit ''08:30'')], uc_tz_offset_hours = 0,
     uc_max_items_per_batch = 20, uc_min_gap_minutes = 0\<rparr>"

definition demo_digest_env :: "rstr option \<Rightarrow> digest_env" where
  "demo_digest_env err = \<lparr>de_router = demo_env, de_portfolios = \<lparr>d_files = [], d_write_error = None\<rparr>,
     de_personalize = (\<lambda>now a slot. []), de_send_error = (\<lambda>a payload body. err), de_visit = id\<rparr>"

definition demo_queue :: digest_dir where
  "demo_queue = \<lparr>bd_files = [(actor_slug demo_buffer_env demo_actor,
       [Rec \<lparr>br_actor = demo_actor, br_event = demo_event, br_enqueued_at = 0\<rparr>])], bd_flushed = [], bd_fault = None\<rparr>"

definition demo_digest_state :: "event_store \<Rightarrow> digest_dir \<Rightarrow> digest_state" where
  "demo_digest_state s d = \<lparr>ds_store = s, ds_buffer = d, ds_fired = [], ds_sent = []\<rparr>"

lemma demo_digest_simps [simp]:
  "de_router (demo_digest_env err) = demo_env" "de_send_error (demo_digest_env err) a payload body = err"
  "en_buffer demo_env = demo_buffer_env" "be_chrono demo_buffer_env = gregorian" "en_serde demo_env = demo_serde"
  "en_prefs demo_env a = default_prefs" "en_success_status demo_env = lit ''sent''"
  "ds_store (demo_digest_state s d) = s" "ds_buffer (demo_digest_state s d) = d"
  "ds_sent (demo_digest_state s d) = []" "ds_fired (demo_digest_state s d) = []" "es_fault demo_store = None"
  by (simp_all add: demo_digest_env_def demo_env_def demo_buffer_env_def demo_digest_state_def demo_store_def)

lemma demo_drained: "snd (drained (demo_digest_env err) now demo_actor (demo_digest_state s demo_queue)) = [demo_event]"
  by (simp add: drained_def drain_actor_def demo_queue_def Let_def readable_def List.map_filter_simps)

lemma demo_deliverable: "should_deliver default_prefs demo_event" "classify_floor demo_event default_prefs = Some HighSeverity"
  by (simp_all add: should_deliver_def default_prefs_def demo_event_def source_blocked_def classify_floor_def)

lemma demo_joined: "joined demo_store = []"
  by (simp add: joined_def demo_store_def List.map_filter_simps)

lemma demo_curated:
  "ds_store st = demo_store \<Longrightarrow> curated (demo_digest_env err) now key [demo_event] st = ([demo_event], [])"
  by (simp add: curated_def suppress_recent_digest_topics_with_omitted_def list_recent_digest_item_events_def answer_def
      demo_joined List.map_filter_simps curate_digest_events_with_omitted_at_def curate_event_def demo_event_def Let_def)

definition demo_quiet :: quiet_hours where
  "demo_quiet = \<lparr>qh_from = lit ''18:00'', qh_to = lit ''08:00'', qh_exempt_kinds = []\<rparr>"

lemma demo_flush:
  "\<exists>st'. run_quiet_flush demo_digest_cfg (demo_digest_env None) 0 [] demo_actor default_prefs demo_quiet
     (demo_digest_state demo_store demo_queue) = (st', True)"
proof -
  let ?st = "demo_digest_state demo_store demo_queue" and ?env = "demo_digest_env None"
  have rows: "quiet_held_rows ?env 0 demo_actor demo_store = []"
    by (simp add: quiet_held_rows_def list_quiet_held_since_def demo_joined answer_def List.map_filter_simps)
  have "snd (flush_batch demo_digest_cfg ?env 0 [] demo_actor default_prefs demo_quiet [demo_event]
      (fst (drained ?env 0 demo_actor ?st)))"
    using send_batch_accepted [of ?env demo_actor]
    by (simp add: flush_batch_def Let_def split_beta by_score_def demo_curated)
  moreover have "run_quiet_flush demo_digest_cfg ?env 0 [] demo_actor default_prefs demo_quiet ?st =
    flush_batch demo_digest_cfg ?env 0 [] demo_actor default_prefs demo_quiet [demo_event] (fst (drained ?env 0 demo_actor ?st))"
    by (simp add: run_quiet_flush_def Let_def split_beta rows flush_events_def List.map_filter_simps demo_drained
        demo_deliverable put_items_def)
  ultimately show ?thesis by (metis prod.collapse)
qed

theorem quiet_flush_accounts_witness:
  "\<exists>st' ts. run_quiet_flush demo_digest_cfg (demo_digest_env None) 0 [] demo_actor default_prefs demo_quiet
     (demo_digest_state demo_store demo_queue) = (st', True) \<and>
     adds (demo_digest_state demo_store demo_queue) st' ts \<and> item_logged (demo_digest_env None) demo_actor ts demo_event"
proof -
  obtain st' where f: "run_quiet_flush demo_digest_cfg (demo_digest_env None) 0 [] demo_actor default_prefs demo_quiet
      (demo_digest_state demo_store demo_queue) = (st', True)" using demo_flush by blast
  have rows: "quiet_held_rows (demo_digest_env None) 0 demo_actor demo_store = []"
    by (simp add: quiet_held_rows_def list_quiet_held_since_def demo_joined answer_def List.map_filter_simps)
  have "flush_events 0 [] [demo_event] = [demo_event]" by (simp add: flush_events_def List.map_filter_simps)
  then show ?thesis
    using quiet_flush_accounts [OF _ f] f demo_deliverable(1) by (auto simp: Let_def rows demo_drained)
qed

theorem floor_events_first_witness:
  "\<exists>st' shown. deliver_slot demo_digest_cfg (demo_digest_env None) 0 [] demo_actor default_prefs
     (from_legacy_window (lit ''08:30'')) [] (demo_digest_state demo_store demo_queue) = (st', True) \<and>
     ds_sent st' = [([], demo_actor, shown)]"
proof -
  obtain st' ok where d: "deliver_slot demo_digest_cfg (demo_digest_env None) 0 [] demo_actor default_prefs
      (from_legacy_window (lit ''08:30'')) [] (demo_digest_state demo_store demo_queue) = (st', ok)" by force
  have "ok \<and> (\<exists>shown. ds_sent st' = ds_sent (demo_digest_state demo_store demo_queue) @ [([], demo_actor, shown)] \<and>
    (demo_event \<in> set shown \<or> length shown = uc_max_items_per_batch demo_digest_cfg \<and>
       (\<forall>x \<in> set shown. digest_score 0 demo_event \<le> digest_score 0 x)))"
    by (rule floor_events_first [OF _ _ _ _ d]) (simp_all add: demo_drained demo_deliverable)
  then show ?thesis using d by auto
qed

theorem refused_digest_is_lost_witness:
  "\<exists>st'. deliver_slot demo_digest_cfg (demo_digest_env (Some [])) 0 [] demo_actor default_prefs
     (from_legacy_window (lit ''08:30'')) [] (demo_digest_state demo_store demo_queue) = (st', False) \<and>
     ds_sent st' = [] \<and> map_of (bd_files (ds_buffer st')) (actor_slug demo_buffer_env demo_actor) = None"
proof -
  obtain st' ok where d: "deliver_slot demo_digest_cfg (demo_digest_env (Some [])) 0 [] demo_actor default_prefs
      (from_legacy_window (lit ''08:30'')) [] (demo_digest_state demo_store demo_queue) = (st', ok)" by force
  from refused_digest_is_lost [OF _ _ d] show ?thesis using d by (auto simp: demo_queue_def)
qed

text \<open>Quiet from 18:00 to 08:00: an event held at 18:30 is gone at 08:00.\<close>

definition demo_held_store :: event_store where
  "demo_held_store = demo_store\<lparr>es_events := [row_of_event demo_serde 0 demo_event],
     es_log := [\<lparr>dl_id = 1, dl_event_id = ev_id demo_event, dl_actor = actor_key demo_actor, dl_channel = lit ''sink'',
       dl_severity = lit ''high'', dl_sent_at_ts = 66600, dl_status = lit ''quiet_held'', dl_body = None\<rparr>]\<rparr>"

lemma demo_times:
  "ch_parse_hm gregorian (lit ''18:00'') = Some (18, 0)" "ch_parse_hm gregorian (lit ''08:00'') = Some (8, 0)"
  "ch_parse_hm gregorian (lit ''08:30'') = Some (8, 30)"
  using greg_text.parse_hm_fmt [of 18 0] greg_text.parse_hm_fmt [of 8 0] greg_text.parse_hm_fmt [of 8 30]
  by (simp_all add: fmt02_def nat_digits_small nat_digits_step lit_def)

lemma demo_clock:
  "hm_at 0 (secs 66600) = (18, 30)" "hm_at 0 (secs 115200) = (8, 0)" "hm_at 0 (secs 30600) = (8, 30)"
  by (simp_all add: hm_at_def local_hour_def local_minute_def local_secs_def timestamp_def secs_def)

theorem long_quiet_hours_lose_messages_witness:
  "in_quiet_window gregorian (Fixed 0) (secs 66600) (qh_from demo_quiet) (qh_to demo_quiet) \<and>
   at_quiet_to_minute gregorian (Fixed 0) (secs 115200) (qh_to demo_quiet) \<and>
   (\<exists>st' ok new. run_quiet_flush demo_digest_cfg (demo_digest_env None) (secs 115200) [] demo_actor default_prefs demo_quiet
      (demo_digest_state demo_held_store demo_queue\<lparr>ds_buffer := \<lparr>bd_files = [], bd_flushed = [], bd_fault = None\<rparr>\<rparr>) = (st', ok) \<and>
      ds_sent st' = new \<and> (\<forall>(k, b, es) \<in> set new. ev_id demo_event \<notin> ev_id ` set es))"
proof -
  define st where "st = demo_digest_state demo_held_store demo_queue\<lparr>ds_buffer := \<lparr>bd_files = [], bd_flushed = [], bd_fault = None\<rparr>\<rparr>"
  obtain st' ok where f: "run_quiet_flush demo_digest_cfg (demo_digest_env None) (secs 115200) [] demo_actor default_prefs
      demo_quiet st = (st', ok)" by force
  have log: "ds_store st = demo_held_store" "ds_sent st = []" by (simp_all add: st_def demo_digest_state_def)
  have empty: "snd (drained (demo_digest_env None) (secs 115200) demo_actor st) = []"
    by (simp add: st_def drained_def drain_actor_def Let_def)
  have held: "\<forall>d \<in> set (es_log (ds_store st)). dl_event_id d = ev_id demo_event \<longrightarrow> dl_actor d = actor_key demo_actor \<longrightarrow>
      is_quiet_held d \<longrightarrow> dl_sent_at_ts d < timestamp (secs 115200 - hours 12)"
    by (simp add: log demo_held_store_def timestamp_def secs_def hours_def)
  have out: "ev_id demo_event \<notin> ev_id ` set (snd (drained (demo_digest_env None) (secs 115200) demo_actor st))"
    by (simp only: empty list.set image_empty empty_iff not_False_eq_True)
  have "\<exists>new. ds_sent st' = ds_sent st @ new \<and> (\<forall>(k, b, es) \<in> set new. ev_id demo_event \<notin> ev_id ` set es)"
    by (rule long_quiet_hours_lose_messages [OF held out f])
  moreover have "in_quiet_window gregorian (Fixed 0) (secs 66600) (qh_from demo_quiet) (qh_to demo_quiet)"
    "at_quiet_to_minute gregorian (Fixed 0) (secs 115200) (qh_to demo_quiet)"
    using demo_clock demo_times
    by (simp_all add: in_quiet_window_def at_quiet_to_minute_def tz_in_window_def demo_quiet_def)
  ultimately show ?thesis using f log(2) by (auto simp: st_def)
qed

text \<open>At 08:30 the buffered event goes out.\<close>

lemma demo_due: "due_actors (demo_digest_env None) (secs 30600) [] (demo_digest_state demo_store demo_queue) = [demo_actor]"
proof -
  have "list_pending_actors demo_buffer_env demo_queue = [demo_actor]"
    by (simp add: list_pending_actors_def first_buffer_actor_def demo_queue_def List.map_filter_simps)
  moreover have "pf_list_all (de_portfolios (demo_digest_env None)) = []"
    by (simp add: pf_list_all_def demo_digest_env_def List.map_filter_simps)
  moreover have "list_actors_with_quiet_held_since demo_store (secs 30600 - hours 12) = Inr []"
    by (simp add: list_actors_with_quiet_held_since_def answer_def demo_store_def demo_row_def is_quiet_held_def)
  ultimately show ?thesis by (simp add: due_actors_def List.map_filter_simps)
qed

lemma demo_tick:
  "ds_sent (fst (tick_once demo_digest_cfg (demo_digest_env None) (secs 30600) (demo_digest_state demo_store demo_queue))) \<noteq> []"
proof -
  let ?env = "demo_digest_env None" and ?st = "demo_digest_state demo_store demo_queue" and ?cfg = demo_digest_cfg
  let ?slot = "from_legacy_window (lit ''08:30'')"
  have pool: "synth_pool ?cfg ?env (secs 30600) demo_store = []"
    by (simp add: synth_pool_def list_upcoming_earnings_def answer_def demo_store_def List.map_filter_simps
        synthesize_countdowns_def)
  have minute: "tz_in_window gregorian (Fixed 0) (secs 30600) (sl_time ?slot)"
    using demo_clock(3) demo_times(3) by (simp add: tz_in_window_def from_legacy_window_def)
  have tz: "from_actor_prefs gregorian (np_timezone default_prefs) 0 = Fixed 0"
    by (simp add: from_actor_prefs_def default_prefs_def fixed_offset_hours_def east_opt_def)
  define k where "k = slot_fire_key (actor_key demo_actor) (tz_date_key gregorian (Fixed 0) (secs 30600)) ?slot"
  define st1 where "st1 = ?st\<lparr>ds_fired := [k]\<rparr>"
  have buf: "demo_event \<in> set (snd (drained ?env (secs 30600) demo_actor st1))"
    using demo_drained [of None "secs 30600" demo_store] by (simp add: st1_def drained_def split: sum.splits prod.splits)
  obtain st' ok where d: "deliver_slot ?cfg ?env (secs 30600) k demo_actor default_prefs ?slot [] st1 = (st', ok)" by force
  have sent: "ds_sent st' \<noteq> []"
    using floor_delivered [OF _ buf _ _ d] demo_deliverable by auto
  have visit: "de_visit ?env = id" "synths_for ?env [] demo_actor = []" "is_direct demo_actor"
    by (simp_all add: demo_digest_env_def synths_for_def is_direct_def demo_actor_def)
  have prefs: "np_quiet_hours default_prefs = None" "effective_digest_slots default_prefs = None"
    by (simp_all add: default_prefs_def effective_digest_slots_def)
  have slots: "actor_slots ?cfg ?env (secs 30600) demo_actor default_prefs (Fixed 0) [] ?st = (st', if ok then 1 else 0)"
    using d minute by (simp add: actor_slots_def prefs demo_digest_cfg_def Let_def too_soon_def k_def st1_def split_beta)
  have tick: "tick_actor ?cfg ?env (secs 30600) [] demo_actor ?st = (st', if ok then 1 else 0)"
    using slots by (simp add: tick_actor_def visit prefs Let_def tz demo_digest_cfg_def)
  show ?thesis using sent by (simp add: tick_once_def Let_def pool demo_due visit tick)
qed

theorem digests_only_when_allowed_witness:
  "\<exists>x new. ds_sent (fst (tick_once demo_digest_cfg (demo_digest_env None) (secs 30600)
       (demo_digest_state demo_store demo_queue))) = x # new \<and>
     allowed demo_digest_cfg (demo_digest_env None) (secs 30600) x"
  using demo_tick
    digests_only_when_allowed [of demo_digest_cfg "demo_digest_env None" "secs 30600" "demo_digest_state demo_store demo_queue"]
  by (metis append_Nil demo_digest_simps(10) list.exhaust list.set_intros(1))

lemma tick_run_two:
  "\<exists>later. ds_sent (ml_state (tick_run cfg [(env, now), (env', now')] l)) =
     ds_sent (fst (tick_once cfg env now (entered (local_date_key (de_chrono env) now (uc_tz_offset_hours cfg)) l))) @ later"
proof -
  define l1 where "l1 = cron_minute_tick cfg env now l"
  define l2 where "l2 = cron_minute_tick cfg env' now' l1"
  have "tick_run cfg [(env, now), (env', now')] l = l2" by (simp add: l1_def l2_def)
  moreover have "ml_state l1 = fst (tick_once cfg env now (entered (local_date_key (de_chrono env) now (uc_tz_offset_hours cfg)) l))"
    by (simp add: l1_def cron_minute_tick_def entered_def Let_def)
  moreover have "ml_state l2 = fst (tick_once cfg env' now' (entered (local_date_key (de_chrono env') now' (uc_tz_offset_hours cfg)) l1))"
    by (simp add: l2_def cron_minute_tick_def entered_def Let_def)
  ultimately show ?thesis
    using fires_new [OF tick_once_fires [of cfg env' now' "entered (local_date_key (de_chrono env') now' (uc_tz_offset_hours cfg)) l1"]]
    by (metis entered_frame(1))
qed

definition demo_ticks :: "(digest_env \<times> instant) list" where
  "demo_ticks = [(demo_digest_env None, secs 30600), (demo_digest_env None, secs 30630)]"

definition demo_loop :: minute_loop where
  "demo_loop = \<lparr>ml_state = demo_digest_state demo_store demo_queue, ml_last_date = []\<rparr>"

lemma demo_one_date:
  "local_date_key C (secs 30630) (uc_tz_offset_hours demo_digest_cfg) = local_date_key C (secs 30600) (uc_tz_offset_hours demo_digest_cfg)"
  by (simp add: local_date_key_def demo_digest_cfg_def local_date_def local_secs_def timestamp_def secs_def fixed_offset_hours_def
      east_opt_def)

lemma demo_loop_sends: "ds_sent (ml_state (tick_run demo_digest_cfg demo_ticks demo_loop)) \<noteq> []"
proof -
  have "entered d demo_loop = demo_digest_state demo_store demo_queue" for d
    by (simp add: entered_def demo_loop_def demo_digest_state_def)
  then show ?thesis
    using demo_tick tick_run_two [of demo_digest_cfg "demo_digest_env None" "secs 30600" "demo_digest_env None" "secs 30630" demo_loop]
    by (auto simp: demo_ticks_def)
qed

theorem digest_once_per_slot_witness:
  "let sent = ds_sent (ml_state (tick_run demo_digest_cfg demo_ticks demo_loop)) in sent \<noteq> [] \<and> distinct (map fst sent)"
proof -
  define today where "today = local_date_key (de_chrono (demo_digest_env None)) (secs 30600) (uc_tz_offset_hours demo_digest_cfg)"
  have once: "\<forall>(env, now) \<in> set demo_ticks. local_date_key (de_chrono env) now (uc_tz_offset_hours demo_digest_cfg) = today"
    by (simp add: demo_ticks_def today_def demo_one_date)
  have "ds_sent (ml_state demo_loop) = []" by (simp add: demo_loop_def)
  then have "distinct (map fst (ds_sent (ml_state (tick_run demo_digest_cfg demo_ticks demo_loop))))"
    using digest_once_per_slot [OF once, of demo_loop] by auto
  then show ?thesis using demo_loop_sends by (simp add: Let_def)
qed

end
