(* ===== verification/Stream_Formatter.thy ===== *)
theory Stream_Formatter
  imports Rust_Prelude
begin

text \<open>
  \<^verbatim>\<open>crates/hone-channels/src/think.rs\<close>: the formatter that takes a model's answer as it streams in, chunk by chunk,
  and shows or hides its reasoning and tool blocks, and the compaction of blank lines. A chunk may end anywhere, in
  the middle of a tag too; what might become a tag is kept back. Positions in a text are counted in characters
  (the source counts bytes, and only cuts at the tags, which are ASCII).
\<close>

section \<open>Styles and blocks\<close>

datatype think_render_style = Hidden | MarkdownQuote | TelegramHtmlQuote | PlainText

datatype formatter_block = PlainBlock | Think | ToolCode | ToolCall | ToolResult | ToolUse

record think_stream_formatter =
  tf_style :: think_render_style
  tf_pending :: rstr
  tf_block :: formatter_block

definition formatter_new :: "think_render_style \<Rightarrow> think_stream_formatter" where
  "formatter_new style = \<lparr>tf_style = style, tf_pending = [], tf_block = PlainBlock\<rparr>"

definition open_tags :: "(rstr \<times> formatter_block) list" where
  "open_tags = [(lit ''<think>'', Think), (lit ''<tool_code>'', ToolCode), (lit ''<tool_call>'', ToolCall),
     (lit ''<tool_result>'', ToolResult), (lit ''<tool_use>'', ToolUse)]"

text \<open>The tag that ends a block (nothing ends plain text).\<close>

fun close_tag :: "formatter_block \<Rightarrow> rstr" where
  "close_tag PlainBlock = []"
| "close_tag Think = lit ''</think>''"
| "close_tag ToolCode = lit ''</tool_code>''"
| "close_tag ToolCall = lit ''</tool_call>''"
| "close_tag ToolResult = lit ''</tool_result>''"
| "close_tag ToolUse = lit ''</tool_use>''"

section \<open>Blocks as text\<close>

definition render_markdown_quote :: "rstr \<Rightarrow> rstr" where
  "render_markdown_quote text =
     intercalate [10] (map (\<lambda>line. if trim line = [] then lit ''>'' else lit ''> '' @ trim_end line) (str_lines text)) @ [10, 10]"

definition render_telegram_quote :: "rstr \<Rightarrow> rstr" where
  "render_telegram_quote text =
     (if length (str_lines text) > 1 \<or> length text > 120 then lit ''<blockquote expandable>'' else lit ''<blockquote>'')
     @ text @ lit ''</blockquote>'' @ [10, 10]"

definition render_plain_text :: "rstr \<Rightarrow> rstr" where
  "render_plain_text text = [24605, 32771, 65306] @ [10] @ text @ [10, 10]"

definition render_think_block :: "rstr \<Rightarrow> think_render_style \<Rightarrow> rstr" where
  "render_think_block text style =
     (let trimmed = trim text in
      if trimmed = [] then []
      else case style of
             Hidden \<Rightarrow> []
           | MarkdownQuote \<Rightarrow> render_markdown_quote trimmed
           | TelegramHtmlQuote \<Rightarrow> render_telegram_quote trimmed
           | PlainText \<Rightarrow> render_plain_text trimmed)"

subsection \<open>Tool invocations\<close>

record tool_invocation =
  ti_name :: rstr
  ti_parameters :: "(rstr \<times> rstr) list"

text \<open>The text after the first occurrence of a pattern.\<close>

definition after_str :: "rstr \<Rightarrow> rstr \<Rightarrow> rstr option" where
  "after_str p s = map_option snd (split_once p s)"

definition extract_xml_attr :: "rstr \<Rightarrow> rstr \<Rightarrow> rstr option" where
  "extract_xml_attr tag attr =
     Option.bind (after_str (attr @ [61, 34]) tag) (\<lambda>rest.
     Option.bind (split_once [34] rest) (\<lambda>(v, r).
       let value = trim v in if value = [] then None else Some value))"

lemma split_once_shorter: "split_once p s = Some (a, b) \<Longrightarrow> length a + length p + length b = length s"
  by (drule split_once_Some(1)) simp

text \<open>The loops over the parameters and the invocations; the argument is the text from the cursor on.\<close>

function parse_tool_parameters :: "rstr \<Rightarrow> (rstr \<times> rstr) list" where
  "parse_tool_parameters text =
     (case after_str (lit ''<parameter'') text of
        None \<Rightarrow> []
      | Some inside \<Rightarrow>
          (case split_once [62] inside of
             None \<Rightarrow> []
           | Some (attrs, body) \<Rightarrow>
               (let name = unwrap_or (lit ''arg'') (extract_xml_attr (lit ''<parameter'' @ attrs @ [62]) (lit ''name''))
                in case split_once (lit ''</parameter>'') body of
                     None \<Rightarrow> []
                   | Some (v, rest) \<Rightarrow>
                       (if trim v \<noteq> [] then [(name, trim v)] else []) @ parse_tool_parameters rest)))"
  by pat_completeness auto
termination
  by (relation "measure length") (auto simp: after_str_def dest!: split_once_shorter)

function parse_tool_invocations :: "rstr \<Rightarrow> tool_invocation list" where
  "parse_tool_invocations text =
     (case after_str (lit ''<tool'') text of
        None \<Rightarrow> []
      | Some inside \<Rightarrow>
          if starts_with inside (lit ''_code'') then parse_tool_invocations (drop 5 inside)
          else
            (case split_once [62] inside of
               None \<Rightarrow> []
             | Some (attrs, body) \<Rightarrow>
                 (let open_tag = lit ''<tool'' @ attrs @ [62];
                      name = unwrap_or (lit ''tool'') (extract_xml_attr open_tag (lit ''name''))
                  in if ends_with (trim_end open_tag) (lit ''/>'') then
                       \<lparr>ti_name = name, ti_parameters = []\<rparr> # parse_tool_invocations body
                     else
                       (case split_once (lit ''</tool>'') body of
                          None \<Rightarrow> [\<lparr>ti_name = name, ti_parameters = parse_tool_parameters body\<rparr>]
                        | Some (inner, rest) \<Rightarrow>
                            \<lparr>ti_name = name, ti_parameters = parse_tool_parameters inner\<rparr> # parse_tool_invocations rest))))"
  by pat_completeness auto
termination
  by (relation "measure length") (auto simp: after_str_def dest!: split_once_shorter)

declare parse_tool_parameters.simps [simp del] parse_tool_invocations.simps [simp del]

text \<open>The display names of \<^verbatim>\<open>runtime.rs\<close>, and whether a tool's status is shown.\<close>

definition tool_display_map :: "(rstr \<times> rstr \<times> bool) list" where
  "tool_display_map =
     [(lit ''skill_tool'', [25191, 34892, 25216, 33021], False), (lit ''discover_skills'', [26816, 32034, 25216, 33021], False),
      (lit ''load_skill'', [20860, 23481, 21152, 36733, 25216, 33021], False), (lit ''web_search'', [25628, 32034, 20449, 24687], True),
      (lit ''data_fetch'', [33719, 21462, 25968, 25454], True), (lit ''portfolio'', [26597, 35810, 25345, 20179], False),
      (lit ''cron_job'', [31649, 29702, 23450, 26102, 20219, 21153], False), (lit ''image_gen'', [29983, 25104, 22270, 29255], True)]"

definition friendly_tool_name :: "rstr \<Rightarrow> rstr" where
  "friendly_tool_name name =
     (if name = lit ''portfolio_view'' then [26597, 35810, 25345, 20179]
      else case map_of tool_display_map name of Some (display_name, _) \<Rightarrow> display_name | None \<Rightarrow> name)"

definition summarize_inline_value :: "rstr \<Rightarrow> nat \<Rightarrow> rstr" where
  "summarize_inline_value value max_chars =
     (let normalized = intercalate [32] (split_whitespace value)
      in if length normalized \<le> max_chars then normalized else take (max_chars - 1) normalized @ [8230])"

definition summarize_tool_parameters :: "(rstr \<times> rstr) list \<Rightarrow> rstr" where
  "summarize_tool_parameters ps =
     intercalate (lit '', '')
       (map (\<lambda>(name, value). name @ [61] @ summarize_inline_value value 48) (take 2 ps)
        @ (if length ps > 2 then [lit ''...''] else []))"

definition render_tool_line :: "tool_invocation \<Rightarrow> think_render_style \<Rightarrow> rstr" where
  "render_tool_line tool style =
     (let label = friendly_tool_name (ti_name tool); params = summarize_tool_parameters (ti_parameters tool);
          body = [35843, 29992, 24037, 20855, 65306] @ label @ (if params = [] then [] else [65288] @ params @ [65289])
      in case style of
           Hidden \<Rightarrow> []
         | MarkdownQuote \<Rightarrow> lit ''- '' @ body
         | TelegramHtmlQuote \<Rightarrow> lit ''- '' @ body
         | PlainText \<Rightarrow> body)"

definition render_tool_block :: "rstr \<Rightarrow> think_render_style \<Rightarrow> rstr" where
  "render_tool_block text style =
     (let tools = parse_tool_invocations text
      in if tools = [] then [] else intercalate [10] (map (\<lambda>tool. render_tool_line tool style) tools) @ [10, 10])"

text \<open>What a block becomes: calls, results and uses of tools leave nothing.\<close>

fun render_block :: "think_render_style \<Rightarrow> formatter_block \<Rightarrow> rstr \<Rightarrow> rstr" where
  "render_block style PlainBlock text = text"
| "render_block style Think text = render_think_block text style"
| "render_block style ToolCode text = render_tool_block text style"
| "render_block style ToolCall text = []"
| "render_block style ToolResult text = []"
| "render_block style ToolUse text = []"

section \<open>The formatter\<close>

definition find_next_open_tag :: "rstr \<Rightarrow> (rstr \<times> formatter_block) list \<Rightarrow> (nat \<times> formatter_block \<times> nat) option" where
  "find_next_open_tag text tags =
     (case List.map_filter (\<lambda>(tag, b). map_option (\<lambda>i. (i, b, length tag)) (str_find tag text)) tags of
        [] \<Rightarrow> None
      | hits \<Rightarrow> Some (arg_min_list fst hits))"

definition trailing_partial_prefix_len :: "rstr \<Rightarrow> rstr \<Rightarrow> nat" where
  "trailing_partial_prefix_len text marker =
     unwrap_or 0 (find (\<lambda>n. ends_with text (take n marker)) (rev [1..<Suc (min (length text) (length marker - 1))]))"

definition trailing_partial_prefix_len_many :: "rstr \<Rightarrow> rstr list \<Rightarrow> nat" where
  "trailing_partial_prefix_len_many text markers = foldr max (map (trailing_partial_prefix_len text) markers) 0"

text \<open>The loop of \<^verbatim>\<open>push_chunk\<close>: what it renders, and the block and pending text it ends with.\<close>

lemma find_next_open_tag_bound:
  assumes "find_next_open_tag text open_tags = Some (start, b, n)"
  shows "0 < n \<and> start + n \<le> length text"
proof -
  define hits where "hits = List.map_filter (\<lambda>(tag, b). map_option (\<lambda>i. (i, b, length tag)) (str_find tag text)) open_tags"
  have "find_next_open_tag text open_tags = (case hits of [] \<Rightarrow> None | _ \<Rightarrow> Some (arg_min_list fst hits))"
    by (simp add: find_next_open_tag_def hits_def split: list.split)
  then have "hits \<noteq> []" "arg_min_list fst hits = (start, b, n)" using assms by (auto split: list.splits)
  then have "(start, b, n) \<in> set hits" by (metis arg_min_list_in)
  then obtain tag where t: "(tag, b) \<in> set open_tags" "n = length tag" "str_find tag text = Some start"
    by (auto simp: hits_def set_map_filter)
  then have "tag \<noteq> []" by (auto simp: open_tags_def)
  moreover have "start + length tag \<le> length text" using t(3) by (auto simp: str_find_def dest: split_once_shorter)
  ultimately show ?thesis using t(2) by simp
qed

function drive :: "think_render_style \<Rightarrow> formatter_block \<Rightarrow> rstr \<Rightarrow> rstr \<times> formatter_block \<times> rstr" where
  "drive style PlainBlock pending =
     (case find_next_open_tag pending open_tags of
        Some (start, next_block, tag_len) \<Rightarrow>
          (let (rendered, r) = drive style next_block (drop (start + tag_len) pending)
           in (take start pending @ rendered, r))
      | None \<Rightarrow>
          (let emit_len = length pending - trailing_partial_prefix_len_many pending (map fst open_tags)
           in (take emit_len pending, PlainBlock, drop emit_len pending)))"
| "block \<noteq> PlainBlock \<Longrightarrow> drive style block pending =
     (case str_find (close_tag block) pending of
        None \<Rightarrow> ([], block, pending)
      | Some e \<Rightarrow>
          (let (rendered, r) = drive style PlainBlock (drop (e + length (close_tag block)) pending)
           in (render_block style block (take e pending) @ rendered, r)))"
  by (metis surj_pair) auto
termination
proof (relation "measure (\<lambda>(style, block, pending). length pending)", goal_cases)
  case 1
  then show ?case by simp
next
  case (2 style pending p start q b n)
  then show ?case using find_next_open_tag_bound [of pending start b n] by auto
next
  case (3 block style pending e)
  then have "\<exists>k. length (close_tag block) = Suc k" by (cases block) auto
  then show ?case using 3 by (auto simp: str_find_def dest!: split_once_shorter)
qed

definition push_chunk :: "think_stream_formatter \<Rightarrow> rstr \<Rightarrow> think_stream_formatter \<times> rstr" where
  "push_chunk f chunk =
     (let (rendered, block, pending) = drive (tf_style f) (tf_block f) (tf_pending f @ chunk)
      in (f\<lparr>tf_pending := pending, tf_block := block\<rparr>, rendered))"

definition finish :: "think_stream_formatter \<Rightarrow> think_stream_formatter \<times> rstr" where
  "finish f =
     (if tf_pending f = [] then (f, [])
      else (f\<lparr>tf_block := PlainBlock, tf_pending := []\<rparr>, render_block (tf_style f) (tf_block f) (tf_pending f)))"

section \<open>Blank lines\<close>

fun compact_from :: "nat \<Rightarrow> rstr \<Rightarrow> rstr" where
  "compact_from newlines [] = []"
| "compact_from newlines (c # cs) =
     (if c = 13 then compact_from newlines cs
      else if c = 10 then (if Suc newlines \<le> 2 then [c] else []) @ compact_from (Suc newlines) cs
      else c # compact_from 0 cs)"

definition compact_excess_blank_lines :: "rstr \<Rightarrow> rstr" where
  "compact_excess_blank_lines text = compact_from 0 text"

definition append_compacted :: "rstr \<Rightarrow> rstr \<Rightarrow> rstr" where
  "append_compacted buffer addition =
     (if addition = [] then buffer else compact_excess_blank_lines (buffer @ addition))"

definition render_think_blocks :: "rstr \<Rightarrow> think_render_style \<Rightarrow> rstr" where
  "render_think_blocks text style =
     (let (f, out) = push_chunk (formatter_new style) text;
          compacted = compact_excess_blank_lines (out @ snd (finish f))
      in if style = Hidden then trim compacted else compacted)"

text \<open>A stream: the output of the formatter for each of its chunks.\<close>

fun push_chunks :: "think_stream_formatter \<Rightarrow> rstr list \<Rightarrow> think_stream_formatter \<times> rstr list" where
  "push_chunks f [] = (f, [])"
| "push_chunks f (chunk # chunks) =
     (let (f, out) = push_chunk f chunk; (f, outs) = push_chunks f chunks in (f, out # outs))"

section \<open>Where tags occur\<close>

abbreviation tag_texts :: "rstr list" where
  "tag_texts \<equiv> map fst open_tags"

lemma starts_with_take: "starts_with s t \<longleftrightarrow> take (length t) s = t"
  by (auto simp: starts_with_iff) (metis append_take_drop_id)

lemma starts_with_length: "starts_with (drop i s) t \<Longrightarrow> t \<noteq> [] \<Longrightarrow> i + length t \<le> length s"
proof -
  assume t: "starts_with (drop i s) t" "t \<noteq> []"
  then obtain r where "drop i s = t @ r" by (auto simp: starts_with_iff)
  then have "length s - i = length t + length r" by (metis length_append length_drop)
  then show ?thesis using t(2) by (cases t) auto
qed

lemma starts_with_drop_append:
  "i + length t \<le> length s \<Longrightarrow> starts_with (drop i (s @ r)) t \<longleftrightarrow> starts_with (drop i s) t"
  by (simp add: starts_with_take)

lemma str_find_append:
  assumes "t \<noteq> []" "str_find t s = Some i"
  shows "str_find t (s @ r) = Some i"
proof -
  have i: "starts_with (drop i s) t" "\<forall>j < i. \<not> starts_with (drop j s) t"
    using assms str_find_Some by auto
  have "i + length t \<le> length s" by (rule starts_with_length [OF i(1) assms(1)])
  then have "starts_with (drop j (s @ r)) t = starts_with (drop j s) t" if "j \<le> i" for j
    using that by (intro starts_with_drop_append) simp
  then show ?thesis using i by (subst str_find_Some [OF assms(1)]) simp
qed

text \<open>Every tag starts with a less-than sign and has no other, so two of them never overlap.\<close>

definition tag_shaped :: "rstr \<Rightarrow> bool" where
  "tag_shaped t \<longleftrightarrow> t \<noteq> [] \<and> hd t = 60 \<and> 60 \<notin> set (tl t)"

lemma tag_texts_shaped: "t \<in> set tag_texts \<Longrightarrow> tag_shaped t"
  by (auto simp: tag_shaped_def open_tags_def lit_def)

lemma close_tag_shaped: "block \<noteq> PlainBlock \<Longrightarrow> tag_shaped (close_tag block)"
  by (cases block) (simp_all add: tag_shaped_def lit_def)

lemma tag_shaped_nonempty: "tag_shaped t \<Longrightarrow> t \<noteq> []"
  by (simp add: tag_shaped_def)

lemma tag_shaped_tl: "tag_shaped t \<Longrightarrow> 0 < k \<Longrightarrow> k < length t \<Longrightarrow> t ! k \<noteq> 60"
proof -
  assume t: "tag_shaped t" "0 < k" "k < length t"
  then have "t ! k = tl t ! (k - 1)" "k - 1 < length (tl t)" by (auto simp: nth_tl)
  then show "t ! k \<noteq> 60" using t(1) nth_mem by (metis tag_shaped_def)
qed

lemma tags_apart:
  assumes "tag_shaped t" "tag_shaped u" "starts_with (drop i s) t" "starts_with (drop j s) u" "i < j"
  shows "i + length t \<le> j"
proof (rule ccontr)
  assume "\<not> i + length t \<le> j"
  then have k: "0 < j - i" "j - i < length t" using assms(5) by auto
  have "t ! (j - i) = take (length t) (drop i s) ! (j - i)" using assms(3) by (simp add: starts_with_take)
  also have "\<dots> = s ! j" using k starts_with_length [OF assms(3) tag_shaped_nonempty [OF assms(1)]] assms(5) by simp
  also have "\<dots> = take (length u) (drop j s) ! 0"
    using starts_with_length [OF assms(4) tag_shaped_nonempty [OF assms(2)]] tag_shaped_nonempty [OF assms(2)] by simp
  also have "\<dots> = 60" using assms(2,4) by (metis hd_conv_nth starts_with_take tag_shaped_def)
  finally show False using tag_shaped_tl [OF assms(1) k] by simp
qed

lemma tags_prefix_free:
  assumes "(t, b) \<in> set open_tags" "(u, c) \<in> set open_tags" "starts_with s t" "starts_with s u"
  shows "t = u \<and> b = c"
proof -
  obtain r q where "t @ r = u @ q" using assms(3,4) by (metis starts_with_iff)
  then show ?thesis using assms(1,2) unfolding open_tags_def lit_def list.set by (elim insertE emptyE) simp_all
qed

text \<open>A tag occurs at a position.\<close>

definition tag_at :: "rstr \<Rightarrow> nat \<Rightarrow> rstr \<Rightarrow> formatter_block \<Rightarrow> bool" where
  "tag_at s i t b \<longleftrightarrow> (t, b) \<in> set open_tags \<and> starts_with (drop i s) t"

lemma tag_at_unique: "tag_at s i t b \<Longrightarrow> tag_at s i u c \<Longrightarrow> t = u \<and> b = c"
  unfolding tag_at_def using tags_prefix_free by blast

lemma found_tags:
  "(i, b, n) \<in> set (List.map_filter (\<lambda>(tag, b). map_option (\<lambda>i. (i, b, length tag)) (str_find tag s)) tags) \<longleftrightarrow>
     (\<exists>t. (t, b) \<in> set tags \<and> str_find t s = Some i \<and> n = length t)"
  by (force simp: set_map_filter)

lemma find_next_open_tag_None: "find_next_open_tag s open_tags = None \<longleftrightarrow> (\<forall>i t b. \<not> tag_at s i t b)"
proof -
  define hits where "hits = List.map_filter (\<lambda>(tag, b). map_option (\<lambda>i. (i, b, length tag)) (str_find tag s)) open_tags"
  have "find_next_open_tag s open_tags = None \<longleftrightarrow> set hits = {}"
    by (simp add: find_next_open_tag_def hits_def split: list.split)
  also have "\<dots> \<longleftrightarrow> (\<forall>i b n. (i, b, n) \<notin> set hits)" by (metis equals0D equals0I surj_pair)
  also have "\<dots> \<longleftrightarrow> (\<forall>(t, b) \<in> set open_tags. str_find t s = None)"
    unfolding hits_def found_tags Ball_def split_paired_All prod.case by (metis not_None_eq)
  also have "\<dots> \<longleftrightarrow> (\<forall>(t, b) \<in> set open_tags. \<forall>i. \<not> starts_with (drop i s) t)"
  proof (intro ball_cong refl)
    fix x :: "rstr \<times> formatter_block"
    assume "x \<in> set open_tags"
    then have "fst x \<noteq> []" by (intro tag_shaped_nonempty tag_texts_shaped) simp
    then show "(case x of (t, b) \<Rightarrow> str_find t s = None) = (case x of (t, b) \<Rightarrow> \<forall>i. \<not> starts_with (drop i s) t)"
      by (simp add: str_find_None split_beta)
  qed
  finally show ?thesis by (auto simp: tag_at_def)
qed

lemma find_next_open_tag_Some:
  "find_next_open_tag s open_tags = Some (i, b, n) \<longleftrightarrow>
     (\<exists>t. tag_at s i t b \<and> n = length t) \<and> (\<forall>j < i. \<forall>t c. \<not> tag_at s j t c)"
  (is "?found = Some _ \<longleftrightarrow> ?first i b n")
proof -
  have found: "?first i b n" if found: "?found = Some (i, b, n)" for i b n
  proof -
    define hits where "hits = List.map_filter (\<lambda>(tag, b). map_option (\<lambda>i. (i, b, length tag)) (str_find tag s)) open_tags"
    have "?found = (case hits of [] \<Rightarrow> None | _ \<Rightarrow> Some (arg_min_list fst hits))"
      by (simp add: find_next_open_tag_def hits_def split: list.split)
    then have h: "hits \<noteq> []" "arg_min_list fst hits = (i, b, n)" using found by (auto split: list.splits)
    then have mem: "(i, b, n) \<in> set hits" by (metis arg_min_list_in)
    have least: "i \<le> fst x" if "x \<in> set hits" for x
      using f_arg_min_list_f [OF h(1), of fst] h(2) that by (metis Min_le finite_imageI finite_set fst_conv image_eqI)
    obtain t where t: "(t, b) \<in> set open_tags" "n = length t" "str_find t s = Some i"
      using mem unfolding hits_def found_tags by blast
    have ne: "u \<noteq> []" if "(u, c) \<in> set open_tags" for u c using that by (intro tag_shaped_nonempty tag_texts_shaped) force
    have "\<not> tag_at s j u c" if "j < i" for j u c
    proof
      assume u: "tag_at s j u c"
      then obtain k where k: "str_find u s = Some k" "k \<le> j"
        using ne by (metis not_le str_find_None str_find_Some option.exhaust tag_at_def)
      then have "(k, c, length u) \<in> set hits" using u unfolding hits_def found_tags tag_at_def by blast
      then show False using least k(2) that by fastforce
    qed
    moreover have "tag_at s i t b" using t ne str_find_Some by (auto simp: tag_at_def)
    ultimately show ?thesis using t(2) by blast
  qed
  show ?thesis
  proof
    assume first: "?first i b n"
    then have "?found \<noteq> None" using find_next_open_tag_None by blast
    then obtain i' b' n' where f: "?found = Some (i', b', n')" by (metis option.exhaust surj_pair)
    then have "?first i' b' n'" by (rule found)
    then have "i' = i" "b' = b" "n' = n" using first by (metis linorder_neqE_nat, metis linorder_neqE_nat tag_at_unique,
        metis linorder_neqE_nat tag_at_unique)
    then show "?found = Some (i, b, n)" using f by simp
  qed (rule found)
qed

text \<open>What is kept back: the longest end of the text that begins a tag.\<close>

definition begins_tag :: "rstr \<Rightarrow> nat \<Rightarrow> bool" where
  "begins_tag s n \<longleftrightarrow> (\<exists>t \<in> set tag_texts. n < length t \<and> n \<le> length s \<and> drop (length s - n) s = take n t)"

lemma ends_with_drop: "ends_with s t \<longleftrightarrow> length t \<le> length s \<and> drop (length s - length t) s = t"
  by (auto simp: ends_with_iff) (metis append_take_drop_id)

lemma find_greatest:
  fixes m :: nat
  assumes "P 0"
  defines "k \<equiv> unwrap_or 0 (find P (rev [1..<Suc m]))"
  shows "P k \<and> k \<le> m \<and> (\<forall>j \<le> m. P j \<longrightarrow> j \<le> k)"
  unfolding k_def
proof (induction m)
  case 0
  then show ?case using assms(1) by simp
next
  case (Suc m)
  have "rev [1..<Suc (Suc m)] = Suc m # rev [1..<Suc m]" by simp
  then show ?case using Suc by (auto simp: le_Suc_eq)
qed

lemma partial_prefix_greatest:
  fixes s :: rstr
  assumes "t \<in> set tag_texts"
  defines "k \<equiv> trailing_partial_prefix_len s t"
  shows "begins_tag s k" "n < length t \<Longrightarrow> n \<le> length s \<Longrightarrow> drop (length s - n) s = take n t \<Longrightarrow> n \<le> k"
proof -
  let ?P = "\<lambda>n. ends_with s (take n t)" and ?m = "min (length s) (length t - 1)"
  have pos: "0 < length t" using tag_shaped_nonempty [OF tag_texts_shaped [OF assms(1)]] by simp
  have "?P 0" by (simp add: ends_with_drop)
  then have g: "?P k \<and> k \<le> ?m \<and> (\<forall>j \<le> ?m. ?P j \<longrightarrow> j \<le> k)"
    unfolding k_def trailing_partial_prefix_len_def by (rule find_greatest)
  have small: "k < length t" "k \<le> length s" using g pos by linarith+
  then have "drop (length s - k) s = take k t" using g by (simp add: ends_with_drop)
  then show "begins_tag s k" using small assms(1) unfolding begins_tag_def by blast
  assume n: "n < length t" "n \<le> length s" "drop (length s - n) s = take n t"
  then have "?P n" "n \<le> ?m" by (auto simp: ends_with_drop)
  then show "n \<le> k" using g by blast
qed

lemma kept_greatest:
  "begins_tag s (trailing_partial_prefix_len_many s tag_texts)"
  "begins_tag s n \<Longrightarrow> n \<le> trailing_partial_prefix_len_many s tag_texts"
proof -
  have mem: "foldr max ks 0 \<in> insert 0 (set ks)" and ge: "k \<in> set ks \<Longrightarrow> k \<le> foldr max ks 0" for ks :: "nat list" and k
    by (induction ks) (auto simp: max_def)
  have "lit ''<think>'' \<in> set tag_texts" by (simp add: open_tags_def)
  then have zero: "begins_tag s 0" using tag_shaped_nonempty [OF tag_texts_shaped] unfolding begins_tag_def by fastforce
  show "begins_tag s (trailing_partial_prefix_len_many s tag_texts)"
    using mem [of "map (trailing_partial_prefix_len s) tag_texts"] zero partial_prefix_greatest(1)
    unfolding trailing_partial_prefix_len_many_def by (metis (no_types, lifting) imageE insertE list.set_map)
  show "n \<le> trailing_partial_prefix_len_many s tag_texts" if n: "begins_tag s n"
  proof -
    obtain t where t: "t \<in> set tag_texts" "n < length t" "n \<le> length s" "drop (length s - n) s = take n t"
      using n by (auto simp: begins_tag_def)
    have "n \<le> trailing_partial_prefix_len s t" using partial_prefix_greatest(2) [OF t(1)] t by blast
    also have "\<dots> \<le> trailing_partial_prefix_len_many s tag_texts"
      unfolding trailing_partial_prefix_len_many_def by (rule ge) (use t(1) in auto)
    finally show ?thesis .
  qed
qed

section \<open>Chunks\<close>

text \<open>A tag found in a text is still the first one when the text goes on.\<close>

lemma tag_at_set: "tag_at s i t b \<Longrightarrow> t \<in> set tag_texts"
  by (force simp: tag_at_def)

lemma tag_at_length: "tag_at s i t b \<Longrightarrow> i + length t \<le> length s"
  using tag_shaped_nonempty [OF tag_texts_shaped [OF tag_at_set]] starts_with_length unfolding tag_at_def by blast

lemma tag_at_append: "i + length t \<le> length s \<Longrightarrow> tag_at (s @ r) i t b \<longleftrightarrow> tag_at s i t b"
  unfolding tag_at_def using starts_with_drop_append by metis

lemma tag_at_apart: "tag_at s i t b \<Longrightarrow> tag_at s j u c \<Longrightarrow> i < j \<Longrightarrow> i + length t \<le> j"
  using tags_apart [OF tag_texts_shaped [OF tag_at_set] tag_texts_shaped [OF tag_at_set]] unfolding tag_at_def by blast

lemma find_next_open_tag_append:
  assumes "find_next_open_tag s open_tags = Some (i, b, n)"
  shows "find_next_open_tag (s @ r) open_tags = Some (i, b, n)"
proof -
  obtain t where t: "tag_at s i t b" "n = length t" "\<forall>j < i. \<forall>u c. \<not> tag_at s j u c"
    using assms unfolding find_next_open_tag_Some by (elim conjE exE)
  have at: "tag_at (s @ r) i t b" using t(1) tag_at_append [OF tag_at_length [OF t(1)]] by simp
  have "\<not> tag_at (s @ r) j u c" if "j < i" for j u c
  proof
    assume u: "tag_at (s @ r) j u c"
    have "j + length u \<le> i" by (rule tag_at_apart [OF u at that])
    then have "j + length u \<le> length s" using tag_at_length [OF t(1)] by linarith
    then have "tag_at s j u c" using u by (simp only: tag_at_append)
    then show False using t(3) that by blast
  qed
  then show ?thesis unfolding find_next_open_tag_Some using at t(2) by (intro conjI exI allI impI)
qed

text \<open>Nothing that was let through becomes part of a tag later.\<close>

lemma emitted_no_tag:
  assumes "find_next_open_tag s open_tags = None" "tag_at (s @ r) i t b"
  shows "length s - i \<le> trailing_partial_prefix_len_many s tag_texts"
proof (cases "i < length s")
  case True
  have "\<not> i + length t \<le> length s"
    using assms tag_at_append [of i t s r b] by (auto simp: find_next_open_tag_None)
  then have n: "length s - i < length t" using True by linarith
  have "take (length t) (drop i (s @ r)) = t" using assms(2) by (simp add: tag_at_def starts_with_take)
  then have "take (length s - i) t = take (length s - i) (drop i (s @ r))" using n by (metis min.absorb1 nat_less_le take_take)
  also have "\<dots> = drop i s" using True by simp
  finally have "begins_tag s (length s - i)"
    unfolding begins_tag_def using n True tag_at_set [OF assms(2)] by (intro bexI [of _ t]) auto
  then show ?thesis by (rule kept_greatest(2))
qed simp

text \<open>So the rest of the text is read the same, with or without what was let through.\<close>

definition emit_len :: "rstr \<Rightarrow> nat" where
  "emit_len s = length s - trailing_partial_prefix_len_many s tag_texts"

lemma begins_tag_length: "begins_tag s n \<Longrightarrow> n \<le> length s"
  by (auto simp: begins_tag_def)

lemma drop_emitted:
  "emit_len s \<le> i \<Longrightarrow> drop i (s @ r) = drop (i - emit_len s) (drop (emit_len s) s @ r)"
  by (cases "i \<le> length s") (auto simp: emit_len_def)

lemma tag_at_resumed:
  assumes "find_next_open_tag s open_tags = None"
  shows "tag_at (s @ r) i t b \<longleftrightarrow> emit_len s \<le> i \<and> tag_at (drop (emit_len s) s @ r) (i - emit_len s) t b"
proof -
  have "emit_len s \<le> i" if "tag_at (s @ r) i t b"
    using emitted_no_tag [OF assms that] unfolding emit_len_def by linarith
  then show ?thesis using drop_emitted unfolding tag_at_def by metis
qed

lemma find_next_open_tag_resumed:
  assumes "find_next_open_tag s open_tags = None"
  shows "find_next_open_tag (s @ r) open_tags =
    map_option (\<lambda>(i, b, n). (emit_len s + i, b, n)) (find_next_open_tag (drop (emit_len s) s @ r) open_tags)"
proof (cases "find_next_open_tag (drop (emit_len s) s @ r) open_tags")
  case None
  then have "find_next_open_tag (s @ r) open_tags = None"
    using tag_at_resumed [OF assms] unfolding find_next_open_tag_None by blast
  then show ?thesis using None by simp
next
  case (Some x)
  obtain i b n where x: "x = (i, b, n)" by (cases x) auto
  obtain t where t: "tag_at (drop (emit_len s) s @ r) i t b" "n = length t"
    "\<forall>j < i. \<forall>u c. \<not> tag_at (drop (emit_len s) s @ r) j u c"
    using Some unfolding x find_next_open_tag_Some by (elim conjE exE)
  have "tag_at (s @ r) (emit_len s + i) t b" using t(1) tag_at_resumed [OF assms] by simp
  moreover have "\<not> tag_at (s @ r) j u c" if "j < emit_len s + i" for j u c
    using t(3) that tag_at_resumed [OF assms, of r j u c] by (metis less_diff_conv2 add.commute)
  ultimately have "find_next_open_tag (s @ r) open_tags = Some (emit_len s + i, b, n)"
    unfolding find_next_open_tag_Some using t(2) by (intro conjI exI allI impI)
  then show ?thesis using Some x by simp
qed

lemma begins_tag_resumed: "begins_tag (s @ r) n \<longleftrightarrow> begins_tag (drop (emit_len s) s @ r) n"
proof -
  let ?rest = "drop (emit_len s) s @ r"
  have len: "length (s @ r) = emit_len s + length ?rest" by (simp add: emit_len_def)
  have same: "drop (length (s @ r) - n) (s @ r) = drop (length ?rest - n) ?rest" if "n \<le> length ?rest" for n
  proof -
    have "emit_len s \<le> length (s @ r) - n" "length (s @ r) - n - emit_len s = length ?rest - n" using that len by linarith+
    then show ?thesis using drop_emitted by metis
  qed
  have "n \<le> length ?rest" if b: "begins_tag (s @ r) n"
  proof (rule ccontr)
    assume "\<not> n \<le> length ?rest"
    define i where "i = length (s @ r) - n"
    have i: "i < emit_len s" "i \<le> length s" using \<open>\<not> n \<le> length ?rest\<close> len begins_tag_length [OF b]
      by (auto simp: i_def emit_len_def)
    obtain t where t: "t \<in> set tag_texts" "n < length t" "drop i (s @ r) = take n t"
      using b by (auto simp: begins_tag_def i_def)
    have k: "length s - i \<le> n" using begins_tag_length [OF b] by (auto simp: i_def)
    have "drop i s = take (length s - i) (drop i (s @ r))" using i(2) by simp
    also have "\<dots> = take (length s - i) t" using t(3) k by (simp add: min_absorb1)
    finally have "begins_tag s (length s - i)"
      using t(1,2) k i(2) unfolding begins_tag_def by (intro bexI [of _ t]) auto
    then show False using kept_greatest(2) [of s "length s - i"] i by (auto simp: emit_len_def)
  qed
  moreover have "n \<le> length (s @ r)" if "n \<le> length ?rest" using that len by linarith
  ultimately show ?thesis using same unfolding begins_tag_def by (metis (no_types, lifting))
qed

lemma kept_resumed:
  "trailing_partial_prefix_len_many (s @ r) tag_texts = trailing_partial_prefix_len_many (drop (emit_len s) s @ r) tag_texts"
  using kept_greatest begins_tag_resumed by (metis le_antisym)

lemma emit_len_resumed: "emit_len (s @ r) = emit_len s + emit_len (drop (emit_len s) s @ r)"
proof -
  let ?rest = "drop (emit_len s) s @ r"
  have "trailing_partial_prefix_len_many ?rest tag_texts \<le> length ?rest"
    by (rule begins_tag_length [OF kept_greatest(1)])
  moreover have "length (s @ r) = emit_len s + length ?rest" by (simp add: emit_len_def)
  ultimately show ?thesis using kept_resumed [of s r] unfolding emit_len_def [of "s @ r"] emit_len_def [of ?rest] by linarith
qed

lemma take_resumed: "take (emit_len s + n) (s @ r) = take (emit_len s) s @ take n (drop (emit_len s) s @ r)"
proof -
  have "take (emit_len s + n) (s @ r) = take (emit_len s) (s @ r) @ take n (drop (emit_len s) (s @ r))" by (rule take_add)
  moreover have "emit_len s \<le> length s" by (simp add: emit_len_def)
  ultimately show ?thesis by simp
qed

lemma drop_resumed: "drop (emit_len s + n) (s @ r) = drop n (drop (emit_len s) s @ r)"
  by (metis drop_emitted le_add1 add_diff_cancel_left')

lemma drive_Plain_None:
  "find_next_open_tag s open_tags = None \<Longrightarrow>
    drive style PlainBlock s = (take (emit_len s) s, PlainBlock, drop (emit_len s) s)"
  by (simp add: emit_len_def Let_def)

lemma drive_append:
  "drive style block s = (out, block', pending) \<Longrightarrow>
    drive style block (s @ r) = (out @ fst (drive style block' (pending @ r)), snd (drive style block' (pending @ r)))"
proof (induction style block s arbitrary: out block' pending rule: drive.induct)
  case (1 style s)
  show ?case
  proof (cases "find_next_open_tag s open_tags")
    case None
    then have now: "out = take (emit_len s) s" "block' = PlainBlock" "pending = drop (emit_len s) s"
      using "1.prems" by (simp_all only: drive_Plain_None prod.inject)
    let ?rest = "drop (emit_len s) s @ r"
    show ?thesis
    proof (cases "find_next_open_tag ?rest open_tags")
      case None2: None
      then have "find_next_open_tag (s @ r) open_tags = None" using find_next_open_tag_resumed [OF None] by simp
      then show ?thesis using None2
        by (simp only: now drive_Plain_None emit_len_resumed [of s r] take_resumed drop_resumed fst_conv snd_conv)
    next
      case (Some x)
      obtain i b n where x: "x = (i, b, n)" by (cases x) auto
      have whole: "find_next_open_tag (s @ r) open_tags = Some (emit_len s + i, b, n)"
        using find_next_open_tag_resumed [OF None] Some x by simp
      have "drop (emit_len s + i + n) (s @ r) = drop (i + n) ?rest" using drop_resumed [of s "i + n" r] by (simp add: add.assoc)
      then show ?thesis
        using Some by (simp add: now x whole take_resumed split_beta add.assoc del: take_append drop_append)
    qed
  next
    case (Some x)
    obtain i b n where x: "x = (i, b, n)" by (cases x) auto
    have bound: "i + n \<le> length s" using find_next_open_tag_bound Some x by blast
    obtain out2 where d: "drive style b (drop (i + n) s) = (out2, block', pending)" "out = take i s @ out2"
      using "1.prems" Some x by (auto split: prod.splits)
    have "find_next_open_tag (s @ r) open_tags = Some (i, b, n)"
      using find_next_open_tag_append Some x by simp
    then show ?thesis using "1.IH" [OF Some x [symmetric] refl d(1)] d(2) bound by (simp add: split_beta)
  qed
next
  case (2 block style s)
  show ?case
  proof (cases "str_find (close_tag block) s")
    case None
    then have "out = []" "block' = block" "pending = s" using "2.prems" "2.hyps" by auto
    then show ?thesis by simp
  next
    case (Some e)
    have e: "e + length (close_tag block) \<le> length s"
      using Some by (auto simp: str_find_def dest: split_once_shorter)
    obtain out2 where d: "drive style PlainBlock (drop (e + length (close_tag block)) s) = (out2, block', pending)"
      "out = render_block style block (take e s) @ out2"
      using "2.prems" "2.hyps" Some by (auto split: prod.splits)
    have "str_find (close_tag block) (s @ r) = Some e"
      by (rule str_find_append [OF tag_shaped_nonempty [OF close_tag_shaped [OF "2.hyps"]] Some])
    then show ?thesis using "2.IH" [OF Some d(1)] d(2) e "2.hyps" by (simp add: split_beta)
  qed
qed

lemma push_chunk_append:
  "push_chunk f (a @ b) =
     (fst (push_chunk (fst (push_chunk f a)) b), snd (push_chunk f a) @ snd (push_chunk (fst (push_chunk f a)) b))"
proof -
  obtain out block pending where d: "drive (tf_style f) (tf_block f) (tf_pending f @ a) = (out, block, pending)"
    by (metis surj_pair)
  show ?thesis using drive_append [OF d, of b] by (simp add: push_chunk_def d split_beta)
qed

lemma push_nothing: "push_chunk (formatter_new style) [] = (formatter_new style, [])"
proof -
  have "find_next_open_tag [] open_tags = None" "emit_len [] = 0"
    using tag_at_length tag_shaped_nonempty [OF tag_texts_shaped [OF tag_at_set]]
    by (fastforce simp: find_next_open_tag_None, simp add: emit_len_def)
  then show ?thesis by (simp add: push_chunk_def formatter_new_def drive_Plain_None)
qed

lemma compact_from_two: "2 \<le> j \<Longrightarrow> 2 \<le> k \<Longrightarrow> compact_from j s = compact_from k s"
proof (induction s arbitrary: j k)
  case (Cons c s)
  show ?case using Cons.IH [OF Cons.prems] Cons.IH [of "Suc j" "Suc k"] Cons.prems by simp
qed simp

lemma compact_again:
  "j = k \<or> 2 \<le> j \<and> 2 \<le> k \<Longrightarrow> compact_from j (compact_from k s @ r) = compact_from k (s @ r)"
proof (induction s arbitrary: j k)
  case Nil
  then show ?case using compact_from_two by auto
next
  case (Cons c s)
  consider "c = 13" | "c = 10" "k < 2" | "c = 10" "2 \<le> k" | "c \<noteq> 13" "c \<noteq> 10" by linarith
  then show ?case
  proof cases
    case 3
    then have "2 \<le> j" using Cons.prems by auto
    then show ?thesis using 3 Cons.IH [of j "Suc k"] by simp
  qed (use Cons in auto)
qed

lemma append_compacted_eq:
  "append_compacted (compact_excess_blank_lines s) r = compact_excess_blank_lines (s @ r)"
  using compact_again [of 0 0 s r] by (simp add: append_compacted_def compact_excess_blank_lines_def)

lemma push_chunks_eq:
  "push_chunk f (s @ concat chunks) =
     (fst (push_chunks (fst (push_chunk f s)) chunks),
      snd (push_chunk f s) @ concat (snd (push_chunks (fst (push_chunk f s)) chunks)))"
proof (induction chunks arbitrary: s)
  case (Cons chunk chunks)
  show ?case using Cons.IH [of "s @ chunk"] push_chunk_append [of f s chunk] by (simp add: split_beta)
qed simp

lemma appended_compacted:
  "fold (\<lambda>out shown. append_compacted shown out) outs (compact_excess_blank_lines s) = compact_excess_blank_lines (s @ concat outs)"
  by (induction outs arbitrary: s) (simp_all add: append_compacted_eq)

section \<open>Properties\<close>

text \<open>C25: the outputs of the formatter do not depend on where the chunks end. Whatever the chunks of a stream, the formatter
  ends in the same state and its outputs, one after the other, are the same text as for the whole answer at once; appended
  one by one, with blank lines counted across them, and followed by what is left at the end, they are the rendering of the
  whole answer (which is trimmed when reasoning is hidden). (This is about the formatter: the emitter in front of it trims
  each chunk.)\<close>

theorem chunking_invisible:
  "let f0 = formatter_new style; (f, outs) = push_chunks f0 chunks;
       shown = append_compacted (fold (\<lambda>out shown. append_compacted shown out) outs []) (snd (finish f))
   in (f, concat outs) = push_chunk f0 (concat chunks) \<and>
      (if style = Hidden then trim shown else shown) = render_think_blocks (concat chunks) style"
proof -
  obtain f outs where p: "push_chunks (formatter_new style) chunks = (f, outs)" by fastforce
  have whole: "push_chunk (formatter_new style) (concat chunks) = (f, concat outs)"
    using push_chunks_eq [of "formatter_new style" "[]" chunks] by (simp add: push_nothing p)
  have "fold (\<lambda>out shown. append_compacted shown out) outs [] = compact_excess_blank_lines (concat outs)"
    using appended_compacted [of outs "[]"] by (simp add: compact_excess_blank_lines_def)
  then show ?thesis by (simp add: p whole render_think_blocks_def append_compacted_eq Let_def)
qed

text \<open>An answer made of plain text and complete blocks: each piece is plain text, the kind of a block and its content.\<close>

fun open_tag_of :: "formatter_block \<Rightarrow> rstr" where
  "open_tag_of PlainBlock = []"
| "open_tag_of Think = lit ''<think>''"
| "open_tag_of ToolCode = lit ''<tool_code>''"
| "open_tag_of ToolCall = lit ''<tool_call>''"
| "open_tag_of ToolResult = lit ''<tool_result>''"
| "open_tag_of ToolUse = lit ''<tool_use>''"

fun answer_text :: "(rstr \<times> formatter_block \<times> rstr) list \<Rightarrow> rstr \<Rightarrow> rstr" where
  "answer_text [] rest = rest"
| "answer_text ((plain, b, content) # ps) rest = plain @ open_tag_of b @ content @ close_tag b @ answer_text ps rest"

fun answer_shown :: "think_render_style \<Rightarrow> (rstr \<times> formatter_block \<times> rstr) list \<Rightarrow> rstr \<Rightarrow> rstr" where
  "answer_shown style [] rest = rest"
| "answer_shown style ((plain, b, content) # ps) rest = plain @ render_block style b content @ answer_shown style ps rest"

definition no_tag :: "rstr \<Rightarrow> bool" where
  "no_tag s \<longleftrightarrow> (\<forall>t \<in> set tag_texts. \<not> contains_str s t)"

lemma contains_str_drop: "starts_with (drop i s) t \<Longrightarrow> contains_str s t"
  by (metis append_take_drop_id contains_str_iff starts_with_iff)

lemma no_tag_at: "no_tag s \<Longrightarrow> \<not> tag_at s i t b"
  unfolding no_tag_def using tag_at_set contains_str_drop tag_at_def by metis

lemma find_next_open_tag_plain:
  assumes "no_tag s" "b \<noteq> PlainBlock"
  shows "find_next_open_tag (s @ open_tag_of b @ r) open_tags = Some (length s, b, length (open_tag_of b))"
proof -
  have here: "tag_at (s @ open_tag_of b @ r) (length s) (open_tag_of b) b"
    using assms(2) by (cases b) (simp_all add: tag_at_def open_tags_def)
  have "\<not> tag_at (s @ open_tag_of b @ r) j u c" if "j < length s" for j u c
  proof
    assume u: "tag_at (s @ open_tag_of b @ r) j u c"
    have "j + length u \<le> length s" by (rule tag_at_apart [OF u here that])
    then show False using u no_tag_at [OF assms(1)] by (simp only: tag_at_append)
  qed
  then show ?thesis unfolding find_next_open_tag_Some using here by (intro conjI exI allI impI) auto
qed

lemma str_find_close:
  assumes "b \<noteq> PlainBlock" "\<not> contains_str s (close_tag b)"
  shows "str_find (close_tag b) (s @ close_tag b @ r) = Some (length s)"
proof -
  have shaped: "tag_shaped (close_tag b)" by (rule close_tag_shaped [OF assms(1)])
  have here: "starts_with (drop (length s) (s @ close_tag b @ r)) (close_tag b)" by simp
  have "\<not> starts_with (drop j (s @ close_tag b @ r)) (close_tag b)" if "j < length s" for j
  proof
    assume u: "starts_with (drop j (s @ close_tag b @ r)) (close_tag b)"
    have "j + length (close_tag b) \<le> length s" by (rule tags_apart [OF shaped shaped u here that])
    then have "starts_with (drop j s) (close_tag b)" using u by (simp only: starts_with_drop_append)
    then show False using assms(2) contains_str_drop by blast
  qed
  then show ?thesis using here str_find_Some [OF tag_shaped_nonempty [OF shaped]] by blast
qed

lemma drive_answer:
  assumes "\<forall>(plain, b, content) \<in> set ps. no_tag plain \<and> b \<noteq> PlainBlock \<and> \<not> contains_str content (close_tag b)" "no_tag rest"
  shows "\<exists>out pending. drive style PlainBlock (answer_text ps rest) = (out, PlainBlock, pending) \<and> out @ pending = answer_shown style ps rest"
  using assms(1)
proof (induction ps)
  case Nil
  have "find_next_open_tag rest open_tags = None" using no_tag_at [OF assms(2)] find_next_open_tag_None by blast
  then show ?case by (simp add: drive_Plain_None del: drive.simps)
next
  case (Cons p ps)
  obtain plain b content where p: "p = (plain, b, content)" by (cases p) auto
  have ok: "no_tag plain" "b \<noteq> PlainBlock" "\<not> contains_str content (close_tag b)" using Cons.prems p by auto
  obtain out pending where ih: "drive style PlainBlock (answer_text ps rest) = (out, PlainBlock, pending)"
    "out @ pending = answer_shown style ps rest" using Cons by auto
  have "drive style PlainBlock (answer_text (p # ps) rest) =
    (plain @ render_block style b content @ out, PlainBlock, pending)"
    using find_next_open_tag_plain [OF ok(1,2)] str_find_close [OF ok(2,3)] ok(2) ih(1) by (simp add: p)
  then show ?case using ih(2) p by simp
qed

lemma hidden_block_blank:
  assumes "b \<noteq> PlainBlock"
  shows "set (render_block Hidden b content) \<subseteq> {10}"
proof -
  have "set (intercalate [10] (map (\<lambda>tool. []) tools)) \<subseteq> {10 :: nat}" for tools :: "tool_invocation list"
    by (induction tools rule: induct_list012) auto
  then show ?thesis using assms
    by (cases b) (auto simp: render_think_block_def render_tool_block_def render_tool_line_def Let_def)
qed

text \<open>Blocks are rendered where they stand. An answer of plain text and complete blocks, neither containing the
  tags themselves, becomes its plain text with every block replaced by its rendering, in order; when reasoning is
  hidden the rendering of a block is blank, so nothing of its content is shown.\<close>

theorem blocks_rendered_in_place:
  assumes "\<forall>(plain, b, content) \<in> set ps. no_tag plain \<and> b \<noteq> PlainBlock \<and> \<not> contains_str content (close_tag b)" "no_tag rest"
  shows "(let (f, out) = push_chunk (formatter_new style) (answer_text ps rest) in out @ snd (finish f)) = answer_shown style ps rest
    \<and> (\<forall>(plain, b, content) \<in> set ps. set (render_block Hidden b content) \<subseteq> {10})"
proof -
  obtain out pending where d: "drive style PlainBlock (answer_text ps rest) = (out, PlainBlock, pending)"
    "out @ pending = answer_shown style ps rest" using drive_answer [OF assms] by blast
  have whole: "(let (f, out) = push_chunk (formatter_new style) (answer_text ps rest) in out @ snd (finish f)) = out @ pending"
    using d(1) by (simp add: push_chunk_def formatter_new_def finish_def)
  have blank: "case x of (plain, b, content) \<Rightarrow> set (render_block Hidden b content) \<subseteq> {10}" if "x \<in> set ps" for x
  proof -
    obtain plain b content where x: "x = (plain, b, content)" by (cases x) auto
    then have "b \<noteq> PlainBlock" using assms(1) that by auto
    then show ?thesis by (simp add: x hidden_block_blank)
  qed
  show ?thesis unfolding whole by (intro conjI ballI d(2) blank)
qed

theorem blocks_rendered_in_place_witness:
  "let ps = [(lit ''a '', Think, lit ''why <b>''), (lit '' b '', ToolCall, lit ''{}'')]
   in (let (f, out) = push_chunk (formatter_new Hidden) (answer_text ps (lit '' end'')) in out @ snd (finish f))
        = answer_shown Hidden ps (lit '' end'') \<and>
      (\<forall>(plain, b, content) \<in> set ps. set (render_block Hidden b content) \<subseteq> {10})"
  unfolding Let_def [of "[(lit ''a '', Think, lit ''why <b>''), (lit '' b '', ToolCall, lit ''{}'')]"]
  by (rule blocks_rendered_in_place) (simp_all add: no_tag_def open_tags_def lit_def)

end
