(* ===== verification/Session_Message.thy ===== *)
theory Session_Message
  imports Disk
begin

text \<open>
  \<^verbatim>\<open>memory/src/session.rs\<close>, first half, and the part types of \<^verbatim>\<open>hone-core/src/agent.rs\<close>: what a stored message
  is made of, how a text becomes the parts of a message and is read back, the metadata that marks summaries and
  compaction boundaries, and which messages are shown to the model. A \<^verbatim>\<open>HashMap<String, Value>\<close> is a map; reading
  and printing JSON are parameters.
\<close>

type_synonym metadata = "rstr \<rightharpoonup> json"

record conversation_part =
  pt_type :: rstr
  pt_text :: "rstr option"
  pt_id :: "rstr option"
  pt_name :: "rstr option"
  pt_args :: "json option"
  pt_result :: "json option"
  pt_metadata :: "metadata option"

record session_message =
  sm_role :: rstr
  sm_content :: "conversation_part list"
  sm_status :: "rstr option"
  sm_timestamp :: rstr
  sm_metadata :: "metadata option"

text \<open>\<^verbatim>\<open>serde_json::from_str::<Value>\<close> and \<^verbatim>\<open>serde_json::to_string\<close>.\<close>

record json_codec =
  jc_parse :: "rstr \<Rightarrow> json option"
  jc_print :: "json \<Rightarrow> rstr"

section \<open>Texts and parts\<close>

definition session_message_in_context :: "rstr \<Rightarrow> bool" where
  "session_message_in_context role \<longleftrightarrow> role = lit ''user'' \<or> role = lit ''assistant'' \<or> role = lit ''tool''"

definition text_part :: "rstr \<Rightarrow> rstr \<Rightarrow> conversation_part option" where
  "text_part part_type text =
     (let trimmed = trim text in
      if trimmed = [] then None
      else Some \<lparr>pt_type = part_type, pt_text = Some trimmed, pt_id = None, pt_name = None, pt_args = None,
             pt_result = None, pt_metadata = None\<rparr>)"

definition text_part_with_metadata :: "rstr \<Rightarrow> rstr \<Rightarrow> metadata option \<Rightarrow> conversation_part option" where
  "text_part_with_metadata part_type text md = map_option (\<lambda>part. part\<lparr>pt_metadata := md\<rparr>) (text_part part_type text)"

definition parse_json_or_string :: "json_codec \<Rightarrow> rstr \<Rightarrow> json" where
  "parse_json_or_string J input =
     (let trimmed = trim input in
      if trimmed = [] then JStr [] else unwrap_or (JStr trimmed) (jc_parse J trimmed))"

definition ASSISTANT_TOOL_CALLS :: rstr where
  "ASSISTANT_TOOL_CALLS = lit ''assistant.tool_calls''"

definition assistant_tool_calls_from_metadata :: "metadata option \<Rightarrow> json list option" where
  "assistant_tool_calls_from_metadata md =
     opt_filter (\<lambda>items. items \<noteq> [])
       (Option.bind md (\<lambda>items. Option.bind (items ASSISTANT_TOOL_CALLS)
         (\<lambda>v. case v of JArr vs \<Rightarrow> Some vs | _ \<Rightarrow> None)))"

definition tool_call_part :: "json_codec \<Rightarrow> json \<Rightarrow> conversation_part" where
  "tool_call_part J call =
     \<lparr>pt_type = lit ''tool_call'', pt_text = None, pt_id = get_str call (lit ''id''),
      pt_name = Option.bind (json_get call (lit ''function'')) (\<lambda>f. get_str f (lit ''name'')),
      pt_args = Option.bind (json_get call (lit ''function'')) (\<lambda>f. map_option
        (\<lambda>v. case json_as_str v of Some s \<Rightarrow> parse_json_or_string J s | None \<Rightarrow> v) (json_get f (lit ''arguments''))),
      pt_result = None, pt_metadata = None\<rparr>"

definition normalized_tool_call_parts :: "json_codec \<Rightarrow> metadata option \<Rightarrow> conversation_part list" where
  "normalized_tool_call_parts J md = map (tool_call_part J) (unwrap_or [] (assistant_tool_calls_from_metadata md))"

definition md_str :: "metadata option \<Rightarrow> rstr \<Rightarrow> rstr option" where
  "md_str md key = Option.bind md (\<lambda>items. Option.bind (items key) json_as_str)"

definition md_flag :: "metadata option \<Rightarrow> rstr \<Rightarrow> bool" where
  "md_flag md key \<longleftrightarrow> unwrap_or False (Option.bind md (\<lambda>items. Option.bind (items key) json_as_bool))"

definition option_list :: "'a option \<Rightarrow> 'a list" where
  "option_list x = (case x of None \<Rightarrow> [] | Some v \<Rightarrow> [v])"

definition session_message_parts_from_legacy :: "json_codec \<Rightarrow> rstr \<Rightarrow> rstr \<Rightarrow> metadata option \<Rightarrow> conversation_part list" where
  "session_message_parts_from_legacy J role content md =
     (if role = lit ''user'' \<or> role = lit ''system'' then option_list (text_part_with_metadata (lit ''text'') content md)
      else if role = lit ''assistant'' then
        (let parts = normalized_tool_call_parts J md;
             part_type = (if parts = [] then lit ''text'' else lit ''final'')
         in parts @ option_list (text_part_with_metadata part_type content md))
      else if role = lit ''tool'' then
        [\<lparr>pt_type = lit ''tool_result'', pt_text = None, pt_id = md_str md (lit ''tool_call_id''),
          pt_name = md_str md (lit ''tool_name''), pt_args = None, pt_result = Some (parse_json_or_string J content),
          pt_metadata = md\<rparr>]
      else option_list (text_part_with_metadata (lit ''text'') content md))"

text \<open>A file written before messages had parts holds a text; reading it converts the text.\<close>

datatype content_compat = LegacyText rstr | Parts "conversation_part list"

definition message_of_compat ::
    "json_codec \<Rightarrow> rstr \<Rightarrow> content_compat \<Rightarrow> rstr option \<Rightarrow> rstr \<Rightarrow> metadata option \<Rightarrow> session_message" where
  "message_of_compat J role content status timestamp md =
     \<lparr>sm_role = role,
      sm_content = (case content of Parts ps \<Rightarrow> ps | LegacyText t \<Rightarrow> session_message_parts_from_legacy J role t md),
      sm_status = status, sm_timestamp = timestamp, sm_metadata = md\<rparr>"

definition tool_result_text :: "json_codec \<Rightarrow> conversation_part \<Rightarrow> rstr" where
  "tool_result_text J part =
     (case pt_result part of
        None \<Rightarrow> []
      | Some (JStr text) \<Rightarrow> text
      | Some v \<Rightarrow>
          (case v of
             JObj kvs \<Rightarrow>
               (case find (\<lambda>t. trim t \<noteq> []) (List.map_filter (get_str v)
                   [lit ''formatted_output'', lit ''aggregated_output'', lit ''stdout'', lit ''text'']) of
                  Some text \<Rightarrow> text
                | None \<Rightarrow> jc_print J v)
           | _ \<Rightarrow> jc_print J v))"

definition part_texts :: "conversation_part list \<Rightarrow> rstr list" where
  "part_texts parts = filter (\<lambda>t. t \<noteq> []) (map trim (List.map_filter pt_text parts))"

definition session_message_text :: "json_codec \<Rightarrow> session_message \<Rightarrow> rstr" where
  "session_message_text J m =
     (let text = intercalate [10] (part_texts (sm_content m))
      in if text \<noteq> [] then text
         else case find (\<lambda>part. pt_type part = lit ''tool_result'') (sm_content m) of
                Some part \<Rightarrow> tool_result_text J part
              | None \<Rightarrow> [])"

definition session_message_from_text :: "json_codec \<Rightarrow> rstr \<Rightarrow> rstr \<Rightarrow> rstr \<Rightarrow> metadata option \<Rightarrow> session_message" where
  "session_message_from_text J role content timestamp md =
     \<lparr>sm_role = role, sm_content = session_message_parts_from_legacy J role content md,
      sm_status = Some (lit ''completed''), sm_timestamp = timestamp, sm_metadata = md\<rparr>"

definition restore_tool_message :: "json_codec \<Rightarrow> session_message \<Rightarrow> (rstr \<times> rstr \<times> rstr) option" where
  "restore_tool_message J m =
     (if sm_role m = lit ''tool'' then
        Option.bind (md_str (sm_metadata m) (lit ''tool_name'')) (\<lambda>name.
          if trim name = [] then None
          else Some (trim (unwrap_or [] (md_str (sm_metadata m) (lit ''tool_call_id''))), trim name, session_message_text J m))
      else map_option (\<lambda>part. (unwrap_or [] (pt_id part), unwrap_or [] (pt_name part), tool_result_text J part))
             (find (\<lambda>part. pt_type part = lit ''tool_result'') (sm_content m)))"

section \<open>Marks in the metadata\<close>

definition SLASH_SKILL_KEY :: rstr where
  "SLASH_SKILL_KEY = lit ''skill_runtime.slash_skill''"

definition COMPACT_BOUNDARY_KEY :: rstr where
  "COMPACT_BOUNDARY_KEY = lit ''session.compact_boundary''"

definition COMPACT_SUMMARY_KEY :: rstr where
  "COMPACT_SUMMARY_KEY = lit ''session.compact_summary''"

definition COMPACT_SKILL_SNAPSHOT_KEY :: rstr where
  "COMPACT_SKILL_SNAPSHOT_KEY = lit ''session.compact_skill_snapshot''"

definition message_is_slash_skill :: "metadata option \<Rightarrow> bool" where
  "message_is_slash_skill md \<longleftrightarrow> (case md_str md SLASH_SKILL_KEY of None \<Rightarrow> False | Some v \<Rightarrow> trim v \<noteq> [])"

definition message_is_compact_boundary :: "metadata option \<Rightarrow> bool" where
  "message_is_compact_boundary md = md_flag md COMPACT_BOUNDARY_KEY"

definition message_is_compact_summary :: "metadata option \<Rightarrow> bool" where
  "message_is_compact_summary md = md_flag md COMPACT_SUMMARY_KEY"

definition message_is_compact_skill_snapshot :: "metadata option \<Rightarrow> bool" where
  "message_is_compact_skill_snapshot md = md_flag md COMPACT_SKILL_SNAPSHOT_KEY"

definition build_tool_message_metadata_parts :: "rstr \<Rightarrow> rstr option \<Rightarrow> json option \<Rightarrow> metadata" where
  "build_tool_message_metadata_parts tool_name call_id args =
     (let md = [lit ''tool_name'' \<mapsto> JStr tool_name];
          md = (case opt_filter (\<lambda>v. v \<noteq> []) (map_option trim call_id) of
                  Some c \<Rightarrow> md(lit ''tool_call_id'' \<mapsto> JStr c) | None \<Rightarrow> md)
      in case args of Some v \<Rightarrow> md(lit ''tool_arguments'' \<mapsto> v) | None \<Rightarrow> md)"

definition build_assistant_message_metadata :: "json list \<Rightarrow> metadata" where
  "build_assistant_message_metadata calls =
     (if calls = [] then Map.empty else [ASSISTANT_TOOL_CALLS \<mapsto> JArr calls])"

definition build_compact_boundary_metadata :: "rstr \<Rightarrow> nat \<Rightarrow> nat \<Rightarrow> metadata" where
  "build_compact_boundary_metadata trigger summarized pre =
     [COMPACT_BOUNDARY_KEY \<mapsto> JBool True, lit ''trigger'' \<mapsto> JStr trigger,
      lit ''messages_summarized'' \<mapsto> JInt (int summarized), lit ''pre_summary_messages'' \<mapsto> JInt (int pre)]"

definition build_compact_summary_metadata :: "rstr \<Rightarrow> metadata" where
  "build_compact_summary_metadata source = [COMPACT_SUMMARY_KEY \<mapsto> JBool True, lit ''source'' \<mapsto> JStr source]"

definition build_compact_skill_snapshot_metadata :: "rstr \<Rightarrow> metadata" where
  "build_compact_skill_snapshot_metadata skill_name =
     [COMPACT_SKILL_SNAPSHOT_KEY \<mapsto> JBool True, lit ''skill_name'' \<mapsto> JStr skill_name]"

section \<open>What the model sees\<close>

definition select_context_messages :: "session_message list \<Rightarrow> nat option \<Rightarrow> session_message list" where
  "select_context_messages ms limit =
     (let filtered = filter (\<lambda>m. session_message_in_context (sm_role m)) ms
      in case limit of
           Some n \<Rightarrow> if length filtered > n then last_n n filtered else filtered
         | None \<Rightarrow> filtered)"

text \<open>\<^verbatim>\<open>rposition\<close>: the last position of a boundary.\<close>

definition find_last_compact_boundary_index :: "session_message list \<Rightarrow> nat option" where
  "find_last_compact_boundary_index ms = rposition (\<lambda>m. message_is_compact_boundary (sm_metadata m)) ms"

definition select_messages_after_compact_boundary :: "session_message list \<Rightarrow> nat option \<Rightarrow> session_message list" where
  "select_messages_after_compact_boundary ms limit =
     select_context_messages
       (case find_last_compact_boundary_index ms of Some i \<Rightarrow> drop i ms | None \<Rightarrow> ms) limit"

definition latest_compact_summary :: "session_message list \<Rightarrow> session_message option" where
  "latest_compact_summary ms = find (\<lambda>m. message_is_compact_summary (sm_metadata m)) (rev ms)"

definition has_compact_skill_snapshot :: "session_message list \<Rightarrow> bool" where
  "has_compact_skill_snapshot ms \<longleftrightarrow> (\<exists>m \<in> set ms. message_is_compact_skill_snapshot (sm_metadata m))"

section \<open>Lemmas\<close>

lemma select_context_suffix:
  "\<exists>skipped. filter (\<lambda>m. session_message_in_context (sm_role m)) ms = skipped @ select_context_messages ms limit \<and>
     (case limit of None \<Rightarrow> skipped = []
      | Some n \<Rightarrow> length (select_context_messages ms limit) \<le> n \<and>
          (skipped = [] \<or> length (select_context_messages ms limit) = n))"
proof (cases limit)
  case None
  then show ?thesis by (simp add: select_context_messages_def)
next
  case (Some n)
  let ?f = "filter (\<lambda>m. session_message_in_context (sm_role m)) ms"
  show ?thesis
  proof (cases "length ?f > n")
    case True
    then have "select_context_messages ms limit = last_n n ?f" by (simp add: select_context_messages_def Some)
    then show ?thesis using last_n_suffix [of ?f n] Some True by auto
  next
    case False
    then have "select_context_messages ms limit = ?f" by (simp add: select_context_messages_def Some)
    then show ?thesis using Some False by simp
  qed
qed

lemma part_texts_legacy:
  assumes "role \<noteq> lit ''tool''"
  shows "part_texts (session_message_parts_from_legacy J role content md) = (if trim content = [] then [] else [trim content])"
proof -
  have calls: "List.map_filter pt_text (normalized_tool_call_parts J md) = []"
    by (auto simp: normalized_tool_call_parts_def List.map_filter_def tool_call_part_def filter_empty_conv)
  have one: "part_texts (option_list (text_part_with_metadata t content md)) = (if trim content = [] then [] else [trim content])" for t
    by (simp add: part_texts_def text_part_with_metadata_def text_part_def option_list_def Let_def List.map_filter_simps)
  have "part_texts (normalized_tool_call_parts J md @ ps) = part_texts ps" for ps
    by (simp add: part_texts_def map_filter_append calls)
  then show ?thesis using assms one by (simp add: session_message_parts_from_legacy_def Let_def)
qed

lemma no_tool_result_legacy:
  assumes "role \<noteq> lit ''tool''"
  shows "find (\<lambda>part. pt_type part = lit ''tool_result'') (session_message_parts_from_legacy J role content md) = None"
  using assms
  by (auto simp: find_None_iff session_message_parts_from_legacy_def option_list_def text_part_with_metadata_def text_part_def
      normalized_tool_call_parts_def tool_call_part_def Let_def split: if_splits option.splits)

text \<open>What was said is read back, apart from the spaces around it.\<close>

lemma text_of_from_text:
  assumes "role \<noteq> lit ''tool''"
  shows "session_message_text J (session_message_from_text J role content ts md) = trim content"
  using part_texts_legacy [OF assms, of J content md] no_tool_result_legacy [OF assms, of J content md]
  by (simp add: session_message_text_def session_message_from_text_def Let_def)

section \<open>Properties\<close>

text \<open>The model sees a recent window. What is selected is in order, no longer than the limit, made of user,
  assistant and tool messages only, and starts no earlier than the last compaction boundary; every such message
  after it is selected, unless the limit is reached.\<close>

theorem context_window:
  "\<exists>older recent skipped. ms = older @ recent \<and> (\<forall>m \<in> set (tl recent). \<not> message_is_compact_boundary (sm_metadata m)) \<and>
     (older = [] \<or> message_is_compact_boundary (sm_metadata (hd recent))) \<and>
     filter (\<lambda>m. session_message_in_context (sm_role m)) recent = skipped @ select_messages_after_compact_boundary ms limit \<and>
     (case limit of None \<Rightarrow> skipped = []
      | Some n \<Rightarrow> length (select_messages_after_compact_boundary ms limit) \<le> n \<and>
          (skipped = [] \<or> length (select_messages_after_compact_boundary ms limit) = n))"
proof -
  let ?B = "\<lambda>m. message_is_compact_boundary (sm_metadata m)" and ?C = "\<lambda>m. session_message_in_context (sm_role m)"
  define i where "i = unwrap_or 0 (find_last_compact_boundary_index ms)"
  have sel: "select_messages_after_compact_boundary ms limit = select_context_messages (drop i ms) limit"
    by (simp add: select_messages_after_compact_boundary_def i_def split: option.split)
  have tail: "\<forall>m \<in> set (tl (drop i ms)). \<not> ?B m"
  proof (cases "find_last_compact_boundary_index ms")
    case None
    then have "\<forall>m \<in> set ms. \<not> ?B m" by (simp add: find_last_compact_boundary_index_def rposition_None)
    then show ?thesis by (metis in_set_dropD list.set_sel(2) tl_Nil)
  next
    case (Some k)
    then have k: "rposition ?B ms = Some k" "i = k" by (simp_all add: find_last_compact_boundary_index_def i_def)
    have "tl (drop i ms) = drop (Suc i) ms" by (metis drop_Suc tl_drop)
    then show ?thesis using rposition_Some(3) [OF k(1)] k(2) by (auto simp: in_set_conv_nth)
  qed
  have front: "take i ms = [] \<or> ?B (hd (drop i ms))"
  proof (cases "find_last_compact_boundary_index ms")
    case (Some k)
    then have k: "rposition ?B ms = Some k" "i = k" by (simp_all add: find_last_compact_boundary_index_def i_def)
    then show ?thesis using rposition_Some(1,2) [OF k(1)] by (simp add: hd_drop_conv_nth)
  qed (simp add: i_def)
  obtain skipped where sk: "filter ?C (drop i ms) = skipped @ select_context_messages (drop i ms) limit"
    "case limit of None \<Rightarrow> skipped = []
      | Some n \<Rightarrow> length (select_context_messages (drop i ms) limit) \<le> n \<and>
          (skipped = [] \<or> length (select_context_messages (drop i ms) limit) = n)"
    using select_context_suffix [of "drop i ms" limit] by blast
  show ?thesis
    unfolding sel
    by (rule exI [of _ "take i ms"], rule exI [of _ "drop i ms"], rule exI [of _ skipped]) (use tail front sk in simp)
qed

definition demo_message :: "rstr \<Rightarrow> metadata option \<Rightarrow> session_message" where
  "demo_message role md = \<lparr>sm_role = role, sm_content = [], sm_status = None, sm_timestamp = [], sm_metadata = md\<rparr>"

theorem context_window_witness:
  "let ms = [demo_message (lit ''user'') None, demo_message (lit ''system'') (Some (build_compact_boundary_metadata [] 1 1)),
             demo_message (lit ''user'') None]
   in \<exists>older recent skipped. ms = older @ recent \<and>
     (\<forall>m \<in> set (tl recent). \<not> message_is_compact_boundary (sm_metadata m)) \<and>
     filter (\<lambda>m. session_message_in_context (sm_role m)) recent = skipped @ select_messages_after_compact_boundary ms (Some 1) \<and>
     length (select_messages_after_compact_boundary ms (Some 1)) \<le> 1"
  using context_window [of "[demo_message (lit ''user'') None,
      demo_message (lit ''system'') (Some (build_compact_boundary_metadata [] 1 1)), demo_message (lit ''user'') None]" "Some 1"]
  unfolding Let_def option.case by blast

end
