(* ===== verification/Session_Store.thy ===== *)
theory Session_Store
  imports Session_Message
begin

text \<open>
  \<^verbatim>\<open>memory/src/session.rs\<close> (the storage) and \<^verbatim>\<open>session_sqlite.rs\<close>: one JSON file per conversation, and an optional
  SQLite index that mirrors the files or, as the main backend, is read first. Every operation on a conversation
  holds its lock, so it is one step; it reads one clock value. The PostgreSQL backend is not modelled. Serialising a
  conversation and reading it back gives the same conversation.
\<close>

section \<open>Conversations\<close>

record session_summary =
  sy_content :: rstr
  sy_updated_at :: rstr

record chat_session =
  cs_version :: nat
  cs_id :: rstr
  cs_actor :: "actor option"
  cs_identity :: "session option"
  cs_created_at :: rstr
  cs_updated_at :: rstr
  cs_messages :: "session_message list"
  cs_metadata :: metadata
  cs_frozen_time :: rstr
  cs_summary :: "session_summary option"

definition default_session_version :: nat where
  "default_session_version = 4"

text \<open>\<^verbatim>\<open>ensure_frozen_time\<close>: the time the prompt of a conversation shows is set once.\<close>

definition ensure_frozen_time :: "rstr \<Rightarrow> rstr \<Rightarrow> rstr" where
  "ensure_frozen_time now frozen = (if trim frozen = [] then now else frozen)"

section \<open>The index\<close>

text \<open>The columns of the table \<^verbatim>\<open>sessions\<close> that a statement reads, the rows of \<^verbatim>\<open>session_messages\<close>, and the table
  \<^verbatim>\<open>session_metadata\<close> by its key. \<open>ix_fault\<close> is what every statement fails with, if anything, \<open>ix_write_fault\<close> what the statements that
  write fail with (a full disk, a lock held by another process).\<close>

record index_row =
  ir_session_id :: rstr
  ir_source_path :: rstr
  ir_actor_channel :: "rstr option"
  ir_actor_user_id :: "rstr option"
  ir_actor_scope :: "rstr option"
  ir_session_kind :: "session_kind option"
  ir_updated_at :: rstr
  ir_last_role :: "rstr option"
  ir_json :: chat_session

record session_index =
  ix_rows :: "index_row list"
  ix_messages :: "(rstr \<times> nat \<times> session_message) list"
  ix_metadata :: "rstr \<times> rstr \<rightharpoonup> json"
  ix_fault :: "rstr option"
  ix_write_fault :: "rstr option"

record interrupted =
  in_session_id :: rstr
  in_user_id :: rstr
  in_scope :: "rstr option"

definition sql_failed :: "rstr \<Rightarrow> hone_error" where
  "sql_failed e = Config (lit ''Session SQLite '' @ [25805, 20316, 22833, 36133] @ lit '': '' @ e)"

definition row_of_session :: "rstr \<Rightarrow> chat_session \<Rightarrow> index_row" where
  "row_of_session path s =
     \<lparr>ir_session_id = cs_id s, ir_source_path = path,
      ir_actor_channel = map_option a_channel (cs_actor s), ir_actor_user_id = map_option a_user_id (cs_actor s),
      ir_actor_scope = Option.bind (cs_actor s) a_channel_scope,
      ir_session_kind = map_option s_kind (cs_identity s), ir_updated_at = cs_updated_at s,
      ir_last_role = (if cs_messages s = [] then None else Some (sm_role (last (cs_messages s)))), ir_json = s\<rparr>"

text \<open>The statements of \<^verbatim>\<open>upsert_session\<close> are one transaction. A path belongs to one row (\<^verbatim>\<open>UNIQUE\<close>).\<close>

definition index_upsert :: "rstr \<Rightarrow> chat_session \<Rightarrow> session_index \<Rightarrow> hone_error + session_index" where
  "index_upsert path s ix =
     (case or_else (ix_fault ix) (ix_write_fault ix) of
        Some e \<Rightarrow> Inl (sql_failed e)
      | None \<Rightarrow>
          (let rows = filter (\<lambda>r. ir_session_id r \<noteq> cs_id s) (ix_rows ix) in
           if path \<in> ir_source_path ` set rows then Inl (sql_failed (lit ''UNIQUE constraint failed: sessions.source_path''))
           else Inr (ix\<lparr>ix_rows := rows @ [row_of_session path s],
                 ix_messages := filter (\<lambda>(i, _). i \<noteq> cs_id s) (ix_messages ix)
                   @ map (\<lambda>(k, m). (cs_id s, k, m)) (enumerate 0 (cs_messages s)),
                 ix_metadata := (\<lambda>(i, k). if i = cs_id s then cs_metadata s k else ix_metadata ix (i, k))\<rparr>)))"

definition index_load :: "rstr \<Rightarrow> session_index \<Rightarrow> hone_error + chat_session option" where
  "index_load sid ix =
     (case ix_fault ix of
        Some e \<Rightarrow> Inl (sql_failed e)
      | None \<Rightarrow> Inr (map_option ir_json (find (\<lambda>r. ir_session_id r = sid) (ix_rows ix))))"

text \<open>\<^verbatim>\<open>ORDER BY updated_at DESC\<close>, on the texts.\<close>

definition newest_first :: "('a \<Rightarrow> rstr) \<Rightarrow> 'a list \<Rightarrow> 'a list" where
  "newest_first f xs = rev (sort_key f (rev xs))"

definition index_list :: "session_index \<Rightarrow> hone_error + chat_session list" where
  "index_list ix =
     (case ix_fault ix of
        Some e \<Rightarrow> Inl (sql_failed e)
      | None \<Rightarrow> Inr (map ir_json (newest_first ir_updated_at (ix_rows ix))))"

definition index_find_interrupted :: "rstr \<Rightarrow> rstr \<Rightarrow> rstr \<Rightarrow> session_index \<Rightarrow> hone_error + interrupted list" where
  "index_find_interrupted channel after before ix =
     (case ix_fault ix of
        Some e \<Rightarrow> Inl (sql_failed e)
      | None \<Rightarrow> Inr (map (\<lambda>r. \<lparr>in_session_id = ir_session_id r, in_user_id = unwrap_or [] (ir_actor_user_id r),
                    in_scope = ir_actor_scope r\<rparr>)
            (newest_first ir_updated_at
              (filter (\<lambda>r. ir_actor_channel r = Some channel \<and> ir_session_kind r = Some Direct \<and>
                 ir_last_role r = Some (lit ''user'') \<and> after < ir_updated_at r \<and> ir_updated_at r < before) (ix_rows ix)))))"

section \<open>Paths\<close>

datatype path_component = RootDir | CurDir | ParentDir | NormalComp rstr

text \<open>\<^verbatim>\<open>Path::components\<close> on Unix: repeated separators and inner dots are skipped.\<close>

definition path_components :: "rstr \<Rightarrow> path_component list" where
  "path_components s =
     (let pieces = split_by (\<lambda>c. c = 47) s;
          front = (if starts_with s (lit ''/'') then [RootDir] else if hd pieces = lit ''.'' then [CurDir] else [])
      in front @ map (\<lambda>p. if p = lit ''..'' then ParentDir else NormalComp p)
           (filter (\<lambda>p. p \<noteq> [] \<and> p \<noteq> lit ''.'') pieces))"

definition validate_storage_component :: "rstr \<Rightarrow> rstr option" where
  "validate_storage_component value =
     (let trimmed = trim value in
      if trimmed = [] then None
      else case path_components trimmed of
             NormalComp component # rest \<Rightarrow> if rest \<noteq> [] then None else if component = [] then None else Some component
           | _ \<Rightarrow> None)"

definition msg_bad_session_id :: hone_error where
  "msg_bad_session_id = Config (lit ''session_id '' @ [21253, 21547, 38750, 27861, 36335, 24452, 32452, 20214])"

definition session_json_path :: "rstr \<Rightarrow> rstr hone_result" where
  "session_json_path sid =
     (case validate_storage_component sid of None \<Rightarrow> Inl msg_bad_session_id | Some n \<Rightarrow> Inr (n @ lit ''.json''))"

section \<open>The storage\<close>

datatype session_backend = JsonBackend | SqliteBackend

text \<open>\<^verbatim>\<open>from_config_value\<close>; the third backend is not modelled.\<close>

definition backend_from_config_value :: "rstr \<Rightarrow> session_backend option" where
  "backend_from_config_value v =
     (let v = trim v in
      if v = lit ''sqlite'' then Some SqliteBackend else if v = lit ''cloud_pg'' then None else Some JsonBackend)"

record session_storage =
  ss_files :: "chat_session disk"
  ss_index :: "session_index option"
  ss_backend :: session_backend
  ss_shadow :: bool

definition load_session_from_json :: "rstr \<Rightarrow> session_storage \<Rightarrow> chat_session option hone_result" where
  "load_session_from_json sid st =
     (case session_json_path sid of
        Inl e \<Rightarrow> Inl e
      | Inr path \<Rightarrow>
          (case disk_get (ss_files st) path of
             None \<Rightarrow> Inr None
           | Some (Parsed s) \<Rightarrow> Inr (Some s)
           | Some (Malformed e) \<Rightarrow> Inl (Serialization e)
           | Some (Unreadable e) \<Rightarrow> Inl (Io e)))"

text \<open>A mirror that fails is logged and otherwise ignored.\<close>

definition shadow_write_session :: "rstr \<Rightarrow> chat_session \<Rightarrow> session_storage \<Rightarrow> session_storage" where
  "shadow_write_session path s st =
     (if \<not> ss_shadow st then st
      else case ss_index st of
             None \<Rightarrow> st
           | Some ix \<Rightarrow>
               (case index_upsert path s ix of Inr ix' \<Rightarrow> st\<lparr>ss_index := Some ix'\<rparr> | Inl e \<Rightarrow> st))"

definition write_session_to_sqlite :: "rstr \<Rightarrow> chat_session \<Rightarrow> session_storage \<Rightarrow> session_storage \<times> unit hone_result" where
  "write_session_to_sqlite path s st =
     (case ss_index st of
        None \<Rightarrow> (shadow_write_session path s st, Inr ())
      | Some ix \<Rightarrow>
          (case index_upsert path s ix of
             Inr ix' \<Rightarrow> (st\<lparr>ss_index := Some ix'\<rparr>, Inr ())
           | Inl e \<Rightarrow> (st, Inl e)))"

definition write_session :: "rstr \<Rightarrow> chat_session \<Rightarrow> session_storage \<Rightarrow> session_storage \<times> unit hone_result" where
  "write_session sid s st =
     (case session_json_path sid of
        Inl e \<Rightarrow> (st, Inl e)
      | Inr path \<Rightarrow>
          (case disk_write (ss_files st) path s of
             Inl e \<Rightarrow> (st, Inl (Io e))
           | Inr files \<Rightarrow>
               (let st = st\<lparr>ss_files := files\<rparr> in
                case ss_backend st of
                  JsonBackend \<Rightarrow> (shadow_write_session path s st, Inr ())
                | SqliteBackend \<Rightarrow> write_session_to_sqlite path s st)))"

text \<open>With the index as the main backend a miss is looked up in the files, and a hit there is written to the index.\<close>

definition load_session :: "rstr \<Rightarrow> session_storage \<Rightarrow> session_storage \<times> chat_session option hone_result" where
  "load_session sid st =
     (case ss_backend st of
        JsonBackend \<Rightarrow> (st, load_session_from_json sid st)
      | SqliteBackend \<Rightarrow>
          (case (case ss_index st of None \<Rightarrow> Inr None | Some ix \<Rightarrow> index_load sid ix) of
             Inl e \<Rightarrow> (st, Inl e)
           | Inr (Some s) \<Rightarrow> (st, Inr (Some s))
           | Inr None \<Rightarrow>
               (case load_session_from_json sid st of
                  Inl e \<Rightarrow> (st, Inl e)
                | Inr None \<Rightarrow> (st, Inr None)
                | Inr (Some s) \<Rightarrow>
                    (case session_json_path sid of
                       Inl e \<Rightarrow> (st, Inr (Some s))
                     | Inr path \<Rightarrow> (fst (write_session_to_sqlite path s st), Inr (Some s))))))"

text \<open>\<open>fresh\<close> is the UUID for a conversation that names neither an id nor an owner.\<close>

definition new_session :: "rstr \<Rightarrow> rstr \<Rightarrow> actor option \<Rightarrow> session option \<Rightarrow> chat_session" where
  "new_session now sid a identity =
     \<lparr>cs_version = default_session_version, cs_id = sid, cs_actor = a, cs_identity = identity, cs_created_at = now,
      cs_updated_at = now, cs_messages = [], cs_metadata = Map.empty, cs_frozen_time = now, cs_summary = None\<rparr>"

definition new_session_id :: "rstr \<Rightarrow> rstr option \<Rightarrow> actor option \<Rightarrow> session option \<Rightarrow> rstr option" where
  "new_session_id fresh sid a identity =
     (case sid of
        Some raw \<Rightarrow> validate_storage_component raw
      | None \<Rightarrow> Some (unwrap_or fresh (or_else (map_option session_id identity) (map_option actor_session_id a))))"

definition create_session ::
    "rstr \<Rightarrow> rstr \<Rightarrow> rstr option \<Rightarrow> actor option \<Rightarrow> session option \<Rightarrow> session_storage \<Rightarrow> session_storage \<times> rstr hone_result" where
  "create_session now fresh sid a identity st =
     (case new_session_id fresh sid a identity of
        None \<Rightarrow> (st, Inl msg_bad_session_id)
      | Some n \<Rightarrow>
          (let identity = or_else identity (Option.bind a (\<lambda>b. result_ok (session_from_actor b)));
               (st, r) = write_session n (new_session now n a identity) st
           in (st, map_sum id (\<lambda>_. n) r)))"

definition create_session_for_actor :: "rstr \<Rightarrow> rstr \<Rightarrow> actor \<Rightarrow> session_storage \<Rightarrow> session_storage \<times> rstr hone_result" where
  "create_session_for_actor now fresh a =
     create_session now fresh (Some (actor_session_id a)) (Some a) (result_ok (session_from_actor a))"

definition create_session_for_identity ::
    "rstr \<Rightarrow> rstr \<Rightarrow> session \<Rightarrow> actor option \<Rightarrow> session_storage \<Rightarrow> session_storage \<times> rstr hone_result" where
  "create_session_for_identity now fresh identity a =
     create_session now fresh (Some (session_id identity)) a (Some identity)"

text \<open>The operations that load a conversation, change it and write it back. \<open>change\<close> answers \<open>None\<close> to leave it.\<close>

definition rewrite_session ::
    "rstr \<Rightarrow> rstr \<Rightarrow> (chat_session \<Rightarrow> chat_session option) \<Rightarrow> session_storage \<Rightarrow> session_storage \<times> bool hone_result" where
  "rewrite_session now sid change st =
     (case load_session sid st of
        (st, Inl e) \<Rightarrow> (st, Inl e)
      | (st, Inr None) \<Rightarrow> (st, Inr False)
      | (st, Inr (Some s)) \<Rightarrow>
          (case change s of
             None \<Rightarrow> (st, Inr False)
           | Some s' \<Rightarrow>
               (let (st, r) = write_session sid (s'\<lparr>cs_updated_at := now, cs_version := default_session_version\<rparr>) st
                in (st, map_sum id (\<lambda>_. True) r))))"

definition add_message ::
    "json_codec \<Rightarrow> rstr \<Rightarrow> rstr \<Rightarrow> rstr \<Rightarrow> rstr \<Rightarrow> metadata option \<Rightarrow> session_storage \<Rightarrow> session_storage \<times> bool hone_result" where
  "add_message J now sid role content md =
     rewrite_session now sid
       (\<lambda>s. Some (s\<lparr>cs_messages := cs_messages s @ [session_message_from_text J role content now md]\<rparr>))"

definition remove_last_message_if_matches ::
    "json_codec \<Rightarrow> rstr \<Rightarrow> rstr \<Rightarrow> rstr \<Rightarrow> rstr \<Rightarrow> session_storage \<Rightarrow> session_storage \<times> bool hone_result" where
  "remove_last_message_if_matches J now sid role content =
     rewrite_session now sid
       (\<lambda>s. if cs_messages s = [] then None
            else let m = last (cs_messages s) in
              if sm_role m \<noteq> role \<or> trim (session_message_text J m) \<noteq> trim content then None
              else Some (s\<lparr>cs_messages := butlast (cs_messages s)\<rparr>))"

definition replace_messages ::
    "rstr \<Rightarrow> rstr \<Rightarrow> session_message list \<Rightarrow> session_storage \<Rightarrow> session_storage \<times> bool hone_result" where
  "replace_messages now sid ms = rewrite_session now sid (\<lambda>s. Some (s\<lparr>cs_messages := ms\<rparr>))"

definition replace_messages_with_summary ::
    "rstr \<Rightarrow> rstr \<Rightarrow> session_message list \<Rightarrow> session_summary option \<Rightarrow> session_storage \<Rightarrow> session_storage \<times> bool hone_result" where
  "replace_messages_with_summary now sid ms summary =
     rewrite_session now sid (\<lambda>s. Some (s\<lparr>cs_messages := ms, cs_summary := summary\<rparr>))"

definition append_session_messages ::
    "rstr \<Rightarrow> rstr \<Rightarrow> session_message list \<Rightarrow> session_storage \<Rightarrow> session_storage \<times> bool hone_result" where
  "append_session_messages now sid ms = rewrite_session now sid (\<lambda>s. Some (s\<lparr>cs_messages := cs_messages s @ ms\<rparr>))"

definition update_metadata :: "rstr \<Rightarrow> rstr \<Rightarrow> metadata \<Rightarrow> session_storage \<Rightarrow> session_storage \<times> bool hone_result" where
  "update_metadata now sid md = rewrite_session now sid (\<lambda>s. Some (s\<lparr>cs_metadata := cs_metadata s ++ md\<rparr>))"

definition ensure_prompt_state :: "rstr \<Rightarrow> rstr \<Rightarrow> session_storage \<Rightarrow> session_storage \<times> rstr option hone_result" where
  "ensure_prompt_state now sid st =
     (case load_session sid st of
        (st, Inl e) \<Rightarrow> (st, Inl e)
      | (st, Inr None) \<Rightarrow> (st, Inr None)
      | (st, Inr (Some s)) \<Rightarrow>
          (let prompt = ensure_frozen_time now (cs_frozen_time s) in
           if prompt \<noteq> cs_frozen_time s then
             (let (st, r) = write_session sid
                (s\<lparr>cs_frozen_time := prompt, cs_version := default_session_version, cs_updated_at := now\<rparr>) st
              in (st, map_sum id (\<lambda>_. Some prompt) r))
           else (st, Inr (Some prompt))))"

definition get_messages :: "rstr \<Rightarrow> nat option \<Rightarrow> session_storage \<Rightarrow> session_storage \<times> session_message list hone_result" where
  "get_messages sid limit st =
     (case load_session sid st of
        (st, Inl e) \<Rightarrow> (st, Inl e)
      | (st, Inr None) \<Rightarrow> (st, Inr [])
      | (st, Inr (Some s)) \<Rightarrow>
          (st, Inr (case limit of Some n \<Rightarrow> last_n n (cs_messages s) | None \<Rightarrow> cs_messages s)))"

definition is_json_file :: "rstr \<Rightarrow> bool" where
  "is_json_file path \<longleftrightarrow> unwrap_or [] (strip_suffix (lit ''.json'') path) \<noteq> []"

definition list_sessions_from_json :: "session_storage \<Rightarrow> chat_session list hone_result" where
  "list_sessions_from_json st =
     Inr (newest_first cs_updated_at
       (List.map_filter (\<lambda>(path, f). if is_json_file path then parsed (Some f) else None) (d_files (ss_files st))))"

definition list_sessions :: "session_storage \<Rightarrow> chat_session list hone_result" where
  "list_sessions st =
     (case ss_backend st of
        JsonBackend \<Rightarrow> list_sessions_from_json st
      | SqliteBackend \<Rightarrow>
          (case ss_index st of
             None \<Rightarrow> list_sessions_from_json st
           | Some ix \<Rightarrow>
               (case index_list ix of
                  Inl e \<Rightarrow> Inl e
                | Inr ss \<Rightarrow> if ss \<noteq> [] then Inr ss else list_sessions_from_json st)))"

definition find_interrupted_sessions :: "rstr \<Rightarrow> rstr \<Rightarrow> rstr \<Rightarrow> session_storage \<Rightarrow> interrupted list hone_result" where
  "find_interrupted_sessions channel after before st =
     (case ss_index st of None \<Rightarrow> Inr [] | Some ix \<Rightarrow> index_find_interrupted channel after before ix)"

text \<open>Opening the storage: with an index, every file that parses is written to it; a failure is logged.\<close>

definition backfill_shadow_from_json_dir :: "session_storage \<Rightarrow> session_storage" where
  "backfill_shadow_from_json_dir st =
     (case ss_index st of
        None \<Rightarrow> st
      | Some ix \<Rightarrow>
          st\<lparr>ss_index := Some (fold (\<lambda>(path, f) ix.
               (if is_json_file path then
                  (case parsed (Some f) of
                     None \<Rightarrow> ix
                   | Some s \<Rightarrow> (case index_upsert path s ix of Inr ix' \<Rightarrow> ix' | Inl e \<Rightarrow> ix))
                else ix)) (d_files (ss_files st)) ix)\<rparr>)"

definition with_options :: "chat_session disk \<Rightarrow> session_index option \<Rightarrow> bool \<Rightarrow> session_backend \<Rightarrow> session_storage" where
  "with_options files opened shadow backend =
     backfill_shadow_from_json_dir
       \<lparr>ss_files = files, ss_index = (if shadow \<or> backend = SqliteBackend then opened else None), ss_backend = backend,
        ss_shadow = shadow\<rparr>"

section \<open>Runs of operations\<close>

datatype session_op =
    CreateSession rstr "rstr option" "actor option" "session option"
  | AddMessage rstr rstr rstr "metadata option"
  | RemoveLast rstr rstr rstr
  | ReplaceMessages rstr "session_message list"
  | ReplaceWithSummary rstr "session_message list" "session_summary option"
  | AppendMessages rstr "session_message list"
  | UpdateMetadata rstr metadata
  | EnsurePrompt rstr
  | GetMessages rstr "nat option"

datatype session_answer =
    Created "rstr hone_result" | Done "bool hone_result" | Prompt "rstr option hone_result"
  | Messages "session_message list hone_result"

fun perform_session :: "json_codec \<Rightarrow> rstr \<Rightarrow> session_op \<Rightarrow> session_storage \<Rightarrow> session_storage \<times> session_answer" where
  "perform_session J now (CreateSession fresh sid a identity) st = map_prod id Created (create_session now fresh sid a identity st)"
| "perform_session J now (AddMessage sid role content md) st = map_prod id Done (add_message J now sid role content md st)"
| "perform_session J now (RemoveLast sid role content) st =
     map_prod id Done (remove_last_message_if_matches J now sid role content st)"
| "perform_session J now (ReplaceMessages sid ms) st = map_prod id Done (replace_messages now sid ms st)"
| "perform_session J now (ReplaceWithSummary sid ms y) st = map_prod id Done (replace_messages_with_summary now sid ms y st)"
| "perform_session J now (AppendMessages sid ms) st = map_prod id Done (append_session_messages now sid ms st)"
| "perform_session J now (UpdateMetadata sid md) st = map_prod id Done (update_metadata now sid md st)"
| "perform_session J now (EnsurePrompt sid) st = map_prod id Prompt (ensure_prompt_state now sid st)"
| "perform_session J now (GetMessages sid limit) st = map_prod id Messages (get_messages sid limit st)"

fun perform_sessions :: "json_codec \<Rightarrow> (rstr \<times> session_op) list \<Rightarrow> session_storage \<Rightarrow> session_storage \<times> session_answer list" where
  "perform_sessions J [] st = (st, [])"
| "perform_sessions J ((now, op) # ops) st =
     (let (st, r) = perform_session J now op st; (st, rs) = perform_sessions J ops st in (st, r # rs))"

section \<open>The contract of an index\<close>

text \<open>What \<^verbatim>\<open>SessionIndex\<close> promises: an upsert stores the conversation under its id and leaves the others alone.\<close>

locale session_mirror =
  fixes look :: "'i \<Rightarrow> rstr \<Rightarrow> chat_session option"
    and upsert :: "rstr \<Rightarrow> chat_session \<Rightarrow> 'i \<Rightarrow> 'e + 'i"
  assumes look_upserted: "upsert path s i = Inr i' \<Longrightarrow> look i' (cs_id s) = Some s"
    and look_others: "upsert path s i = Inr i' \<Longrightarrow> k \<noteq> cs_id s \<Longrightarrow> look i' k = look i k"
begin

lemma look_upsert: "upsert path s i = Inr i' \<Longrightarrow> look i' k = (if k = cs_id s then Some s else look i k)"
  by (simp add: look_upserted look_others)

text \<open>A mirror that agrees with the files agrees with them after both are written.\<close>

lemma agrees_upsert:
  assumes "\<forall>k s. look i k = Some s \<longrightarrow> F k = Some s" "upsert path s i = Inr i'"
    and "\<And>k. F' k = (if k = cs_id s then Some s else F k)"
  shows "\<forall>k s. look i' k = Some s \<longrightarrow> F' k = Some s"
  using assms(1,3) look_upsert [OF assms(2)] by (auto split: if_splits)

lemma upsert_idempotent:
  assumes "upsert path s i = Inr i'" "upsert path s i' = Inr i''"
  shows "look i'' k = look i' k"
  using look_upsert [OF assms(1)] look_upsert [OF assms(2)] by simp

end

definition index_look :: "session_index \<Rightarrow> rstr \<Rightarrow> chat_session option" where
  "index_look ix sid = map_option ir_json (find (\<lambda>r. ir_session_id r = sid) (ix_rows ix))"

lemma find_filter_other: "(\<And>x. P x \<Longrightarrow> Q x) \<Longrightarrow> find P (filter Q xs) = find P xs"
  by (induction xs) auto

lemma find_append: "find P (xs @ ys) = (case find P xs of Some x \<Rightarrow> Some x | None \<Rightarrow> find P ys)"
  by (induction xs) auto

interpretation mirror: session_mirror index_look index_upsert
proof
  fix path s ix ix' and k :: rstr
  assume up: "index_upsert path s ix = Inr ix'"
  then have rows: "ix_rows ix' = filter (\<lambda>r. ir_session_id r \<noteq> cs_id s) (ix_rows ix) @ [row_of_session path s]"
    by (auto simp: index_upsert_def Let_def split: option.splits if_splits)
  have none: "find (\<lambda>r. ir_session_id r = cs_id s) (filter (\<lambda>r. ir_session_id r \<noteq> cs_id s) (ix_rows ix)) = None"
    by (simp add: find_None_iff)
  show "index_look ix' (cs_id s) = Some s"
    by (simp add: index_look_def rows find_append none row_of_session_def)
  show "index_look ix' k = index_look ix k" if "k \<noteq> cs_id s"
    using that by (simp add: index_look_def rows find_append find_filter_other row_of_session_def split: option.split)
qed

section \<open>The files decide\<close>

text \<open>Every file is named after its conversation.\<close>

definition named :: "chat_session disk \<Rightarrow> bool" where
  "named d \<longleftrightarrow> (\<forall>path s. disk_get d path = Some (Parsed s) \<longrightarrow>
     path = cs_id s @ lit ''.json'' \<and> validate_storage_component (cs_id s) = Some (cs_id s))"

definition filed :: "chat_session disk \<Rightarrow> rstr \<Rightarrow> chat_session option" where
  "filed d k = parsed (disk_get d (k @ lit ''.json''))"

text \<open>The index works and holds nothing the files do not hold.\<close>

definition mirrored :: "session_storage \<Rightarrow> bool" where
  "mirrored st \<longleftrightarrow> named (ss_files st) \<and>
     (case ss_index st of
        None \<Rightarrow> True
      | Some ix \<Rightarrow> ix_fault ix = None \<and> ix_write_fault ix = None \<and> (\<forall>r \<in> set (ix_rows ix). ir_source_path r = ir_session_id r @ lit ''.json'') \<and>
          (\<forall>k s. index_look ix k = Some s \<longrightarrow> filed (ss_files st) k = Some s))"

text \<open>The state the answers can be trusted in: files only, with a mirror in any state; or the index first, when it
  mirrors the files.\<close>

definition sound :: "session_storage \<Rightarrow> bool" where
  "sound st \<longleftrightarrow> ss_backend st = JsonBackend \<or> mirrored st"

text \<open>The same files without an index.\<close>

definition plain :: "chat_session disk \<Rightarrow> session_storage" where
  "plain d = \<lparr>ss_files = d, ss_index = None, ss_backend = JsonBackend, ss_shadow = False\<rparr>"

definition json_write :: "rstr \<Rightarrow> chat_session \<Rightarrow> chat_session disk \<Rightarrow> chat_session disk \<times> unit hone_result" where
  "json_write sid s d =
     (case session_json_path sid of
        Inl e \<Rightarrow> (d, Inl e)
      | Inr path \<Rightarrow> (case disk_write d path s of Inl e \<Rightarrow> (d, Inl (Io e)) | Inr d' \<Rightarrow> (d', Inr ())))"

definition json_load :: "rstr \<Rightarrow> chat_session disk \<Rightarrow> chat_session option hone_result" where
  "json_load sid d = load_session_from_json sid (plain d)"

lemma load_json [simp]: "load_session_from_json sid st = json_load sid (ss_files st)"
  by (cases "session_json_path sid") (simp_all add: json_load_def load_session_from_json_def plain_def)

lemma plain_load [simp]: "load_session sid (plain d) = (plain d, json_load sid d)"
  by (simp add: load_session_def plain_def)

lemma plain_files [simp]: "ss_files (plain d) = d"
  by (simp add: plain_def)

lemma plain_write [simp]: "write_session sid s (plain d) = (plain (fst (json_write sid s d)), snd (json_write sid s d))"
  by (simp add: write_session_def json_write_def plain_def shadow_write_session_def split: sum.split)

lemma shadow_write_frame [simp]:
  "ss_files (shadow_write_session path s st) = ss_files st" "ss_backend (shadow_write_session path s st) = ss_backend st"
  by (auto simp: shadow_write_session_def split: option.split sum.split)

lemma json_load_cases:
  "json_load sid d = (case validate_storage_component sid of None \<Rightarrow> Inl msg_bad_session_id
     | Some n \<Rightarrow> (case disk_get d (n @ lit ''.json'') of
         None \<Rightarrow> Inr None
       | Some (Parsed s) \<Rightarrow> Inr (Some s)
       | Some (Malformed e) \<Rightarrow> Inl (Serialization e)
       | Some (Unreadable e) \<Rightarrow> Inl (Io e)))"
  by (cases "validate_storage_component sid")
     (simp_all add: json_load_def load_session_from_json_def session_json_path_def del: load_json)

lemma json_load_Some:
  "json_load sid d = Inr (Some s) \<longleftrightarrow> (\<exists>n. session_json_path sid = Inr (n @ lit ''.json'') \<and> filed d n = Some s)"
proof (cases "validate_storage_component sid")
  case None
  then show ?thesis by (simp add: json_load_cases session_json_path_def)
next
  case (Some n)
  have "json_load sid d = Inr (Some s) \<longleftrightarrow> disk_get d (n @ lit ''.json'') = Some (Parsed s)"
    using Some by (simp add: json_load_cases split: option.split jfile.split)
  also have "\<dots> \<longleftrightarrow> filed d n = Some s" by (simp add: filed_def parsed_def split: option.split jfile.split)
  finally show ?thesis using Some by (simp add: session_json_path_def)
qed

lemma valid_path: "validate_storage_component n = Some n \<Longrightarrow> session_json_path n = Inr (n @ lit ''.json'')"
  by (simp add: session_json_path_def)

lemma named_filed:
  assumes "named d" "filed d k = Some s"
  shows "cs_id s = k" "validate_storage_component k = Some k"
proof -
  have "disk_get d (k @ lit ''.json'') = Some (Parsed s)"
    using assms(2) by (auto simp: filed_def parsed_def split: option.splits jfile.splits)
  then show "cs_id s = k" "validate_storage_component k = Some k"
    using assms(1) by (auto simp: named_def)
qed

lemma filed_put: "filed (disk_put d (n @ lit ''.json'') s) k = (if k = n then Some s else filed d k)"
  by (simp add: filed_def disk_get_put)

lemma named_put:
  assumes "named d" "validate_storage_component (cs_id s) = Some (cs_id s)"
  shows "named (disk_put d (cs_id s @ lit ''.json'') s)"
  using assms by (auto simp: named_def disk_get_put split: if_splits)

lemma index_upsert_ok:
  assumes "ix_fault ix = None" "ix_write_fault ix = None"
    and "\<forall>r \<in> set (ix_rows ix). ir_source_path r = ir_session_id r @ lit ''.json''"
  shows "\<exists>ix'. index_upsert (cs_id s @ lit ''.json'') s ix = Inr ix' \<and> ix_fault ix' = None \<and> ix_write_fault ix' = None \<and>
    (\<forall>r \<in> set (ix_rows ix'). ir_source_path r = ir_session_id r @ lit ''.json'')"
  using assms by (auto simp: index_upsert_def Let_def row_of_session_def)

lemma mirrored_write:
  assumes "mirrored st" "\<And>k. filed d k = (if k = cs_id s then Some s else filed (ss_files st) k)" "named d"
  shows "\<exists>st1. write_session_to_sqlite (cs_id s @ lit ''.json'') s (st\<lparr>ss_files := d\<rparr>) = (st1, Inr ()) \<and> mirrored st1 \<and>
    ss_files st1 = d \<and> ss_backend st1 = ss_backend st"
proof (cases "ss_index st")
  case None
  then show ?thesis using assms(1,3)
    by (auto simp: write_session_to_sqlite_def shadow_write_session_def mirrored_def)
next
  case (Some ix)
  then have ix: "ix_fault ix = None" "ix_write_fault ix = None" "\<forall>r \<in> set (ix_rows ix). ir_source_path r = ir_session_id r @ lit ''.json''"
    "\<forall>k s. index_look ix k = Some s \<longrightarrow> filed (ss_files st) k = Some s" using assms(1) by (auto simp: mirrored_def)
  obtain ix' where up: "index_upsert (cs_id s @ lit ''.json'') s ix = Inr ix'" "ix_fault ix' = None" "ix_write_fault ix' = None"
    "\<forall>r \<in> set (ix_rows ix'). ir_source_path r = ir_session_id r @ lit ''.json''"
    using index_upsert_ok [OF ix(1,2,3)] by blast
  have "\<forall>k s. index_look ix' k = Some s \<longrightarrow> filed d k = Some s"
    by (rule mirror.agrees_upsert [OF ix(4) up(1) assms(2)])
  then show ?thesis using Some up assms(3) by (auto simp: write_session_to_sqlite_def mirrored_def)
qed

lemma load_sound:
  assumes "sound st"
  shows "\<exists>st1. load_session sid st = (st1, json_load sid (ss_files st)) \<and> sound st1 \<and> ss_files st1 = ss_files st \<and>
    ss_backend st1 = ss_backend st"
proof (cases "ss_backend st")
  case JsonBackend
  then show ?thesis using assms by (auto simp: load_session_def)
next
  case SqliteBackend
  then have m: "mirrored st" using assms by (simp add: sound_def)
  then have named: "named (ss_files st)" by (simp add: mirrored_def)
  define found where "found = (case ss_index st of None \<Rightarrow> None | Some ix \<Rightarrow> index_look ix sid)"
  have found_eq: "(case ss_index st of None \<Rightarrow> Inr None | Some ix \<Rightarrow> index_load sid ix) = Inr found"
    using m by (auto simp: found_def index_load_def index_look_def mirrored_def split: option.splits)
  show ?thesis
  proof (cases found)
    case (Some s)
    then have "filed (ss_files st) sid = Some s" using m by (auto simp: found_def mirrored_def split: option.splits)
    then have "json_load sid (ss_files st) = Inr (Some s)"
      using named_filed [OF named] valid_path by (auto simp: json_load_Some)
    then show ?thesis using Some SqliteBackend assms by (simp add: load_session_def found_eq)
  next
    case None
    show ?thesis
    proof (cases "\<exists>s. json_load sid (ss_files st) = Inr (Some s)")
      case True
      then obtain s n where s: "json_load sid (ss_files st) = Inr (Some s)" "session_json_path sid = Inr (n @ lit ''.json'')"
        "filed (ss_files st) n = Some s" by (auto simp: json_load_Some)
      then have n: "cs_id s = n" using named_filed [OF named] by blast
      have "filed (ss_files st) k = (if k = cs_id s then Some s else filed (ss_files st) k)" for k
        using s(3) n by simp
      from mirrored_write [OF m this named]
      obtain st1 where w: "write_session_to_sqlite (n @ lit ''.json'') s st = (st1, Inr ())"
        "mirrored st1" "ss_files st1 = ss_files st" "ss_backend st1 = ss_backend st"
        unfolding n by auto
      then show ?thesis using None SqliteBackend s by (simp add: load_session_def found_eq sound_def)
    next
      case False
      then show ?thesis using None SqliteBackend assms
        by (auto simp: load_session_def found_eq split: sum.split option.split)
    qed
  qed
qed

lemma write_sound:
  assumes "sound st"
    and "ss_backend st = SqliteBackend \<Longrightarrow> session_json_path sid = Inr (cs_id s @ lit ''.json'') \<and>
      validate_storage_component (cs_id s) = Some (cs_id s)"
  shows "\<exists>st1. write_session sid s st = (st1, snd (json_write sid s (ss_files st))) \<and> sound st1 \<and>
    ss_files st1 = fst (json_write sid s (ss_files st)) \<and> ss_backend st1 = ss_backend st"
proof (cases "ss_backend st")
  case JsonBackend
  then show ?thesis
    by (cases "session_json_path sid"; cases "disk_write (ss_files st) (projr (session_json_path sid)) s")
       (use assms(1) in \<open>simp_all add: write_session_def json_write_def sound_def\<close>)
next
  case SqliteBackend
  then have m: "mirrored st" using assms(1) by (simp add: sound_def)
  have p: "session_json_path sid = Inr (cs_id s @ lit ''.json'')" "validate_storage_component (cs_id s) = Some (cs_id s)"
    using assms(2) SqliteBackend by auto
  show ?thesis
  proof (cases "d_write_error (ss_files st)")
    case (Some e)
    then show ?thesis using p assms(1) by (simp add: write_session_def json_write_def disk_write_def)
  next
    case None
    define d where "d = disk_put (ss_files st) (cs_id s @ lit ''.json'') s"
    have "filed d k = (if k = cs_id s then Some s else filed (ss_files st) k)" for k
      by (simp add: d_def filed_put)
    moreover have "named d" unfolding d_def by (rule named_put) (use m p in \<open>auto simp: mirrored_def\<close>)
    ultimately obtain st1 where "write_session_to_sqlite (cs_id s @ lit ''.json'') s (st\<lparr>ss_files := d\<rparr>) = (st1, Inr ())"
      "mirrored st1" "ss_files st1 = d" "ss_backend st1 = ss_backend st" using mirrored_write [OF m] by blast
    then show ?thesis using p None SqliteBackend
      by (simp add: write_session_def json_write_def disk_write_def sound_def d_def)
  qed
qed

text \<open>An operation acts the same as it would on the files alone.\<close>

definition acts_plain :: "(session_storage \<Rightarrow> session_storage \<times> 'a) \<Rightarrow> session_storage \<Rightarrow> bool" where
  "acts_plain f st \<longleftrightarrow> (\<exists>st1. f st = (st1, snd (f (plain (ss_files st)))) \<and> sound st1 \<and>
     plain (ss_files st1) = fst (f (plain (ss_files st))))"

lemma loaded_named:
  assumes "sound st" "ss_backend st = SqliteBackend" "json_load sid (ss_files st) = Inr (Some s)"
  shows "session_json_path sid = Inr (cs_id s @ lit ''.json'') \<and> validate_storage_component (cs_id s) = Some (cs_id s)"
  using assms named_filed by (fastforce simp: sound_def mirrored_def json_load_Some)

lemma write_plain:
  assumes "sound st"
    and "ss_backend st = SqliteBackend \<Longrightarrow> session_json_path sid = Inr (cs_id s @ lit ''.json'') \<and>
      validate_storage_component (cs_id s) = Some (cs_id s)"
  shows "acts_plain (write_session sid s) st"
  using write_sound [OF assms] by (auto simp: acts_plain_def)

lemma rewrite_plain:
  assumes "sound st" "\<And>s s'. change s = Some s' \<Longrightarrow> cs_id s' = cs_id s"
  shows "acts_plain (rewrite_session now sid change) st"
proof -
  obtain st1 where l: "load_session sid st = (st1, json_load sid (ss_files st))" "sound st1" "ss_files st1 = ss_files st"
    "ss_backend st1 = ss_backend st" using load_sound [OF assms(1)] by blast
  show ?thesis
  proof (cases "\<exists>s s'. json_load sid (ss_files st) = Inr (Some s) \<and> change s = Some s'")
    case True
    then obtain s s' where s: "json_load sid (ss_files st) = Inr (Some s)" "change s = Some s'" by blast
    let ?new = "s'\<lparr>cs_updated_at := now, cs_version := default_session_version\<rparr>"
    have "cs_id ?new = cs_id s" using assms(2) [OF s(2)] by simp
    then have "acts_plain (write_session sid ?new) st1"
      using loaded_named [OF l(2) _ s(1) [folded l(3)]] by (intro write_plain [OF l(2)]) simp
    then show ?thesis using s l by (auto simp: acts_plain_def rewrite_session_def)
  next
    case False
    then show ?thesis using l
      by (cases "json_load sid (ss_files st)")
         (auto simp: acts_plain_def rewrite_session_def split: option.split)
  qed
qed

lemma create_plain:
  assumes "sound st" "\<And>n. new_session_id fresh sid a identity = Some n \<Longrightarrow> validate_storage_component n = Some n"
  shows "acts_plain (create_session now fresh sid a identity) st"
proof (cases "new_session_id fresh sid a identity")
  case None
  then show ?thesis using assms(1) by (simp add: acts_plain_def create_session_def)
next
  case (Some n)
  define s where "s = new_session now n a (or_else identity (Option.bind a (\<lambda>b. result_ok (session_from_actor b))))"
  have n: "validate_storage_component n = Some n" by (rule assms(2) [OF Some])
  have "cs_id s = n" by (simp add: s_def new_session_def)
  then have "acts_plain (write_session n s) st" using n valid_path [OF n] by (intro write_plain [OF assms(1)]) simp
  then show ?thesis using Some by (auto simp: acts_plain_def create_session_def Let_def s_def)
qed

lemma prompt_plain:
  assumes "sound st"
  shows "acts_plain (ensure_prompt_state now sid) st"
proof -
  obtain st1 where l: "load_session sid st = (st1, json_load sid (ss_files st))" "sound st1" "ss_files st1 = ss_files st"
    "ss_backend st1 = ss_backend st" using load_sound [OF assms(1)] by blast
  show ?thesis
  proof (cases "\<exists>s. json_load sid (ss_files st) = Inr (Some s)")
    case True
    then obtain s where s: "json_load sid (ss_files st) = Inr (Some s)" by blast
    define new where "new = s\<lparr>cs_frozen_time := ensure_frozen_time now (cs_frozen_time s), cs_version := default_session_version,
      cs_updated_at := now\<rparr>"
    have "cs_id new = cs_id s" by (simp add: new_def)
    then have "acts_plain (write_session sid new) st1"
      using loaded_named [OF l(2) _ s [folded l(3)]] by (intro write_plain [OF l(2)]) simp
    then show ?thesis using s l by (auto simp: acts_plain_def ensure_prompt_state_def new_def Let_def)
  next
    case False
    then show ?thesis using l
      by (cases "json_load sid (ss_files st)")
         (auto simp: acts_plain_def ensure_prompt_state_def split: option.split)
  qed
qed

lemma get_plain:
  assumes "sound st"
  shows "acts_plain (get_messages sid limit) st"
proof -
  obtain st1 where l: "load_session sid st = (st1, json_load sid (ss_files st))" "sound st1" "ss_files st1 = ss_files st"
    using load_sound [OF assms(1)] by blast
  then show ?thesis
    by (cases "json_load sid (ss_files st)") (auto simp: acts_plain_def get_messages_def split: option.split)
qed

text \<open>The id a new conversation gets is the name of its file.\<close>

fun names_ok :: "session_op \<Rightarrow> bool" where
  "names_ok (CreateSession fresh sid a identity) \<longleftrightarrow>
     (case new_session_id fresh sid a identity of None \<Rightarrow> True | Some n \<Rightarrow> validate_storage_component n = Some n)"
| "names_ok _ \<longleftrightarrow> True"

lemma map_prod_plain: "acts_plain f st \<Longrightarrow> acts_plain (\<lambda>st. map_prod id g (f st)) st"
  by (auto simp: acts_plain_def)

lemma perform_plain:
  assumes "sound st" "names_ok op"
  shows "acts_plain (perform_session J now op) st"
proof (cases op)
  case (CreateSession fresh sid a identity)
  have "acts_plain (create_session now fresh sid a identity) st"
    by (rule create_plain [OF assms(1)]) (use assms(2) CreateSession in simp)
  then show ?thesis using map_prod_plain [of "create_session now fresh sid a identity" st Created] CreateSession
    by (simp add: perform_session.simps(1) [abs_def])
qed (use assms(1) in \<open>auto intro!: map_prod_plain [OF rewrite_plain] map_prod_plain [OF prompt_plain] map_prod_plain [OF get_plain]
      simp: perform_session.simps [abs_def] add_message_def remove_last_message_if_matches_def replace_messages_def
        replace_messages_with_summary_def append_session_messages_def update_metadata_def Let_def split: if_splits\<close>)

lemma perform_sessions_plain:
  assumes "sound st" "\<forall>(now, op) \<in> set ops. names_ok op"
  shows "acts_plain (perform_sessions J ops) st"
  using assms
proof (induction ops arbitrary: st)
  case Nil
  then show ?case by (simp add: acts_plain_def)
next
  case (Cons x ops)
  obtain now op where x: "x = (now, op)" by (cases x) auto
  have "acts_plain (perform_session J now op) st" by (rule perform_plain) (use Cons.prems x in auto)
  then obtain st1 where st1: "perform_session J now op st = (st1, snd (perform_session J now op (plain (ss_files st))))"
    "sound st1" "plain (ss_files st1) = fst (perform_session J now op (plain (ss_files st)))" by (auto simp: acts_plain_def)
  have "acts_plain (perform_sessions J ops) st1" by (rule Cons.IH) (use Cons.prems st1 in auto)
  then show ?case using st1 by (auto simp: acts_plain_def x split_beta)
qed

section \<open>Properties\<close>

text \<open>C23: the index cannot be seen. With the files as the backend, whatever the state of a mirror, broken or stale, or with the
  SQLite index as the main backend as long as it works and mirrors the files, it changes neither an answer nor a file: every run
  of the operations on single conversations gives the answers and leaves the files that the files alone would, as long as
  conversations are created under ids that are their own path component.\<close>

theorem index_invisible:
  assumes "sound st" "\<forall>(now, op) \<in> set ops. names_ok op"
  shows "let (st', answers) = perform_sessions J ops st; (files', answers') = perform_sessions J ops (plain (ss_files st))
     in answers = answers' \<and> plain (ss_files st') = files' \<and> sound st'"
  using perform_sessions_plain [OF assms, of J] by (auto simp: acts_plain_def split_beta Let_def)

text \<open>Which conversation an operation is about, and what it adds to it if it succeeds.\<close>

fun op_target :: "session_op \<Rightarrow> rstr" where
  "op_target (CreateSession fresh sid a identity) = unwrap_or [] (new_session_id fresh sid a identity)"
| "op_target (AddMessage sid role content md) = sid"
| "op_target (RemoveLast sid role content) = sid"
| "op_target (ReplaceMessages sid ms) = sid"
| "op_target (ReplaceWithSummary sid ms y) = sid"
| "op_target (AppendMessages sid ms) = sid"
| "op_target (UpdateMetadata sid md) = sid"
| "op_target (EnsurePrompt sid) = sid"
| "op_target (GetMessages sid limit) = sid"

fun only_grows :: "session_op \<Rightarrow> bool" where
  "only_grows (CreateSession fresh sid a identity) = False"
| "only_grows (RemoveLast sid role content) = False"
| "only_grows (ReplaceMessages sid ms) = False"
| "only_grows (ReplaceWithSummary sid ms y) = False"
| "only_grows _ = True"

fun added :: "json_codec \<Rightarrow> rstr \<Rightarrow> session_op \<Rightarrow> session_answer \<Rightarrow> session_message list" where
  "added J now (AddMessage sid role content md) (Done (Inr True)) = [session_message_from_text J role content now md]"
| "added J now (AppendMessages sid ms) (Done (Inr True)) = ms"
| "added J now op answer = []"

lemma added_nothing: "r \<noteq> Inr True \<Longrightarrow> added J now op (Done r) = []"
  by (cases "(J, now, op, Done r)" rule: added.cases) auto

text \<open>The file of a target: two ids may name the same one.\<close>

definition targets :: "rstr \<Rightarrow> session_op \<Rightarrow> bool" where
  "targets n op \<longleftrightarrow> validate_storage_component (op_target op) = Some n"

definition history_step ::
    "json_codec \<Rightarrow> rstr \<Rightarrow> rstr \<Rightarrow> session_op \<Rightarrow> chat_session \<Rightarrow> session_answer \<Rightarrow> chat_session \<Rightarrow> bool" where
  "history_step J n now op s answer s' \<longleftrightarrow>
     cs_messages s' = cs_messages s @ (if targets n op then added J now op answer else []) \<and>
     (trim (cs_frozen_time s) \<noteq> [] \<longrightarrow> cs_frozen_time s' = cs_frozen_time s) \<and>
     cs_id s' = cs_id s \<and> cs_actor s' = cs_actor s \<and> cs_identity s' = cs_identity s \<and> cs_created_at s' = cs_created_at s \<and>
     cs_summary s' = cs_summary s"

lemma filed_inject: "n @ lit ''.json'' = k @ lit ''.json'' \<longleftrightarrow> n = k"
  by simp

lemma json_write_filed:
  "filed (fst (json_write sid s d)) n =
     (if snd (json_write sid s d) = Inr () \<and> validate_storage_component sid = Some n then Some s else filed d n)"
  by (auto simp: json_write_def session_json_path_def disk_write_def filed_put split: option.split)

lemma json_load_filed:
  "validate_storage_component sid = Some n \<Longrightarrow> filed d n = Some s \<Longrightarrow> json_load sid d = Inr (Some s)"
  by (auto simp: json_load_Some session_json_path_def)

lemma rewrite_filed:
  assumes "filed d n = Some s"
  shows "filed (ss_files (fst (rewrite_session now sid change (plain d)))) n =
    (if validate_storage_component sid = Some n \<and> snd (rewrite_session now sid change (plain d)) = Inr True
     then Some ((the (change s))\<lparr>cs_updated_at := now, cs_version := default_session_version\<rparr>) else Some s)"
proof (cases "json_load sid d")
  case (Inl e)
  then show ?thesis using assms by (simp add: rewrite_session_def)
next
  case (Inr r)
  show ?thesis
  proof (cases r)
    case None
    then show ?thesis using Inr assms by (simp add: rewrite_session_def)
  next
    case (Some t)
    show ?thesis
    proof (cases "change t")
      case None
      then show ?thesis using Inr Some assms by (simp add: rewrite_session_def)
    next
      case (Some t')
      let ?new = "t'\<lparr>cs_updated_at := now, cs_version := default_session_version\<rparr>"
      have r: "rewrite_session now sid change (plain d) =
          (plain (fst (json_write sid ?new d)), map_sum id (\<lambda>_. True) (snd (json_write sid ?new d)))"
        using Inr \<open>r = Some t\<close> Some by (simp add: rewrite_session_def)
      have "t = s" if "validate_storage_component sid = Some n"
        using json_load_filed [OF that assms] Inr \<open>r = Some t\<close> by simp
      then show ?thesis using assms Some
        by (cases "snd (json_write sid ?new d)") (auto simp: r json_write_filed)
    qed
  qed
qed

text \<open>Loading a stored conversation, and rewriting it, in any sound storage.\<close>

lemma load_stored:
  assumes "sound st" "validate_storage_component sid = Some n" "filed (ss_files st) n = Some s"
  shows "\<exists>st1. load_session sid st = (st1, Inr (Some s)) \<and> sound st1 \<and> ss_files st1 = ss_files st"
  using load_sound [OF assms(1), of sid] json_load_filed [OF assms(2,3)] by auto

lemma rewrite_stored:
  assumes "sound st" "validate_storage_component sid = Some n" "filed (ss_files st) n = Some s"
    and "\<And>s s'. change s = Some s' \<Longrightarrow> cs_id s' = cs_id s"
  shows "\<exists>st1 r. rewrite_session now sid change st = (st1, r) \<and> sound st1 \<and>
    d_write_error (ss_files st1) = d_write_error (ss_files st) \<and>
    (\<forall>k. k \<noteq> n \<longrightarrow> filed (ss_files st1) k = filed (ss_files st) k) \<and>
    (case change s of
       None \<Rightarrow> r = Inr False \<and> filed (ss_files st1) n = Some s
     | Some s' \<Rightarrow> (case d_write_error (ss_files st) of
         None \<Rightarrow> r = Inr True \<and>
           filed (ss_files st1) n = Some (s'\<lparr>cs_updated_at := now, cs_version := default_session_version\<rparr>)
       | Some e \<Rightarrow> r = Inl (Io e) \<and> filed (ss_files st1) n = Some s))"
proof -
  let ?d = "ss_files st"
  obtain st1 where st1: "rewrite_session now sid change st = (st1, snd (rewrite_session now sid change (plain ?d)))" "sound st1"
    "plain (ss_files st1) = fst (rewrite_session now sid change (plain ?d))"
    using rewrite_plain [OF assms(1,4), of change now sid] by (auto simp: acts_plain_def)
  have load: "json_load sid ?d = Inr (Some s)" by (rule json_load_filed [OF assms(2,3)])
  have files: "ss_files st1 = ss_files (fst (rewrite_session now sid change (plain ?d)))"
    using arg_cong [OF st1(3), of ss_files] by simp
  show ?thesis
  proof (cases "change s")
    case None
    then show ?thesis using st1(1,2) load files assms(3) by (simp add: rewrite_session_def)
  next
    case (Some s')
    then show ?thesis using st1(1,2) load files assms(2,3)
      by (cases "d_write_error ?d")
         (simp_all add: rewrite_session_def json_write_def session_json_path_def disk_write_def filed_put)
  qed
qed

lemma prompt_filed:
  assumes "filed d n = Some s"
  shows "\<exists>frozen stamp version. filed (ss_files (fst (ensure_prompt_state now sid (plain d)))) n =
    Some (s\<lparr>cs_frozen_time := frozen, cs_version := version, cs_updated_at := stamp\<rparr>) \<and>
    (trim (cs_frozen_time s) \<noteq> [] \<or> validate_storage_component sid \<noteq> Some n \<longrightarrow> frozen = cs_frozen_time s)"
proof -
  have same: ?thesis if "filed (ss_files (fst (ensure_prompt_state now sid (plain d)))) n = Some s"
    using that by (intro exI [of _ "cs_frozen_time s"] exI [of _ "cs_updated_at s"] exI [of _ "cs_version s"]) simp
  show ?thesis
  proof (cases "\<exists>t. json_load sid d = Inr (Some t)")
    case False
    then show ?thesis using assms
      by (intro same) (cases "json_load sid d"; auto simp: ensure_prompt_state_def split: option.split)
  next
    case True
    then obtain t where t: "json_load sid d = Inr (Some t)" by blast
    have ts: "t = s" if "validate_storage_component sid = Some n"
      using json_load_filed [OF that assms] t by simp
    let ?new = "t\<lparr>cs_frozen_time := ensure_frozen_time now (cs_frozen_time t), cs_version := default_session_version,
      cs_updated_at := now\<rparr>"
    show ?thesis
    proof (cases "ensure_frozen_time now (cs_frozen_time t) = cs_frozen_time t")
      case True
      then show ?thesis using t assms by (intro same) (simp add: ensure_prompt_state_def)
    next
      case False
      then have files: "ss_files (fst (ensure_prompt_state now sid (plain d))) = fst (json_write sid ?new d)"
        using t by (simp add: ensure_prompt_state_def Let_def)
      show ?thesis
      proof (cases "snd (json_write sid ?new d) = Inr () \<and> validate_storage_component sid = Some n")
        case True
        then have "filed (fst (json_write sid ?new d)) n = Some ?new" by (simp add: json_write_filed)
        moreover have "trim (cs_frozen_time s) = []" using False ts True by (auto simp: ensure_frozen_time_def split: if_splits)
        ultimately show ?thesis using files ts True
          by (intro exI [of _ "ensure_frozen_time now (cs_frozen_time s)"] exI [of _ now] exI [of _ default_session_version]) simp
      next
        case False
        then show ?thesis using files assms by (intro same) (auto simp: json_write_filed)
      qed
    qed
  qed
qed

lemma get_messages_plain: "fst (get_messages sid limit (plain d)) = plain d"
  by (simp add: get_messages_def split: sum.split option.split)

lemma other_filed:
  assumes "filed d n = Some s" "\<not> targets n op" "names_ok op"
  shows "\<exists>s'. filed (ss_files (fst (perform_session J now op (plain d)))) n = Some s' \<and> history_step J n now op s answer s'"
proof -
  have rewritten: "filed (ss_files (fst (rewrite_session now sid change (plain d)))) n = Some s"
    if "validate_storage_component sid \<noteq> Some n" for sid change
    using that rewrite_filed [OF assms(1), of now sid change] by simp
  have created: "filed (ss_files (fst (create_session now fresh sid a identity (plain d)))) n = Some s"
    if "op = CreateSession fresh sid a identity" for fresh sid a identity
    using that assms by (auto simp: create_session_def Let_def json_write_filed targets_def split: option.split)
  have "\<exists>s'. filed (ss_files (fst (perform_session J now op (plain d)))) n = Some s' \<and>
      (s' = s \<or> (\<exists>stamp version. s' = s\<lparr>cs_frozen_time := cs_frozen_time s, cs_version := version, cs_updated_at := stamp\<rparr>))"
  proof (cases op)
    case (CreateSession fresh sid a identity)
    then show ?thesis using created by simp
  next
    case (EnsurePrompt sid)
    then show ?thesis using prompt_filed [OF assms(1), of now sid] assms(2) by (auto simp: targets_def)
  qed (use assms rewritten in \<open>auto simp: targets_def add_message_def remove_last_message_if_matches_def replace_messages_def
        replace_messages_with_summary_def append_session_messages_def update_metadata_def get_messages_plain\<close>)
  then show ?thesis using assms(2) by (auto simp: history_step_def)
qed

lemma rewrite_history:
  assumes "filed d n = Some s" "validate_storage_component sid = Some n"
    and "\<And>s. change s = Some (f s)" "r = rewrite_session now sid change (plain d)"
  shows "filed (ss_files (fst r)) n =
    Some (if snd r = Inr True then (f s)\<lparr>cs_updated_at := now, cs_version := default_session_version\<rparr> else s)"
  using rewrite_filed [OF assms(1), of now sid change] assms by simp

lemma grow_step:
  assumes "filed d n = Some s" "targets n op" "only_grows op"
  shows "\<exists>s'. filed (ss_files (fst (perform_session J now op (plain d)))) n = Some s' \<and>
    history_step J n now op s (snd (perform_session J now op (plain d))) s'"
proof (cases op)
  case (AddMessage sid role content md)
  then show ?thesis
    using rewrite_history [OF assms(1) _ _ refl, of sid _
        "\<lambda>s. s\<lparr>cs_messages := cs_messages s @ [session_message_from_text J role content now md]\<rparr>" now] assms(2)
    by (auto simp: targets_def add_message_def history_step_def added_nothing)
next
  case (AppendMessages sid ms)
  then show ?thesis
    using rewrite_history [OF assms(1) _ _ refl, of sid _ "\<lambda>s. s\<lparr>cs_messages := cs_messages s @ ms\<rparr>" now] assms(2)
    by (auto simp: targets_def append_session_messages_def history_step_def added_nothing)
next
  case (UpdateMetadata sid md)
  then show ?thesis
    using rewrite_history [OF assms(1) _ _ refl, of sid _ "\<lambda>s. s\<lparr>cs_metadata := cs_metadata s ++ md\<rparr>" now] assms(2)
    by (auto simp: targets_def update_metadata_def history_step_def)
next
  case (EnsurePrompt sid)
  then show ?thesis using prompt_filed [OF assms(1), of now sid] assms(2)
    by (auto simp: targets_def history_step_def)
next
  case (GetMessages sid limit)
  then show ?thesis using assms(1) by (simp add: get_messages_plain history_step_def)
qed (use assms(3) in simp_all)

definition history_run :: "json_codec \<Rightarrow> rstr \<Rightarrow> (rstr \<times> session_op) list \<Rightarrow> session_answer list \<Rightarrow> session_message list" where
  "history_run J n ops answers =
     concat (map (\<lambda>((now, op), answer). if targets n op then added J now op answer else []) (zip ops answers))"

lemma history_plain:
  assumes "\<forall>(now, op) \<in> set ops. names_ok op \<and> (targets n op \<longrightarrow> only_grows op)" "filed d n = Some s"
  shows "\<exists>s'. filed (ss_files (fst (perform_sessions J ops (plain d)))) n = Some s' \<and>
     cs_messages s' = cs_messages s @ history_run J n ops (snd (perform_sessions J ops (plain d))) \<and>
     (trim (cs_frozen_time s) \<noteq> [] \<longrightarrow> cs_frozen_time s' = cs_frozen_time s) \<and> cs_id s' = cs_id s \<and>
     cs_actor s' = cs_actor s \<and> cs_identity s' = cs_identity s \<and> cs_created_at s' = cs_created_at s \<and> cs_summary s' = cs_summary s"
  using assms
proof (induction ops arbitrary: d s)
  case Nil
  then show ?case by (simp add: history_run_def)
next
  case (Cons x ops)
  obtain now op where x: "x = (now, op)" by (cases x) auto
  have op: "names_ok op" "targets n op \<Longrightarrow> only_grows op" using Cons.prems x by auto
  let ?r = "perform_session J now op (plain d)"
  obtain t where t: "filed (ss_files (fst ?r)) n = Some t" "history_step J n now op s (snd ?r) t"
    using grow_step [OF Cons.prems(2) _ op(2)] other_filed [OF Cons.prems(2) _ op(1)] by (cases "targets n op") blast+
  have "acts_plain (perform_session J now op) (plain d)" by (rule perform_plain) (simp_all add: sound_def plain_def op(1))
  then have p: "fst ?r = plain (ss_files (fst ?r))" unfolding acts_plain_def by (metis plain_files)
  have "\<exists>s'. filed (ss_files (fst (perform_sessions J ops (plain (ss_files (fst ?r)))))) n = Some s' \<and>
     cs_messages s' = cs_messages t @ history_run J n ops (snd (perform_sessions J ops (plain (ss_files (fst ?r))))) \<and>
     (trim (cs_frozen_time t) \<noteq> [] \<longrightarrow> cs_frozen_time s' = cs_frozen_time t) \<and> cs_id s' = cs_id t \<and>
     cs_actor s' = cs_actor t \<and> cs_identity s' = cs_identity t \<and> cs_created_at s' = cs_created_at t \<and> cs_summary s' = cs_summary t"
    by (rule Cons.IH [OF _ t(1)]) (use Cons.prems(1) in auto)
  then obtain s' where s': "filed (ss_files (fst (perform_sessions J ops (fst ?r)))) n = Some s'"
    "cs_messages s' = cs_messages t @ history_run J n ops (snd (perform_sessions J ops (fst ?r)))"
    "trim (cs_frozen_time t) \<noteq> [] \<Longrightarrow> cs_frozen_time s' = cs_frozen_time t" "cs_id s' = cs_id t"
    "cs_actor s' = cs_actor t" "cs_identity s' = cs_identity t" "cs_created_at s' = cs_created_at t" "cs_summary s' = cs_summary t"
    unfolding p [symmetric] by blast
  show ?case
    by (rule exI [of _ s']) (use s' t(2) in \<open>auto simp: x split_beta history_run_def history_step_def\<close>)
qed

text \<open>C24: a conversation keeps its history. Whatever is done to it and to others, in whatever order, short of creating
  it anew, replacing its messages or taking its last one back: its messages are those it had, followed by exactly
  the messages whose addition succeeded, in order; the time its prompt shows, once set, its owner and its summary
  stay. This holds with the files alone, with a mirror, and with the SQLite index as the main backend while it mirrors the
  files, as long as conversations are created under ids that are their own path component.\<close>

theorem history_kept:
  assumes "sound st" "\<forall>(now, op) \<in> set ops. names_ok op \<and> (targets n op \<longrightarrow> only_grows op)"
    and "filed (ss_files st) n = Some s" "perform_sessions J ops st = (st', answers)"
  shows "\<exists>s'. filed (ss_files st') n = Some s' \<and> cs_messages s' = cs_messages s @ history_run J n ops answers \<and>
     (trim (cs_frozen_time s) \<noteq> [] \<longrightarrow> cs_frozen_time s' = cs_frozen_time s) \<and> cs_id s' = cs_id s \<and>
     cs_actor s' = cs_actor s \<and> cs_identity s' = cs_identity s \<and> cs_created_at s' = cs_created_at s \<and> cs_summary s' = cs_summary s"
proof -
  have "\<forall>(now, op) \<in> set ops. names_ok op" using assms(2) by auto
  then have p: "acts_plain (perform_sessions J ops) st" by (rule perform_sessions_plain [OF assms(1)])
  then have "plain (ss_files st') = fst (perform_sessions J ops (plain (ss_files st)))"
    "answers = snd (perform_sessions J ops (plain (ss_files st)))" using assms(4) by (auto simp: acts_plain_def)
  then show ?thesis using history_plain [OF assms(2,3), of J] by (metis plain_files)
qed

text \<open>An answer that was saved and then not sent can be taken back. After a successful addition (of anything but
  a tool's result), taking the last message back with the same role and text restores the messages.\<close>

theorem add_then_remove:
  assumes "sound st" "role \<noteq> lit ''tool''" "validate_storage_component sid = Some n"
    and "add_message J now sid role content md st = (st1, Inr True)"
  shows "\<exists>st2. remove_last_message_if_matches J now' sid role content st1 = (st2, Inr True) \<and>
    map_option cs_messages (filed (ss_files st2) n) = map_option cs_messages (filed (ss_files st) n)"
proof -
  let ?d = "ss_files st" and ?m = "session_message_from_text J role content now md"
  have plain1: "acts_plain (add_message J now sid role content md) st"
    unfolding add_message_def by (rule rewrite_plain [OF assms(1)]) auto
  then have r1: "add_message J now sid role content md (plain ?d) = (plain (ss_files st1), Inr True)" "sound st1"
    using assms(4) by (auto simp: acts_plain_def prod_eq_iff)
  obtain s where s: "json_load sid ?d = Inr (Some s)"
  proof (cases "json_load sid ?d")
    case (Inl e)
    then show thesis using r1(1) by (simp add: add_message_def rewrite_session_def)
  next
    case (Inr r)
    then show thesis using r1(1) that by (cases r) (simp_all add: add_message_def rewrite_session_def)
  qed
  define s1 where "s1 = s\<lparr>cs_messages := cs_messages s @ [?m], cs_updated_at := now, cs_version := default_session_version\<rparr>"
  have path: "session_json_path sid = Inr (n @ lit ''.json'')" using assms(3) by (simp add: session_json_path_def)
  have "add_message J now sid role content md (plain ?d) =
      (plain (fst (json_write sid s1 ?d)), map_sum id (\<lambda>_. True) (snd (json_write sid s1 ?d)))"
    by (simp add: add_message_def rewrite_session_def s s1_def)
  then have w: "plain (fst (json_write sid s1 ?d)) = plain (ss_files st1)" "map_sum id (\<lambda>_. True) (snd (json_write sid s1 ?d)) = Inr True"
    using r1(1) by simp_all
  have "fst (json_write sid s1 ?d) = ss_files st1" using arg_cong [OF w(1), of ss_files] by simp
  moreover have "snd (json_write sid s1 ?d) = Inr ()" using w(2) by (cases "snd (json_write sid s1 ?d)") auto
  ultimately have w1: "json_write sid s1 ?d = (ss_files st1, Inr ())" by (simp add: prod_eq_iff)
  then have d1: "ss_files st1 = disk_put ?d (n @ lit ''.json'') s1" "d_write_error ?d = None"
    by (auto simp: json_write_def path disk_write_def split: option.splits)
  have l1: "json_load sid (ss_files st1) = Inr (Some s1)" unfolding json_load_Some by (simp add: path d1 filed_put)
  have said: "trim (session_message_text J ?m) = trim content" using text_of_from_text [OF assms(2)] by simp
  define s2 where "s2 = s1\<lparr>cs_messages := cs_messages s, cs_updated_at := now', cs_version := default_session_version\<rparr>"
  have "json_write sid s2 (ss_files st1) = (disk_put (ss_files st1) (n @ lit ''.json'') s2, Inr ())"
    by (simp add: json_write_def path disk_write_def d1)
  then have r2: "remove_last_message_if_matches J now' sid role content (plain (ss_files st1)) =
      (plain (disk_put (ss_files st1) (n @ lit ''.json'') s2), Inr True)"
    using said by (simp add: remove_last_message_if_matches_def rewrite_session_def l1 s1_def s2_def session_message_from_text_def)
  have "acts_plain (remove_last_message_if_matches J now' sid role content) st1"
    unfolding remove_last_message_if_matches_def by (rule rewrite_plain [OF r1(2)]) (auto simp: Let_def split: if_splits)
  then obtain st2 where st2: "remove_last_message_if_matches J now' sid role content st1 = (st2, Inr True)"
    "plain (ss_files st2) = plain (disk_put (ss_files st1) (n @ lit ''.json'') s2)" using r2 by (auto simp: acts_plain_def)
  have "filed ?d n = Some s" using s path unfolding json_load_Some by auto
  moreover have "filed (ss_files st2) n = Some s2" using arg_cong [OF st2(2), of ss_files] by (simp add: filed_put)
  ultimately show ?thesis using st2(1) by (simp add: s2_def)
qed

text \<open>With the index as the main backend, the index decides what a conversation is, not the file. When writing to
  the index fails, the message is in the file and the operation reports an error; once the index works again, the
  next addition starts from what the index holds, and the message is gone from the file too.\<close>

theorem stale_index_wins:
  assumes "mirrored st" "ss_backend st = SqliteBackend" "ss_index st = Some ix" "index_look ix n = Some s"
    and "d_write_error (ss_files st) = None"
    and "add_message J now n role content md (st\<lparr>ss_index := Some (ix\<lparr>ix_write_fault := Some e\<rparr>)\<rparr>) = (st1, r1)"
    and "add_message J now' n role' content' md' (st1\<lparr>ss_index := Some ix\<rparr>) = (st2, r2)"
  shows "r1 = Inl (sql_failed e) \<and>
    map_option cs_messages (filed (ss_files st1) n) = Some (cs_messages s @ [session_message_from_text J role content now md]) \<and>
    r2 = Inr True \<and>
    map_option cs_messages (filed (ss_files st2) n) = Some (cs_messages s @ [session_message_from_text J role' content' now' md'])"
proof -
  have ix: "ix_fault ix = None" "ix_write_fault ix = None"
    "\<forall>r \<in> set (ix_rows ix). ir_source_path r = ir_session_id r @ lit ''.json''" "filed (ss_files st) n = Some s"
    using assms(1,3,4) by (auto simp: mirrored_def)
  have n: "cs_id s = n" "validate_storage_component n = Some n"
    using named_filed [of "ss_files st" n s] ix(4) assms(1) by (auto simp: mirrored_def)
  have path: "session_json_path n = Inr (n @ lit ''.json'')" by (rule valid_path [OF n(2)])
  have load: "index_load n (ix\<lparr>ix_write_fault := w\<rparr>) = Inr (Some s)" for w
    using assms(4) ix(1) by (simp add: index_load_def index_look_def)
  define s1 where "s1 = s\<lparr>cs_messages := cs_messages s @ [session_message_from_text J role content now md], cs_updated_at := now,
    cs_version := default_session_version\<rparr>"
  define s2 where "s2 = s\<lparr>cs_messages := cs_messages s @ [session_message_from_text J role' content' now' md'], cs_updated_at := now',
    cs_version := default_session_version\<rparr>"
  have first: "ss_files st1 = disk_put (ss_files st) (n @ lit ''.json'') s1" "r1 = Inl (sql_failed e)" "ss_backend st1 = SqliteBackend"
    using assms(2,5,6) load [of "Some e"] ix(1)
    by (auto simp: add_message_def rewrite_session_def load_session_def write_session_def path disk_write_def
        write_session_to_sqlite_def index_upsert_def s1_def)
  obtain ix' where up: "index_upsert (cs_id s2 @ lit ''.json'') s2 ix = Inr ix'"
    using index_upsert_ok [OF ix(1,2,3), of s2] by blast
  have "index_load n ix = Inr (Some s)" using assms(4) ix(1) by (simp add: index_load_def index_look_def)
  moreover have "index_upsert (n @ lit ''.json'') s2 ix = Inr ix'" using up n(1) by (simp add: s2_def)
  ultimately have "ss_files st2 = disk_put (ss_files st1) (n @ lit ''.json'') s2" "r2 = Inr True"
    using assms(5,7) first(1,3)
    by (auto simp: add_message_def rewrite_session_def load_session_def write_session_def path disk_write_def
        write_session_to_sqlite_def s2_def)
  then show ?thesis using first by (simp add: filed_put s1_def s2_def)
qed

section \<open>A concrete conversation\<close>

definition demo_session :: chat_session where
  "demo_session = new_session (lit ''t0'') (lit ''c1'') None None"

definition demo_files :: "chat_session disk" where
  "demo_files = \<lparr>d_files = [(lit ''c1.json'', Parsed demo_session)], d_write_error = None\<rparr>"

definition demo_index :: session_index where
  "demo_index = \<lparr>ix_rows = [row_of_session (lit ''c1.json'') demo_session], ix_messages = [], ix_metadata = Map.empty,
     ix_fault = None, ix_write_fault = None\<rparr>"

definition demo_storage :: session_storage where
  "demo_storage = \<lparr>ss_files = demo_files, ss_index = Some demo_index, ss_backend = SqliteBackend, ss_shadow = False\<rparr>"

definition demo_codec :: json_codec where
  "demo_codec = \<lparr>jc_parse = (\<lambda>s. None), jc_print = (\<lambda>j. [])\<rparr>"

lemma demo_valid: "validate_storage_component (lit ''c1'') = Some (lit ''c1'')"
  by (simp add: validate_storage_component_def path_components_def lit_def trim_def is_whitespace_def)

lemma demo_filed: "filed demo_files k = (if k = lit ''c1'' then Some demo_session else None)"
proof -
  have "lit ''c1.json'' = lit ''c1'' @ lit ''.json''" by (simp add: lit_def)
  then show ?thesis by (simp add: filed_def demo_files_def disk_get_def)
qed

lemma demo_mirrored: "mirrored demo_storage"
proof -
  have "lit ''c1.json'' = lit ''c1'' @ lit ''.json''" by (simp add: lit_def)
  then show ?thesis
    using demo_valid
    by (auto simp: mirrored_def demo_storage_def demo_index_def named_def demo_files_def disk_get_def demo_session_def
        new_session_def row_of_session_def index_look_def filed_def split: if_splits)
qed

lemma demo_look: "index_look demo_index (lit ''c1'') = Some demo_session"
  by (simp add: index_look_def demo_index_def row_of_session_def demo_session_def new_session_def)

theorem index_invisible_witness:
  "let ops = [(lit ''t1'', AddMessage (lit ''c1'') (lit ''user'') (lit ''hello'') None), (lit ''t2'', GetMessages (lit ''c1'') None)];
       (st', answers) = perform_sessions demo_codec ops demo_storage;
       (files', answers') = perform_sessions demo_codec ops (plain demo_files)
   in answers = answers' \<and> plain (ss_files st') = files' \<and> sound st'"
  using index_invisible [of demo_storage "[(lit ''t1'', AddMessage (lit ''c1'') (lit ''user'') (lit ''hello'') None),
      (lit ''t2'', GetMessages (lit ''c1'') None)]" demo_codec] demo_mirrored
  by (simp add: sound_def demo_storage_def)

theorem history_kept_witness:
  "\<exists>st' answers s'. perform_sessions demo_codec [(lit ''t1'', AddMessage (lit ''c1'') (lit ''user'') (lit ''hello'') None)] demo_storage
     = (st', answers) \<and> filed (ss_files st') (lit ''c1'') = Some s' \<and>
     cs_messages s' = history_run demo_codec (lit ''c1'')
       [(lit ''t1'', AddMessage (lit ''c1'') (lit ''user'') (lit ''hello'') None)] answers"
proof -
  let ?ops = "[(lit ''t1'', AddMessage (lit ''c1'') (lit ''user'') (lit ''hello'') None)]"
  obtain st' answers where r: "perform_sessions demo_codec ?ops demo_storage = (st', answers)" by force
  have "sound demo_storage" using demo_mirrored by (simp add: sound_def)
  moreover have "filed (ss_files demo_storage) (lit ''c1'') = Some demo_session" by (simp add: demo_storage_def demo_filed)
  ultimately obtain s' where "filed (ss_files st') (lit ''c1'') = Some s'"
    "cs_messages s' = cs_messages demo_session @ history_run demo_codec (lit ''c1'') ?ops answers"
    using history_kept [OF _ _ _ r, of "lit ''c1''" demo_session] by auto
  then show ?thesis using r by (auto simp: demo_session_def new_session_def)
qed

theorem stale_index_wins_witness:
  "\<exists>st1 st2. add_message demo_codec (lit ''t1'') (lit ''c1'') (lit ''user'') (lit ''one'') None
       (demo_storage\<lparr>ss_index := Some (demo_index\<lparr>ix_write_fault := Some []\<rparr>)\<rparr>) = (st1, Inl (sql_failed [])) \<and>
     add_message demo_codec (lit ''t2'') (lit ''c1'') (lit ''user'') (lit ''two'') None (st1\<lparr>ss_index := Some demo_index\<rparr>)
       = (st2, Inr True) \<and>
     map_option cs_messages (filed (ss_files st2) (lit ''c1'')) =
       Some [session_message_from_text demo_codec (lit ''user'') (lit ''two'') (lit ''t2'') None]"
proof -
  obtain st1 r1 where a: "add_message demo_codec (lit ''t1'') (lit ''c1'') (lit ''user'') (lit ''one'') None
      (demo_storage\<lparr>ss_index := Some (demo_index\<lparr>ix_write_fault := Some []\<rparr>)\<rparr>) = (st1, r1)" by force
  obtain st2 r2 where b: "add_message demo_codec (lit ''t2'') (lit ''c1'') (lit ''user'') (lit ''two'') None
      (st1\<lparr>ss_index := Some demo_index\<rparr>) = (st2, r2)" by force
  have "ss_backend demo_storage = SqliteBackend" "ss_index demo_storage = Some demo_index" "d_write_error (ss_files demo_storage) = None"
    by (simp_all add: demo_storage_def demo_files_def)
  from stale_index_wins [OF demo_mirrored this(1,2) demo_look this(3) a b] a b
  show ?thesis by (auto simp: demo_session_def new_session_def)
qed

theorem add_then_remove_witness:
  "\<exists>st1 st2. add_message demo_codec (lit ''t1'') (lit ''c1'') (lit ''assistant'') (lit ''hi '') None (plain demo_files) = (st1, Inr True) \<and>
     remove_last_message_if_matches demo_codec (lit ''t2'') (lit ''c1'') (lit ''assistant'') (lit ''hi '') st1 = (st2, Inr True) \<and>
     map_option cs_messages (filed (ss_files st2) (lit ''c1'')) = Some []"
proof -
  have "json_load (lit ''c1'') demo_files = Inr (Some demo_session)"
    by (rule json_load_filed [OF demo_valid]) (simp add: demo_filed)
  then have "\<exists>st1. add_message demo_codec (lit ''t1'') (lit ''c1'') (lit ''assistant'') (lit ''hi '') None (plain demo_files) = (st1, Inr True)"
    using valid_path [OF demo_valid]
    by (simp add: add_message_def rewrite_session_def json_write_def disk_write_def demo_files_def)
  then obtain st1 where a: "add_message demo_codec (lit ''t1'') (lit ''c1'') (lit ''assistant'') (lit ''hi '') None (plain demo_files) = (st1, Inr True)"
    by blast
  have "sound (plain demo_files)" by (simp add: sound_def plain_def)
  from add_then_remove [OF this _ demo_valid a, of "lit ''t2''"] a
  show ?thesis by (auto simp: demo_filed demo_session_def new_session_def)
qed

end
