(* ===== verification/Ingress.thy ===== *)
theory Ingress
  imports Session_Store "HOL-Library.AList" "HOL-Library.Sublist"
begin

text \<open>
  \<^verbatim>\<open>crates/hone-channels/src/ingress.rs\<close>: what happens to a message before it reaches a conversation. A message that
  arrives twice is dropped (\<open>check_and_store\<close>); a group message that does not call the bot waits in a window
  (\<open>window_push\<close>) until one does, and is then added to the conversation (\<open>persist_buffered_group_messages\<close>); one run
  per conversation is active at a time (\<open>try_begin_active\<close>). Instants and durations are in nanoseconds: an \<^verbatim>\<open>Instant\<close> is a
  natural number and never runs backwards; a \<^verbatim>\<open>SystemTime\<close> is an integer, counted from the epoch, and may.
\<close>

section \<open>Triggers and scopes\<close>

datatype chat_mode = DirectChat | GroupChat

definition cron_allowed :: "chat_mode \<Rightarrow> bool" where
  "cron_allowed mode \<longleftrightarrow> mode = DirectChat"

record group_trigger =
  gt_direct_mention :: bool
  gt_reply_to_bot :: bool
  gt_question_signal :: bool

datatype group_trigger_mode = MentionOnly | MentionOrQuestion | AllMessages

definition trigger_mode_from_config_value :: "rstr \<Rightarrow> group_trigger_mode" where
  "trigger_mode_from_config_value raw =
     (if trim raw = lit ''mention_only'' then MentionOnly
      else if trim raw = lit ''all'' then AllMessages else MentionOrQuestion)"

fun should_trigger :: "group_trigger_mode \<Rightarrow> group_trigger \<Rightarrow> bool" where
  "should_trigger MentionOnly t \<longleftrightarrow> gt_direct_mention t \<or> gt_reply_to_bot t"
| "should_trigger MentionOrQuestion t \<longleftrightarrow> gt_direct_mention t \<or> gt_reply_to_bot t \<or> gt_question_signal t"
| "should_trigger AllMessages t \<longleftrightarrow> True"

definition resolve_direct :: "rstr \<Rightarrow> rstr \<Rightarrow> rstr \<Rightarrow> (actor \<times> rstr \<times> chat_mode) hone_result" where
  "resolve_direct channel user_id target = map_sum id (\<lambda>a. (a, target, DirectChat)) (actor_new channel user_id None)"

definition resolve_group :: "rstr \<Rightarrow> rstr \<Rightarrow> rstr \<Rightarrow> rstr \<Rightarrow> (actor \<times> rstr \<times> chat_mode) hone_result" where
  "resolve_group channel user_id scope target =
     map_sum id (\<lambda>a. (a, target, GroupChat)) (actor_new channel user_id (Some scope))"

section \<open>The window of messages that wait\<close>

record buffered_group_message =
  bm_channel :: rstr
  bm_message_id :: rstr
  bm_speaker_label :: rstr
  bm_text :: rstr
  bm_received_at :: int

definition rendered_text :: "buffered_group_message \<Rightarrow> rstr" where
  "rendered_text m = lit ''['' @ trim (bm_speaker_label m) @ lit ''] '' @ trim (bm_text m)"

record group_windows =
  gw_windows :: "rstr \<rightharpoonup> buffered_group_message list"
  gw_max_messages :: nat
  gw_max_age :: nat

definition windows_new :: "nat \<Rightarrow> nat \<Rightarrow> group_windows" where
  "windows_new max_messages max_age =
     \<lparr>gw_windows = Map.empty, gw_max_messages = max max_messages 1, gw_max_age = max_age\<rparr>"

text \<open>A message that seems to come from the future has age zero.\<close>

definition prune_buffer :: "int \<Rightarrow> nat \<Rightarrow> buffered_group_message list \<Rightarrow> buffered_group_message list" where
  "prune_buffer now max_age = dropWhile (\<lambda>m. max (now - bm_received_at m) 0 > int max_age)"

definition window_push :: "int \<Rightarrow> rstr \<Rightarrow> buffered_group_message \<Rightarrow> group_windows \<Rightarrow> group_windows" where
  "window_push now sid m w =
     (let entry = prune_buffer now (gw_max_age w) (unwrap_or [] (gw_windows w sid));
          entry = (if bm_message_id m \<in> bm_message_id ` set entry then entry else last_n (gw_max_messages w) (entry @ [m]))
      in w\<lparr>gw_windows := (gw_windows w)(sid \<mapsto> entry)\<rparr>)"

definition take_recent :: "int \<Rightarrow> rstr \<Rightarrow> rstr option \<Rightarrow> group_windows \<Rightarrow> group_windows \<times> buffered_group_message list" where
  "take_recent now sid exclude w =
     (case gw_windows w sid of
        None \<Rightarrow> (w, [])
      | Some entry \<Rightarrow>
          (w\<lparr>gw_windows := (gw_windows w)(sid := None)\<rparr>,
           filter (\<lambda>m. Some (bm_message_id m) \<noteq> exclude) (prune_buffer now (gw_max_age w) entry)))"

datatype window_op = Push int rstr buffered_group_message | Take int rstr "rstr option"

record window_take =
  wt_now :: int
  wt_session :: rstr
  wt_exclude :: "rstr option"
  wt_messages :: "buffered_group_message list"

text \<open>What the takes of a sequence of operations hand out.\<close>

fun run_windows :: "window_op list \<Rightarrow> group_windows \<Rightarrow> group_windows \<times> window_take list" where
  "run_windows [] w = (w, [])"
| "run_windows (Push now sid m # ops) w = run_windows ops (window_push now sid m w)"
| "run_windows (Take now sid exclude # ops) w =
     (let (w, ms) = take_recent now sid exclude w; (w, rest) = run_windows ops w
      in (w, \<lparr>wt_now = now, wt_session = sid, wt_exclude = exclude, wt_messages = ms\<rparr> # rest))"

section \<open>Adding them to the conversation\<close>

definition buffered_metadata :: "buffered_group_message \<Rightarrow> metadata" where
  "buffered_metadata m =
     (let md = [lit ''pretrigger_buffered'' \<mapsto> JBool True, lit ''channel_message_id'' \<mapsto> JStr (bm_message_id m),
                lit ''speaker_label'' \<mapsto> JStr (bm_speaker_label m), lit ''channel'' \<mapsto> JStr (bm_channel m)]
      in if bm_received_at m < 0 then md
         else md(lit ''buffered_at_unix_ms'' \<mapsto> JInt ((bm_received_at m div 10 ^ 6) mod 2 ^ 64)))"

definition channel_message_ids :: "session_message list \<Rightarrow> rstr list" where
  "channel_message_ids ms =
     List.map_filter (\<lambda>m. opt_filter (\<lambda>v. v \<noteq> []) (map_option trim (md_str (sm_metadata m) (lit ''channel_message_id'')))) ms"

text \<open>\<open>clock k\<close> is the time the \<open>k\<close>-th addition reads.\<close>

fun persist_loop ::
    "json_codec \<Rightarrow> (nat \<Rightarrow> rstr) \<Rightarrow> rstr \<Rightarrow> buffered_group_message list \<Rightarrow> rstr list \<Rightarrow> nat \<Rightarrow> session_storage \<Rightarrow>
     session_storage \<times> nat hone_result" where
  "persist_loop J clock sid [] existing k st = (st, Inr k)"
| "persist_loop J clock sid (m # ms) existing k st =
     (if bm_message_id m \<in> set existing then persist_loop J clock sid ms existing k st
      else case add_message J (clock k) sid (lit ''user'') (rendered_text m) (Some (buffered_metadata m)) st of
             (st, Inl e) \<Rightarrow> (st, Inl e)
           | (st, Inr _) \<Rightarrow> persist_loop J clock sid ms (bm_message_id m # existing) (Suc k) st)"

definition persist_buffered_group_messages ::
    "json_codec \<Rightarrow> (nat \<Rightarrow> rstr) \<Rightarrow> rstr \<Rightarrow> buffered_group_message list \<Rightarrow> session_storage \<Rightarrow> session_storage \<times> nat hone_result" where
  "persist_buffered_group_messages J clock sid ms st =
     (if ms = [] then (st, Inr 0)
      else case get_messages sid None st of
             (st, Inl e) \<Rightarrow> (st, Inl e)
           | (st, Inr stored) \<Rightarrow> persist_loop J clock sid ms (channel_message_ids stored) 0 st)"

section \<open>One active run per conversation\<close>

text \<open>The two mutexes of the registry are taken one after the other, so a run becomes active, ceases to be, and is refused in
  two steps each; the steps of different tasks interleave. \<open>sl_locks\<close> is who holds the lock of a conversation, \<open>sl_away\<close>
  the tasks whose \<open>try_lock\<close> has failed and that have not yet looked up who is busy.\<close>

record active_info =
  ai_speaker_label :: rstr
  ai_message_id :: "rstr option"

datatype guard_phase = Acquired active_info | Active active_info | Dropping active_info | Plain

record session_locks =
  sl_locks :: "rstr \<rightharpoonup> nat"
  sl_busy :: "rstr \<rightharpoonup> active_info"
  sl_guards :: "nat \<rightharpoonup> rstr \<times> guard_phase"
  sl_away :: "nat \<rightharpoonup> rstr \<times> active_info"

definition locks_new :: session_locks where
  "locks_new = \<lparr>sl_locks = Map.empty, sl_busy = Map.empty, sl_guards = Map.empty, sl_away = Map.empty\<rparr>"

text \<open>What \<open>try_begin_active\<close> answers a task that does not get the lock.\<close>

definition busy_answer :: "session_locks \<Rightarrow> rstr \<Rightarrow> active_info \<Rightarrow> active_info" where
  "busy_answer s sid active = unwrap_or active (sl_busy s sid)"

datatype lock_event = Silent | Turned_away nat rstr active_info | Refused nat rstr active_info active_info

inductive lock_step :: "session_locks \<Rightarrow> lock_event \<Rightarrow> session_locks \<Rightarrow> bool" where
  begin_lock: "sl_locks s sid = None \<Longrightarrow> sl_guards s g = None \<Longrightarrow>
     lock_step s Silent (s\<lparr>sl_locks := (sl_locks s)(sid \<mapsto> g), sl_guards := (sl_guards s)(g \<mapsto> (sid, Acquired active))\<rparr>)"
| begin_failed: "sl_locks s sid \<noteq> None \<Longrightarrow> sl_away s t = None \<Longrightarrow>
     lock_step s (Turned_away t sid active) (s\<lparr>sl_away := (sl_away s)(t \<mapsto> (sid, active))\<rparr>)"
| begin_refused: "sl_away s t = Some (sid, active) \<Longrightarrow>
     lock_step s (Refused t sid active (busy_answer s sid active)) (s\<lparr>sl_away := (sl_away s)(t := None)\<rparr>)"
| begin_busy: "sl_guards s g = Some (sid, Acquired active) \<Longrightarrow>
     lock_step s Silent (s\<lparr>sl_busy := (sl_busy s)(sid \<mapsto> active), sl_guards := (sl_guards s)(g \<mapsto> (sid, Active active))\<rparr>)"
| drop_busy: "sl_guards s g = Some (sid, Active active) \<Longrightarrow>
     lock_step s Silent (s\<lparr>sl_busy := (sl_busy s)(sid := None), sl_guards := (sl_guards s)(g \<mapsto> (sid, Dropping active))\<rparr>)"
| drop_lock: "sl_guards s g = Some (sid, Dropping active) \<Longrightarrow>
     lock_step s Silent (s\<lparr>sl_locks := (sl_locks s)(sid := None), sl_guards := (sl_guards s)(g := None)\<rparr>)"
| plain_lock: "sl_locks s sid = None \<Longrightarrow> sl_guards s g = None \<Longrightarrow>
     lock_step s Silent (s\<lparr>sl_locks := (sl_locks s)(sid \<mapsto> g), sl_guards := (sl_guards s)(g \<mapsto> (sid, Plain))\<rparr>)"
| plain_unlock: "sl_guards s g = Some (sid, Plain) \<Longrightarrow>
     lock_step s Silent (s\<lparr>sl_locks := (sl_locks s)(sid := None), sl_guards := (sl_guards s)(g := None)\<rparr>)"

section \<open>The same message twice\<close>

text \<open>\<open>dd_seen\<close> is the hash map, as the list of its entries; \<open>dd_order\<close> is the queue that says what to forget first.\<close>

record dedup_state =
  dd_ttl :: nat
  dd_max_entries :: nat
  dd_order :: "(rstr \<times> nat) list"
  dd_seen :: "(rstr \<times> nat) list"

definition dedup_new :: "nat \<Rightarrow> nat \<Rightarrow> dedup_state" where
  "dedup_new ttl max_entries = \<lparr>dd_ttl = ttl, dd_max_entries = max max_entries 1, dd_order = [], dd_seen = []\<rparr>"

fun prune_entries :: "nat \<Rightarrow> nat \<Rightarrow> nat \<Rightarrow> (rstr \<times> nat) list \<Rightarrow> (rstr \<times> nat) list \<Rightarrow> (rstr \<times> nat) list \<times> (rstr \<times> nat) list" where
  "prune_entries ttl cap now [] seen = ([], seen)"
| "prune_entries ttl cap now ((key, ts) # rest) seen =
     (let expired = now - ts > ttl;
          stale = (case map_of seen key of Some current \<Rightarrow> current \<noteq> ts | None \<Rightarrow> True);
          overflow = length seen > cap in
      if expired \<or> stale \<or> overflow
      then prune_entries ttl cap now rest (if stale then seen else AList.delete key seen)
      else ((key, ts) # rest, seen))"

definition dedup_prune :: "nat \<Rightarrow> dedup_state \<Rightarrow> dedup_state" where
  "dedup_prune now s =
     (let (order, seen) = prune_entries (dd_ttl s) (dd_max_entries s) now (dd_order s) (dd_seen s)
      in s\<lparr>dd_order := order, dd_seen := seen\<rparr>)"

definition check_and_store :: "nat \<Rightarrow> rstr \<Rightarrow> dedup_state \<Rightarrow> dedup_state \<times> bool" where
  "check_and_store now key s =
     (let s = dedup_prune now s in
      if (case map_of (dd_seen s) key of Some ts \<Rightarrow> now - ts \<le> dd_ttl s | None \<Rightarrow> False) then (s, True)
      else (dedup_prune now (s\<lparr>dd_seen := AList.update key now (dd_seen s), dd_order := dd_order s @ [(key, now)]\<rparr>), False))"

text \<open>\<open>is_duplicate\<close> holds the mutex for one \<open>check_and_store\<close>: a channel's calls are a sequence of them.\<close>

fun check_all :: "(nat \<times> rstr) list \<Rightarrow> dedup_state \<Rightarrow> dedup_state \<times> bool list" where
  "check_all [] s = (s, [])"
| "check_all ((now, key) # calls) s =
     (let (s, dup) = check_and_store now key s; (s, rest) = check_all calls s in (s, dup # rest))"

text \<open>What it promises, over the whole log of accepted messages: a key is a duplicate when it is among the last
  \<open>cap\<close> accepted and was accepted within \<open>ttl\<close>.\<close>

definition recently_accepted :: "nat \<Rightarrow> nat \<Rightarrow> (rstr \<times> nat) list \<Rightarrow> nat \<Rightarrow> rstr \<Rightarrow> bool" where
  "recently_accepted ttl cap past now key \<longleftrightarrow> (\<exists>(k, ts) \<in> set (last_n cap past). k = key \<and> now - ts \<le> ttl)"

fun duplicates_of :: "nat \<Rightarrow> nat \<Rightarrow> (rstr \<times> nat) list \<Rightarrow> (nat \<times> rstr) list \<Rightarrow> bool list" where
  "duplicates_of ttl cap past [] = []"
| "duplicates_of ttl cap past ((now, key) # calls) =
     (let dup = recently_accepted ttl cap past now key
      in dup # duplicates_of ttl cap (if dup then past else past @ [(key, now)]) calls)"

text \<open>What is kept of the queue. The queue holds what the map holds, oldest first: no entry is ever stale, since an
  expired entry leaves both before its key can be stored again.\<close>

definition kept :: "nat \<Rightarrow> nat \<Rightarrow> nat \<Rightarrow> (rstr \<times> nat) list \<Rightarrow> (rstr \<times> nat) list" where
  "kept ttl cap now order = dropWhile (\<lambda>(k, ts). now - ts > ttl) (last_n cap order)"

lemma length_seen: "distinct (map fst xs) \<Longrightarrow> distinct (map fst ys) \<Longrightarrow> set xs = set ys \<Longrightarrow> length xs = length ys"
  by (metis distinct_card distinct_map)

lemma prune_entries_kept:
  assumes "distinct (map fst order)" "distinct (map fst seen)" "set seen = set order" "sorted (map snd order)"
  shows "prune_entries ttl cap now order seen = (kept ttl cap now order, snd (prune_entries ttl cap now order seen)) \<and>
    distinct (map fst (snd (prune_entries ttl cap now order seen))) \<and>
    set (snd (prune_entries ttl cap now order seen)) = set (kept ttl cap now order)"
  using assms
proof (induction order arbitrary: seen)
  case Nil
  then show ?case by (simp add: kept_def last_n_drop Suc_diff_le)
next
  case (Cons x order)
  obtain key ts where x: "x = (key, ts)" by (cases x)
  have look: "map_of seen key = Some ts" using Cons.prems x by (simp add: map_of_eq_Some_iff)
  have len: "length seen = Suc (length order)" using length_seen [of seen "x # order"] Cons.prems by simp
  show ?case
  proof (cases "now - ts > ttl \<or> length seen > cap")
    case True
    let ?seen = "AList.delete key seen"
    have s: "distinct (map fst ?seen)" "set ?seen = set order"
    proof -
      show "distinct (map fst ?seen)" using Cons.prems(2) by (simp add: distinct_delete)
      have "set ?seen = {p \<in> set seen. fst p \<noteq> key}" by (auto simp: AList.delete_eq)
      also have "\<dots> = set order" using Cons.prems(1,3) x by force
      finally show "set ?seen = set order" .
    qed
    have step: "prune_entries ttl cap now (x # order) seen = prune_entries ttl cap now order ?seen"
      using True look x by simp
    have "kept ttl cap now (x # order) = kept ttl cap now order"
    proof (cases "length seen > cap")
      case True
      then show ?thesis using len by (simp add: kept_def last_n_drop Suc_diff_le)
    next
      case False
      then have "last_n cap (x # order) = x # order" "last_n cap order = order" using len by (simp_all add: last_n_drop)
      then show ?thesis using True False x by (simp add: kept_def)
    qed
    then show ?thesis using Cons.IH [of ?seen] Cons.prems s step by simp
  next
    case False
    then have "last_n cap (x # order) = x # order" using len by (simp add: last_n_drop)
    then have "kept ttl cap now (x # order) = x # order" using False x by (simp add: kept_def)
    moreover have "prune_entries ttl cap now (x # order) seen = (x # order, seen)" using False look by (simp add: x)
    ultimately show ?thesis using Cons.prems by simp
  qed
qed

lemma kept_prefix:
  assumes "\<forall>(k, ts) \<in> set ws. now - ts > ttl"
  shows "kept ttl cap now (ws @ xs) = kept ttl cap now xs"
proof -
  have "\<forall>(k, ts) \<in> set (last_n n ws). now - ts > ttl" for n
    using assms last_n_suffix [of ws n] by (metis Un_iff set_append)
  then show ?thesis by (simp add: kept_def last_n_append dropWhile_append2 split_beta)
qed

lemma kept_again:
  assumes "t \<le> now"
  shows "kept ttl cap now (kept ttl cap t past @ xs) = kept ttl cap now (past @ xs)"
proof -
  obtain ws where ws: "last_n cap past = ws @ kept ttl cap t past" "\<forall>(k, ts) \<in> set ws. t - ts > ttl"
    unfolding kept_def by (metis (no_types, lifting) set_takeWhileD takeWhile_dropWhile_id)
  have "\<forall>(k, ts) \<in> set ws. now - ts > ttl" using ws(2) assms by fastforce
  then have "kept ttl cap now (kept ttl cap t past @ xs) = kept ttl cap now (last_n cap past @ xs)"
    by (simp add: ws(1) kept_prefix)
  then show ?thesis by (simp add: kept_def last_n_again)
qed

lemma kept_filter:
  assumes "sorted (map snd past)"
  shows "kept ttl cap now past = filter (\<lambda>(k, ts). now - ts \<le> ttl) (last_n cap past)"
proof -
  have "sorted (map snd (last_n cap past))" using assms by (simp add: last_n_drop sorted_wrt_drop flip: drop_map)
  moreover have "dropWhile (\<lambda>(k, ts). now - ts > ttl) xs = filter (\<lambda>(k, ts). now - ts \<le> ttl) xs" if "sorted (map snd xs)" for xs :: "(rstr \<times> nat) list"
    using that
  proof (induction xs)
    case (Cons x xs)
    show ?case
    proof (cases "now - snd x > ttl")
      case False
      then have "\<forall>y \<in> set xs. now - snd y \<le> ttl" using Cons.prems by fastforce
      then have "filter (\<lambda>(k, ts). now - ts \<le> ttl) xs = xs" by (auto simp: split_beta)
      then show ?thesis using False by (cases x) simp
    qed (use Cons in \<open>simp add: split_beta\<close>)
  qed simp
  ultimately show ?thesis by (simp add: kept_def)
qed

text \<open>The state remembers of the log of accepted messages what is still to be remembered.\<close>

definition remembers :: "(rstr \<times> nat) list \<Rightarrow> nat \<Rightarrow> dedup_state \<Rightarrow> bool" where
  "remembers past t s \<longleftrightarrow> sorted (map snd past) \<and> (\<forall>(k, ts) \<in> set past. ts \<le> t) \<and>
     dd_order s = kept (dd_ttl s) (dd_max_entries s) t past \<and> distinct (map fst (dd_order s)) \<and>
     distinct (map fst (dd_seen s)) \<and> set (dd_seen s) = set (dd_order s)"

lemma sorted_kept: "sorted (map snd past) \<Longrightarrow> sorted (map snd (kept ttl cap t past))"
  by (simp add: kept_filter last_n_drop sorted_filter sorted_wrt_drop flip: drop_map)

lemma dedup_prune_frame [simp]: "dd_ttl (dedup_prune now s) = dd_ttl s" "dd_max_entries (dedup_prune now s) = dd_max_entries s"
  by (simp_all add: dedup_prune_def split_beta)

lemma prune_remembers:
  assumes "sorted (map snd past)" "\<forall>(k, ts) \<in> set past. ts \<le> now" "sorted (map snd (dd_order s))"
    and "distinct (map fst (dd_order s))" "distinct (map fst (dd_seen s))" "set (dd_seen s) = set (dd_order s)"
    and "kept (dd_ttl s) (dd_max_entries s) now (dd_order s) = kept (dd_ttl s) (dd_max_entries s) now past"
  shows "remembers past now (dedup_prune now s)"
proof -
  obtain order seen where p: "prune_entries (dd_ttl s) (dd_max_entries s) now (dd_order s) (dd_seen s) = (order, seen)"
    by fastforce
  have o: "order = kept (dd_ttl s) (dd_max_entries s) now (dd_order s)" "distinct (map fst seen)" "set seen = set order"
    using prune_entries_kept [OF assms(4,5,6,3), of "dd_ttl s" "dd_max_entries s" now] p by auto
  have "\<exists>P n. order = filter P (drop n (dd_order s))" unfolding o(1) using assms(3) by (auto simp: kept_filter last_n_drop)
  then have "distinct (map fst order)" using assms(4) distinct_map_filter distinct_drop drop_map by metis
  then show ?thesis using o assms(1,2,7) by (simp add: remembers_def dedup_prune_def p)
qed

lemma prune_again:
  assumes "remembers past t s" "t \<le> now"
  shows "remembers past now (dedup_prune now s)"
proof (rule prune_remembers)
  show "kept (dd_ttl s) (dd_max_entries s) now (dd_order s) = kept (dd_ttl s) (dd_max_entries s) now past"
    using kept_again [OF assms(2), of _ _ past "[]"] assms(1) by (simp add: remembers_def)
qed (use assms in \<open>auto simp: remembers_def sorted_kept\<close>)

lemma update_new: "k \<notin> fst ` set xs \<Longrightarrow> AList.update k v xs = xs @ [(k, v)]"
  by (induction xs) auto

lemma check_and_store_recent:
  assumes "remembers past t s" "t \<le> now" "0 < dd_max_entries s" "check_and_store now key s = (s', dup)"
  shows "dup = recently_accepted (dd_ttl s) (dd_max_entries s) past now key"
    "remembers (if dup then past else past @ [(key, now)]) now s'"
    "dd_ttl s' = dd_ttl s" "dd_max_entries s' = dd_max_entries s"
proof -
  let ?s = "dedup_prune now s"
  have r: "remembers past now ?s" by (rule prune_again [OF assms(1,2)])
  have seen: "map_of (dd_seen ?s) k = Some ts \<longleftrightarrow> (k, ts) \<in> set (dd_order ?s)" for k ts
    using r(1) by (simp add: remembers_def map_of_eq_Some_iff)
  have order: "set (dd_order ?s) = {(k, ts). (k, ts) \<in> set (last_n (dd_max_entries s) past) \<and> now - ts \<le> dd_ttl s}"
    using r by (auto simp: remembers_def kept_filter)
  define hit where "hit \<longleftrightarrow> (case map_of (dd_seen ?s) key of Some ts \<Rightarrow> now - ts \<le> dd_ttl ?s | None \<Rightarrow> False)"
  have hit_ex: "hit \<longleftrightarrow> (\<exists>ts. map_of (dd_seen ?s) key = Some ts \<and> now - ts \<le> dd_ttl s)"
    by (auto simp: hit_def split: option.split)
  have hit: "hit = recently_accepted (dd_ttl s) (dd_max_entries s) past now key"
    by (auto simp: hit_ex seen order recently_accepted_def)
  show "dup = recently_accepted (dd_ttl s) (dd_max_entries s) past now key"
    using assms(4) hit by (auto simp: check_and_store_def Let_def hit_def split: if_splits)
  have step: "dup = hit \<and> s' = (if hit then ?s else dedup_prune now
      (?s\<lparr>dd_seen := AList.update key now (dd_seen ?s), dd_order := dd_order ?s @ [(key, now)]\<rparr>))"
    using assms(4) by (auto simp: check_and_store_def Let_def hit_def split: if_splits)
  then show "dd_ttl s' = dd_ttl s" "dd_max_entries s' = dd_max_entries s" by simp_all
  show "remembers (if dup then past else past @ [(key, now)]) now s'"
  proof (cases hit)
    case True
    then show ?thesis using step r by simp
  next
    case False
    have new: "key \<notin> fst ` set (dd_order ?s)"
    proof
      assume "key \<in> fst ` set (dd_order ?s)"
      then obtain ts where "(key, ts) \<in> set (dd_order ?s)" by auto
      then show False using False seen order by (auto simp: hit_ex)
    qed
    then have fresh: "key \<notin> fst ` set (dd_seen ?s)" using r by (simp add: remembers_def)
    let ?s2 = "?s\<lparr>dd_seen := AList.update key now (dd_seen ?s), dd_order := dd_order ?s @ [(key, now)]\<rparr>"
    have "remembers (past @ [(key, now)]) now (dedup_prune now ?s2)"
    proof (rule prune_remembers)
      show "sorted (map snd (dd_order ?s2))" "sorted (map snd (past @ [(key, now)]))"
        using r order set_last_n [of "dd_max_entries s" past] by (fastforce simp: remembers_def sorted_append sorted_kept)+
      show "distinct (map fst (dd_seen ?s2))" "distinct (map fst (dd_order ?s2))"
        using r new by (auto simp: remembers_def distinct_update)
      show "set (dd_seen ?s2) = set (dd_order ?s2)" using r fresh by (simp add: remembers_def update_new)
      show "kept (dd_ttl ?s2) (dd_max_entries ?s2) now (dd_order ?s2) = kept (dd_ttl ?s2) (dd_max_entries ?s2) now (past @ [(key, now)])"
        using kept_again [OF order_refl, of _ _ now past "[(key, now)]"] r by (simp add: remembers_def)
      show "\<forall>(k, ts) \<in> set (past @ [(key, now)]). ts \<le> now" using r by (auto simp: remembers_def)
    qed
    then show ?thesis using False step by simp
  qed
qed

lemma check_all_recent:
  assumes "remembers past t s" "0 < dd_max_entries s" "sorted (t # map fst calls)"
  shows "snd (check_all calls s) = duplicates_of (dd_ttl s) (dd_max_entries s) past calls"
  using assms
proof (induction calls arbitrary: past t s)
  case (Cons c calls)
  obtain now key where c: "c = (now, key)" by (cases c)
  obtain s' dup where s': "check_and_store now key s = (s', dup)" by fastforce
  have "t \<le> now" using Cons.prems(3) c by simp
  note step = check_and_store_recent [OF Cons.prems(1) this Cons.prems(2) s']
  have "snd (check_all calls s') = duplicates_of (dd_ttl s') (dd_max_entries s') (if dup then past else past @ [(key, now)]) calls"
    by (rule Cons.IH [OF step(2)]) (use step Cons.prems c in auto)
  then show ?case using step by (simp add: c s' Let_def split_beta)
qed simp

text \<open>The deduplicator is a window over the messages it let through. Whatever calls a channel makes, a message is
  called a duplicate exactly when its key is among the last \<open>max_entries\<close> keys that were let through and was let through
  within \<open>ttl\<close>; what it forgets, it forgets for one of these two reasons only.\<close>

theorem dedup_window:
  assumes "sorted (map fst calls)"
  shows "snd (check_all calls (dedup_new ttl max_entries)) = duplicates_of ttl (max max_entries 1) [] calls"
  using check_all_recent [of "[]" 0 "dedup_new ttl max_entries" calls] assms
  by (simp add: remembers_def dedup_new_def kept_def last_n_drop)

definition demo_calls :: "(nat \<times> rstr) list" where
  "demo_calls = [(0, [1]), (5, [1]), (10, [2]), (15, [3]), (20, [1]), (150, [3])]"

theorem dedup_window_witness:
  "snd (check_all demo_calls (dedup_new 100 2)) = [False, True, False, False, False, False]"
proof -
  have "sorted (map fst demo_calls)" by (simp add: demo_calls_def)
  then have "snd (check_all demo_calls (dedup_new 100 2)) = duplicates_of 100 (max 2 1) [] demo_calls" by (rule dedup_window)
  also have "\<dots> = [False, True, False, False, False, False]" by code_simp
  finally show ?thesis .
qed

text \<open>Reachable states with the events that led to them, and what holds in them: a lock is held by exactly the guard that names it, and a conversation is
  entered as busy exactly while its guard is active.\<close>

inductive locks_reachable :: "lock_event list \<Rightarrow> session_locks \<Rightarrow> bool" where
  start: "locks_reachable [] locks_new"
| step: "locks_reachable evs s \<Longrightarrow> lock_step s ev s' \<Longrightarrow> locks_reachable (evs @ [ev]) s'"

inductive_cases refusedE: "lock_step s (Refused t sid mine who) s'"

definition active_of :: "(rstr \<times> guard_phase) option \<Rightarrow> active_info option" where
  "active_of x = (case x of Some (_, Active a) \<Rightarrow> Some a | _ \<Rightarrow> None)"

lemma active_of_simps [simp]:
  "active_of None = None" "active_of (Some (k, Active a)) = Some a" "(\<And>a. p \<noteq> Active a) \<Longrightarrow> active_of (Some (k, p)) = None"
  by (auto simp: active_of_def split: guard_phase.split)

definition locks_ok :: "session_locks \<Rightarrow> bool" where
  "locks_ok s \<longleftrightarrow> (\<forall>sid g. sl_locks s sid = Some g \<longleftrightarrow> (\<exists>p. sl_guards s g = Some (sid, p))) \<and>
     (\<forall>sid. sl_busy s sid = (case sl_locks s sid of None \<Rightarrow> None | Some g \<Rightarrow> active_of (sl_guards s g)))"

lemma locks_okD:
  assumes "locks_ok s"
  shows "sl_locks s sid = Some g \<longleftrightarrow> (\<exists>p. sl_guards s g = Some (sid, p))"
    "sl_busy s sid = (case sl_locks s sid of None \<Rightarrow> None | Some g \<Rightarrow> active_of (sl_guards s g))"
  using assms by (auto simp: locks_ok_def)

lemma locks_okI:
  assumes "\<And>sid g. sl_locks s sid = Some g \<Longrightarrow> \<exists>p. sl_guards s g = Some (sid, p)"
    and "\<And>sid g p. sl_guards s g = Some (sid, p) \<Longrightarrow> sl_locks s sid = Some g"
    and "\<And>sid. sl_busy s sid = (case sl_locks s sid of None \<Rightarrow> None | Some g \<Rightarrow> active_of (sl_guards s g))"
  shows "locks_ok s"
  using assms unfolding locks_ok_def by blast

lemma one_guard: "locks_ok s \<Longrightarrow> sl_guards s g = Some (sid, p) \<Longrightarrow> sl_guards s h = Some (sid, q) \<Longrightarrow> g = h"
  by (metis locks_okD(1) option.inject)

lemma locks_okE:
  assumes "locks_ok s" "sl_locks s sid = Some g"
  obtains p where "sl_guards s g = Some (sid, p)" "sl_busy s sid = active_of (Some (sid, p))"
  using locks_okD [OF assms(1), of sid] assms(2) by auto

lemma locks_ok_idle: "locks_ok s \<Longrightarrow> sl_locks s sid = None \<Longrightarrow> sl_busy s sid = None"
  by (simp add: locks_okD(2))

lemma locks_ok_held: "locks_ok s \<Longrightarrow> sl_guards s g = Some (sid, p) \<Longrightarrow> sl_locks s sid = Some g"
  by (simp add: locks_okD(1))

lemma locks_ok_away [simp]: "locks_ok (s\<lparr>sl_away := x\<rparr>) = locks_ok s"
  by (simp add: locks_ok_def cong: option.case_cong)

text \<open>A step changes one conversation \<open>sid\<close> and one guard \<open>g\<close>, which is its only one.\<close>

lemma locks_ok_change:
  assumes "locks_ok s" "\<And>h p. h \<noteq> g \<Longrightarrow> sl_guards s h \<noteq> Some (sid, p)" "\<And>k p. k \<noteq> sid \<Longrightarrow> sl_guards s g \<noteq> Some (k, p)"
    and "lock = None \<and> phase = None \<or> lock = Some g \<and> (\<exists>p. phase = Some (sid, p))" "busy = active_of phase"
  shows "locks_ok (s\<lparr>sl_locks := (sl_locks s)(sid := lock), sl_busy := (sl_busy s)(sid := busy), sl_guards := (sl_guards s)(g := phase)\<rparr>)"
    (is "locks_ok ?s")
proof (rule locks_okI)
  fix k h assume h: "sl_locks ?s k = Some h"
  then show "\<exists>p. sl_guards ?s h = Some (k, p)"
  proof (cases "k = sid")
    case False
    then have "sl_locks s k = Some h" using h by simp
    then obtain p where "sl_guards s h = Some (k, p)" by (rule locks_okE [OF assms(1)])
    then show ?thesis using False assms(3) by (cases "h = g") auto
  qed (use assms(4) in auto)
next
  fix k h p assume h: "sl_guards ?s h = Some (k, p)"
  show "sl_locks ?s k = Some h"
  proof (cases "h = g")
    case False
    then have g: "sl_guards s h = Some (k, p)" using h by simp
    then have "k \<noteq> sid" using assms(2) False by blast
    then show ?thesis using locks_ok_held [OF assms(1) g] by simp
  qed (use h assms(4) in auto)
next
  fix k
  show "sl_busy ?s k = (case sl_locks ?s k of None \<Rightarrow> None | Some h \<Rightarrow> active_of (sl_guards ?s h))"
  proof (cases "k = sid")
    case False
    show ?thesis
    proof (cases "sl_locks s k")
      case None
      then show ?thesis using False locks_ok_idle [OF assms(1)] by simp
    next
      case (Some h)
      then obtain p where p: "sl_guards s h = Some (k, p)" "sl_busy s k = active_of (Some (k, p))" by (rule locks_okE [OF assms(1)])
      then have "h \<noteq> g" using False assms(3) by auto
      then show ?thesis using False Some p by simp
    qed
  qed (use assms(4,5) in auto)
qed

lemma locks_ok_take:
  assumes "locks_ok s" "sl_locks s sid = None" "sl_guards s g = None" "\<And>a. p \<noteq> Active a"
  shows "locks_ok (s\<lparr>sl_locks := (sl_locks s)(sid \<mapsto> g), sl_guards := (sl_guards s)(g \<mapsto> (sid, p))\<rparr>)"
proof -
  have "(sl_busy s)(sid := None) = sl_busy s" using locks_ok_idle [OF assms(1,2)] by auto
  moreover have "sl_guards s h \<noteq> Some (sid, q)" for h q using locks_ok_held [OF assms(1)] assms(2) by fastforce
  ultimately show ?thesis
    using locks_ok_change [OF assms(1), of g sid "Some g" "Some (sid, p)" None] assms(3,4) by simp
qed

lemma locks_ok_held_change:
  assumes "locks_ok s" "sl_guards s g = Some (sid, p)"
  shows "(\<And>a. p \<noteq> Active a) \<Longrightarrow> locks_ok (s\<lparr>sl_locks := (sl_locks s)(sid := None), sl_guards := (sl_guards s)(g := None)\<rparr>)"
    "locks_ok (s\<lparr>sl_busy := (sl_busy s)(sid := active_of (Some (sid, q))), sl_guards := (sl_guards s)(g \<mapsto> (sid, q))\<rparr>)"
proof -
  note change = locks_ok_change [OF assms(1), of g sid]
  have lock: "sl_locks s sid = Some g" by (rule locks_ok_held [OF assms])
  then have same: "(sl_locks s)(sid \<mapsto> g) = sl_locks s" by auto
  have other: "h \<noteq> g \<Longrightarrow> sl_guards s h \<noteq> Some (sid, q)" for h q using one_guard [OF assms, of h q] by blast
  show "locks_ok (s\<lparr>sl_locks := (sl_locks s)(sid := None), sl_guards := (sl_guards s)(g := None)\<rparr>)" if p: "\<And>a. p \<noteq> Active a"
  proof -
    have "sl_busy s sid = None" by (rule locks_okE [OF assms(1) lock]) (use assms(2) p in simp)
    then have "(sl_busy s)(sid := None) = sl_busy s" by auto
    then show ?thesis using change [of None None None] other assms(2) by simp
  qed
  show "locks_ok (s\<lparr>sl_busy := (sl_busy s)(sid := active_of (Some (sid, q))), sl_guards := (sl_guards s)(g \<mapsto> (sid, q))\<rparr>)"
    using change [of "Some g" "Some (sid, q)"] other assms(2) same by simp
qed

lemma lock_step_ok: "lock_step s ev s' \<Longrightarrow> locks_ok s \<Longrightarrow> locks_ok s'"
proof (induction rule: lock_step.induct)
  case (begin_busy s g sid active)
  then show ?case using locks_ok_held_change(2) [of s g sid _ "Active active"] by simp
next
  case (drop_busy s g sid active)
  then show ?case using locks_ok_held_change(2) [of s g sid _ "Dropping active"] by simp
qed (auto intro: locks_ok_take locks_ok_held_change(1))

lemma reachable_ok: "locks_reachable evs s \<Longrightarrow> locks_ok s"
  by (induction rule: locks_reachable.induct) (auto simp: lock_step_ok, simp add: locks_ok_def locks_new_def)

text \<open>A task that is about to be told who is busy was turned away before, when a guard had the conversation.\<close>

lemma away_was_held:
  assumes "locks_reachable evs s" "sl_away s t = Some (sid, mine)"
  shows "\<exists>evs1 evs2 s1 g phase. evs = evs1 @ Turned_away t sid mine # evs2 \<and> (\<forall>who. Refused t sid mine who \<notin> set evs2) \<and>
     locks_reachable evs1 s1 \<and> sl_guards s1 g = Some (sid, phase)"
  using assms
proof (induction arbitrary: sid mine rule: locks_reachable.induct)
  case (step evs s ev s')
  note ok = reachable_ok [OF step.hyps(1)]
  consider (same) "sl_away s t = Some (sid, mine)" "\<And>who. ev \<noteq> Refused t sid mine who"
    | (fresh) "ev = Turned_away t sid mine" "sl_locks s sid \<noteq> None"
    using step.hyps(2) step.prems by cases (auto split: if_splits)
  then show ?case
  proof cases
    case same
    then obtain evs1 evs2 s1 g phase where p: "evs = evs1 @ Turned_away t sid mine # evs2"
      "\<forall>who. Refused t sid mine who \<notin> set evs2" "locks_reachable evs1 s1" "sl_guards s1 g = Some (sid, phase)"
      using step.IH by blast
    have "evs @ [ev] = evs1 @ Turned_away t sid mine # (evs2 @ [ev])" using p(1) by simp
    moreover have "\<forall>who. Refused t sid mine who \<notin> set (evs2 @ [ev])" using p(2) same(2) by auto
    ultimately show ?thesis using p(3,4) by blast
  next
    case fresh
    then obtain g phase where "sl_guards s g = Some (sid, phase)" using locks_okD(1) [OF ok] by blast
    then show ?thesis using fresh(1) step.hyps(1) by fastforce
  qed
qed (simp add: locks_new_def)

lemma busy_answer_says:
  assumes "locks_ok s"
  shows "(\<exists>g. sl_guards s g = Some (sid, Active (busy_answer s sid mine))) \<or>
    busy_answer s sid mine = mine \<and> (\<forall>g a. sl_guards s g \<noteq> Some (sid, Active a))"
proof (cases "sl_busy s sid")
  case None
  have "sl_guards s g \<noteq> Some (sid, Active a)" for g a
  proof
    assume g: "sl_guards s g = Some (sid, Active a)"
    then show False using locks_okD(2) [OF assms, of sid] locks_ok_held [OF assms g] None by simp
  qed
  then show ?thesis using None by (simp add: busy_answer_def)
next
  case (Some a)
  then obtain g where "sl_locks s sid = Some g" using locks_ok_idle [OF assms] by fastforce
  moreover from assms this obtain p where "sl_guards s g = Some (sid, p)" "sl_busy s sid = active_of (Some (sid, p))"
    by (rule locks_okE)
  moreover have "p = Active a" using calculation(3) Some by (cases p) auto
  ultimately show ?thesis using Some by (auto simp: busy_answer_def)
qed

text \<open>C26: one run per conversation. However the steps of the tasks interleave, a conversation has at most one guard. A task is
  refused only when a guard had the conversation at the moment it tried the lock; it is told the speaker who is active in
  the conversation at the moment it looks, or itself when nobody is entered as active then, and its refusal changes no
  lock, guard or entry. A conversation nobody holds is never busy, and any free guard can make a run active on it in two
  steps.\<close>

theorem one_active_run:
  assumes "locks_reachable evs s"
  shows "(sl_guards s g = Some (sid, p) \<and> sl_guards s h = Some (sid, q) \<longrightarrow> g = h) \<and>
     (lock_step s (Refused t sid mine who) s' \<longrightarrow>
        (\<exists>evs1 evs2 s1 g phase. evs = evs1 @ Turned_away t sid mine # evs2 \<and> (\<forall>w. Refused t sid mine w \<notin> set evs2) \<and>
           locks_reachable evs1 s1 \<and> sl_guards s1 g = Some (sid, phase)) \<and>
        ((\<exists>g. sl_guards s g = Some (sid, Active who)) \<or> who = mine \<and> (\<forall>g a. sl_guards s g \<noteq> Some (sid, Active a))) \<and>
        sl_locks s' = sl_locks s \<and> sl_busy s' = sl_busy s \<and> sl_guards s' = sl_guards s) \<and>
     (sl_locks s sid = None \<longrightarrow> sl_busy s sid = None \<and>
        (sl_guards s h = None \<longrightarrow> (\<exists>s1 s2. lock_step s Silent s1 \<and> lock_step s1 Silent s2 \<and> sl_guards s2 h = Some (sid, Active info))))"
    (is "?one \<and> (_ \<longrightarrow> ?held \<and> ?told \<and> ?frame) \<and> ?free")
proof (intro conjI impI)
  note ok = reachable_ok [OF assms]
  show "g = h" if "sl_guards s g = Some (sid, p) \<and> sl_guards s h = Some (sid, q)" using one_guard [OF ok] that by blast
  show "sl_busy s sid = None" if "sl_locks s sid = None" by (rule locks_ok_idle [OF ok that])
  show "\<exists>s1 s2. lock_step s Silent s1 \<and> lock_step s1 Silent s2 \<and> sl_guards s2 h = Some (sid, Active info)"
    if "sl_locks s sid = None" "sl_guards s h = None"
    by (rule exI, rule exI, rule conjI [OF begin_lock [OF that, of info]], rule conjI, rule begin_busy [of _ h sid info]) auto
  assume "lock_step s (Refused t sid mine who) s'"
  then have refused: "sl_away s t = Some (sid, mine)" "who = busy_answer s sid mine"
      "s' = s\<lparr>sl_away := (sl_away s)(t := None)\<rparr>" by (auto elim: refusedE)
  show ?held by (rule away_was_held [OF assms refused(1)])
  show ?told using busy_answer_says [OF ok, of sid mine] refused(2) by simp
  show "sl_locks s' = sl_locks s" "sl_busy s' = sl_busy s" "sl_guards s' = sl_guards s" using refused(3) by simp_all
qed

text \<open>Three steps into the life of a registry: Ann is active in a conversation, and Bob has been turned away from it.\<close>

definition ann :: active_info where
  "ann = \<lparr>ai_speaker_label = lit ''Ann'', ai_message_id = None\<rparr>"

definition bob :: active_info where
  "bob = \<lparr>ai_speaker_label = lit ''Bob'', ai_message_id = None\<rparr>"

definition ann_active :: session_locks where
  "ann_active = \<lparr>sl_locks = [[1] \<mapsto> 0], sl_busy = [[1] \<mapsto> ann], sl_guards = [0 \<mapsto> ([1], Active ann)], sl_away = [7 \<mapsto> ([1], bob)]\<rparr>"

lemma ann_active_reachable: "locks_reachable [Silent, Silent, Turned_away 7 [1] bob] ann_active"
proof -
  let ?s1 = "\<lparr>sl_locks = [[1] \<mapsto> 0], sl_busy = Map.empty, sl_guards = [0 \<mapsto> ([1], Acquired ann)], sl_away = Map.empty\<rparr>"
  let ?s2 = "\<lparr>sl_locks = [[1] \<mapsto> 0], sl_busy = [[1] \<mapsto> ann], sl_guards = [0 \<mapsto> ([1], Active ann)], sl_away = Map.empty\<rparr>"
  have "lock_step locks_new Silent ?s1" using begin_lock [of locks_new "[1]" 0 ann] by (simp add: locks_new_def)
  then have s1: "locks_reachable ([] @ [Silent]) ?s1" by (rule locks_reachable.step [OF locks_reachable.start])
  have "lock_step ?s1 Silent ?s2" using begin_busy [of ?s1 0 "[1]" ann] by simp
  then have s2: "locks_reachable (([] @ [Silent]) @ [Silent]) ?s2" by (rule locks_reachable.step [OF s1])
  have "lock_step ?s2 (Turned_away 7 [1] bob) ann_active" using begin_failed [of ?s2 "[1]" 7 bob] by (simp add: ann_active_def)
  from locks_reachable.step [OF s2 this] show ?thesis by simp
qed

theorem one_active_run_witness:
  "lock_step ann_active (Refused 7 [1] bob ann) (ann_active\<lparr>sl_away := Map.empty\<rparr>) \<and>
   ((\<exists>g. sl_guards ann_active g = Some ([1], Active ann)) \<or> ann = bob)"
proof -
  have refused: "lock_step ann_active (Refused 7 [1] bob ann) (ann_active\<lparr>sl_away := Map.empty\<rparr>)"
    using begin_refused [of ann_active 7 "[1]" bob] by (simp add: ann_active_def busy_answer_def)
  then show ?thesis using one_active_run [OF ann_active_reachable, of 0 "[1]" "Active ann" 0 "Active ann" 7 bob ann] by blast
qed

section \<open>The window loses order nowhere and hands out nothing twice\<close>

fun pushed :: "rstr \<Rightarrow> window_op list \<Rightarrow> buffered_group_message list" where
  "pushed sid [] = []"
| "pushed sid (Push now k m # ops) = (if k = sid then m # pushed sid ops else pushed sid ops)"
| "pushed sid (Take now k exclude # ops) = pushed sid ops"

definition handed_out :: "rstr \<Rightarrow> window_take list \<Rightarrow> buffered_group_message list" where
  "handed_out sid takes = concat (map wt_messages (filter (\<lambda>t. wt_session t = sid) takes))"

abbreviation waiting :: "group_windows \<Rightarrow> rstr \<Rightarrow> buffered_group_message list" where
  "waiting w sid \<equiv> unwrap_or [] (gw_windows w sid)"

lemma subseq_prune: "subseq (prune_buffer now age ms) ms"
  by (metis prune_buffer_def list_emb_append2 subseq_order.order_refl takeWhile_dropWhile_id)

lemma subseq_last_n: "subseq (last_n n xs) xs"
  using last_n_suffix [of xs n] by (metis list_emb_append2 subseq_order.order_refl)

lemma subseq_distinct: "subseq xs ys \<Longrightarrow> distinct (map f ys) \<Longrightarrow> distinct (map f xs)"
  by (metis subseq_map subseq_conv_nths distinct_nthsI)

lemma subseq_sorted: "subseq xs ys \<Longrightarrow> sorted (map f ys) \<Longrightarrow> sorted (map f xs)"
  by (metis subseq_map subseq_conv_nths sorted_nths)

definition windows_ok :: "group_windows \<Rightarrow> bool" where
  "windows_ok w \<longleftrightarrow> (\<forall>sid. length (waiting w sid) \<le> gw_max_messages w \<and> distinct (map bm_message_id (waiting w sid)))"

lemma push_waiting: "waiting (window_push now k m w) sid =
  (if k = sid then
     (let entry = prune_buffer now (gw_max_age w) (waiting w sid) in
      if bm_message_id m \<in> bm_message_id ` set entry then entry else last_n (gw_max_messages w) (entry @ [m]))
   else waiting w sid)"
  by (simp add: window_push_def Let_def)

lemma push_frame [simp]: "gw_max_messages (window_push now k m w) = gw_max_messages w" "gw_max_age (window_push now k m w) = gw_max_age w"
  by (simp_all add: window_push_def Let_def)

lemma push_ok: "windows_ok w \<Longrightarrow> windows_ok (window_push now k m w)"
proof -
  assume ok: "windows_ok w"
  show "windows_ok (window_push now k m w)"
    unfolding windows_ok_def
  proof (intro allI)
    fix sid
    let ?entry = "prune_buffer now (gw_max_age w) (waiting w sid)"
    have entry: "length ?entry \<le> gw_max_messages w" "distinct (map bm_message_id ?entry)"
      using ok subseq_prune [of now "gw_max_age w" "waiting w sid"] list_emb_length subseq_distinct
      by (fastforce simp: windows_ok_def intro: order_trans)+
    then have "distinct (map bm_message_id (last_n (gw_max_messages w) (?entry @ [m])))" if "bm_message_id m \<notin> bm_message_id ` set ?entry"
      using that by (intro subseq_distinct [OF subseq_last_n]) auto
    then show "length (waiting (window_push now k m w) sid) \<le> gw_max_messages (window_push now k m w) \<and>
        distinct (map bm_message_id (waiting (window_push now k m w) sid))"
      using entry ok by (auto simp: push_waiting Let_def windows_ok_def)
  qed
qed

lemma push_subseq: "subseq (waiting (window_push now k m w) sid) (waiting w sid @ (if k = sid then [m] else []))"
proof -
  let ?entry = "prune_buffer now (gw_max_age w) (waiting w sid)"
  have "subseq (?entry @ [m]) (waiting w sid @ [m])" by (intro list_emb_append_mono subseq_prune subseq_order.order_refl)
  then have "subseq (last_n n (?entry @ [m])) (waiting w sid @ [m])" for n by (rule subseq_order.trans [OF subseq_last_n])
  moreover have "subseq ?entry (waiting w sid @ [m])" by (rule subseq_rev_drop_many [OF subseq_prune])
  ultimately show ?thesis by (simp add: push_waiting Let_def)
qed

lemma take_recent_simps:
  "take_recent now k exclude w = (w\<lparr>gw_windows := (gw_windows w)(k := None)\<rparr>,
     filter (\<lambda>m. Some (bm_message_id m) \<noteq> exclude) (prune_buffer now (gw_max_age w) (waiting w k)))"
  by (cases "gw_windows w k") (auto simp: take_recent_def prune_buffer_def fun_upd_idem)

text \<open>What a take hands out, when the messages that wait are in the order they came.\<close>

definition take_ok :: "nat \<Rightarrow> nat \<Rightarrow> bool \<Rightarrow> window_take \<Rightarrow> bool" where
  "take_ok max_messages max_age in_order t \<longleftrightarrow> length (wt_messages t) \<le> max_messages \<and>
     distinct (map bm_message_id (wt_messages t)) \<and> wt_exclude t \<notin> Some ` bm_message_id ` set (wt_messages t) \<and>
     (in_order \<longrightarrow> (\<forall>m \<in> set (wt_messages t). wt_now t - bm_received_at m \<le> int max_age))"

lemma prune_fresh:
  assumes "sorted (map bm_received_at ms)" "m \<in> set (prune_buffer now age ms)"
  shows "now - bm_received_at m \<le> int age"
  using assms
proof (induction ms)
  case (Cons x ms)
  show ?case
  proof (cases "max (now - bm_received_at x) 0 > int age")
    case True
    then show ?thesis using Cons by (auto simp: prune_buffer_def max_def split: if_splits)
  next
    case False
    then have "bm_received_at x \<le> bm_received_at m" using Cons.prems by (auto simp: prune_buffer_def)
    then show ?thesis using False by linarith
  qed
qed (simp add: prune_buffer_def)

lemma run_windows_ok:
  assumes "windows_ok w"
  shows "subseq (handed_out sid (snd (run_windows ops w))) (waiting w sid @ pushed sid ops) \<and>
    (\<forall>t \<in> set (snd (run_windows ops w)). wt_session t = sid \<longrightarrow>
       take_ok (gw_max_messages w) (gw_max_age w) (sorted (map bm_received_at (waiting w sid @ pushed sid ops))) t)"
  using assms
proof (induction ops arbitrary: w)
  case Nil
  then show ?case by (simp add: handed_out_def)
next
  case (Cons op ops)
  show ?case
  proof (cases op)
    case (Push now k m)
    let ?w = "window_push now k m w"
    have sub: "subseq (waiting ?w sid @ pushed sid ops) (waiting w sid @ pushed sid (op # ops))"
      using list_emb_append_mono [OF push_subseq [of now k m w sid] subseq_order.order_refl [of "pushed sid ops"]] Push
      by (cases "k = sid") simp_all
    have "sorted (map bm_received_at (waiting w sid @ pushed sid (op # ops))) \<Longrightarrow>
        sorted (map bm_received_at (waiting ?w sid @ pushed sid ops))" by (rule subseq_sorted [OF sub])
    then show ?thesis using Cons.IH [OF push_ok [OF Cons.prems, of now k m]] subseq_order.trans [OF _ sub] Push
      by (auto simp: take_ok_def)
  next
    case (Take now k exclude)
    let ?w = "w\<lparr>gw_windows := (gw_windows w)(k := None)\<rparr>"
    let ?pruned = "prune_buffer now (gw_max_age w) (waiting w k)"
    let ?ms = "filter (\<lambda>m. Some (bm_message_id m) \<noteq> exclude) ?pruned"
    let ?t = "\<lparr>wt_now = now, wt_session = k, wt_exclude = exclude, wt_messages = ?ms\<rparr>"
    have ok: "windows_ok ?w" using Cons.prems by (simp add: windows_ok_def)
    have run: "snd (run_windows (op # ops) w) = ?t # snd (run_windows ops ?w)"
      by (simp add: Take take_recent_simps split_beta Let_def)
    have ms: "subseq ?ms (waiting w k)" by (rule subseq_order.trans [OF subseq_filter_left subseq_prune])
    show ?thesis
    proof (cases "k = sid")
      case True
      have rest: "subseq (handed_out sid (snd (run_windows ops ?w))) (pushed sid ops)" using Cons.IH [OF ok] True by simp
      have "handed_out sid (snd (run_windows (op # ops) w)) = ?ms @ handed_out sid (snd (run_windows ops ?w))"
        using True by (simp add: run handed_out_def)
      moreover have "subseq \<dots> (waiting w sid @ pushed sid (op # ops))"
        using list_emb_append_mono [OF ms rest] True Take by simp
      moreover have "take_ok (gw_max_messages w) (gw_max_age w) (sorted (map bm_received_at (waiting w sid @ pushed sid (op # ops)))) ?t"
        using Cons.prems prune_fresh [of "waiting w k" _ now "gw_max_age w"] subseq_distinct [OF ms, of bm_message_id] list_emb_length [OF ms] True
        by (auto simp: take_ok_def windows_ok_def sorted_append intro: order_trans)
      moreover have "\<forall>t \<in> set (snd (run_windows ops ?w)). wt_session t = sid \<longrightarrow>
         take_ok (gw_max_messages w) (gw_max_age w) (sorted (map bm_received_at (waiting w sid @ pushed sid (op # ops)))) t"
        using Cons.IH [OF ok] True Take by (auto simp: take_ok_def sorted_append)
      ultimately show ?thesis unfolding run by (metis set_ConsD)
    next
      case False
      then show ?thesis unfolding run using Cons.IH [OF ok] Take by (simp add: handed_out_def)
    qed
  qed
qed

text \<open>The window of a group hands out what was pushed to it: each message at most once, in the order of the pushes;
  each time at most \<open>max_messages\<close>, with distinct ids, without the message that called the bot; and, when the messages
  came in the order of their times, none older than \<open>max_age\<close>.\<close>

theorem window_hands_out_once:
  assumes "run_windows ops (windows_new max_messages max_age) = (w, takes)"
  shows "subseq (handed_out sid takes) (pushed sid ops) \<and>
    (\<forall>t \<in> set takes. wt_session t = sid \<longrightarrow> take_ok (max max_messages 1) max_age (sorted (map bm_received_at (pushed sid ops))) t)"
  using run_windows_ok [of "windows_new max_messages max_age" sid ops] assms
  by (simp add: windows_ok_def windows_new_def)

definition demo_buffered :: "nat \<Rightarrow> int \<Rightarrow> buffered_group_message" where
  "demo_buffered k t = \<lparr>bm_channel = [100], bm_message_id = [k], bm_speaker_label = [65], bm_text = [66, k], bm_received_at = t\<rparr>"

definition demo_window_ops :: "window_op list" where
  "demo_window_ops = [Push 0 [9] (demo_buffered 49 0), Push 5 [9] (demo_buffered 50 5), Push 6 [9] (demo_buffered 50 5), Push 8 [9] (demo_buffered 51 8),
     Push 9 [9] (demo_buffered 52 9), Take 14 [9] (Some [52]), Take 15 [9] None]"

theorem window_hands_out_once_witness:
  "handed_out [9] (snd (run_windows demo_window_ops (windows_new 3 8))) = [demo_buffered 51 8] \<and>
   subseq [demo_buffered 51 8] (pushed [9] demo_window_ops)"
proof -
  have h: "handed_out [9] (snd (run_windows demo_window_ops (windows_new 3 8))) = [demo_buffered 51 8]"
    by (simp add: demo_window_ops_def handed_out_def window_push_def take_recent_def prune_buffer_def windows_new_def demo_buffered_def last_n_drop Let_def)
  obtain w takes where run: "run_windows demo_window_ops (windows_new 3 8) = (w, takes)" by fastforce
  then have "subseq (handed_out [9] takes) (pushed [9] demo_window_ops)" using window_hands_out_once [OF run, of "[9]"] by blast
  then show ?thesis using h run by simp
qed

section \<open>What waited is stored once\<close>

text \<open>The messages whose ids are not known yet, each id once.\<close>

fun first_new :: "rstr list \<Rightarrow> buffered_group_message list \<Rightarrow> buffered_group_message list" where
  "first_new known [] = []"
| "first_new known (m # ms) =
     (if bm_message_id m \<in> set known then first_new known ms else m # first_new (bm_message_id m # known) ms)"

definition stored_as :: "json_codec \<Rightarrow> rstr \<Rightarrow> buffered_group_message \<Rightarrow> session_message" where
  "stored_as J now m = session_message_from_text J (lit ''user'') (rendered_text m) now (Some (buffered_metadata m))"

lemma add_stored:
  assumes "sound st" "validate_storage_component sid = Some n" "filed (ss_files st) n = Some s"
    and "add_message J now sid role content md st = (st1, Inr b)"
  shows "sound st1 \<and> (\<exists>s1. filed (ss_files st1) n = Some s1 \<and> cs_messages s1 = cs_messages s @ [session_message_from_text J role content now md])"
  using rewrite_stored [OF assms(1,2,3),
      of "\<lambda>s. Some (s\<lparr>cs_messages := cs_messages s @ [session_message_from_text J role content now md]\<rparr>)" now] assms(4)
  by (auto simp: add_message_def split: option.splits)

lemma get_stored:
  assumes "sound st" "validate_storage_component sid = Some n" "filed (ss_files st) n = Some s"
  obtains st1 where "get_messages sid None st = (st1, Inr (cs_messages s))" "sound st1" "filed (ss_files st1) n = Some s"
proof -
  have "json_load sid (ss_files st) = Inr (Some s)" by (rule json_load_filed [OF assms(2,3)])
  then have "snd (get_messages sid None (plain (ss_files st))) = Inr (cs_messages s)" by (simp add: get_messages_def)
  moreover obtain st1 where st1: "get_messages sid None st = (st1, snd (get_messages sid None (plain (ss_files st))))"
    "sound st1" "plain (ss_files st1) = fst (get_messages sid None (plain (ss_files st)))"
    using get_plain [OF assms(1), of sid None] by (auto simp: acts_plain_def)
  moreover have "ss_files st1 = ss_files st" using arg_cong [OF st1(3), of ss_files] by (simp add: get_messages_plain)
  ultimately show thesis using assms(3) that by simp
qed

lemma persist_loop_stored:
  assumes "sound st" "validate_storage_component sid = Some n" "filed (ss_files st) n = Some s"
    and "persist_loop J clock sid ms existing k st = (st', Inr k')"
  shows "sound st' \<and> k' = k + length (first_new existing ms) \<and>
    (\<exists>s'. filed (ss_files st') n = Some s' \<and>
       cs_messages s' = cs_messages s @ map (\<lambda>(i, m). stored_as J (clock i) m) (enumerate k (first_new existing ms)))"
  using assms(1,3,4)
proof (induction ms arbitrary: existing k st s)
  case Nil
  then show ?case by simp
next
  case (Cons m ms)
  show ?case
  proof (cases "bm_message_id m \<in> set existing")
    case True
    then show ?thesis using Cons.IH [OF Cons.prems(1,2)] Cons.prems(3) by simp
  next
    case False
    obtain st1 r where add: "add_message J (clock k) sid (lit ''user'') (rendered_text m) (Some (buffered_metadata m)) st = (st1, r)"
      by fastforce
    then obtain b where b: "r = Inr b" using Cons.prems(3) False by (cases r) auto
    obtain s1 where s1: "sound st1" "filed (ss_files st1) n = Some s1" "cs_messages s1 = cs_messages s @ [stored_as J (clock k) m]"
      using add_stored [OF Cons.prems(1) assms(2) Cons.prems(2) add [unfolded b]] by (auto simp: stored_as_def)
    have "persist_loop J clock sid ms (bm_message_id m # existing) (Suc k) st1 = (st', Inr k')"
      using Cons.prems(3) False add b by simp
    from Cons.IH [OF s1(1,2) this] show ?thesis using False s1(3) by auto
  qed
qed

lemma channel_ids_append: "channel_message_ids (xs @ ys) = channel_message_ids xs @ channel_message_ids ys"
  by (simp add: channel_message_ids_def map_filter_append)

lemma stored_metadata: "sm_metadata (stored_as J now m) = Some (buffered_metadata m)"
  by (simp add: stored_as_def session_message_from_text_def)

lemma buffered_metadata_id: "buffered_metadata m (lit ''channel_message_id'') = Some (JStr (bm_message_id m))"
  by (simp add: buffered_metadata_def Let_def)

lemma channel_ids_stored:
  assumes "\<forall>m \<in> set ms. trim (bm_message_id m) = bm_message_id m \<and> bm_message_id m \<noteq> []"
  shows "channel_message_ids (map (\<lambda>(i, m). stored_as J (clock i) m) (enumerate k ms)) = map bm_message_id ms"
  using assms
  by (induction ms arbitrary: k)
     (simp_all add: channel_message_ids_def List.map_filter_simps stored_metadata md_str_def buffered_metadata_id json_as_str_def opt_filter_def)

lemma first_new_covers: "m \<in> set ms \<Longrightarrow> bm_message_id m \<in> set known \<union> bm_message_id ` set (first_new known ms)"
proof (induction ms arbitrary: known)
  case (Cons a ms)
  then show ?case using Cons.IH [of known] Cons.IH [of "bm_message_id a # known"] by (cases "m = a") auto
qed simp

lemma set_first_new: "set (first_new known ms) \<subseteq> set ms"
  by (induction ms arbitrary: known) auto

lemma persist_loop_known: "\<forall>m \<in> set ms. bm_message_id m \<in> set existing \<Longrightarrow> persist_loop J clock sid ms existing k st = (st, Inr k)"
  by (induction ms) simp_all

text \<open>The messages that waited are added to the conversation once. When \<open>persist_buffered_group_messages\<close> succeeds, the
  conversation has in addition exactly the messages whose ids it did not have, in order, and the answer counts them.
  Handing it any of these messages again adds nothing, as long as their ids are not blank at an end.\<close>

theorem buffered_stored_once:
  assumes "sound st" "validate_storage_component sid = Some n" "filed (ss_files st) n = Some s"
    and "persist_buffered_group_messages J clock sid ms st = (st1, Inr k)"
  shows "\<exists>s1. filed (ss_files st1) n = Some s1 \<and>
     cs_messages s1 = cs_messages s @
       map (\<lambda>(i, m). stored_as J (clock i) m) (enumerate 0 (first_new (channel_message_ids (cs_messages s)) ms)) \<and>
     k = length (first_new (channel_message_ids (cs_messages s)) ms) \<and>
     (set again \<subseteq> set ms \<and> (\<forall>m \<in> set ms. trim (bm_message_id m) = bm_message_id m \<and> bm_message_id m \<noteq> []) \<longrightarrow>
        (\<exists>st2. persist_buffered_group_messages J clock' sid again st1 = (st2, Inr 0) \<and> filed (ss_files st2) n = Some s1))"
proof -
  let ?new = "first_new (channel_message_ids (cs_messages s)) ms"
  have first: "sound st1 \<and> k = length ?new \<and> (\<exists>s1. filed (ss_files st1) n = Some s1 \<and>
     cs_messages s1 = cs_messages s @ map (\<lambda>(i, m). stored_as J (clock i) m) (enumerate 0 ?new))"
  proof (cases "ms = []")
    case True
    then show ?thesis using assms by (auto simp: persist_buffered_group_messages_def)
  next
    case False
    obtain st0 where st0: "get_messages sid None st = (st0, Inr (cs_messages s))" "sound st0" "filed (ss_files st0) n = Some s"
      by (rule get_stored [OF assms(1-3)])
    then have "persist_loop J clock sid ms (channel_message_ids (cs_messages s)) 0 st0 = (st1, Inr k)"
      using assms(4) False by (simp add: persist_buffered_group_messages_def)
    from persist_loop_stored [OF st0(2) assms(2) st0(3) this] show ?thesis by simp
  qed
  then obtain s1 where s1: "sound st1" "k = length ?new" "filed (ss_files st1) n = Some s1"
    "cs_messages s1 = cs_messages s @ map (\<lambda>(i, m). stored_as J (clock i) m) (enumerate 0 ?new)" by blast
  have second: "\<exists>st2. persist_buffered_group_messages J clock' sid again st1 = (st2, Inr 0) \<and> filed (ss_files st2) n = Some s1"
    if again: "set again \<subseteq> set ms" and ids: "\<forall>m \<in> set ms. trim (bm_message_id m) = bm_message_id m \<and> bm_message_id m \<noteq> []"
  proof -
    have "\<forall>m \<in> set ?new. trim (bm_message_id m) = bm_message_id m \<and> bm_message_id m \<noteq> []" using ids set_first_new by blast
    then have "channel_message_ids (cs_messages s1) = channel_message_ids (cs_messages s) @ map bm_message_id ?new"
      using channel_ids_stored s1(4) by (simp add: channel_ids_append)
    then have known: "\<forall>m \<in> set again. bm_message_id m \<in> set (channel_message_ids (cs_messages s1))"
      using first_new_covers again by fastforce
    obtain st2 where st2: "get_messages sid None st1 = (st2, Inr (cs_messages s1))" "filed (ss_files st2) n = Some s1"
      by (rule get_stored [OF s1(1) assms(2) s1(3)])
    then show ?thesis using persist_loop_known [OF known] s1(3) by (auto simp: persist_buffered_group_messages_def)
  qed
  show ?thesis by (rule exI [of _ s1]) (use s1 second in blast)
qed

theorem buffered_stored_once_witness:
  "\<exists>st1 st2 s1. persist_buffered_group_messages demo_codec (\<lambda>_. [48]) (lit ''c1'') [demo_buffered 49 0, demo_buffered 49 0] (plain demo_files) = (st1, Inr 1) \<and>
     filed (ss_files st1) (lit ''c1'') = Some s1 \<and> cs_messages s1 = [stored_as demo_codec [48] (demo_buffered 49 0)] \<and>
     persist_buffered_group_messages demo_codec (\<lambda>_. [49]) (lit ''c1'') [demo_buffered 49 0] st1 = (st2, Inr 0)"
proof -
  let ?ms = "[demo_buffered 49 0, demo_buffered 49 0]" and ?st = "plain demo_files"
  have load: "json_load (lit ''c1'') demo_files = Inr (Some demo_session)"
    by (rule json_load_filed [OF demo_valid]) (simp add: demo_filed)
  have "snd (add_message demo_codec [48] (lit ''c1'') (lit ''user'') c md ?st) = Inr True" for c md
    using load valid_path [OF demo_valid] by (simp add: add_message_def rewrite_session_def json_write_def disk_write_def demo_files_def)
  then obtain st1 where a: "add_message demo_codec [48] (lit ''c1'') (lit ''user'') (rendered_text (demo_buffered 49 0))
      (Some (buffered_metadata (demo_buffered 49 0))) ?st = (st1, Inr True)" by (metis prod.collapse)
  have none: "cs_messages demo_session = []" by (simp add: demo_session_def new_session_def)
  have "get_messages (lit ''c1'') None ?st = (?st, Inr [])" using load none by (simp add: get_messages_def)
  then have run: "persist_buffered_group_messages demo_codec (\<lambda>_. [48]) (lit ''c1'') ?ms ?st = (st1, Inr 1)"
    using a by (simp add: persist_buffered_group_messages_def channel_message_ids_def List.map_filter_simps)
  have "sound ?st" "filed (ss_files ?st) (lit ''c1'') = Some demo_session" by (simp_all add: sound_def plain_def demo_filed)
  moreover have "\<forall>m \<in> set ?ms. trim (bm_message_id m) = bm_message_id m \<and> bm_message_id m \<noteq> []"
    by (simp add: demo_buffered_def trim_def is_whitespace_def)
  ultimately obtain s1 st2 where "filed (ss_files st1) (lit ''c1'') = Some s1" "cs_messages s1 = [stored_as demo_codec [48] (demo_buffered 49 0)]"
    "persist_buffered_group_messages demo_codec (\<lambda>_. [49]) (lit ''c1'') [demo_buffered 49 0] st1 = (st2, Inr 0)"
    using buffered_stored_once [OF _ demo_valid _ run, of demo_session "[demo_buffered 49 0]" "\<lambda>_. [49]"]
    by (auto simp: none channel_message_ids_def List.map_filter_simps)
  then show ?thesis using run by blast
qed

end
