(* ===== verification/User_Visible.thy ===== *)
theory User_Visible
  imports Stream_Formatter
begin

text \<open>
  \<^verbatim>\<open>crates/hone-channels/src/runtime.rs\<close>: what a user gets to see of an answer or an error. Tool protocol, reasoning,
  local paths and internal wording are taken out of an answer (\<open>sanitize_user_visible_output\<close>); a raw error becomes a
  message fit for a user or none (\<open>user_visible_error_message\<close>). The regular expressions are the source's; matching
  them is the crate \<^verbatim>\<open>regex\<close>, a parameter.
\<close>

section \<open>Regular expressions\<close>

record captures =
  cp_all :: rstr
  cp_name :: "rstr \<Rightarrow> rstr option"

text \<open>\<open>rx_matches p s\<close>: the matches of \<open>p\<close> in \<open>s\<close> from left to right, each with the text between it and the one before,
  and the text after the last.\<close>

record regex_engine =
  rx_matches :: "rstr \<Rightarrow> rstr \<Rightarrow> (rstr \<times> captures) list \<times> rstr"

definition is_match :: "regex_engine \<Rightarrow> rstr \<Rightarrow> rstr \<Rightarrow> bool" where
  "is_match R p s \<longleftrightarrow> fst (rx_matches R p s) \<noteq> []"

definition replace_all :: "regex_engine \<Rightarrow> rstr \<Rightarrow> (captures \<Rightarrow> rstr) \<Rightarrow> rstr \<Rightarrow> rstr" where
  "replace_all R p f s = (case rx_matches R p s of (ms, rest) \<Rightarrow> concat (map (\<lambda>(before, c). before @ f c) ms) @ rest)"

definition cap_named :: "captures \<Rightarrow> string \<Rightarrow> rstr" where
  "cap_named c name = unwrap_or [] (cp_name c (lit name))"

definition RE_MSG :: rstr where
  "RE_MSG = [92] @ lit ''[MSG'' @ [92] @ lit ''d+'' @ [92] @ lit '']'' @ [92] @ lit ''s*''"

definition RE_PIPE :: rstr where
  "RE_PIPE = lit ''<'' @ [92] @ lit ''|[^|]+'' @ [92] @ lit ''|>''"

definition RE_TOOL_TAG :: rstr where
  "RE_TOOL_TAG = [92] @ lit ''b(web_search|data_fetch|portfolio|load_skill|skill_tool|discover_skills|image_gen):'' @
      [92] @ lit ''d+'' @ [92] @ lit ''s*''"

definition RE_JSON_TOOL :: rstr where
  "RE_JSON_TOOL = [92] @ lit ''{[^'' @ [92] @ lit ''{'' @ [92] @ lit ''}]*'' @ [34] @
      lit ''(query|action|data_type|skill_name|ticker|symbol|draft_id|approval_token|image_prompt|user_intent|image_count|regenerate_images|image_type|content|prompt)''
      @ [34] @ lit ''[^'' @ [92] @ lit ''{'' @ [92] @ lit ''}]*'' @ [92] @ lit ''}''"

definition RE_SIMPLE_JSON :: rstr where
  "RE_SIMPLE_JSON = [92] @ lit ''{'' @ [34] @ lit ''[^'' @ [34] @ lit '']*'' @ [34] @ lit '':'' @ [92] @ lit ''s*'' @
      [34] @ lit ''[^'' @ [34] @ lit '']*'' @ [34, 92] @ lit ''}''"

definition RE_FUNC :: rstr where
  "RE_FUNC = lit ''(functions?'' @ [92] @ lit ''.?'' @ [92] @ lit ''s*)+''"

definition RE_TOOL_KEYWORD :: rstr where
  "RE_TOOL_KEYWORD = lit ''</?(tool_call|tool_result|tool_use)'' @ [92] @ lit ''b[^>]*>|'' @ [92] @
      lit ''b(tool_call|tool_result|tool_use)'' @ [92] @ lit ''b''"

definition RE_WS :: rstr where
  "RE_WS = lit ''[ '' @ [92] @ lit ''t]+''"

definition RE_NL :: rstr where
  "RE_NL = [92] @ lit ''n[ '' @ [92] @ lit ''t'' @ [92] @ lit ''n]*'' @ [92] @ lit ''n''"

definition RE_INTERNAL_BLOCK :: rstr where
  "RE_INTERNAL_BLOCK = lit ''(?is)<think'' @ [92] @ lit ''b[^>]*>.*?</think>|<tool_code'' @ [92] @
      lit ''b[^>]*>.*?</tool_code>|</?(tool_call|tool_result|tool_use)'' @ [92] @ lit ''b[^>]*>''"

definition RE_BRACKET_INTERNAL_BLOCK :: rstr where
  "RE_BRACKET_INTERNAL_BLOCK = lit ''(?is)'' @ [92] @ lit ''[(?:/)?TOOL_(?:CALL|RESULT|USE)[^'' @ [92] @ lit '']]*''
      @ [92] @ lit '']''"

definition RE_INTERNAL_PROTOCOL_LINE :: rstr where
  "RE_INTERNAL_PROTOCOL_LINE = lit ''(?ix)'' @ [10] @ lit ''        ^'' @ [10] @ lit ''        ('' @ [10] @
      lit ''            <(?:tool_call|tool_result|tool_use|parameter)'' @ [92] @ lit ''b'' @ [10] @
      lit ''            |'' @ [10] @ lit ''            </(?:tool_call|tool_result|tool_use|parameter)>'' @ [10] @
      lit ''            |'' @ [10] @ lit ''            '' @ [92] @ lit ''[(?:/)?TOOL_(?:CALL|RESULT|USE)[^'' @ [92] @
      lit '']]*'' @ [92] @ lit '']'' @ [10] @ lit ''            |'' @ [10] @ lit ''            '' @ [92] @
      lit ''{[^{}]*(?:'' @ [34] @ lit ''name'' @ [34, 92] @ lit ''s*:'' @ [92] @ lit ''s*'' @ [34] @ lit ''[^'' @ [34]
      @ lit '']+'' @ [34] @ lit ''|'' @ [34] @ lit ''parameters'' @ [34, 92] @ lit ''s*:|'' @ [34] @ lit ''queryType''
      @ [34, 92] @ lit ''s*:|'' @ [34] @ lit ''maxResults'' @ [34, 92] @ lit ''s*:)[^{}]*'' @ [92] @ lit ''}'' @ [10]
      @ lit ''        )'' @ [10] @ lit ''        ''"

definition RE_COMPACT_MARKER_LINE :: rstr where
  "RE_COMPACT_MARKER_LINE = lit ''(?i)^'' @ [92] @ lit ''s*(context|conversation)'' @ [92] @ lit ''s+compacted['' @
      [92] @ lit ''s'' @ [92] @ lit ''.'' @ [92] @ lit ''u{3002}:'' @ [65306] @ lit ''-]*$''"

definition RE_LOCAL_MARKDOWN_LINK :: rstr where
  "RE_LOCAL_MARKDOWN_LINK = [92] @ lit ''[(?P<label>[^'' @ [92] @ lit '']'' @ [92] @ lit ''n]{0,240})'' @ [92] @
      lit '']'' @ [92] @ lit ''((?P<path>(?:file://)?(?:[A-Za-z]:['' @ [92, 92] @ lit ''/]|/)[^)'' @ [92] @
      lit ''n]+)'' @ [92] @ lit '')''"

definition RE_FILE_URI_ABSOLUTE_PATH :: rstr where
  "RE_FILE_URI_ABSOLUTE_PATH = lit ''(?P<prefix>^|['' @ [92] @ lit ''s'' @ [92] @ lit ''('' @ [92] @ lit ''['' @ [92]
      @ lit ''{<'' @ [34, 39, 96] @ lit ''])file://(?P<path>(?:[A-Za-z]:['' @ [92, 92] @ lit ''/]|/)[^'' @ [92] @
      lit ''s<>'' @ [34, 39, 96] @ lit '']+)''"

definition RE_ABSOLUTE_PATH :: rstr where
  "RE_ABSOLUTE_PATH = lit ''(?P<prefix>^|['' @ [92] @ lit ''s'' @ [92] @ lit ''('' @ [92] @ lit ''['' @ [92] @
      lit ''{<'' @ [34, 39, 96] @ lit ''])(?P<path>(?:[A-Za-z]:['' @ [92, 92] @ lit ''/]|/)[^'' @ [92] @ lit ''s<>''
      @ [34, 39, 96] @ lit '']+)''"

definition RE_INTERNAL_RELATIVE_PROFILE_PATH :: rstr where
  "RE_INTERNAL_RELATIVE_PROFILE_PATH = lit ''(?P<prefix>^|['' @ [92] @ lit ''s'' @ [92] @ lit ''('' @ [92] @ lit ''[''
      @ [92] @ lit ''{<'' @ [34, 39, 96] @ lit ''])(?P<path>(?:company_profiles/[^'' @ [92] @ lit ''s<>'' @ [34, 39,
      96, 65292, 12290, 65307, 12289, 65289, 92] @ lit '')'' @ [92] @ lit '']'' @ [92] @ lit ''}]+|events/[^'' @ [92]
      @ lit ''s<>'' @ [34, 39, 96, 65292, 12290, 65307, 12289, 65289, 92] @ lit '')'' @ [92] @ lit '']'' @ [92] @
      lit ''}]+'' @ [92] @ lit ''.md))''"

definition RE_ENABLED_BOOLEAN :: rstr where
  "RE_ENABLED_BOOLEAN = lit ''(?i)'' @ [96] @ lit ''?enabled'' @ [92] @ lit ''s*='' @ [92] @
      lit ''s*(?P<value>true|false)'' @ [96] @ lit ''?''"

definition RE_ENABLED_BOOLEAN_COPY :: rstr where
  "RE_ENABLED_BOOLEAN_COPY = lit ''(?P<prefix>'' @ [36825, 92] @ lit ''s*'' @ [92] @ lit ''d+'' @ [92] @ lit ''s*'' @
      [20010, 20219, 21153, 30446, 21069] @ lit '')(?:'' @ [37117] @ lit ''|'' @ [20840, 37096, 37117] @ lit ''|'' @
      [37117, 26159] @ lit '')'' @ [92] @ lit ''s*'' @ [24050] @ lit ''(?P<state>'' @ [21551, 29992] @ lit ''|'' @
      [20572, 29992] @ lit '')''"

definition RE_INTERNAL_SKILL_COPY_SENTENCE :: rstr where
  "RE_INTERNAL_SKILL_COPY_SENTENCE = lit ''(?i)[^'' @ [92] @ lit ''n'' @ [12290, 65281, 65311] @
      lit '']*(?:stock_research|deep_stock_research|skill)[^'' @ [92] @ lit ''n'' @ [12290, 65281, 65311] @
      lit '']*(?:'' @ [26410, 28608, 27963] @ lit ''|'' @ [27809, 26377, 28608, 27963] @ lit ''|'' @ [26410, 21152,
      36733] @ lit ''|'' @ [26410, 25104, 21151, 21152, 36733] @ lit '')[^'' @ [92] @ lit ''n'' @ [12290, 65281,
      65311] @ lit '']*['' @ [12290, 65281, 65311] @ lit '']?''"

definition RE_INTERNAL_FRAMEWORK_COPY_SENTENCE :: rstr where
  "RE_INTERNAL_FRAMEWORK_COPY_SENTENCE = lit ''[^'' @ [92] @ lit ''n'' @ [12290, 65281, 65311] @ lit '']*(?:'' @
      [25913, 29992] @ lit ''|'' @ [25913, 20026] @ lit ''|'' @ [36716, 32780, 20351, 29992] @ lit '')[^'' @ [92] @
      lit ''n'' @ [12290, 65281, 65311] @ lit '']*(?:'' @ [25216, 33021, 26694, 26550] @ lit ''|skill|tool)[^'' @ [92]
      @ lit ''n'' @ [12290, 65281, 65311] @ lit '']*['' @ [12290, 65281, 65311] @ lit '']?''"

definition RE_INTERNAL_STORAGE_COPY_SENTENCE :: rstr where
  "RE_INTERNAL_STORAGE_COPY_SENTENCE = lit ''[^'' @ [92] @ lit ''n'' @ [12290, 65281, 65311] @ lit '']*(?:'' @ [36134
      , 26412, 25991, 20214, 24050, 23450, 20301, 21040] @ lit ''|'' @ [26412, 22320, 92] @
      lit ''s*data/|data/portfolio|'' @ [26412, 22320] @ lit ''json'' @ [25991, 20214] @ lit ''|'' @ [26412, 22320] @
      lit '' json '' @ [25991, 20214] @ lit ''|'' @ [26412, 22320] @ lit ''json|'' @ [26412, 22320] @ lit '' json|''
      @ [26412, 22320, 25991, 20214, 20173, 21482, 26174, 31034] @ lit ''|json'' @ [25991, 20214, 20173, 21482, 26174
      , 31034] @ lit '')[^'' @ [92] @ lit ''n'' @ [12290, 65281, 65311] @ lit '']*['' @ [12290, 65281, 65311] @
      lit '']?''"

definition RE_INTERNAL_TOOLING_COPY_SENTENCE :: rstr where
  "RE_INTERNAL_TOOLING_COPY_SENTENCE = lit ''[^'' @ [92] @ lit ''n'' @ [12290, 65281, 65311] @ lit '']*(?:'' @ [36820
      , 22238, 20102] @ lit ''?'' @ [20840, 24066, 22330, 21015, 34920] @ lit ''|'' @ [20840, 24066, 22330, 21015,
      34920, 32780, 19981, 26159, 25353, 26631, 30340, 36807, 28388] @ lit ''|'' @ [24037, 20855, 36807, 28388, 24322
      , 24120] @ lit '')[^'' @ [92] @ lit ''n'' @ [12290, 65281, 65311] @ lit '']*['' @ [12290, 65281, 65311] @
      lit '']?''"

definition RE_COMPANY_PROFILE_COPY_GLITCH :: rstr where
  "RE_COMPANY_PROFILE_COPY_GLITCH = lit ''(?:'' @ [36335, 24452, 26159] @ lit ''[:'' @ [65306] @ lit '']?'' @ [92] @
      lit ''s*'' @ [20844, 21496, 30011, 20687] @ lit ''(?:'' @ [20844, 21496, 30011, 20687] @ lit '')?|'' @ [26412,
      22320, 30011, 20687] @ lit ''[:'' @ [65306] @ lit '']?'' @ [92] @ lit ''s*'' @ [20844, 21496, 30011, 20687] @
      lit ''|'' @ [26412, 22320, 20844, 21496, 30011, 20687] @ lit ''[:'' @ [65306] @ lit '']?'' @ [92] @ lit ''s*''
      @ [20844, 21496, 30011, 20687] @ lit '')''"

definition RE_COMPANY_PROFILE_UPDATE_COPY :: rstr where
  "RE_COMPANY_PROFILE_UPDATE_COPY = lit ''(?:'' @ [25105, 24050] @ lit ''|'' @ [24182] @ lit '')?'' @ [25226, 26412,
      36718, 26356, 26032, 34917, 36827, 26412, 22320, 30011, 20687] @ lit ''[:'' @ [65306] @ lit '']?'' @ [92] @
      lit ''s*'' @ [20844, 21496, 30011, 20687]"

definition RE_COMPANY_PROFILE_WRITE_COPY :: rstr where
  "RE_COMPANY_PROFILE_WRITE_COPY = [27785, 28096, 21040, 26412, 22320, 20844, 21496, 30011, 20687] @ lit ''[:'' @
      [65306] @ lit '']?'' @ [92] @ lit ''s*'' @ [20844, 21496, 30011, 20687]"

definition RE_ONLY_PUNCT :: rstr where
  "RE_ONLY_PUNCT = lit ''^['' @ [92] @ lit ''s'' @ [92] @ lit ''.'' @ [92] @ lit '','' @ [92] @ lit ''!'' @ [92] @
      lit ''?'' @ [92] @ lit '':'' @ [92] @ lit '';'' @ [92] @ lit ''-'' @ [92] @ lit ''_'' @ [92] @ lit ''='' @ [92]
      @ lit ''+'' @ [92] @ lit ''*'' @ [92] @ lit ''/'' @ [92, 92] @ lit '']+$''"

definition RE_ONLY_FUNC :: rstr where
  "RE_ONLY_FUNC = lit ''^(functions?'' @ [92] @ lit ''.?'' @ [92] @ lit ''s*)+$''"

definition RE_ONLY_TOOL_CALL :: rstr where
  "RE_ONLY_TOOL_CALL = lit ''^(tool_?call'' @ [92] @ lit ''.?'' @ [92] @ lit ''s*)+$''"

section \<open>Tool markers\<close>

definition contains_any :: "rstr \<Rightarrow> rstr list \<Rightarrow> bool" where
  "contains_any text markers \<longleftrightarrow> (\<exists>m \<in> set markers. contains_str text m)"

definition contains_any_casefolded :: "rstr \<Rightarrow> rstr \<Rightarrow> rstr list \<Rightarrow> bool" where
  "contains_any_casefolded text lowered markers \<longleftrightarrow> (\<exists>m \<in> set markers. contains_str lowered m \<or> contains_str text m)"

definition starts_with_any :: "rstr \<Rightarrow> rstr list \<Rightarrow> bool" where
  "starts_with_any text prefixes \<longleftrightarrow> (\<exists>p \<in> set prefixes. starts_with text p)"

definition tool_call_markers :: "rstr list" where
  "tool_call_markers =
  [lit ''<think'', lit ''</think>'', lit ''<tool_call'', lit ''</tool_call>'', lit ''<tool_result'',
      lit ''</tool_result>'', lit ''<tool_use'', lit ''</tool_use>'', lit ''<parameter'', lit ''</parameter>'',
      lit ''[TOOL_CALL]'', lit ''[/TOOL_CALL]'', lit ''[TOOL_RESULT]'', lit ''[/TOOL_RESULT]'', lit ''<|tool_call'',
      lit ''<|tool_calls_section'', lit ''tool_call_argument'', lit ''{'' @ [34] @ lit ''query'' @ [34], lit ''{'' @
      [34] @ lit ''action'' @ [34], lit ''{'' @ [34] @ lit ''data_type'' @ [34], lit ''{'' @ [34] @ lit ''skill_name''
      @ [34], lit ''_begin|>'', lit ''_end|>'', lit ''web_search:'', lit ''data_fetch:'', lit ''portfolio:'',
      lit ''load_skill:'', lit ''skill_tool:'', lit ''discover_skills:'', lit ''image_gen:'', lit ''{'' @ [34] @
      lit ''image_type'' @ [34]]"

definition is_tool_call_content :: "rstr \<Rightarrow> bool" where
  "is_tool_call_content text \<longleftrightarrow> contains_any text tool_call_markers"

definition clean_msg_markers :: "regex_engine \<Rightarrow> rstr \<Rightarrow> rstr" where
  "clean_msg_markers R text =
     (let strip = (\<lambda>p. replace_all R p (\<lambda>_. []));
          cleaned = fold strip [RE_MSG, RE_PIPE, RE_TOOL_TAG, RE_JSON_TOOL, RE_SIMPLE_JSON, RE_FUNC, RE_TOOL_KEYWORD] text;
          cleaned = replace_all R RE_WS (\<lambda>_. [32]) cleaned;
          cleaned = replace_all R RE_NL (\<lambda>_. [10, 10]) cleaned
      in trim cleaned)"

definition byte_len :: "rstr \<Rightarrow> nat" where
  "byte_len s = length (utf8 s)"

definition should_skip_buffer :: "regex_engine \<Rightarrow> rstr \<Rightarrow> bool" where
  "should_skip_buffer R text =
     (let cleaned = clean_msg_markers R text in
      byte_len cleaned < 10 \<or> is_tool_call_content cleaned \<or> is_match R RE_ONLY_PUNCT cleaned \<or>
      is_match R RE_ONLY_FUNC cleaned \<or> is_match R RE_ONLY_TOOL_CALL cleaned \<or> trim cleaned = [])"

definition get_tool_status_message :: "rstr \<Rightarrow> rstr \<Rightarrow> rstr" where
  "get_tool_status_message tool_name status =
     (case map_of tool_display_map tool_name of
        None \<Rightarrow> []
      | Some (display_name, should_show) \<Rightarrow>
          if \<not> should_show then []
          else if status = lit ''start'' then [27491, 22312] @ display_name @ lit ''...''
          else if status = lit ''done'' then display_name @ [23436, 25104]
          else [])"

section \<open>Paths\<close>

definition is_path_separator :: "nat \<Rightarrow> bool" where
  "is_path_separator c \<longleftrightarrow> c = 47 \<or> c = 92"

definition trim_trailing_path_separators :: "rstr \<Rightarrow> rstr" where
  "trim_trailing_path_separators s = rev (dropWhile is_path_separator (rev s))"

text \<open>How many characters of punctuation a path ends with; the argument is the reversed path.\<close>

fun trailing_punctuation :: "rstr \<Rightarrow> nat" where
  "trailing_punctuation (c # cs) =
     (if c = 46 \<and> starts_with cs [46, 46] then 3 + trailing_punctuation (drop 2 cs)
      else if c \<in> {44, 59, 41, 93, 125, 62, 34, 39, 96, 58} then 1 + trailing_punctuation cs
      else 0)"
| "trailing_punctuation [] = 0"

definition split_trailing_path_punctuation :: "rstr \<Rightarrow> rstr \<times> rstr" where
  "split_trailing_path_punctuation raw =
     (let k = length raw - trailing_punctuation (rev raw) in (take k raw, drop k raw))"

definition relativize_path_within_root :: "rstr \<Rightarrow> rstr \<Rightarrow> rstr option" where
  "relativize_path_within_root path base =
     (if path = base then Some (lit ''.'')
      else Option.bind (strip_prefix base path) (\<lambda>rest. or_else (strip_prefix [47] rest) (strip_prefix [92] rest)))"

definition mask_absolute_path :: "rstr \<Rightarrow> rstr" where
  "mask_absolute_path path =
     (case find (\<lambda>w. w \<noteq> []) (rev (split_by is_path_separator (trim_trailing_path_separators path))) of
        None \<Rightarrow> lit ''<absolute-path>''
      | Some basename \<Rightarrow> lit ''<absolute-path>/'' @ basename)"

definition relativize_user_visible_paths :: "regex_engine \<Rightarrow> rstr \<Rightarrow> rstr \<Rightarrow> rstr" where
  "relativize_user_visible_paths R text sandbox_root =
     (let base = trim_trailing_path_separators sandbox_root in
      if trim text = [] \<or> base = [] then text
      else replace_all R RE_ABSOLUTE_PATH
        (\<lambda>c. let (path, suffix) = split_trailing_path_punctuation (cap_named c ''path'') in
              cap_named c ''prefix'' @ unwrap_or (mask_absolute_path path) (relativize_path_within_root path base) @ suffix)
        text)"

section \<open>Answers\<close>

fun crlf_to_lf :: "rstr \<Rightarrow> rstr" where
  "crlf_to_lf (c # cs) = (if c = 13 \<and> starts_with cs [10] then crlf_to_lf cs else c # crlf_to_lf cs)"
| "crlf_to_lf [] = []"

text \<open>The functions that rewrite a text also say whether they took something out.\<close>

definition strip_internal_protocol_blocks :: "regex_engine \<Rightarrow> rstr \<Rightarrow> rstr \<times> bool" where
  "strip_internal_protocol_blocks R v =
     (let blocks = replace_all R RE_INTERNAL_BLOCK (\<lambda>_. [10]) v;
          brackets = replace_all R RE_BRACKET_INTERNAL_BLOCK (\<lambda>_. []) blocks
      in (brackets, blocks \<noteq> v \<or> brackets \<noteq> blocks))"

definition strip_internal_reasoning_blocks :: "regex_engine \<Rightarrow> rstr \<Rightarrow> rstr" where
  "strip_internal_reasoning_blocks R text = fst (strip_internal_protocol_blocks R (crlf_to_lf text))"

definition workflow_words :: "rstr list" where
  "workflow_words =
  [lit ''todo'', lit ''current-plan'', lit ''current plan'', [21160, 24577, 35745, 21010], [20219, 21153, 35745,
      21010], [19981, 33853, 30424], [25991, 26723, 26041, 38754], [24037, 20316, 27969], [26816, 26597, 26412, 22320
      , 26159, 21542, 24050, 26377, 30456, 20851, 20844, 21496, 30011, 20687], [26816, 26597, 26412, 22320, 20844,
      21496, 30011, 20687], [25216, 33021, 26410, 21152, 36733], [25216, 33021, 27809, 26377, 25104, 21151, 21152,
      36733], [25216, 33021, 27809, 25104, 21151, 21152, 36733], [24403, 21069, 36816, 34892, 22120],
      lit ''tool unavailable'', lit ''tool is unavailable'', lit ''skill unavailable'', lit ''skill is unavailable'',
      lit ''failed to load skill'']"

definition workflow_starts :: "rstr list" where
  "workflow_starts =
  [[25105, 20808], [25105, 20250, 20808], [25105, 25509, 19979, 26469], [25509, 19979, 26469, 25105], [20808], [20808
      , 25353], [20808, 23545, 40784], [20808, 26816, 26597]]"

definition conclusion_words :: "rstr list" where
  "conclusion_words =
  [[32467, 35770], [31572, 26696], [26680, 24515, 21028, 26029], [30452, 25509, 35828], [31616, 30701, 35828]]"

definition workflow_verbs :: "rstr list" where
  "workflow_verbs =
  [[26680, 39564], [26816, 26597], [23545, 40784], [25286, 25104], [25972, 29702], [34917, 26597], [35843, 21462],
      [26816, 32034], [30475, 26412, 22320], [25289, 21462], [25628, 32034], [26803, 29702]]"

definition looks_like_internal_workflow_prelude :: "rstr \<Rightarrow> bool" where
  "looks_like_internal_workflow_prelude text =
     (let trimmed = trim text in
      if trimmed = [] \<or> length trimmed > 320 then False
      else if contains_any_casefolded trimmed (to_ascii_lowercase trimmed) workflow_words then True
      else if \<not> starts_with_any trimmed workflow_starts then False
      else if contains_any trimmed conclusion_words then False
      else contains_any trimmed workflow_verbs \<and> contains_any trimmed [[20877], [28982, 21518], [26368, 21518], [20043, 21518]])"

definition strip_internal_workflow_prelude :: "rstr \<Rightarrow> rstr option" where
  "strip_internal_workflow_prelude text =
     (let trimmed = trim_start text;
          by_paragraph = Option.bind (split_once [10, 10] trimmed)
            (\<lambda>(first, tail). let rest = trim_start tail in
              if rest \<noteq> [] \<and> looks_like_internal_workflow_prelude first then Some rest else None);
          by_sentence = Option.bind (position (\<lambda>c. c \<in> {12290, 65281, 33, 10}) trimmed)
            (\<lambda>i. let rest = trim_start (drop (Suc i) trimmed) in
              if length rest \<ge> 30 \<and> looks_like_internal_workflow_prelude (take (Suc i) trimmed) then Some rest else None)
      in if trimmed = [] then None else or_else by_paragraph by_sentence)"

definition redact_local_link :: "regex_engine \<Rightarrow> captures \<Rightarrow> rstr" where
  "redact_local_link R c =
     (let label = trim (cap_named c ''label'') in
      if label = [] \<or> is_match R RE_ABSOLUTE_PATH label \<or> is_match R RE_FILE_URI_ABSOLUTE_PATH label
      then mask_absolute_path (trim_start_matches (lit ''file://'') (cap_named c ''path'')) else label)"

definition redact_path :: "captures \<Rightarrow> rstr" where
  "redact_path c =
     (let (path, suffix) = split_trailing_path_punctuation (cap_named c ''path'')
      in cap_named c ''prefix'' @ mask_absolute_path path @ suffix)"

definition redact_profile_path :: "captures \<Rightarrow> rstr" where
  "redact_profile_path c =
     (let prefix = cap_named c ''prefix'' in (if list_all is_whitespace prefix then [] else prefix) @ [20844, 21496, 30011, 20687])"

definition redact_user_visible_local_paths :: "regex_engine \<Rightarrow> rstr \<Rightarrow> rstr \<times> bool" where
  "redact_user_visible_local_paths R =
     (\<lambda>text. fold (\<lambda>(p, f) (s, removed). (replace_all R p f s, removed \<or> is_match R p s))
       [(RE_LOCAL_MARKDOWN_LINK, redact_local_link R), (RE_FILE_URI_ABSOLUTE_PATH, redact_path),
        (RE_ABSOLUTE_PATH, redact_path), (RE_INTERNAL_RELATIVE_PROFILE_PATH, redact_profile_path)] (text, False))"

definition enabled_word :: "captures \<Rightarrow> rstr" where
  "enabled_word c =
     (case map_option to_ascii_lowercase (cp_name c (lit ''value'')) of
        Some v \<Rightarrow> if v = lit ''true'' then [24050, 21551, 29992] else if v = lit ''false'' then [24050, 20572, 29992] else cp_all c
      | None \<Rightarrow> cp_all c)"

text \<open>A rewriting of internal wording counts when it changes the text.\<close>

definition rewrite_user_visible_internal_copy :: "regex_engine \<Rightarrow> rstr \<Rightarrow> rstr \<times> bool" where
  "rewrite_user_visible_internal_copy R text =
     fold (\<lambda>(p, f) (s, removed). let next = replace_all R p f s in (next, removed \<or> next \<noteq> s))
       [(RE_ENABLED_BOOLEAN_COPY, \<lambda>c. cap_named c ''prefix'' @ [22343, 24050] @ cap_named c ''state''),
        (RE_INTERNAL_SKILL_COPY_SENTENCE, \<lambda>_. []), (RE_INTERNAL_FRAMEWORK_COPY_SENTENCE, \<lambda>_. []),
        (RE_INTERNAL_STORAGE_COPY_SENTENCE, \<lambda>_. []), (RE_INTERNAL_TOOLING_COPY_SENTENCE, \<lambda>_. []),
        (RE_COMPANY_PROFILE_UPDATE_COPY, \<lambda>_. [25226, 26412, 36718, 26356, 26032, 34917, 36827, 20844, 21496, 30011, 20687]),
        (RE_COMPANY_PROFILE_WRITE_COPY, \<lambda>_. [27785, 28096, 21040, 20844, 21496, 30011, 20687]),
        (RE_COMPANY_PROFILE_COPY_GLITCH, \<lambda>_. [24050, 27785, 28096, 20026, 20844, 21496, 30011, 20687])]
       (replace_all R RE_ENABLED_BOOLEAN enabled_word text, is_match R RE_ENABLED_BOOLEAN text)"

record sanitized_output =
  so_content :: rstr
  so_removed_internal :: bool
  so_only_internal :: bool

text \<open>Whether a line is tool protocol or the mark of a compaction.\<close>

definition is_internal_line :: "regex_engine \<Rightarrow> rstr \<Rightarrow> bool" where
  "is_internal_line R line =
     (let trimmed = trim line in
      trimmed \<noteq> [] \<and> (is_match R RE_INTERNAL_PROTOCOL_LINE trimmed \<or> is_tool_call_content trimmed \<or>
        is_match R RE_COMPACT_MARKER_LINE trimmed))"

definition sanitize_user_visible_output :: "regex_engine \<Rightarrow> rstr \<Rightarrow> sanitized_output" where
  "sanitize_user_visible_output R text =
     (if trim text = [] then \<lparr>so_content = [], so_removed_internal = False, so_only_internal = False\<rparr>
      else
        (let (s, r1) = strip_internal_protocol_blocks R (crlf_to_lf text);
             lines = str_lines s;
             r2 = list_ex (is_internal_line R) lines;
             s = intercalate [10] (map (\<lambda>l. if trim l = [] then [] else l) (filter (\<lambda>l. \<not> is_internal_line R l) lines));
             (s, r3) = (case strip_internal_workflow_prelude s of Some rest \<Rightarrow> (rest, True) | None \<Rightarrow> (s, False));
             (s, r4) = redact_user_visible_local_paths R s;
             (s, r5) = rewrite_user_visible_internal_copy R s;
             s = trim (replace_all R RE_NL (\<lambda>_. [10, 10]) (replace_all R RE_WS (\<lambda>_. [32]) s));
             removed = r1 \<or> r2 \<or> r3 \<or> r4 \<or> r5
         in \<lparr>so_content = s, so_removed_internal = removed, so_only_internal = removed \<and> s = []\<rparr>))"

definition resolve_tool_reasoning :: "regex_engine \<Rightarrow> rstr \<Rightarrow> rstr option \<Rightarrow> rstr option" where
  "resolve_tool_reasoning R tool_name reasoning =
     (case opt_filter (\<lambda>v. v \<noteq> []) (map_option (\<lambda>r. trim (so_content (sanitize_user_visible_output R r))) reasoning) of
        Some cleaned \<Rightarrow> Some cleaned
      | None \<Rightarrow>
          (case map_of tool_display_map tool_name of
             Some (display_name, _) \<Rightarrow> Some ([27491, 22312] @ display_name @ lit ''...'')
           | None \<Rightarrow> Some ([27491, 22312, 35843, 29992] @ [32] @ tool_name @ lit ''...'')))"

definition planning_starts :: "rstr list" where
  "planning_starts =
  [[25105, 20808], [25105, 20877], [25105, 38656, 35201, 20808], [25105, 36824, 32570], [25105, 38656, 35201, 34917],
      [20808, 30475, 26412, 22320], [20808, 34917, 26597], [20808, 35843, 21462], [20808, 26680, 39564], [20808, 25235
      , 21462], [36824, 32570, 19968, 20214, 20107], [25105, 36824, 38656, 35201, 20808]]"

definition asking_words :: "rstr list" where
  "asking_words =
  [[35831, 20808, 30830, 35748], [35831, 30830, 35748], [20808, 30830, 35748], [35831, 20808, 25552, 20379], [35831,
      25552, 20379], [21578, 35785, 25105], [21457, 25105], [34917, 20805, 19968, 19979]]"

definition planning_words :: "rstr list" where
  "planning_words =
  [[25105, 20808], [25105, 20877], [25105, 38656, 35201, 20808], [25105, 36824, 32570], [25105, 38656, 35201, 34917],
      [25105, 20808, 35843, 21462], [25105, 20808, 34917, 26597], [25105, 20808, 30475], [25105, 20808, 25343], [25105
      , 20808, 26597], [20808, 30475, 26412, 22320], [20808, 34917, 26597], [20808, 35843, 21462], [20808, 26680,
      39564], [20808, 25235, 21462], [36824, 32570, 19968, 20214, 20107], [25105, 36824, 38656, 35201, 20808]]"

definition is_transitional_planning_sentence :: "rstr \<Rightarrow> bool" where
  "is_transitional_planning_sentence text =
     (if length text \<ge> 200 \<or> text = [] then False
      else if 65311 \<in> set text \<or> 63 \<in> set text then False
      else if \<not> starts_with_any (trim_start text) planning_starts then False
      else if contains_any text asking_words then False
      else contains_any text planning_words)"

section \<open>Errors\<close>

definition is_context_overflow_error :: "rstr \<Rightarrow> bool" where
  "is_context_overflow_error text =
     contains_any (to_ascii_lowercase (trim text))
       [lit ''context window exceeds limit'', lit ''context window overflow'', lit ''context_window_will_overflow'',
        lit ''context length exceeded'', lit ''maximum context length'', lit ''prompt is too long'', lit ''too many tokens'']"

definition GENERIC_USER_ERROR_MESSAGE :: rstr where
  "GENERIC_USER_ERROR_MESSAGE = [25265, 27465, 65292, 36825, 27425, 22788, 29702, 22833, 36133, 20102, 12290, 35831, 31245, 21518, 20877, 35797, 12290]"

definition TIMEOUT_USER_ERROR_MESSAGE :: rstr where
  "TIMEOUT_USER_ERROR_MESSAGE = [25265, 27465, 65292, 22788, 29702, 36229, 26102, 20102, 12290, 35831, 31245, 21518, 20877, 35797, 12290]"

definition RUNNER_USAGE_LIMIT_USER_ERROR_MESSAGE :: rstr where
  "RUNNER_USAGE_LIMIT_USER_ERROR_MESSAGE = [24403, 21069, 25191, 34892, 39069, 24230, 24050, 29992, 23613, 65292, 26242, 26102, 26080, 27861, 32487, 32493, 22788, 29702, 12290, 35831, 31245, 21518, 20877, 35797, 12290]"

definition RUNNER_RESOURCE_UNAVAILABLE_USER_ERROR_MESSAGE :: rstr where
  "RUNNER_RESOURCE_UNAVAILABLE_USER_ERROR_MESSAGE = [24403, 21069, 26412, 26426, 25191, 34892, 29615, 22659, 26242, 26102, 19981, 21487, 29992, 65292, 35831, 31245, 21518, 20877, 35797, 12290]"

definition is_hone_mcp_binary_missing_error :: "rstr \<Rightarrow> bool" where
  "is_hone_mcp_binary_missing_error text =
     (let n = to_ascii_lowercase (trim text) in
      contains_str n (lit ''hone-mcp binary not found'') \<or>
      contains_str n (lit ''hone_mcp_bin'') \<and> contains_str n (lit ''not found''))"

definition looks_runner_usage_limit_error_lowered :: "rstr \<Rightarrow> bool" where
  "looks_runner_usage_limit_error_lowered s \<longleftrightarrow>
     contains_any s [lit ''codex'', lit ''runner'', lit ''acp''] \<and>
     contains_any s [lit ''usage limit'', lit ''usage limits'', lit ''rate limit'', lit ''quota exceeded'',
       lit ''quota exhausted'', lit ''insufficient quota'', lit ''try again later'']"

definition is_runner_usage_limit_error :: "rstr \<Rightarrow> bool" where
  "is_runner_usage_limit_error raw = looks_runner_usage_limit_error_lowered (to_ascii_lowercase raw)"

definition looks_runner_resource_unavailable_error_lowered :: "rstr \<Rightarrow> bool" where
  "looks_runner_resource_unavailable_error_lowered s \<longleftrightarrow>
     contains_any s [lit ''codex'', lit ''codex-acp'', lit ''hone-mcp'', lit ''runner'', lit ''acp''] \<and>
     contains_any s [lit ''resource temporarily unavailable'', lit ''os error 35'', lit ''would block'',
       lit ''failed to probe'', lit ''version probe'', lit ''failed to spawn'', lit ''binary not found'',
       lit ''not found near current executable'']"

definition looks_runner_transport_disconnect_error_lowered :: "rstr \<Rightarrow> bool" where
  "looks_runner_transport_disconnect_error_lowered s \<longleftrightarrow>
     contains_any s [lit ''codex'', lit ''runner'', lit ''acp''] \<and>
     contains_any s [lit ''stream disconnected before completion'', lit ''stream closed before response'',
       lit ''acp stream disconnected'', lit ''transport disconnected'']"

definition looks_timeout_error_lowered :: "rstr \<Rightarrow> bool" where
  "looks_timeout_error_lowered s \<longleftrightarrow> contains_any s [lit ''timeout'', lit ''timed out'']"

definition sensitive_markers :: "rstr list" where
  "sensitive_markers =
  [lit ''api_key='', lit ''api_key:'', lit ''apikey='', lit ''apikey:'', lit ''x-api-key='', lit ''x-api-key:'',
      lit ''openrouter_api_key='', lit ''anthropic_api_key='', lit ''gemini_api_key='', lit ''google_api_key='',
      lit ''tavily_api_key='', lit ''fmp_api_key='', lit ''hone_cloud_api_key='', lit ''client_secret='',
      lit ''client_secret:'', lit ''refresh_token='', lit ''refresh_token:'', lit ''id_token='', lit ''id_token:'',
      lit ''session_token='', lit ''session_token:'', lit ''bot_token='', lit ''bot_token:'', lit ''authorization='',
      lit ''authorization:'', lit ''bearer '', lit ''basic '']"

definition looks_sensitive_error_detail :: "rstr \<Rightarrow> bool" where
  "looks_sensitive_error_detail s \<longleftrightarrow> contains_any s sensitive_markers"

definition internal_error_words :: "rstr list" where
  "internal_error_words =
  [lit ''LLM '' @ [38169, 35823], lit ''HTTP '' @ [38169, 35823], [28192, 36947, 38169, 35823], [24037, 20855, 25191,
      34892, 38169, 35823], [24207, 21015, 21270, 38169, 35823], lit ''IO '' @ [38169, 35823]]"

definition internal_error_markers :: "rstr list" where
  "internal_error_markers =
  [lit ''max_iterations_exceeded'', lit ''bad_request_error'', lit ''invalid params'', lit ''tool_call_id'',
      lit ''tool call result'', lit ''function arguments'', lit ''provider'', lit ''session/prompt'',
      lit ''codex acp'', lit ''stream disconnected before completion'', lit ''stream closed before response'',
      lit ''acp stream'']"

definition looks_internal_error_detail :: "rstr \<Rightarrow> rstr \<Rightarrow> bool" where
  "looks_internal_error_detail sanitized lowered \<longleftrightarrow>
     contains_any sanitized internal_error_words \<or> contains_any lowered internal_error_markers"

definition QUOTA_REJECTED :: rstr where
  "QUOTA_REJECTED = [24050, 36798, 21040, 20170, 26085, 23545, 35805, 19978, 38480]"

definition quota_rejection_user_message :: "rstr \<Rightarrow> rstr option" where
  "quota_rejection_user_message sanitized =
     (case str_find QUOTA_REJECTED sanitized of
        None \<Rightarrow> None
      | Some start \<Rightarrow>
          (let rest = trim (drop start sanitized);
               first_line = trim (case str_lines rest of [] \<Rightarrow> rest | l # _ \<Rightarrow> l)
           in if first_line \<noteq> [] then Some first_line else None))"

definition user_actionable_error_message :: "rstr \<Rightarrow> rstr \<Rightarrow> rstr option" where
  "user_actionable_error_message sanitized lowered =
     or_else (quota_rejection_user_message sanitized)
       (if looks_runner_usage_limit_error_lowered lowered then Some RUNNER_USAGE_LIMIT_USER_ERROR_MESSAGE
        else if looks_runner_resource_unavailable_error_lowered lowered then Some RUNNER_RESOURCE_UNAVAILABLE_USER_ERROR_MESSAGE
        else None)"

definition sanitized_non_empty_user_visible :: "regex_engine \<Rightarrow> rstr option \<Rightarrow> rstr option" where
  "sanitized_non_empty_user_visible R raw =
     opt_filter (\<lambda>v. v \<noteq> []) (map_option (\<lambda>t. trim (so_content (sanitize_user_visible_output R t))) raw)"

definition user_visible_error_message :: "regex_engine \<Rightarrow> rstr option \<Rightarrow> rstr" where
  "user_visible_error_message R raw =
     (case sanitized_non_empty_user_visible R raw of
        None \<Rightarrow> GENERIC_USER_ERROR_MESSAGE
      | Some sanitized \<Rightarrow>
          (let lowered = to_ascii_lowercase sanitized in
           if is_hone_mcp_binary_missing_error sanitized then RUNNER_RESOURCE_UNAVAILABLE_USER_ERROR_MESSAGE
           else if looks_runner_transport_disconnect_error_lowered lowered then RUNNER_RESOURCE_UNAVAILABLE_USER_ERROR_MESSAGE
           else case user_actionable_error_message sanitized lowered of
             Some message \<Rightarrow> message
           | None \<Rightarrow>
               if looks_timeout_error_lowered lowered then TIMEOUT_USER_ERROR_MESSAGE
               else if looks_sensitive_error_detail lowered then GENERIC_USER_ERROR_MESSAGE
               else if looks_internal_error_detail sanitized lowered then GENERIC_USER_ERROR_MESSAGE
               else sanitized))"

definition user_visible_error_message_or_none :: "regex_engine \<Rightarrow> rstr option \<Rightarrow> rstr option" where
  "user_visible_error_message_or_none R raw =
     Option.bind (sanitized_non_empty_user_visible R raw)
       (\<lambda>sanitized. let lowered = to_ascii_lowercase sanitized in
          case user_actionable_error_message sanitized lowered of
            Some message \<Rightarrow> Some message
          | None \<Rightarrow>
              if looks_internal_error_detail sanitized lowered then None
              else if looks_sensitive_error_detail lowered then None
              else if looks_timeout_error_lowered lowered then Some TIMEOUT_USER_ERROR_MESSAGE
              else Some sanitized)"

section \<open>What a user gets to see of an error\<close>

lemma split_by_append:
  "\<forall>c \<in> set q. \<not> P c \<Longrightarrow> split_by P (q @ r) = (q @ hd (split_by P r)) # tl (split_by P r)"
  by (induction q) auto

lemma str_lines_no_feed: "l \<in> set (str_lines s) \<Longrightarrow> 10 \<notin> set l"
proof -
  assume "l \<in> set (str_lines s)"
  then obtain w where w: "w \<in> set (split_by (\<lambda>c. c = 10) s)" "set l \<subseteq> set w"
    by (auto simp: str_lines_def Let_def dest: in_set_butlastD split: if_splits)
  then show ?thesis using split_by_pieces [OF w(1), of 10] by auto
qed

lemma str_lines_first:
  assumes "q \<noteq> []" "10 \<notin> set q" "last q \<noteq> 13"
  shows "\<exists>l ls. str_lines (q @ r) = l # ls \<and> starts_with l q"
proof -
  let ?w = "q @ hd (split_by (\<lambda>c. c = 10) r)"
  have split: "split_by (\<lambda>c. c = 10) (q @ r) = ?w # tl (split_by (\<lambda>c. c = 10) r)"
    using assms(2) by (intro split_by_append) auto
  have "starts_with (if ?w \<noteq> [] \<and> last ?w = 13 then butlast ?w else ?w) q"
    using assms by (auto simp: starts_with_iff butlast_append)
  moreover have "\<exists>ls. str_lines (q @ r) = (if ?w \<noteq> [] \<and> last ?w = 13 then butlast ?w else ?w) # ls"
    unfolding str_lines_def split using assms(1) by (auto simp: Let_def)
  ultimately show ?thesis by metis
qed

lemma trim_starts_with:
  assumes "q \<noteq> []" "\<not> is_whitespace (hd q)" "\<not> is_whitespace (last q)"
  shows "starts_with (trim (q @ r)) q"
proof -
  have "dropWhile is_whitespace (q @ r) = q @ r" using assms(1,2) by (cases q) auto
  then have "trim (q @ r) = rev (dropWhile is_whitespace (rev r @ rev q))" by (simp add: trim_def)
  also have "\<dots> = q @ rev (dropWhile is_whitespace (rev r))"
  proof (cases "\<forall>c \<in> set r. is_whitespace c")
    case True
    moreover have "dropWhile is_whitespace (rev q) = rev q" using assms(1,3) by (cases q rule: rev_cases) auto
    ultimately show ?thesis by (simp add: dropWhile_append dropWhile_eq_Nil_conv)
  next
    case False
    then show ?thesis by (auto simp: dropWhile_append1)
  qed
  finally show ?thesis by simp
qed

lemma quota_words: "QUOTA_REJECTED \<noteq> []" "10 \<notin> set QUOTA_REJECTED" "last QUOTA_REJECTED \<noteq> 13"
  "\<not> is_whitespace (hd QUOTA_REJECTED)" "\<not> is_whitespace (last QUOTA_REJECTED)"
  by (simp_all add: QUOTA_REJECTED_def is_whitespace_def)

lemma quota_line:
  assumes "quota_rejection_user_message s = Some m"
  shows "starts_with m QUOTA_REJECTED \<and> 10 \<notin> set m"
proof -
  obtain start where start: "str_find QUOTA_REJECTED s = Some start" "m = trim (case str_lines (trim (drop start s)) of [] \<Rightarrow> trim (drop start s) | l # _ \<Rightarrow> l)"
    using assms by (auto simp: quota_rejection_user_message_def Let_def split: option.splits if_splits)
  have "starts_with (drop start s) QUOTA_REJECTED" using start(1) quota_words(1) str_find_Some by blast
  then obtain r where "drop start s = QUOTA_REJECTED @ r" by (auto simp: starts_with_iff)
  then have "starts_with (trim (drop start s)) QUOTA_REJECTED" using trim_starts_with quota_words by simp
  then obtain r' where r': "trim (drop start s) = QUOTA_REJECTED @ r'" by (auto simp: starts_with_iff)
  obtain l ls where l: "str_lines (trim (drop start s)) = l # ls" "starts_with l QUOTA_REJECTED"
    using str_lines_first [OF quota_words(1,2,3), of r'] r' by auto
  then obtain r'' where r'': "l = QUOTA_REJECTED @ r''" by (auto simp: starts_with_iff)
  have m: "m = trim l" using start(2) l(1) by simp
  have "starts_with m QUOTA_REJECTED" unfolding m r'' by (rule trim_starts_with) (rule quota_words)+
  moreover have "10 \<notin> set m" using str_lines_no_feed [of l "trim (drop start s)"] l(1) set_trim [of l] m by auto
  ultimately show ?thesis by blast
qed

text \<open>The fixed messages contain no letter of the Latin alphabet.\<close>

definition error_notices :: "rstr list" where
  "error_notices = [GENERIC_USER_ERROR_MESSAGE, TIMEOUT_USER_ERROR_MESSAGE, RUNNER_USAGE_LIMIT_USER_ERROR_MESSAGE,
     RUNNER_RESOURCE_UNAVAILABLE_USER_ERROR_MESSAGE]"

definition fit_for_users :: "rstr \<Rightarrow> bool" where
  "fit_for_users m \<longleftrightarrow> trim m \<noteq> [] \<and>
     (starts_with m QUOTA_REJECTED \<and> 10 \<notin> set m \<or>
      \<not> looks_sensitive_error_detail (to_ascii_lowercase m) \<and> \<not> looks_internal_error_detail m (to_ascii_lowercase m))"

lemma contains_hd: "contains_str m w \<Longrightarrow> w \<noteq> [] \<Longrightarrow> hd w \<in> set m"
  by (auto simp: contains_str_iff)

lemma lower_high: "\<forall>c \<in> set m. 128 \<le> c \<Longrightarrow> to_ascii_lowercase m = m"
  by (induction m) (auto simp: to_ascii_lowercase_def ascii_lower_def is_ascii_upper_def)

lemma marker_starts: "list_all (\<lambda>w. w \<noteq> [] \<and> hd w < 128) (sensitive_markers @ internal_error_markers)"
  by (simp add: sensitive_markers_def internal_error_markers_def lit_def)

lemma word_starts: "list_all (\<lambda>w. w \<noteq> [] \<and> (hd w < 128 \<or> hd w \<in> {28192, 24037, 24207})) internal_error_words"
  by (simp add: internal_error_words_def lit_def)

lemma notice_letters: "list_all (\<lambda>m. \<not> is_whitespace (hd m) \<and> m \<noteq> [] \<and> (\<forall>c \<in> set m. 128 \<le> c \<and> c \<notin> {28192, 24037, 24207})) error_notices"
  by (simp add: error_notices_def GENERIC_USER_ERROR_MESSAGE_def TIMEOUT_USER_ERROR_MESSAGE_def
      RUNNER_USAGE_LIMIT_USER_ERROR_MESSAGE_def RUNNER_RESOURCE_UNAVAILABLE_USER_ERROR_MESSAGE_def is_whitespace_def)

text \<open>A notice in plain Chinese, without the words that mark an internal error, is fit.\<close>

definition plain_notice :: "rstr \<Rightarrow> bool" where
  "plain_notice m \<longleftrightarrow> \<not> is_whitespace (hd m) \<and> m \<noteq> [] \<and> (\<forall>c \<in> set m. 128 \<le> c \<and> c \<notin> {28192, 24037, 24207})"

lemma plain_notice_fit:
  assumes "plain_notice m"
  shows "fit_for_users m"
proof -
  have m: "\<not> is_whitespace (hd m)" "m \<noteq> []" "\<forall>c \<in> set m. 128 \<le> c \<and> c \<notin> {28192, 24037, 24207}"
    using assms by (auto simp: plain_notice_def)
  have "to_ascii_lowercase m = m" by (rule lower_high) (use m(3) in blast)
  moreover have none: "\<not> contains_any m ws"
    if "list_all (\<lambda>w. w \<noteq> [] \<and> (hd w < 128 \<or> hd w \<in> {28192, 24037, 24207})) ws" for ws
  proof -
    have "\<not> contains_str m w" if w: "w \<in> set ws" for w
    proof
      assume c: "contains_str m w"
      have "w \<noteq> []" "hd w < 128 \<or> hd w \<in> {28192, 24037, 24207}"
        using w \<open>list_all _ ws\<close> by (auto simp: list_all_iff)
      then show False using m(3) contains_hd [OF c] by fastforce
    qed
    then show ?thesis by (auto simp: contains_any_def)
  qed
  moreover have "\<not> contains_any m internal_error_words" by (rule none [OF word_starts])
  moreover have "\<not> contains_any m sensitive_markers" "\<not> contains_any m internal_error_markers"
    by (rule none, use marker_starts in \<open>simp add: list_all_iff\<close>)+
  moreover have "trim m \<noteq> []" unfolding trim_eq_Nil using m(1,2) by (cases m) auto
  ultimately show ?thesis
    by (simp add: fit_for_users_def looks_sensitive_error_detail_def looks_internal_error_detail_def)
qed

lemma notices_fit: "m \<in> set error_notices \<Longrightarrow> fit_for_users m"
  using notice_letters by (intro plain_notice_fit) (auto simp: list_all_iff plain_notice_def)

lemma quota_fit:
  assumes "quota_rejection_user_message s = Some m"
  shows "fit_for_users m"
proof -
  have q: "starts_with m QUOTA_REJECTED" "10 \<notin> set m" using quota_line [OF assms] by auto
  then obtain r where "m = QUOTA_REJECTED @ r" by (auto simp: starts_with_iff)
  then have "trim m \<noteq> []" using trim_starts_with [OF quota_words(1,4,5), of r] quota_words(1) by (auto simp: starts_with_iff)
  then show ?thesis using q by (simp add: fit_for_users_def)
qed

lemma actionable_fit:
  assumes "user_actionable_error_message s l = Some m"
  shows "fit_for_users m"
proof (cases "quota_rejection_user_message s")
  case None
  then have "m \<in> set error_notices"
    using assms by (auto simp: user_actionable_error_message_def error_notices_def split: if_splits)
  then show ?thesis by (rule notices_fit)
qed (use assms quota_fit in \<open>auto simp: user_actionable_error_message_def\<close>)

lemma sanitized_trimmed: "sanitized_non_empty_user_visible R raw = Some s \<Longrightarrow> trim s = s \<and> s \<noteq> []"
  by (auto simp: sanitized_non_empty_user_visible_def opt_filter_Some)

lemma sanitized_fit:
  assumes "sanitized_non_empty_user_visible R raw = Some s" "\<not> looks_sensitive_error_detail (to_ascii_lowercase s)"
    and "\<not> looks_internal_error_detail s (to_ascii_lowercase s)"
  shows "fit_for_users s"
  using sanitized_trimmed [OF assms(1)] assms(2,3) by (simp add: fit_for_users_def)

lemma user_error_fit:
  "fit_for_users (user_visible_error_message R raw) \<and> pred_option fit_for_users (user_visible_error_message_or_none R raw)"
proof (cases "sanitized_non_empty_user_visible R raw")
  case None
  then show ?thesis by (simp add: user_visible_error_message_def user_visible_error_message_or_none_def notices_fit error_notices_def)
next
  case (Some s)
  have notices: "fit_for_users GENERIC_USER_ERROR_MESSAGE" "fit_for_users TIMEOUT_USER_ERROR_MESSAGE"
    "fit_for_users RUNNER_RESOURCE_UNAVAILABLE_USER_ERROR_MESSAGE"
    by (simp_all add: notices_fit error_notices_def)
  show ?thesis
  proof (cases "user_actionable_error_message s (to_ascii_lowercase s)")
    case None
    then show ?thesis using \<open>sanitized_non_empty_user_visible R raw = Some s\<close> notices sanitized_fit [OF Some]
      by (simp add: user_visible_error_message_def user_visible_error_message_or_none_def Let_def)
  next
    case (Some m)
    then show ?thesis using \<open>sanitized_non_empty_user_visible R raw = Some s\<close> notices actionable_fit [OF Some]
      by (simp add: user_visible_error_message_def user_visible_error_message_or_none_def Let_def)
  qed
qed

text \<open>C29: an error that reaches a user is fit to be read. Whatever the raw error and however the expressions match, the
  message is not blank, and carries no credential and no internal detail; the one exception is the single line that
  tells a user the daily limit, which is passed on as it is. The stricter form, which may give no message, keeps the
  same promise.\<close>

theorem user_error_is_fit:
  "fit_for_users (user_visible_error_message R raw) \<and> pred_option fit_for_users (user_visible_error_message_or_none R raw)"
  by (rule user_error_fit)

end
