(* ===== verification/Message_Split.thy ===== *)
theory Message_Split
  imports User_Visible
begin

text \<open>
  The parts of \<^verbatim>\<open>hone-channels/src/runtime.rs\<close> and \<^verbatim>\<open>outbound.rs\<close> that cut a long answer into messages: where to cut
  (\<open>find_split_point\<close>), the loop that cuts (\<open>flush_buffer\<close>, \<open>split_segments\<close>), and the repair of HTML tags and code
  fences that a cut leaves open. The source measures texts in bytes and cuts at characters: a position here is a
  number of characters, and what the source compares with a limit is \<open>byte_len\<close>.
\<close>

section \<open>Where to cut\<close>

text \<open>The longest beginning of a text that has at most \<open>n\<close> bytes.\<close>

fun floor_prefix :: "nat \<Rightarrow> rstr \<Rightarrow> rstr" where
  "floor_prefix n [] = []"
| "floor_prefix n (c # cs) =
     (if length (utf8_char c) \<le> n then c # floor_prefix (n - length (utf8_char c)) cs else [])"

text \<open>\<^verbatim>\<open>rfind(pat)\<close>: where a non-empty pattern occurs last.\<close>

definition str_rfind :: "rstr \<Rightarrow> rstr \<Rightarrow> nat option" where
  "str_rfind p s = map_option (\<lambda>i. length s - length p - i) (str_find (rev p) (rev s))"

definition STOP_CHARS :: "nat list" where
  "STOP_CHARS = [12290, 65281, 65311, 10, 46, 33, 63]"

definition find_split_point :: "rstr \<Rightarrow> nat \<Rightarrow> nat" where
  "find_split_point text target_pos =
     (let search = floor_prefix target_pos text;
          hit = (\<lambda>p. opt_filter (\<lambda>pos. 0 < pos) (str_rfind p search)) in
      case hit (lit ''---'') of
        Some pos \<Rightarrow> pos + 3 + length (takeWhile (\<lambda>c. c \<in> {10, 13, 32}) (drop (pos + 3) text))
      | None \<Rightarrow>
          (case hit [10, 10] of
             Some pos \<Rightarrow> pos + 2
           | None \<Rightarrow>
               (case hit [10] of
                  Some pos \<Rightarrow> pos + 1
                | None \<Rightarrow>
                    (case opt_filter (\<lambda>pos. 0 < pos) (rposition (\<lambda>c. c \<in> set STOP_CHARS) search) of
                       Some best \<Rightarrow> best + 1
                     | None \<Rightarrow> length search))))"

lemma str_rfind_bound: "p \<noteq> [] \<Longrightarrow> str_rfind p s = Some i \<Longrightarrow> i + length p \<le> length s"
proof -
  assume p: "p \<noteq> []" and "str_rfind p s = Some i"
  then obtain k where k: "str_find (rev p) (rev s) = Some k" "i = length s - length p - k" by (auto simp: str_rfind_def)
  then have "starts_with (drop k (rev s)) (rev p)" using p str_find_Some [of "rev p"] by simp
  then obtain r where "drop k (rev s) = rev p @ r" by (auto simp: starts_with_iff)
  then have "length s - k = length p + length r" by (metis length_append length_drop length_rev)
  then show ?thesis using p k(2) by (cases p) auto
qed

lemma floor_prefix_take: "floor_prefix n s = take (length (floor_prefix n s)) s"
  by (induction n s rule: floor_prefix.induct) auto

lemma byte_len_simps [simp]: "byte_len [] = 0" "byte_len (c # s) = length (utf8_char c) + byte_len s"
  "byte_len (s @ t) = byte_len s + byte_len t"
  by (simp_all add: byte_len_def utf8_def)

lemma byte_len_floor: "byte_len (floor_prefix n s) \<le> n"
  by (induction n s rule: floor_prefix.induct) auto

lemma utf8_char_length: "0 < length (utf8_char c)" "length (utf8_char c) \<le> 4"
  by (simp_all add: utf8_char_def)

lemma floor_prefix_nonempty: "4 \<le> n \<Longrightarrow> s \<noteq> [] \<Longrightarrow> floor_prefix n s \<noteq> []"
  using utf8_char_length(2) by (cases s) (auto intro: order_trans)

text \<open>The cut is within the search, but for the blanks after a rule.\<close>

lemma split_point:
  fixes body :: rstr and n :: nat
  defines "search \<equiv> floor_prefix n body" and "k \<equiv> find_split_point body n"
  shows "(search \<noteq> [] \<longrightarrow> 0 < k) \<and> (body = [] \<longrightarrow> k = 0) \<and>
    (\<exists>j. j \<le> length search \<and> j \<le> k \<and> (\<forall>c \<in> set (drop j (take k body)). is_whitespace c))"
proof -
  define hit where "hit = (\<lambda>p. opt_filter (\<lambda>pos. 0 < pos) (str_rfind p search))"
  have hit: "pos + length p \<le> length search \<and> 0 < pos" if "hit p = Some pos" "p \<noteq> []" for p pos
    using that str_rfind_bound by (auto simp: hit_def opt_filter_Some)
  have stop: "best + 1 \<le> length search \<and> 0 < best"
    if "opt_filter (\<lambda>pos. 0 < pos) (rposition (\<lambda>c. c \<in> set STOP_CHARS) search) = Some best" for best
    using that rposition_Some(1) by (fastforce simp: opt_filter_Some)
  have k: "k = (case hit (lit ''---'') of
        Some pos \<Rightarrow> pos + 3 + length (takeWhile (\<lambda>c. c \<in> {10, 13, 32}) (drop (pos + 3) body))
      | None \<Rightarrow> (case hit [10, 10] of Some pos \<Rightarrow> pos + 2
           | None \<Rightarrow> (case hit [10] of Some pos \<Rightarrow> pos + 1
                | None \<Rightarrow> (case opt_filter (\<lambda>pos. 0 < pos) (rposition (\<lambda>c. c \<in> set STOP_CHARS) search) of
                       Some best \<Rightarrow> best + 1 | None \<Rightarrow> length search))))"
    unfolding k_def find_split_point_def Let_def hit_def search_def ..
  have empty: "search = []" if "body = []" using that by (simp add: search_def)
  have within: ?thesis if "k \<le> length search" "search \<noteq> [] \<longrightarrow> 0 < k"
    using that empty by (intro conjI exI [of _ k]) auto
  show ?thesis
  proof (cases "hit (lit ''---'')")
    case (Some pos)
    let ?blank = "takeWhile (\<lambda>c. c \<in> {10, 13, 32}) (drop (pos + 3) body)"
    have "k = pos + 3 + length ?blank" using k Some by simp
    moreover have p: "pos + 3 \<le> length search \<and> 0 < pos" using hit [OF Some] by simp
    moreover have "drop (pos + 3) (take (pos + 3 + length ?blank) body) = ?blank"
      by (simp add: drop_take) (metis takeWhile_eq_take)
    moreover have "\<forall>c \<in> set ?blank. is_whitespace c" by (auto simp: is_whitespace_def dest: set_takeWhileD)
    ultimately show ?thesis using empty by (intro conjI exI [of _ "pos + 3"]) auto
  next
    case None
    then have "k \<le> length search \<and> (search \<noteq> [] \<longrightarrow> 0 < k)"
      using k hit [of "[10, 10]"] hit [of "[10]"] stop by (auto split: option.split)
    then show ?thesis using within by blast
  qed
qed

section \<open>Cutting\<close>

function flush_buffer :: "regex_engine \<Rightarrow> nat \<Rightarrow> rstr \<Rightarrow> rstr \<times> rstr list" where
  "flush_buffer R max_segment_size buffer =
     (if byte_len buffer < max_segment_size then (buffer, [])
      else
        (let split_pos = find_split_point buffer max_segment_size in
         if split_pos = 0 then (buffer, [])
         else
           (let segment = clean_msg_markers R (trim (take split_pos buffer));
                (rest, segments) = flush_buffer R max_segment_size (drop split_pos buffer)
            in (rest, if segment \<noteq> [] \<and> 10 \<le> byte_len segment \<and> \<not> should_skip_buffer R segment
                      then segment # segments else segments))))"
  by pat_completeness auto
termination
proof (relation "measure (\<lambda>(R, n, buffer). length buffer)", simp)
  fix R :: regex_engine and n :: nat and buffer :: rstr and k
  assume "k = find_split_point buffer n" "k \<noteq> 0"
  then have "buffer \<noteq> []" using split_point [of n buffer] by auto
  then show "((R, n, drop k buffer), R, n, buffer) \<in> measure (\<lambda>(R, n, buffer). length buffer)" using \<open>k \<noteq> 0\<close> by simp
qed

declare flush_buffer.simps [simp del]

text \<open>The loop of \<open>split_segments\<close> goes on until what is left is short enough.\<close>

partial_function (option) split_loop :: "regex_engine \<Rightarrow> nat \<Rightarrow> rstr \<Rightarrow> (rstr \<times> rstr list) option" where
  "split_loop R target buf =
     (case flush_buffer R target buf of
        (remaining, flushed) \<Rightarrow>
          if byte_len remaining < target then Some (remaining, flushed)
          else Option.bind (split_loop R target remaining) (\<lambda>(rest, more). Some (rest, flushed @ more)))"

definition target_size :: "nat \<Rightarrow> nat \<Rightarrow> nat" where
  "target_size max_segment_size hard_max = max 100 (min max_segment_size (max hard_max 100))"

definition split_segments :: "regex_engine \<Rightarrow> rstr \<Rightarrow> nat \<Rightarrow> nat \<Rightarrow> rstr list option" where
  "split_segments R text max_segment_size hard_max =
     (if trim text = [] then Some []
      else Option.bind (split_loop R (target_size max_segment_size hard_max) text)
        (\<lambda>(buf, segments).
           let segments = segments @ (if trim buf \<noteq> [] then [trim buf] else [])
           in Some (if segments = [] then [trim text] else segments)))"

section \<open>What cutting keeps\<close>

lemma byte_len_trim: "byte_len (trim s) \<le> byte_len s"
proof -
  have "byte_len (dropWhile P s) \<le> byte_len s" for P s
    by (metis byte_len_simps(3) le_add2 takeWhile_dropWhile_id)
  moreover have "byte_len (rev s) = byte_len s" for s by (induction s) simp_all
  ultimately show ?thesis unfolding trim_def by (metis order_trans)
qed

lemma trim_append_blank: "\<forall>c \<in> set w. is_whitespace c \<Longrightarrow> trim (s @ w) = trim s"
proof -
  assume w: "\<forall>c \<in> set w. is_whitespace c"
  then have none: "dropWhile is_whitespace w = []" "dropWhile is_whitespace (rev w) = []" by (simp_all add: dropWhile_eq_Nil_conv)
  show ?thesis
  proof (cases "\<forall>c \<in> set s. is_whitespace c")
    case True
    then have "dropWhile is_whitespace s = []" by (simp add: dropWhile_eq_Nil_conv)
    then show ?thesis using True none by (simp add: trim_def dropWhile_append del: dropWhile_eq_Nil_conv)
  next
    case False
    then have "dropWhile is_whitespace (s @ w) = dropWhile is_whitespace s @ w" by (auto simp: dropWhile_append)
    then show ?thesis using w none by (simp add: trim_def dropWhile_append)
  qed
qed

lemma byte_len_take: "byte_len (take j s) \<le> byte_len s"
  by (metis append_take_drop_id byte_len_simps(3) le_add1)

lemma piece_fits: "byte_len (trim (take (find_split_point buffer n) buffer)) \<le> n"
proof -
  let ?k = "find_split_point buffer n"
  obtain j where j: "j \<le> length (floor_prefix n buffer)" "j \<le> ?k" "\<forall>c \<in> set (drop j (take ?k buffer)). is_whitespace c"
    using split_point [of n buffer] by blast
  have "take ?k buffer = take j (take ?k buffer) @ drop j (take ?k buffer)" by (simp only: append_take_drop_id)
  then have "trim (take ?k buffer) = trim (take j buffer)" using trim_append_blank [OF j(3)] j(2) by (metis min.absorb1 take_take)
  also have "take j buffer = take j (floor_prefix n buffer)"
    using j(1) floor_prefix_take [of n buffer] by (metis min.absorb1 take_take)
  finally show ?thesis using byte_len_trim byte_len_take byte_len_floor order_trans by metis
qed

text \<open>Which of the pieces are sent.\<close>

definition sendable :: "regex_engine \<Rightarrow> rstr \<Rightarrow> bool" where
  "sendable R segment \<longleftrightarrow> segment \<noteq> [] \<and> 10 \<le> byte_len segment \<and> \<not> should_skip_buffer R segment"

lemma flush_buffer_pieces:
  assumes "4 \<le> n"
  shows "\<exists>pieces. concat pieces @ fst (flush_buffer R n buffer) = buffer \<and>
    snd (flush_buffer R n buffer) = filter (sendable R) (map (\<lambda>p. clean_msg_markers R (trim p)) pieces) \<and>
    byte_len (fst (flush_buffer R n buffer)) < n \<and> (\<forall>p \<in> set pieces. byte_len (trim p) \<le> n)"
  using assms
proof (induction R n buffer rule: flush_buffer.induct)
  case (1 R n buffer)
  let ?k = "find_split_point buffer n"
  show ?case
  proof (cases "byte_len buffer < n")
    case True
    then show ?thesis by (intro exI [of _ "[]"]) (simp add: flush_buffer.simps)
  next
    case False
    then have "buffer \<noteq> []" using 1(2) by auto
    then have k: "?k \<noteq> 0" using split_point [of n buffer] floor_prefix_nonempty [OF 1(2)] by auto
    obtain pieces where pieces: "concat pieces @ fst (flush_buffer R n (drop ?k buffer)) = drop ?k buffer"
      "snd (flush_buffer R n (drop ?k buffer)) = filter (sendable R) (map (\<lambda>p. clean_msg_markers R (trim p)) pieces)"
      "byte_len (fst (flush_buffer R n (drop ?k buffer))) < n" "\<forall>p \<in> set pieces. byte_len (trim p) \<le> n"
      using 1(1) [OF False refl k refl 1(2)] by blast
    have step: "flush_buffer R n buffer = (fst (flush_buffer R n (drop ?k buffer)),
        filter (sendable R) (map (\<lambda>p. clean_msg_markers R (trim p)) (take ?k buffer # pieces)))"
      using False k pieces(2) by (subst flush_buffer.simps) (simp add: Let_def split_beta sendable_def)
    show ?thesis
      by (rule exI [of _ "take ?k buffer # pieces"]) (use pieces piece_fits in \<open>simp add: step\<close>)
  qed
qed

lemma split_loop_once: "4 \<le> n \<Longrightarrow> split_loop R n buffer = Some (flush_buffer R n buffer)"
  using flush_buffer_pieces [of n R buffer] by (subst split_loop.simps) (auto simp: split_beta)

text \<open>C30: a long answer is cut and always comes to an end. Whatever the text and the limits, cutting returns; the text is
  the pieces and a rest, one after the other; every piece fits the limit once its blanks are trimmed, and so does the
  rest; what is sent is each piece that, cleaned of markers, is worth sending, then the rest, and never an empty message,
  nor none at all.\<close>

theorem long_answer_is_cut:
  fixes answer :: rstr
  assumes "trim answer \<noteq> []"
  shows "\<exists>segments pieces rest. split_segments R answer max_segment_size hard_max = Some segments \<and> answer = concat pieces @ rest \<and>
    (\<forall>p \<in> set pieces. byte_len (trim p) \<le> target_size max_segment_size hard_max) \<and>
    byte_len rest < target_size max_segment_size hard_max \<and>
    segments \<noteq> [] \<and> [] \<notin> set segments \<and>
    (let sent = filter (sendable R) (map (\<lambda>p. clean_msg_markers R (trim p)) pieces) @ (if trim rest = [] then [] else [trim rest])
     in segments = (if sent = [] then [trim answer] else sent))"
proof -
  let ?limit = "target_size max_segment_size hard_max"
  have "4 \<le> ?limit" by (simp add: target_size_def)
  then obtain pieces where p: "concat pieces @ fst (flush_buffer R ?limit answer) = answer"
    "snd (flush_buffer R ?limit answer) = filter (sendable R) (map (\<lambda>p. clean_msg_markers R (trim p)) pieces)"
    "byte_len (fst (flush_buffer R ?limit answer)) < ?limit" "\<forall>p \<in> set pieces. byte_len (trim p) \<le> ?limit"
    using flush_buffer_pieces by blast
  let ?rest = "fst (flush_buffer R ?limit answer)"
  let ?sent = "filter (sendable R) (map (\<lambda>p. clean_msg_markers R (trim p)) pieces) @ (if trim ?rest = [] then [] else [trim ?rest])"
  have "split_segments R answer max_segment_size hard_max = Some (if ?sent = [] then [trim answer] else ?sent)"
    using assms(1) split_loop_once [OF \<open>4 \<le> ?limit\<close>, of R answer] p(2)
    by (simp add: split_segments_def split_beta Let_def)
  moreover have "[] \<notin> set ?sent" by (auto simp: sendable_def)
  then have "(if ?sent = [] then [trim answer] else ?sent) \<noteq> []" "[] \<notin> set (if ?sent = [] then [trim answer] else ?sent)"
    using assms(1) by auto
  moreover have "(let sent = ?sent in (if ?sent = [] then [trim answer] else ?sent) = (if sent = [] then [trim answer] else sent))"
    by (simp only: Let_def)
  ultimately show ?thesis using p(1) [symmetric] p(3,4) by blast
qed

definition no_regex :: regex_engine where
  "no_regex = \<lparr>rx_matches = (\<lambda>p s. ([], s))\<rparr>"

definition demo_answer :: rstr where
  "demo_answer = replicate 120 65 @ [46, 10] @ replicate 5 66"

theorem long_answer_is_cut_witness:
  "\<exists>segments pieces rest. split_segments no_regex demo_answer 100 100 = Some segments \<and> demo_answer = concat pieces @ rest \<and>
     byte_len rest < 100 \<and> segments \<noteq> [] \<and> [] \<notin> set segments"
proof -
  have "trim demo_answer \<noteq> []" by (auto simp: trim_eq_Nil demo_answer_def is_whitespace_def intro: exI [of _ 65])
  then obtain segments pieces rest where "split_segments no_regex demo_answer 100 100 = Some segments" "demo_answer = concat pieces @ rest"
     "byte_len rest < target_size 100 100" "segments \<noteq> []" "[] \<notin> set segments"
    using long_answer_is_cut [of demo_answer no_regex 100 100] by blast
  then show ?thesis by (auto simp: target_size_def)
qed

end
