(* ===== verification/Message_Markup.thy ===== *)
theory Message_Markup
  imports Message_Split
begin

text \<open>
  The rest of the cutting in \<^verbatim>\<open>hone-channels/src/outbound.rs\<close>: a message cut out of an answer in HTML closes the tags
  that are open at its end and reopens those that were open at its beginning; a message cut out of an answer in
  Markdown does the same with a code fence.
\<close>

section \<open>HTML tags\<close>

record html_open_tag =
  ht_name :: rstr
  ht_opening_raw :: rstr

datatype html_tag_kind = OpenTag | CloseTag | SelfClosing

definition is_name_char :: "nat \<Rightarrow> bool" where
  "is_name_char c \<longleftrightarrow> is_ascii_alnum c \<or> c = 45"

definition parse_html_tag_name :: "rstr \<Rightarrow> rstr option" where
  "parse_html_tag_name input =
     (let name = map ascii_lower (takeWhile is_name_char input) in if name = [] then None else Some name)"

text \<open>The length of the tag, its kind, its name and its text.\<close>

definition parse_html_tag :: "rstr \<Rightarrow> (nat \<times> html_tag_kind \<times> rstr \<times> rstr) option" where
  "parse_html_tag input =
     (if \<not> starts_with input [60] then None
      else case position (\<lambda>c. c = 62) input of
        None \<Rightarrow> None
      | Some i \<Rightarrow>
          (let raw = take (Suc i) input; inner = trim (butlast (tl raw)) in
           if inner = [] \<or> starts_with inner [33] \<or> starts_with inner [63] then None
           else case strip_prefix [47] inner of
             Some rest \<Rightarrow> map_option (\<lambda>name. (length raw, CloseTag, name, raw)) (parse_html_tag_name rest)
           | None \<Rightarrow> map_option (\<lambda>name. (length raw, if ends_with inner [47] then SelfClosing else OpenTag, name, raw))
               (parse_html_tag_name inner)))"

definition HTML_ENTITIES :: "rstr list" where
  "HTML_ENTITIES = [lit ''&lt;'', lit ''&gt;'', lit ''&amp;'', lit ''&quot;'', lit ''&#39;'']"

definition parse_html_entity_len :: "rstr \<Rightarrow> nat option" where
  "parse_html_entity_len input = map_option length (find (\<lambda>e. starts_with input e) HTML_ENTITIES)"

definition apply_tag :: "html_tag_kind \<Rightarrow> rstr \<Rightarrow> rstr \<Rightarrow> html_open_tag list \<Rightarrow> html_open_tag list" where
  "apply_tag kind name raw stack =
     (case kind of
        OpenTag \<Rightarrow> stack @ [\<lparr>ht_name = name, ht_opening_raw = raw\<rparr>]
      | CloseTag \<Rightarrow> (case rposition (\<lambda>t. ht_name t = name) stack of Some pos \<Rightarrow> take pos stack | None \<Rightarrow> stack)
      | SelfClosing \<Rightarrow> stack)"

lemma parse_html_tag_length: "parse_html_tag s = Some (n, kind, name, raw) \<Longrightarrow> 0 < n \<and> n = length raw \<and> raw = take n s"
  by (auto simp: parse_html_tag_def Let_def starts_with_iff split: if_splits option.splits dest: position_Some)

lemma html_entities: "e \<in> set HTML_ENTITIES \<Longrightarrow> hd e = 38 \<and> 60 \<notin> set e \<and> e \<noteq> []"
  by (auto simp: HTML_ENTITIES_def lit_def)

lemma parse_html_entity:
  assumes "parse_html_entity_len s = Some n"
  shows "0 < n \<and> n \<le> length s \<and> 60 \<notin> set (take n s) \<and> hd s = 38"
proof -
  obtain e where e: "e \<in> set HTML_ENTITIES" "starts_with s e" "n = length e"
    using assms find_SomeD by (fastforce simp: parse_html_entity_len_def)
  then obtain r where "s = e @ r" by (auto simp: starts_with_iff)
  then show ?thesis using html_entities [OF e(1)] e(3) by simp
qed

function scan_html_tags :: "rstr \<Rightarrow> html_open_tag list \<Rightarrow> html_open_tag list" where
  "scan_html_tags s stack =
     (if s = [] then stack
      else case parse_html_tag s of
        Some (n, kind, name, raw) \<Rightarrow> scan_html_tags (drop n s) (apply_tag kind name raw stack)
      | None \<Rightarrow>
          (case parse_html_entity_len s of
             Some n \<Rightarrow> scan_html_tags (drop n s) stack
           | None \<Rightarrow> scan_html_tags (drop 1 s) stack))"
  by pat_completeness auto
termination
  by (relation "measure (\<lambda>(s, stack). length s)")
     (auto dest: parse_html_tag_length [rotated] parse_html_entity simp: parse_html_tag_length)

declare scan_html_tags.simps [simp del]

definition reopen_html_tags :: "html_open_tag list \<Rightarrow> rstr" where
  "reopen_html_tags stack = concat (map ht_opening_raw stack)"

definition close_html_tags :: "html_open_tag list \<Rightarrow> rstr" where
  "close_html_tags stack = concat (map (\<lambda>t. lit ''</'' @ ht_name t @ lit ''>'') (rev stack))"

definition balanced_segment :: "rstr \<Rightarrow> rstr \<Rightarrow> rstr \<Rightarrow> rstr" where
  "balanced_segment raw prefix suffix = prefix @ raw @ suffix"

definition rebalance_html_segment :: "rstr \<Rightarrow> html_open_tag list \<Rightarrow> rstr \<times> html_open_tag list" where
  "rebalance_html_segment raw stack =
     (let next_stack = scan_html_tags raw stack
      in (balanced_segment raw (reopen_html_tags stack) (close_html_tags next_stack), next_stack))"

fun rebalance_html_from :: "html_open_tag list \<Rightarrow> rstr list \<Rightarrow> rstr list" where
  "rebalance_html_from stack [] = []"
| "rebalance_html_from stack (raw # raws) =
     (let (segment, next_stack) = rebalance_html_segment raw stack in segment # rebalance_html_from next_stack raws)"

definition rebalance_html_segments :: "rstr list \<Rightarrow> rstr list" where
  "rebalance_html_segments raws = rebalance_html_from [] raws"

definition split_html_segments :: "regex_engine \<Rightarrow> rstr \<Rightarrow> nat \<Rightarrow> nat \<Rightarrow> rstr list option" where
  "split_html_segments R text max_segment_size hard_max =
     map_option rebalance_html_segments (split_segments R text max_segment_size hard_max)"

section \<open>Code fences\<close>

record markdown_fence =
  mf_marker :: nat
  mf_marker_len :: nat
  mf_opening_line :: rstr

definition closing_line :: "markdown_fence \<Rightarrow> rstr" where
  "closing_line f = replicate (mf_marker_len f) (mf_marker f)"

definition parse_markdown_fence :: "rstr \<Rightarrow> markdown_fence option" where
  "parse_markdown_fence line =
     (let trimmed = trim_start line in
      case trimmed of
        [] \<Rightarrow> None
      | marker # _ \<Rightarrow>
          (if marker \<noteq> 96 \<and> marker \<noteq> 126 then None
           else let n = length (takeWhile (\<lambda>c. c = marker) trimmed) in
             if n < 3 then None
             else Some \<lparr>mf_marker = marker, mf_marker_len = n, mf_opening_line = trimmed\<rparr>))"

text \<open>The lines of a text without the line feed and carriage returns they end with.\<close>

definition fence_lines :: "rstr \<Rightarrow> rstr list" where
  "fence_lines s =
     (let ps = split_by (\<lambda>c. c = 10) s
      in map (\<lambda>l. rev (dropWhile (\<lambda>c. c = 13) (rev l))) (if last ps = [] then butlast ps else ps))"

definition fence_step :: "markdown_fence option \<Rightarrow> rstr \<Rightarrow> markdown_fence option" where
  "fence_step open_fence line =
     (case parse_markdown_fence line of
        None \<Rightarrow> open_fence
      | Some fence \<Rightarrow>
          (case open_fence of
             None \<Rightarrow> Some fence
           | Some current \<Rightarrow>
               (if mf_marker current = mf_marker fence \<and> mf_marker_len current \<le> mf_marker_len fence \<and>
                   trim (dropWhile (\<lambda>c. c = mf_marker fence) (trim_start line)) = []
                then None else open_fence)))"

definition scan_markdown_fences :: "rstr \<Rightarrow> markdown_fence option \<Rightarrow> markdown_fence option" where
  "scan_markdown_fences segment open_fence = foldl fence_step open_fence (fence_lines segment)"

definition segment_body_ends_with_newline :: "rstr \<Rightarrow> rstr \<Rightarrow> bool" where
  "segment_body_ends_with_newline prefix raw = (if raw = [] then ends_with prefix [10] else ends_with raw [10])"

definition markdown_fence_suffix :: "bool \<Rightarrow> markdown_fence option \<Rightarrow> rstr" where
  "markdown_fence_suffix body_ends_with_newline open_fence =
     (case open_fence of
        None \<Rightarrow> []
      | Some fence \<Rightarrow> (if body_ends_with_newline then [] else [10]) @ closing_line fence)"

definition fence_prefix :: "markdown_fence option \<Rightarrow> rstr" where
  "fence_prefix open_fence = (case open_fence of None \<Rightarrow> [] | Some fence \<Rightarrow> mf_opening_line fence @ [10])"

definition rebalance_markdown_segment :: "rstr \<Rightarrow> markdown_fence option \<Rightarrow> rstr \<times> markdown_fence option" where
  "rebalance_markdown_segment raw open_fence =
     (let prefix = fence_prefix open_fence;
          next_fence = scan_markdown_fences raw open_fence;
          suffix = markdown_fence_suffix (segment_body_ends_with_newline prefix raw) next_fence
      in (balanced_segment raw prefix suffix, next_fence))"

fun rebalance_markdown_from :: "markdown_fence option \<Rightarrow> rstr list \<Rightarrow> rstr list" where
  "rebalance_markdown_from open_fence [] = []"
| "rebalance_markdown_from open_fence (raw # raws) =
     (let (segment, next_fence) = rebalance_markdown_segment raw open_fence
      in segment # rebalance_markdown_from next_fence raws)"

definition rebalance_markdown_segments :: "rstr list \<Rightarrow> rstr list" where
  "rebalance_markdown_segments raws = rebalance_markdown_from None raws"

definition split_markdown_segments :: "regex_engine \<Rightarrow> rstr \<Rightarrow> nat \<Rightarrow> nat \<Rightarrow> rstr list option" where
  "split_markdown_segments R text max_segment_size hard_max =
     map_option rebalance_markdown_segments (split_segments R text max_segment_size hard_max)"

section \<open>Scanning tags\<close>

lemma scan_Nil [simp]: "scan_html_tags [] stack = stack"
  by (simp add: scan_html_tags.simps)

lemma parse_needs_angle: "c \<noteq> 60 \<Longrightarrow> parse_html_tag (c # s) = None"
  by (simp add: parse_html_tag_def)

text \<open>Characters that are no angle do not matter, whether or not they make up an entity.\<close>

lemma scan_skip: "60 \<notin> set (take n s) \<Longrightarrow> scan_html_tags (drop n s) stack = scan_html_tags s stack"
proof (induction "length s" arbitrary: s n rule: less_induct)
  case less
  show ?case
  proof (cases "s = [] \<or> n = 0")
    case False
    then obtain c s' m where s: "s = c # s'" "n = Suc m" "c \<noteq> 60" using less.prems by (cases s; cases n) auto
    have parse: "parse_html_tag s = None" using s parse_needs_angle by simp
    show ?thesis
    proof (cases "parse_html_entity_len s")
      case None
      then have "scan_html_tags s stack = scan_html_tags s' stack" using parse s by (subst scan_html_tags.simps) simp
      then show ?thesis using less.hyps [of s' m] less.prems s by simp
    next
      case (Some k)
      then have k: "0 < k" "k \<le> length s" "60 \<notin> set (take k s)" using parse_html_entity by auto
      have step: "scan_html_tags s stack = scan_html_tags (drop k s) stack" using Some parse s by (subst scan_html_tags.simps) simp
      show ?thesis
      proof (cases "k \<le> n")
        case True
        then have "drop n s = drop (n - k) (drop k s)" "60 \<notin> set (take (n - k) (drop k s))"
          using less.prems by (simp, metis drop_take in_set_dropD)
        then show ?thesis using less.hyps [of "drop k s" "n - k"] k step s by simp
      next
        case False
        then have "drop k s = drop (k - n) (drop n s)" "60 \<notin> set (take (k - n) (drop n s))"
          using k(3) by (simp, metis drop_take in_set_dropD)
        then show ?thesis using less.hyps [of "drop n s" "k - n"] step s by simp
      qed
    qed
  qed auto
qed

lemma scan_plain: "c \<noteq> 60 \<Longrightarrow> scan_html_tags (c # s) stack = scan_html_tags s stack"
  using scan_skip [of 1 "c # s" stack] by simp

lemma scan_angle:
  "scan_html_tags (60 # s) stack = (case parse_html_tag (60 # s) of
     Some (n, kind, name, raw) \<Rightarrow> scan_html_tags (drop n (60 # s)) (apply_tag kind name raw stack)
   | None \<Rightarrow> scan_html_tags s stack)"
proof -
  have "parse_html_entity_len (60 # s) = None" using parse_html_entity [of "60 # s"] by (cases "parse_html_entity_len (60 # s)") auto
  then show ?thesis by (subst scan_html_tags.simps) (simp split: option.split)
qed

text \<open>No tag is cut in two: every angle that opens is followed by one that closes.\<close>

definition no_cut_tag :: "rstr \<Rightarrow> bool" where
  "no_cut_tag s \<longleftrightarrow> (\<forall>i < length s. s ! i = 60 \<longrightarrow> 62 \<in> set (drop i s))"

lemma no_cut_tag_drop: "no_cut_tag s \<Longrightarrow> no_cut_tag (drop n s)"
  by (auto simp: no_cut_tag_def add.commute)

lemma no_cut_tag_Cons: "no_cut_tag (c # s) \<Longrightarrow> no_cut_tag s"
  using no_cut_tag_drop [of "c # s" 1] by simp

lemma position_append: "\<exists>x \<in> set xs. P x \<Longrightarrow> position P (xs @ ys) = position P xs"
proof (induction xs)
  case (Cons x xs)
  then show ?case by (cases "P x") auto
qed simp

lemma position_Some_less: "position P xs = Some i \<Longrightarrow> i < length xs"
  using position_Some by blast

lemma parse_append:
  assumes "62 \<in> set a"
  shows "parse_html_tag (a @ b) = parse_html_tag a"
proof -
  have p: "position (\<lambda>c. c = 62) (a @ b) = position (\<lambda>c. c = 62) a" using assms by (intro position_append) auto
  obtain i where i: "position (\<lambda>c. c = 62) a = Some i" using assms position_None [of "\<lambda>c. c = 62" a] by (cases "position (\<lambda>c. c = 62) a") auto
  then have t: "take (Suc i) (a @ b) = take (Suc i) a" using position_Some_less [OF i] by simp
  have st: "starts_with (a @ b) [60] = starts_with a [60]" using assms by (cases a) auto
  show ?thesis by (simp only: parse_html_tag_def p i t st option.case)
qed

lemma scan_append: "no_cut_tag a \<Longrightarrow> scan_html_tags (a @ b) stack = scan_html_tags b (scan_html_tags a stack)"
proof (induction "length a" arbitrary: a stack rule: less_induct)
  case less
  show ?case
  proof (cases a)
    case (Cons c a')
    have a': "no_cut_tag a'" using less.prems no_cut_tag_Cons Cons by blast
    show ?thesis
    proof (cases "c = 60")
      case True
      have "62 \<in> set a" using less.prems Cons True by (auto simp: no_cut_tag_def dest: spec [of _ 0])
      then have parse: "parse_html_tag (a @ b) = parse_html_tag a" by (rule parse_append)
      show ?thesis
      proof (cases "parse_html_tag a")
        case None
        then show ?thesis using scan_angle [of "a' @ b" stack] scan_angle [of a' stack] parse Cons True less.hyps [of a' stack] a' by simp
      next
        case (Some r)
        then obtain n kind name raw where r: "parse_html_tag a = Some (n, kind, name, raw)" by (cases r) auto
        then have n: "0 < n" "n \<le> length a" using parse_html_tag_length [OF r] by (metis length_take min.bounded_iff order_refl)+
        have "scan_html_tags (drop n a @ b) stk = scan_html_tags b (scan_html_tags (drop n a) stk)" for stk
          by (rule less.hyps) (use n Cons no_cut_tag_drop [OF less.prems] in auto)
        moreover have "drop n (a @ b) = drop n a @ b" using n by simp
        ultimately show ?thesis using scan_angle [of "a' @ b" stack] scan_angle [of a' stack] parse Cons True r by simp
      qed
    next
      case False
      then show ?thesis using less.hyps [of a' stack] a' Cons scan_plain by simp
    qed
  qed simp
qed

text \<open>The tags on the stack are ones that parse as they stand.\<close>

definition name_ok :: "rstr \<Rightarrow> bool" where
  "name_ok name \<longleftrightarrow> name \<noteq> [] \<and> (\<forall>c \<in> set name. is_name_char c \<and> ascii_lower c = c)"

definition tag_ok :: "html_open_tag \<Rightarrow> bool" where
  "tag_ok t \<longleftrightarrow> name_ok (ht_name t) \<and>
     (\<forall>rest. parse_html_tag (ht_opening_raw t @ rest) = Some (length (ht_opening_raw t), OpenTag, ht_name t, ht_opening_raw t))"

lemma parse_name_ok:
  assumes "parse_html_tag_name s = Some name"
  shows "name_ok name"
proof -
  have "is_name_char (ascii_lower c)" if "is_name_char c" for c
    using that by (auto simp: is_name_char_def is_ascii_alnum_def ascii_lower_def is_ascii_upper_def is_ascii_lower_def is_digit_def)
  moreover have "\<forall>c \<in> set (takeWhile is_name_char s). is_name_char c" by (auto dest: set_takeWhileD)
  ultimately show ?thesis using assms by (auto simp: parse_html_tag_name_def name_ok_def Let_def split: if_splits)
qed

lemma parse_html_tagD:
  assumes "parse_html_tag s = Some (n, kind, name, raw)"
  shows "\<exists>i. position (\<lambda>c. c = 62) s = Some i \<and> starts_with s [60] \<and> raw = take (Suc i) s \<and> n = length raw" "name_ok name"
proof -
  have st: "starts_with s [60]" using assms by (simp add: parse_html_tag_def split: if_splits)
  then obtain i where i: "position (\<lambda>c. c = 62) s = Some i"
    using assms by (cases "position (\<lambda>c. c = 62) s") (simp_all add: parse_html_tag_def)
  define inner where "inner = trim (butlast (tl (take (Suc i) s)))"
  have parse: "parse_html_tag s = (if inner = [] \<or> starts_with inner [33] \<or> starts_with inner [63] then None
      else case strip_prefix [47] inner of
        Some rest \<Rightarrow> map_option (\<lambda>name. (length (take (Suc i) s), CloseTag, name, take (Suc i) s)) (parse_html_tag_name rest)
      | None \<Rightarrow> map_option (\<lambda>name. (length (take (Suc i) s), if ends_with inner [47] then SelfClosing else OpenTag, name, take (Suc i) s))
          (parse_html_tag_name inner))"
    by (simp only: parse_html_tag_def st i option.case Let_def inner_def not_True_eq_False if_False)
  have "raw = take (Suc i) s \<and> n = length raw \<and> name_ok name"
  proof (cases "strip_prefix [47] inner")
    case None
    then show ?thesis using assms parse_name_ok unfolding parse by (auto split: if_splits)
  next
    case (Some rest)
    then show ?thesis using assms parse_name_ok unfolding parse by (auto split: if_splits)
  qed
  then show "\<exists>i. position (\<lambda>c. c = 62) s = Some i \<and> starts_with s [60] \<and> raw = take (Suc i) s \<and> n = length raw" "name_ok name"
    using i st by auto
qed

lemma parsed_tag_ok:
  assumes "parse_html_tag s = Some (n, OpenTag, name, raw)"
  shows "tag_ok \<lparr>ht_name = name, ht_opening_raw = raw\<rparr>"
proof -
  obtain i where i: "position (\<lambda>c. c = 62) s = Some i" "starts_with s [60]" "raw = take (Suc i) s" "n = length raw"
    using parse_html_tagD(1) [OF assms] by blast
  have si: "i < length s" "s ! i = 62" using position_Some [OF i(1)] by auto
  then have mem: "62 \<in> set raw" using i(3) by (auto simp: in_set_conv_nth intro!: exI [of _ i])
  have "s = raw @ drop (Suc i) s" using i(3) by simp
  then have "parse_html_tag s = parse_html_tag raw" using parse_append [OF mem] by metis
  then have "parse_html_tag (raw @ rest) = Some (n, OpenTag, name, raw)" for rest
    using assms parse_append [OF mem] by simp
  then show ?thesis using i(4) parse_html_tagD(2) [OF assms] by (simp add: tag_ok_def)
qed

lemma scan_tags_ok: "\<forall>t \<in> set stack. tag_ok t \<Longrightarrow> \<forall>t \<in> set (scan_html_tags s stack). tag_ok t"
proof (induction s stack rule: scan_html_tags.induct)
  case (1 s stack)
  have apply_ok: "\<forall>t \<in> set (apply_tag kind name raw stack). tag_ok t" if "parse_html_tag s = Some (n, kind, name, raw)" for n kind name raw
    using that 1(4) parsed_tag_ok
    by (auto simp: apply_tag_def split: html_tag_kind.splits option.splits dest: in_set_takeD)
  show ?case
  proof (cases "s = []")
    case False
    then show ?thesis using 1 apply_ok
      by (subst scan_html_tags.simps) (auto split: option.split)
  qed (use 1(4) in simp)
qed

lemma takeWhile_all: "\<forall>c \<in> set s. P c \<Longrightarrow> takeWhile P s = s"
  by (simp add: takeWhile_eq_all_conv)

lemma name_charD: "is_name_char c \<Longrightarrow> c \<noteq> 62 \<and> \<not> is_whitespace c"
  by (auto simp: is_name_char_def is_ascii_alnum_def is_ascii_upper_def is_ascii_lower_def is_digit_def is_whitespace_def)

lemma parse_close_tag:
  assumes "name_ok name"
  shows "parse_html_tag (lit ''</'' @ name @ lit ''>'' @ rest) = Some (length name + 3, CloseTag, name, lit ''</'' @ name @ lit ''>'')"
proof -
  let ?tag = "60 # 47 # name @ [62]"
  have tag: "lit ''</'' @ name @ lit ''>'' @ rest = ?tag @ rest" "lit ''</'' @ name @ lit ''>'' = ?tag" by (simp_all add: lit_def)
  have chars: "\<forall>c \<in> set name. c \<noteq> 62 \<and> \<not> is_whitespace c" using assms name_charD by (auto simp: name_ok_def)
  have pos: "position (\<lambda>c. c = 62) ?tag = Some (length name + 2)"
  proof -
    have "position (\<lambda>c. c = 62) (name @ [62]) = Some (length name)" using chars by (induction name) auto
    then show ?thesis by simp
  qed
  have inner: "trim (butlast (tl ?tag)) = 47 # name"
  proof -
    have "\<not> is_whitespace (last (47 # name))" using chars by (auto simp: is_whitespace_def)
    then have "trim (47 # name) = 47 # name" by (intro trim_id) (simp_all add: is_whitespace_def)
    then show ?thesis by simp
  qed
  have name: "parse_html_tag_name name = Some name"
  proof -
    have tw: "takeWhile is_name_char name = name" using assms by (intro takeWhile_all) (simp add: name_ok_def)
    have mp: "map ascii_lower name = name" using assms by (intro map_idI) (simp add: name_ok_def)
    have "name \<noteq> []" using assms by (simp add: name_ok_def)
    then show ?thesis by (simp only: parse_html_tag_name_def Let_def tw mp if_False)
  qed
  have take: "take (Suc (length name + 2)) ?tag = ?tag" by simp
  have "parse_html_tag ?tag = Some (length name + 3, CloseTag, name, ?tag)"
    unfolding parse_html_tag_def pos option.case Let_def take inner by (simp add: strip_prefix_def name)
  moreover have "parse_html_tag (?tag @ rest) = parse_html_tag ?tag" by (rule parse_append) simp
  ultimately show ?thesis unfolding tag by simp
qed

lemma rposition_last: "P x \<Longrightarrow> rposition P (xs @ [x]) = Some (length xs)"
  by (simp add: rposition_def)

lemma scan_step:
  assumes "parse_html_tag (t @ rest) = Some (length t, kind, name, raw)" "t \<noteq> []"
  shows "scan_html_tags (t @ rest) stack = scan_html_tags rest (apply_tag kind name raw stack)"
  using assms by (subst scan_html_tags.simps) simp

lemma scan_close: "\<forall>t \<in> set stack. tag_ok t \<Longrightarrow> scan_html_tags (close_html_tags stack) stack = []"
proof (induction stack rule: rev_induct)
  case (snoc t stack)
  let ?tag = "lit ''</'' @ ht_name t @ lit ''>''"
  have "scan_html_tags (?tag @ close_html_tags stack) (stack @ [t]) =
      scan_html_tags (close_html_tags stack) (apply_tag CloseTag (ht_name t) ?tag (stack @ [t]))"
    using parse_close_tag [of "ht_name t" "close_html_tags stack"] snoc.prems
    by (intro scan_step) (simp_all add: tag_ok_def numeral_eq_Suc)
  also have "apply_tag CloseTag (ht_name t) ?tag (stack @ [t]) = stack" by (simp add: apply_tag_def rposition_last)
  finally show ?case using snoc by (simp add: close_html_tags_def)
qed (simp add: close_html_tags_def)

lemma scan_reopen: "\<forall>t \<in> set ts. tag_ok t \<Longrightarrow> scan_html_tags (reopen_html_tags ts @ rest) stack = scan_html_tags rest (stack @ ts)"
proof (induction ts arbitrary: stack)
  case (Cons t ts)
  have parse: "parse_html_tag (ht_opening_raw t @ r) = Some (length (ht_opening_raw t), OpenTag, ht_name t, ht_opening_raw t)" for r
    using Cons.prems by (simp add: tag_ok_def)
  have "ht_opening_raw t \<noteq> []" using parse [of "[]"] by (auto simp: parse_html_tag_def)
  then have "scan_html_tags (ht_opening_raw t @ reopen_html_tags ts @ rest) stack =
      scan_html_tags (reopen_html_tags ts @ rest) (apply_tag OpenTag (ht_name t) (ht_opening_raw t) stack)"
    by (intro scan_step parse)
  also have "apply_tag OpenTag (ht_name t) (ht_opening_raw t) stack = stack @ [t]" by (simp add: apply_tag_def)
  finally show ?case using Cons by (simp add: reopen_html_tags_def)
qed (simp add: reopen_html_tags_def)

lemma rebalance_html_from_ok:
  assumes "\<forall>raw \<in> set raws. no_cut_tag raw" "\<forall>t \<in> set stack. tag_ok t"
  shows "list_all2 (\<lambda>raw segment. scan_html_tags segment [] = [] \<and> (\<exists>before after. segment = before @ raw @ after)) raws (rebalance_html_from stack raws)"
  using assms
proof (induction raws arbitrary: stack)
  case (Cons raw raws)
  let ?next = "scan_html_tags raw stack"
  have ok: "\<forall>t \<in> set ?next. tag_ok t" by (rule scan_tags_ok [OF Cons.prems(2)])
  have "scan_html_tags (reopen_html_tags stack @ raw @ close_html_tags ?next) [] = []"
    using scan_reopen [OF Cons.prems(2), of "raw @ close_html_tags ?next" "[]"] scan_append [of raw "close_html_tags ?next" stack]
      scan_close [OF ok] Cons.prems(1) by simp
  then show ?case using Cons.IH [OF _ ok] Cons.prems(1)
    by (auto simp: rebalance_html_segment_def balanced_segment_def Let_def)
qed simp

section \<open>Scanning fences\<close>

lemma split_by_at: "P x \<Longrightarrow> split_by P (a @ x # b) = split_by P a @ split_by P b"
  by (induction a) (auto simp: split_by_nonempty Let_def split: list.split)

lemma split_by_none: "\<forall>c \<in> set a. \<not> P c \<Longrightarrow> split_by P a = [a]"
  using split_by_append [of a P "[]"] by simp

lemma last_split_by: "a \<noteq> [] \<Longrightarrow> last (split_by P a) = [] \<longleftrightarrow> P (last a)"
proof (cases a rule: rev_cases)
  case (snoc b x)
  show ?thesis
  proof (cases "P x")
    case True
    then show ?thesis using split_by_at [of P x b "[]"] snoc by simp
  next
    case False
    have "last (split_by P (b @ [x])) \<noteq> []" using False
      by (induction b) (auto simp: Let_def split: list.split)
    then show ?thesis using False snoc by simp
  qed
qed simp

definition strip_cr :: "rstr \<Rightarrow> rstr" where
  "strip_cr l = rev (dropWhile (\<lambda>c. c = 13) (rev l))"

definition scan_all :: "rstr \<Rightarrow> markdown_fence option \<Rightarrow> markdown_fence option" where
  "scan_all s open_fence = foldl fence_step open_fence (map strip_cr (split_by (\<lambda>c. c = 10) s))"

lemma fence_lines_at: "fence_lines (a @ 10 # b) = map strip_cr (split_by (\<lambda>c. c = 10) a) @ fence_lines b"
  by (simp add: fence_lines_def split_by_at Let_def butlast_append strip_cr_def [abs_def])

lemma scan_fences_Nil [simp]: "scan_markdown_fences [] f = f"
  by (simp add: scan_markdown_fences_def fence_lines_def)

lemma scan_fences_at: "scan_markdown_fences (a @ 10 # b) f = scan_markdown_fences b (scan_all a f)"
  by (simp add: scan_markdown_fences_def scan_all_def fence_lines_at)

lemma scan_fences_open_end: "a \<noteq> [] \<Longrightarrow> last a \<noteq> 10 \<Longrightarrow> scan_markdown_fences a f = scan_all a f"
  by (simp add: scan_markdown_fences_def scan_all_def fence_lines_def last_split_by strip_cr_def [abs_def])

text \<open>A fence that is open is one its opening line would open.\<close>

definition fence_ok :: "markdown_fence \<Rightarrow> bool" where
  "fence_ok f \<longleftrightarrow> mf_marker f \<in> {96, 126} \<and> 3 \<le> mf_marker_len f \<and> 10 \<notin> set (mf_opening_line f) \<and>
     mf_opening_line f \<noteq> [] \<and> last (mf_opening_line f) \<noteq> 13 \<and> parse_markdown_fence (mf_opening_line f) = Some f"

lemma trim_start_idem [simp]: "trim_start (trim_start s) = trim_start s"
  by (simp add: trim_start_def dropWhile_idem)

lemma parsed_fence_ok:
  assumes "parse_markdown_fence line = Some f" "10 \<notin> set line" "line = [] \<or> last line \<noteq> 13"
  shows "fence_ok f"
proof -
  obtain marker tail where t: "trim_start line = marker # tail" "marker \<in> {96, 126}"
    "f = \<lparr>mf_marker = marker, mf_marker_len = length (takeWhile (\<lambda>c. c = marker) (trim_start line)), mf_opening_line = trim_start line\<rparr>"
    "3 \<le> length (takeWhile (\<lambda>c. c = marker) (trim_start line))"
    using assms(1) by (auto simp: parse_markdown_fence_def Let_def not_less split: list.splits if_splits)
  obtain blanks where blanks: "line = blanks @ trim_start line" unfolding trim_start_def by (metis takeWhile_dropWhile_id)
  then have "10 \<notin> set (trim_start line)" using assms(2) by (metis Un_iff set_append)
  moreover have "last (trim_start line) \<noteq> 13" using assms(3) blanks t(1) by (metis append_is_Nil_conv last_appendR list.distinct(1))
  moreover have "parse_markdown_fence (trim_start line) = Some f" using assms(1) by (simp add: parse_markdown_fence_def)
  ultimately show ?thesis using t by (simp add: fence_ok_def)
qed

lemma strip_cr_last: "strip_cr l = [] \<or> last (strip_cr l) \<noteq> 13"
  using dropWhile_not_head [of "\<lambda>c. c = 13" "rev l"] unfolding strip_cr_def by (metis last_rev rev_is_Nil_conv)

lemma strip_cr_id: "l = [] \<or> last l \<noteq> 13 \<Longrightarrow> strip_cr l = l"
  by (cases l rule: rev_cases) (auto simp: strip_cr_def)

lemma strip_cr_subset: "set (strip_cr l) \<subseteq> set l"
  by (auto simp: strip_cr_def dest: set_dropWhileD)

lemma fence_line_shape: "l \<in> set (fence_lines s) \<Longrightarrow> 10 \<notin> set l \<and> (l = [] \<or> last l \<noteq> 13)"
proof -
  assume "l \<in> set (fence_lines s)"
  then obtain w where w: "w \<in> set (split_by (\<lambda>c. c = 10) s)" "l = strip_cr w"
    by (auto simp: fence_lines_def Let_def strip_cr_def dest: in_set_butlastD split: if_splits)
  then show ?thesis using split_by_pieces [OF w(1), of 10] strip_cr_subset [of w] strip_cr_last [of w] by auto
qed

lemma fence_step_ok:
  assumes "pred_option fence_ok f" "10 \<notin> set l" "l = [] \<or> last l \<noteq> 13"
  shows "pred_option fence_ok (fence_step f l)"
  using assms parsed_fence_ok [OF _ assms(2,3)] by (auto simp: fence_step_def split: option.splits)

lemma scan_fences_ok:
  assumes "pred_option fence_ok f"
  shows "pred_option fence_ok (scan_markdown_fences s f)"
proof -
  have "pred_option fence_ok (foldl fence_step f ls)" if "\<forall>l \<in> set ls. 10 \<notin> set l \<and> (l = [] \<or> last l \<noteq> 13)" for ls
    using that assms by (induction ls arbitrary: f) (simp_all add: fence_step_ok)
  then show ?thesis using fence_line_shape [of _ s] by (simp add: scan_markdown_fences_def)
qed

lemma close_fence: "fence_ok f \<Longrightarrow> scan_markdown_fences (closing_line f) (Some f) = None"
proof -
  assume f: "fence_ok f"
  let ?m = "mf_marker f" and ?n = "mf_marker_len f"
  have m: "\<not> is_whitespace ?m" "?m \<noteq> 10" "?m \<noteq> 13" "0 < ?n" "3 \<le> ?n" using f by (auto simp: fence_ok_def is_whitespace_def)
  obtain k where k: "?n = Suc k" using m(4) by (cases ?n) auto
  have line: "closing_line f \<noteq> []" "last (closing_line f) \<noteq> 10" using m by (simp_all add: closing_line_def)
  have "strip_cr (closing_line f) = closing_line f" using m(3,4) by (intro strip_cr_id) (simp add: closing_line_def)
  moreover have "split_by (\<lambda>c. c = 10) (closing_line f) = [closing_line f]" using m(2) by (intro split_by_none) (simp add: closing_line_def)
  ultimately have "scan_markdown_fences (closing_line f) (Some f) = fence_step (Some f) (closing_line f)"
    using scan_fences_open_end [OF line] by (simp add: scan_all_def)
  also have "\<dots> = None"
  proof -
    have ts: "trim_start (closing_line f) = ?m # replicate k ?m" using m(1) k by (simp add: trim_start_def closing_line_def)
    have tw: "takeWhile (\<lambda>c. c = ?m) (?m # replicate k ?m) = ?m # replicate k ?m" by (intro takeWhile_all) simp
    have dw: "dropWhile (\<lambda>c. c = ?m) (?m # replicate k ?m) = []" by simp
    have "parse_markdown_fence (closing_line f) = Some \<lparr>mf_marker = ?m, mf_marker_len = ?n, mf_opening_line = ?m # replicate k ?m\<rparr>"
      using f m(5) k unfolding parse_markdown_fence_def ts Let_def list.case tw by (auto simp: fence_ok_def)
    then show ?thesis unfolding fence_step_def using ts dw by simp
  qed
  finally show ?thesis .
qed

lemma reopen_fence:
  assumes "pred_option fence_ok f"
  shows "scan_markdown_fences (fence_prefix f @ rest) None = scan_markdown_fences rest f"
proof (cases f)
  case (Some fence)
  then have ok: "fence_ok fence" using assms by simp
  let ?o = "mf_opening_line fence"
  have "split_by (\<lambda>c. c = 10) ?o = [?o]" using ok by (intro split_by_none) (auto simp: fence_ok_def)
  moreover have "strip_cr ?o = ?o"
    using ok by (intro strip_cr_id) (simp add: fence_ok_def)
  moreover have "fence_step None ?o = Some fence" using ok by (simp add: fence_step_def fence_ok_def)
  ultimately have "scan_all ?o None = Some fence" by (simp add: scan_all_def)
  then show ?thesis using scan_fences_at [of ?o rest None] Some by (simp add: fence_prefix_def)
qed (simp add: fence_prefix_def)

lemma rebalance_markdown_ok:
  assumes "pred_option fence_ok f"
  shows "scan_markdown_fences (fst (rebalance_markdown_segment raw f)) None = None"
proof -
  let ?next = "scan_markdown_fences raw f"
  let ?suffix = "markdown_fence_suffix (segment_body_ends_with_newline (fence_prefix f) raw) ?next"
  have "scan_markdown_fences (raw @ ?suffix) f = None"
  proof (cases ?next)
    case None
    then show ?thesis by (simp add: markdown_fence_suffix_def)
  next
    case (Some g)
    have close: "scan_markdown_fences (closing_line g) (Some g) = None"
      using close_fence scan_fences_ok [OF assms, of raw] Some by simp
    consider "raw = []" | a where "raw = a @ [10]" | "raw \<noteq> []" "last raw \<noteq> 10"
      by (cases raw rule: rev_cases) auto
    then show ?thesis
    proof cases
      case 1
      then show ?thesis using Some close by (simp add: markdown_fence_suffix_def segment_body_ends_with_newline_def fence_prefix_def ends_with_iff)
    next
      case 2
      then have "scan_all a f = Some g" using Some scan_fences_at [of a "[]" f] by simp
      then show ?thesis using 2 close scan_fences_at [of a "closing_line g" f] Some
        by (simp add: markdown_fence_suffix_def segment_body_ends_with_newline_def ends_with_iff)
    next
      case 3
      then have "scan_all raw f = Some g" using Some scan_fences_open_end by simp
      moreover have "\<not> ends_with raw [10]" using 3 by (auto simp: ends_with_iff)
      ultimately show ?thesis using 3 close scan_fences_at [of raw "closing_line g" f] Some
        by (simp add: markdown_fence_suffix_def segment_body_ends_with_newline_def)
    qed
  qed
  then show ?thesis using reopen_fence [OF assms, of "raw @ ?suffix"]
    by (simp add: rebalance_markdown_segment_def balanced_segment_def Let_def)
qed

lemma rebalance_markdown_from_ok:
  assumes "pred_option fence_ok f"
  shows "list_all2 (\<lambda>raw segment. scan_markdown_fences segment None = None \<and> (\<exists>before after. segment = before @ raw @ after))
    raws (rebalance_markdown_from f raws)"
  using assms
proof (induction raws arbitrary: f)
  case (Cons raw raws)
  have "pred_option fence_ok (scan_markdown_fences raw f)" by (rule scan_fences_ok [OF Cons.prems])
  then show ?case using Cons.IH rebalance_markdown_ok [OF Cons.prems, of raw]
    by (auto simp: rebalance_markdown_segment_def balanced_segment_def Let_def)
qed simp

text \<open>C31: a message that was cut out of an answer stands for itself. In Markdown, every message has as many code fences
  closed as opened, whatever the answer; in HTML every tag that is open is closed, provided that no cut goes through a tag (in
  every piece each opening angle bracket has a closing one behind it). Nothing of the piece is lost, and nothing but the repair
  is added around it.\<close>

theorem cut_messages_balanced:
  "list_all2 (\<lambda>raw segment. scan_markdown_fences segment None = None \<and> (\<exists>before after. segment = before @ raw @ after))
     raws (rebalance_markdown_segments raws) \<and>
   ((\<forall>raw \<in> set raws. no_cut_tag raw) \<longrightarrow>
     list_all2 (\<lambda>raw segment. scan_html_tags segment [] = [] \<and> (\<exists>before after. segment = before @ raw @ after))
       raws (rebalance_html_segments raws))"
  using rebalance_markdown_from_ok [of None raws] rebalance_html_from_ok [of raws "[]"]
  by (simp add: rebalance_markdown_segments_def rebalance_html_segments_def)

definition demo_pieces :: "rstr list" where
  "demo_pieces = [[60, 98, 62, 120], [121, 60, 47, 98, 62, 122]]"

theorem cut_messages_balanced_witness:
  "rebalance_html_segments demo_pieces = [[60, 98, 62, 120, 60, 47, 98, 62], [60, 98, 62, 121, 60, 47, 98, 62, 122]] \<and>
   list_all2 (\<lambda>raw segment. scan_html_tags segment [] = [] \<and> (\<exists>before after. segment = before @ raw @ after))
     demo_pieces (rebalance_html_segments demo_pieces)"
proof -
  have "\<forall>raw \<in> set demo_pieces. no_cut_tag raw"
    by (simp add: no_cut_tag_def demo_pieces_def less_Suc_eq)
  moreover have "parse_html_tag [60, 98, 62, 120] = Some (3, OpenTag, [98], [60, 98, 62])"
    "parse_html_tag [120] = None" "parse_html_tag [121, 60, 47, 98, 62, 122] = None"
    "parse_html_tag [60, 47, 98, 62, 122] = Some (4, CloseTag, [98], [60, 47, 98, 62])" "parse_html_tag [122] = None"
    by (simp_all add: parse_html_tag_def parse_html_tag_name_def is_name_char_def is_ascii_alnum_def is_ascii_upper_def
        is_ascii_lower_def is_digit_def ascii_lower_def trim_def is_whitespace_def strip_prefix_def ends_with_def strip_suffix_def)
  then have "rebalance_html_segments demo_pieces = [[60, 98, 62, 120, 60, 47, 98, 62], [60, 98, 62, 121, 60, 47, 98, 62, 122]]"
    by (simp add: demo_pieces_def rebalance_html_segments_def rebalance_html_segment_def balanced_segment_def Let_def
        scan_angle scan_plain apply_tag_def reopen_html_tags_def close_html_tags_def rposition_def lit_def)
  ultimately show ?thesis using cut_messages_balanced [of demo_pieces] by blast
qed

end
