(* ===== verification/Outbound.thy ===== *)
theory Outbound
  imports Message_Split
begin

text \<open>
  \<^verbatim>\<open>hone-channels/src/outbound.rs\<close>, what is sent beside text: the local images an answer refers to (as an anchor, a
  Markdown link or a bare URI) are cut out of it, and the progress of a run is shown in a placeholder message, line by
  line.
\<close>

section \<open>Local images\<close>

record local_image_marker =
  lm_uri :: rstr
  lm_path :: rstr

datatype response_content_segment = TextSegment rstr | LocalImage local_image_marker

definition LOCAL_IMAGE_CONTEXT_PLACEHOLDER :: rstr where
  "LOCAL_IMAGE_CONTEXT_PLACEHOLDER = [65288, 19978, 25991, 21253, 21547, 22270, 34920, 65289]"

definition FILE_URI :: rstr where
  "FILE_URI = lit ''file:///''"

definition IMAGE_EXTENSIONS :: "rstr list" where
  "IMAGE_EXTENSIONS = [lit ''png'', lit ''jpg'', lit ''jpeg'', lit ''webp'', lit ''gif'', lit ''bmp'']"

definition parse_local_image_uri :: "rstr \<Rightarrow> rstr option" where
  "parse_local_image_uri candidate =
     (case strip_prefix (lit ''file://'') candidate of
        None \<Rightarrow> None
      | Some path \<Rightarrow>
          (if \<not> starts_with path [47] then None
           else case rposition (\<lambda>c. c = 46) path of
             None \<Rightarrow> None
           | Some dot \<Rightarrow>
               (if to_ascii_lowercase (drop (Suc dot) path) \<in> set IMAGE_EXTENSIONS then Some path else None)))"

text \<open>A bare URI ends where it parses when punctuation at its end is taken off. The argument is reversed.\<close>

fun shrink_uri :: "rstr \<Rightarrow> (rstr \<times> rstr) option" where
  "shrink_uri [] = None"
| "shrink_uri (c # cs) =
     (case parse_local_image_uri (rev (c # cs)) of
        Some path \<Rightarrow> Some (rev (c # cs), path)
      | None \<Rightarrow> (if c \<in> {46, 44, 59, 58, 33, 63, 41, 93, 125} then shrink_uri cs else None))"

definition local_image_marker_at :: "rstr \<Rightarrow> nat \<Rightarrow> (nat \<times> local_image_marker) option" where
  "local_image_marker_at text start =
     map_option (\<lambda>(uri, path). (start + length uri, \<lparr>lm_uri = uri, lm_path = path\<rparr>))
       (shrink_uri (rev (takeWhile (\<lambda>c. \<not> is_whitespace c \<and> c \<noteq> 60) (drop start text))))"

definition bare_local_image_at :: "rstr \<Rightarrow> nat \<Rightarrow> (nat \<times> nat \<times> local_image_marker) option" where
  "bare_local_image_at text start = map_option (\<lambda>(stop, marker). (start, stop, marker)) (local_image_marker_at text start)"

text \<open>\<open>text_slice s i j\<close> is \<^verbatim>\<open>&s[i..j]\<close>.\<close>

definition text_slice :: "rstr \<Rightarrow> nat \<Rightarrow> nat \<Rightarrow> rstr" where
  "text_slice s i j = take (j - i) (drop i s)"

definition href_marker :: "rstr \<Rightarrow> (rstr \<times> nat) option" where
  "href_marker open_tag =
     (if contains_str open_tag (lit ''href='' @ [34] @ FILE_URI) then Some (lit ''href='' @ [34], 34)
      else if contains_str open_tag (lit ''href='' @ [39] @ FILE_URI) then Some (lit ''href='' @ [39], 39)
      else None)"

definition html_anchor_local_image_at :: "rstr \<Rightarrow> nat \<Rightarrow> (nat \<times> nat \<times> local_image_marker) option" where
  "html_anchor_local_image_at text uri_start =
     Option.bind (str_rfind (lit ''<a '') (take uri_start text)) (\<lambda>open_start.
     Option.bind (position (\<lambda>c. c = 62) (drop open_start text)) (\<lambda>gt.
       let open_end = open_start + gt + 1; open_tag = text_slice text open_start open_end in
       if uri_start \<ge> open_end then None
       else
         Option.bind (href_marker open_tag) (\<lambda>(marker, quote).
         Option.bind (str_find marker open_tag) (\<lambda>at_marker.
           let value_start = open_start + at_marker + length marker in
           if value_start \<noteq> uri_start then None
           else
             Option.bind (position (\<lambda>c. c = quote) (drop value_start text)) (\<lambda>len.
               let uri = text_slice text value_start (value_start + len) in
               Option.bind (parse_local_image_uri uri) (\<lambda>path.
                 let stop = (case str_find (lit ''</a>'') (drop open_end text) of
                       Some r \<Rightarrow> open_end + r + 4 | None \<Rightarrow> open_end)
                 in Some (open_start, stop, \<lparr>lm_uri = uri, lm_path = path\<rparr>)))))))"

definition markdown_link_local_image_at :: "rstr \<Rightarrow> nat \<Rightarrow> (nat \<times> nat \<times> local_image_marker) option" where
  "markdown_link_local_image_at text uri_start =
     (if uri_start < 2 \<or> text ! (uri_start - 1) \<noteq> 40 \<or> text ! (uri_start - 2) \<noteq> 93 then None
      else
        Option.bind (rposition (\<lambda>c. c = 91) (take (uri_start - 2) text)) (\<lambda>open_bracket.
        Option.bind (position (\<lambda>c. c = 41) (drop uri_start text)) (\<lambda>len.
          let start = (if 0 < open_bracket \<and> text ! (open_bracket - 1) = 33 then open_bracket - 1 else open_bracket);
              uri = text_slice text uri_start (uri_start + len) in
          Option.bind (parse_local_image_uri uri) (\<lambda>path.
            Some (start, uri_start + len + 1, \<lparr>lm_uri = uri, lm_path = path\<rparr>)))))"

definition local_image_at :: "rstr \<Rightarrow> nat \<Rightarrow> (nat \<times> nat \<times> local_image_marker) option" where
  "local_image_at text uri_start =
     or_else (html_anchor_local_image_at text uri_start)
       (or_else (markdown_link_local_image_at text uri_start) (bare_local_image_at text uri_start))"

function find_next_local_image_reference :: "rstr \<Rightarrow> nat \<Rightarrow> (nat \<times> nat \<times> local_image_marker) option" where
  "find_next_local_image_reference text cursor =
     (if cursor \<ge> length text then None
      else case str_find FILE_URI (drop cursor text) of
        None \<Rightarrow> None
      | Some r \<Rightarrow>
          (case local_image_at text (cursor + r) of
             Some found \<Rightarrow> Some found
           | None \<Rightarrow> find_next_local_image_reference text (cursor + r + length FILE_URI)))"
  by pat_completeness auto
termination
  by (relation "measure (\<lambda>(s, cursor). length s - cursor)") (auto simp: FILE_URI_def)

declare find_next_local_image_reference.simps [simp del]

lemma or_else_Some: "or_else x y = Some v \<longleftrightarrow> x = Some v \<or> x = None \<and> y = Some v"
  by (cases x) auto

lemma shrink_uri_length: "shrink_uri w = Some (uri, path) \<Longrightarrow> 0 < length uri \<and> length uri \<le> length w"
  by (induction w) (auto split: option.splits if_splits)

lemma str_find_bound: "p \<noteq> [] \<Longrightarrow> str_find p s = Some i \<Longrightarrow> i + length p \<le> length s"
proof -
  assume p: "p \<noteq> []" and "str_find p s = Some i"
  then obtain r where "drop i s = p @ r" using str_find_Some [OF p] by (auto simp: starts_with_iff)
  then have "length s - i = length p + length r" by (metis length_append length_drop)
  then show ?thesis using p by (cases p) auto
qed

lemma position_bound: "position P s = Some i \<Longrightarrow> i < length s"
  using position_Some by blast

lemma html_anchor_parts:
  assumes "html_anchor_local_image_at answer i = Some (start, stop, marker)"
  shows "\<exists>gt. str_rfind (lit ''<a '') (take i answer) = Some start \<and> position (\<lambda>c. c = 62) (drop start answer) = Some gt \<and>
    i \<le> start + gt \<and> stop = (case str_find (lit ''</a>'') (drop (Suc (start + gt)) answer) of
      Some r \<Rightarrow> Suc (start + gt) + r + 4 | None \<Rightarrow> Suc (start + gt))"
  using assms by (auto simp: html_anchor_local_image_at_def Let_def bind_eq_Some_conv split: if_splits)

lemma html_anchor_bounds:
  assumes "html_anchor_local_image_at answer i = Some (start, stop, marker)"
  shows "start \<le> i \<and> i < stop \<and> stop \<le> length answer"
proof -
  obtain gt where gt: "str_rfind (lit ''<a '') (take i answer) = Some start" "position (\<lambda>c. c = 62) (drop start answer) = Some gt"
    and i: "i \<le> start + gt"
    and stop: "stop = (case str_find (lit ''</a>'') (drop (Suc (start + gt)) answer) of
      Some r \<Rightarrow> Suc (start + gt) + r + 4 | None \<Rightarrow> Suc (start + gt))"
    using html_anchor_parts [OF assms] by blast
  have inside: "start + gt < length answer" using position_bound [OF gt(2)] by simp
  have "start \<le> i" using str_rfind_bound [OF _ gt(1)] by simp
  moreover have "i < stop \<and> stop \<le> length answer"
  proof (cases "str_find (lit ''</a>'') (drop (Suc (start + gt)) answer)")
    case None
    then show ?thesis using stop i inside by simp
  next
    case (Some r)
    then have "r + length (lit ''</a>'') \<le> length (drop (Suc (start + gt)) answer)" by (intro str_find_bound) (auto simp: lit_def)
    then have "r + 4 \<le> length answer - Suc (start + gt)" by (simp add: lit_def)
    moreover have "stop = Suc (start + gt) + r + 4" using stop Some by simp
    ultimately show ?thesis using i inside by linarith
  qed
  ultimately show ?thesis by blast
qed

lemma markdown_link_parts:
  assumes "markdown_link_local_image_at answer i = Some (start, stop, marker)"
  shows "\<exists>open_bracket len. rposition (\<lambda>c. c = 91) (take (i - 2) answer) = Some open_bracket \<and>
    position (\<lambda>c. c = 41) (drop i answer) = Some len \<and> start \<le> open_bracket \<and> stop = i + len + 1"
  using assms by (auto simp: markdown_link_local_image_at_def Let_def bind_eq_Some_conv split: if_splits)

lemma markdown_link_bounds:
  assumes "markdown_link_local_image_at answer i = Some (start, stop, marker)"
  shows "start \<le> i \<and> i < stop \<and> stop \<le> length answer"
proof -
  obtain open_bracket len where p: "rposition (\<lambda>c. c = 91) (take (i - 2) answer) = Some open_bracket"
      "position (\<lambda>c. c = 41) (drop i answer) = Some len" "start \<le> open_bracket" "stop = i + len + 1"
    using markdown_link_parts [OF assms] by blast
  have "len < length answer - i" using position_bound [OF p(2)] by simp
  moreover have "open_bracket < length (take (i - 2) answer)" by (rule rposition_Some(1) [OF p(1)])
  then have "open_bracket < i - 2" by simp
  ultimately show ?thesis using p(3,4) by linarith
qed

lemma bare_bounds:
  assumes "bare_local_image_at answer i = Some (start, stop, marker)"
  shows "start \<le> i \<and> i < stop \<and> stop \<le> length answer"
proof -
  obtain raw where raw: "raw = takeWhile (\<lambda>c. \<not> is_whitespace c \<and> c \<noteq> 60) (drop i answer)" by blast
  have "\<exists>uri path. shrink_uri (rev raw) = Some (uri, path) \<and> start = i \<and> stop = i + length uri"
    using assms by (cases "shrink_uri (rev raw)") (auto simp: bare_local_image_at_def local_image_marker_at_def simp flip: raw)
  then obtain uri path where u: "shrink_uri (rev raw) = Some (uri, path)" "start = i" "stop = i + length uri" by blast
  have "0 < length uri" "length uri \<le> length raw" using shrink_uri_length [OF u(1)] by simp_all
  moreover have "length raw \<le> length answer - i" using length_takeWhile_le [of _ "drop i answer"] raw by simp
  ultimately show ?thesis using u(2,3) by linarith
qed

lemma local_image_at_bounds:
  "local_image_at answer i = Some (start, stop, marker) \<Longrightarrow> start \<le> i \<and> i < stop \<and> stop \<le> length answer"
  using html_anchor_bounds markdown_link_bounds bare_bounds by (auto simp: local_image_at_def or_else_Some)

lemma found_after:
  "find_next_local_image_reference answer cursor = Some (start, stop, marker) \<Longrightarrow> cursor < stop \<and> start < stop \<and> stop \<le> length answer"
proof (induction answer cursor rule: find_next_local_image_reference.induct)
  case (1 answer cursor)
  obtain r where r: "cursor < length answer" "str_find FILE_URI (drop cursor answer) = Some r"
    using 1(2) by (subst (asm) find_next_local_image_reference.simps) (auto split: if_splits option.splits)
  show ?case
  proof (cases "local_image_at answer (cursor + r)")
    case None
    then have "find_next_local_image_reference answer (cursor + r + length FILE_URI) = Some (start, stop, marker)"
      using 1(2) r by (subst (asm) find_next_local_image_reference.simps) simp
    then show ?thesis using 1(1) [OF _ r(2) None] r(1) by simp
  next
    case (Some found)
    then have "found = (start, stop, marker)" using 1(2) r by (subst (asm) find_next_local_image_reference.simps) simp
    then show ?thesis using local_image_at_bounds Some by fastforce
  qed
qed

function split_from :: "rstr \<Rightarrow> nat \<Rightarrow> response_content_segment list" where
  "split_from text cursor =
     (case find_next_local_image_reference text cursor of
        Some (start, stop, marker) \<Rightarrow>
          (if start > cursor then [TextSegment (text_slice text cursor start)] else [])
          @ LocalImage marker # split_from text stop
      | None \<Rightarrow> (if cursor < length text then [TextSegment (drop cursor text)] else []))"
  by pat_completeness auto
termination
  by (relation "measure (\<lambda>(s, cursor). length s - cursor)") (auto dest!: found_after)

declare split_from.simps [simp del]

definition split_response_content_segments :: "rstr \<Rightarrow> response_content_segment list" where
  "split_response_content_segments text =
     (let segments = split_from text 0
      in if segments = [] \<and> text \<noteq> [] then [TextSegment text] else segments)"

definition collect_local_image_markers :: "rstr \<Rightarrow> local_image_marker list" where
  "collect_local_image_markers text =
     List.map_filter (\<lambda>s. case s of LocalImage marker \<Rightarrow> Some marker | TextSegment _ \<Rightarrow> None) (split_response_content_segments text)"

definition is_local_image :: "response_content_segment \<Rightarrow> bool" where
  "is_local_image s = (case s of LocalImage _ \<Rightarrow> True | TextSegment _ \<Rightarrow> False)"

lemma is_local_image_iff: "is_local_image s \<longleftrightarrow> (\<exists>m. s = LocalImage m)"
  by (cases s) (simp_all add: is_local_image_def)

lemma any_local_image: "list_ex is_local_image segments \<longleftrightarrow> (\<exists>s \<in> set segments. \<exists>m. s = LocalImage m)"
  by (simp add: list_ex_iff is_local_image_iff)

definition replace_local_image_markers :: "rstr \<Rightarrow> rstr \<Rightarrow> rstr" where
  "replace_local_image_markers text placeholder =
     (let segments = split_response_content_segments text in
      if \<not> list_ex is_local_image segments then text
      else concat (map (\<lambda>s. case s of TextSegment v \<Rightarrow> v | LocalImage _ \<Rightarrow> placeholder) segments))"

section \<open>Progress\<close>

record progress_transcript =
  pg_base_text :: rstr
  pg_entries :: "rstr list"

definition progress_new :: "rstr \<Rightarrow> progress_transcript" where
  "progress_new base_text = \<lparr>pg_base_text = trim base_text, pg_entries = []\<rparr>"

definition progress_render :: "progress_transcript \<Rightarrow> rstr" where
  "progress_render p =
     intercalate [10] ((if pg_base_text p = [] then [] else [pg_base_text p]) @ map (\<lambda>e. lit ''- '' @ e) (pg_entries p))"

definition progress_push :: "rstr \<Rightarrow> bool \<Rightarrow> progress_transcript \<Rightarrow> progress_transcript \<times> rstr option" where
  "progress_push entry dedupe p =
     (let normalized = trim entry in
      if normalized = [] then (p, None)
      else if dedupe \<and> normalized \<in> set (pg_entries p) then (p, None)
      else let p = p\<lparr>pg_entries := pg_entries p @ [normalized]\<rparr> in (p, Some (progress_render p)))"

datatype reasoning_visibility = HiddenReasoning | FullReasoning | CompactReasoning

definition compact_tool_subject_from_name :: "rstr \<Rightarrow> rstr option" where
  "compact_tool_subject_from_name name =
     (if name = lit ''deep_research'' then Some [25191, 34892, 28145, 24230, 30740, 31350]
      else if name \<in> {lit ''local_search_files'', lit ''local_find_files''} then Some [26597, 25214, 26412, 22320, 25991, 20214]
      else if name \<in> {lit ''local_read_text_file'', lit ''read_file'', lit ''view''} then Some [35835, 21462, 26412, 22320, 25991, 20214]
      else if name \<in> {lit ''local_write_text_file'', lit ''write_file'', lit ''replace_file'', lit ''edit_file''}
        then Some [20462, 25913, 26412, 22320, 25991, 20214]
      else if name = lit ''local_list_directory'' then Some [27983, 35272, 26412, 22320, 30446, 24405]
      else if name \<in> {lit ''shell'', lit ''execute'', lit ''command''} then Some [25191, 34892, 21629, 20196]
      else map_option fst (map_of tool_display_map name))"

definition is_generic_tool_name :: "rstr \<Rightarrow> bool" where
  "is_generic_tool_name name \<longleftrightarrow>
     to_ascii_lowercase (trim name) \<in> {[], lit ''tool'', lit ''tool_call'', lit ''toolcall''}"

definition COMMAND_NAMES :: "rstr list" where
  "COMMAND_NAMES =
     map lit [''rtk'', ''bash'', ''sh'', ''zsh'', ''/bin/bash'', ''/bin/sh'', ''/bin/zsh'', ''python'', ''python3'', ''cargo'',
       ''git'', ''ls'', ''cat'', ''sed'', ''rg'', ''find'', ''cp'', ''mv'', ''rm'', ''bun'', ''node'']"

definition first_word :: "rstr \<Rightarrow> rstr option" where
  "first_word s = (case split_whitespace s of [] \<Rightarrow> None | w # _ \<Rightarrow> Some w)"

definition looks_like_command :: "rstr \<Rightarrow> bool" where
  "looks_like_command text \<longleftrightarrow>
     (let first = unwrap_or [] (first_word text) in first \<in> set COMMAND_NAMES \<or> 47 \<in> set first \<or> 92 \<in> set first)"

definition is_safe_tool_identifier :: "rstr \<Rightarrow> bool" where
  "is_safe_tool_identifier s \<longleftrightarrow>
     s \<noteq> [] \<and> byte_len s \<le> 32 \<and> list_all (\<lambda>c. is_ascii_alnum c \<or> c \<in> {95, 45, 46}) s"

definition trim_matches :: "(nat \<Rightarrow> bool) \<Rightarrow> rstr \<Rightarrow> rstr" where
  "trim_matches P s = rev (dropWhile P (rev (dropWhile P s)))"

definition compact_tool_subject_candidate :: "rstr \<Rightarrow> rstr option" where
  "compact_tool_subject_candidate text =
     (let trimmed = trim text in
      if trimmed = [] then None
      else
        let base = trim_matches (\<lambda>c. c \<in> {58, 59, 44}) (unwrap_or trimmed (first_word trimmed)) in
        case compact_tool_subject_from_name base of
          Some label \<Rightarrow> Some label
        | None \<Rightarrow>
            if looks_like_command trimmed then Some [25191, 34892, 21629, 20196]
            else if is_generic_tool_name base then None
            else if is_safe_tool_identifier base then Some ([35843, 29992, 24037, 20855] @ [32] @ base)
            else None)"

definition compact_tool_subject_candidate_from_reasoning :: "rstr \<Rightarrow> rstr option" where
  "compact_tool_subject_candidate_from_reasoning reasoning =
     (let trimmed = trim reasoning;
          rest = unwrap_or trimmed (or_else (strip_prefix [27491, 22312, 25191, 34892, 65306] trimmed) (strip_prefix [25191, 34892, 23436, 25104, 65306] trimmed))
      in compact_tool_subject_candidate (trim (hd (split_by (\<lambda>c. c = 65307) rest))))"

definition compact_tool_subject :: "rstr \<Rightarrow> rstr option \<Rightarrow> rstr" where
  "compact_tool_subject tool reasoning =
     unwrap_or [35843, 29992, 24037, 20855]
       (or_else (compact_tool_subject_candidate tool) (Option.bind reasoning compact_tool_subject_candidate_from_reasoning))"

definition render_compact_tool_status_start :: "rstr \<Rightarrow> rstr option \<Rightarrow> rstr" where
  "render_compact_tool_status_start tool reasoning = [27491, 22312] @ compact_tool_subject tool reasoning @ lit ''...''"

definition render_compact_tool_status_done :: "rstr \<Rightarrow> rstr option \<Rightarrow> rstr" where
  "render_compact_tool_status_done tool reasoning = compact_tool_subject tool reasoning @ [23436, 25104]"

text \<open>What the listener does with the status of a tool: the text the placeholder is updated to, if any.\<close>

definition on_tool_status ::
    "reasoning_visibility \<Rightarrow> rstr \<Rightarrow> rstr \<Rightarrow> rstr option \<Rightarrow> progress_transcript \<Rightarrow> progress_transcript \<times> rstr option" where
  "on_tool_status visibility tool status reasoning p =
     (if status \<noteq> lit ''start'' then (p, None)
      else case (case visibility of
          HiddenReasoning \<Rightarrow> None
        | FullReasoning \<Rightarrow> opt_filter (\<lambda>v. trim v \<noteq> []) reasoning
        | CompactReasoning \<Rightarrow> Some (render_compact_tool_status_start tool reasoning)) of
        None \<Rightarrow> (p, None)
      | Some shown \<Rightarrow> progress_push shown (visibility \<noteq> CompactReasoning) p)"

section \<open>Nothing is lost around an image\<close>

lemma text_slice_drop: "i \<le> j \<Longrightarrow> text_slice s i j @ drop j s = drop i s"
  by (simp add: text_slice_def) (metis append_take_drop_id drop_drop le_add_diff_inverse2)

lemma parse_uri_path: "parse_local_image_uri uri = Some path \<Longrightarrow> uri = lit ''file://'' @ path \<and> starts_with path [47]"
  by (auto simp: parse_local_image_uri_def strip_prefix_Some split: option.splits if_splits)

definition image_of :: "local_image_marker \<Rightarrow> bool" where
  "image_of m \<longleftrightarrow> lm_uri m = lit ''file://'' @ lm_path m \<and> starts_with (lm_path m) [47]"

lemma shrink_uri_parses: "shrink_uri w = Some (uri, path) \<Longrightarrow> parse_local_image_uri uri = Some path"
  by (induction w) (auto split: option.splits if_splits)

lemma local_image_at_image:
  assumes "local_image_at text i = Some (start, stop, marker)"
  shows "image_of marker"
proof -
  have "image_of marker" if "html_anchor_local_image_at text i = Some (start, stop, marker)"
    using that by (auto simp: html_anchor_local_image_at_def Let_def bind_eq_Some_conv image_of_def parse_uri_path split: if_splits option.splits)
  moreover have "image_of marker" if "markdown_link_local_image_at text i = Some (start, stop, marker)"
    using that by (auto simp: markdown_link_local_image_at_def Let_def bind_eq_Some_conv image_of_def parse_uri_path split: if_splits)
  moreover have "image_of marker" if "bare_local_image_at text i = Some (start, stop, marker)"
    using that by (auto simp: bare_local_image_at_def local_image_marker_at_def image_of_def dest!: shrink_uri_parses parse_uri_path)
  ultimately show ?thesis using assms by (auto simp: local_image_at_def or_else_Some)
qed

lemma found_image: "find_next_local_image_reference answer cursor = Some (start, stop, marker) \<Longrightarrow> image_of marker"
proof (induction answer cursor rule: find_next_local_image_reference.induct)
  case (1 answer cursor)
  show ?case
    using 1(2) 1(1) local_image_at_image
    by (subst (asm) find_next_local_image_reference.simps) (fastforce split: if_splits option.splits)
qed

text \<open>The reference is around the place where the URI was seen.\<close>

lemma after_file_uri:
  assumes "starts_with s FILE_URI" and "n < length s" and "s ! n = c" and "c \<notin> set FILE_URI"
  shows "8 \<le> n"
proof (rule ccontr)
  assume "\<not> 8 \<le> n"
  then have n: "n < length FILE_URI" by (simp add: FILE_URI_def lit_def)
  obtain r where "s = FILE_URI @ r" using assms(1) by (auto simp: starts_with_iff)
  then have "s ! n \<in> set FILE_URI" using n by (simp add: nth_append)
  then show False using assms(3,4) by simp
qed

lemma uri_length: "parse_local_image_uri uri = Some path \<Longrightarrow> 8 \<le> length uri"
  by (cases path) (auto dest!: parse_uri_path simp: lit_def)

lemma html_anchor_covers:
  assumes "html_anchor_local_image_at answer i = Some (start, stop, marker)" and uri: "starts_with (drop i answer) FILE_URI"
  shows "i + 8 \<le> stop"
proof -
  obtain gt where gt: "position (\<lambda>c. c = 62) (drop start answer) = Some gt" and i: "i \<le> start + gt"
    and stop: "Suc (start + gt) \<le> stop"
    using html_anchor_parts [OF assms(1)] by (force split: option.splits)
  have inside: "gt < length (drop start answer)" "drop start answer ! gt = 62" using position_Some [OF gt] by auto
  have "8 \<le> start + gt - i"
  proof (rule after_file_uri [OF uri])
    show "start + gt - i < length (drop i answer)" using inside(1) i by simp
    show "drop i answer ! (start + gt - i) = 62" using inside i by simp
  qed (simp add: FILE_URI_def lit_def)
  then show ?thesis using i stop by linarith
qed

lemma markdown_link_covers:
  assumes "markdown_link_local_image_at answer i = Some (start, stop, marker)" and uri: "starts_with (drop i answer) FILE_URI"
  shows "i + 8 \<le> stop"
proof -
  obtain len where len: "position (\<lambda>c. c = 41) (drop i answer) = Some len" "stop = i + len + 1"
    using markdown_link_parts [OF assms(1)] by blast
  have "8 \<le> len"
    by (rule after_file_uri [OF uri]) (use position_Some [OF len(1)] in \<open>auto simp: FILE_URI_def lit_def\<close>)
  then show ?thesis using len(2) by simp
qed

lemma bare_covers:
  "bare_local_image_at answer i = Some (start, stop, marker) \<Longrightarrow> i + 8 \<le> stop"
  by (auto simp: bare_local_image_at_def local_image_marker_at_def dest!: shrink_uri_parses uri_length)

lemma local_image_at_covers:
  "local_image_at answer i = Some (start, stop, marker) \<Longrightarrow> starts_with (drop i answer) FILE_URI \<Longrightarrow> i + 8 \<le> stop"
  using html_anchor_covers markdown_link_covers bare_covers unfolding local_image_at_def or_else_Some by blast

lemma found_uri:
  "find_next_local_image_reference answer cursor = Some (start, stop, marker) \<Longrightarrow>
   \<exists>i. cursor \<le> i \<and> start \<le> i \<and> i + 8 \<le> stop \<and> starts_with (drop i answer) FILE_URI"
proof (induction answer cursor rule: find_next_local_image_reference.induct)
  case (1 answer cursor)
  obtain r where r: "cursor < length answer" "str_find FILE_URI (drop cursor answer) = Some r"
    using 1(2) by (subst (asm) find_next_local_image_reference.simps) (auto split: if_splits option.splits)
  show ?case
  proof (cases "local_image_at answer (cursor + r)")
    case None
    then have "find_next_local_image_reference answer (cursor + r + length FILE_URI) = Some (start, stop, marker)"
      using 1(2) r by (subst (asm) find_next_local_image_reference.simps) simp
    then obtain i where "cursor + r + length FILE_URI \<le> i \<and> start \<le> i \<and> i + 8 \<le> stop \<and> starts_with (drop i answer) FILE_URI"
      using 1(1) [OF _ r(2) None] r(1) by auto
    then show ?thesis by (intro exI [of _ i]) simp
  next
    case (Some found)
    then have at_r: "local_image_at answer (cursor + r) = Some (start, stop, marker)"
      using 1(2) r by (subst (asm) find_next_local_image_reference.simps) simp
    have "starts_with (drop r (drop cursor answer)) FILE_URI" using r(2) str_find_Some [of FILE_URI] by (simp add: FILE_URI_def lit_def)
    then have "starts_with (drop (cursor + r) answer) FILE_URI" by (simp add: add.commute)
    then show ?thesis using local_image_at_covers [OF at_r] local_image_at_bounds [OF at_r]
      by (intro exI [of _ "cursor + r"]) simp
  qed
qed

lemma slice_contains_uri:
  assumes "starts_with (drop i answer) FILE_URI" and "a \<le> i" and "i + 8 \<le> b"
  shows "contains_str (text_slice answer a b) FILE_URI"
proof -
  obtain r where r: "drop i answer = FILE_URI @ r" using assms(1) by (auto simp: starts_with_iff)
  have size: "length FILE_URI = 8" by (simp add: FILE_URI_def lit_def)
  have "text_slice answer a b = take (i - a) (drop a answer) @ take (b - i) (drop i answer)"
    using assms(2,3) take_add [of "i - a" "b - i" "drop a answer"] by (simp add: text_slice_def)
  also have "take (b - i) (drop i answer) = FILE_URI @ take (b - i - 8) r"
    using assms(3) size by (simp add: r)
  finally show ?thesis unfolding contains_str_iff by blast
qed

text \<open>What a segment stands for in the text.\<close>

fun stands_for :: "response_content_segment \<Rightarrow> rstr \<Rightarrow> bool" where
  "stands_for (TextSegment v) original \<longleftrightarrow> original = v \<and> v \<noteq> []"
| "stands_for (LocalImage m) original \<longleftrightarrow> image_of m \<and> contains_str original FILE_URI"

lemma split_from_stands:
  assumes "cursor \<le> length answer"
  shows "\<exists>originals. list_all2 stands_for (split_from answer cursor) originals \<and> concat originals = drop cursor answer"
  using assms
proof (induction answer cursor rule: split_from.induct)
  case (1 answer cursor)
  show ?case
  proof (cases "find_next_local_image_reference answer cursor")
    case None
    then show ?thesis using 1(2)
      by (subst split_from.simps) (auto intro: exI [of _ "[drop cursor answer]"])
  next
    case (Some found)
    obtain start stop marker where found: "find_next_local_image_reference answer cursor = Some (start, stop, marker)"
      using Some by (cases found) auto
    have bounds: "cursor < stop" "start < stop" "stop \<le> length answer" using found_after [OF found] by auto
    then obtain rest where rest: "list_all2 stands_for (split_from answer stop) rest" "concat rest = drop stop answer"
      using 1(1) [OF found refl refl] by blast
    have image: "image_of marker" by (rule found_image [OF found])
    obtain i where i: "cursor \<le> i" "start \<le> i" "i + 8 \<le> stop" "starts_with (drop i answer) FILE_URI"
      using found_uri [OF found] by blast
    show ?thesis
    proof (cases "start > cursor")
      case True
      have "text_slice answer cursor start \<noteq> []" using True bounds by (simp add: text_slice_def)
      moreover have "text_slice answer cursor start @ text_slice answer start stop @ drop stop answer = drop cursor answer"
        using True bounds by (simp add: text_slice_drop)
      ultimately show ?thesis using rest image True found slice_contains_uri [OF i(4) i(2) i(3)]
        by (subst split_from.simps) (auto intro!: exI [of _ "text_slice answer cursor start # text_slice answer start stop # rest"])
    next
      case False
      have "text_slice answer cursor stop @ drop stop answer = drop cursor answer" using bounds by (simp add: text_slice_drop)
      then show ?thesis using rest image False found slice_contains_uri [OF i(4) i(1) i(3)]
        by (subst split_from.simps) (auto intro!: exI [of _ "text_slice answer cursor stop # rest"])
    qed
  qed
qed

lemma text_only:
  "list_all2 stands_for ss os \<Longrightarrow> \<not> (\<exists>s \<in> set ss. \<exists>m. s = LocalImage m) \<Longrightarrow>
   concat (map (\<lambda>s. case s of TextSegment v \<Rightarrow> v | LocalImage _ \<Rightarrow> placeholder) ss) = concat os"
proof (induction rule: list_all2_induct)
  case (Cons s ss v os)
  then show ?case by (cases s) auto
qed simp

lemma collected_are_images:
  "list_all2 stands_for ss os \<Longrightarrow>
   list_all image_of (List.map_filter (\<lambda>s. case s of LocalImage marker \<Rightarrow> Some marker | TextSegment _ \<Rightarrow> None) ss)"
proof (induction rule: list_all2_induct)
  case (Cons s ss v os)
  then show ?case by (cases s) (auto simp: map_filter_simps)
qed (simp add: map_filter_simps)

text \<open>An image is cut out of an answer and nothing else is. The segments of an answer stand, one after the other, for
  the pieces it is made of: a text segment for itself and never for nothing, an image for a piece that holds a
  reference, and its URI is that of an absolute path. Replacing the images by a placeholder leaves the text segments as they are.\<close>

theorem images_cut_out:
  "(\<exists>originals. list_all2 stands_for (split_response_content_segments answer) originals \<and> concat originals = answer) \<and>
   replace_local_image_markers answer placeholder =
     concat (map (\<lambda>s. case s of TextSegment v \<Rightarrow> v | LocalImage _ \<Rightarrow> placeholder) (split_response_content_segments answer)) \<and>
   list_all image_of (collect_local_image_markers answer)"
proof -
  obtain originals where o: "list_all2 stands_for (split_from answer 0) originals" "concat originals = answer"
    using split_from_stands [of 0 answer] by auto
  have segments: "split_response_content_segments answer = split_from answer 0"
    using o by (auto simp: split_response_content_segments_def Let_def)
  have "list_all image_of (collect_local_image_markers answer)"
    unfolding collect_local_image_markers_def segments by (rule collected_are_images [OF o(1)])
  then show ?thesis using o text_only [OF o(1)] unfolding replace_local_image_markers_def segments Let_def any_local_image by auto
qed

end
