(* ===== verification/Conversation.thy ===== *)
theory Conversation
  imports Session_Store Outbound
begin

text \<open>
  What a conversation looks like to a model: \<^verbatim>\<open>hone-core/src/agent.rs\<close> (agent messages, and the turns they are
  normalised to and read back from), the conversion of stored messages in \<^verbatim>\<open>memory/src/session.rs\<close>, the persisted
  turn of \<^verbatim>\<open>agent_session/helpers.rs\<close>, and \<^verbatim>\<open>agent_session/restore.rs\<close>.
\<close>

section \<open>Agent messages\<close>

record agent_message =
  am_role :: rstr
  am_content :: "rstr option"
  am_tool_calls :: "json list option"
  am_tool_call_id :: "rstr option"
  am_name :: "rstr option"
  am_metadata :: "metadata option"

record normalized_message =
  nm_role :: rstr
  nm_content :: "conversation_part list"
  nm_status :: "rstr option"
  nm_metadata :: "metadata option"

text \<open>The metadata of a context holds the actor and nothing else.\<close>

record agent_context =
  cx_session_id :: rstr
  cx_messages :: "agent_message list"
  cx_actor :: "actor option"

definition context_new :: "rstr \<Rightarrow> agent_context" where
  "context_new sid = \<lparr>cx_session_id = sid, cx_messages = [], cx_actor = None\<rparr>"

definition plain_message :: "rstr \<Rightarrow> rstr \<Rightarrow> metadata option \<Rightarrow> agent_message" where
  "plain_message role content md =
     \<lparr>am_role = role, am_content = Some content, am_tool_calls = None, am_tool_call_id = None, am_name = None, am_metadata = md\<rparr>"

definition add_user_message :: "rstr \<Rightarrow> agent_context \<Rightarrow> agent_context" where
  "add_user_message content cx = cx\<lparr>cx_messages := cx_messages cx @ [plain_message (lit ''user'') content None]\<rparr>"

definition set_actor_identity :: "actor \<Rightarrow> agent_context \<Rightarrow> agent_context" where
  "set_actor_identity a cx = cx\<lparr>cx_actor := Some a\<rparr>"

section \<open>From messages to turns\<close>

definition some_text :: "rstr option \<Rightarrow> rstr option" where
  "some_text content = opt_filter (\<lambda>t. t \<noteq> []) (map_option trim content)"

definition bare_part :: "rstr \<Rightarrow> conversation_part" where
  "bare_part part_type =
     \<lparr>pt_type = part_type, pt_text = None, pt_id = None, pt_name = None, pt_args = None, pt_result = None, pt_metadata = None\<rparr>"

definition assistant_text_part :: "agent_message \<Rightarrow> conversation_part option" where
  "assistant_text_part m =
     map_option (\<lambda>t. (bare_part (lit ''text''))\<lparr>pt_text := Some t, pt_metadata := am_metadata m\<rparr>) (some_text (am_content m))"

text \<open>A part of a call is made as for the calls in the metadata of a stored message.\<close>

definition assistant_tool_call_parts :: "json_codec \<Rightarrow> agent_message \<Rightarrow> conversation_part list" where
  "assistant_tool_call_parts J m = map (tool_call_part J) (unwrap_or [] (am_tool_calls m))"

definition tool_result_part :: "json_codec \<Rightarrow> agent_message \<Rightarrow> conversation_part option" where
  "tool_result_part J m =
     (let has_identity = some_text (am_tool_call_id m) \<noteq> None \<or> some_text (am_name m) \<noteq> None;
          has_result = some_text (am_content m) \<noteq> None
      in if \<not> has_identity \<and> \<not> has_result then None
         else Some ((bare_part (lit ''tool_result''))\<lparr>pt_id := am_tool_call_id m, pt_name := am_name m,
           pt_result := or_else (map_option (parse_json_or_string J) (am_content m)) (Some JNull), pt_metadata := am_metadata m\<rparr>))"

definition is_tool_part :: "conversation_part \<Rightarrow> bool" where
  "is_tool_part p \<longleftrightarrow> pt_type p = lit ''tool_call'' \<or> pt_type p = lit ''tool_result''"

definition finalize_assistant_turn :: "conversation_part list \<Rightarrow> conversation_part list" where
  "finalize_assistant_turn parts =
     (let last_tool = rposition is_tool_part parts;
          last_text = rposition (\<lambda>p. pt_type p = lit ''text'') parts
      in map (\<lambda>(k, p). if pt_type p \<noteq> lit ''text'' then p
           else p\<lparr>pt_type := (if Some k = last_text \<and> (case last_tool of None \<Rightarrow> True | Some t \<Rightarrow> k > t)
                            then lit ''final'' else lit ''progress'')\<rparr>) (enumerate 0 parts))"

definition flush_assistant :: "normalized_message list \<times> conversation_part list option \<Rightarrow> normalized_message list" where
  "flush_assistant s =
     (case snd s of
        None \<Rightarrow> fst s
      | Some parts \<Rightarrow>
          (if parts = [] then fst s
           else fst s @ [\<lparr>nm_role = lit ''assistant'', nm_content = finalize_assistant_turn parts,
                          nm_status = Some (lit ''completed''), nm_metadata = None\<rparr>]))"

text \<open>The turn in progress is the list of its parts.\<close>

definition normalize_step ::
    "json_codec \<Rightarrow> agent_message \<Rightarrow> normalized_message list \<times> conversation_part list option \<Rightarrow>
     normalized_message list \<times> conversation_part list option" where
  "normalize_step J m s =
     (if am_role m = lit ''user'' then
        (let out = flush_assistant s in
         case some_text (am_content m) of
           None \<Rightarrow> (out, None)
         | Some t \<Rightarrow>
             (out @ [\<lparr>nm_role = lit ''user'',
                nm_content = [(bare_part (lit ''text''))\<lparr>pt_text := Some t, pt_metadata := am_metadata m\<rparr>],
                nm_status = Some (lit ''completed''), nm_metadata = None\<rparr>], None))
      else if am_role m = lit ''assistant'' then
        (fst s, Some (unwrap_or [] (snd s) @ option_list (assistant_text_part m) @ assistant_tool_call_parts J m))
      else if am_role m = lit ''tool'' then
        (fst s, Some (unwrap_or [] (snd s) @ option_list (tool_result_part J m)))
      else s)"

definition normalize_agent_messages :: "json_codec \<Rightarrow> agent_message list \<Rightarrow> normalized_message list" where
  "normalize_agent_messages J ms = flush_assistant (fold (normalize_step J) ms ([], None))"

definition final_assistant_message_content :: "agent_message list \<Rightarrow> rstr \<Rightarrow> rstr" where
  "final_assistant_message_content ms fallback =
     unwrap_or fallback (find (\<lambda>t. t \<noteq> []) (map trim (List.map_filter am_content (filter (\<lambda>m. am_role m = lit ''assistant'') (rev ms)))))"

section \<open>From turns to messages\<close>

definition build_tool_call_value_from_part :: "json_codec \<Rightarrow> conversation_part \<Rightarrow> json" where
  "build_tool_call_value_from_part J p =
     JObj [(lit ''id'', JStr (unwrap_or [] (pt_id p))), (lit ''type'', JStr (lit ''function'')),
           (lit ''function'', JObj [(lit ''name'', JStr (unwrap_or [] (pt_name p))),
              (lit ''arguments'', JStr (jc_print J (unwrap_or JNull (pt_args p))))])]"

definition tool_result_to_content :: "json_codec \<Rightarrow> conversation_part \<Rightarrow> rstr" where
  "tool_result_to_content J p = tool_result_text J p"

definition effective_part_metadata :: "metadata option \<Rightarrow> metadata option \<Rightarrow> metadata option" where
  "effective_part_metadata part_md message_md = or_else part_md message_md"

definition denormalized_text_from_parts :: "conversation_part list \<Rightarrow> rstr" where
  "denormalized_text_from_parts parts = intercalate [10] (part_texts parts)"

definition first_part_metadata_or_message :: "normalized_message \<Rightarrow> metadata option" where
  "first_part_metadata_or_message m =
     (case List.map_filter pt_metadata (nm_content m) of md # _ \<Rightarrow> Some md | [] \<Rightarrow> nm_metadata m)"

definition denormalize_text_role :: "normalized_message \<Rightarrow> rstr \<Rightarrow> agent_message list" where
  "denormalize_text_role m role =
     (let text = denormalized_text_from_parts (nm_content m)
      in if text = [] then [] else [plain_message role text (first_part_metadata_or_message m)])"

record denormalization_state =
  dn_out :: "agent_message list"
  dn_text :: rstr
  dn_calls :: "json list"
  dn_metadata :: "metadata option"

definition dn_start :: denormalization_state where
  "dn_start = \<lparr>dn_out = [], dn_text = [], dn_calls = [], dn_metadata = None\<rparr>"

definition dn_flush :: "metadata option \<Rightarrow> denormalization_state \<Rightarrow> denormalization_state" where
  "dn_flush message_md s =
     (if trim (dn_text s) = [] \<and> dn_calls s = [] then s
      else \<lparr>dn_out = dn_out s @
              [\<lparr>am_role = lit ''assistant'', am_content = Some (dn_text s),
                am_tool_calls = (if dn_calls s = [] then None else Some (dn_calls s)),
                am_tool_call_id = None, am_name = None, am_metadata = or_else (dn_metadata s) message_md\<rparr>],
            dn_text = [], dn_calls = [], dn_metadata = None\<rparr>)"

definition push_text_part :: "metadata option \<Rightarrow> conversation_part \<Rightarrow> denormalization_state \<Rightarrow> denormalization_state" where
  "push_text_part message_md p s =
     (let s = (if trim (dn_text s) \<noteq> [] then dn_flush message_md s else s)
      in s\<lparr>dn_text := unwrap_or [] (pt_text p), dn_metadata := effective_part_metadata (pt_metadata p) message_md\<rparr>)"

definition push_tool_call_part ::
    "json_codec \<Rightarrow> metadata option \<Rightarrow> conversation_part \<Rightarrow> denormalization_state \<Rightarrow> denormalization_state" where
  "push_tool_call_part J message_md p s =
     (let s = s\<lparr>dn_calls := dn_calls s @ [build_tool_call_value_from_part J p]\<rparr>
      in if dn_metadata s = None then s\<lparr>dn_metadata := effective_part_metadata (pt_metadata p) message_md\<rparr> else s)"

definition push_tool_result_part ::
    "json_codec \<Rightarrow> metadata option \<Rightarrow> conversation_part \<Rightarrow> denormalization_state \<Rightarrow> denormalization_state" where
  "push_tool_result_part J message_md p s =
     (let s = dn_flush message_md s
      in s\<lparr>dn_out := dn_out s @
             [\<lparr>am_role = lit ''tool'', am_content = Some (tool_result_to_content J p), am_tool_calls = None,
               am_tool_call_id = pt_id p, am_name = pt_name p,
               am_metadata = effective_part_metadata (pt_metadata p) message_md\<rparr>]\<rparr>)"

definition push_part :: "json_codec \<Rightarrow> metadata option \<Rightarrow> conversation_part \<Rightarrow> denormalization_state \<Rightarrow> denormalization_state" where
  "push_part J message_md p s =
     (if pt_type p \<in> {lit ''text'', lit ''progress'', lit ''final''} then push_text_part message_md p s
      else if pt_type p = lit ''tool_call'' then push_tool_call_part J message_md p s
      else if pt_type p = lit ''tool_result'' then push_tool_result_part J message_md p s
      else s)"

definition denormalize_assistant_message :: "json_codec \<Rightarrow> normalized_message \<Rightarrow> agent_message list" where
  "denormalize_assistant_message J m =
     dn_out (dn_flush (nm_metadata m) (fold (push_part J (nm_metadata m)) (nm_content m) dn_start))"

definition denormalize_normalized_message :: "json_codec \<Rightarrow> normalized_message \<Rightarrow> agent_message list" where
  "denormalize_normalized_message J m =
     (if nm_role m = lit ''assistant'' then denormalize_assistant_message J m else denormalize_text_role m (nm_role m))"

section \<open>Stored messages\<close>

definition session_message_to_normalized :: "session_message \<Rightarrow> normalized_message" where
  "session_message_to_normalized m =
     \<lparr>nm_role = sm_role m, nm_content = sm_content m, nm_status = sm_status m, nm_metadata = sm_metadata m\<rparr>"

definition session_message_from_normalized :: "normalized_message \<Rightarrow> rstr \<Rightarrow> session_message" where
  "session_message_from_normalized m timestamp =
     \<lparr>sm_role = nm_role m, sm_content = nm_content m, sm_status = nm_status m, sm_timestamp = timestamp, sm_metadata = nm_metadata m\<rparr>"

definition tool_agent_message :: "rstr \<Rightarrow> rstr option \<Rightarrow> rstr option \<Rightarrow> metadata option \<Rightarrow> agent_message" where
  "tool_agent_message content call_id name md =
     \<lparr>am_role = lit ''tool'', am_content = Some content, am_tool_calls = None, am_tool_call_id = call_id, am_name = name, am_metadata = md\<rparr>"

definition session_message_to_agent_messages :: "json_codec \<Rightarrow> session_message \<Rightarrow> agent_message list" where
  "session_message_to_agent_messages J m =
     (if sm_role m = lit ''tool'' then
        (case find (\<lambda>p. pt_type p = lit ''tool_result'') (sm_content m) of
           Some p \<Rightarrow> [tool_agent_message (tool_result_text J p) (pt_id p) (pt_name p) (or_else (pt_metadata p) (sm_metadata m))]
         | None \<Rightarrow>
             (case restore_tool_message J m of
                Some (call_id, name, content) \<Rightarrow> [tool_agent_message content (Some call_id) (Some name) (sm_metadata m)]
              | None \<Rightarrow> []))
      else denormalize_normalized_message J (session_message_to_normalized m))"

section \<open>Invoked skills\<close>

record invoked_skill =
  sk_skill_name :: rstr
  sk_display_name :: rstr
  sk_path :: rstr
  sk_prompt :: rstr
  sk_execution_context :: rstr
  sk_allowed_tools :: "rstr list"
  sk_model :: "rstr option"
  sk_effort :: "rstr option"
  sk_agent :: "rstr option"
  sk_loaded_from :: rstr
  sk_updated_at :: rstr

definition INVOKED_SKILLS_KEY :: rstr where
  "INVOKED_SKILLS_KEY = lit ''skill_runtime.invoked_skills''"

text \<open>What the derived \<^verbatim>\<open>Deserialize\<close> accepts of an object: required texts, optional ones that may be null, and a list
  that may be absent. One record that does not parse loses them all.\<close>

definition optional_text :: "json \<Rightarrow> rstr \<Rightarrow> rstr option option" where
  "optional_text v k =
     (case json_get v k of None \<Rightarrow> Some None | Some JNull \<Rightarrow> Some None | Some (JStr s) \<Rightarrow> Some (Some s) | Some _ \<Rightarrow> None)"

fun all_some :: "'a option list \<Rightarrow> 'a list option" where
  "all_some [] = Some []"
| "all_some (None # xs) = None"
| "all_some (Some x # xs) = map_option (Cons x) (all_some xs)"

definition text_list :: "json \<Rightarrow> rstr list option" where
  "text_list v = (case v of JArr vs \<Rightarrow> all_some (map json_as_str vs) | _ \<Rightarrow> None)"

definition invoked_skill_of_json :: "json \<Rightarrow> invoked_skill option" where
  "invoked_skill_of_json v =
     Option.bind (get_str v (lit ''skill_name'')) (\<lambda>skill_name.
     Option.bind (get_str v (lit ''display_name'')) (\<lambda>display_name.
     Option.bind (get_str v (lit ''path'')) (\<lambda>path.
     Option.bind (get_str v (lit ''prompt'')) (\<lambda>prompt.
     Option.bind (get_str v (lit ''execution_context'')) (\<lambda>execution_context.
     Option.bind (case json_get v (lit ''allowed_tools'') of None \<Rightarrow> Some [] | Some ts \<Rightarrow> text_list ts) (\<lambda>allowed_tools.
     Option.bind (optional_text v (lit ''model'')) (\<lambda>model.
     Option.bind (optional_text v (lit ''effort'')) (\<lambda>effort.
     Option.bind (optional_text v (lit ''agent'')) (\<lambda>agent.
     Option.bind (get_str v (lit ''loaded_from'')) (\<lambda>loaded_from.
     Option.bind (get_str v (lit ''updated_at'')) (\<lambda>updated_at.
       Some \<lparr>sk_skill_name = skill_name, sk_display_name = display_name, sk_path = path, sk_prompt = prompt,
         sk_execution_context = execution_context, sk_allowed_tools = allowed_tools, sk_model = model, sk_effort = effort,
         sk_agent = agent, sk_loaded_from = loaded_from, sk_updated_at = updated_at\<rparr>)))))))))))"

definition invoked_skills_from_metadata :: "metadata \<Rightarrow> invoked_skill list" where
  "invoked_skills_from_metadata md =
     unwrap_or [] (Option.bind (md INVOKED_SKILLS_KEY)
       (\<lambda>v. case v of JArr vs \<Rightarrow> all_some (map invoked_skill_of_json vs) | _ \<Rightarrow> None))"

definition optional_field :: "string \<Rightarrow> rstr option \<Rightarrow> (rstr \<times> json) list" where
  "optional_field k v = (case v of None \<Rightarrow> [] | Some s \<Rightarrow> [(lit k, JStr s)])"

definition json_of_invoked_skill :: "invoked_skill \<Rightarrow> json" where
  "json_of_invoked_skill r =
     JObj ([(lit ''skill_name'', JStr (sk_skill_name r)), (lit ''display_name'', JStr (sk_display_name r)),
            (lit ''path'', JStr (sk_path r)), (lit ''prompt'', JStr (sk_prompt r)),
            (lit ''execution_context'', JStr (sk_execution_context r)), (lit ''allowed_tools'', JArr (map JStr (sk_allowed_tools r)))]
       @ optional_field ''model'' (sk_model r) @ optional_field ''effort'' (sk_effort r) @ optional_field ''agent'' (sk_agent r)
       @ [(lit ''loaded_from'', JStr (sk_loaded_from r)), (lit ''updated_at'', JStr (sk_updated_at r))])"

section \<open>The context of a run\<close>

definition sanitize_assistant_context_content :: "regex_engine \<Rightarrow> rstr \<Rightarrow> rstr" where
  "sanitize_assistant_context_content R content =
     so_content (sanitize_user_visible_output R (replace_local_image_markers content LOCAL_IMAGE_CONTEXT_PLACEHOLDER))"

text \<open>The loop over what an assistant or tool message is turned into.\<close>

definition restored_message :: "json_codec \<Rightarrow> regex_engine \<Rightarrow> session_message \<Rightarrow> agent_message \<Rightarrow> agent_message option" where
  "restored_message J R m restored =
     (if am_role restored = lit ''assistant'' then
        (let sanitized = sanitize_assistant_context_content R (unwrap_or [] (am_content restored));
             calls = or_else (am_tool_calls restored) (assistant_tool_calls_from_metadata (sm_metadata m))
         in if trim sanitized = [] \<and> unwrap_or [] calls = [] then None
            else Some (restored\<lparr>am_content := Some sanitized, am_tool_calls := calls\<rparr>))
      else if am_role restored = lit ''tool'' \<and> restore_tool_message J m = None \<and> trim (unwrap_or [] (am_content restored)) = [] then None
      else Some restored)"

definition restored_messages :: "json_codec \<Rightarrow> regex_engine \<Rightarrow> session_message \<Rightarrow> agent_message list" where
  "restored_messages J R m =
     (if sm_role m = lit ''user'' then
        (let content = session_message_text J m in
         if \<not> message_is_slash_skill (sm_metadata m) \<and> \<not> message_is_compact_summary (sm_metadata m) \<and> trim content \<noteq> []
         then [plain_message (lit ''user'') content (sm_metadata m)] else [])
      else if sm_role m = lit ''assistant'' \<or> sm_role m = lit ''tool'' then
        List.map_filter (restored_message J R m) (session_message_to_agent_messages J m)
      else [])"

text \<open>\<open>enabled\<close> is the skill runtime: whether a skill is registered and enabled.\<close>

definition restore_context ::
    "json_codec \<Rightarrow> regex_engine \<Rightarrow> (rstr \<Rightarrow> bool) option \<Rightarrow> rstr \<Rightarrow> nat option \<Rightarrow> session_storage \<Rightarrow> session_storage \<times> agent_context" where
  "restore_context J R enabled sid max_messages st =
     (case load_session sid st of
        (st, Inr (Some s)) \<Rightarrow>
          (let cx = context_new sid;
               cx = (case cs_actor s of Some a \<Rightarrow> set_actor_identity a cx | None \<Rightarrow> cx);
               ms = select_messages_after_compact_boundary (cs_messages s) max_messages;
               skills = filter (\<lambda>k. case enabled of Some f \<Rightarrow> f (sk_skill_name k) | None \<Rightarrow> True)
                 (filter (\<lambda>k. trim (sk_prompt k) \<noteq> []) (invoked_skills_from_metadata (cs_metadata s)));
               cx = (if has_compact_skill_snapshot ms then cx else fold (\<lambda>k. add_user_message (sk_prompt k)) skills cx)
           in (st, cx\<lparr>cx_messages := cx_messages cx @ concat (map (restored_messages J R) ms)\<rparr>))
      | (st, _) \<Rightarrow> (st, context_new sid))"

section \<open>The stored turn of an answer\<close>

record tool_call_made =
  tc_name :: rstr
  tc_arguments :: json
  tc_result :: json
  tc_tool_call_id :: "rstr option"

record agent_response =
  rs_content :: rstr
  rs_tool_calls_made :: "tool_call_made list"
  rs_iterations :: nat
  rs_success :: bool
  rs_error :: "rstr option"

definition matches_skill_runtime_tool_name :: "rstr \<Rightarrow> bool" where
  "matches_skill_runtime_tool_name name \<longleftrightarrow>
     trim name \<in> set (map lit [''skill_tool'', ''load_skill'', ''discover_skills'', ''hone/skill_tool'', ''hone/load_skill'',
       ''hone/discover_skills'', ''Tool: hone/skill_tool'', ''Tool: hone/load_skill'', ''Tool: hone/discover_skills''])"

definition should_persist_tool_result :: "tool_call_made \<Rightarrow> bool" where
  "should_persist_tool_result call \<longleftrightarrow>
     (if matches_skill_runtime_tool_name (tc_name call) then False
      else if tc_name call = lit ''web_search'' then
        (if get_str (tc_result call) (lit ''status'') = Some (lit ''unavailable'') then False
         else if json_get (tc_result call) (lit ''error'') \<noteq> None then False
         else True)
      else True)"

definition merge_message_metadata :: "metadata option \<Rightarrow> metadata \<Rightarrow> metadata option" where
  "merge_message_metadata base extra = Some (unwrap_or Map.empty base ++ extra)"

definition persisted_call :: "json_codec \<Rightarrow> tool_call_made \<Rightarrow> json" where
  "persisted_call J call =
     JObj [(lit ''id'', JStr (unwrap_or [] (tc_tool_call_id call))), (lit ''type'', JStr (lit ''function'')),
           (lit ''function'', JObj [(lit ''name'', JStr (tc_name call)),
              (lit ''arguments'', JStr (jc_print J (tc_arguments call)))])]"

definition persistable_turn_from_response ::
    "json_codec \<Rightarrow> agent_response \<Rightarrow> metadata option \<Rightarrow> normalized_message option" where
  "persistable_turn_from_response J r md =
     (let calls = map (persisted_call J) (filter should_persist_tool_result (rs_tool_calls_made r));
          call_md = build_assistant_message_metadata calls;
          md = (if calls = [] then md else merge_message_metadata md call_md)
      in if trim (rs_content r) = [] then None
         else Some \<lparr>nm_role = lit ''assistant'',
           nm_content = [(bare_part (lit ''final''))\<lparr>pt_text := Some (trim (rs_content r))\<rparr>],
           nm_status = Some (lit ''completed''), nm_metadata = md\<rparr>)"

section \<open>Turns come back\<close>

text \<open>What one message adds to the turn in progress.\<close>

definition parts_of :: "json_codec \<Rightarrow> agent_message \<Rightarrow> conversation_part list" where
  "parts_of J m =
     (if am_role m = lit ''tool'' then option_list (tool_result_part J m)
      else option_list (assistant_text_part m) @ assistant_tool_call_parts J m)"

definition turn_parts :: "json_codec \<Rightarrow> agent_message list \<Rightarrow> conversation_part list" where
  "turn_parts J ms = concat (map (parts_of J) ms)"

lemma turn_parts_append [simp]: "turn_parts J (xs @ ys) = turn_parts J xs @ turn_parts J ys"
  by (simp add: turn_parts_def)

lemma turn_parts_simps [simp]: "turn_parts J [] = []" "turn_parts J [m] = parts_of J m"
  by (simp_all add: turn_parts_def)












lemma roles_distinct [simp]: "lit ''assistant'' \<noteq> lit ''tool''" "lit ''user'' \<noteq> lit ''tool''" "lit ''user'' \<noteq> lit ''assistant''"
  by simp_all













definition null_codec :: json_codec where
  "null_codec = \<lparr>jc_parse = (\<lambda>s. if s = [110] then Some JNull else None), jc_print = (\<lambda>v. [110])\<rparr>"


section \<open>An answer after tools\<close>

lemma map_enumerate_same: "(\<And>k c. c \<in> set cs \<Longrightarrow> f (k, c) = c) \<Longrightarrow> map f (enumerate n cs) = cs"
  by (induction cs arbitrary: n) auto

lemma finalize_text_then_calls:
  assumes "pt_type p = lit ''text''" "\<forall>c \<in> set calls. pt_type c = lit ''tool_call''" "calls \<noteq> []"
  shows "finalize_assistant_turn (p # calls) = p\<lparr>pt_type := lit ''progress''\<rparr> # calls"
proof -
  have "rposition is_tool_part (p # calls) \<noteq> None"
    using assms by (cases calls) (auto simp: rposition_None is_tool_part_def)
  then obtain t where t: "rposition is_tool_part (p # calls) = Some t" by blast
  show ?thesis
    unfolding finalize_assistant_turn_def Let_def t enumerate_simps list.map prod.case
    using assms(1,2) by (simp add: map_enumerate_same)
qed

text \<open>What is read back of an answer with tools: its text, with the calls that were stored.\<close>

lemma stored_answer_restored:
  fixes R :: regex_engine
  assumes "trim (rs_content r) \<noteq> []" "\<exists>call \<in> set (rs_tool_calls_made r). should_persist_tool_result call"
  obtains turn turn_md calls where "persistable_turn_from_response J r md = Some turn"
    "calls = map (persisted_call J) (filter should_persist_tool_result (rs_tool_calls_made r))" "calls \<noteq> []"
    "nm_content turn = [(bare_part (lit ''final''))\<lparr>pt_text := Some (trim (rs_content r))\<rparr>]" "nm_metadata turn = Some turn_md"
    "restored_messages J R (session_message_from_normalized turn now) =
       [(plain_message (lit ''assistant'') (sanitize_assistant_context_content R (trim (rs_content r))) (Some turn_md))\<lparr>am_tool_calls := Some calls\<rparr>]"
proof -
  let ?c = "trim (rs_content r)"
  define kept where "kept = filter should_persist_tool_result (rs_tool_calls_made r)"
  define calls where "calls = map (persisted_call J) kept"
  have some: "calls \<noteq> []" using assms(2) by (auto simp: calls_def kept_def filter_empty_conv)
  define turn_md where "turn_md = unwrap_or Map.empty md ++ [ASSISTANT_TOOL_CALLS \<mapsto> JArr calls]"
  define turn where "turn = \<lparr>nm_role = lit ''assistant'', nm_content = [(bare_part (lit ''final''))\<lparr>pt_text := Some ?c\<rparr>],
     nm_status = Some (lit ''completed''), nm_metadata = Some turn_md\<rparr>"
  have turn: "persistable_turn_from_response J r md = Some turn"
    using assms(1) some
    by (simp add: persistable_turn_from_response_def turn_def turn_md_def merge_message_metadata_def
        build_assistant_message_metadata_def Let_def calls_def kept_def)
  have from_md: "assistant_tool_calls_from_metadata (Some turn_md) = Some calls"
    using some by (simp add: assistant_tool_calls_from_metadata_def turn_md_def opt_filter_def)
  have agent: "session_message_to_agent_messages J (session_message_from_normalized turn now) =
      [plain_message (lit ''assistant'') ?c (Some turn_md)]"
    using assms(1)
    by (simp add: session_message_to_agent_messages_def session_message_from_normalized_def session_message_to_normalized_def
        turn_def denormalize_normalized_message_def denormalize_assistant_message_def push_part_def bare_part_def push_text_part_def
        dn_start_def dn_flush_def effective_part_metadata_def plain_message_def Let_def)
  have restored: "restored_messages J R (session_message_from_normalized turn now) =
      [(plain_message (lit ''assistant'') (sanitize_assistant_context_content R ?c) (Some turn_md))\<lparr>am_tool_calls := Some calls\<rparr>]"
    using assms(1) agent from_md some
    by (simp add: restored_messages_def List.map_filter_simps restored_message_def plain_message_def
        session_message_from_normalized_def turn_def Let_def)
  show thesis by (rule that [OF turn _ some _ _ restored]) (simp_all add: calls_def kept_def turn_def)
qed

text \<open>An answer that used a tool is not recognised as an answer later. It is stored as the final part of its turn, with
  the calls in the metadata; the context of the next run puts the calls behind the text, and in the history made of it
  the text is a step of progress and no part is final.\<close>

theorem answer_after_tools_not_final:
  fixes R :: regex_engine
  assumes "trim (rs_content r) \<noteq> []" "\<exists>call \<in> set (rs_tool_calls_made r). should_persist_tool_result call"
    and "sanitize_assistant_context_content R (trim (rs_content r)) = trim (rs_content r)"
  shows "\<exists>turn n calls. persistable_turn_from_response J r md = Some turn \<and> map pt_type (nm_content turn) = [lit ''final''] \<and>
     normalize_agent_messages J (restored_messages J R (session_message_from_normalized turn now)) = [n] \<and>
     nm_content n = (bare_part (lit ''progress''))\<lparr>pt_text := Some (trim (rs_content r)), pt_metadata := nm_metadata turn\<rparr> # calls \<and>
     length calls = length (filter should_persist_tool_result (rs_tool_calls_made r)) \<and> (\<forall>c \<in> set calls. pt_type c = lit ''tool_call'')"
proof -
  let ?c = "trim (rs_content r)"
  obtain turn turn_md calls where turn: "persistable_turn_from_response J r md = Some turn"
    and calls: "calls = map (persisted_call J) (filter should_persist_tool_result (rs_tool_calls_made r))" and some: "calls \<noteq> []"
    and content: "nm_content turn = [(bare_part (lit ''final''))\<lparr>pt_text := Some ?c\<rparr>]" and md: "nm_metadata turn = Some turn_md"
    and again: "restored_messages J R (session_message_from_normalized turn now) =
       [(plain_message (lit ''assistant'') (sanitize_assistant_context_content R ?c) (Some turn_md))\<lparr>am_tool_calls := Some calls\<rparr>]"
    by (rule stored_answer_restored [OF assms(1,2), where J = J and R = R and md = md and now = now])
  define m where "m = (plain_message (lit ''assistant'') ?c (Some turn_md))\<lparr>am_tool_calls := Some calls\<rparr>"
  have restored: "restored_messages J R (session_message_from_normalized turn now) = [m]" using again assms(3) by (simp add: m_def)
  let ?p = "(bare_part (lit ''text''))\<lparr>pt_text := Some ?c, pt_metadata := Some turn_md\<rparr>"
  let ?calls = "map (tool_call_part J) calls"
  have parts: "option_list (assistant_text_part m) @ assistant_tool_call_parts J m = ?p # ?calls"
    using assms(1)
    by (simp add: m_def plain_message_def assistant_text_part_def some_text_def opt_filter_def option_list_def assistant_tool_call_parts_def)
  have types: "\<forall>c \<in> set ?calls. pt_type c = lit ''tool_call''" by (auto simp: tool_call_part_def)
  have "finalize_assistant_turn (?p # ?calls) = ?p\<lparr>pt_type := lit ''progress''\<rparr> # ?calls"
    by (rule finalize_text_then_calls) (use some types in \<open>simp_all add: bare_part_def\<close>)
  then have normal: "normalize_agent_messages J [m] = [\<lparr>nm_role = lit ''assistant'', nm_content = ?p\<lparr>pt_type := lit ''progress''\<rparr> # ?calls,
      nm_status = Some (lit ''completed''), nm_metadata = None\<rparr>]" (is "_ = [?n]")
    using parts by (simp add: normalize_agent_messages_def normalize_step_def flush_assistant_def)
      (simp add: m_def plain_message_def)
  show ?thesis
    by (rule exI [of _ turn], rule exI [of _ ?n], rule exI [of _ ?calls])
      (use turn restored normal types content md calls in \<open>simp add: bare_part_def\<close>)
qed

definition demo_answer_with_tool :: agent_response where
  "demo_answer_with_tool = \<lparr>rs_content = [97], rs_tool_calls_made =
     [\<lparr>tc_name = [113], tc_arguments = JNull, tc_result = JNull, tc_tool_call_id = None\<rparr>],
     rs_iterations = 1, rs_success = True, rs_error = None\<rparr>"

text \<open>With an engine that matches nothing, a text of one plain letter stays as it is.\<close>

lemma no_regex_simps [simp]: "replace_all no_regex p f s = s" "\<not> is_match no_regex p s"
  by (simp_all add: replace_all_def is_match_def no_regex_def)

lemma not_tool_call_letter: "\<not> is_tool_call_content [97]"
  by (simp add: is_tool_call_content_def contains_any_def tool_call_markers_def lit_def)

lemma sanitize_demo: "so_content (sanitize_user_visible_output no_regex [97]) = [97]"
proof -
  have t: "trim [97] = [97]" "trim_start [97] = [97]" by (simp_all add: trim_def trim_start_def is_whitespace_def)
  have l: "str_lines [97] = [[97]]" by (simp add: str_lines_def)
  have p: "strip_internal_workflow_prelude [97] = None"
    by (simp add: strip_internal_workflow_prelude_def t)
  show ?thesis
    by (simp add: sanitize_user_visible_output_def t strip_internal_protocol_blocks_def l is_internal_line_def not_tool_call_letter p
        redact_user_visible_local_paths_def rewrite_user_visible_internal_copy_def Let_def)
qed

lemma sanitize_context_demo: "sanitize_assistant_context_content no_regex [97] = [97]"
proof -
  have "find_next_local_image_reference [97] 0 = None"
    by (subst find_next_local_image_reference.simps) (simp add: FILE_URI_def lit_def str_find_def)
  then have "split_response_content_segments [97] = [TextSegment [97]]"
    by (simp add: split_response_content_segments_def split_from.simps)
  then have "replace_local_image_markers [97] LOCAL_IMAGE_CONTEXT_PLACEHOLDER = [97]"
    by (simp add: replace_local_image_markers_def any_local_image)
  then show ?thesis by (simp add: sanitize_assistant_context_content_def sanitize_demo)
qed

theorem answer_after_tools_not_final_witness:
  "rs_content demo_answer_with_tool = [97] \<and>
   (\<exists>turn n calls. persistable_turn_from_response null_codec demo_answer_with_tool None = Some turn \<and>
     map pt_type (nm_content turn) = [lit ''final''] \<and>
     normalize_agent_messages null_codec (restored_messages null_codec no_regex (session_message_from_normalized turn [])) = [n] \<and>
     nm_content n = (bare_part (lit ''progress''))\<lparr>pt_text := Some (trim (rs_content demo_answer_with_tool)), pt_metadata := nm_metadata turn\<rparr> # calls)"
proof -
  have t: "trim [97] = [97]" "trim [113] = [113]" by (simp_all add: trim_def is_whitespace_def)
  have content: "rs_content demo_answer_with_tool = [97]" by (simp add: demo_answer_with_tool_def)
  have persist: "\<exists>call \<in> set (rs_tool_calls_made demo_answer_with_tool). should_persist_tool_result call"
    by (simp add: demo_answer_with_tool_def should_persist_tool_result_def matches_skill_runtime_tool_name_def t lit_def)
  have "trim (rs_content demo_answer_with_tool) \<noteq> []" by (simp add: content t)
  from answer_after_tools_not_final [OF this persist, of no_regex null_codec None "[]"] content show ?thesis
    using sanitize_context_demo t(1) by auto
qed

end
