(* ===== verification/Compaction.thy ===== *)
theory Compaction
  imports Conversation Cron_History
begin

text \<open>
  \<^verbatim>\<open>hone-channels/src/session_compactor.rs\<close>: when a conversation has grown too long, a language model sums up its older
  messages, and the conversation is rewritten as a boundary, the summary, the prompts of the skills in use and the newest
  messages. The language model is a parameter that answers a prompt or fails; the audit record of the call is not modelled.
\<close>

section \<open>Limits\<close>

record group_context =
  gc_recent_context_limit :: nat
  gc_compress_threshold_messages :: nat
  gc_compress_threshold_bytes :: nat
  gc_retain_recent_after_compress :: nat

definition POST_COMPACT_MAX_SKILL_SNAPSHOT_CHARS :: nat where "POST_COMPACT_MAX_SKILL_SNAPSHOT_CHARS = 12000"
definition POST_COMPACT_MAX_SKILL_SNAPSHOTS :: nat where "POST_COMPACT_MAX_SKILL_SNAPSHOTS = 4"
definition DIRECT_COMPRESS_THRESHOLD_MESSAGES :: nat where "DIRECT_COMPRESS_THRESHOLD_MESSAGES = 20"
definition DIRECT_COMPRESS_THRESHOLD_BYTES :: nat where "DIRECT_COMPRESS_THRESHOLD_BYTES = 80000"
definition DIRECT_RETAIN_RECENT_AFTER_COMPRESS :: nat where "DIRECT_RETAIN_RECENT_AFTER_COMPRESS = 6"
definition MIN_GROUP_COMPRESS_THRESHOLD_BYTES :: nat where "MIN_GROUP_COMPRESS_THRESHOLD_BYTES = 1024"

definition compress_threshold :: "group_context \<Rightarrow> bool \<Rightarrow> nat" where
  "compress_threshold g in_group = (if in_group then max (gc_compress_threshold_messages g) 1 else DIRECT_COMPRESS_THRESHOLD_MESSAGES)"

definition compress_byte_threshold :: "group_context \<Rightarrow> bool \<Rightarrow> nat" where
  "compress_byte_threshold g in_group =
     (if in_group then max (gc_compress_threshold_bytes g) MIN_GROUP_COMPRESS_THRESHOLD_BYTES else DIRECT_COMPRESS_THRESHOLD_BYTES)"

definition retain_recent :: "group_context \<Rightarrow> bool \<Rightarrow> nat" where
  "retain_recent g in_group = (if in_group then max (gc_retain_recent_after_compress g) 1 else DIRECT_RETAIN_RECENT_AFTER_COMPRESS)"

section \<open>The request\<close>

record compaction_env =
  ce_codec :: json_codec
  ce_regex :: regex_engine
  ce_group :: group_context
  ce_llm :: "(rstr \<Rightarrow> rstr + rstr) option"

definition messages_to_summarize :: "nat \<Rightarrow> bool \<Rightarrow> session_message list \<Rightarrow> session_message list" where
  "messages_to_summarize retain force active =
     (let window = length active - retain in
      if window > 0 then take window active
      else if force then take (min (max (length active - 1) 1) (length active)) active
      else [])"

definition should_compress :: "compaction_env \<Rightarrow> bool \<Rightarrow> bool \<Rightarrow> session_message list \<Rightarrow> bool" where
  "should_compress env in_group force active \<longleftrightarrow>
     force \<or> length active > compress_threshold (ce_group env) in_group \<or>
     sum_list (map (\<lambda>m. byte_len (session_message_text (ce_codec env) m)) active) > compress_byte_threshold (ce_group env) in_group"

definition history_content :: "compaction_env \<Rightarrow> session_message \<Rightarrow> rstr" where
  "history_content env m =
     (let text = session_message_text (ce_codec env) m in
      if sm_role m = lit ''assistant'' then sanitize_assistant_context_content (ce_regex env) text
      else if sm_role m = lit ''user'' then so_content (sanitize_user_visible_output (ce_regex env) text)
      else if sm_role m = lit ''tool'' then []
      else text)"

definition history_text :: "compaction_env \<Rightarrow> session_message list \<Rightarrow> rstr" where
  "history_text env ms =
     concat (map (\<lambda>m. let content = history_content env m in
       if trim content = [] then [] else sm_role m @ lit '': '' @ content @ [10, 10]) ms)"

definition GROUP_PROMPT :: rstr where
  "GROUP_PROMPT =
    [20320, 26159, 19968, 20010, 32676, 32842, 19978, 19979, 25991, 25972, 29702, 21592, 12290, 30001, 20110,
    32676, 20250, 35805, 21382, 21490, 36807, 38271, 65292, 38656, 35201, 25226, 26356, 26089, 20869, 23481,
    21387, 32553, 25104, 31283, 23450, 12289, 31616, 27905, 12289, 36866, 21512, 21518, 32493, 32487, 32493,
    35752, 35770, 30340, 32676, 25688, 35201, 12290, 10, 10, 21482, 36755, 20986, 32431, 32, 77, 97, 114, 107,
    100, 111, 119, 110, 65292, 24182, 20005, 26684, 20351, 29992, 20197, 19979, 22235, 27573, 26631, 39064,
    65306, 10, 10, 35, 35, 32, 36827, 34892, 20013, 35758, 39064, 10, 45, 32, 21015, 20986, 32676, 37324, 24403,
    21069, 20173, 22312, 35752, 35770, 30340, 38382, 39064, 25110, 20027, 39064, 10, 10, 35, 35, 32, 24050,
    24418, 25104, 32467, 35770, 10, 45, 32, 21482, 35760, 24405, 32676, 20869, 24050, 32463, 36798, 25104, 30340,
    32467, 35770, 25110, 26126, 30830, 20849, 35782, 10, 10, 35, 35, 32, 26410, 20915, 38382, 39064, 10, 45, 32,
    21015, 20986, 20173, 24453, 22238, 31572, 12289, 24453, 30830, 35748, 12289, 24453, 34917, 20805, 30340,
    20449, 24687, 10, 10, 35, 35, 32, 32676, 32422, 23450, 32, 47, 32, 24453, 21150, 10, 45, 32, 35760, 24405,
    32676, 37324, 26126, 30830, 25552, 21040, 30340, 21518, 32493, 21160, 20316, 12289, 20998, 24037, 12289,
    32422, 23450, 10, 10, 39069, 22806, 32422, 26463, 65306, 10, 45, 32, 19981, 35201, 20889, 25104, 21592,
    30011, 20687, 12289, 38271, 26399, 20010, 20154, 20559, 22909, 25110, 24615, 26684, 21028, 26029, 10, 45, 32,
    19981, 35201, 22266, 21270, 20010, 20154, 37329, 34701, 38544, 31169, 65292, 22914, 25345, 20179, 12289,
    25104, 26412, 12289, 25104, 20132, 20215, 12289, 20132, 26131, 21333, 31561, 10, 45, 32, 21482, 20445, 30041,
    23545, 21518, 32493, 32676, 35752, 35770, 30495, 27491, 26377, 24110, 21161, 30340, 20449, 24687, 10, 45, 32,
    19981, 35201, 23506, 26244, 65292, 19981, 35201, 36755, 20986, 20854, 23427, 26631, 39064, 10]"

definition GROUP_PROMPT_HISTORY :: rstr where
  "GROUP_PROMPT_HISTORY =
    [10, 10, 20197, 19979, 26159, 24453, 21387, 32553, 30340, 32676, 21382, 21490, 65306, 10]"

definition GROUP_PROMPT_EXTRA :: rstr where
  "GROUP_PROMPT_EXTRA = [32, 45, 32, 39069, 22806, 35201, 27714, 65306]"

definition DIRECT_PROMPT :: rstr where
  "DIRECT_PROMPT =
    [20320, 26159, 19968, 20010, 37329, 34701, 20998, 26512, 21161, 25163, 30340, 35760, 24518, 25972, 29702,
    21592, 12290, 30001, 20110, 29992, 25143, 30340, 23545, 35805, 21382, 21490, 36807, 38271, 65292, 25105,
    38656, 35201, 20320, 23558, 20182, 20204, 36827, 34892, 21387, 32553, 21644, 24635, 32467, 12290, 10, 10,
    35831, 25353, 29031, 20197, 19979, 26684, 24335, 36755, 20986, 65306, 10, 10, 49, 46, 32, 42, 42, 32929,
    31080, 20851, 27880, 34920, 42, 42, 65288, 21482, 25552, 21462, 23545, 35805, 20013, 25552, 21040, 30340,
    20855, 20307, 32929, 31080, 47, 20844, 21496, 65289, 21253, 21547, 20197, 19979, 20116, 21015, 65306, 10,
    124, 32, 32929, 31080, 20195, 30721, 32, 124, 32, 20844, 21496, 21517, 32, 124, 32, 20844, 21496, 19968,
    21477, 35805, 31616, 20171, 32, 124, 32, 21161, 25163, 30340, 35266, 28857, 32, 124, 32, 29992, 25143, 30340,
    35266, 28857, 32, 124, 10, 124, 32, 45, 45, 45, 32, 124, 32, 45, 45, 45, 32, 124, 32, 45, 45, 45, 32, 124,
    32, 45, 45, 45, 32, 124, 32, 45, 45, 45, 32, 124, 10, 65288, 22914, 26524, 27809, 26377, 25552, 21462, 21040,
    32929, 31080, 65292, 36755, 20986, 19968, 20010, 31354, 34920, 21363, 21487, 65292, 20294, 24517, 39035,
    21253, 21547, 34920, 22836, 65289, 10, 10, 50, 46, 32, 42, 42, 12304, 21382, 21490, 23545, 35805, 24635,
    32467, 12305, 42, 42, 10, 22312, 34920, 19979, 38754, 65292, 29992, 49, 45, 50, 27573, 35805, 24635, 32467,
    19978, 38754, 21457, 29983, 30340, 26680, 24515, 20132, 20114, 21644, 29992, 25143, 30340, 20559, 22909,
    20064, 24815, 20449, 24687, 12290, 10, 10, 39069, 22806, 32422, 26463, 65306, 10, 45, 32, 20320, 21482,
    26159, 22312, 24635, 32467, 24050, 32463, 21457, 29983, 30340, 21382, 21490, 65292, 19981, 26159, 22312,
    22238, 31572, 20219, 20309, 23578, 26410, 35299, 20915, 30340, 38382, 39064, 10, 45, 32, 19981, 35201, 29983,
    25104, 26032, 30340, 25237, 30740, 32467, 35770, 12289, 20215, 26684, 30446, 26631, 12289, 25345, 20179,
    26126, 32454, 12289, 26102, 38388, 32447, 25110, 20107, 23454, 25968, 23383, 65292, 38500, 38750, 36825,
    20123, 20869, 23481, 22312, 21382, 21490, 37324, 24050, 32463, 26126, 30830, 20986, 29616, 10, 45, 32, 22914,
    26524, 21382, 21490, 26411, 23614, 21253, 21547, 23578, 26410, 22238, 31572, 30340, 38382, 39064, 65292,
    21482, 33021, 25226, 23427, 35760, 20026, 8220, 29992, 25143, 26368, 36817, 20851, 24515, 47, 24453, 22238,
    31572, 30340, 38382, 39064, 8221, 65292, 19981, 35201, 26367, 21161, 25163, 32487, 32493, 20316, 31572, 10,
    45, 32, 19981, 35201, 25226, 25688, 35201, 20889, 25104, 25253, 21578, 12289, 27491, 24335, 32467, 35770,
    25110, 25237, 36164, 24314, 35758, 27491, 25991, 10, 10]"

definition DIRECT_PROMPT_HISTORY :: rstr where
  "DIRECT_PROMPT_HISTORY =
    [10, 35831, 20445, 25345, 32431, 20928, 30340, 32, 77, 97, 114, 107, 100, 111, 119, 110, 32, 36755, 20986,
    65292, 19981, 35201, 26377, 22810, 20313, 30340, 23506, 21927, 12290, 10, 10, 20197, 19979, 26159, 23545,
    35805, 21382, 21490, 65306, 10]"

definition DIRECT_PROMPT_EXTRA :: rstr where
  "DIRECT_PROMPT_EXTRA = [39069, 22806, 35201, 27714, 65306]"

definition extra_line :: "rstr \<Rightarrow> rstr option \<Rightarrow> rstr" where
  "extra_line label instructions = (case some_text instructions of None \<Rightarrow> [] | Some v \<Rightarrow> label @ v @ [10])"

definition compaction_prompt :: "bool \<Rightarrow> rstr option \<Rightarrow> rstr \<Rightarrow> rstr" where
  "compaction_prompt in_group instructions history =
     (if in_group then GROUP_PROMPT @ extra_line GROUP_PROMPT_EXTRA instructions @ GROUP_PROMPT_HISTORY @ history
      else DIRECT_PROMPT @ extra_line DIRECT_PROMPT_EXTRA instructions @ DIRECT_PROMPT_HISTORY @ history)"

section \<open>The rewriting\<close>

text \<open>\<open>clock k\<close> is the \<open>k\<close>-th reading of the clock.\<close>

definition skill_snapshots :: "compaction_env \<Rightarrow> (nat \<Rightarrow> rstr) \<Rightarrow> chat_session \<Rightarrow> session_message list" where
  "skill_snapshots env clock s =
     concat (map (\<lambda>(k, skill).
       let snapshot = truncate_chars (sk_prompt skill) POST_COMPACT_MAX_SKILL_SNAPSHOT_CHARS in
       if trim snapshot = [] then []
       else [session_message_from_text (ce_codec env) (lit ''user'') snapshot (clock (k + 2))
               (Some (build_compact_skill_snapshot_metadata (sk_skill_name skill)))])
       (enumerate 0 (take POST_COMPACT_MAX_SKILL_SNAPSHOTS (invoked_skills_from_metadata (cs_metadata s)))))"

definition compacted_messages ::
    "compaction_env \<Rightarrow> (nat \<Rightarrow> rstr) \<Rightarrow> rstr \<Rightarrow> nat \<Rightarrow> chat_session \<Rightarrow> session_message list \<Rightarrow> rstr \<Rightarrow> session_message list" where
  "compacted_messages env clock trigger retain s active summary =
     [session_message_from_text (ce_codec env) (lit ''system'') (lit ''Conversation compacted'') (clock 0)
        (Some (build_compact_boundary_metadata trigger (length active - retain) (length active))),
      session_message_from_text (ce_codec env) (lit ''system'') ([12304, 67, 111, 109, 112, 97, 99, 116, 32, 83, 117, 109, 109, 97, 114, 121, 12305, 10] @ summary) (clock 1)
        (Some (build_compact_summary_metadata trigger))]
     @ skill_snapshots env clock s @ last_n retain active"

record compact_outcome =
  co_compacted :: bool
  co_summary :: "rstr option"

definition not_compacted :: compact_outcome where
  "not_compacted = \<lparr>co_compacted = False, co_summary = None\<rparr>"

definition session_is_group :: "chat_session \<Rightarrow> bool" where
  "session_is_group s \<longleftrightarrow> (case cs_identity s of Some i \<Rightarrow> is_group i | None \<Rightarrow> False)"

text \<open>The summary that is stored, if the model gives one.\<close>

definition summary_of :: "compaction_env \<Rightarrow> rstr option \<Rightarrow> bool \<Rightarrow> session_message list \<Rightarrow> rstr option" where
  "summary_of env instructions in_group ms =
     (case ce_llm env of
        None \<Rightarrow> None
      | Some chat \<Rightarrow>
          (case chat (compaction_prompt in_group instructions (history_text env ms)) of
             Inl e \<Rightarrow> None
           | Inr content \<Rightarrow>
               (let summary = trim (so_content (sanitize_user_visible_output (ce_regex env) content)) in
                if summary = [] then None else Some summary)))"

definition compact_session ::
    "compaction_env \<Rightarrow> (nat \<Rightarrow> rstr) \<Rightarrow> rstr \<Rightarrow> rstr \<Rightarrow> bool \<Rightarrow> rstr option \<Rightarrow> session_storage \<Rightarrow> session_storage \<times> compact_outcome hone_result" where
  "compact_session env clock sid trigger force instructions st =
     (case load_session sid st of
        (st, Inl e) \<Rightarrow> (st, Inl e)
      | (st, Inr None) \<Rightarrow> (st, Inr not_compacted)
      | (st, Inr (Some s)) \<Rightarrow>
          (let active = select_messages_after_compact_boundary (cs_messages s) None;
               in_group = session_is_group s;
               retain = retain_recent (ce_group env) in_group;
               old = messages_to_summarize retain force active
           in if active = [] \<or> \<not> should_compress env in_group force active \<or> old = [] then (st, Inr not_compacted)
              else case summary_of env instructions in_group old of
                None \<Rightarrow> (st, Inr not_compacted)
              | Some summary \<Rightarrow>
                  (case replace_messages_with_summary (clock 7) sid
                     (compacted_messages env clock trigger retain s active summary)
                     (Some \<lparr>sy_content = summary, sy_updated_at = clock 6\<rparr>) st of
                     (st, Inl e) \<Rightarrow> (st, Inl e)
                   | (st, Inr _) \<Rightarrow> (st, Inr \<lparr>co_compacted = True, co_summary = Some summary\<rparr>))))"

section \<open>What a compaction keeps\<close>

definition active_messages :: "chat_session \<Rightarrow> session_message list" where
  "active_messages s = select_messages_after_compact_boundary (cs_messages s) None"

text \<open>A boundary is a system message: it is never shown itself.\<close>

definition boundaries_hidden :: "session_message list \<Rightarrow> bool" where
  "boundaries_hidden ms \<longleftrightarrow> (\<forall>m \<in> set ms. message_is_compact_boundary (sm_metadata m) \<longrightarrow> \<not> session_message_in_context (sm_role m))"

lemma from_text_fields [simp]:
  "sm_role (session_message_from_text J role content now md) = role"
  "sm_metadata (session_message_from_text J role content now md) = md"
  by (simp_all add: session_message_from_text_def)

lemma marks [simp]:
  "message_is_compact_boundary (Some (build_compact_boundary_metadata trigger a b))"
  "\<not> message_is_compact_boundary (Some (build_compact_summary_metadata trigger))"
  "\<not> message_is_compact_boundary (Some (build_compact_skill_snapshot_metadata name))"
  by (simp_all add: message_is_compact_boundary_def md_flag_def build_compact_boundary_metadata_def build_compact_summary_metadata_def
      build_compact_skill_snapshot_metadata_def COMPACT_BOUNDARY_KEY_def COMPACT_SUMMARY_KEY_def COMPACT_SKILL_SNAPSHOT_KEY_def json_as_bool_def)

lemma roles_in_context [simp]: "session_message_in_context (lit ''user'')" "\<not> session_message_in_context (lit ''system'')"
  by (simp_all add: session_message_in_context_def)

lemma snapshot_fields:
  "m \<in> set (skill_snapshots env clock s) \<Longrightarrow> sm_role m = lit ''user'' \<and> \<not> message_is_compact_boundary (sm_metadata m)"
  by (auto simp: skill_snapshots_def Let_def split: if_splits)

lemma length_concat_enumerate:
  assumes "\<And>x. length (f x) \<le> 1"
  shows "length (concat (map f (enumerate k xs))) \<le> length xs"
proof (induction xs arbitrary: k)
  case (Cons x xs)
  have "length (f (k, x)) + length (concat (map f (enumerate (Suc k) xs))) \<le> 1 + length xs"
    by (rule add_mono [OF assms Cons.IH])
  then show ?case by simp
qed simp

lemma snapshots_few: "length (skill_snapshots env clock s) \<le> POST_COMPACT_MAX_SKILL_SNAPSHOTS"
  unfolding skill_snapshots_def
  by (rule order_trans [OF length_concat_enumerate]) (simp_all add: split_beta Let_def)

lemma active_in_context: "m \<in> set (active_messages s) \<Longrightarrow> m \<in> set (cs_messages s) \<and> session_message_in_context (sm_role m)"
  by (auto simp: active_messages_def select_messages_after_compact_boundary_def select_context_messages_def dest: in_set_dropD split: option.splits)

lemma select_at_boundary:
  assumes "message_is_compact_boundary (sm_metadata b)" "\<forall>m \<in> set ms. \<not> message_is_compact_boundary (sm_metadata m)"
  shows "select_messages_after_compact_boundary (b # ms) None = filter (\<lambda>m. session_message_in_context (sm_role m)) (b # ms)"
proof -
  let ?B = "\<lambda>m. message_is_compact_boundary (sm_metadata m)"
  obtain i where i: "rposition ?B (b # ms) = Some i" using assms(1) rposition_None [of ?B "b # ms"] by auto
  have "i = 0"
  proof (cases i)
    case (Suc k)
    then show ?thesis using rposition_Some(1,2) [OF i] assms(2) by auto
  qed
  then show ?thesis using i
    by (simp add: select_messages_after_compact_boundary_def find_last_compact_boundary_index_def select_context_messages_def)
qed

lemma compacted_selection:
  fixes env clock trigger retain s summary
  assumes "boundaries_hidden (cs_messages s)"
  defines "new \<equiv> compacted_messages env clock trigger retain s (active_messages s) summary"
  shows "select_messages_after_compact_boundary new None = skill_snapshots env clock s @ last_n retain (active_messages s)"
    and "boundaries_hidden new"
proof -
  have recent: "session_message_in_context (sm_role m) \<and> \<not> message_is_compact_boundary (sm_metadata m)"
    if "m \<in> set (last_n retain (active_messages s))" for m
    using that active_in_context [of m s] assms(1) set_last_n [of retain "active_messages s"] by (auto simp: boundaries_hidden_def)
  have keep: "filter (\<lambda>m. session_message_in_context (sm_role m)) (skill_snapshots env clock s @ last_n retain (active_messages s)) =
      skill_snapshots env clock s @ last_n retain (active_messages s)"
    using recent snapshot_fields by (intro filter_True) auto
  show "select_messages_after_compact_boundary new None = skill_snapshots env clock s @ last_n retain (active_messages s)"
    unfolding new_def compacted_messages_def append_Cons append_Nil
    by (subst select_at_boundary) (use recent snapshot_fields keep in auto)
  show "boundaries_hidden new"
    using recent snapshot_fields by (auto simp: new_def compacted_messages_def boundaries_hidden_def)
qed

lemma summarized_prefix:
  "\<exists>k. messages_to_summarize retain force active = take k active \<and>
     (messages_to_summarize retain force active \<noteq> [] \<longrightarrow> length active \<le> k + retain)"
proof -
  consider "length active > retain" | "length active \<le> retain" by linarith
  then show ?thesis
  proof cases
    case 1
    then show ?thesis by (intro exI [of _ "length active - retain"]) (simp add: messages_to_summarize_def)
  next
    case 2
    show ?thesis
    proof (cases force)
      case True
      then show ?thesis using 2
        by (intro exI [of _ "min (max (length active - 1) 1) (length active)"]) (simp add: messages_to_summarize_def)
    next
      case False
      then show ?thesis using 2 by (intro exI [of _ 0]) (simp add: messages_to_summarize_def)
    qed
  qed
qed

lemma summary_not_blank: "summary_of env instructions in_group ms = Some y \<Longrightarrow> trim y \<noteq> []"
  by (auto simp: summary_of_def Let_def split: option.splits sum.splits if_splits)

lemma compact_loaded:
  assumes "load_session sid st = (st1, Inr (Some s))"
  shows "compact_session env clock sid trigger force instructions st =
    (let retain = retain_recent (ce_group env) (session_is_group s);
         old = messages_to_summarize retain force (active_messages s)
     in if active_messages s = [] \<or> \<not> should_compress env (session_is_group s) force (active_messages s) \<or> old = []
        then (st1, Inr not_compacted)
        else case summary_of env instructions (session_is_group s) old of
          None \<Rightarrow> (st1, Inr not_compacted)
        | Some summary \<Rightarrow>
            (case replace_messages_with_summary (clock 7) sid
               (compacted_messages env clock trigger retain s (active_messages s) summary)
               (Some \<lparr>sy_content = summary, sy_updated_at = clock 6\<rparr>) st1 of
               (st, Inl e) \<Rightarrow> (st, Inl e)
             | (st, Inr _) \<Rightarrow> (st, Inr \<lparr>co_compacted = True, co_summary = Some summary\<rparr>)))"
  unfolding compact_session_def assms prod.case sum.case option.case active_messages_def Let_def by (rule refl)

text \<open>C14: a compaction loses nothing that matters to the next answer. When it reports that it compacted, the conversation
  shows the model the prompts of at most four skills and then exactly the newest messages it showed before, in order; every
  older message was in the history that was summed up, and the summary, which is not blank, is stored. When it does not
  report that, because nothing had to be done or anything failed, the conversation is as it was.\<close>

theorem compaction_keeps_recent:
  assumes "sound st" "validate_storage_component sid = Some n" "filed (ss_files st) n = Some s" "boundaries_hidden (cs_messages s)"
    and "compact_session env clock sid trigger force instructions st = (st', res)"
  shows "\<exists>s'. filed (ss_files st') n = Some s' \<and> boundaries_hidden (cs_messages s') \<and>
    (let retain = retain_recent (ce_group env) (session_is_group s);
         old = messages_to_summarize retain force (active_messages s)
     in if (\<exists>outcome. res = Inr outcome \<and> co_compacted outcome)
        then (\<exists>y k. res = Inr \<lparr>co_compacted = True, co_summary = Some y\<rparr> \<and> trim y \<noteq> [] \<and>
          map_option sy_content (cs_summary s') = Some y \<and> summary_of env instructions (session_is_group s) old = Some y \<and>
          active_messages s' = skill_snapshots env clock s @ last_n retain (active_messages s) \<and>
          length (skill_snapshots env clock s) \<le> 4 \<and>
          old = take k (active_messages s) \<and> length (active_messages s) \<le> k + retain)
        else s' = s)"
proof -
  let ?retain = "retain_recent (ce_group env) (session_is_group s)"
  let ?old = "messages_to_summarize ?retain force (active_messages s)"
  obtain st1 where load: "load_session sid st = (st1, Inr (Some s))" "sound st1" "ss_files st1 = ss_files st"
    using load_stored [OF assms(1-3)] by blast
  have filed: "filed (ss_files st1) n = Some s" using assms(3) load(3) by simp
  define idle where "idle \<longleftrightarrow> active_messages s = [] \<or> \<not> should_compress env (session_is_group s) force (active_messages s) \<or> ?old = []"
  note run = assms(5) [unfolded compact_loaded [OF load(1)] Let_def, folded idle_def]
  show ?thesis
  proof (cases "idle \<or> summary_of env instructions (session_is_group s) ?old = None")
    case True
    then have "st' = st1 \<and> res = Inr not_compacted" using run by (auto split: if_splits)
    then show ?thesis using filed assms(4) by (simp add: not_compacted_def)
  next
    case False
    then obtain y where y: "summary_of env instructions (session_is_group s) ?old = Some y" by blast
    define new where "new = compacted_messages env clock trigger ?retain s (active_messages s) y"
    define summary where "summary = \<lparr>sy_content = y, sy_updated_at = clock 6\<rparr>"
    obtain st2 r where w: "replace_messages_with_summary (clock 7) sid new (Some summary) st1 = (st2, r)" by fastforce
    let ?change = "\<lambda>s. Some (s\<lparr>cs_messages := new, cs_summary := Some summary\<rparr>)"
    have stored: "case d_write_error (ss_files st1) of
        None \<Rightarrow> r = Inr True \<and> filed (ss_files st2) n =
          Some (s\<lparr>cs_messages := new, cs_summary := Some summary, cs_updated_at := clock 7, cs_version := default_session_version\<rparr>)
      | Some e \<Rightarrow> r = Inl (Io e) \<and> filed (ss_files st2) n = Some s"
      using rewrite_stored [OF load(2) assms(2) filed, of ?change "clock 7"] w
      by (auto simp: replace_messages_with_summary_def split: option.splits)
    have run: "st' = st2 \<and> res = (case r of Inl e \<Rightarrow> Inl e | Inr _ \<Rightarrow> Inr \<lparr>co_compacted = True, co_summary = Some y\<rparr>)"
      using run False y w by (cases r) (simp_all add: new_def summary_def)
    show ?thesis
    proof (cases "d_write_error (ss_files st1)")
      case (Some e)
      then show ?thesis using stored run assms(4) by simp
    next
      case None
      let ?s' = "s\<lparr>cs_messages := new, cs_summary := Some summary, cs_updated_at := clock 7, cs_version := default_session_version\<rparr>"
      have res: "res = Inr \<lparr>co_compacted = True, co_summary = Some y\<rparr>" and s': "filed (ss_files st') n = Some ?s'"
        using stored run None by simp_all
      have selected: "active_messages ?s' = skill_snapshots env clock s @ last_n ?retain (active_messages s)" "boundaries_hidden new"
        using compacted_selection [OF assms(4)] by (simp_all add: active_messages_def new_def)
      obtain k where k: "?old = take k (active_messages s)" "length (active_messages s) \<le> k + ?retain"
        using summarized_prefix [of ?retain force "active_messages s"] False by (auto simp: idle_def)
      have few: "length (skill_snapshots env clock s) \<le> 4"
        using snapshots_few [of env clock s] by (simp add: POST_COMPACT_MAX_SKILL_SNAPSHOTS_def)
      have "\<exists>outcome. res = Inr outcome \<and> co_compacted outcome" using res by simp
      then show ?thesis
        unfolding Let_def using res s' selected y k few summary_not_blank [OF y]
        by (intro exI [of _ ?s']) (auto simp: summary_def intro: exI [of _ k])
    qed
  qed
qed

text \<open>The second compaction forgets what the first one summed up. Two conversations that show the model the same
  messages are compacted to the same messages and the same summary, whatever their earlier summaries were and
  whatever lies before the last boundary.\<close>

theorem earlier_summary_forgotten:
  assumes "sound st" "validate_storage_component sid = Some n" "filed (ss_files st) n = Some s"
    and "sound st2" "filed (ss_files st2) n = Some (s\<lparr>cs_summary := other, cs_messages := ms\<rparr>)"
    and "select_messages_after_compact_boundary ms None = select_messages_after_compact_boundary (cs_messages s) None"
    and "compact_session env clock sid trigger force instructions st = (st', Inr outcome)" "co_compacted outcome"
    and "d_write_error (ss_files st2) = None"
  shows "\<exists>st2' s' s2'. compact_session env clock sid trigger force instructions st2 = (st2', Inr outcome) \<and>
     filed (ss_files st') n = Some s' \<and> filed (ss_files st2') n = Some s2' \<and>
     cs_messages s2' = cs_messages s' \<and> cs_summary s2' = cs_summary s'"
proof -
  let ?t = "s\<lparr>cs_summary := other, cs_messages := ms\<rparr>"
  let ?retain = "retain_recent (ce_group env) (session_is_group s)"
  let ?old = "messages_to_summarize ?retain force (active_messages s)"
  have active: "active_messages ?t = active_messages s" using assms(6) by (simp add: active_messages_def)
  have same_group: "session_is_group ?t = session_is_group s" by (simp add: session_is_group_def)
  obtain st1 where load: "load_session sid st = (st1, Inr (Some s))" "sound st1" "ss_files st1 = ss_files st"
    using load_stored [OF assms(1-3)] by blast
  obtain st3 where load2: "load_session sid st2 = (st3, Inr (Some ?t))" "sound st3" "ss_files st3 = ss_files st2"
    using load_stored [OF assms(4,2,5)] by blast
  define idle where "idle \<longleftrightarrow> active_messages s = [] \<or> \<not> should_compress env (session_is_group s) force (active_messages s) \<or> ?old = []"
  note run1 = assms(7) [unfolded compact_loaded [OF load(1)] Let_def, folded idle_def]
  have go: "\<not> idle" using run1 assms(8) by (auto simp: not_compacted_def)
  then obtain y where y: "summary_of env instructions (session_is_group s) ?old = Some y"
    using run1 assms(8) by (cases "summary_of env instructions (session_is_group s) ?old") (auto simp: not_compacted_def)
  define new where "new = compacted_messages env clock trigger ?retain s (active_messages s) y"
  define summary where "summary = \<lparr>sy_content = y, sy_updated_at = clock 6\<rparr>"
  have same: "compacted_messages env clock trigger ?retain ?t (active_messages s) y = new"
    by (simp add: new_def compacted_messages_def skill_snapshots_def)
  let ?change = "\<lambda>s. Some (s\<lparr>cs_messages := new, cs_summary := Some summary\<rparr>)"
  obtain st1' r where w: "replace_messages_with_summary (clock 7) sid new (Some summary) st1 = (st1', r)" by fastforce
  have run: "st' = st1'" "outcome = \<lparr>co_compacted = True, co_summary = Some y\<rparr>" "\<exists>b. r = Inr b"
    using run1 go y w by (cases r; simp add: new_def summary_def)+
  have filed1: "filed (ss_files st1) n = Some s" and filed3: "filed (ss_files st3) n = Some ?t"
    using assms(3,5) load(3) load2(3) by simp_all
  have stored: "\<exists>s'. filed (ss_files st1') n = Some s' \<and> cs_messages s' = new \<and> cs_summary s' = Some summary"
    using rewrite_stored [OF load(2) assms(2) filed1, of ?change "clock 7"] w run(3)
    by (auto simp: replace_messages_with_summary_def split: option.splits)
  obtain st2' where w2: "replace_messages_with_summary (clock 7) sid new (Some summary) st3 = (st2', Inr True)"
    "\<exists>s'. filed (ss_files st2') n = Some s' \<and> cs_messages s' = new \<and> cs_summary s' = Some summary"
    using rewrite_stored [OF load2(2) assms(2) filed3, of ?change "clock 7"] assms(9) load2(3)
    by (auto simp: replace_messages_with_summary_def)
  have "compact_session env clock sid trigger force instructions st2 = (st2', Inr outcome)"
    unfolding compact_loaded [OF load2(1)] Let_def active same_group
    using go y w2(1) run(2) by (simp add: idle_def summary_def same)
  then show ?thesis using stored w2(2) run(1) by auto
qed

definition talk :: chat_session where
  "talk = demo_session\<lparr>cs_messages := [demo_message (lit ''user'') None, demo_message (lit ''user'') (Some Map.empty)]\<rparr>"

definition talk_files :: "session_summary option \<Rightarrow> chat_session disk" where
  "talk_files y = disk_put demo_files (lit ''c1'' @ lit ''.json'') (talk\<lparr>cs_summary := y\<rparr>)"

definition talk_env :: compaction_env where
  "talk_env = \<lparr>ce_codec = demo_codec, ce_regex = no_regex,
     ce_group = \<lparr>gc_recent_context_limit = 1, gc_compress_threshold_messages = 1, gc_compress_threshold_bytes = 1, gc_retain_recent_after_compress = 1\<rparr>,
     ce_llm = Some (\<lambda>prompt. Inr [97])\<rparr>"

lemma talk_facts:
  "sound (plain (talk_files y))" "filed (ss_files (plain (talk_files y))) (lit ''c1'') = Some (talk\<lparr>cs_summary := y\<rparr>)"
  "boundaries_hidden (cs_messages talk)" "d_write_error (ss_files (plain (talk_files y))) = None"
  "active_messages (talk\<lparr>cs_summary := y\<rparr>) = cs_messages talk"
proof -
  show "sound (plain (talk_files y))" by (simp add: sound_def plain_def)
  show "filed (ss_files (plain (talk_files y))) (lit ''c1'') = Some (talk\<lparr>cs_summary := y\<rparr>)" by (simp add: talk_files_def filed_put)
  have marks: "\<forall>m \<in> set (cs_messages talk). \<not> message_is_compact_boundary (sm_metadata m) \<and> sm_role m = lit ''user''"
    by (simp add: talk_def demo_message_def message_is_compact_boundary_def md_flag_def)
  then show "boundaries_hidden (cs_messages talk)" by (auto simp: boundaries_hidden_def)
  show "d_write_error (ss_files (plain (talk_files y))) = None" by (simp add: talk_files_def demo_files_def)
  have "find_last_compact_boundary_index (cs_messages talk) = None"
    using marks by (simp add: find_last_compact_boundary_index_def rposition_None)
  then show "active_messages (talk\<lparr>cs_summary := y\<rparr>) = cs_messages talk"
    using marks by (simp add: active_messages_def select_messages_after_compact_boundary_def select_context_messages_def)
qed

lemma talk_compacted:
  "\<exists>st'. compact_session talk_env clock (lit ''c1'') (lit ''manual'') True None (plain (talk_files y)) =
     (st', Inr \<lparr>co_compacted = True, co_summary = Some [97]\<rparr>)"
proof -
  have load: "load_session (lit ''c1'') (plain (talk_files y)) = (plain (talk_files y), Inr (Some (talk\<lparr>cs_summary := y\<rparr>)))"
    using json_load_filed [OF demo_valid] talk_facts(2) [of y] by simp
  have direct: "session_is_group (talk\<lparr>cs_summary := y\<rparr>) = False"
    by (simp add: session_is_group_def talk_def demo_session_def new_session_def)
  have t: "trim [97] = [97]" by (simp add: trim_def is_whitespace_def)
  have summary: "summary_of talk_env None False ms = Some [97]" for ms
    by (simp add: summary_of_def talk_env_def sanitize_demo t)
  have old: "messages_to_summarize (retain_recent (ce_group talk_env) False) True (cs_messages talk) \<noteq> []"
    by (simp add: messages_to_summarize_def retain_recent_def DIRECT_RETAIN_RECENT_AFTER_COMPRESS_def talk_def)
  have "\<exists>st1 b. replace_messages_with_summary now (lit ''c1'') new summary (plain (talk_files y)) = (st1, Inr b)" for now new summary
    using rewrite_stored [OF talk_facts(1) [of y] demo_valid talk_facts(2) [of y], of "\<lambda>s. Some (s\<lparr>cs_messages := new, cs_summary := summary\<rparr>)" now]
      talk_facts(4) [of y]
    by (auto simp: replace_messages_with_summary_def)
  then obtain st1 b where w: "replace_messages_with_summary (clock 7) (lit ''c1'')
      (compacted_messages talk_env clock (lit ''manual'') (retain_recent (ce_group talk_env) False) (talk\<lparr>cs_summary := y\<rparr>) (cs_messages talk) [97])
      (Some \<lparr>sy_content = [97], sy_updated_at = clock 6\<rparr>) (plain (talk_files y)) = (st1, Inr b)" by blast
  have "cs_messages talk \<noteq> []" by (simp add: talk_def)
  then show ?thesis
    unfolding compact_loaded [OF load] Let_def direct talk_facts(5) summary
    using old w by (simp add: should_compress_def)
qed

theorem compaction_keeps_recent_witness:
  "\<exists>st' s'. compact_session talk_env (\<lambda>_. [48]) (lit ''c1'') (lit ''manual'') True None (plain (talk_files None)) =
     (st', Inr \<lparr>co_compacted = True, co_summary = Some [97]\<rparr>) \<and> filed (ss_files st') (lit ''c1'') = Some s' \<and>
     active_messages s' = skill_snapshots talk_env (\<lambda>_. [48]) (talk\<lparr>cs_summary := None\<rparr>) @ cs_messages talk"
proof -
  obtain st' where run: "compact_session talk_env (\<lambda>_. [48]) (lit ''c1'') (lit ''manual'') True None (plain (talk_files None)) =
     (st', Inr \<lparr>co_compacted = True, co_summary = Some [97]\<rparr>)" using talk_compacted by blast
  have hidden: "boundaries_hidden (cs_messages (talk\<lparr>cs_summary := None\<rparr>))" using talk_facts(3) by simp
  have recent: "last_n (retain_recent (ce_group talk_env) (session_is_group (talk\<lparr>cs_summary := None\<rparr>))) (cs_messages talk) = cs_messages talk"
    by (simp add: last_n_drop retain_recent_def DIRECT_RETAIN_RECENT_AFTER_COMPRESS_def talk_def session_is_group_def demo_session_def new_session_def)
  show ?thesis
    using compaction_keeps_recent [OF talk_facts(1) demo_valid talk_facts(2) hidden run] run
    unfolding talk_facts(5) recent Let_def by auto
qed

theorem earlier_summary_forgotten_witness:
  "\<exists>st' st2' s' s2'.
     compact_session talk_env (\<lambda>_. [48]) (lit ''c1'') (lit ''manual'') True None (plain (talk_files None)) = (st', Inr \<lparr>co_compacted = True, co_summary = Some [97]\<rparr>) \<and>
     compact_session talk_env (\<lambda>_. [48]) (lit ''c1'') (lit ''manual'') True None
       (plain (talk_files (Some \<lparr>sy_content = [98], sy_updated_at = []\<rparr>))) = (st2', Inr \<lparr>co_compacted = True, co_summary = Some [97]\<rparr>) \<and>
     filed (ss_files st') (lit ''c1'') = Some s' \<and> filed (ss_files st2') (lit ''c1'') = Some s2' \<and>
     cs_messages s2' = cs_messages s' \<and> cs_summary s2' = cs_summary s'"
proof -
  let ?other = "Some \<lparr>sy_content = [98], sy_updated_at = []\<rparr>"
  obtain st' where run: "compact_session talk_env (\<lambda>_. [48]) (lit ''c1'') (lit ''manual'') True None (plain (talk_files None)) =
     (st', Inr \<lparr>co_compacted = True, co_summary = Some [97]\<rparr>)" using talk_compacted by blast
  have filed: "filed (ss_files (plain (talk_files ?other))) (lit ''c1'') =
      Some ((talk\<lparr>cs_summary := None\<rparr>)\<lparr>cs_summary := ?other, cs_messages := cs_messages talk\<rparr>)"
    using talk_facts(2) [of ?other] by simp
  have same: "select_messages_after_compact_boundary (cs_messages talk) None =
      select_messages_after_compact_boundary (cs_messages (talk\<lparr>cs_summary := None\<rparr>)) None" by simp
  show ?thesis
    using earlier_summary_forgotten [OF talk_facts(1) demo_valid talk_facts(2) talk_facts(1) filed same run _ talk_facts(4)] run by auto
qed

end
