(* ===== verification/Response_Finalizer.thy ===== *)
theory Response_Finalizer
  imports Conversation
begin

text \<open>
  \<^verbatim>\<open>hone-channels/src/response_finalizer.rs\<close>: the last look at an answer before it is sent and stored. An answer that echoes
  the system prompt, that is internal only, empty, or no more than an announcement is turned into a failure; when such an
  announcement follows a tool call that changed something, the confirmation is made from the result of the call. Local images are
  copied where they stay. The upload of images and profiles in cloud mode is not modelled.
\<close>

section \<open>Numbers and values\<close>

definition json_as_u64 :: "json \<Rightarrow> nat option" where
  "json_as_u64 v = (case v of JInt i \<Rightarrow> if 0 \<le> i \<and> i < 2 ^ 64 then Some (nat i) else None | _ \<Rightarrow> None)"

definition json_as_array :: "json \<Rightarrow> json list option" where
  "json_as_array v = (case v of JArr vs \<Rightarrow> Some vs | _ \<Rightarrow> None)"

definition get_array :: "json \<Rightarrow> rstr \<Rightarrow> json list option" where
  "get_array v k = Option.bind (json_get v k) json_as_array"

text \<open>\<^verbatim>\<open>{x:.0}\<close> and \<^verbatim>\<open>{x:.2}\<close>: rounded half to even.\<close>

definition round_half_even :: "f64 \<Rightarrow> nat" where
  "round_half_even x =
     (let n = nat \<lfloor>x\<rfloor>; rest = x - of_nat n
      in if rest > 1 / 2 \<or> rest = 1 / 2 \<and> odd n then n + 1 else n)"

definition fmt_fixed0 :: "f64 \<Rightarrow> rstr" where
  "fmt_fixed0 x = (if x < 0 then lit ''-'' else []) @ nat_digits (round_half_even \<bar>x\<bar>)"

definition fmt_fixed2 :: "f64 \<Rightarrow> rstr" where
  "fmt_fixed2 x =
     (let n = round_half_even (\<bar>x\<bar> * 100)
      in (if x < 0 then lit ''-'' else []) @ nat_digits (n div 100) @ lit ''.'' @ fmt02 (n mod 100))"

definition format_number_value :: "json \<Rightarrow> rstr option" where
  "format_number_value v =
     (case json_as_f64 v of
        Some x \<Rightarrow> Some (if x = of_int \<lfloor>x\<rfloor> then fmt_fixed0 x else fmt_fixed2 x)
      | None \<Rightarrow> some_text (json_as_str v))"

section \<open>Confirmations from tool results\<close>

definition tool_action :: "tool_call_made \<Rightarrow> rstr option" where
  "tool_action call = or_else (get_str (tc_result call) (lit ''action'')) (get_str (tc_arguments call) (lit ''action''))"

definition tool_call_succeeded_for_recovery :: "tool_call_made \<Rightarrow> bool" where
  "tool_call_succeeded_for_recovery call \<longleftrightarrow>
     get_bool (tc_result call) (lit ''success'') = Some True \<or>
     tc_name call = lit ''portfolio'' \<and> tool_action call = Some (lit ''view'') \<and> json_get (tc_result call) (lit ''portfolio'') \<noteq> None"

definition weekday_label :: "nat \<Rightarrow> rstr option" where
  "weekday_label n =
     (let labels = [[27599, 21608, 19968], [27599, 21608, 20108], [27599, 21608, 19977], [27599, 21608, 22235], [27599, 21608, 20116], [27599, 21608, 20845], [27599, 21608, 26085]]
      in if n < length labels then Some (labels ! n) else None)"

definition format_cron_schedule :: "json \<Rightarrow> rstr" where
  "format_cron_schedule schedule =
     (let repeat = unwrap_or (lit ''daily'') (get_str schedule (lit ''repeat''));
          hour = unwrap_or 0 (Option.bind (json_get schedule (lit ''hour'')) json_as_u64);
          minute = unwrap_or 0 (Option.bind (json_get schedule (lit ''minute'')) json_as_u64);
          time = fmt02 hour @ lit '':'' @ fmt02 minute
      in if repeat = lit ''heartbeat'' then [27599, 32, 51, 48, 32, 20998, 38047, 26465, 20214, 36718, 35810]
         else if repeat = lit ''workday'' then [24037, 20316, 26085, 32] @ time
         else if repeat = lit ''trading_day'' then [20132, 26131, 26085, 32] @ time
         else if repeat = lit ''weekly'' then
           unwrap_or [27599, 21608] (Option.bind (Option.bind (json_get schedule (lit ''weekday'')) json_as_u64) weekday_label) @ [32] @ time
         else if repeat = lit ''once'' then
           (case opt_filter (\<lambda>d. trim d \<noteq> []) (get_str schedule (lit ''date'')) of Some d \<Rightarrow> d @ [32] @ time | None \<Rightarrow> time)
         else [27599, 22825, 32] @ time)"

definition cron_job_confirmation_message :: "rstr \<Rightarrow> tool_call_made \<Rightarrow> rstr option" where
  "cron_job_confirmation_message prefix call =
     map_option (\<lambda>job.
       let name = unwrap_or [26410, 21629, 21517, 20219, 21153] (get_str job (lit ''name''));
           job_id = unwrap_or [] (get_str job (lit ''id''));
           schedule = opt_filter (\<lambda>s. s \<noteq> []) (map_option format_cron_schedule (json_get job (lit ''schedule'')))
       in prefix @ [65306] @ name
          @ (case schedule of Some s \<Rightarrow> [65288] @ s @ [65289] | None \<Rightarrow> [])
          @ (if job_id = [] then [] else [12290, 20219, 21153, 32, 73, 68, 65306] @ job_id) @ [12290])
     (json_get (tc_result call) (lit ''job''))"

definition recover_cron_job_confirmation :: "tool_call_made \<Rightarrow> rstr option" where
  "recover_cron_job_confirmation call =
     (if tool_action call = Some (lit ''add'') then cron_job_confirmation_message [24050, 21019, 24314, 23450, 26102, 20219, 21153] call
      else if tool_action call = Some (lit ''update'') then cron_job_confirmation_message [24050, 26356, 26032, 23450, 26102, 20219, 21153] call
      else if tool_action call = Some (lit ''remove'') then
        map_option (\<lambda>job_id. [24050, 21024, 38500, 23450, 26102, 20219, 21153, 65306] @ job_id @ [12290]) (get_str (tc_result call) (lit ''removed_job_id''))
      else None)"

definition portfolio_ticker :: "json \<Rightarrow> rstr option" where
  "portfolio_ticker v =
     opt_filter (\<lambda>t. t \<noteq> [])
       (map_option (\<lambda>t. to_ascii_uppercase (trim t))
         (Option.bind (or_else (json_get v (lit ''ticker'')) (json_get v (lit ''symbol''))) json_as_str))"

definition push_portfolio_ticker :: "json \<Rightarrow> rstr list \<Rightarrow> rstr list" where
  "push_portfolio_ticker v tickers =
     (case portfolio_ticker v of None \<Rightarrow> tickers | Some t \<Rightarrow> if t \<in> set tickers then tickers else tickers @ [t])"

definition portfolio_argument_tickers :: "tool_call_made \<Rightarrow> rstr list" where
  "portfolio_argument_tickers call =
     push_portfolio_ticker (tc_arguments call)
       (fold push_portfolio_ticker (unwrap_or [] (get_array (tc_arguments call) (lit ''holdings''))) [])"

definition portfolio_array :: "json \<Rightarrow> rstr \<Rightarrow> json list" where
  "portfolio_array portfolio k = unwrap_or [] (get_array portfolio k)"

definition portfolio_tickers :: "tool_call_made \<Rightarrow> rstr list" where
  "portfolio_tickers call =
     (let ts = push_portfolio_ticker (tc_result call) [];
          ts = (case json_get (tc_result call) (lit ''portfolio'') of
                  None \<Rightarrow> ts
                | Some portfolio \<Rightarrow>
                    fold push_portfolio_ticker (portfolio_array portfolio (lit ''watchlist''))
                      (fold push_portfolio_ticker (portfolio_array portfolio (lit ''holdings'')) ts));
          ts = fold push_portfolio_ticker (portfolio_array (tc_result call) (lit ''holdings'')) ts;
          ts = fold push_portfolio_ticker (portfolio_array (tc_arguments call) (lit ''holdings'')) ts
      in push_portfolio_ticker (tc_arguments call) ts)"

definition portfolio_cost_basis :: "tool_call_made \<Rightarrow> rstr option" where
  "portfolio_cost_basis call =
     or_else (Option.bind (json_get (tc_arguments call) (lit ''cost_basis'')) format_number_value)
       (Option.bind (get_array (tc_arguments call) (lit ''holdings'')) (\<lambda>holdings.
          case holdings of [] \<Rightarrow> None
          | holding # _ \<Rightarrow> Option.bind (json_get holding (lit ''cost_basis'')) format_number_value))"

definition portfolio_first_result :: "tool_call_made \<Rightarrow> rstr option" where
  "portfolio_first_result call =
     or_else (get_str (tc_result call) (lit ''result''))
       (Option.bind (get_array (tc_result call) (lit ''holdings'')) (\<lambda>holdings.
          case holdings of [] \<Rightarrow> None | holding # _ \<Rightarrow> get_str holding (lit ''result'')))"

definition truncate_portfolio_note :: "rstr \<Rightarrow> rstr" where
  "truncate_portfolio_note s = take 80 s @ (if length s > 80 then [8230] else [])"

definition format_portfolio_view_entry :: "json \<Rightarrow> rstr option" where
  "format_portfolio_view_entry holding =
     map_option (\<lambda>ticker.
       let shares = map_option (\<lambda>s. s @ [32, 32929]) (Option.bind (json_get holding (lit ''shares'')) format_number_value);
           cost = map_option (\<lambda>c. [25104, 26412, 20215, 32] @ c) (Option.bind (json_get holding (lit ''avg_cost'')) format_number_value);
           watched = unwrap_or False (or_else (map_option (\<lambda>k. k = lit ''watchlist'') (get_str holding (lit ''kind'')))
             (get_bool holding (lit ''tracking_only'')));
           remark = some_text (Option.bind (or_else (json_get holding (lit ''notes'')) (json_get holding (lit ''strategy_notes''))) json_as_str)
       in intercalate [65292] ([ticker] @ option_list shares @ option_list cost @ (if watched then [[20851, 27880, 20013]] else [])
            @ option_list (map_option (\<lambda>r. [22791, 27880, 65306] @ truncate_portfolio_note r) remark)))
     (portfolio_ticker holding)"

definition recover_portfolio_view_confirmation :: "tool_call_made \<Rightarrow> rstr option" where
  "recover_portfolio_view_confirmation call =
     Option.bind (json_get (tc_result call) (lit ''portfolio'')) (\<lambda>portfolio.
       let requested = portfolio_argument_tickers call;
           entries = portfolio_array portfolio (lit ''holdings'') @ portfolio_array portfolio (lit ''watchlist'');
           entries = (if requested = [] then entries
             else filter (\<lambda>h. case portfolio_ticker h of Some t \<Rightarrow> t \<in> set requested | None \<Rightarrow> False) entries);
           shown = List.map_filter format_portfolio_view_entry (take 3 entries)
       in if entries = [] then
            (if (case get_str portfolio (lit ''message'') of Some m \<Rightarrow> contains_str m [26242, 26080, 25345, 20179] | None \<Rightarrow> False)
             then Some [24403, 21069, 36824, 27809, 26377, 35760, 24405, 25345, 20179, 25110, 20851, 27880, 26631, 30340, 12290] else None)
          else if shown = [] then None
          else Some ((if requested = [] then [24050, 35835, 21462, 24403, 21069, 25345, 20179, 47, 20851, 27880, 35760, 24405] else [24050, 35835, 21462, 30456, 20851, 25345, 20179, 35760, 24405])
            @ [65306] @ intercalate [65307] shown
            @ (if length entries > length shown then [65307, 21478, 26377, 32] @ nat_digits (length entries - length shown) @ [32, 20010, 26631, 30340] else [])
            @ [12290]))"

definition recover_portfolio_confirmation :: "tool_call_made \<Rightarrow> rstr option" where
  "recover_portfolio_confirmation call =
     Option.bind (tool_action call) (\<lambda>action.
       if action = lit ''view'' then recover_portfolio_view_confirmation call
       else
         let label = intercalate [12289] (portfolio_tickers call) in
         if portfolio_tickers call = [] then None
         else if action = lit ''add'' then
           Some ([24050, 35760, 24405, 25345, 20179, 65306] @ label
             @ (case portfolio_cost_basis call of Some c \<Rightarrow> [65292, 25104, 26412, 20215, 32] @ c | None \<Rightarrow> [])
             @ [12290, 21518, 32493, 36319, 36394, 20250, 20248, 20808, 21442, 32771, 36825, 26465, 25345, 20179, 35760,
    24405, 12290])
         else if action = lit ''update'' then Some ([24050, 26356, 26032, 25345, 20179, 65306] @ label @ [12290, 21518, 32493, 36319, 36394, 20250, 20351, 29992, 26368, 26032, 25345, 20179, 35760, 24405, 12290])
         else if action = lit ''remove'' then Some ([24050, 22788, 29702, 25345, 20179, 47, 20851, 27880, 21024, 38500, 35831, 27714, 65306] @ label @ [12290])
         else if action = lit ''watch'' then
           Some (if portfolio_first_result call = Some (lit ''already_holding'') then label @ [32, 24050, 22312, 25345, 20179, 20013, 65292, 20250, 32487, 32493, 25353, 25345, 20179, 36319, 36394, 12290]
                 else if portfolio_first_result call = Some (lit ''already_watching'') then label @ [32, 24050, 22312, 20851, 27880, 21015, 34920, 20013, 65292, 20250, 32487, 32493, 36319, 36394, 12290]
                 else [24050, 21152, 20837, 20851, 27880, 21015, 34920, 65306] @ label @ [12290, 21518, 32493, 20250, 32487, 32493, 36319, 36394, 12290])
         else if action = lit ''unwatch'' then Some ([24050, 21462, 28040, 20851, 27880, 65306] @ label @ [12290])
         else None)"

definition recovered_confirmation :: "tool_call_made \<Rightarrow> rstr option" where
  "recovered_confirmation call =
     (if \<not> tool_call_succeeded_for_recovery call then None
      else if tc_name call = lit ''cron_job'' then recover_cron_job_confirmation call
      else if tc_name call = lit ''portfolio'' then recover_portfolio_confirmation call
      else None)"

definition recover_successful_side_effect_confirmation :: "tool_call_made list \<Rightarrow> rstr option" where
  "recover_successful_side_effect_confirmation calls =
     (case List.map_filter recovered_confirmation (rev calls) of t # _ \<Rightarrow> Some t | [] \<Rightarrow> None)"

section \<open>Local images\<close>

text \<open>What the file system answers: which paths exist, whether a directory can be made and a file copied, and the random
  part of a new name for the \<open>k\<close>-th image.\<close>

record image_env =
  ie_exists :: "rstr \<Rightarrow> bool"
  ie_gen_images_root :: rstr
  ie_sandbox_root :: rstr
  ie_create_dir :: "rstr \<Rightarrow> bool"
  ie_copy :: "rstr \<Rightarrow> rstr \<Rightarrow> bool"
  ie_uuid :: "nat \<Rightarrow> rstr"

definition path_starts_with :: "rstr \<Rightarrow> rstr \<Rightarrow> bool" where
  "path_starts_with p q \<longleftrightarrow> take (length (path_components q)) (path_components p) = path_components q"

definition path_join :: "rstr \<Rightarrow> rstr \<Rightarrow> rstr" where
  "path_join a b = (if starts_with b [47] then b else if a = [] \<or> ends_with a [47] then a @ b else a @ [47] @ b)"

definition path_file_name :: "rstr \<Rightarrow> rstr option" where
  "path_file_name p = (case rev (path_components p) of NormalComp n # _ \<Rightarrow> Some n | _ \<Rightarrow> None)"

text \<open>Stem and extension of a file name: a dot at the front does not count.\<close>

definition stem_and_extension :: "rstr \<Rightarrow> rstr \<times> rstr option" where
  "stem_and_extension name =
     (case rposition (\<lambda>c. c = 46) name of
        None \<Rightarrow> (name, None)
      | Some i \<Rightarrow> if i = 0 then (name, None) else (take i name, Some (drop (Suc i) name)))"

definition sanitize_filename_component :: "rstr \<Rightarrow> rstr" where
  "sanitize_filename_component raw =
     trim_matches (\<lambda>c. c = 45) (map (\<lambda>c. if is_ascii_alnum c \<or> c \<in> {46, 95, 45} then c else 45) raw)"

definition unique_stable_image_name :: "rstr \<Rightarrow> rstr \<Rightarrow> rstr" where
  "unique_stable_image_name uuid source =
     (let named = map_option stem_and_extension (path_file_name source);
          stem = unwrap_or (lit ''image'') (opt_filter (\<lambda>s. s \<noteq> []) (map_option (\<lambda>(s, _). sanitize_filename_component s) named));
          ext = unwrap_or (lit ''png'') (opt_filter (\<lambda>s. s \<noteq> []) (map_option to_ascii_lowercase (Option.bind named snd)))
      in stem @ [45] @ uuid @ [46] @ ext)"

definition stabilize_local_image_path :: "image_env \<Rightarrow> rstr \<Rightarrow> nat \<Rightarrow> rstr \<Rightarrow> rstr option" where
  "stabilize_local_image_path fs sid k source =
     (if \<not> starts_with source [47] \<or> \<not> ie_exists fs source then None
      else if path_starts_with source (ie_gen_images_root fs) then Some source
      else if \<not> path_starts_with source (ie_sandbox_root fs) then Some source
      else
        let target_dir = path_join (ie_gen_images_root fs) sid in
        if \<not> ie_create_dir fs target_dir then Some source
        else
          let target = path_join target_dir (unique_stable_image_name (ie_uuid fs k) source) in
          if ie_copy fs source target then Some target else Some source)"

definition MISSING_LOCAL_IMAGE_FALLBACK_MESSAGE :: rstr where
  "MISSING_LOCAL_IMAGE_FALLBACK_MESSAGE = [65288, 22270, 34920, 25991, 20214, 19981, 21487, 29992, 65292, 35831, 37325, 26032, 29983, 25104, 65289]"

definition stable_image_text :: "image_env \<Rightarrow> rstr \<Rightarrow> nat \<Rightarrow> local_image_marker \<Rightarrow> rstr" where
  "stable_image_text fs sid k marker =
     (case stabilize_local_image_path fs sid k (lm_path marker) of
        Some path \<Rightarrow> (if starts_with path (lit ''oss://'') then [] else lit ''file://'') @ path
      | None \<Rightarrow> MISSING_LOCAL_IMAGE_FALLBACK_MESSAGE)"

definition normalize_local_image_references :: "image_env \<Rightarrow> rstr \<Rightarrow> rstr \<Rightarrow> rstr" where
  "normalize_local_image_references fs sid content =
     (let segments = split_response_content_segments content in
      if \<not> list_ex is_local_image segments then content
      else concat (map (\<lambda>(k, s). case s of TextSegment t \<Rightarrow> t | LocalImage m \<Rightarrow> stable_image_text fs sid k m) (enumerate 0 segments)))"

section \<open>The last look\<close>

definition EMPTY_SUCCESS_FALLBACK_MESSAGE :: rstr where
  "EMPTY_SUCCESS_FALLBACK_MESSAGE = [36825, 27425, 27809, 26377, 25104, 21151, 20135, 20986, 23436, 25972, 22238, 22797, 12290, 25105, 24050,
    32463, 33258, 21160, 37325, 35797, 36807, 20102, 65292, 35831, 20877, 21457, 19968, 27425, 65292, 25110,
    25442, 20010, 38382, 27861, 12290]"

definition response_leaks_system_prompt :: "rstr \<Rightarrow> bool" where
  "response_leaks_system_prompt content \<longleftrightarrow> starts_with (trim_start content) (lit ''### System Instructions ###'')"

definition as_empty :: "agent_response \<Rightarrow> agent_response" where
  "as_empty r = r\<lparr>rs_success := False, rs_content := EMPTY_SUCCESS_FALLBACK_MESSAGE, rs_error := Some EMPTY_SUCCESS_FALLBACK_MESSAGE\<rparr>"

definition as_blocked :: "string \<Rightarrow> agent_response \<Rightarrow> agent_response" where
  "as_blocked reason r = r\<lparr>rs_success := False, rs_content := [], rs_error := Some (lit reason)\<rparr>"

text \<open>The answer is the response and the reason of a fallback.\<close>

definition finalize_agent_response ::
    "regex_engine \<Rightarrow> image_env \<Rightarrow> rstr \<Rightarrow> agent_response \<Rightarrow> agent_response \<times> rstr option" where
  "finalize_agent_response R fs sid r =
     (let stable = (\<lambda>r. r\<lparr>rs_content := normalize_local_image_references fs sid (rs_content r)\<rparr>);
          sanitized = sanitize_user_visible_output R (rs_content r)
      in if \<not> rs_success r then (r, None)
         else if response_leaks_system_prompt (rs_content r) then (as_blocked ''agent returned leaked system instructions'' r, None)
         else if so_only_internal sanitized then (as_blocked ''agent returned internal-only output'' r, None)
         else if trim (so_content sanitized) = [] then (stable (as_empty r), Some (lit ''sanitized_empty_success''))
         else if is_transitional_planning_sentence (trim (so_content sanitized)) then
           (case recover_successful_side_effect_confirmation (rs_tool_calls_made r) of
              Some recovered \<Rightarrow> (r\<lparr>rs_content := recovered, rs_error := None\<rparr>, None)
            | None \<Rightarrow> (stable (as_empty r), Some (lit ''planning_sentence_suppressed'')))
         else (stable (r\<lparr>rs_content := so_content sanitized\<rparr>), None))"

section \<open>What passes\<close>

lemma not_blank_append: "trim (a @ b) \<noteq> [] \<longleftrightarrow> trim a \<noteq> [] \<or> trim b \<noteq> []"
  by (auto simp: trim_eq_Nil)

lemma not_blank_Cons: "\<not> is_whitespace c \<Longrightarrow> trim (c # s) \<noteq> []"
  by (auto simp: trim_eq_Nil)

lemma not_blank_lit: "s \<noteq> [] \<Longrightarrow> \<not> is_whitespace (of_char (hd s)) \<Longrightarrow> trim (lit s) \<noteq> []"
  by (cases s) (auto simp: trim_eq_Nil lit_def)

lemma cron_confirmation_not_blank:
  "recover_cron_job_confirmation call = Some t \<Longrightarrow> trim t \<noteq> []"
  by (auto simp: recover_cron_job_confirmation_def cron_job_confirmation_message_def Let_def not_blank_Cons is_whitespace_def
      split: if_splits)

lemma already_starts: "trim (24050 # s) \<noteq> []"
  by (simp add: not_blank_Cons is_whitespace_def)

lemma view_confirmation_not_blank:
  assumes "recover_portfolio_view_confirmation call = Some t"
  shows "trim t \<noteq> []"
proof -
  have start: "trim (24403 # s) \<noteq> []" for s by (simp add: not_blank_Cons is_whitespace_def)
  obtain portfolio where p: "json_get (tc_result call) (lit ''portfolio'') = Some portfolio"
    using assms by (cases "json_get (tc_result call) (lit ''portfolio'')") (simp_all add: recover_portfolio_view_confirmation_def)
  note t = assms [unfolded recover_portfolio_view_confirmation_def p Option.bind.bind_lunit Let_def]
  obtain s where "t = 24403 # s \<or> t = 24050 # s"
    using t by (simp only: append_Cons append_Nil option.inject split: if_split_asm) blast+
  then show ?thesis using start already_starts by blast
qed

lemma watch_not_blank:
  "trim (label @ [32, 24050, 22312, 25345, 20179, 20013, 65292, 20250, 32487, 32493, 25353, 25345, 20179, 36319, 36394, 12290]) \<noteq> []" "trim (label @ [32, 24050, 22312, 20851, 27880, 21015, 34920, 20013, 65292, 20250, 32487, 32493, 36319, 36394, 12290]) \<noteq> []"
  by (auto simp: trim_eq_Nil is_whitespace_def)

lemma portfolio_confirmation_not_blank:
  assumes "recover_portfolio_confirmation call = Some t"
  shows "trim t \<noteq> []"
proof -
  obtain action where action: "tool_action call = Some action"
    using assms by (cases "tool_action call") (simp_all add: recover_portfolio_confirmation_def)
  note t = assms [unfolded recover_portfolio_confirmation_def action Option.bind.bind_lunit Let_def]
  show ?thesis
    using t
    by (simp only: append_Cons append_Nil option.inject option.distinct split: if_split_asm)
      (use already_starts watch_not_blank view_confirmation_not_blank in blast)+
qed

lemma recovered_from_success:
  assumes "recover_successful_side_effect_confirmation calls = Some t"
  shows "trim t \<noteq> [] \<and> (\<exists>call \<in> set calls. tool_call_succeeded_for_recovery call \<and> recovered_confirmation call = Some t)"
proof -
  have "t \<in> set (List.map_filter recovered_confirmation (rev calls))"
    using assms by (auto simp: recover_successful_side_effect_confirmation_def split: list.splits)
  then obtain call where call: "call \<in> set calls" "recovered_confirmation call = Some t" by (auto simp: set_map_filter)
  then have "tool_call_succeeded_for_recovery call" "trim t \<noteq> []"
    using cron_confirmation_not_blank portfolio_confirmation_not_blank
    by (auto simp: recovered_confirmation_def split: if_splits)
  then show ?thesis using call by blast
qed

lemma stable_image_not_blank: "trim (stable_image_text fs sid k marker) \<noteq> []"
  by (auto simp: stable_image_text_def MISSING_LOCAL_IMAGE_FALLBACK_MESSAGE_def not_blank_Cons is_whitespace_def lit_def
      starts_with_iff split: option.split)

lemma normalized_not_blank:
  assumes "trim content \<noteq> []"
  shows "trim (normalize_local_image_references fs sid content) \<noteq> []"
proof (cases "\<exists>s \<in> set (split_response_content_segments content). \<exists>m. s = LocalImage m")
  case False
  then show ?thesis using assms unfolding normalize_local_image_references_def Let_def any_local_image by (simp only: if_True simp_thms)
next
  case True
  then obtain k m where k: "k < length (split_response_content_segments content)" "split_response_content_segments content ! k = LocalImage m"
    by (auto simp: in_set_conv_nth)
  let ?f = "\<lambda>(k, s). case s of TextSegment t \<Rightarrow> t | LocalImage m \<Rightarrow> stable_image_text fs sid k m"
  have "(k, LocalImage m) \<in> set (enumerate 0 (split_response_content_segments content))"
    using k by (simp add: in_set_enumerate_eq)
  then have "stable_image_text fs sid k m \<in> set (map ?f (enumerate 0 (split_response_content_segments content)))" by force
  moreover obtain c where "c \<in> set (stable_image_text fs sid k m)" "\<not> is_whitespace c"
    using stable_image_not_blank [of fs sid k m] by (auto simp: trim_eq_Nil)
  moreover have "normalize_local_image_references fs sid content =
      concat (map ?f (enumerate 0 (split_response_content_segments content)))"
    using True unfolding normalize_local_image_references_def Let_def any_local_image by (simp only: simp_thms if_False)
  ultimately have "c \<in> set (normalize_local_image_references fs sid content)" by (metis UN_I set_concat)
  then show ?thesis using \<open>\<not> is_whitespace c\<close> by (auto simp: trim_eq_Nil)
qed

lemma fallback_not_blank: "trim EMPTY_SUCCESS_FALLBACK_MESSAGE \<noteq> []"
  by (simp add: EMPTY_SUCCESS_FALLBACK_MESSAGE_def not_blank_Cons is_whitespace_def)

lemma finalize_success:
  assumes "finalize_agent_response R fs sid r = (r', reason)" "rs_success r'"
  shows "rs_success r \<and> reason = None \<and> \<not> response_leaks_system_prompt (rs_content r) \<and> trim (rs_content r') \<noteq> []"
    and "rs_content r' = normalize_local_image_references fs sid (so_content (sanitize_user_visible_output R (rs_content r))) \<or>
      is_transitional_planning_sentence (trim (so_content (sanitize_user_visible_output R (rs_content r)))) \<and>
      (\<exists>call \<in> set (rs_tool_calls_made r). tool_call_succeeded_for_recovery call \<and> recovered_confirmation call = Some (rs_content r'))"
  using assms recovered_from_success normalized_not_blank [of "so_content (sanitize_user_visible_output R (rs_content r))" fs sid]
  by (auto simp: finalize_agent_response_def as_blocked_def as_empty_def Let_def split: if_splits option.splits)

lemma finalize_failure:
  assumes "finalize_agent_response R fs sid r = (r', reason)" "\<not> rs_success r'"
  shows "rs_success r \<longrightarrow> rs_error r' \<noteq> None"
  using assms by (auto simp: finalize_agent_response_def as_blocked_def as_empty_def Let_def split: if_splits option.splits)

lemma finalize_calls: "rs_tool_calls_made (fst (finalize_agent_response R fs sid r)) = rs_tool_calls_made r"
  by (auto simp: finalize_agent_response_def as_blocked_def as_empty_def Let_def split: option.split)

text \<open>C27: an answer passes the last look only when it can be shown. An answer that is still a success was one before, did not
  start with the heading of the system prompt as it came from the runner, and is not blank; it is the cleaned answer with its
  images kept, or, when the answer only announced what it would do, the confirmation of a tool call that reported success. An
  answer that no longer is a success has an error, and none loses its calls. (The heading is looked for before the
  cleaning: a block of reasoning in front of it hides it.)\<close>

theorem finalized_answer_presentable:
  "let r' = fst (finalize_agent_response R fs sid r) in
     rs_tool_calls_made r' = rs_tool_calls_made r \<and>
     (if rs_success r' then
        rs_success r \<and> \<not> response_leaks_system_prompt (rs_content r) \<and> trim (rs_content r') \<noteq> [] \<and>
        (rs_content r' = normalize_local_image_references fs sid (so_content (sanitize_user_visible_output R (rs_content r))) \<or>
         is_transitional_planning_sentence (trim (so_content (sanitize_user_visible_output R (rs_content r)))) \<and>
         (\<exists>call \<in> set (rs_tool_calls_made r). tool_call_succeeded_for_recovery call \<and> recovered_confirmation call = Some (rs_content r')))
      else (if rs_success r then rs_error r' \<noteq> None else r' = r))"
proof -
  obtain r' reason where r': "finalize_agent_response R fs sid r = (r', reason)" by fastforce
  have same: "r' = r" if "\<not> rs_success r" using r' that by (simp add: finalize_agent_response_def)
  show ?thesis
    using finalize_success [OF r'] finalize_failure [OF r'] finalize_calls [of R fs sid r] same by (simp add: r' Let_def)
qed

text \<open>A planning sentence whose call did create a task.\<close>

definition demo_call :: tool_call_made where
  "demo_call = \<lparr>tc_name = lit ''cron_job'', tc_arguments = JNull,
     tc_result = JObj [(lit ''success'', JBool True), (lit ''action'', JStr (lit ''remove'')), (lit ''removed_job_id'', JStr [55])],
     tc_tool_call_id = None\<rparr>"

theorem finalized_answer_presentable_witness:
  "let r = \<lparr>rs_content = [97], rs_tool_calls_made = [demo_call], rs_iterations = 1, rs_success = True, rs_error = None\<rparr>;
       fs = \<lparr>ie_exists = (\<lambda>_. False), ie_gen_images_root = [], ie_sandbox_root = [], ie_create_dir = (\<lambda>_. False),
              ie_copy = (\<lambda>_ _. False), ie_uuid = (\<lambda>_. [])\<rparr>
   in rs_success (fst (finalize_agent_response no_regex fs [] r)) \<and> trim (rs_content (fst (finalize_agent_response no_regex fs [] r))) \<noteq> [] \<and>
      recovered_confirmation demo_call = Some [24050, 21024, 38500, 23450, 26102, 20219, 21153, 65306, 55, 12290]"
proof -
  let ?r = "\<lparr>rs_content = [97], rs_tool_calls_made = [demo_call], rs_iterations = 1, rs_success = True, rs_error = None\<rparr>"
  let ?fs = "\<lparr>ie_exists = (\<lambda>_. False), ie_gen_images_root = [], ie_sandbox_root = [], ie_create_dir = (\<lambda>_. False),
              ie_copy = (\<lambda>_ _. False), ie_uuid = (\<lambda>_. [])\<rparr>"
  have t: "trim [97] = [97]" "trim_start [97] = [97]" by (simp_all add: trim_def trim_start_def is_whitespace_def)
  have call: "recovered_confirmation demo_call = Some [24050, 21024, 38500, 23450, 26102, 20219, 21153, 65306, 55, 12290]"
    by (simp add: recovered_confirmation_def tool_call_succeeded_for_recovery_def demo_call_def get_bool_def get_str_def json_get_def
        json_as_bool_def json_as_str_def recover_cron_job_confirmation_def tool_action_def)
  have "\<not> so_only_internal (sanitize_user_visible_output no_regex [97])"
    using sanitize_demo by (simp add: sanitize_user_visible_output_def Let_def split_beta split: if_splits)
  moreover have "\<not> response_leaks_system_prompt [97]"
    by (simp add: response_leaks_system_prompt_def t lit_def)
  moreover have "\<not> is_transitional_planning_sentence [97]"
    by (simp add: is_transitional_planning_sentence_def starts_with_any_def planning_starts_def t)
  ultimately have ok: "rs_success (fst (finalize_agent_response no_regex ?fs [] ?r))"
    by (simp add: finalize_agent_response_def sanitize_demo t)
  then show ?thesis
    using finalized_answer_presentable [of no_regex ?fs "[]" ?r] call unfolding Let_def by simp
qed

end
