(* ===== verification/Run_Events.thy ===== *)
theory Run_Events
  imports Conversation
begin

text \<open>
  \<^verbatim>\<open>hone-channels/src/run_event.rs\<close>, \<^verbatim>\<open>agent_session/types.rs\<close> and \<^verbatim>\<open>agent_session/emitter.rs\<close>: the events of a run, and
  what the emitter lets through of the events of a runner.
\<close>

datatype error_kind =
    SpawnFailed | StdoutUnavailable | TimeoutOverall | TimeoutPerLine | GeminiError | ContextWindowOverflow | IoFailed
  | ExitFailure | AgentTimeout | AgentFailed

datatype run_event =
    RunProgress rstr "rstr option"
  | StreamDelta rstr
  | StreamThought rstr
  | ToolStatus rstr rstr "rstr option" "rstr option"
  | RunError error_kind rstr

datatype session_event =
    UserMessageEvent rstr
  | RunEvent run_event
  | SegmentEvent rstr
  | DoneEvent agent_response

section \<open>What may be shown of a runner\<close>

definition INTERNAL_PROGRESS_MARKERS :: "rstr list" where
  "INTERNAL_PROGRESS_MARKERS =
     [lit ''### System Instructions ###'', lit ''### System Prompt ###'', lit ''### Skill Context ###'',
      lit ''### Conversation Context ###'', lit ''### User Prompt ###'', lit ''### Available Skills ###'',
      [12304, 83, 101, 115, 115, 105, 111, 110, 32, 19978, 19979, 25991, 12305], [12304, 73, 110, 118, 111, 107, 101, 100, 32, 83, 107, 105, 108, 108, 32, 67, 111, 110, 116, 101, 120, 116,
    12305], [116, 117, 114, 110, 45, 48, 32, 21487, 29992, 25216, 33021, 32034, 24341],
      lit ''Base directory for this skill:'', lit ''codex:approved-for-session'', lit ''opencode:approved-for-session'',
      lit ''Approve MCP tool call'', lit ''approved-for-session'', lit ''rawOutput'', lit ''rawInput'']"

definition first_internal_progress_marker :: "rstr \<Rightarrow> nat option" where
  "first_internal_progress_marker text =
     (case List.map_filter (\<lambda>marker. str_find marker text) INTERNAL_PROGRESS_MARKERS of [] \<Rightarrow> None | k # ks \<Rightarrow> Some (foldl min k ks))"

definition strip_internal_progress_suffix :: "rstr \<Rightarrow> rstr option" where
  "strip_internal_progress_suffix text =
     (case first_internal_progress_marker text of
        Some idx \<Rightarrow> (let prefix = trim_end (take idx text) in if trim prefix = [] then None else Some prefix)
      | None \<Rightarrow> Some text)"

definition contains_internal_progress_marker :: "rstr \<Rightarrow> bool" where
  "contains_internal_progress_marker text \<longleftrightarrow> first_internal_progress_marker text \<noteq> None"

definition looks_like_structured_tool_payload :: "json_codec \<Rightarrow> rstr \<Rightarrow> bool" where
  "looks_like_structured_tool_payload J text \<longleftrightarrow>
     (let trimmed = trim text in
      if \<not> (starts_with trimmed [123] \<or> starts_with trimmed [91]) then False
      else case jc_parse J trimmed of Some (JObj _) \<Rightarrow> True | Some (JArr _) \<Rightarrow> True | _ \<Rightarrow> False)"

definition runtime_detail_words :: "rstr list" where
  "runtime_detail_words = [[76, 76, 77, 32, 38169, 35823], [72, 84, 84, 80, 32, 38169, 35823], [28192, 36947, 38169, 35823], [24037, 20855, 25191, 34892, 38169, 35823], [24207, 21015, 21270, 38169, 35823], [73, 79, 32, 38169, 35823]]"

definition runtime_detail_markers :: "rstr list" where
  "runtime_detail_markers =
     map lit [''bad_request_error'', ''invalid params'', ''tool_call_id'', ''tool call result'', ''function arguments'', ''session/prompt'',
       ''codex acp'', ''opencode acp'', ''acp stream'', ''approve mcp tool call'', ''approved-for-session'', ''rawoutput'', ''rawinput'']"

definition looks_like_internal_runtime_detail :: "rstr \<Rightarrow> bool" where
  "looks_like_internal_runtime_detail text \<longleftrightarrow>
     contains_any text runtime_detail_words \<or> contains_any (to_ascii_lowercase text) runtime_detail_markers"

definition sanitize_user_visible_event_text :: "json_codec \<Rightarrow> regex_engine \<Rightarrow> rstr \<Rightarrow> rstr \<Rightarrow> rstr option" where
  "sanitize_user_visible_event_text J R working_directory v =
     Option.bind (strip_internal_progress_suffix v) (\<lambda>clipped.
       let text = trim (so_content (sanitize_user_visible_output R (relativize_user_visible_paths R clipped working_directory))) in
       if text = [] \<or> contains_internal_progress_marker text then None
       else if looks_like_structured_tool_payload J text then None
       else if looks_like_internal_runtime_detail text then None
       else Some text)"

text \<open>\<^verbatim>\<open>emit\<close>: the event handed to every listener, if one is.\<close>

definition emit_run_event :: "json_codec \<Rightarrow> regex_engine \<Rightarrow> rstr \<Rightarrow> run_event \<Rightarrow> session_event option" where
  "emit_run_event J R dir event =
     (let clean = sanitize_user_visible_event_text J R dir in
      map_option RunEvent
        (case event of
           RunProgress stage detail \<Rightarrow> Some (RunProgress stage (Option.bind detail clean))
         | ToolStatus tool status message reasoning \<Rightarrow>
             Some (ToolStatus (unwrap_or [24037, 20855] (clean tool)) status (Option.bind message clean) (Option.bind reasoning clean))
         | StreamDelta content \<Rightarrow> map_option StreamDelta (clean content)
         | RunError kind message \<Rightarrow> Some (RunError kind (relativize_user_visible_paths R message dir))
         | StreamThought thought \<Rightarrow> Some (StreamThought thought)))"

section \<open>What is let through\<close>

definition fit_for_progress :: "json_codec \<Rightarrow> rstr \<Rightarrow> bool" where
  "fit_for_progress J text \<longleftrightarrow> trim text = text \<and> text \<noteq> [] \<and> \<not> list_ex (contains_str text) INTERNAL_PROGRESS_MARKERS \<and>
     \<not> looks_like_structured_tool_payload J text \<and> \<not> looks_like_internal_runtime_detail text"

lemma markers_nonempty: "marker \<in> set INTERNAL_PROGRESS_MARKERS \<Longrightarrow> marker \<noteq> []"
  by (auto simp: INTERNAL_PROGRESS_MARKERS_def)

lemma map_filter_empty: "List.map_filter f xs = [] \<longleftrightarrow> (\<forall>x \<in> set xs. f x = None)"
  by (induction xs) (auto split: option.split)

lemma no_marker: "first_internal_progress_marker text = None \<longleftrightarrow> \<not> list_ex (contains_str text) INTERNAL_PROGRESS_MARKERS"
proof -
  have "first_internal_progress_marker text = None \<longleftrightarrow> (\<forall>marker \<in> set INTERNAL_PROGRESS_MARKERS. str_find marker text = None)"
    unfolding first_internal_progress_marker_def map_filter_empty [symmetric] by (simp split: list.split)
  then show ?thesis using markers_nonempty by (auto simp: list_ex_iff str_find_def split_once_None)
qed

lemma event_text_fit: "sanitize_user_visible_event_text J R dir v = Some t \<Longrightarrow> fit_for_progress J t"
  by (auto simp: sanitize_user_visible_event_text_def bind_eq_Some_conv fit_for_progress_def contains_internal_progress_marker_def
      no_marker Let_def split: if_splits)

fun shown_texts :: "session_event \<Rightarrow> rstr list" where
  "shown_texts (RunEvent (RunProgress stage detail)) = option_list detail"
| "shown_texts (RunEvent (ToolStatus tool status message reasoning)) = tool # option_list message @ option_list reasoning"
| "shown_texts (RunEvent (StreamDelta content)) = [content]"
| "shown_texts _ = []"

lemma tool_word_fit: "fit_for_progress J [24037, 20855]"
  by (simp add: fit_for_progress_def trim_def is_whitespace_def INTERNAL_PROGRESS_MARKERS_def lit_def
      looks_like_structured_tool_payload_def looks_like_internal_runtime_detail_def contains_any_def runtime_detail_words_def
      runtime_detail_markers_def to_ascii_lowercase_def ascii_lower_def is_ascii_upper_def)

text \<open>C28: what a runner does is shown without its inner workings. Whatever events a runner emits and whatever the
  expressions match, the details of progress, the names, messages and reasons of tools and the streamed text that reach a
  listener hold no marker of a prompt, no JSON payload and no internal error, and are never blank. (Errors and thoughts are not cleaned; streamed
  text is trimmed piece by piece, so that the spaces at the ends of a piece are lost.)\<close>

theorem progress_hides_internals:
  "pred_option (\<lambda>e. list_all (fit_for_progress J) (shown_texts e)) (emit_run_event J R dir event)"
proof -
  have option: "list_all (fit_for_progress J) (option_list (Option.bind v (sanitize_user_visible_event_text J R dir)))" for v
    using event_text_fit by (cases "Option.bind v (sanitize_user_visible_event_text J R dir)") (auto simp: option_list_def bind_eq_Some_conv)
  have tool: "fit_for_progress J (unwrap_or [24037, 20855] (sanitize_user_visible_event_text J R dir v))" for v
    using event_text_fit tool_word_fit by (cases "sanitize_user_visible_event_text J R dir v") auto
  show ?thesis
  proof (cases event)
    case (StreamDelta content)
    then show ?thesis using event_text_fit
      by (cases "sanitize_user_visible_event_text J R dir content") (auto simp: emit_run_event_def Let_def)
  qed (simp_all add: emit_run_event_def Let_def option tool)
qed

end
