(* ===== verification/Agent_Session.thy ===== *)
theory Agent_Session
  imports Compaction Response_Finalizer Run_Events Quota
begin

text \<open>
  The parts of an agent session in \<^verbatim>\<open>hone-channels\<close>: its data (\<^verbatim>\<open>agent_session/types.rs\<close>, the struct of \<^verbatim>\<open>core.rs\<close>), the pure
  helpers of \<^verbatim>\<open>agent_session/helpers.rs\<close>, the slash commands of \<^verbatim>\<open>turn_builder.rs\<close>, the preparation of an
  execution (\<^verbatim>\<open>execution.rs\<close>) and the files attached to a web answer (\<^verbatim>\<open>agent_session/artifacts.rs\<close>). The skill runtime,
  the factory of runners and the text of the system prompt are parameters.
\<close>

section \<open>Sessions and options\<close>

datatype quota_mode = UserConversation | ScheduledTask

record run_options =
  ro_segmenter :: "(rstr \<Rightarrow> rstr list) option"
  ro_quota_mode :: quota_mode
  ro_model_override :: "rstr option"

record agent_session =
  ag_actor :: actor
  ag_identity :: session
  ag_session_id :: rstr
  ag_channel_target :: rstr
  ag_restore_max_messages :: "nat option"
  ag_session_metadata :: "metadata option"
  ag_user_metadata :: "metadata option"
  ag_assistant_metadata :: "metadata option"
  ag_recv_extra :: "rstr option"
  ag_allow_cron :: bool

definition EMPTY_SUCCESS_RETRY_LIMIT :: nat where "EMPTY_SUCCESS_RETRY_LIMIT = 2"
definition CONTEXT_OVERFLOW_RECOVERY_LIMIT :: nat where "CONTEXT_OVERFLOW_RECOVERY_LIMIT = 1"
definition DIRECT_SESSION_PRE_COMPACT_RESTORE_LIMIT :: nat where "DIRECT_SESSION_PRE_COMPACT_RESTORE_LIMIT = 20"
definition CONTEXT_OVERFLOW_POST_COMPACT_RESTORE_LIMIT :: nat where "CONTEXT_OVERFLOW_POST_COMPACT_RESTORE_LIMIT = 6"

definition CONTEXT_OVERFLOW_FALLBACK_MESSAGE :: rstr where
  "CONTEXT_OVERFLOW_FALLBACK_MESSAGE = [24403, 21069, 20250, 35805, 19978, 19979, 25991, 36807, 38271, 12290, 25105, 24050, 32463, 33258, 21160,
    23581, 35797, 21387, 32553, 21382, 21490, 65292, 20294, 36825, 27425, 20173, 26080, 27861, 32487, 32493,
    12290, 35831, 30452, 25509, 32487, 32493, 25552, 38382, 37325, 28857, 12289, 21457, 36865, 32, 47, 99, 111,
    109, 112, 97, 99, 116, 65292, 25110, 24320, 21551, 19968, 20010, 26032, 20250, 35805, 21518, 20877, 35797,
    12290]"

definition NON_FINANCE_BOUNDARY_REPLY :: rstr where
  "NON_FINANCE_BOUNDARY_REPLY = [25105, 21482, 33021, 22788, 29702, 37329, 34701, 12289, 24066, 22330, 12289, 25237, 36164, 30740, 31350,
    12289, 20844, 21496, 22522, 26412, 38754, 12289, 23439, 35266, 34892, 19994, 21644, 39118, 38505, 31649,
    29702, 30456, 20851, 38382, 39064, 12290, 36825, 20010, 38382, 39064, 19981, 23646, 20110, 24403, 21069,
    25903, 25345, 33539, 22260, 65307, 22914, 26524, 20320, 24819, 20998, 26512, 30456, 20851, 36164, 20135,
    12289, 34892, 19994, 25110, 19978, 24066, 20844, 21496, 24433, 21709, 65292, 21487, 20197, 25353, 37329,
    34701, 38382, 39064, 37325, 26032, 38382, 25105, 12290]"

definition restore_limit_before_compaction :: "group_context \<Rightarrow> session \<Rightarrow> nat option" where
  "restore_limit_before_compaction g identity =
     Some (if is_group identity then max (max (gc_recent_context_limit g) (gc_compress_threshold_messages g)) 1
           else DIRECT_SESSION_PRE_COMPACT_RESTORE_LIMIT)"

text \<open>An actor whose group has no session of its own falls back to a direct one.\<close>

definition agent_session_new :: "group_context \<Rightarrow> actor \<Rightarrow> rstr \<Rightarrow> agent_session option" where
  "agent_session_new g a channel_target =
     (let identity = (case session_from_actor a of Inr i \<Rightarrow> Some i | Inl _ \<Rightarrow> result_ok (session_direct (a_channel a) (a_user_id a)))
      in map_option (\<lambda>i. \<lparr>ag_actor = a, ag_identity = i, ag_session_id = session_id i, ag_channel_target = channel_target,
           ag_restore_max_messages = restore_limit_before_compaction g i, ag_session_metadata = None, ag_user_metadata = None,
           ag_assistant_metadata = None, ag_recv_extra = None, ag_allow_cron = True\<rparr>) identity)"

definition with_session_identity :: "group_context \<Rightarrow> session \<Rightarrow> agent_session \<Rightarrow> agent_session" where
  "with_session_identity g identity ag =
     ag\<lparr>ag_session_id := session_id identity, ag_restore_max_messages := restore_limit_before_compaction g identity,
        ag_identity := identity\<rparr>"

section \<open>Reading the input\<close>

text \<open>Unicode lower case, as far as it can bring out the ASCII letters that are looked for: beyond ASCII only the dotted I
  and the Kelvin sign have an ASCII letter in their lower case.\<close>

definition str_to_lowercase :: "rstr \<Rightarrow> rstr" where
  "str_to_lowercase s = concat (map (\<lambda>c. if c = 304 then [105, 775] else if c = 8490 then [107] else [ascii_lower c]) s)"

definition finance_anchors :: "rstr list" where
  "finance_anchors =
     [[37329, 34701], [24066, 22330], [25237, 36164], [32929, 31080], [32929, 20215], [32654, 32929], [28207, 32929], [97, 32929], [36130, 25253], [20272, 20540], [22522, 26412, 38754], [23439, 35266],
      [34892, 19994], [36164, 20135], [32452, 21512], [25345, 20179], [20179, 20301], [20080, 28857], [21334, 28857], [33829, 25910], [21033, 28070], lit ''pe'', lit ''eps'', lit ''etf'',
      [20538, 21048], [21033, 29575], [39118, 38505, 22238, 25253], [19978, 24066, 20844, 21496], [25151, 22320, 20135, 32929], [22320, 20135, 32929], [25151, 20225], [38134, 34892, 32929], [20135, 19994, 38142]]"

definition contains_finance_anchor :: "rstr \<Rightarrow> bool" where
  "contains_finance_anchor text \<longleftrightarrow> contains_any text finance_anchors"

definition housing_words :: "rstr list" where
  "housing_words =
     [[20080, 25151], [21334, 25151], [31199, 25151], [25151, 36151], [25353, 25581], [23398, 21306, 25151], [35013, 20462], [28145, 22323, 27004, 24066], [21271, 20140, 27004, 24066], [19978, 28023, 27004, 24066], [24191, 24030, 27004, 24066],
      [25151, 20215], [32622, 25442], [39318, 20184]]"

definition device_words :: "rstr list" where
  "device_words =
     [[30005, 33041, 99, 112, 117], [99, 112, 117, 26159, 20160, 20040], [99, 112, 117, 32, 21483, 20160, 20040], [99, 112, 117, 21483, 20160, 20040], [22788, 29702, 22120, 26159, 20160, 20040], [26174, 21345, 22411, 21495], [25163, 26426, 22411, 21495], [37197, 32622, 24590, 20040, 26679]]"

definition non_finance_boundary_reply :: "rstr \<Rightarrow> rstr option" where
  "non_finance_boundary_reply user_input =
     (let normalized = str_to_lowercase (trim user_input) in
      if normalized = [] \<or> contains_finance_anchor normalized then None
      else if contains_any normalized housing_words \<or> contains_any normalized device_words then Some NON_FINANCE_BOUNDARY_REPLY
      else None)"

record compact_command =
  cd_instructions :: "rstr option"

definition parse_compact_command :: "rstr \<Rightarrow> compact_command option" where
  "parse_compact_command user_input =
     (case strip_prefix (lit ''/compact'') (trim user_input) of
        None \<Rightarrow> None
      | Some rest \<Rightarrow>
          if rest \<noteq> [] \<and> \<not> is_whitespace (hd rest) then None
          else Some \<lparr>cd_instructions = opt_filter (\<lambda>t. t \<noteq> []) (Some (trim rest))\<rparr>)"

section \<open>Slash commands\<close>

text \<open>What the skill runtime answers: a skill found by a query and paths, the skill of an id, and the prompt of a skill for a
  session and arguments. The flag is whether schedules are allowed.\<close>

record skill_runtime =
  sr_resolve_via_search :: "bool \<Rightarrow> rstr \<Rightarrow> rstr list \<Rightarrow> rstr option"
  sr_resolve_direct :: "bool \<Rightarrow> rstr \<Rightarrow> rstr option"
  sr_render :: "rstr \<Rightarrow> rstr \<Rightarrow> rstr option \<Rightarrow> rstr"
  sr_registered :: "rstr \<Rightarrow> bool"

record slash_expansion =
  sx_raw_input :: rstr
  sx_invoked_prompt :: rstr
  sx_runtime_input :: rstr
  sx_skill_id :: rstr

definition is_ascii_punctuation :: "nat \<Rightarrow> bool" where
  "is_ascii_punctuation c \<longleftrightarrow> 33 \<le> c \<and> c \<le> 47 \<or> 58 \<le> c \<and> c \<le> 64 \<or> 91 \<le> c \<and> c \<le> 96 \<or> 123 \<le> c \<and> c \<le> 126"

definition extract_possible_file_paths :: "rstr \<Rightarrow> rstr list" where
  "extract_possible_file_paths input =
     filter (\<lambda>t. t \<noteq> [])
       (map (trim_matches (\<lambda>c. is_ascii_punctuation c \<and> c \<noteq> 47 \<and> c \<noteq> 92))
         (filter (\<lambda>t. 47 \<in> set t \<or> 92 \<in> set t) (split_whitespace input)))"

definition compose_invoked_skill_runtime_input :: "rstr \<Rightarrow> rstr option \<Rightarrow> rstr" where
  "compose_invoked_skill_runtime_input invoked_prompt user_supplement =
     (case some_text user_supplement of
        Some supplement \<Rightarrow> invoked_prompt @ [10, 10, 12304, 85, 115, 101, 114, 32, 84, 97, 115, 107, 32, 65, 102, 116, 101, 114, 32, 73, 110, 118, 111,
    107, 105, 110, 103, 32, 84, 104, 105, 115, 32, 83, 107, 105, 108, 108, 12305, 10] @ supplement
      | None \<Rightarrow> invoked_prompt)"

definition expand_slash_skill_input :: "skill_runtime \<Rightarrow> bool \<Rightarrow> rstr \<Rightarrow> rstr \<Rightarrow> slash_expansion option hone_result" where
  "expand_slash_skill_input K allow_cron sid user_input =
     (let trimmed = trim user_input in
      if \<not> starts_with trimmed [47] then Inr None
      else if starts_with trimmed (lit ''/skill'') then
        (let ls = str_lines trimmed;
             query = trim (trim_start_matches (lit ''/skill'') (case ls of l # _ \<Rightarrow> l | [] \<Rightarrow> [])) in
         if query = [] then Inr None
         else case sr_resolve_via_search K allow_cron query (extract_possible_file_paths user_input) of
           None \<Rightarrow> Inr None
         | Some skill \<Rightarrow>
             (let prompt = sr_render K skill sid None in
              Inr (Some \<lparr>sx_raw_input = user_input, sx_invoked_prompt = prompt,
                sx_runtime_input = compose_invoked_skill_runtime_input prompt (Some (trim (intercalate [10] (drop 1 ls)))),
                sx_skill_id = skill\<rparr>)))
      else
        (let command = trim_start_matches [47] trimmed;
             name = takeWhile (\<lambda>c. \<not> is_whitespace c) command;
             args = (case drop (length name) command of [] \<Rightarrow> None | _ # rest \<Rightarrow> Some (trim rest)) in
         if name = [] then Inr None
         else case sr_resolve_direct K allow_cron name of
           None \<Rightarrow> Inr None
         | Some skill \<Rightarrow>
             (let prompt = sr_render K skill sid args in
              Inr (Some \<lparr>sx_raw_input = user_input, sx_invoked_prompt = prompt,
                sx_runtime_input = compose_invoked_skill_runtime_input prompt args, sx_skill_id = skill\<rparr>))))"

section \<open>Preparing an execution\<close>

datatype execution_mode = PersistentConversation | TransientTask

datatype runner_selection = Configured "rstr option" | AuxiliaryFunctionCalling nat "nat option"

record runner_request =
  rq_session_id :: rstr
  rq_actor_label :: rstr
  rq_actor :: actor
  rq_channel_target :: rstr
  rq_allow_cron :: bool
  rq_system_prompt :: rstr
  rq_runtime_input :: rstr
  rq_context :: agent_context
  rq_session_metadata :: metadata
  rq_working_directory :: rstr

record prepared_execution =
  px_runner_name :: rstr
  px_request :: runner_request

text \<open>The factories: the name of a new runner for a system prompt and a model, or why there is none; the auxiliary
  model with its usual or another token limit; and the directory of an actor.\<close>

record execution_env =
  xe_create_runner :: "rstr \<Rightarrow> rstr option \<Rightarrow> rstr + rstr"
  xe_auxiliary_llm :: bool
  xe_auxiliary_with_max_tokens :: "nat \<Rightarrow> rstr + unit"
  xe_ensure_actor_sandbox :: "actor \<Rightarrow> rstr + rstr"

definition create_selected_runner :: "execution_env \<Rightarrow> runner_selection \<Rightarrow> rstr \<Rightarrow> rstr + rstr" where
  "create_selected_runner X selection system_prompt =
     (case selection of
        Configured model_override \<Rightarrow> xe_create_runner X system_prompt model_override
      | AuxiliaryFunctionCalling max_iterations (Some max_tokens) \<Rightarrow>
          map_sum id (\<lambda>_. lit ''function_calling'') (xe_auxiliary_with_max_tokens X max_tokens)
      | AuxiliaryFunctionCalling max_iterations None \<Rightarrow>
          if xe_auxiliary_llm X then Inr (lit ''function_calling'') else Inl (lit ''execution prepare failed: auxiliary llm unavailable''))"

definition prepare :: "execution_env \<Rightarrow> execution_mode \<Rightarrow> runner_selection \<Rightarrow> runner_request \<Rightarrow> rstr + prepared_execution" where
  "prepare X mode selection request =
     (case create_selected_runner X selection (rq_system_prompt request) of
        Inl e \<Rightarrow> Inl e
      | Inr runner_name \<Rightarrow>
          (case xe_ensure_actor_sandbox X (rq_actor request) of
             Inl e \<Rightarrow> Inl ([97, 99, 116, 111, 114, 32, 115, 97, 110, 100, 98, 111, 120, 32, 21021, 22987, 21270, 22833, 36133, 58, 32] @ e)
           | Inr dir \<Rightarrow>
               Inr \<lparr>px_runner_name = runner_name,
                 px_request = request\<lparr>rq_working_directory := dir,
                   rq_actor_label := (case mode of PersistentConversation \<Rightarrow> a_user_id (rq_actor request)
                     | TransientTask \<Rightarrow> actor_session_id (rq_actor request))\<rparr>\<rparr>))"

section \<open>What a runner answers\<close>

record runner_result =
  rr_response :: agent_response
  rr_streamed_output :: bool
  rr_terminal_error_emitted :: bool
  rr_metadata_updates :: "(rstr \<times> json) list"
  rr_context_messages :: "agent_message list option"

definition should_return_runner_result :: "runner_result \<Rightarrow> bool" where
  "should_return_runner_result r \<longleftrightarrow> \<not> rs_success (rr_response r) \<or> trim (rs_content (rr_response r)) \<noteq> []"

definition is_context_overflow_error_text :: "rstr \<Rightarrow> bool" where
  "is_context_overflow_error_text = is_context_overflow_error"

definition overflowed :: "agent_response \<Rightarrow> bool" where
  "overflowed r \<longleftrightarrow> \<not> rs_success r \<and> (case rs_error r of Some e \<Rightarrow> is_context_overflow_error_text e | None \<Rightarrow> False)"

definition empty_response :: agent_response where
  "empty_response = \<lparr>rs_content = [], rs_tool_calls_made = [], rs_iterations = 0, rs_success = False, rs_error = None\<rparr>"

section \<open>Generated files\<close>

text \<open>A directory as it is read: files with the time they were written, directories that may be unreadable, and
  whatever else there is. The entries are in the order of their paths.\<close>

datatype dir_entry = FileEntry rstr "nat option" | DirEntry rstr "dir_entry list option" | OtherEntry rstr

definition MAX_GENERATED_ATTACHMENTS :: nat where "MAX_GENERATED_ATTACHMENTS = 6"
definition MAX_SCAN_DEPTH :: nat where "MAX_SCAN_DEPTH = 4"
definition RECENT_FILE_GRACE :: nat where "RECENT_FILE_GRACE = 2"

definition downloadable_extensions :: "rstr list" where
  "downloadable_extensions =
     map lit [''csv'', ''doc'', ''docx'', ''gif'', ''jpeg'', ''jpg'', ''json'', ''md'', ''pdf'', ''png'', ''ppt'', ''pptx'', ''txt'', ''webp'',
       ''xls'', ''xlsx'', ''zip'']"

definition is_downloadable_artifact_path :: "rstr \<Rightarrow> bool" where
  "is_downloadable_artifact_path p \<longleftrightarrow>
     (case Option.bind (map_option stem_and_extension (path_file_name p)) snd of
        None \<Rightarrow> False
      | Some ext \<Rightarrow> to_ascii_lowercase ext \<in> set downloadable_extensions)"

definition recent_mentioned :: "rstr \<Rightarrow> nat \<Rightarrow> rstr \<Rightarrow> nat option \<Rightarrow> bool" where
  "recent_mentioned content cutoff p modified \<longleftrightarrow>
     is_downloadable_artifact_path p \<and> (case modified of None \<Rightarrow> False | Some t \<Rightarrow> cutoff \<le> t) \<and>
     (case path_file_name p of None \<Rightarrow> False | Some name \<Rightarrow> contains_str content name)"

function collect_recent_mentioned_files_inner :: "rstr \<Rightarrow> nat \<Rightarrow> nat \<Rightarrow> dir_entry list \<Rightarrow> rstr list \<Rightarrow> rstr list" where
  "collect_recent_mentioned_files_inner content cutoff depth [] found = found"
| "collect_recent_mentioned_files_inner content cutoff depth (FileEntry p modified # es) found =
     (if depth > MAX_SCAN_DEPTH \<or> length found \<ge> MAX_GENERATED_ATTACHMENTS then found
      else collect_recent_mentioned_files_inner content cutoff depth es
        (if recent_mentioned content cutoff p modified then found @ [p] else found))"
| "collect_recent_mentioned_files_inner content cutoff depth (DirEntry p (Some sub) # es) found =
     (if depth > MAX_SCAN_DEPTH \<or> length found \<ge> MAX_GENERATED_ATTACHMENTS then found
      else collect_recent_mentioned_files_inner content cutoff depth es
        (collect_recent_mentioned_files_inner content cutoff (depth + 1) sub found))"
| "collect_recent_mentioned_files_inner content cutoff depth (DirEntry p None # es) found =
     (if depth > MAX_SCAN_DEPTH \<or> length found \<ge> MAX_GENERATED_ATTACHMENTS then found
      else collect_recent_mentioned_files_inner content cutoff depth es found)"
| "collect_recent_mentioned_files_inner content cutoff depth (OtherEntry p # es) found =
     (if depth > MAX_SCAN_DEPTH \<or> length found \<ge> MAX_GENERATED_ATTACHMENTS then found
      else collect_recent_mentioned_files_inner content cutoff depth es found)"
  by pat_completeness auto

termination
  by (relation "measure (\<lambda>(_, _, _, es, _). size_list size es)") auto

definition collect_recent_mentioned_files :: "rstr \<Rightarrow> dir_entry list option \<Rightarrow> nat \<Rightarrow> rstr list" where
  "collect_recent_mentioned_files content dir run_started_at =
     (case dir of
        None \<Rightarrow> []
      | Some es \<Rightarrow> if trim content = [] then []
          else collect_recent_mentioned_files_inner content 
            (if RECENT_FILE_GRACE \<le> run_started_at then run_started_at - RECENT_FILE_GRACE else run_started_at) 0 es [])"

definition attach_web_generated_files :: "dir_entry list option \<Rightarrow> nat \<Rightarrow> agent_response \<Rightarrow> agent_response" where
  "attach_web_generated_files dir run_started_at r =
     (if \<not> rs_success r \<or> contains_str (rs_content r) [91, 38468, 20214, 58, 32] then r
      else r\<lparr>rs_content := rs_content r @
        concat (map (\<lambda>p. [10, 91, 38468, 20214, 58, 32] @ p @ [93]) (collect_recent_mentioned_files (rs_content r) dir run_started_at))\<rparr>)"

text \<open>At most six files are attached.\<close>

lemma collected_few:
  "length found \<le> MAX_GENERATED_ATTACHMENTS \<Longrightarrow>
   length (collect_recent_mentioned_files_inner content cutoff depth es found) \<le> MAX_GENERATED_ATTACHMENTS"
  by (induction content cutoff depth es found rule: collect_recent_mentioned_files_inner.induct) auto

lemma attach_keeps [simp]:
  "rs_success (attach_web_generated_files dir t r) = rs_success r"
  "rs_error (attach_web_generated_files dir t r) = rs_error r"
  by (simp_all add: attach_web_generated_files_def)

lemma attach_not_blank: "trim (rs_content r) \<noteq> [] \<Longrightarrow> trim (rs_content (attach_web_generated_files dir t r)) \<noteq> []"
  by (auto simp: attach_web_generated_files_def not_blank_append)

end
