(* ===== verification/Agent_Run.thy ===== *)
theory Agent_Run
  imports Agent_Session
begin

text \<open>
  \<^verbatim>\<open>hone-channels/src/agent_session/core.rs\<close> and \<^verbatim>\<open>guard.rs\<close>: one run of an agent session, from the message of a user to the
  answer, with the conversation, the quota and the events the listeners are handed. A run holds the lock of its session
  from start to end, so it is one step. The runner is a parameter: what it emits on its way and answers at its
  \<open>k\<close>-th call. Logging and the measured time are not modelled.
\<close>

section \<open>World and environment\<close>

text \<open>While a runner works, its events are mixed with the ticks of a watchdog, with the seconds elapsed.\<close>

datatype runner_emission = Emitted run_event | WatchdogTick nat

record run_env =
  re_compaction :: compaction_env
  re_images :: image_env
  re_skills :: skill_runtime
  re_execution :: execution_env
  re_prompt :: "session_storage \<Rightarrow> rstr \<Rightarrow> rstr \<Rightarrow> rstr \<times> rstr"
  re_manages_own_context :: bool
  re_daily_limit :: "32 word"
  re_is_admin :: "actor \<Rightarrow> bool"
  re_quota_date :: rstr
  re_clock :: "nat \<Rightarrow> rstr"
  re_fresh :: rstr
  re_files :: "rstr \<Rightarrow> dir_entry list option"
  re_started_at :: nat
  re_runner :: "nat \<Rightarrow> runner_request \<Rightarrow> runner_emission list \<times> runner_result"

record run_world =
  rw_store :: session_storage
  rw_quota :: quota_disk
  rw_events :: "session_event list"
  rw_calls :: nat
  rw_tick :: nat

abbreviation codec :: "run_env \<Rightarrow> json_codec" where "codec env \<equiv> ce_codec (re_compaction env)"
abbreviation regexes :: "run_env \<Rightarrow> regex_engine" where "regexes env \<equiv> ce_regex (re_compaction env)"

definition now :: "run_env \<Rightarrow> run_world \<Rightarrow> rstr" where
  "now env w = re_clock env (rw_tick w)"

text \<open>An operation on the conversations, with the time it reads.\<close>

definition storing :: "run_env \<Rightarrow> (rstr \<Rightarrow> session_storage \<Rightarrow> session_storage \<times> 'r) \<Rightarrow> run_world \<Rightarrow> run_world \<times> 'r" where
  "storing env change w =
     (let (st, r) = change (now env w) (rw_store w) in (w\<lparr>rw_store := st, rw_tick := Suc (rw_tick w)\<rparr>, r))"

definition emit :: "session_event \<Rightarrow> run_world \<Rightarrow> run_world" where
  "emit event w = w\<lparr>rw_events := rw_events w @ [event]\<rparr>"

definition session_progress_event :: "rstr \<Rightarrow> rstr option \<Rightarrow> session_event" where
  "session_progress_event stage detail = RunEvent (RunProgress stage detail)"

definition session_error_event :: "error_kind \<Rightarrow> rstr \<Rightarrow> session_event" where
  "session_error_event kind message = RunEvent (RunError kind message)"

definition hone_error_text :: "hone_error \<Rightarrow> rstr" where
  "hone_error_text e =
     (case e of
        Config s \<Rightarrow> [37197, 32622, 38169, 35823, 58, 32] @ s | Llm s \<Rightarrow> [76, 76, 77, 32, 38169, 35823, 58, 32] @ s | Tool s \<Rightarrow> [24037, 20855, 25191, 34892, 38169, 35823, 58, 32] @ s
      | Storage s \<Rightarrow> [23384, 20648, 38169, 35823, 58, 32] @ s | Integration s \<Rightarrow> [38598, 25104, 38169, 35823, 58, 32] @ s | Channel s \<Rightarrow> [28192, 36947, 38169, 35823, 58, 32] @ s
      | Io s \<Rightarrow> [73, 79, 32, 38169, 35823, 58, 32] @ s | Serialization s \<Rightarrow> [24207, 21015, 21270, 38169, 35823, 58, 32] @ s | Http s \<Rightarrow> [72, 84, 84, 80, 32, 38169, 35823, 58, 32] @ s
      | Timeout s \<Rightarrow> [36229, 26102, 38169, 35823, 58, 32] @ s | Other s \<Rightarrow> s)"

section \<open>Calling the runner\<close>

definition watchdog_detail :: "rstr \<Rightarrow> nat \<Rightarrow> nat \<Rightarrow> nat \<Rightarrow> rstr" where
  "watchdog_detail runner_name attempt elapsed_s ticks =
     runner_name @ lit '' elapsed_s='' @ nat_digits elapsed_s @ lit '' tick='' @ nat_digits ticks
     @ (if attempt = 0 then [] else lit '' retry_attempt='' @ nat_digits attempt)"

primrec deliver_emission :: "run_env \<Rightarrow> prepared_execution \<Rightarrow> nat \<Rightarrow> runner_emission \<Rightarrow> run_world \<times> nat \<Rightarrow> run_world \<times> nat" where
  "deliver_emission env x attempt (Emitted event) wt =
     (case emit_run_event (codec env) (regexes env) (rq_working_directory (px_request x)) event of
        None \<Rightarrow> wt
      | Some e \<Rightarrow> (emit e (fst wt), snd wt))"
| "deliver_emission env x attempt (WatchdogTick elapsed_s) wt =
     (emit (session_progress_event (lit ''agent.run.progress'')
        (Some (watchdog_detail (px_runner_name x) attempt elapsed_s (Suc (snd wt))))) (fst wt), Suc (snd wt))"

definition run_runner_with_progress_watchdog :: "run_env \<Rightarrow> prepared_execution \<Rightarrow> nat \<Rightarrow> run_world \<Rightarrow> run_world \<times> runner_result" where
  "run_runner_with_progress_watchdog env x attempt w =
     (let (emissions, result) = re_runner env (rw_calls w) (px_request x) in
      (fst (fold (deliver_emission env x attempt) emissions (w\<lparr>rw_calls := Suc (rw_calls w)\<rparr>, 0)), result))"

text \<open>The loop over the retries that are left after a first result.\<close>

primrec retry_empty :: "run_env \<Rightarrow> prepared_execution \<Rightarrow> nat \<Rightarrow> runner_result \<Rightarrow> run_world \<Rightarrow> run_world \<times> runner_result" where
  "retry_empty env x 0 result w = (w, result)"
| "retry_empty env x (Suc left) result w =
     (if should_return_runner_result result then (w, result)
      else
        (let attempt = EMPTY_SUCCESS_RETRY_LIMIT - left;
             w = emit (session_progress_event (lit ''agent.run.retry'')
               (Some (px_runner_name x @ lit '' empty_success attempt='' @ nat_digits attempt @ lit ''/''
                 @ nat_digits EMPTY_SUCCESS_RETRY_LIMIT))) w;
             (w, result) = run_runner_with_progress_watchdog env x attempt w
         in retry_empty env x left result w))"

definition run_runner_with_empty_success_retry :: "run_env \<Rightarrow> prepared_execution \<Rightarrow> run_world \<Rightarrow> run_world \<times> runner_result" where
  "run_runner_with_empty_success_retry env x w =
     (let (w, result) = run_runner_with_progress_watchdog env x 0 w;
          (w, result) = retry_empty env x EMPTY_SUCCESS_RETRY_LIMIT result w
      in (w, if rs_success (rr_response result) \<and> trim (rs_content (rr_response result)) = []
             then result\<lparr>rr_response := as_empty (rr_response result)\<rparr> else result))"

section \<open>The conversation\<close>

definition ensure_session_exists :: "run_env \<Rightarrow> agent_session \<Rightarrow> run_world \<Rightarrow> run_world \<times> unit hone_result" where
  "ensure_session_exists env ag w =
     (case load_session (ag_session_id ag) (rw_store w) of
        (st, Inr (Some s)) \<Rightarrow> (w\<lparr>rw_store := st\<rparr>, Inr ())
      | (st, _) \<Rightarrow>
          (let (w, r) = storing env (\<lambda>t. create_session_for_identity t (re_fresh env) (ag_identity ag) (Some (ag_actor ag)))
             (w\<lparr>rw_store := st\<rparr>)
           in (w, map_sum id (\<lambda>_. ()) r)))"

definition update_session_metadata :: "run_env \<Rightarrow> agent_session \<Rightarrow> run_world \<Rightarrow> run_world" where
  "update_session_metadata env ag w =
     (case ag_session_metadata ag of
        None \<Rightarrow> w
      | Some md \<Rightarrow> fst (storing env (\<lambda>t. update_metadata t (ag_session_id ag) md) w))"

definition persist_user_message :: "run_env \<Rightarrow> agent_session \<Rightarrow> rstr \<Rightarrow> metadata option \<Rightarrow> run_world \<Rightarrow> run_world" where
  "persist_user_message env ag content md w =
     fst (storing env (\<lambda>t. add_message (codec env) t (ag_session_id ag) (lit ''user'') content md) w)"

definition append_assistant :: "run_env \<Rightarrow> agent_session \<Rightarrow> normalized_message option \<Rightarrow> run_world \<Rightarrow> run_world" where
  "append_assistant env ag message w =
     (case message of
        None \<Rightarrow> w
      | Some m \<Rightarrow>
          (let stored = session_message_from_normalized m (now env w) in
           fst (storing env (\<lambda>t. append_session_messages t (ag_session_id ag) [stored]) (w\<lparr>rw_tick := Suc (rw_tick w)\<rparr>))))"

definition persist_successful_assistant_turn ::
    "run_env \<Rightarrow> agent_session \<Rightarrow> agent_response \<Rightarrow> agent_message list option \<Rightarrow> run_world \<Rightarrow> run_world" where
  "persist_successful_assistant_turn env ag r context_messages w =
     (let source = Option.bind (Option.bind context_messages (\<lambda>ms. find (\<lambda>m. am_role m = lit ''assistant'') (rev ms))) am_metadata;
          md = (case source of Some extra \<Rightarrow> merge_message_metadata (ag_assistant_metadata ag) extra | None \<Rightarrow> ag_assistant_metadata ag)
      in append_assistant env ag (persistable_turn_from_response (codec env) r md) w)"

definition persist_assistant_text_turn :: "run_env \<Rightarrow> agent_session \<Rightarrow> rstr \<Rightarrow> metadata \<Rightarrow> run_world \<Rightarrow> run_world" where
  "persist_assistant_text_turn env ag content metadata_extra w =
     append_assistant env ag
       (persistable_turn_from_response (codec env) (empty_response\<lparr>rs_content := content\<rparr>)
         (merge_message_metadata (ag_assistant_metadata ag) metadata_extra)) w"

definition slash_skill_record :: "rstr \<Rightarrow> rstr \<Rightarrow> rstr \<Rightarrow> invoked_skill" where
  "slash_skill_record skill_id prompt updated_at =
     \<lparr>sk_skill_name = skill_id, sk_display_name = skill_id, sk_path = lit ''slash:'' @ skill_id, sk_prompt = prompt,
      sk_execution_context = lit ''inline'', sk_allowed_tools = [], sk_model = None, sk_effort = None, sk_agent = None,
      sk_loaded_from = lit ''slash'', sk_updated_at = updated_at\<rparr>"

definition persist_invoked_skill_prompt :: "run_env \<Rightarrow> agent_session \<Rightarrow> rstr \<Rightarrow> rstr \<Rightarrow> run_world \<Rightarrow> run_world \<times> unit hone_result" where
  "persist_invoked_skill_prompt env ag skill_id prompt w =
     (case load_session (ag_session_id ag) (rw_store w) of
        (st, Inl e) \<Rightarrow> (w\<lparr>rw_store := st\<rparr>, Inl e)
      | (st, Inr s) \<Rightarrow>
          (let existing = (case s of Some s \<Rightarrow> cs_metadata s | None \<Rightarrow> Map.empty);
               invoked = filter (\<lambda>k. sk_skill_name k \<noteq> skill_id) (invoked_skills_from_metadata existing)
                 @ [slash_skill_record skill_id prompt (now env w)];
               md = [INVOKED_SKILLS_KEY \<mapsto> JArr (map json_of_invoked_skill invoked)];
               (w, r) = storing env (\<lambda>t. update_metadata t (ag_session_id ag) md)
                 (w\<lparr>rw_store := st, rw_tick := Suc (rw_tick w)\<rparr>)
           in (w, map_sum id (\<lambda>_. ()) r)))"

definition compacting ::
    "run_env \<Rightarrow> agent_session \<Rightarrow> rstr \<Rightarrow> bool \<Rightarrow> rstr option \<Rightarrow> run_world \<Rightarrow> run_world \<times> compact_outcome hone_result" where
  "compacting env ag trigger force instructions w =
     (let (st, r) = compact_session (re_compaction env) (\<lambda>k. re_clock env (rw_tick w + k)) (ag_session_id ag) trigger force
        instructions (rw_store w)
      in (w\<lparr>rw_store := st, rw_tick := rw_tick w + 8\<rparr>, r))"

definition maybe_compress_session :: "run_env \<Rightarrow> agent_session \<Rightarrow> run_world \<Rightarrow> run_world \<times> unit hone_result" where
  "maybe_compress_session env ag w =
     (if re_manages_own_context env then (w, Inr ())
      else let (w, r) = compacting env ag (lit ''auto'') False None w in (w, map_sum id (\<lambda>_. ()) r))"

definition OVERFLOW_INSTRUCTIONS :: rstr where
  "OVERFLOW_INSTRUCTIONS = [20248, 20808, 20445, 30041, 26368, 36817, 29992, 25143, 38382, 39064, 12289, 26368, 36817, 32467, 35770,
    12289, 26410, 23436, 25104, 20107, 39033, 65292, 20197, 21450, 32487, 32493, 24403, 21069, 22238, 31572,
    25152, 24517, 38656, 30340, 26368, 23567, 19978, 19979, 25991, 12290]"

definition force_compact_for_context_overflow :: "run_env \<Rightarrow> agent_session \<Rightarrow> run_world \<Rightarrow> run_world \<times> (rstr + bool)" where
  "force_compact_for_context_overflow env ag w =
     (let (w, r) = compacting env ag (lit ''context_overflow_recovery'') True (Some OVERFLOW_INSTRUCTIONS) w
      in (w, map_sum hone_error_text co_compacted r))"

section \<open>Preparing a turn\<close>

text \<open>The message of the user is the last one of the restored history; it is left out, since it is the input.\<close>

definition restore_runtime_context :: "run_env \<Rightarrow> agent_session \<Rightarrow> rstr \<Rightarrow> nat option \<Rightarrow> run_world \<Rightarrow> run_world \<times> agent_context" where
  "restore_runtime_context env ag persisted restore_max_override w =
     (let (st, cx) = restore_context (codec env) (regexes env) (Some (sr_registered (re_skills env))) (ag_session_id ag)
            (or_else restore_max_override (ag_restore_max_messages ag)) (rw_store w);
          cx = set_actor_identity (ag_actor ag) cx;
          ms = cx_messages cx
      in (w\<lparr>rw_store := st\<rparr>,
          if ms \<noteq> [] \<and> am_role (last ms) = lit ''user'' \<and> am_content (last ms) = Some persisted then cx\<lparr>cx_messages := butlast ms\<rparr> else cx))"

definition load_session_metadata :: "agent_session \<Rightarrow> run_world \<Rightarrow> run_world \<times> metadata" where
  "load_session_metadata ag w =
     (case load_session (ag_session_id ag) (rw_store w) of
        (st, Inr (Some s)) \<Rightarrow> (w\<lparr>rw_store := st\<rparr>, cs_metadata s)
      | (st, _) \<Rightarrow> (w\<lparr>rw_store := st\<rparr>, Map.empty))"

definition prepare_execution_for_turn ::
    "run_env \<Rightarrow> agent_session \<Rightarrow> rstr option \<Rightarrow> rstr \<Rightarrow> rstr \<Rightarrow> nat option \<Rightarrow> run_world \<Rightarrow>
     run_world \<times> (error_kind \<times> rstr + prepared_execution)" where
  "prepare_execution_for_turn env ag model_override persisted runtime restore_max_override w =
     (let (w, cx) = restore_runtime_context env ag persisted restore_max_override w;
          (system_prompt, runtime_input) = re_prompt env (rw_store w) (ag_session_id ag) runtime;
          (w, md) = load_session_metadata ag w
      in (w, map_sum (\<lambda>e. (if contains_str e (lit ''sandbox'') then IoFailed else AgentFailed, e)) id
           (prepare (re_execution env) PersistentConversation (Configured model_override)
             \<lparr>rq_session_id = ag_session_id ag, rq_actor_label = [], rq_actor = ag_actor ag, rq_channel_target = ag_channel_target ag,
              rq_allow_cron = ag_allow_cron ag, rq_system_prompt = system_prompt, rq_runtime_input = runtime_input,
              rq_context = cx, rq_session_metadata = md, rq_working_directory = []\<rparr>)))"

section \<open>The quota\<close>

definition quota_rejected_text :: "quota_snapshot \<Rightarrow> rstr" where
  "quota_rejected_text s =
     [24050, 36798, 21040, 20170, 26085, 23545, 35805, 19978, 38480, 65288] @ nat_digits (unat (qs_success_count s + qs_in_flight s)) @ lit ''/'' @ nat_digits (unat (qs_limit s))
     @ [65292, 21271, 20140, 26102, 38388, 32] @ qs_date s @ [65289, 65292, 35831, 26126, 22825, 20877, 35797]"

definition reserve_conversation_quota ::
    "run_env \<Rightarrow> agent_session \<Rightarrow> quota_mode \<Rightarrow> run_world \<Rightarrow> run_world \<times> quota_reservation option hone_result" where
  "reserve_conversation_quota env ag mode w =
     (if mode = ScheduledTask then (w, Inr None)
      else if re_daily_limit env = 0 then (w, Inr None)
      else case try_reserve_for_date (rw_quota w) (ag_actor ag) (re_quota_date env) (re_daily_limit env) (re_is_admin env (ag_actor ag)) (now env w) of
             Inl e \<Rightarrow> (w, Inl e)
           | Inr (d, Reserved reservation) \<Rightarrow> (w\<lparr>rw_quota := d, rw_tick := Suc (rw_tick w)\<rparr>, Inr (Some reservation))
           | Inr (d, Bypassed) \<Rightarrow> (w\<lparr>rw_quota := d\<rparr>, Inr None)
           | Inr (d, Rejected snapshot) \<Rightarrow> (w\<lparr>rw_quota := d\<rparr>, Inl (Other (quota_rejected_text snapshot))))"

text \<open>The guard: a reservation is committed, or released when the guard is dropped. A failure is ignored.\<close>

definition finish_guard ::
    "(quota_disk \<Rightarrow> quota_reservation \<Rightarrow> rstr \<Rightarrow> quota_disk hone_result) \<Rightarrow> run_env \<Rightarrow> quota_reservation option \<Rightarrow> run_world \<Rightarrow> run_world" where
  "finish_guard settle env reservation w =
     (case reservation of
        None \<Rightarrow> w
      | Some r \<Rightarrow>
          (case settle (rw_quota w) r (now env w) of
             Inl e \<Rightarrow> w
           | Inr d \<Rightarrow> w\<lparr>rw_quota := d, rw_tick := Suc (rw_tick w)\<rparr>))"

definition guard_commit :: "run_env \<Rightarrow> quota_reservation option \<Rightarrow> run_world \<Rightarrow> run_world" where
  "guard_commit = finish_guard commit_daily_conversation"

definition guard_drop :: "run_env \<Rightarrow> quota_reservation option \<Rightarrow> run_world \<Rightarrow> run_world" where
  "guard_drop = finish_guard release_daily_conversation"

section \<open>The run\<close>

definition finish_with :: "agent_response \<Rightarrow> run_world \<Rightarrow> run_world \<times> agent_response" where
  "finish_with r w = (emit (DoneEvent r) w, r)"

definition fail_run :: "error_kind \<Rightarrow> rstr \<Rightarrow> run_world \<Rightarrow> run_world \<times> agent_response" where
  "fail_run kind message w = finish_with (empty_response\<lparr>rs_error := Some message\<rparr>) (emit (session_error_event kind message) w)"

definition run_manual_compact :: "run_env \<Rightarrow> agent_session \<Rightarrow> compact_command \<Rightarrow> run_world \<Rightarrow> run_world \<times> agent_response" where
  "run_manual_compact env ag command w =
     (let w = emit (session_progress_event (lit ''session.compress'') (Some (lit ''start''))) w
      in case compacting env ag (lit ''manual'') True (cd_instructions command) w of
           (w, Inr outcome) \<Rightarrow>
             finish_with (empty_response\<lparr>rs_success := True,
                 rs_content := (if co_compacted outcome then lit ''Conversation compacted.''
                   else [26410, 25191, 34892, 32, 99, 111, 109, 112, 97, 99, 116, 65306, 24403, 21069, 27809, 26377, 21487, 21387,
    32553, 30340, 20250, 35805, 20869, 23481, 65292, 25110, 21387, 32553, 22120, 26242, 19981, 21487, 29992, 12290])\<rparr>)
               (emit (session_progress_event (lit ''session.compress'') (Some (lit ''done''))) w)
         | (w, Inl e) \<Rightarrow>
             fail_run AgentFailed (hone_error_text e)
               (emit (session_progress_event (lit ''session.compress'') (Some (lit ''failed''))) w))"

definition run_domain_boundary_short_circuit :: "run_env \<Rightarrow> agent_session \<Rightarrow> rstr \<Rightarrow> rstr \<Rightarrow> run_world \<Rightarrow> run_world \<times> agent_response" where
  "run_domain_boundary_short_circuit env ag raw_input reply w =
     (let w = persist_user_message env ag raw_input (ag_user_metadata ag) w;
          w = emit (UserMessageEvent raw_input) w;
          response = empty_response\<lparr>rs_success := True, rs_content := reply\<rparr>
      in finish_with response (persist_successful_assistant_turn env ag response None w))"

definition quota_refused :: "run_env \<Rightarrow> agent_session \<Rightarrow> rstr \<Rightarrow> hone_error \<Rightarrow> run_world \<Rightarrow> run_world \<times> agent_response" where
  "quota_refused env ag user_input e w =
     (let quota_message = user_visible_error_message (regexes env) (Some (hone_error_text e));
          w = persist_user_message env ag user_input (ag_user_metadata ag) w;
          w = emit (UserMessageEvent user_input) w;
          w = persist_assistant_text_turn env ag quota_message [lit ''quota_rejected'' \<mapsto> JBool True] w
      in fail_run AgentFailed quota_message w)"

text \<open>One round with the runner, and the rounds after a context overflow.\<close>

record run_attempt =
  at_execution :: prepared_execution
  at_streamed_output :: bool
  at_terminal_error_emitted :: bool
  at_context_messages :: "agent_message list option"
  at_response :: agent_response

definition attempt_once :: "run_env \<Rightarrow> agent_session \<Rightarrow> prepared_execution \<Rightarrow> run_world \<Rightarrow> run_world \<times> run_attempt" where
  "attempt_once env ag x w =
     (let (w, result) = run_runner_with_empty_success_retry env x w;
          w = (if rr_metadata_updates result = [] then w
               else fst (storing env (\<lambda>t. update_metadata t (ag_session_id ag) (map_of (rr_metadata_updates result))) w))
      in (w, \<lparr>at_execution = x, at_streamed_output = rr_streamed_output result,
              at_terminal_error_emitted = rr_terminal_error_emitted result,
              at_context_messages = rr_context_messages result, at_response = rr_response result\<rparr>))"

definition gave_up :: "run_attempt \<Rightarrow> run_attempt" where
  "gave_up a = a\<lparr>at_response := (at_response a)\<lparr>rs_success := False, rs_error := Some CONTEXT_OVERFLOW_FALLBACK_MESSAGE\<rparr>\<rparr>"

primrec run_attempts ::
    "run_env \<Rightarrow> agent_session \<Rightarrow> rstr option \<Rightarrow> rstr \<Rightarrow> rstr \<Rightarrow> nat \<Rightarrow> prepared_execution \<Rightarrow> run_world \<Rightarrow> run_world \<times> run_attempt" where
  "run_attempts env ag model_override persisted runtime 0 x w = attempt_once env ag x w"
| "run_attempts env ag model_override persisted runtime (Suc left) x w =
     (let (w, a) = attempt_once env ag x w in
      if \<not> overflowed (at_response a) then (w, a)
      else
        (let w = emit (session_progress_event (lit ''agent.run.retry'')
               (Some (px_runner_name x @ lit '' context_overflow attempt='' @ nat_digits (CONTEXT_OVERFLOW_RECOVERY_LIMIT - left) @ lit ''/''
                 @ nat_digits CONTEXT_OVERFLOW_RECOVERY_LIMIT))) w
         in case force_compact_for_context_overflow env ag w of
              (w, Inl e) \<Rightarrow> (w, gave_up a)
            | (w, Inr compacted) \<Rightarrow>
                (case prepare_execution_for_turn env ag model_override persisted runtime
                        (Some CONTEXT_OVERFLOW_POST_COMPACT_RESTORE_LIMIT) w of
                   (w, Inl e) \<Rightarrow> (w, gave_up a)
                 | (w, Inr x') \<Rightarrow> run_attempts env ag model_override persisted runtime left x' w)))"

definition final_response :: "run_env \<Rightarrow> agent_session \<Rightarrow> run_attempt \<Rightarrow> agent_response" where
  "final_response env ag a =
     (let r = (if overflowed (at_response a) then (at_response a)\<lparr>rs_error := Some CONTEXT_OVERFLOW_FALLBACK_MESSAGE\<rparr> else at_response a);
          r = fst (finalize_agent_response (regexes env) (re_images env) (ag_session_id ag) r)
      in if a_channel (ag_actor ag) = lit ''web'' \<and> rs_success r \<and>
            \<not> (case ag_recv_extra ag of Some extra \<Rightarrow> contains_str extra (lit ''openai_compatible_api=true'') | None \<Rightarrow> False)
         then attach_web_generated_files (re_files env (rq_working_directory (px_request (at_execution a)))) (re_started_at env) r
         else r)"

definition failure_kind :: "rstr \<Rightarrow> error_kind" where
  "failure_kind err =
     (if contains_str err (lit ''agent_timeout'') then AgentTimeout
      else if err = CONTEXT_OVERFLOW_FALLBACK_MESSAGE then ContextWindowOverflow
      else AgentFailed)"

definition finish_run ::
    "run_env \<Rightarrow> agent_session \<Rightarrow> run_options \<Rightarrow> quota_reservation option \<Rightarrow> run_attempt \<Rightarrow> run_world \<Rightarrow> run_world \<times> agent_response" where
  "finish_run env ag opts reservation a w =
     (let r = final_response env ag a in
      if rs_success r then
        (let w = guard_commit env reservation w;
             w = (if at_streamed_output a then w
                  else case ro_segmenter opts of None \<Rightarrow> w
                    | Some segmenter \<Rightarrow> fold (\<lambda>t. emit (SegmentEvent t)) (segmenter (rs_content r)) w);
             w = persist_successful_assistant_turn env ag r (at_context_messages a) w
         in finish_with r w)
      else
        (let w = guard_drop env reservation w;
             err = unwrap_or [26410, 30693, 38169, 35823] (rs_error r);
             w = (if at_terminal_error_emitted a then w else emit (session_error_event (failure_kind err) err) w)
         in finish_with r w))"

text \<open>\<^verbatim>\<open>core/logging.rs\<close>: every runner supports the strict sandbox.\<close>

definition runner_supports_strict_actor_sandbox :: bool where
  "runner_supports_strict_actor_sandbox = True"

definition STRICT_SANDBOX_MESSAGE :: rstr where
  "STRICT_SANDBOX_MESSAGE = [24403, 21069, 32, 114, 117, 110, 110, 101, 114, 32, 19981, 25903, 25345, 20005, 26684, 32, 97, 99, 116, 111,
    114, 32, 115, 97, 110, 100, 98, 111, 120, 12290]"

definition start_runner ::
    "run_env \<Rightarrow> agent_session \<Rightarrow> run_options \<Rightarrow> quota_reservation option \<Rightarrow> rstr \<Rightarrow> rstr \<Rightarrow> run_world \<Rightarrow> run_world \<times> agent_response" where
  "start_runner env ag opts reservation persisted runtime w =
     (if \<not> runner_supports_strict_actor_sandbox then fail_run AgentFailed STRICT_SANDBOX_MESSAGE (guard_drop env reservation w)
      else case prepare_execution_for_turn env ag (ro_model_override opts) persisted runtime None w of
             (w, Inl (kind, e)) \<Rightarrow> fail_run kind e (guard_drop env reservation w)
           | (w, Inr x) \<Rightarrow>
               (let w = emit (session_progress_event (lit ''agent.run'') (Some (px_runner_name x))) w;
                    (w, a) = run_attempts env ag (ro_model_override opts) persisted runtime CONTEXT_OVERFLOW_RECOVERY_LIMIT x w
                in finish_run env ag opts reservation a w))"

text \<open>The message of the user is stored before anything else is tried.\<close>

definition file_user_turn :: "run_env \<Rightarrow> agent_session \<Rightarrow> rstr \<Rightarrow> slash_expansion option \<Rightarrow> run_world \<Rightarrow> run_world" where
  "file_user_turn env ag persisted slash w =
     (case slash of
        None \<Rightarrow> persist_user_message env ag persisted (ag_user_metadata ag) w
      | Some skill \<Rightarrow>
          fst (persist_invoked_skill_prompt env ag (sx_skill_id skill) (sx_invoked_prompt skill)
            (persist_user_message env ag persisted
              (merge_message_metadata (ag_user_metadata ag) [SLASH_SKILL_KEY \<mapsto> JStr (sx_skill_id skill)]) w)))"

definition run_reserved ::
    "run_env \<Rightarrow> agent_session \<Rightarrow> rstr \<Rightarrow> run_options \<Rightarrow> quota_reservation option \<Rightarrow> run_world \<Rightarrow> run_world \<times> agent_response" where
  "run_reserved env ag user_input opts reservation w =
     (case expand_slash_skill_input (re_skills env) (ag_allow_cron ag) (ag_session_id ag) user_input of
        Inl e \<Rightarrow> fail_run AgentFailed (hone_error_text e) (guard_drop env reservation w)
      | Inr slash \<Rightarrow>
          (let persisted = (case slash of Some skill \<Rightarrow> sx_raw_input skill | None \<Rightarrow> user_input);
               runtime = (case slash of Some skill \<Rightarrow> sx_runtime_input skill | None \<Rightarrow> user_input);
               w = file_user_turn env ag persisted slash w;
               w = emit (UserMessageEvent persisted) w;
               w = emit (session_progress_event (lit ''session.compress'') (Some (lit ''start''))) w;
               (w, compressed) = maybe_compress_session env ag w;
               w = emit (session_progress_event (lit ''session.compress'')
                 (Some (case compressed of Inl e \<Rightarrow> lit ''failed'' | Inr _ \<Rightarrow> lit ''done''))) w
           in start_runner env ag opts reservation persisted runtime w))"

definition run :: "run_env \<Rightarrow> agent_session \<Rightarrow> rstr \<Rightarrow> run_options \<Rightarrow> run_world \<Rightarrow> run_world \<times> agent_response" where
  "run env ag user_input opts w =
     (case ensure_session_exists env ag w of
        (w, Inl e) \<Rightarrow> fail_run AgentFailed (hone_error_text e) w
      | (w, Inr _) \<Rightarrow>
          (let w = update_session_metadata env ag w in
           case parse_compact_command user_input of
             Some command \<Rightarrow> run_manual_compact env ag command w
           | None \<Rightarrow>
               (case (if ro_quota_mode opts \<noteq> ScheduledTask \<and> \<not> re_is_admin env (ag_actor ag)
                      then non_finance_boundary_reply user_input else None) of
                  Some reply \<Rightarrow> run_domain_boundary_short_circuit env ag user_input reply w
                | None \<Rightarrow>
                    (case reserve_conversation_quota env ag (ro_quota_mode opts) w of
                       (w, Inl e) \<Rightarrow> quota_refused env ag user_input e w
                     | (w, Inr reservation) \<Rightarrow> run_reserved env ag user_input opts reservation w))))"

end
