(* ===== verification/Run_Properties.thy ===== *)
theory Run_Properties
  imports Agent_Run
begin

text \<open>
  What a run of \<^verbatim>\<open>Agent_Run\<close> guarantees: it hands out one answer, it calls the runner a bounded number of times, the quota is
  charged for answers only, and the stored conversation ends with the answer. At the end a concrete agent is run.
\<close>

section \<open>What every step keeps\<close>

definition is_done :: "session_event \<Rightarrow> bool" where
  "is_done e \<longleftrightarrow> (case e of DoneEvent _ \<Rightarrow> True | _ \<Rightarrow> False)"

definition has_session :: "rstr \<Rightarrow> run_world \<Rightarrow> bool" where
  "has_session sid w \<longleftrightarrow> sound (rw_store w) \<and> d_write_error (ss_files (rw_store w)) = None \<and>
     (\<exists>n s. validate_storage_component sid = Some n \<and> filed (ss_files (rw_store w)) n = Some s)"

text \<open>From one world to a later one: no answer has been handed out, the runner was called at most so often, the quota is
  as it was, and the conversation is still there.\<close>

definition goes_on :: "rstr \<Rightarrow> nat \<Rightarrow> run_world \<Rightarrow> run_world \<Rightarrow> bool" where
  "goes_on sid k w w' \<longleftrightarrow> rw_quota w' = rw_quota w \<and> (\<exists>es. rw_events w' = rw_events w @ es \<and> \<not> list_ex is_done es) \<and>
     rw_calls w' \<le> rw_calls w + k \<and> (has_session sid w \<longrightarrow> has_session sid w')"

named_theorems goes

lemma goes_refl [goes]: "goes_on sid k w w"
  by (simp add: goes_on_def)

lemma goes_trans: "goes_on sid j w w1 \<Longrightarrow> goes_on sid k w1 w2 \<Longrightarrow> goes_on sid (j + k) w w2"
  by (auto simp: goes_on_def)

lemma goes_emit [goes]: "\<not> is_done e \<Longrightarrow> goes_on sid k w0 w \<Longrightarrow> goes_on sid k w0 (emit e w)"
  by (auto simp: goes_on_def emit_def has_session_def)

lemma not_done [simp]:
  "\<not> is_done (session_progress_event stage detail)" "\<not> is_done (session_error_event kind message)"
  "\<not> is_done (RunEvent e)" "\<not> is_done (UserMessageEvent content)" "\<not> is_done (SegmentEvent t)" "is_done (DoneEvent r)"
  by (simp_all add: is_done_def session_progress_event_def session_error_event_def)

text \<open>A change of the conversations, whatever it does to the clock.\<close>

lemma goes_store:
  assumes "goes_on sid k w0 w" "has_session sid w \<Longrightarrow> sound st \<and> d_write_error (ss_files st) = None \<and>
    (\<exists>n s. validate_storage_component sid = Some n \<and> filed (ss_files st) n = Some s)"
  shows "goes_on sid k w0 (w\<lparr>rw_store := st, rw_tick := t\<rparr>)" "goes_on sid k w0 (w\<lparr>rw_store := st\<rparr>)"
  using assms by (auto simp: goes_on_def has_session_def)

lemma goes_tick [goes]: "goes_on sid k w0 w \<Longrightarrow> goes_on sid k w0 (w\<lparr>rw_tick := t\<rparr>)"
  by (simp add: goes_on_def has_session_def)

lemma goes_load:
  assumes "goes_on sid k w0 w" "load_session sid (rw_store w) = (st, r)"
  shows "goes_on sid k w0 (w\<lparr>rw_store := st\<rparr>)"
proof (rule goes_store(2) [OF assms(1)])
  assume "has_session sid w"
  then obtain n s where n: "sound (rw_store w)" "d_write_error (ss_files (rw_store w)) = None" "validate_storage_component sid = Some n"
    "filed (ss_files (rw_store w)) n = Some s" by (auto simp: has_session_def)
  then show "sound st \<and> d_write_error (ss_files st) = None \<and> (\<exists>n s. validate_storage_component sid = Some n \<and> filed (ss_files st) n = Some s)"
    using load_stored [OF n(1,3,4)] assms(2) by auto
qed

lemma goes_rewrite:
  assumes "goes_on sid k w0 w" "\<And>s s'. change s = Some s' \<Longrightarrow> cs_id s' = cs_id s"
    and "rewrite_session t sid change (rw_store w) = (st, r)"
  shows "goes_on sid k w0 (w\<lparr>rw_store := st, rw_tick := t'\<rparr>)"
proof (rule goes_store(1) [OF assms(1)])
  assume "has_session sid w"
  then obtain n s where n: "sound (rw_store w)" "d_write_error (ss_files (rw_store w)) = None" "validate_storage_component sid = Some n"
    "filed (ss_files (rw_store w)) n = Some s" by (auto simp: has_session_def)
  then show "sound st \<and> d_write_error (ss_files st) = None \<and> (\<exists>n s. validate_storage_component sid = Some n \<and> filed (ss_files st) n = Some s)"
    using rewrite_stored [of "rw_store w" sid n s change t, OF n(1,3,4) assms(2)] assms(3) by (auto split: option.splits)
qed

lemma goes_storing:
  assumes "goes_on sid k w0 w" "\<And>t s s'. change t s = Some s' \<Longrightarrow> cs_id s' = cs_id s"
  shows "goes_on sid k w0 (fst (storing env (\<lambda>t. rewrite_session t sid (change t)) w))"
  using goes_rewrite [OF assms(1), of "change (now env w)" "now env w"] assms(2)
  by (auto simp: storing_def split: prod.split)

lemma goes_add [goes]: "goes_on sid k w0 w \<Longrightarrow> goes_on sid k w0 (fst (storing env (\<lambda>t. add_message J t sid role content md) w))"
  unfolding add_message_def by (rule goes_storing) auto

lemma goes_append [goes]: "goes_on sid k w0 w \<Longrightarrow> goes_on sid k w0 (fst (storing env (\<lambda>t. append_session_messages t sid ms) w))"
  unfolding append_session_messages_def by (rule goes_storing) auto

lemma goes_metadata [goes]: "goes_on sid k w0 w \<Longrightarrow> goes_on sid k w0 (fst (storing env (\<lambda>t. update_metadata t sid md) w))"
  unfolding update_metadata_def by (rule goes_storing) auto

lemma compact_stored:
  assumes "sound st" "validate_storage_component sid = Some n" "filed (ss_files st) n = Some s"
    and "compact_session env clock sid trigger force instructions st = (st', r)"
  shows "sound st' \<and> d_write_error (ss_files st') = d_write_error (ss_files st) \<and> (\<exists>s'. filed (ss_files st') n = Some s')"
proof -
  obtain st1 where load: "load_session sid st = (st1, Inr (Some s))" "sound st1" "ss_files st1 = ss_files st"
    using load_stored [OF assms(1-3)] by blast
  have filed: "filed (ss_files st1) n = Some s" using assms(3) load(3) by simp
  have rewrite: "sound st2 \<and> d_write_error (ss_files st2) = d_write_error (ss_files st) \<and> (\<exists>s'. filed (ss_files st2) n = Some s')"
    if "replace_messages_with_summary t sid ms y st1 = (st2, r2)" for t ms y st2 r2
    using rewrite_stored [OF load(2) assms(2) filed, of "\<lambda>s. Some (s\<lparr>cs_messages := ms, cs_summary := y\<rparr>)" t] that load(3)
    by (auto simp: replace_messages_with_summary_def split: option.splits)
  define idle where "idle \<longleftrightarrow> active_messages s = [] \<or> \<not> should_compress env (session_is_group s) force (active_messages s) \<or>
    messages_to_summarize (retain_recent (ce_group env) (session_is_group s)) force (active_messages s) = []"
  note run = assms(4) [unfolded compact_loaded [OF load(1)] Let_def, folded idle_def]
  show ?thesis
    using run load filed by (auto split: if_splits option.splits prod.splits sum.splits dest: rewrite)
qed

lemma goes_compacting:
  assumes "goes_on (ag_session_id ag) k w0 w" "compacting env ag trigger force instructions w = (w1, r)"
  shows "goes_on (ag_session_id ag) k w0 w1"
proof -
  let ?sid = "ag_session_id ag"
  obtain st where st: "compact_session (re_compaction env) (\<lambda>k. re_clock env (rw_tick w + k)) ?sid trigger force instructions (rw_store w) = (st, r)"
    "w1 = w\<lparr>rw_store := st, rw_tick := rw_tick w + 8\<rparr>"
    using assms(2) by (auto simp: compacting_def split: prod.splits)
  show ?thesis unfolding st(2)
    by (rule goes_store(1) [OF assms(1)]) (use compact_stored [OF _ _ _ st(1)] in \<open>auto simp: has_session_def\<close>)
qed

section \<open>The steps of a run\<close>

lemma goes_ensure:
  assumes "goes_on (ag_session_id ag) k w0 w" "ensure_session_exists env ag w = (w1, r)"
  shows "goes_on (ag_session_id ag) k w0 w1"
proof -
  let ?sid = "ag_session_id ag"
  obtain st l where load: "load_session ?sid (rw_store w) = (st, l)" by fastforce
  show ?thesis
  proof (cases "\<exists>s. l = Inr (Some s)")
    case True
    then show ?thesis using assms goes_load [OF assms(1) load] load by (auto simp: ensure_session_exists_def)
  next
    case False
    obtain st' r' where create: "create_session_for_identity (now env (w\<lparr>rw_store := st\<rparr>)) (re_fresh env) (ag_identity ag) (Some (ag_actor ag)) st = (st', r')"
      by fastforce
    have w1: "w1 = w\<lparr>rw_store := st', rw_tick := Suc (rw_tick w)\<rparr>"
      using assms(2) load False create by (auto simp: ensure_session_exists_def storing_def Let_def split: sum.splits option.splits)
    have absent: "\<not> has_session ?sid w"
    proof
      assume "has_session ?sid w"
      then obtain n s where "sound (rw_store w)" "validate_storage_component ?sid = Some n" "filed (ss_files (rw_store w)) n = Some s"
        by (auto simp: has_session_def)
      then show False using load_stored [of "rw_store w" ?sid n s] load False by auto
    qed
    show ?thesis unfolding w1 by (rule goes_store(1) [OF assms(1)]) (use absent in blast)
  qed
qed

lemma goes_update_metadata [goes]: "goes_on (ag_session_id ag) k w0 w \<Longrightarrow> goes_on (ag_session_id ag) k w0 (update_session_metadata env ag w)"
  by (auto simp: update_session_metadata_def intro: goes_metadata split: option.split)

lemma goes_user [goes]: "goes_on (ag_session_id ag) k w0 w \<Longrightarrow> goes_on (ag_session_id ag) k w0 (persist_user_message env ag content md w)"
  unfolding persist_user_message_def by (rule goes_add)

lemma goes_assistant [goes]: "goes_on (ag_session_id ag) k w0 w \<Longrightarrow> goes_on (ag_session_id ag) k w0 (append_assistant env ag m w)"
  by (cases m) (auto simp: append_assistant_def Let_def intro!: goes_append goes_tick)

lemma goes_success_turn [goes]:
  "goes_on (ag_session_id ag) k w0 w \<Longrightarrow> goes_on (ag_session_id ag) k w0 (persist_successful_assistant_turn env ag r ms w)"
  unfolding persist_successful_assistant_turn_def Let_def by (rule goes_assistant)

lemma goes_text_turn [goes]:
  "goes_on (ag_session_id ag) k w0 w \<Longrightarrow> goes_on (ag_session_id ag) k w0 (persist_assistant_text_turn env ag t md w)"
  unfolding persist_assistant_text_turn_def Let_def by (rule goes_assistant)

lemma goes_invoked [goes]:
  assumes "goes_on (ag_session_id ag) k w0 w"
  shows "goes_on (ag_session_id ag) k w0 (fst (persist_invoked_skill_prompt env ag skill prompt w))"
proof -
  obtain st r where load: "load_session (ag_session_id ag) (rw_store w) = (st, r)" by fastforce
  have stored: "goes_on (ag_session_id ag) k w0 (fst (storing env (\<lambda>t. update_metadata t (ag_session_id ag) md) (w\<lparr>rw_store := st, rw_tick := Suc (rw_tick w)\<rparr>)))" for md
    using goes_metadata [OF goes_tick [OF goes_load [OF assms load]]] by simp
  show ?thesis
    using stored goes_load [OF assms load] load
    by (auto simp: persist_invoked_skill_prompt_def Let_def split: sum.split prod.split) (metis fst_conv)
qed

lemma goes_turn_filed [goes]:
  "goes_on (ag_session_id ag) k w0 w \<Longrightarrow> goes_on (ag_session_id ag) k w0 (file_user_turn env ag persisted slash w)"
  by (cases slash) (auto simp: file_user_turn_def intro: goes)

lemma goes_maybe_compress:
  "goes_on (ag_session_id ag) k w0 w \<Longrightarrow> maybe_compress_session env ag w = (w1, r) \<Longrightarrow> goes_on (ag_session_id ag) k w0 w1"
  by (auto simp: maybe_compress_session_def dest: goes_compacting split: if_splits prod.splits)

lemma goes_force_compact:
  "goes_on (ag_session_id ag) k w0 w \<Longrightarrow> force_compact_for_context_overflow env ag w = (w1, r) \<Longrightarrow> goes_on (ag_session_id ag) k w0 w1"
  by (auto simp: force_compact_for_context_overflow_def dest: goes_compacting split: prod.splits)

lemma goes_prepare:
  assumes "goes_on (ag_session_id ag) k w0 w" "prepare_execution_for_turn env ag model persisted runtime limit w = (w1, r)"
  shows "goes_on (ag_session_id ag) k w0 w1"
proof -
  let ?sid = "ag_session_id ag"
  obtain wa cx where a: "restore_runtime_context env ag persisted limit w = (wa, cx)" by fastforce
  obtain wb md where b: "load_session_metadata ag wa = (wb, md)" by fastforce
  obtain st l where load: "load_session ?sid (rw_store w) = (st, l)" by fastforce
  have "wa = w\<lparr>rw_store := st\<rparr>"
    using a load by (auto simp: restore_runtime_context_def restore_context_def Let_def split: sum.splits option.splits if_splits)
  then have wa: "goes_on ?sid k w0 wa" using goes_load [OF assms(1) load] by simp
  obtain st' l' where load': "load_session ?sid (rw_store wa) = (st', l')" by fastforce
  have "wb = wa\<lparr>rw_store := st'\<rparr>" using b load' by (auto simp: load_session_metadata_def split: sum.splits option.splits)
  moreover have "w1 = wb" using assms(2) a b by (auto simp: prepare_execution_for_turn_def split: prod.splits)
  ultimately show ?thesis using goes_load [OF wa load'] by simp
qed

lemma emitted_not_done: "emit_run_event J R dir event = Some e \<Longrightarrow> \<not> is_done e"
  by (auto simp: emit_run_event_def Let_def is_done_def split: run_event.splits)

lemma goes_emissions:
  "goes_on sid k w0 (fst wt) \<Longrightarrow> goes_on sid k w0 (fst (fold (deliver_emission env x attempt) es wt))"
proof (induction es arbitrary: wt)
  case (Cons e es)
  have "goes_on sid k w0 (fst (deliver_emission env x attempt e wt))"
    using Cons.prems by (cases e) (auto intro: goes dest: emitted_not_done split: option.split)
  then show ?case using Cons.IH by simp
qed simp

lemma goes_mono: "goes_on sid j w0 w \<Longrightarrow> j \<le> k \<Longrightarrow> goes_on sid k w0 w"
  by (auto simp: goes_on_def)

lemma goes_watchdog:
  assumes "goes_on sid k w0 w" "run_runner_with_progress_watchdog env x attempt w = (w1, r)"
  shows "goes_on sid (Suc k) w0 w1"
proof -
  have "goes_on sid (Suc k) w0 (w\<lparr>rw_calls := Suc (rw_calls w)\<rparr>)"
    using assms(1) by (auto simp: goes_on_def has_session_def)
  then show ?thesis
    using goes_emissions [of sid "Suc k" w0 "(w\<lparr>rw_calls := Suc (rw_calls w)\<rparr>, 0)"] assms(2)
    by (auto simp: run_runner_with_progress_watchdog_def split: prod.splits)
qed

lemma goes_retry:
  "goes_on sid k w0 w \<Longrightarrow> retry_empty env x left result w = (w1, r) \<Longrightarrow> goes_on sid (k + left) w0 w1"
proof (induction left arbitrary: k w result)
  case (Suc left)
  show ?case
  proof (cases "should_return_runner_result result")
    case True
    then show ?thesis using Suc.prems goes_mono [of sid k w0 w "k + Suc left"] by simp
  next
    case False
    define we where "we = emit (session_progress_event (lit ''agent.run.retry'')
               (Some (px_runner_name x @ lit '' empty_success attempt='' @ nat_digits (EMPTY_SUCCESS_RETRY_LIMIT - left) @ lit ''/''
                 @ nat_digits EMPTY_SUCCESS_RETRY_LIMIT))) w"
    obtain w2 r2 where run: "run_runner_with_progress_watchdog env x (EMPTY_SUCCESS_RETRY_LIMIT - left) we = (w2, r2)" by fastforce
    have "goes_on sid k w0 we" unfolding we_def by (intro goes not_done Suc.prems(1))
    then have "goes_on sid (Suc k) w0 w2" using goes_watchdog run by blast
    moreover have "retry_empty env x left r2 w2 = (w1, r)"
      using Suc.prems(2) False run by (simp add: we_def Let_def)
    ultimately show ?thesis using Suc.IH by fastforce
  qed
qed simp

lemma goes_runner:
  assumes "goes_on sid k w0 w" "run_runner_with_empty_success_retry env x w = (w1, r)"
  shows "goes_on sid (k + 3) w0 w1"
proof -
  obtain wa ra where a: "run_runner_with_progress_watchdog env x 0 w = (wa, ra)" by fastforce
  obtain wb rb where b: "retry_empty env x EMPTY_SUCCESS_RETRY_LIMIT ra wa = (wb, rb)" by fastforce
  have "goes_on sid (Suc k + EMPTY_SUCCESS_RETRY_LIMIT) w0 wb" by (rule goes_retry [OF goes_watchdog [OF assms(1) a] b])
  moreover have "w1 = wb" using assms(2) a b by (auto simp: run_runner_with_empty_success_retry_def Let_def split: if_splits)
  ultimately show ?thesis by (simp add: EMPTY_SUCCESS_RETRY_LIMIT_def numeral_3_eq_3)
qed

lemma goes_attempt:
  assumes "goes_on (ag_session_id ag) k w0 w" "attempt_once env ag x w = (w1, a)"
  shows "goes_on (ag_session_id ag) (k + 3) w0 w1"
proof -
  obtain wa ra where r: "run_runner_with_empty_success_retry env x w = (wa, ra)" by fastforce
  have "goes_on (ag_session_id ag) (k + 3) w0 wa" by (rule goes_runner [OF assms(1) r])
  then show ?thesis using assms(2) r by (auto simp: attempt_once_def Let_def intro: goes split: if_splits)
qed

lemma goes_attempts:
  "goes_on (ag_session_id ag) k w0 w \<Longrightarrow> run_attempts env ag model persisted runtime left x w = (w1, a) \<Longrightarrow>
   goes_on (ag_session_id ag) (k + 3 * Suc left) w0 w1"
proof (induction left arbitrary: k w x)
  case 0
  then show ?case using goes_attempt by fastforce
next
  case (Suc left)
  let ?sid = "ag_session_id ag"
  obtain w2 a2 where once: "attempt_once env ag x w = (w2, a2)" by fastforce
  have g2: "goes_on ?sid (k + 3) w0 w2" by (rule goes_attempt [OF Suc.prems(1) once])
  have more: "goes_on ?sid (k + 3 * Suc (Suc left)) w0 w'" if "goes_on ?sid (k + 3) w0 w'" for w' by (rule goes_mono [OF that]) simp
  show ?case
  proof (cases "overflowed (at_response a2)")
    case False
    then show ?thesis using Suc.prems(2) once more [OF g2] by simp
  next
    case True
    define w3 where "w3 = emit (session_progress_event (lit ''agent.run.retry'')
               (Some (px_runner_name x @ lit '' context_overflow attempt='' @ nat_digits (CONTEXT_OVERFLOW_RECOVERY_LIMIT - left) @ lit ''/''
                 @ nat_digits CONTEXT_OVERFLOW_RECOVERY_LIMIT))) w2"
    have g3: "goes_on ?sid (k + 3) w0 w3" unfolding w3_def by (intro goes not_done g2)
    obtain w4 c where compact: "force_compact_for_context_overflow env ag w3 = (w4, c)" by fastforce
    have g4: "goes_on ?sid (k + 3) w0 w4" by (rule goes_force_compact [OF g3 compact])
    obtain w5 p where prep: "prepare_execution_for_turn env ag model persisted runtime (Some CONTEXT_OVERFLOW_POST_COMPACT_RESTORE_LIMIT) w4 = (w5, p)"
      by fastforce
    have g5: "goes_on ?sid (k + 3) w0 w5" by (rule goes_prepare [OF g4 prep])
    note step = Suc.prems(2) [unfolded run_attempts.simps, unfolded once Let_def prod.case, folded w3_def, unfolded compact]
    show ?thesis
    proof (cases c)
      case (Inl e)
      then show ?thesis using step True more [OF g4] by simp
    next
      case c: (Inr b)
      show ?thesis
      proof (cases p)
        case (Inl e)
        then show ?thesis using step True c prep more [OF g5] by simp
      next
        case (Inr x')
        then have "run_attempts env ag model persisted runtime left x' w5 = (w1, a)" using step True c prep by simp
        then show ?thesis using Suc.IH [OF g5] by (simp add: algebra_simps)
      qed
    qed
  qed
qed

section \<open>How a run ends\<close>

text \<open>The last steps: the guard is committed and the turn stored, or the guard is dropped; then the answer is handed out.\<close>

definition concluded :: "run_env \<Rightarrow> agent_session \<Rightarrow> quota_reservation option \<Rightarrow> run_world \<Rightarrow> run_world \<Rightarrow> agent_response \<Rightarrow> bool" where
  "concluded env ag reservation w w' r \<longleftrightarrow>
     (if rs_success r then
        trim (rs_content r) \<noteq> [] \<and>
        (\<exists>w3 ms. goes_on (ag_session_id ag) 0 (guard_commit env reservation w) w3 \<and>
           w' = emit (DoneEvent r) (persist_successful_assistant_turn env ag r ms w3))
      else (\<exists>w3. goes_on (ag_session_id ag) 0 (guard_drop env reservation w) w3 \<and> w' = emit (DoneEvent r) w3))"

lemma concluded_failed:
  "fail_run kind message (guard_drop env reservation w) = (w', r) \<Longrightarrow> concluded env ag reservation w w' r"
  by (auto simp: fail_run_def finish_with_def concluded_def empty_response_def
      intro!: exI [of _ "emit (session_error_event kind message) (guard_drop env reservation w)"] goes_emit goes_refl)

lemma final_not_blank: "rs_success (final_response env ag a) \<Longrightarrow> trim (rs_content (final_response env ag a)) \<noteq> []"
  unfolding final_response_def Let_def
  using finalize_success(1) by (auto intro!: attach_not_blank split: if_splits) (metis prod.collapse)+

lemma goes_segments [goes]: "goes_on sid k w0 w \<Longrightarrow> goes_on sid k w0 (fold (\<lambda>t. emit (SegmentEvent t)) ts w)"
  by (induction ts arbitrary: w) (simp_all add: goes_emit)

lemma concluded_finish:
  assumes "finish_run env ag opts reservation a w = (w', r)"
  shows "concluded env ag reservation w w' r"
proof (cases "rs_success (final_response env ag a)")
  case True
  let ?w = "guard_commit env reservation w"
  define w3 where "w3 = (if at_streamed_output a then ?w else case ro_segmenter opts of None \<Rightarrow> ?w
    | Some segmenter \<Rightarrow> fold (\<lambda>t. emit (SegmentEvent t)) (segmenter (rs_content (final_response env ag a))) ?w)"
  have "goes_on (ag_session_id ag) 0 ?w w3" by (auto simp: w3_def intro: goes split: option.split)
  moreover have "r = final_response env ag a" "w' = emit (DoneEvent r) (persist_successful_assistant_turn env ag r (at_context_messages a) w3)"
    using assms True by (auto simp: finish_run_def finish_with_def Let_def w3_def)
  ultimately show ?thesis using True final_not_blank by (auto simp: concluded_def)
next
  case False
  let ?w = "guard_drop env reservation w"
  let ?err = "unwrap_or [26410, 30693, 38169, 35823] (rs_error (final_response env ag a))"
  define w3 where "w3 = (if at_terminal_error_emitted a then ?w else emit (session_error_event (failure_kind ?err) ?err) ?w)"
  have "goes_on (ag_session_id ag) 0 ?w w3" by (simp add: w3_def goes_emit goes_refl)
  moreover have "r = final_response env ag a" "w' = emit (DoneEvent r) w3"
    using assms False by (auto simp: finish_run_def finish_with_def Let_def w3_def)
  ultimately show ?thesis using False by (auto simp: concluded_def)
qed

lemma concluded_start:
  assumes "start_runner env ag opts reservation persisted runtime w = (w', r)"
  shows "\<exists>w1. goes_on (ag_session_id ag) 6 w w1 \<and> concluded env ag reservation w1 w' r"
proof -
  let ?sid = "ag_session_id ag"
  obtain wa p where p: "prepare_execution_for_turn env ag (ro_model_override opts) persisted runtime None w = (wa, p)" by fastforce
  have ga: "goes_on ?sid 0 w wa" by (rule goes_prepare [OF goes_refl p])
  show ?thesis
  proof (cases p)
    case (Inl e)
    then have "concluded env ag reservation wa w' r"
      using assms p by (auto simp: start_runner_def runner_supports_strict_actor_sandbox_def split: prod.splits intro: concluded_failed)
    then show ?thesis using goes_mono [OF ga, of 6] by auto
  next
    case (Inr x)
    define wb where "wb = emit (session_progress_event (lit ''agent.run'') (Some (px_runner_name x))) wa"
    obtain wc a where c: "run_attempts env ag (ro_model_override opts) persisted runtime CONTEXT_OVERFLOW_RECOVERY_LIMIT x wb = (wc, a)"
      by fastforce
    have "goes_on ?sid 0 w wb" unfolding wb_def by (intro goes not_done ga)
    from goes_attempts [OF this c] have "goes_on ?sid 6 w wc" by (simp add: CONTEXT_OVERFLOW_RECOVERY_LIMIT_def)
    moreover have "finish_run env ag opts reservation a wc = (w', r)"
      using assms p Inr c by (simp add: start_runner_def runner_supports_strict_actor_sandbox_def wb_def Let_def)
    ultimately show ?thesis using concluded_finish by blast
  qed
qed

lemma concluded_reserved:
  assumes "run_reserved env ag user_input opts reservation w = (w', r)"
  shows "\<exists>w1. goes_on (ag_session_id ag) 6 w w1 \<and> concluded env ag reservation w1 w' r"
proof (cases "expand_slash_skill_input (re_skills env) (ag_allow_cron ag) (ag_session_id ag) user_input")
  case (Inl e)
  then show ?thesis using assms concluded_failed goes_refl by (fastforce simp: run_reserved_def)
next
  case (Inr slash)
  let ?sid = "ag_session_id ag"
  define persisted where "persisted = (case slash of Some skill \<Rightarrow> sx_raw_input skill | None \<Rightarrow> user_input)"
  define runtime where "runtime = (case slash of Some skill \<Rightarrow> sx_runtime_input skill | None \<Rightarrow> user_input)"
  define wa where "wa = emit (session_progress_event (lit ''session.compress'') (Some (lit ''start'')))
    (emit (UserMessageEvent persisted) (file_user_turn env ag persisted slash w))"
  obtain wb c where b: "maybe_compress_session env ag wa = (wb, c)" by fastforce
  define wc where "wc = emit (session_progress_event (lit ''session.compress'')
    (Some (case c of Inl e \<Rightarrow> lit ''failed'' | Inr _ \<Rightarrow> lit ''done''))) wb"
  have "goes_on ?sid 0 w wa" unfolding wa_def by (intro goes not_done)
  from goes_maybe_compress [OF this b] have wc: "goes_on ?sid 0 w wc" unfolding wc_def by (intro goes not_done)
  have "start_runner env ag opts reservation persisted runtime wc = (w', r)"
    using assms Inr b by (simp add: run_reserved_def persisted_def [symmetric] runtime_def [symmetric] wa_def [symmetric] wc_def Let_def)
  from concluded_start [OF this] show ?thesis using goes_trans [OF wc] by auto
qed

text \<open>Without a reservation, or without a guard.\<close>

lemma guard_none [simp]: "guard_commit env None w = w" "guard_drop env None w = w"
  by (simp_all add: guard_commit_def guard_drop_def finish_guard_def)

lemma failed_plain:
  assumes "goes_on (ag_session_id ag) k w0 w" "fail_run kind message w = (w', r)"
  shows "\<exists>w1. goes_on (ag_session_id ag) k w0 w1 \<and> concluded env ag None w1 w' r"
  using assms concluded_failed [of kind message env None w w' r ag] by auto

lemma concluded_boundary:
  assumes "run_domain_boundary_short_circuit env ag user_input reply w = (w', r)" "trim reply \<noteq> []"
  shows "\<exists>w1. goes_on (ag_session_id ag) 6 w w1 \<and> concluded env ag None w1 w' r"
proof -
  let ?w = "emit (UserMessageEvent user_input) (persist_user_message env ag user_input (ag_user_metadata ag) w)"
  have "goes_on (ag_session_id ag) 6 w ?w" by (intro goes not_done)
  moreover have "concluded env ag None ?w w' r"
    using assms by (auto simp: run_domain_boundary_short_circuit_def finish_with_def concluded_def empty_response_def Let_def intro!: exI goes_refl)
  ultimately show ?thesis by blast
qed

lemma concluded_refused:
  assumes "quota_refused env ag user_input e w = (w', r)"
  shows "\<exists>w1. goes_on (ag_session_id ag) 6 w w1 \<and> concluded env ag None w1 w' r"
proof (rule failed_plain)
  show "goes_on (ag_session_id ag) 6 w (persist_assistant_text_turn env ag
      (user_visible_error_message (regexes env) (Some (hone_error_text e))) [lit ''quota_rejected'' \<mapsto> JBool True]
      (emit (UserMessageEvent user_input) (persist_user_message env ag user_input (ag_user_metadata ag) w)))"
    by (intro goes not_done)
  show "fail_run AgentFailed (user_visible_error_message (regexes env) (Some (hone_error_text e))) (persist_assistant_text_turn env ag
      (user_visible_error_message (regexes env) (Some (hone_error_text e))) [lit ''quota_rejected'' \<mapsto> JBool True]
      (emit (UserMessageEvent user_input) (persist_user_message env ag user_input (ag_user_metadata ag) w))) = (w', r)"
    using assms by (simp add: quota_refused_def Let_def)
qed

section \<open>From start to end\<close>

text \<open>The same without the quota.\<close>

definition moves :: "rstr \<Rightarrow> nat \<Rightarrow> run_world \<Rightarrow> run_world \<Rightarrow> bool" where
  "moves sid k w w' \<longleftrightarrow> goes_on sid k w (w'\<lparr>rw_quota := rw_quota w\<rparr>)"

lemma moves_iff:
  "moves sid k w w' \<longleftrightarrow> (\<exists>es. rw_events w' = rw_events w @ es \<and> \<not> list_ex is_done es) \<and> rw_calls w' \<le> rw_calls w + k \<and>
     (has_session sid w \<longrightarrow> has_session sid w')"
  by (simp add: moves_def goes_on_def has_session_def)

lemma goes_moves: "goes_on sid k w w' \<Longrightarrow> moves sid k w w'"
  by (auto simp: moves_iff goes_on_def)

lemma moves_trans: "moves sid j w w1 \<Longrightarrow> moves sid k w1 w2 \<Longrightarrow> moves sid (j + k) w w2"
  by (auto simp: moves_iff)

lemma guard_moves: "moves sid 0 w (guard_commit env reservation w)" "moves sid 0 w (guard_drop env reservation w)"
  by (auto simp: guard_commit_def guard_drop_def finish_guard_def moves_iff has_session_def split: option.split sum.split)

definition ended :: "agent_session \<Rightarrow> run_world \<Rightarrow> run_world \<Rightarrow> agent_response \<Rightarrow> bool" where
  "ended ag w w' r \<longleftrightarrow> (\<exists>w2. moves (ag_session_id ag) 6 w w2 \<and> w' = emit (DoneEvent r) w2) \<and> (rs_success r \<longrightarrow> trim (rs_content r) \<noteq> [])"

lemma concluded_ended:
  assumes "moves (ag_session_id ag) 6 w w1" "concluded env ag reservation w1 w' r"
  shows "ended ag w w' r"
proof -
  let ?sid = "ag_session_id ag"
  obtain w2 where w2: "moves ?sid 0 w1 w2" "w' = emit (DoneEvent r) w2"
  proof (cases "rs_success r")
    case True
    then obtain w3 ms where "goes_on ?sid 0 (guard_commit env reservation w1) w3"
      "w' = emit (DoneEvent r) (persist_successful_assistant_turn env ag r ms w3)"
      using assms(2) by (auto simp: concluded_def)
    then show ?thesis
      using that moves_trans [OF guard_moves(1) goes_moves [OF goes_success_turn]] by fastforce
  next
    case False
    then obtain w3 where "goes_on ?sid 0 (guard_drop env reservation w1) w3" "w' = emit (DoneEvent r) w3"
      using assms(2) by (auto simp: concluded_def)
    then show ?thesis using that moves_trans [OF guard_moves(2) goes_moves] by fastforce
  qed
  then show ?thesis using moves_trans [OF assms(1) w2(1)] assms(2) by (auto simp: ended_def concluded_def split: if_splits)
qed

lemma reserve_moves:
  "reserve_conversation_quota env ag mode w = (w1, r) \<Longrightarrow> moves sid 0 w w1"
  by (auto simp: reserve_conversation_quota_def moves_iff has_session_def split: if_splits sum.splits reserve_result.splits)

text \<open>The ways a run can go. Only in the last one the quota is touched.\<close>

definition quota_applies :: "run_env \<Rightarrow> agent_session \<Rightarrow> rstr \<Rightarrow> run_options \<Rightarrow> bool" where
  "quota_applies env ag user_input opts \<longleftrightarrow>
     ro_quota_mode opts = UserConversation \<and> re_daily_limit env \<noteq> 0 \<and> \<not> re_is_admin env (ag_actor ag) \<and>
     parse_compact_command user_input = None \<and> non_finance_boundary_reply user_input = None"

lemma boundary_not_blank: "non_finance_boundary_reply t = Some reply \<Longrightarrow> trim reply \<noteq> []"
  by (auto simp: non_finance_boundary_reply_def NON_FINANCE_BOUNDARY_REPLY_def Let_def not_blank_Cons is_whitespace_def split: if_splits)

lemma compact_ends:
  assumes "run_manual_compact env ag command w = (w', r)"
  shows "\<exists>w1. goes_on (ag_session_id ag) 6 w w1 \<and> w' = emit (DoneEvent r) w1 \<and> (rs_success r \<longrightarrow> trim (rs_content r) \<noteq> [])"
proof -
  let ?sid = "ag_session_id ag"
  define wa where "wa = emit (session_progress_event (lit ''session.compress'') (Some (lit ''start''))) w"
  obtain wb c where b: "compacting env ag (lit ''manual'') True (cd_instructions command) wa = (wb, c)" by fastforce
  have "goes_on ?sid 6 w wa" unfolding wa_def by (intro goes not_done)
  from goes_compacting [OF this b] have wb: "goes_on ?sid 6 w wb" .
  have words: "trim (lit ''Conversation compacted.'') \<noteq> []" by (rule not_blank_lit) (simp_all add: is_whitespace_def)
  show ?thesis
  proof (cases c)
    case (Inl e)
    then show ?thesis using assms b wb
      by (auto simp: run_manual_compact_def wa_def [symmetric] fail_run_def finish_with_def empty_response_def Let_def
          intro!: goes_emit exI [of _ "emit (session_error_event AgentFailed (hone_error_text e))
            (emit (session_progress_event (lit ''session.compress'') (Some (lit ''failed''))) wb)"])
  next
    case (Inr outcome)
    then show ?thesis using assms b wb words
      by (cases "co_compacted outcome") (auto simp: run_manual_compact_def wa_def [symmetric] finish_with_def empty_response_def Let_def not_blank_Cons is_whitespace_def
          intro!: goes_emit exI [of _ "emit (session_progress_event (lit ''session.compress'') (Some (lit ''done''))) wb"])
  qed
qed

lemma run_cases:
  assumes "run env ag user_input opts w = (w', r)"
  obtains
    (compact) w1 where "parse_compact_command user_input \<noteq> None" "goes_on (ag_session_id ag) 6 w w1" "w' = emit (DoneEvent r) w1"
      "rs_success r \<longrightarrow> trim (rs_content r) \<noteq> []"
  | (free) w1 where "goes_on (ag_session_id ag) 6 w w1" "concluded env ag None w1 w' r" "\<not> quota_applies env ag user_input opts \<or> \<not> rs_success r"
  | (charged) w0 wr reservation w1 where "goes_on (ag_session_id ag) 0 w w0"
      "reserve_conversation_quota env ag (ro_quota_mode opts) w0 = (wr, Inr reservation)"
      "goes_on (ag_session_id ag) 6 wr w1" "concluded env ag reservation w1 w' r"
      "parse_compact_command user_input = None" "quota_applies env ag user_input opts \<or> reservation = None \<and> wr = w0"
  | (refused) w0 wr e w1 where "goes_on (ag_session_id ag) 0 w w0"
      "reserve_conversation_quota env ag (ro_quota_mode opts) w0 = (wr, Inl e)"
      "goes_on (ag_session_id ag) 6 wr w1" "concluded env ag None w1 w' r" "\<not> rs_success r"
proof -
  let ?sid = "ag_session_id ag"
  obtain wa e where ensure: "ensure_session_exists env ag w = (wa, e)" by fastforce
  have a: "goes_on ?sid 0 w wa" by (rule goes_ensure [OF goes_refl ensure])
  show thesis
  proof (cases e)
    case (Inl err)
    then have fails: "fail_run AgentFailed (hone_error_text err) wa = (w', r)" using assms ensure by (simp add: run_def)
    then have "\<not> rs_success r" by (auto simp: fail_run_def finish_with_def empty_response_def)
    then show ?thesis using free failed_plain [OF goes_mono [OF a] fails] by blast
  next
    case (Inr u)
    define w0 where "w0 = update_session_metadata env ag wa"
    have w0: "goes_on ?sid 0 w w0" unfolding w0_def by (rule goes_update_metadata [OF a])
    define reply where "reply = (if ro_quota_mode opts \<noteq> ScheduledTask \<and> \<not> re_is_admin env (ag_actor ag)
                      then non_finance_boundary_reply user_input else None)"
    note run = assms [unfolded run_def ensure Inr prod.case sum.case Let_def, folded w0_def reply_def]
    show ?thesis
    proof (cases "parse_compact_command user_input")
      case (Some command)
      then have "run_manual_compact env ag command w0 = (w', r)" using run by simp
      from compact_ends [OF this] obtain w1 where "goes_on ?sid 6 w0 w1" "w' = emit (DoneEvent r) w1" "rs_success r \<longrightarrow> trim (rs_content r) \<noteq> []"
        by blast
      then show ?thesis using compact [of w1] Some goes_trans [OF w0, of 6 w1] by simp
    next
      case None
      show ?thesis
      proof (cases reply)
        case (Some words)
        then have short: "run_domain_boundary_short_circuit env ag user_input words w0 = (w', r)" and given: "non_finance_boundary_reply user_input = Some words"
          using run None by (auto simp: reply_def split: if_splits)
        from concluded_boundary [OF short boundary_not_blank [OF given]]
        show ?thesis using free goes_trans [OF w0, of 6] given by (auto simp: quota_applies_def)
      next
        case no_reply: None
        obtain wr q where q: "reserve_conversation_quota env ag (ro_quota_mode opts) w0 = (wr, q)" by fastforce
        show ?thesis
        proof (cases q)
          case (Inl e)
          then have "quota_refused env ag user_input e wr = (w', r)" using run None no_reply q by simp
          then show ?thesis using refused [OF w0] q Inl concluded_refused
            by (fastforce simp: quota_refused_def fail_run_def finish_with_def empty_response_def Let_def)
        next
          case (Inr reservation)
          then have "run_reserved env ag user_input opts reservation wr = (w', r)" using run None no_reply q by simp
          then obtain w1 where w1: "goes_on ?sid 6 wr w1" "concluded env ag reservation w1 w' r" using concluded_reserved by blast
          have "quota_applies env ag user_input opts \<or> reservation = None \<and> wr = w0"
            using q Inr no_reply None
            by (cases "ro_quota_mode opts") (auto simp: quota_applies_def reply_def reserve_conversation_quota_def try_reserve_for_date_def Let_def
                split: if_splits sum.splits reserve_result.splits)
          then show ?thesis using charged [OF w0 q [unfolded Inr] w1] None by blast
        qed
      qed
    qed
  qed
qed

section \<open>Properties\<close>

text \<open>C1: a run always hands out exactly one answer, and hands it out last. Whatever the runner, the storage and the quota do,
  the events of a run end with the answer that is returned and hold no other one; the runner is called at most
  six times (three times in each of two rounds); and an answer that is called a success is not blank.\<close>

theorem run_hands_out_one_answer:
  "let (w', r) = run env ag user_input opts w in
     (\<exists>es. rw_events w' = rw_events w @ es @ [DoneEvent r] \<and> \<not> list_ex is_done es) \<and>
     rw_calls w' \<le> rw_calls w + 6 \<and> \<not> (rs_success r \<and> trim (rs_content r) = [])"
proof -
  obtain w' r where run: "run env ag user_input opts w = (w', r)" by fastforce
  have "ended ag w w' r"
    using run
  proof (cases rule: run_cases)
    case (compact w1)
    then show ?thesis unfolding ended_def using goes_moves [OF compact(2)] by blast
  next
    case (free w1)
    then show ?thesis using concluded_ended goes_moves by blast
  next
    case (charged w0 wr reservation w1)
    have "moves (ag_session_id ag) 6 w w1"
      using moves_trans [OF moves_trans [OF goes_moves [OF charged(1)] reserve_moves [OF charged(2)]] goes_moves [OF charged(3)]] by simp
    then show ?thesis using charged(4) concluded_ended by blast
  next
    case (refused w0 wr e w1)
    have "moves (ag_session_id ag) 6 w w1"
      using moves_trans [OF moves_trans [OF goes_moves [OF refused(1)] reserve_moves [OF refused(2)]] goes_moves [OF refused(3)]] by simp
    then show ?thesis using refused(4) concluded_ended by blast
  qed
  then show ?thesis using run by (auto simp: ended_def moves_iff emit_def)
qed

text \<open>The finished conversations and the reservations in flight of an actor's day.\<close>

definition quota_counts :: "quota_disk \<Rightarrow> actor \<Rightarrow> rstr \<Rightarrow> 32 word \<times> 32 word" where
  "quota_counts d a date =
     (case read_quota_file d a date of Inr (Some f) \<Rightarrow> (qf_success_count f, qf_in_flight f) | _ \<Rightarrow> (0, 0))"

lemma read_written: "qf_date f = date \<Longrightarrow> read_quota_file (disk_put d (quota_file_path a date) f) a date = Inr (Some f)"
  by (simp add: read_quota_file_def disk_get_put)

lemma saturating_back: "x \<noteq> - 1 \<Longrightarrow> saturating_sub_u32 (x + 1) 1 = x"
  and saturating_forth: "x \<noteq> - 1 \<Longrightarrow> saturating_add_u32 x 1 = x + 1"
proof -
  assume x: "x \<noteq> - 1"
  then have "unat x \<noteq> unat (- 1 :: 32 word)" by (simp only: unsigned_word_eqI word_unat_eq_iff not_False_eq_True)
  moreover have "unat (- 1 :: 32 word) = 2 ^ 32 - 1" by (simp add: unsigned_minus_1_eq_mask mask_eq_exp_minus_1)
  ultimately have small: "unat x < 2 ^ 32 - 1" using unat32_less [of x] by linarith
  then have up: "unat (x + 1) = unat x + 1" by (simp add: unat_word_ariths)
  have "unat (saturating_sub_u32 (x + 1) 1) = unat x" by (simp add: saturating_sub_unat up)
  then show "saturating_sub_u32 (x + 1) 1 = x" by (simp only: word_unat_eq_iff)
  have "unat (saturating_add_u32 x 1) = unat (x + 1)" using saturating_add_unat [OF small] up by simp
  then show "saturating_add_u32 x 1 = x + 1" by (simp only: word_unat_eq_iff)
qed

text \<open>A reservation that is settled leaves the reservations in flight as they were.\<close>

lemma settled_counts:
  assumes "d_write_error (rw_quota w) = None" "read_quota_file (rw_quota w) a date = Inr f" "pred_option (\<lambda>f. qf_date f = date) f"
    and "fst (quota_counts (rw_quota w) a date) \<noteq> - 1" "snd (quota_counts (rw_quota w) a date) \<noteq> - 1"
    and "try_reserve_for_date (rw_quota w) a date limit False t = Inr (d, Reserved q)"
    and "rw_quota w1 = d"
  shows "quota_counts (rw_quota (guard_commit env (Some q) w1)) a date =
      (fst (quota_counts (rw_quota w) a date) + 1, snd (quota_counts (rw_quota w) a date))"
    and "quota_counts (rw_quota (guard_drop env (Some q) w1)) a date = quota_counts (rw_quota w) a date"
proof -
  define f0 where "f0 = (let c = unwrap_or default_quota_file f in if qf_date c = [] then c\<lparr>qf_date := date\<rparr> else c)"
  have f0: "qf_date f0 = date" "quota_counts (rw_quota w) a date = (qf_success_count f0, qf_in_flight f0)"
    using assms(2,3) by (cases f; simp add: f0_def quota_counts_def default_quota_file_def)+
  define f1 where "f1 = f0\<lparr>qf_in_flight := qf_in_flight f0 + 1, qf_updated_at := t\<rparr>"
  have d: "d = disk_put (rw_quota w) (quota_file_path a date) f1" "q = \<lparr>qr_actor = a, qr_date = date\<rparr>"
  proof -
    have "try_reserve_for_date (rw_quota w) a date limit False t =
        (if limit \<le> qf_success_count f0 + qf_in_flight f0
         then Inr (rw_quota w, Rejected \<lparr>qs_date = date, qs_success_count = qf_success_count f0, qs_in_flight = qf_in_flight f0, qs_limit = limit\<rparr>)
         else case write_quota_file (rw_quota w) a f1 of Inl e \<Rightarrow> Inl e | Inr d' \<Rightarrow> Inr (d', Reserved \<lparr>qr_actor = a, qr_date = date\<rparr>))"
      unfolding try_reserve_for_date_def f1_def f0_def Let_def assms(2) by simp
    then have written: "write_quota_file (rw_quota w) a f1 = Inr d" "q = \<lparr>qr_actor = a, qr_date = date\<rparr>"
      using assms(6) by (auto split: if_splits sum.splits)
    have "qf_date f1 = date" using f0(1) by (simp add: f1_def)
    then show "d = disk_put (rw_quota w) (quota_file_path a date) f1" "q = \<lparr>qr_actor = a, qr_date = date\<rparr>"
      using written by (simp_all add: write_quota_file_Inr)
  qed
  have f1: "qf_date f1 = date" using f0(1) by (simp add: f1_def)
  have r1: "read_quota_file d a date = Inr (Some f1)" "d_write_error d = None"
    using read_written [OF f1, of "rw_quota w" a] assms(1) by (simp_all only: d(1)) (simp add: disk_put_def)
  have under: "saturating_sub_u32 (qf_in_flight f0 + 1) 1 = qf_in_flight f0" and over: "saturating_add_u32 (qf_success_count f0) 1 = qf_success_count f0 + 1"
    using assms(4,5) f0(2) saturating_back saturating_forth by simp_all
  have finished: "quota_counts (rw_quota (finish_guard (\<lambda>d r t. finish_reservation d r committed t) env (Some q) w1)) a date =
      (if committed then qf_success_count f0 + 1 else qf_success_count f0, qf_in_flight f0)" for committed
  proof -
    define f2 where "f2 = (if committed then f1\<lparr>qf_in_flight := qf_in_flight f0, qf_success_count := qf_success_count f0 + 1\<rparr>
      else f1\<lparr>qf_in_flight := qf_in_flight f0\<rparr>)\<lparr>qf_updated_at := now env w1\<rparr>"
    have "finish_reservation d q committed (now env w1) = Inr (disk_put d (quota_file_path a date) f2)"
      using r1 f0(1) under over
      by (auto simp: finish_reservation_def d(2) Let_def f2_def f1_def write_quota_file_def disk_write_def)
    then show ?thesis using f0(1) assms(7)
      by (auto simp: finish_guard_def quota_counts_def read_written f2_def f1_def)
  qed
  show "quota_counts (rw_quota (guard_commit env (Some q) w1)) a date =
      (fst (quota_counts (rw_quota w) a date) + 1, snd (quota_counts (rw_quota w) a date))"
    using finished [of True] f0(2) by (simp add: guard_commit_def commit_daily_conversation_def [abs_def])
  show "quota_counts (rw_quota (guard_drop env (Some q) w1)) a date = quota_counts (rw_quota w) a date"
    using finished [of False] f0(2) by (simp add: guard_drop_def release_daily_conversation_def [abs_def])
qed

text \<open>C3: a conversation counts against the day's quota exactly when it is answered. When the quota applies (a user's
  conversation, a limit, no administrator, no \<open>/compact\<close> and no question that is turned away), a run that
  succeeds adds one to the finished conversations of the day and every other run adds none; no run leaves a
  reservation behind, whichever way it ends.\<close>

theorem quota_charged_for_answers:
  assumes "d_write_error (rw_quota w) = None" "read_quota_file (rw_quota w) (ag_actor ag) (re_quota_date env) = Inr f"
    and "pred_option (\<lambda>f. qf_date f = re_quota_date env) f"
    and "quota_counts (rw_quota w) (ag_actor ag) (re_quota_date env) = (answered, open_ones)" "answered \<noteq> - 1" "open_ones \<noteq> - 1"
  shows "let (w', r) = run env ag user_input opts w in
     quota_counts (rw_quota w') (ag_actor ag) (re_quota_date env) =
       (if rs_success r \<and> quota_applies env ag user_input opts then answered + 1 else answered, open_ones)"
proof -
  let ?a = "ag_actor ag" and ?date = "re_quota_date env"
  obtain w' r where run: "run env ag user_input opts w = (w', r)" by fastforce
  have kept: "rw_quota w2 = rw_quota w1" if "goes_on sid k w1 w2" for sid k w1 w2 using that by (simp add: goes_on_def)
  have stored: "rw_quota (persist_successful_assistant_turn env ag r ms v) = rw_quota v" for ms v
    using kept [OF goes_success_turn [OF goes_refl [of _ 0 v]]] by blast
  have closed: "rw_quota w' = rw_quota ((if rs_success r then guard_commit env reservation else guard_drop env reservation) w1)"
    if "concluded env ag reservation w1 w' r" for reservation w1
    using that kept stored by (auto simp: concluded_def emit_def split: if_splits)
  show ?thesis
    using run
  proof (cases rule: run_cases)
    case (compact w1)
    then show ?thesis using run assms(4) kept [OF compact(2)] by (auto simp: quota_applies_def emit_def)
  next
    case (free w1)
    then show ?thesis using run assms(4) kept [OF free(1)] closed [OF free(2)] by (auto split: if_splits)
  next
    case (charged w0 wr reservation w1)
    have w0: "rw_quota w0 = rw_quota w" "rw_quota w1 = rw_quota wr" using kept charged(1,3) by blast+
    show ?thesis
    proof (cases "quota_applies env ag user_input opts")
      case False
      then show ?thesis using run charged(6) closed [OF charged(4)] w0 assms(4) by (auto split: if_splits)
    next
      case True
      obtain d q where reserved: "reservation = Some q" "rw_quota wr = d"
        "try_reserve_for_date (rw_quota w) ?a ?date (re_daily_limit env) False (now env w0) = Inr (d, Reserved q)"
        using charged(2) True w0(1)
        by (auto simp: reserve_conversation_quota_def quota_applies_def try_reserve_for_date_def Let_def
            split: if_splits sum.splits reserve_result.splits)
      note counts = settled_counts [OF assms(1-3) _ _ reserved(3), of w1]
      show ?thesis
        using run counts closed [OF charged(4)] w0(2) reserved(1,2) True assms(4-6) by (auto split: if_splits)
    qed
  next
    case (refused w0 wr e w1)
    have "rw_quota wr = rw_quota w0"
      using refused(2) assms(1,2) kept [OF refused(1)]
      by (auto simp: reserve_conversation_quota_def try_reserve_for_date_def Let_def split: if_splits sum.splits reserve_result.splits)
    then show ?thesis using run refused(5) closed [OF refused(4)] kept [OF refused(1)] kept [OF refused(3)] assms(4) by auto
  qed
qed

text \<open>The stored turn of an answer.\<close>

definition answer_turn :: "agent_response \<Rightarrow> session_message \<Rightarrow> bool" where
  "answer_turn r m \<longleftrightarrow> sm_role m = lit ''assistant'' \<and> sm_status m = Some (lit ''completed'') \<and>
     sm_content m = [(bare_part (lit ''final''))\<lparr>pt_text := Some (trim (rs_content r))\<rparr>]"

lemma turn_stored:
  assumes "has_session (ag_session_id ag) w" "trim (rs_content r) \<noteq> []"
  shows "\<exists>n s. validate_storage_component (ag_session_id ag) = Some n \<and>
     filed (ss_files (rw_store (persist_successful_assistant_turn env ag r ms w))) n = Some s \<and>
     cs_messages s \<noteq> [] \<and> answer_turn r (last (cs_messages s))"
proof -
  let ?sid = "ag_session_id ag"
  obtain n s where n: "sound (rw_store w)" "d_write_error (ss_files (rw_store w)) = None" "validate_storage_component ?sid = Some n"
    "filed (ss_files (rw_store w)) n = Some s" using assms(1) by (auto simp: has_session_def)
  obtain md where md: "persist_successful_assistant_turn env ag r ms w =
      append_assistant env ag (persistable_turn_from_response (codec env) r md) w"
    by (auto simp: persist_successful_assistant_turn_def Let_def)
  obtain m where m: "persistable_turn_from_response (codec env) r md = Some m" "nm_role m = lit ''assistant''"
    "nm_status m = Some (lit ''completed'')" "nm_content m = [(bare_part (lit ''final''))\<lparr>pt_text := Some (trim (rs_content r))\<rparr>]"
    using assms(2) by (auto simp: persistable_turn_from_response_def Let_def)
  let ?m = "session_message_from_normalized m (now env w)"
  have turn: "answer_turn r ?m" using m by (simp add: answer_turn_def session_message_from_normalized_def)
  let ?t = "now env (w\<lparr>rw_tick := Suc (rw_tick w)\<rparr>)"
  have "filed (ss_files (fst (append_session_messages ?t ?sid [?m] (rw_store w)))) n =
      Some (s\<lparr>cs_messages := cs_messages s @ [?m], cs_updated_at := ?t, cs_version := default_session_version\<rparr>)"
    using rewrite_stored [OF n(1,3,4), of "\<lambda>s. Some (s\<lparr>cs_messages := cs_messages s @ [?m]\<rparr>)" ?t] n(2)
    by (auto simp: append_session_messages_def)
  then show ?thesis using n(3) turn by (auto simp: md m(1) append_assistant_def storing_def Let_def split: prod.split)
qed

text \<open>C2: an answer is never lost. When the conversation is stored, the session index is in step with the files and the
  disk takes writes, the conversation is still stored after a run, whatever happened in it (a compaction, an overflow, a
  refusal); and after a run that succeeded and was no /compact command the last message of the conversation is the answer
  that was handed out, as a finished turn.\<close>

theorem answer_is_stored:
  assumes "has_session (ag_session_id ag) w"
  shows "let (w', r) = run env ag user_input opts w in
     \<exists>n s. validate_storage_component (ag_session_id ag) = Some n \<and> filed (ss_files (rw_store w')) n = Some s \<and>
       (if rs_success r \<and> parse_compact_command user_input = None
        then cs_messages s \<noteq> [] \<and> answer_turn r (last (cs_messages s)) else True)"
proof -
  let ?sid = "ag_session_id ag"
  obtain w' r where run: "run env ag user_input opts w = (w', r)" by fastforce
  have plain: "has_session ?sid w2 \<Longrightarrow> w' = emit (DoneEvent r) w2 \<Longrightarrow>
      \<exists>n s. validate_storage_component ?sid = Some n \<and> filed (ss_files (rw_store w')) n = Some s" for w2
    by (auto simp: has_session_def emit_def)
  have closed: ?thesis if held: "has_session ?sid w1" and conc: "concluded env ag reservation w1 w' r" for reservation w1
  proof (cases "rs_success r")
    case True
    then obtain w3 ms where w3: "goes_on ?sid 0 (guard_commit env reservation w1) w3"
      "w' = emit (DoneEvent r) (persist_successful_assistant_turn env ag r ms w3)" "trim (rs_content r) \<noteq> []"
      using conc by (auto simp: concluded_def)
    have "has_session ?sid w3" using guard_moves(1) [of ?sid w1 env reservation] held w3(1) by (auto simp: moves_iff goes_on_def)
    from turn_stored [OF this w3(3), of env ms] show ?thesis using run True w3(2) by (auto simp: emit_def)
  next
    case False
    then obtain w3 where w3: "goes_on ?sid 0 (guard_drop env reservation w1) w3" "w' = emit (DoneEvent r) w3"
      using conc by (auto simp: concluded_def)
    have "has_session ?sid w3" using guard_moves(2) [of ?sid w1 env reservation] held w3(1) by (auto simp: moves_iff goes_on_def)
    from plain [OF this w3(2)] show ?thesis using run False by auto
  qed
  show ?thesis
    using run
  proof (cases rule: run_cases)
    case (compact w1)
    then have "has_session ?sid w1" using assms by (simp add: goes_on_def)
    from plain [OF this compact(3)] show ?thesis using run compact(1) by auto
  next
    case (free w1)
    have "has_session ?sid w1" using free(1) assms by (simp add: goes_on_def)
    then show ?thesis by (rule closed [OF _ free(2)])
  next
    case (charged w0 wr reservation w1)
    have "has_session ?sid w1" using charged(1,3) assms reserve_moves [OF charged(2), of ?sid] by (simp add: goes_on_def moves_iff)
    then show ?thesis by (rule closed [OF _ charged(4)])
  next
    case (refused w0 wr e w1)
    have "has_session ?sid w1" using refused(1,3) assms reserve_moves [OF refused(2), of ?sid] by (simp add: goes_on_def moves_iff)
    then show ?thesis by (rule closed [OF _ refused(4)])
  qed
qed

text \<open>C15: a conversation is wiped when the index cannot be read. With the index as the main backend, a run whose look-up fails
  takes the conversation for missing and creates it again: the stored file is overwritten by an empty
  conversation before the index refuses the write, and the run fails.\<close>

theorem unreadable_index_wipes_conversation:
  assumes "ss_backend (rw_store w) = SqliteBackend" "ss_index (rw_store w) = Some ix" "ix_fault ix = Some e"
    and "d_write_error (ss_files (rw_store w)) = None" "ag_session_id ag = session_id (ag_identity ag)"
    and "validate_storage_component (ag_session_id ag) = Some (ag_session_id ag)" "filed (ss_files (rw_store w)) (ag_session_id ag) = Some s"
  shows "let (w', r) = run env ag user_input opts w in
     \<not> rs_success r \<and>
     (\<exists>s'. filed (ss_files (rw_store w')) (ag_session_id ag) = Some s' \<and> cs_messages s' = [] \<and> cs_summary s' = None)"
proof -
  let ?fresh = "new_session (now env w) (ag_session_id ag) (Some (ag_actor ag)) (Some (ag_identity ag))"
  have load: "load_session (ag_session_id ag) (rw_store w) = (rw_store w, Inl (sql_failed e))"
    using assms(1-3) by (simp add: load_session_def index_load_def)
  obtain st' where create: "create_session_for_identity (now env w) (re_fresh env) (ag_identity ag) (Some (ag_actor ag)) (rw_store w) =
      (st', Inl (sql_failed e))" "filed (ss_files st') (ag_session_id ag) = Some ?fresh"
    using assms(1-4,6) by (simp add: assms(5) [symmetric] create_session_for_identity_def create_session_def new_session_id_def write_session_def session_json_path_def
        disk_write_def write_session_to_sqlite_def index_upsert_def Let_def filed_put)
  have same: "w\<lparr>rw_store := rw_store w\<rparr> = w" by simp
  have "ensure_session_exists env ag w = (w\<lparr>rw_store := st', rw_tick := Suc (rw_tick w)\<rparr>, Inl (sql_failed e))"
    using load create(1) by (simp add: ensure_session_exists_def storing_def Let_def)
  then show ?thesis using create(2)
    by (simp add: run_def fail_run_def finish_with_def emit_def empty_response_def new_session_def)
qed
section \<open>A concrete run\<close>

definition demo_agent :: agent_session where
  "demo_agent =
     (let i = \<lparr>s_channel = lit ''web'', s_kind = Direct, s_user_id = Some (lit ''u1''), s_channel_scope = None\<rparr> in
      \<lparr>ag_actor = \<lparr>a_channel = lit ''web'', a_user_id = lit ''u1'', a_channel_scope = None\<rparr>, ag_identity = i, ag_session_id = session_id i,
       ag_channel_target = [], ag_restore_max_messages = Some 20, ag_session_metadata = None, ag_user_metadata = None,
       ag_assistant_metadata = None, ag_recv_extra = None, ag_allow_cron = False\<rparr>)"

definition demo_reply :: runner_result where
  "demo_reply = \<lparr>rr_response = empty_response\<lparr>rs_success := True, rs_content := [111, 107]\<rparr>, rr_streamed_output = False,
     rr_terminal_error_emitted = False, rr_metadata_updates = [], rr_context_messages = None\<rparr>"

definition demo_env :: run_env where
  "demo_env =
     \<lparr>re_compaction = \<lparr>ce_codec = null_codec, ce_regex = no_regex,
        ce_group = \<lparr>gc_recent_context_limit = 8, gc_compress_threshold_messages = 20, gc_compress_threshold_bytes = 2048,
          gc_retain_recent_after_compress = 6\<rparr>, ce_llm = None\<rparr>,
      re_images = \<lparr>ie_exists = (\<lambda>_. False), ie_gen_images_root = [], ie_sandbox_root = [], ie_create_dir = (\<lambda>_. False),
        ie_copy = (\<lambda>_ _. False), ie_uuid = (\<lambda>_. [])\<rparr>,
      re_skills = \<lparr>sr_resolve_via_search = (\<lambda>_ _ _. None), sr_resolve_direct = (\<lambda>_ _. None), sr_render = (\<lambda>_ _ _. []),
        sr_registered = (\<lambda>_. False)\<rparr>,
      re_execution = \<lparr>xe_create_runner = (\<lambda>_ _. Inr (lit ''demo'')), xe_auxiliary_llm = False,
        xe_auxiliary_with_max_tokens = (\<lambda>_. Inr ()), xe_ensure_actor_sandbox = (\<lambda>_. Inr (lit ''/tmp''))\<rparr>,
      re_prompt = (\<lambda>st sid t. ([], t)), re_manages_own_context = True, re_daily_limit = 2, re_is_admin = (\<lambda>_. False),
      re_quota_date = lit ''2026-01-01'', re_clock = nat_digits, re_fresh = [], re_files = (\<lambda>_. None), re_started_at = 0,
      re_runner = (\<lambda>k request. ([], demo_reply))\<rparr>"

text \<open>A world with the agent's conversation, which holds one message, and an index that works or not.\<close>

definition demo_stored :: chat_session where
  "demo_stored = (new_session [] (ag_session_id demo_agent) None None)
     \<lparr>cs_messages := [session_message_from_text null_codec (lit ''user'') [104] [] None]\<rparr>"

definition demo_world :: "session_backend \<Rightarrow> rstr option \<Rightarrow> run_world" where
  "demo_world backend fault =
     \<lparr>rw_store = \<lparr>ss_files = \<lparr>d_files = [(ag_session_id demo_agent @ lit ''.json'', Parsed demo_stored)], d_write_error = None\<rparr>,
        ss_index = Some \<lparr>ix_rows = [], ix_messages = [], ix_metadata = Map.empty, ix_fault = fault, ix_write_fault = None\<rparr>,
        ss_backend = backend, ss_shadow = False\<rparr>,
      rw_quota = \<lparr>d_files = [], d_write_error = None\<rparr>, rw_events = [], rw_calls = 0, rw_tick = 0\<rparr>"

lemma demo_agent_id: "ag_session_id demo_agent = lit ''Actor_web__direct__u1''"
  by (simp add: demo_agent_def session_id_def encode_component_def encode_byte_def is_key_byte_def is_ascii_alnum_def
      is_ascii_upper_def is_ascii_lower_def is_digit_def utf8_def utf8_char_def lit_def)

lemma demo_agent_valid: "validate_storage_component (ag_session_id demo_agent) = Some (ag_session_id demo_agent)"
  unfolding demo_agent_id by (simp add: validate_storage_component_def path_components_def lit_def trim_def is_whitespace_def)

lemma demo_world_filed: "filed (ss_files (rw_store (demo_world backend fault))) (ag_session_id demo_agent) = Some demo_stored"
  by (simp add: demo_world_def filed_def disk_get_def)

theorem quota_charged_for_answers_witness:
  "let (w', r) = run demo_env demo_agent [104] \<lparr>ro_segmenter = None, ro_quota_mode = UserConversation, ro_model_override = None\<rparr>
       (demo_world JsonBackend None)
   in quota_counts (rw_quota w') (ag_actor demo_agent) (re_quota_date demo_env) =
     (if rs_success r \<and> quota_applies demo_env demo_agent [104]
           \<lparr>ro_segmenter = None, ro_quota_mode = UserConversation, ro_model_override = None\<rparr> then 1 else 0, 0)"
  using quota_charged_for_answers [of "demo_world JsonBackend None" demo_agent demo_env None 0 0 "[104]"
      "\<lparr>ro_segmenter = None, ro_quota_mode = UserConversation, ro_model_override = None\<rparr>"]
  by (simp add: demo_world_def quota_counts_def read_quota_file_def disk_get_def cong: if_cong)

theorem answer_is_stored_witness:
  "let (w', r) = run demo_env demo_agent [104] \<lparr>ro_segmenter = None, ro_quota_mode = ScheduledTask, ro_model_override = None\<rparr>
       (demo_world JsonBackend None)
   in \<exists>n s. validate_storage_component (ag_session_id demo_agent) = Some n \<and> filed (ss_files (rw_store w')) n = Some s \<and>
     (if rs_success r \<and> parse_compact_command [104] = None
      then cs_messages s \<noteq> [] \<and> answer_turn r (last (cs_messages s)) else True)"
proof (rule answer_is_stored)
  have "sound (rw_store (demo_world JsonBackend None))" "d_write_error (ss_files (rw_store (demo_world JsonBackend None))) = None"
    by (simp_all add: sound_def demo_world_def)
  then show "has_session (ag_session_id demo_agent) (demo_world JsonBackend None)"
    using demo_agent_valid demo_world_filed by (auto simp: has_session_def)
qed

text \<open>The stored message is gone.\<close>

theorem unreadable_index_wipes_conversation_witness:
  "let (w', r) = run demo_env demo_agent [104] \<lparr>ro_segmenter = None, ro_quota_mode = UserConversation, ro_model_override = None\<rparr>
       (demo_world SqliteBackend (Some (lit ''locked'')))
   in length (cs_messages demo_stored) = 1 \<and> \<not> rs_success r \<and>
     (\<exists>s'. filed (ss_files (rw_store w')) (ag_session_id demo_agent) = Some s' \<and> cs_messages s' = [] \<and> cs_summary s' = None)"
proof -
  have "ag_session_id demo_agent = session_id (ag_identity demo_agent)" by (simp add: demo_agent_def Let_def)
  from unreadable_index_wipes_conversation [OF _ _ _ _ this demo_agent_valid demo_world_filed [of SqliteBackend "Some (lit ''locked'')"],
      of _ "lit ''locked''" demo_env "[104]" "\<lparr>ro_segmenter = None, ro_quota_mode = UserConversation, ro_model_override = None\<rparr>"]
  show ?thesis by (simp add: demo_world_def demo_stored_def split_beta)
qed
end
