(* ===== verification/Heartbeat_Parse.thy ===== *)
theory Heartbeat_Parse
  imports Outbound Session_Message
begin

text \<open>
  \<^verbatim>\<open>hone-channels/src/scheduler.rs\<close>, the reading of what a heartbeat check answers: a JSON object with a status and a message,
  found anywhere in the answer or recovered from a broken one; everything else is a reason not to deliver.
\<close>

section \<open>Outcomes\<close>

datatype heartbeat_outcome = HeartbeatNoop | Deliver rstr

datatype heartbeat_parse_kind =
    HeartbeatEmpty | SentinelNoop | InternalMarker | JsonNoop | JsonEmptyStatus | JsonTriggered | JsonUnknownStatus | JsonMalformed
  | PlainTextSuppressed | PlainTextNoop

definition HEARTBEAT_NOOP_SENTINEL :: rstr where
  "HEARTBEAT_NOOP_SENTINEL = lit ''[[HEARTBEAT_NOOP]]''"

definition HEARTBEAT_INTERNAL_PREFIX :: rstr where
  "HEARTBEAT_INTERNAL_PREFIX = lit ''[[HEART''"

record heartbeat_response =
  hr_status :: "rstr option"
  hr_message :: "rstr option"

section \<open>Reading JSON\<close>

text \<open>The derived reader: an object whose two fields, where present, are texts or null, or an array of the two. (That a field
  occurs twice, which the reader refuses, cannot be seen in a parsed value.)\<close>

definition text_or_null :: "json option \<Rightarrow> rstr option option" where
  "text_or_null v = (case v of None \<Rightarrow> Some None | Some JNull \<Rightarrow> Some None | Some (JStr s) \<Rightarrow> Some (Some s) | Some _ \<Rightarrow> None)"

definition heartbeat_response_fields :: "json option \<Rightarrow> json option \<Rightarrow> heartbeat_response option" where
  "heartbeat_response_fields status message =
     Option.bind (text_or_null status) (\<lambda>s. Option.bind (text_or_null message) (\<lambda>m. Some \<lparr>hr_status = s, hr_message = m\<rparr>))"

definition heartbeat_response_of_json :: "json \<Rightarrow> heartbeat_response option" where
  "heartbeat_response_of_json v =
     (case v of
        JObj kvs \<Rightarrow> heartbeat_response_fields (json_get v (lit ''status'')) (json_get v (lit ''message''))
      | JArr [status, message] \<Rightarrow> heartbeat_response_fields (Some status) (Some message)
      | _ \<Rightarrow> None)"

definition read_heartbeat_response :: "json_codec \<Rightarrow> rstr \<Rightarrow> heartbeat_response option" where
  "read_heartbeat_response J s = Option.bind (jc_parse J s) heartbeat_response_of_json"

definition previous_visible_char :: "rstr \<Rightarrow> nat \<Rightarrow> nat option" where
  "previous_visible_char content idx = find (\<lambda>c. \<not> is_whitespace c) (rev (take idx content))"

text \<open>The scan for balanced braces outside of strings; an object that comes after a backquote is skipped.\<close>

fun json_candidates :: "rstr \<Rightarrow> nat \<Rightarrow> bool \<Rightarrow> bool \<Rightarrow> nat \<Rightarrow> nat \<Rightarrow> rstr \<Rightarrow> rstr list" where
  "json_candidates content idx in_string escaped depth start [] = []"
| "json_candidates content idx in_string escaped depth start (c # cs) =
     (if in_string then
        (if escaped then json_candidates content (Suc idx) True False depth start cs
         else json_candidates content (Suc idx) (c \<noteq> 34) (c = 92) depth start cs)
      else if c = 34 then json_candidates content (Suc idx) True False depth start cs
      else if c = 123 then
        (if depth = 0 then
           (if previous_visible_char content idx = Some 96 then json_candidates content (Suc idx) False False 0 start cs
            else json_candidates content (Suc idx) False False 1 idx cs)
         else json_candidates content (Suc idx) False False (Suc depth) start cs)
      else if c = 125 then
        (if depth = 0 then json_candidates content (Suc idx) False False 0 start cs
         else if depth = 1 then take (Suc idx - start) (drop start content) # json_candidates content (Suc idx) False False 0 start cs
         else json_candidates content (Suc idx) False False (depth - 1) start cs)
      else json_candidates content (Suc idx) False False depth start cs)"

text \<open>The source is called with trimmed content only.\<close>

definition parse_heartbeat_json_payload :: "json_codec \<Rightarrow> rstr \<Rightarrow> heartbeat_response option" where
  "parse_heartbeat_json_payload J content =
     (let trimmed = trim content in
      case read_heartbeat_response J trimmed of
        Some r \<Rightarrow> Some r
      | None \<Rightarrow>
          (case List.map_filter (read_heartbeat_response J) (rev (json_candidates trimmed 0 False False 0 0 trimmed)) of
             r # _ \<Rightarrow> Some r
           | [] \<Rightarrow> None))"

definition compact_status :: "rstr \<Rightarrow> rstr" where
  "compact_status status = to_ascii_lowercase (filter (\<lambda>c. c \<noteq> 45 \<and> c \<noteq> 95) (concat (split_whitespace status)))"

definition noop_words :: "rstr list" where
  "noop_words =
     map lit [''noop'', ''none'', ''false'', ''nottriggered'', ''notrigger'', ''conditionnotmet'', ''conditionsnotmet'', ''notmet'', ''unmet'',
       ''skip'', ''skipped'', ''nosend'']"

definition heartbeat_status_indicates_noop :: "rstr \<Rightarrow> bool" where
  "heartbeat_status_indicates_noop status \<longleftrightarrow>
     compact_status status \<in> set noop_words \<or> contains_any status [[26410, 35302, 21457], [19981, 35302, 21457], [26410, 28385, 36275], [19981, 28385, 36275]]"

definition triggered_words :: "rstr list" where
  "triggered_words =
     map lit [''triggered'', ''trigger'', ''alert'', ''send'', ''true'', ''yes'', ''met'', ''hit'', ''conditionmet'', ''conditionsmet'']"

definition heartbeat_status_indicates_triggered :: "rstr \<Rightarrow> bool" where
  "heartbeat_status_indicates_triggered status \<longleftrightarrow>
     compact_status status \<in> set triggered_words \<or> contains_any status [[24050, 35302, 21457], [35302, 21457], [21629, 20013], [28385, 36275]]"

section \<open>Recovering broken JSON\<close>

text \<open>An index into the content is modelled by the text from there on.\<close>

definition find_jsonish_field_value_start :: "rstr \<Rightarrow> rstr \<Rightarrow> rstr option" where
  "find_jsonish_field_value_start content needle =
     Option.bind (split_once needle content) (\<lambda>(_, rest).
       Option.bind (split_once [58] rest) (\<lambda>(_, value).
         opt_filter (\<lambda>t. t \<noteq> []) (Some (trim_start value))))"

definition jsonish_quote_closer :: "nat \<Rightarrow> nat option" where
  "jsonish_quote_closer c =
     (if c = 34 then Some 34 else if c = 39 then Some 39 else if c = 8220 then Some 8221 else if c = 8216 then Some 8217 else None)"

definition find_jsonish_field_value_quote_start :: "rstr \<Rightarrow> rstr \<Rightarrow> (rstr \<times> nat) option" where
  "find_jsonish_field_value_quote_start content needle =
     (case find_jsonish_field_value_start content needle of
        Some (c # rest) \<Rightarrow> map_option (\<lambda>closer. (rest, closer)) (jsonish_quote_closer c)
      | _ \<Rightarrow> None)"

definition json_field_name_after_comma :: "rstr \<Rightarrow> rstr option" where
  "json_field_name_after_comma rest =
     Option.bind (strip_prefix [44] rest) (\<lambda>after_comma.
       Option.bind (strip_prefix [34] (trim_start after_comma)) (\<lambda>after_quote.
         Option.bind (split_once [34] after_quote) (\<lambda>(name, tail).
           if starts_with (trim_start tail) [58] then Some name else None)))"

definition trailing_fields :: "rstr list" where
  "trailing_fields =
     map lit [''source'', ''sources'', ''confidence'', ''reason'', ''timestamp'', ''time'', ''checked_at'', ''check_time'', ''symbol'',
       ''ticker'', ''price'', ''severity'', ''risk'', ''trigger'', ''metadata'']"

definition heartbeat_message_trailing_field :: "rstr \<Rightarrow> bool" where
  "heartbeat_message_trailing_field field \<longleftrightarrow> field \<in> set trailing_fields"

definition looks_like_json_string_field_end :: "rstr \<Rightarrow> rstr \<Rightarrow> bool" where
  "looks_like_json_string_field_end after_quote field =
     (let rest = trim_start after_quote in
      if rest = [] \<or> starts_with rest [125] then True
      else case json_field_name_after_comma rest of
        None \<Rightarrow> False
      | Some next_field \<Rightarrow> field \<noteq> lit ''message'' \<or> heartbeat_message_trailing_field next_field)"

definition unescaped :: "nat \<Rightarrow> rstr" where
  "unescaped c =
     (if c = 110 then [10] else if c = 114 then [13] else if c = 116 then [9] else if c = 34 then [34] else if c = 92 then [92] else [92, c])"

fun lossy_value :: "rstr \<Rightarrow> nat \<Rightarrow> rstr \<Rightarrow> rstr" where
  "lossy_value field closer [] = []"
| "lossy_value field closer (c # cs) =
     (if c = 92 then (case cs of [] \<Rightarrow> [92] | e # rest \<Rightarrow> unescaped e @ lossy_value field closer rest)
      else if c = 34 \<and> closer = 34 then
        (if looks_like_json_string_field_end cs field then [] else 34 # lossy_value field closer cs)
      else if c = closer then []
      else if c = 125 \<and> trim cs = [] then []
      else c # lossy_value field closer cs)"

definition trim_end_commas :: "rstr \<Rightarrow> rstr" where
  "trim_end_commas s = rev (dropWhile (\<lambda>c. c = 44) (rev s))"

definition recover_lossy_json_string_field :: "rstr \<Rightarrow> string \<Rightarrow> rstr option" where
  "recover_lossy_json_string_field content field =
     (case find_jsonish_field_value_quote_start content ([34] @ lit field @ [34]) of
        None \<Rightarrow> None
      | Some (rest, closer) \<Rightarrow> opt_filter (\<lambda>t. t \<noteq> []) (Some (trim (trim_end_commas (trim (lossy_value (lit field) closer rest))))))"

definition is_jsonish_quote :: "nat \<Rightarrow> bool" where
  "is_jsonish_quote c \<longleftrightarrow> c \<in> {34, 39, 8220, 8221, 8216, 8217}"

definition recover_lossy_json_status_field :: "rstr \<Rightarrow> rstr option" where
  "recover_lossy_json_status_field content =
     (case recover_lossy_json_string_field content ''status'' of
        Some status \<Rightarrow> Some status
      | None \<Rightarrow>
          Option.bind (find_jsonish_field_value_start content (lit ''\"status\"'')) (\<lambda>value.
            opt_filter (\<lambda>t. t \<noteq> [])
              (Some (trim (trim_matches is_jsonish_quote (takeWhile (\<lambda>c. \<not> (c = 44 \<or> c = 125 \<or> is_whitespace c)) (trim_start value)))))))"

definition json_status_candidates :: "rstr \<Rightarrow> rstr list" where
  "json_status_candidates content =
     map (\<lambda>i. drop i content)
       (filter (\<lambda>i. content ! i = 123 \<and> starts_with (trim_start (drop (Suc i) content)) (lit ''\"status\"'') \<and>
          previous_visible_char content i \<noteq> Some 96) [0..<length content])"

definition heartbeat_internal_marker_prefix :: "rstr \<Rightarrow> bool" where
  "heartbeat_internal_marker_prefix text \<longleftrightarrow> starts_with (to_ascii_uppercase (trim_start text)) HEARTBEAT_INTERNAL_PREFIX"

definition heartbeat_internal_marker_present :: "rstr \<Rightarrow> bool" where
  "heartbeat_internal_marker_present text \<longleftrightarrow>
     contains_any (to_ascii_uppercase text) [HEARTBEAT_NOOP_SENTINEL, HEARTBEAT_INTERNAL_PREFIX]"

definition unwrap_nested_json_message :: "json_codec \<Rightarrow> rstr \<Rightarrow> rstr" where
  "unwrap_nested_json_message J text =
     (if \<not> starts_with text [123] then text
      else case jc_parse J text of
        None \<Rightarrow> text
      | Some v \<Rightarrow>
          (case filter (\<lambda>s. s \<noteq> []) (List.map_filter (\<lambda>key. get_str v (lit key)) [''trigger'', ''message'', ''content'', ''text'', ''alert'']) of
             s # _ \<Rightarrow> s
           | [] \<Rightarrow> text))"

fun first_triggered_message :: "json_codec \<Rightarrow> rstr list \<Rightarrow> rstr option" where
  "first_triggered_message J [] = None"
| "first_triggered_message J (candidate # rest) =
     (case recover_lossy_json_status_field candidate of
        None \<Rightarrow> first_triggered_message J rest
      | Some status \<Rightarrow>
          if \<not> eq_ignore_ascii_case status (lit ''triggered'') then first_triggered_message J rest
          else (case recover_lossy_json_string_field candidate ''message'' of
                  None \<Rightarrow> None
                | Some raw \<Rightarrow>
                    (let message = trim (unwrap_nested_json_message J (trim raw)) in
                     if message = [] \<or> message = lit ''...'' \<or> heartbeat_internal_marker_prefix message
                     then first_triggered_message J rest else Some message)))"

definition recover_malformed_triggered_heartbeat_message :: "json_codec \<Rightarrow> rstr \<Rightarrow> rstr option" where
  "recover_malformed_triggered_heartbeat_message J content =
     (let trimmed = trim content in
      first_triggered_message J (if starts_with trimmed [123] then [trimmed] else json_status_candidates trimmed))"

section \<open>The verdict\<close>

definition plain_noop_markers :: "rstr list" where
  "plain_noop_markers =
     [[26465, 20214, 26410, 28385, 36275], [26465, 20214, 19981, 28385, 36275], [19981, 28385, 36275, 35302, 21457], [23578, 26410, 35302, 21457], [26410, 35302, 21457], [19981, 35302, 21457], [26080, 38656, 35302, 21457], [19981, 38656, 35201, 21457, 36865], [26412, 36718, 19981, 21457, 36865],
      [36755, 20986, 123, 34, 115, 116, 97, 116, 117, 115, 34, 58, 34, 110, 111, 111, 112, 34, 125], [36755, 20986, 96, 123, 34, 115, 116, 97, 116, 117, 115, 34, 58, 34, 110, 111, 111, 112, 34, 125, 96], lit ''returnnoop'', lit ''outputnoop'', lit ''shouldoutputnoop'', lit ''notmet'',
      lit ''nottriggered'', lit ''notrigger'', lit ''conditionisnotmet'', lit ''conditionsarenotmet'']"

definition heartbeat_plain_text_indicates_noop :: "rstr \<Rightarrow> bool" where
  "heartbeat_plain_text_indicates_noop text \<longleftrightarrow> contains_any (to_ascii_lowercase (concat (split_whitespace text))) plain_noop_markers"

definition triggered_outcome :: "json_codec \<Rightarrow> rstr option \<Rightarrow> heartbeat_outcome" where
  "triggered_outcome J raw_message =
     (let message = trim (unwrap_nested_json_message J (trim (unwrap_or [] raw_message))) in
      if message = [] \<or> heartbeat_internal_marker_prefix message then HeartbeatNoop else Deliver message)"

definition inspect_heartbeat_result :: "json_codec \<Rightarrow> regex_engine \<Rightarrow> rstr \<Rightarrow> heartbeat_outcome \<times> heartbeat_parse_kind" where
  "inspect_heartbeat_result J R content =
     (let trimmed = trim (strip_internal_reasoning_blocks R content) in
      if trimmed = [] then (HeartbeatNoop, if heartbeat_plain_text_indicates_noop content then PlainTextNoop else HeartbeatEmpty)
      else if trimmed = HEARTBEAT_NOOP_SENTINEL \<or> heartbeat_internal_marker_present trimmed then (HeartbeatNoop, SentinelNoop)
      else if heartbeat_internal_marker_prefix trimmed then (HeartbeatNoop, InternalMarker)
      else case parse_heartbeat_json_payload J trimmed of
        Some r \<Rightarrow>
          (let status = unwrap_or [] (hr_status r) in
           if heartbeat_status_indicates_noop status then (HeartbeatNoop, JsonNoop)
           else if status = [] then (HeartbeatNoop, JsonEmptyStatus)
           else if heartbeat_status_indicates_triggered status then (triggered_outcome J (hr_message r), JsonTriggered)
           else (HeartbeatNoop, JsonUnknownStatus))
      | None \<Rightarrow>
          (case recover_malformed_triggered_heartbeat_message J trimmed of
             Some message \<Rightarrow> (Deliver message, JsonTriggered)
           | None \<Rightarrow>
               if starts_with trimmed [123] then (HeartbeatNoop, JsonMalformed)
               else if heartbeat_plain_text_indicates_noop trimmed then (HeartbeatNoop, PlainTextNoop)
               else (HeartbeatNoop, PlainTextSuppressed)))"

section \<open>What is read as a message\<close>

lemma first_triggered_fit:
  "first_triggered_message J cs = Some m \<Longrightarrow> trim m = m \<and> m \<noteq> [] \<and> \<not> heartbeat_internal_marker_prefix m"
proof (induction cs)
  case (Cons c cs)
  show ?case
  proof (cases "recover_lossy_json_status_field c")
    case None
    then show ?thesis using Cons by simp
  next
    case (Some status)
    then show ?thesis using Cons
      by (cases "recover_lossy_json_string_field c ''message''") (auto simp: Let_def split: if_splits)
  qed
qed simp

lemma triggered_fit: "triggered_outcome J raw = Deliver m \<Longrightarrow> trim m = m \<and> m \<noteq> [] \<and> \<not> heartbeat_internal_marker_prefix m"
  by (auto simp: triggered_outcome_def Let_def split: if_splits)

text \<open>Only a stated trigger becomes a message: it has no blanks around it and does not start like an internal marker, and
  the answer holds no such marker.\<close>

lemma delivered_triggered:
  assumes "inspect_heartbeat_result J R content = (Deliver m, kind)"
  shows "kind = JsonTriggered" "trim m = m" "m \<noteq> []" "\<not> heartbeat_internal_marker_prefix m"
    and "\<not> heartbeat_internal_marker_present (trim (strip_internal_reasoning_blocks R content))"
proof -
  let ?t = "trim (strip_internal_reasoning_blocks R content)"
  have t: "?t \<noteq> []" "\<not> heartbeat_internal_marker_present ?t" "\<not> heartbeat_internal_marker_prefix ?t"
    using assms by (auto simp: inspect_heartbeat_result_def Let_def split: if_splits)
  then show "\<not> heartbeat_internal_marker_present (trim (strip_internal_reasoning_blocks R content))" by simp
  have "kind = JsonTriggered \<and> trim m = m \<and> m \<noteq> [] \<and> \<not> heartbeat_internal_marker_prefix m"
  proof (cases "parse_heartbeat_json_payload J ?t")
    case (Some r)
    then have "kind = JsonTriggered \<and> triggered_outcome J (hr_message r) = Deliver m"
      using assms t by (auto simp: inspect_heartbeat_result_def Let_def split: if_splits)
    then show ?thesis using triggered_fit by blast
  next
    case None
    then have "kind = JsonTriggered \<and> recover_malformed_triggered_heartbeat_message J ?t = Some m"
      using assms t by (auto simp: inspect_heartbeat_result_def Let_def split: if_splits option.splits)
    then show ?thesis using first_triggered_fit by (auto simp: recover_malformed_triggered_heartbeat_message_def Let_def)
  qed
  then show "kind = JsonTriggered" "trim m = m" "m \<noteq> []" "\<not> heartbeat_internal_marker_prefix m" by blast+
qed

end
