(* ===== verification/Heartbeat_Guards.thy ===== *)
theory Heartbeat_Guards
  imports Heartbeat_Parse Scheduler
begin

text \<open>
  \<^verbatim>\<open>hone-channels/src/scheduler.rs\<close>, what is held back or rewritten before a scheduled message is delivered: a price that
  is only near its threshold or of an old date, a fact that was delivered before, unverified causes of commodity
  prices, and direct instructions to trade.
\<close>

section \<open>Words\<close>

definition compact_lowercase_text :: "rstr \<Rightarrow> rstr" where
  "compact_lowercase_text text = to_ascii_lowercase (filter (\<lambda>c. \<not> is_whitespace c) text)"

definition truncate_for_log :: "rstr \<Rightarrow> nat \<Rightarrow> rstr" where
  "truncate_for_log text max_chars = (if length text \<le> max_chars then text else take max_chars text @ lit ''...'')"

definition count_distinct_keyword_hits :: "rstr \<Rightarrow> rstr list \<Rightarrow> nat" where
  "count_distinct_keyword_hits dense keywords = length (filter (contains_str dense) keywords)"

text \<open>The matches of an expression, in order.\<close>

definition found :: "regex_engine \<Rightarrow> rstr \<Rightarrow> rstr \<Rightarrow> captures list" where
  "found R p text = map snd (fst (rx_matches R p text))"

section \<open>Near a threshold\<close>

text \<open>What the guards use beside regular expressions: the calendar, and the reading of a decimal number.\<close>

record guard_env =
  ge_regex :: regex_engine
  ge_chrono :: chrono
  ge_parse_f64 :: "rstr \<Rightarrow> f64 option"

definition RE_HEARTBEAT_CURRENT_BEFORE_TRIGGER_PRICE :: rstr where
  "RE_HEARTBEAT_CURRENT_BEFORE_TRIGGER_PRICE = [40, 63, 105, 115, 41, 40, 63, 58, 24403, 21069, 40, 63, 58, 20215, 26684, 124, 20215, 41, 63, 124, 26368,
    26032, 40, 63, 58, 20215, 26684, 124, 20215, 41, 63, 124, 29616, 20215, 124, 25910, 30424, 20215, 124, 36300,
    33267, 124, 36300, 21040, 124, 38477, 33267, 124, 22238, 33853, 33267, 124, 99, 117, 114, 114, 101, 110, 116,
    40, 63, 58, 92, 115, 42, 112, 114, 105, 99, 101, 41, 63, 41, 91, 94, 92, 100, 93, 123, 48, 44, 50, 48, 125,
    92, 36, 63, 92, 115, 42, 40, 63, 80, 60, 99, 117, 114, 114, 101, 110, 116, 62, 92, 100, 43, 40, 63, 58, 92,
    46, 92, 100, 43, 41, 63, 41, 91, 92, 115, 92, 83, 93, 123, 48, 44, 49, 50, 48, 125, 40, 63, 58, 35302, 21457,
    20215, 124, 35302, 21457, 32447, 124, 37197, 32622, 32447, 124, 116, 114, 105, 103, 103, 101, 114, 92, 115,
    42, 112, 114, 105, 99, 101, 124, 116, 114, 105, 103, 103, 101, 114, 92, 115, 42, 108, 105, 110, 101, 41, 91,
    94, 92, 100, 93, 123, 48, 44, 50, 48, 125, 92, 36, 63, 92, 115, 42, 40, 63, 80, 60, 116, 104, 114, 101, 115,
    104, 111, 108, 100, 62, 92, 100, 43, 40, 63, 58, 92, 46, 92, 100, 43, 41, 63, 41]"

definition RE_HEARTBEAT_TRIGGER_PRICE_BEFORE_CURRENT :: rstr where
  "RE_HEARTBEAT_TRIGGER_PRICE_BEFORE_CURRENT = [40, 63, 105, 115, 41, 40, 63, 58, 35302, 21457, 20215, 124, 35302, 21457, 32447, 124, 37197, 32622, 32447,
    124, 116, 114, 105, 103, 103, 101, 114, 92, 115, 42, 112, 114, 105, 99, 101, 124, 116, 114, 105, 103, 103,
    101, 114, 92, 115, 42, 108, 105, 110, 101, 41, 91, 94, 92, 100, 93, 123, 48, 44, 50, 48, 125, 92, 36, 63, 92,
    115, 42, 40, 63, 80, 60, 116, 104, 114, 101, 115, 104, 111, 108, 100, 62, 92, 100, 43, 40, 63, 58, 92, 46,
    92, 100, 43, 41, 63, 41, 91, 92, 115, 92, 83, 93, 123, 48, 44, 49, 50, 48, 125, 40, 63, 58, 24403, 21069, 40,
    63, 58, 20215, 26684, 124, 20215, 41, 63, 124, 26368, 26032, 40, 63, 58, 20215, 26684, 124, 20215, 41, 63,
    124, 99, 117, 114, 114, 101, 110, 116, 40, 63, 58, 92, 115, 42, 112, 114, 105, 99, 101, 41, 63, 41, 91, 94,
    92, 100, 93, 123, 48, 44, 50, 48, 125, 92, 36, 63, 92, 115, 42, 40, 63, 80, 60, 99, 117, 114, 114, 101, 110,
    116, 62, 92, 100, 43, 40, 63, 58, 92, 46, 92, 100, 43, 41, 63, 41]"

definition threshold_terms :: "rstr list" where
  "threshold_terms = [[38408, 20540], [35686, 25106, 32447], [35686, 25106, 38408, 20540], [38376, 27099], [35302, 21457, 20215],
      [35302, 21457, 32447], [37197, 32622, 32447], [26465, 20214, 32447], lit ''threshold'', lit ''triggerprice'',
      lit ''triggerline'']"

definition proximity_terms :: "rstr list" where
  "proximity_terms = [[25509, 36817], [20020, 36817], [38752, 36817], [36317, 31163], [20165, 24046], [24046, 32422],
      [26410, 36798, 21040], [26410, 36798], [27809, 26377, 36798, 21040], [23578, 26410, 36798, 21040],
      [26410, 35302, 21450], [23578, 26410, 35302, 21450], [27809, 26377, 35302, 21450], [26410, 35302, 21457],
      [27809, 26377, 35302, 21457], [23578, 26410, 35302, 21457], [26410, 21629, 20013], [26410, 28385, 36275],
      [26410, 36234, 36807], [26410, 36229, 36807], [27809, 26377, 36229, 36807], [23578, 26410, 36229, 36807],
      [26410, 36300, 30772], [26410, 31361, 30772], [20173, 39640, 20110], [20173, 20302, 20110],
      [19978, 26041, 21306, 38388], [35266, 23519, 21306, 38388], lit ''near'', lit ''approach'', lit ''approaching'',
      lit ''shortof'', lit ''notyet'']"

definition lower_trigger_terms :: "rstr list" where
  "lower_trigger_terms = [[35302, 21457, 20215, 8804], [35302, 21457, 20215, 60, 61], [35302, 21457, 32447, 8804],
      [35302, 21457, 32447, 60, 61], [37197, 32622, 32447, 8804], [37197, 32622, 32447, 60, 61],
      [35302, 21450, 25110, 20302, 20110, 35302, 21457, 20215],
      [35302, 21450, 25110, 20302, 20110, 35302, 21457, 32447],
      [35302, 21450, 25110, 20302, 20110, 37197, 32622, 32447],
      [35302, 21450, 25110, 36300, 30772, 35302, 21457, 20215],
      [35302, 21450, 25110, 36300, 30772, 35302, 21457, 32447],
      [35302, 21450, 25110, 36300, 30772, 37197, 32622, 32447], [20302, 20110, 35302, 21457, 20215],
      [36300, 30772, 35302, 21457, 20215], [20302, 20110, 35302, 21457, 32447], [36300, 30772, 35302, 21457, 32447],
      [20302, 20110, 37197, 32622, 32447], [36300, 30772, 37197, 32622, 32447], lit ''belowtriggerprice'',
      lit ''undertriggerprice'']"

definition heartbeat_lower_trigger_price_contradiction :: "guard_env \<Rightarrow> rstr \<Rightarrow> rstr \<Rightarrow> bool" where
  "heartbeat_lower_trigger_price_contradiction G text dense \<longleftrightarrow>
     contains_any dense lower_trigger_terms \<and>
     list_ex (\<lambda>p. case found (ge_regex G) p text of
         [] \<Rightarrow> False
       | c # _ \<Rightarrow>
           (case (Option.bind (cp_name c (lit ''current'')) (ge_parse_f64 G), Option.bind (cp_name c (lit ''threshold'')) (ge_parse_f64 G)) of
              (Some current, Some threshold) \<Rightarrow> current > threshold
            | _ \<Rightarrow> False))
       [RE_HEARTBEAT_CURRENT_BEFORE_TRIGGER_PRICE, RE_HEARTBEAT_TRIGGER_PRICE_BEFORE_CURRENT]"

definition heartbeat_near_threshold_without_crossing :: "guard_env \<Rightarrow> rstr \<Rightarrow> bool" where
  "heartbeat_near_threshold_without_crossing G text \<longleftrightarrow>
     (let dense = compact_lowercase_text text in
      if dense = [] then False
      else contains_any dense threshold_terms \<and> contains_any dense proximity_terms \<or>
           heartbeat_lower_trigger_price_contradiction G text dense)"

section \<open>Old prices\<close>

definition RE_HEARTBEAT_PRICE_TIMESTAMP_DATE :: rstr where
  "RE_HEARTBEAT_PRICE_TIMESTAMP_DATE = [40, 63, 105, 115, 120, 41, 10, 32, 32, 32, 32, 32, 32, 32, 32, 40, 63, 58, 24403, 21069, 40, 63, 58, 20215,
    26684, 124, 20215, 41, 63, 124, 26368, 26032, 40, 63, 58, 20215, 26684, 124, 20215, 41, 63, 124, 29616,
    20215, 124, 29616, 25253, 124, 25910, 30424, 20215, 124, 36300, 33267, 124, 36300, 21040, 124, 38477, 33267,
    124, 22238, 33853, 33267, 124, 99, 117, 114, 114, 101, 110, 116, 40, 63, 58, 92, 115, 42, 112, 114, 105, 99,
    101, 41, 63, 124, 108, 97, 115, 116, 40, 63, 58, 92, 115, 42, 112, 114, 105, 99, 101, 41, 63, 124, 113, 117,
    111, 116, 101, 41, 10, 32, 32, 32, 32, 32, 32, 32, 32, 91, 94, 92, 110, 12290, 65307, 59, 93, 123, 48, 44,
    49, 50, 48, 125, 10, 32, 32, 32, 32, 32, 32, 32, 32, 40, 63, 58, 10, 32, 32, 32, 32, 32, 32, 32, 32, 32, 32,
    32, 32, 40, 63, 80, 60, 121, 101, 97, 114, 95, 99, 110, 62, 50, 48, 92, 100, 123, 50, 125, 41, 24180, 40, 63,
    80, 60, 109, 111, 110, 116, 104, 95, 99, 110, 62, 92, 100, 123, 49, 44, 50, 125, 41, 26376, 40, 63, 80, 60,
    100, 97, 121, 95, 99, 110, 62, 92, 100, 123, 49, 44, 50, 125, 41, 26085, 10, 32, 32, 32, 32, 32, 32, 32, 32,
    32, 32, 32, 32, 124, 10, 32, 32, 32, 32, 32, 32, 32, 32, 32, 32, 32, 32, 40, 63, 80, 60, 121, 101, 97, 114,
    95, 105, 115, 111, 62, 50, 48, 92, 100, 123, 50, 125, 41, 91, 45, 47, 93, 40, 63, 80, 60, 109, 111, 110, 116,
    104, 95, 105, 115, 111, 62, 92, 100, 123, 49, 44, 50, 125, 41, 91, 45, 47, 93, 40, 63, 80, 60, 100, 97, 121,
    95, 105, 115, 111, 62, 92, 100, 123, 49, 44, 50, 125, 41, 10, 32, 32, 32, 32, 32, 32, 32, 32, 41, 10, 32, 32,
    32, 32, 32, 32, 32, 32]"

definition HEARTBEAT_PRICE_TIMESTAMP_MAX_AGE_DAYS :: int where
  "HEARTBEAT_PRICE_TIMESTAMP_MAX_AGE_DAYS = 3"

text \<open>Digits as the standard library reads them into an integer.\<close>

definition parse_digits :: "rstr \<Rightarrow> nat option" where
  "parse_digits s = (if s \<noteq> [] \<and> list_all is_digit s then Some (digits_value s) else None)"

definition captured_number :: "captures \<Rightarrow> string \<Rightarrow> string \<Rightarrow> nat option" where
  "captured_number c name other = Option.bind (or_else (cp_name c (lit name)) (cp_name c (lit other))) parse_digits"

definition heartbeat_price_timestamp_context_date :: "guard_env \<Rightarrow> captures \<Rightarrow> date option" where
  "heartbeat_price_timestamp_context_date G c =
     Option.bind (captured_number c ''year_cn'' ''year_iso'') (\<lambda>year.
       Option.bind (captured_number c ''month_cn'' ''month_iso'') (\<lambda>month.
         Option.bind (captured_number c ''day_cn'' ''day_iso'') (\<lambda>day.
           ch_from_ymd (ge_chrono G) (int year) month day)))"

definition price_context_terms :: "rstr list" where
  "price_context_terms = [[38408, 20540], [35302, 21457, 20215], [35302, 21457, 32447], [37197, 32622, 32447], [35686, 25106, 32447],
      [36300, 30772], [20302, 20110], [31361, 30772], [39640, 20110], lit ''threshold'', lit ''triggerprice'',
      lit ''triggerline'', lit ''below'', lit ''above'']"

definition heartbeat_triggered_price_threshold_context :: "rstr \<Rightarrow> bool" where
  "heartbeat_triggered_price_threshold_context text \<longleftrightarrow> contains_any (compact_lowercase_text text) price_context_terms"

definition heartbeat_stale_price_timestamp :: "guard_env \<Rightarrow> rstr \<Rightarrow> date \<Rightarrow> date option" where
  "heartbeat_stale_price_timestamp G text reference_date =
     (if \<not> heartbeat_triggered_price_threshold_context text then None
      else find (\<lambda>d. reference_date - d > HEARTBEAT_PRICE_TIMESTAMP_MAX_AGE_DAYS)
        (List.map_filter (heartbeat_price_timestamp_context_date G) (found (ge_regex G) RE_HEARTBEAT_PRICE_TIMESTAMP_DATE text)))"

section \<open>The time of a check\<close>

definition RE_HEARTBEAT_BEIJING_TRIGGER_TIME :: rstr where
  "RE_HEARTBEAT_BEIJING_TRIGGER_TIME = [21271, 20140, 26102, 38388, 92, 115, 42, 40, 63, 80, 60, 104, 111, 117, 114, 62, 92, 100, 123, 49, 44, 50,
    125, 41, 40, 63, 58, 91, 58, 65306, 28857, 26102, 93, 40, 63, 80, 60, 109, 105, 110, 117, 116, 101, 62, 92,
    100, 123, 49, 44, 50, 125, 41, 63, 41, 63, 40, 63, 58, 20998, 41, 63, 40, 63, 80, 60, 116, 97, 105, 108, 62,
    92, 115, 42, 91, 94, 92, 110, 12290, 65307, 59, 93, 123, 48, 44, 50, 52, 125, 40, 63, 58, 30417, 25511, 124,
    26816, 26597, 124, 24515, 36339, 124, 20219, 21153, 124, 26412, 36718, 41, 91, 94, 92, 110, 12290, 65307, 59,
    93, 123, 48, 44, 49, 54, 125, 35302, 21457, 41]"

text \<open>The time a match names, unless it is no time or the time of the check itself.\<close>

definition other_time :: "nat \<Rightarrow> nat \<Rightarrow> captures \<Rightarrow> (nat \<times> nat) option" where
  "other_time reference_hour reference_minute c =
     (case Option.bind (cp_name c (lit ''hour'')) parse_digits of
        None \<Rightarrow> None
      | Some hour \<Rightarrow>
          (let minute = unwrap_or 0 (Option.bind (cp_name c (lit ''minute'')) parse_digits) in
           if hour \<ge> 24 \<or> minute \<ge> 60 \<or> hour = reference_hour \<and> minute = reference_minute then None else Some (hour, minute)))"

definition normalize_heartbeat_beijing_trigger_time :: "regex_engine \<Rightarrow> rstr \<Rightarrow> nat \<times> nat \<Rightarrow> rstr \<times> rstr option" where
  "normalize_heartbeat_beijing_trigger_time R text reference =
     (let others = List.map_filter (other_time (fst reference) (snd reference)) (found R RE_HEARTBEAT_BEIJING_TRIGGER_TIME text) in
      (replace_all R RE_HEARTBEAT_BEIJING_TRIGGER_TIME
         (\<lambda>c. case other_time (fst reference) (snd reference) c of
                None \<Rightarrow> cp_all c
              | Some _ \<Rightarrow> [21271, 20140, 26102, 38388, 32] @ fmt02 (fst reference) @ [58] @ fmt02 (snd reference) @ cap_named c ''tail'') text,
       case others of [] \<Rightarrow> None | (hour, minute) # _ \<Rightarrow> Some (fmt02 hour @ [58] @ fmt02 minute)))"

section \<open>Delivered before\<close>

definition RE_HEARTBEAT_FACT_TOKEN :: rstr where
  "RE_HEARTBEAT_FACT_TOKEN = [40, 63, 105, 120, 41, 10, 32, 32, 32, 32, 32, 32, 32, 32, 40, 63, 58, 92, 100, 123, 49, 44, 52, 125, 24180,
    41, 63, 92, 100, 123, 49, 44, 50, 125, 26376, 92, 100, 123, 49, 44, 50, 125, 26085, 10, 32, 32, 32, 32, 32,
    32, 32, 32, 124, 10, 32, 32, 32, 32, 32, 32, 32, 32, 92, 100, 43, 40, 63, 58, 92, 46, 92, 100, 43, 41, 63,
    92, 115, 42, 40, 63, 58, 20159, 124, 19975, 41, 63, 92, 115, 42, 40, 63, 58, 32654, 20803, 124, 32654, 37329,
    124, 28207, 20803, 124, 20154, 27665, 24065, 124, 20803, 41, 10, 32, 32, 32, 32, 32, 32, 32, 32, 124, 10, 32,
    32, 32, 32, 32, 32, 32, 32, 91, 65, 45, 90, 97, 45, 122, 93, 91, 65, 45, 90, 97, 45, 122, 48, 45, 57, 46, 45,
    93, 123, 49, 44, 125, 10, 32, 32, 32, 32, 32, 32, 32, 32, 124, 10, 32, 32, 32, 32, 32, 32, 32, 32, 92, 100,
    43, 40, 63, 58, 92, 46, 92, 100, 43, 41, 63, 37, 63, 10, 32, 32, 32, 32, 32, 32, 32, 32]"

definition RE_HEARTBEAT_ENTITY_ANCHOR :: rstr where
  "RE_HEARTBEAT_ENTITY_ANCHOR = lit ''[A-Za-z][A-Za-z0-9.-]{1,}''"

definition RE_HEARTBEAT_REVISION_FACT_TOKEN :: rstr where
  "RE_HEARTBEAT_REVISION_FACT_TOKEN = [40, 63, 105, 120, 41, 10, 32, 32, 32, 32, 32, 32, 32, 32, 92, 36, 92, 115, 42, 92, 100, 43, 40, 63, 58, 92,
    46, 92, 100, 43, 41, 63, 40, 63, 58, 92, 115, 42, 40, 63, 58, 45, 124, 8211, 124, 126, 124, 33267, 124,
    21040, 41, 92, 115, 42, 92, 36, 63, 92, 115, 42, 92, 100, 43, 40, 63, 58, 92, 46, 92, 100, 43, 41, 63, 41,
    63, 10, 32, 32, 32, 32, 32, 32, 32, 32, 124, 10, 32, 32, 32, 32, 32, 32, 32, 32, 92, 100, 43, 40, 63, 58, 92,
    46, 92, 100, 43, 41, 63, 92, 115, 42, 37, 10, 32, 32, 32, 32, 32, 32, 32, 32, 124, 10, 32, 32, 32, 32, 32,
    32, 32, 32, 92, 100, 43, 40, 63, 58, 92, 46, 92, 100, 43, 41, 63, 92, 115, 42, 40, 63, 58, 20159, 124, 19975,
    41, 63, 92, 115, 42, 40, 63, 58, 32654, 20803, 124, 32654, 37329, 124, 28207, 20803, 124, 20154, 27665,
    24065, 124, 20803, 124, 32929, 41, 10, 32, 32, 32, 32, 32, 32, 32, 32]"

definition similarity_stop_tokens :: "rstr list" where
  "similarity_stop_tokens = [[24050, 35302, 21457], [20877, 27425], [24403, 21069], [22823, 20107], [37325, 22823, 20107],
      [37325, 22823, 20107, 20214], [20844, 21496], [20215, 26684], [20219, 21153], [20170, 26085], [24050, 32463],
      [24322, 21160], [25552, 37266], [20107, 20214, 25552], [20214, 25552], [26816, 26597], [26816, 26597, 26102],
      [26597, 26102], [26597, 26102, 38388], [26102, 38388], [26368, 26032], [26412, 36718], [26465, 20214],
      [30417, 25511], [35302, 21457], [37325, 22823]]"

definition heartbeat_similarity_stop_token :: "rstr \<Rightarrow> bool" where
  "heartbeat_similarity_stop_token token \<longleftrightarrow> token \<in> set similarity_stop_tokens"

definition heartbeat_is_cjk :: "nat \<Rightarrow> bool" where
  "heartbeat_is_cjk c \<longleftrightarrow>
     0x3400 \<le> c \<and> c \<le> 0x4DBF \<or> 0x4E00 \<le> c \<and> c \<le> 0x9FFF \<or> 0xF900 \<le> c \<and> c \<le> 0xFAFF \<or> 0x20000 \<le> c \<and> c \<le> 0x2A6DF \<or>
     0x2A700 \<le> c \<and> c \<le> 0x2B73F \<or> 0x2B740 \<le> c \<and> c \<le> 0x2B81F \<or> 0x2B820 \<le> c \<and> c \<le> 0x2CEAF"

text \<open>A set of tokens is a list without repetition.\<close>

definition heartbeat_insert_similarity_token :: "rstr \<Rightarrow> rstr list \<Rightarrow> rstr list" where
  "heartbeat_insert_similarity_token token tokens =
     (let normalized = compact_lowercase_text token in
      if length normalized < 2 \<or> heartbeat_similarity_stop_token normalized then tokens else List.insert normalized tokens)"

definition windows :: "nat \<Rightarrow> rstr \<Rightarrow> rstr list" where
  "windows width segment = map (\<lambda>i. take width (drop i segment)) [0..<Suc (length segment) - width]"

definition heartbeat_insert_cjk_similarity_tokens :: "rstr \<Rightarrow> rstr list \<Rightarrow> rstr list" where
  "heartbeat_insert_cjk_similarity_tokens segment tokens =
     (if length segment \<le> 1 then tokens
      else fold heartbeat_insert_similarity_token (windows 2 segment @ windows 3 segment)
        (if length segment \<le> 8 then heartbeat_insert_similarity_token segment tokens else tokens))"

text \<open>The longest runs of Chinese characters.\<close>

definition cjk_segments :: "rstr \<Rightarrow> rstr list" where
  "cjk_segments text = filter (\<lambda>s. s \<noteq> []) (split_by (\<lambda>c. \<not> heartbeat_is_cjk c) text)"

definition normalized_similarity_tokens :: "regex_engine \<Rightarrow> rstr \<Rightarrow> rstr list" where
  "normalized_similarity_tokens R text =
     fold heartbeat_insert_cjk_similarity_tokens (cjk_segments text)
       (fold heartbeat_insert_similarity_token (map cp_all (found R RE_HEARTBEAT_FACT_TOKEN text)) [])"

definition anchor_stop_tokens :: "rstr list" where
  "anchor_stop_tokens = [lit ''ai'', lit ''api'', lit ''app'', lit ''aws'', lit ''bedrock'', lit ''ceo'', lit ''cloud'', lit ''current'',
      lit ''daily'', lit ''event'', lit ''events'', lit ''fda'', lit ''fy'', lit ''ipo'', lit ''market'',
      lit ''monitor'', lit ''news'', lit ''openai'', lit ''price'', lit ''q1'', lit ''q2'', lit ''q3'', lit ''q4'',
      lit ''report'', lit ''research'', lit ''sec'', lit ''stock'', lit ''the'', lit ''update'', lit ''watchlist'']"

definition heartbeat_entity_anchor_stop_token :: "rstr \<Rightarrow> bool" where
  "heartbeat_entity_anchor_stop_token token \<longleftrightarrow> token \<in> set anchor_stop_tokens"

definition anchor_candidates :: "regex_engine \<Rightarrow> rstr \<Rightarrow> rstr list" where
  "anchor_candidates R text = map (\<lambda>c. trim_matches (\<lambda>x. x = 46 \<or> x = 45) (cp_all c)) (found R RE_HEARTBEAT_ENTITY_ANCHOR text)"

definition heartbeat_entity_anchor_tokens :: "regex_engine \<Rightarrow> rstr \<Rightarrow> rstr list" where
  "heartbeat_entity_anchor_tokens R text =
     remdups (filter (\<lambda>t. \<not> (length t < 2 \<or> heartbeat_entity_anchor_stop_token t)) (map to_ascii_lowercase (anchor_candidates R text)))"

definition looks_like_ticker :: "rstr \<Rightarrow> bool" where
  "looks_like_ticker t \<longleftrightarrow>
     \<not> (length t < 2 \<or> length t > 6 \<or> heartbeat_entity_anchor_stop_token (to_ascii_lowercase t) \<or>
        \<not> list_all (\<lambda>c. is_ascii_upper c \<or> is_digit c \<or> c = 46 \<or> c = 45) t)"

definition heartbeat_ticker_anchor_tokens :: "regex_engine \<Rightarrow> rstr \<Rightarrow> rstr list" where
  "heartbeat_ticker_anchor_tokens R text = remdups (map to_ascii_lowercase (filter looks_like_ticker (anchor_candidates R text)))"

definition shared_tokens :: "rstr list \<Rightarrow> rstr list \<Rightarrow> rstr list" where
  "shared_tokens xs ys = filter (\<lambda>x. x \<in> set ys) xs"

definition heartbeat_entity_anchors_compatible :: "regex_engine \<Rightarrow> rstr \<Rightarrow> rstr \<Rightarrow> bool" where
  "heartbeat_entity_anchors_compatible R message preview \<longleftrightarrow>
     (let mt = heartbeat_ticker_anchor_tokens R message; pt = heartbeat_ticker_anchor_tokens R preview;
          me = heartbeat_entity_anchor_tokens R message; pe = heartbeat_entity_anchor_tokens R preview
      in if mt \<noteq> [] \<and> pt \<noteq> [] \<and> shared_tokens mt pt = [] then False
         else me = [] \<or> pe = [] \<or> shared_tokens me pe \<noteq> [])"

definition marks_fact :: "rstr \<Rightarrow> bool" where
  "marks_fact token \<longleftrightarrow> contains_any token [[26376], [32654, 20803], [37], [46]]"

definition heartbeat_same_ticker_reworded_fact_match :: "regex_engine \<Rightarrow> rstr \<Rightarrow> rstr \<Rightarrow> bool" where
  "heartbeat_same_ticker_reworded_fact_match R message preview \<longleftrightarrow>
     (let mt = heartbeat_ticker_anchor_tokens R message; pt = heartbeat_ticker_anchor_tokens R preview in
      if mt = [] \<or> pt = [] \<or> shared_tokens mt pt = [] then False
      else
        (let me = filter (\<lambda>t. t \<notin> set mt) (heartbeat_entity_anchor_tokens R message);
             pe = filter (\<lambda>t. t \<notin> set pt) (heartbeat_entity_anchor_tokens R preview)
         in if length (shared_tokens me pe) \<ge> 2 then True
            else length (filter marks_fact (shared_tokens (normalized_similarity_tokens R message) (normalized_similarity_tokens R preview))) \<ge> 1))"

definition revision_terms :: "rstr list" where
  "revision_terms = [[23450, 20215, 21306, 38388], [21457, 34892, 20215], [21215, 36164], [21457, 34892, 32929],
      [21457, 34892, 32929, 20221], [20272, 20540], [19978, 35843], [19979, 35843], lit ''pricingrange'',
      lit ''pricerange'', lit ''offeringprice'', lit ''offering'', lit ''valuation'']"

definition heartbeat_revision_sensitive_terms_present :: "rstr \<Rightarrow> bool" where
  "heartbeat_revision_sensitive_terms_present text \<longleftrightarrow> contains_any (compact_lowercase_text text) revision_terms"

definition heartbeat_revision_fact_tokens :: "regex_engine \<Rightarrow> rstr \<Rightarrow> rstr list" where
  "heartbeat_revision_fact_tokens R text = remdups (map (\<lambda>c. compact_lowercase_text (cp_all c)) (found R RE_HEARTBEAT_REVISION_FACT_TOKEN text))"

definition heartbeat_revision_facts_diverged :: "regex_engine \<Rightarrow> rstr \<Rightarrow> rstr \<Rightarrow> bool" where
  "heartbeat_revision_facts_diverged R message preview \<longleftrightarrow>
     (if \<not> (heartbeat_revision_sensitive_terms_present message \<or> heartbeat_revision_sensitive_terms_present preview) then False
      else let mf = heartbeat_revision_fact_tokens R message; pf = heartbeat_revision_fact_tokens R preview
           in mf \<noteq> [] \<and> pf \<noteq> [] \<and> set mf \<noteq> set pf)"

text \<open>Whether a message repeats a preview: they are about the same thing, share enough tokens, and no price or estimate was
  revised.\<close>

definition repeats_preview :: "regex_engine \<Rightarrow> rstr \<Rightarrow> rstr \<Rightarrow> bool" where
  "repeats_preview R message preview \<longleftrightarrow>
     (let mt = heartbeat_ticker_anchor_tokens R message; pt = heartbeat_ticker_anchor_tokens R preview;
          same_explicit_ticker = (mt \<noteq> [] \<and> pt \<noteq> [] \<and> shared_tokens mt pt \<noteq> []);
          message_tokens = normalized_similarity_tokens R message; preview_tokens = normalized_similarity_tokens R preview;
          shared = length (shared_tokens message_tokens preview_tokens);
          smaller = min (length message_tokens) (length preview_tokens);
          strong_match = (shared \<ge> 4 \<and> shared * 100 \<ge> smaller * 70);
          reworded_fact_match = (shared \<ge> 5 \<and> (\<not> same_explicit_ticker \<or> heartbeat_same_ticker_reworded_fact_match R message preview))
      in if \<not> heartbeat_entity_anchors_compatible R message preview then False
         else if length preview_tokens < 4 then False
         else (strong_match \<or> reworded_fact_match) \<and> \<not> heartbeat_revision_facts_diverged R message preview)"

definition heartbeat_duplicate_preview_match :: "regex_engine \<Rightarrow> rstr \<Rightarrow> (rstr \<times> rstr) list \<Rightarrow> rstr option" where
  "heartbeat_duplicate_preview_match R message delivered_previews =
     (if length (normalized_similarity_tokens R message) < 4 then None
      else map_option (\<lambda>(_, preview). truncate_for_log (trim preview) 200) (find (\<lambda>(_, preview). repeats_preview R message preview) delivered_previews))"


section \<open>Commodity prices\<close>

definition job_commodity_names :: "rstr list" where
  "job_commodity_names = [[21407, 27833], [27833, 20215], [24067, 20262, 29305], [22823, 23447, 21830, 21697]]"

definition job_commodity_words :: "rstr list" where
  "job_commodity_words = [lit ''crude'', lit ''wti'', lit ''brent'', lit ''oil_price'', lit ''oil price'']"

definition prompt_commodity_names :: "rstr list" where
  "prompt_commodity_names = [[21407, 27833, 20215, 26684], [27833, 20215, 25773, 25253], [22823, 23447, 21830, 21697, 25773, 25253],
      [25773, 25253, 32, 87, 84, 73], [25773, 25253, 87, 84, 73], [27719, 24635, 32, 87, 84, 73],
      [27719, 24635, 87, 84, 73]]"

definition prompt_commodity_words :: "rstr list" where
  "prompt_commodity_words = [lit ''crude oil'', lit ''oil price monitor'', lit ''wti/brent'', lit ''wti / brent'']"

definition broad_review_terms :: "rstr list" where
  "broad_review_terms = [[22797, 30424], [31616, 25253], [39118, 25511], [28201, 24230], [25910, 30424], [30424, 21518], [30424, 21069],
      [22823, 30424], [24066, 22330], [25351, 25968], [24773, 32490], [26089, 25253], [38477, 24687], [27010, 29575],
      [23439, 35266], lit ''briefing'', lit ''morningbriefing'', lit ''marketreview'', lit ''postmarket'',
      lit ''premarket'', lit ''riskbrief'']"

definition scheduler_event_is_broad_market_review :: "scheduler_event \<Rightarrow> bool" where
  "scheduler_event_is_broad_market_review ev \<longleftrightarrow>
     contains_any (compact_lowercase_text (se_job_name ev @ [32] @ se_task_prompt ev)) broad_review_terms"

definition scheduler_event_is_commodity_related :: "scheduler_event \<Rightarrow> bool" where
  "scheduler_event_is_commodity_related ev \<longleftrightarrow>
     contains_any (se_job_name ev) job_commodity_names \<or> contains_any (to_ascii_lowercase (se_job_name ev)) job_commodity_words \<or>
     (contains_any (se_task_prompt ev) prompt_commodity_names \<or>
      contains_any (to_ascii_lowercase (se_task_prompt ev)) prompt_commodity_words) \<and>
     \<not> scheduler_event_is_broad_market_review ev"

definition causality_terms :: "rstr list" where
  "causality_terms = [[20027, 22240], [21407, 22240], [24402, 22240], [20027, 35201, 21463], [21463], [39537, 21160], [23548, 33268],
      [25903, 25745], [25215, 21387], [24433, 21709], [32972, 26223], [22240, 32032], [35299, 37322], [25512, 39640],
      [25512, 21319], [25289, 21160], [21387, 21046], [21387, 21147], [32531, 21644], [20462, 22797], [25285, 24551],
      [39118, 38505], [39118, 38505, 28322, 20215], [20013, 26029], [20851, 20572], [21319, 32423], lit ''because'',
      lit ''dueto'', lit ''drivenby'', lit ''causedby'', lit ''pushhigher'', lit ''riskpremium'']"

definition high_risk_terms :: "rstr list" where
  "high_risk_terms = [[22320, 32536], [23439, 35266], [20379, 24212], [38656, 27714], [24211, 23384], [33322, 36816], [33021, 28304],
      [36890, 32960], [27833, 20215], [35848, 21028], [20891, 20107], [25112, 20105], [20914, 31361], [32039, 24352],
      [20851, 31246], [39118, 38505, 28322, 20215], [20379, 24212, 20013, 26029], [20851, 20572, 39118, 38505],
      [25112, 30053, 20648, 22791], [30707, 27833, 20648, 22791], [27801, 29305], [38463, 32654], [35686, 21578],
      [20013, 19996], [20234, 26391], [38669, 23572, 26408, 20857], [32654, 20234], lit ''opec'', lit ''geopolitical'',
      lit ''supply'', lit ''demand'', lit ''inventory'', lit ''shipping'', lit ''sanction'', lit ''tariff'',
      lit ''riskpremium'', lit ''supplydisruption'']"

definition text_has_commodity_causality_claim :: "rstr \<Rightarrow> bool" where
  "text_has_commodity_causality_claim text \<longleftrightarrow>
     (let dense = compact_lowercase_text text in dense \<noteq> [] \<and> contains_any dense causality_terms \<and> contains_any dense high_risk_terms)"

definition ends_segment :: "nat \<Rightarrow> bool" where
  "ends_segment c \<longleftrightarrow> c \<in> {10, 12290, 65307, 59, 33, 65281, 63, 65311}"

text \<open>The text is cut after every mark that ends a sentence; blank pieces are left out.\<close>

fun cut_after :: "rstr \<Rightarrow> rstr \<Rightarrow> rstr list" where
  "cut_after current [] = [current]"
| "cut_after current (c # cs) =
     (if ends_segment c then (current @ [c]) # cut_after [] cs else cut_after (current @ [c]) cs)"

definition split_commodity_message_segments :: "rstr \<Rightarrow> rstr list" where
  "split_commodity_message_segments text = filter (\<lambda>s. s \<noteq> []) (map trim (cut_after [] text))"

definition commodity_terms :: "rstr list" where
  "commodity_terms = [[21407, 27833], [27833, 20215], [24067, 20262, 29305], lit ''wti'', lit ''brent'', lit ''crude'', lit ''oil'']"

definition text_looks_commodity_related :: "rstr \<Rightarrow> bool" where
  "text_looks_commodity_related text \<longleftrightarrow> contains_any (compact_lowercase_text text) commodity_terms"

definition quote_units :: "rstr list" where
  "quote_units = [lit ''$'', [32654, 20803], [26742]]"

definition speculative_terms :: "rstr list" where
  "speculative_terms = [[20272, 31639], [32422, 36], [32422, 20026, 36], [32422, 27599, 26742], [32422, 20154, 27665, 24065],
      [25512, 31639], [39044, 27979], [39044, 27979, 21306, 38388], [36890, 24120, 36739], [36148, 27700],
      [26410, 29420, 31435, 26657, 39564], [26410, 23436, 25104, 21516, 31383],
      [31934, 30830, 25910, 30424, 20215, 26410], [26080, 27861, 35777, 26126], [26410, 26680, 39564], lit ''assume'',
      lit ''estimated'', lit ''forecast'']"

definition has_numeric_quote :: "rstr \<Rightarrow> bool" where
  "has_numeric_quote text \<longleftrightarrow> list_ex is_digit text \<and> contains_any text quote_units"

definition text_has_speculative_commodity_price :: "rstr \<Rightarrow> bool" where
  "text_has_speculative_commodity_price text \<longleftrightarrow>
     (let dense = compact_lowercase_text text in
      contains_str dense [32422] \<and> text_looks_commodity_related text \<and> has_numeric_quote text \<or> contains_any dense speculative_terms)"

definition chinese_weekday_number :: "rstr \<Rightarrow> nat option" where
  "chinese_weekday_number label =
     map_of [([19968], 1), ([49], 1), ([20108], 2), ([50], 2), ([19977], 3), ([51], 3), ([22235], 4), ([52], 4), ([20116], 5), ([53], 5),
       ([20845], 6), ([54], 6), ([26085], 7), ([22825], 7), ([55], 7), ([48], 7)] label"

definition RE_DATE_WEEKDAY :: rstr where
  "RE_DATE_WEEKDAY = [40, 63, 120, 41, 10, 32, 32, 32, 32, 32, 32, 32, 32, 32, 32, 32, 32, 40, 63, 80, 60, 121, 101, 97, 114, 62,
    50, 48, 92, 100, 123, 50, 125, 41, 91, 45, 24180, 47, 93, 40, 63, 80, 60, 109, 111, 110, 116, 104, 62, 92,
    100, 123, 49, 44, 50, 125, 41, 91, 45, 26376, 47, 93, 40, 63, 80, 60, 100, 97, 121, 62, 92, 100, 123, 49, 44,
    50, 125, 41, 26085, 63, 10, 32, 32, 32, 32, 32, 32, 32, 32, 32, 32, 32, 32, 91, 94, 92, 110, 12290, 65307,
    59, 65292, 44, 93, 123, 48, 44, 49, 50, 125, 10, 32, 32, 32, 32, 32, 32, 32, 32, 32, 32, 32, 32, 40, 63, 58,
    21608, 124, 26143, 26399, 41, 40, 63, 80, 60, 119, 101, 101, 107, 100, 97, 121, 62, 91, 19968, 20108, 19977,
    22235, 20116, 20845, 26085, 22825, 48, 45, 55, 93, 41, 10, 32, 32, 32, 32, 32, 32, 32, 32, 32, 32, 32, 32]"

definition weekday_mismatch :: "guard_env \<Rightarrow> captures \<Rightarrow> bool" where
  "weekday_mismatch G c \<longleftrightarrow>
     (case (captured_number c ''year'' ''year'', captured_number c ''month'' ''month'', captured_number c ''day'' ''day'',
        Option.bind (cp_name c (lit ''weekday'')) chinese_weekday_number) of
        (Some year, Some month, Some day, Some weekday) \<Rightarrow>
          (case ch_from_ymd (ge_chrono G) (int year) month day of
             None \<Rightarrow> False
           | Some d \<Rightarrow> Suc (ch_weekday (ge_chrono G) d) \<noteq> weekday)
      | _ \<Rightarrow> False)"

definition text_has_date_weekday_mismatch :: "guard_env \<Rightarrow> rstr \<Rightarrow> bool" where
  "text_has_date_weekday_mismatch G text \<longleftrightarrow> list_ex (weekday_mismatch G) (found (ge_regex G) RE_DATE_WEEKDAY text)"

definition unverified_terms :: "rstr list" where
  "unverified_terms = [[36817, 19968, 20010, 26376], [32047, 35745, 19978, 28072], [32047, 35745, 19979, 36300], lit ''bloomberg'',
      lit ''reuters'', lit ''wsj'', lit ''eia'', [25130, 33267], [53, 26376, 56, 26085], [53, 26376, 57, 26085]]"

definition text_has_unverified_commodity_market_claim :: "guard_env \<Rightarrow> rstr \<Rightarrow> bool" where
  "text_has_unverified_commodity_market_claim G text \<longleftrightarrow>
     text_has_speculative_commodity_price text \<or> text_has_date_weekday_mismatch G text \<or>
     contains_any (compact_lowercase_text text) unverified_terms"

definition unchecked_terms :: "rstr list" where
  "unchecked_terms = [[26410, 23436, 25104, 21516, 31383], [26410, 26680, 39564], [26410, 26657, 39564], [26410, 39564, 35777],
      [26080, 27861, 35777, 26126], lit ''bloomberg'', lit ''reuters'', lit ''wsj'', lit ''eia'',
      [36817, 19968, 20010, 26376], [32047, 35745, 19978, 28072], [32047, 35745, 19979, 36300]]"

definition text_looks_like_commodity_price_observation :: "guard_env \<Rightarrow> rstr \<Rightarrow> bool" where
  "text_looks_like_commodity_price_observation G text \<longleftrightarrow>
     contains_any (compact_lowercase_text text) commodity_terms \<and> has_numeric_quote text \<and>
     \<not> text_has_commodity_causality_claim text \<and> \<not> text_has_speculative_commodity_price text \<and>
     \<not> text_has_date_weekday_mismatch G text \<and> \<not> contains_any (compact_lowercase_text text) unchecked_terms"

definition grounded_terms :: "rstr list" where
  "grounded_terms = [[26412, 36718, 24037, 20855], [26412, 36718, 26816, 32034], [26412, 36718, 26469, 28304],
      [21516, 31383, 26469, 28304], [21516, 31383, 26680, 39564], [24050, 26680, 39564], [24050, 26657, 39564],
      [20132, 26131, 25152], [23448, 26041, 25253, 20215], lit ''official'', lit ''exchange'', lit ''verified'']"

definition text_has_explicit_grounded_commodity_source :: "rstr \<Rightarrow> bool" where
  "text_has_explicit_grounded_commodity_source text \<longleftrightarrow> contains_any (compact_lowercase_text text) grounded_terms"

definition broad_anchor_terms :: "rstr list" where
  "broad_anchor_terms = [[97, 32929], [28207, 32929], [32654, 32929], [22823, 30424], [32435, 25351], lit ''nasdaq'', lit ''qqq'',
      [26631, 26222], lit ''s&p'', lit ''sp500'', [36947, 25351], lit ''dow'', lit ''vix'', lit ''fear&greed'',
      lit ''feargreed'', [24658, 29983], lit ''hsi'', [19978, 35777], [28145, 25104, 25351], [21019, 19994, 26495],
      [31185, 25216, 32929], [21322, 23548, 20307], lit ''ai'', [30828, 20214], lit ''etf'', lit ''xme'',
      [21152, 23494], [38477, 24687], lit ''fomc'', lit ''fedwatch'', lit ''pce'', [21033, 29575], [23439, 35266],
      [22269, 20538, 25910, 30410, 29575], [49, 48, 24180, 26399, 32654, 20538], [39118, 38505, 20559, 22909],
      [39118, 25511], [28201, 24230], [20241, 24066], [20132, 26131, 26085], [24773, 32490], [36138, 23146],
      lit ''greed'', [36861, 28072], [36180, 29575], [39640, 20301], [20302, 27874, 21160], [20559, 28909],
      [30408, 21033, 20817, 29616]]"

definition broad_market_review_anchor_hits :: "rstr \<Rightarrow> nat" where
  "broad_market_review_anchor_hits text = count_distinct_keyword_hits (compact_lowercase_text text) broad_anchor_terms"

definition text_has_broad_market_review_context :: "rstr \<Rightarrow> bool" where
  "text_has_broad_market_review_context text \<longleftrightarrow> broad_market_review_anchor_hits text \<ge> 2"

text \<open>The loop that keeps at most four different segments.\<close>

fun retain_segments :: "guard_env \<Rightarrow> rstr list \<Rightarrow> rstr list \<Rightarrow> rstr list" where
  "retain_segments G retained [] = retained"
| "retain_segments G retained (segment # rest) =
     (let retained = (if text_looks_like_commodity_price_observation G segment \<and> text_has_explicit_grounded_commodity_source segment \<and>
            segment \<notin> set retained then retained @ [segment] else retained)
      in if length retained \<ge> 4 then retained else retain_segments G retained rest)"

definition CAUSALITY_NOTICE :: rstr where
  "CAUSALITY_NOTICE = [12304, 24402, 22240, 21475, 24452, 12305, 26412, 36718, 21407, 27833, 47, 22823, 23447, 21830, 21697, 25773,
    25253, 21253, 21547, 26410, 23436, 25104, 21516, 31383, 26469, 28304, 26680, 39564, 30340, 21407, 22240,
    24402, 22240, 65292, 24050, 31227, 38500, 21407, 27491, 25991, 20013, 30340, 23439, 35266, 12289, 22320,
    32536, 12289, 20379, 38656, 12289, 24211, 23384, 31561, 20027, 22240, 21465, 36848, 65307, 19981, 33021,
    35270, 20026, 24050, 30830, 35748, 27833, 20215, 20027, 22240, 12290]"

definition NOTHING_RETAINED :: rstr where
  "NOTHING_RETAINED = [10, 26412, 36718, 26410, 20445, 30041, 21407, 27491, 25991, 20013, 30340, 20215, 26684, 25110, 24402, 22240,
    21477, 65307, 35831, 31561, 24453, 19979, 19968, 36718, 26680, 39564, 25110, 25163, 21160, 26597, 35810,
    20132, 26131, 25152, 47, 23448, 26041, 25968, 25454, 12290]"

definition bullet :: "rstr \<Rightarrow> rstr" where
  "bullet segment = [10, 45, 32] @ trim segment"

definition rewrite_commodity_causality_message :: "guard_env \<Rightarrow> rstr \<Rightarrow> rstr" where
  "rewrite_commodity_causality_message G text =
     (let retained = retain_segments G [] (split_commodity_message_segments text) in
      CAUSALITY_NOTICE @
      (if retained = [] then NOTHING_RETAINED else [10, 12304, 24050, 20445, 30041, 30340, 20215, 26684, 21475, 24452, 12305] @ concat (map bullet retained)))"

definition commodity_keywords :: "rstr list" where
  "commodity_keywords = [[21407, 27833], [27833, 20215], [24067, 20262, 29305], lit ''wti'', lit ''brent'', lit ''crude'', lit ''oil'',
      lit ''uso'']"

definition commodity_keyword_hits :: "rstr \<Rightarrow> nat" where
  "commodity_keyword_hits text = count_distinct_keyword_hits (compact_lowercase_text text) commodity_keywords"

definition text_is_predominantly_commodity_related :: "rstr \<Rightarrow> bool" where
  "text_is_predominantly_commodity_related text \<longleftrightarrow>
     (if \<not> text_looks_commodity_related text then False
      else
        (let commodity_hits = commodity_keyword_hits text; broad_market_hits = broad_market_review_anchor_hits text;
             segments = split_commodity_message_segments text
         in if broad_market_hits \<ge> 4 \<and> broad_market_hits \<ge> commodity_hits + 2 then False
            else if segments = [] then True
            else if length segments \<le> 2 then
              (if broad_market_hits \<ge> 3 then commodity_hits \<ge> 4 \<and> commodity_hits > broad_market_hits
               else commodity_hits \<ge> 3 \<or> \<not> text_has_broad_market_review_context text)
            else
              (let total_chars = sum_list (map length segments);
                   commodity_segments = length (filter text_looks_commodity_related segments);
                   commodity_chars = sum_list (map length (filter text_looks_commodity_related segments))
               in if total_chars = 0 then False
                  else if text_has_broad_market_review_context text then
                    commodity_segments * 3 \<ge> length segments * 2 \<and> commodity_chars * 3 \<ge> total_chars * 2
                  else commodity_segments * 2 \<ge> length segments \<or> commodity_chars * 2 \<ge> total_chars)))"

definition guard_commodity_causality_for_event :: "guard_env \<Rightarrow> rstr \<Rightarrow> scheduler_event \<Rightarrow> rstr option" where
  "guard_commodity_causality_for_event G text ev =
     (if \<not> (text_has_commodity_causality_claim text \<or> text_has_unverified_commodity_market_claim G text) then None
      else if \<not> scheduler_event_is_commodity_related ev \<and> \<not> text_is_predominantly_commodity_related text then None
      else let rewritten = rewrite_commodity_causality_message G text in
        if trim rewritten = trim text then None else Some rewritten)"

section \<open>Instructions to trade\<close>

definition direct_trade_phrases :: "rstr list" where
  "direct_trade_phrases = [[26080, 26465, 20214, 27490, 25439], [24517, 39035, 27490, 25439], [24517, 39035, 21334, 20986],
      [24517, 39035, 28165, 20179], [31435, 21363, 27490, 25439], [31435, 21363, 21334, 20986],
      [31435, 21363, 28165, 20179], [39532, 19978, 27490, 25439], [39532, 19978, 21334, 20986],
      [39532, 19978, 28165, 20179], [31435, 21363, 20080, 20837], [39532, 19978, 20080, 20837],
      [20840, 20179, 20080, 20837], [26080, 26465, 20214, 20080, 20837], [26080, 26465, 20214, 21334, 20986],
      lit ''mustsell'', lit ''sellimmediately'', lit ''liquidateimmediately'', lit ''buyimmediately'',
      lit ''stoplossimmediately'']"

definition trade_actions :: "rstr list" where
  "trade_actions = [[27490, 25439], [28165, 20179], [21334, 20986], [20080, 20837], [25220, 24213],
      [25345, 26377, 31561, 24453, 21453, 24377]]"

definition text_has_direct_trade_instruction :: "rstr \<Rightarrow> bool" where
  "text_has_direct_trade_instruction text \<longleftrightarrow>
     (let dense = compact_lowercase_text text in
      contains_any dense direct_trade_phrases \<or>
      (contains_str dense [24314, 35758, 21160, 20316] \<or> contains_str dense [25805, 20316, 24314, 35758]) \<and> contains_any dense trade_actions)"

definition TRADE_NOTICE :: rstr where
  "TRADE_NOTICE = [12304, 39118, 38505, 25552, 31034, 12305, 26412, 36718, 33258, 21160, 39044, 35686, 21482, 30830, 35748,
    35302, 21457, 26465, 20214, 19982, 39118, 38505, 20107, 23454, 65292, 19981, 26500, 25104, 20080, 21334,
    12289, 27490, 25439, 12289, 21152, 20179, 25110, 28165, 20179, 25351, 20196, 12290, 33509, 20320, 21407,
    26412, 20197, 35813, 38408, 20540, 20316, 20026, 39118, 25511, 32447, 65292, 35831, 32467, 21512, 20179,
    20301, 12289, 25104, 26412, 12289, 27969, 21160, 24615, 21644, 39118, 38505, 25215, 21463, 33021, 21147,
    22797, 26680, 65307, 38656, 35201, 21160, 20316, 26102, 24212, 25353, 20320, 39044, 20808, 35774, 23450,
    30340, 26465, 20214, 25191, 34892, 12290]"

definition rewrite_direct_trade_instruction_message :: "rstr \<Rightarrow> rstr" where
  "rewrite_direct_trade_instruction_message text =
     (let retained = take 6 (filter (\<lambda>s. \<not> text_has_direct_trade_instruction s) (split_commodity_message_segments text)) in
      TRADE_NOTICE @ (if retained = [] then [] else [10, 12304, 35302, 21457, 20107, 23454, 12305] @ concat (map bullet retained)))"

definition guard_direct_trade_instruction_for_event :: "rstr \<Rightarrow> scheduler_event \<Rightarrow> rstr option" where
  "guard_direct_trade_instruction_for_event text ev =
     (if \<not> se_heartbeat ev \<or> \<not> text_has_direct_trade_instruction text then None
      else let rewritten = rewrite_direct_trade_instruction_message text in
        if trim rewritten = trim text then None else Some rewritten)"


section \<open>What the guards leave\<close>

lemma compact_append [simp]: "compact_lowercase_text (a @ b) = compact_lowercase_text a @ compact_lowercase_text b"
  by (simp add: compact_lowercase_text_def to_ascii_lowercase_def)

lemma compact_trim [simp]: "compact_lowercase_text (trim s) = compact_lowercase_text s"
proof -
  have "filter (\<lambda>c. \<not> is_whitespace c) (dropWhile is_whitespace xs) = filter (\<lambda>c. \<not> is_whitespace c) xs" for xs
    by (induction xs) auto
  then have "filter (\<lambda>c. \<not> is_whitespace c) (trim s) = filter (\<lambda>c. \<not> is_whitespace c) s"
    by (simp add: trim_def trim_start_def trim_end_def flip: rev_filter)
  then show ?thesis by (simp add: compact_lowercase_text_def)
qed

definition free_of :: "rstr list \<Rightarrow> rstr \<Rightarrow> bool" where
  "free_of phrases text \<longleftrightarrow> \<not> contains_any (compact_lowercase_text text) phrases"

lemma free_of_trim [simp]: "free_of phrases (trim s) = free_of phrases s"
  by (simp add: free_of_def)

lemma free_of_part: "free_of phrases (a @ b @ c) \<Longrightarrow> free_of phrases b"
  by (auto simp: free_of_def contains_any_def contains_str_iff) (metis append.assoc)

text \<open>A phrase without a hyphen does not reach across one.\<close>

lemma starts_across: "x \<notin> set p \<Longrightarrow> starts_with (a @ x # b) p \<Longrightarrow> starts_with a p"
proof (induction a arbitrary: p)
  case Nil
  then show ?case by (cases p) auto
next
  case (Cons y a)
  then show ?case by (cases p) auto
qed

lemma contains_across: "x \<notin> set p \<Longrightarrow> contains_str (a @ x # b) p \<Longrightarrow> contains_str a p \<or> contains_str b p"
proof (induction a)
  case Nil
  then show ?case by (cases p) auto
next
  case (Cons y a)
  then show ?case using starts_across [of x p "y # a" b] by auto
qed

definition no_hyphen :: "rstr list \<Rightarrow> bool" where
  "no_hyphen phrases \<longleftrightarrow> list_all (\<lambda>p. 45 \<notin> set p) phrases"

lemma free_of_bullets:
  assumes "no_hyphen phrases" "free_of phrases header" "\<forall>s \<in> set segments. free_of phrases s" "[] \<notin> set phrases"
  shows "free_of phrases (header @ concat (map bullet segments))"
  using assms(2,3)
proof (induction segments arbitrary: header)
  case (Cons s segments)
  have "free_of phrases (header @ bullet s)"
  proof -
    have "\<not> contains_str (compact_lowercase_text header @ 45 # compact_lowercase_text s) p" if "p \<in> set phrases" for p
    proof
      assume "contains_str (compact_lowercase_text header @ 45 # compact_lowercase_text s) p"
      moreover have "45 \<notin> set p" using assms(1) that by (simp add: no_hyphen_def list_all_iff)
      ultimately show False using contains_across Cons.prems that by (fastforce simp: free_of_def contains_any_def)
    qed
    moreover have "compact_lowercase_text (header @ bullet s) = compact_lowercase_text header @ 45 # compact_lowercase_text s"
      by (simp only: bullet_def compact_append compact_trim)
        (simp add: compact_lowercase_text_def to_ascii_lowercase_def is_whitespace_def ascii_lower_def is_ascii_upper_def)
    ultimately show ?thesis by (simp add: free_of_def contains_any_def)
  qed
  then show ?case using Cons.IH [of "header @ bullet s"] Cons.prems(2) by simp
qed simp

lemma cut_after_parts: "s \<in> set (cut_after current t) \<Longrightarrow> \<exists>a b. current @ t = a @ s @ b"
proof (induction t arbitrary: current)
  case Nil
  then have "current @ [] = [] @ s @ []" by simp
  then show ?case by blast
next
  case (Cons c cs)
  show ?case
  proof (cases "ends_segment c \<and> s \<noteq> current @ [c]")
    case True
    then have "s \<in> set (cut_after [] cs)" using Cons.prems by simp
    then obtain a b where "cs = a @ s @ b" using Cons.IH by fastforce
    then have "current @ c # cs = (current @ c # a) @ s @ b" by simp
    then show ?thesis by blast
  next
    case False
    show ?thesis
    proof (cases "ends_segment c")
      case True
      then have "current @ c # cs = [] @ s @ cs" using False by simp
      then show ?thesis by blast
    next
      case no: False
      then show ?thesis using Cons.IH [of "current @ [c]"] Cons.prems by simp
    qed
  qed
qed

lemma segments_free:
  assumes "free_of phrases text" "s \<in> set (split_commodity_message_segments text)"
  shows "free_of phrases s"
proof -
  obtain x where x: "s = trim x" "x \<in> set (cut_after [] text)" using assms(2) by (auto simp: split_commodity_message_segments_def)
  then obtain a b where "text = a @ x @ b" using cut_after_parts by fastforce
  then show ?thesis using assms(1) free_of_part x(1) by (metis free_of_trim)
qed

lemma retained_from: "set (retain_segments G retained segments) \<subseteq> set retained \<union> set segments"
  by (induction G retained segments rule: retain_segments.induct) (auto simp: Let_def split: if_splits)

lemma direct_phrases_plain: "no_hyphen direct_trade_phrases" "[] \<notin> set direct_trade_phrases"
  by (simp_all add: no_hyphen_def direct_trade_phrases_def lit_def)

text \<open>A text is free of phrases when each has one of some characters and it has none of them.\<close>

lemma free_of_lacking:
  assumes "list_all (list_ex (\<lambda>c. c \<in> rare)) phrases" "list_all (\<lambda>d. ascii_lower d \<notin> rare) t"
  shows "free_of phrases t"
proof -
  have "\<not> contains_str (compact_lowercase_text t) p" if p: "p \<in> set phrases" for p
  proof
    assume "contains_str (compact_lowercase_text t) p"
    then have "set p \<subseteq> set (compact_lowercase_text t)" by (auto simp: contains_str_iff)
    also have "\<dots> \<subseteq> ascii_lower ` set t" by (auto simp: compact_lowercase_text_def to_ascii_lowercase_def)
    finally show False using assms p by (fastforce simp: list_all_iff list_ex_iff)
  qed
  then show ?thesis by (simp add: free_of_def contains_any_def)
qed

lemma direct_phrases_marked: "list_all (list_ex (\<lambda>c. c \<in> {101, 20986, 20837, 39035, 31435, 19978, 26080})) direct_trade_phrases"
  by (simp add: direct_trade_phrases_def lit_def)

lemma notices_free:
  "free_of direct_trade_phrases (TRADE_NOTICE @ [10, 12304, 35302, 21457, 20107, 23454, 12305])" "free_of direct_trade_phrases TRADE_NOTICE"
  "free_of direct_trade_phrases (CAUSALITY_NOTICE @ NOTHING_RETAINED)" "free_of direct_trade_phrases (CAUSALITY_NOTICE @ [10, 12304, 24050, 20445, 30041, 30340, 20215, 26684, 21475, 24452, 12305])"
  by (rule free_of_lacking [OF direct_phrases_marked],
      simp add: TRADE_NOTICE_def CAUSALITY_NOTICE_def NOTHING_RETAINED_def ascii_lower_def is_ascii_upper_def)+

lemma trade_guard_free:
  assumes "se_heartbeat ev"
  shows "free_of direct_trade_phrases (unwrap_or text (guard_direct_trade_instruction_for_event text ev))"
proof (cases "text_has_direct_trade_instruction text")
  case False
  then show ?thesis by (simp add: guard_direct_trade_instruction_for_event_def text_has_direct_trade_instruction_def free_of_def Let_def)
next
  case True
  let ?r = "rewrite_direct_trade_instruction_message text"
  have "free_of direct_trade_phrases s" if "\<not> text_has_direct_trade_instruction s" for s
    using that by (simp add: text_has_direct_trade_instruction_def free_of_def Let_def)
  then have clean: "\<forall>s \<in> set (take 6 (filter (\<lambda>s. \<not> text_has_direct_trade_instruction s) (split_commodity_message_segments text))).
      free_of direct_trade_phrases s" by (auto dest!: in_set_takeD)
  have "free_of direct_trade_phrases ?r"
    unfolding rewrite_direct_trade_instruction_message_def Let_def
    using notices_free(2) free_of_bullets [OF direct_phrases_plain(1) notices_free(1) clean direct_phrases_plain(2)] by simp
  moreover have "free_of direct_trade_phrases t" if "trim ?r = trim t" for t
    using \<open>free_of direct_trade_phrases ?r\<close> that by (metis free_of_trim)
  ultimately show ?thesis using True assms
    by (auto simp: guard_direct_trade_instruction_for_event_def Let_def)
qed

lemma commodity_guard_free:
  assumes "free_of direct_trade_phrases text"
  shows "free_of direct_trade_phrases (unwrap_or text (guard_commodity_causality_for_event G text ev))"
proof -
  have "\<forall>s \<in> set (retain_segments G [] (split_commodity_message_segments text)). free_of direct_trade_phrases s"
    using retained_from [of G "[]"] segments_free [OF assms] by fastforce
  then have "free_of direct_trade_phrases (rewrite_commodity_causality_message G text)"
    unfolding rewrite_commodity_causality_message_def Let_def
    using notices_free(3) free_of_bullets [OF direct_phrases_plain(1) notices_free(4) _ direct_phrases_plain(2)] by simp
  then show ?thesis using assms by (auto simp: guard_commodity_causality_for_event_def Let_def)
qed

end
