(* ===== verification/Scheduled_Prompt.thy ===== *)
theory Scheduled_Prompt
  imports Heartbeat_Guards Session_Store
begin

text \<open>
  \<^verbatim>\<open>hone-channels/src/scheduler.rs\<close>, the prompt a scheduled task is run with: the instructions of a heartbeat or the
  trigger of an ordinary task, and the hit zones of a watch list recovered from the summary of the conversation. The
  regular expressions and the escaping of a word in one are the crate \<^verbatim>\<open>regex\<close>, parameters.
\<close>

section \<open>The prompt\<close>

definition heartbeat_check_time_text :: "chrono \<Rightarrow> instant \<Rightarrow> rstr" where
  "heartbeat_check_time_text C t =
     ch_fmt_date C (local_date beijing_offset t) @ [32] @ fmt02 (local_hour beijing_offset t) @ [58] @ fmt02 (local_minute beijing_offset t)"

definition scheduled_prompt_needs_stable_local_context :: "scheduler_event \<Rightarrow> bool" where
  "scheduled_prompt_needs_stable_local_context ev \<longleftrightarrow>
     (let haystack = to_ascii_lowercase (se_job_name ev @ [32] @ se_task_prompt ev);
          has_hit_zone = contains_str (se_job_name ev) [20987, 29699, 21306] \<or> contains_str (se_task_prompt ev) [20987, 29699, 21306] \<or>
            contains_str haystack (lit ''hit zone'') \<or> contains_str haystack (lit ''hit-zone'');
          has_watch_pool = contains_str (se_job_name ev) [35266, 23519, 27744] \<or> contains_str (se_job_name ev) [35266, 23519, 32929, 27744] \<or>
            contains_str (se_task_prompt ev) [35266, 23519, 27744] \<or> contains_str (se_task_prompt ev) [35266, 23519, 32929, 27744] \<or>
            contains_str haystack (lit ''watchlist'') \<or> contains_str haystack (lit ''watch pool'')
      in has_hit_zone \<and> has_watch_pool)"

definition heartbeat_history_section :: "(rstr \<times> rstr) list \<Rightarrow> rstr" where
  "heartbeat_history_section previews =
     (if previews = [] then []
      else [10, 26368, 36817, 20960, 36718, 24050, 36865, 36798, 30340, 25552, 37266, 65288, 20379, 21435, 37325, 21442,
    32771, 65292, 19981, 24471, 37325, 22797, 21457, 36865, 30456, 21516, 20107, 23454, 65289, 65306, 10]
        @ intercalate [10] (map (\<lambda>(ts, preview). lit ''  - ['' @ ts @ lit ''] '' @ preview) previews)
        @ [10, 49, 48, 46, 32, 21435, 37325, 32422, 26463, 65306, 23545, 29031, 19978, 26041, 12304, 26368, 36817,
    24050, 36865, 36798, 12305, 21015, 34920, 65292, 33509, 26412, 36718, 26816, 32034, 21040, 30340, 20107,
    20214, 19982, 21015, 34920, 20013, 26576, 26465, 20869, 23481, 25551, 36848, 30340, 26159, 21516, 19968,
    20010, 20107, 20214, 65288, 30456, 21516, 20652, 21270, 32, 43, 32, 30456, 21516, 20107, 20214, 31383, 21475,
    65289, 65292, 19988, 27809, 26377, 26032, 30340, 29420, 31435, 34892, 24773, 26102, 38388, 25139, 12289,
    26032, 30340, 20844, 21578, 25110, 26032, 30340, 29366, 24577, 21464, 21270, 65292, 24517, 39035, 36820,
    22238, 32, 110, 111, 111, 112, 65292, 19981, 20801, 35768, 37325, 22797, 32, 116, 114, 105, 103, 103, 101,
    114, 101, 100, 12290, 10])"

definition HEARTBEAT_RULES :: rstr where
  "HEARTBEAT_RULES = [12290, 10, 35831, 20351, 29992, 21487, 29992, 24037, 20855, 26816, 26597, 29992, 25143, 35774, 32622, 30340,
    35302, 21457, 26465, 20214, 26159, 21542, 24050, 32463, 28385, 36275, 12290, 10, 10, 35268, 21017, 65306, 10,
    49, 46, 32, 22914, 26524, 26465, 20214, 23578, 26410, 28385, 36275, 65292, 20248, 20808, 21482, 36755, 20986,
    32, 96, 123, 34, 115, 116, 97, 116, 117, 115, 34, 58, 34, 110, 111, 111, 112, 34, 125, 96, 65307, 20026,
    20860, 23481, 26087, 34892, 20026, 65292, 20063, 20801, 35768, 21482, 36755, 20986, 32, 96, 123, 125, 96,
    12290, 10, 50, 46, 32, 22914, 26524, 26465, 20214, 24050, 28385, 36275, 65292, 21482, 36755, 20986, 19968,
    27573, 32, 74, 83, 79, 78, 65306, 96, 123, 34, 115, 116, 97, 116, 117, 115, 34, 58, 34, 116, 114, 105, 103,
    103, 101, 114, 101, 100, 34, 44, 34, 109, 101, 115, 115, 97, 103, 101, 34, 58, 34, 46, 46, 46, 34, 125, 96,
    12290, 10, 51, 46, 32, 96, 109, 101, 115, 115, 97, 103, 101, 96, 32, 24517, 39035, 26159, 19968, 26465,
    21487, 20197, 30452, 25509, 21457, 32473, 29992, 25143, 30340, 25552, 37266, 28040, 24687, 65292, 21253,
    21547, 65306, 28385, 36275, 30340, 26465, 20214, 12289, 20851, 38190, 25968, 25454, 12289, 26816, 26597,
    26102, 38388, 65307, 26816, 26597, 26102, 38388, 24517, 39035, 20351, 29992, 19978, 26041, 8220, 26412,
    36718, 26435, 23041, 26816, 26597, 26102, 38388, 65288, 21271, 20140, 26102, 38388, 65289, 8221, 65292,
    19981, 24471, 33258, 34892, 25442, 31639, 25110, 25512, 26029, 21478, 19968, 20010, 21271, 20140, 26102,
    38388, 12290, 10, 52, 46, 32, 19981, 35201, 21019, 24314, 26032, 30340, 23450, 26102, 20219, 21153, 65292,
    20063, 19981, 35201, 20462, 25913, 29616, 26377, 20219, 21153, 12290, 10, 53, 46, 32, 19981, 35201, 36755,
    20986, 32, 77, 97, 114, 107, 100, 111, 119, 110, 32, 20195, 30721, 22359, 65292, 19981, 35201, 36755, 20986,
    39069, 22806, 35299, 37322, 65292, 19981, 35201, 26292, 38706, 20219, 20309, 20869, 37096, 25511, 21046,
    26631, 35760, 12290, 10, 54, 46, 32, 22914, 26524, 20320, 19981, 30830, 23450, 26159, 21542, 28385, 36275,
    26465, 20214, 65292, 25110, 32773, 36755, 20986, 26684, 24335, 19981, 26159, 20005, 26684, 32, 74, 83, 79,
    78, 65292, 23601, 24517, 39035, 36820, 22238, 32, 110, 111, 111, 112, 65292, 19981, 20801, 35768, 21457,
    36865, 33258, 30001, 25991, 26412, 12290, 10, 54, 97, 46, 32, 36755, 20986, 22865, 32422, 65306, 25972,
    26465, 22238, 22797, 24517, 39035, 26159, 21333, 27573, 32, 74, 83, 79, 78, 65292, 31532, 19968, 20010,
    21487, 35265, 23383, 31526, 24517, 39035, 26159, 32, 96, 123, 96, 12290, 20005, 31105, 20351, 29992, 32, 96,
    60, 116, 104, 105, 110, 107, 62, 46, 46, 46, 60, 47, 116, 104, 105, 110, 107, 62, 96, 12289, 96, 96, 96, 106,
    115, 111, 110, 32, 46, 46, 46, 32, 96, 96, 96, 12289, 96, 35, 35, 32, 20998, 26512, 96, 12289, 20998, 27493,
    35299, 37322, 25110, 20219, 20309, 21069, 32622, 47, 25910, 23614, 30340, 33258, 30001, 25991, 26412, 12290,
    25512, 29702, 36807, 31243, 19981, 35201, 23545, 22806, 23637, 31034, 65307, 38656, 35201, 25512, 29702,
    26102, 22312, 20869, 37096, 23436, 25104, 21518, 65292, 30452, 25509, 32473, 20986, 26368, 32456, 32, 74, 83,
    79, 78, 12290, 10, 54, 98, 46, 32, 22914, 26524, 20320, 21457, 29616, 29992, 25143, 26465, 20214, 12289,
    20132, 26131, 21160, 20316, 36793, 30028, 12289, 26469, 28304, 24402, 22240, 25110, 36755, 20986, 22865,
    32422, 20043, 38388, 23384, 22312, 20914, 31361, 65292, 19981, 35201, 35299, 37322, 20914, 31361, 12289,
    19981, 35201, 22797, 36848, 35268, 21017, 12289, 19981, 35201, 36755, 20986, 31354, 25991, 26412, 65307,
    24517, 39035, 36820, 22238, 32, 96, 123, 34, 115, 116, 97, 116, 117, 115, 34, 58, 34, 110, 111, 111, 112, 34,
    125, 96, 65292, 38500, 38750, 20320, 33021, 29992, 21512, 35268, 30340, 32, 96, 116, 114, 105, 103, 103, 101,
    114, 101, 100, 96, 32, 74, 83, 79, 78, 32, 21482, 25253, 21578, 35302, 21457, 20107, 23454, 21644, 26465,
    20214, 21270, 39118, 38505, 25552, 31034, 12290, 10, 54, 99, 46, 32, 20005, 31105, 36755, 20986, 24037,
    20855, 37197, 32622, 12289, 20219, 21153, 37197, 32622, 12289, 30011, 20687, 24314, 26723, 35828, 26126,
    12289, 96, 115, 101, 116, 95, 105, 109, 109, 101, 100, 105, 97, 116, 101, 95, 107, 105, 110, 100, 115, 96,
    12289, 96, 99, 114, 111, 110, 95, 106, 111, 98, 96, 32, 25110, 20219, 20309, 8220, 24050, 37197, 32622, 47,
    23558, 21019, 24314, 30417, 25511, 8221, 30340, 35828, 26126, 65307, 22914, 26524, 26412, 36718, 35823,
    20837, 37197, 32622, 47, 24314, 26723, 47, 20219, 21153, 27835, 29702, 36335, 24452, 65292, 24517, 39035,
    36820, 22238, 32, 96, 123, 34, 115, 116, 97, 116, 117, 115, 34, 58, 34, 110, 111, 111, 112, 34, 125, 96,
    12290, 10, 55, 46, 32, 26102, 38388, 19968, 33268, 24615, 32422, 26463, 65306, 23545, 20110, 21457, 23556,
    12289, 36130, 25253, 12289, 19994, 32489, 20250, 31561, 26377, 26126, 30830, 26102, 38388, 31383, 21475,
    30340, 20107, 20214, 65292, 24517, 39035, 20808, 21028, 26029, 24403, 21069, 26102, 38388, 26159, 21542,
    24050, 36234, 36807, 20107, 20214, 39044, 23450, 26102, 38388, 65292, 25165, 33021, 36755, 20986, 23436,
    25104, 24577, 32467, 35770, 12290, 33509, 24403, 21069, 26102, 38388, 26089, 20110, 20107, 20214, 35745,
    21010, 26102, 38388, 65292, 24517, 39035, 36820, 22238, 32, 110, 111, 111, 112, 65292, 19981, 20801, 35768,
    25226, 26410, 26469, 35745, 21010, 35823, 25253, 25104, 24050, 23436, 25104, 12290, 10, 55, 97, 46, 32,
    26102, 38388, 21475, 24452, 21629, 21517, 32422, 26463, 65306, 96, 109, 101, 115, 115, 97, 103, 101, 96, 32,
    20013, 20889, 8220, 21271, 20140, 26102, 38388, 32, 72, 72, 58, 77, 77, 32, 35302, 21457, 47, 30417, 25511,
    35302, 21457, 47, 26816, 26597, 35302, 21457, 8221, 26102, 65292, 21482, 33021, 20351, 29992, 19978, 26041,
    26435, 23041, 26816, 26597, 26102, 38388, 65307, 24066, 22330, 26102, 27573, 12289, 25968, 25454, 26102,
    38388, 25110, 32654, 19996, 30424, 21069, 47, 30424, 21518, 21482, 33021, 26631, 27880, 20026, 8220, 25968,
    25454, 26102, 38388, 8221, 8220, 32654, 19996, 26102, 38388, 8221, 8220, 20132, 26131, 26102, 27573, 8221,
    65292, 19981, 33021, 20889, 25104, 21478, 19968, 20010, 8220, 21271, 20140, 26102, 38388, 35302, 21457, 8221,
    12290, 10, 56, 46, 32, 20215, 26684, 26102, 38388, 21475, 24452, 32422, 26463, 65306, 24341, 29992, 32929,
    20215, 12289, 37329, 20215, 12289, 27719, 29575, 25110, 21830, 21697, 20215, 26684, 26102, 65292, 24517,
    39035, 26680, 23454, 20215, 26684, 30340, 26102, 38388, 25139, 12290, 20215, 26684, 38408, 20540, 32, 47, 32,
    36300, 30772, 32, 47, 32, 31361, 30772, 31867, 32, 104, 101, 97, 114, 116, 98, 101, 97, 116, 32, 21482,
    26377, 22312, 26368, 26032, 21487, 24471, 20215, 26684, 23646, 20110, 24403, 21069, 26816, 26597, 31383,
    21475, 25110, 26368, 36817, 21487, 35299, 37322, 20132, 26131, 31383, 21475, 26102, 25165, 33021, 32, 116,
    114, 105, 103, 103, 101, 114, 101, 100, 65307, 33509, 24037, 20855, 21482, 36820, 22238, 26126, 26174, 26087,
    26085, 26399, 12289, 32570, 23569, 20215, 26684, 26102, 38388, 25139, 65292, 25110, 26080, 27861, 35777,
    26126, 35813, 20215, 26684, 20173, 26159, 26368, 26032, 21487, 24471, 20215, 26684, 65292, 24517, 39035,
    36820, 22238, 32, 110, 111, 111, 112, 65292, 19981, 20801, 35768, 25226, 26087, 20215, 26684, 21253, 35013,
    25104, 24403, 21069, 35302, 21457, 20381, 25454, 12290, 10, 57, 46, 32, 20215, 26684, 38408, 20540, 21475,
    24452, 32422, 26463, 65306, 38500, 38750, 29992, 25143, 26465, 20214, 37324, 26126, 30830, 20889, 30340,
    26159, 8220, 26085, 20869, 26368, 39640, 47, 26368, 20302, 47, 25391, 24133, 47, 21306, 38388, 27874, 21160,
    8221, 65292, 21542, 21017, 8220, 30424, 20013, 28072, 36300, 24133, 36229, 36807, 32, 88, 37, 8221, 19968,
    24459, 25353, 26368, 26032, 21487, 24471, 20215, 26684, 30456, 23545, 26152, 25910, 30340, 28072, 36300,
    24133, 21028, 26029, 65307, 19981, 20801, 35768, 29992, 26085, 20869, 39640, 28857, 30456, 23545, 26152,
    25910, 12289, 26085, 20869, 20302, 28857, 30456, 23545, 26152, 25910, 65292, 25110, 39640, 20302, 28857,
    25391, 24133, 21435, 26367, 20195, 24403, 21069, 28072, 36300, 24133, 12290, 10, 49, 48, 46, 32, 33509,
    26368, 26032, 21487, 24471, 20215, 26684, 30456, 23545, 26152, 25910, 23578, 26410, 36798, 21040, 38408,
    20540, 65292, 20294, 26085, 20869, 39640, 28857, 12289, 26085, 20869, 20302, 28857, 25110, 30424, 20013,
    25391, 24133, 36798, 21040, 38408, 20540, 65292, 19988, 20219, 21153, 27809, 26377, 26126, 30830, 35201,
    27714, 36825, 20123, 21475, 24452, 65292, 26412, 36718, 24517, 39035, 36820, 22238, 32, 110, 111, 111, 112,
    65292, 19981, 20801, 35768, 35302, 21457, 12290, 10, 49, 49, 46, 32, 37325, 22797, 20107, 20214, 32422,
    26463, 65306, 33509, 26576, 26465, 20214, 65288, 22914, 26576, 21482, 32929, 31080, 30340, 26576, 27425,
    21457, 23556, 25110, 26576, 27425, 20107, 20214, 65289, 24050, 32463, 22312, 21069, 19968, 36718, 34987,
    21028, 23450, 20026, 32, 110, 111, 111, 112, 32, 25110, 32, 116, 114, 105, 103, 103, 101, 114, 101, 100,
    65292, 26412, 36718, 22914, 26524, 27809, 26377, 33719, 21462, 21040, 26032, 30340, 29420, 31435, 34892,
    24773, 26102, 38388, 25139, 25110, 26032, 30340, 29420, 31435, 20107, 20214, 31383, 21475, 65292, 23601,
    19981, 20801, 35768, 25913, 21464, 32467, 35770, 65292, 20063, 19981, 20801, 35768, 37325, 22797, 32, 116,
    114, 105, 103, 103, 101, 114, 101, 100, 12290, 10, 49, 50, 46, 32, 26469, 28304, 24402, 22240, 32422, 26463,
    65306, 24341, 29992, 32, 82, 101, 117, 116, 101, 114, 115, 12289, 87, 83, 74, 12289, 66, 108, 111, 111, 109,
    98, 101, 114, 103, 12289, 23448, 26041, 20844, 21578, 31561, 26469, 28304, 26102, 65292, 24517, 39035, 30830,
    35748, 26412, 36718, 24037, 20855, 32467, 26524, 26126, 30830, 20986, 29616, 35813, 26469, 28304, 19982,
    23545, 24212, 20107, 23454, 65307, 27809, 26377, 26126, 30830, 26469, 28304, 26102, 65292, 21482, 33021,
    20889, 8220, 26410, 26680, 39564, 47, 24066, 22330, 20256, 38395, 47, 38656, 32487, 32493, 30830, 35748,
    8221, 65292, 19981, 24471, 25226, 22320, 32536, 25919, 27835, 12289, 35848, 21028, 12289, 33322, 36816,
    38480, 21046, 31561, 21465, 36848, 20889, 25104, 24050, 34987, 26435, 23041, 23186, 20307, 20849, 21516,
    30830, 35748, 30340, 20107, 23454, 12290, 10, 49, 51, 46, 32, 20132, 26131, 21160, 20316, 36793, 30028,
    65306, 39044, 35686, 21482, 33021, 25253, 21578, 35302, 21457, 20107, 23454, 12289, 20215, 26684, 47, 25104,
    20132, 37327, 47, 26102, 38388, 21475, 24452, 21644, 26465, 20214, 21270, 39118, 38505, 31649, 29702, 26694,
    26550, 65292, 19981, 24471, 36755, 20986, 8220, 26080, 26465, 20214, 27490, 25439, 8221, 8220, 24517, 39035,
    21334, 20986, 8221, 8220, 31435, 21363, 28165, 20179, 8221, 8220, 39532, 19978, 20080, 20837, 8221, 31561,
    30452, 25509, 20132, 26131, 25351, 20196, 65307, 28041, 21450, 20080, 21334, 12289, 27490, 25439, 12289,
    21152, 20179, 12289, 20943, 20179, 26102, 24517, 39035, 26126, 30830, 36825, 26159, 20998, 26512, 21442,
    32771, 65292, 24182, 35201, 27714, 29992, 25143, 32467, 21512, 20179, 20301, 12289, 25104, 26412, 12289,
    27969, 21160, 24615, 21644, 39118, 38505, 25215, 21463, 33021, 21147, 22797, 26680, 12290, 10, 49, 52, 46,
    32, 24037, 20855, 39044, 31639, 32422, 26463, 65306, 24517, 39035, 20197, 26368, 23569, 24037, 20855, 35843,
    29992, 25910, 21475, 12290, 20248, 20808, 22797, 29992, 26412, 36718, 24050, 32463, 25343, 21040, 30340,
    20215, 26684, 12289, 26032, 38395, 12289, 32452, 21512, 21644, 25991, 20214, 20449, 24687, 65307, 33509,
    38656, 35201, 36880, 26631, 30340, 31351, 20030, 25110, 21453, 22797, 37325, 22797, 21516, 19968, 26597,
    35810, 25165, 33021, 30830, 35748, 65292, 26412, 36718, 21482, 26816, 26597, 26368, 21487, 33021, 35302,
    21457, 30340, 23569, 25968, 20505, 36873, 24182, 23613, 24555, 36820, 22238, 32, 110, 111, 111, 112, 32,
    25110, 32, 116, 114, 105, 103, 103, 101, 114, 101, 100, 65292, 31105, 27490, 20026, 20102, 23637, 31034,
    20998, 26512, 36807, 31243, 21453, 22797, 35843, 29992, 30456, 21516, 24037, 20855, 12290, 10]"

definition STABLE_CONTEXT_NOTE :: rstr where
  "STABLE_CONTEXT_NOTE = [10, 10, 31283, 23450, 26412, 22320, 23383, 27573, 32422, 26463, 65306, 26412, 20219, 21153, 37324, 30340,
    35266, 23519, 27744, 12289, 20987, 29699, 21306, 12289, 31574, 30053, 32426, 24459, 31561, 22266, 23450,
    37197, 32622, 23646, 20110, 29992, 25143, 26412, 22320, 29366, 24577, 65292, 19981, 23646, 20110, 32, 96,
    100, 97, 116, 97, 95, 102, 101, 116, 99, 104, 96, 32, 34892, 24773, 32467, 26524, 12290, 28041, 21450, 20987,
    29699, 21306, 26102, 65292, 20808, 20351, 29992, 20219, 21153, 27491, 25991, 12289, 24050, 24674, 22797,
    20250, 35805, 19978, 19979, 25991, 12289, 112, 111, 114, 116, 102, 111, 108, 105, 111, 47, 108, 111, 99, 97,
    108, 32, 115, 116, 97, 116, 101, 32, 25110, 26412, 22320, 25991, 20214, 20013, 30340, 26082, 26377, 21306,
    38388, 65307, 96, 100, 97, 116, 97, 95, 102, 101, 116, 99, 104, 96, 32, 21482, 26657, 39564, 26368, 26032,
    20215, 26684, 21644, 36130, 25253, 26085, 26399, 12290, 19981, 35201, 22240, 20026, 34892, 24773, 24037,
    20855, 27809, 26377, 36820, 22238, 20987, 29699, 21306, 23383, 27573, 65292, 23601, 25226, 24050, 32463,
    23384, 22312, 20110, 19978, 19979, 25991, 25110, 26412, 22320, 29366, 24577, 37324, 30340, 21306, 38388,
    32479, 19968, 38477, 32423, 20026, 8220, 24453, 30830, 35748, 8221, 12290, 21482, 26377, 26412, 36718, 20219,
    21153, 27491, 25991, 21644, 24050, 24674, 22797, 19978, 19979, 25991, 37117, 27809, 26377, 32473, 20986,
    26576, 20010, 26631, 30340, 30340, 21306, 38388, 26102, 65292, 25165, 21487, 26631, 27880, 35813, 26631,
    30340, 20987, 29699, 21306, 24453, 30830, 35748, 12290]"

definition build_scheduled_prompt :: "chrono \<Rightarrow> instant \<Rightarrow> scheduler_event \<Rightarrow> rstr" where
  "build_scheduled_prompt C t ev =
     (if se_heartbeat ev then
        [91, 24515, 36339, 26816, 27979, 20219, 21153, 93, 32, 20219, 21153, 21517, 31216, 65306] @ se_job_name ev
        @ [12290, 10, 20320, 27491, 22312, 25191, 34892, 19968, 20010, 27599, 32, 51, 48, 32, 20998, 38047, 36816,
    34892, 19968, 27425, 30340, 21518, 21488, 26465, 20214, 26816, 26597, 12290, 10, 26412, 36718, 26435, 23041,
    26816, 26597, 26102, 38388, 65288, 21271, 20140, 26102, 38388, 65289, 65306] @ heartbeat_check_time_text C t
        @ HEARTBEAT_RULES @ heartbeat_history_section (se_last_delivered_previews ev)
        @ [10, 20197, 19979, 26159, 38656, 35201, 26816, 26597, 30340, 29992, 25143, 26465, 20214, 65306, 10] @ se_task_prompt ev
      else
        [91, 23450, 26102, 20219, 21153, 35302, 21457, 93, 32, 20219, 21153, 21517, 31216, 65306] @ se_job_name ev
        @ [12290, 10, 26435, 23041, 35302, 21457, 37197, 32622, 65306, 114, 101, 112, 101, 97, 116, 61] @ se_schedule_repeat ev
        @ (case se_schedule_date ev of None \<Rightarrow> [] | Some date \<Rightarrow> lit '', date='' @ date)
        @ [65292, 21271, 20140, 26102, 38388, 32] @ fmt02 (se_schedule_hour ev)
        @ [58] @ fmt02 (se_schedule_minute ev)
        @ [12290, 22914, 26524, 19979, 38754, 30340, 29992, 25143, 20219, 21153, 27491, 25991, 37324, 20986, 29616,
    20102, 19981, 21516, 30340, 26085, 26399, 25110, 26102, 38388, 65292, 20197, 36825, 37324, 30340, 26435,
    23041, 35302, 21457, 37197, 32622, 20026, 20934, 65292, 19981, 35201, 22312, 22238, 22797, 20013, 22768,
    31216, 26412, 36718, 19981, 26159, 35774, 23450, 35302, 21457, 26102, 28857, 12290, 10, 35831, 25191, 34892,
    20197, 19979, 25351, 20196, 65306]
        @ [10, 10] @ se_task_prompt ev
        @ (if scheduled_prompt_needs_stable_local_context ev then STABLE_CONTEXT_NOTE else []))"

section \<open>Hit zones\<close>

definition RE_TICKER :: rstr where
  "RE_TICKER = [92, 98, 91, 65, 45, 90, 93, 123, 50, 44, 53, 125, 92, 98]"

definition RE_COMPACT_ZONE :: rstr where
  "RE_COMPACT_ZONE = [40, 63, 80, 60, 122, 111, 110, 101, 62, 40, 63, 58, 40, 63, 58, 20445, 23432, 124, 21512, 29702, 124, 28608,
    36827, 35266, 23519, 124, 28608, 36827, 124, 35266, 23519, 41, 92, 115, 42, 41, 63, 92, 36, 91, 92, 100, 44,
    46, 93, 43, 92, 115, 42, 91, 45, 8211, 8212, 126, 33267, 93, 92, 115, 42, 92, 36, 63, 91, 92, 100, 44, 46,
    93, 43, 40, 63, 58, 92, 115, 42, 47, 92, 115, 42, 40, 63, 58, 40, 63, 58, 20445, 23432, 124, 21512, 29702,
    124, 28608, 36827, 35266, 23519, 124, 28608, 36827, 124, 35266, 23519, 41, 92, 115, 42, 41, 63, 92, 36, 91,
    92, 100, 44, 46, 93, 43, 92, 115, 42, 91, 45, 8211, 8212, 126, 33267, 93, 92, 115, 42, 92, 36, 63, 91, 92,
    100, 44, 46, 93, 43, 41, 42, 41]"

definition RE_ZONE_TABLE :: rstr where
  "RE_ZONE_TABLE = [40, 63, 109, 41, 94, 92, 124, 92, 115, 42, 40, 63, 80, 60, 116, 105, 99, 107, 101, 114, 62, 91, 65, 45, 90,
    93, 123, 50, 44, 53, 125, 41, 92, 115, 42, 92, 124, 92, 115, 42, 91, 94, 124, 92, 110, 93, 42, 92, 124, 92,
    115, 42, 91, 94, 124, 92, 110, 93, 42, 92, 124, 92, 115, 42, 40, 63, 80, 60, 122, 111, 110, 101, 62, 91, 94,
    124, 92, 110, 93, 43, 63, 41, 92, 115, 42, 92, 124]"

definition RE_ZONE_INLINE :: rstr where
  "RE_ZONE_INLINE = [40, 63, 109, 41, 92, 98, 40, 63, 80, 60, 116, 105, 99, 107, 101, 114, 62, 91, 65, 45, 90, 93, 123, 50, 44,
    53, 125, 41, 92, 98, 91, 94, 92, 110, 93, 123, 48, 44, 56, 48, 125, 63, 20987, 29699, 21306, 91, 58, 65306,
    93, 63, 92, 115, 42, 40, 63, 80, 60, 122, 111, 110, 101, 62, 91, 94, 92, 110, 93, 43, 41]"

definition extract_watchlist_tickers :: "regex_engine \<Rightarrow> rstr \<Rightarrow> rstr list" where
  "extract_watchlist_tickers R task_prompt =
     rev (fold (\<lambda>c ts. if cp_all c \<in> set ts then ts else cp_all c # ts) (found R RE_TICKER task_prompt) [])"

definition normalize_recovered_hit_zone :: "rstr \<Rightarrow> rstr option" where
  "normalize_recovered_hit_zone zone =
     (let zone = trim (trim_start_matches [20987, 29699, 21306, 58] (trim_start_matches [20987, 29699, 21306, 65306]
            (trim_matches (\<lambda>c. c \<in> {124, 44, 65292, 12290, 59, 65307}) (trim zone)))) in
      if zone = [] \<or> contains_str zone [24453, 30830, 35748] \<or> 36 \<notin> set zone then None
      else
        let looks_like_zone = 45 \<in> set zone \<or> 8211 \<in> set zone \<or> 47 \<in> set zone \<or> contains_str zone [20445, 23432] \<or>
              contains_str zone [21512, 29702] \<or> contains_str zone [28608, 36827] in
        if \<not> looks_like_zone \<or> length zone > 120 then None else Some zone)"

text \<open>The zone a match names, if it is one.\<close>

definition zone_of :: "captures \<Rightarrow> rstr option" where
  "zone_of c = Option.bind (cp_name c (lit ''zone'')) normalize_recovered_hit_zone"

definition first_zone :: "regex_engine \<Rightarrow> rstr \<Rightarrow> rstr \<Rightarrow> rstr option" where
  "first_zone R p source = (case found R p source of [] \<Rightarrow> None | c # _ \<Rightarrow> zone_of c)"

definition extract_compact_line_ticker_hit_zone :: "regex_engine \<Rightarrow> rstr \<Rightarrow> rstr option \<Rightarrow> (rstr \<times> rstr) option" where
  "extract_compact_line_ticker_hit_zone R line expected_ticker =
     (let ticker = (case expected_ticker of
            Some ticker \<Rightarrow> if is_match R RE_TICKER ticker \<and> contains_str line ticker then Some ticker else None
          | None \<Rightarrow> (case found R RE_TICKER line of [] \<Rightarrow> None | c # _ \<Rightarrow> Some (cp_all c)))
      in Option.bind ticker (\<lambda>ticker.
           Option.bind (split_once ticker line) (\<lambda>(_, tail).
             map_option (\<lambda>zone. (ticker, zone)) (first_zone R RE_COMPACT_ZONE tail))))"

definition extract_ticker_hit_zone_from_source :: "regex_engine \<Rightarrow> (rstr \<Rightarrow> rstr) \<Rightarrow> rstr \<Rightarrow> rstr \<Rightarrow> rstr option" where
  "extract_ticker_hit_zone_from_source R escape source ticker =
     or_else (first_zone R ([40, 63, 109, 41, 94, 92, 124, 92, 115, 42] @ escape ticker
         @ [92, 115, 42, 92, 124, 92, 115, 42, 91, 94, 124, 92, 110, 93, 42, 92, 124, 92, 115, 42, 91, 94, 124, 92, 110,
    93, 42, 92, 124, 92, 115, 42, 40, 63, 80, 60, 122, 111, 110, 101, 62, 91, 94, 124, 92, 110, 93, 43, 63, 41,
    92, 115, 42, 92, 124]) source)
       (or_else (first_zone R ([40, 63, 109, 41, 92, 98] @ escape ticker
           @ [92, 98, 91, 94, 92, 110, 93, 123, 48, 44, 56, 48, 125, 63, 20987, 29699, 21306, 91, 58, 65306, 93, 63, 92,
    115, 42, 40, 63, 80, 60, 122, 111, 110, 101, 62, 91, 94, 92, 110, 93, 43, 41]) source)
         (map_option snd (find_map (\<lambda>line. extract_compact_line_ticker_hit_zone R line (Some ticker)) (str_lines source))))"

definition push_recovered_hit_zone :: "rstr \<Rightarrow> rstr \<Rightarrow> (rstr \<times> rstr) list \<Rightarrow> (rstr \<times> rstr) list" where
  "push_recovered_hit_zone ticker zone recovered =
     (if ticker \<in> fst ` set recovered then recovered else recovered @ [(ticker, zone)])"

definition push_named_zone :: "captures \<Rightarrow> (rstr \<times> rstr) list \<Rightarrow> (rstr \<times> rstr) list" where
  "push_named_zone c recovered =
     (case (cp_name c (lit ''ticker''), zone_of c) of
        (Some ticker, Some zone) \<Rightarrow> push_recovered_hit_zone ticker zone recovered
      | _ \<Rightarrow> recovered)"

definition push_line_zones :: "regex_engine \<Rightarrow> rstr \<Rightarrow> (rstr \<times> rstr) list \<Rightarrow> (rstr \<times> rstr) list" where
  "push_line_zones R line =
     fold (\<lambda>c recovered. case extract_compact_line_ticker_hit_zone R line (Some (cp_all c)) of
         None \<Rightarrow> recovered
       | Some (ticker, zone) \<Rightarrow> push_recovered_hit_zone ticker zone recovered) (found R RE_TICKER line)"

definition extract_all_ticker_hit_zones_from_source :: "regex_engine \<Rightarrow> rstr \<Rightarrow> (rstr \<times> rstr) list" where
  "extract_all_ticker_hit_zones_from_source R source =
     fold (push_line_zones R) (str_lines source)
       (fold push_named_zone (found R RE_ZONE_INLINE source)
         (fold push_named_zone (found R RE_ZONE_TABLE source) []))"

text \<open>What is searched for zones: the last summary in the conversation, and the one stored beside it.\<close>

definition zone_sources :: "json_codec \<Rightarrow> chat_session \<Rightarrow> rstr list" where
  "zone_sources J s =
     (case latest_compact_summary (cs_messages s) of
        None \<Rightarrow> []
      | Some m \<Rightarrow> let t = session_message_text J m in if trim t = [] then [] else [t])
     @ (case cs_summary s of None \<Rightarrow> [] | Some y \<Rightarrow> if trim (sy_content y) = [] then [] else [sy_content y])"

definition recovered_zones :: "regex_engine \<Rightarrow> (rstr \<Rightarrow> rstr) \<Rightarrow> rstr list \<Rightarrow> rstr list \<Rightarrow> (rstr \<times> rstr) list" where
  "recovered_zones R escape sources tickers =
     (if tickers = [] then
        fold (\<lambda>source. fold (\<lambda>(ticker, zone). push_recovered_hit_zone ticker zone)
            (extract_all_ticker_hit_zones_from_source R source)) sources []
      else
        fold (\<lambda>ticker recovered.
            case find_map (\<lambda>source. extract_ticker_hit_zone_from_source R escape source ticker) sources of
              None \<Rightarrow> recovered
            | Some zone \<Rightarrow> push_recovered_hit_zone ticker zone recovered) tickers [])"

definition recover_watchlist_hit_zone_context ::
    "json_codec \<Rightarrow> regex_engine \<Rightarrow> (rstr \<Rightarrow> rstr) \<Rightarrow> scheduler_event \<Rightarrow> session_storage \<Rightarrow> session_storage \<times> rstr list" where
  "recover_watchlist_hit_zone_context J R escape ev st =
     (if \<not> scheduled_prompt_needs_stable_local_context ev then (st, [])
      else case load_session (actor_session_id (se_actor ev)) st of
             (st, Inr (Some s)) \<Rightarrow>
               (st, map (\<lambda>(ticker, zone). lit ''- '' @ ticker @ lit '': '' @ zone)
                  (recovered_zones R escape (zone_sources J s) (extract_watchlist_tickers R (se_task_prompt ev))))
           | (st, _) \<Rightarrow> (st, []))"

definition build_scheduled_prompt_with_recovered_local_context ::
    "json_codec \<Rightarrow> regex_engine \<Rightarrow> (rstr \<Rightarrow> rstr) \<Rightarrow> chrono \<Rightarrow> instant \<Rightarrow> scheduler_event \<Rightarrow> session_storage \<Rightarrow> session_storage \<times> rstr" where
  "build_scheduled_prompt_with_recovered_local_context J R escape C t ev st =
     (let prompt = build_scheduled_prompt C t ev;
          (st, recovered) = recover_watchlist_hit_zone_context J R escape ev st
      in (st, if recovered = [] then prompt
              else prompt @ [10, 10, 12304, 24050, 24674, 22797, 30340, 26412, 22320, 20987, 29699, 21306, 21442, 32771, 12305, 10, 20197,
    19979, 21306, 38388, 26469, 33258, 24403, 21069, 20250, 35805, 24050, 20445, 23384, 30340, 32, 99, 111, 109,
    112, 97, 99, 116, 32, 115, 117, 109, 109, 97, 114, 121, 32, 47, 32, 26412, 22320, 35266, 23519, 27744, 19978,
    19979, 25991, 65307, 38500, 38750, 26412, 36718, 20219, 21153, 27491, 25991, 26174, 24335, 25913, 21160,
    65292, 21542, 21017, 27839, 29992, 36825, 20123, 21306, 38388, 65292, 19981, 35201, 22240, 20026, 32, 96,
    100, 97, 116, 97, 95, 102, 101, 116, 99, 104, 96, 32, 26410, 36820, 22238, 20987, 29699, 21306, 23383, 27573,
    32780, 21024, 38500, 25110, 25913, 20889, 20026, 8220, 24453, 30830, 35748, 8221, 12290, 10]
                @ intercalate [10] recovered))"

section \<open>Lemmas\<close>

lemma push_distinct: "distinct (map fst recovered) \<Longrightarrow> distinct (map fst (push_recovered_hit_zone ticker zone recovered))"
  by (auto simp: push_recovered_hit_zone_def)

lemma fold_keeps: "P x \<Longrightarrow> (\<And>a y. P y \<Longrightarrow> P (f a y)) \<Longrightarrow> P (fold f xs x)"
  by (induction xs arbitrary: x) auto

lemma zones_distinct: "distinct (map fst (recovered_zones R escape sources tickers))"
  unfolding recovered_zones_def
  by (auto intro!: fold_keeps [where P = "\<lambda>xs. distinct (map fst xs)"] push_distinct split: option.splits prod.splits)

end
