(* ===== verification/Scheduled_Tasks.thy ===== *)
theory Scheduled_Tasks
  imports Scheduled_Prompt Agent_Run Event
begin

text \<open>
  \<^verbatim>\<open>hone-channels/src/scheduler.rs\<close>, the execution of a scheduled task: the run itself (an agent run,
  or for a heartbeat a single call of the auxiliary model), and what of the answer is delivered, held back or
  reported as a failure.
\<close>

section \<open>Executions\<close>

record task_execution =
  te_should_deliver :: bool
  te_content :: rstr
  te_error :: "rstr option"
  te_metadata :: json
  te_session_id :: "rstr option"

text \<open>The keys of the metadata are in the order of the source.\<close>

definition withheld :: "rstr option \<Rightarrow> json \<Rightarrow> task_execution" where
  "withheld err md = \<lparr>te_should_deliver = False, te_content = [], te_error = err, te_metadata = md, te_session_id = None\<rparr>"

definition parse_kind_text :: "heartbeat_parse_kind \<Rightarrow> rstr" where
  "parse_kind_text kind =
     (case kind of HeartbeatEmpty \<Rightarrow> lit ''Empty'' | SentinelNoop \<Rightarrow> lit ''SentinelNoop'' | InternalMarker \<Rightarrow> lit ''InternalMarker''
      | JsonNoop \<Rightarrow> lit ''JsonNoop'' | JsonEmptyStatus \<Rightarrow> lit ''JsonEmptyStatus'' | JsonTriggered \<Rightarrow> lit ''JsonTriggered''
      | JsonUnknownStatus \<Rightarrow> lit ''JsonUnknownStatus'' | JsonMalformed \<Rightarrow> lit ''JsonMalformed''
      | PlainTextSuppressed \<Rightarrow> lit ''PlainTextSuppressed'' | PlainTextNoop \<Rightarrow> lit ''PlainTextNoop'')"

section \<open>What is fit to deliver\<close>

definition suspicious_keys :: "rstr list" where
  "suspicious_keys = [lit ''tool'', lit ''tool_call_id'', lit ''arguments'', lit ''parameters'', lit ''result'', lit ''name'',
      lit ''status'']"

definition user_visible_keys :: "rstr list" where
  "user_visible_keys = [lit ''message'', lit ''content'', lit ''text'']"

definition is_scheduler_protocol_residue :: "json_codec \<Rightarrow> rstr \<Rightarrow> bool" where
  "is_scheduler_protocol_residue J line \<longleftrightarrow>
     (let trimmed = trim line in
      if trimmed = [] \<or> \<not> (starts_with trimmed [123] \<and> ends_with trimmed [125]) then False
      else if trimmed = lit ''{}'' then True
      else case jc_parse J trimmed of
        Some (JObj kvs) \<Rightarrow> list_ex (\<lambda>(k, _). k \<in> set suspicious_keys) kvs \<and> \<not> list_ex (\<lambda>(k, _). k \<in> set user_visible_keys) kvs
      | _ \<Rightarrow> False)"

definition sanitize_scheduler_delivery_text :: "json_codec \<Rightarrow> regex_engine \<Rightarrow> rstr \<Rightarrow> rstr" where
  "sanitize_scheduler_delivery_text J R text =
     trim (intercalate [10] (filter (\<lambda>line. \<not> is_scheduler_protocol_residue J line)
       (str_lines (so_content (sanitize_user_visible_output R text)))))"

definition is_empty_success_fallback :: "rstr \<Rightarrow> bool" where
  "is_empty_success_fallback text \<longleftrightarrow> trim text = EMPTY_SUCCESS_FALLBACK_MESSAGE"

definition skipped_stale_words :: "rstr list" where
  "skipped_stale_words = [[19981, 22797, 29992, 26087, 20215, 26684], [19981, 20351, 29992, 26087, 20215, 26684],
      [19981, 27839, 29992, 26087, 20215, 26684], [24050, 36339, 36807, 26087, 20215, 26684],
      [36339, 36807, 26087, 20215, 26684, 29256, 26412]]"

definition market_failure_words :: "rstr list" where
  "market_failure_words = [[24213, 23618, 34892, 24773, 25968, 25454, 38142, 36335, 26242, 26102, 38459, 26029],
      [34892, 24773, 25968, 25454, 38142, 36335, 26242, 26102, 38459, 26029],
      [34892, 24773, 38142, 36335, 26242, 26102, 38459, 26029],
      [25968, 25454, 38142, 36335, 26242, 26102, 38459, 26029],
      [25253, 20215, 25509, 21475, 35302, 21450, 38480, 39069],
      [34892, 24773, 25968, 25454, 33719, 21462, 22833, 36133],
      [23454, 26102, 34892, 24773, 33719, 21462, 22833, 36133],
      [25289, 21462, 25345, 20179, 23454, 26102, 34892, 24773, 26102],
      [100, 97, 116, 97, 95, 102, 101, 116, 99, 104, 22833, 36133], lit ''data_fetchfailed'']"

definition stale_price_words :: "rstr list" where
  "stale_price_words = [[20351, 29992, 26412, 20250, 35805, 27492, 21069, 24050, 26680, 39564],
      [37319, 29992, 21516, 19968, 20250, 35805], [37319, 29992, 27492, 21069], [27839, 29992, 27492, 21069],
      [20808, 21069, 24050, 26680, 39564], [27492, 21069, 24050, 26680, 39564], [26087, 20215, 26684], [26087, 20215],
      [19978, 19968, 20132, 26131, 26085, 25910, 30424], [25910, 30424, 21475, 24452]]"

definition is_stale_market_data_success_fallback :: "rstr \<Rightarrow> bool" where
  "is_stale_market_data_success_fallback text \<longleftrightarrow>
     (let normalized = compact_lowercase_text text in
      normalized \<noteq> [] \<and> \<not> contains_any normalized skipped_stale_words \<and>
      contains_any normalized (map to_ascii_lowercase market_failure_words) \<and>
      contains_any normalized (map to_ascii_lowercase stale_price_words))"

definition skip_patterns :: "rstr list" where
  "skip_patterns = [[25353, 35268, 21017, 24212, 36339, 36807, 27491, 24335, 25512, 36865],
      [25353, 35268, 21017, 21487, 36339, 36807, 27491, 24335, 25512, 36865],
      [25353, 35268, 21017, 21487, 36339, 36807],
      [26080, 26032, 22686, 20652, 21270, 65292, 36339, 36807, 25512, 36865],
      [26080, 26032, 22686, 20652, 21270, 44, 36339, 36807, 25512, 36865],
      [19981, 35302, 21457, 37325, 22823, 20652, 21270, 25110, 39118, 38505, 35777, 20266, 25512, 36865],
      [19981, 35302, 21457, 26032, 22686, 37325, 22823, 20652, 21270, 25110, 39118, 38505, 35777, 20266, 25512, 36865],
      [19981, 35302, 21457, 26032, 22686, 37325, 22823, 25512, 36865],
      [21487, 36339, 36807, 27491, 24335, 25512, 36865], [25353, 35268, 21017, 36339, 36807, 25512, 36865],
      [36339, 36807, 26412, 27425, 25512, 36865], [26412, 36718, 36339, 36807, 25512, 36865],
      [26412, 27425, 19981, 25512, 36865], [26412, 36718, 19981, 25512, 36865],
      [19981, 35302, 21457, 27491, 24335, 25512, 36865],
      [19981, 35302, 21457, 26412, 27425, 27491, 24335, 25512, 36865], [26080, 38656, 27491, 24335, 25512, 36865],
      [26080, 38656, 25512, 36865]]"

definition has_skip_delivery_signal :: "rstr \<Rightarrow> bool" where
  "has_skip_delivery_signal text \<longleftrightarrow>
     contains_any text skip_patterns \<or> contains_any (filter (\<lambda>c. \<not> is_whitespace c) text) skip_patterns"

section \<open>What a heartbeat delivers\<close>

definition heartbeat_parse_error_message :: "heartbeat_parse_kind \<Rightarrow> rstr option" where
  "heartbeat_parse_error_message kind =
     (case kind of
        HeartbeatEmpty \<Rightarrow> Some [104, 101, 97, 114, 116, 98, 101, 97, 116, 32, 36755, 20986, 20026, 31354, 65292, 20219, 21153, 24050, 26631,
    35760, 22833, 36133]
      | JsonUnknownStatus \<Rightarrow> Some [104, 101, 97, 114, 116, 98, 101, 97, 116, 32, 36755, 20986, 21253, 21547, 26410, 30693, 29366, 24577, 65292,
    20219, 21153, 24050, 26631, 35760, 22833, 36133]
      | JsonMalformed \<Rightarrow> Some [104, 101, 97, 114, 116, 98, 101, 97, 116, 32, 36755, 20986, 19981, 26159, 21512, 27861, 32, 74, 83, 79, 78,
    65292, 20219, 21153, 24050, 26631, 35760, 22833, 36133]
      | PlainTextSuppressed \<Rightarrow> Some [104, 101, 97, 114, 116, 98, 101, 97, 116, 32, 36755, 20986, 19981, 26159, 32467, 26500, 21270, 32, 74, 83,
    79, 78, 65292, 20219, 21153, 24050, 26631, 35760, 22833, 36133]
      | _ \<Rightarrow> None)"

text \<open>The five entries that every heartbeat's metadata starts with.\<close>

definition heartbeat_metadata :: "rstr \<Rightarrow> heartbeat_parse_kind \<Rightarrow> rstr \<Rightarrow> (rstr \<times> json) list" where
  "heartbeat_metadata model kind content =
     [(lit ''heartbeat_model'', JStr model), (lit ''parse_kind'', JStr (parse_kind_text kind)),
      (lit ''raw_chars'', JInt (int (length content))), (lit ''starts_with_json'', JBool (starts_with (trim_start content) [123])),
      (lit ''raw_preview'', JStr (truncate_for_log (trim content) 280))]"

definition option_json :: "rstr option \<Rightarrow> json" where
  "option_json v = (case v of None \<Rightarrow> JNull | Some s \<Rightarrow> JStr s)"

definition local_time :: "instant \<Rightarrow> nat \<times> nat" where
  "local_time t = (local_hour beijing_offset t, local_minute beijing_offset t)"

definition heartbeat_execution_from_content_internal ::
    "json_codec \<Rightarrow> guard_env \<Rightarrow> rstr \<Rightarrow> rstr \<Rightarrow> date \<Rightarrow> instant option \<Rightarrow> task_execution" where
  "heartbeat_execution_from_content_internal J G content model reference_date reference_now =
     (let (outcome, kind) = inspect_heartbeat_result J (ge_regex G) content;
          md = heartbeat_metadata model kind content
      in case heartbeat_parse_error_message kind of
           Some err \<Rightarrow> withheld (Some err) (JObj md)
         | None \<Rightarrow>
             (case outcome of
                HeartbeatNoop \<Rightarrow> withheld None (JObj md)
              | Deliver message \<Rightarrow>
                  (let sanitized = sanitize_scheduler_delivery_text J (ge_regex G) message in
                   if trim sanitized = [] then
                     withheld None (JObj (md @ [(lit ''deliver_preview'', JStr (truncate_for_log (trim message) 200)),
                       (lit ''sanitized_empty'', JBool True)]))
                   else
                     (let (final, original) = (case reference_now of None \<Rightarrow> (sanitized, None)
                            | Some t \<Rightarrow> normalize_heartbeat_beijing_trigger_time (ge_regex G) sanitized (local_time t));
                          md = md @ [(lit ''deliver_preview'', JStr (truncate_for_log (trim final) 200))]
                      in if heartbeat_near_threshold_without_crossing G final then
                           withheld None (JObj (md @ [(lit ''near_threshold_suppressed'', JBool True)]))
                         else case heartbeat_stale_price_timestamp G final reference_date of
                           Some d \<Rightarrow>
                             withheld None (JObj (md @ [(lit ''failure_kind'', JStr (lit ''stale_price_timestamp'')),
                               (lit ''stale_price_timestamp'', JStr (ch_fmt_date (ge_chrono G) d)),
                               (lit ''stale_price_timestamp_suppressed'', JBool True)]))
                         | None \<Rightarrow>
                             \<lparr>te_should_deliver = True, te_content = final, te_error = None,
                              te_metadata = JObj (md @ [(lit ''beijing_trigger_time_normalized'', JBool (original \<noteq> None)),
                                (lit ''original_beijing_trigger_time'', option_json original)]),
                              te_session_id = None\<rparr>))))"

definition heartbeat_execution_from_content :: "json_codec \<Rightarrow> guard_env \<Rightarrow> rstr \<Rightarrow> rstr \<Rightarrow> instant \<Rightarrow> task_execution" where
  "heartbeat_execution_from_content J G content model t =
     heartbeat_execution_from_content_internal J G content model (local_date beijing_offset t) (Some t)"

definition quota_error_words :: "rstr list" where
  "quota_error_words = [lit ''upstream http 402'', lit ''upstream http 429'', lit ''http 402'', lit ''http 429'', lit ''code: 402'',
      lit ''code: 429'', lit ''requires more credits'', lit ''insufficient credit'', lit ''insufficient balance'',
      lit ''quota exceeded'', lit ''rate limit exceeded'', lit ''too many requests'', lit ''resource exhausted'']"

definition http_error_words :: "rstr list" where
  "http_error_words = [lit ''upstream http '', lit ''http 4'', lit ''http 5'', lit ''status: 4'', lit ''status: 5'']"

definition heartbeat_runner_failure_kind :: "rstr \<Rightarrow> rstr" where
  "heartbeat_runner_failure_kind err =
     (if is_context_overflow_error err then lit ''context_window_overflow''
      else let lower = to_ascii_lowercase err in
        if contains_any lower quota_error_words then lit ''provider_quota_exhausted''
        else if contains_any lower http_error_words then lit ''provider_http_error''
        else lit ''runner_error'')"

definition heartbeat_execution_from_runner_error :: "rstr \<Rightarrow> rstr \<Rightarrow> task_execution" where
  "heartbeat_execution_from_runner_error err model =
     withheld (Some err)
       (JObj ([(lit ''heartbeat_model'', JStr model), (lit ''failure_kind'', JStr (heartbeat_runner_failure_kind err))]
         @ (if is_context_overflow_error err then [(lit ''parse_kind'', JStr (lit ''ContextOverflowError''))] else [])))"

definition set_key :: "rstr \<Rightarrow> json \<Rightarrow> json \<Rightarrow> json" where
  "set_key k v md = (case md of JObj kvs \<Rightarrow> JObj (AList.update k v kvs) | other \<Rightarrow> other)"

definition update_heartbeat_delivery_preview_metadata :: "json \<Rightarrow> rstr \<Rightarrow> json" where
  "update_heartbeat_delivery_preview_metadata md content =
     set_key (lit ''deliver_preview'') (JStr (truncate_for_log (trim content) 200)) md"

text \<open>A guard that rewrites the content leaves its mark.\<close>

definition guarded_execution :: "string \<Rightarrow> rstr option \<Rightarrow> task_execution \<Rightarrow> task_execution" where
  "guarded_execution mark guarded x =
     (case guarded of
        None \<Rightarrow> x
      | Some content \<Rightarrow>
          x\<lparr>te_content := content,
            te_metadata := set_key (lit ''guarded_preview'') (JStr (truncate_for_log (trim content) 200))
              (set_key (lit mark) (JBool True) (update_heartbeat_delivery_preview_metadata (te_metadata x) content))\<rparr>)"

definition finish_heartbeat :: "json_codec \<Rightarrow> guard_env \<Rightarrow> scheduler_event \<Rightarrow> rstr \<Rightarrow> rstr \<Rightarrow> instant \<Rightarrow> task_execution" where
  "finish_heartbeat J G ev model content t =
     (let kind = snd (inspect_heartbeat_result J (ge_regex G) content);
          x = heartbeat_execution_from_content J G content model t;
          x = (if te_should_deliver x
               then guarded_execution ''direct_trade_instruction_guarded'' (guard_direct_trade_instruction_for_event (te_content x) ev) x else x);
          x = (if te_should_deliver x
               then guarded_execution ''commodity_causality_guarded'' (guard_commodity_causality_for_event G (te_content x) ev) x else x)
      in case (if te_should_deliver x
               then heartbeat_duplicate_preview_match (ge_regex G) (te_content x) (se_last_delivered_previews ev) else None) of
           None \<Rightarrow> x
         | Some matched \<Rightarrow>
             x\<lparr>te_should_deliver := False, te_content := [], te_error := None,
               te_metadata := JObj [(lit ''heartbeat_model'', JStr model), (lit ''parse_kind'', JStr (parse_kind_text kind)),
                 (lit ''duplicate_suppressed'', JBool True), (lit ''matched_preview'', JStr matched),
                 (lit ''suppressed_preview'', JStr (truncate_for_log (trim (te_content x)) 200))]\<rparr>)"

section \<open>Failures\<close>

definition SCHEDULER_INTERNAL_FAILURE_TRANSCRIPT_MESSAGE :: rstr where
  "SCHEDULER_INTERNAL_FAILURE_TRANSCRIPT_MESSAGE = [26412, 36718, 23450, 26102, 20219, 21153, 26410, 33021, 23436, 25104, 65292, 31995, 32479, 24050, 35760,
    24405, 22833, 36133, 24182, 23558, 22312, 19979, 19968, 27425, 35302, 21457, 26102, 37325, 35797, 12290]"

definition SCHEDULER_INTERNAL_FAILURE_LEDGER_MESSAGE :: rstr where
  "SCHEDULER_INTERNAL_FAILURE_LEDGER_MESSAGE = [23450, 26102, 20219, 21153, 25191, 34892, 29615, 22659, 26242, 26102, 19981, 21487, 29992, 65292, 31995,
    32479, 24050, 35760, 24405, 22833, 36133, 24182, 23558, 22312, 19979, 19968, 27425, 35302, 21457, 26102,
    37325, 35797, 12290]"

definition STALE_MARKET_DATA_FAILURE_MESSAGE :: rstr where
  "STALE_MARKET_DATA_FAILURE_MESSAGE = [26412, 36718, 23450, 26102, 20219, 21153, 26410, 33021, 23436, 25104, 65306, 20851, 38190, 34892, 24773,
    25968, 25454, 33719, 21462, 22833, 36133, 65292, 31995, 32479, 24050, 36339, 36807, 26087, 20215, 26684,
    29256, 26412, 65292, 24182, 23558, 22312, 19979, 19968, 27425, 35302, 21457, 26102, 37325, 35797, 12290]"

definition transport_words :: "rstr list" where
  "transport_words = [lit ''stream disconnected before completion'', lit ''stream closed before response'',
      lit ''acp stream disconnected'', lit ''transport disconnected'']"

definition scheduler_suppressed_failure_kind :: "rstr option \<Rightarrow> rstr" where
  "scheduler_suppressed_failure_kind raw_error =
     (case raw_error of
        None \<Rightarrow> lit ''internal_error_suppressed''
      | Some err \<Rightarrow>
          (let lower = to_ascii_lowercase err in
           if contains_any lower transport_words then lit ''acp_transport_disconnect''
           else if contains_str lower (lit ''timeout'') \<or> contains_str lower (lit ''timed out'') then lit ''scheduler_runner_timeout''
           else lit ''internal_error_suppressed''))"

definition scheduled_task_failure_kind :: "task_execution \<Rightarrow> rstr option" where
  "scheduled_task_failure_kind x = Option.bind (json_get (te_metadata x) (lit ''failure_kind'')) json_as_str"

definition rollback_skipped_scheduler_assistant_turn :: "run_env \<Rightarrow> rstr \<Rightarrow> rstr \<Rightarrow> run_world \<Rightarrow> run_world" where
  "rollback_skipped_scheduler_assistant_turn env sid content w =
     (if sid = [] \<or> trim content = [] then w
      else fst (storing env (\<lambda>t. remove_last_message_if_matches (codec env) t sid (lit ''assistant'') content) w))"

definition persist_suppressed_scheduler_failure_turn :: "run_env \<Rightarrow> rstr \<Rightarrow> rstr \<Rightarrow> run_world \<Rightarrow> run_world" where
  "persist_suppressed_scheduler_failure_turn env sid kind w =
     (if sid = [] then w
      else case get_messages sid (Some 1) (rw_store w) of
        (st, Inl e) \<Rightarrow> w\<lparr>rw_store := st\<rparr>
      | (st, Inr ms) \<Rightarrow>
          (if ms \<noteq> [] \<and> sm_role (last ms) = lit ''assistant'' \<and>
              session_message_text (codec env) (last ms) = SCHEDULER_INTERNAL_FAILURE_TRANSCRIPT_MESSAGE
           then w\<lparr>rw_store := st\<rparr>
           else fst (storing env (\<lambda>t. add_message (codec env) t sid (lit ''assistant'') SCHEDULER_INTERNAL_FAILURE_TRANSCRIPT_MESSAGE
                  (Some [lit ''scheduler_failure'' \<mapsto> JBool True, lit ''failure_kind'' \<mapsto> JStr kind])) (w\<lparr>rw_store := st\<rparr>))))"

section \<open>Running a task\<close>

text \<open>Beside the environment of the agent runs: the calendar and numbers of the guards, the escaping of a word in a
  regular expression, the name of the auxiliary model, the preferences of the users (none when the directory cannot be
  opened), and the time of the execution.\<close>

record task_env =
  tv_run :: run_env
  tv_guard :: guard_env
  tv_escape :: "rstr \<Rightarrow> rstr"
  tv_auxiliary_model :: rstr
  tv_prefs :: "(actor \<Rightarrow> notification_prefs) option"
  tv_now :: instant

definition load_actor_quiet_hours :: "task_env \<Rightarrow> actor \<Rightarrow> (quiet_hours \<times> rstr option) option" where
  "load_actor_quiet_hours E a =
     Option.bind (tv_prefs E) (\<lambda>prefs. map_option (\<lambda>qh. (qh, np_timezone (prefs a))) (np_quiet_hours (prefs a)))"

definition task_prompt :: "task_env \<Rightarrow> scheduler_event \<Rightarrow> run_world \<Rightarrow> run_world \<times> rstr" where
  "task_prompt E ev w =
     (let (st, prompt) = build_scheduled_prompt_with_recovered_local_context (codec (tv_run E)) (regexes (tv_run E)) (tv_escape E)
        (ge_chrono (tv_guard E)) (tv_now E) ev (rw_store w)
      in (w\<lparr>rw_store := st\<rparr>, prompt))"

text \<open>The result has the session the run was filed under. There is none for an actor without any valid session.\<close>

definition run_scheduled_task ::
    "task_env \<Rightarrow> scheduler_event \<Rightarrow> run_options \<Rightarrow> run_world \<Rightarrow> (run_world \<times> agent_response \<times> rstr) option" where
  "run_scheduled_task E ev opts w =
     (let (w, prompt) = task_prompt E ev w in
      map_option (\<lambda>ag. let (w, r) = run (tv_run E) ag prompt (opts\<lparr>ro_quota_mode := ScheduledTask\<rparr>) w in (w, r, ag_session_id ag))
        (agent_session_new (ce_group (re_compaction (tv_run E))) (se_actor ev) (se_channel_target ev)))"

definition HEARTBEAT_MAX_ITERATIONS :: nat where "HEARTBEAT_MAX_ITERATIONS = 18"
definition HEARTBEAT_MAX_TOKENS :: nat where "HEARTBEAT_MAX_TOKENS = 4096"

definition heartbeat_runner_selection :: runner_selection where
  "heartbeat_runner_selection = AuxiliaryFunctionCalling HEARTBEAT_MAX_ITERATIONS (Some HEARTBEAT_MAX_TOKENS)"

definition HEARTBEAT_FAILED :: rstr where
  "HEARTBEAT_FAILED = [24515, 36339, 26816, 27979, 25191, 34892, 22833, 36133]"

text \<open>A heartbeat has a session of its own, which is never stored; what its runner emits goes nowhere.\<close>

definition run_heartbeat_task :: "task_env \<Rightarrow> scheduler_event \<Rightarrow> run_world \<Rightarrow> run_world \<times> (rstr + rstr)" where
  "run_heartbeat_task E ev w =
     (let sid = lit ''heartbeat_probe::'' @ se_job_id ev;
          (w, prompt) = task_prompt E ev w;
          (system_prompt, runtime_input) = re_prompt (tv_run E) (rw_store w) sid prompt
      in case prepare (re_execution (tv_run E)) TransientTask heartbeat_runner_selection
             \<lparr>rq_session_id = sid, rq_actor_label = [], rq_actor = se_actor ev, rq_channel_target = se_channel_target ev,
              rq_allow_cron = False, rq_system_prompt = system_prompt, rq_runtime_input = runtime_input,
              rq_context = context_new sid, rq_session_metadata = Map.empty, rq_working_directory = []\<rparr> of
           Inl e \<Rightarrow> (w, Inl e)
         | Inr x \<Rightarrow>
             (let r = rr_response (snd (re_runner (tv_run E) (rw_calls w) (px_request x)))
              in (w\<lparr>rw_calls := Suc (rw_calls w)\<rparr>,
                  if rs_success r then Inr (rs_content r) else Inl (unwrap_or HEARTBEAT_FAILED (rs_error r)))))"

section \<open>Executing an event\<close>

definition quiet_now :: "task_env \<Rightarrow> scheduler_event \<Rightarrow> quiet_hours option" where
  "quiet_now E ev =
     (if se_bypass_quiet_hours ev then None
      else case load_actor_quiet_hours E (se_actor ev) of
        None \<Rightarrow> None
      | Some (qh, tz_name) \<Rightarrow>
          (if quiet_window_active (ge_chrono (tv_guard E)) tz_name 8 (qh_from qh) (qh_to qh) (tv_now E) then Some qh else None))"

definition skipped_for_quiet :: "quiet_hours \<Rightarrow> task_execution" where
  "skipped_for_quiet qh =
     withheld None (JObj [(lit ''skipped'', JStr (lit ''quiet_hours'')), (lit ''quiet_from'', JStr (qh_from qh)), (lit ''quiet_to'', JStr (qh_to qh))])"

definition scheduler_metadata_with_commodity_guard :: "rstr \<Rightarrow> rstr \<Rightarrow> json" where
  "scheduler_metadata_with_commodity_guard original guarded =
     JObj [(lit ''commodity_causality_guarded'', JBool True), (lit ''raw_preview'', JStr (truncate_for_log (trim original) 280)),
       (lit ''guarded_preview'', JStr (truncate_for_log (trim guarded) 200)), (lit ''deliver_preview'', JStr (truncate_for_log (trim guarded) 200))]"

definition failure_metadata :: "rstr \<Rightarrow> (rstr \<times> json) list \<Rightarrow> json" where
  "failure_metadata kind rest = JObj ((lit ''failure_kind'', JStr kind) # rest)"

text \<open>An ordinary task: what becomes of the answer of its run.\<close>

definition settle_answer :: "task_env \<Rightarrow> scheduler_event \<Rightarrow> rstr \<Rightarrow> rstr \<Rightarrow> run_world \<Rightarrow> run_world \<times> task_execution" where
  "settle_answer E ev sid content w =
     (let sanitized = sanitize_scheduler_delivery_text (codec (tv_run E)) (regexes (tv_run E)) content in
      if is_empty_success_fallback sanitized then
        (w, \<lparr>te_should_deliver = True, te_content = [], te_error = Some sanitized,
             te_metadata = failure_metadata (lit ''empty_success_fallback'') [], te_session_id = Some sid\<rparr>)
      else if is_stale_market_data_success_fallback sanitized then
        (rollback_skipped_scheduler_assistant_turn (tv_run E) sid sanitized w,
         \<lparr>te_should_deliver = True, te_content = [], te_error = Some STALE_MARKET_DATA_FAILURE_MESSAGE,
          te_metadata = failure_metadata (lit ''stale_market_data_fallback'')
            [(lit ''suppressed_preview'', JStr (truncate_for_log (trim sanitized) 200))], te_session_id = Some sid\<rparr>)
      else if has_skip_delivery_signal sanitized then
        (rollback_skipped_scheduler_assistant_turn (tv_run E) sid sanitized w,
         \<lparr>te_should_deliver = False, te_content = sanitized, te_error = None, te_metadata = JNull, te_session_id = Some sid\<rparr>)
      else case guard_commodity_causality_for_event (tv_guard E) sanitized ev of
        Some guarded \<Rightarrow>
          (w, \<lparr>te_should_deliver = True, te_content = guarded, te_error = None,
               te_metadata = scheduler_metadata_with_commodity_guard sanitized guarded, te_session_id = Some sid\<rparr>)
      | None \<Rightarrow>
          (w, \<lparr>te_should_deliver = True, te_content = sanitized, te_error = None, te_metadata = JNull, te_session_id = Some sid\<rparr>))"

definition settle_failure :: "task_env \<Rightarrow> rstr \<Rightarrow> rstr option \<Rightarrow> run_world \<Rightarrow> run_world \<times> task_execution" where
  "settle_failure E sid err w =
     (let sanitized_error = user_visible_error_message_or_none (regexes (tv_run E)) err;
          kind = scheduler_suppressed_failure_kind err;
          w = (if sanitized_error = None then persist_suppressed_scheduler_failure_turn (tv_run E) sid kind w else w)
      in (w, \<lparr>te_should_deliver = sanitized_error \<noteq> None, te_content = [],
              te_error = or_else sanitized_error (Some SCHEDULER_INTERNAL_FAILURE_LEDGER_MESSAGE),
              te_metadata = failure_metadata kind [], te_session_id = Some sid\<rparr>))"

definition execute_ordinary_event :: "task_env \<Rightarrow> scheduler_event \<Rightarrow> run_options \<Rightarrow> run_world \<Rightarrow> (run_world \<times> task_execution) option" where
  "execute_ordinary_event E ev opts w =
     map_option (\<lambda>(w, r, sid). if rs_success r then settle_answer E ev sid (rs_content r) w else settle_failure E sid (rs_error r) w)
       (run_scheduled_task E ev opts w)"

definition execute_heartbeat_event :: "task_env \<Rightarrow> scheduler_event \<Rightarrow> run_world \<Rightarrow> run_world \<times> task_execution" where
  "execute_heartbeat_event E ev w =
     (case run_heartbeat_task E ev w of
        (w, Inr content) \<Rightarrow> (w, finish_heartbeat (codec (tv_run E)) (tv_guard E) ev (tv_auxiliary_model E) content (tv_now E))
      | (w, Inl err) \<Rightarrow> (w, heartbeat_execution_from_runner_error err (tv_auxiliary_model E)))"

definition execute_scheduler_event :: "task_env \<Rightarrow> scheduler_event \<Rightarrow> run_options \<Rightarrow> run_world \<Rightarrow> (run_world \<times> task_execution) option" where
  "execute_scheduler_event E ev opts w =
     (case quiet_now E ev of
        Some qh \<Rightarrow> Some (w, skipped_for_quiet qh)
      | None \<Rightarrow> if se_heartbeat ev then Some (execute_heartbeat_event E ev w) else execute_ordinary_event E ev opts w)"

end
