(* ===== verification/Scheduled_Properties.thy ===== *)
theory Scheduled_Properties
  imports Scheduled_Tasks Run_Properties
begin

text \<open>What holds of the executions of scheduled tasks.\<close>

section \<open>Heartbeats\<close>

lemma withheld_silent [simp]: "\<not> te_should_deliver (withheld err md)"
  by (simp add: withheld_def)

lemma content_delivered:
  assumes "te_should_deliver (heartbeat_execution_from_content J G content model t)"
  shows "snd (inspect_heartbeat_result J (ge_regex G) content) = JsonTriggered \<and>
    te_error (heartbeat_execution_from_content J G content model t) = None"
proof -
  obtain outcome kind where o: "inspect_heartbeat_result J (ge_regex G) content = (outcome, kind)" by fastforce
  show ?thesis
  proof (cases outcome)
    case HeartbeatNoop
    then show ?thesis using assms o
      by (simp add: heartbeat_execution_from_content_def heartbeat_execution_from_content_internal_def Let_def split: option.splits)
  next
    case (Deliver m)
    then have "kind = JsonTriggered" using delivered_triggered(1) o by blast
    then show ?thesis using assms o Deliver
      by (auto simp: heartbeat_execution_from_content_def heartbeat_execution_from_content_internal_def Let_def
          split: option.splits if_splits prod.splits)
  qed
qed

lemma guarded_fields [simp]:
  "te_should_deliver (guarded_execution mark g x) = te_should_deliver x" "te_error (guarded_execution mark g x) = te_error x"
  "te_content (guarded_execution mark g x) = unwrap_or (te_content x) g"
  by (cases g; simp add: guarded_execution_def)+

text \<open>The answer of a heartbeat after the two guards.\<close>

definition guarded_text :: "guard_env \<Rightarrow> scheduler_event \<Rightarrow> rstr \<Rightarrow> rstr" where
  "guarded_text G ev c =
     (let c = unwrap_or c (guard_direct_trade_instruction_for_event c ev) in unwrap_or c (guard_commodity_causality_for_event G c ev))"

lemma guarded_text_free: "se_heartbeat ev \<Longrightarrow> free_of direct_trade_phrases (guarded_text G ev c)"
  unfolding guarded_text_def Let_def by (rule commodity_guard_free [OF trade_guard_free])

lemma finish_heartbeat_delivers:
  assumes "te_should_deliver (finish_heartbeat J G ev model content t)"
  defines "x \<equiv> heartbeat_execution_from_content J G content model t"
  shows "te_should_deliver x" "te_error (finish_heartbeat J G ev model content t) = te_error x"
    "te_content (finish_heartbeat J G ev model content t) = guarded_text G ev (te_content x)"
    "heartbeat_duplicate_preview_match (ge_regex G) (guarded_text G ev (te_content x)) (se_last_delivered_previews ev) = None"
  using assms(1)
  by (auto simp: finish_heartbeat_def x_def guarded_text_def Let_def split: if_splits option.splits)

section \<open>Repeats\<close>

lemma shared_self [simp]: "shared_tokens xs xs = xs"
  by (simp add: shared_tokens_def)

lemma repeats_itself: "length (normalized_similarity_tokens R m) \<ge> 4 \<Longrightarrow> repeats_preview R m m"
  by (simp add: repeats_preview_def heartbeat_entity_anchors_compatible_def heartbeat_revision_facts_diverged_def Let_def)

lemma repeat_matched:
  assumes "(ts, m) \<in> set previews" "length (normalized_similarity_tokens R m) \<ge> 4"
  shows "heartbeat_duplicate_preview_match R m previews \<noteq> None"
proof -
  have "find (\<lambda>(_, preview). repeats_preview R m preview) previews \<noteq> None"
    using assms(1) repeats_itself [OF assms(2)] by (auto simp: find_None_iff)
  then show ?thesis using assms(2) by (auto simp: heartbeat_duplicate_preview_match_def)
qed

text \<open>C4: a delivered reminder is vetted. Whatever the model answers to a heartbeat, a reminder is delivered only outside the
  user's quiet hours (unless the task says to bypass them), when no error is reported and the program reads the status of the
  answer as triggered; the reminder contains none of the listed phrases that tell somebody to trade, and it is not, word for
  word, one of the listed reminders delivered before (unless it has fewer than four words to compare).\<close>

theorem delivered_heartbeat_vetted:
  assumes "execute_scheduler_event E ev opts w = Some (w', x)" "se_heartbeat ev" "te_should_deliver x"
  shows "(\<not> se_bypass_quiet_hours ev \<longrightarrow> (\<forall>qh tz. load_actor_quiet_hours E (se_actor ev) = Some (qh, tz) \<longrightarrow>
      \<not> quiet_window_active (ge_chrono (tv_guard E)) tz 8 (qh_from qh) (qh_to qh) (tv_now E))) \<and> te_error x = None \<and>
    (\<exists>content. run_heartbeat_task E ev w = (w', Inr content) \<and>
       snd (inspect_heartbeat_result (codec (tv_run E)) (ge_regex (tv_guard E)) content) = JsonTriggered) \<and>
    free_of direct_trade_phrases (te_content x) \<and>
    (\<forall>(ts, preview) \<in> set (se_last_delivered_previews ev).
       preview = te_content x \<longrightarrow> length (normalized_similarity_tokens (ge_regex (tv_guard E)) preview) < 4)"
proof -
  have quiet: "quiet_now E ev = None" using assms(1,3) by (auto simp: execute_scheduler_event_def skipped_for_quiet_def split: option.splits)
  obtain content where c: "run_heartbeat_task E ev w = (w', Inr content)"
    "x = finish_heartbeat (codec (tv_run E)) (tv_guard E) ev (tv_auxiliary_model E) content (tv_now E)"
    using assms quiet
    by (auto simp: execute_scheduler_event_def execute_heartbeat_event_def heartbeat_execution_from_runner_error_def split: prod.splits sum.splits)
  note d = finish_heartbeat_delivers [OF assms(3) [unfolded c(2)], folded c(2)]
  have "heartbeat_duplicate_preview_match (ge_regex (tv_guard E)) (te_content x) (se_last_delivered_previews ev) = None"
    "free_of direct_trade_phrases (te_content x)"
    using d(4) guarded_text_free [OF assms(2)] by (simp_all add: d(3))
  moreover from this(1) have "length (normalized_similarity_tokens (ge_regex (tv_guard E)) (te_content x)) < 4"
    if "(ts, te_content x) \<in> set (se_last_delivered_previews ev)" for ts
    using repeat_matched [OF that] by (meson not_le)
  moreover have "\<not> quiet_window_active (ge_chrono (tv_guard E)) tz 8 (qh_from qh) (qh_to qh) (tv_now E)"
    if "\<not> se_bypass_quiet_hours ev" "load_actor_quiet_hours E (se_actor ev) = Some (qh, tz)" for qh tz
    using quiet that by (simp add: quiet_now_def split: if_splits)
  ultimately show ?thesis using c(1) d(2) content_delivered [OF d(1)] by auto
qed

section \<open>Ordinary tasks\<close>

lemma fallback_notices_fit: "fit_for_users STALE_MARKET_DATA_FAILURE_MESSAGE" "fit_for_users EMPTY_SUCCESS_FALLBACK_MESSAGE"
  by (rule plain_notice_fit,
      simp add: plain_notice_def STALE_MARKET_DATA_FAILURE_MESSAGE_def EMPTY_SUCCESS_FALLBACK_MESSAGE_def is_whitespace_def)+

lemma trimmed_text: "trim (sanitize_scheduler_delivery_text J R content) = sanitize_scheduler_delivery_text J R content"
  by (simp add: sanitize_scheduler_delivery_text_def)

text \<open>A scheduled task that fails tells the user why in words fit for users. Whatever went wrong in the run, in the auxiliary
  model or in the data, an error that is delivered is not blank and has neither a credential nor an internal detail in it.\<close>

theorem scheduled_error_fit:
  assumes "execute_scheduler_event E ev opts w = Some (w', x)" "te_should_deliver x"
  shows "pred_option fit_for_users (te_error x)"
proof (cases "quiet_now E ev")
  case Some
  then show ?thesis using assms by (auto simp: execute_scheduler_event_def skipped_for_quiet_def)
next
  case None
  note quiet = this
  show ?thesis
  proof (cases "se_heartbeat ev")
    case True
    then obtain content where "x = finish_heartbeat (codec (tv_run E)) (tv_guard E) ev (tv_auxiliary_model E) content (tv_now E)"
      using assms quiet
      by (auto simp: execute_scheduler_event_def execute_heartbeat_event_def heartbeat_execution_from_runner_error_def split: prod.splits sum.splits)
    note d = finish_heartbeat_delivers(1,2) [OF assms(2) [unfolded this], folded this]
    show ?thesis using content_delivered [OF d(1)] d(2) by simp
  next
    case False
    then obtain w1 and r :: agent_response and sid where run: "(if rs_success r then settle_answer E ev sid (rs_content r) w1 else settle_failure E sid (rs_error r) w1) = (w', x)"
      using assms(1) quiet by (simp add: execute_scheduler_event_def execute_ordinary_event_def) blast
    show ?thesis
    proof (cases "rs_success r")
      case True
      let ?s = "sanitize_scheduler_delivery_text (codec (tv_run E)) (regexes (tv_run E)) (rs_content r)"
      have "fit_for_users ?s" if "is_empty_success_fallback ?s"
        using that fallback_notices_fit(2) by (simp add: is_empty_success_fallback_def trimmed_text)
      then show ?thesis using run True fallback_notices_fit(1)
        by (auto simp: settle_answer_def Let_def split: if_splits option.splits)
    next
      case False
      then show ?thesis using run assms(2) user_error_fit [of "regexes (tv_run E)" "rs_error r"]
        by (auto simp: settle_failure_def Let_def)
    qed
  qed
qed

text \<open>An answer that holds nothing but the residue of a protocol is delivered as an empty message. A heartbeat whose text
  is blank after cleaning is held back; an ordinary task has no such test: it is delivered without text and without an error.\<close>

theorem blank_answer_delivered:
  assumes "sanitize_scheduler_delivery_text (codec (tv_run E)) (regexes (tv_run E)) content = []"
    and "\<not> scheduler_event_is_commodity_related ev"
  shows "settle_answer E ev sid content w =
    (w, \<lparr>te_should_deliver = True, te_content = [], te_error = None, te_metadata = JNull, te_session_id = Some sid\<rparr>)"
proof -
  have "\<not> is_empty_success_fallback []" "\<not> is_stale_market_data_success_fallback []"
    by (simp_all add: is_empty_success_fallback_def is_stale_market_data_success_fallback_def EMPTY_SUCCESS_FALLBACK_MESSAGE_def
        compact_lowercase_text_def to_ascii_lowercase_def)
  moreover have "\<not> has_skip_delivery_signal []" by (simp add: has_skip_delivery_signal_def contains_any_def skip_patterns_def)
  moreover have "guard_commodity_causality_for_event (tv_guard E) [] ev = None"
    using assms(2) by (simp add: guard_commodity_causality_for_event_def text_is_predominantly_commodity_related_def
        text_looks_commodity_related_def contains_any_def commodity_terms_def lit_def compact_lowercase_text_def to_ascii_lowercase_def)
  ultimately show ?thesis by (simp add: settle_answer_def assms(1))
qed

text \<open>A condition that is not met is reported as met. The status \<open>not hit\<close> in Chinese holds the word for \<open>hit\<close> and is none of
  the words for doing nothing, so the message of such an answer is delivered.\<close>

theorem not_hit_is_triggered:
  assumes "trim (strip_internal_reasoning_blocks R content) = t" "t \<noteq> []" "t \<noteq> HEARTBEAT_NOOP_SENTINEL"
    and "\<not> heartbeat_internal_marker_present t" "\<not> heartbeat_internal_marker_prefix t"
    and "parse_heartbeat_json_payload J t = Some r" "hr_status r = Some [26410, 21629, 20013]"
  shows "inspect_heartbeat_result J R content = (triggered_outcome J (hr_message r), JsonTriggered)"
proof -
  have "\<not> heartbeat_status_indicates_noop [26410, 21629, 20013]"
    by (simp add: heartbeat_status_indicates_noop_def compact_status_def noop_words_def contains_any_def split_whitespace_def
        to_ascii_lowercase_def ascii_lower_def is_ascii_upper_def is_whitespace_def lit_def)
  moreover have "heartbeat_status_indicates_triggered [26410, 21629, 20013]"
    by (simp add: heartbeat_status_indicates_triggered_def contains_any_def)
  ultimately show ?thesis using assms by (simp add: inspect_heartbeat_result_def)
qed

section \<open>Concrete executions\<close>

text \<open>A heartbeat without words of its own, whose model gives an answer that reads as some JSON.\<close>

definition demo_task :: "bool \<Rightarrow> scheduler_event" where
  "demo_task heartbeat =
     \<lparr>se_actor = ag_actor demo_agent, se_job_id = [], se_job_name = [], se_task_prompt = [], se_channel = lit ''web'', se_channel_scope = None,
      se_channel_target = [], se_delivery_key = [], se_push = JNull, se_tags = [], se_heartbeat = heartbeat, se_schedule_hour = 9,
      se_schedule_minute = 0, se_schedule_repeat = [], se_schedule_date = None, se_last_delivered_previews = [], se_bypass_quiet_hours = False\<rparr>"

definition demo_answer_text :: "rstr \<Rightarrow> rstr" where
  "demo_answer_text status = [123, 34, 115, 116, 97, 116, 117, 115, 34, 58, 34] @ status @ [34, 44, 34, 109, 101, 115, 115, 97, 103, 101, 34, 58, 34, 104, 105, 34, 125]"

definition demo_answer_json :: "rstr \<Rightarrow> json" where
  "demo_answer_json status = JObj [(lit ''status'', JStr status), (lit ''message'', JStr [104, 105])]"

definition demo_task_env :: "rstr \<Rightarrow> rstr \<Rightarrow> task_env" where
  "demo_task_env answer status =
     \<lparr>tv_run = demo_env
        \<lparr>re_compaction := (re_compaction demo_env)
           \<lparr>ce_codec := \<lparr>jc_parse = (\<lambda>s. if s = demo_answer_text status then Some (demo_answer_json status) else None), jc_print = (\<lambda>v. [])\<rparr>\<rparr>,
         re_runner := (\<lambda>k request. ([], demo_reply\<lparr>rr_response := empty_response\<lparr>rs_success := True, rs_content := answer\<rparr>\<rparr>))\<rparr>,
      tv_guard = \<lparr>ge_regex = no_regex, ge_chrono = gregorian, ge_parse_f64 = (\<lambda>s. None)\<rparr>,
      tv_escape = id, tv_auxiliary_model = [109], tv_prefs = None, tv_now = 0\<rparr>"

lemma demo_plain:
  assumes "status = lit ''met'' \<or> status = [26410, 21629, 20013]"
  shows "trim (strip_internal_reasoning_blocks no_regex (demo_answer_text status)) = demo_answer_text status"
    "demo_answer_text status \<noteq> []" "demo_answer_text status \<noteq> HEARTBEAT_NOOP_SENTINEL"
    "\<not> heartbeat_internal_marker_present (demo_answer_text status)" "\<not> heartbeat_internal_marker_prefix (demo_answer_text status)"
  using assms
  by (auto simp: demo_answer_text_def lit_def strip_internal_reasoning_blocks_def strip_internal_protocol_blocks_def Let_def
      trim_def is_whitespace_def HEARTBEAT_NOOP_SENTINEL_def heartbeat_internal_marker_present_def
      heartbeat_internal_marker_prefix_def HEARTBEAT_INTERNAL_PREFIX_def contains_any_def to_ascii_uppercase_def ascii_upper_def
      is_ascii_lower_def trim_start_def)

abbreviation demo_json :: "rstr \<Rightarrow> json_codec" where "demo_json status \<equiv> codec (tv_run (demo_task_env [] status))"

lemma demo_parsed:
  assumes "status = lit ''met'' \<or> status = [26410, 21629, 20013]"
  shows "parse_heartbeat_json_payload (demo_json status) (demo_answer_text status) = Some \<lparr>hr_status = Some status, hr_message = Some [104, 105]\<rparr>"
proof -
  have "trim (demo_answer_text status) = demo_answer_text status"
    using assms by (auto simp: demo_answer_text_def lit_def trim_def is_whitespace_def)
  then show ?thesis
    by (simp add: parse_heartbeat_json_payload_def read_heartbeat_response_def heartbeat_response_of_json_def heartbeat_response_fields_def
        text_or_null_def demo_task_env_def demo_answer_json_def json_get_def lit_def)
qed

theorem not_hit_is_triggered_witness:
  "inspect_heartbeat_result (demo_json [26410, 21629, 20013]) no_regex (demo_answer_text [26410, 21629, 20013]) = (Deliver [104, 105], JsonTriggered)"
proof -
  note d = demo_plain [of "[26410, 21629, 20013]", simplified] demo_parsed [of "[26410, 21629, 20013]", simplified]
  have "triggered_outcome (demo_json [26410, 21629, 20013]) (Some [104, 105]) = Deliver [104, 105]"
    by (simp add: triggered_outcome_def unwrap_nested_json_message_def trim_def is_whitespace_def heartbeat_internal_marker_prefix_def
        HEARTBEAT_INTERNAL_PREFIX_def to_ascii_uppercase_def ascii_upper_def is_ascii_lower_def trim_start_def lit_def)
  then show ?thesis using not_hit_is_triggered [OF d(1) _ _ _ _ d(6)] d(2-5) by simp
qed

lemma sanitize_plain:
  assumes "trim t = t" "t \<noteq> []" "str_lines t = [t]" "\<not> is_internal_line no_regex t" "strip_internal_workflow_prelude t = None" "crlf_to_lf t = t"
  shows "so_content (sanitize_user_visible_output no_regex t) = t"
  using assms
  by (simp add: sanitize_user_visible_output_def strip_internal_protocol_blocks_def
      redact_user_visible_local_paths_def rewrite_user_visible_internal_copy_def Let_def)

theorem blank_answer_delivered_witness:
  "settle_answer (demo_task_env [] []) (demo_task False) [115] (lit ''{}'') (demo_world JsonBackend None) =
    (demo_world JsonBackend None, \<lparr>te_should_deliver = True, te_content = [], te_error = None, te_metadata = JNull, te_session_id = Some [115]\<rparr>)"
proof (rule blank_answer_delivered)
  have t: "trim [123, 125] = [123, 125]" "trim_start [123, 125] = [123, 125]" by (simp_all add: trim_def trim_start_def is_whitespace_def)
  have sanitized: "so_content (sanitize_user_visible_output no_regex [123, 125]) = [123, 125]"
    by (rule sanitize_plain)
      (simp_all add: t str_lines_def is_internal_line_def is_tool_call_content_def contains_any_def tool_call_markers_def
        strip_internal_workflow_prelude_def lit_def)
  show "sanitize_scheduler_delivery_text (codec (tv_run (demo_task_env [] []))) (regexes (tv_run (demo_task_env [] []))) (lit ''{}'') = []"
    by (simp add: sanitize_scheduler_delivery_text_def demo_task_env_def demo_env_def Let_def lit_def sanitized
        str_lines_def is_scheduler_protocol_residue_def t ends_with_def strip_suffix_def strip_prefix_def)
  show "\<not> scheduler_event_is_commodity_related (demo_task False)"
    by (simp add: scheduler_event_is_commodity_related_def demo_task_def contains_any_def job_commodity_names_def job_commodity_words_def
        prompt_commodity_names_def prompt_commodity_words_def to_ascii_lowercase_def lit_def)
qed

abbreviation met_env :: task_env where "met_env \<equiv> demo_task_env (demo_answer_text (lit ''met'')) (lit ''met'')"

lemma met_inspected:
  "inspect_heartbeat_result (codec (tv_run met_env)) no_regex (demo_answer_text (lit ''met'')) = (Deliver [104, 105], JsonTriggered)"
proof -
  note d = demo_plain [of "lit ''met''", simplified] demo_parsed [of "lit ''met''", simplified]
  have c: "codec (tv_run met_env) = demo_json (lit ''met'')" by (simp add: demo_task_env_def)
  have "triggered_outcome (demo_json (lit ''met'')) (Some [104, 105]) = Deliver [104, 105]"
    by (simp add: triggered_outcome_def unwrap_nested_json_message_def trim_def is_whitespace_def heartbeat_internal_marker_prefix_def
        HEARTBEAT_INTERNAL_PREFIX_def to_ascii_uppercase_def ascii_upper_def is_ascii_lower_def trim_start_def lit_def)
  moreover have "\<not> heartbeat_status_indicates_noop (lit ''met'')" "heartbeat_status_indicates_triggered (lit ''met'')" "lit ''met'' \<noteq> []"
    by (simp_all add: heartbeat_status_indicates_noop_def heartbeat_status_indicates_triggered_def compact_status_def noop_words_def
        triggered_words_def contains_any_def split_whitespace_def to_ascii_lowercase_def ascii_lower_def is_ascii_upper_def is_whitespace_def lit_def)
  ultimately show ?thesis unfolding c using d by (simp add: inspect_heartbeat_result_def)
qed

lemma hi_sanitized: "sanitize_scheduler_delivery_text J no_regex [104, 105] = [104, 105]"
proof -
  have t: "trim [104, 105] = [104, 105]" "trim_start [104, 105] = [104, 105]" by (simp_all add: trim_def trim_start_def is_whitespace_def)
  have "so_content (sanitize_user_visible_output no_regex [104, 105]) = [104, 105]"
    by (rule sanitize_plain)
      (simp_all add: t str_lines_def is_internal_line_def is_tool_call_content_def contains_any_def tool_call_markers_def
        strip_internal_workflow_prelude_def lit_def)
  then show ?thesis by (simp add: sanitize_scheduler_delivery_text_def str_lines_def is_scheduler_protocol_residue_def t)
qed

lemma hi_passes:
  "\<not> heartbeat_near_threshold_without_crossing (tv_guard met_env) [104, 105]" "heartbeat_stale_price_timestamp (tv_guard met_env) [104, 105] d = None"
  "fst (normalize_heartbeat_beijing_trigger_time no_regex [104, 105] hm) = [104, 105]"
  by (simp_all add: heartbeat_near_threshold_without_crossing_def heartbeat_lower_trigger_price_contradiction_def heartbeat_stale_price_timestamp_def
      normalize_heartbeat_beijing_trigger_time_def demo_task_env_def found_def no_regex_def replace_all_def Let_def List.map_filter_simps
      compact_lowercase_text_def to_ascii_lowercase_def ascii_lower_def is_ascii_upper_def is_whitespace_def contains_any_def
      threshold_terms_def lit_def split: option.splits)

lemma met_delivered:
  "te_should_deliver (finish_heartbeat (codec (tv_run met_env)) (tv_guard met_env) (demo_task True) [109] (demo_answer_text (lit ''met'')) 0)"
proof -
  have regex: "ge_regex (tv_guard met_env) = no_regex" by (simp add: demo_task_env_def)
  have hi: "trim [104, 105] \<noteq> []" by (simp add: trim_def is_whitespace_def)
  obtain o' where normal: "normalize_heartbeat_beijing_trigger_time no_regex [104, 105] (local_time 0) = ([104, 105], o')"
    using hi_passes(3) [of "local_time 0"] by (metis prod.collapse)
  have "te_should_deliver (heartbeat_execution_from_content (codec (tv_run met_env)) (tv_guard met_env) (demo_answer_text (lit ''met'')) [109] 0)"
    unfolding heartbeat_execution_from_content_def heartbeat_execution_from_content_internal_def regex
    using hi by (simp add: met_inspected heartbeat_parse_error_message_def hi_sanitized normal hi_passes Let_def)
  moreover have "heartbeat_duplicate_preview_match R m (se_last_delivered_previews (demo_task True)) = None" for R m
    by (simp add: heartbeat_duplicate_preview_match_def demo_task_def)
  ultimately show ?thesis by (simp add: finish_heartbeat_def Let_def)
qed

lemma met_ran: "\<exists>w'. run_heartbeat_task met_env (demo_task True) (demo_world JsonBackend None) = (w', Inr (demo_answer_text (lit ''met'')))"
proof -
  let ?w = "fst (task_prompt met_env (demo_task True) (demo_world JsonBackend None))"
  have env: "re_execution (tv_run met_env) = re_execution demo_env" "re_prompt (tv_run met_env) = re_prompt demo_env"
    "re_runner (tv_run met_env) k request = ([], demo_reply\<lparr>rr_response := empty_response\<lparr>rs_success := True, rs_content := demo_answer_text (lit ''met'')\<rparr>\<rparr>)"
    for k request by (simp_all add: demo_task_env_def)
  obtain w1 prompt where "task_prompt met_env (demo_task True) (demo_world JsonBackend None) = (w1, prompt)" by fastforce
  then show ?thesis
    by (simp add: run_heartbeat_task_def env Let_def prepare_def create_selected_runner_def heartbeat_runner_selection_def)
      (simp add: env demo_env_def Let_def)
qed

lemma met_executed:
  "\<exists>w' x. execute_scheduler_event met_env (demo_task True) opts (demo_world JsonBackend None) = Some (w', x) \<and> te_should_deliver x"
proof -
  obtain w' where ran: "run_heartbeat_task met_env (demo_task True) (demo_world JsonBackend None) = (w', Inr (demo_answer_text (lit ''met'')))"
    using met_ran by blast
  have "quiet_now met_env (demo_task True) = None" by (simp add: quiet_now_def load_actor_quiet_hours_def demo_task_env_def)
  moreover have "tv_auxiliary_model met_env = [109]" "tv_now met_env = 0" by (simp_all add: demo_task_env_def)
  moreover have "se_heartbeat (demo_task True)" by (simp add: demo_task_def)
  ultimately show ?thesis using ran met_delivered by (simp add: execute_scheduler_event_def execute_heartbeat_event_def)
qed

theorem delivered_heartbeat_vetted_witness:
  "\<exists>w' x. execute_scheduler_event met_env (demo_task True) \<lparr>ro_segmenter = None, ro_quota_mode = ScheduledTask, ro_model_override = None\<rparr>
       (demo_world JsonBackend None) = Some (w', x) \<and> te_should_deliver x \<and> te_error x = None \<and> free_of direct_trade_phrases (te_content x)"
proof -
  have "se_heartbeat (demo_task True)" by (simp add: demo_task_def)
  then show ?thesis using met_executed delivered_heartbeat_vetted by blast
qed

theorem scheduled_error_fit_witness:
  "\<exists>w' x. execute_scheduler_event met_env (demo_task True) \<lparr>ro_segmenter = None, ro_quota_mode = UserConversation, ro_model_override = None\<rparr>
       (demo_world JsonBackend None) = Some (w', x) \<and> te_should_deliver x \<and> pred_option fit_for_users (te_error x)"
  using met_executed scheduled_error_fit by blast

end
