(* ===== verification/Local_Files.thy ===== *)
theory Local_Files
  imports Session_Store Cron_History Message_Markup
begin

text \<open>
  \<^verbatim>\<open>hone-tools/src/local_files.rs\<close>, local mode: the tools that list, search and read the files of an actor for the model. A
  path is followed through links as the system does, and what is handed out lies in the directory of the actor. The
  crates \<^verbatim>\<open>walkdir\<close> and \<^verbatim>\<open>glob\<close> and the Unicode lower case are parameters.
\<close>

section \<open>Files\<close>

text \<open>An absolute path is the list of its names. A file has its bytes and can be opened or not; a link has its target.\<close>

type_synonym path = "rstr list"

datatype fs_node = RegularFile "nat list" bool | Directory | Symlink rstr | OtherNode

record file_env =
  fe_nodes :: "path \<Rightarrow> fs_node option"
  fe_cwd :: path
  fe_io_error :: "path \<Rightarrow> rstr"
  fe_walk :: "path \<Rightarrow> nat option \<Rightarrow> path list"
  fe_glob :: "rstr \<Rightarrow> rstr + (rstr \<Rightarrow> bool)"
  fe_lowercase :: "rstr \<Rightarrow> rstr"

definition node_at :: "file_env \<Rightarrow> path \<Rightarrow> fs_node option" where
  "node_at E p = (if p = [] then Some Directory else fe_nodes E p)"

text \<open>The system follows a path name by name, and at most forty links.\<close>

function follow :: "file_env \<Rightarrow> nat \<Rightarrow> path \<Rightarrow> path_component list \<Rightarrow> path option" where
  "follow E k p [] = Some p"
| "follow E k p (RootDir # cs) = follow E k [] cs"
| "follow E k p (CurDir # cs) = follow E k p cs"
| "follow E k p (ParentDir # cs) = follow E k (butlast p) cs"
| "follow E k p (NormalComp n # cs) =
     (case fe_nodes E (p @ [n]) of
        Some Directory \<Rightarrow> follow E k (p @ [n]) cs
      | Some (Symlink target) \<Rightarrow> (case k of 0 \<Rightarrow> None | Suc k \<Rightarrow> follow E k p (path_components target @ cs))
      | Some _ \<Rightarrow> if cs = [] then Some (p @ [n]) else None
      | None \<Rightarrow> None)"
  by pat_completeness auto
termination by (relation "measures [\<lambda>(E, k, p, cs). k, \<lambda>(E, k, p, cs). length cs]") auto

definition MAX_LINKS :: nat where "MAX_LINKS = 40"

definition canonicalize :: "file_env \<Rightarrow> path_component list \<Rightarrow> path option" where
  "canonicalize E cs = follow E MAX_LINKS (fe_cwd E) cs"

text \<open>\<^verbatim>\<open>String::from_utf8\<close>.\<close>

definition is_continuation :: "nat \<Rightarrow> bool" where
  "is_continuation b \<longleftrightarrow> 128 \<le> b \<and> b \<le> 191"

fun from_utf8 :: "nat list \<Rightarrow> rstr option" where
  "from_utf8 [] = Some []"
| "from_utf8 (b # bs) =
     (if b < 128 then map_option ((#) b) (from_utf8 bs)
      else case bs of
        [] \<Rightarrow> None
      | c # bs \<Rightarrow>
          (if 194 \<le> b \<and> b \<le> 223 \<and> is_continuation c then map_option ((#) ((b - 192) * 64 + (c - 128))) (from_utf8 bs)
           else case bs of
             [] \<Rightarrow> None
           | d # bs \<Rightarrow>
               (if 224 \<le> b \<and> b \<le> 239 \<and> is_continuation c \<and> is_continuation d \<and> (b = 224 \<longrightarrow> 160 \<le> c) \<and> (b = 237 \<longrightarrow> c \<le> 159)
                then map_option ((#) ((b - 224) * 4096 + (c - 128) * 64 + (d - 128))) (from_utf8 bs)
                else case bs of
                  [] \<Rightarrow> None
                | e # bs \<Rightarrow>
                    (if 240 \<le> b \<and> b \<le> 244 \<and> is_continuation c \<and> is_continuation d \<and> is_continuation e \<and>
                        (b = 240 \<longrightarrow> 144 \<le> c) \<and> (b = 244 \<longrightarrow> c \<le> 143)
                     then map_option ((#) ((b - 240) * 262144 + (c - 128) * 4096 + (d - 128) * 64 + (e - 128))) (from_utf8 bs)
                     else None))))"

section \<open>The directory of an actor\<close>

definition sandbox_root :: "rstr \<Rightarrow> actor \<Rightarrow> path_component list" where
  "sandbox_root base a = path_components base @ path_components (channel_fs_component a) @ path_components (scoped_user_fs_key a)"

primrec plain_names :: "path_component list \<Rightarrow> rstr list option" where
  "plain_names [] = Some []"
| "plain_names (c # cs) =
     (case c of
        CurDir \<Rightarrow> plain_names cs
      | NormalComp n \<Rightarrow> map_option ((#) n) (plain_names cs)
      | _ \<Rightarrow> None)"

text \<open>The names of a relative path; none stands for the directory itself.\<close>

definition normalize_relative_path :: "rstr \<Rightarrow> rstr list hone_result" where
  "normalize_relative_path raw =
     (let trimmed = trim raw; input = (if trimmed = [] then lit ''.'' else trimmed) in
      if starts_with input [47] then Inl (Tool [21482, 20801, 35768, 35775, 38382, 24403, 21069, 32, 97, 99, 116, 111, 114, 32, 115, 97, 110, 100, 98, 111,
    120, 32, 20869, 30340, 30456, 23545, 36335, 24452])
      else case plain_names (path_components input) of
        None \<Rightarrow> Inl (Tool [36335, 24452, 19981, 33021, 21253, 21547, 32477, 23545, 36335, 24452, 12289, 46, 46, 32, 25110, 36328, 32,
    115, 97, 110, 100, 98, 111, 120, 32, 30340, 21069, 32512])
      | Some names \<Rightarrow> Inr names)"

definition shown_path :: "rstr list \<Rightarrow> rstr" where
  "shown_path names = (if names = [] then lit ''.'' else intercalate [47] names)"

definition glob_pattern :: "file_env \<Rightarrow> rstr option \<Rightarrow> (rstr \<Rightarrow> bool) option hone_result" where
  "glob_pattern E raw =
     (case opt_filter (\<lambda>v. v \<noteq> []) (map_option trim raw) of
        None \<Rightarrow> Inr None
      | Some v \<Rightarrow> (case fe_glob E v of Inl e \<Rightarrow> Inl (Tool ([103, 108, 111, 98, 32, 27169, 24335, 26080, 25928, 58, 32] @ e)) | Inr m \<Rightarrow> Inr (Some m)))"

definition admitted :: "(rstr \<Rightarrow> bool) option \<Rightarrow> rstr \<Rightarrow> bool" where
  "admitted pattern rel \<longleftrightarrow> (case pattern of None \<Rightarrow> True | Some m \<Rightarrow> m rel)"

definition ensure_path_within_root :: "file_env \<Rightarrow> rstr \<Rightarrow> actor \<Rightarrow> path_component list \<Rightarrow> (path \<times> path) hone_result" where
  "ensure_path_within_root E base a cs =
     (case canonicalize E (sandbox_root base a) of
        None \<Rightarrow> Inl (Tool [24403, 21069, 32, 97, 99, 116, 111, 114, 32, 115, 97, 110, 100, 98, 111, 120, 32, 19981, 23384, 22312])
      | Some home \<Rightarrow>
          (case canonicalize E cs of
             None \<Rightarrow> Inl (Io (fe_io_error E []))
           | Some candidate \<Rightarrow>
               if take (length home) candidate \<noteq> home then Inl (Tool [30446, 26631, 36335, 24452, 36229, 20986, 24403, 21069, 32, 97, 99, 116, 111, 114, 32, 115, 97, 110, 100, 98,
    111, 120, 32, 33539, 22260])
               else Inr (home, candidate)))"

text \<open>The path in the directory of the actor, and whether its last name is a link. (The directory itself is asked for as
  \<open>root/.\<close>, which is never one.)\<close>

definition joined_path :: "rstr \<Rightarrow> actor \<Rightarrow> rstr list \<Rightarrow> path_component list" where
  "joined_path base a names = sandbox_root base a @ map NormalComp names"

definition is_symlink :: "file_env \<Rightarrow> rstr \<Rightarrow> actor \<Rightarrow> rstr list \<Rightarrow> bool" where
  "is_symlink E base a names \<longleftrightarrow>
     names \<noteq> [] \<and>
     (case canonicalize E (joined_path base a (butlast names)) of
        None \<Rightarrow> False
      | Some p \<Rightarrow> (case fe_nodes E (p @ [last names]) of Some (Symlink _) \<Rightarrow> True | _ \<Rightarrow> False))"

definition resolve_directory :: "file_env \<Rightarrow> rstr \<Rightarrow> actor \<Rightarrow> rstr \<Rightarrow> (rstr list \<times> path \<times> path) hone_result" where
  "resolve_directory E base a raw =
     (case normalize_relative_path raw of
        Inl e \<Rightarrow> Inl e
      | Inr names \<Rightarrow>
          (if canonicalize E (joined_path base a names) = None then Inl (Tool ([30446, 24405, 19981, 23384, 22312, 58, 32] @ shown_path names))
           else if is_symlink E base a names then Inl (Tool [19981, 20801, 35768, 36890, 36807, 31526, 21495, 38142, 25509, 35775, 38382, 30446, 24405])
           else case ensure_path_within_root E base a (joined_path base a names) of
             Inl e \<Rightarrow> Inl e
           | Inr (home, resolved) \<Rightarrow>
               if node_at E resolved \<noteq> Some Directory then Inl (Tool ([30446, 26631, 19981, 26159, 30446, 24405, 58, 32] @ shown_path names))
               else Inr (names, home, resolved)))"

definition is_file_node :: "fs_node option \<Rightarrow> bool" where
  "is_file_node n \<longleftrightarrow> (case n of Some (RegularFile _ _) \<Rightarrow> True | _ \<Rightarrow> False)"

definition resolve_file :: "file_env \<Rightarrow> rstr \<Rightarrow> actor \<Rightarrow> rstr \<Rightarrow> (rstr list \<times> path) hone_result" where
  "resolve_file E base a raw =
     (case normalize_relative_path raw of
        Inl e \<Rightarrow> Inl e
      | Inr names \<Rightarrow>
          (if names = [] then Inl (Tool [35831, 25552, 20379, 20855, 20307, 25991, 20214, 36335, 24452])
           else if canonicalize E (joined_path base a names) = None then Inl (Tool ([25991, 20214, 19981, 23384, 22312, 58, 32] @ shown_path names))
           else if is_symlink E base a names then Inl (Tool [19981, 20801, 35768, 36890, 36807, 31526, 21495, 38142, 25509, 35835, 21462, 25991, 20214])
           else case ensure_path_within_root E base a (joined_path base a names) of
             Inl e \<Rightarrow> Inl e
           | Inr (home, resolved) \<Rightarrow>
               if \<not> is_file_node (node_at E resolved) then Inl (Tool ([30446, 26631, 19981, 26159, 25991, 20214, 58, 32] @ shown_path names))
               else Inr (names, resolved)))"

definition relative_to_root :: "path \<Rightarrow> path \<Rightarrow> rstr hone_result" where
  "relative_to_root home p =
     (if take (length home) p \<noteq> home then Inl (Tool [26080, 27861, 29983, 25104, 30456, 23545, 36335, 24452]) else Inr (shown_path (drop (length home) p)))"

section \<open>Listing\<close>

definition DEFAULT_LIST_MAX_DEPTH :: nat where "DEFAULT_LIST_MAX_DEPTH = 3"
definition DEFAULT_LIST_MAX_RESULTS :: nat where "DEFAULT_LIST_MAX_RESULTS = 100"
definition DEFAULT_SEARCH_MAX_RESULTS :: nat where "DEFAULT_SEARCH_MAX_RESULTS = 20"
definition DEFAULT_READ_START_LINE :: nat where "DEFAULT_READ_START_LINE = 1"
definition DEFAULT_READ_MAX_LINES :: nat where "DEFAULT_READ_MAX_LINES = 200"
definition MAX_READ_CHARS :: nat where "MAX_READ_CHARS = 12000"
definition MAX_SEARCH_FILE_BYTES :: nat where "MAX_SEARCH_FILE_BYTES = 512 * 1024"
definition MAX_SEARCH_EXCERPT_CHARS :: nat where "MAX_SEARCH_EXCERPT_CHARS = 240"

definition local_truncate_chars :: "rstr \<Rightarrow> nat \<Rightarrow> rstr" where
  "local_truncate_chars input max_chars = truncate_chars_append input (max_chars - 1) [8230]"

definition json_nat :: "nat \<Rightarrow> json" where "json_nat n = JInt (int n)"

definition listed_entry :: "rstr \<Rightarrow> string \<Rightarrow> nat option \<Rightarrow> rstr \<times> json" where
  "listed_entry rel kind bytes =
     (rel, JObj [(lit ''path'', JStr rel), (lit ''kind'', JStr (lit kind)),
        (lit ''size_bytes'', case bytes of None \<Rightarrow> JNull | Some n \<Rightarrow> json_nat n)])"

text \<open>What is shown of one path: nothing for a link, or for what is neither a file nor a directory.\<close>

definition list_path :: "file_env \<Rightarrow> (rstr \<Rightarrow> bool) option \<Rightarrow> path \<Rightarrow> path \<Rightarrow> (rstr \<times> json) list hone_result" where
  "list_path E pattern home p =
     (case node_at E p of
        Some (Symlink _) \<Rightarrow> Inr []
      | node \<Rightarrow>
          map_sum id (\<lambda>rel. if \<not> admitted pattern rel then []
            else case node of
                Some Directory \<Rightarrow> [listed_entry rel ''dir'' None]
              | Some (RegularFile bytes _) \<Rightarrow> [listed_entry rel ''file'' (Some (length bytes))]
              | _ \<Rightarrow> []) (relative_to_root home p))"

primrec list_entries :: "file_env \<Rightarrow> (rstr \<Rightarrow> bool) option \<Rightarrow> path \<Rightarrow> path list \<Rightarrow> (rstr \<times> json) list hone_result" where
  "list_entries E pattern home [] = Inr []"
| "list_entries E pattern home (p # ps) =
     (case list_path E pattern home p of
        Inl e \<Rightarrow> Inl e
      | Inr shown \<Rightarrow> map_sum id ((@) shown) (list_entries E pattern home ps))"

definition local_list_files :: "file_env \<Rightarrow> rstr \<Rightarrow> actor \<Rightarrow> json \<Rightarrow> json hone_result" where
  "local_list_files E base a args =
     (let max_depth = unwrap_or DEFAULT_LIST_MAX_DEPTH (get_u64 args (lit ''max_depth''));
          max_results = unwrap_or DEFAULT_LIST_MAX_RESULTS (get_u64 args (lit ''max_results''))
      in case glob_pattern E (get_str args (lit ''glob'')) of
           Inl e \<Rightarrow> Inl e
         | Inr pattern \<Rightarrow>
             (case resolve_directory E base a (unwrap_or (lit ''.'') (get_str args (lit ''path''))) of
                Inl e \<Rightarrow> Inl e
              | Inr (names, home, dir) \<Rightarrow>
                  (case list_entries E pattern home (filter (\<lambda>p. p \<noteq> dir) (fe_walk E dir (Some max_depth))) of
                     Inl e \<Rightarrow> Inl e
                   | Inr entries \<Rightarrow>
                       (let sorted = map snd (sort_key fst entries); shown = take max_results sorted
                        in Inr (JObj [(lit ''path'', JStr (shown_path names)), (lit ''entries'', JArr shown),
                             (lit ''count'', json_nat (length shown)), (lit ''truncated'', JBool (length sorted > max_results))])))))"

section \<open>Searching\<close>

fun byte_lines :: "nat list \<Rightarrow> nat list \<Rightarrow> nat list list" where
  "byte_lines line [] = (if line = [] then [] else [line])"
| "byte_lines line (b # bs) = (if b = 10 then (line @ [b]) # byte_lines [] bs else byte_lines (line @ [b]) bs)"

definition search_match :: "rstr \<Rightarrow> nat \<Rightarrow> rstr \<Rightarrow> json" where
  "search_match rel line_no line =
     JObj [(lit ''path'', JStr rel), (lit ''line'', json_nat line_no),
       (lit ''excerpt'', JStr (local_truncate_chars (trim line) MAX_SEARCH_EXCERPT_CHARS))]"

record search_state =
  ls_matches :: "json list"
  ls_binary :: nat
  ls_non_utf8 :: nat
  ls_unreadable :: nat

text \<open>The lines of one file; the flag says that enough was found.\<close>

fun search_lines :: "file_env \<Rightarrow> rstr \<Rightarrow> nat \<Rightarrow> rstr \<Rightarrow> nat \<Rightarrow> nat list list \<Rightarrow> search_state \<Rightarrow> search_state \<times> bool" where
  "search_lines E query limit rel n [] s = (s, False)"
| "search_lines E query limit rel n (bytes # rest) s =
     (if 0 \<in> set bytes then (s\<lparr>ls_binary := Suc (ls_binary s)\<rparr>, False)
      else case from_utf8 bytes of
        None \<Rightarrow> (s\<lparr>ls_non_utf8 := Suc (ls_non_utf8 s)\<rparr>, False)
      | Some line \<Rightarrow>
          if \<not> contains_str (fe_lowercase E line) query then search_lines E query limit rel (Suc n) rest s
          else
            (let s = s\<lparr>ls_matches := ls_matches s @ [search_match rel n line]\<rparr>
             in if length (ls_matches s) \<ge> limit then (s, True) else search_lines E query limit rel (Suc n) rest s))"

definition search_file ::
    "file_env \<Rightarrow> rstr \<Rightarrow> nat \<Rightarrow> (rstr \<Rightarrow> bool) option \<Rightarrow> path \<Rightarrow> path \<Rightarrow> search_state \<Rightarrow> (search_state \<times> bool) hone_result" where
  "search_file E query limit pattern home p s =
     (case node_at E p of
        Some (RegularFile bytes readable) \<Rightarrow>
          map_sum id (\<lambda>rel.
            if \<not> admitted pattern rel \<or> length bytes > MAX_SEARCH_FILE_BYTES then (s, False)
            else if \<not> readable then (s\<lparr>ls_unreadable := Suc (ls_unreadable s)\<rparr>, False)
            else search_lines E query limit rel 1 (byte_lines [] bytes) s) (relative_to_root home p)
      | _ \<Rightarrow> Inr (s, False))"

primrec search_files ::
    "file_env \<Rightarrow> rstr \<Rightarrow> nat \<Rightarrow> (rstr \<Rightarrow> bool) option \<Rightarrow> path \<Rightarrow> path list \<Rightarrow> search_state \<Rightarrow> search_state hone_result" where
  "search_files E query limit pattern home [] s = Inr s"
| "search_files E query limit pattern home (p # ps) s =
     (case search_file E query limit pattern home p s of
        Inl e \<Rightarrow> Inl e
      | Inr (s, enough) \<Rightarrow> if enough then Inr s else search_files E query limit pattern home ps s)"

text \<open>A single file: a line that is not text is an error.\<close>

fun search_single :: "file_env \<Rightarrow> rstr \<Rightarrow> nat \<Rightarrow> rstr \<Rightarrow> nat \<Rightarrow> nat list list \<Rightarrow> json list \<Rightarrow> json list hone_result" where
  "search_single E query limit rel n [] found = Inr found"
| "search_single E query limit rel n (bytes # rest) found =
     (case from_utf8 bytes of
        None \<Rightarrow> Inl (Io (fe_io_error E []))
      | Some line \<Rightarrow>
          (if 0 \<in> set line then Inl (Tool [21482, 25903, 25345, 25628, 32034, 25991, 26412, 25991, 20214])
           else if \<not> contains_str (fe_lowercase E line) query then search_single E query limit rel (Suc n) rest found
           else
             (let found = found @ [search_match rel n line]
              in if length found \<ge> limit then Inr found else search_single E query limit rel (Suc n) rest found)))"

definition search_answer :: "rstr \<Rightarrow> rstr \<Rightarrow> json list \<Rightarrow> bool \<Rightarrow> json list \<Rightarrow> json" where
  "search_answer query shown found truncated counts =
     JObj ([(lit ''query'', JStr query), (lit ''path'', JStr shown), (lit ''matches'', JArr found),
        (lit ''count'', json_nat (length found)), (lit ''truncated'', JBool truncated)]
       @ zip [lit ''skipped_binary_files'', lit ''skipped_non_utf8_files'', lit ''skipped_unreadable_files''] counts)"

definition strip_line_end :: "nat list \<Rightarrow> nat list" where
  "strip_line_end line =
     (if line \<noteq> [] \<and> last line = 10 then let l = butlast line in if l \<noteq> [] \<and> last l = 13 then butlast l else l else line)"

definition local_search_files :: "file_env \<Rightarrow> rstr \<Rightarrow> actor \<Rightarrow> json \<Rightarrow> json hone_result" where
  "local_search_files E base a args =
     (let query = trim (unwrap_or [] (get_str args (lit ''query''))); path = unwrap_or (lit ''.'') (get_str args (lit ''path''));
          limit = unwrap_or DEFAULT_SEARCH_MAX_RESULTS (get_u64 args (lit ''max_results'')); lower_query = fe_lowercase E query
      in if query = [] then Inl (Tool [113, 117, 101, 114, 121, 32, 19981, 33021, 20026, 31354])
         else case glob_pattern E (get_str args (lit ''glob'')) of
           Inl e \<Rightarrow> Inl e
         | Inr pattern \<Rightarrow>
             (case resolve_directory E base a path of
                Inr (names, home, dir) \<Rightarrow>
                  (case search_files E lower_query limit pattern home (fe_walk E dir None)
                          \<lparr>ls_matches = [], ls_binary = 0, ls_non_utf8 = 0, ls_unreadable = 0\<rparr> of
                     Inl e \<Rightarrow> Inl e
                   | Inr s \<Rightarrow>
                       Inr (search_answer query (shown_path names) (ls_matches s) (length (ls_matches s) \<ge> limit)
                         (map json_nat [ls_binary s, ls_non_utf8 s, ls_unreadable s])))
              | Inl _ \<Rightarrow>
                  (case resolve_file E base a path of
                     Inl e \<Rightarrow> Inl e
                   | Inr (names, file) \<Rightarrow>
                       (let rel = shown_path names in
                        case node_at E file of
                          Some (RegularFile bytes readable) \<Rightarrow>
                            (if \<not> admitted pattern rel \<or> length bytes > MAX_SEARCH_FILE_BYTES then Inr (search_answer query rel [] False [])
                             else if \<not> readable then Inl (Io (fe_io_error E file))
                             else case search_single E lower_query limit rel 1 (map strip_line_end (byte_lines [] bytes)) [] of
                               Inl e \<Rightarrow> Inl e
                             | Inr found \<Rightarrow> Inr (search_answer query rel found (length found \<ge> limit) (map json_nat [0, 0, 0])))
                        | _ \<Rightarrow> Inl (Io (fe_io_error E file))))))"

section \<open>Reading\<close>

text \<open>The sum of line numbers wraps as an unsigned number of 64 bits.\<close>

definition read_range :: "json \<Rightarrow> (nat \<times> nat) hone_result" where
  "read_range args =
     (let start_line = unwrap_or DEFAULT_READ_START_LINE (get_u64 args (lit ''start_line'')) in
      if start_line = 0 then Inl (Tool [115, 116, 97, 114, 116, 95, 108, 105, 110, 101, 32, 24517, 39035, 20174, 32, 49, 32, 24320, 22987])
      else
        (let default_end = (start_line + DEFAULT_READ_MAX_LINES - 1) mod 2 ^ 64;
             end_line = min (unwrap_or default_end (get_u64 args (lit ''end_line''))) default_end
         in if end_line < start_line then Inl (Tool [101, 110, 100, 95, 108, 105, 110, 101, 32, 19981, 33021, 23567, 20110, 32, 115, 116, 97, 114, 116, 95, 108,
    105, 110, 101]) else Inr (start_line, end_line)))"

definition read_answer :: "rstr list \<Rightarrow> nat \<Rightarrow> nat \<Rightarrow> bool \<Rightarrow> rstr \<Rightarrow> json" where
  "read_answer names start_line end_line requested content =
     (let all_lines = str_lines content;
          start_idx = min (start_line - 1) (length all_lines); end_idx = min end_line (length all_lines);
          selected = take (end_idx - start_idx) (drop start_idx all_lines);
          joined_lines = intercalate [10] selected; too_long = length joined_lines > MAX_READ_CHARS
      in JObj [(lit ''path'', JStr (shown_path names)), (lit ''start_line'', json_nat start_line),
           (lit ''end_line'', json_nat (if selected = [] then start_line - 1 else start_line + length selected - 1)),
           (lit ''total_lines'', json_nat (length all_lines)),
           (lit ''content'', JStr (if too_long then local_truncate_chars joined_lines MAX_READ_CHARS else joined_lines)),
           (lit ''truncated'', JBool (too_long \<or> \<not> requested \<and> length all_lines > end_line))])"

definition local_read_file :: "file_env \<Rightarrow> rstr \<Rightarrow> actor \<Rightarrow> json \<Rightarrow> json hone_result" where
  "local_read_file E base a args =
     (case read_range args of
        Inl e \<Rightarrow> Inl e
      | Inr (start_line, end_line) \<Rightarrow>
          (case resolve_file E base a (unwrap_or [] (get_str args (lit ''path''))) of
             Inl e \<Rightarrow> Inl e
           | Inr (names, file) \<Rightarrow>
               (case node_at E file of
                  Some (RegularFile bytes readable) \<Rightarrow>
                    (if \<not> readable then Inl (Io (fe_io_error E file))
                     else if 0 \<in> set bytes then Inl (Tool [21482, 25903, 25345, 35835, 21462, 25991, 26412, 25991, 20214])
                     else case from_utf8 bytes of
                       None \<Rightarrow> Inl (Tool [21482, 25903, 25345, 32, 85, 84, 70, 45, 56, 32, 25991, 26412, 25991, 20214])
                     | Some content \<Rightarrow> Inr (read_answer names start_line end_line (get_u64 args (lit ''end_line'') \<noteq> None) content))
                | _ \<Rightarrow> Inl (Io (fe_io_error E file)))))"

section \<open>Files of others\<close>

text \<open>Two states of the disk that differ only in the contents of files below a directory.\<close>

definition contents_changed_below :: "path \<Rightarrow> file_env \<Rightarrow> file_env \<Rightarrow> bool" where
  "contents_changed_below h E E' \<longleftrightarrow>
     (\<exists>n. E' = E\<lparr>fe_nodes := n\<rparr> \<and>
        (\<forall>p. n p = fe_nodes E p \<or> take (length h) p = h \<and> is_file_node (n p) \<and> is_file_node (fe_nodes E p)))"

text \<open>The directory of an actor below the real directory of the sandboxes, without links.\<close>

definition actor_home :: "path \<Rightarrow> actor \<Rightarrow> path" where
  "actor_home B a = B @ [channel_fs_component a, scoped_user_fs_key a]"

definition has_home :: "file_env \<Rightarrow> rstr \<Rightarrow> actor \<Rightarrow> path \<Rightarrow> bool" where
  "has_home E base a B \<longleftrightarrow>
     canonicalize E (path_components base) = Some B \<and> node_at E B = Some Directory \<and>
     fe_nodes E (B @ [channel_fs_component a]) = Some Directory \<and> fe_nodes E (actor_home B a) = Some Directory"

lemma contents_changedD:
  assumes "contents_changed_below h E E'"
  shows "fe_cwd E' = fe_cwd E" "fe_io_error E' = fe_io_error E" "fe_walk E' = fe_walk E" "fe_glob E' = fe_glob E"
    "fe_lowercase E' = fe_lowercase E"
    "fe_nodes E' p = fe_nodes E p \<or> take (length h) p = h \<and> is_file_node (fe_nodes E' p) \<and> is_file_node (fe_nodes E p)"
  using assms by (auto simp: contents_changed_below_def)

lemma is_file_nodeE:
  assumes "is_file_node n"
  obtains bytes readable where "n = Some (RegularFile bytes readable)"
  using assms by (auto simp: is_file_node_def split: option.splits fs_node.splits)

lemma follow_contents:
  assumes "contents_changed_below h E E'"
  shows "follow E' k p cs = follow E k p cs"
  using assms
proof (induction E k p cs rule: follow.induct)
  case (5 E k p n cs)
  consider "fe_nodes E' (p @ [n]) = fe_nodes E (p @ [n])"
    | "is_file_node (fe_nodes E' (p @ [n]))" "is_file_node (fe_nodes E (p @ [n]))"
    using contents_changedD(6) [OF "5.prems"] by blast
  then show ?case
  proof cases
    case 1
    then show ?thesis using 5 by (auto split: option.split fs_node.split nat.split)
  next
    case 2
    then show ?thesis by (auto elim!: is_file_nodeE)
  qed
qed simp_all

lemma follow_from_directory:
  assumes "follow E k p xs = Some B" "node_at E B = Some Directory"
  shows "\<exists>k'. \<forall>ys. follow E k p (xs @ ys) = follow E k' B ys"
  using assms
proof (induction E k p xs rule: follow.induct)
  case (5 E k p n cs)
  show ?case
  proof (cases "\<exists>target. fe_nodes E (p @ [n]) = Some (Symlink target)")
    case True
    then obtain target where t: "fe_nodes E (p @ [n]) = Some (Symlink target)" by blast
    then obtain j where j: "k = Suc j" "follow E j p (path_components target @ cs) = Some B"
      using "5.prems"(1) by (auto split: nat.splits)
    obtain k' where "\<forall>ys. follow E j p (path_components target @ cs @ ys) = follow E k' B ys"
      using "5.IH"(2) [OF t refl j(1,2) "5.prems"(2)] by auto
    then show ?thesis using t j(1) by (intro exI [of _ k']) simp
  next
    case False
    then have "fe_nodes E (p @ [n]) = Some Directory"
      using "5.prems" by (auto simp: node_at_def split: option.splits fs_node.splits if_splits)
    then show ?thesis using 5 by simp
  qed
qed auto

lemma plain_component:
  assumes "47 \<notin> set s" "46 \<notin> set s" "s \<noteq> []"
  shows "path_components s = [NormalComp s]"
proof -
  have "split_by (\<lambda>c. c = 47) s = [s]" using assms(1) by (intro split_by_none) auto
  moreover have "\<not> starts_with s (lit ''/'')" using assms(1) by (auto simp: starts_with_iff str_eval)
  moreover have "s \<noteq> lit ''.''" "s \<noteq> lit ''..''" using assms(2) by (auto simp: str_eval)
  ultimately show ?thesis using assms(3) by (simp add: path_components_def)
qed

lemma encode_byte_plain: "46 \<notin> set (encode_byte b)" "47 \<notin> set (encode_byte b)"
  by (auto simp: encode_byte_def is_key_byte_def is_ascii_alnum_def is_ascii_upper_def is_ascii_lower_def is_digit_def hex_char_def)

lemma encode_component_plain: "46 \<notin> set (encode_component s)" "47 \<notin> set (encode_component s)"
  using encode_byte_plain by (auto simp: encode_component_def)

lemma sandbox_root_components:
  assumes "wf_actor a"
  shows "sandbox_root base a =
    path_components base @ [NormalComp (channel_fs_component a), NormalComp (scoped_user_fs_key a)]"
proof -
  have "a_channel a \<noteq> []" using assms by (auto simp: wf_actor_def trimmed_def)
  then have "path_components (channel_fs_component a) = [NormalComp (channel_fs_component a)]"
    by (intro plain_component) (simp_all add: channel_fs_component_def encode_component_plain)
  moreover have "path_components (scoped_user_fs_key a) = [NormalComp (scoped_user_fs_key a)]"
    by (intro plain_component) (simp_all add: scoped_user_fs_key_def encode_component_plain sep_eq)
  ultimately show ?thesis by (simp add: sandbox_root_def)
qed

lemma canonical_home:
  assumes "wf_actor a" "has_home E base a B"
  shows "canonicalize E (sandbox_root base a) = Some (actor_home B a)"
proof -
  obtain k' where "follow E MAX_LINKS (fe_cwd E) (path_components base @ ys) = follow E k' B ys" for ys
    using follow_from_directory assms(2) unfolding has_home_def canonicalize_def by blast
  then show ?thesis using assms(2)
    by (simp add: sandbox_root_components [OF assms(1)] canonicalize_def has_home_def actor_home_def)
qed

text \<open>Below the directory of one actor, nothing is changed by another.\<close>

lemma homes_differ:
  assumes "storage_key a \<noteq> storage_key b" "take (length (actor_home B a)) p = actor_home B a"
  shows "take (length (actor_home B b)) p \<noteq> actor_home B b"
proof -
  have "actor_home B a \<noteq> actor_home B b"
    using assms(1) by (auto simp: actor_home_def storage_key_def channel_fs_component_def scoped_user_fs_key_def)
  then show ?thesis using assms(2) by (auto simp: actor_home_def)
qed

lemma own_node:
  assumes "contents_changed_below (actor_home B b) E E'" "storage_key a \<noteq> storage_key b"
    "take (length (actor_home B a)) p = actor_home B a"
  shows "fe_nodes E' p = fe_nodes E p" "node_at E' p = node_at E p"
  using contents_changedD(6) [OF assms(1), of p] homes_differ [OF assms(2,3)] by (auto simp: node_at_def)

lemma same_canonical: "contents_changed_below h E E' \<Longrightarrow> canonicalize E' cs = canonicalize E cs"
  by (simp add: canonicalize_def follow_contents contents_changedD)

lemma same_link: "contents_changed_below h E E' \<Longrightarrow> is_symlink E' base a names = is_symlink E base a names"
  (is "?A \<Longrightarrow> _")
proof -
  assume c: ?A
  have "(case fe_nodes E' p of Some (Symlink _) \<Rightarrow> True | _ \<Rightarrow> False) = (case fe_nodes E p of Some (Symlink _) \<Rightarrow> True | _ \<Rightarrow> False)" for p
    using contents_changedD(6) [OF c, of p] by (auto elim!: is_file_nodeE)
  then show ?thesis
    by (cases "canonicalize E (joined_path base a (butlast names))") (simp_all add: is_symlink_def same_canonical [OF c])
qed

lemma same_ensure: "contents_changed_below h E E' \<Longrightarrow> ensure_path_within_root E' base a cs = ensure_path_within_root E base a cs"
  by (simp add: ensure_path_within_root_def same_canonical contents_changedD split: option.split)

lemma same_directory:
  assumes "contents_changed_below h E E'"
  shows "resolve_directory E' base a raw = resolve_directory E base a raw"
proof -
  have "node_at E' p = Some Directory \<longleftrightarrow> node_at E p = Some Directory" for p
    using contents_changedD(6) [OF assms, of p] by (auto simp: node_at_def elim!: is_file_nodeE)
  then show ?thesis by (simp add: resolve_directory_def same_canonical [OF assms] same_link [OF assms] same_ensure [OF assms]
    split: sum.split prod.split)
qed

lemma same_file:
  assumes "contents_changed_below h E E'"
  shows "resolve_file E' base a raw = resolve_file E base a raw"
proof -
  have "is_file_node (node_at E' p) \<longleftrightarrow> is_file_node (node_at E p)" for p
    using contents_changedD(6) [OF assms, of p] by (auto simp: node_at_def)
  then show ?thesis by (simp add: resolve_file_def same_canonical [OF assms] same_link [OF assms] same_ensure [OF assms]
    split: sum.split prod.split)
qed

text \<open>What is resolved lies in the directory of the actor.\<close>

lemma ensured_within:
  assumes "ensure_path_within_root E base a cs = Inr (home, p)"
  shows "canonicalize E (sandbox_root base a) = Some home \<and> take (length home) p = home"
  using assms by (auto simp: ensure_path_within_root_def split: option.splits if_splits)

lemma resolved_directory_within:
  assumes "resolve_directory E base a raw = Inr (names, home, dir)"
  shows "canonicalize E (sandbox_root base a) = Some home \<and> take (length home) dir = home"
  using assms ensured_within by (auto simp: resolve_directory_def split: sum.splits if_splits)

lemma resolved_file_within:
  assumes "resolve_file E base a raw = Inr (names, p)" "canonicalize E (sandbox_root base a) = Some home"
  shows "take (length home) p = home"
  using assms ensured_within by (fastforce simp: resolve_file_def split: sum.splits if_splits)

lemma same_within:
  assumes "contents_changed_below (actor_home B b) E E'" "storage_key a \<noteq> storage_key b"
  shows "list_path E' pattern (actor_home B a) p = list_path E pattern (actor_home B a) p"
    and "search_file E' query limit pattern (actor_home B a) p s = search_file E query limit pattern (actor_home B a) p s"
proof -
  let ?h = "actor_home B a"
  consider "node_at E' p = node_at E p"
    | "take (length ?h) p \<noteq> ?h" "is_file_node (node_at E' p)" "is_file_node (node_at E p)"
  proof (cases "node_at E' p = node_at E p")
    case False
    then have "take (length ?h) p \<noteq> ?h" using own_node(2) [OF assms, of p] by blast
    moreover have "p \<noteq> []" using False by (auto simp: node_at_def)
    ultimately show ?thesis using contents_changedD(6) [OF assms(1), of p] False that(2) by (simp add: node_at_def)
  qed
  note cases = this
  show "list_path E' pattern ?h p = list_path E pattern ?h p"
    using cases by cases (auto simp: list_path_def relative_to_root_def elim!: is_file_nodeE)
  have lines: "search_lines E' query limit rel n ls s = search_lines E query limit rel n ls s" for rel n ls s
    by (induction ls arbitrary: n s) (auto simp: contents_changedD(5) [OF assms(1)] Let_def split: option.split)
  show "search_file E' query limit pattern ?h p s = search_file E query limit pattern ?h p s"
    using cases
  proof cases
    case 1
    then show ?thesis by (simp add: search_file_def lines cong: if_cong split: option.split fs_node.split)
  next
    case 2
    then show ?thesis by (auto simp: search_file_def relative_to_root_def elim!: is_file_nodeE)
  qed
qed

lemma same_lists:
  assumes "contents_changed_below (actor_home B b) E E'" "storage_key a \<noteq> storage_key b"
  shows "list_entries E' pattern (actor_home B a) ps = list_entries E pattern (actor_home B a) ps"
    and "search_files E' query limit pattern (actor_home B a) ps s = search_files E query limit pattern (actor_home B a) ps s"
  by (induction ps arbitrary: s) (simp_all add: same_within [OF assms] split: sum.split)

lemma same_single:
  assumes "contents_changed_below h E E'"
  shows "search_single E' query limit rel n ls found = search_single E query limit rel n ls found"
  by (induction ls arbitrary: n found) (auto simp: contents_changedD(2,5) [OF assms] Let_def split: option.split)

lemma same_pattern: "contents_changed_below h E E' \<Longrightarrow> glob_pattern E' raw = glob_pattern E raw"
  by (simp add: glob_pattern_def contents_changedD split: option.split)

section \<open>Properties\<close>

text \<open>C8: The files of other actors cannot be seen: whatever another actor writes into the files of his directory, what the
  tools list, find and read for an actor is the same, whatever path, query or pattern the model asks for, and whatever
  links there are. (The directory of the actor is a real one below the real directory of the sandboxes.)\<close>

theorem other_actors_invisible:
  assumes "wf_actor a" "storage_key a \<noteq> storage_key b" "has_home E base a B"
    "contents_changed_below (actor_home B b) E E'"
  shows "local_list_files E' base a args = local_list_files E base a args \<and>
    local_search_files E' base a args = local_search_files E base a args \<and>
    local_read_file E' base a args = local_read_file E base a args"
proof (intro conjI)
  note c = assms(4) and home = canonical_home [OF assms(1,3)]
  note same = same_directory [OF c] same_file [OF c] same_pattern [OF c] contents_changedD(2-5) [OF c]
  have dir: "h = actor_home B a" if "resolve_directory E base a raw = Inr (names, h, d)" for raw names h d
    using resolved_directory_within [OF that] home by simp
  have content: "node_at E' p = node_at E p" if "resolve_file E base a raw = Inr (names, p)" for raw names p
    using own_node(2) [OF c assms(2)] resolved_file_within [OF that home] by blast
  show "local_list_files E' base a args = local_list_files E base a args"
    by (auto simp: local_list_files_def same Let_def same_lists [OF c assms(2)] dest!: dir split: sum.split)
  show "local_read_file E' base a args = local_read_file E base a args"
    by (auto simp: local_read_file_def same content split: sum.split prod.split option.split fs_node.split)
  show "local_search_files E' base a args = local_search_files E base a args"
    by (auto simp: local_search_files_def same Let_def same_lists [OF c assms(2)] same_single [OF c] content dest!: dir
        split: sum.split prod.split option.split fs_node.split)
qed

text \<open>A disk with a note of Ann and one of Bob.\<close>

definition sample_disk :: "rstr \<Rightarrow> file_env" where
  "sample_disk secret =
     \<lparr>fe_nodes = map_of
        [([lit ''b''], Directory), ([lit ''b'', lit ''w''], Directory), ([lit ''b'', lit ''w'', lit ''direct__u1''], Directory),
         ([lit ''b'', lit ''w'', lit ''direct__u1'', lit ''n''], RegularFile (lit ''mine'') True),
         ([lit ''b'', lit ''w'', lit ''direct__u1'', lit ''l''], Symlink (lit ''../direct__u2'')),
         ([lit ''b'', lit ''w'', lit ''direct__u2''], Directory),
         ([lit ''b'', lit ''w'', lit ''direct__u2'', lit ''n''], RegularFile secret True)],
      fe_cwd = [], fe_io_error = \<lambda>_. [], fe_walk = \<lambda>p _. [p], fe_glob = \<lambda>_. Inl [], fe_lowercase = id\<rparr>"

definition sample_user :: "rstr \<Rightarrow> actor" where
  "sample_user u = \<lparr>a_channel = lit ''w'', a_user_id = u, a_channel_scope = None\<rparr>"

lemma sample_keys:
  "channel_fs_component (sample_user (lit ''u1'')) = lit ''w''" "scoped_user_fs_key (sample_user (lit ''u1'')) = lit ''direct__u1''"
  "channel_fs_component (sample_user (lit ''u2'')) = lit ''w''" "scoped_user_fs_key (sample_user (lit ''u2'')) = lit ''direct__u2''"
  by (simp_all add: channel_fs_component_def scoped_user_fs_key_def sample_user_def scope_or_direct_def encode_component_def
      encode_byte_def is_key_byte_def sep_eq str_eval)

lemma other_actors_invisible_witness:
  "local_read_file (sample_disk (lit ''hers'')) (lit ''/b'') (sample_user (lit ''u1'')) (JObj [(lit ''path'', JStr (lit ''l/n''))]) =
   local_read_file (sample_disk (lit ''his'')) (lit ''/b'') (sample_user (lit ''u1'')) (JObj [(lit ''path'', JStr (lit ''l/n''))])"
proof -
  let ?a = "sample_user (lit ''u1'')" and ?b = "sample_user (lit ''u2'')" and ?E = "sample_disk (lit ''his'')"
    and ?E' = "sample_disk (lit ''hers'')"
  have base: "path_components (lit ''/b'') = [RootDir, NormalComp (lit ''b'')]"
    by (simp add: path_components_def str_eval)
  have w: "wf_actor ?a" by (simp add: sample_user_def wf_actor_def trimmed_def str_eval)
  have k: "storage_key ?a \<noteq> storage_key ?b"
    by (simp add: storage_key_def sample_user_def scope_or_direct_def encode_component_def encode_byte_def is_key_byte_def sep_eq str_eval)
  have h: "has_home ?E (lit ''/b'') ?a [lit ''b'']"
    unfolding has_home_def actor_home_def canonicalize_def base sample_keys
    by (simp add: node_at_def sample_disk_def str_eval)
  have c: "contents_changed_below (actor_home [lit ''b''] ?b) ?E ?E'"
    unfolding contents_changed_below_def actor_home_def sample_keys
    by (rule exI [of _ "fe_nodes ?E'"]) (auto simp: sample_disk_def is_file_node_def str_eval)
  show ?thesis using other_actors_invisible [OF w k h c] by blast
qed

end
