(* ===== verification/Object_Store.thy ===== *)
theory Object_Store
  imports Local_Files Outbound
begin

text \<open>
  The object store of the cloud mode: the keys and addresses of \<^verbatim>\<open>OssObjectStore\<close> in
  \<^verbatim>\<open>hone-core/src/cloud_runtime.rs\<close>, and the file tools on it in \<^verbatim>\<open>hone-tools/src/local_files.rs\<close>. The service
  itself is a parameter: its objects, and the listing it answers with.
\<close>

section \<open>Keys\<close>

definition is_key_char :: "nat \<Rightarrow> bool" where
  "is_key_char c \<longleftrightarrow> is_ascii_alnum c \<or> c \<in> {45, 95, 46}"

definition sanitize_key_component :: "rstr \<Rightarrow> rstr" where
  "sanitize_key_component raw =
     (let trimmed = trim_matches (\<lambda>c. c = 45) (map (\<lambda>c. if is_key_char c then c else 45) raw)
      in if trimmed = [] then lit ''unknown'' else trimmed)"

definition sanitize_prefix :: "rstr \<Rightarrow> rstr" where
  "sanitize_prefix raw =
     (let trimmed = trim_matches (\<lambda>c. c = 47) (trim raw) in if trimmed = [] then lit ''public-uploads'' else trimmed)"

record object_store =
  os_bucket :: rstr
  os_public_upload_prefix :: rstr
  os_objects :: "rstr \<Rightarrow> nat list option"
  os_listing :: "(rstr \<Rightarrow> nat list option) \<Rightarrow> rstr \<Rightarrow> nat \<Rightarrow> rstr + rstr"
  os_get_error :: "rstr \<Rightarrow> rstr"
  os_lowercase :: "rstr \<Rightarrow> rstr"

definition object_uri :: "object_store \<Rightarrow> rstr \<Rightarrow> rstr" where
  "object_uri S key = lit ''oss://'' @ os_bucket S @ [47] @ dropWhile (\<lambda>c. c = 47) key"

definition actor_prefix :: "actor \<Rightarrow> rstr" where
  "actor_prefix a = lit ''users/'' @ sanitize_key_component (storage_key a) @ [47]"

definition actor_upload_key :: "actor \<Rightarrow> rstr \<Rightarrow> rstr \<Rightarrow> rstr" where
  "actor_upload_key a sid stored_name =
     actor_prefix a @ lit ''uploads/'' @ sanitize_key_component sid @ [47] @ sanitize_key_component stored_name"

definition actor_document_key :: "actor \<Rightarrow> rstr \<Rightarrow> rstr \<Rightarrow> rstr" where
  "actor_document_key a kind i =
     actor_prefix a @ lit ''documents/'' @ sanitize_key_component kind @ [47] @ sanitize_key_component i"

definition public_upload_key :: "object_store \<Rightarrow> rstr \<Rightarrow> rstr \<Rightarrow> rstr \<Rightarrow> rstr" where
  "public_upload_key S user_id day stored_name =
     os_public_upload_prefix S @ [47] @ sanitize_key_component user_id @ [47] @ sanitize_key_component day @ [47]
     @ sanitize_key_component stored_name"

definition parse_oss_uri :: "rstr \<Rightarrow> (rstr \<times> rstr) option" where
  "parse_oss_uri raw =
     (case strip_prefix (lit ''oss://'') (trim raw) of
        None \<Rightarrow> None
      | Some rest \<Rightarrow>
          (case split_once [47] rest of
             None \<Rightarrow> None
           | Some (bucket, key) \<Rightarrow>
               if bucket = [] \<or> trim_matches (\<lambda>c. c = 47) key = [] then None
               else Some (bucket, dropWhile (\<lambda>c. c = 47) key)))"

definition is_public_upload_uri_for_user :: "object_store \<Rightarrow> rstr \<Rightarrow> rstr \<Rightarrow> bool" where
  "is_public_upload_uri_for_user S raw user_id \<longleftrightarrow>
     (case parse_oss_uri raw of
        None \<Rightarrow> False
      | Some (bucket, key) \<Rightarrow>
          bucket = os_bucket S \<and> starts_with key (os_public_upload_prefix S @ [47] @ sanitize_key_component user_id @ [47]))"

definition parse_managed_uri :: "object_store \<Rightarrow> rstr \<Rightarrow> rstr option" where
  "parse_managed_uri S raw =
     (case parse_oss_uri raw of
        None \<Rightarrow> None
      | Some (bucket, key) \<Rightarrow> if bucket = os_bucket S then Some key else None)"

section \<open>Requests\<close>

text \<open>The answer of a listing is searched for its keys.\<close>

function split_str :: "rstr \<Rightarrow> rstr \<Rightarrow> rstr list" where
  "split_str p s =
     (case split_once p s of
        Some (a, b) \<Rightarrow> if p = [] then [s] else a # split_str p b
      | None \<Rightarrow> [s])"
  by pat_completeness auto
termination
  by (relation "measure (length \<circ> snd)") (auto dest!: split_once_Some(1))

declare split_str.simps [simp del]

definition listed_keys :: "rstr \<Rightarrow> rstr list" where
  "listed_keys body = List.map_filter (\<lambda>chunk. map_option fst (split_once (lit ''</Key>'') chunk)) (tl (split_str (lit ''<Key>'') body))"

definition list_objects :: "object_store \<Rightarrow> rstr \<Rightarrow> nat \<Rightarrow> rstr list hone_result" where
  "list_objects S prefix max_keys =
     map_sum Tool listed_keys (os_listing S (os_objects S) (dropWhile (\<lambda>c. c = 47) prefix) (max max_keys 1))"

definition get_object :: "object_store \<Rightarrow> rstr \<Rightarrow> nat list hone_result" where
  "get_object S key = (case os_objects S key of Some bytes \<Rightarrow> Inr bytes | None \<Rightarrow> Inl (Tool (os_get_error S key)))"

section \<open>The file tools\<close>

definition normalize_oss_relative_path :: "rstr \<Rightarrow> rstr hone_result" where
  "normalize_oss_relative_path raw =
     (let trimmed = trim raw; input = (if trimmed = [] then lit ''.'' else trimmed) in
      if starts_with input [47] then Inl (Tool [21482, 20801, 35768, 35775, 38382, 24403, 21069, 32, 97, 99, 116, 111, 114, 32, 79, 83, 83, 32, 115, 97, 110,
    100, 98, 111, 120, 32, 20869, 30340, 30456, 23545, 36335, 24452])
      else case plain_names (path_components input) of
        None \<Rightarrow> Inl (Tool [36335, 24452, 19981, 33021, 21253, 21547, 32477, 23545, 36335, 24452, 12289, 46, 46, 32, 25110, 36328, 32,
    115, 97, 110, 100, 98, 111, 120, 32, 30340, 21069, 32512])
      | Some names \<Rightarrow> Inr (intercalate [47] names))"

definition shown_or_dot :: "rstr \<Rightarrow> rstr" where
  "shown_or_dot p = (if p = [] then lit ''.'' else p)"

definition within_actor :: "actor \<Rightarrow> rstr \<Rightarrow> rstr" where
  "within_actor a key = unwrap_or key (strip_prefix (actor_prefix a) key)"

definition oss_entry :: "object_store \<Rightarrow> actor \<Rightarrow> rstr \<Rightarrow> json" where
  "oss_entry S a key =
     JObj [(lit ''path'', JStr (within_actor a key)), (lit ''kind'', JStr (lit ''file'')), (lit ''backend'', JStr (lit ''oss'')),
       (lit ''uri'', JStr (object_uri S key))]"

definition execute_oss_list :: "object_store \<Rightarrow> actor \<Rightarrow> json \<Rightarrow> json hone_result" where
  "execute_oss_list S a args =
     (case normalize_oss_relative_path (unwrap_or (lit ''.'') (get_str args (lit ''path''))) of
        Inl e \<Rightarrow> Inl e
      | Inr path \<Rightarrow>
          (let max_results = unwrap_or DEFAULT_LIST_MAX_RESULTS (get_u64 args (lit ''max_results''));
               prefix = actor_prefix a @ trim_matches (\<lambda>c. c = 47) path;
               prefix = (if ends_with prefix [47] \<or> path = [] then prefix else prefix @ [47])
           in case list_objects S prefix ((max_results + 1) mod 2 ^ 64) of
                Inl e \<Rightarrow> Inl e
              | Inr keys \<Rightarrow>
                  (let shown = take max_results keys
                   in Inr (JObj [(lit ''path'', JStr (shown_or_dot path)), (lit ''entries'', JArr (map (oss_entry S a) shown)),
                        (lit ''count'', json_nat (length shown)), (lit ''truncated'', JBool (length keys > max_results))]))))"

definition path_extension :: "rstr \<Rightarrow> rstr" where
  "path_extension key =
     (case rev (path_components key) of
        NormalComp name # _ \<Rightarrow>
          (let ext = rev (takeWhile (\<lambda>c. c \<noteq> 46) (rev name)) in
           if length ext + 1 < length name then ext else [])
      | _ \<Rightarrow> [])"

definition is_text_like_key :: "rstr \<Rightarrow> bool" where
  "is_text_like_key key \<longleftrightarrow>
     to_ascii_lowercase (path_extension key) \<in> set (map lit [''md'', ''txt'', ''json'', ''csv'', ''yaml'', ''yml''])"

definition oss_match :: "object_store \<Rightarrow> rstr \<Rightarrow> rstr \<Rightarrow> nat \<Rightarrow> rstr \<Rightarrow> json" where
  "oss_match S key rel line_no line =
     JObj [(lit ''path'', JStr rel), (lit ''line'', json_nat line_no),
       (lit ''excerpt'', JStr (local_truncate_chars (trim line) MAX_SEARCH_EXCERPT_CHARS)), (lit ''backend'', JStr (lit ''oss'')),
       (lit ''uri'', JStr (object_uri S key))]"

fun oss_search_lines :: "object_store \<Rightarrow> rstr \<Rightarrow> nat \<Rightarrow> rstr \<Rightarrow> rstr \<Rightarrow> nat \<Rightarrow> rstr list \<Rightarrow> json list \<Rightarrow> json list" where
  "oss_search_lines S query limit key rel n [] found = found"
| "oss_search_lines S query limit key rel n (line # rest) found =
     (if \<not> contains_str (os_lowercase S line) query then oss_search_lines S query limit key rel (Suc n) rest found
      else
        (let found = found @ [oss_match S key rel n line]
         in if length found \<ge> limit then found else oss_search_lines S query limit key rel (Suc n) rest found))"

text \<open>What one object adds: nothing when it is not text, cannot be read, or is too large.\<close>

definition oss_search_key :: "object_store \<Rightarrow> actor \<Rightarrow> rstr \<Rightarrow> nat \<Rightarrow> rstr \<Rightarrow> json list \<Rightarrow> json list" where
  "oss_search_key S a query limit key found =
     (if \<not> is_text_like_key key then found
      else case get_object S key of
        Inl _ \<Rightarrow> found
      | Inr bytes \<Rightarrow>
          if length bytes > MAX_SEARCH_FILE_BYTES \<or> 0 \<in> set bytes then found
          else (case from_utf8 bytes of
              None \<Rightarrow> found
            | Some content \<Rightarrow> oss_search_lines S query limit key (within_actor a key) 1 (str_lines content) found))"

primrec oss_search_keys :: "object_store \<Rightarrow> actor \<Rightarrow> rstr \<Rightarrow> nat \<Rightarrow> rstr list \<Rightarrow> json list \<Rightarrow> json list" where
  "oss_search_keys S a query limit [] found = found"
| "oss_search_keys S a query limit (key # keys) found =
     (if length found \<ge> limit then found
      else oss_search_keys S a query limit keys (oss_search_key S a query limit key found))"

definition execute_oss_search :: "object_store \<Rightarrow> actor \<Rightarrow> json \<Rightarrow> json hone_result" where
  "execute_oss_search S a args =
     (let query = trim (unwrap_or [] (get_str args (lit ''query''))) in
      if query = [] then Inl (Tool [113, 117, 101, 114, 121, 32, 19981, 33021, 20026, 31354])
      else case normalize_oss_relative_path (unwrap_or (lit ''.'') (get_str args (lit ''path''))) of
        Inl e \<Rightarrow> Inl e
      | Inr path \<Rightarrow>
          (let limit = unwrap_or DEFAULT_SEARCH_MAX_RESULTS (get_u64 args (lit ''max_results''));
               prefix = actor_prefix a @ trim_matches (\<lambda>c. c = 47) path
           in case list_objects S prefix (max (min (limit * 5) (2 ^ 64 - 1)) 10) of
                Inl e \<Rightarrow> Inl e
              | Inr keys \<Rightarrow>
                  (let found = oss_search_keys S a (os_lowercase S query) limit keys []
                   in Inr (JObj [(lit ''query'', JStr query), (lit ''path'', JStr (shown_or_dot path)), (lit ''matches'', JArr found),
                        (lit ''count'', json_nat (length found)), (lit ''truncated'', JBool (length found \<ge> limit))]))))"

definition execute_oss_read :: "object_store \<Rightarrow> actor \<Rightarrow> json \<Rightarrow> json hone_result" where
  "execute_oss_read S a args =
     (case normalize_oss_relative_path (unwrap_or [] (get_str args (lit ''path''))) of
        Inl e \<Rightarrow> Inl e
      | Inr path \<Rightarrow>
          (let start_line = unwrap_or DEFAULT_READ_START_LINE (get_u64 args (lit ''start_line''));
               requested = get_u64 args (lit ''end_line'');
               default_end = (start_line + DEFAULT_READ_MAX_LINES - 1) mod 2 ^ 64;
               end_line = min (unwrap_or default_end requested) default_end; key = actor_prefix a @ path
           in if path = [] then Inl (Tool [35831, 25552, 20379, 20855, 20307, 25991, 20214, 36335, 24452])
              else if start_line = 0 then Inl (Tool [115, 116, 97, 114, 116, 95, 108, 105, 110, 101, 32, 24517, 39035, 20174, 32, 49, 32, 24320, 22987])
              else case get_object S key of
                Inl e \<Rightarrow> Inl e
              | Inr bytes \<Rightarrow>
                  if 0 \<in> set bytes then Inl (Tool [21482, 25903, 25345, 35835, 21462, 25991, 26412, 25991, 20214])
                  else (case from_utf8 bytes of
                      None \<Rightarrow> Inl (Tool [21482, 25903, 25345, 32, 85, 84, 70, 45, 56, 32, 25991, 26412, 25991, 20214])
                    | Some content \<Rightarrow>
                        Inr (case read_answer [path] start_line end_line (requested \<noteq> None) content of
                            JObj (shown # rest) \<Rightarrow>
                              JObj ([shown, (lit ''backend'', JStr (lit ''oss'')), (lit ''uri'', JStr (object_uri S key))] @ rest)
                          | other \<Rightarrow> other))))"

section \<open>Whose object a key is\<close>

lemma dropWhile_set: "x \<in> set (dropWhile P xs) \<Longrightarrow> x \<in> set xs"
  by (induction xs) (auto split: if_splits)

lemma trim_matches_set: "x \<in> set (trim_matches P xs) \<Longrightarrow> x \<in> set xs"
  by (auto simp: trim_matches_def dest!: dropWhile_set)

lemma sanitized_no_slash: "47 \<notin> set (sanitize_key_component raw)"
proof -
  have "\<not> is_key_char 47" by (simp add: is_key_char_def is_ascii_alnum_def is_ascii_upper_def is_ascii_lower_def is_digit_def)
  then have "47 \<notin> set (map (\<lambda>c. if is_key_char c then c else 45) raw)" by auto
  then have "47 \<notin> set (trim_matches (\<lambda>c. c = 45) (map (\<lambda>c. if is_key_char c then c else 45) raw))"
    using trim_matches_set by metis
  then show ?thesis unfolding sanitize_key_component_def Let_def by (simp add: str_eval del: set_map)
qed

lemma sanitized_nonempty: "sanitize_key_component raw \<noteq> []"
  by (simp add: sanitize_key_component_def Let_def str_eval)

text \<open>A part of a path and its slash: where the next begins is told by the slash.\<close>

lemma part_starts_with:
  assumes "47 \<notin> set p" "47 \<notin> set q"
  shows "starts_with (p @ 47 # r) (q @ [47]) \<longleftrightarrow> p = q"
proof
  assume "starts_with (p @ 47 # r) (q @ [47])"
  then obtain t where t: "p @ 47 # r = q @ 47 # t" by (auto simp: starts_with_iff)
  have "takeWhile (\<lambda>c. c \<noteq> 47) (x @ 47 # y) = x" if "47 \<notin> set x" for x :: rstr and y
    using that by (induction x) auto
  then show "p = q" using assms t by metis
qed (simp add: starts_with_iff)

lemma starts_with_same_front: "starts_with (p @ r) (p @ q) \<longleftrightarrow> starts_with r q"
  by (simp add: starts_with_iff)

lemma under_prefix:
  "starts_with (actor_prefix a @ r) (actor_prefix b) \<longleftrightarrow>
     sanitize_key_component (storage_key a) = sanitize_key_component (storage_key b)"
  using part_starts_with [OF sanitized_no_slash sanitized_no_slash] by (simp add: actor_prefix_def starts_with_same_front)

lemma sanitized_chars: "c \<in> set (sanitize_key_component raw) \<Longrightarrow> is_key_char c"
proof -
  let ?k = "map (\<lambda>c. if is_key_char c then c else 45) raw"
  assume "c \<in> set (sanitize_key_component raw)"
  then have "c \<in> set (trim_matches (\<lambda>c. c = 45) ?k) \<or> c \<in> set (lit ''unknown'')"
    unfolding sanitize_key_component_def Let_def by (cases "trim_matches (\<lambda>c. c = 45) ?k = []") simp_all
  moreover have "is_key_char 45" by (simp add: is_key_char_def)
  then have "\<forall>x \<in> set ?k. is_key_char x" by auto
  moreover have "\<forall>x \<in> set (lit ''unknown''). is_key_char x"
    by (simp add: str_eval is_key_char_def is_ascii_alnum_def is_ascii_lower_def)
  ultimately show "is_key_char c" using trim_matches_set by blast
qed

section \<open>Isolation\<close>

text \<open>What the services document: a listing is an XML text of keys with the prefix that was asked for, and depends on these
  objects only. A key is written as XML text, where a character such as an ampersand stands as an entity; letters, digits,
  dashes, dots, underscores and slashes stand for themselves. \<open>list_objects\<close> takes the keys as they are written.\<close>

definition lists_by_prefix :: "object_store \<Rightarrow> bool" where
  "lists_by_prefix S \<longleftrightarrow>
     (\<exists>esc. (\<forall>c. is_key_char c \<or> c = 47 \<longrightarrow> esc c = [c]) \<and>
        (\<forall>objects p n body. os_listing S objects p n = Inr body \<longrightarrow>
           list_all (\<lambda>written. \<exists>k. starts_with k p \<and> written = concat (map esc k)) (listed_keys body))) \<and>
     (\<forall>objects objects' p n. (\<forall>k. starts_with k p \<longrightarrow> objects' k = objects k) \<longrightarrow> os_listing S objects' p n = os_listing S objects p n)"

definition changed_below :: "rstr \<Rightarrow> object_store \<Rightarrow> object_store \<Rightarrow> bool" where
  "changed_below p S S' \<longleftrightarrow>
     (\<exists>objects. S' = S\<lparr>os_objects := objects\<rparr> \<and> (\<forall>k. \<not> starts_with k p \<longrightarrow> objects k = os_objects S k))"

definition others_changed :: "actor \<Rightarrow> actor \<Rightarrow> object_store \<Rightarrow> object_store \<Rightarrow> bool" where
  "others_changed a b S S' \<longleftrightarrow>
     changed_below (actor_prefix b) S S' \<and> lists_by_prefix S \<and>
     sanitize_key_component (storage_key a) \<noteq> sanitize_key_component (storage_key b)"

lemma same_service:
  assumes "others_changed a b S S'"
  shows "os_bucket S' = os_bucket S" "os_listing S' = os_listing S" "os_get_error S' = os_get_error S" "os_lowercase S' = os_lowercase S"
  using assms by (auto simp: others_changed_def changed_below_def)

lemma same_object:
  assumes "others_changed a b S S'"
  shows "os_objects S' (actor_prefix a @ r) = os_objects S (actor_prefix a @ r)"
  using assms by (auto simp: others_changed_def changed_below_def under_prefix)

lemma same_get:
  assumes "others_changed a b S S'" "starts_with k (actor_prefix a)"
  shows "get_object S' k = get_object S k"
  using assms(2) same_object [OF assms(1)] by (auto simp: get_object_def same_service [OF assms(1)] starts_with_iff split: option.split)

lemma actor_prefix_front: "dropWhile (\<lambda>c. c = 47) (actor_prefix a @ r) = actor_prefix a @ r"
  by (simp add: actor_prefix_def str_eval)

lemma same_listing:
  assumes "others_changed a b S S'"
  shows "list_objects S' (actor_prefix a @ r) n = list_objects S (actor_prefix a @ r) n"
proof -
  have "os_objects S' k = os_objects S k" if "starts_with k (actor_prefix a @ r)" for k
    using that same_object [OF assms] by (auto simp: starts_with_iff)
  then have "os_listing S (os_objects S') (actor_prefix a @ r) m = os_listing S (os_objects S) (actor_prefix a @ r) m" for m
    using assms by (auto simp: others_changed_def lists_by_prefix_def)
  then show ?thesis by (simp add: list_objects_def actor_prefix_front same_service [OF assms])
qed

lemma actor_prefix_chars: "c \<in> set (actor_prefix a) \<Longrightarrow> is_key_char c \<or> c = 47"
proof -
  have "\<forall>c \<in> set (lit ''users/''). is_key_char c \<or> c = 47"
    by (simp add: str_eval is_key_char_def is_ascii_alnum_def is_ascii_lower_def)
  then show "c \<in> set (actor_prefix a) \<Longrightarrow> is_key_char c \<or> c = 47" using sanitized_chars by (auto simp: actor_prefix_def)
qed

lemma written_below:
  assumes "\<forall>c. is_key_char c \<or> c = 47 \<longrightarrow> esc c = [c]" "starts_with k (actor_prefix a)"
  shows "starts_with (concat (map esc k)) (actor_prefix a)"
proof -
  have same: "concat (map esc s) = s" if "\<forall>c \<in> set s. esc c = [c]" for s using that by (induction s) auto
  obtain t where "k = actor_prefix a @ t" using assms(2) by (auto simp: starts_with_iff)
  moreover have "\<forall>c \<in> set (actor_prefix a). esc c = [c]" using assms(1) actor_prefix_chars by blast
  ultimately have "concat (map esc k) = actor_prefix a @ concat (map esc t)" using same by simp
  then show ?thesis by (simp add: starts_with_iff)
qed

lemma listed_below:
  assumes "others_changed a b S S'" "list_objects S (actor_prefix a @ r) n = Inr keys"
  shows "list_all (\<lambda>k. starts_with k (actor_prefix a)) keys"
proof -
  obtain body where b: "os_listing S (os_objects S) (actor_prefix a @ r) (max n 1) = Inr body" "keys = listed_keys body"
    using assms(2) by (cases "os_listing S (os_objects S) (actor_prefix a @ r) (max n 1)")
      (auto simp: list_objects_def actor_prefix_front)
  obtain esc where esc: "\<forall>c. is_key_char c \<or> c = 47 \<longrightarrow> esc c = [c]"
    "list_all (\<lambda>written. \<exists>k. starts_with k (actor_prefix a @ r) \<and> written = concat (map esc k)) keys"
    using assms(1) b unfolding others_changed_def lists_by_prefix_def by blast
  show ?thesis unfolding list_all_iff
  proof
    fix written assume "written \<in> set keys"
    then obtain k where k: "starts_with k (actor_prefix a @ r)" "written = concat (map esc k)" using esc(2) by (auto simp: list_all_iff)
    then have "starts_with k (actor_prefix a)" by (auto simp: starts_with_iff)
    then show "starts_with written (actor_prefix a)" unfolding k(2) by (rule written_below [OF esc(1)])
  qed
qed

lemma same_lines:
  assumes "others_changed a b S S'"
  shows "oss_search_lines S' query limit key rel n ls found = oss_search_lines S query limit key rel n ls found"
  by (induction ls arbitrary: n found) (simp_all add: same_service [OF assms] oss_match_def object_uri_def Let_def)

lemma same_keys:
  assumes "others_changed a b S S'" "list_all (\<lambda>k. starts_with k (actor_prefix a)) keys"
  shows "oss_search_keys S' a query limit keys found = oss_search_keys S a query limit keys found"
  using assms(2)
proof (induction keys arbitrary: found)
  case (Cons key keys)
  then have "oss_search_key S' a query limit key f = oss_search_key S a query limit key f" for f
    by (simp add: oss_search_key_def same_get [OF assms(1)] same_lines [OF assms(1)] split: sum.split option.split)
  then show ?case using Cons by simp
qed simp

section \<open>Properties\<close>

text \<open>C9: In the cloud mode, the files of other actors cannot be seen: whatever objects another actor has, what the tools list,
  find and read for an actor is the same, as long as the storage keys of the two differ in more than dashes at their
  ends. Of the service this asks that it lists by prefix, with the keys written as XML text.\<close>

theorem cloud_files_isolated:
  assumes "changed_below (actor_prefix b) S S'" "lists_by_prefix S"
    "sanitize_key_component (storage_key a) \<noteq> sanitize_key_component (storage_key b)"
  shows "execute_oss_list S' a args = execute_oss_list S a args \<and> execute_oss_search S' a args = execute_oss_search S a args \<and>
    execute_oss_read S' a args = execute_oss_read S a args"
proof (intro conjI)
  have o: "others_changed a b S S'" using assms by (simp add: others_changed_def)
  note same = same_listing [OF o] same_service [OF o]
  have uri: "object_uri S' = object_uri S" by (intro ext) (simp add: object_uri_def same)
  show "execute_oss_list S' a args = execute_oss_list S a args"
    by (simp add: execute_oss_list_def same oss_entry_def [abs_def] object_uri_def Let_def split: sum.split)
  show "execute_oss_search S' a args = execute_oss_search S a args"
    by (auto simp: execute_oss_search_def same Let_def same_keys [OF o listed_below [OF o]] split: sum.split)
  show "execute_oss_read S' a args = execute_oss_read S a args"
    using uri by (simp add: execute_oss_read_def same_get [OF o] Let_def
        cong: sum.case_cong option.case_cong if_cong json.case_cong list.case_cong)
qed

text \<open>An identity with a dash behind it has the same files.\<close>

definition dashed :: "actor \<Rightarrow> actor" where
  "dashed a = a\<lparr>a_user_id := a_user_id a @ [45]\<rparr>"

lemma trim_matches_behind:
  assumes "P x" "c \<in> set s" "\<not> P c"
  shows "trim_matches P (s @ [x]) = trim_matches P s"
  using assms by (auto simp: trim_matches_def dropWhile_append1 [of c s P])

lemma storage_key_dashed: "storage_key (dashed a) = storage_key a @ [45]"
  by (simp add: dashed_def storage_key_def scope_or_direct_def encode_component_def utf8_def utf8_char_def encode_byte_def
      is_key_byte_def)

lemma actor_prefix_dashed: "actor_prefix (dashed a) = actor_prefix a"
proof -
  let ?f = "\<lambda>c. if is_key_char c then c else 45"
  have "is_key_char 95" "\<not> 95 = (45 :: nat)" by (simp_all add: is_key_char_def)
  then have "95 \<in> set (map ?f (storage_key a))" by (force simp: storage_key_def sep_eq)
  then have "trim_matches (\<lambda>c. c = 45) (map ?f (storage_key a) @ [45]) = trim_matches (\<lambda>c. c = 45) (map ?f (storage_key a))"
    by (intro trim_matches_behind [of _ _ 95]) auto
  moreover have "?f 45 = 45" by simp
  ultimately show ?thesis by (simp add: actor_prefix_def storage_key_dashed sanitize_key_component_def del: set_map)
qed

text \<open>C10: Storage keys tell actors apart, object keys do not: a user whose id is that of another with a dash behind it has another
  storage key, but sees, finds and reads the files of the other in the cloud mode.\<close>

theorem trailing_dash_shares_files:
  "storage_key (dashed a) \<noteq> storage_key a \<and> execute_oss_list S (dashed a) args = execute_oss_list S a args \<and>
   execute_oss_search S (dashed a) args = execute_oss_search S a args \<and> execute_oss_read S (dashed a) args = execute_oss_read S a args"
proof (intro conjI)
  have within: "within_actor (dashed a) = within_actor a" by (intro ext) (simp add: within_actor_def actor_prefix_dashed)
  have one: "oss_search_key S (dashed a) query limit k found = oss_search_key S a query limit k found" for query limit k found
    by (simp add: oss_search_key_def within cong: sum.case_cong option.case_cong if_cong)
  have keys: "oss_search_keys S (dashed a) = oss_search_keys S a"
  proof (intro ext)
    show "oss_search_keys S (dashed a) query limit ks found = oss_search_keys S a query limit ks found" for query limit ks found
      by (induction ks arbitrary: found) (simp_all add: one)
  qed
  have entry: "oss_entry S (dashed a) = oss_entry S a"
    by (intro ext) (simp add: oss_entry_def within)
  show "storage_key (dashed a) \<noteq> storage_key a" by (simp add: storage_key_dashed)
  show "execute_oss_list S (dashed a) args = execute_oss_list S a args"
    by (simp add: execute_oss_list_def actor_prefix_dashed entry Let_def cong: sum.case_cong option.case_cong if_cong)
  show "execute_oss_search S (dashed a) args = execute_oss_search S a args"
    by (simp add: execute_oss_search_def actor_prefix_dashed keys Let_def cong: sum.case_cong option.case_cong if_cong)
  show "execute_oss_read S (dashed a) args = execute_oss_read S a args"
    by (simp add: execute_oss_read_def actor_prefix_dashed Let_def cong: sum.case_cong option.case_cong if_cong)
qed

lemma split_once_at: "c \<notin> set a \<Longrightarrow> split_once [c] (a @ c # b) = Some (a, b)"
  by (induction a) (auto simp: starts_with_iff)

lemma key_char_not_space: "is_key_char c \<Longrightarrow> \<not> is_whitespace c"
  by (auto simp: is_key_char_def is_ascii_alnum_def is_ascii_upper_def is_ascii_lower_def is_digit_def is_whitespace_def)

text \<open>C0: The address of a public upload is accepted for the user who uploaded it, and for another user only if their sanitized ids
  are the same.\<close>

theorem public_upload_owned:
  assumes "47 \<notin> set (os_bucket S)" "os_bucket S \<noteq> []" "os_public_upload_prefix S = sanitize_prefix raw"
  shows "is_public_upload_uri_for_user S (object_uri S (public_upload_key S user_id day stored_name)) other \<longleftrightarrow>
    sanitize_key_component user_id = sanitize_key_component other"
proof -
  let ?p = "sanitize_prefix raw" and ?s = sanitize_key_component
  let ?key = "?p @ [47] @ ?s user_id @ [47] @ ?s day @ [47] @ ?s stored_name"
  have p: "?p \<noteq> []" "hd ?p \<noteq> 47"
  proof -
    have "hd (trim_matches (\<lambda>c. c = 47) xs) \<noteq> 47" if "trim_matches (\<lambda>c. c = 47) xs \<noteq> []" for xs :: rstr
    proof -
      let ?d = "dropWhile (\<lambda>c. c = 47) xs"
      have d: "?d \<noteq> []" using that unfolding trim_matches_def by (metis dropWhile.simps(1) rev.simps(1))
      then have "hd ?d \<noteq> 47" by (rule dropWhile_not_head)
      moreover have "hd (trim_matches (\<lambda>c. c = 47) xs) = hd ?d"
      proof -
        obtain t where "rev (dropWhile (\<lambda>c. c = 47) (rev ?d)) @ t = ?d"
          by (metis rev_append rev_rev_ident takeWhile_dropWhile_id)
        then show ?thesis using that unfolding trim_matches_def by (metis hd_append2)
      qed
      ultimately show ?thesis by simp
    qed
    then show "?p \<noteq> []" "hd ?p \<noteq> 47" by (auto simp: sanitize_prefix_def Let_def str_eval)
  qed
  have front: "dropWhile (\<lambda>c. c = 47) (?p @ r) = ?p @ r" for r using p by (cases ?p) auto
  have uri: "object_uri S (public_upload_key S user_id day stored_name) = lit ''oss://'' @ os_bucket S @ [47] @ ?key"
    by (simp add: object_uri_def public_upload_key_def assms(3) front)
  have last: "\<not> is_whitespace (last (?s x))" for x
    using last_in_set [OF sanitized_nonempty, of x] sanitized_chars [of "last (?s x)" x] key_char_not_space by blast
  have trim: "trim (lit ''oss://'' @ os_bucket S @ [47] @ ?key) = lit ''oss://'' @ os_bucket S @ [47] @ ?key"
    by (rule trim_id) (use last [of stored_name] sanitized_nonempty [of stored_name] in \<open>simp add: str_eval is_whitespace_def\<close>)
  have key: "trim_matches (\<lambda>c. c = 47) ?key \<noteq> []"
  proof -
    have "hd ?p \<in> set (dropWhile (\<lambda>c. c = 47) ?key)" unfolding front using p(1) by (cases ?p) auto
    then show ?thesis using p(2) unfolding trim_matches_def rev_is_Nil_conv dropWhile_eq_Nil_conv set_rev by blast
  qed
  have "parse_oss_uri (object_uri S (public_upload_key S user_id day stored_name)) = Some (os_bucket S, ?key)"
    using key assms(2) split_once_at [OF assms(1), of ?key] front
    unfolding parse_oss_uri_def uri trim by simp
  then show ?thesis
    using part_starts_with [OF sanitized_no_slash sanitized_no_slash]
    by (simp add: is_public_upload_uri_for_user_def assms(3) starts_with_same_front)
qed

text \<open>A service with three objects; the name of one has an ampersand.\<close>

definition sample_object_keys :: "rstr list" where
  "sample_object_keys = [lit ''users/w__direct__u1/n.md'', lit ''users/w__direct__u1/a&b'', lit ''users/w__direct__u2/n.md'']"

definition xml_text :: "nat \<Rightarrow> rstr" where
  "xml_text c = (if c = 38 then lit ''&amp;'' else if c = 60 then lit ''&lt;'' else if c = 62 then lit ''&gt;'' else [c])"

definition listing_of :: "rstr list \<Rightarrow> rstr" where
  "listing_of ks = concat (map (\<lambda>k. lit ''<Key>'' @ concat (map xml_text k) @ lit ''</Key>'') ks)"

lemma sample_listing:
  "listed_keys (listing_of (filter P sample_object_keys)) = map (\<lambda>k. concat (map xml_text k)) (filter P sample_object_keys)"
  by (simp add: sample_object_keys_def listing_of_def listed_keys_def split_str.simps map_filter_simps xml_text_def str_eval)

definition sample_store :: "rstr \<Rightarrow> object_store" where
  "sample_store secret =
     \<lparr>os_bucket = lit ''b'', os_public_upload_prefix = lit ''public-uploads'',
      os_objects = map_of [(lit ''users/w__direct__u1/n.md'', lit ''mine''), (lit ''users/w__direct__u1/a&b'', lit ''too''),
        (lit ''users/w__direct__u2/n.md'', secret)],
      os_listing = (\<lambda>objects p n. Inr (listing_of (filter (\<lambda>k. starts_with k p \<and> objects k \<noteq> None) sample_object_keys))),
      os_get_error = (\<lambda>_. []), os_lowercase = id\<rparr>"

lemma sample_lists_by_prefix: "lists_by_prefix (sample_store secret)"
proof -
  have "\<forall>c. is_key_char c \<or> c = 47 \<longrightarrow> xml_text c = [c]"
    by (auto simp: xml_text_def is_key_char_def is_ascii_alnum_def is_ascii_lower_def is_ascii_upper_def is_digit_def)
  moreover have "list_all (\<lambda>written. \<exists>k. starts_with k p \<and> written = concat (map xml_text k))
      (listed_keys (listing_of (filter (\<lambda>k. starts_with k p \<and> objects k \<noteq> None) sample_object_keys)))" for p objects
    by (auto simp: sample_listing list_all_iff)
  ultimately show ?thesis
    by (auto simp: lists_by_prefix_def sample_store_def intro!: exI [of _ xml_text] arg_cong [of _ _ listing_of] filter_cong)
qed

lemma cloud_files_isolated_witness:
  "execute_oss_read (sample_store (lit ''hers'')) (sample_user (lit ''u1'')) (JObj [(lit ''path'', JStr (lit ''n.md''))]) =
   execute_oss_read (sample_store (lit ''his'')) (sample_user (lit ''u1'')) (JObj [(lit ''path'', JStr (lit ''n.md''))])"
proof -
  let ?a = "sample_user (lit ''u1'')" and ?b = "sample_user (lit ''u2'')" and ?S = "sample_store (lit ''his'')"
    and ?S' = "sample_store (lit ''hers'')"
  have keys: "storage_key ?a = lit ''w__direct__u1''" "storage_key ?b = lit ''w__direct__u2''"
    by (simp_all add: storage_key_def sample_user_def scope_or_direct_def encode_component_def encode_byte_def is_key_byte_def sep_eq str_eval)
  have clean: "sanitize_key_component (lit ''w__direct__u1'') = lit ''w__direct__u1''"
    "sanitize_key_component (lit ''w__direct__u2'') = lit ''w__direct__u2''"
    by (simp_all add: sanitize_key_component_def trim_matches_def is_key_char_def is_ascii_alnum_def is_ascii_lower_def is_digit_def str_eval)
  have apart: "sanitize_key_component (storage_key ?a) \<noteq> sanitize_key_component (storage_key ?b)"
    unfolding keys clean by (simp add: str_eval)
  have listing: "lists_by_prefix ?S" by (rule sample_lists_by_prefix)
  have below: "changed_below (actor_prefix ?b) ?S ?S'"
    unfolding changed_below_def actor_prefix_def keys clean
    by (rule exI [of _ "os_objects ?S'"]) (auto simp: sample_store_def str_eval)
  show ?thesis using cloud_files_isolated [OF below listing apart] by blast
qed

lemma public_upload_owned_witness:
  "\<not> is_public_upload_uri_for_user (sample_store []) (object_uri (sample_store []) (public_upload_key (sample_store []) (lit ''u1'') (lit ''d'') (lit ''n''))) (lit ''u2'')"
proof -
  have p: "os_public_upload_prefix (sample_store []) = sanitize_prefix []"
    by (simp add: sample_store_def sanitize_prefix_def trim_matches_def)
  have b: "47 \<notin> set (os_bucket (sample_store []))" "os_bucket (sample_store []) \<noteq> []" by (simp_all add: sample_store_def str_eval)
  have "sanitize_key_component (lit ''u1'') \<noteq> sanitize_key_component (lit ''u2'')"
    by (simp add: sanitize_key_component_def trim_matches_def is_key_char_def is_ascii_alnum_def is_ascii_lower_def is_digit_def str_eval)
  then show ?thesis using public_upload_owned [OF b p] by simp
qed

end
