(* ===== verification/Tool_Guard.thy ===== *)
theory Tool_Guard
  imports Session_Message Cron_History
begin

text \<open>
  \<^verbatim>\<open>hone-tools/src/guard.rs\<close>, \<^verbatim>\<open>registry.rs\<close> and \<^verbatim>\<open>base.rs\<close>: the tools a model may call, and the guard that
  looks at the arguments before a tool runs. The lower case of Unicode is a parameter, and so is what a tool does to the
  world.
\<close>

section \<open>The guard\<close>

datatype tool_guard_mode = Block | Audit

record tool_guard_config =
  gc_enabled :: bool
  gc_mode :: rstr
  gc_apply_tools :: "rstr list"
  gc_deny_patterns :: "rstr list"

record tool_guard =
  tg_enabled :: bool
  tg_mode :: tool_guard_mode
  tg_apply_tools :: "rstr list"
  tg_deny_patterns :: "rstr list"

definition tool_guard_mode_from_str :: "(rstr \<Rightarrow> rstr) \<Rightarrow> rstr \<Rightarrow> tool_guard_mode" where
  "tool_guard_mode_from_str lower mode =
     (if lower (trim mode) \<in> set (map lit [''audit'', ''log'', ''warn'']) then Audit else Block)"

definition guard_disabled :: tool_guard where
  "guard_disabled = \<lparr>tg_enabled = False, tg_mode = Block, tg_apply_tools = [], tg_deny_patterns = []\<rparr>"

definition guard_from_config :: "(rstr \<Rightarrow> rstr) \<Rightarrow> tool_guard_config \<Rightarrow> tool_guard" where
  "guard_from_config lower c =
     \<lparr>tg_enabled = gc_enabled c, tg_mode = tool_guard_mode_from_str lower (gc_mode c), tg_apply_tools = gc_apply_tools c,
      tg_deny_patterns = map lower (gc_deny_patterns c)\<rparr>"

text \<open>The loop over the names and exclusions; \<open>matched\<close> is whether a name matched so far.\<close>

primrec scan_apply_tools :: "(rstr \<Rightarrow> rstr) \<Rightarrow> rstr \<Rightarrow> bool \<Rightarrow> rstr list \<Rightarrow> bool" where
  "scan_apply_tools lower tool matched [] = matched"
| "scan_apply_tools lower tool matched (raw # rest) =
     (let item = trim raw in
      if item = [] then scan_apply_tools lower tool matched rest
      else case strip_prefix (lit ''!'') item of
        Some excluded \<Rightarrow>
          (let exclude = lower (trim excluded) in
           if exclude = lit ''*'' \<or> contains_str tool exclude then False else scan_apply_tools lower tool matched rest)
      | None \<Rightarrow>
          (let include = lower item in
           scan_apply_tools lower tool (matched \<or> include = lit ''*'' \<or> contains_str tool include) rest))"

definition applies_to_tool :: "(rstr \<Rightarrow> rstr) \<Rightarrow> tool_guard \<Rightarrow> rstr \<Rightarrow> bool" where
  "applies_to_tool lower g tool_name =
     (if tg_apply_tools g = [] then True else scan_apply_tools lower (lower tool_name) False (tg_apply_tools g))"

definition args_hit_deny_pattern :: "(rstr \<Rightarrow> rstr) \<Rightarrow> json_codec \<Rightarrow> tool_guard \<Rightarrow> json \<Rightarrow> rstr option" where
  "args_hit_deny_pattern lower J g args =
     find (\<lambda>pattern. pattern \<noteq> [] \<and> contains_str (lower (jc_print J args)) pattern) (tg_deny_patterns g)"

definition guard_check :: "(rstr \<Rightarrow> rstr) \<Rightarrow> json_codec \<Rightarrow> tool_guard \<Rightarrow> rstr \<Rightarrow> json \<Rightarrow> unit hone_result" where
  "guard_check lower J g tool_name args =
     (if \<not> tg_enabled g then Inr ()
      else if \<not> applies_to_tool lower g tool_name then Inr ()
      else case args_hit_deny_pattern lower J g args of
        Some pattern \<Rightarrow>
          (case tg_mode g of
             Audit \<Rightarrow> Inr ()
           | Block \<Rightarrow> Inl (Tool ([24037, 20855, 35843, 29992, 34987, 23433, 20840, 31574, 30053, 38459, 27490, 65288, 112, 97, 116, 116, 101,
    114, 110, 61] @ pattern @ [65289])))
      | None \<Rightarrow> Inr ())"

section \<open>Tools\<close>

record tool_parameter =
  tp_name :: rstr
  tp_type :: rstr
  tp_description :: rstr
  tp_required :: bool
  tp_enum :: "rstr list option"
  tp_items :: "json option"

record 'w tool =
  tl_name :: rstr
  tl_description :: rstr
  tl_parameters :: "tool_parameter list"
  tl_execute :: "json \<Rightarrow> 'w \<Rightarrow> json hone_result \<times> 'w"

definition parameter_schema :: "tool_parameter \<Rightarrow> json" where
  "parameter_schema p =
     JObj ([(lit ''type'', JStr (tp_type p)), (lit ''description'', JStr (tp_description p))]
       @ (case tp_enum p of None \<Rightarrow> [] | Some vs \<Rightarrow> [(lit ''enum'', JArr (map JStr vs))])
       @ (case tp_items p of None \<Rightarrow> [] | Some v \<Rightarrow> [(lit ''items'', v)]))"

definition to_openai_schema :: "'w tool \<Rightarrow> json" where
  "to_openai_schema t =
     (let properties = fold (\<lambda>p props. json_insert props (tp_name p) (parameter_schema p)) (tl_parameters t) (JObj []);
          required = map (JStr \<circ> tp_name) (filter tp_required (tl_parameters t))
      in JObj [(lit ''type'', JStr (lit ''function'')),
           (lit ''function'', JObj [(lit ''name'', JStr (tl_name t)), (lit ''description'', JStr (tl_description t)),
              (lit ''parameters'', JObj [(lit ''type'', JStr (lit ''object'')), (lit ''properties'', properties),
                 (lit ''required'', JArr required)])])])"

section \<open>The registry\<close>

text \<open>The tools by name; their order is that in which the hash map yields them.\<close>

record 'w tool_registry =
  tr_tools :: "(rstr \<times> 'w tool) list"
  tr_guard :: tool_guard

definition registry_new_with_guard :: "tool_guard \<Rightarrow> 'w tool_registry" where
  "registry_new_with_guard g = \<lparr>tr_tools = [], tr_guard = g\<rparr>"

definition register :: "'w tool \<Rightarrow> 'w tool_registry \<Rightarrow> 'w tool_registry" where
  "register t R = R\<lparr>tr_tools := AList.update (tl_name t) t (tr_tools R)\<rparr>"

definition get_tools_schema :: "'w tool_registry \<Rightarrow> json list" where
  "get_tools_schema R = map (to_openai_schema \<circ> snd) (tr_tools R)"

definition execute_tool ::
    "(rstr \<Rightarrow> rstr) \<Rightarrow> json_codec \<Rightarrow> 'w tool_registry \<Rightarrow> rstr \<Rightarrow> json \<Rightarrow> 'w \<Rightarrow> json hone_result \<times> 'w" where
  "execute_tool lower J R name args w =
     (case map_of (tr_tools R) name of
        None \<Rightarrow> (Inl (Tool ([24037, 20855, 19981, 23384, 22312, 58, 32] @ name)), w)
      | Some t \<Rightarrow>
          (case guard_check lower J (tr_guard R) name args of
             Inl e \<Rightarrow> (Inl e, w)
           | Inr _ \<Rightarrow> tl_execute t args w))"

section \<open>Lemmas\<close>

text \<open>What the guard refuses: the guard is on and blocks, no exclusion of the list names the tool, an inclusion does (or the list
  is empty), and a pattern occurs in the printed arguments. The order of the list does not matter.\<close>

definition exclusion :: "(rstr \<Rightarrow> rstr) \<Rightarrow> rstr \<Rightarrow> rstr \<Rightarrow> bool" where
  "exclusion lower tool raw \<longleftrightarrow>
     (case strip_prefix (lit ''!'') (trim raw) of
        Some e \<Rightarrow> lower (trim e) = lit ''*'' \<or> contains_str tool (lower (trim e)) | None \<Rightarrow> False)"

definition inclusion :: "(rstr \<Rightarrow> rstr) \<Rightarrow> rstr \<Rightarrow> rstr \<Rightarrow> bool" where
  "inclusion lower tool raw \<longleftrightarrow>
     trim raw \<noteq> [] \<and> strip_prefix (lit ''!'') (trim raw) = None \<and>
     (lower (trim raw) = lit ''*'' \<or> contains_str tool (lower (trim raw)))"

lemma scan_apply_tools_iff:
  "scan_apply_tools lower tool matched items \<longleftrightarrow>
     (matched \<or> (\<exists>i \<in> set items. inclusion lower tool i)) \<and> \<not> (\<exists>i \<in> set items. exclusion lower tool i)"
proof (induction items arbitrary: matched)
  case (Cons raw rest)
  have empty: "strip_prefix (lit ''!'') ([] :: rstr) = None" by (simp add: str_eval strip_prefix_def)
  show ?case
  proof (cases "strip_prefix (lit ''!'') (trim raw)")
    case None
    then show ?thesis using Cons.IH
      by (cases "trim raw = []") (auto simp: exclusion_def inclusion_def Let_def)
  next
    case (Some e)
    then have "trim raw \<noteq> []" using empty by auto
    then show ?thesis using Cons.IH Some by (auto simp: exclusion_def inclusion_def Let_def)
  qed
qed simp

lemma blocked_iff:
  "isl (guard_check lower J g tool args) \<longleftrightarrow>
     tg_enabled g \<and> tg_mode g = Block \<and>
     (tg_apply_tools g = [] \<or> (\<exists>i \<in> set (tg_apply_tools g). inclusion lower (lower tool) i) \<and>
       \<not> (\<exists>i \<in> set (tg_apply_tools g). exclusion lower (lower tool) i)) \<and>
     (\<exists>p \<in> set (tg_deny_patterns g). p \<noteq> [] \<and> contains_str (lower (jc_print J args)) p)"
  by (auto simp: guard_check_def applies_to_tool_def scan_apply_tools_iff args_hit_deny_pattern_def find_None_iff find_Some_iff
      split: option.split tool_guard_mode.split)

end
