(* ===== verification/Agent_Loop.thy ===== *)
theory Agent_Loop
  imports Tool_Guard Agent_Run
begin

text \<open>
  \<^verbatim>\<open>agents/function_calling/src/lib.rs\<close>: the loop between a model and its tools, with the messages of
  \<^verbatim>\<open>hone-llm/src/provider.rs\<close> and the audit records of \<^verbatim>\<open>hone-core/src/audit.rs\<close>; and the runner around it
  in \<^verbatim>\<open>hone-channels/src/runners/tool_reasoning.rs\<close>. The model and the tools act on a world that is a parameter. Times,
  random ids and debug lines are left out.
\<close>

section \<open>Messages to a model\<close>

record tool_call =
  tk_id :: rstr
  tk_type :: rstr
  tk_name :: rstr
  tk_arguments :: rstr

record chat_message =
  ch_role :: rstr
  ch_content :: "rstr option"
  ch_reasoning_content :: "rstr option"
  ch_tool_calls :: "tool_call list option"
  ch_tool_call_id :: "rstr option"
  ch_name :: "rstr option"

record token_usage =
  us_prompt_tokens :: "nat option"
  us_completion_tokens :: "nat option"
  us_total_tokens :: "nat option"

record chat_response =
  cr_content :: rstr
  cr_reasoning_content :: "rstr option"
  cr_tool_calls :: "tool_call list option"
  cr_usage :: "token_usage option"

definition tool_call_to_value :: "tool_call \<Rightarrow> json" where
  "tool_call_to_value c =
     JObj [(lit ''id'', JStr (tk_id c)), (lit ''type'', JStr (tk_type c)),
           (lit ''function'', JObj [(lit ''name'', JStr (tk_name c)), (lit ''arguments'', JStr (tk_arguments c))])]"

text \<open>A struct is read from an object, or from an array of its fields.\<close>

definition struct_fields :: "string list \<Rightarrow> json \<Rightarrow> json list option" where
  "struct_fields names v =
     (case v of
        JObj _ \<Rightarrow> all_some (map (\<lambda>n. json_get v (lit n)) names)
      | JArr vs \<Rightarrow> if length vs = length names then Some vs else None
      | _ \<Rightarrow> None)"

definition tool_call_from_value :: "json \<Rightarrow> tool_call option" where
  "tool_call_from_value v =
     (case struct_fields [''id'', ''type'', ''function''] v of
        Some [JStr i, JStr ty, f] \<Rightarrow>
          (case struct_fields [''name'', ''arguments''] f of
             Some [JStr n, JStr a] \<Rightarrow> Some \<lparr>tk_id = i, tk_type = ty, tk_name = n, tk_arguments = a\<rparr>
           | _ \<Rightarrow> None)
      | _ \<Rightarrow> None)"

definition REASONING_CONTENT_METADATA_KEY :: rstr where
  "REASONING_CONTENT_METADATA_KEY = lit ''reasoning_content''"

section \<open>The agent\<close>

record llm_audit_record =
  la_session_id :: rstr
  la_actor :: "actor option"
  la_source :: rstr
  la_operation :: rstr
  la_provider :: rstr
  la_model :: "rstr option"
  la_success :: bool
  la_request :: json
  la_response :: "json option"
  la_error :: "rstr option"
  la_metadata :: json
  la_usage :: "token_usage option"

datatype loop_event =
    Asked "chat_message list"
  | ObservedStart rstr json
  | ObservedFinish rstr json bool
  | Audited llm_audit_record

record 'w agent =
  af_chat :: "chat_message list \<Rightarrow> 'w \<Rightarrow> (rstr \<times> token_usage option) hone_result \<times> 'w"
  af_chat_with_tools :: "chat_message list \<Rightarrow> json list \<Rightarrow> 'w \<Rightarrow> chat_response hone_result \<times> 'w"
  af_tools :: "'w tool_registry"
  af_system_prompt :: rstr
  af_max_iterations :: nat
  af_audited :: bool
  af_observed :: bool
  af_codec :: json_codec
  af_parse_error :: "rstr \<Rightarrow> rstr"
  af_lower :: "rstr \<Rightarrow> rstr"

record 'w loop_state =
  lp_context :: agent_context
  lp_made :: "tool_call_made list"
  lp_world :: 'w
  lp_trace :: "loop_event list"

definition to_chat_message :: "agent_message \<Rightarrow> chat_message" where
  "to_chat_message m =
     \<lparr>ch_role = am_role m, ch_content = am_content m,
      ch_reasoning_content = Option.bind (am_metadata m) (\<lambda>md. Option.bind (md REASONING_CONTENT_METADATA_KEY) json_as_str),
      ch_tool_calls = map_option (List.map_filter tool_call_from_value) (am_tool_calls m),
      ch_tool_call_id = am_tool_call_id m, ch_name = am_name m\<rparr>"

definition system_message :: "rstr \<Rightarrow> chat_message" where
  "system_message prompt =
     \<lparr>ch_role = lit ''system'', ch_content = Some prompt, ch_reasoning_content = None, ch_tool_calls = None,
      ch_tool_call_id = None, ch_name = None\<rparr>"

definition build_messages :: "rstr \<Rightarrow> agent_message list \<Rightarrow> chat_message list" where
  "build_messages system_prompt ms =
     (if system_prompt = [] then [] else [system_message system_prompt]) @ map to_chat_message ms"

definition opt_field :: "string \<Rightarrow> ('a \<Rightarrow> json) \<Rightarrow> 'a option \<Rightarrow> (rstr \<times> json) list" where
  "opt_field k f v = (case v of None \<Rightarrow> [] | Some x \<Rightarrow> [(lit k, f x)])"

definition chat_message_to_value :: "chat_message \<Rightarrow> json" where
  "chat_message_to_value m =
     JObj ([(lit ''role'', JStr (ch_role m))] @ opt_field ''content'' JStr (ch_content m)
       @ opt_field ''reasoning_content'' JStr (ch_reasoning_content m)
       @ opt_field ''tool_calls'' (\<lambda>cs. JArr (map tool_call_to_value cs)) (ch_tool_calls m)
       @ opt_field ''tool_call_id'' JStr (ch_tool_call_id m) @ opt_field ''name'' JStr (ch_name m))"

definition trace :: "loop_event \<Rightarrow> 'w loop_state \<Rightarrow> 'w loop_state" where
  "trace e s = s\<lparr>lp_trace := lp_trace s @ [e]\<rparr>"

definition observe :: "'w agent \<Rightarrow> loop_event \<Rightarrow> 'w loop_state \<Rightarrow> 'w loop_state" where
  "observe A e s = (if af_observed A then trace e s else s)"

definition push_message :: "agent_message \<Rightarrow> 'w loop_state \<Rightarrow> 'w loop_state" where
  "push_message m s = s\<lparr>lp_context := (lp_context s)\<lparr>cx_messages := cx_messages (lp_context s) @ [m]\<rparr>\<rparr>"

definition record_audit ::
    "'w agent \<Rightarrow> rstr \<Rightarrow> json \<Rightarrow> json option \<Rightarrow> rstr option \<Rightarrow> json \<Rightarrow> token_usage option \<Rightarrow> 'w loop_state \<Rightarrow> 'w loop_state" where
  "record_audit A operation request response err md usage s =
     (if \<not> af_audited A then s
      else trace (Audited \<lparr>la_session_id = cx_session_id (lp_context s), la_actor = cx_actor (lp_context s),
             la_source = lit ''agent.function_calling'', la_operation = operation, la_provider = lit ''openrouter'', la_model = None,
             la_success = (err = None), la_request = request, la_response = response, la_error = err, la_metadata = md,
             la_usage = usage\<rparr>) s)"

section \<open>Calls of tools\<close>

definition tool_result_message :: "rstr \<Rightarrow> rstr \<Rightarrow> rstr \<Rightarrow> agent_message" where
  "tool_result_message call_id name result = tool_agent_message result (Some call_id) (Some name) None"

definition error_result :: "rstr \<Rightarrow> json" where
  "error_result e = JObj [(lit ''error'', JStr e)]"

definition run_call :: "'w agent \<Rightarrow> tool_call \<Rightarrow> 'w loop_state \<Rightarrow> 'w loop_state" where
  "run_call A c s =
     (case jc_parse (af_codec A) (tk_arguments c) of
        None \<Rightarrow>
          push_message (tool_result_message (tk_id c) (tk_name c)
            (jc_print (af_codec A) (error_result ([21442, 25968, 35299, 26512, 22833, 36133, 58, 32] @ af_parse_error A (tk_arguments c))))) s
      | Some args \<Rightarrow>
          (let s = observe A (ObservedStart (tk_name c) args) s;
               (r, w) = execute_tool (af_lower A) (af_codec A) (af_tools A) (tk_name c) args (lp_world s);
               s = s\<lparr>lp_world := w\<rparr>
           in case r of
                Inr result \<Rightarrow>
                  (let s = s\<lparr>lp_made := lp_made s @ [\<lparr>tc_name = tk_name c, tc_arguments = args, tc_result = result,
                         tc_tool_call_id = Some (tk_id c)\<rparr>]\<rparr>;
                       s = push_message (tool_result_message (tk_id c) (tk_name c) (jc_print (af_codec A) result)) s
                   in observe A (ObservedFinish (tk_name c) args True) s)
              | Inl e \<Rightarrow>
                  (let s = push_message (tool_result_message (tk_id c) (tk_name c)
                         (jc_print (af_codec A) (error_result (hone_error_text e)))) s
                   in observe A (ObservedFinish (tk_name c) args False) s)))"

section \<open>The loop\<close>

definition has_tools :: "'w agent \<Rightarrow> bool" where
  "has_tools A \<longleftrightarrow> tr_tools (af_tools A) \<noteq> []"

definition operation_name :: "'w agent \<Rightarrow> rstr" where
  "operation_name A = (if has_tools A then lit ''chat_with_tools'' else lit ''chat'')"

definition ask :: "'w agent \<Rightarrow> nat \<Rightarrow> 'w loop_state \<Rightarrow> chat_response hone_result \<times> 'w loop_state" where
  "ask A iterations s =
     (let messages = build_messages (af_system_prompt A) (cx_messages (lp_context s));
          schemas = get_tools_schema (af_tools A);
          request = JObj [(lit ''messages'', JArr (map chat_message_to_value messages)),
            (lit ''tools'', if has_tools A then JArr schemas else JNull)];
          md = JObj [(lit ''iteration'', JInt (int iterations)), (lit ''has_tools'', JBool (has_tools A))];
          s = trace (Asked messages) s;
          (r, w) = (if has_tools A then af_chat_with_tools A messages schemas (lp_world s)
            else apfst (map_sum id (\<lambda>(content, usage). \<lparr>cr_content = content, cr_reasoning_content = None,
              cr_tool_calls = None, cr_usage = usage\<rparr>)) (af_chat A messages (lp_world s)));
          s = s\<lparr>lp_world := w\<rparr>
      in case r of
           Inl e \<Rightarrow> (Inl e, record_audit A (operation_name A) request None (Some (hone_error_text e)) md None s)
         | Inr result \<Rightarrow>
             (Inr result, record_audit A (operation_name A) request
               (Some (JObj [(lit ''content'', JStr (cr_content result)),
                  (lit ''tool_calls'', (case cr_tool_calls result of None \<Rightarrow> JNull | Some cs \<Rightarrow> JArr (map tool_call_to_value cs)))]))
               None md (cr_usage result) s))"

definition assistant_message :: "chat_response \<Rightarrow> json list option \<Rightarrow> agent_message" where
  "assistant_message result calls =
     (plain_message (lit ''assistant'') (cr_content result)
        (map_option (\<lambda>t. [REASONING_CONTENT_METADATA_KEY \<mapsto> JStr t]) (cr_reasoning_content result)))\<lparr>am_tool_calls := calls\<rparr>"

definition response_of :: "'w loop_state \<Rightarrow> nat \<Rightarrow> rstr + rstr \<Rightarrow> 'w loop_state \<times> agent_response" where
  "response_of s iterations outcome =
     (s, \<lparr>rs_content = (case outcome of Inl _ \<Rightarrow> [] | Inr content \<Rightarrow> content), rs_tool_calls_made = lp_made s,
         rs_iterations = iterations, rs_success = (case outcome of Inl _ \<Rightarrow> False | Inr _ \<Rightarrow> True),
         rs_error = (case outcome of Inl e \<Rightarrow> Some e | Inr _ \<Rightarrow> None)\<rparr>)"

text \<open>The loop, by the iterations that are left.\<close>

primrec agent_loop :: "'w agent \<Rightarrow> nat \<Rightarrow> 'w loop_state \<Rightarrow> 'w loop_state \<times> agent_response" where
  "agent_loop A 0 s =
     response_of s (af_max_iterations A) (Inl (lit ''max_iterations_exceeded:'' @ nat_digits (af_max_iterations A)))"
| "agent_loop A (Suc left) s =
     (let iterations = af_max_iterations A - left;
          (r, s) = ask A iterations s
      in case r of
           Inl e \<Rightarrow> response_of s iterations (Inl (hone_error_text e))
         | Inr result \<Rightarrow>
             (let calls = unwrap_or [] (cr_tool_calls result) in
              if calls \<noteq> [] then
                agent_loop A left
                  (fold (run_call A) calls (push_message (assistant_message result (Some (map tool_call_to_value calls))) s))
              else response_of (push_message (assistant_message result None) s) iterations (Inr (cr_content result))))"

definition agent_run :: "'w agent \<Rightarrow> rstr \<Rightarrow> agent_context \<Rightarrow> 'w \<Rightarrow> 'w loop_state \<times> agent_response" where
  "agent_run A user_input cx w =
     agent_loop A (af_max_iterations A)
       \<lparr>lp_context = add_user_message user_input cx, lp_made = [], lp_world = w, lp_trace = []\<rparr>"

section \<open>What the user sees of a call\<close>

definition truncate_tool_detail :: "rstr \<Rightarrow> nat \<Rightarrow> rstr" where
  "truncate_tool_detail s max_chars =
     (let trimmed = trim s in if length trimmed \<le> max_chars then trimmed else take (max_chars - 1) trimmed @ [8230])"

definition tool_arg_string :: "json \<Rightarrow> string list \<Rightarrow> rstr option" where
  "tool_arg_string arguments keys =
     find (\<lambda>t. t \<noteq> []) (map trim (List.map_filter (\<lambda>k. get_str arguments (lit k)) keys))"

definition summarize_tool_argument_value :: "json_codec \<Rightarrow> json \<Rightarrow> rstr" where
  "summarize_tool_argument_value J v =
     (case v of
        JStr s \<Rightarrow> lit ''\"'' @ truncate_tool_detail s 48 @ lit ''\"''
      | JInt _ \<Rightarrow> jc_print J v
      | JFloat _ \<Rightarrow> jc_print J v
      | JBool b \<Rightarrow> if b then lit ''true'' else lit ''false''
      | JArr items \<Rightarrow> if items = [] then lit ''[]'' else lit ''['' @ nat_digits (length items) @ lit '' items]''
      | JObj kvs \<Rightarrow> lit ''{'' @ nat_digits (length kvs) @ lit '' keys}''
      | JNull \<Rightarrow> lit ''null'')"

definition SUMMARY_KEYS :: "string list" where
  "SUMMARY_KEYS =
     [''query'', ''q'', ''symbol'', ''ticker'', ''company_name'', ''skill_name'', ''action'', ''data_type'', ''path'', ''file_path'', ''url'']"

definition summarize_tool_arguments :: "json_codec \<Rightarrow> json \<Rightarrow> rstr" where
  "summarize_tool_arguments J arguments =
     intercalate [32] (take 2 (List.map_filter (\<lambda>k.
       Option.bind (json_get arguments (lit k)) (\<lambda>v.
         let rendered = summarize_tool_argument_value J v
         in if rendered = [] then None else Some (lit k @ lit ''='' @ rendered))) SUMMARY_KEYS))"

definition render_generic_tool_label :: "json_codec \<Rightarrow> rstr \<Rightarrow> json \<Rightarrow> rstr" where
  "render_generic_tool_label J tool_name arguments =
     (let summary = summarize_tool_arguments J arguments
      in if summary = [] then tool_name else tool_name @ [32] @ summary)"

text \<open>A label of one or two named arguments, and what stands there without any.\<close>

definition label_of :: "rstr \<Rightarrow> rstr \<Rightarrow> rstr option \<Rightarrow> nat \<Rightarrow> rstr option \<Rightarrow> nat \<Rightarrow> nat \<Rightarrow> rstr" where
  "label_of tool_name generic first n second k alone =
     (case (first, second) of
        (Some a, Some b) \<Rightarrow> tool_name @ [32] @ truncate_tool_detail a n @ [32] @ truncate_tool_detail b k
      | (Some a, None) \<Rightarrow> tool_name @ [32] @ truncate_tool_detail a alone
      | (None, Some b) \<Rightarrow> tool_name @ [32] @ truncate_tool_detail b alone
      | (None, None) \<Rightarrow> generic)"

definition render_runner_tool_label :: "json_codec \<Rightarrow> rstr \<Rightarrow> json \<Rightarrow> rstr" where
  "render_runner_tool_label J tool_name arguments =
     (let arg = tool_arg_string arguments; generic = render_generic_tool_label J tool_name arguments;
          base =
            (if tool_name = lit ''web_search'' then
               (case arg [''query'', ''q''] of
                  Some query \<Rightarrow> lit ''web_search query=\"'' @ truncate_tool_detail query 80 @ lit ''\"''
                | None \<Rightarrow> lit ''web_search'')
             else if tool_name = lit ''data_fetch'' then
               label_of tool_name generic (arg [''data_type'']) 32 (arg [''symbol'', ''ticker'']) 32 48
             else if tool_name = lit ''deep_research'' then
               (case arg [''company_name'', ''query''] of
                  Some company \<Rightarrow> lit ''deep_research '' @ truncate_tool_detail company 72
                | None \<Rightarrow> generic)
             else if tool_name = lit ''skill_tool'' \<or> tool_name = lit ''load_skill'' then
               label_of tool_name generic (arg [''action'']) 24 (arg [''skill_name'']) 48 48
             else if tool_name = lit ''portfolio'' then
               (case (arg [''action''], arg [''symbol'', ''ticker'']) of
                  (Some action, Some symbol) \<Rightarrow>
                    lit ''portfolio '' @ truncate_tool_detail action 24 @ [32] @ truncate_tool_detail symbol 24
                | _ \<Rightarrow> generic)
             else generic)
      in truncate_tool_detail base 120)"

definition render_runner_tool_reasoning :: "rstr \<Rightarrow> rstr option \<Rightarrow> rstr" where
  "render_runner_tool_reasoning label reasoning =
     (let base = [27491, 22312, 25191, 34892, 65306] @ label;
          note = map_option (\<lambda>v. truncate_tool_detail v 120) (opt_filter (\<lambda>v. v \<noteq> []) (map_option trim reasoning))
      in case note of Some n \<Rightarrow> if n \<noteq> base then base @ [65307, 35828, 26126, 65306] @ n else base | None \<Rightarrow> base)"

definition observer_events :: "json_codec \<Rightarrow> loop_event \<Rightarrow> run_event list" where
  "observer_events J e =
     (case e of
        ObservedStart name args \<Rightarrow>
          (let label = render_runner_tool_label J name args in
           [RunProgress (lit ''tool.execute'') (Some label),
            ToolStatus label (lit ''start'') None (Some (render_runner_tool_reasoning label None))])
      | ObservedFinish name args _ \<Rightarrow>
          (let label = render_runner_tool_label J name args in
           [ToolStatus label (lit ''done'') (Some ([25191, 34892, 23436, 25104, 65306] @ label)) None])
      | _ \<Rightarrow> [])"

section \<open>The runner\<close>

definition runner_context_messages :: "agent_message list \<Rightarrow> nat \<Rightarrow> agent_message list option" where
  "runner_context_messages messages original_len =
     (if length messages \<le> original_len then None
      else
        (let ms = drop original_len messages;
             ms = (if ms \<noteq> [] \<and> am_role (hd ms) = lit ''user'' then tl ms else ms)
         in if ms = [] then None else Some ms))"

definition function_calling_runner :: "'w agent \<Rightarrow> runner_request \<Rightarrow> 'w \<Rightarrow> run_event list \<times> runner_result \<times> 'w" where
  "function_calling_runner A request w =
     (let (s, response) = agent_run (A\<lparr>af_observed := True\<rparr>) (rq_runtime_input request) (rq_context request) w in
      (concat (map (observer_events (af_codec A)) (lp_trace s)),
       \<lparr>rr_response = response, rr_streamed_output = False, rr_terminal_error_emitted = False, rr_metadata_updates = [],
        rr_context_messages =
          runner_context_messages (cx_messages (lp_context s)) (length (cx_messages (rq_context request)))\<rparr>,
       lp_world s))"

section \<open>Requests that a model service accepts\<close>

text \<open>Every call of a tool is answered before anything else is said: after a message with calls come the results of just these
  calls, in their order, and no result stands elsewhere. Services of this interface refuse any other conversation.\<close>

definition answers :: "tool_call \<Rightarrow> chat_message \<Rightarrow> bool" where
  "answers c m \<longleftrightarrow> ch_role m = lit ''tool'' \<and> ch_tool_call_id m = Some (tk_id c)"

function answered :: "chat_message list \<Rightarrow> bool" where
  "answered [] = True"
| "answered (m # ms) =
     (let calls = unwrap_or [] (ch_tool_calls m); n = length calls
      in ch_role m \<noteq> lit ''tool'' \<and> list_all2 answers calls (take n ms) \<and> answered (drop n ms))"
  by pat_completeness auto
termination by (relation "measure length") auto

definition asked :: "loop_event list \<Rightarrow> chat_message list list" where
  "asked es = List.map_filter (\<lambda>e. case e of Asked ms \<Rightarrow> Some ms | _ \<Rightarrow> None) es"

lemma asked_simps [simp]:
  "asked [] = []" "asked (es @ fs) = asked es @ asked fs" "asked [Asked ms] = [ms]" "asked [ObservedStart n a] = []"
  "asked [ObservedFinish n a b] = []" "asked [Audited r] = []"
  by (simp_all add: asked_def map_filter_def)

lemma answered_append: "answered xs \<Longrightarrow> answered (xs @ ys) = answered ys"
proof (induction xs rule: answered.induct)
  case (2 m ms)
  let ?n = "length (unwrap_or [] (ch_tool_calls m))"
  have l: "list_all2 answers (unwrap_or [] (ch_tool_calls m)) (take ?n ms)" and r: "answered (drop ?n ms)"
    and t: "ch_role m \<noteq> lit ''tool''"
    using "2.prems" by (simp_all add: Let_def)
  have n: "?n \<le> length ms" using list_all2_lengthD [OF l] by simp
  have "answered (drop ?n ms @ ys) = answered ys" using "2.IH" [OF refl refl r] .
  then show ?case using l t n by (simp add: Let_def)
qed simp

lemma call_value_back [simp]: "tool_call_from_value (tool_call_to_value c) = Some c"
  by (simp add: tool_call_from_value_def tool_call_to_value_def struct_fields_def json_get_def str_eval)

lemma values_back: "List.map_filter tool_call_from_value (map tool_call_to_value cs) = cs"
  by (induction cs) (simp_all add: map_filter_simps)

lemma trace_context [simp]:
  "lp_context (trace e s) = lp_context s" "lp_context (observe A e s) = lp_context s"
  "lp_trace (trace e s) = lp_trace s @ [e]" "lp_trace (push_message m s) = lp_trace s"
  "cx_messages (lp_context (push_message m s)) = cx_messages (lp_context s) @ [m]"
  "asked (lp_trace (observe A (ObservedStart n args) s)) = asked (lp_trace s)"
  "asked (lp_trace (observe A (ObservedFinish n args b) s)) = asked (lp_trace s)"
  by (simp_all add: trace_def observe_def push_message_def)

lemma record_audit_simps [simp]:
  "lp_context (record_audit A oper request response err md usage s) = lp_context s"
  "asked (lp_trace (record_audit A oper request response err md usage s)) = asked (lp_trace s)"
  by (simp_all add: record_audit_def)

lemma run_call_answers:
  "\<exists>r. cx_messages (lp_context (run_call A c s)) = cx_messages (lp_context s) @ [tool_result_message (tk_id c) (tk_name c) r]"
  "asked (lp_trace (run_call A c s)) = asked (lp_trace s)"
  by (auto simp: run_call_def Let_def split: option.split prod.split sum.split)

text \<open>A round: each call gets one result, in order.\<close>

lemma run_calls_answer:
  "\<exists>rs. length rs = length calls \<and> cx_messages (lp_context (fold (run_call A) calls s)) =
     cx_messages (lp_context s) @ map2 (\<lambda>c. tool_result_message (tk_id c) (tk_name c)) calls rs"
proof (induction calls arbitrary: s)
  case (Cons c calls)
  obtain r where r: "cx_messages (lp_context (run_call A c s)) = cx_messages (lp_context s) @ [tool_result_message (tk_id c) (tk_name c) r]"
    using run_call_answers(1) by blast
  obtain rs where "length rs = length calls" "cx_messages (lp_context (fold (run_call A) calls (run_call A c s))) =
      cx_messages (lp_context (run_call A c s)) @ map2 (\<lambda>c. tool_result_message (tk_id c) (tk_name c)) calls rs"
    using Cons.IH by blast
  then show ?case using r by (intro exI [of _ "r # rs"]) simp
qed simp

lemma run_calls_asked: "asked (lp_trace (fold (run_call A) calls s)) = asked (lp_trace s)"
  by (induction calls arbitrary: s) (simp_all add: run_call_answers(2))

lemma answered_round:
  assumes "length rs = length calls"
  shows "answered (map to_chat_message (assistant_message result (Some (map tool_call_to_value calls))
           # map2 (\<lambda>c. tool_result_message (tk_id c) (tk_name c)) calls rs))"
proof -
  have "list_all2 answers calls (map to_chat_message (map2 (\<lambda>c. tool_result_message (tk_id c) (tk_name c)) calls rs))"
    using assms
    by (auto simp: list_all2_conv_all_nth to_chat_message_def tool_result_message_def tool_agent_message_def answers_def)
  then show ?thesis using assms
    by (simp add: Let_def to_chat_message_def assistant_message_def plain_message_def values_back)
qed

lemma build_messages_append: "build_messages p (xs @ ys) = build_messages p xs @ map to_chat_message ys"
  by (simp add: build_messages_def)

lemma answered_plain:
  "ch_role m \<noteq> lit ''tool'' \<Longrightarrow> unwrap_or [] (ch_tool_calls m) = [] \<Longrightarrow> answered [m]"
  by simp

lemma ask_asks:
  assumes "ask A i s = (r, s')"
  shows "lp_context s' = lp_context s" "asked (lp_trace s') = asked (lp_trace s) @ [build_messages (af_system_prompt A) (cx_messages (lp_context s))]"
  using assms by (auto simp: ask_def Let_def trace_def split: prod.splits sum.splits)

definition loop_ok :: "'w agent \<Rightarrow> 'w loop_state \<Rightarrow> bool" where
  "loop_ok A s \<longleftrightarrow>
     answered (build_messages (af_system_prompt A) (cx_messages (lp_context s))) \<and> list_all answered (asked (lp_trace s))"

lemma round_ok:
  assumes "loop_ok A s"
  shows "loop_ok A (fold (run_call A) calls (push_message (assistant_message result (Some (map tool_call_to_value calls))) s))"
proof -
  obtain rs where rs: "length rs = length calls" "cx_messages (lp_context (fold (run_call A) calls
      (push_message (assistant_message result (Some (map tool_call_to_value calls))) s))) =
    (cx_messages (lp_context s) @ [assistant_message result (Some (map tool_call_to_value calls))]) @
      map2 (\<lambda>c. tool_result_message (tk_id c) (tk_name c)) calls rs"
    using run_calls_answer [of calls A "push_message (assistant_message result (Some (map tool_call_to_value calls))) s"] by auto
  show ?thesis using assms answered_round [OF rs(1)]
    by (simp add: loop_ok_def rs(2) run_calls_asked build_messages_append answered_append del: map_map)
qed

lemma loop_keeps_ok: "loop_ok A s \<Longrightarrow> loop_ok A (fst (agent_loop A left s))"
proof (induction left arbitrary: s)
  case 0
  then show ?case by (simp add: response_of_def)
next
  case (Suc left)
  obtain r s' where a: "ask A (af_max_iterations A - left) s = (r, s')" by fastforce
  have ok: "loop_ok A s'" using Suc.prems ask_asks [OF a] by (simp add: loop_ok_def)
  show ?case
  proof (cases r)
    case (Inl e)
    then show ?thesis using ok by (simp add: a response_of_def)
  next
    case (Inr result)
    have "loop_ok A (push_message (assistant_message result None) s')"
      using ok by (simp add: loop_ok_def build_messages_append answered_append to_chat_message_def assistant_message_def plain_message_def)
    then show ?thesis using Inr Suc.IH [OF round_ok [OF ok]] by (auto simp: a Let_def response_of_def)
  qed
qed

text \<open>How often the model is asked.\<close>

lemma loop_bounded:
  assumes "agent_loop A left s = (s', r)" "length (asked (lp_trace s)) + left = af_max_iterations A"
  shows "length (asked (lp_trace s')) = rs_iterations r \<and> rs_iterations r \<le> af_max_iterations A"
  using assms
proof (induction left arbitrary: s)
  case 0
  then show ?case by (auto simp: response_of_def)
next
  case (Suc left)
  obtain q u where a: "ask A (af_max_iterations A - left) s = (q, u)" by fastforce
  have u: "length (asked (lp_trace u)) + left = af_max_iterations A" using Suc.prems(2) ask_asks [OF a] by simp
  show ?case
  proof (cases q)
    case (Inl e)
    then show ?thesis using Suc.prems(1) u by (auto simp: a response_of_def)
  next
    case (Inr result)
    show ?thesis
    proof (cases "unwrap_or [] (cr_tool_calls result) = []")
      case True
      then show ?thesis using Suc.prems(1) u Inr by (auto simp: a Let_def response_of_def)
    next
      case False
      then show ?thesis using Suc.prems(1) Suc.IH u Inr by (simp add: a Let_def run_calls_asked)
    qed
  qed
qed

text \<open>The first request has the messages handed in, and a later one takes none back.\<close>

lemma loop_asks_on: "\<exists>es. asked (lp_trace (fst (agent_loop A left s))) = asked (lp_trace s) @ es"
proof (induction left arbitrary: s)
  case 0
  then show ?case by (simp add: response_of_def)
next
  case (Suc left)
  obtain q u where a: "ask A (af_max_iterations A - left) s = (q, u)" by fastforce
  show ?case
  proof (cases q)
    case (Inl e)
    then show ?thesis using ask_asks [OF a] by (simp add: a response_of_def)
  next
    case (Inr result)
    show ?thesis
    proof (cases "unwrap_or [] (cr_tool_calls result) = []")
      case True
      then show ?thesis using ask_asks [OF a] Inr by (simp add: a Let_def response_of_def)
    next
      case False
      let ?v = "fold (run_call A) (unwrap_or [] (cr_tool_calls result))
        (push_message (assistant_message result (Some (map tool_call_to_value (unwrap_or [] (cr_tool_calls result))))) u)"
      have "asked (lp_trace ?v) = asked (lp_trace s) @ [build_messages (af_system_prompt A) (cx_messages (lp_context s))]"
        using ask_asks [OF a] by (simp add: run_calls_asked)
      then show ?thesis using Suc.IH [of ?v] False Inr by (auto simp: a Let_def)
    qed
  qed
qed

lemma first_request:
  assumes "0 < af_max_iterations A" "agent_run A user_input cx w = (s, r)"
  shows "asked (lp_trace s) \<noteq> [] \<and>
    hd (asked (lp_trace s)) = build_messages (af_system_prompt A) (cx_messages (add_user_message user_input cx))"
proof -
  let ?s0 = "\<lparr>lp_context = add_user_message user_input cx, lp_made = [], lp_world = w, lp_trace = []\<rparr>"
  obtain left where left: "af_max_iterations A = Suc left" using assms(1) gr0_implies_Suc by blast
  obtain q u where a: "ask A (af_max_iterations A - left) ?s0 = (q, u)" by fastforce
  have u: "asked (lp_trace u) = [build_messages (af_system_prompt A) (cx_messages (add_user_message user_input cx))]"
    using ask_asks(2) [OF a] by simp
  have "\<exists>es. asked (lp_trace (fst (agent_loop A (Suc left) ?s0))) = asked (lp_trace u) @ es"
  proof (cases q)
    case (Inl e)
    then show ?thesis by (simp add: a response_of_def)
  next
    case (Inr result)
    show ?thesis
    proof (cases "unwrap_or [] (cr_tool_calls result) = []")
      case True
      then show ?thesis using Inr by (simp add: a Let_def response_of_def)
    next
      case False
      let ?v = "fold (run_call A) (unwrap_or [] (cr_tool_calls result))
        (push_message (assistant_message result (Some (map tool_call_to_value (unwrap_or [] (cr_tool_calls result))))) u)"
      have "asked (lp_trace ?v) = asked (lp_trace u)" by (simp add: run_calls_asked)
      then show ?thesis using loop_asks_on [of A left ?v] False Inr by (simp add: a Let_def)
    qed
  qed
  then show ?thesis using assms(2) u by (auto simp: agent_run_def left)
qed

text \<open>Whatever came before it, a message that is no result of a tool begins a conversation of its own.\<close>

lemma answered_rest: "answered (xs @ m # ys) \<Longrightarrow> ch_role m \<noteq> lit ''tool'' \<Longrightarrow> answered (m # ys)"
proof (induction xs rule: length_induct)
  case (1 xs)
  show ?case
  proof (cases xs)
    case (Cons x xs')
    define n where "n = length (unwrap_or [] (ch_tool_calls x))"
    have l: "list_all2 answers (unwrap_or [] (ch_tool_calls x)) (take n (xs' @ m # ys))" and d: "answered (drop n (xs' @ m # ys))"
      using "1.prems"(1) by (simp_all add: Cons n_def Let_def)
    show ?thesis
    proof (cases "n \<le> length xs'")
      case True
      then have "answered (drop n xs' @ m # ys)" using d by simp
      moreover have "length (drop n xs') < length xs" by (simp add: Cons)
      ultimately show ?thesis using "1.IH" "1.prems"(2) by blast
    next
      case False
      then have "length xs' < length (unwrap_or [] (ch_tool_calls x))" by (simp add: n_def)
      from list_all2_nthD [OF l this] have "ch_role m = lit ''tool''" using False by (simp add: answers_def nth_append)
      then show ?thesis using "1.prems"(2) by simp
    qed
  qed (use "1.prems" in simp)
qed

text \<open>An answer is the last message of the context, and a failure has an error.\<close>

definition outcome_fits :: "agent_context \<Rightarrow> agent_response \<Rightarrow> bool" where
  "outcome_fits cx r \<longleftrightarrow>
     (if rs_success r then rs_error r = None \<and> cx_messages cx \<noteq> [] \<and> am_role (last (cx_messages cx)) = lit ''assistant'' \<and>
        am_content (last (cx_messages cx)) = Some (rs_content r) \<and> am_tool_calls (last (cx_messages cx)) = None
      else rs_error r \<noteq> None \<and> rs_content r = [])"

lemma loop_outcome: "agent_loop A left s = (s', r) \<Longrightarrow> outcome_fits (lp_context s') r"
proof (induction left arbitrary: s)
  case 0
  then show ?case by (auto simp: response_of_def outcome_fits_def)
next
  case (Suc left)
  then show ?case
    by (auto simp: response_of_def outcome_fits_def assistant_message_def plain_message_def Let_def
        split: prod.splits sum.splits if_splits)
qed

end
