(* ===== verification/Multi_Agent.thy ===== *)
theory Multi_Agent
  imports Agent_Loop
begin

text \<open>
  \<^verbatim>\<open>hone-channels/src/runners/multi_agent.rs\<close>: a runner of two stages. A search agent gathers facts with tools; its
  answer is returned when it is fit, else it is handed to an answer agent (a parameter). The texts for the progress log
  have their secrets cut out.
\<close>

section \<open>Configuration\<close>

record 'w provider =
  pv_chat :: "chat_message list \<Rightarrow> 'w \<Rightarrow> (rstr \<times> token_usage option) hone_result \<times> 'w"
  pv_chat_with_tools :: "chat_message list \<Rightarrow> json list \<Rightarrow> 'w \<Rightarrow> chat_response hone_result \<times> 'w"

record 'w multi_agent =
  ma_system_prompt :: rstr
  ma_api_key :: rstr
  ma_base_url :: rstr
  ma_model :: rstr
  ma_max_iterations :: nat
  ma_answer_base_url :: rstr
  ma_answer_model :: rstr
  ma_answer_variant :: rstr
  ma_answer_max_tool_calls :: nat
  ma_tools :: "'w tool_registry"
  ma_audited :: bool
  ma_provider :: "rstr + 'w provider"
  ma_answer :: "runner_request \<Rightarrow> nat \<Rightarrow> 'w \<Rightarrow> run_event list \<times> runner_result \<times> 'w"
  ma_mcp_servers :: "runner_request \<Rightarrow> json option"
  ma_print_pretty :: "json \<Rightarrow> rstr"
  ma_codec :: json_codec
  ma_parse_error :: "rstr \<Rightarrow> rstr"
  ma_lower :: "rstr \<Rightarrow> rstr"
  ma_regexes :: regex_engine
  ma_search_ms :: nat
  ma_answer_ms :: nat

definition build_search_provider :: "'w multi_agent \<Rightarrow> rstr + 'w provider" where
  "build_search_provider M =
     (if trim (ma_api_key M) = [] then Inl [109, 117, 108, 116, 105, 45, 97, 103, 101, 110, 116, 32, 115, 101, 97, 114, 99, 104, 32, 97, 103, 101, 110,
    116, 32, 65, 80, 73, 32, 107, 101, 121, 32, 20026, 31354] else ma_provider M)"

section \<open>What the log shows\<close>

definition MULTI_AGENT_LOG_DETAIL_CHARS :: nat where "MULTI_AGENT_LOG_DETAIL_CHARS = 400"

definition REDACTED :: rstr where "REDACTED = lit ''<redacted>''"

definition ends_value :: "nat \<Rightarrow> bool" where
  "ends_value c \<longleftrightarrow> c \<in> {38, 41, 44, 34, 39, 125, 93} \<or> is_whitespace c"

text \<open>Markers are never empty; for an empty one the loop of the source would not end.\<close>

function redact_multi_agent_marker_value :: "rstr \<Rightarrow> rstr \<Rightarrow> rstr" where
  "redact_multi_agent_marker_value text marker =
     (case split_once marker text of
        Some (before, rest) \<Rightarrow>
          if marker = [] then text
          else before @ marker @ takeWhile is_whitespace rest @ REDACTED
            @ redact_multi_agent_marker_value (dropWhile (\<lambda>c. \<not> ends_value c) (dropWhile is_whitespace rest)) marker
      | None \<Rightarrow> text)"
  by pat_completeness auto

text \<open>After the key: a colon and a quote, with spaces between, or the text goes on.\<close>

function redact_multi_agent_json_string_field :: "rstr \<Rightarrow> rstr \<Rightarrow> rstr" where
  "redact_multi_agent_json_string_field text key =
     (let marker = [34] @ key @ [34] in
      case split_once marker text of
        None \<Rightarrow> text
      | Some (before, tail) \<Rightarrow>
          (case dropWhile is_whitespace tail of
             [] \<Rightarrow> text
           | c # after_colon \<Rightarrow>
               if c \<noteq> 58 then before @ marker @ redact_multi_agent_json_string_field tail key
               else (case dropWhile is_whitespace after_colon of
                   [] \<Rightarrow> text
                 | q # value \<Rightarrow>
                     if q \<noteq> 34 then before @ marker @ redact_multi_agent_json_string_field tail key
                     else before @ marker @ takeWhile is_whitespace tail @ [58] @ takeWhile is_whitespace after_colon @ [34] @ REDACTED
                       @ redact_multi_agent_json_string_field (dropWhile (\<lambda>d. d \<noteq> 34) value) key)))"
  by pat_completeness auto

lemma split_once_rest: "split_once p s = Some (a, b) \<Longrightarrow> p \<noteq> [] \<Longrightarrow> length b < length s"
  by (auto dest: split_once_Some(1))

lemma dropWhile_shorter: "dropWhile P xs = y # ys \<Longrightarrow> length ys < length xs"
  by (induction xs) (auto split: if_splits)

lemma dropWhile_less: "length xs < n \<Longrightarrow> length (dropWhile P xs) < n"
  using length_dropWhile_le [of P xs] by linarith

termination redact_multi_agent_marker_value
  by (relation "measure (length \<circ> fst)") (auto dest!: split_once_rest intro!: dropWhile_less)

termination redact_multi_agent_json_string_field
  by (relation "measure (length \<circ> fst)")
     (auto dest!: split_once_rest dropWhile_shorter intro!: dropWhile_less)

declare redact_multi_agent_marker_value.simps [simp del] redact_multi_agent_json_string_field.simps [simp del]

definition SENSITIVE_MULTI_AGENT_LOG_KEYS :: "rstr list" where
  "SENSITIVE_MULTI_AGENT_LOG_KEYS = [lit ''access_token'', lit ''accessToken'', lit ''api_key'', lit ''apiKey'', lit ''apikey'', lit ''app_secret'',
      lit ''appSecret'', lit ''client_secret'', lit ''clientSecret'', lit ''refresh_token'', lit ''refreshToken'',
      lit ''id_token'', lit ''idToken'', lit ''session_token'', lit ''sessionToken'', lit ''bot_token'',
      lit ''botToken'', lit ''OPENROUTER_API_KEY'', lit ''ANTHROPIC_API_KEY'', lit ''GEMINI_API_KEY'',
      lit ''GOOGLE_API_KEY'', lit ''TAVILY_API_KEY'', lit ''FMP_API_KEY'', lit ''HONE_CLOUD_API_KEY'', lit ''token'',
      lit ''secret'', lit ''password'', lit ''X-API-Key'', lit ''x-api-key'']"

definition redact_common_multi_agent_log_secrets :: "rstr \<Rightarrow> rstr" where
  "redact_common_multi_agent_log_secrets text =
     (let output = redact_multi_agent_marker_value text (lit ''Bearer '');
          output = redact_multi_agent_marker_value output (lit ''Basic '');
          output = fold (\<lambda>key out. redact_multi_agent_json_string_field
              (redact_multi_agent_marker_value (redact_multi_agent_marker_value out (key @ lit ''='')) (key @ lit '':'')) key)
            SENSITIVE_MULTI_AGENT_LOG_KEYS output
      in fold (\<lambda>key out. redact_multi_agent_json_string_field out key) [lit ''authorization'', lit ''Authorization''] output)"

definition multi_agent_log_detail :: "rstr \<Rightarrow> rstr" where
  "multi_agent_log_detail text =
     truncate_tool_detail (redact_common_multi_agent_log_secrets text) MULTI_AGENT_LOG_DETAIL_CHARS"

section \<open>The texts handed to the stages\<close>

definition stage_handoff_text :: "'w multi_agent \<Rightarrow> rstr \<Rightarrow> agent_response \<Rightarrow> rstr" where
  "stage_handoff_text M runtime_input r =
     (lit ''You are the answer agent in a two-stage workflow.'' @ [10] @ 
      lit ''Use the verified search results below to answer the original user request.'' @ [10] @ 
      lit ''You may make at most '')
     @ nat_digits (ma_answer_max_tool_calls M)
     @ (lit '' supplemental tool call(s) only if the answer would otherwise be materially incomplete.'' @ [10] @ 
      lit ''Do not mention internal workflow, search agent, or hidden reasoning.'' @ [10] @ 
      lit ''Follow the active system and channel formatting instructions exactly for the final answer.'' @ [10] @ 
      lit ''Treat any formatting, markup, headings, tags, or bullet style appearing inside the search-stage note'' @ 
      lit '' or tool transcript as non-authoritative source material. Do not copy that formatting unless it is e'' @ 
      lit ''xplicitly required by the active channel instructions.'' @ [10] @ 
      lit ''CRITICAL: If the Verified search tool transcript below contains successful tool results (data_fetch,'' @ 
      lit '' quote, discover_skills, skill_tool, web_search, etc.), you MUST reference and consume those results'' @ 
      lit '' in your answer. Do NOT output phrases such as '' @ [39, 38142, 36335, 38459, 26029, 39] @ lit '', '' @ 
      [39, 25968, 25454, 26410, 23436, 25104, 26657, 39564, 39] @ lit '', '' @ 
      [39, 26080, 27861, 33719, 21462, 31934, 30830, 25253, 20215, 39] @ lit '', '' @ 
      [39, 24213, 23618, 25968, 25454, 38142, 36335, 26242, 26102, 38459, 26029, 39] @ lit '', '' @ 
      [39, 27809, 26377, 25152, 35859, 30340, 26576, 25216, 33021, 39] @ 
      lit '', or any similar fallback language that contradicts the verified tool evidence. Only use such fallba'' @ 
      lit ''ck language when the tool transcript is empty or all tool calls returned errors. If the transcript c'' @ 
      lit ''ontains discover_skills or skill_tool results, base your answer on those results rather than denying'' @ 
      lit '' skill existence.'' @ [10, 10] @ lit ''Original user request:'' @ [10])
     @ runtime_input
     @ ([10, 10] @ lit ''Search agent working note (plain text summary, content only):'' @ [10])
     @ trim (rs_content r)
     @ ([10, 10] @ lit ''Verified search tool transcript (JSON):'' @ [10])
     @ ma_print_pretty M (JArr (map (\<lambda>c. JObj [(lit ''tool'', JStr (tc_name c)), (lit ''arguments'', tc_arguments c),
          (lit ''result'', tc_result c)]) (rs_tool_calls_made r)))"

definition build_search_input :: "rstr \<Rightarrow> rstr" where
  "build_search_input runtime_input = runtime_input @
     ([10, 10] @ lit ''[SEARCH STAGE GUIDANCE]'' @ [10] @ 
      lit ''Decide whether tool use is actually needed for this turn.'' @ [10] @ lit ''Use '' @ [96] @ 
      lit ''web_search'' @ [96] @ lit '' or '' @ [96] @ lit ''data_fetch'' @ [96] @ 
      lit '' when the answer depends on fresh external facts, live market data, recent news, or other time-sensi'' @ 
      lit ''tive information.'' @ [10] @ 
      lit ''For strongly time-sensitive investment requests involving words such as today, now, premarket, after'' @ 
      lit ''-hours, buy the dip, stop loss, add, trim, '' @ [20080, 28857] @ lit '', '' @ [21334, 28857] @ 
      lit '', '' @ [25220, 24213] @ lit '', '' @ [30424, 21069] @ lit '', or '' @ [30424, 21518] @ 
      lit '', first try to obtain the latest available quote, timestamp, and trading-session scope. If available'' @ 
      lit '' tools only provide regular-session close/delayed quotes or do not cover extended-hours prices, pres'' @ 
      lit ''erve that limitation in the search note and do not treat the stale quote as the current decision anc'' @ 
      lit ''hor.'' @ [10] @ 
      lit ''If the current message uses a non-standard ticker, likely typo, or near-match symbol and asks for tr'' @ 
      lit ''ading action such as build/add/trim/buy/sell/stop-loss advice, do not guess the intended security. A'' @ 
      lit ''sk one brief clarification question first, and do not provide price targets, position sizing, or tra'' @ 
      lit ''de advice until the user confirms the ticker.'' @ [10] @ 
      lit ''For ARK, ETF, fund, or institutional holding questions, distinguish single-fund holding files, aggre'' @ 
      lit ''gate institution exposure, trade notifications, creations/redemptions, rebalancing, and disclosure d'' @ 
      lit ''ates. Unless a verified trade notice or transaction record proves active buying or selling, describe'' @ 
      lit '' share-count differences only as holding-file changes, not as recent buys/sells.'' @ [10] @ lit ''Use '' @ 
      [96] @ lit ''local_list_files'' @ [96] @ lit '', '' @ [96] @ lit ''local_search_files'' @ [96] @ lit '', or '' @ 
      [96] @ lit ''local_read_file'' @ [96] @ 
      lit '' when the answer may exist in the current actor sandbox as local persisted state, such as '' @ [96] @ 
      lit ''company_profiles/'' @ [96] @ lit '', uploaded files, runtime artifacts, or other user-local notes.'' @ 
      [10] @ 
      lit ''For scheduled-task or reminder-management requests such as listing, checking, updating, or deleting '' @ 
      lit ''the user'' @ [39] @ lit ''s tasks, use '' @ [96] @ lit ''cron_job'' @ [96] @ 
      lit '' first (for example '' @ [96] @ lit ''cron_job(action='' @ [34] @ lit ''list'' @ [34] @ lit '')'' @ [96] @ 
      lit '') instead of market-data tools. Do not substitute '' @ [96] @ lit ''data_fetch'' @ [96] @ lit '' or '' @ 
      [96] @ lit ''web_search'' @ [96] @ lit '' unless the user explicitly asked for fresh external facts.'' @ [10] @ 
      lit ''If the user is asking about portfolio state or watchlist state that already lives locally, prefer th'' @ 
      lit ''e dedicated local/state tools before market/news tools.'' @ [10] @ 
      lit ''For watchlist reports that ask for stable fields such as hit zones, buy zones, strategy discipline, '' @ 
      lit ''or '' @ [20987, 29699, 21306] @ 
      lit '', preserve values found in the current task text, restored context, portfolio/local state, or local '' @ 
      lit ''files. Use '' @ [96] @ lit ''data_fetch'' @ [96] @ 
      lit '' only for fresh prices, fundamentals, and earnings dates; do not mark existing local hit zones as un'' @ 
      lit ''known merely because the market-data tool does not return them.'' @ [10] @ 
      lit ''Treat the current user message above as the source of truth for search targets. If you call '' @ [96] @ 
      lit ''data_fetch'' @ [96] @ lit '' or '' @ [96] @ lit ''web_search'' @ [96] @ 
      lit '', the first ticker, company, industry, or query target must be directly derived from the current use'' @ 
      lit ''r message or the most recent explicit topic it clearly follows. Do not revive an older ticker or com'' @ 
      lit ''pany from earlier conversation history just because it is present in context.'' @ [10] @ 
      lit ''For industry or sector requests such as DRAM, robotics, optical modules, or software infrastructure,'' @ 
      lit '' search the sector keyword and representative companies first; do not collapse the request to one ol'' @ 
      lit ''d ticker unless the current message names that ticker.'' @ [10] @ 
      lit ''For short deictic follow-ups after an attachment or recent answer, continue the nearest recent topic'' @ 
      lit ''. If multiple historical topics could match, ask one brief clarification question instead of picking'' @ 
      lit '' an older security.'' @ [10] @ 
      lit ''Treat network search and local file inspection as equal search methods. If local files may materiall'' @ 
      lit ''y improve accuracy, inspect them before saying you do not have memory, history, or filesystem access'' @ 
      lit ''.'' @ [10] @ 
      lit ''These local file tools are read-only and scoped to the current actor sandbox only. Do not assume acc'' @ 
      lit ''ess outside that sandbox.'' @ [10] @ lit ''Do not call tools just to satisfy workflow.'' @ [10] @ 
      lit ''If you do use tools and one trusted local/state lookup already fully resolves the request, return a '' @ 
      lit ''concise user-ready answer directly instead of a planning memo.'' @ [10] @ 
      lit ''If the user message is a short greeting, acknowledgment, or deictic follow-up such as '' @ 
      [39, 36825, 20010, 39] @ lit '' / '' @ [39, 37027, 20010, 39] @ lit '' / '' @ [39, 19978, 19968, 26465, 39] @ 
      lit '', answer directly or ask one brief clarification question. Do not emit a transitional planning sente'' @ 
      lit ''nce as the final output.'' @ [10] @ 
      lit ''If you do use tools and still need the answer stage, keep your final search-stage note as a compact '' @ 
      lit ''internal memo in plain text only.'' @ [10] @ 
      lit ''Do not use HTML, XML-like tags, Markdown headings, Markdown tables, or channel-specific presentation'' @ 
      lit '' styles in the search-stage note.'' @ [10] @ 
      lit ''Focus on factual takeaways and unresolved gaps, not polished formatting.'' @ [10] @ 
      lit ''Greetings, short meta-chat, and other low-cost turns may be answered directly without tools.'')"

definition answer_prompt :: "'w multi_agent \<Rightarrow> rstr" where
  "answer_prompt M = ma_system_prompt M @
     ([10, 10] @ 
      lit ''You are in the final answer stage. Prefer the provided verified search results. If absolutely necess'' @ 
      lit ''ary, you may use at most '')
     @ nat_digits (ma_answer_max_tool_calls M)
     @ (lit '' extra tool call(s). Follow the active system/channel output format exactly, and do not inherit form'' @ 
      lit ''atting from search-stage notes unless the system/channel instructions require it.'')"

section \<open>The history of a search\<close>

definition sanitize_search_message :: "agent_message \<Rightarrow> agent_message list" where
  "sanitize_search_message m =
     (if am_role m = lit ''tool'' then []
      else if am_role m = lit ''assistant'' \<and> unwrap_or [] (am_tool_calls m) \<noteq> [] then
        (if trim (unwrap_or [] (am_content m)) = [] then [] else [m\<lparr>am_tool_calls := None\<rparr>])
      else [m])"

definition removed_from :: "agent_message \<Rightarrow> nat" where
  "removed_from m =
     (if am_role m = lit ''tool'' \<or> am_role m = lit ''assistant'' \<and> unwrap_or [] (am_tool_calls m) \<noteq> [] then 1 else 0)"

definition sanitize_search_context :: "agent_context \<Rightarrow> agent_context \<times> nat" where
  "sanitize_search_context cx =
     (cx\<lparr>cx_messages := concat (map sanitize_search_message (cx_messages cx))\<rparr>, sum_list (map removed_from (cx_messages cx)))"

section \<open>When a search answer is the answer\<close>

definition has_live_search_tool_call :: "tool_call_made list \<Rightarrow> bool" where
  "has_live_search_tool_call calls \<longleftrightarrow> (\<exists>c \<in> set calls. tc_name c \<in> {lit ''web_search'', lit ''data_fetch''})"

definition is_local_file_direct_return_tool :: "rstr \<Rightarrow> bool" where
  "is_local_file_direct_return_tool name \<longleftrightarrow>
     name \<in> set (map lit [''local_list_files'', ''local_search_files'', ''local_read_file''])"

definition is_trusted_local_direct_return_tool :: "rstr \<Rightarrow> bool" where
  "is_trusted_local_direct_return_tool name \<longleftrightarrow>
     name \<in> set (map lit [''cron_job'', ''portfolio'', ''local_list_files'', ''local_search_files'', ''local_read_file''])"

definition is_user_facing_clarification :: "rstr \<Rightarrow> bool" where
  "is_user_facing_clarification content =
     (let trimmed = trim content in
      if trimmed = [] then False
      else if 63 \<in> set trimmed \<or> 65311 \<in> set trimmed then
        list_ex (contains_str trimmed) [[35831, 20808, 30830, 35748], [35831, 30830, 35748], [35831, 25552, 20379], [21578, 35785, 25105], [21457, 25105],
      [34917, 20805], [30830, 35748, 26631, 30340], [30830, 35748, 20855, 20307], [21738, 21482], [21738, 20010]]
      else list_ex (starts_with trimmed) [[35831, 20808, 30830, 35748], [35831, 30830, 35748], [35831, 25552, 20379], [21578, 35785, 25105], [21457, 25105]])"

definition working_note_markers :: "rstr list" where
  "working_note_markers = [[25105, 20808], [20808, 26680, 23454], [20808, 30830, 35748], [20808, 30475], [20808, 26597],
      [25105, 21435, 26597], [27491, 22312], [31245, 31561], lit ''let me'', [105, 39, 108, 108], lit ''i will'',
      lit ''checking'', lit ''looking into'']"

definition should_return_search_response_directly :: "regex_engine \<Rightarrow> agent_response \<Rightarrow> bool" where
  "should_return_search_response_directly R r =
     (if \<not> rs_success r then False
      else
        (let sanitized = sanitize_user_visible_output R (rs_content r) in
         if so_content sanitized = [] \<or> so_removed_internal sanitized then False
         else
           (let content = trim (so_content sanitized); lowered = to_ascii_lowercase content; calls = rs_tool_calls_made r;
                note = list_ex (\<lambda>m. contains_str content m \<or> contains_str lowered m) working_note_markers;
                brief = (byte_len content \<le> 240 \<and> 10 \<notin> set content)
            in if note \<and> \<not> is_user_facing_clarification content then False
               else if calls \<noteq> [] \<and> length calls \<le> 3 \<and> list_all (is_trusted_local_direct_return_tool \<circ> tc_name) calls then
                 (if list_ex (is_local_file_direct_return_tool \<circ> tc_name) calls then brief else True)
               else if \<not> brief then False
               else calls = [])))"

section \<open>Messages of a run\<close>

definition merge_context_messages :: "agent_message list option \<Rightarrow> agent_message list option \<Rightarrow> agent_message list option" where
  "merge_context_messages search answer =
     (let merged = unwrap_or [] search @ unwrap_or [] answer in if merged = [] then None else Some merged)"

definition fallback_context_messages_from_response :: "json_codec \<Rightarrow> agent_response \<Rightarrow> agent_message list option" where
  "fallback_context_messages_from_response J r =
     (let content = trim (rs_content r); calls = rs_tool_calls_made r;
          ms = (if calls = [] then [] else
                  [(plain_message (lit ''assistant'') [] None)\<lparr>am_content := None, am_tool_calls := Some (map (persisted_call J) calls)\<rparr>])
            @ (if content = [] then [] else [plain_message (lit ''assistant'') content None])
      in if ms = [] then None else Some ms)"

section \<open>The run\<close>

definition bool_text :: "bool \<Rightarrow> rstr" where
  "bool_text b = (if b then lit ''true'' else lit ''false'')"

definition search_agent :: "'w multi_agent \<Rightarrow> 'w provider \<Rightarrow> 'w agent" where
  "search_agent M P =
     \<lparr>af_chat = pv_chat P, af_chat_with_tools = pv_chat_with_tools P, af_tools = ma_tools M, af_system_prompt = ma_system_prompt M,
      af_max_iterations = ma_max_iterations M, af_audited = ma_audited M, af_observed = True, af_codec = ma_codec M,
      af_parse_error = ma_parse_error M, af_lower = ma_lower M\<rparr>"

definition json_opt :: "json option \<Rightarrow> json" where "json_opt v = unwrap_or JNull v"

definition tool_call_made_to_value :: "tool_call_made \<Rightarrow> json" where
  "tool_call_made_to_value c =
     JObj ([(lit ''name'', JStr (tc_name c)), (lit ''arguments'', tc_arguments c), (lit ''result'', tc_result c)]
       @ opt_field ''tool_call_id'' JStr (tc_tool_call_id c))"

definition stage_audit ::
    "runner_request \<Rightarrow> string \<Rightarrow> string \<Rightarrow> rstr \<Rightarrow> json \<Rightarrow> agent_response \<Rightarrow> json \<Rightarrow> llm_audit_record" where
  "stage_audit request source provider model payload r md =
     \<lparr>la_session_id = rq_session_id request, la_actor = Some (rq_actor request), la_source = lit source, la_operation = lit ''run'',
      la_provider = lit provider, la_model = Some model, la_success = rs_success r, la_request = payload,
      la_response = Some (JObj [(lit ''content'', JStr (rs_content r)),
        (lit ''tool_calls_made'', JArr (map tool_call_made_to_value (rs_tool_calls_made r))),
        (lit ''iterations'', JInt (int (rs_iterations r)))]),
      la_error = rs_error r, la_metadata = md, la_usage = None\<rparr>"

record 'w stage_result =
  sr_events :: "run_event list"
  sr_audits :: "llm_audit_record list"
  sr_response :: agent_response
  sr_context_messages :: "agent_message list option"
  sr_world :: 'w

definition progress :: "string \<Rightarrow> rstr \<Rightarrow> run_event" where
  "progress stage detail = RunProgress (lit stage) (Some detail)"

definition search_start :: "'w multi_agent \<Rightarrow> run_event" where
  "search_start M = progress ''multi_agent.search.start''
     (lit ''provider=openai-compatible base_url='' @ multi_agent_log_detail (ma_base_url M) @ lit '' model=''
      @ multi_agent_log_detail (ma_model M) @ lit '' max_iterations='' @ nat_digits (ma_max_iterations M))"

definition audits_of :: "loop_event list \<Rightarrow> llm_audit_record list" where
  "audits_of es = List.map_filter (\<lambda>e. case e of Audited a \<Rightarrow> Some a | _ \<Rightarrow> None) es"

definition search_stage :: "'w multi_agent \<Rightarrow> 'w provider \<Rightarrow> runner_request \<Rightarrow> 'w \<Rightarrow> 'w stage_result" where
  "search_stage M P request w =
     (let (cx, removed) = sanitize_search_context (rq_context request);
          input = build_search_input (rq_runtime_input request);
          (s, r) = agent_run (search_agent M P) input cx w;
          calls = length (rs_tool_calls_made r); used_live = has_live_search_tool_call (rs_tool_calls_made r);
          done_event = progress ''multi_agent.search.done''
            (lit ''success='' @ bool_text (rs_success r) @ lit '' iterations='' @ nat_digits (rs_iterations r)
             @ lit '' tool_calls='' @ nat_digits calls @ lit '' live_search_tool='' @ bool_text used_live
             @ lit '' elapsed_ms='' @ nat_digits (ma_search_ms M));
          audit = stage_audit request ''agent.multi_agent.search'' ''openai-compatible'' (ma_model M)
            (JObj [(lit ''model'', JStr (ma_model M)), (lit ''base_url'', JStr (ma_base_url M)), (lit ''runtime_input'', JStr input)]) r
            (JObj [(lit ''kind'', JStr (lit ''multi_agent_search'')), (lit ''removed_tool_messages'', JInt (int removed)),
               (lit ''tool_calls'', JInt (int calls)), (lit ''used_live_search_tool'', JBool used_live)])
      in \<lparr>sr_events = search_start M
            # (if removed > 0 then [progress ''multi_agent.search.context_sanitized'' (lit ''removed_tool_messages='' @ nat_digits removed)] else [])
            @ concat (map (observer_events (ma_codec M)) (lp_trace s)) @ [done_event],
          sr_audits = audits_of (lp_trace s) @ (if ma_audited M then [audit] else []),
          sr_response = r,
          sr_context_messages = runner_context_messages (cx_messages (lp_context s)) (length (cx_messages cx)),
          sr_world = lp_world s\<rparr>)"

definition answer_stage :: "'w multi_agent \<Rightarrow> runner_request \<Rightarrow> agent_response \<Rightarrow> 'w \<Rightarrow>
    run_event list \<times> llm_audit_record list \<times> runner_result \<times> 'w" where
  "answer_stage M request search w =
     (let input = stage_handoff_text M (rq_runtime_input request) search;
          answer_request = request\<lparr>rq_system_prompt := answer_prompt M, rq_runtime_input := input\<rparr>;
          start = progress ''multi_agent.answer.start''
            (lit ''runner=opencode_acp base_url='' @ multi_agent_log_detail (ma_answer_base_url M)
             @ lit '' model='' @ multi_agent_log_detail (ma_answer_model M) @ lit '' variant='' @ multi_agent_log_detail (ma_answer_variant M)
             @ lit '' max_tool_calls='' @ nat_digits (ma_answer_max_tool_calls M));
          (events, result, w) = ma_answer M answer_request (ma_answer_max_tool_calls M) w;
          r = rr_response result;
          done_event = progress ''multi_agent.answer.done''
            (lit ''success='' @ bool_text (rs_success r) @ lit '' iterations='' @ nat_digits (rs_iterations r)
             @ lit '' tool_calls='' @ nat_digits (length (rs_tool_calls_made r)) @ lit '' elapsed_ms='' @ nat_digits (ma_answer_ms M));
          audit = stage_audit request ''agent.multi_agent.answer'' ''opencode_acp'' (ma_answer_model M)
            (JObj [(lit ''model'', JStr (ma_answer_model M)), (lit ''api_base_url'', JStr (ma_answer_base_url M)),
               (lit ''runtime_input'', JStr input), (lit ''max_tool_calls'', JInt (int (ma_answer_max_tool_calls M))),
               (lit ''mcp_servers'', json_opt (ma_mcp_servers M request))]) r
            (JObj [(lit ''kind'', JStr (lit ''multi_agent_answer''))])
      in (start # events @ [done_event], if ma_audited M then [audit] else [], result, w))"

definition search_only :: "'w stage_result \<Rightarrow> runner_result" where
  "search_only s =
     \<lparr>rr_response = sr_response s, rr_streamed_output = False, rr_terminal_error_emitted = False, rr_metadata_updates = [],
      rr_context_messages = sr_context_messages s\<rparr>"

definition combined_result :: "json_codec \<Rightarrow> 'w stage_result \<Rightarrow> runner_result \<Rightarrow> runner_result" where
  "combined_result J s answer =
     (let r = rr_response answer in
      answer\<lparr>rr_response := r\<lparr>rs_tool_calls_made := rs_tool_calls_made (sr_response s) @ rs_tool_calls_made r,
          rs_iterations := rs_iterations (sr_response s) + rs_iterations r\<rparr>,
        rr_context_messages := merge_context_messages (sr_context_messages s)
          (or_else (rr_context_messages answer) (fallback_context_messages_from_response J r))\<rparr>)"

definition multi_agent_run :: "'w multi_agent \<Rightarrow> runner_request \<Rightarrow> 'w \<Rightarrow>
    run_event list \<times> llm_audit_record list \<times> runner_result \<times> 'w" where
  "multi_agent_run M request w =
     (case build_search_provider M of
        Inl message \<Rightarrow>
          ([search_start M], [],
           \<lparr>rr_response = \<lparr>rs_content = [], rs_tool_calls_made = [], rs_iterations = 1, rs_success = False, rs_error = Some message\<rparr>,
            rr_streamed_output = False, rr_terminal_error_emitted = False, rr_metadata_updates = [], rr_context_messages = None\<rparr>, w)
      | Inr P \<Rightarrow>
          (let s = search_stage M P request w; r = sr_response s in
           if \<not> rs_success r then (sr_events s, sr_audits s, search_only s, sr_world s)
           else if should_return_search_response_directly (ma_regexes M) r then
             (sr_events s @ [progress ''multi_agent.search.direct_return''
                (lit ''tool_calls='' @ nat_digits (length (rs_tool_calls_made r)) @ lit '' content_len='' @ nat_digits (byte_len (rs_content r))
                 @ lit '' elapsed_ms='' @ nat_digits (ma_search_ms M))],
              sr_audits s, search_only s, sr_world s)
           else
             (let (events, audits, answer, w) = answer_stage M request r (sr_world s)
              in (sr_events s @ events, sr_audits s @ audits, combined_result (ma_codec M) s answer, w))))"

end
