(* ===== verification/Tool_Properties.thy ===== *)
theory Tool_Properties
  imports Multi_Agent
begin

text \<open>What holds of the tools a model calls: the guard, the requests of the loop, and the history that a search starts with.\<close>

section \<open>Histories\<close>

definition calls_by_assistants :: "agent_message list \<Rightarrow> bool" where
  "calls_by_assistants ms \<longleftrightarrow> list_all (\<lambda>m. am_role m = lit ''assistant'' \<or> unwrap_or [] (am_tool_calls m) = []) ms"

lemma calls_by_assistants_simps [simp]:
  "calls_by_assistants []"
  "calls_by_assistants (xs @ ys) \<longleftrightarrow> calls_by_assistants xs \<and> calls_by_assistants ys"
  "calls_by_assistants [plain_message role content md]"
  "calls_by_assistants [tool_agent_message content i n md]"
  by (simp_all add: calls_by_assistants_def plain_message_def tool_agent_message_def)

lemma pushed_calls:
  "calls_by_assistants (dn_out s) \<Longrightarrow> calls_by_assistants (dn_out (dn_flush md s))"
  "calls_by_assistants (dn_out s) \<Longrightarrow> calls_by_assistants (dn_out (push_part J md p s))"
proof -
  show flush: "calls_by_assistants (dn_out s) \<Longrightarrow> calls_by_assistants (dn_out (dn_flush md s))" for s md
    by (simp add: dn_flush_def calls_by_assistants_def)
  show "calls_by_assistants (dn_out s) \<Longrightarrow> calls_by_assistants (dn_out (push_part J md p s))"
    using flush [of s md]
    by (auto simp: push_part_def push_text_part_def push_tool_call_part_def push_tool_result_part_def Let_def calls_by_assistants_def)
qed

lemma denormalized_calls: "calls_by_assistants (denormalize_normalized_message J m)"
proof -
  have "calls_by_assistants (dn_out s) \<Longrightarrow> calls_by_assistants (dn_out (fold (push_part J md) ps s))" for md ps s
    by (induction ps arbitrary: s) (simp_all add: pushed_calls)
  from this [of dn_start "nm_metadata m" "nm_content m"] show ?thesis
    by (simp add: denormalize_normalized_message_def denormalize_assistant_message_def denormalize_text_role_def Let_def
        pushed_calls dn_start_def)
qed

lemma stored_calls: "calls_by_assistants (session_message_to_agent_messages J m)"
  by (auto simp: session_message_to_agent_messages_def denormalized_calls split: option.split)

lemma restored_calls: "calls_by_assistants (restored_messages J R m)"
proof -
  have "calls_by_assistants ms \<Longrightarrow> calls_by_assistants (List.map_filter (restored_message J R m) ms)" for ms
    by (induction ms) (auto simp: map_filter_simps restored_message_def calls_by_assistants_def Let_def split: option.split if_splits)
  then show ?thesis using stored_calls by (simp add: restored_messages_def Let_def)
qed

lemma context_calls:
  assumes "restore_context J R enabled sid n st = (st', cx)"
  shows "calls_by_assistants (cx_messages cx)"
proof -
  have concat: "(\<And>m. calls_by_assistants (f m)) \<Longrightarrow> calls_by_assistants (concat (map f ms))" for f :: "session_message \<Rightarrow> _" and ms
    by (induction ms) simp_all
  have skills: "calls_by_assistants (cx_messages c) \<Longrightarrow>
      calls_by_assistants (cx_messages (fold (\<lambda>k. add_user_message (sk_prompt k)) ks c))" for c ks
    by (induction ks arbitrary: c) (simp_all add: add_user_message_def)
  have restored: "calls_by_assistants (concat (map (restored_messages J R) ms))" for ms
    by (rule concat) (rule restored_calls)
  obtain st1 r where l: "load_session sid st = (st1, r)" by fastforce
  show ?thesis
  proof (cases "\<exists>s. r = Inr (Some s)")
    case True
    then obtain s where r: "r = Inr (Some s)" by blast
    have start: "calls_by_assistants (cx_messages (case cs_actor s of Some a \<Rightarrow> set_actor_identity a (context_new sid) | None \<Rightarrow> context_new sid))"
      by (simp add: context_new_def set_actor_identity_def split: option.split)
    define c where "c = (case cs_actor s of Some a \<Rightarrow> set_actor_identity a (context_new sid) | None \<Rightarrow> context_new sid)"
    define ms where "ms = select_messages_after_compact_boundary (cs_messages s) n"
    define ks where "ks = filter (\<lambda>k. case enabled of Some f \<Rightarrow> f (sk_skill_name k) | None \<Rightarrow> True)
        (filter (\<lambda>k. trim (sk_prompt k) \<noteq> []) (invoked_skills_from_metadata (cs_metadata s)))"
    define d where "d = (if has_compact_skill_snapshot ms then c else fold (\<lambda>k. add_user_message (sk_prompt k)) ks c)"
    have "cx = d\<lparr>cx_messages := cx_messages d @ concat (map (restored_messages J R) ms)\<rparr>"
      using assms unfolding restore_context_def l r Let_def c_def ms_def ks_def d_def
      by (simp only: prod.case sum.case option.case prod.inject)
    moreover have "calls_by_assistants (cx_messages d)"
      using start skills unfolding d_def c_def by (cases "has_compact_skill_snapshot ms") simp_all
    ultimately show ?thesis using restored by simp
  next
    case False
    then have "cx = context_new sid"
      using assms unfolding restore_context_def l by (auto split: sum.splits option.splits)
    then show ?thesis by (simp add: context_new_def)
  qed
qed

lemma sanitized_answered:
  assumes "calls_by_assistants (cx_messages cx)"
  shows "answered (build_messages p (cx_messages (fst (sanitize_search_context cx))))"
proof -
  have quiet: "answered ms" if "list_all (\<lambda>m. ch_role m \<noteq> lit ''tool'' \<and> unwrap_or [] (ch_tool_calls m) = []) ms" for ms
    using that by (induction ms) simp_all
  have one: "list_all (\<lambda>m. ch_role m \<noteq> lit ''tool'' \<and> unwrap_or [] (ch_tool_calls m) = [])
      (map to_chat_message (sanitize_search_message m))"
    if "am_role m = lit ''assistant'' \<or> unwrap_or [] (am_tool_calls m) = []" for m
  proof (cases "am_tool_calls m")
    case None
    then show ?thesis by (simp add: sanitize_search_message_def to_chat_message_def)
  next
    case (Some calls)
    then show ?thesis using that
      by (cases calls) (simp_all add: sanitize_search_message_def to_chat_message_def map_filter_simps)
  qed
  have sane: "list_all (\<lambda>m. ch_role m \<noteq> lit ''tool'' \<and> unwrap_or [] (ch_tool_calls m) = [])
      (map to_chat_message (concat (map sanitize_search_message ms)))" if "calls_by_assistants ms" for ms
    using that
  proof (induction ms)
    case (Cons m ms)
    then show ?case using one [of m] by (simp add: calls_by_assistants_def)
  qed simp
  show ?thesis using sane [OF assms] quiet
    by (simp add: build_messages_def sanitize_search_context_def system_message_def list_all_append)
qed

section \<open>The guard\<close>

text \<open>Two registries whose tools agree on every call that the guard lets through.\<close>

definition same_when_allowed :: "(rstr \<Rightarrow> rstr) \<Rightarrow> json_codec \<Rightarrow> 'w tool_registry \<Rightarrow> 'w tool_registry \<Rightarrow> bool" where
  "same_when_allowed lower J R R' \<longleftrightarrow>
     tr_guard R' = tr_guard R \<and>
     list_all2 (\<lambda>(n, t) (n', t'). n' = n \<and> to_openai_schema t' = to_openai_schema t \<and>
       (\<forall>args w. \<not> isl (guard_check lower J (tr_guard R) n args) \<longrightarrow> tl_execute t' args w = tl_execute t args w))
       (tr_tools R) (tr_tools R')"

lemma same_schemas:
  assumes "same_when_allowed lower J R R'"
  shows "get_tools_schema R' = get_tools_schema R" "tr_tools R' = [] \<longleftrightarrow> tr_tools R = []"
proof -
  have "list_all2 (\<lambda>x y. to_openai_schema (snd y) = to_openai_schema (snd x)) (tr_tools R) (tr_tools R')"
    using assms unfolding same_when_allowed_def by (auto elim: list_all2_mono)
  then show "get_tools_schema R' = get_tools_schema R"
    unfolding get_tools_schema_def by (induction rule: list_all2_induct) simp_all
  show "tr_tools R' = [] \<longleftrightarrow> tr_tools R = []"
    using assms by (auto simp: same_when_allowed_def)
qed

lemma same_execution:
  assumes "same_when_allowed lower J R R'"
  shows "execute_tool lower J R' name args w = execute_tool lower J R name args w"
proof -
  let ?g = "tr_guard R"
  have "list_all2 (\<lambda>(n, t) (n', t'). n' = n \<and>
      (\<forall>args w. \<not> isl (guard_check lower J ?g n args) \<longrightarrow> tl_execute t' args w = tl_execute t args w)) (tr_tools R) (tr_tools R')"
    using assms unfolding same_when_allowed_def by (auto elim: list_all2_mono)
  then have "case (map_of (tr_tools R) name, map_of (tr_tools R') name) of
      (None, None) \<Rightarrow> True
    | (Some t, Some t') \<Rightarrow> \<not> isl (guard_check lower J ?g name args) \<longrightarrow> tl_execute t' args w = tl_execute t args w
    | _ \<Rightarrow> False"
    by (induction rule: list_all2_induct) (auto split: option.splits)
  then show ?thesis using assms
    by (auto simp: execute_tool_def same_when_allowed_def split: option.splits sum.split)
qed

lemma same_steps:
  assumes "same_when_allowed (af_lower A) (af_codec A) (af_tools A) R'"
  shows "run_call (A\<lparr>af_tools := R'\<rparr>) c s = run_call A c s" "ask (A\<lparr>af_tools := R'\<rparr>) i s = ask A i s"
proof -
  show "run_call (A\<lparr>af_tools := R'\<rparr>) c s = run_call A c s"
    by (simp add: run_call_def observe_def same_execution [OF assms] Let_def split: option.split prod.split sum.split)
  show "ask (A\<lparr>af_tools := R'\<rparr>) i s = ask A i s"
    by (simp add: ask_def has_tools_def operation_name_def record_audit_def same_schemas [OF assms] cong: if_cong sum.case_cong)
qed

lemma same_loop:
  assumes "same_when_allowed (af_lower A) (af_codec A) (af_tools A) R'"
  shows "agent_loop (A\<lparr>af_tools := R'\<rparr>) left s = agent_loop A left s"
proof (induction left arbitrary: s)
  case (Suc left)
  have "run_call (A\<lparr>af_tools := R'\<rparr>) = run_call A" by (intro ext same_steps(1) [OF assms])
  then show ?case using Suc.IH by (simp add: same_steps(2) [OF assms] Let_def split: prod.split sum.split)
qed simp

section \<open>Properties\<close>

text \<open>C7: A tool never runs with arguments that the guard refuses: whatever tools would do with such arguments makes no
  difference to a run of the agent, to its answer, to its messages or to the world.\<close>

theorem blocked_calls_never_run:
  assumes "same_when_allowed (af_lower A) (af_codec A) (af_tools A) R'"
  shows "agent_run (A\<lparr>af_tools := R'\<rparr>) user_input cx w = agent_run A user_input cx w"
  by (simp add: agent_run_def same_loop [OF assms])

text \<open>C6: If every call in the history handed in is answered, a run of the agent asks the model at most as often as it is
  configured to, every request is one that a model service accepts (each call answered, in order, before anything else), and
  so are the messages left behind; and the run ends with an answer, which is the last of the messages, or with an error.\<close>

theorem agent_requests_accepted:
  assumes "answered (build_messages (af_system_prompt A) (cx_messages cx))" "agent_run A user_input cx w = (s, r)"
  shows "list_all answered (asked (lp_trace s)) \<and>
    answered (build_messages (af_system_prompt A) (cx_messages (lp_context s))) \<and>
    length (asked (lp_trace s)) = rs_iterations r \<and> rs_iterations r \<le> af_max_iterations A \<and> outcome_fits (lp_context s) r"
proof -
  let ?s = "\<lparr>lp_context = add_user_message user_input cx, lp_made = [], lp_world = w, lp_trace = []\<rparr>"
  have run: "agent_loop A (af_max_iterations A) ?s = (s, r)" using assms(2) by (simp add: agent_run_def)
  have "loop_ok A ?s" using assms(1)
    by (simp add: loop_ok_def add_user_message_def build_messages_append answered_append to_chat_message_def plain_message_def)
  from loop_keeps_ok [OF this, of "af_max_iterations A"] loop_bounded [OF run] loop_outcome [OF run] show ?thesis
    by (simp add: run loop_ok_def)
qed

text \<open>C5: Every request that the search stage makes is one that a model service accepts, whatever conversation is stored: the
  context of a run is restored from the store, and the search drops the tool messages and the calls of the past.\<close>

theorem search_requests_accepted:
  assumes "restore_context J R enabled sid n st = (st', cx)"
    "agent_run (search_agent M P) user_input (fst (sanitize_search_context cx)) w = (s, r)"
  shows "list_all answered (asked (lp_trace s))"
proof -
  let ?cx = "fst (sanitize_search_context cx)"
  let ?s = "\<lparr>lp_context = add_user_message user_input ?cx, lp_made = [], lp_world = w, lp_trace = []\<rparr>"
  have "answered (build_messages (af_system_prompt (search_agent M P)) (cx_messages ?cx))"
    by (rule sanitized_answered) (rule context_calls [OF assms(1)])
  then have "loop_ok (search_agent M P) ?s"
    by (simp add: loop_ok_def add_user_message_def build_messages_append answered_append to_chat_message_def plain_message_def)
  from loop_keeps_ok [OF this, of "af_max_iterations (search_agent M P)"] show ?thesis
    using assms(2) by (simp add: agent_run_def loop_ok_def)
qed

text \<open>C11: An answer that used a tool makes the next request of the function-calling agent one that a model service refuses. A
  turn with an answer and a call of a tool that is persisted is stored with its calls and without their results; wherever
  it stands in the context restored for a later run, and whatever comes before it and after it (as long as the next message
  is no result of a tool), the agent's first request has calls that are never answered.\<close>

theorem stored_calls_unanswered:
  assumes "trim (rs_content r) \<noteq> []" "\<exists>call \<in> set (rs_tool_calls_made r). should_persist_tool_result call"
    "0 < af_max_iterations A" "later = [] \<or> am_role (hd later) \<noteq> lit ''tool''"
  shows "\<exists>turn. persistable_turn_from_response J r md = Some turn \<and>
    (cx_messages cx = earlier @ restored_messages J R (session_message_from_normalized turn stamp) @ later \<longrightarrow>
     agent_run A input cx w = (s, r') \<longrightarrow> asked (lp_trace s) \<noteq> [] \<and> \<not> answered (hd (asked (lp_trace s))))"
proof -
  obtain turn turn_md calls where turn: "persistable_turn_from_response J r md = Some turn"
    and calls: "calls = map (persisted_call J) (filter should_persist_tool_result (rs_tool_calls_made r))" "calls \<noteq> []"
    and again: "restored_messages J R (session_message_from_normalized turn stamp) =
      [(plain_message (lit ''assistant'') (sanitize_assistant_context_content R (trim (rs_content r))) (Some turn_md))\<lparr>am_tool_calls := Some calls\<rparr>]"
    using stored_answer_restored [OF assms(1,2), where J = J and R = R and md = md and now = stamp] by metis
  obtain c cs where c: "List.map_filter tool_call_from_value calls = c # cs"
    using calls by (cases "filter should_persist_tool_result (rs_tool_calls_made r)")
      (auto simp: map_filter_simps persisted_call_def tool_call_from_value_def struct_fields_def json_get_def str_eval)
  let ?text = "sanitize_assistant_context_content R (trim (rs_content r))"
  define m where "m = to_chat_message ((plain_message (lit ''assistant'') ?text (Some turn_md))\<lparr>am_tool_calls := Some calls\<rparr>)"
  define u where "u = to_chat_message (plain_message (lit ''user'') input None)"
  have m: "ch_tool_calls m = Some (c # cs)" "ch_role m \<noteq> lit ''tool''"
    by (simp_all add: m_def to_chat_message_def c plain_message_def)
  have "ch_role (hd (map to_chat_message later @ [u])) \<noteq> lit ''tool''"
    using assms(4) by (cases later) (auto simp: u_def to_chat_message_def plain_message_def)
  then have open_call: "\<not> answered (m # map to_chat_message later @ [u])"
    by (cases "map to_chat_message later @ [u]") (auto simp: m(1) Let_def answers_def)
  have "asked (lp_trace s) \<noteq> [] \<and> \<not> answered (hd (asked (lp_trace s)))"
    if cx: "cx_messages cx = earlier @ restored_messages J R (session_message_from_normalized turn stamp) @ later"
      and run: "agent_run A input cx w = (s, r')"
  proof -
    have "build_messages (af_system_prompt A) (cx_messages (add_user_message input cx)) =
        build_messages (af_system_prompt A) earlier @ m # map to_chat_message later @ [u]"
      by (simp add: add_user_message_def cx again build_messages_append m_def u_def)
    then have "\<not> answered (build_messages (af_system_prompt A) (cx_messages (add_user_message input cx)))"
      using answered_rest open_call m(2) by metis
    then show ?thesis using first_request [OF assms(3) run] by simp
  qed
  then show ?thesis using turn by blast
qed

section \<open>Examples\<close>

text \<open>A model that asks for one call and then answers; a tool that counts its runs; a guard against deletions.\<close>

definition exec_codec :: json_codec where
  "exec_codec = \<lparr>jc_parse = (\<lambda>s. Some (JStr s)), jc_print = (\<lambda>v. case v of JStr s \<Rightarrow> s | _ \<Rightarrow> lit ''null'')\<rparr>"

definition exec_guard :: tool_guard where
  "exec_guard = \<lparr>tg_enabled = True, tg_mode = Block, tg_apply_tools = [lit ''*''], tg_deny_patterns = [lit ''rm'']\<rparr>"

definition exec_tool :: "nat \<Rightarrow> nat tool" where
  "exec_tool harm = \<lparr>tl_name = lit ''exec'', tl_description = [], tl_parameters = [],
     tl_execute = (\<lambda>args w. (Inr JNull, if args = JStr (lit ''rm'') then w + harm else Suc w))\<rparr>"

definition exec_registry :: "nat \<Rightarrow> nat tool_registry" where
  "exec_registry harm = register (exec_tool harm) (registry_new_with_guard exec_guard)"

definition exec_model :: "chat_message list \<Rightarrow> json list \<Rightarrow> nat \<Rightarrow> chat_response hone_result \<times> nat" where
  "exec_model ms schemas w =
     (Inr \<lparr>cr_content = lit ''ok'', cr_reasoning_content = None,
        cr_tool_calls = (if length ms = 1 then Some [\<lparr>tk_id = lit ''1'', tk_type = lit ''function'', tk_name = lit ''exec'', tk_arguments = lit ''rm''\<rparr>]
          else None), cr_usage = None\<rparr>, w)"

definition exec_provider :: "nat provider" where
  "exec_provider = \<lparr>pv_chat = (\<lambda>ms w. (Inl (Llm []), w)), pv_chat_with_tools = exec_model\<rparr>"

definition exec_multi :: "nat multi_agent" where
  "exec_multi = \<lparr>ma_system_prompt = [], ma_api_key = lit ''k'', ma_base_url = [], ma_model = [], ma_max_iterations = 3,
     ma_answer_base_url = [], ma_answer_model = [], ma_answer_variant = [], ma_answer_max_tool_calls = 1, ma_tools = exec_registry 0,
     ma_audited = False, ma_provider = Inr exec_provider, ma_answer = (\<lambda>r n w. ([], search_only
       \<lparr>sr_events = [], sr_audits = [], sr_response = empty_response, sr_context_messages = None, sr_world = w\<rparr>, w)),
     ma_mcp_servers = (\<lambda>_. None), ma_print_pretty = jc_print exec_codec, ma_codec = exec_codec, ma_parse_error = (\<lambda>_. []),
     ma_lower = id, ma_regexes = no_regex, ma_search_ms = 0, ma_answer_ms = 0\<rparr>"

definition exec_agent :: "nat agent" where
  "exec_agent = search_agent exec_multi exec_provider"

lemma exec_simps:
  "af_lower exec_agent = id" "af_codec exec_agent = exec_codec" "af_tools exec_agent = exec_registry 0" "af_system_prompt exec_agent = []"
  "af_max_iterations exec_agent = 3"
  by (simp_all add: exec_agent_def search_agent_def exec_multi_def)

lemma exec_blocked: "isl (guard_check id exec_codec exec_guard (lit ''exec'') (JStr (lit ''rm'')))"
  unfolding blocked_iff
  by (auto simp: exec_guard_def exec_codec_def inclusion_def exclusion_def trim_def trim_start_def is_whitespace_def strip_prefix_def str_eval)

lemma blocked_calls_never_run_witness:
  "agent_run (exec_agent\<lparr>af_tools := exec_registry 5\<rparr>) (lit ''hi'') (context_new []) 0 = agent_run exec_agent (lit ''hi'') (context_new []) 0"
proof (rule blocked_calls_never_run)
  have "args \<noteq> JStr (lit ''rm'')" if "\<not> isl (guard_check id exec_codec exec_guard (lit ''exec'') args)" for args
    using that exec_blocked by auto
  then show "same_when_allowed (af_lower exec_agent) (af_codec exec_agent) (af_tools exec_agent) (exec_registry 5)"
    by (simp add: exec_simps same_when_allowed_def exec_registry_def register_def registry_new_with_guard_def exec_tool_def
        to_openai_schema_def)
qed

lemma agent_requests_accepted_witness:
  "length (asked (lp_trace (fst (agent_run exec_agent (lit ''hi'') (context_new []) 0)))) \<le> 3"
proof -
  have "answered (build_messages (af_system_prompt exec_agent) (cx_messages (context_new [])))"
    by (simp add: exec_simps build_messages_def context_new_def)
  from agent_requests_accepted [OF this surjective_pairing] show ?thesis by (simp add: exec_simps)
qed

definition exec_history :: agent_context where
  "exec_history = (context_new [])\<lparr>cx_messages := restored_messages null_codec no_regex
     (session_message_from_normalized (the (persistable_turn_from_response null_codec demo_answer_with_tool None)) [])\<rparr>"

lemma stored_calls_unanswered_witness:
  "\<not> answered (hd (asked (lp_trace (fst (agent_run exec_agent (lit ''hi'') exec_history 0)))))"
proof -
  have t: "trim [97] = [97]" "trim [113] = [113]" by (simp_all add: trim_def is_whitespace_def)
  have said: "trim (rs_content demo_answer_with_tool) \<noteq> []" by (simp add: demo_answer_with_tool_def t)
  have call: "\<exists>call \<in> set (rs_tool_calls_made demo_answer_with_tool). should_persist_tool_result call"
    by (simp add: demo_answer_with_tool_def should_persist_tool_result_def matches_skill_runtime_tool_name_def t lit_def)
  have some: "0 < af_max_iterations exec_agent" by (simp add: exec_simps)
  obtain s r' where run: "agent_run exec_agent (lit ''hi'') exec_history 0 = (s, r')" by fastforce
  have "[] = ([] :: agent_message list) \<or> am_role (hd []) \<noteq> lit ''tool''" by simp
  from stored_calls_unanswered [OF said call some this, of null_codec None exec_history "[]" no_regex "[]" "lit ''hi''" 0 s r']
  show ?thesis using run by (auto simp: exec_history_def)
qed

text \<open>A search after an answer that used a tool.\<close>

definition exec_store :: session_storage where
  "exec_store = demo_storage\<lparr>ss_index := None, ss_files := \<lparr>d_files = [(lit ''c1.json'', Parsed (demo_session\<lparr>cs_messages :=
     [session_message_from_normalized (the (persistable_turn_from_response null_codec demo_answer_with_tool None)) []]\<rparr>))], d_write_error = None\<rparr>\<rparr>"

lemma search_requests_accepted_witness:
  "list_all answered (asked (lp_trace (fst (agent_run (search_agent exec_multi exec_provider) (lit ''hi'')
     (fst (sanitize_search_context (snd (restore_context null_codec no_regex None (lit ''c1'') None exec_store)))) 0))))"
  by (rule search_requests_accepted [OF surjective_pairing surjective_pairing])

end
