(* ===== verification/Spec2Isabelle.thy ===== *)
theory Spec2Isabelle
  imports Actor Calendar Time_Windows Event Disk Portfolio Quota Cron_Schedule Cron_Storage Cron_History Scheduler
    Subscription Event_Store Digest_Buffer Web_Auth Renderer Digest_Curation Router Dispatch Dispatch_Cap
    Digest_Scheduler Stream_Formatter Session_Message Session_Store Ingress User_Visible
    Message_Split Message_Markup Outbound Conversation Compaction Response_Finalizer Run_Events Agent_Session Agent_Run Run_Properties
    Heartbeat_Parse Heartbeat_Guards Scheduled_Prompt Scheduled_Tasks Scheduled_Properties Local_Files Object_Store
    Tool_Guard Agent_Loop Multi_Agent Tool_Properties
begin

text \<open>
  \<^bold>\<open>The program.\<close> An investment assistant that users talk to over several chat channels. Market events
  are polled, stored, and pushed to the users they concern, at once or in digests; users schedule tasks that
  run at a time of day; their portfolios, quotas and schedules live in per-actor files. An \<^emph>\<open>actor\<close> (channel,
  user, optional group scope) is the unit of isolation: every store is keyed by it.

  \<^bold>\<open>Theories and sources\<close> (paths under \<^verbatim>\<open>src/\<close>; the definitions keep the names of the functions):

  \<^item> \<^verbatim>\<open>Rust_Prelude\<close>: the string operations of Rust's standard library, JSON values, counters, list lemmas.
  \<^item> \<^verbatim>\<open>Actor\<close>: \<^verbatim>\<open>crates/hone-core/src/actor.rs\<close>, \<^verbatim>\<open>error.rs\<close>: identities, storage keys, session ids.
  \<^item> \<^verbatim>\<open>Calendar\<close>: instants, local time, and the interface of the crate \<^verbatim>\<open>chrono\<close>.
  \<^item> \<^verbatim>\<open>Time_Windows\<close>: \<^verbatim>\<open>hone-core/src/quiet.rs\<close>, \<^verbatim>\<open>hone-event-engine/src/digest/time_window.rs\<close>.
  \<^item> \<^verbatim>\<open>Event\<close>: \<^verbatim>\<open>hone-event-engine/src/event.rs\<close>, the delivery filter of \<^verbatim>\<open>prefs.rs\<close>,
    \<^verbatim>\<open>unified_digest/floor.rs\<close>.
  \<^item> \<^verbatim>\<open>Disk\<close>: the files the local stores rewrite, and the locale \<open>file_store\<close> of what they rely on.
  \<^item> \<^verbatim>\<open>Portfolio\<close>, \<^verbatim>\<open>Quota\<close>: \<^verbatim>\<open>memory/src/portfolio.rs\<close>, \<^verbatim>\<open>quota.rs\<close>, local mode.
  \<^item> \<^verbatim>\<open>Cron_Schedule\<close>, \<^verbatim>\<open>Cron_Storage\<close>, \<^verbatim>\<open>Cron_History\<close>: \<^verbatim>\<open>memory/src/cron_job/\<close> (\<^verbatim>\<open>types.rs\<close>,
    \<^verbatim>\<open>schedule.rs\<close>; \<^verbatim>\<open>storage.rs\<close>; \<^verbatim>\<open>history.rs\<close>), and \<^verbatim>\<open>hone-core/src/text.rs\<close>.
  \<^item> \<^verbatim>\<open>Scheduler\<close>: \<^verbatim>\<open>crates/hone-scheduler/src/lib.rs\<close>.
  \<^item> \<^verbatim>\<open>Subscription\<close>, \<^verbatim>\<open>Event_Store\<close>, \<^verbatim>\<open>Renderer\<close>: \<^verbatim>\<open>hone-event-engine/src/subscription.rs\<close>,
    \<^verbatim>\<open>store.rs\<close>, \<^verbatim>\<open>renderer.rs\<close>.
  \<^item> \<^verbatim>\<open>Digest_Buffer\<close>, \<^verbatim>\<open>Digest_Curation\<close>: \<^verbatim>\<open>hone-event-engine/src/digest/\<close> (\<^verbatim>\<open>buffer.rs\<close>;
    \<^verbatim>\<open>render.rs\<close>, \<^verbatim>\<open>payload.rs\<close>, \<^verbatim>\<open>curation.rs\<close>).
  \<^item> \<^verbatim>\<open>Router\<close>, \<^verbatim>\<open>Dispatch\<close>, \<^verbatim>\<open>Dispatch_Cap\<close>: \<^verbatim>\<open>hone-event-engine/src/router/\<close>.
  \<^item> \<^verbatim>\<open>Digest_Scheduler\<close>: \<^verbatim>\<open>hone-event-engine/src/unified_digest/scheduler.rs\<close>, the countdowns of
    \<^verbatim>\<open>pollers/earnings.rs\<close>, the minute loop of \<^verbatim>\<open>pipeline.rs\<close>.
  \<^item> \<^verbatim>\<open>Web_Auth\<close>: \<^verbatim>\<open>memory/src/web_auth.rs\<close>, SQLite mode.
  \<^item> \<^verbatim>\<open>Session_Message\<close>, \<^verbatim>\<open>Session_Store\<close>: \<^verbatim>\<open>memory/src/session.rs\<close>, \<^verbatim>\<open>session_sqlite.rs\<close>.
  \<^item> \<^verbatim>\<open>Stream_Formatter\<close>: \<^verbatim>\<open>hone-channels/src/think.rs\<close>, \<^verbatim>\<open>tool_display_map\<close> of \<^verbatim>\<open>runtime.rs\<close>.
  \<^item> \<^verbatim>\<open>Ingress\<close>: \<^verbatim>\<open>hone-channels/src/ingress.rs\<close>: triggers, group windows, session locks, duplicates.
  \<^item> \<^verbatim>\<open>User_Visible\<close>: \<^verbatim>\<open>hone-channels/src/runtime.rs\<close>, the cleaning of output and the error notices.
  \<^item> \<^verbatim>\<open>Message_Split\<close>, \<^verbatim>\<open>Message_Markup\<close>, \<^verbatim>\<open>Outbound\<close>: \<^verbatim>\<open>runtime.rs\<close>,
    \<^verbatim>\<open>outbound.rs\<close>: cutting long answers, their markup, images and progress.

  \<^item> \<^verbatim>\<open>Conversation\<close>: \<^verbatim>\<open>hone-core/src/agent.rs\<close>, \<^verbatim>\<open>hone-channels/src/agent_session/restore.rs\<close>,
    \<^verbatim>\<open>helpers.rs\<close>: messages of an agent, turns, what is stored of a run and restored for the next.
  \<^item> \<^verbatim>\<open>Compaction\<close>, \<^verbatim>\<open>Response_Finalizer\<close>, \<^verbatim>\<open>Run_Events\<close>: \<^verbatim>\<open>hone-channels/src/session_compactor.rs\<close>,
    \<^verbatim>\<open>response_finalizer.rs\<close>, \<^verbatim>\<open>run_event.rs\<close> with \<^verbatim>\<open>agent_session/emitter.rs\<close>.
  \<^item> \<^verbatim>\<open>Agent_Session\<close>, \<^verbatim>\<open>Agent_Run\<close>: \<^verbatim>\<open>hone-channels/src/agent_session/core.rs\<close>, \<^verbatim>\<open>guard.rs\<close>,
    \<^verbatim>\<open>artifacts.rs\<close>, \<^verbatim>\<open>execution.rs\<close>, \<^verbatim>\<open>turn_builder.rs\<close>: the run of a turn; \<^verbatim>\<open>Run_Properties\<close> holds its theorems.
  \<^item> \<^verbatim>\<open>Heartbeat_Parse\<close>, \<^verbatim>\<open>Heartbeat_Guards\<close>, \<^verbatim>\<open>Scheduled_Prompt\<close>, \<^verbatim>\<open>Scheduled_Tasks\<close>:
    \<^verbatim>\<open>hone-channels/src/scheduler.rs\<close>: the answers of reminders, the guards on what is delivered, the prompts, the
    execution; \<^verbatim>\<open>Scheduled_Properties\<close> holds its theorems.
  \<^item> \<^verbatim>\<open>Local_Files\<close>, \<^verbatim>\<open>Object_Store\<close>: \<^verbatim>\<open>hone-tools/src/local_files.rs\<close>, local and cloud mode, and the keys of
    \<^verbatim>\<open>hone-core/src/cloud_runtime.rs\<close>.
  \<^item> \<^verbatim>\<open>Tool_Guard\<close>, \<^verbatim>\<open>Agent_Loop\<close>, \<^verbatim>\<open>Multi_Agent\<close>: \<^verbatim>\<open>hone-tools/src/guard.rs\<close>, \<^verbatim>\<open>registry.rs\<close>;
    \<^verbatim>\<open>agents/function_calling/src/lib.rs\<close> with \<^verbatim>\<open>hone-channels/src/runners/tool_reasoning.rs\<close>;
    \<^verbatim>\<open>runners/multi_agent.rs\<close>; \<^verbatim>\<open>Tool_Properties\<close> holds their theorems.

  \<^bold>\<open>How the parts interact.\<close> An event is stored (\<open>insert_event\<close>), then dispatched (\<open>dispatch\<close>): news may be
  raised by other signals in the store, the registry built from the portfolios names the actors, each actor's
  preferences filter it, the delivery log decides caps and cooldowns, and the result is a message, a hold until the
  quiet hours end, or a place in the actor's digest buffer; every outcome is a row of the delivery log. Each minute
  \<open>tick_once\<close> sends what was held and what is buffered, at the end of the quiet hours and at the slots. The cron
  store yields the due jobs (\<open>get_due_jobs\<close>), the scheduler hands them over and marks them, and the history
  records their executions. An answer of a model streams through the formatter (\<open>push_chunk\<close>) to the chat; the
  messages of the conversation are kept by the session store, whose index, when there is one, is written after the
  file and may be read before it. A run (\<open>run\<close>) reserves the quota, files the message of the user, compacts the
  conversation when it is long, restores the context (\<open>restore_context\<close>), calls a runner until it answers, finishes the
  answer (\<open>finalize_agent_response\<close>), stores it and hands it out as an event. A runner may be the agent (\<open>agent_run\<close>), which
  asks a model and executes the tools it calls for behind their guard, alone or as the search stage before an answer
  agent (\<open>multi_agent_run\<close>). A due task (\<open>execute_scheduler_event\<close>) is such a run, or a single call for a reminder, whose
  answer has to pass the guards before it is delivered.

  \<^bold>\<open>What the lemmas show.\<close> Identities: what is escaped comes back, distinct actors never share a key (two theorems say
  where the escaping and the cloud keys fail). Stores: each write is the map update its operation stands for and leaves
  other actors alone; schedules stay valid, and limited in number for all but admins. Scheduling: the due scan is total,
  exact, repeats nothing and loses nothing on the day; a check marks what it hands over and what has no target. Delivery: the
  daily cap holds over every sequence of dispatches; each dispatch keeps the advance of the price bands, the cooldown of a
  symbol within its category and the quiet hours, accounts for every hit once, and its messages are well formed whatever
  an event contains. Digests: sent when allowed, once per slot on a date of the minute loop, the floor first; two theorems say
  what a refused digest and long quiet hours lose. Logins: only the owner of a session gets in, before the period chosen at
  its login is over; revocation is immediate. Conversations: no message is lost or reordered, short of a new creation, a
  replacement or a removal; the SQLite index cannot be seen while it mirrors the files, and a theorem says what its failure
  costs; the outputs of the stream formatter do not depend on where the chunks end. Channels: one guard per conversation,
  duplicates and group windows bounded, long answers cut without loss, cut messages balanced (in HTML as long as no cut goes
  through a tag), errors fit for users (but for the line that tells the daily limit). Runs: every run ends with one answer,
  handed out last and once; with a conversation stored and the disk writable a success is stored, a success is charged and a
  failure is not; turns in normal form survive the way through the messages of a model; a compaction keeps what is recent; a
  theorem says what an unreadable index costs. Scheduled tasks: a delivered reminder was read as triggered, has none of the
  listed phrases of an instruction to trade and is none of the listed earlier ones. Tools: the loop with the model ends; its
  requests have every call answered if the history handed in has, which one theorem shows for the search stage and another
  refutes for the agent alone; a refused call never runs. Files: the tools of an actor see nothing of another, in either mode,
  but for ids that differ in a dash at the end in the cloud mode.

  \<^bold>\<open>Conventions.\<close> A Rust string is a list of code points; a fallible function returns a sum or an option; a file or a
  table is the list of its records, and writing it may fail. Unsigned counters are naturals where the source cannot
  overflow them; \<^verbatim>\<open>i64\<close> bounds are written out where text is parsed. Functions that are not under \<^verbatim>\<open>src\<close>
  (\<^verbatim>\<open>chrono\<close>, \<^verbatim>\<open>serde_json\<close>, SQLite's JSON, Unicode tables, the channels behind a trait) are arguments, and the
  laws a property needs of them are its hypotheses. So are the models, the runners that are processes of their own, the
  skill runtime, the texts of prompts, the walk through directories and the object store. No definition needs fuel: the
  loops are structural or have a measure, and the calendar searches are bounded by the source. A run calls its runner at
  most six times (three tries in two rounds), the agent asks its model as often as it is configured to, and a path is
  followed through at most forty links, as the system does.

  \<^bold>\<open>Not modelled\<close>, with the reasons in the manifest: the cloud mode of the stores (statements against PostgreSQL in a
  runtime of its own), the runners that are processes or protocols of others, network clients, pollers and sinks, the
  web routes, the tools in front of the stores and of web services, the skill runtime, attachments, the desktop shell,
  command line and channel adapters, and the loading of settings; these call services or the modelled stores and have
  little state of their own. Within the modelled parts: concurrency (each operation is one step, as the locks of the
  stores make it; two pollers that dispatch at the same moment could both pass a cap check), the logging macros, the
  creation of directories and tables, and times, latencies and random ids other than where they are parameters.
\<close>

end
